(* ===== verification/Prelude.thy ===== *)
theory Prelude
  imports Main "HOL-Library.Word"
begin

unbundle bit_operations_syntax

text \<open>
  Shared vocabulary of the development: the machine integers of the C++ code, the
  error values that stand for its exceptions and for faults of the host process,
  the memory of the host process as a partial map from addresses to bytes with the
  byte copies the code performs on it, and little-endian loads and stores.
\<close>

section \<open>Machine integers\<close>

type_synonym u8 = "8 word"
type_synonym u16 = "16 word"
type_synonym u32 = "32 word"
type_synonym u64 = "64 word"

named_theorems mem_simps \<open>facts on host memory reads and writes\<close>
named_theorems word_facts \<open>facts that move word arithmetic to the naturals\<close>

section \<open>Errors\<close>

text \<open>
  \<open>InvalidAddressException a\<close> is the C++ exception of common/exception.h.
  \<open>HostFault a\<close> is the access of an unmapped address of the analysing process
  itself (a segmentation fault), which the C++ code cannot catch.
\<close>

datatype exn = InvalidAddressException u64 | HostFault u64

type_synonym 'a res = "exn + 'a"

fun res_bind :: "'e + 'a \<Rightarrow> ('a \<Rightarrow> 'e + 'b) \<Rightarrow> 'e + 'b" where
  "res_bind (Inl e) f = Inl e"
| "res_bind (Inr x) f = f x"

lemma res_bind_Inr_iff: "res_bind m f = Inr y \<longleftrightarrow> (\<exists>x. m = Inr x \<and> f x = Inr y)"
  by (cases m) auto

lemma res_bind_Inl_iff: "res_bind m f = Inl e \<longleftrightarrow> m = Inl e \<or> (\<exists>x. m = Inr x \<and> f x = Inl e)"
  by (cases m) auto

lemma res_bind_right_id: "res_bind m Inr = m"
  by (cases m) simp_all

lemma res_bind_assoc: "res_bind (res_bind m f) g = res_bind m (\<lambda>x. res_bind (f x) g)"
  by (cases m) auto

section \<open>Words and naturals\<close>

lemma unat_diff_self_add [word_facts]:
  fixes a :: "'a::len word"
  assumes "i < 2 ^ LENGTH('a)"
  shows "unat (a + of_nat i - a) = i"
  using assms by (simp add: unat_of_nat take_bit_nat_eq_self)

lemma add_of_nat_unat_diff [word_facts]:
  fixes a x :: "'a::len word"
  shows "a + of_nat (unat (x - a)) = x"
  by simp

lemma unat_add_no_wrap [word_facts]:
  fixes a b :: "'a::len word"
  assumes "unat a + unat b < 2 ^ LENGTH('a)"
  shows "unat (a + b) = unat a + unat b"
  using assms by (simp add: unat_word_ariths)

lemma unat_diff_le [word_facts]:
  fixes a b :: "'a::len word"
  assumes "b \<le> a"
  shows "unat (a - b) = unat a - unat b"
  using assms by (simp add: unat_sub)

lemma in_range_iff_unat:
  fixes a x :: "'a::len word"
  assumes "unat a + n \<le> 2 ^ LENGTH('a)"
  shows "unat (x - a) < n \<longleftrightarrow> unat a \<le> unat x \<and> unat x < unat a + n"
proof (cases "a \<le> x")
  case True
  then show ?thesis by (auto simp: unat_diff_le word_le_nat_alt)
next
  case False
  then have lt: "x < a" by simp
  then have "unat (x - a) = 2 ^ LENGTH('a) + unat x - unat a"
    by (simp add: unat_sub_if_size word_less_nat_alt word_size)
  with assms lt show ?thesis
    by (auto simp: word_less_nat_alt)
qed

section \<open>Host memory\<close>

text \<open>
  The analysing process keeps the core file, its overlays and its file mappings in
  its own address space; \<open>reinterpret_cast\<close> and \<open>memcpy\<close> of the code act there.
  An address that is not mapped is \<open>None\<close>.
\<close>

type_synonym host = "u64 \<Rightarrow> u8 option"

fun host_read :: "host \<Rightarrow> u64 \<Rightarrow> nat \<Rightarrow> u8 list res" where
  "host_read h a 0 = Inr []"
| "host_read h a (Suc n) =
     (case h a of None \<Rightarrow> Inl (HostFault a)
      | Some b \<Rightarrow> res_bind (host_read h (a + 1) n) (\<lambda>bs. Inr (b # bs)))"

fun host_write :: "host \<Rightarrow> u64 \<Rightarrow> u8 list \<Rightarrow> host res" where
  "host_write h a [] = Inr h"
| "host_write h a (b # bs) =
     (case h a of None \<Rightarrow> Inl (HostFault a)
      | Some _ \<Rightarrow> host_write (h(a \<mapsto> b)) (a + 1) bs)"

text \<open>\<open>memcpy(dst, src, n)\<close>: the source is read before the destination is written.\<close>

definition memcpy :: "host \<Rightarrow> u64 \<Rightarrow> u64 \<Rightarrow> nat \<Rightarrow> host res" where
  "memcpy h dst src n = res_bind (host_read h src n) (host_write h dst)"

text \<open>The bytes of a fresh mapping at \<open>b\<close>: a list of contents laid over the old map.\<close>

definition host_map :: "host \<Rightarrow> u64 \<Rightarrow> u8 list \<Rightarrow> host" where
  "host_map h b bs = (\<lambda>x. if unat (x - b) < length bs then Some (bs ! unat (x - b)) else h x)"

lemma host_read_Inr_iff [mem_simps]:
  "host_read h a n = Inr bs \<longleftrightarrow>
     length bs = n \<and> (\<forall>i<n. h (a + of_nat i) = Some (bs ! i))"
proof (induction n arbitrary: a bs)
  case 0
  then show ?case by auto
next
  case (Suc n)
  have step: "(\<forall>i<Suc n. h (a + of_nat i) = Some ((b # cs) ! i)) \<longleftrightarrow>
      h a = Some b \<and> (\<forall>i<n. h (a + 1 + of_nat i) = Some (cs ! i))" for b cs
    by (simp add: All_less_Suc2 add.assoc)
  show ?case
  proof (cases bs)
    case Nil
    then show ?thesis by (auto split: option.splits simp: res_bind_Inr_iff)
  next
    case (Cons b cs)
    show ?thesis
      unfolding Cons step by (auto split: option.splits simp: res_bind_Inr_iff Suc.IH)
  qed
qed

lemma host_map_Cons:
  assumes "length bs < 2 ^ 64"
  shows "host_map (h(a \<mapsto> b)) (a + 1) bs = host_map h a (b # bs)"
proof
  fix x :: u64
  show "host_map (h(a \<mapsto> b)) (a + 1) bs x = host_map h a (b # bs) x"
  proof (cases "x = a")
    case True
    have "a - (a + 1) = - 1" by simp
    then have "unat (a - (a + 1)) = 2 ^ 64 - 1"
      by (simp add: unsigned_minus_1_eq_mask mask_eq_exp_minus_1)
    with True assms show ?thesis by (simp add: host_map_def)
  next
    case False
    have e: "x - (a + 1) = x - a - 1" by simp
    have nz: "x - a \<noteq> 0" using False by simp
    then have "0 < unat (x - a)" by (simp add: unat_gt_0)
    then have "unat (x - a) = Suc (unat (x - (a + 1)))"
      unfolding e unat_minus_one [OF nz] by simp
    with False show ?thesis by (simp add: host_map_def)
  qed
qed

lemma host_write_Inr_iff [mem_simps]:
  assumes "length bs \<le> 2 ^ 64"
  shows "host_write h a bs = Inr h' \<longleftrightarrow>
    (\<forall>i<length bs. h (a + of_nat i) \<noteq> None) \<and> h' = host_map h a bs"
  using assms
proof (induction bs arbitrary: h a)
  case Nil
  then show ?case by (auto simp: host_map_def)
next
  case (Cons b bs)
  have IH: "host_write (h(a \<mapsto> b)) (a + 1) bs = Inr h' \<longleftrightarrow>
      (\<forall>i<length bs. (h(a \<mapsto> b)) (a + 1 + of_nat i) \<noteq> None) \<and> h' = host_map h a (b # bs)"
    using Cons by (simp add: host_map_Cons)
  have ne: "1 + of_nat i \<noteq> (0 :: u64)" if "i < length bs" for i
  proof
    assume "1 + of_nat i = (0 :: u64)"
    then have "of_nat (Suc i) = (0 :: u64)" by simp
    then have "2 ^ LENGTH(64) dvd Suc i" by (simp only: word_of_nat_eq_0_iff)
    then show False
      using that Cons.prems by (auto dest!: dvd_imp_le)
  qed
  show ?case
    by (auto simp: IH All_less_Suc2 ne add.assoc split: option.splits)
qed

lemma host_map_in:
  "unat (x - b) < length bs \<Longrightarrow> host_map h b bs x = Some (bs ! unat (x - b))"
  by (simp add: host_map_def)

lemma host_map_out: "\<not> unat (x - b) < length bs \<Longrightarrow> host_map h b bs x = h x"
  by (simp add: host_map_def)

lemma host_map_at:
  "i < length bs \<Longrightarrow> length bs \<le> 2 ^ 64 \<Longrightarrow> host_map h b bs (b + of_nat i) = Some (bs ! i)"
  by (simp add: host_map_def unat_of_nat take_bit_nat_eq_self)

lemma host_write_mapped:
  assumes "length bs \<le> 2 ^ 64" and "\<forall>i<length bs. h (a + of_nat i) \<noteq> None"
  shows "host_write h a bs = Inr (host_map h a bs)"
  using assms by (simp add: host_write_Inr_iff)

text \<open>What was written is read back.\<close>

lemma host_read_host_map:
  assumes "length bs \<le> 2 ^ 64"
  shows "host_read (host_map h a bs) a (length bs) = Inr bs"
  using assms by (simp add: host_read_Inr_iff host_map_at)

text \<open>A read that does not meet the mapped range sees the old bytes.\<close>

lemma host_read_host_map_disjoint:
  assumes "\<forall>i<n. \<not> unat (a + of_nat i - b) < length bs"
  shows "host_read (host_map h b bs) a n = host_read h a n"
  using assms
proof (induction n arbitrary: a)
  case 0
  then show ?case by simp
next
  case (Suc n)
  have "host_map h b bs a = h a"
    using Suc.prems [rule_format, of 0] by (simp add: host_map_out)
  moreover have "host_read (host_map h b bs) (a + 1) n = host_read h (a + 1) n"
    using Suc.prems by (intro Suc.IH) (auto simp: All_less_Suc2 add.assoc)
  ultimately show ?case by (simp split: option.splits)
qed

lemma host_read_nth:
  "host_read h a n = Inr bs \<Longrightarrow> i < n \<Longrightarrow> h (a + of_nat i) = Some (bs ! i)"
  by (simp add: host_read_Inr_iff)

lemma host_read_length: "host_read h a n = Inr bs \<Longrightarrow> length bs = n"
  by (simp add: host_read_Inr_iff)

lemma host_read_mapped:
  assumes "\<forall>i<n. h (a + of_nat i) \<noteq> None"
  shows "host_read h a n = Inr (map (\<lambda>i. the (h (a + of_nat i))) [0..<n])"
  using assms by (auto simp: host_read_Inr_iff)

text \<open>A read of \<open>n\<close> bytes at \<open>k\<close> inside a longer read is a slice of it.\<close>

lemma host_read_slice:
  assumes "host_read h a n = Inr bs" and "k + m \<le> n"
  shows "host_read h (a + of_nat k) m = Inr (take m (drop k bs))"
proof -
  have "h (a + of_nat k + of_nat i) = Some (bs ! (k + i))" if "i < m" for i
    using assms that host_read_nth [OF assms(1), of "k + i"] by (simp add: add.assoc)
  with assms show ?thesis
    by (auto simp: host_read_Inr_iff)
qed

section \<open>Little-endian integers\<close>

fun le_val :: "u8 list \<Rightarrow> nat" where
  "le_val [] = 0"
| "le_val (b # bs) = unat b + 256 * le_val bs"

fun le_bytes :: "nat \<Rightarrow> nat \<Rightarrow> u8 list" where
  "le_bytes 0 v = []"
| "le_bytes (Suc n) v = of_nat v # le_bytes n (v div 256)"

definition le_word :: "u8 list \<Rightarrow> 'a::len word" where
  "le_word bs = of_nat (le_val bs)"

lemma length_le_bytes [simp]: "length (le_bytes n v) = n"
  by (induction n arbitrary: v) auto

lemma le_val_bound: "le_val bs < 256 ^ length bs"
proof (induction bs)
  case (Cons b bs)
  have "unat b < 256" using unsigned_less [of b] by simp
  with Cons show ?case by simp
qed simp

lemma le_val_le_bytes: "le_val (le_bytes n v) = v mod 256 ^ n"
proof (induction n arbitrary: v)
  case (Suc n)
  have "unat (of_nat v :: u8) = v mod 256"
    by (simp add: unat_of_nat take_bit_eq_mod)
  with Suc show ?case by (simp add: mod_mult2_eq)
qed simp

lemma le_bytes_le_val: "le_bytes (length bs) (le_val bs) = bs"
proof (induction bs)
  case (Cons b bs)
  have b: "unat b < 256" using unsigned_less [of b] by simp
  have "(of_nat (unat b + 256 * le_val bs) :: u8) = of_nat (unat b)"
    by (simp only: word_of_nat_eq_iff) (simp add: take_bit_eq_mod)
  moreover have "(unat b + 256 * le_val bs) div 256 = le_val bs"
    using b by simp
  ultimately show ?case using Cons by simp
qed simp

lemma le_word_le_bytes:
  assumes "8 * n = LENGTH('a)"
  shows "le_word (le_bytes n (unat w)) = (w :: 'a::len word)"
proof -
  have "(256 :: nat) ^ n = 2 ^ LENGTH('a)"
    using power_mult [of "2::nat" 8 n] assms by simp
  then show ?thesis by (simp add: le_word_def le_val_le_bytes)
qed

section \<open>Replacing a slice of a list\<close>

definition splice_at :: "nat \<Rightarrow> 'a list \<Rightarrow> 'a list \<Rightarrow> 'a list" where
  "splice_at lo buf xs = take lo xs @ buf @ drop (lo + length buf) xs"

lemma length_splice_at: "lo + length buf \<le> length xs \<Longrightarrow> length (splice_at lo buf xs) = length xs"
  by (simp add: splice_at_def)

lemma splice_at_same: "lo + length buf \<le> length xs \<Longrightarrow> take (length buf) (drop lo (splice_at lo buf xs)) = buf"
  by (simp add: splice_at_def)

lemma splice_at_nth:
  "lo + length buf \<le> length xs \<Longrightarrow> k < length xs \<Longrightarrow>
   splice_at lo buf xs ! k = (if lo \<le> k \<and> k < lo + length buf then buf ! (k - lo) else xs ! k)"
  by (auto simp: splice_at_def nth_append)

lemma splice_at_other:
  assumes "lo + length buf \<le> length xs" "o1 + n \<le> length xs" "o1 + n \<le> lo \<or> lo + length buf \<le> o1"
  shows "take n (drop o1 (splice_at lo buf xs)) = take n (drop o1 xs)"
  using assms by (intro nth_equalityI) (auto simp: length_splice_at splice_at_nth)

section \<open>C strings\<close>

text \<open>
  The characters up to the first zero byte, as \<open>strlen\<close> and the \<open>std::string\<close> constructor
  find them. A scan that would pass the last address of the host faults.
\<close>

function c_string :: "host \<Rightarrow> u64 \<Rightarrow> string res" where
  "c_string h a =
     (case h a of None \<Rightarrow> Inl (HostFault a)
      | Some b \<Rightarrow>
          if b = 0 then Inr []
          else if a + 1 = 0 then Inl (HostFault 0)
          else res_bind (c_string h (a + 1)) (\<lambda>s. Inr (char_of (unat b) # s)))"
  by pat_completeness auto
termination
proof (relation "measure (\<lambda>(h, a). 2 ^ 64 - unat a)", goal_cases)
  case (2 h a b)
  then have "unat (a + 1) = unat a + 1"
    by (metis unatSuc Suc_eq_plus1 add.commute)
  moreover have "unat (a + 1) < 2 ^ 64" using unsigned_less [of "a + 1"] by simp
  ultimately show ?case by simp
qed simp

declare c_string.simps [simp del]

lemma of_char_u8: "unat (of_nat (of_char c) :: u8) = of_char c"
  by (simp add: unat_of_nat)

lemma c_string_intro:
  assumes "\<forall>i<length s. h (a + of_nat i) = Some (of_nat (of_char (s ! i))) \<and> s ! i \<noteq> char_of (0::nat)"
    and "h (a + of_nat (length s)) = Some 0" and "unat a + length s < 2 ^ 64"
  shows "c_string h a = Inr s"
  using assms
proof (induction s arbitrary: a)
  case Nil
  then show ?case by (subst c_string.simps) simp
next
  case (Cons c s)
  have ha: "h a = Some (of_nat (of_char c))" and nz: "c \<noteq> char_of (0::nat)"
    using Cons.prems(1) [rule_format, of 0] by auto
  have ne: "(of_nat (of_char c) :: u8) \<noteq> 0"
  proof
    assume "(of_nat (of_char c) :: u8) = 0"
    then have "unat (of_nat (of_char c) :: u8) = 0" by simp
    then have "(of_char c :: nat) = 0" by (simp only: of_char_u8)
    then have "(char_of (of_char c :: nat) :: char) = char_of (0::nat)" by simp
    then show False using nz by simp
  qed
  have wrap: "unat (a + 1) = unat a + 1"
    using Cons.prems(3) by (subst unat_add_no_wrap) auto
  then have "a + 1 \<noteq> 0" by auto
  moreover have "c_string h (a + 1) = Inr s"
  proof (rule Cons.IH)
    show "\<forall>i<length s. h (a + 1 + of_nat i) = Some (of_nat (of_char (s ! i))) \<and> s ! i \<noteq> char_of (0::nat)"
      using Cons.prems(1) by (auto simp: All_less_Suc2 add.assoc)
    show "h (a + 1 + of_nat (length s)) = Some 0"
      using Cons.prems(2) by (simp add: add.assoc)
    show "unat (a + 1) + length s < 2 ^ 64" using Cons.prems(3) wrap by simp
  qed
  ultimately show ?case
    using ha ne by (subst c_string.simps) (simp only: option.case if_False res_bind.simps of_char_u8 char_of_char)
qed

end
