(* ===== verification/BaseUtils.thy ===== *)
theory BaseUtils
  imports Prelude
begin

unbundle bit_operations_syntax

text \<open>
  The arithmetic helpers of core/common/bit.h and the pure functions of
  utils/base/utils.cpp: rounding to powers of two, bit masks, the two cyclic
  redundancy checks, hexadecimal printing and reading, and the ASCII column of a
  memory dump.
\<close>

section \<open>core/common/bit.h\<close>

text \<open>
  \<open>GENMASK_UL(h, l)\<close>; a shift by a negative amount is undefined in C++, so the
  arguments are naturals and the callers keep them at most 63.
\<close>

definition GENMASK_UL :: "nat \<Rightarrow> nat \<Rightarrow> u64" where
  "GENMASK_UL h l = push_bit l (NOT 0) AND drop_bit (64 - 1 - h) (NOT 0)"

definition RoundDown :: "'a::len word \<Rightarrow> 'a word \<Rightarrow> 'a word" where
  "RoundDown x n = x AND (- n)"

definition RoundUp :: "'a::len word \<Rightarrow> 'a word \<Rightarrow> 'a word" where
  "RoundUp x n = RoundDown (x + n - 1) n"

section \<open>utils/base/utils.cpp\<close>

fun ConvertAscii_loop :: "u64 \<Rightarrow> nat \<Rightarrow> nat \<Rightarrow> string" where
  "ConvertAscii_loop v i 0 = []"
| "ConvertAscii_loop v i (Suc n) =
     (let byte = ucast (drop_bit (8 * i) v AND 0xFF) :: u8
      in (if byte > 0x20 \<and> byte < 0x7F then char_of (unat byte) else CHR ''.'')
         # ConvertAscii_loop v (Suc i) n)"

definition ConvertAscii :: "u64 \<Rightarrow> nat \<Rightarrow> string" where
  "ConvertAscii value len = ConvertAscii_loop value 0 len"

text \<open>Digits of a number in a base, most significant first; \<open>std::to_string\<close> and
  \<open>std::hex\<close> print them.\<close>

function digits :: "nat \<Rightarrow> nat \<Rightarrow> nat list" where
  "digits b n = (if n < b \<or> b < 2 then [n] else digits b (n div b) @ [n mod b])"
  by pat_completeness auto
termination
  by (relation "measure snd") auto

declare digits.simps [simp del]

definition hex_char :: "nat \<Rightarrow> char" where
  "hex_char d = (if d < 10 then char_of (48 + d) else char_of (87 + d))"

definition hex_string :: "nat \<Rightarrow> string" where
  "hex_string n = map hex_char (digits 16 n)"

definition to_string :: "nat \<Rightarrow> string" where
  "to_string n = map (\<lambda>d. char_of (48 + d)) (digits 10 n)"

definition ToHex :: "u64 \<Rightarrow> string" where
  "ToHex value = ''0x'' @ hex_string (unat value)"

text \<open>
  \<open>sscanf\<close> with \<open>%lx\<close>: white space, an optional sign, an optional \<open>0x\<close>, then hexadecimal
  digits. A matching failure leaves \<open>value\<close> uninitialised and an out-of-range number is
  undefined behaviour; both are \<open>None\<close>.
\<close>

definition hex_value :: "char \<Rightarrow> nat option" where
  "hex_value c = (let k = of_char c :: nat in
     if 48 \<le> k \<and> k \<le> 57 then Some (k - 48)
     else if 97 \<le> k \<and> k \<le> 102 then Some (k - 87)
     else if 65 \<le> k \<and> k \<le> 70 then Some (k - 55)
     else None)"

definition is_space :: "char \<Rightarrow> bool" where
  "is_space c = (let k = of_char c :: nat in k = 32 \<or> (9 \<le> k \<and> k \<le> 13))"

fun scan_hex :: "nat \<Rightarrow> string \<Rightarrow> nat" where
  "scan_hex acc [] = acc"
| "scan_hex acc (c # cs) =
     (case hex_value c of None \<Rightarrow> acc | Some d \<Rightarrow> scan_hex (acc * 16 + d) cs)"

definition scan_hex_digits :: "string \<Rightarrow> nat option" where
  "scan_hex_digits s =
     (case s of [] \<Rightarrow> None
      | c # cs \<Rightarrow> (case hex_value c of None \<Rightarrow> None | Some d \<Rightarrow> Some (scan_hex 0 s)))"

definition scan_unsigned_hex :: "string \<Rightarrow> nat option" where
  "scan_unsigned_hex s =
     (case s of c0 # c1 # cs \<Rightarrow>
        if c0 = CHR ''0'' \<and> (c1 = CHR ''x'' \<or> c1 = CHR ''X'') then scan_hex_digits cs
        else scan_hex_digits s
      | _ \<Rightarrow> scan_hex_digits s)"

definition Utils_atol :: "string \<Rightarrow> u64 option" where
  "Utils_atol src =
     (let s = dropWhile is_space src;
          (neg, body) = (case s of c # cs \<Rightarrow>
             if c = CHR ''-'' then (True, cs) else if c = CHR ''+'' then (False, cs) else (False, s)
             | [] \<Rightarrow> (False, []))
      in case scan_unsigned_hex body of None \<Rightarrow> None
         | Some v \<Rightarrow> if 2 ^ 64 \<le> v then None
                     else Some (if neg then - of_nat v else of_nat v))"

text \<open>The body of the bit loop of \<open>CRC32\<close>, the loop over one byte, and the whole check.\<close>

definition crc32_shift :: "u32 \<Rightarrow> u32" where
  "crc32_shift crc =
     (if crc AND push_bit 31 1 \<noteq> 0 then push_bit 1 crc XOR 0x04C11DB7 else push_bit 1 crc)
     AND 0xFFFFFFFF"

definition crc32_byte :: "u8 \<Rightarrow> u32 \<Rightarrow> u32" where
  "crc32_byte b crc = (crc32_shift ^^ 8) (crc XOR push_bit 24 (ucast b))"

text \<open>The bytes of the buffer; its length is a \<open>uint32_t\<close> in the code, so lists of up to \<open>2^32 - 1\<close> bytes
  have a counterpart.\<close>

definition CRC32 :: "u8 list \<Rightarrow> u32" where
  "CRC32 data = fold crc32_byte data 0xFFFFFFFF"

definition crc64_shift :: "u64 \<Rightarrow> u64" where
  "crc64_shift crc =
     (if crc AND push_bit 63 1 \<noteq> 0 then push_bit 1 crc XOR 0x42F0E1EBA9EA3693
      else push_bit 1 crc)"

definition crc64_byte :: "u8 \<Rightarrow> u64 \<Rightarrow> u64" where
  "crc64_byte b crc = (crc64_shift ^^ 8) (crc XOR push_bit 56 (ucast b))"

definition CRC64 :: "u8 list \<Rightarrow> u64" where
  "CRC64 data = fold crc64_byte data 0xFFFFFFFFFFFFFFFF"

section \<open>Rounding\<close>

lemma RoundDown_eq_push_drop: "RoundDown x (2 ^ k) = push_bit k (drop_bit k x)"
  unfolding RoundDown_def minus_exp_eq_not_mask
  by (rule bit_eqI) (auto simp: bit_simps)

lemma unat_RoundDown:
  fixes x :: "'a::len word"
  shows "unat (RoundDown x (2 ^ k)) = 2 ^ k * (unat x div 2 ^ k)"
proof -
  have "2 ^ k * (unat x div 2 ^ k) \<le> unat x" by simp
  also have "unat x < 2 ^ LENGTH('a)" by simp
  finally have b: "2 ^ k * (unat x div 2 ^ k) < 2 ^ LENGTH('a)" .
  have "unat (drop_bit k x) = drop_bit k (unat x)"
    by (simp only: unsigned_drop_bit_eq take_bit_nat_eq_self unsigned_less)
  then have d: "unat (drop_bit k x) = unat x div 2 ^ k"
    by (simp only: drop_bit_eq_div [of k "unat x"])
  have "unat (push_bit k (drop_bit k x)) = take_bit LENGTH('a) (2 ^ k * (unat x div 2 ^ k))"
    by (simp only: unsigned_push_bit_eq d push_bit_eq_mult [of k "unat x div 2 ^ k"] mult.commute)
  with b show ?thesis
    by (simp only: RoundDown_eq_push_drop take_bit_nat_eq_self)
qed

lemma unat_RoundUp:
  fixes x :: "'a::len word"
  assumes "unat x + 2 ^ k \<le> 2 ^ LENGTH('a)"
  shows "unat (RoundUp x (2 ^ k)) = 2 ^ k * ((unat x + (2 ^ k - 1)) div 2 ^ k)"
proof -
  have "of_nat (2 ^ k - 1) = (2 ^ k - 1 :: 'a word)"
    by (simp add: of_nat_diff)
  then have "x + 2 ^ k - 1 = of_nat (unat x + (2 ^ k - 1))"
    by (simp only: of_nat_add) simp
  moreover have "unat x + (2 ^ k - 1) < unat x + 2 ^ k"
    by simp
  then have "unat x + (2 ^ k - 1) < 2 ^ LENGTH('a)"
    using assms by (rule less_le_trans)
  ultimately have "unat (x + 2 ^ k - 1) = unat x + (2 ^ k - 1)"
    by (simp only: unat_of_nat mod_less)
  then show ?thesis by (simp add: RoundUp_def unat_RoundDown)
qed

text \<open>Below the top of the range, \<open>RoundUp\<close> is the least multiple not below \<open>x\<close>.\<close>

lemma RoundUp_bounds:
  fixes x :: "'a::len word"
  assumes "unat x + 2 ^ k \<le> 2 ^ LENGTH('a)"
  shows "unat x \<le> unat (RoundUp x (2 ^ k))"
    and "unat (RoundUp x (2 ^ k)) < unat x + 2 ^ k"
    and "2 ^ k dvd unat (RoundUp x (2 ^ k))"
proof -
  let ?q = "(unat x + (2 ^ k - 1)) div 2 ^ k"
  have pos: "0 < (2::nat) ^ k" by simp
  have "2 ^ k * ?q + (unat x + (2 ^ k - 1)) mod 2 ^ k = unat x + (2 ^ k - 1)"
    by (simp add: mult.commute)
  moreover have "(unat x + (2 ^ k - 1)) mod 2 ^ k < 2 ^ k" by simp
  ultimately have "unat x \<le> 2 ^ k * ?q" and "2 ^ k * ?q < unat x + 2 ^ k"
    using pos by linarith+
  then show "unat x \<le> unat (RoundUp x (2 ^ k))"
    and "unat (RoundUp x (2 ^ k)) < unat x + 2 ^ k"
    by (simp_all add: unat_RoundUp [OF assms])
  show "2 ^ k dvd unat (RoundUp x (2 ^ k))"
    by (simp add: unat_RoundUp [OF assms])
qed

lemma GENMASK_UL_low: "h < 64 \<Longrightarrow> GENMASK_UL h 0 = mask (Suc h)"
  unfolding GENMASK_UL_def by (rule bit_eqI) (auto simp: bit_simps)

section \<open>Digits\<close>

lemma digits_nonempty [simp]: "digits b n \<noteq> []"
  by (subst digits.simps) simp

lemma digits_less: "2 \<le> b \<Longrightarrow> d \<in> set (digits b n) \<Longrightarrow> d < b"
proof (induction b n rule: digits.induct)
  case (1 b n)
  show ?case
    using "1.IH" "1.prems" by (subst (asm) (2) digits.simps) (auto split: if_splits)
qed

lemma digits_value: "2 \<le> b \<Longrightarrow> foldl (\<lambda>a d. a * b + d) 0 (digits b n) = n"
proof (induction b n rule: digits.induct)
  case (1 b n)
  show ?case
    using "1.IH" "1.prems" by (subst digits.simps) auto
qed

lemma digits_inj: "2 \<le> b \<Longrightarrow> digits b m = digits b n \<Longrightarrow> m = n"
  using digits_value by metis

lemma hex_value_hex_char: "d < 16 \<Longrightarrow> hex_value (hex_char d) = Some d"
  by (auto simp: hex_value_def hex_char_def)

lemma scan_hex_map:
  "(\<forall>d\<in>set ds. d < 16) \<Longrightarrow> scan_hex acc (map hex_char ds) = foldl (\<lambda>a d. a * 16 + d) acc ds"
  by (induction ds arbitrary: acc) (auto simp: hex_value_hex_char)

lemma scan_hex_digits_hex_string: "scan_hex_digits (hex_string n) = Some n"
proof -
  have small: "\<forall>d\<in>set (digits 16 n). d < 16" using digits_less [of 16] by simp
  then have "scan_hex 0 (hex_string n) = n"
    by (simp add: hex_string_def scan_hex_map digits_value)
  moreover obtain d ds where "digits 16 n = d # ds"
    using digits_nonempty [of 16 n] by (cases "digits 16 n") auto
  ultimately show ?thesis
    using small by (auto simp: scan_hex_digits_def hex_string_def hex_value_hex_char)
qed

section \<open>Digests that absorb one byte at a time\<close>

text \<open>
  The contract of a checksum register: absorbing a byte loses no information about
  the register, and two different bytes lead to two different registers. A digest
  with this contract separates any two messages that differ in exactly one byte.
\<close>

locale injective_digest =
  fixes absorb :: "'b \<Rightarrow> 'r \<Rightarrow> 'r"
  assumes absorb_inj_register: "absorb b r = absorb b r' \<Longrightarrow> r = r'"
    and absorb_inj_byte: "absorb b r = absorb b' r \<Longrightarrow> b = b'"
begin

lemma fold_inj: "fold absorb bs r = fold absorb bs r' \<Longrightarrow> r = r'"
proof (induction bs arbitrary: r r')
  case (Cons b bs)
  then have "absorb b r = absorb b r'" by simp
  then show ?case by (rule absorb_inj_register)
qed simp

lemma one_byte_changes_digest:
  assumes "fold absorb (xs @ b # ys) r = fold absorb (xs @ b' # ys) r"
  shows "b = b'"
proof -
  have "fold absorb ys (absorb b (fold absorb xs r)) = fold absorb ys (absorb b' (fold absorb xs r))"
    using assms by simp
  then have "absorb b (fold absorb xs r) = absorb b' (fold absorb xs r)" by (rule fold_inj)
  then show ?thesis by (rule absorb_inj_byte)
qed

end

text \<open>The two shift registers are injective: the bit shifted out decides the low bit.\<close>

lemma and_top_bit: "(c :: 'a::len word) AND push_bit n 1 \<noteq> 0 \<longleftrightarrow> bit c n"
  by (simp add: bit_iff_and_push_bit_not_eq_0)

lemma push_bit_1_inj:
  fixes c d :: "'a::len word"
  assumes "push_bit 1 c = push_bit 1 d" and "bit c (LENGTH('a) - 1) = bit d (LENGTH('a) - 1)"
  shows "c = d"
proof (rule bit_eqI)
  fix n assume "possible_bit TYPE('a word) n"
  then have n: "n < LENGTH('a)" by simp
  show "bit c n = bit d n"
  proof (cases "Suc n < LENGTH('a)")
    case True
    have "bit (push_bit 1 c) (Suc n) = bit (push_bit 1 d) (Suc n)" using assms(1) by simp
    then have "possible_bit TYPE('a word) (Suc n) \<and> bit c n = (possible_bit TYPE('a word) (Suc n) \<and> bit d n)"
      using True unfolding bit_push_bit_iff by simp
    then show ?thesis by blast
  next
    case False
    with n have "n = LENGTH('a) - 1" by simp
    with assms(2) show ?thesis by simp
  qed
qed

lemma xor_cancel:
  fixes x y p :: "'a::len word"
  assumes "x XOR p = y XOR p"
  shows "x = y"
proof -
  have "(x XOR p) XOR p = (y XOR p) XOR p" using assms by simp
  then show ?thesis by (simp only: xor.assoc xor_self_eq xor.right_neutral)
qed

lemma shift_register_inj:
  fixes c d p :: "'a::len word"
  assumes odd: "bit p 0"
    and eq: "(if bit c (LENGTH('a) - 1) then push_bit 1 c XOR p else push_bit 1 c) =
             (if bit d (LENGTH('a) - 1) then push_bit 1 d XOR p else push_bit 1 d)"
  shows "c = d"
proof -
  have low: "\<not> bit (push_bit 1 x) 0" for x :: "'a word"
    unfolding bit_push_bit_iff by simp
  have "bit c (LENGTH('a) - 1) = bit d (LENGTH('a) - 1)"
  proof (rule ccontr)
    assume "bit c (LENGTH('a) - 1) \<noteq> bit d (LENGTH('a) - 1)"
    then have "push_bit 1 c XOR p = push_bit 1 d \<or> push_bit 1 c = push_bit 1 d XOR p"
      using eq by (auto split: if_splits)
    then show False using low odd by (metis bit_xor_iff)
  qed
  then have top: "bit c (LENGTH('a) - 1) = bit d (LENGTH('a) - 1)" .
  have "push_bit 1 c = push_bit 1 d"
  proof (cases "bit d (LENGTH('a) - 1)")
    case True
    show ?thesis
      using eq unfolding top by (simp only: True if_True) (rule xor_cancel)
  next
    case False
    show ?thesis using eq unfolding top by (simp only: False if_False)
  qed
  then show ?thesis using top by (rule push_bit_1_inj)
qed

lemma inj_crc32_shift: "inj crc32_shift"
proof (rule injI)
  fix c d
  have ones: "(0xFFFFFFFF :: u32) = - 1" by simp
  assume "crc32_shift c = crc32_shift d"
  then show "c = d"
    unfolding crc32_shift_def and_top_bit ones and.right_neutral
    by (rule shift_register_inj [of "0x04C11DB7 :: u32", simplified])
qed

lemma inj_crc64_shift: "inj crc64_shift"
proof (rule injI)
  fix c d assume "crc64_shift c = crc64_shift d"
  then show "c = d"
    unfolding crc64_shift_def and_top_bit
    by (rule shift_register_inj [of "0x42F0E1EBA9EA3693 :: u64", simplified])
qed

lemma push_byte_inj:
  fixes b b' :: u8
  assumes "push_bit n (ucast b :: 'a::len word) = push_bit n (ucast b')" and "n + 8 \<le> LENGTH('a)"
  shows "b = b'"
proof (rule bit_eqI)
  fix k assume "possible_bit TYPE(u8) k"
  then have k: "k < 8" by simp
  have "bit (push_bit n (ucast b :: 'a word)) (n + k) = bit (push_bit n (ucast b' :: 'a word)) (n + k)"
    using assms(1) by simp
  with k assms(2) show "bit b k = bit b' k"
    by (simp add: bit_push_bit_iff bit_ucast_iff)
qed

interpretation crc32: injective_digest crc32_byte
proof
  fix b r r' assume "crc32_byte b r = crc32_byte b r'"
  then have "r XOR push_bit 24 (ucast b) = r' XOR push_bit 24 (ucast b)"
    unfolding crc32_byte_def by (rule injD [OF inj_fn [OF inj_crc32_shift]])
  then show "r = r'" by (rule xor_cancel)
next
  fix b r b' assume "crc32_byte b r = crc32_byte b' r"
  then have "r XOR push_bit 24 (ucast b) = r XOR push_bit 24 (ucast b')"
    unfolding crc32_byte_def by (rule injD [OF inj_fn [OF inj_crc32_shift]])
  then have "push_bit 24 (ucast b :: u32) = push_bit 24 (ucast b')"
    unfolding xor.commute [of r] by (rule xor_cancel)
  then show "b = b'" by (rule push_byte_inj) simp
qed

interpretation crc64: injective_digest crc64_byte
proof
  fix b r r' assume "crc64_byte b r = crc64_byte b r'"
  then have "r XOR push_bit 56 (ucast b) = r' XOR push_bit 56 (ucast b)"
    unfolding crc64_byte_def by (rule injD [OF inj_fn [OF inj_crc64_shift]])
  then show "r = r'" by (rule xor_cancel)
next
  fix b r b' assume "crc64_byte b r = crc64_byte b' r"
  then have "r XOR push_bit 56 (ucast b) = r XOR push_bit 56 (ucast b')"
    unfolding crc64_byte_def by (rule injD [OF inj_fn [OF inj_crc64_shift]])
  then have "push_bit 56 (ucast b :: u64) = push_bit 56 (ucast b')"
    unfolding xor.commute [of r] by (rule xor_cancel)
  then show "b = b'" by (rule push_byte_inj) simp
qed

section \<open>Properties\<close>

text \<open>C39: two blocks of memory that differ in exactly one byte never have the same CRC32
  or CRC64, so the checksum commands cannot miss a single corrupted byte.\<close>

theorem CRC_detects_one_byte:
  assumes "b \<noteq> b'"
  shows "CRC32 (xs @ b # ys) \<noteq> CRC32 (xs @ b' # ys) \<and> CRC64 (xs @ b # ys) \<noteq> CRC64 (xs @ b' # ys)"
  using assms crc32.one_byte_changes_digest crc64.one_byte_changes_digest
  unfolding CRC32_def CRC64_def by blast

theorem CRC_detects_one_byte_witness:
  "(0x41 :: u8) \<noteq> 0x42 \<and> CRC32 ([1, 2] @ 0x41 # [3]) \<noteq> CRC32 ([1, 2] @ 0x42 # [3])"
  using CRC_detects_one_byte [where b = "0x41" and b' = "0x42" and xs = "[1, 2]" and ys = "[3]"] by simp

text \<open>Printing an address with ToHex and reading it back with Utils::atol gives the
  address, for every 64-bit value.\<close>

theorem atol_ToHex: "Utils_atol (ToHex v) = Some v"
proof -
  have "dropWhile is_space (ToHex v) = ToHex v"
    by (simp add: ToHex_def is_space_def)
  moreover have "scan_unsigned_hex (ToHex v) = Some (unat v)"
    by (simp add: scan_unsigned_hex_def ToHex_def scan_hex_digits_hex_string)
  moreover have "unat v < 2 ^ 64" using unsigned_less [of v] by simp
  ultimately show ?thesis
    by (simp add: Utils_atol_def Let_def) (simp add: ToHex_def)
qed

text \<open>C40: away from the top of the range, rounding up to a power of two gives the least
  multiple of it that is not below the argument.\<close>

theorem RoundUp_least_multiple:
  fixes x :: "'a::len word"
  assumes "unat x + 2 ^ k \<le> 2 ^ LENGTH('a)"
  shows "2 ^ k dvd unat (RoundUp x (2 ^ k)) \<and> unat x \<le> unat (RoundUp x (2 ^ k)) \<and>
    (\<forall>m. 2 ^ k dvd m \<longrightarrow> unat x \<le> m \<longrightarrow> unat (RoundUp x (2 ^ k)) \<le> m)"
proof (intro conjI allI impI)
  fix m assume m: "2 ^ k dvd m" "unat x \<le> m"
  obtain p where p: "m = 2 ^ k * p" using m(1) by (auto elim: dvdE)
  obtain q where q: "unat (RoundUp x (2 ^ k)) = 2 ^ k * q"
    using RoundUp_bounds(3) [OF assms] by (auto elim: dvdE)
  have "2 ^ k * q < 2 ^ k * p + 2 ^ k"
    using RoundUp_bounds(2) [OF assms] m(2) p q by linarith
  then have "2 ^ k * q < 2 ^ k * (p + 1)" by (simp add: algebra_simps)
  then have "q < p + 1" by (simp only: nat_mult_less_cancel1 zero_less_power zero_less_numeral)
  then show "unat (RoundUp x (2 ^ k)) \<le> m" by (simp add: p q)
qed (use RoundUp_bounds [OF assms] in auto)

theorem RoundUp_least_multiple_witness:
  "unat (0x1801 :: u64) + 2 ^ 12 \<le> 2 ^ 64 \<and> unat (RoundUp (0x1801 :: u64) (2 ^ 12)) \<le> 0x2000"
proof -
  have h: "unat (0x1801 :: u64) + 2 ^ 12 \<le> 2 ^ LENGTH(64)" by simp
  have "(2 :: nat) ^ 12 dvd 0x2000" by simp
  then show ?thesis using h RoundUp_least_multiple [OF h] by auto
qed

end
