(* ===== verification/Blocks.thy ===== *)
theory Blocks
  imports BaseUtils
begin

unbundle bit_operations_syntax

text \<open>
  Mapped memory of the analysing process and the segments of the core file:
  utils/base/memory_map.h and utils/base/linux/memory_map.cpp (\<open>MemoryMap\<close>),
  core/common/block.h (\<open>Block\<close>), core/common/syment.h (\<open>SymbolEntry\<close>) and
  core/common/load_block.h, load_block.cpp (\<open>LoadBlock\<close>). A block can be backed by the
  core file itself, by a file mapping and by a writable overlay; the operations pick
  the backing by the \<open>OPT_READ_*\<close> bits.
\<close>

section \<open>The operating system\<close>

text \<open>
  What the code asks of the kernel: the contents of a file (\<open>stat\<close>, \<open>open\<close>), a fresh
  range of addresses for a mapping of a given length (\<open>mmap\<close>, \<open>None\<close> for
  \<open>MAP_FAILED\<close>), the page size (\<open>sysconf\<close>). The documented behaviour the proofs rely
  on is \<open>os_ok\<close>: the range handed out is not mapped yet and does not wrap around.
\<close>

record os_env =
  os_file :: "string \<Rightarrow> u8 list option"
  os_mmap :: "host \<Rightarrow> u64 \<Rightarrow> u64 option"
  os_page_size :: nat

definition os_ok :: "os_env \<Rightarrow> bool" where
  "os_ok os \<longleftrightarrow> (\<forall>h n b. os_mmap os h n = Some b \<longrightarrow>
     b \<noteq> 0 \<and> unat b + unat n \<le> 2 ^ 64 \<and> (\<forall>x. unat (x - b) < unat n \<longrightarrow> h x = None))"

section \<open>MemoryMap\<close>

record memory_map =
  mm_name :: string
  mm_begin :: u64
  mm_size :: u64
  mm_offset :: u64
  mm_max :: u64

text \<open>\<open>size\<close> zero bytes mapped at \<open>b\<close>.\<close>

definition host_zero :: "host \<Rightarrow> u64 \<Rightarrow> nat \<Rightarrow> host" where
  "host_zero h b n = (\<lambda>x. if unat (x - b) < n then Some 0 else h x)"

text \<open>
  The bytes a private file mapping of \<open>size\<close> bytes at \<open>off\<close> shows: the file from \<open>off\<close>,
  zeros up to the end of its last page, nothing after it (an access there faults).
\<close>

definition file_view :: "nat \<Rightarrow> u8 list \<Rightarrow> nat \<Rightarrow> nat \<Rightarrow> u8 list" where
  "file_view page bytes sz off =
     (let avail = drop off bytes;
          pad = (page - length avail mod page) mod page
      in take sz (avail @ replicate pad 0))"

text \<open>A file offset that is not a multiple of the page size makes \<open>mmap\<close> fail.\<close>

definition MmapFile_fd :: "os_env \<Rightarrow> host \<Rightarrow> u8 list \<Rightarrow> u64 \<Rightarrow> u64 \<Rightarrow> memory_map option \<times> host" where
  "MmapFile_fd os h bytes sz off =
     (if length bytes \<le> unat off \<or> unat off mod os_page_size os \<noteq> 0 then (None, h)
      else case os_mmap os h sz of None \<Rightarrow> (None, h)
        | Some mem \<Rightarrow>
            (let real_size = min (unat sz) (length bytes - unat off)
             in (Some \<lparr>mm_name = [], mm_begin = mem, mm_size = sz, mm_offset = off,
                       mm_max = of_nat real_size\<rparr>,
                 host_map h mem (file_view (os_page_size os) bytes (unat sz) (unat off)))))"

definition MmapFile_range ::
  "os_env \<Rightarrow> host \<Rightarrow> string \<Rightarrow> u64 \<Rightarrow> u64 \<Rightarrow> memory_map option \<times> host" where
  "MmapFile_range os h file sz off =
     (case os_file os file of None \<Rightarrow> (None, h)
      | Some bytes \<Rightarrow>
          (case MmapFile_fd os h bytes sz off of (None, h') \<Rightarrow> (None, h')
           | (Some m, h') \<Rightarrow> (Some (m\<lparr>mm_name := file, mm_offset := off\<rparr>), h')))"

definition MmapFile_off :: "os_env \<Rightarrow> host \<Rightarrow> string \<Rightarrow> u64 \<Rightarrow> memory_map option \<times> host" where
  "MmapFile_off os h file off =
     (case os_file os file of None \<Rightarrow> (None, h)
      | Some bytes \<Rightarrow>
          if length bytes \<le> unat off then (None, h)
          else MmapFile_range os h file (of_nat (length bytes) - off) off)"

definition MmapFile :: "os_env \<Rightarrow> host \<Rightarrow> string \<Rightarrow> memory_map option \<times> host" where
  "MmapFile os h file = MmapFile_off os h file 0"

definition MmapMem :: "os_env \<Rightarrow> host \<Rightarrow> u64 \<Rightarrow> u64 \<Rightarrow> u64 \<Rightarrow> (memory_map option \<times> host) res" where
  "MmapMem os h addr sz realSize =
     (case os_mmap os h sz of None \<Rightarrow> Inr (None, h)
      | Some mem \<Rightarrow>
          res_bind (memcpy (host_zero h mem (unat sz)) mem addr (unat realSize))
            (\<lambda>h'. Inr (Some \<lparr>mm_name = [], mm_begin = mem, mm_size = sz, mm_offset = 0,
                              mm_max = sz\<rparr>, h')))"

definition MmapZeroMem :: "os_env \<Rightarrow> host \<Rightarrow> u64 \<Rightarrow> memory_map option \<times> host" where
  "MmapZeroMem os h sz =
     (case os_mmap os h sz of None \<Rightarrow> (None, h)
      | Some mem \<Rightarrow>
          (Some \<lparr>mm_name = [], mm_begin = mem, mm_size = sz, mm_offset = 0, mm_max = sz\<rparr>,
           host_zero h mem (unat sz)))"

definition MemoryMap_setFile :: "string \<Rightarrow> u64 \<Rightarrow> memory_map \<Rightarrow> memory_map" where
  "MemoryMap_setFile file off m = m\<lparr>mm_name := file, mm_offset := off\<rparr>"

definition MemoryMap_GetCRC32 :: "host \<Rightarrow> memory_map \<Rightarrow> u32 res" where
  "MemoryMap_GetCRC32 h m =
     res_bind (host_read h (mm_begin m) (unat (ucast (mm_size m) :: u32))) (\<lambda>bs. Inr (CRC32 bs))"

section \<open>SymbolEntry\<close>

record symbol_entry =
  se_offset :: u64
  se_type :: u64
  se_size :: u64
  se_symbol :: string

definition SymbolEntry_eq :: "symbol_entry \<Rightarrow> symbol_entry \<Rightarrow> bool" where
  "SymbolEntry_eq a b \<longleftrightarrow>
     se_offset a = se_offset b \<and> se_type a = se_type b \<and> se_size a = se_size b"

definition SymbolEntry_Invalid :: symbol_entry where
  "SymbolEntry_Invalid = \<lparr>se_offset = 0, se_type = 0, se_size = 0, se_symbol = []\<rparr>"

definition SymbolEntry_IsValid :: "symbol_entry \<Rightarrow> bool" where
  "SymbolEntry_IsValid s \<longleftrightarrow> se_offset s \<noteq> 0 \<and> se_size s \<noteq> 0"

text \<open>
  The \<open>std::unordered_set\<close> of symbols: a list in the set's iteration order, no two
  entries of it equal by \<open>operator==\<close>; \<open>insert\<close> keeps the entry that is there already.
\<close>

definition symbols_insert :: "symbol_entry \<Rightarrow> symbol_entry list \<Rightarrow> symbol_entry list" where
  "symbols_insert s xs = (if \<exists>x\<in>set xs. SymbolEntry_eq x s then xs else xs @ [s])"

section \<open>Block and LoadBlock\<close>

text \<open>The \<open>FLAG_*\<close> and \<open>OPT_READ_*\<close> constants of block.h.\<close>

definition FLAG_X :: u32 where "FLAG_X = push_bit 0 1"
definition FLAG_W :: u32 where "FLAG_W = push_bit 1 1"
definition FLAG_R :: u32 where "FLAG_R = push_bit 2 1"
definition OPT_READ_OR :: u32 where "OPT_READ_OR = push_bit 0 1"
definition OPT_READ_MMAP :: u32 where "OPT_READ_MMAP = push_bit 1 1"
definition OPT_READ_OVERLAY :: u32 where "OPT_READ_OVERLAY = push_bit 2 1"
definition OPT_READ_ALL :: u32 where
  "OPT_READ_ALL = OPT_READ_OR OR OPT_READ_MMAP OR OPT_READ_OVERLAY"

lemmas block_consts = FLAG_X_def FLAG_W_def FLAG_R_def OPT_READ_OR_def OPT_READ_MMAP_def
  OPT_READ_OVERLAY_def OPT_READ_ALL_def

text \<open>The members of \<open>Block\<close>, the base class of the two kinds of segment.\<close>

record block =
  mFlags :: u32
  mOffset :: u64
  mVaddr :: u64
  mPaddr :: u64
  mFileSize :: u64
  mMemSize :: u64
  mAlign :: u64
  mOriAddr :: u64
  mTruncated :: bool
  mFake :: bool
  mOverlay :: "memory_map option"

text \<open>The members \<open>LoadBlock\<close> adds. \<open>mLinkMap\<close> is the index of the bound link map in the core's list,
  identifying the \<open>LinkMap\<close> object.\<close>

record load_block = block +
  mVabitsMask :: u64
  mPointMask :: u64
  mCRC32 :: u32
  mFileName :: string
  mPageOffset :: u64
  mLinkMap :: "nat option"
  mMmap :: "memory_map option"
  mSymbols :: "symbol_entry list"

text \<open>The constructor. The C++ leaves \<open>mPageOffset\<close> uninitialised; it is 0 here and no
  definition reads it before \<open>setFile\<close> sets it.\<close>

definition new_LoadBlock ::
  "u32 \<Rightarrow> u64 \<Rightarrow> u64 \<Rightarrow> u64 \<Rightarrow> u64 \<Rightarrow> u64 \<Rightarrow> u64 \<Rightarrow> load_block" where
  "new_LoadBlock f off va pa filesz memsz align =
     \<lparr>mFlags = f, mOffset = off, mVaddr = va, mPaddr = pa, mFileSize = filesz,
      mMemSize = memsz, mAlign = align, mOriAddr = 0, mTruncated = False, mFake = False,
      mOverlay = None, mVabitsMask = 0, mPointMask = 0, mCRC32 = 0, mFileName = [],
      mPageOffset = 0, mLinkMap = None, mMmap = None, mSymbols = []\<rparr>"

definition isValidBlock :: "'a block_scheme \<Rightarrow> bool" where
  "isValidBlock b \<longleftrightarrow> \<not> mTruncated b \<and> mFileSize b > 0"

definition setOriAddr :: "u64 \<Rightarrow> 'a block_scheme \<Rightarrow> 'a block_scheme" where
  "setOriAddr addr b = (if isValidBlock b then b\<lparr>mOriAddr := addr\<rparr> else b)"

definition convertFlags :: "'a block_scheme \<Rightarrow> string" where
  "convertFlags b =
     (if mFlags b AND FLAG_R \<noteq> 0 then ''r'' else ''-'')
     @ (if mFlags b AND FLAG_W \<noteq> 0 then ''w'' else ''-'')
     @ (if mFlags b AND FLAG_X \<noteq> 0 then ''x'' else ''-'')"

definition LoadBlock_begin :: "u32 \<Rightarrow> load_block \<Rightarrow> u64" where
  "LoadBlock_begin opt b =
     (if mOverlay b \<noteq> None \<and> opt AND OPT_READ_OVERLAY \<noteq> 0 then mm_begin (the (mOverlay b))
      else if mMmap b \<noteq> None \<and> opt AND OPT_READ_MMAP \<noteq> 0 then mm_begin (the (mMmap b))
      else if mOriAddr b \<noteq> 0 \<and> opt AND OPT_READ_OR \<noteq> 0 then mOriAddr b
      else 0)"

definition LoadBlock_size :: "u32 \<Rightarrow> load_block \<Rightarrow> u64" where
  "LoadBlock_size opt b =
     (if mOverlay b \<noteq> None \<and> opt AND OPT_READ_OVERLAY \<noteq> 0 then mm_size (the (mOverlay b))
      else if mMmap b \<noteq> None \<and> opt AND OPT_READ_MMAP \<noteq> 0 then mm_size (the (mMmap b))
      else if mOriAddr b \<noteq> 0 \<and> opt AND OPT_READ_OR \<noteq> 0 then mFileSize b
      else 0)"

definition isValid :: "load_block \<Rightarrow> bool" where
  "isValid b \<longleftrightarrow> isValidBlock b \<or> mMmap b \<noteq> None \<or> mOverlay b \<noteq> None"

definition virtualContains :: "load_block \<Rightarrow> u64 \<Rightarrow> bool" where
  "virtualContains b addr =
     (let clocaddr = addr AND mVabitsMask b
      in \<not> (clocaddr < mVaddr b \<or> clocaddr \<ge> mVaddr b + mMemSize b))"

definition realContains :: "load_block \<Rightarrow> u64 \<Rightarrow> bool" where
  "realContains b raddr =
     (let sz = LoadBlock_size OPT_READ_ALL b in
      case mOverlay b of
        Some m \<Rightarrow> raddr \<ge> mm_begin m \<and> raddr < mm_begin m + sz
      | None \<Rightarrow>
          (case mMmap b of
             Some m \<Rightarrow> raddr \<ge> mm_begin m \<and> raddr < mm_begin m + sz
           | None \<Rightarrow> if mOriAddr b \<noteq> 0 then raddr \<ge> mOriAddr b \<and> raddr < mOriAddr b + sz
                     else False))"

definition convertValids :: "load_block \<Rightarrow> string" where
  "convertValids b =
     (if isValid b then
        ''[*]''
        @ (if mFileSize b \<noteq> 0 \<and> mFileSize b \<noteq> mMemSize b
           then ''(MEMSZ '' @ ToHex (mMemSize b) @ '')'' else [])
        @ (case mMmap b of None \<Rightarrow> []
           | Some m \<Rightarrow> ''(MMAP'' @ (if mm_offset m \<noteq> 0 then '' '' @ ToHex (mm_offset m) else []) @ '')'')
        @ (if mOverlay b \<noteq> None then ''(OVERLAY)'' @ (if mFake b then ''(FAKE)'' else []) else [])
      else ''[EMPTY]'' @ (if mTruncated b then ''(TRUNCATE)'' else []))"

definition LoadBlock_name :: "load_block \<Rightarrow> string" where
  "LoadBlock_name b = (case mMmap b of Some m \<Rightarrow> mm_name m | None \<Rightarrow> mFileName b)"

definition LoadBlock_setFile :: "string \<Rightarrow> u64 \<Rightarrow> load_block \<Rightarrow> load_block" where
  "LoadBlock_setFile name off b = b\<lparr>mFileName := name, mPageOffset := off\<rparr>"

subsection \<open>load_block.cpp\<close>

definition newOverlay :: "os_env \<Rightarrow> host \<Rightarrow> load_block \<Rightarrow> (bool \<times> load_block \<times> host) res" where
  "newOverlay os h b =
     (case mOverlay b of Some m \<Rightarrow> Inr (True, b, h)
      | None \<Rightarrow>
          res_bind
            (if isValid b
             then MmapMem os h (LoadBlock_begin OPT_READ_ALL b) (mMemSize b)
                    (case mMmap b of None \<Rightarrow> mFileSize b | Some m \<Rightarrow> mm_max m)
             else Inr (MmapZeroMem os h (mMemSize b)))
            (\<lambda>(m, h'). Inr (m \<noteq> None, b\<lparr>mOverlay := m\<rparr>, h')))"

definition setOverlay :: "os_env \<Rightarrow> host \<Rightarrow> u64 \<Rightarrow> u8 list \<Rightarrow> load_block \<Rightarrow> (load_block \<times> host) res" where
  "setOverlay os h addr buf b =
     res_bind (newOverlay os h b)
       (\<lambda>(ok, b', h').
          if ok then
            (let clocaddr = addr AND mVabitsMask b'
             in res_bind (host_write h' (mm_begin (the (mOverlay b')) + (clocaddr - mVaddr b')) buf)
                  (\<lambda>h''. Inr (b', h'')))
          else Inr (b', h'))"

text \<open>
  \<open>setMmapFile\<close>: map the file; when it is shorter than the segment, copy it into
  anonymous memory; copy it over an overlay that is there already.
\<close>

definition setMmapFile ::
  "os_env \<Rightarrow> host \<Rightarrow> string \<Rightarrow> u64 \<Rightarrow> load_block \<Rightarrow> (load_block \<times> host) res" where
  "setMmapFile os h file offset b =
     (case MmapFile_range os h file (mMemSize b) offset of
        (None, h1) \<Rightarrow> Inr (b, h1)
      | (Some mp, h1) \<Rightarrow>
          res_bind
            (if RoundUp (mm_max mp) (of_nat (os_page_size os)) < mMemSize b
             then res_bind (MmapMem os h1 (mm_begin mp) (mMemSize b) (mm_max mp))
                    (\<lambda>(anon, h2). case anon of None \<Rightarrow> Inr (mp, h2)
                       | Some a \<Rightarrow> Inr (MemoryMap_setFile file offset a, h2))
             else Inr (mp, h1))
            (\<lambda>(mp', h3).
               res_bind
                 (if mFake b \<or> mOverlay b \<noteq> None
                  then (case mOverlay b of None \<Rightarrow> Inl (HostFault 0)
                        | Some ov \<Rightarrow> memcpy h3 (mm_begin ov) (mm_begin mp') (unat (mm_max mp')))
                  else Inr h3)
                 (\<lambda>h4. Inr (b\<lparr>mMmap := Some mp'\<rparr>, h4))))"

definition removeMmap :: "load_block \<Rightarrow> load_block" where
  "removeMmap b = (if mMmap b \<noteq> None then b\<lparr>mSymbols := [], mMmap := None\<rparr> else b)"

definition removeOverlay :: "load_block \<Rightarrow> load_block" where
  "removeOverlay b = (if mOverlay b \<noteq> None \<and> \<not> mFake b then b\<lparr>mOverlay := None\<rparr> else b)"

text \<open>\<open>vdso\<close> is the value of \<open>CoreApi::FindAuxv(AT_SYSINFO_EHDR)\<close>.\<close>

definition CheckCanMmap :: "u64 \<Rightarrow> u64 \<Rightarrow> load_block \<Rightarrow> bool" where
  "CheckCanMmap vdso header b =
     (if mFake b then True
      else if mFlags b = 0 then False
      else if mFlags b AND FLAG_R = 0 \<and> mFlags b AND FLAG_X = 0 then False
      else if mFlags b AND FLAG_W \<noteq> 0 \<and> mFlags b AND FLAG_X = 0 then False
      else if header \<noteq> mVaddr b then False
      else if mVaddr b = vdso then False
      else True)"

definition LoadBlock_GetCRC32 :: "host \<Rightarrow> u32 \<Rightarrow> load_block \<Rightarrow> (u32 \<times> load_block) res" where
  "LoadBlock_GetCRC32 h opt b =
     (if mOverlay b \<noteq> None \<and> opt AND OPT_READ_OVERLAY \<noteq> 0
      then res_bind (MemoryMap_GetCRC32 h (the (mOverlay b))) (\<lambda>c. Inr (c, b))
      else if mMmap b \<noteq> None \<and> opt AND OPT_READ_MMAP \<noteq> 0
      then res_bind (MemoryMap_GetCRC32 h (the (mMmap b))) (\<lambda>c. Inr (c, b))
      else if mOriAddr b \<noteq> 0 \<and> opt AND OPT_READ_OR \<noteq> 0
      then (if mCRC32 b = 0 \<and> isValidBlock b
            then res_bind (host_read h (LoadBlock_begin OPT_READ_OR b)
                             (unat (ucast (mFileSize b) :: u32)))
                   (\<lambda>bs. Inr (CRC32 bs, b\<lparr>mCRC32 := CRC32 bs\<rparr>))
            else Inr (mCRC32 b, b))
      else Inr (0, b))"

section \<open>Well-formed blocks and what they read as\<close>

definition mapped :: "host \<Rightarrow> u64 \<Rightarrow> nat \<Rightarrow> bool" where
  "mapped h a n \<longleftrightarrow> (\<forall>i<n. h (a + of_nat i) \<noteq> None)"

text \<open>
  \<open>block_ok\<close>: the segment does not wrap around, its file part fits in its memory
  part, and each backing that is present lies in mapped host memory.
\<close>

definition map_ok :: "host \<Rightarrow> u64 \<Rightarrow> memory_map \<Rightarrow> bool" where
  "map_ok h memsz m \<longleftrightarrow> mm_begin m \<noteq> 0 \<and> mm_size m = memsz \<and> mm_max m \<le> memsz \<and>
     unat (mm_begin m) + unat memsz \<le> 2 ^ 64 \<and> mapped h (mm_begin m) (unat (mm_max m))"

definition block_ok :: "host \<Rightarrow> load_block \<Rightarrow> bool" where
  "block_ok h b \<longleftrightarrow>
     unat (mVaddr b) + unat (mMemSize b) < 2 ^ 64 \<and> mFileSize b \<le> mMemSize b \<and>
     (\<forall>m. mOverlay b = Some m \<longrightarrow> map_ok h (mMemSize b) m \<and> mm_max m = mMemSize b) \<and>
     (\<forall>m. mMmap b = Some m \<longrightarrow> map_ok h (mMemSize b) m) \<and>
     (isValidBlock b \<longleftrightarrow> mOriAddr b \<noteq> 0) \<and>
     (isValidBlock b \<longrightarrow> unat (mOriAddr b) + unat (mFileSize b) \<le> 2 ^ 64 \<and>
        mapped h (mOriAddr b) (unat (mFileSize b)))"

text \<open>
  The abstract content of a segment: the bytes its current backing holds. Past the end of
  that backing the number is 0 by convention; the process has no byte there (a read throws or
  faults), so statements about reading are made with \<open>backed_size\<close> or \<open>host_read\<close>.
\<close>

definition backed_size :: "load_block \<Rightarrow> nat" where
  "backed_size b =
     (case mOverlay b of Some m \<Rightarrow> unat (mm_max m)
      | None \<Rightarrow> (case mMmap b of Some m \<Rightarrow> unat (mm_max m)
         | None \<Rightarrow> if mOriAddr b \<noteq> 0 then unat (mFileSize b) else 0))"

definition block_byte :: "host \<Rightarrow> load_block \<Rightarrow> nat \<Rightarrow> u8" where
  "block_byte h b i =
     (if i < backed_size b then the (h (LoadBlock_begin OPT_READ_ALL b + of_nat i)) else 0)"

lemma opt_all_bits [simp]:
  "OPT_READ_ALL AND OPT_READ_OVERLAY \<noteq> 0" "OPT_READ_ALL AND OPT_READ_MMAP \<noteq> 0"
  "OPT_READ_ALL AND OPT_READ_OR \<noteq> 0"
  by (simp_all add: block_consts)

lemma LoadBlock_begin_all:
  "LoadBlock_begin OPT_READ_ALL b =
     (case mOverlay b of Some m \<Rightarrow> mm_begin m
      | None \<Rightarrow> (case mMmap b of Some m \<Rightarrow> mm_begin m | None \<Rightarrow> mOriAddr b))"
  by (simp add: LoadBlock_begin_def split: option.splits)

lemma LoadBlock_size_all:
  "LoadBlock_size OPT_READ_ALL b =
     (case mOverlay b of Some m \<Rightarrow> mm_size m
      | None \<Rightarrow> (case mMmap b of Some m \<Rightarrow> mm_size m
         | None \<Rightarrow> if mOriAddr b \<noteq> 0 then mFileSize b else 0))"
  by (simp add: LoadBlock_size_def split: option.splits)

lemma mapped_backing: "block_ok h b \<Longrightarrow> mapped h (LoadBlock_begin OPT_READ_ALL b) (backed_size b)"
  by (auto simp: block_ok_def map_ok_def LoadBlock_begin_all backed_size_def mapped_def
      split: option.splits)

lemma backed_size_le: "block_ok h b \<Longrightarrow> backed_size b \<le> unat (mMemSize b)"
  by (auto simp: block_ok_def map_ok_def backed_size_def word_le_nat_alt split: option.splits)

lemma host_zero_eq_map: "host_zero h b n = host_map h b (replicate n 0)"
  by (auto simp: host_zero_def host_map_def fun_eq_iff)

lemma mapped_host_map: "length bs \<le> 2 ^ 64 \<Longrightarrow> n \<le> length bs \<Longrightarrow> mapped (host_map h a bs) a n"
  by (auto simp: mapped_def host_map_at)

lemma host_map_mono: "h x \<noteq> None \<Longrightarrow> host_map h a bs x \<noteq> None"
  by (simp add: host_map_def)

lemma mapped_mono: "mapped h a n \<Longrightarrow> (\<And>x. h x \<noteq> None \<Longrightarrow> h' x \<noteq> None) \<Longrightarrow> mapped h' a n"
  by (auto simp: mapped_def)

lemma unat_u64_less: "unat (x :: u64) < 2 ^ 64"
  using unsigned_less [of x] by simp

text \<open>
  \<open>memcpy\<close> of \<open>n\<close> mapped bytes onto a fresh zero mapping of \<open>m\<close> bytes: the source
  survives, because fresh memory does not meet it.
\<close>

lemma memcpy_fresh:
  assumes src: "mapped h a n" and n: "n \<le> m" and m: "m \<le> 2 ^ 64"
    and fresh: "\<And>x. unat (x - b) < m \<Longrightarrow> h x = None"
  shows "memcpy (host_zero h b m) b a n =
    Inr (host_map (host_zero h b m) b (map (\<lambda>i. the (h (a + of_nat i))) [0..<n]))"
proof -
  have out: "\<not> unat (a + of_nat i - b) < m" if "i < n" for i
    using src fresh that by (auto simp: mapped_def)
  have "host_read (host_zero h b m) a n = host_read h a n"
    unfolding host_zero_eq_map using out by (intro host_read_host_map_disjoint) simp
  also have "\<dots> = Inr (map (\<lambda>i. the (h (a + of_nat i))) [0..<n])"
    using src by (intro host_read_mapped) (simp add: mapped_def)
  finally have rd: "host_read (host_zero h b m) a n = Inr (map (\<lambda>i. the (h (a + of_nat i))) [0..<n])" .
  have "mapped (host_zero h b m) b n"
    unfolding host_zero_eq_map using n m by (intro mapped_host_map) auto
  then show ?thesis
    unfolding memcpy_def rd using n m
    by (simp only: res_bind.simps, intro host_write_mapped) (auto simp: mapped_def)
qed

text \<open>Both ways \<open>newOverlay\<close> fills a new mapping give the bytes the block read as before.\<close>

lemma overlay_fill:
  assumes "os_ok os" and "block_ok h b" and "mOverlay b = None"
    and mem: "os_mmap os h (mMemSize b) = Some mem"
  shows "newOverlay os h b =
    Inr (True,
         b\<lparr>mOverlay := Some \<lparr>mm_name = [], mm_begin = mem, mm_size = mMemSize b, mm_offset = 0,
                              mm_max = mMemSize b\<rparr>\<rparr>,
         host_map h mem (map (block_byte h b) [0..<unat (mMemSize b)]))"
proof -
  let ?n = "backed_size b" and ?m = "unat (mMemSize b)" and ?a = "LoadBlock_begin OPT_READ_ALL b"
  have fresh: "\<And>x. unat (x - mem) < ?m \<Longrightarrow> h x = None"
    using assms(1) mem by (auto simp: os_ok_def)
  have n: "?n \<le> ?m" using assms(2) by (rule backed_size_le)
  have m: "?m \<le> 2 ^ 64" using unat_u64_less [of "mMemSize b"] by simp
  have eq: "host_map (host_zero h mem ?m) mem (map (\<lambda>i. the (h (?a + of_nat i))) [0..<?n]) =
      host_map h mem (map (block_byte h b) [0..<?m])"
    using n by (auto simp: fun_eq_iff host_map_def host_zero_def block_byte_def)
  show ?thesis
  proof (cases "isValid b")
    case True
    have sz: "unat (case mMmap b of None \<Rightarrow> mFileSize b | Some m \<Rightarrow> mm_max m) = ?n"
      using True assms(2,3)
      by (auto simp: isValid_def block_ok_def backed_size_def split: option.splits)
    show ?thesis
      using True assms(3) mem
      by (simp add: newOverlay_def MmapMem_def sz eq
          memcpy_fresh [OF mapped_backing [OF assms(2)] n m fresh])
  next
    case False
    have "?n = 0"
      using False assms(2,3) by (auto simp: isValid_def block_ok_def backed_size_def)
    then have "block_byte h b = (\<lambda>i. 0)" by (auto simp: block_byte_def)
    then have "host_zero h mem ?m = host_map h mem (map (block_byte h b) [0..<?m])"
      by (auto simp: host_zero_def host_map_def fun_eq_iff)
    with False assms(3) mem show ?thesis
      by (simp add: newOverlay_def MmapZeroMem_def)
  qed
qed

text \<open>The overlay a block ends up with: \<open>m\<close> holds the old content, the rest of the
  mapped memory is as before.\<close>

lemma newOverlay_obtains:
  assumes osk: "mOverlay b = None \<Longrightarrow> os_ok os" and ok: "block_ok h b"
    and res: "mOverlay b = None \<Longrightarrow> os_mmap os h (mMemSize b) \<noteq> None"
  obtains m h1 where "newOverlay os h b = Inr (True, b\<lparr>mOverlay := Some m\<rparr>, h1)"
    and "map_ok h1 (mMemSize b) m" and "mm_max m = mMemSize b"
    and "\<forall>i<unat (mMemSize b). h1 (mm_begin m + of_nat i) = Some (block_byte h b i)"
    and "\<forall>x. h x \<noteq> None \<longrightarrow> h1 x = h x"
    and "mOverlay b = Some m \<or> (\<forall>x. unat (x - mm_begin m) < unat (mMemSize b) \<longrightarrow> h x = None)"
proof (cases "mOverlay b")
  case None
  with res obtain mem where mem: "os_mmap os h (mMemSize b) = Some mem" by auto
  let ?bs = "map (block_byte h b) [0..<unat (mMemSize b)]"
  let ?m = "\<lparr>mm_name = [], mm_begin = mem, mm_size = mMemSize b, mm_offset = 0, mm_max = mMemSize b\<rparr>"
  have len: "length ?bs \<le> 2 ^ 64" using unat_u64_less [of "mMemSize b"] by simp
  have os: "mem \<noteq> 0" "\<forall>x. unat (x - mem) < unat (mMemSize b) \<longrightarrow> h x = None"
    "unat mem + unat (mMemSize b) \<le> 2 ^ 64"
    using osk [OF None] mem by (auto simp: os_ok_def)
  show ?thesis
  proof (rule that)
    show "newOverlay os h b = Inr (True, b\<lparr>mOverlay := Some ?m\<rparr>, host_map h mem ?bs)"
      using overlay_fill [OF osk [OF None] ok None mem] .
    show "map_ok (host_map h mem ?bs) (mMemSize b) ?m"
      using os(1,3) mapped_host_map [OF len] by (simp add: map_ok_def)
    show "\<forall>i<unat (mMemSize b). host_map h mem ?bs (mm_begin ?m + of_nat i) = Some (block_byte h b i)"
      using len by (simp add: host_map_at)
    show "\<forall>x. h x \<noteq> None \<longrightarrow> host_map h mem ?bs x = h x"
      using os(2) by (auto simp: host_map_def)
    show "mOverlay b = Some ?m \<or> (\<forall>x. unat (x - mm_begin ?m) < unat (mMemSize b) \<longrightarrow> h x = None)"
      using os(2) by simp
  qed simp
next
  case (Some m)
  then have m: "map_ok h (mMemSize b) m" "mm_max m = mMemSize b"
    using ok by (auto simp: block_ok_def)
  have bytes: "\<forall>i<unat (mMemSize b). h (mm_begin m + of_nat i) = Some (block_byte h b i)"
    using m Some by (auto simp: map_ok_def mapped_def block_byte_def backed_size_def LoadBlock_begin_all)
  have "newOverlay os h b = Inr (True, b\<lparr>mOverlay := Some m\<rparr>, h)"
    using Some by (simp add: newOverlay_def)
  then show ?thesis using m bytes Some by (intro that) auto
qed

lemma in_slice_iff:
  assumes "i < 2 ^ 64" and "lo + n \<le> 2 ^ 64" and "lo < 2 ^ 64"
  shows "unat (of_nat i - of_nat lo :: u64) < n \<longleftrightarrow> lo \<le> i \<and> i < lo + n"
  using in_range_iff_unat [of "of_nat lo :: u64" n "of_nat i"] assms
  by (simp add: unat_of_nat)

lemma host_map_slice:
  assumes "i < 2 ^ 64" and "lo + length buf \<le> 2 ^ 64" and "lo < 2 ^ 64"
  shows "host_map h (a + of_nat lo) buf (a + of_nat i) =
    (if lo \<le> i \<and> i < lo + length buf then Some (buf ! (i - lo)) else h (a + of_nat i))"
proof (cases "lo \<le> i")
  case True
  then have "unat (of_nat i - of_nat lo :: u64) = i - lo"
    using assms by (simp add: of_nat_diff [symmetric] unat_of_nat del: of_nat_diff)
  with True in_slice_iff [OF assms] show ?thesis by (simp add: host_map_def)
next
  case False
  with in_slice_iff [OF assms] show ?thesis by (simp add: host_map_def)
qed

lemma block_ok_overlay:
  assumes "block_ok h b" and "map_ok h' (mMemSize b) m" and "mm_max m = mMemSize b"
    and "\<And>x. h x \<noteq> None \<Longrightarrow> h' x \<noteq> None"
  shows "block_ok h' (b\<lparr>mOverlay := Some m\<rparr>)"
  using assms mapped_mono [of h _ _ h']
  by (auto simp: block_ok_def map_ok_def isValidBlock_def)

text \<open>\<open>setOverlay\<close> on a range inside the segment: it writes exactly that range.\<close>

lemma setOverlay_spec:
  assumes osk: "mOverlay b = None \<Longrightarrow> os_ok os" and ok: "block_ok h b"
    and res: "mOverlay b = None \<Longrightarrow> os_mmap os h (mMemSize b) \<noteq> None"
    and lo: "unat ((addr AND mVabitsMask b) - mVaddr b) = lo" "lo + length buf \<le> unat (mMemSize b)"
  obtains m h' where "setOverlay os h addr buf b = Inr (b\<lparr>mOverlay := Some m\<rparr>, h')"
    and "block_ok h' (b\<lparr>mOverlay := Some m\<rparr>)"
    and "\<forall>i<unat (mMemSize b). block_byte h' (b\<lparr>mOverlay := Some m\<rparr>) i =
           (if lo \<le> i \<and> i < lo + length buf then buf ! (i - lo) else block_byte h b i)"
    and "\<forall>x. h x \<noteq> None \<longrightarrow> unat (x - mm_begin m) < unat (mMemSize b) \<or> h' x = h x"
    and "\<forall>x. h x \<noteq> None \<longrightarrow> h' x \<noteq> None"
    and "mOverlay b = Some m \<or> (\<forall>x. unat (x - mm_begin m) < unat (mMemSize b) \<longrightarrow> h x = None)"
proof -
  let ?n = "unat (mMemSize b)"
  obtain m h1 where new: "newOverlay os h b = Inr (True, b\<lparr>mOverlay := Some m\<rparr>, h1)"
    and m: "map_ok h1 (mMemSize b) m" "mm_max m = mMemSize b"
    and bytes: "\<forall>i<?n. h1 (mm_begin m + of_nat i) = Some (block_byte h b i)"
    and frame: "\<forall>x. h x \<noteq> None \<longrightarrow> h1 x = h x"
    and fresh: "mOverlay b = Some m \<or> (\<forall>x. unat (x - mm_begin m) < ?n \<longrightarrow> h x = None)"
    using newOverlay_obtains [OF osk ok res] by blast
  let ?b = "b\<lparr>mOverlay := Some m\<rparr>" and ?h = "host_map h1 (mm_begin m + of_nat lo) buf"
  have n: "?n < 2 ^ 64" by (rule unat_u64_less)
  have small: "lo < 2 ^ 64" using lo(1) unat_u64_less by blast
  have cloc: "(addr AND mVabitsMask b) - mVaddr b = of_nat lo"
    unfolding lo(1) [symmetric] by simp
  have "host_write h1 (mm_begin m + of_nat lo) buf = Inr ?h"
  proof (rule host_write_mapped)
    show "\<forall>i<length buf. h1 (mm_begin m + of_nat lo + of_nat i) \<noteq> None"
    proof (intro allI impI)
      fix i assume "i < length buf"
      then have "lo + i < ?n" using lo(2) by simp
      then have "h1 (mm_begin m + of_nat (lo + i)) \<noteq> None" using bytes by blast
      then show "h1 (mm_begin m + of_nat lo + of_nat i) \<noteq> None" by (simp add: add.assoc)
    qed
  qed (use lo n in simp)
  then have set: "setOverlay os h addr buf b = Inr (?b, ?h)"
    by (simp add: setOverlay_def new cloc)
  have at: "?h (mm_begin m + of_nat i) =
      (if lo \<le> i \<and> i < lo + length buf then Some (buf ! (i - lo)) else Some (block_byte h b i))"
    if "i < ?n" for i
    using that bytes n small lo by (subst host_map_slice) auto
  have bb: "\<forall>i<?n. block_byte ?h ?b i =
      (if lo \<le> i \<and> i < lo + length buf then buf ! (i - lo) else block_byte h b i)"
    using at m(2) by (auto simp: block_byte_def backed_size_def LoadBlock_begin_all)
  have mono: "\<forall>x. h x \<noteq> None \<longrightarrow> ?h x \<noteq> None" using frame by (metis host_map_mono)
  have "map_ok ?h (mMemSize b) m"
    using m mapped_mono [of h1 _ _ ?h] host_map_mono by (auto simp: map_ok_def)
  then have ok': "block_ok ?h ?b"
    by (rule block_ok_overlay [OF ok _ m(2)]) (use mono in blast)
  have fr: "\<forall>x. h x \<noteq> None \<longrightarrow> unat (x - mm_begin m) < ?n \<or> ?h x = h x"
  proof (intro allI impI)
    fix x assume x: "h x \<noteq> None"
    show "unat (x - mm_begin m) < ?n \<or> ?h x = h x"
    proof (cases "unat (x - (mm_begin m + of_nat lo)) < length buf")
      case True
      let ?j = "unat (x - mm_begin m)"
      have "lo + length buf \<le> 2 ^ 64" using lo(2) n by simp
      moreover have "x - (mm_begin m + of_nat lo) = of_nat ?j - of_nat lo" by simp
      ultimately have "?j < lo + length buf"
        using True in_slice_iff [OF unat_u64_less _ small, of "length buf"] by metis
      with lo(2) show ?thesis by simp
    next
      case False
      with x frame show ?thesis by (simp add: host_map_out)
    qed
  qed
  show ?thesis by (rule that [OF set ok' bb fr mono fresh])
qed

end
