(* ===== verification/Notes.thy ===== *)
theory Notes
  imports Blocks
begin

unbundle bit_operations_syntax

text \<open>
  The note segments of the core file: core/common/auxv.h, auxv.cpp (\<open>Auxv\<close>),
  core/common/file.h (\<open>File\<close>), core/api/thread.h (\<open>ThreadApi\<close>) and
  core/common/note_block.h, note_block.cpp (\<open>NoteBlock\<close>). A note block owns its
  auxiliary vector, file list and threads; changing an auxiliary entry writes through
  to the overlay of the block.
\<close>

section \<open>Auxv\<close>

definition AT_NULL :: u64 where "AT_NULL = 0"
definition AT_PHDR :: u64 where "AT_PHDR = 3"
definition AT_PHENT :: u64 where "AT_PHENT = 4"
definition AT_PHNUM :: u64 where "AT_PHNUM = 5"
definition AT_PAGESZ :: u64 where "AT_PAGESZ = 6"
definition AT_EXECFN :: u64 where "AT_EXECFN = 31"
definition AT_SYSINFO_EHDR :: u64 where "AT_SYSINFO_EHDR = 33"

lemmas auxv_consts = AT_NULL_def AT_PHDR_def AT_PHENT_def AT_PHNUM_def AT_PAGESZ_def
  AT_EXECFN_def AT_SYSINFO_EHDR_def

text \<open>\<open>mBlock\<close> of the C++ class is the note block that owns the entry, so it is left out;
  \<open>mAuxv\<close> is the host address of the entry in the core file.\<close>

record auxv =
  mType :: u64
  mValue :: u64
  mAuxv :: u64

definition Auxv_to_string :: "auxv \<Rightarrow> string" where
  "Auxv_to_string a =
     (if mType a = 0 then ''AT_NULL'' else if mType a = 1 then ''AT_IGNORE''
      else if mType a = 2 then ''AT_EXECFD'' else if mType a = 3 then ''AT_PHDR''
      else if mType a = 4 then ''AT_PHENT'' else if mType a = 5 then ''AT_PHNUM''
      else if mType a = 6 then ''AT_PAGESZ'' else if mType a = 7 then ''AT_BASE''
      else if mType a = 8 then ''AT_FLAGS'' else if mType a = 9 then ''AT_ENTRY''
      else if mType a = 10 then ''AT_NOTELF'' else if mType a = 11 then ''AT_UID''
      else if mType a = 12 then ''AT_EUID'' else if mType a = 13 then ''AT_GID''
      else if mType a = 14 then ''AT_EGID'' else if mType a = 15 then ''AT_PLATFORM''
      else if mType a = 16 then ''AT_HWCAP'' else if mType a = 17 then ''AT_CLKTCK''
      else if mType a = 23 then ''AT_SECURE'' else if mType a = 24 then ''AT_BASE_PLATFORM''
      else if mType a = 25 then ''AT_RANDOM'' else if mType a = 26 then ''AT_HWCAP2''
      else if mType a = 31 then ''AT_EXECFN'' else if mType a = 32 then ''AT_SYSINFO''
      else if mType a = 33 then ''AT_SYSINFO_EHDR'' else if mType a = 51 then ''AT_MINSIGSTKSZ''
      else ''AT_UNKNOW'')"

section \<open>File\<close>

record core_file =
  cf_begin :: u64
  cf_end :: u64
  cf_offset :: u64
  cf_name :: string

definition FIRST_STAGE_RAMDIS :: string where
  "FIRST_STAGE_RAMDIS = ''/first_stage_ramdisk''"

text \<open>\<open>std::string::find\<close> and \<open>strstr\<close>: does the pattern occur?\<close>

fun is_prefix_of :: "string \<Rightarrow> string \<Rightarrow> bool" where
  "is_prefix_of [] s = True"
| "is_prefix_of (p # ps) [] = False"
| "is_prefix_of (p # ps) (c # cs) = (p = c \<and> is_prefix_of ps cs)"

fun str_contains :: "string \<Rightarrow> string \<Rightarrow> bool" where
  "str_contains p [] = (p = [])"
| "str_contains p (c # cs) = (is_prefix_of p (c # cs) \<or> str_contains p cs)"

definition new_File :: "u64 \<Rightarrow> u64 \<Rightarrow> u64 \<Rightarrow> string \<Rightarrow> core_file" where
  "new_File b e off name =
     \<lparr>cf_begin = b, cf_end = e, cf_offset = off,
      cf_name = (if str_contains FIRST_STAGE_RAMDIS name
                 then drop (length FIRST_STAGE_RAMDIS) name else name)\<rparr>"

definition File_contains :: "core_file \<Rightarrow> u64 \<Rightarrow> bool" where
  "File_contains f vaddr \<longleftrightarrow> vaddr \<ge> cf_begin f \<and> vaddr < cf_end f"

section \<open>ThreadApi\<close>

text \<open>
  A thread with the register files its \<open>ThreadInfo\<close> subclass adds, as the raw bytes
  the code copies into and out of them.
\<close>

record thread_info =
  mPid :: u32
  mPrs :: u64
  th_reg :: "u8 list"
  th_fpr :: "u8 list"
  th_tls :: "u8 list"

section \<open>NoteBlock\<close>

record note_block = block +
  mThread :: "thread_info list"
  mAuxvs :: "auxv list"
  mFiles :: "core_file list"
  mAuxvMax :: int

definition new_NoteBlock ::
  "u32 \<Rightarrow> u64 \<Rightarrow> u64 \<Rightarrow> u64 \<Rightarrow> u64 \<Rightarrow> u64 \<Rightarrow> u64 \<Rightarrow> note_block" where
  "new_NoteBlock f off va pa filesz memsz align =
     \<lparr>mFlags = f, mOffset = off, mVaddr = va, mPaddr = pa, mFileSize = filesz,
      mMemSize = memsz, mAlign = align, mOriAddr = 0, mTruncated = False, mFake = False,
      mOverlay = None, mThread = [], mAuxvs = [], mFiles = [], mAuxvMax = 0\<rparr>"

definition NoteBlock_begin :: "u32 \<Rightarrow> note_block \<Rightarrow> u64" where
  "NoteBlock_begin opt b =
     (if mOverlay b \<noteq> None \<and> opt AND OPT_READ_OVERLAY \<noteq> 0 then mm_begin (the (mOverlay b))
      else if mOriAddr b \<noteq> 0 \<and> opt AND OPT_READ_OR \<noteq> 0 then mOriAddr b
      else 0)"

definition setAuxvMaxCount :: "int \<Rightarrow> note_block \<Rightarrow> note_block" where
  "setAuxvMaxCount m nb = nb\<lparr>mAuxvMax := m\<rparr>"

definition addAuxvItem :: "u64 \<Rightarrow> u64 \<Rightarrow> u64 \<Rightarrow> note_block \<Rightarrow> note_block" where
  "addAuxvItem addr type val nb =
     nb\<lparr>mAuxvs := mAuxvs nb @ [\<lparr>mType = type, mValue = val, mAuxv = addr\<rparr>]\<rparr>"

definition addFileItem ::
  "host \<Rightarrow> u64 \<Rightarrow> u64 \<Rightarrow> u64 \<Rightarrow> u64 \<Rightarrow> note_block \<Rightarrow> note_block res" where
  "addFileItem h b e off pos nb =
     res_bind (c_string h pos)
       (\<lambda>name. Inr (nb\<lparr>mFiles := mFiles nb @ [new_File b e (push_bit 12 off) name]\<rparr>))"

definition addThreadItem :: "thread_info option \<Rightarrow> note_block \<Rightarrow> note_block" where
  "addThreadItem th nb =
     (case th of None \<Rightarrow> nb | Some t \<Rightarrow> nb\<lparr>mThread := mThread nb @ [t]\<rparr>)"

definition NoteBlock_newOverlay ::
  "os_env \<Rightarrow> host \<Rightarrow> note_block \<Rightarrow> (bool \<times> note_block \<times> host) res" where
  "NoteBlock_newOverlay os h nb =
     (case mOverlay nb of Some m \<Rightarrow> Inr (True, nb, h)
      | None \<Rightarrow>
          res_bind (MmapMem os h (NoteBlock_begin OPT_READ_ALL nb) (mFileSize nb) (mFileSize nb))
            (\<lambda>(m, h'). Inr (m \<noteq> None, nb\<lparr>mOverlay := m\<rparr>, h')))"

definition NoteBlock_setOverlay ::
  "os_env \<Rightarrow> host \<Rightarrow> u64 \<Rightarrow> u8 list \<Rightarrow> note_block \<Rightarrow> (note_block \<times> host) res" where
  "NoteBlock_setOverlay os h addr buf nb =
     res_bind (NoteBlock_newOverlay os h nb)
       (\<lambda>(ok, nb', h').
          if ok then res_bind (host_write h' (mm_begin (the (mOverlay nb')) + (addr - mOriAddr nb')) buf)
                       (\<lambda>h''. Inr (nb', h''))
          else Inr (nb', h'))"

definition NoteBlock_removeOverlay :: "note_block \<Rightarrow> note_block" where
  "NoteBlock_removeOverlay nb = (if mOverlay nb \<noteq> None then nb\<lparr>mOverlay := None\<rparr> else nb)"

text \<open>
  \<open>Auxv::setValue\<close>, \<open>setType\<close> and \<open>setTypeAndValue\<close> on the \<open>i\<close>-th entry of the block that
  owns it; \<open>psz\<close> is \<open>CoreApi::GetPointSize()\<close>, and the first \<open>psz\<close> bytes of the 64-bit
  value are copied. The entry is only changed when the copy went through.
\<close>

definition Auxv_setValue ::
  "os_env \<Rightarrow> host \<Rightarrow> nat \<Rightarrow> nat \<Rightarrow> u64 \<Rightarrow> note_block \<Rightarrow> (note_block \<times> host) res" where
  "Auxv_setValue os h psz i val nb =
     res_bind (NoteBlock_setOverlay os h (mAuxv (mAuxvs nb ! i) + of_nat psz)
                 (le_bytes psz (unat val)) nb)
       (\<lambda>(nb', h'). Inr (nb'\<lparr>mAuxvs := (mAuxvs nb')[i := (mAuxvs nb' ! i)\<lparr>mValue := val\<rparr>]\<rparr>, h'))"

definition Auxv_setType ::
  "os_env \<Rightarrow> host \<Rightarrow> nat \<Rightarrow> nat \<Rightarrow> u64 \<Rightarrow> note_block \<Rightarrow> (note_block \<times> host) res" where
  "Auxv_setType os h psz i type nb =
     res_bind (NoteBlock_setOverlay os h (mAuxv (mAuxvs nb ! i)) (le_bytes psz (unat type)) nb)
       (\<lambda>(nb', h'). Inr (nb'\<lparr>mAuxvs := (mAuxvs nb')[i := (mAuxvs nb' ! i)\<lparr>mType := type\<rparr>]\<rparr>, h'))"

definition Auxv_setTypeAndValue ::
  "os_env \<Rightarrow> host \<Rightarrow> nat \<Rightarrow> nat \<Rightarrow> u64 \<Rightarrow> u64 \<Rightarrow> note_block \<Rightarrow> (note_block \<times> host) res" where
  "Auxv_setTypeAndValue os h psz i type val nb =
     res_bind (NoteBlock_setOverlay os h (mAuxv (mAuxvs nb ! i)) (le_bytes psz (unat type)) nb)
       (\<lambda>(nb1, h1).
          res_bind (NoteBlock_setOverlay os h1 (mAuxv (mAuxvs nb ! i) + of_nat psz)
                      (le_bytes psz (unat val)) nb1)
            (\<lambda>(nb2, h2).
               Inr (nb2\<lparr>mAuxvs := (mAuxvs nb2)
                      [i := (mAuxvs nb2 ! i)\<lparr>mType := type, mValue := val\<rparr>]\<rparr>, h2)))"

text \<open>The index of the first \<open>AT_NULL\<close> entry, where the loop of \<open>appendAuxvItem\<close> stops.\<close>

fun first_null :: "auxv list \<Rightarrow> nat option" where
  "first_null [] = None"
| "first_null (a # as) = (if mType a \<noteq> AT_NULL then map_option Suc (first_null as) else Some 0)"

definition appendAuxvItem ::
  "os_env \<Rightarrow> host \<Rightarrow> nat \<Rightarrow> u64 \<Rightarrow> u64 \<Rightarrow> note_block \<Rightarrow> (note_block \<times> host) res" where
  "appendAuxvItem os h psz type val nb =
     (if (of_nat (length (mAuxvs nb)) :: u64) < of_int (mAuxvMax nb)
      then (case first_null (mAuxvs nb) of None \<Rightarrow> Inr (nb, h)
            | Some i \<Rightarrow>
                res_bind (Auxv_setTypeAndValue os h psz i type val nb)
                  (\<lambda>(nb', h'). Inr (addAuxvItem (mAuxv (mAuxvs nb' ! i) + 2 * of_nat psz) AT_NULL 0 nb', h')))
      else Inr (nb, h))"

end
