(* ===== verification/CoreState.thy ===== *)
theory CoreState
  imports Notes
begin

unbundle bit_operations_syntax

text \<open>
  The loaded core: core/api/core.h and core/api/core.cpp (\<open>CoreApi\<close>). The segments are
  shared objects (\<open>std::shared_ptr<LoadBlock>\<close>) that both load vectors refer to, so the
  state keeps a store of blocks and the vectors hold indices into it. The theory has the
  segment lookup, address translation, reads and writes, the allocation of fake
  segments, and the walks over notes.
\<close>

section \<open>State\<close>

text \<open>The data members of \<open>api::MemoryRef\<close> and \<open>LinkMap\<close>; their operations are in the
  theories MemoryRefs and ElfTables. The block pointer of a reference is a store index.\<close>

record memory_ref =
  ref_vaddr :: u64
  ref_block :: "nat option"

record link_map =
  lm_ref :: memory_ref
  addr_cache :: memory_ref
  name_cache :: memory_ref
  dynsyms :: "symbol_entry list"

datatype machine = EM_AARCH64 | EM_RISCV | EM_X86_64 | EM_ARM | EM_386

text \<open>
  Members of \<open>CoreApi\<close>, of its subclass \<open>arm64::Core\<close> (the pointer authentication
  masks) and of \<open>api::Elf\<close> (\<open>mDebug\<close>), its two static settings, and the memory of the host.
\<close>

record core =
  core_machine :: machine
  pointer_mask :: u64
  vabits_mask :: u64
  page_size :: u64
  mCore :: memory_map
  blocks :: "load_block list"
  mLoad :: "nat list"
  mQuickLoad :: "nat list"
  mNote :: "note_block list"
  mLinkMaps :: "link_map list"
  mRemote :: bool
  mDebug :: memory_ref
  data_mask :: u64
  insn_mask :: u64
  pac_enabled_keys :: u64
  tagged_addr_ctrl :: u64
  QUICK_LOAD_ENABLED :: bool
  VA_BITS :: u64
  mem :: host

fun bits :: "machine \<Rightarrow> nat" where
  "bits EM_AARCH64 = 64" | "bits EM_RISCV = 64" | "bits EM_X86_64 = 64"
| "bits EM_ARM = 32" | "bits EM_386 = 32"

fun getPointSize :: "machine \<Rightarrow> nat" where
  "getPointSize EM_AARCH64 = 8" | "getPointSize EM_RISCV = 8" | "getPointSize EM_X86_64 = 8"
| "getPointSize EM_ARM = 4" | "getPointSize EM_386 = 4"

fun getMachine :: "machine \<Rightarrow> u16" where
  "getMachine EM_AARCH64 = 183" | "getMachine EM_RISCV = 243" | "getMachine EM_X86_64 = 62"
| "getMachine EM_ARM = 40" | "getMachine EM_386 = 3"

definition new_memory_ref :: "u64 \<Rightarrow> memory_ref" where
  "new_memory_ref v = \<lparr>ref_vaddr = v, ref_block = None\<rparr>"

text \<open>The constructor \<open>CoreApi(map)\<close>: the static settings and the host come from the process.\<close>

definition new_core :: "machine \<Rightarrow> memory_map \<Rightarrow> bool \<Rightarrow> u64 \<Rightarrow> host \<Rightarrow> core" where
  "new_core m mp quick va h =
     \<lparr>core_machine = m, pointer_mask = -1, vabits_mask = -1, page_size = 0, mCore = mp,
      blocks = [], mLoad = [], mQuickLoad = [], mNote = [], mLinkMaps = [], mRemote = False,
      mDebug = new_memory_ref 0, data_mask = 0, insn_mask = 0, pac_enabled_keys = 0,
      tagged_addr_ctrl = 0, QUICK_LOAD_ENABLED = quick, VA_BITS = va, mem = h\<rparr>"

definition FAKE_LOAD_BEGIN :: u64 where "FAKE_LOAD_BEGIN = 0x100000"
definition ELF_PAGE_SIZE :: u64 where "ELF_PAGE_SIZE = 0x1000"

section \<open>Finding a segment\<close>

definition getLoads :: "bool \<Rightarrow> core \<Rightarrow> nat list" where
  "getLoads quick c = (if quick then mQuickLoad c else mLoad c)"

abbreviation blk :: "core \<Rightarrow> nat \<Rightarrow> load_block" where
  "blk c i \<equiv> blocks c ! i"

abbreviation blk_end :: "load_block \<Rightarrow> u64" where
  "blk_end b \<equiv> mVaddr b + mMemSize b"

text \<open>
  The binary search of \<open>findLoadBlock\<close> over the vector of blocks, between \<open>left\<close> and
  \<open>right\<close>; the result is a position of the vector.
\<close>

function search_loop :: "load_block list \<Rightarrow> u64 \<Rightarrow> nat \<Rightarrow> nat \<Rightarrow> nat option" where
  "search_loop bs clocaddr left right =
     (if left < right then
        (let mid = left + (right - left) div 2; b = bs ! mid
         in if mVaddr b > clocaddr then search_loop bs clocaddr left mid
            else if clocaddr < blk_end b then Some mid
            else search_loop bs clocaddr (mid + 1) right)
      else None)"
  by pat_completeness auto
termination
  by (relation "measure (\<lambda>(bs, a, l, r). r - l)") auto

declare search_loop.simps [simp del]

definition search_loads :: "load_block list \<Rightarrow> u64 \<Rightarrow> nat option" where
  "search_loads bs clocaddr =
     (if bs = [] then None
      else if clocaddr < mVaddr (bs ! 0) \<or> clocaddr \<ge> blk_end (bs ! (length bs - 1)) then None
      else search_loop bs clocaddr 0 (length bs))"

definition findLoadBlock :: "u64 \<Rightarrow> bool \<Rightarrow> core \<Rightarrow> nat option" where
  "findLoadBlock vaddr quick c =
     (let loads = getLoads quick c
      in map_option (\<lambda>p. loads ! p)
           (search_loads (map (blk c) loads) (vaddr AND vabits_mask c)))"

definition FindLoadBlock :: "u64 \<Rightarrow> bool \<Rightarrow> bool \<Rightarrow> core \<Rightarrow> nat option res" where
  "FindLoadBlock vaddr check quick c =
     (let b = findLoadBlock vaddr quick c
      in if check then
           (case b of Some i \<Rightarrow> if isValid (blk c i) then Inr (Some i)
                                else Inl (InvalidAddressException vaddr)
            | None \<Rightarrow> Inl (InvalidAddressException vaddr))
         else Inr b)"

section \<open>Translating addresses\<close>

definition v2r :: "u64 \<Rightarrow> u32 \<Rightarrow> core \<Rightarrow> u64 res" where
  "v2r vaddr opt c =
     (case findLoadBlock vaddr True c of
        Some i \<Rightarrow>
          (let b = blk c i in
           if isValid b then
             (let raddr = LoadBlock_begin opt b
              in if raddr \<noteq> 0 then Inr (raddr + ((vaddr AND mVabitsMask b) - mVaddr b))
                 else Inr 0)
           else Inl (InvalidAddressException vaddr))
      | None \<Rightarrow> Inl (InvalidAddressException vaddr))"

abbreviation GetReal :: "u64 \<Rightarrow> core \<Rightarrow> u64 res" where
  "GetReal vaddr c \<equiv> v2r vaddr OPT_READ_ALL c"

definition r2v :: "u64 \<Rightarrow> core \<Rightarrow> u64 res" where
  "r2v raddr c =
     (case find (\<lambda>i. realContains (blk c i) raddr) (mQuickLoad c) of
        Some i \<Rightarrow> Inr (mVaddr (blk c i) + (raddr - LoadBlock_begin OPT_READ_ALL (blk c i)))
      | None \<Rightarrow> Inl (InvalidAddressException raddr))"

definition virtualValid :: "u64 \<Rightarrow> core \<Rightarrow> bool" where
  "virtualValid vaddr c =
     (case findLoadBlock vaddr True c of Some i \<Rightarrow> isValid (blk c i) | None \<Rightarrow> False)"

section \<open>Reading and writing target memory\<close>

definition Core_Write :: "os_env \<Rightarrow> u64 \<Rightarrow> u8 list \<Rightarrow> core \<Rightarrow> core res" where
  "Core_Write os vaddr buf c =
     (case findLoadBlock vaddr True c of
        None \<Rightarrow> Inl (InvalidAddressException vaddr)
      | Some i \<Rightarrow>
          res_bind (setOverlay os (mem c) vaddr buf (blk c i))
            (\<lambda>(b', h'). Inr (c\<lparr>blocks := (blocks c)[i := b'], mem := h'\<rparr>)))"

text \<open>\<open>Write(vaddr, value)\<close>\<close>

definition Core_Write64 :: "os_env \<Rightarrow> u64 \<Rightarrow> u64 \<Rightarrow> core \<Rightarrow> core res" where
  "Core_Write64 os vaddr val c = Core_Write os vaddr (le_bytes 8 (unat val)) c"

text \<open>\<open>Read\<close>: the bytes copied into the caller's buffer, \<open>None\<close> when it returns false.\<close>

definition Core_Read :: "u64 \<Rightarrow> u64 \<Rightarrow> u32 \<Rightarrow> core \<Rightarrow> u8 list option res" where
  "Core_Read vaddr sz opt c =
     res_bind (FindLoadBlock vaddr True True c) (\<lambda>i.
     res_bind (v2r vaddr opt c) (\<lambda>raddr.
       if raddr = 0 then Inr None
       else
         (let b = blk c (the i);
              block_end = mVaddr b + LoadBlock_size OPT_READ_ALL b;
              n = (if vaddr + sz > block_end then block_end - vaddr else sz)
          in res_bind (host_read (mem c) raddr (unat n)) (\<lambda>bs. Inr (Some bs)))))"

section \<open>Segments and allocation\<close>

definition new_block :: "load_block \<Rightarrow> core \<Rightarrow> nat \<times> core" where
  "new_block b c = (length (blocks c), c\<lparr>blocks := blocks c @ [b]\<rparr>)"

definition addLoadBlock :: "load_block \<Rightarrow> core \<Rightarrow> core" where
  "addLoadBlock b c =
     (let (i, c') = new_block b c
      in c'\<lparr>mLoad := mLoad c' @ [i],
            mQuickLoad := (if \<not> QUICK_LOAD_ENABLED c' \<or> mFlags b \<noteq> 0
                           then mQuickLoad c' @ [i] else mQuickLoad c')\<rparr>)"

definition removeAllLoadBlock :: "core \<Rightarrow> core" where
  "removeAllLoadBlock c = c\<lparr>mQuickLoad := [], mLoad := []\<rparr>"

definition removeAllBindMap :: "core \<Rightarrow> core" where
  "removeAllBindMap c =
     c\<lparr>blocks := fold (\<lambda>i bs. bs[i := (bs ! i)\<lparr>mLinkMap := None\<rparr>]) (mLoad c) (blocks c)\<rparr>"

text \<open>\<open>v.insert(v.begin() + k, x)\<close>\<close>

definition insert_at :: "nat \<Rightarrow> 'a \<Rightarrow> 'a list \<Rightarrow> 'a list" where
  "insert_at k x xs = take k xs @ x # drop k xs"

text \<open>
  The placement loops of \<open>newLoadBlock\<close>. \<open>explicit_index\<close> is the first loop: the position
  in the load vector for a block at \<open>begin\<close>, or \<open>None\<close> when it returns 0 because the
  block would not fit.
\<close>

fun explicit_index :: "load_block list \<Rightarrow> nat \<Rightarrow> u64 \<Rightarrow> u64 \<Rightarrow> u64 \<Rightarrow> nat option" where
  "explicit_index [] k vmask bgn sz = Some k"
| "explicit_index (b # bs) k vmask bgn sz =
     (if mVaddr b > bgn \<or> bs = [] then
        (let endaddr = (if bs = [] then vmask else mVaddr b)
         in if bgn + sz > endaddr then None else Some k)
      else explicit_index bs (Suc k) vmask bgn sz)"

fun quick_index :: "load_block list \<Rightarrow> nat \<Rightarrow> u64 \<Rightarrow> nat" where
  "quick_index [] k bgn = k"
| "quick_index (b # bs) k bgn = (if mVaddr b > bgn then k else quick_index bs (Suc k) bgn)"

text \<open>The search for a gap between neighbours: its position and where it starts.\<close>

fun gap_search :: "load_block \<Rightarrow> load_block list \<Rightarrow> nat \<Rightarrow> u64 \<Rightarrow> (nat \<times> u64) option" where
  "gap_search left [] k sz = None"
| "gap_search left (right # bs) k sz =
     (if mVaddr right - (mVaddr left + mMemSize left) \<ge> sz
      then Some (k, mVaddr left + mMemSize left)
      else gap_search right bs (Suc k) sz)"

text \<open>The placement part of \<open>newLoadBlock\<close>: begin, position in \<open>mLoad\<close>, position in
  \<open>mQuickLoad\<close>; \<open>None\<close> when it returns 0.\<close>

definition place_block :: "u64 \<Rightarrow> u64 \<Rightarrow> core \<Rightarrow> (u64 \<times> nat \<times> nat) option" where
  "place_block bgn sz c =
     (let loads = map (blk c) (mLoad c); quicks = map (blk c) (mQuickLoad c) in
      if sz = 0 then None
      else if loads = [] then
        (let bgn' = (if bgn = 0 then FAKE_LOAD_BEGIN else bgn)
         in if bgn' + sz > vabits_mask c then None else Some (bgn', 0, 0))
      else if findLoadBlock bgn False c \<noteq> None then None
      else if bgn \<noteq> 0 then
        (case explicit_index loads 0 (vabits_mask c) bgn sz of None \<Rightarrow> None
         | Some k \<Rightarrow> Some (bgn, k, quick_index quicks 0 bgn))
      else if FAKE_LOAD_BEGIN + sz \<le> mVaddr (loads ! 0) then Some (FAKE_LOAD_BEGIN, 0, 0)
      else
        (case gap_search (loads ! 0) (tl loads) 1 sz of None \<Rightarrow> None
         | Some (k, bgn') \<Rightarrow>
             if bgn' = 0 then None else Some (bgn', k, quick_index quicks 0 bgn')))"

definition fake_block :: "u64 \<Rightarrow> u64 \<Rightarrow> u32 \<Rightarrow> core \<Rightarrow> load_block" where
  "fake_block bgn sz flags c =
     (new_LoadBlock flags 0 bgn 0 0 sz 0x1000)
       \<lparr>mTruncated := False, mFake := True, mVabitsMask := vabits_mask c,
        mPointMask := pointer_mask c\<rparr>"

definition newLoadBlock :: "os_env \<Rightarrow> u64 \<Rightarrow> u64 \<Rightarrow> u32 \<Rightarrow> core \<Rightarrow> (u64 \<times> core) res" where
  "newLoadBlock os vaddr old_size flags c =
     (let sz = RoundUp old_size ELF_PAGE_SIZE in
      case place_block (RoundUp (vaddr AND vabits_mask c) ELF_PAGE_SIZE) sz c of
        None \<Rightarrow> Inr (0, c)
      | Some (bgn, k, q) \<Rightarrow>
          res_bind (newOverlay os (mem c) (fake_block bgn sz flags c))
            (\<lambda>(ok, b, h').
               if \<not> ok then Inr (0, c\<lparr>mem := h'\<rparr>)
               else
                 (let (i, c') = new_block b (c\<lparr>mem := h'\<rparr>)
                  in Inr (bgn, c'\<lparr>mLoad := insert_at k i (mLoad c'),
                                  mQuickLoad := (if \<not> QUICK_LOAD_ENABLED c' \<or> mFlags b \<noteq> 0
                                                 then insert_at q i (mQuickLoad c')
                                                 else mQuickLoad c')\<rparr>))))"

section \<open>Notes, files, threads\<close>

definition addNoteBlock :: "note_block \<Rightarrow> core \<Rightarrow> core" where
  "addNoteBlock nb c = c\<lparr>mNote := mNote c @ [nb]\<rparr>"

definition removeAllNoteBlock :: "core \<Rightarrow> core" where
  "removeAllNoteBlock c = c\<lparr>mNote := []\<rparr>"

definition findAuxv :: "u64 \<Rightarrow> core \<Rightarrow> u64" where
  "findAuxv type c =
     (case find (\<lambda>a. mType a = type) (concat (map mAuxvs (mNote c))) of
        Some a \<Rightarrow> mValue a | None \<Rightarrow> 0)"

definition findThread :: "u32 \<Rightarrow> core \<Rightarrow> thread_info option" where
  "findThread tid c = find (\<lambda>t. mPid t = tid) (concat (map mThread (mNote c)))"

text \<open>
  The \<open>foreach\<close> walks: the callback gets the state it has built so far and the item, and
  returns the new state and whether to stop.
\<close>

fun foreach_until :: "('x \<Rightarrow> 's \<Rightarrow> bool \<times> 's) \<Rightarrow> 'x list \<Rightarrow> 's \<Rightarrow> 's" where
  "foreach_until f [] s = s"
| "foreach_until f (x # xs) s = (case f x s of (stop, s') \<Rightarrow> if stop then s' else foreach_until f xs s')"

definition foreachThread :: "(thread_info \<Rightarrow> 's \<Rightarrow> bool \<times> 's) \<Rightarrow> core \<Rightarrow> 's \<Rightarrow> 's" where
  "foreachThread f c = foreach_until f (concat (map mThread (mNote c)))"

definition foreachFile :: "(core_file \<Rightarrow> 's \<Rightarrow> bool \<times> 's) \<Rightarrow> core \<Rightarrow> 's \<Rightarrow> 's" where
  "foreachFile f c = foreach_until f (concat (map mFiles (mNote c)))"

definition foreachAuxv :: "(auxv \<Rightarrow> 's \<Rightarrow> bool \<times> 's) \<Rightarrow> core \<Rightarrow> 's \<Rightarrow> 's" where
  "foreachAuxv f c = foreach_until f (concat (map mAuxvs (mNote c)))"

definition foreachLoadBlock :: "(nat \<Rightarrow> 's \<Rightarrow> bool \<times> 's) \<Rightarrow> bool \<Rightarrow> bool \<Rightarrow> core \<Rightarrow> 's \<Rightarrow> 's" where
  "foreachLoadBlock f check quick c =
     foreach_until
       (\<lambda>i s. if check \<and> \<not> isValid (blk c i) then (False, s) else f i s)
       (getLoads quick c)"

definition FindFile :: "u64 \<Rightarrow> core \<Rightarrow> core_file option" where
  "FindFile vaddr c =
     (if vaddr = 0 then None
      else
        (let clocvaddr = vaddr AND vabits_mask c
         in foreachFile (\<lambda>f r. if File_contains f clocvaddr then (True, Some f) else (False, r)) c None))"

definition getPageSize :: "core \<Rightarrow> u64 \<times> core" where
  "getPageSize c =
     (if page_size c = 0 then
        (let p = findAuxv AT_PAGESZ c; p' = (if p = 0 then ELF_PAGE_SIZE else p)
         in (p', c\<lparr>page_size := p'\<rparr>))
      else (page_size c, c))"

definition removeAllLinkMap :: "core \<Rightarrow> core" where
  "removeAllLinkMap c = (removeAllBindMap c)\<lparr>mLinkMaps := []\<rparr>"

definition CleanCache :: "core \<Rightarrow> core" where
  "CleanCache c = (removeAllLinkMap c)\<lparr>mDebug := new_memory_ref 0\<rparr>"

text \<open>The destructor.\<close>

definition delete_core :: "core \<Rightarrow> core" where
  "delete_core c = removeAllNoteBlock (removeAllLoadBlock (removeAllLinkMap c))"

end
