(* ===== verification/CoreLemmas.thy ===== *)
theory CoreLemmas
  imports CoreState
begin

unbundle bit_operations_syntax

text \<open>
  What makes the core's memory interface correct: the binary search finds the one
  segment that contains an address, translation and reads stay inside it, a write is
  read back and changes nothing else, and a fake segment never overlaps another.
\<close>

section \<open>Sorted segments\<close>

definition no_wrap :: "load_block \<Rightarrow> bool" where
  "no_wrap b \<longleftrightarrow> unat (mVaddr b) + unat (mMemSize b) < 2 ^ 64"

definition below :: "load_block \<Rightarrow> load_block \<Rightarrow> bool" where
  "below a b \<longleftrightarrow> unat (mVaddr a) + unat (mMemSize a) \<le> unat (mVaddr b)"

text \<open>The order the comment of \<open>findLoadBlock\<close> asks for.\<close>

definition sorted_loads :: "load_block list \<Rightarrow> bool" where
  "sorted_loads bs \<longleftrightarrow> sorted_wrt below bs \<and> (\<forall>b\<in>set bs. no_wrap b)"

definition block_has :: "load_block \<Rightarrow> u64 \<Rightarrow> bool" where
  "block_has b a \<longleftrightarrow> mVaddr b \<le> a \<and> a < blk_end b"

lemma unat_blk_end: "no_wrap b \<Longrightarrow> unat (blk_end b) = unat (mVaddr b) + unat (mMemSize b)"
  by (simp add: no_wrap_def unat_add_no_wrap)

lemma block_has_unat:
  "no_wrap b \<Longrightarrow> block_has b a \<longleftrightarrow>
     unat (mVaddr b) \<le> unat a \<and> unat a < unat (mVaddr b) + unat (mMemSize b)"
  by (simp add: block_has_def word_le_nat_alt word_less_nat_alt unat_blk_end)

lemma sorted_loads_nth:
  "sorted_loads bs \<Longrightarrow> i < j \<Longrightarrow> j < length bs \<Longrightarrow> below (bs ! i) (bs ! j)"
  by (auto simp: sorted_loads_def sorted_wrt_iff_nth_less)

lemma sorted_loads_no_wrap: "sorted_loads bs \<Longrightarrow> i < length bs \<Longrightarrow> no_wrap (bs ! i)"
  by (auto simp: sorted_loads_def)

lemma sorted_loads_disjoint:
  assumes "sorted_loads bs" "i < j" "j < length bs"
  shows "\<not> (block_has (bs ! i) a \<and> block_has (bs ! j) a)"
  using sorted_loads_nth [OF assms] assms sorted_loads_no_wrap [OF assms(1)]
  by (auto simp: below_def block_has_unat)

lemma sorted_loads_unique:
  assumes "sorted_loads bs" "p < length bs" "q < length bs"
    and "block_has (bs ! p) a" "block_has (bs ! q) a"
  shows "p = q"
  using sorted_loads_disjoint [OF assms(1)] assms(2-) by (metis nat_neq_iff)

section \<open>The binary search is the linear search\<close>

lemma search_loop_step:
  assumes "l < r"
  shows "search_loop bs a l r =
    (if a < mVaddr (bs ! (l + (r - l) div 2)) then search_loop bs a l (l + (r - l) div 2)
     else if a < blk_end (bs ! (l + (r - l) div 2)) then Some (l + (r - l) div 2)
     else search_loop bs a (l + (r - l) div 2 + 1) r)"
  using assms by (subst search_loop.simps) (simp add: Let_def)

lemma search_loop_empty: "\<not> l < r \<Longrightarrow> search_loop bs a l r = None"
  by (subst search_loop.simps) simp

lemma search_loop_sound:
  "search_loop bs a l r = Some p \<Longrightarrow> l \<le> p \<and> p < r \<and> block_has (bs ! p) a"
proof (induction bs a l r rule: search_loop.induct)
  case (1 bs a l r)
  let ?mid = "l + (r - l) div 2"
  have lr: "l < r" using "1.prems" search_loop_empty by fastforce
  then have mid: "?mid < r" by linarith
  consider "a < mVaddr (bs ! ?mid)" "search_loop bs a l ?mid = Some p"
    | "mVaddr (bs ! ?mid) \<le> a" "a < blk_end (bs ! ?mid)" "p = ?mid"
    | "mVaddr (bs ! ?mid) \<le> a" "\<not> a < blk_end (bs ! ?mid)" "search_loop bs a (?mid + 1) r = Some p"
    using "1.prems" unfolding search_loop_step [OF lr] by (fastforce split: if_splits)
  then show ?case
  proof cases
    case 1
    then show ?thesis using "1.IH"(1) [OF lr refl refl] mid by auto
  next
    case 2
    then show ?thesis using mid by (simp add: block_has_def)
  next
    case 3
    then have "?mid + 1 \<le> p \<and> p < r \<and> block_has (bs ! p) a"
      using "1.IH"(2) [OF lr refl refl] by (simp add: not_less)
    then show ?thesis by simp
  qed
qed

lemma search_loop_complete:
  "sorted_loads bs \<Longrightarrow> r \<le> length bs \<Longrightarrow> l \<le> p \<Longrightarrow> p < r \<Longrightarrow> block_has (bs ! p) a \<Longrightarrow>
     search_loop bs a l r = Some p"
proof (induction bs a l r rule: search_loop.induct)
  case (1 bs a l r)
  let ?mid = "l + (r - l) div 2"
  have lr: "l < r" using "1.prems" by simp
  then have mid: "?mid < r" "l \<le> ?mid" by linarith+
  have nw: "no_wrap (bs ! p)" "no_wrap (bs ! ?mid)"
    using "1.prems" mid sorted_loads_no_wrap [of bs] by auto
  note pbounds = "1.prems"(5) [unfolded block_has_unat [OF nw(1)]]
  consider "p < ?mid" | "p = ?mid" | "?mid < p" by linarith
  then show ?case
  proof cases
    case 1
    then have "below (bs ! p) (bs ! ?mid)" using "1.prems" mid sorted_loads_nth [of bs p ?mid] by auto
    then have "a < mVaddr (bs ! ?mid)"
      using pbounds by (simp add: below_def word_less_nat_alt)
    then show ?thesis
      using "1.IH"(1) [OF lr refl refl] "1.prems" 1 mid unfolding search_loop_step [OF lr] by simp
  next
    case 2
    then show ?thesis
      using "1.prems"(5) unfolding search_loop_step [OF lr] by (auto simp: block_has_def not_less)
  next
    case 3
    then have "below (bs ! ?mid) (bs ! p)" using "1.prems" mid sorted_loads_nth [of bs ?mid p] by auto
    then have "unat (blk_end (bs ! ?mid)) \<le> unat a" and "unat (mVaddr (bs ! ?mid)) \<le> unat a"
      using pbounds nw(2) by (auto simp: below_def unat_blk_end)
    then have "\<not> a < blk_end (bs ! ?mid)" and "\<not> a < mVaddr (bs ! ?mid)"
      by (auto simp: word_less_nat_alt)
    then show ?thesis
      using "1.IH"(2) [OF lr refl refl] "1.prems" 3 unfolding search_loop_step [OF lr] by simp
  qed
qed

lemma search_loads_iff:
  assumes s: "sorted_loads bs"
  shows "search_loads bs a = Some p \<longleftrightarrow> p < length bs \<and> block_has (bs ! p) a"
proof
  assume "search_loads bs a = Some p"
  then show "p < length bs \<and> block_has (bs ! p) a"
    using search_loop_sound [of bs a 0 "length bs" p]
    by (auto simp: search_loads_def split: if_splits)
next
  assume p: "p < length bs \<and> block_has (bs ! p) a"
  let ?n = "length bs - 1"
  have ne: "bs \<noteq> []" using p by auto
  then have n: "?n < length bs" by simp
  have nw: "no_wrap (bs ! p)" "no_wrap (bs ! ?n)"
    using p n sorted_loads_no_wrap [OF s] by auto
  have bnd: "unat (mVaddr (bs ! p)) \<le> unat a" "unat a < unat (mVaddr (bs ! p)) + unat (mMemSize (bs ! p))"
    using p by (auto simp: block_has_unat [OF nw(1)])
  have "unat (mVaddr (bs ! 0)) \<le> unat a"
    using sorted_loads_nth [OF s, of 0 p] p bnd by (cases "p = 0") (auto simp: below_def)
  moreover have "unat a < unat (blk_end (bs ! ?n))"
  proof (cases "p = ?n")
    case True
    then show ?thesis using bnd nw by (simp add: unat_blk_end)
  next
    case False
    then have "p < ?n" using p by linarith
    then have "below (bs ! p) (bs ! ?n)" using sorted_loads_nth [OF s _ n] by simp
    then show ?thesis using bnd nw by (simp add: unat_blk_end below_def)
  qed
  ultimately show "search_loads bs a = Some p"
    using search_loop_complete [OF s order_refl, of 0 p a] p ne
    by (simp add: search_loads_def word_less_nat_alt word_le_nat_alt)
qed

definition loads_ok :: "bool \<Rightarrow> core \<Rightarrow> bool" where
  "loads_ok quick c \<longleftrightarrow>
     (\<forall>i\<in>set (getLoads quick c). i < length (blocks c)) \<and>
     sorted_loads (map (blk c) (getLoads quick c))"

lemma findLoadBlock_iff:
  assumes "loads_ok quick c"
  shows "findLoadBlock vaddr quick c = Some i \<longleftrightarrow>
    i \<in> set (getLoads quick c) \<and> block_has (blk c i) (vaddr AND vabits_mask c)"
proof -
  let ?L = "getLoads quick c" and ?a = "vaddr AND vabits_mask c"
  have s: "sorted_loads (map (blk c) ?L)" using assms by (simp add: loads_ok_def)
  have "findLoadBlock vaddr quick c = Some i \<longleftrightarrow>
      (\<exists>p<length ?L. block_has (blk c (?L ! p)) ?a \<and> ?L ! p = i)"
    unfolding findLoadBlock_def Let_def map_option_eq_Some search_loads_iff [OF s] by auto
  then show ?thesis by (auto simp: in_set_conv_nth)
qed

lemma findLoadBlock_None_iff:
  assumes "loads_ok quick c"
  shows "findLoadBlock vaddr quick c = None \<longleftrightarrow>
    (\<forall>i\<in>set (getLoads quick c). \<not> block_has (blk c i) (vaddr AND vabits_mask c))"
  using findLoadBlock_iff [OF assms, of vaddr] by (metis not_None_eq)

section \<open>The invariant of a loaded core\<close>

text \<open>
  Two blocks are separate when the overlay of the first does not meet the memory the
  second is read from.
\<close>

definition separate :: "load_block \<Rightarrow> load_block \<Rightarrow> bool" where
  "separate a b \<longleftrightarrow>
     (\<forall>m x. mOverlay a = Some m \<longrightarrow> unat (x - mm_begin m) < unat (mMemSize a) \<longrightarrow>
        \<not> unat (x - LoadBlock_begin OPT_READ_ALL b) < backed_size b)"

text \<open>
  Both load vectors are sorted, quick blocks are loaded blocks, the address mask keeps
  the low bits and covers every segment, and every block is well formed, carries the
  mask of the core and is separate from every other.
\<close>

definition mask_ok :: "core \<Rightarrow> bool" where
  "mask_ok c \<longleftrightarrow> (\<exists>w\<le>64. vabits_mask c = mask w \<and>
     (\<forall>i\<in>set (mLoad c). unat (mVaddr (blk c i)) + unat (mMemSize (blk c i)) \<le> 2 ^ w))"

definition core_ok :: "core \<Rightarrow> bool" where
  "core_ok c \<longleftrightarrow>
     loads_ok True c \<and> loads_ok False c \<and> set (mQuickLoad c) \<subseteq> set (mLoad c) \<and> mask_ok c \<and>
     (\<forall>i\<in>set (mLoad c). block_ok (mem c) (blk c i) \<and> mVabitsMask (blk c i) = vabits_mask c) \<and>
     (\<forall>i\<in>set (mLoad c). \<forall>j\<in>set (mLoad c). i \<noteq> j \<longrightarrow> separate (blk c i) (blk c j))"

text \<open>
  The abstract target memory: the byte a target address shows, \<open>None\<close> outside every
  quick segment. Past the stored contents of a segment it is 0 by the convention of
  \<open>block_byte\<close>.
\<close>

definition core_byte :: "core \<Rightarrow> u64 \<Rightarrow> u8 option" where
  "core_byte c a =
     map_option
       (\<lambda>i. block_byte (mem c) (blk c i) (unat ((a AND vabits_mask c) - mVaddr (blk c i))))
       (findLoadBlock a True c)"

lemma and_mask_small: "unat (x :: u64) < 2 ^ w \<Longrightarrow> x AND mask w = x"
proof -
  assume "unat x < 2 ^ w"
  then have "unat (take_bit w x) = unat x"
    by (simp only: unsigned_take_bit_eq take_bit_nat_eq_self)
  then have "take_bit w x = x" by (simp only: unsigned_word_eqI)
  then show ?thesis by (simp add: take_bit_eq_mask [symmetric])
qed

lemma unat_mask_less: "unat (mask w :: u64) < 2 ^ w"
  by (simp only: take_bit_minus_one_eq_mask [symmetric] unsigned_take_bit_eq take_bit_nat_less_exp)

lemma block_ok_no_wrap: "block_ok h b \<Longrightarrow> no_wrap b"
  by (simp add: block_ok_def no_wrap_def)

lemma core_ok_block:
  assumes "core_ok c" and "findLoadBlock a True c = Some i"
  shows "i \<in> set (mQuickLoad c)" "i \<in> set (mLoad c)" "i < length (blocks c)"
    "block_ok (mem c) (blk c i)" "mVabitsMask (blk c i) = vabits_mask c"
    "block_has (blk c i) (a AND vabits_mask c)"
  using assms findLoadBlock_iff [of True c a i]
  by (auto simp: core_ok_def loads_ok_def getLoads_def)

lemma core_ok_separate:
  "core_ok c \<Longrightarrow> i \<in> set (mLoad c) \<Longrightarrow> j \<in> set (mLoad c) \<Longrightarrow> i \<noteq> j \<Longrightarrow> separate (blk c i) (blk c j)"
  by (simp add: core_ok_def)

lemma core_ok_blocks:
  "core_ok c \<Longrightarrow> i \<in> set (mLoad c) \<Longrightarrow> block_ok (mem c) (blk c i)"
  "core_ok c \<Longrightarrow> i \<in> set (mLoad c) \<Longrightarrow> mVabitsMask (blk c i) = vabits_mask c"
  "core_ok c \<Longrightarrow> i \<in> set (mLoad c) \<Longrightarrow> i < length (blocks c)"
  by (simp_all add: core_ok_def loads_ok_def getLoads_def)

text \<open>The offset of an address in the block it lies in.\<close>

lemma block_has_offset:
  assumes "no_wrap b" "block_has b t"
  shows "unat (t - mVaddr b) = unat t - unat (mVaddr b)" "unat (t - mVaddr b) < unat (mMemSize b)"
    "unat (mVaddr b) \<le> unat t"
proof -
  have b: "unat (mVaddr b) \<le> unat t" "unat t < unat (mVaddr b) + unat (mMemSize b)"
    using assms by (auto simp: block_has_unat)
  then show eq: "unat (t - mVaddr b) = unat t - unat (mVaddr b)"
    by (simp add: unat_diff_le word_le_nat_alt)
  show "unat (t - mVaddr b) < unat (mMemSize b)" "unat (mVaddr b) \<le> unat t"
    using b by (auto simp: eq)
qed

text \<open>Blocks keep their place: a change of the backing moves no segment.\<close>

definition same_place :: "load_block \<Rightarrow> load_block \<Rightarrow> bool" where
  "same_place a b \<longleftrightarrow> mVaddr a = mVaddr b \<and> mMemSize a = mMemSize b"

lemma search_loop_cong:
  assumes "list_all2 same_place bs bs'" and "r \<le> length bs"
  shows "search_loop bs a l r = search_loop bs' a l r"
  using assms
proof (induction bs a l r rule: search_loop.induct)
  case (1 bs a l r)
  show ?case
  proof (cases "l < r")
    case True
    let ?mid = "l + (r - l) div 2"
    have "?mid < length bs" using True "1.prems"(2) by linarith
    then have "same_place (bs ! ?mid) (bs' ! ?mid)" using "1.prems"(1) by (simp add: list_all2_nthD)
    then show ?thesis
      using True "1.IH" [OF True refl refl] "1.prems" \<open>?mid < length bs\<close>
      unfolding search_loop_step [OF True] by (simp add: same_place_def)
  qed (simp add: search_loop_empty)
qed

lemma search_loads_cong:
  assumes "list_all2 same_place bs bs'"
  shows "search_loads bs a = search_loads bs' a"
proof -
  have len: "length bs = length bs'" using assms by (rule list_all2_lengthD)
  have "same_place (bs ! 0) (bs' ! 0) \<and> same_place (bs ! (length bs - 1)) (bs' ! (length bs - 1))"
    if "bs \<noteq> []"
    using that assms by (auto intro: list_all2_nthD)
  then show ?thesis
    using search_loop_cong [OF assms order_refl, of a 0] len
    by (auto simp: search_loads_def same_place_def)
qed

lemma sorted_loads_cong:
  assumes "list_all2 same_place bs bs'"
  shows "sorted_loads bs = sorted_loads bs'"
proof -
  have len: "length bs = length bs'" using assms by (rule list_all2_lengthD)
  have nw: "no_wrap (bs ! i) = no_wrap (bs' ! i)" if "i < length bs'" for i
    using assms that by (auto simp: list_all2_conv_all_nth same_place_def no_wrap_def)
  have bl: "below (bs ! i) (bs ! j) = below (bs' ! i) (bs' ! j)" if "i < j" "j < length bs'" for i j
    using assms that by (auto simp: list_all2_conv_all_nth same_place_def below_def)
  show ?thesis
    unfolding sorted_loads_def sorted_wrt_iff_nth_less all_set_conv_all_nth len
    using nw bl by auto
qed

text \<open>The core with one block replaced by one that sits at the same place.\<close>

lemma update_block_place:
  assumes "i < length (blocks c)" and "same_place b (blk c i)"
    and "\<forall>j\<in>set L. j < length (blocks c)"
  shows "list_all2 same_place (map (blk (c\<lparr>blocks := (blocks c)[i := b]\<rparr>)) L) (map (blk c) L)"
  using assms by (auto simp: list_all2_conv_all_nth nth_list_update same_place_def)

lemma findLoadBlock_update:
  assumes "loads_ok q c" "i < length (blocks c)" "same_place b (blk c i)"
  shows "findLoadBlock a q (c\<lparr>blocks := (blocks c)[i := b], mem := h\<rparr>) = findLoadBlock a q c"
    and "loads_ok q (c\<lparr>blocks := (blocks c)[i := b], mem := h\<rparr>) = loads_ok q c"
  using assms
    search_loads_cong [OF update_block_place [OF assms(2,3), of "getLoads q c"]]
    sorted_loads_cong [OF update_block_place [OF assms(2,3), of "getLoads q c"]]
  by (auto simp: findLoadBlock_def loads_ok_def getLoads_def)

section \<open>Writes\<close>

lemma backed_overlay: "mOverlay b = Some m \<Longrightarrow> mm_max m = mMemSize b \<Longrightarrow> backed_size b = unat (mMemSize b)"
  by (simp add: backed_size_def)

text \<open>What the memory of another block looks like when only the overlay range was written.\<close>

lemma block_byte_frame:
  assumes "block_ok h b"
    and "\<And>x. unat (x - LoadBlock_begin OPT_READ_ALL b) < backed_size b \<Longrightarrow> h x \<noteq> None \<Longrightarrow> h' x = h x"
  shows "block_byte h' b = block_byte h b"
proof
  fix i
  show "block_byte h' b i = block_byte h b i"
  proof (cases "i < backed_size b")
    case True
    let ?x = "LoadBlock_begin OPT_READ_ALL b + of_nat i"
    have "i < 2 ^ 64" using True backed_size_le [OF assms(1)] unat_u64_less [of "mMemSize b"] by linarith
    then have "unat (?x - LoadBlock_begin OPT_READ_ALL b) = i" by (simp add: unat_of_nat)
    moreover have "h ?x \<noteq> None" using mapped_backing [OF assms(1)] True by (simp add: mapped_def)
    ultimately have "h' ?x = h ?x" using assms(2) True by simp
    with True show ?thesis by (simp add: block_byte_def)
  qed (simp add: block_byte_def)
qed

lemma block_ok_mono: "block_ok h b \<Longrightarrow> (\<And>x. h x \<noteq> None \<Longrightarrow> h' x \<noteq> None) \<Longrightarrow> block_ok h' b"
  using mapped_mono [of h _ _ h'] by (auto simp: block_ok_def map_ok_def)

lemma in_backing_mapped:
  assumes "block_ok h b" and "unat (x - LoadBlock_begin OPT_READ_ALL b) < backed_size b"
  shows "h x \<noteq> None"
  using mapped_backing [OF assms(1)] assms(2)
  by (auto simp: mapped_def dest!: spec [of _ "unat (x - LoadBlock_begin OPT_READ_ALL b)"])

lemma in_overlay_mapped:
  assumes "block_ok h b" "mOverlay b = Some m" and "unat (x - mm_begin m) < unat (mMemSize b)"
  shows "h x \<noteq> None"
  using assms
  by (auto simp: block_ok_def map_ok_def mapped_def dest!: spec [of _ "unat (x - mm_begin m)"])

text \<open>An overlay a write creates or reuses is separate from every other block.\<close>

lemma overlay_separate:
  assumes ok: "block_ok h b" "block_ok h d" and sep: "separate b d" "separate d b"
    and m: "mm_max m = mMemSize b"
    and fresh: "mOverlay b = Some m \<or> (\<forall>x. unat (x - mm_begin m) < unat (mMemSize b) \<longrightarrow> h x = None)"
  shows "separate (b\<lparr>mOverlay := Some m\<rparr>) d" "separate d (b\<lparr>mOverlay := Some m\<rparr>)"
proof -
  let ?b = "b\<lparr>mOverlay := Some m\<rparr>"
  have bk: "LoadBlock_begin OPT_READ_ALL ?b = mm_begin m" "backed_size ?b = unat (mMemSize b)"
    using m by (auto simp: LoadBlock_begin_all backed_size_def)
  have old: "LoadBlock_begin OPT_READ_ALL b = mm_begin m" "backed_size b = unat (mMemSize b)"
    if "mOverlay b = Some m"
    using that m by (auto simp: LoadBlock_begin_all backed_size_def)
  show "separate ?b d"
    using fresh sep(1) in_backing_mapped [OF ok(2)] by (fastforce simp: separate_def)
  show "separate d ?b"
    using fresh sep(2) in_overlay_mapped [OF ok(2)] old unfolding separate_def bk by metis
qed

lemma Core_Write_spec:
  assumes os: "mOverlay (blk c i) = None \<Longrightarrow> os_ok os"
    and ok: "core_ok c" and found: "findLoadBlock vaddr True c = Some i"
    and mm: "mOverlay (blk c i) = None \<Longrightarrow> os_mmap os (mem c) (mMemSize (blk c i)) \<noteq> None"
    and fits: "unat (vaddr AND vabits_mask c) + length buf
                 \<le> unat (mVaddr (blk c i)) + unat (mMemSize (blk c i))"
  obtains b h where
    "Core_Write os vaddr buf c = Inr (c\<lparr>blocks := (blocks c)[i := b], mem := h\<rparr>)"
    and "same_place b (blk c i)" "isValid b" "mOverlay b \<noteq> None" "block_ok h b"
    and "\<forall>k<unat (mMemSize b). block_byte h b k =
           (let lo = unat (vaddr AND vabits_mask c) - unat (mVaddr (blk c i))
            in if lo \<le> k \<and> k < lo + length buf then buf ! (k - lo) else block_byte (mem c) (blk c i) k)"
    and "\<forall>j\<in>set (mLoad c). j \<noteq> i \<longrightarrow> block_byte h (blk c j) = block_byte (mem c) (blk c j)"
    and "core_ok (c\<lparr>blocks := (blocks c)[i := b], mem := h\<rparr>)"
proof -
  let ?b = "blk c i" and ?t = "vaddr AND vabits_mask c"
  note blk = core_ok_block [OF ok found]
  note off = block_has_offset [OF block_ok_no_wrap [OF blk(4)] blk(6)]
  let ?lo = "unat ?t - unat (mVaddr ?b)"
  have lo: "unat ((vaddr AND mVabitsMask ?b) - mVaddr ?b) = ?lo" "?lo + length buf \<le> unat (mMemSize ?b)"
    using off fits by (auto simp: blk(5))
  obtain m h where set: "setOverlay os (mem c) vaddr buf ?b = Inr (?b\<lparr>mOverlay := Some m\<rparr>, h)"
    and bok: "block_ok h (?b\<lparr>mOverlay := Some m\<rparr>)"
    and bytes: "\<forall>k<unat (mMemSize ?b). block_byte h (?b\<lparr>mOverlay := Some m\<rparr>) k =
           (if ?lo \<le> k \<and> k < ?lo + length buf then buf ! (k - ?lo) else block_byte (mem c) ?b k)"
    and fr: "\<forall>x. mem c x \<noteq> None \<longrightarrow> unat (x - mm_begin m) < unat (mMemSize ?b) \<or> h x = mem c x"
    and mono: "\<forall>x. mem c x \<noteq> None \<longrightarrow> h x \<noteq> None"
    and fresh: "mOverlay ?b = Some m \<or> (\<forall>x. unat (x - mm_begin m) < unat (mMemSize ?b) \<longrightarrow> mem c x = None)"
    by (rule setOverlay_spec [OF os blk(4) mm lo])
  let ?b' = "?b\<lparr>mOverlay := Some m\<rparr>" and ?c' = "c\<lparr>blocks := (blocks c)[i := ?b\<lparr>mOverlay := Some m\<rparr>], mem := h\<rparr>"
  have mmax: "mm_max m = mMemSize ?b" using bok by (auto simp: block_ok_def)
  have place: "same_place ?b' ?b" by (simp add: same_place_def)
  have others: "block_ok (mem c) (blk c j)" "separate ?b (blk c j)" "separate (blk c j) ?b"
    if "j \<in> set (mLoad c)" "j \<noteq> i" for j
    using core_ok_blocks(1) [OF ok] core_ok_separate [OF ok] blk(2) that by simp_all
  have sep: "separate ?b' (blk c j)" "separate (blk c j) ?b'" if "j \<in> set (mLoad c)" "j \<noteq> i" for j
    using overlay_separate [OF blk(4) others [OF that] mmax fresh] by simp_all
  have frame: "block_byte h (blk c j) = block_byte (mem c) (blk c j)" if "j \<in> set (mLoad c)" "j \<noteq> i" for j
  proof (rule block_byte_frame [OF others(1) [OF that]])
    fix x assume "unat (x - LoadBlock_begin OPT_READ_ALL (blk c j)) < backed_size (blk c j)" "mem c x \<noteq> None"
    then show "h x = mem c x" using fr sep(1) [OF that] by (auto simp: separate_def)
  qed
  have idx: "\<forall>j\<in>set (mLoad c). j < length (blocks c)" using ok by (auto simp: core_ok_def loads_ok_def getLoads_def)
  have "core_ok ?c'"
    unfolding core_ok_def
  proof (intro conjI ballI impI)
    show "loads_ok True ?c'" "loads_ok False ?c'"
      using ok findLoadBlock_update(2) [OF _ blk(3) place] by (auto simp: core_ok_def)
    show "set (mQuickLoad ?c') \<subseteq> set (mLoad ?c')" using ok by (simp add: core_ok_def)
    have "mVaddr (blk ?c' j) = mVaddr (blk c j)" "mMemSize (blk ?c' j) = mMemSize (blk c j)" for j
      using blk(3) by (cases "j = i"; simp)+
    then show "mask_ok ?c'" using ok by (simp add: core_ok_def mask_ok_def)
  next
    fix j assume j: "j \<in> set (mLoad ?c')"
    then have "block_ok (mem c) (blk c j) \<and> mVabitsMask (blk c j) = vabits_mask c"
      using core_ok_blocks [OF ok] by simp
    then show "block_ok (mem ?c') (blk ?c' j)" "mVabitsMask (blk ?c' j) = vabits_mask ?c'"
      using bok blk(3,5) block_ok_mono [of "mem c" "blk c j" h] mono by (auto simp: nth_list_update)
  next
    fix j k assume j: "j \<in> set (mLoad ?c')" and k: "k \<in> set (mLoad ?c')" and ne: "j \<noteq> k"
    have "separate (blk c j) (blk c k)" using core_ok_separate [OF ok] j k ne by simp
    then show "separate (blk ?c' j) (blk ?c' k)"
      using sep j k ne blk(3) by (auto simp: nth_list_update)
  qed
  moreover have "Core_Write os vaddr buf c = Inr ?c'" by (simp add: Core_Write_def found set)
  moreover have "isValid ?b'" by (simp add: isValid_def)
  ultimately show ?thesis
    using that [of h ?b'] place bok bytes frame by (simp add: Let_def)
qed

text \<open>Addresses inside a block that holds a found address.\<close>

lemma found_inside:
  assumes "core_ok c" "i \<in> set (mQuickLoad c)" "block_has (blk c i) t"
  shows "t AND vabits_mask c = t" "findLoadBlock t True c = Some i"
proof -
  have L: "i \<in> set (mLoad c)" using assms by (auto simp: core_ok_def)
  obtain w where w: "vabits_mask c = mask w"
      "unat (mVaddr (blk c i)) + unat (mMemSize (blk c i)) \<le> 2 ^ w"
    using assms(1) L unfolding core_ok_def mask_ok_def by blast
  have "unat t < 2 ^ w"
    using block_has_unat [OF block_ok_no_wrap [OF core_ok_blocks(1) [OF assms(1) L]], of t] assms(3) w
    by linarith
  then show m: "t AND vabits_mask c = t" by (simp add: w and_mask_small)
  show "findLoadBlock t True c = Some i"
    using assms m findLoadBlock_iff [of True c t i] by (simp add: core_ok_def getLoads_def)
qed

lemma core_byte_eq:
  "findLoadBlock a True c = Some i \<Longrightarrow>
   core_byte c a = Some (block_byte (mem c) (blk c i) (unat ((a AND vabits_mask c) - mVaddr (blk c i))))"
  by (simp add: core_byte_def)

lemma core_byte_after_write:
  assumes ok: "core_ok c" and found: "findLoadBlock vaddr True c = Some i"
    and fits: "unat (vaddr AND vabits_mask c) + length buf
                 \<le> unat (mVaddr (blk c i)) + unat (mMemSize (blk c i))"
    and place: "same_place b (blk c i)"
    and bytes: "\<forall>k<unat (mMemSize b). block_byte h b k =
           (let lo = unat (vaddr AND vabits_mask c) - unat (mVaddr (blk c i))
            in if lo \<le> k \<and> k < lo + length buf then buf ! (k - lo) else block_byte (mem c) (blk c i) k)"
    and frame: "\<forall>j\<in>set (mLoad c). j \<noteq> i \<longrightarrow> block_byte h (blk c j) = block_byte (mem c) (blk c j)"
  shows "core_byte (c\<lparr>blocks := (blocks c)[i := b], mem := h\<rparr>) a =
    (let t = unat (a AND vabits_mask c); v = unat (vaddr AND vabits_mask c)
     in if v \<le> t \<and> t < v + length buf then Some (buf ! (t - v)) else core_byte c a)"
proof -
  let ?c' = "c\<lparr>blocks := (blocks c)[i := b], mem := h\<rparr>"
  let ?t = "a AND vabits_mask c" and ?v = "vaddr AND vabits_mask c"
  note blk = core_ok_block [OF ok found]
  have nw: "no_wrap (blk c i)" using blk(4) by (rule block_ok_no_wrap)
  note voff = block_has_offset [OF nw blk(6)]
  have lk: "findLoadBlock a True ?c' = findLoadBlock a True c"
    using ok blk(3) place by (intro findLoadBlock_update(1)) (auto simp: core_ok_def)
  show ?thesis
  proof (cases "findLoadBlock a True c")
    case None
    have "\<not> (unat ?v \<le> unat ?t \<and> unat ?t < unat ?v + length buf)"
    proof
      assume "unat ?v \<le> unat ?t \<and> unat ?t < unat ?v + length buf"
      then have "block_has (blk c i) ?t" using voff(3) fits by (simp add: block_has_unat [OF nw])
      then have "findLoadBlock a True c = Some i"
        using ok blk(1) findLoadBlock_iff [of True c a i] by (simp add: core_ok_def getLoads_def)
      then show False using None by simp
    qed
    then show ?thesis using None lk by (auto simp: core_byte_def Let_def)
  next
    case (Some j)
    note jb = core_ok_block [OF ok Some]
    have nwj: "no_wrap (blk c j)" using jb(4) by (rule block_ok_no_wrap)
    note joff = block_has_offset [OF nwj jb(6)]
    show ?thesis
    proof (cases "j = i")
      case True
      then have "core_byte ?c' a = Some (block_byte h b (unat ?t - unat (mVaddr (blk c i))))"
        using core_byte_eq [of a ?c' j] lk Some blk(3) place joff(1) by (simp add: same_place_def)
      moreover have "unat ?t - unat (mVaddr (blk c i)) < unat (mMemSize b)"
        using joff True place by (simp add: same_place_def)
      ultimately show ?thesis
        using bytes Some True joff voff by (auto simp: core_byte_eq Let_def)
    next
      case False
      have "\<not> block_has (blk c i) ?t"
      proof
        assume "block_has (blk c i) ?t"
        then have "findLoadBlock a True c = Some i"
          using ok blk(1) findLoadBlock_iff [of True c a i] by (simp add: core_ok_def getLoads_def)
        then show False using Some False by simp
      qed
      then have out: "\<not> (unat ?v \<le> unat ?t \<and> unat ?t < unat ?v + length buf)"
        using voff(3) fits by (auto simp: block_has_unat [OF nw])
      have "core_byte ?c' a = core_byte c a"
        using frame jb(2) False core_byte_eq [of a ?c' j] lk Some by (simp add: core_byte_eq)
      then show ?thesis using out by (auto simp: Let_def)
    qed
  qed
qed

section \<open>Reads\<close>

text \<open>Every address of a range that stays in the block of its first address.\<close>

lemma range_inside:
  assumes ok: "core_ok c" and found: "findLoadBlock vaddr True c = Some i"
    and untagged: "vaddr AND vabits_mask c = vaddr"
    and fits: "unat vaddr + n \<le> unat (mVaddr (blk c i)) + unat (mMemSize (blk c i))" and k: "k < n"
  shows "unat (vaddr + of_nat k) = unat vaddr + k" "block_has (blk c i) (vaddr + of_nat k)"
    "findLoadBlock (vaddr + of_nat k) True c = Some i" "(vaddr + of_nat k) AND vabits_mask c = vaddr + of_nat k"
    "unat (vaddr + of_nat k - mVaddr (blk c i)) = unat vaddr - unat (mVaddr (blk c i)) + k"
proof -
  note blk = core_ok_block [OF ok found]
  have nw: "no_wrap (blk c i)" using blk(4) by (rule block_ok_no_wrap)
  have "block_has (blk c i) vaddr" using blk(6) untagged by simp
  then have off: "unat (mVaddr (blk c i)) \<le> unat vaddr" by (rule block_has_offset(3) [OF nw])
  show u: "unat (vaddr + of_nat k) = unat vaddr + k"
    using k fits nw by (subst unat_add_no_wrap) (auto simp: unat_of_nat no_wrap_def)
  show has: "block_has (blk c i) (vaddr + of_nat k)"
    using u k fits off by (simp add: block_has_unat [OF nw])
  show "findLoadBlock (vaddr + of_nat k) True c = Some i" "(vaddr + of_nat k) AND vabits_mask c = vaddr + of_nat k"
    using found_inside [OF ok blk(1) has] by auto
  show "unat (vaddr + of_nat k - mVaddr (blk c i)) = unat vaddr - unat (mVaddr (blk c i)) + k"
    using block_has_offset(1) [OF nw has] u off by simp
qed

lemma core_byte_inside:
  assumes "core_ok c" "findLoadBlock vaddr True c = Some i" "vaddr AND vabits_mask c = vaddr"
    and "unat vaddr + n \<le> unat (mVaddr (blk c i)) + unat (mMemSize (blk c i))" "k < n"
  shows "core_byte c (vaddr + of_nat k) =
    Some (block_byte (mem c) (blk c i) (unat vaddr - unat (mVaddr (blk c i)) + k))"
  using range_inside [OF assms] core_byte_eq [of "vaddr + of_nat k" c i] by simp

lemma backing_nonzero:
  assumes "block_ok h b" "isValid b" "k = 0 \<or> k < backed_size b"
  shows "LoadBlock_begin OPT_READ_ALL b + of_nat k \<noteq> 0"
proof -
  let ?a = "LoadBlock_begin OPT_READ_ALL b"
  have a: "?a \<noteq> 0" "unat ?a + backed_size b \<le> 2 ^ 64"
    using assms(1,2)
    by (auto simp: block_ok_def map_ok_def isValid_def LoadBlock_begin_all backed_size_def
        word_le_nat_alt split: option.splits)
  show ?thesis
  proof (cases "k = 0")
    case False
    then have k: "k < backed_size b" using assms(3) by simp
    then have "k < 2 ^ 64" using backed_size_le [OF assms(1)] unat_u64_less [of "mMemSize b"] by linarith
    then have "unat (?a + of_nat k) = unat ?a + k"
      using a k by (subst unat_add_no_wrap) (auto simp: unat_of_nat)
    then show ?thesis using False by auto
  qed (use a in simp)
qed

lemma valid_begin_nonzero: "block_ok h b \<Longrightarrow> isValid b \<Longrightarrow> LoadBlock_begin OPT_READ_ALL b \<noteq> 0"
  by (auto simp: block_ok_def map_ok_def isValid_def LoadBlock_begin_all split: option.splits)

lemma size_bounds:
  "block_ok h b \<Longrightarrow> backed_size b \<le> unat (LoadBlock_size OPT_READ_ALL b)"
  "block_ok h b \<Longrightarrow> unat (LoadBlock_size OPT_READ_ALL b) \<le> unat (mMemSize b)"
  by (auto simp: block_ok_def map_ok_def backed_size_def LoadBlock_size_all word_le_nat_alt
      split: option.splits)

lemma v2r_found:
  assumes "core_ok c" "findLoadBlock vaddr True c = Some i" "isValid (blk c i)"
  shows "v2r vaddr OPT_READ_ALL c =
    Inr (LoadBlock_begin OPT_READ_ALL (blk c i) + ((vaddr AND vabits_mask c) - mVaddr (blk c i)))"
  using assms core_ok_block [OF assms(1,2)] valid_begin_nonzero [of "mem c" "blk c i"]
  by (simp add: v2r_def Let_def)

lemma read_backing:
  assumes "block_ok h b" and "k + n \<le> backed_size b"
  shows "host_read h (LoadBlock_begin OPT_READ_ALL b + of_nat k) n =
    Inr (map (\<lambda>j. block_byte h b (k + j)) [0..<n])"
proof -
  have "h (LoadBlock_begin OPT_READ_ALL b + of_nat k + of_nat j) = Some (block_byte h b (k + j))"
    if "j < n" for j
  proof -
    have "k + j < backed_size b" using assms(2) that by simp
    then have "h (LoadBlock_begin OPT_READ_ALL b + of_nat (k + j)) \<noteq> None"
      using mapped_backing [OF assms(1)] unfolding mapped_def by blast
    with \<open>k + j < backed_size b\<close> show ?thesis by (auto simp: block_byte_def add.assoc)
  qed
  then show ?thesis by (simp add: host_read_Inr_iff)
qed

lemma Core_Read_spec:
  assumes ok: "core_ok c" and found: "findLoadBlock vaddr True c = Some i" and v: "isValid (blk c i)"
    and untagged: "vaddr AND vabits_mask c = vaddr" and pos: "0 < sz"
    and fits: "unat vaddr + unat sz \<le> unat (mVaddr (blk c i)) + backed_size (blk c i)"
  shows "Core_Read vaddr sz OPT_READ_ALL c =
    Inr (Some (map (\<lambda>k. the (core_byte c (vaddr + of_nat k))) [0..<unat sz]))"
proof -
  let ?b = "blk c i" and ?o = "unat vaddr - unat (mVaddr (blk c i))"
  note blk = core_ok_block [OF ok found]
  have nw: "no_wrap ?b" using blk(4) by (rule block_ok_no_wrap)
  have has: "block_has ?b vaddr" using blk(6) untagged by simp
  note off = block_has_offset [OF nw has]
  note bs = backed_size_le [OF blk(4)] size_bounds [OF blk(4)]
  have vo: "vaddr - mVaddr ?b = of_nat ?o"
    unfolding off(1) [symmetric] by simp
  have nwb: "unat (mVaddr ?b) + unat (mMemSize ?b) < 2 ^ 64" using nw by (simp add: no_wrap_def)
  have "unat (mVaddr ?b + LoadBlock_size OPT_READ_ALL ?b) = unat (mVaddr ?b) + unat (LoadBlock_size OPT_READ_ALL ?b)"
    using nwb bs by (intro unat_add_no_wrap) simp
  moreover have "unat (vaddr + sz) = unat vaddr + unat sz"
    using nwb bs fits by (intro unat_add_no_wrap) simp
  ultimately have n: "\<not> vaddr + sz > mVaddr ?b + LoadBlock_size OPT_READ_ALL ?b"
    using fits bs by (simp add: word_less_nat_alt)
  have cb: "the (core_byte c (vaddr + of_nat k)) = block_byte (mem c) ?b (?o + k)" if "k < unat sz" for k
    using core_byte_inside [OF ok found untagged _ that] fits bs by simp
  have "host_read (mem c) (LoadBlock_begin OPT_READ_ALL ?b + of_nat ?o) (unat sz) =
      Inr (map (\<lambda>j. block_byte (mem c) ?b (?o + j)) [0..<unat sz])"
    using fits off(3) by (intro read_backing [OF blk(4)]) linarith
  also have "map (\<lambda>j. block_byte (mem c) ?b (?o + j)) [0..<unat sz] =
      map (\<lambda>k. the (core_byte c (vaddr + of_nat k))) [0..<unat sz]"
    using cb by simp
  finally have rd: "host_read (mem c) (LoadBlock_begin OPT_READ_ALL ?b + of_nat ?o) (unat sz) =
      Inr (map (\<lambda>k. the (core_byte c (vaddr + of_nat k))) [0..<unat sz])" .
  have real: "v2r vaddr OPT_READ_ALL c = Inr (LoadBlock_begin OPT_READ_ALL ?b + of_nat ?o)"
    using v2r_found [OF ok found v] untagged vo by simp
  have "?o < backed_size ?b" using fits off(3) pos by (simp add: word_less_nat_alt)
  then have "LoadBlock_begin OPT_READ_ALL ?b + of_nat ?o \<noteq> 0"
    by (intro backing_nonzero [OF blk(4) v]) simp
  then show ?thesis
    using found v real n rd by (simp add: Core_Read_def FindLoadBlock_def Let_def del: of_nat_diff)
qed

end
