(* ===== verification/CoreAlloc.thy ===== *)
theory CoreAlloc
  imports CoreLemmas
begin

unbundle bit_operations_syntax

text \<open>
  Correctness of \<open>CoreApi::newLoadBlock\<close>: a fake segment whose place the core chooses
  keeps the invariant of the core and meets no segment that was there.
\<close>

section \<open>Inserting into a sorted vector\<close>

lemma map_insert_at: "map f (insert_at k x xs) = insert_at k (f x) (map f xs)"
  by (simp add: insert_at_def take_map drop_map)

lemma set_insert_at: "set (insert_at k x xs) = insert x (set xs)"
  unfolding insert_at_def using set_append [of "take k xs" "drop k xs"] by auto

lemma sorted_insert_at:
  assumes "sorted_loads bs" "no_wrap b"
    and "\<forall>x\<in>set (take k bs). below x b" "\<forall>x\<in>set (drop k bs). below b x"
  shows "sorted_loads (insert_at k b bs)"
proof -
  have "sorted_wrt below (take k bs @ drop k bs)" and nw: "\<forall>x\<in>set bs. no_wrap x"
    using assms(1) by (simp_all add: sorted_loads_def)
  then have "sorted_wrt below (take k bs)" "sorted_wrt below (drop k bs)"
    "\<forall>x\<in>set (take k bs). \<forall>y\<in>set (drop k bs). below x y"
    unfolding sorted_wrt_append by blast+
  then have "sorted_wrt below (take k bs @ b # drop k bs)"
    using assms(3,4) by (simp add: sorted_wrt_append)
  moreover have "\<forall>x\<in>set (take k bs @ b # drop k bs). no_wrap x"
    using nw assms(2) by (auto dest: in_set_takeD in_set_dropD)
  ultimately show ?thesis by (simp add: sorted_loads_def insert_at_def)
qed

text \<open>The loop that looks for the place in the quick vector.\<close>

lemma quick_index_split:
  "quick_index bs k bgn = k + length (takeWhile (\<lambda>b. \<not> mVaddr b > bgn) bs)"
  by (induction bs arbitrary: k) auto

lemma quick_place:
  assumes s: "sorted_loads bs" and pos: "mMemSize b \<noteq> 0"
    and apart: "\<forall>x\<in>set bs. below x b \<or> below b x"
  shows "\<forall>x\<in>set (take (quick_index bs 0 (mVaddr b)) bs). below x b"
    and "\<forall>x\<in>set (drop (quick_index bs 0 (mVaddr b)) bs). below b x"
proof -
  let ?P = "\<lambda>x. \<not> mVaddr x > mVaddr b"
  have pos': "0 < unat (mMemSize b)" using pos by (simp add: unat_gt_0)
  have q: "take (quick_index bs 0 (mVaddr b)) bs = takeWhile ?P bs"
    "drop (quick_index bs 0 (mVaddr b)) bs = dropWhile ?P bs"
    by (simp_all add: quick_index_split takeWhile_eq_take [symmetric] dropWhile_eq_drop [symmetric])
  show "\<forall>x\<in>set (take (quick_index bs 0 (mVaddr b)) bs). below x b"
  proof
    fix x assume "x \<in> set (take (quick_index bs 0 (mVaddr b)) bs)"
    then have "?P x" "x \<in> set bs" unfolding q by (auto dest: set_takeWhileD)
    then show "below x b" using apart pos' by (auto simp: below_def word_less_nat_alt)
  qed
  show "\<forall>x\<in>set (drop (quick_index bs 0 (mVaddr b)) bs). below b x"
  proof
    fix x assume "x \<in> set (drop (quick_index bs 0 (mVaddr b)) bs)"
    then have x: "x \<in> set (dropWhile ?P bs)" unfolding q .
    then obtain y ys where ys: "dropWhile ?P bs = y # ys" by (cases "dropWhile ?P bs") auto
    then have y: "mVaddr y > mVaddr b" by (metis dropWhile_eq_Cons_conv)
    have "sorted_wrt below (y # ys)"
      using s unfolding ys [symmetric] sorted_loads_def by (metis sorted_wrt_append takeWhile_dropWhile_id)
    then have "x = y \<or> below y x" using x ys by auto
    then have "mVaddr x > mVaddr b" using y by (auto simp: below_def word_less_nat_alt)
    moreover have "x \<in> set bs" using x by (rule set_dropWhileD)
    ultimately show "below b x" using apart by (auto simp: below_def word_less_nat_alt)
  qed
qed

section \<open>The gap search\<close>

lemma gap_search_sound:
  assumes "gap_search left bs k sz = Some (p, g)" and "sorted_loads (left # bs)"
  shows "k \<le> p \<and> (\<forall>x\<in>set (take (Suc (p - k)) (left # bs)). unat (mVaddr x) + unat (mMemSize x) \<le> unat g) \<and>
    (\<forall>x\<in>set (drop (Suc (p - k)) (left # bs)). unat g + unat sz \<le> unat (mVaddr x)) \<and> Suc (p - k) \<le> length bs"
  using assms
proof (induction left bs k sz arbitrary: rule: gap_search.induct)
  case (1 left k sz)
  then show ?case by simp
next
  case (2 left right bs k sz)
  let ?e = "mVaddr left + mMemSize left"
  have nw: "no_wrap left" and lr: "below left right" and s: "sorted_loads (right # bs)"
    using "2.prems"(2) by (auto simp: sorted_loads_def)
  have e: "unat ?e = unat (mVaddr left) + unat (mMemSize left)" using nw by (rule unat_blk_end)
  show ?case
  proof (cases "mVaddr right - ?e \<ge> sz")
    case True
    then have p: "p = k" "g = ?e" using "2.prems"(1) by auto
    have le: "unat ?e \<le> unat (mVaddr right)" using lr e by (simp add: below_def)
    then have "unat (mVaddr right - ?e) = unat (mVaddr right) - unat ?e"
      by (simp add: unat_diff_le word_le_nat_alt)
    then have r: "unat g + unat sz \<le> unat (mVaddr right)"
      using True le p by (simp add: word_le_nat_alt)
    moreover have "\<forall>x\<in>set bs. below right x" using s by (simp add: sorted_loads_def)
    ultimately have "\<forall>x\<in>set (right # bs). unat g + unat sz \<le> unat (mVaddr x)"
      by (auto simp: below_def)
    then show ?thesis using p e by simp
  next
    case False
    then have g: "gap_search right bs (Suc k) sz = Some (p, g)" using "2.prems"(1) by simp
    note IH = "2.IH" [OF False g s]
    have sk: "Suc (p - Suc k) = p - k" using IH by linarith
    have "unat (mVaddr right) + unat (mMemSize right) \<le> unat g" using IH by simp
    then have "unat (mVaddr left) + unat (mMemSize left) \<le> unat g" using lr by (simp add: below_def)
    then show ?thesis using IH unfolding sk by auto
  qed
qed

section \<open>Where a segment is placed\<close>

text \<open>The block a placement describes, as far as its place goes.\<close>

definition fits_at :: "load_block list \<Rightarrow> nat \<Rightarrow> load_block \<Rightarrow> bool" where
  "fits_at bs k b \<longleftrightarrow> (\<forall>x\<in>set (take k bs). below x b) \<and> (\<forall>x\<in>set (drop k bs). below b x)"

lemma fits_at_apart: "fits_at bs k b \<Longrightarrow> x \<in> set bs \<Longrightarrow> below x b \<or> below b x"
  unfolding fits_at_def by (metis append_take_drop_id in_set_conv_decomp in_set_conv_nth Un_iff set_append)

lemma all_below_head:
  assumes "sorted_loads bs" "bs \<noteq> []" "below b (bs ! 0)"
  shows "fits_at bs 0 b"
proof -
  obtain y ys where bs: "bs = y # ys" using assms(2) by (cases bs) auto
  have "\<forall>x\<in>set ys. below y x" using assms(1) bs by (simp add: sorted_loads_def)
  then show ?thesis using assms(3) bs by (auto simp: fits_at_def below_def)
qed

lemma place_auto:
  assumes ok: "core_ok c" and small: "unat sz < 2 ^ 63"
    and place: "place_block 0 sz c = Some (bgn, k, q)"
    and b: "mVaddr b = bgn" "mMemSize b = sz"
  shows "bgn \<noteq> 0" "no_wrap b" "sz \<noteq> 0" "fits_at (map (blk c) (mLoad c)) k b"
    "fits_at (map (blk c) (mQuickLoad c)) q b"
    "\<exists>w\<le>64. vabits_mask c = mask w \<and> unat bgn + unat sz \<le> 2 ^ w \<and>
       (\<forall>i\<in>set (mLoad c). unat (mVaddr (blk c i)) + unat (mMemSize (blk c i)) \<le> 2 ^ w)"
proof -
  let ?L = "map (blk c) (mLoad c)" and ?Q = "map (blk c) (mQuickLoad c)"
  obtain w where w: "w \<le> 64" "vabits_mask c = mask w"
      "\<forall>i\<in>set (mLoad c). unat (mVaddr (blk c i)) + unat (mMemSize (blk c i)) \<le> 2 ^ w"
    using ok by (auto simp: core_ok_def mask_ok_def)
  have sL: "sorted_loads ?L" and sQ: "sorted_loads ?Q" and sub: "set ?Q \<subseteq> set ?L"
    using ok by (auto simp: core_ok_def loads_ok_def getLoads_def)
  have Lw: "\<forall>x\<in>set ?L. unat (mVaddr x) + unat (mMemSize x) \<le> 2 ^ w" using w(3) by simp
  have top: "(2::nat) ^ w \<le> 2 ^ 64" using w(1) by (rule power_increasing) simp
  have sz0: "sz \<noteq> 0" using place by (auto simp: place_block_def split: if_splits)
  have fake: "unat (FAKE_LOAD_BEGIN + sz) = 0x100000 + unat sz"
    using small by (subst unat_add_no_wrap) (auto simp: FAKE_LOAD_BEGIN_def)
  have main: "bgn \<noteq> 0 \<and> unat bgn + unat sz \<le> 2 ^ w \<and> unat bgn + unat sz < 2 ^ 64 \<and>
     fits_at ?L k b \<and> (q = quick_index ?Q 0 bgn \<or> (k = 0 \<and> q = 0))"
  proof (cases "?L = []")
    case True
    then have p: "bgn = FAKE_LOAD_BEGIN" "k = 0" "q = 0" "FAKE_LOAD_BEGIN + sz \<le> mask w"
      using place sz0 w(2) by (auto simp: place_block_def Let_def split: if_splits)
    have "0x100000 + unat sz < 2 ^ w"
      using p(4) fake unat_mask_less [of w] by (simp add: word_le_nat_alt)
    then show ?thesis using p top True by (simp add: fits_at_def FAKE_LOAD_BEGIN_def)
  next
    case ne: False
    show ?thesis
    proof (cases "FAKE_LOAD_BEGIN + sz \<le> mVaddr (?L ! 0)")
      case True
      then have p: "bgn = FAKE_LOAD_BEGIN" "k = 0" "q = 0"
        using place sz0 ne by (auto simp: place_block_def Let_def split: if_splits)
      have "unat bgn + unat sz \<le> unat (mVaddr (?L ! 0))"
        using True fake p by (simp add: word_le_nat_alt FAKE_LOAD_BEGIN_def)
      moreover have "?L ! 0 \<in> set ?L" using ne by (cases ?L) auto
      then have "unat (mVaddr (?L ! 0)) + unat (mMemSize (?L ! 0)) \<le> 2 ^ w" using Lw by blast
      moreover have "unat (mVaddr (?L ! 0)) < 2 ^ 64" by (rule unat_u64_less)
      ultimately show ?thesis
        using all_below_head [OF sL ne] p b by (auto simp: below_def FAKE_LOAD_BEGIN_def)
    next
      case False
      obtain y ys where ys: "?L = y # ys" using ne by (cases ?L) auto
      have p: "gap_search y ys 1 sz = Some (k, bgn)" "bgn \<noteq> 0" "q = quick_index ?Q 0 bgn"
        using place sz0 ne False ys
        by (auto simp: place_block_def Let_def split: if_splits option.splits prod.splits)
      note g = gap_search_sound [OF p(1) sL [unfolded ys]]
      then have sk: "Suc (k - 1) = k" by simp
      have fit: "fits_at ?L k b" using g b unfolding fits_at_def ys sk by (auto simp: below_def)
      have "Suc (k - 1) \<le> length ys" using g by blast
      then have "k < length ?L" unfolding sk ys by simp
      then have "?L ! k \<in> set (drop k ?L)" by (metis Cons_nth_drop_Suc list.set_intros(1))
      then have "unat bgn + unat sz \<le> unat (mVaddr (?L ! k))" using fit b by (auto simp: fits_at_def below_def)
      moreover have "unat (mVaddr (?L ! k)) + unat (mMemSize (?L ! k)) \<le> 2 ^ w"
        using Lw \<open>k < length ?L\<close> nth_mem by blast
      moreover have "unat (mVaddr (?L ! k)) < 2 ^ 64" by (rule unat_u64_less)
      ultimately show ?thesis using fit p by auto
    qed
  qed
  then show "bgn \<noteq> 0" "no_wrap b" "sz \<noteq> 0" "fits_at ?L k b" using sz0 b by (auto simp: no_wrap_def)
  show "\<exists>w\<le>64. vabits_mask c = mask w \<and> unat bgn + unat sz \<le> 2 ^ w \<and>
       (\<forall>i\<in>set (mLoad c). unat (mVaddr (blk c i)) + unat (mMemSize (blk c i)) \<le> 2 ^ w)"
    using main w by auto
  have apart: "\<forall>x\<in>set ?Q. below x b \<or> below b x" using fits_at_apart main sub by blast
  show "fits_at ?Q q b"
  proof (cases "q = quick_index ?Q 0 bgn")
    case True
    then show ?thesis using quick_place [OF sQ _ apart] b sz0 by (simp add: fits_at_def)
  next
    case False
    then have "k = 0" "q = 0" using main by auto
    then show ?thesis using main sub by (auto simp: fits_at_def)
  qed
qed

section \<open>The new segment\<close>

lemma fake_block_ok:
  assumes "no_wrap (fake_block bgn sz flags c)"
  shows "block_ok h (fake_block bgn sz flags c)"
  using assms
  by (simp add: block_ok_def no_wrap_def fake_block_def new_LoadBlock_def isValidBlock_def)

lemma fake_block_simps [simp]:
  "mVaddr (fake_block bgn sz flags c) = bgn" "mMemSize (fake_block bgn sz flags c) = sz"
  "mFlags (fake_block bgn sz flags c) = flags" "mOverlay (fake_block bgn sz flags c) = None"
  "mVabitsMask (fake_block bgn sz flags c) = vabits_mask c" "backed_size (fake_block bgn sz flags c) = 0"
  by (simp_all add: fake_block_def new_LoadBlock_def backed_size_def)

lemma map_blk_append:
  "\<forall>i\<in>set L. i < length (blocks c) \<Longrightarrow> map (\<lambda>i. (blocks c @ [b]) ! i) L = map (blk c) L"
  by (simp add: nth_append)

text \<open>The state \<open>newLoadBlock\<close> returns once the overlay of the new block is there.\<close>

definition with_block :: "load_block \<Rightarrow> nat \<Rightarrow> nat \<Rightarrow> host \<Rightarrow> core \<Rightarrow> core" where
  "with_block b k q h c =
     c\<lparr>mem := h, blocks := blocks c @ [b], mLoad := insert_at k (length (blocks c)) (mLoad c),
       mQuickLoad := (if \<not> QUICK_LOAD_ENABLED c \<or> mFlags b \<noteq> 0
                      then insert_at q (length (blocks c)) (mQuickLoad c) else mQuickLoad c)\<rparr>"

lemma with_block_loads_ok:
  assumes ok: "core_ok c" and nw: "no_wrap b"
    and fit: "fits_at (map (blk c) (mLoad c)) k b" "fits_at (map (blk c) (mQuickLoad c)) q b"
  shows "loads_ok quick (with_block b k q h c)"
proof -
  let ?n = "length (blocks c)"
  have ids: "\<forall>i\<in>set (mLoad c). i < ?n" "\<forall>i\<in>set (mQuickLoad c). i < ?n"
    and s: "sorted_loads (map (blk c) (mLoad c))" "sorted_loads (map (blk c) (mQuickLoad c))"
    using ok by (auto simp: core_ok_def loads_ok_def getLoads_def)
  have ins: "sorted_loads (map (\<lambda>i. (blocks c @ [b]) ! i) (insert_at j ?n L))"
    if "\<forall>i\<in>set L. i < ?n" "sorted_loads (map (blk c) L)" "fits_at (map (blk c) L) j b" for L j
    using that sorted_insert_at [OF that(2) nw] unfolding fits_at_def
    by (simp add: map_insert_at map_blk_append)
  have "sorted_loads (map (\<lambda>i. (blocks c @ [b]) ! i) (mQuickLoad c))"
    using s(2) ids(2) by (simp add: map_blk_append)
  then show ?thesis
    using ids ins [OF ids(1) s(1) fit(1)] ins [OF ids(2) s(2) fit(2)]
    by (auto simp: loads_ok_def getLoads_def with_block_def set_insert_at less_SucI)
qed

lemma with_block_ok:
  assumes ok: "core_ok c" and nw: "no_wrap b"
    and fit: "fits_at (map (blk c) (mLoad c)) k b" "fits_at (map (blk c) (mQuickLoad c)) q b"
    and b: "mVabitsMask b = vabits_mask c" "block_ok h b"
    and w: "\<exists>w\<le>64. vabits_mask c = mask w \<and> unat (mVaddr b) + unat (mMemSize b) \<le> 2 ^ w \<and>
       (\<forall>i\<in>set (mLoad c). unat (mVaddr (blk c i)) + unat (mMemSize (blk c i)) \<le> 2 ^ w)"
    and mono: "\<forall>x. mem c x \<noteq> None \<longrightarrow> h x \<noteq> None"
    and sep: "\<forall>i\<in>set (mLoad c). separate b (blk c i) \<and> separate (blk c i) b"
  shows "core_ok (with_block b k q h c)"
proof -
  let ?c = "with_block b k q h c" and ?n = "length (blocks c)"
  have old: "blk ?c i = blk c i" "i \<noteq> ?n" if "i \<in> set (mLoad c)" for i
    using core_ok_blocks(3) [OF ok that] by (auto simp: with_block_def nth_append)
  have new: "blk ?c ?n = b" by (simp add: with_block_def)
  have L: "set (mLoad ?c) = insert ?n (set (mLoad c))" by (simp add: with_block_def set_insert_at)
  show ?thesis
    unfolding core_ok_def
  proof (intro conjI ballI impI)
    show "loads_ok True ?c" "loads_ok False ?c"
      using with_block_loads_ok [OF ok nw fit] by auto
    show "set (mQuickLoad ?c) \<subseteq> set (mLoad ?c)"
      using ok unfolding L by (auto simp: with_block_def set_insert_at core_ok_def)
    show "mask_ok ?c"
      using w old new unfolding mask_ok_def L by (auto simp: with_block_def)
  next
    fix i assume "i \<in> set (mLoad ?c)"
    then consider "i = ?n" | "i \<in> set (mLoad c)" unfolding L by auto
    then show "block_ok (mem ?c) (blk ?c i)" "mVabitsMask (blk ?c i) = vabits_mask ?c"
      using b new old core_ok_blocks [OF ok] block_ok_mono [of "mem c" "blk c i" h] mono
      by (cases; simp add: with_block_def)+
  next
    fix i j assume "i \<in> set (mLoad ?c)" "j \<in> set (mLoad ?c)" "i \<noteq> j"
    then show "separate (blk ?c i) (blk ?c j)"
      unfolding L using new old sep core_ok_separate [OF ok] by auto
  qed
qed

text \<open>
  Allocation at a place of the core's choice, all cases: nothing changes but the host
  memory, or a segment is added that no old segment meets.
\<close>

lemma newLoadBlock_auto:
  assumes os: "os_ok os" and ok: "core_ok c" and small: "unat sz < 2 ^ 62"
  shows "(\<exists>h. newLoadBlock os 0 sz flags c = Inr (0, c\<lparr>mem := h\<rparr>)) \<or>
    (\<exists>bgn b k q h. newLoadBlock os 0 sz flags c = Inr (bgn, with_block b k q h c) \<and>
       bgn \<noteq> 0 \<and> mVaddr b = bgn \<and> mMemSize b = RoundUp sz ELF_PAGE_SIZE \<and> mFlags b = flags \<and>
       mMemSize b \<noteq> 0 \<and> isValid b \<and> mOverlay b \<noteq> None \<and> mPointMask b = pointer_mask c \<and> no_wrap b \<and> core_ok (with_block b k q h c) \<and>
       (\<forall>i\<in>set (mLoad c). below (blk c i) b \<or> below b (blk c i)) \<and>
       (\<forall>i<unat (mMemSize b). block_byte h b i = 0) \<and> (\<forall>x. mem c x \<noteq> None \<longrightarrow> h x = mem c x))"
proof -
  let ?sz = "RoundUp sz ELF_PAGE_SIZE"
  have z: "RoundUp 0 ELF_PAGE_SIZE = 0"
    by (simp add: RoundUp_def RoundDown_def ELF_PAGE_SIZE_def)
  have "ELF_PAGE_SIZE = 2 ^ 12" by (simp add: ELF_PAGE_SIZE_def)
  then have "unat ?sz < unat sz + 2 ^ 12" using RoundUp_bounds(2) [of sz 12] small by simp
  then have sm: "unat ?sz < 2 ^ 63" using small by simp
  show ?thesis
  proof (cases "place_block 0 ?sz c")
    case None
    then have "newLoadBlock os 0 sz flags c = Inr (0, c\<lparr>mem := mem c\<rparr>)"
      by (simp add: newLoadBlock_def z Let_def)
    then show ?thesis by blast
  next
    case (Some p)
    then obtain bgn k q where p: "place_block 0 ?sz c = Some (bgn, k, q)" by (cases p) auto
    let ?f = "fake_block bgn ?sz flags c"
    note pl = place_auto [OF ok sm p, of ?f, simplified]
    have fok: "block_ok (mem c) ?f" using pl(2) by (rule fake_block_ok)
    show ?thesis
    proof (cases "os_mmap os (mem c) ?sz")
      case None
      then have "newLoadBlock os 0 sz flags c = Inr (0, c\<lparr>mem := mem c\<rparr>)"
        using p by (simp add: newLoadBlock_def z Let_def newOverlay_def isValid_def isValidBlock_def
            fake_block_def new_LoadBlock_def MmapZeroMem_def)
      then show ?thesis by blast
    next
      case Some': (Some mm)
      then have mm: "os_mmap os (mem c) (mMemSize ?f) \<noteq> None" by simp
      obtain m h where new: "newOverlay os (mem c) ?f = Inr (True, ?f\<lparr>mOverlay := Some m\<rparr>, h)"
        and m: "map_ok h (mMemSize ?f) m" "mm_max m = mMemSize ?f"
        and bytes: "\<forall>i<unat (mMemSize ?f). h (mm_begin m + of_nat i) = Some (block_byte (mem c) ?f i)"
        and frame: "\<forall>x. mem c x \<noteq> None \<longrightarrow> h x = mem c x"
        and fresh: "mOverlay ?f = Some m \<or> (\<forall>x. unat (x - mm_begin m) < unat (mMemSize ?f) \<longrightarrow> mem c x = None)"
        by (rule newOverlay_obtains [OF os fok mm])
      let ?b = "?f\<lparr>mOverlay := Some m\<rparr>"
      have mono: "\<forall>x. mem c x \<noteq> None \<longrightarrow> h x \<noteq> None" using frame by auto
      have bok: "block_ok h ?b" using block_ok_overlay [OF fok m] mono by blast
      have nw: "no_wrap ?b" using pl(2) by (simp add: no_wrap_def)
      have fit: "fits_at (map (blk c) (mLoad c)) k ?b" "fits_at (map (blk c) (mQuickLoad c)) q ?b"
        using pl(4,5) by (simp_all add: fits_at_def below_def)
      have sep: "\<forall>i\<in>set (mLoad c). separate ?b (blk c i) \<and> separate (blk c i) ?b"
        using overlay_separate [OF fok core_ok_blocks(1) [OF ok] _ _ m(2) fresh]
        by (simp add: separate_def)
      have f1: "core_ok (with_block ?b k q h c)"
        by (rule with_block_ok [OF ok nw fit _ bok _ mono sep]) (use pl(6) in simp_all)
      have f2: "newLoadBlock os 0 sz flags c = Inr (bgn, with_block ?b k q h c)"
        using p new by (simp add: newLoadBlock_def z Let_def new_block_def with_block_def)
      have f3: "\<forall>i<unat (mMemSize ?b). block_byte h ?b i = 0"
        using bytes m by (simp add: block_byte_def LoadBlock_begin_all)
      have f4: "\<forall>i\<in>set (mLoad c). below (blk c i) ?b \<or> below ?b (blk c i)"
        using fits_at_apart [OF fit(1)] by simp
      have f5: "isValid ?b" "mPointMask ?b = pointer_mask c" by (simp_all add: isValid_def fake_block_def)
      show ?thesis
        by (rule disjI2, rule exI [of _ bgn], rule exI [of _ ?b], rule exI [of _ k],
            rule exI [of _ q], rule exI [of _ h])
          (use f1 f2 f3 f4 f5 pl(1,3) nw frame in simp)
    qed
  qed
qed

end
