(* ===== verification/CoreProps.thy ===== *)
theory CoreProps
  imports CoreAlloc
begin

unbundle bit_operations_syntax

text \<open>
  The properties of the core's memory interface (core/api/core.cpp, core.h), each with
  an instance on a small core of two segments.
\<close>

section \<open>A concrete core\<close>

definition demo_os :: os_env where
  "demo_os = \<lparr>os_file = (\<lambda>_. None),
     os_mmap = (\<lambda>h n. if unat n \<le> 2 ^ 40 \<and> (\<forall>x. unat (x - 0x7000000) < unat n \<longrightarrow> h x = None)
                        then Some 0x7000000 else None),
     os_page_size = 4096\<rparr>"

definition demo_block :: "u64 \<Rightarrow> u64 \<Rightarrow> load_block" where
  "demo_block va sz = (new_LoadBlock 6 0 va 0 0 sz 0x1000)\<lparr>mVabitsMask := -1, mPointMask := -1\<rparr>"

definition demo_core :: core where
  "demo_core = (new_core EM_AARCH64 \<lparr>mm_name = [], mm_begin = 1, mm_size = 0, mm_offset = 0, mm_max = 0\<rparr>
       True 0 (\<lambda>_. None))
     \<lparr>blocks := [demo_block 0x1000 0x1000, demo_block 0x3000 0x2000], mLoad := [0, 1], mQuickLoad := [0, 1]\<rparr>"

lemmas demo_defs = demo_os_def demo_block_def demo_core_def new_core_def new_LoadBlock_def

lemma demo_os_ok: "os_ok demo_os"
  unfolding os_ok_def demo_os_def by (auto split: if_splits)

lemma demo_core_ok: "core_ok demo_core"
proof -
  have s: "sorted_loads [demo_block 0x1000 0x1000, demo_block 0x3000 0x2000]"
    by (simp add: sorted_loads_def below_def no_wrap_def demo_defs)
  have "mask_ok demo_core"
    unfolding mask_ok_def by (rule exI [of _ 64]) (simp add: demo_defs mask_eq_exp_minus_1)
  then show ?thesis
    using s
    by (auto simp: core_ok_def loads_ok_def getLoads_def block_ok_def isValidBlock_def separate_def demo_defs)
qed

lemma demo_find: "findLoadBlock 0x3010 True demo_core = Some 1"
proof -
  have "loads_ok True demo_core" using demo_core_ok by (simp add: core_ok_def)
  moreover have "block_has (blk demo_core 1) (0x3010 AND vabits_mask demo_core)"
    by (simp add: block_has_def demo_defs)
  ultimately show ?thesis using findLoadBlock_iff [of True demo_core "0x3010" 1]
    by (simp add: getLoads_def demo_defs)
qed

lemma demo_mmap: "os_mmap demo_os (mem demo_core) (mMemSize (blk demo_core 1)) \<noteq> None"
  by (simp add: demo_defs)

section \<open>Properties\<close>

text \<open>C2: in a load vector that is sorted as the comment of findLoadBlock requires, the
  binary search returns a segment exactly when that segment is in the vector and contains
  the address (with the address bits outside the mask dropped), and nothing exactly when no
  segment contains it.\<close>

theorem findLoadBlock_finds_segment:
  assumes "loads_ok quick c"
  shows "(findLoadBlock vaddr quick c = Some i \<longleftrightarrow>
      i \<in> set (getLoads quick c) \<and> block_has (blk c i) (vaddr AND vabits_mask c)) \<and>
    (findLoadBlock vaddr quick c = None \<longleftrightarrow>
      (\<forall>j\<in>set (getLoads quick c). \<not> block_has (blk c j) (vaddr AND vabits_mask c)))"
  using findLoadBlock_iff [OF assms] findLoadBlock_None_iff [OF assms] by blast

theorem findLoadBlock_finds_segment_witness:
  "loads_ok False demo_core \<and> findLoadBlock 0x3010 False demo_core = Some 1"
proof -
  have l: "loads_ok False demo_core" using demo_core_ok by (simp add: core_ok_def)
  show ?thesis
    using l findLoadBlock_finds_segment [OF l, of "0x3010" 1]
    by (simp add: getLoads_def block_has_def demo_defs)
qed

text \<open>C1: writing a buffer to target memory changes exactly the bytes of the range that is
  written, leaves every other target byte as it was, and keeps the invariant of the core.\<close>

theorem Write_updates_memory:
  assumes "os_ok os" and "core_ok c" and "findLoadBlock vaddr True c = Some i"
    and "mOverlay (blk c i) = None \<Longrightarrow> os_mmap os (mem c) (mMemSize (blk c i)) \<noteq> None"
    and "unat (vaddr AND vabits_mask c) + length buf
           \<le> unat (mVaddr (blk c i)) + unat (mMemSize (blk c i))"
  shows "\<exists>c'. Core_Write os vaddr buf c = Inr c' \<and> core_ok c' \<and>
    (\<forall>a. core_byte c' a =
       (let t = unat (a AND vabits_mask c); v = unat (vaddr AND vabits_mask c)
        in if v \<le> t \<and> t < v + length buf then Some (buf ! (t - v)) else core_byte c a))"
proof -
  obtain b h where "Core_Write os vaddr buf c = Inr (c\<lparr>blocks := (blocks c)[i := b], mem := h\<rparr>)"
    and pl: "same_place b (blk c i)"
    and byt: "\<forall>k<unat (mMemSize b). block_byte h b k =
           (let lo = unat (vaddr AND vabits_mask c) - unat (mVaddr (blk c i))
            in if lo \<le> k \<and> k < lo + length buf then buf ! (k - lo) else block_byte (mem c) (blk c i) k)"
    and fr: "\<forall>j\<in>set (mLoad c). j \<noteq> i \<longrightarrow> block_byte h (blk c j) = block_byte (mem c) (blk c j)"
    and "core_ok (c\<lparr>blocks := (blocks c)[i := b], mem := h\<rparr>)"
    by (rule Core_Write_spec [OF assms])
  then show ?thesis
    using core_byte_after_write [OF assms(2,3,5) pl byt fr] by blast
qed

theorem Write_updates_memory_witness:
  "os_ok demo_os \<and> core_ok demo_core \<and>
   (\<exists>c'. Core_Write demo_os 0x3010 [0xAB, 0xCD] demo_core = Inr c' \<and> core_byte c' 0x3011 = Some 0xCD)"
proof -
  have fits: "unat (0x3010 AND vabits_mask demo_core) + length [0xAB, 0xCD :: u8]
      \<le> unat (mVaddr (blk demo_core 1)) + unat (mMemSize (blk demo_core 1))"
    by (simp add: demo_defs)
  show ?thesis
    using Write_updates_memory [OF demo_os_ok demo_core_ok demo_find demo_mmap fits]
      demo_os_ok demo_core_ok by (force simp: demo_defs)
qed

text \<open>C8: Read of a range inside the part of a segment that has contents returns exactly the
  target bytes of that range, whichever of core file, file mapping and overlay backs the
  segment.\<close>

theorem Read_reads_memory:
  assumes "core_ok c" and "findLoadBlock vaddr True c = Some i" and "isValid (blk c i)"
    and "vaddr AND vabits_mask c = vaddr" and "0 < sz"
    and "unat vaddr + unat sz \<le> unat (mVaddr (blk c i)) + backed_size (blk c i)"
  shows "\<exists>bs. Core_Read vaddr sz OPT_READ_ALL c = Inr (Some bs) \<and> length bs = unat sz \<and>
    (\<forall>k<unat sz. core_byte c (vaddr + of_nat k) = Some (bs ! k))"
proof -
  let ?bs = "map (\<lambda>k. the (core_byte c (vaddr + of_nat k))) [0..<unat sz]"
  have "core_byte c (vaddr + of_nat k) \<noteq> None" if "k < unat sz" for k
    using core_byte_inside [OF assms(1,2,4) _ that] assms(6) backed_size_le core_ok_block(4) [OF assms(1,2)]
    by force
  then show ?thesis using Core_Read_spec [OF assms] by (intro exI [of _ ?bs]) auto
qed

theorem Read_reads_memory_witness:
  "\<exists>c'. core_ok c' \<and> Core_Read 0x3010 2 OPT_READ_ALL c' = Inr (Some [0xAB, 0xCD])"
proof -
  have fits: "unat (0x3010 AND vabits_mask demo_core) + length [0xAB, 0xCD :: u8]
      \<le> unat (mVaddr (blk demo_core 1)) + unat (mMemSize (blk demo_core 1))"
    by (simp add: demo_defs)
  obtain b h where c': "core_ok (demo_core\<lparr>blocks := (blocks demo_core)[1 := b], mem := h\<rparr>)" (is "core_ok ?c")
    and pl: "same_place b (blk demo_core 1)" and v: "isValid b" "mOverlay b \<noteq> None" "block_ok h b"
    and byt: "\<forall>k<unat (mMemSize b). block_byte h b k =
           (let lo = unat (0x3010 AND vabits_mask demo_core) - unat (mVaddr (blk demo_core 1))
            in if lo \<le> k \<and> k < lo + length [0xAB, 0xCD :: u8] then [0xAB, 0xCD] ! (k - lo)
               else block_byte (mem demo_core) (blk demo_core 1) k)"
    by (rule Core_Write_spec [OF demo_os_ok demo_core_ok demo_find demo_mmap fits])
  have b: "blk ?c 1 = b" "mVaddr b = 0x3000" "mMemSize b = 0x2000" "backed_size b = 0x2000"
    using pl v by (auto simp: same_place_def demo_defs block_ok_def backed_size_def)
  have f: "findLoadBlock 0x3010 True ?c = Some 1"
    using findLoadBlock_update(1) [OF _ _ pl, of True "0x3010" h] demo_find demo_core_ok
    by (simp add: core_ok_def demo_defs)
  have m: "0x3010 AND vabits_mask ?c = 0x3010" by (simp add: demo_defs)
  have byte: "core_byte ?c (0x3010 + of_nat k) = Some ([0xAB, 0xCD] ! k)" if "k < 2" for k
    using core_byte_inside [OF c' f m, of 2 k] that b byt by (simp add: demo_defs)
  obtain bs where bs: "Core_Read 0x3010 2 OPT_READ_ALL ?c = Inr (Some bs)" "length bs = 2"
      "\<forall>k<2. core_byte ?c (0x3010 + of_nat k) = Some (bs ! k)"
    using Read_reads_memory [OF c' f _ m, of 2] b v by auto
  have "bs = [0xAB, 0xCD]"
    using bs(2,3) byte by (intro nth_equalityI) auto
  then show ?thesis using bs c' by blast
qed

text \<open>At an address without tag bits, what Write stored is what Read returns.\<close>

theorem Write_then_Read:
  assumes "os_ok os" and "core_ok c" and "findLoadBlock vaddr True c = Some i"
    and "mOverlay (blk c i) = None \<Longrightarrow> os_mmap os (mem c) (mMemSize (blk c i)) \<noteq> None"
    and "vaddr AND vabits_mask c = vaddr" and "buf \<noteq> []"
    and "unat vaddr + length buf \<le> unat (mVaddr (blk c i)) + unat (mMemSize (blk c i))"
  shows "\<exists>c'. Core_Write os vaddr buf c = Inr c' \<and>
    Core_Read vaddr (of_nat (length buf)) OPT_READ_ALL c' = Inr (Some buf)"
proof -
  have fits: "unat (vaddr AND vabits_mask c) + length buf \<le> unat (mVaddr (blk c i)) + unat (mMemSize (blk c i))"
    using assms by simp
  obtain b h where wr: "Core_Write os vaddr buf c = Inr (c\<lparr>blocks := (blocks c)[i := b], mem := h\<rparr>)"
    and pl: "same_place b (blk c i)" and v: "isValid b" "mOverlay b \<noteq> None" "block_ok h b"
    and byt: "\<forall>k<unat (mMemSize b). block_byte h b k =
           (let lo = unat (vaddr AND vabits_mask c) - unat (mVaddr (blk c i))
            in if lo \<le> k \<and> k < lo + length buf then buf ! (k - lo) else block_byte (mem c) (blk c i) k)"
    and fr: "\<forall>j\<in>set (mLoad c). j \<noteq> i \<longrightarrow> block_byte h (blk c j) = block_byte (mem c) (blk c j)"
    and ok': "core_ok (c\<lparr>blocks := (blocks c)[i := b], mem := h\<rparr>)"
    by (rule Core_Write_spec [OF assms(1-4) fits])
  let ?c = "c\<lparr>blocks := (blocks c)[i := b], mem := h\<rparr>"
  note blk = core_ok_block [OF assms(2,3)]
  have b: "blk ?c i = b" "mVaddr b = mVaddr (blk c i)" "backed_size b = unat (mMemSize (blk c i))"
    using blk(3) pl v by (auto simp: same_place_def block_ok_def backed_size_def)
  have f: "findLoadBlock vaddr True ?c = Some i"
    using findLoadBlock_update(1) [OF _ blk(3) pl] assms(2,3) by (simp add: core_ok_def)
  have len: "unat (of_nat (length buf) :: u64) = length buf"
    using assms(7) block_ok_no_wrap [OF blk(4)] by (simp add: unat_of_nat no_wrap_def)
  then have pos: "0 < (of_nat (length buf) :: u64)" using assms(6) by (simp add: word_less_nat_alt)
  have cb: "core_byte ?c (vaddr + of_nat k) = Some (buf ! k)" if "k < length buf" for k
    using range_inside [OF assms(2,3,5,7) that] that assms(5)
      core_byte_after_write [OF assms(2,3) fits pl byt fr, of "vaddr + of_nat k"] by (simp add: Let_def)
  have "Core_Read vaddr (of_nat (length buf)) OPT_READ_ALL ?c =
      Inr (Some (map (\<lambda>k. the (core_byte ?c (vaddr + of_nat k))) [0..<length buf]))"
    using Core_Read_spec [OF ok' f _ _ pos] v b assms(5,7) len by simp
  moreover have "map (\<lambda>k. the (core_byte ?c (vaddr + of_nat k))) [0..<length buf] = buf"
    by (rule nth_equalityI) (auto simp: cb)
  ultimately show ?thesis using wr by auto
qed

theorem Write_then_Read_witness:
  "\<exists>c'. Core_Write demo_os 0x3010 [1, 2, 3] demo_core = Inr c' \<and>
    Core_Read 0x3010 (of_nat (length [1, 2, 3 :: u8])) OPT_READ_ALL c' = Inr (Some [1, 2, 3])"
  by (rule Write_then_Read [OF demo_os_ok demo_core_ok demo_find demo_mmap]) (simp_all add: demo_defs)

text \<open>C3: a fake segment whose address the core chooses is either refused (the core then
  keeps its segments) or placed so that it overlaps no segment, both load vectors stay
  sorted, and the new segment is found under every address in it and reads as zero.\<close>

theorem newLoadBlock_places_apart:
  assumes "os_ok os" and "core_ok c" and "unat sz < 2 ^ 62" and "flags \<noteq> 0"
  shows "(\<exists>h. newLoadBlock os 0 sz flags c = Inr (0, c\<lparr>mem := h\<rparr>)) \<or>
    (\<exists>bgn c' n. newLoadBlock os 0 sz flags c = Inr (bgn, c') \<and> bgn \<noteq> 0 \<and> core_ok c' \<and>
       unat sz \<le> n \<and> (\<forall>i\<in>set (mLoad c). \<forall>k<n. \<not> block_has (blk c i) (bgn + of_nat k)) \<and>
       (\<forall>k<n. core_byte c' (bgn + of_nat k) = Some 0))"
proof -
  consider (none) h where "newLoadBlock os 0 sz flags c = Inr (0, c\<lparr>mem := h\<rparr>)"
    | (some) bgn b k q h where "newLoadBlock os 0 sz flags c = Inr (bgn, with_block b k q h c)" "bgn \<noteq> 0"
       "mVaddr b = bgn" "mMemSize b = RoundUp sz ELF_PAGE_SIZE" "mFlags b = flags" "no_wrap b"
       "core_ok (with_block b k q h c)" "\<forall>i\<in>set (mLoad c). below (blk c i) b \<or> below b (blk c i)"
       "\<forall>i<unat (mMemSize b). block_byte h b i = 0" "mMemSize b \<noteq> 0"
    using newLoadBlock_auto [OF assms(1-3), of flags] by blast
  then show ?thesis
  proof cases
    case none
    then show ?thesis by blast
  next
    case some
    let ?c = "with_block b k q h c" and ?n = "unat (mMemSize b)"
    have pg: "ELF_PAGE_SIZE = 2 ^ 12" by (simp add: ELF_PAGE_SIZE_def)
    have le: "unat sz \<le> ?n"
      using RoundUp_bounds(1) [of sz 12] assms(3) unfolding some(4) pg by simp
    have at: "block_has b (bgn + of_nat j)" "unat (bgn + of_nat j - mVaddr b) = j" if "j < ?n" for j
    proof -
      have "j < 2 ^ 64" using that unat_u64_less [of "mMemSize b"] by linarith
      then show "unat (bgn + of_nat j - mVaddr b) = j" using some(3) by (simp add: unat_of_nat)
      show "block_has b (bgn + of_nat j)"
        using that some(3,6) \<open>j < 2 ^ 64\<close> unfolding block_has_unat [OF some(6)]
        by (subst (1 2) unat_add_no_wrap) (auto simp: unat_of_nat no_wrap_def)
    qed
    have new: "blk ?c (length (blocks c)) = b" "length (blocks c) \<in> set (mQuickLoad ?c)"
      using assms(4) some(5) by (auto simp: with_block_def set_insert_at)
    have "core_byte ?c (bgn + of_nat j) = Some 0" if "j < ?n" for j
    proof -
      note f = found_inside [OF some(7) new(2), unfolded new(1), OF at(1) [OF that]]
      have "mem ?c = h" by (simp add: with_block_def)
      then show ?thesis using core_byte_eq [OF f(2)] f(1) new(1) at(2) [OF that] some(9) that by simp
    qed
    moreover have "\<not> block_has (blk c i) (bgn + of_nat j)" if "i \<in> set (mLoad c)" "j < ?n" for i j
      using at(1) [OF that(2)] some(8) that(1) some(6) block_ok_no_wrap [OF core_ok_blocks(1) [OF assms(2) that(1)]]
      by (force simp: block_has_unat below_def)
    ultimately show ?thesis using some(1,2,7) le by blast
  qed
qed

lemma demo_RoundUp: "RoundUp 0x100 ELF_PAGE_SIZE = 0x1000" "RoundUp 0x1000 ELF_PAGE_SIZE = 0x1000"
  "RoundUp 0x5000 ELF_PAGE_SIZE = 0x5000" "RoundUp 0 ELF_PAGE_SIZE = 0"
  by (simp_all add: RoundUp_def RoundDown_def ELF_PAGE_SIZE_def)

lemma demo_place: "place_block 0 0x1000 demo_core = Some (0x2000, 1, 1)"
  by (simp add: place_block_def findLoadBlock_def search_loads_def getLoads_def demo_defs FAKE_LOAD_BEGIN_def)

lemma demo_overlay:
  assumes "mMemSize b = 0x1000" "\<not> isValid b"
  shows "newOverlay demo_os (\<lambda>_. None) b =
    Inr (True, b\<lparr>mOverlay := Some \<lparr>mm_name = [], mm_begin = 0x7000000, mm_size = 0x1000, mm_offset = 0,
                 mm_max = 0x1000\<rparr>\<rparr>, host_zero (\<lambda>_. None) 0x7000000 0x1000)"
  using assms by (auto simp: newOverlay_def MmapZeroMem_def demo_os_def isValid_def split: option.splits)

lemma fake_not_valid: "\<not> isValid (fake_block bgn sz flags c)"
  by (simp add: isValid_def isValidBlock_def fake_block_def new_LoadBlock_def)

theorem newLoadBlock_places_apart_witness:
  "os_ok demo_os \<and> core_ok demo_core \<and>
   (\<exists>c'. newLoadBlock demo_os 0 0x100 6 demo_core = Inr (0x2000, c') \<and> core_ok c')"
proof -
  have mem: "mem demo_core = (\<lambda>_. None)" by (simp add: demo_defs)
  obtain c' where "newLoadBlock demo_os 0 0x100 6 demo_core = Inr (0x2000, c')"
    using demo_overlay [OF _ fake_not_valid, of "0x2000" "0x1000" 6 demo_core]
    by (simp add: newLoadBlock_def demo_RoundUp demo_place mem Let_def new_block_def)
  then show ?thesis
    using newLoadBlock_places_apart [OF demo_os_ok demo_core_ok, of "0x100" 6] demo_os_ok demo_core_ok
    by auto
qed

section \<open>A fake segment above every segment\<close>

lemma explicit_index_above:
  assumes "bs \<noteq> []" "\<forall>b\<in>set bs. \<not> bgn < mVaddr b" "\<not> vmask < bgn + sz"
  shows "explicit_index bs k vmask bgn sz = Some (k + length bs - 1)"
  using assms by (induction bs arbitrary: k) auto

lemma insert_before_last: "xs \<noteq> [] \<Longrightarrow> insert_at (length xs - 1) x xs = butlast xs @ [x, last xs]"
  by (induction xs rule: rev_induct) (simp_all add: insert_at_def)

text \<open>An explicit page address above every segment of a well-formed core is accepted, but the
  new segment is inserted before the last one: the vector of all segments is no longer sorted, so
  the search over it (findLoadBlock with quick false, which the loader of libraries and newLoadBlock
  itself use) has lost its precondition.\<close>

theorem newLoadBlock_above_unsorts:
  assumes "os_ok os" and "core_ok c" and "mLoad c \<noteq> []"
    and v: "RoundUp (vaddr AND vabits_mask c) ELF_PAGE_SIZE = bgn" "bgn \<noteq> 0"
    and sz: "RoundUp len ELF_PAGE_SIZE = n" "n \<noteq> 0"
    and above: "\<forall>i\<in>set (mLoad c). unat (mVaddr (blk c i)) + unat (mMemSize (blk c i)) \<le> unat bgn"
    and top: "unat bgn + unat n \<le> unat (vabits_mask c)"
    and mm: "os_mmap os (mem c) n \<noteq> None"
  shows "\<exists>c' b. newLoadBlock os vaddr len flags c = Inr (bgn, c') \<and> blocks c' = blocks c @ [b] \<and>
    mVaddr b = bgn \<and> mMemSize b = n \<and>
    mLoad c' = butlast (mLoad c) @ [length (blocks c), last (mLoad c)] \<and> \<not> loads_ok False c'"
proof -
  let ?L = "mLoad c" and ?f = "fake_block bgn n flags c"
  have top64: "unat bgn + unat n < 2 ^ 64" using top unat_u64_less [of "vabits_mask c"] by linarith
  then have nowrap: "unat (bgn + n) = unat bgn + unat n" by (intro unat_add_no_wrap) simp
  obtain w where w: "w \<le> 64" "vabits_mask c = mask w" using assms(2) by (auto simp: core_ok_def mask_ok_def)
  have "unat (mask w :: u64) < 2 ^ w" 
    unfolding mask_eq_take_bit_minus_one unsigned_take_bit_eq by (rule take_bit_nat_less_exp)
  then have "unat bgn < 2 ^ w" using top unfolding w(2) by linarith
  then have "bgn AND vabits_mask c = bgn" unfolding w(2) by (rule and_mask_small)
  then have free: "findLoadBlock bgn False c = None"
    using assms(2) above
    by (subst findLoadBlock_None_iff)
      (auto simp: core_ok_def getLoads_def block_has_def word_le_nat_alt word_less_nat_alt unat_word_ariths)
  have "\<not> vabits_mask c < bgn + n" "\<forall>b\<in>set (map (blk c) ?L). \<not> bgn < mVaddr b"
    using top nowrap above by (fastforce simp: word_less_nat_alt)+
  from explicit_index_above [OF _ this(2,1), of 0] assms(3)
  have "place_block bgn n c = Some (bgn, length ?L - 1, quick_index (map (blk c) (mQuickLoad c)) 0 bgn)"
    using free sz(2) v(2) by (simp add: place_block_def Let_def)
  moreover obtain m h where "newOverlay os (mem c) ?f = Inr (True, ?f\<lparr>mOverlay := Some m\<rparr>, h)"
    by (rule newOverlay_obtains [of ?f os "mem c"])
      (use assms(1) mm top64 in \<open>auto simp: fake_block_ok no_wrap_def\<close>)
  ultimately obtain c' where c': "newLoadBlock os vaddr len flags c = Inr (bgn, c')"
      "blocks c' = blocks c @ [?f\<lparr>mOverlay := Some m\<rparr>]" "mLoad c' = insert_at (length ?L - 1) (length (blocks c)) ?L"
    using v sz by (simp add: newLoadBlock_def Let_def new_block_def)
  let ?b = "?f\<lparr>mOverlay := Some m\<rparr>"
  have L: "mLoad c' = butlast ?L @ [length (blocks c), last ?L]" unfolding c'(3) by (rule insert_before_last [OF assms(3)])
  have last: "last ?L \<in> set ?L" using assms(3) by simp
  then have "last ?L < length (blocks c)" using assms(2) by (auto simp: core_ok_def loads_ok_def getLoads_def)
  then have blks: "blk c' (length (blocks c)) = ?b" "blk c' (last ?L) = blk c (last ?L)"
    using c'(2) by (simp_all add: nth_append)
  have "0 < unat n" using sz(2) unat_eq_zero [of n] by simp
  then have "\<not> below ?b (blk c (last ?L))"
    using above last by (auto simp: below_def dest!: bspec)
  then have "\<not> loads_ok False c'"
    using blks by (auto simp: loads_ok_def getLoads_def L sorted_loads_def sorted_wrt_append)
  with c'(1,2) L show ?thesis by (intro exI [of _ c'] exI [of _ ?b]) simp
qed

end
