(* ===== verification/MemoryRefs.thy ===== *)
theory MemoryRefs
  imports CoreProps
begin

unbundle bit_operations_syntax

text \<open>
  core/api/memory_ref.h (\<open>api::MemoryRef\<close>): a typed view of a target address that caches
  the segment it was found in. Every accessor returns the reference with its cache
  filled. The main fact is that the cache is transparent: on a consistent reference the
  accessors return what an uncached lookup returns.
\<close>

section \<open>Operations\<close>

definition checkCopyBlock :: "nat option \<Rightarrow> core \<Rightarrow> memory_ref \<Rightarrow> memory_ref" where
  "checkCopyBlock b c r =
     (case b of Some i \<Rightarrow> if virtualContains (blk c i) (ref_vaddr r) then r\<lparr>ref_block := Some i\<rparr> else r
      | None \<Rightarrow> r)"

definition copyRef :: "memory_ref \<Rightarrow> core \<Rightarrow> memory_ref \<Rightarrow> memory_ref" where
  "copyRef src c r = checkCopyBlock (ref_block src) c r"

text \<open>The constructor \<open>MemoryRef(v, ref)\<close>.\<close>

definition new_ref_from :: "u64 \<Rightarrow> memory_ref \<Rightarrow> core \<Rightarrow> memory_ref" where
  "new_ref_from v src c = copyRef src c (new_memory_ref v)"

definition Prepare :: "bool \<Rightarrow> core \<Rightarrow> memory_ref \<Rightarrow> memory_ref res" where
  "Prepare check c r =
     (if ref_block r \<noteq> None \<or> ref_vaddr r = 0 then Inr r
      else res_bind (FindLoadBlock (ref_vaddr r) check True c) (\<lambda>b. Inr (r\<lparr>ref_block := b\<rparr>)))"

definition Real :: "core \<Rightarrow> memory_ref \<Rightarrow> (u64 \<times> memory_ref) res" where
  "Real c r =
     res_bind (Prepare True c r) (\<lambda>r'.
       case ref_block r' of
         None \<Rightarrow> Inl (InvalidAddressException (ref_vaddr r'))
       | Some i \<Rightarrow>
           (let b = blk c i in
            if \<not> isValid b then Inl (InvalidAddressException (ref_vaddr r'))
            else Inr (LoadBlock_begin OPT_READ_ALL b + ((ref_vaddr r' AND mVabitsMask b) - mVaddr b), r')))"

definition Ref_PointMask :: "core \<Rightarrow> memory_ref \<Rightarrow> u64 res" where
  "Ref_PointMask c r =
     (case ref_block r of None \<Rightarrow> Inl (HostFault 0) | Some i \<Rightarrow> Inr (mPointMask (blk c i)))"

definition MovePtr :: "u64 \<Rightarrow> core \<Rightarrow> memory_ref \<Rightarrow> memory_ref res" where
  "MovePtr len c r =
     res_bind (Prepare True c r) (\<lambda>r'.
       if (case ref_block r' of Some i \<Rightarrow> virtualContains (blk c i) (ref_vaddr r' + len) | None \<Rightarrow> False)
       then Inr (r'\<lparr>ref_vaddr := ref_vaddr r' + len\<rparr>)
       else Inr (r'\<lparr>ref_vaddr := ref_vaddr r' + len, ref_block := None\<rparr>))"

definition Ref_IsValid :: "core \<Rightarrow> memory_ref \<Rightarrow> (bool \<times> memory_ref) res" where
  "Ref_IsValid c r =
     res_bind (Prepare False c r) (\<lambda>r'.
       Inr (case ref_block r' of Some i \<Rightarrow> isValid (blk c i) | None \<Rightarrow> False, r'))"

text \<open>A load of \<open>n\<close> bytes at host address \<open>a\<close>, little endian.\<close>

definition host_word :: "host \<Rightarrow> u64 \<Rightarrow> nat \<Rightarrow> u64 res" where
  "host_word h a n = res_bind (host_read h a n) (\<lambda>bs. Inr (le_word bs))"

text \<open>\<open>value64Of\<close>, \<open>value32Of\<close>, \<open>value16Of\<close>, \<open>value8Of\<close>: \<open>n\<close> is 8, 4, 2, 1.\<close>

definition valueNOf :: "nat \<Rightarrow> u64 \<Rightarrow> core \<Rightarrow> memory_ref \<Rightarrow> (u64 \<times> memory_ref) res" where
  "valueNOf n off c r =
     res_bind (Real c r) (\<lambda>(real, r').
     res_bind (host_word (mem c) (real + off) n) (\<lambda>v. Inr (v, r')))"

text \<open>\<open>valueOf(offset)\<close>, also the macro \<open>VALUEOF\<close>: a masked 64-bit load.\<close>

definition valueOf :: "u64 \<Rightarrow> core \<Rightarrow> memory_ref \<Rightarrow> (u64 \<times> memory_ref) res" where
  "valueOf off c r =
     res_bind (valueNOf 8 off c r) (\<lambda>(v, r').
     res_bind (Ref_PointMask c r') (\<lambda>m. Inr (v AND m, r')))"

section \<open>The cache is transparent\<close>

text \<open>A reference is consistent when the block it caches is a quick block that contains
  its address.\<close>

definition ref_ok :: "core \<Rightarrow> memory_ref \<Rightarrow> bool" where
  "ref_ok c r \<longleftrightarrow> (\<forall>i. ref_block r = Some i \<longrightarrow> findLoadBlock (ref_vaddr r) True c = Some i)"

lemma ref_ok_new [simp]: "ref_ok c (new_memory_ref v)"
  by (simp add: ref_ok_def new_memory_ref_def)

lemma virtualContains_block_has:
  "mVabitsMask b = vabits_mask c \<Longrightarrow> virtualContains b a \<longleftrightarrow> block_has b (a AND vabits_mask c)"
  by (auto simp: virtualContains_def block_has_def Let_def not_less)

lemma virtualContains_found:
  assumes "core_ok c" "i \<in> set (mQuickLoad c)"
  shows "virtualContains (blk c i) a \<longleftrightarrow> findLoadBlock a True c = Some i"
proof -
  have "i \<in> set (mLoad c)" using assms by (auto simp: core_ok_def)
  then have "mVabitsMask (blk c i) = vabits_mask c" by (rule core_ok_blocks(2) [OF assms(1)])
  then show ?thesis
    using findLoadBlock_iff [of True c a i] assms by (simp add: core_ok_def getLoads_def virtualContains_block_has)
qed

lemma ref_ok_quick: "core_ok c \<Longrightarrow> ref_ok c r \<Longrightarrow> ref_block r = Some i \<Longrightarrow> i \<in> set (mQuickLoad c)"
  using core_ok_block(1) by (auto simp: ref_ok_def)

lemma ref_ok_copy:
  assumes "core_ok c" "ref_ok c src"
  shows "ref_ok c (new_ref_from v src c)"
  using assms virtualContains_found [OF assms(1) ref_ok_quick [OF assms]]
  by (auto simp: new_ref_from_def copyRef_def checkCopyBlock_def ref_ok_def new_memory_ref_def split: option.splits)

lemma Prepare_eq:
  assumes "ref_ok c r"
  shows "Prepare check c r =
    (if ref_block r \<noteq> None \<or> ref_vaddr r = 0 then Inr r
     else res_bind (FindLoadBlock (ref_vaddr r) check True c)
            (\<lambda>_. Inr (r\<lparr>ref_block := findLoadBlock (ref_vaddr r) True c\<rparr>)))"
  by (auto simp: Prepare_def FindLoadBlock_def Let_def split: option.splits)

lemma Prepare_ref_ok: "ref_ok c r \<Longrightarrow> Prepare check c r = Inr r' \<Longrightarrow> ref_ok c r' \<and> ref_vaddr r' = ref_vaddr r"
  by (auto simp: Prepare_eq res_bind_Inr_iff ref_ok_def split: if_splits)

text \<open>Real is the address translation of the core (at a non-null address).\<close>

lemma Real_eq_GetReal:
  assumes ok: "core_ok c" and r: "ref_ok c r" and nz: "ref_vaddr r \<noteq> 0"
  shows "Real c r = res_bind (GetReal (ref_vaddr r) c)
    (\<lambda>a. Inr (a, r\<lparr>ref_block := findLoadBlock (ref_vaddr r) True c\<rparr>))"
proof (cases "findLoadBlock (ref_vaddr r) True c")
  case None
  then have "ref_block r = None" using r by (cases "ref_block r") (auto simp: ref_ok_def)
  then show ?thesis using None nz by (simp add: Real_def Prepare_def FindLoadBlock_def v2r_def)
next
  case (Some i)
  note blk = core_ok_block [OF ok Some]
  have nz': "LoadBlock_begin OPT_READ_ALL (blk c i) \<noteq> 0" if "isValid (blk c i)"
    using valid_begin_nonzero [OF blk(4) that] .
  have "ref_block r = None \<or> ref_block r = Some i" using r Some by (cases "ref_block r") (auto simp: ref_ok_def)
  moreover have "r\<lparr>ref_block := Some i\<rparr> = r" if "ref_block r = Some i" using that by (cases r) simp
  ultimately show ?thesis
    using Some nz nz' blk(5)
    by (auto simp: Real_def Prepare_def FindLoadBlock_def v2r_def Let_def)
qed

lemma valueNOf_ref_ok:
  assumes "core_ok c" "ref_ok c r" "ref_vaddr r \<noteq> 0" "valueNOf n off c r = Inr (v, r')"
  shows "ref_ok c r' \<and> ref_vaddr r' = ref_vaddr r"
  using assms Real_eq_GetReal [OF assms(1-3)]
  by (auto simp: valueNOf_def res_bind_Inr_iff ref_ok_def)

lemma MovePtr_ref_ok:
  assumes "core_ok c" "ref_ok c r" "MovePtr len c r = Inr r'"
  shows "ref_ok c r' \<and> ref_vaddr r' = ref_vaddr r + len"
proof -
  obtain r1 where p: "Prepare True c r = Inr r1"
    using assms(3) unfolding MovePtr_def res_bind_Inr_iff by auto
  note r1 = Prepare_ref_ok [OF assms(2) p]
  show ?thesis
  proof (cases "ref_block r1")
    case None
    then show ?thesis using assms(3) p r1 by (auto simp: MovePtr_def ref_ok_def)
  next
    case (Some i)
    let ?a = "ref_vaddr r1 + len"
    have vc: "virtualContains (blk c i) ?a \<longleftrightarrow> findLoadBlock ?a True c = Some i"
      using virtualContains_found [OF assms(1) ref_ok_quick [OF assms(1) conjunct1 [OF r1] Some]] .
    have "r' = (if virtualContains (blk c i) ?a then r1\<lparr>ref_vaddr := ?a\<rparr>
        else r1\<lparr>ref_vaddr := ?a, ref_block := None\<rparr>)"
      using assms(3) p Some by (simp add: MovePtr_def split: if_splits)
    then show ?thesis using vc Some conjunct2 [OF r1] by (simp add: ref_ok_def)
  qed
qed

text \<open>An accessor on a valid reference reads the target bytes at its address.\<close>

lemma valueNOf_bytes:
  assumes ok: "core_ok c" and r: "ref_ok c r" and nz: "ref_vaddr r \<noteq> 0"
    and found: "findLoadBlock (ref_vaddr r) True c = Some i" and v: "isValid (blk c i)"
    and untagged: "ref_vaddr r AND vabits_mask c = ref_vaddr r"
    and fits: "unat (ref_vaddr r) + k + n \<le> unat (mVaddr (blk c i)) + backed_size (blk c i)"
  shows "valueNOf n (of_nat k) c r =
    Inr (le_word (map (\<lambda>j. the (core_byte c (ref_vaddr r + of_nat (k + j)))) [0..<n]), r\<lparr>ref_block := Some i\<rparr>)"
proof -
  let ?b = "blk c i" and ?o = "unat (ref_vaddr r) - unat (mVaddr (blk c i))"
  note blk = core_ok_block [OF ok found]
  have nw: "no_wrap ?b" using blk(4) by (rule block_ok_no_wrap)
  have has: "block_has ?b (ref_vaddr r)" using blk(6) untagged by simp
  note off = block_has_offset [OF nw has]
  have vo: "ref_vaddr r - mVaddr ?b = of_nat ?o" unfolding off(1) [symmetric] by simp
  have real: "Real c r = Inr (LoadBlock_begin OPT_READ_ALL ?b + of_nat ?o, r\<lparr>ref_block := Some i\<rparr>)"
    using Real_eq_GetReal [OF ok r nz] v2r_found [OF ok found v] untagged vo found by simp
  have fit: "unat (ref_vaddr r) + (k + n) \<le> unat (mVaddr ?b) + unat (mMemSize ?b)"
    using fits backed_size_le [OF blk(4)] by simp
  have "host_read (mem c) (LoadBlock_begin OPT_READ_ALL ?b + of_nat (?o + k)) n =
      Inr (map (\<lambda>j. block_byte (mem c) ?b (?o + k + j)) [0..<n])"
    using fits off(3) by (intro read_backing [OF blk(4)]) linarith
  moreover have "block_byte (mem c) ?b (?o + k + j) = the (core_byte c (ref_vaddr r + of_nat (k + j)))" if "j < n" for j
    using core_byte_inside [OF ok found untagged fit, of "k + j"] that by (simp add: add.assoc)
  ultimately have "host_read (mem c) (LoadBlock_begin OPT_READ_ALL ?b + of_nat ?o + of_nat k) n =
      Inr (map (\<lambda>j. the (core_byte c (ref_vaddr r + of_nat (k + j)))) [0..<n])"
    by (simp add: add.assoc)
  then show ?thesis by (simp add: valueNOf_def real host_word_def)
qed

end
