(* ===== verification/ElfTables.thy ===== *)
theory ElfTables
  imports MemoryRefs
begin

unbundle bit_operations_syntax

text \<open>
  ELF structures in target memory: core/api/elf.h, core/api/elf.cpp (\<open>api::Elf\<close>, the field
  offset tables and the dynamic section) and core/common/link_map.h, link_map.cpp
  (\<open>LinkMap\<close>, symbol lookup). Log output is not modelled.
\<close>

section \<open>Offset tables\<close>

record Elfx_Ehdr_OffsetTable =
  e_ident :: u32
  e_type :: u32
  e_machine :: u32
  e_version :: u32
  e_entry :: u32
  e_phoff :: u32
  e_shoff :: u32
  e_flags :: u32
  e_ehsize :: u32
  e_phentsize :: u32
  e_phnum :: u32
  e_shentsize :: u32
  e_shnum :: u32
  e_shstrndx :: u32
  e_THIS :: u32

record Elfx_Phdr_OffsetTable =
  p_type :: u32
  p_flags :: u32
  p_offset :: u32
  p_vaddr :: u32
  p_paddr :: u32
  p_filesz :: u32
  p_memsz :: u32
  p_align :: u32
  p_THIS :: u32

record Elfx_Dynamic_OffsetTable =
  d_type :: u32
  d_val :: u32
  d_THIS :: u32

record Elfx_Sym_OffsetTable =
  st_name :: u32
  st_value :: u32
  st_size :: u32
  st_info :: u32
  st_other :: u32
  st_shndx :: u32
  st_THIS :: u32

record LinkMap_OffsetTable =
  l_addr :: u32
  l_name :: u32
  l_ld :: u32
  l_next :: u32
  l_prev :: u32
  l_THIS :: u32

text \<open>The tables the \<open>Init\<close> functions set, by \<open>CoreApi::Bits()\<close>; the size tables are the \<open>THIS\<close>
  fields.\<close>

definition Elfx_Ehdr_Init :: "nat \<Rightarrow> Elfx_Ehdr_OffsetTable" where
  "Elfx_Ehdr_Init nbits =
     (if nbits = 64 then
        \<lparr>e_ident = 0, e_type = 16, e_machine = 18, e_version = 20, e_entry = 24, e_phoff = 32,
         e_shoff = 40, e_flags = 48, e_ehsize = 52, e_phentsize = 54, e_phnum = 56,
         e_shentsize = 58, e_shnum = 60, e_shstrndx = 62, e_THIS = 64\<rparr>
      else
        \<lparr>e_ident = 0, e_type = 16, e_machine = 18, e_version = 20, e_entry = 24, e_phoff = 28,
         e_shoff = 32, e_flags = 36, e_ehsize = 40, e_phentsize = 42, e_phnum = 44,
         e_shentsize = 46, e_shnum = 48, e_shstrndx = 50, e_THIS = 52\<rparr>)"

definition Elfx_Phdr_Init :: "nat \<Rightarrow> Elfx_Phdr_OffsetTable" where
  "Elfx_Phdr_Init nbits =
     (if nbits = 64 then
        \<lparr>p_type = 0, p_flags = 4, p_offset = 8, p_vaddr = 16, p_paddr = 24, p_filesz = 32,
         p_memsz = 40, p_align = 48, p_THIS = 56\<rparr>
      else
        \<lparr>p_type = 0, p_flags = 4, p_offset = 8, p_vaddr = 12, p_paddr = 16, p_filesz = 20,
         p_memsz = 24, p_align = 28, p_THIS = 32\<rparr>)"

definition Elfx_Dynamic_Init :: "nat \<Rightarrow> Elfx_Dynamic_OffsetTable" where
  "Elfx_Dynamic_Init nbits =
     (let cap = 64 div of_nat nbits
      in \<lparr>d_type = 0, d_val = 8 div cap, d_THIS = 16 div cap\<rparr>)"

definition Elfx_Sym_Init :: "nat \<Rightarrow> Elfx_Sym_OffsetTable" where
  "Elfx_Sym_Init nbits =
     (if nbits = 64 then
        \<lparr>st_name = 0, st_value = 8, st_size = 16, st_info = 4, st_other = 5, st_shndx = 6, st_THIS = 24\<rparr>
      else
        \<lparr>st_name = 0, st_value = 4, st_size = 8, st_info = 12, st_other = 13, st_shndx = 14, st_THIS = 16\<rparr>)"

definition LinkMap_Init :: "nat \<Rightarrow> LinkMap_OffsetTable" where
  "LinkMap_Init nbits =
     (let cap = 64 div of_nat nbits
      in \<lparr>l_addr = 0, l_name = 8 div cap, l_ld = 16 div cap, l_next = 24 div cap, l_prev = 32 div cap,
          l_THIS = 40 div cap\<rparr>)"

abbreviation ehdr_off :: "core \<Rightarrow> Elfx_Ehdr_OffsetTable" where
  "ehdr_off c \<equiv> Elfx_Ehdr_Init (bits (core_machine c))"
abbreviation phdr_off :: "core \<Rightarrow> Elfx_Phdr_OffsetTable" where
  "phdr_off c \<equiv> Elfx_Phdr_Init (bits (core_machine c))"
abbreviation dyn_off :: "core \<Rightarrow> Elfx_Dynamic_OffsetTable" where
  "dyn_off c \<equiv> Elfx_Dynamic_Init (bits (core_machine c))"
abbreviation sym_off :: "core \<Rightarrow> Elfx_Sym_OffsetTable" where
  "sym_off c \<equiv> Elfx_Sym_Init (bits (core_machine c))"
abbreviation lm_off :: "core \<Rightarrow> LinkMap_OffsetTable" where
  "lm_off c \<equiv> LinkMap_Init (bits (core_machine c))"

section \<open>Dynamic section\<close>

definition PT_LOAD :: u64 where "PT_LOAD = 1"
definition PT_DYNAMIC :: u64 where "PT_DYNAMIC = 2"
definition PT_NOTE :: u64 where "PT_NOTE = 4"
definition PT_PHDR :: u64 where "PT_PHDR = 6"
definition DT_STRTAB :: u64 where "DT_STRTAB = 5"
definition DT_SYMTAB :: u64 where "DT_SYMTAB = 6"
definition DT_SYMENT :: u64 where "DT_SYMENT = 11"
definition DT_DEBUG :: u64 where "DT_DEBUG = 21"
definition DT_VERSYM :: u64 where "DT_VERSYM = 0x6ffffff0"
definition ELFMAG :: "u8 list" where "ELFMAG = [0x7f, 0x45, 0x4c, 0x46]"

definition IsElf :: "core \<Rightarrow> memory_ref \<Rightarrow> (bool \<times> memory_ref) res" where
  "IsElf c r =
     res_bind (Ref_IsValid c r) (\<lambda>(ok, r1).
       if ok then
         res_bind (Real c r1) (\<lambda>(real, r2).
         res_bind (host_read (mem c) real 4) (\<lambda>bs. Inr (bs = ELFMAG, r2)))
       else Inr (False, r1))"

text \<open>
  The do-while loop of \<open>FindDynamicEntry\<close>, entered at an entry. An entry whose successor
  would lie below it (the address wrapped around) is a fault.
\<close>

function dynamic_loop :: "core \<Rightarrow> u64 \<Rightarrow> memory_ref \<Rightarrow> u64 res" where
  "dynamic_loop c type tmp =
     (case valueOf (ucast (d_type (dyn_off c))) c tmp of
        Inl e \<Rightarrow> Inl e
      | Inr (t, r1) \<Rightarrow>
          if t = type then
            (case valueOf (ucast (d_val (dyn_off c))) c r1 of Inl e \<Rightarrow> Inl e | Inr (v, r2) \<Rightarrow> Inr v)
          else
            (case MovePtr (ucast (d_THIS (dyn_off c))) c r1 of
               Inl e \<Rightarrow> Inl e
             | Inr r2 \<Rightarrow>
                 (case valueOf (ucast (d_type (dyn_off c))) c r2 of
                    Inl e \<Rightarrow> Inl e
                  | Inr (t', r3) \<Rightarrow>
                      if t' = 0 then Inr 0
                      else if ref_vaddr tmp < ref_vaddr r3 then dynamic_loop c type r3
                      else Inl (HostFault (ref_vaddr r3)))))"
  by pat_completeness auto
termination
proof (relation "measure (\<lambda>(c, type, r). 2 ^ 64 - unat (ref_vaddr r))", goal_cases)
  case (2 c type tmp x t r1 r2 y t' r3)
  then show ?case using unat_u64_less [of "ref_vaddr r3"] by (simp add: word_less_nat_alt)
qed simp

declare dynamic_loop.simps [simp del]

definition FindDynamicEntry :: "core \<Rightarrow> u64 \<Rightarrow> memory_ref \<Rightarrow> (u64 \<times> memory_ref) res" where
  "FindDynamicEntry c type dynamic =
     res_bind (Ref_IsValid c dynamic) (\<lambda>(ok, r).
       if ok then res_bind (dynamic_loop c type r) (\<lambda>v. Inr (v, r)) else Inr (0, r))"

text \<open>The loop of \<open>GetDebug\<close> over \<open>n\<close> program headers: the address of the dynamic section.\<close>

fun find_pt_dynamic :: "nat \<Rightarrow> core \<Rightarrow> memory_ref \<Rightarrow> memory_ref \<Rightarrow> u64 res" where
  "find_pt_dynamic 0 c phdr tmp = Inr 0"
| "find_pt_dynamic (Suc n) c phdr tmp =
     res_bind (valueNOf 4 (ucast (p_type (phdr_off c))) c tmp) (\<lambda>(ty, t1).
       if ty = PT_DYNAMIC then
         res_bind (valueOf (ucast (p_vaddr (phdr_off c))) c phdr) (\<lambda>(pv, p1).
         res_bind (valueOf (ucast (p_vaddr (phdr_off c))) c t1) (\<lambda>(tv, t2).
           Inr (ref_vaddr p1 - pv + tv)))
       else
         res_bind (MovePtr (ucast (p_THIS (phdr_off c))) c t1) (\<lambda>t2. find_pt_dynamic n c phdr t2))"

definition GetDebug :: "core \<Rightarrow> (memory_ref \<times> core) res" where
  "GetDebug c =
     (if ref_vaddr (mDebug c) \<noteq> 0 then Inr (mDebug c, c)
      else
        (let phnum = findAuxv AT_PHNUM c in
         res_bind (Ref_IsValid c (new_memory_ref (findAuxv AT_PHDR c))) (\<lambda>(ok, phdr).
           if \<not> ok then Inr (mDebug c, c)
           else
             res_bind (find_pt_dynamic (unat phnum) c phdr phdr) (\<lambda>d.
             res_bind (Ref_IsValid c (new_memory_ref d)) (\<lambda>(dok, dynamic).
               if dok then
                 res_bind (FindDynamicEntry c DT_DEBUG dynamic) (\<lambda>(v, _).
                   (let r = new_memory_ref v in Inr (r, c\<lparr>mDebug := r\<rparr>)))
               else Inr (mDebug c, c))))))"

section \<open>LinkMap\<close>

definition LinkMap_l_addr :: "core \<Rightarrow> link_map \<Rightarrow> (u64 \<times> link_map) res" where
  "LinkMap_l_addr c lm =
     res_bind (valueOf (ucast (l_addr (lm_off c))) c (lm_ref lm)) (\<lambda>(v, r). Inr (v, lm\<lparr>lm_ref := r\<rparr>))"

definition LinkMap_l_name :: "core \<Rightarrow> link_map \<Rightarrow> (u64 \<times> link_map) res" where
  "LinkMap_l_name c lm =
     res_bind (valueOf (ucast (l_name (lm_off c))) c (lm_ref lm)) (\<lambda>(v, r). Inr (v, lm\<lparr>lm_ref := r\<rparr>))"

definition LinkMap_l_ld :: "core \<Rightarrow> link_map \<Rightarrow> (u64 \<times> link_map) res" where
  "LinkMap_l_ld c lm =
     res_bind (valueOf (ucast (l_ld (lm_off c))) c (lm_ref lm)) (\<lambda>(v, r). Inr (v, lm\<lparr>lm_ref := r\<rparr>))"

text \<open>The loop of \<open>FindDynamic\<close> over the program headers of the library.\<close>

fun find_lib_dynamic :: "nat \<Rightarrow> core \<Rightarrow> u64 \<Rightarrow> memory_ref \<Rightarrow> u64 res" where
  "find_lib_dynamic 0 c laddr tmp = Inr 0"
| "find_lib_dynamic (Suc n) c laddr tmp =
     res_bind (valueNOf 4 (ucast (p_type (phdr_off c))) c tmp) (\<lambda>(ty, t1).
     res_bind
       (if ty = PT_PHDR then
          res_bind (valueOf (ucast (p_offset (phdr_off c))) c t1) (\<lambda>(po, t2).
          res_bind (valueOf (ucast (p_vaddr (phdr_off c))) c t2) (\<lambda>(pv, t3). Inr (po \<noteq> pv)))
        else Inr False) (\<lambda>relocated.
       if relocated then Inr 0
       else if ty = PT_DYNAMIC then
         res_bind (valueOf (ucast (p_vaddr (phdr_off c))) c t1) (\<lambda>(pv, t2). Inr (laddr + pv))
       else
         res_bind (MovePtr (ucast (p_THIS (phdr_off c))) c t1) (\<lambda>t2. find_lib_dynamic n c laddr t2)))"

definition FindDynamic :: "core \<Rightarrow> link_map \<Rightarrow> (memory_ref \<times> link_map) res" where
  "FindDynamic c lm =
     res_bind (LinkMap_l_ld c lm) (\<lambda>(ld, lm1).
       if ld \<noteq> 0 then Inr (new_memory_ref ld, lm1)
       else
         res_bind (LinkMap_l_addr c lm1) (\<lambda>(laddr, lm2).
         res_bind (IsElf c (new_memory_ref laddr)) (\<lambda>(elf, ehdr).
           if \<not> elf then Inr (new_memory_ref 0, lm2)
           else
             res_bind (valueNOf 2 (ucast (e_phnum (ehdr_off c))) c ehdr) (\<lambda>(phnum, ehdr').
             res_bind (find_lib_dynamic (unat phnum) c laddr
                         (new_ref_from (ref_vaddr ehdr' + ucast (e_THIS (ehdr_off c))) ehdr' c))
               (\<lambda>d. Inr (new_memory_ref d, lm2))))))"

text \<open>
  The symbol loop of \<open>Elf::ReadSymbols\<close>. The result is the set of symbols when the loop
  ends or throws, with the exception; the two \<open>continue\<close> statements do not advance the
  reference to the symbol table.
\<close>

fun symbols_loop ::
  "nat \<Rightarrow> core \<Rightarrow> u64 \<Rightarrow> memory_ref \<Rightarrow> memory_ref \<Rightarrow> symbol_entry list \<Rightarrow> symbol_entry list \<times> exn option" where
  "symbols_loop 0 c syment tables symbols syms = (syms, None)"
| "symbols_loop (Suc n) c syment tables symbols syms =
     (let next = (\<lambda>r out. case MovePtr syment c r of Inl e \<Rightarrow> (out, Some e)
                    | Inr r' \<Rightarrow> symbols_loop n c syment tables r' out) in
      case valueOf (ucast (st_value (sym_off c))) c symbols of
        Inl e \<Rightarrow> (syms, Some e)
      | Inr (val, r1) \<Rightarrow>
          if val = 0 then next r1 syms
          else
            (case valueOf (ucast (st_size (sym_off c))) c r1 of
               Inl e \<Rightarrow> (syms, Some e)
             | Inr (sz, r2) \<Rightarrow>
                 if sz = 0 then next r2 syms
                 else
                   (case valueNOf 4 (ucast (st_name (sym_off c))) c r2 of
                      Inl e \<Rightarrow> (syms, Some e)
                    | Inr (nm, r3) \<Rightarrow>
                        (let symname = ref_vaddr tables + nm in
                         if symname \<ge> pointer_mask c then symbols_loop n c syment tables r3 syms
                         else if \<not> virtualContains (blk c (the (ref_block tables))) symname then (syms, None)
                         else
                           (case res_bind (valueNOf 1 (ucast (st_info (sym_off c))) c r3) (\<lambda>(info, _).
                                 res_bind (Real c (new_memory_ref symname)) (\<lambda>(real, _).
                                 res_bind (c_string (mem c) real) (\<lambda>s. Inr (info, s)))) of
                              Inl e \<Rightarrow> (syms, Some e)
                            | Inr (info, s) \<Rightarrow>
                                if s \<noteq> [] \<and> (hd s = CHR ''$'' \<or> hd s = CHR ''.'')
                                then symbols_loop n c syment tables r3 syms
                                else next r3 (symbols_insert
                                       \<lparr>se_offset = val, se_type = info, se_size = sz, se_symbol = s\<rparr> syms))))))"

text \<open>\<open>Elf::ReadSymbols\<close>: the link map with the symbols read so far, and the exception if
  one was thrown.\<close>

definition sym_size :: "u64 \<Rightarrow> u64 \<Rightarrow> u64 \<Rightarrow> u64" where
  "sym_size strtab symtab versym = (if strtab > versym then versym - symtab else strtab - symtab)"

definition rebase :: "u64 \<Rightarrow> u64 \<Rightarrow> u64" where
  "rebase laddr a = (if laddr \<le> a then a else laddr + a)"

definition Elf_ReadSymbols :: "core \<Rightarrow> link_map \<Rightarrow> link_map \<times> exn option" where
  "Elf_ReadSymbols c lm =
     (case res_bind (LinkMap_l_addr c lm) (\<lambda>(laddr, lm1).
             if laddr = 0 then Inr (lm1, None)
             else
               res_bind (FindDynamic c lm1) (\<lambda>(d0, lm2).
               res_bind (FindDynamicEntry c DT_STRTAB d0) (\<lambda>(strtab, d1).
               res_bind (FindDynamicEntry c DT_SYMTAB d1) (\<lambda>(symtab, d2).
               res_bind (FindDynamicEntry c DT_SYMENT d2) (\<lambda>(syment, d3).
               res_bind (FindDynamicEntry c DT_VERSYM d3) (\<lambda>(versym, d4).
                 if syment = 0 \<and> syment \<noteq> ucast (st_THIS (sym_off c)) then Inr (lm2, None)
                 else
                   (let symsz = sym_size strtab symtab versym in
                    if symsz = 0 \<or> bit symsz 63 \<or> symsz mod syment \<noteq> 0 then Inr (lm2, None)
                    else
                      res_bind (Ref_IsValid c (new_memory_ref (rebase laddr strtab))) (\<lambda>(tok, tables).
                        if \<not> tok then Inr (lm2, None)
                        else
                          res_bind (Ref_IsValid c (new_memory_ref (rebase laddr symtab))) (\<lambda>(sok, symbols).
                            if \<not> sok then Inr (lm2, None)
                            else Inr (lm2, Some (unat (symsz div syment), syment, tables, symbols)))))))))))
      of Inl e \<Rightarrow> (lm, Some e)
       | Inr (lm', None) \<Rightarrow> (lm', None)
       | Inr (lm', Some (count, syment, tables, symbols)) \<Rightarrow>
           (case symbols_loop count c syment tables symbols (dynsyms lm') of
              (syms, e) \<Rightarrow> (lm'\<lparr>dynsyms := syms\<rparr>, e)))"

text \<open>\<open>LinkMap::ReadDynsyms\<close> catches \<open>InvalidAddressException\<close> and keeps what was read.\<close>

definition ReadDynsyms :: "core \<Rightarrow> link_map \<Rightarrow> link_map res" where
  "ReadDynsyms c lm =
     (case Elf_ReadSymbols c (lm\<lparr>dynsyms := []\<rparr>) of
        (lm', None) \<Rightarrow> Inr lm'
      | (lm', Some (InvalidAddressException a)) \<Rightarrow> Inr lm'
      | (lm', Some (HostFault a)) \<Rightarrow> Inl (HostFault a))"

definition new_LinkMap :: "core \<Rightarrow> u64 \<Rightarrow> link_map res" where
  "new_LinkMap c m =
     ReadDynsyms c \<lparr>lm_ref = new_memory_ref m, addr_cache = new_memory_ref 0,
                     name_cache = new_memory_ref 0, dynsyms = []\<rparr>"

definition addLinkMap :: "u64 \<Rightarrow> core \<Rightarrow> core res" where
  "addLinkMap m c = res_bind (new_LinkMap c m) (\<lambda>lm. Inr (c\<lparr>mLinkMaps := mLinkMaps c @ [lm]\<rparr>))"

section \<open>Names, addresses and symbols of a library\<close>

text \<open>The body of the \<open>try\<close> block of \<open>GetAddrCache\<close>: the new address, or none.\<close>

definition addr_lookup :: "core \<Rightarrow> link_map \<Rightarrow> (u64 option \<times> link_map) res" where
  "addr_lookup c lm =
     res_bind (FindDynamic c lm) (\<lambda>(dynamic, lm1).
     res_bind (FindDynamicEntry c DT_SYMTAB dynamic) (\<lambda>(symtab, _).
     res_bind (LinkMap_l_addr c lm1) (\<lambda>(laddr, lm2).
     res_bind (Ref_IsValid c (new_memory_ref (rebase laddr symtab))) (\<lambda>(ok, symbols).
       if ok then
         (let base = mVaddr (blk c (the (ref_block symbols)))
          in res_bind (IsElf c (new_memory_ref base)) (\<lambda>(elf, _). Inr (if elf then Some base else None, lm2)))
       else Inr (None, lm2)))))"

definition GetAddrCache :: "core \<Rightarrow> link_map \<Rightarrow> (memory_ref \<times> link_map) res" where
  "GetAddrCache c lm =
     (if ref_vaddr (addr_cache lm) \<noteq> 0 then Inr (addr_cache lm, lm)
      else
        (case addr_lookup c lm of
           Inl (InvalidAddressException a) \<Rightarrow> Inr (addr_cache lm, lm)
         | Inl (HostFault a) \<Rightarrow> Inl (HostFault a)
         | Inr (base, lm1) \<Rightarrow>
             (let r = (case base of None \<Rightarrow> addr_cache lm1 | Some v \<Rightarrow> new_memory_ref v)
              in res_bind (Prepare False c r) (\<lambda>r'. Inr (r', lm1\<lparr>addr_cache := r'\<rparr>)))))"

definition GetNameCache :: "core \<Rightarrow> link_map \<Rightarrow> (memory_ref \<times> link_map) res" where
  "GetNameCache c lm =
     (if ref_vaddr (name_cache lm) = 0 then
        res_bind (LinkMap_l_name c lm) (\<lambda>(nm, lm1).
        res_bind (Prepare False c (new_memory_ref nm)) (\<lambda>r. Inr (r, lm1\<lparr>name_cache := r\<rparr>)))
      else Inr (name_cache lm, lm))"

definition LinkMap_begin :: "core \<Rightarrow> link_map \<Rightarrow> (u64 \<times> link_map) res" where
  "LinkMap_begin c lm = res_bind (GetAddrCache c lm) (\<lambda>(r, lm'). Inr (ref_vaddr r, lm'))"

definition LinkMap_name :: "core \<Rightarrow> link_map \<Rightarrow> (string \<times> link_map) res" where
  "LinkMap_name c lm =
     res_bind (GetNameCache c lm) (\<lambda>(r, lm1).
     res_bind (Ref_IsValid c r) (\<lambda>(ok, r1).
     res_bind (if ok then res_bind (valueNOf 1 0 c r1) (\<lambda>(b, _). Inr (b \<noteq> 0)) else Inr False) (\<lambda>named.
       if named then
         res_bind (Real c r1) (\<lambda>(real, _).
         res_bind (c_string (mem c) real) (\<lambda>s. Inr (s, lm1)))
       else
         res_bind (LinkMap_l_ld c lm1) (\<lambda>(ld, lm2).
           Inr (case FindFile ld c of Some f \<Rightarrow> cf_name f | None \<Rightarrow> [], lm2)))))"

definition LinkMap_block :: "core \<Rightarrow> link_map \<Rightarrow> (nat option \<times> link_map) res" where
  "LinkMap_block c lm =
     res_bind (GetAddrCache c lm) (\<lambda>(r, lm1).
     res_bind (Prepare False c r) (\<lambda>r'. Inr (ref_block r', lm1\<lparr>addr_cache := r'\<rparr>)))"

definition GetCurrentSymbols :: "core \<Rightarrow> link_map \<Rightarrow> (symbol_entry list \<times> link_map) res" where
  "GetCurrentSymbols c lm =
     res_bind (LinkMap_block c lm) (\<lambda>(b, lm').
       Inr (case b of Some i \<Rightarrow> if mMmap (blk c i) \<noteq> None then mSymbols (blk c i) else dynsyms lm'
            | None \<Rightarrow> dynsyms lm', lm'))"

definition DlSymEntry :: "core \<Rightarrow> string \<Rightarrow> link_map \<Rightarrow> (symbol_entry \<times> link_map) res" where
  "DlSymEntry c symbol lm =
     res_bind (GetCurrentSymbols c lm) (\<lambda>(symbols, lm').
       Inr (case find (\<lambda>e. se_symbol e = symbol) symbols of Some e \<Rightarrow> e | None \<Rightarrow> SymbolEntry_Invalid, lm'))"

definition LinkMap_DlSym :: "core \<Rightarrow> string \<Rightarrow> link_map \<Rightarrow> (u64 \<times> link_map) res" where
  "LinkMap_DlSym c symbol lm = res_bind (DlSymEntry c symbol lm) (\<lambda>(e, lm'). Inr (se_offset e, lm'))"

text \<open>Thumb addresses carry a low bit on arm, which the comparison drops.\<close>

definition code_offset :: "core \<Rightarrow> u64 \<Rightarrow> u64" where
  "code_offset c off = (if core_machine c = EM_ARM then off AND (pointer_mask c - 1) else off)"

definition region_match :: "core \<Rightarrow> u64 \<Rightarrow> symbol_entry \<Rightarrow> bool" where
  "region_match c cloc_offset e =
     (let offset = code_offset c (se_offset e)
      in if offset > cloc_offset then False else cloc_offset < offset + se_size e)"

definition DlRegionSymEntry :: "core \<Rightarrow> u64 \<Rightarrow> link_map \<Rightarrow> (symbol_entry \<times> link_map) res" where
  "DlRegionSymEntry c addr lm =
     res_bind (GetCurrentSymbols c lm) (\<lambda>(symbols, lm1).
       if symbols = [] then Inr (SymbolEntry_Invalid, lm1)
       else
         (let cloc_addr = addr AND vabits_mask c in
          res_bind (LinkMap_l_addr c lm1) (\<lambda>(laddr, lm2).
            if cloc_addr \<le> laddr then Inr (SymbolEntry_Invalid, lm2)
            else Inr (case find (region_match c (cloc_addr - laddr)) symbols of
                        Some e \<Rightarrow> e | None \<Rightarrow> SymbolEntry_Invalid, lm2))))"

definition ELF_ST_TYPE :: "u64 \<Rightarrow> u64" where
  "ELF_ST_TYPE x = ucast (ucast x :: u32) AND 0xf"

definition STT_NOTYPE :: u64 where "STT_NOTYPE = 0"
definition STT_FUNC :: u64 where "STT_FUNC = 2"

text \<open>\<open>NiceMethod\<close>: the symbol, its address and size when one was set.\<close>

definition NiceMethod :: "core \<Rightarrow> u64 \<Rightarrow> link_map \<Rightarrow> ((string \<times> u64 \<times> u64) option \<times> link_map) res" where
  "NiceMethod c pc lm =
     res_bind (DlRegionSymEntry c pc lm) (\<lambda>(entry, lm1).
       if \<not> SymbolEntry_IsValid entry then Inr (None, lm1)
       else
         res_bind (LinkMap_name c lm1) (\<lambda>(nm, lm2).
         res_bind (LinkMap_l_addr c lm2) (\<lambda>(laddr, lm3).
           (let vdso = (nm = ''[vdso]'' \<or> laddr = findAuxv AT_SYSINFO_EHDR c);
                ty = ELF_ST_TYPE (se_type entry)
            in if ty = STT_FUNC \<or> (vdso \<and> ty = STT_NOTYPE)
               then Inr (Some (se_symbol entry, code_offset c (se_offset entry + laddr), se_size entry), lm3)
               else Inr (None, lm3)))))"

text \<open>\<open>NiceSymbol::GetMethod\<close>; the demanglers of LLVM are parameters.\<close>

definition GetMethod :: "(string \<Rightarrow> string option) \<Rightarrow> (string \<Rightarrow> string option) \<Rightarrow> string \<Rightarrow> string \<Rightarrow> string" where
  "GetMethod itaniumDemangle rustDemangle symbol cached =
     (if cached = [] then
        (case itaniumDemangle symbol of Some s \<Rightarrow> s
         | None \<Rightarrow> (case rustDemangle symbol of Some s \<Rightarrow> s | None \<Rightarrow> symbol))
      else cached)"

end
