(* ===== verification/ElfLoad.thy ===== *)
theory ElfLoad
  imports ElfTables
begin

unbundle bit_operations_syntax

text \<open>
  Loading a core file: core/lp64/core.cpp and core/lp32/core.cpp (program headers, notes,
  libraries mapped over their segments), the \<open>load\<close> functions and note callbacks of the
  five architectures, core/common/elf.cpp and \<open>CoreApi::Load\<close> of core/api/core.cpp. The
  64-bit and the 32-bit loader are the same text with other structures, so a definition
  takes the ELF class; \<open>trunc\<close> is the conversion to the loader's address type.
\<close>

section \<open>ELF structures of the file\<close>

datatype elf_class = ELF64 | ELF32

fun ptr_size :: "elf_class \<Rightarrow> nat" where
  "ptr_size ELF64 = 8" | "ptr_size ELF32 = 4"

fun trunc :: "elf_class \<Rightarrow> u64 \<Rightarrow> u64" where
  "trunc ELF64 x = x" | "trunc ELF32 x = x AND 0xFFFFFFFF"

text \<open>\<open>Elf64_Ehdr\<close> and \<open>Elf32_Ehdr\<close> of linux/elf.h: the fields the loaders read.\<close>

fun sizeof_Ehdr :: "elf_class \<Rightarrow> u64" where "sizeof_Ehdr ELF64 = 64" | "sizeof_Ehdr ELF32 = 52"
fun eh_phoff :: "elf_class \<Rightarrow> host \<Rightarrow> u64 \<Rightarrow> u64 res" where
  "eh_phoff ELF64 h a = host_word h (a + 32) 8" | "eh_phoff ELF32 h a = host_word h (a + 28) 4"
fun eh_shoff :: "elf_class \<Rightarrow> host \<Rightarrow> u64 \<Rightarrow> u64 res" where
  "eh_shoff ELF64 h a = host_word h (a + 40) 8" | "eh_shoff ELF32 h a = host_word h (a + 32) 4"
fun eh_phnum :: "elf_class \<Rightarrow> host \<Rightarrow> u64 \<Rightarrow> u64 res" where
  "eh_phnum ELF64 h a = host_word h (a + 56) 2" | "eh_phnum ELF32 h a = host_word h (a + 44) 2"
fun eh_shnum :: "elf_class \<Rightarrow> host \<Rightarrow> u64 \<Rightarrow> u64 res" where
  "eh_shnum ELF64 h a = host_word h (a + 60) 2" | "eh_shnum ELF32 h a = host_word h (a + 48) 2"
fun eh_shstrndx :: "elf_class \<Rightarrow> host \<Rightarrow> u64 \<Rightarrow> u64 res" where
  "eh_shstrndx ELF64 h a = host_word h (a + 62) 2" | "eh_shstrndx ELF32 h a = host_word h (a + 50) 2"

text \<open>\<open>Elf64_Phdr\<close> and \<open>Elf32_Phdr\<close>.\<close>

record elf_phdr =
  ph_flags :: u64
  ph_offset :: u64
  ph_vaddr :: u64
  ph_paddr :: u64
  ph_filesz :: u64
  ph_memsz :: u64
  ph_align :: u64

fun sizeof_Phdr :: "elf_class \<Rightarrow> u64" where "sizeof_Phdr ELF64 = 56" | "sizeof_Phdr ELF32 = 32"

definition ph_type :: "host \<Rightarrow> u64 \<Rightarrow> u64 res" where "ph_type h a = host_word h a 4"

definition read_Phdr64 :: "host \<Rightarrow> u64 \<Rightarrow> elf_phdr res" where
  "read_Phdr64 h a =
     res_bind (host_word h (a + 4) 4) (\<lambda>fl. res_bind (host_word h (a + 8) 8) (\<lambda>off.
     res_bind (host_word h (a + 16) 8) (\<lambda>va. res_bind (host_word h (a + 24) 8) (\<lambda>pa.
     res_bind (host_word h (a + 32) 8) (\<lambda>fs. res_bind (host_word h (a + 40) 8) (\<lambda>ms.
     res_bind (host_word h (a + 48) 8) (\<lambda>al.
       Inr \<lparr>ph_flags = fl, ph_offset = off, ph_vaddr = va, ph_paddr = pa, ph_filesz = fs,
            ph_memsz = ms, ph_align = al\<rparr>)))))))"

definition read_Phdr32 :: "host \<Rightarrow> u64 \<Rightarrow> elf_phdr res" where
  "read_Phdr32 h a =
     res_bind (host_word h (a + 4) 4) (\<lambda>off. res_bind (host_word h (a + 8) 4) (\<lambda>va.
     res_bind (host_word h (a + 12) 4) (\<lambda>pa. res_bind (host_word h (a + 16) 4) (\<lambda>fs.
     res_bind (host_word h (a + 20) 4) (\<lambda>ms. res_bind (host_word h (a + 24) 4) (\<lambda>fl.
     res_bind (host_word h (a + 28) 4) (\<lambda>al.
       Inr \<lparr>ph_flags = fl, ph_offset = off, ph_vaddr = va, ph_paddr = pa, ph_filesz = fs,
            ph_memsz = ms, ph_align = al\<rparr>)))))))"

fun read_Phdr :: "elf_class \<Rightarrow> host \<Rightarrow> u64 \<Rightarrow> elf_phdr res" where
  "read_Phdr ELF64 h a = read_Phdr64 h a" | "read_Phdr ELF32 h a = read_Phdr32 h a"

text \<open>\<open>Elf64_Shdr\<close> and \<open>Elf32_Shdr\<close>.\<close>

fun sizeof_Shdr :: "elf_class \<Rightarrow> u64" where "sizeof_Shdr ELF64 = 64" | "sizeof_Shdr ELF32 = 40"
definition sh_name :: "host \<Rightarrow> u64 \<Rightarrow> u64 res" where "sh_name h a = host_word h a 4"
definition sh_type :: "host \<Rightarrow> u64 \<Rightarrow> u64 res" where "sh_type h a = host_word h (a + 4) 4"
fun sh_offset :: "elf_class \<Rightarrow> host \<Rightarrow> u64 \<Rightarrow> u64 res" where
  "sh_offset ELF64 h a = host_word h (a + 24) 8" | "sh_offset ELF32 h a = host_word h (a + 16) 4"
fun sh_size :: "elf_class \<Rightarrow> host \<Rightarrow> u64 \<Rightarrow> u64 res" where
  "sh_size ELF64 h a = host_word h (a + 32) 8" | "sh_size ELF32 h a = host_word h (a + 20) 4"
fun sh_info :: "elf_class \<Rightarrow> host \<Rightarrow> u64 \<Rightarrow> u64 res" where
  "sh_info ELF64 h a = host_word h (a + 44) 4" | "sh_info ELF32 h a = host_word h (a + 28) 4"
fun sh_entsize :: "elf_class \<Rightarrow> host \<Rightarrow> u64 \<Rightarrow> u64 res" where
  "sh_entsize ELF64 h a = host_word h (a + 56) 8" | "sh_entsize ELF32 h a = host_word h (a + 36) 4"

text \<open>\<open>Elf64_Sym\<close> and \<open>Elf32_Sym\<close>.\<close>

fun sizeof_Sym :: "elf_class \<Rightarrow> u64" where "sizeof_Sym ELF64 = 24" | "sizeof_Sym ELF32 = 16"
fun sy_name :: "elf_class \<Rightarrow> host \<Rightarrow> u64 \<Rightarrow> u64 res" where "sy_name cls h a = host_word h a 4"
fun sy_info :: "elf_class \<Rightarrow> host \<Rightarrow> u64 \<Rightarrow> u64 res" where
  "sy_info ELF64 h a = host_word h (a + 4) 1" | "sy_info ELF32 h a = host_word h (a + 12) 1"
fun sy_value :: "elf_class \<Rightarrow> host \<Rightarrow> u64 \<Rightarrow> u64 res" where
  "sy_value ELF64 h a = host_word h (a + 8) 8" | "sy_value ELF32 h a = host_word h (a + 4) 4"
fun sy_size :: "elf_class \<Rightarrow> host \<Rightarrow> u64 \<Rightarrow> u64 res" where
  "sy_size ELF64 h a = host_word h (a + 16) 8" | "sy_size ELF32 h a = host_word h (a + 8) 4"

definition PN_XNUM :: u64 where "PN_XNUM = 0xffff"
definition NT_PRSTATUS :: u64 where "NT_PRSTATUS = 1"
definition NT_FPREGSET :: u64 where "NT_FPREGSET = 2"
definition NT_AUXV :: u64 where "NT_AUXV = 6"
definition NT_FILE :: u64 where "NT_FILE = 0x46494c45"
definition NT_ARM_TLS :: u64 where "NT_ARM_TLS = 0x401"
definition NT_ARM_PAC_MASK :: u64 where "NT_ARM_PAC_MASK = 0x406"
definition NT_ARM_TAGGED_ADDR_CTRL :: u64 where "NT_ARM_TAGGED_ADDR_CTRL = 0x409"
definition NT_ARM_PAC_ENABLED_KEYS :: u64 where "NT_ARM_PAC_ENABLED_KEYS = 0x40A"

section \<open>Notes\<close>

text \<open>
  The callback of a loader: note type, position, the thread of the last \<open>NT_PRSTATUS\<close>
  (\<open>context\<close>) and the core; it returns its result, the thread \<open>context\<close> points to, and the
  core.
\<close>

type_synonym note_cb =
  "u64 \<Rightarrow> u64 \<Rightarrow> thread_info option \<Rightarrow> core \<Rightarrow> (thread_info option \<times> thread_info option \<times> core) res"

fun auxv_items :: "elf_class \<Rightarrow> host \<Rightarrow> u64 \<Rightarrow> nat \<Rightarrow> note_block \<Rightarrow> note_block res" where
  "auxv_items cls h pos 0 nb = Inr nb"
| "auxv_items cls h pos (Suc n) nb =
     res_bind (host_word h pos (ptr_size cls)) (\<lambda>ty.
     res_bind (host_word h (pos + of_nat (ptr_size cls)) (ptr_size cls)) (\<lambda>val.
       (let nb' = addAuxvItem pos ty val nb
        in if ty = 0 then Inr nb' else auxv_items cls h (pos + 2 * of_nat (ptr_size cls)) n nb')))"

fun file_items :: "elf_class \<Rightarrow> host \<Rightarrow> u64 \<Rightarrow> u64 \<Rightarrow> nat \<Rightarrow> note_block \<Rightarrow> note_block res" where
  "file_items cls h pos name_base 0 nb = Inr nb"
| "file_items cls h pos name_base (Suc n) nb =
     (let p = of_nat (ptr_size cls) in
      res_bind (host_word h pos (ptr_size cls)) (\<lambda>b.
      res_bind (host_word h (pos + p) (ptr_size cls)) (\<lambda>e.
      res_bind (host_word h (pos + 2 * p) (ptr_size cls)) (\<lambda>off.
      res_bind (addFileItem h b e off name_base nb) (\<lambda>nb'.
      res_bind (c_string h name_base) (\<lambda>s.
        file_items cls h (pos + 3 * p) (name_base + of_nat (length s) + 1) n nb'))))))"

text \<open>One note: the \<open>switch\<close> of the loop. \<open>ctx\<close> says whether \<open>last_context\<close> is set; the
  thread it points to is the last one of the block.\<close>

definition note_item ::
  "elf_class \<Rightarrow> note_cb \<Rightarrow> u64 \<Rightarrow> u64 \<Rightarrow> u64 \<Rightarrow> note_block \<Rightarrow> bool \<Rightarrow> core \<Rightarrow> (note_block \<times> bool \<times> core) res" where
  "note_item cls cb type descsz item_pos nb ctx c =
     (let context = (if ctx then Some (last (mThread nb)) else None);
          put = (\<lambda>t nb. case t of Some th \<Rightarrow> nb\<lparr>mThread := butlast (mThread nb) @ [th]\<rparr> | None \<Rightarrow> nb)
      in
      if type = NT_PRSTATUS then
        res_bind (cb type item_pos context c) (\<lambda>(ret, t, c').
          Inr (addThreadItem ret (put t nb), ret \<noteq> None, c'))
      else if type = NT_AUXV then
        (let numauxv = unat descsz div (2 * ptr_size cls)
         in res_bind (auxv_items cls (mem c) item_pos numauxv (setAuxvMaxCount (int numauxv) nb))
              (\<lambda>nb'. Inr (nb', ctx, c)))
      else if type = NT_FILE then
        res_bind (host_word (mem c) item_pos (ptr_size cls)) (\<lambda>numfile.
        res_bind (host_word (mem c) (item_pos + of_nat (ptr_size cls)) (ptr_size cls)) (\<lambda>_.
          (let file = item_pos + 2 * of_nat (ptr_size cls);
               name_base = file + 3 * of_nat (ptr_size cls) * numfile
           in res_bind (file_items cls (mem c) file name_base (unat numfile) nb) (\<lambda>nb'. Inr (nb', ctx, c)))))
      else
        res_bind (cb type item_pos context c) (\<lambda>(ret, t, c'). Inr (put t nb, ctx, c')))"

text \<open>The position after a note: header, name and contents, each rounded up to four bytes.
  The sizes are 32 bits wide and round up in 32 bits.\<close>

definition note_next :: "u64 \<Rightarrow> u32 \<Rightarrow> u32 \<Rightarrow> u64" where
  "note_next pos namesz descsz = pos + 12 + ucast (RoundUp namesz 4) + ucast (RoundUp descsz 4)"

text \<open>The \<open>while (pos < end)\<close> loop; a position that wraps around faults.\<close>

function note_loop ::
  "elf_class \<Rightarrow> note_cb \<Rightarrow> u64 \<Rightarrow> u64 \<Rightarrow> note_block \<Rightarrow> bool \<Rightarrow> core \<Rightarrow> (note_block \<times> core) res" where
  "note_loop cls cb pos fin nb ctx c =
     (if pos < fin then
        (case res_bind (host_word (mem c) pos 4) (\<lambda>namesz.
              res_bind (host_word (mem c) (pos + 4) 4) (\<lambda>descsz.
              res_bind (host_word (mem c) (pos + 8) 4) (\<lambda>ty.
                (let item_pos = (if descsz = 0 then 0 else pos + 12 + ucast (RoundUp (ucast namesz :: u32) 4))
                 in res_bind (note_item cls cb ty descsz item_pos nb ctx c) (\<lambda>(nb', ctx', c').
                      Inr (nb', ctx', c', note_next pos (ucast namesz) (ucast descsz))))))) of
           Inl e \<Rightarrow> Inl e
         | Inr (nb', ctx', c', pos') \<Rightarrow>
             if pos < pos' then note_loop cls cb pos' fin nb' ctx' c' else Inl (HostFault pos'))
      else Inr (nb, c))"
  by pat_completeness auto
termination
proof (relation "measure (\<lambda>(cls, cb, pos, fin, nb, ctx, c). 2 ^ 64 - unat pos)", goal_cases)
  case (2 cls cb pos fin nb ctx c st nb' x ctx' y c' pos')
  then show ?case using unat_u64_less [of pos'] by (simp add: word_less_nat_alt)
qed simp

declare note_loop.simps [simp del]

section \<open>load64 and load32\<close>

definition make_load :: "elf_phdr \<Rightarrow> core \<Rightarrow> load_block" where
  "make_load p c =
     (let b = new_LoadBlock (ucast (ph_flags p)) (ph_offset p) (ph_vaddr p) (ph_paddr p)
                (ph_filesz p) (ph_memsz p) (ph_align p);
          b1 = b\<lparr>mTruncated := mm_size (mCore c) < mOffset b + mFileSize b\<rparr>;
          b2 = setOriAddr (mm_begin (mCore c) + mOffset b1) b1
      in b2\<lparr>mVabitsMask := vabits_mask c, mPointMask := pointer_mask c\<rparr>)"

definition make_note :: "elf_phdr \<Rightarrow> core \<Rightarrow> note_block" where
  "make_note p c =
     (let b = new_NoteBlock (ucast (ph_flags p)) (ph_offset p) (ph_vaddr p) (ph_paddr p)
                (ph_filesz p) (ph_memsz p) (ph_align p)
      in b\<lparr>mTruncated := mm_size (mCore c) < mOffset b + mFileSize b\<rparr>)"

text \<open>The body of the loop over program headers.\<close>

definition load_phdr :: "elf_class \<Rightarrow> note_cb \<Rightarrow> u64 \<Rightarrow> core \<Rightarrow> core res" where
  "load_phdr cls cb phdr c =
     res_bind (ph_type (mem c) phdr) (\<lambda>ty.
       if ty = PT_LOAD then
         res_bind (read_Phdr cls (mem c) phdr) (\<lambda>p. Inr (addLoadBlock (make_load p c) c))
       else if ty = PT_NOTE then
         res_bind (read_Phdr cls (mem c) phdr) (\<lambda>p.
           (let nb = make_note p c in
            if \<not> isValidBlock nb then Inr c
            else
              (let nb' = setOriAddr (mm_begin (mCore c) + mOffset nb) nb
               in res_bind (note_loop cls cb (mOriAddr nb') (mOriAddr nb' + mFileSize nb') nb' False c)
                    (\<lambda>(nb'', c'). Inr (addNoteBlock nb'' c')))))
       else Inr c)"

fun phdr_loop :: "elf_class \<Rightarrow> note_cb \<Rightarrow> u64 \<Rightarrow> nat \<Rightarrow> core \<Rightarrow> core res" where
  "phdr_loop cls cb phdr 0 c = Inr c"
| "phdr_loop cls cb phdr (Suc n) c =
     res_bind (load_phdr cls cb phdr c) (\<lambda>c'. phdr_loop cls cb (phdr + sizeof_Phdr cls) n c')"

text \<open>\<open>actual_phnum\<close> is an \<open>int\<close>; \<open>None\<close> stands for the early \<open>return false\<close>.\<close>

definition actual_phnum :: "elf_class \<Rightarrow> core \<Rightarrow> int option res" where
  "actual_phnum cls c =
     (let a = mm_begin (mCore c) in
      res_bind (eh_phnum cls (mem c) a) (\<lambda>n.
        if n = PN_XNUM then
          res_bind (eh_shnum cls (mem c) a) (\<lambda>sn.
            if sn = 0 then Inr None
            else
              res_bind (eh_shoff cls (mem c) a) (\<lambda>so.
              res_bind (sh_info cls (mem c) (a + so)) (\<lambda>i. Inr (Some (sint (ucast i :: u32))))))
        else Inr (Some (int (unat n)))))"

definition load_elf :: "elf_class \<Rightarrow> note_cb \<Rightarrow> core \<Rightarrow> (bool \<times> core) res" where
  "load_elf cls cb c =
     res_bind (actual_phnum cls c) (\<lambda>m.
       case m of None \<Rightarrow> Inr (False, c)
       | Some n \<Rightarrow>
           res_bind (phdr_loop cls cb (mm_begin (mCore c) + sizeof_Ehdr cls) (nat n) c)
             (\<lambda>c'. Inr (True, c')))"

definition load64 :: "note_cb \<Rightarrow> core \<Rightarrow> (bool \<times> core) res" where
  "load64 = load_elf ELF64"

definition load32 :: "note_cb \<Rightarrow> core \<Rightarrow> (bool \<times> core) res" where
  "load32 = load_elf ELF32"

end
