(* ===== verification/Machines.thy ===== *)
theory Machines
  imports ElfLoad
begin

unbundle bit_operations_syntax

text \<open>
  The architectures: the \<open>load\<close> functions of core/arm64, riscv64, x86_64, arm, x86 with
  their note callbacks, core/common/elf.cpp and \<open>CoreApi::Load\<close>.
\<close>

section \<open>Note callbacks\<close>

text \<open>
  Offsets in \<open>Elf64_prstatus\<close> and \<open>Elf32_prstatus\<close> of common/prstatus.h, and the sizes of
  the \<open>Register\<close> structures the callbacks copy.
\<close>

fun pr_pid :: "elf_class \<Rightarrow> u64" where "pr_pid ELF64 = 32" | "pr_pid ELF32 = 24"
fun pr_reg :: "elf_class \<Rightarrow> u64" where "pr_reg ELF64 = 112" | "pr_reg ELF32 = 72"

fun sizeof_Register :: "machine \<Rightarrow> nat" where
  "sizeof_Register EM_AARCH64 = 272" | "sizeof_Register EM_RISCV = 256"
| "sizeof_Register EM_X86_64 = 216" | "sizeof_Register EM_ARM = 68" | "sizeof_Register EM_386 = 68"

definition sizeof_FpRegister :: nat where "sizeof_FpRegister = 528"
definition sizeof_Tls :: nat where "sizeof_Tls = 16"

definition new_thread :: "elf_class \<Rightarrow> machine \<Rightarrow> u64 \<Rightarrow> host \<Rightarrow> thread_info res" where
  "new_thread cls m pos h =
     res_bind (host_word h (pos + pr_pid cls) 4) (\<lambda>pid.
     res_bind (host_read h (pos + pr_reg cls) (sizeof_Register m)) (\<lambda>regs.
       Inr \<lparr>mPid = ucast pid, mPrs = pos, th_reg = regs, th_fpr = replicate sizeof_FpRegister 0,
            th_tls = replicate sizeof_Tls 0\<rparr>))"

text \<open>The callback of \<open>arm\<close>, \<open>x86\<close>, \<open>x86_64\<close> and \<open>riscv64\<close>: only \<open>NT_PRSTATUS\<close> is used.\<close>

definition plain_cb :: "elf_class \<Rightarrow> machine \<Rightarrow> note_cb" where
  "plain_cb cls m type pos context c =
     (if type = NT_PRSTATUS
      then res_bind (new_thread cls m pos (mem c)) (\<lambda>t. Inr (Some t, context, c))
      else Inr (None, context, c))"

text \<open>\<open>__builtin_ctzll\<close>; of 0 it is undefined in C, and 64 here.\<close>

definition ctzll :: "u64 \<Rightarrow> nat" where
  "ctzll w = length (takeWhile (\<lambda>i. \<not> bit w i) [0..<64])"

definition arm64_cb :: note_cb where
  "arm64_cb type pos context c =
     (if type = NT_PRSTATUS then
        res_bind (new_thread ELF64 EM_AARCH64 pos (mem c)) (\<lambda>t. Inr (Some t, context, c))
      else if type = NT_FPREGSET then
        (case context of None \<Rightarrow> Inr (None, None, c)
         | Some t \<Rightarrow> res_bind (host_read (mem c) pos sizeof_FpRegister)
                        (\<lambda>bs. Inr (None, Some (t\<lparr>th_fpr := bs\<rparr>), c)))
      else if type = NT_ARM_TLS then
        (case context of None \<Rightarrow> Inr (None, None, c)
         | Some t \<Rightarrow> res_bind (host_read (mem c) pos sizeof_Tls)
                        (\<lambda>bs. Inr (None, Some (t\<lparr>th_tls := bs\<rparr>), c)))
      else if type = NT_ARM_PAC_MASK then
        res_bind (host_word (mem c) pos 8) (\<lambda>dm.
        res_bind (host_word (mem c) (pos + 8) 8) (\<lambda>im.
          Inr (None, context,
               c\<lparr>data_mask := dm, insn_mask := im, vabits_mask := GENMASK_UL (ctzll dm - 1) 0\<rparr>)))
      else if type = NT_ARM_TAGGED_ADDR_CTRL then
        res_bind (host_word (mem c) pos 8) (\<lambda>v. Inr (None, context, c\<lparr>tagged_addr_ctrl := v\<rparr>))
      else if type = NT_ARM_PAC_ENABLED_KEYS then
        res_bind (host_word (mem c) pos 8) (\<lambda>v. Inr (None, context, c\<lparr>pac_enabled_keys := v\<rparr>))
      else Inr (None, context, c))"

section \<open>load of each architecture\<close>

definition DEF_VA_BITS :: u64 where "DEF_VA_BITS = 39"

definition arm64_load :: "core \<Rightarrow> (bool \<times> core) res" where
  "arm64_load c =
     (let va = (if VA_BITS c \<noteq> 0 then VA_BITS c else DEF_VA_BITS)
      in load64 arm64_cb
           (c\<lparr>pointer_mask := GENMASK_UL (64 - 1) 0, vabits_mask := GENMASK_UL (unat va - 1) 0\<rparr>))"

definition riscv64_load :: "core \<Rightarrow> (bool \<times> core) res" where
  "riscv64_load c =
     load64 (plain_cb ELF64 EM_RISCV)
       (c\<lparr>pointer_mask := GENMASK_UL (64 - 1) 0, vabits_mask := GENMASK_UL (64 - 1) 0\<rparr>)"

definition x86_64_load :: "core \<Rightarrow> (bool \<times> core) res" where
  "x86_64_load c =
     load64 (plain_cb ELF64 EM_X86_64)
       (c\<lparr>pointer_mask := GENMASK_UL (64 - 1) 0, vabits_mask := GENMASK_UL (64 - 1) 0\<rparr>)"

definition arm_load :: "core \<Rightarrow> (bool \<times> core) res" where
  "arm_load c =
     load32 (plain_cb ELF32 EM_ARM)
       (c\<lparr>pointer_mask := GENMASK_UL (32 - 1) 0, vabits_mask := GENMASK_UL (32 - 1) 0\<rparr>)"

definition x86_load :: "core \<Rightarrow> (bool \<times> core) res" where
  "x86_load c =
     load32 (plain_cb ELF32 EM_386)
       (c\<lparr>pointer_mask := GENMASK_UL (32 - 1) 0, vabits_mask := GENMASK_UL (32 - 1) 0\<rparr>)"

fun machine_load :: "machine \<Rightarrow> core \<Rightarrow> (bool \<times> core) res" where
  "machine_load EM_AARCH64 = arm64_load" | "machine_load EM_RISCV = riscv64_load"
| "machine_load EM_X86_64 = x86_64_load" | "machine_load EM_ARM = arm_load"
| "machine_load EM_386 = x86_load"

section \<open>core/common/elf.cpp\<close>

definition ET_DYN :: u64 where "ET_DYN = 3"
definition ET_CORE :: u64 where "ET_CORE = 4"

text \<open>\<open>ElfHeader::CheckLibrary\<close> on the header at host address \<open>a\<close>.\<close>

definition CheckLibrary :: "core \<Rightarrow> u64 \<Rightarrow> bool res" where
  "CheckLibrary c a =
     res_bind (host_read (mem c) a 4) (\<lambda>ident.
       if ident \<noteq> ELFMAG then Inr False
       else
         res_bind (host_word (mem c) (a + 16) 2) (\<lambda>ty.
           if ty \<noteq> ET_DYN then Inr False
           else
             res_bind (host_word (mem c) (a + 18) 2) (\<lambda>m. Inr (m = ucast (getMachine (core_machine c))))))"

definition ToMachineName :: "u16 \<Rightarrow> string" where
  "ToMachineName m =
     (if m = 183 then ''arm64'' else if m = 243 then ''riscv64'' else if m = 62 then ''x86_64''
      else if m = 40 then ''arm'' else if m = 3 then ''x86'' else to_string (unat m))"

section \<open>CoreApi::Load\<close>

definition machine_of :: "u64 \<Rightarrow> machine option" where
  "machine_of m =
     (if m = 183 then Some EM_AARCH64 else if m = 243 then Some EM_RISCV
      else if m = 62 then Some EM_X86_64 else if m = 40 then Some EM_ARM
      else if m = 3 then Some EM_386 else None)"

text \<open>The callback \<open>bind_file\<close>.\<close>

definition bind_file :: "core_file \<Rightarrow> core \<Rightarrow> bool \<times> core" where
  "bind_file f c =
     (case findLoadBlock (cf_begin f) False c of
        Some i \<Rightarrow>
          (False, if mVaddr (blk c i) = cf_begin f
                  then c\<lparr>blocks := (blocks c)[i := LoadBlock_setFile (cf_name f) (cf_offset f) (blk c i)]\<rparr>
                  else c)
      | None \<Rightarrow> (False, c))"

text \<open>
  \<open>Load(map, remote, callback)\<close>: \<open>inst\<close> is \<open>INSTANCE\<close> before the call. A machine that is not
  supported leaves it as it was. The result is the returned flag and \<open>INSTANCE\<close>; the
  user's callback is not modelled.
\<close>

definition Core_Load ::
  "bool \<Rightarrow> u64 \<Rightarrow> bool \<Rightarrow> memory_map option \<Rightarrow> host \<Rightarrow> core option \<Rightarrow> (bool \<times> core option) res" where
  "Core_Load quick va remote mp h inst =
     (case mp of None \<Rightarrow> Inr (False, inst)
      | Some m \<Rightarrow>
          res_bind (host_read h (mm_begin m) 4) (\<lambda>ident.
            if ident \<noteq> ELFMAG then Inr (False, inst)
            else
              res_bind (host_word h (mm_begin m + 16) 2) (\<lambda>ty.
                if ty \<noteq> ET_CORE then Inr (False, inst)
                else
                  res_bind (host_word h (mm_begin m + 18) 2) (\<lambda>ma.
                    (let inst' = (case machine_of ma of Some k \<Rightarrow> Some (new_core k m quick va h)
                                  | None \<Rightarrow> inst)
                     in case inst' of None \<Rightarrow> Inr (False, None)
                        | Some c0 \<Rightarrow>
                            res_bind (machine_load (core_machine c0) (c0\<lparr>mRemote := remote\<rparr>)) (\<lambda>(ok, c1).
                              if ok then Inr (True, Some (foreachFile bind_file c1 c1))
                              else Inr (False, Some c1)))))))"

definition Core_Load_file ::
  "os_env \<Rightarrow> bool \<Rightarrow> u64 \<Rightarrow> bool \<Rightarrow> string \<Rightarrow> host \<Rightarrow> core option \<Rightarrow> (bool \<times> core option) res" where
  "Core_Load_file os quick va remote corefile h inst =
     (case MmapFile os h corefile of (mp, h') \<Rightarrow> Core_Load quick va remote mp h' inst)"

end
