(* ===== verification/Zip.thy ===== *)
theory Zip
  imports Blocks
begin

unbundle bit_operations_syntax

text \<open>
  Zip archives: utils/zip/zip_entry.h, zip_entry.cpp (\<open>ZipEntry\<close>) and zip_file.h,
  zip_file.cpp (\<open>ZipFile\<close>). A \<open>FILE*\<close> is the list of bytes of the file and a position;
  the result of an operation is its \<open>status_t\<close>, here \<open>None\<close> for a status other than 0.
\<close>

section \<open>Buffers\<close>

definition getShortLE :: "u8 list \<Rightarrow> nat \<Rightarrow> u16" where
  "getShortLE buf i = ucast (buf ! i) OR push_bit 8 (ucast (buf ! (i + 1)))"

definition getLongLE :: "u8 list \<Rightarrow> nat \<Rightarrow> u32" where
  "getLongLE buf i =
     ucast (buf ! i) OR push_bit 8 (ucast (buf ! (i + 1))) OR push_bit 16 (ucast (buf ! (i + 2)))
     OR push_bit 24 (ucast (buf ! (i + 3)))"

text \<open>\<open>fread(buf, 1, n, fp) != n\<close> is \<open>None\<close>; otherwise the bytes and the new position.\<close>

definition zfread :: "u8 list \<Rightarrow> nat \<Rightarrow> nat \<Rightarrow> (u8 list \<times> nat) option" where
  "zfread file pos n = (if pos + n \<le> length file then Some (take n (drop pos file), pos + n) else None)"

section \<open>Headers\<close>

record local_file_header =
  lfh_version :: u16
  lfh_flag :: u16
  lfh_method :: u16
  lfh_time :: u16
  lfh_date :: u16
  lfh_crc :: u32
  lfh_csize :: u32
  lfh_usize :: u32
  lfh_name_len :: u16
  lfh_extra_len :: u16
  lfh_name :: "u8 list option"
  lfh_extra :: "u8 list option"

record central_dir_entry =
  cde_made_by :: u16
  cde_to_extract :: u16
  cde_flag :: u16
  cde_method :: u16
  cde_time :: u16
  cde_date :: u16
  cde_crc :: u32
  cde_csize :: u32
  cde_usize :: u32
  cde_name_len :: u16
  cde_extra_len :: u16
  cde_comment_len :: u16
  cde_disk :: u16
  cde_int_attrs :: u16
  cde_ext_attrs :: u32
  cde_lho :: u32
  cde_name :: "u8 list option"
  cde_extra :: "u8 list option"

record zip_entry =
  mCDE :: central_dir_entry
  mLFH :: local_file_header

definition kLFHLen :: nat where "kLFHLen = 30"
definition kLFHSigNature :: u32 where "kLFHSigNature = 0x04034b50"
definition kCDELen :: nat where "kCDELen = 46"
definition kCDESignature :: u32 where "kCDESignature = 0x02014b50"

text \<open>The optional name and extra field that follow a header.\<close>

definition read_field :: "u8 list \<Rightarrow> nat \<Rightarrow> u16 \<Rightarrow> (u8 list option \<times> nat) option" where
  "read_field file pos len =
     (if len \<noteq> 0 then map_option (\<lambda>(bs, p). (Some bs, p)) (zfread file pos (unat len))
      else Some (None, pos))"

definition LocalFileHeader_read :: "u8 list \<Rightarrow> nat \<Rightarrow> (local_file_header \<times> nat) option" where
  "LocalFileHeader_read file pos =
     Option.bind (zfread file pos kLFHLen) (\<lambda>(buf, p1).
       if getLongLE buf 0x00 \<noteq> kLFHSigNature then None
       else
         (let nlen = getShortLE buf 0x1a; xlen = getShortLE buf 0x1c in
          Option.bind (read_field file p1 nlen) (\<lambda>(nm, p2).
          Option.bind (read_field file p2 xlen) (\<lambda>(ex, p3).
            Some (\<lparr>lfh_version = getShortLE buf 0x04, lfh_flag = getShortLE buf 0x06,
                   lfh_method = getShortLE buf 0x08, lfh_time = getShortLE buf 0x0a,
                   lfh_date = getShortLE buf 0x0c, lfh_crc = getLongLE buf 0x0e,
                   lfh_csize = getLongLE buf 0x12, lfh_usize = getLongLE buf 0x16,
                   lfh_name_len = nlen, lfh_extra_len = xlen, lfh_name = nm, lfh_extra = ex\<rparr>, p3)))))"

text \<open>
  \<open>CentralDirEntry::read\<close>. The comment field is not read. After the extra field the code
  terminates the name a second time, which without a name writes through a null pointer:
  that outcome is the error \<open>HostFault 0\<close>.
\<close>

definition CentralDirEntry_read :: "u8 list \<Rightarrow> nat \<Rightarrow> (central_dir_entry \<times> nat) option res" where
  "CentralDirEntry_read file pos =
     (case zfread file pos kCDELen of
        None \<Rightarrow> Inr None
      | Some (buf, p1) \<Rightarrow>
          if getLongLE buf 0x00 \<noteq> kCDESignature then Inr None
          else
            (let nlen = getShortLE buf 0x1c; xlen = getShortLE buf 0x1e in
             case read_field file p1 nlen of None \<Rightarrow> Inr None
             | Some (nm, p2) \<Rightarrow>
                 (case read_field file p2 xlen of None \<Rightarrow> Inr None
                  | Some (ex, p3) \<Rightarrow>
                      if xlen \<noteq> 0 \<and> nm = None then Inl (HostFault 0)
                      else
                        Inr (Some
                          (\<lparr>cde_made_by = getShortLE buf 0x04, cde_to_extract = getShortLE buf 0x06,
                            cde_flag = getShortLE buf 0x08, cde_method = getShortLE buf 0x0a,
                            cde_time = getShortLE buf 0x0c, cde_date = getShortLE buf 0x0e,
                            cde_crc = getLongLE buf 0x10, cde_csize = getLongLE buf 0x14,
                            cde_usize = getLongLE buf 0x18, cde_name_len = nlen,
                            cde_extra_len = xlen, cde_comment_len = getShortLE buf 0x20,
                            cde_disk = getShortLE buf 0x22, cde_int_attrs = getShortLE buf 0x24,
                            cde_ext_attrs = getLongLE buf 0x26, cde_lho = getLongLE buf 0x2a,
                            cde_name = nm, cde_extra = ex\<rparr>, p3)))))"

text \<open>\<open>initFromCDE\<close>: the entry and the position of the next one. A seek past the end succeeds.\<close>

definition initFromCDE :: "u8 list \<Rightarrow> nat \<Rightarrow> (zip_entry \<times> nat) option res" where
  "initFromCDE file pos =
     res_bind (CentralDirEntry_read file pos) (\<lambda>r.
       case r of None \<Rightarrow> Inr None
       | Some (cde, posn) \<Rightarrow>
           (case LocalFileHeader_read file (unat (cde_lho cde)) of None \<Rightarrow> Inr None
            | Some (lfh, _) \<Rightarrow> Inr (Some (\<lparr>mCDE = cde, mLFH = lfh\<rparr>, posn))))"

text \<open>
  The sums are \<open>uint32_t\<close> (two 16-bit lengths, an enumeration constant and one 32-bit field) and wrap
  around at \<open>2^32\<close> before they become an \<open>off_t\<close>.
\<close>

definition getFileOffset :: "zip_entry \<Rightarrow> nat" where
  "getFileOffset e = unat (cde_lho (mCDE e) + of_nat kLFHLen + ucast (lfh_name_len (mLFH e))
     + ucast (lfh_extra_len (mLFH e)))"

definition getLHFOffset :: "zip_entry \<Rightarrow> nat" where
  "getLHFOffset e = unat (cde_lho (mCDE e))"

definition getEntryTotalMemsz :: "zip_entry \<Rightarrow> nat" where
  "getEntryTotalMemsz e = unat (of_nat kLFHLen + ucast (lfh_name_len (mLFH e)) + ucast (lfh_extra_len (mLFH e))
     + lfh_csize (mLFH e))"

definition IsUncompressed :: "zip_entry \<Rightarrow> bool" where
  "IsUncompressed e \<longleftrightarrow> cde_method (mCDE e) = 0"

section \<open>ZipFile\<close>

record end_of_central_dir =
  eo_disk :: u16
  eo_disk_cd :: u16
  eo_num :: u16
  eo_total :: u16
  eo_cd_size :: u32
  eo_cd_offset :: u32
  eo_comment_len :: u16

definition kEOCDSignature :: u32 where "kEOCDSignature = 0x06054b50"
definition kEOCDLen :: nat where "kEOCDLen = 22"
definition kMaxEOCDSearch :: nat where "kMaxEOCDSearch = 65535 + 22"

text \<open>
  \<open>EndOfCentralDir::readbuf\<close> on the tail of the search buffer. A tail shorter than the
  record is only logged; the bytes past it are \<open>junk\<close>, whatever the heap held.
\<close>

definition EOCD_readbuf :: "u8 list \<Rightarrow> end_of_central_dir option" where
  "EOCD_readbuf buf =
     (if getLongLE buf 0x00 \<noteq> kEOCDSignature then None
      else Some \<lparr>eo_disk = getShortLE buf 0x04, eo_disk_cd = getShortLE buf 0x06,
                 eo_num = getShortLE buf 0x08, eo_total = getShortLE buf 0x0a,
                 eo_cd_size = getLongLE buf 0x0c, eo_cd_offset = getLongLE buf 0x10,
                 eo_comment_len = getShortLE buf 0x14\<rparr>)"

text \<open>The backward search for the signature, from position \<open>n - 1\<close> down.\<close>

fun eocd_search :: "u8 list \<Rightarrow> nat \<Rightarrow> nat option" where
  "eocd_search buf 0 = None"
| "eocd_search buf (Suc i) =
     (if buf ! i = 0x50 \<and> getLongLE buf i = kEOCDSignature then Some i else eocd_search buf i)"

fun read_entries :: "u8 list \<Rightarrow> nat \<Rightarrow> nat \<Rightarrow> (zip_entry list \<times> nat) option res" where
  "read_entries file pos 0 = Inr (Some ([], pos))"
| "read_entries file pos (Suc n) =
     res_bind (initFromCDE file pos) (\<lambda>r.
       case r of None \<Rightarrow> Inr None
       | Some (e, p) \<Rightarrow>
           res_bind (read_entries file p n) (\<lambda>s. Inr (map_option (\<lambda>(es, p'). (e # es, p')) s)))"

definition readCentralDir :: "u8 list \<Rightarrow> u8 list \<Rightarrow> zip_entry list option res" where
  "readCentralDir junk file =
     (if length file < kEOCDLen then Inr None
      else
        (let readAmount = min (length file) kMaxEOCDSearch;
             buf = drop (length file - readAmount) file
         in case eocd_search buf (readAmount - 3) of None \<Rightarrow> Inr None
            | Some i \<Rightarrow>
                (case EOCD_readbuf (drop i buf @ junk) of None \<Rightarrow> Inr None
                 | Some eo \<Rightarrow>
                     if eo_disk eo \<noteq> 0 \<or> eo_disk_cd eo \<noteq> 0 \<or> eo_num eo \<noteq> eo_total eo then Inr None
                     else
                       res_bind (read_entries file (unat (eo_cd_offset eo)) (unat (eo_total eo))) (\<lambda>r.
                         case r of None \<Rightarrow> Inr None
                         | Some (es, p) \<Rightarrow>
                             (case zfread file p 4 of None \<Rightarrow> Inr None
                              | Some (checkBuf, _) \<Rightarrow>
                                  if getLongLE checkBuf 0 \<noteq> kEOCDSignature then Inr None
                                  else Inr (Some es))))))"

text \<open>\<open>open\<close>: \<open>None\<close> when the file does not exist or is refused.\<close>

definition ZipFile_open :: "os_env \<Rightarrow> u8 list \<Rightarrow> string \<Rightarrow> zip_entry list option res" where
  "ZipFile_open os junk name =
     (case os_file os name of None \<Rightarrow> Inr None | Some file \<Rightarrow> readCentralDir junk file)"

text \<open>The name as a C string; an entry without a name compares a null pointer.\<close>

definition entry_name :: "zip_entry \<Rightarrow> string option" where
  "entry_name e =
     map_option (\<lambda>bs. map (\<lambda>b. char_of (unat b)) (takeWhile (\<lambda>b. b \<noteq> 0) bs)) (cde_name (mCDE e))"

fun find_entry :: "string \<Rightarrow> zip_entry list \<Rightarrow> zip_entry option res" where
  "find_entry nm [] = Inr None"
| "find_entry nm (e # es) =
     (case entry_name e of None \<Rightarrow> Inl (HostFault 0)
      | Some s \<Rightarrow> if nm = s then Inr (Some e) else find_entry nm es)"

definition getEntryByName :: "string \<Rightarrow> zip_entry list \<Rightarrow> zip_entry option res" where
  "getEntryByName nm es = find_entry nm (rev es)"

definition getEntryByIndex :: "int \<Rightarrow> zip_entry list \<Rightarrow> zip_entry option" where
  "getEntryByIndex idx es = (if idx \<ge> 0 \<and> idx < int (length es) then Some (es ! nat idx) else None)"

end
