(* ===== verification/Libraries.thy ===== *)
theory Libraries
  imports Machines Zip "HOL-Library.Monad_Syntax"
begin

unbundle bit_operations_syntax

text \<open>
  Libraries of the target: the link map list of the dynamic linker, mapping library files
  over their segments and reading their symbol tables (core/lp64/core.cpp,
  core/lp32/core.cpp), \<open>LinkMap::ReadSymbols\<close> of core/common/link_map.cpp, and the operations
  of core/api/core.cpp that walk the link maps. The search for files
  (\<open>Utils::SearchFile\<close>) and the xz decoder are parameters; the dwarf loader that a link map starts is modelled by
  itself in the theory \<open>DwarfInfo\<close>.
\<close>

section \<open>The link map list\<close>

fun class_of :: "machine \<Rightarrow> elf_class" where
  "class_of EM_AARCH64 = ELF64" | "class_of EM_RISCV = ELF64" | "class_of EM_X86_64 = ELF64"
| "class_of EM_ARM = ELF32" | "class_of EM_386 = ELF32"

text \<open>
  The \<open>while (map)\<close> loop of \<open>loadLinkMap64\<close> and \<open>loadLinkMap32\<close>, with its \<open>catch\<close>: an invalid address
  ends it and keeps the link maps found so far. A cyclic list never ends, which is \<open>None\<close>.
\<close>

partial_function (option) link_loop :: "elf_class \<Rightarrow> u64 \<Rightarrow> core \<Rightarrow> core res option" where
  "link_loop cls m c =
     (if m = 0 then Some (Inr c)
      else
        (case GetReal m c of
           Inl (InvalidAddressException a) \<Rightarrow> Some (Inr c)
         | Inl (HostFault a) \<Rightarrow> Some (Inl (HostFault a))
         | Inr link \<Rightarrow>
             (case addLinkMap m c of
                Inl (InvalidAddressException a) \<Rightarrow> Some (Inr c)
              | Inl (HostFault a) \<Rightarrow> Some (Inl (HostFault a))
              | Inr c' \<Rightarrow>
                  (case host_word (mem c') (link + 3 * of_nat (ptr_size cls)) (ptr_size cls) of
                     Inl e \<Rightarrow> Some (Inl e)
                   | Inr m' \<Rightarrow> link_loop cls m' c'))))"

definition loadLinkMap :: "elf_class \<Rightarrow> core \<Rightarrow> core res option" where
  "loadLinkMap cls c =
     (case GetDebug c of Inl e \<Rightarrow> Some (Inl e)
      | Inr (debug, c1) \<Rightarrow>
          if ref_vaddr debug = 0 then Some (Inr c1)
          else
            (case Real c1 debug of
               Inl (InvalidAddressException a) \<Rightarrow> Some (Inr c1)
             | Inl (HostFault a) \<Rightarrow> Some (Inl (HostFault a))
             | Inr (dbg, _) \<Rightarrow>
                 (case host_word (mem c1) (dbg + of_nat (ptr_size cls)) (ptr_size cls) of
                    Inl e \<Rightarrow> Some (Inl e)
                  | Inr m \<Rightarrow> link_loop cls m c1)))"

definition loadLinkMap64 :: "core \<Rightarrow> core res option" where "loadLinkMap64 = loadLinkMap ELF64"
definition loadLinkMap32 :: "core \<Rightarrow> core res option" where "loadLinkMap32 = loadLinkMap ELF32"

text \<open>
  \<open>foreachLinkMap\<close>: the list is read on first use; an invalid address on the way is
  swallowed. The callback gets the position of the link map and the core, and returns
  whether to stop, the core, and its own state.
\<close>

fun link_walk :: "(nat \<Rightarrow> core \<Rightarrow> 's \<Rightarrow> (bool \<times> core \<times> 's) res) \<Rightarrow> nat list \<Rightarrow> core \<Rightarrow> 's \<Rightarrow> (core \<times> 's) res" where
  "link_walk f [] c s = Inr (c, s)"
| "link_walk f (i # is) c s =
     res_bind (f i c s) (\<lambda>(stop, c', s'). if stop then Inr (c', s') else link_walk f is c' s')"

definition foreachLinkMap ::
  "(nat \<Rightarrow> core \<Rightarrow> 's \<Rightarrow> (bool \<times> core \<times> 's) res) \<Rightarrow> core \<Rightarrow> 's \<Rightarrow> (core \<times> 's) res option" where
  "foreachLinkMap f c s =
     (case (if mLinkMaps c = [] then
              (case loadLinkMap (class_of (core_machine c)) c of
                 None \<Rightarrow> None
               | Some (Inl (InvalidAddressException a)) \<Rightarrow> Some (Inr c)
               | Some r \<Rightarrow> Some r)
            else Some (Inr c)) of
        None \<Rightarrow> None
      | Some r \<Rightarrow> Some (res_bind r (\<lambda>c'. link_walk f [0..<length (mLinkMaps c')] c' s)))"

text \<open>An accessor of the \<open>i\<close>-th link map that may fill its caches.\<close>

definition on_link :: "nat \<Rightarrow> (core \<Rightarrow> link_map \<Rightarrow> ('a \<times> link_map) res) \<Rightarrow> core \<Rightarrow> ('a \<times> core) res" where
  "on_link i f c =
     res_bind (f c (mLinkMaps c ! i)) (\<lambda>(v, lm). Inr (v, c\<lparr>mLinkMaps := (mLinkMaps c)[i := lm]\<rparr>))"

definition Core_DlSym :: "string \<Rightarrow> core \<Rightarrow> (core \<times> u64) res option" where
  "Core_DlSym symbol c =
     foreachLinkMap (\<lambda>i c _.
       res_bind (on_link i (\<lambda>c. LinkMap_DlSym c symbol) c) (\<lambda>(val, c1).
         if val \<noteq> 0 then
           res_bind (on_link i LinkMap_l_addr c1) (\<lambda>(laddr, c2). Inr (True, c2, val + laddr))
         else Inr (False, c1, val))) c 0"

text \<open>\<open>std::filesystem::path::filename\<close>: what follows the last slash.\<close>

definition path_filename :: "string \<Rightarrow> string" where
  "path_filename p = rev (takeWhile (\<lambda>ch. ch \<noteq> CHR ''/'') (rev p))"

text \<open>The callback of \<open>FindLinkMap\<close>: the state is \<open>handle\<close> and \<open>second\<close>.\<close>

definition find_link_cb ::
  "string \<Rightarrow> nat \<Rightarrow> core \<Rightarrow> nat option \<times> nat option \<Rightarrow> (bool \<times> core \<times> nat option \<times> nat option) res" where
  "find_link_cb path i c s =
     (let file = path_filename path in
      res_bind (on_link i LinkMap_name c) (\<lambda>(nm, c1).
        (let (handle, second) = s;
             handle1 = (if nm = path then Some i else handle);
             second1 = (if str_contains file nm then Some i else second)
         in res_bind (on_link i LinkMap_block c1) (\<lambda>(b, c2).
              (let (handle2, second2) =
                 (case b of None \<Rightarrow> (handle1, second1)
                  | Some k \<Rightarrow>
                      if mMmap (blk c2 k) \<noteq> None then
                        (let bn = LoadBlock_name (blk c2 k); same = (file = path_filename bn)
                         in (if str_contains path bn \<and> same then Some i else handle1,
                             if str_contains file bn \<and> same then Some i else second1))
                      else (handle1, second1))
               in Inr (handle2 \<noteq> None, c2, handle2, second2))))))"

definition FindLinkMap :: "string \<Rightarrow> core \<Rightarrow> (core \<times> nat option) res option" where
  "FindLinkMap path c =
     map_option (\<lambda>r. res_bind r (\<lambda>(c', handle, second).
         Inr (c', if handle \<noteq> None then handle else second)))
       (foreachLinkMap (find_link_cb path) c (None, None))"

definition Core_DlSym_in :: "string \<Rightarrow> string \<Rightarrow> core \<Rightarrow> (core \<times> u64) res option" where
  "Core_DlSym_in path symbol c =
     map_option (\<lambda>r. res_bind r (\<lambda>(c1, handle).
         case handle of None \<Rightarrow> Inr (c1, 0)
         | Some i \<Rightarrow>
             res_bind (on_link i (\<lambda>c. LinkMap_DlSym c symbol) c1) (\<lambda>(val, c2).
               if val \<noteq> 0 then res_bind (on_link i LinkMap_l_addr c2) (\<lambda>(laddr, c3). Inr (c3, laddr + val))
               else Inr (c2, 0))))
       (FindLinkMap path c)"

section \<open>Mapping a library over its segments\<close>

text \<open>\<open>block->setMmapFile(file, off); if (handle) block->bind(handle)\<close> on store index \<open>i\<close>.\<close>

definition map_block :: "os_env \<Rightarrow> nat \<Rightarrow> string \<Rightarrow> u64 \<Rightarrow> nat option \<Rightarrow> core \<Rightarrow> core res" where
  "map_block os i file off handle c =
     res_bind (setMmapFile os (mem c) file off (blk c i)) (\<lambda>(b, h).
       (let b' = (if handle \<noteq> None then b\<lparr>mLinkMap := handle\<rparr> else b)
        in Inr (c\<lparr>blocks := (blocks c)[i := b'], mem := h\<rparr>)))"

definition vma_offset :: "u64 \<Rightarrow> u64 \<Rightarrow> core \<Rightarrow> u64" where
  "vma_offset addr page_offset c =
     (case FindFile addr c of None \<Rightarrow> page_offset
      | Some vma \<Rightarrow> if page_offset \<noteq> cf_offset vma then cf_offset vma else page_offset)"

text \<open>The inner loop "continue mmap". A size that wraps around would loop: it faults.\<close>

function mmap_rest ::
  "os_env \<Rightarrow> elf_class \<Rightarrow> string \<Rightarrow> nat option \<Rightarrow> u64 \<Rightarrow> u64 \<Rightarrow> u64 \<Rightarrow> u64 \<Rightarrow> core \<Rightarrow> core res" where
  "mmap_rest os cls file handle current page_offset mem_size cur_size c =
     (if cur_size < mem_size then
        (let next = trunc cls (current + cur_size);
             next_page_offset = trunc cls (page_offset + cur_size)
         in case findLoadBlock next False c of
              None \<Rightarrow> Inr c
            | Some i \<Rightarrow>
                (let cur' = trunc cls (cur_size + mMemSize (blk c i)) in
                 case (if \<not> CheckCanMmap (findAuxv AT_SYSINFO_EHDR c) next (blk c i) then Inr c
                       else map_block os i file (trunc cls (vma_offset next next_page_offset c)) handle c) of
                   Inl e \<Rightarrow> Inl e
                 | Inr c' \<Rightarrow>
                     if cur_size < cur'
                     then mmap_rest os cls file handle current page_offset mem_size cur' c'
                     else Inl (HostFault next)))
      else Inr c)"
  by pat_completeness auto
termination
proof (relation "measure (\<lambda>(os, cls, file, handle, cu, po, ms, cur, c). 2 ^ 64 - unat cur)", goal_cases)
  case (2 os cls fname handle current page_offset mem_size cur_size c nxt npo i cur' c')
  then show ?case using unat_u64_less [of cur'] by (simp add: word_less_nat_alt)
qed simp

declare mmap_rest.simps [simp del]

datatype loop_exit = Continue | Return

text \<open>
  One \<open>PT_LOAD\<close> header of \<open>loader_dlopen64\<close>; \<open>idx\<close> counts them. The result tells whether the
  loop goes on and the new status.
\<close>

definition PF_W :: u64 where "PF_W = 2"

definition loader_phdr ::
  "os_env \<Rightarrow> elf_class \<Rightarrow> memory_map \<Rightarrow> nat option \<Rightarrow> u64 \<Rightarrow> string \<Rightarrow> elf_phdr \<Rightarrow> nat \<Rightarrow> bool \<Rightarrow> core
     \<Rightarrow> (loop_exit \<times> bool \<times> core) res" where
  "loader_phdr os cls mp handle addr file p idx status c0 =
     (if ph_flags p AND PF_W \<noteq> 0 \<or> ph_filesz p = 0 then Inr (Continue, status, c0)
      else
        (let (psz, c) = getPageSize c0;
             current = trunc cls (addr + RoundDown (ph_vaddr p) psz);
             page_offset = trunc cls (RoundDown (ph_offset p + mm_offset mp) psz)
         in case findLoadBlock current False c of
              None \<Rightarrow> Inr (Continue, status, c)
            | Some i \<Rightarrow>
                res_bind
                  (case handle of
                     Some k \<Rightarrow>
                       if idx = 1 \<and> current = mVaddr (blk c i) then
                         res_bind (on_link k GetAddrCache c) (\<lambda>(_, c').
                           Inr (c'\<lparr>mLinkMaps := (mLinkMaps c')
                                      [k := (mLinkMaps c' ! k)\<lparr>addr_cache := new_memory_ref current\<rparr>]\<rparr>))
                       else Inr c
                   | None \<Rightarrow> Inr c) (\<lambda>c1.
                  if \<not> CheckCanMmap (findAuxv AT_SYSINFO_EHDR c1) current (blk c1 i)
                  then Inr (Continue, status, c1)
                  else
                    (let po = trunc cls (vma_offset current page_offset c1);
                         end_off = trunc cls (RoundUp (ph_offset p + mm_offset mp + ph_memsz p) (ph_align p))
                     in if end_off < po then Inr (Return, status, c1)
                        else
                          (let mem_size = end_off - po; memsz = mMemSize (blk c1 i) in
                           if mem_size \<ge> memsz then
                             res_bind (map_block os i file po handle c1) (\<lambda>c2.
                               if mem_size > memsz then
                                 res_bind (mmap_rest os cls file handle current po mem_size (trunc cls memsz) c2)
                                   (\<lambda>c3. Inr (Continue, True, c3))
                               else Inr (Continue, True, c2))
                           else Inr (Return, status, c1))))))"

fun loader_loop ::
  "os_env \<Rightarrow> elf_class \<Rightarrow> memory_map \<Rightarrow> nat option \<Rightarrow> u64 \<Rightarrow> string \<Rightarrow> u64 \<Rightarrow> nat \<Rightarrow> nat \<Rightarrow> bool \<Rightarrow> core
     \<Rightarrow> (bool \<times> core) res" where
  "loader_loop os cls mp handle addr file phdr 0 idx status c = Inr (status, c)"
| "loader_loop os cls mp handle addr file phdr (Suc n) idx status c =
     res_bind (ph_type (mem c) phdr) (\<lambda>ty.
       if ty \<noteq> PT_LOAD
       then loader_loop os cls mp handle addr file (phdr + sizeof_Phdr cls) n idx status c
       else
         res_bind (read_Phdr cls (mem c) phdr) (\<lambda>p.
         res_bind (loader_phdr os cls mp handle addr file p (Suc idx) status c) (\<lambda>(ex, status', c').
           case ex of Return \<Rightarrow> Inr (status', c')
           | Continue \<Rightarrow>
               loader_loop os cls mp handle addr file (phdr + sizeof_Phdr cls) n (Suc idx) status' c')))"

definition loader_dlopen ::
  "elf_class \<Rightarrow> os_env \<Rightarrow> memory_map \<Rightarrow> nat option \<Rightarrow> u64 \<Rightarrow> string \<Rightarrow> core \<Rightarrow> (bool \<times> core) res" where
  "loader_dlopen cls os mp handle addr file c =
     (if addr = 0 then Inr (False, c)
      else
        res_bind (eh_phnum cls (mem c) (mm_begin mp)) (\<lambda>n.
          loader_loop os cls mp handle addr file (mm_begin mp + sizeof_Ehdr cls) (unat n) 0 False c))"

definition loader_dlopen64 ::
  "os_env \<Rightarrow> memory_map \<Rightarrow> nat option \<Rightarrow> u64 \<Rightarrow> string \<Rightarrow> core \<Rightarrow> (bool \<times> core) res" where
  "loader_dlopen64 = loader_dlopen ELF64"

definition loader_dlopen32 ::
  "os_env \<Rightarrow> memory_map \<Rightarrow> nat option \<Rightarrow> u64 \<Rightarrow> string \<Rightarrow> core \<Rightarrow> (bool \<times> core) res" where
  "loader_dlopen32 os mp handle addr = loader_dlopen ELF32 os mp handle (trunc ELF32 addr)"

section \<open>exec and dlopen\<close>

definition exec_file :: "elf_class \<Rightarrow> os_env \<Rightarrow> u64 \<Rightarrow> string \<Rightarrow> core \<Rightarrow> (bool \<times> core) res" where
  "exec_file cls os phdr file c =
     (case MmapFile os (mem c) file of
        (None, h) \<Rightarrow> Inr (False, c\<lparr>mem := h\<rparr>)
      | (Some mp, h) \<Rightarrow>
          (let c1 = c\<lparr>mem := h\<rparr>; pt = mm_begin mp + sizeof_Ehdr cls in
           res_bind (CheckLibrary c1 (mm_begin mp)) (\<lambda>lib.
             if \<not> lib then Inr (False, c1)
             else
               res_bind (ph_type h pt) (\<lambda>ty.
                 if ty \<noteq> PT_PHDR then Inr (False, c1)
                 else
                   res_bind (eh_phoff cls h (mm_begin mp)) (\<lambda>phoff.
                   res_bind (read_Phdr cls h pt) (\<lambda>p.
                     loader_dlopen cls os mp None
                       (trunc cls (phdr - phoff - (ph_vaddr p - ph_offset p))) file c1))))))"

definition exec64 :: "os_env \<Rightarrow> u64 \<Rightarrow> string \<Rightarrow> core \<Rightarrow> (bool \<times> core) res" where
  "exec64 = exec_file ELF64"

definition exec32 :: "os_env \<Rightarrow> u64 \<Rightarrow> string \<Rightarrow> core \<Rightarrow> (bool \<times> core) res" where
  "exec32 os phdr = exec_file ELF32 os (trunc ELF32 phdr)"

text \<open>
  The mapping \<open>dlopen\<close> works on: the file, or an uncompressed entry of it when a sub-file is
  named. \<open>None\<close> is \<open>return false\<close>; the mapping inside is \<open>None\<close> when \<open>mmap\<close> failed.
\<close>

definition dlopen_map ::
  "os_env \<Rightarrow> u8 list \<Rightarrow> string \<Rightarrow> string option \<Rightarrow> host \<Rightarrow> (memory_map option option \<times> host) res" where
  "dlopen_map os junk file subfile h =
     (case MmapFile os h file of (mp, h1) \<Rightarrow>
        (case subfile of None \<Rightarrow> Inr (Some mp, h1)
         | Some sub \<Rightarrow>
             res_bind (ZipFile_open os junk file) (\<lambda>z.
               case z of None \<Rightarrow> Inr (None, h1)
               | Some es \<Rightarrow>
                   res_bind (getEntryByName (if sub \<noteq> [] \<and> hd sub = CHR ''/'' then tl sub else sub) es) (\<lambda>r.
                     case r of None \<Rightarrow> Inr (None, h1)
                     | Some e \<Rightarrow>
                         if \<not> IsUncompressed e then Inr (None, h1)
                         else
                           (case MmapFile_range os h1 file (of_nat (getEntryTotalMemsz e)) (of_nat (getFileOffset e)) of
                              (sm, h2) \<Rightarrow> Inr (Some sm, h2))))))"

definition dlopen ::
  "elf_class \<Rightarrow> os_env \<Rightarrow> u8 list \<Rightarrow> nat \<Rightarrow> string \<Rightarrow> string option \<Rightarrow> core \<Rightarrow> (bool \<times> core) res" where
  "dlopen cls os junk handle file subfile c =
     res_bind (dlopen_map os junk file subfile (mem c)) (\<lambda>(r, h).
       (let c1 = c\<lparr>mem := h\<rparr> in
        case r of None \<Rightarrow> Inr (False, c1)
        | Some None \<Rightarrow> Inr (False, c1)
        | Some (Some mp) \<Rightarrow>
            res_bind (CheckLibrary c1 (mm_begin mp)) (\<lambda>lib.
              if \<not> lib then Inr (False, c1)
              else
                res_bind (on_link handle LinkMap_l_addr c1) (\<lambda>(laddr, c2).
                  loader_dlopen cls os mp (Some handle) (trunc cls laddr) file c2))))"

definition dlopen64 ::
  "os_env \<Rightarrow> u8 list \<Rightarrow> nat \<Rightarrow> string \<Rightarrow> string option \<Rightarrow> core \<Rightarrow> (bool \<times> core) res" where
  "dlopen64 = dlopen ELF64"

definition dlopen32 ::
  "os_env \<Rightarrow> u8 list \<Rightarrow> nat \<Rightarrow> string \<Rightarrow> string option \<Rightarrow> core \<Rightarrow> (bool \<times> core) res" where
  "dlopen32 = dlopen ELF32"

section \<open>Symbol tables of a file\<close>

fun sym_entries ::
  "elf_class \<Rightarrow> host \<Rightarrow> u64 \<Rightarrow> u64 \<Rightarrow> nat \<Rightarrow> symbol_entry list \<Rightarrow> symbol_entry list res" where
  "sym_entries cls h symtab strtab 0 syms = Inr syms"
| "sym_entries cls h symtab strtab (Suc n) syms =
     res_bind (sy_value cls h symtab) (\<lambda>val.
     res_bind (sy_size cls h symtab) (\<lambda>sz.
     res_bind
       (if val \<noteq> 0 \<and> sz \<noteq> 0 then
          res_bind (sy_info cls h symtab) (\<lambda>info.
          res_bind (sy_name cls h symtab) (\<lambda>nm.
          res_bind (c_string h (strtab + nm)) (\<lambda>s.
            Inr (if s \<noteq> [] \<and> (hd s = CHR ''$'' \<or> hd s = CHR ''.'') then syms
                 else symbols_insert \<lparr>se_offset = val, se_type = info, se_size = sz, se_symbol = s\<rparr> syms))))
        else Inr syms) (\<lambda>syms'.
       sym_entries cls h (symtab + sizeof_Sym cls) strtab n syms')))"

text \<open>\<open>int count = sh_size / sh_entsize\<close>; a zero entry size is a division by zero.\<close>

definition ReadSymbolEntry ::
  "elf_class \<Rightarrow> host \<Rightarrow> memory_map \<Rightarrow> nat \<Rightarrow> nat \<Rightarrow> symbol_entry list \<Rightarrow> symbol_entry list res" where
  "ReadSymbolEntry cls h mp symndx strndx syms =
     (if symndx = 0 \<or> strndx = 0 then Inr syms
      else
        res_bind (eh_shoff cls h (mm_begin mp)) (\<lambda>shoff.
          (let shdr = (\<lambda>i. mm_begin mp + shoff + of_nat i * sizeof_Shdr cls) in
           res_bind (sh_size cls h (shdr symndx)) (\<lambda>sz.
           res_bind (sh_entsize cls h (shdr symndx)) (\<lambda>ent.
             if ent = 0 then Inl (HostFault 0)
             else
               res_bind (sh_offset cls h (shdr symndx)) (\<lambda>symoff.
               res_bind (sh_offset cls h (shdr strndx)) (\<lambda>stroff.
                 sym_entries cls h (mm_begin mp + symoff) (mm_begin mp + stroff)
                   (nat (sint (ucast (sz div ent) :: u32))) syms)))))))"

definition ReadSymbolEntry64 ::
  "host \<Rightarrow> memory_map \<Rightarrow> nat \<Rightarrow> nat \<Rightarrow> symbol_entry list \<Rightarrow> symbol_entry list res" where
  "ReadSymbolEntry64 = ReadSymbolEntry ELF64"

definition ReadSymbolEntry32 ::
  "host \<Rightarrow> memory_map \<Rightarrow> nat \<Rightarrow> nat \<Rightarrow> symbol_entry list \<Rightarrow> symbol_entry list res" where
  "ReadSymbolEntry32 = ReadSymbolEntry ELF32"

text \<open>The name of section \<open>i\<close>, \<open>None\<close> when the loop skips the section.\<close>

definition section_name :: "elf_class \<Rightarrow> host \<Rightarrow> memory_map \<Rightarrow> u64 \<Rightarrow> u64 \<Rightarrow> nat \<Rightarrow> string option res" where
  "section_name cls h mp shdr0 shstr i =
     (let shdr = shdr0 + of_nat i * sizeof_Shdr cls in
      res_bind (sh_name h shdr) (\<lambda>nm.
        (let addr = shstr + nm in
         if addr < mm_begin mp \<or> addr \<ge> mm_begin mp + mm_size mp then Inr None
         else
           res_bind (sh_type h shdr) (\<lambda>ty.
             if ty = 8 then Inr None
             else res_bind (c_string h addr) (\<lambda>s. Inr (Some s))))))"

record sym_sections =
  dynsymndx :: nat
  dynstrndx :: nat
  symtabndx :: nat
  strtabndx :: nat

fun scan_sections ::
  "elf_class \<Rightarrow> host \<Rightarrow> memory_map \<Rightarrow> u64 \<Rightarrow> u64 \<Rightarrow> nat list \<Rightarrow> sym_sections \<Rightarrow> sym_sections res" where
  "scan_sections cls h mp shdr0 shstr [] x = Inr x"
| "scan_sections cls h mp shdr0 shstr (i # is) x =
     res_bind (section_name cls h mp shdr0 shstr i) (\<lambda>r.
       scan_sections cls h mp shdr0 shstr is
         (if r = Some ''.dynsym'' then x\<lparr>dynsymndx := i\<rparr>
          else if r = Some ''.dynstr'' then x\<lparr>dynstrndx := i\<rparr>
          else if r = Some ''.symtab'' then x\<lparr>symtabndx := i\<rparr>
          else if r = Some ''.strtab'' then x\<lparr>strtabndx := i\<rparr>
          else x))"

definition ReadSymbol ::
  "elf_class \<Rightarrow> host \<Rightarrow> memory_map \<Rightarrow> symbol_entry list \<Rightarrow> symbol_entry list res" where
  "ReadSymbol cls h mp syms =
     res_bind (eh_shoff cls h (mm_begin mp)) (\<lambda>shoff.
     res_bind (eh_shstrndx cls h (mm_begin mp)) (\<lambda>strndx.
       (let shdr0 = mm_begin mp + shoff in
        res_bind (sh_offset cls h (shdr0 + strndx * sizeof_Shdr cls)) (\<lambda>shstroff.
        res_bind (eh_shnum cls h (mm_begin mp)) (\<lambda>n.
        res_bind (scan_sections cls h mp shdr0 (mm_begin mp + shstroff) [0..<unat n]
                    \<lparr>dynsymndx = 0, dynstrndx = 0, symtabndx = 0, strtabndx = 0\<rparr>) (\<lambda>x.
        res_bind (ReadSymbolEntry cls h mp (dynsymndx x) (dynstrndx x) syms) (\<lambda>syms1.
          ReadSymbolEntry cls h mp (symtabndx x) (strtabndx x) syms1)))))))"

definition ReadSymbol64 :: "host \<Rightarrow> memory_map \<Rightarrow> symbol_entry list \<Rightarrow> symbol_entry list res" where
  "ReadSymbol64 = ReadSymbol ELF64"
definition ReadSymbol32 :: "host \<Rightarrow> memory_map \<Rightarrow> symbol_entry list \<Rightarrow> symbol_entry list res" where
  "ReadSymbol32 = ReadSymbol ELF32"

fun find_debugdata :: "elf_class \<Rightarrow> host \<Rightarrow> memory_map \<Rightarrow> u64 \<Rightarrow> u64 \<Rightarrow> nat list \<Rightarrow> nat res" where
  "find_debugdata cls h mp shdr0 shstr [] = Inr 0"
| "find_debugdata cls h mp shdr0 shstr (i # is) =
     res_bind (section_name cls h mp shdr0 shstr i) (\<lambda>r.
       if r = Some ''.gnu_debugdata'' then Inr i else find_debugdata cls h mp shdr0 shstr is)"

text \<open>
  \<open>readsym64\<close> and \<open>readsym32\<close> on a link map whose block has store index \<open>k\<close>. \<open>decode\<close> stands
  for the xz codec: a mapping with the decoded bytes, \<open>None\<close> when it is not supported or
  fails. The library checks fail silently, as in the code.
\<close>

definition readsym ::
  "elf_class \<Rightarrow> os_env \<Rightarrow> (host \<Rightarrow> u64 \<Rightarrow> u64 \<Rightarrow> (memory_map \<times> host) option) \<Rightarrow> nat option \<Rightarrow> core \<Rightarrow> core res" where
  "readsym cls os decode b c =
     (case b of None \<Rightarrow> Inr c
      | Some k \<Rightarrow>
          (case mMmap (blk c k) of None \<Rightarrow> Inl (HostFault 0)
           | Some bm \<Rightarrow>
          (case MmapFile_off os (mem c) (LoadBlock_name (blk c k)) (mm_offset bm) of
             (None, h) \<Rightarrow> Inr (c\<lparr>mem := h\<rparr>)
           | (Some mp, h) \<Rightarrow>
               (let c1 = c\<lparr>mem := h\<rparr>;
                    put = (\<lambda>syms c. c\<lparr>blocks := (blocks c)[k := (blk c k)\<lparr>mSymbols := syms\<rparr>]\<rparr>)
                in
                res_bind (eh_shoff cls h (mm_begin mp)) (\<lambda>shoff.
                  if shoff > mm_size mp then Inr c1
                  else
                    (let shdr0 = mm_begin mp + shoff in
                     res_bind (eh_shstrndx cls h (mm_begin mp)) (\<lambda>strndx.
                     res_bind (sh_offset cls h (shdr0 + strndx * sizeof_Shdr cls)) (\<lambda>shstroff.
                       if shstroff > mm_size mp then Inr c1
                       else
                         res_bind (eh_shnum cls h (mm_begin mp)) (\<lambda>n.
                         res_bind (find_debugdata cls h mp shdr0 (mm_begin mp + shstroff) [0..<unat n]) (\<lambda>dbg.
                         res_bind (ReadSymbol cls h mp (mSymbols (blk c1 k))) (\<lambda>syms.
                           (let c2 = put syms c1 in
                            if dbg > 0 then
                              res_bind (sh_offset cls h (shdr0 + of_nat dbg * sizeof_Shdr cls)) (\<lambda>doff.
                              res_bind (sh_size cls h (shdr0 + of_nat dbg * sizeof_Shdr cls)) (\<lambda>dsz.
                                case decode h (mm_begin mp + doff) dsz of None \<Rightarrow> Inr c2
                                | Some (dm, h2) \<Rightarrow>
                                    (let c3 = c2\<lparr>mem := h2\<rparr> in
                                     res_bind (CheckLibrary c3 (mm_begin dm)) (\<lambda>lib.
                                       if \<not> lib then Inr c3
                                       else res_bind (ReadSymbol cls h2 dm syms) (\<lambda>syms2. Inr (put syms2 c3))))))
                            else Inr c2))))))))))))"

definition readsym64 ::
  "os_env \<Rightarrow> (host \<Rightarrow> u64 \<Rightarrow> u64 \<Rightarrow> (memory_map \<times> host) option) \<Rightarrow> nat option \<Rightarrow> core \<Rightarrow> core res" where
  "readsym64 = readsym ELF64"
definition readsym32 ::
  "os_env \<Rightarrow> (host \<Rightarrow> u64 \<Rightarrow> u64 \<Rightarrow> (memory_map \<times> host) option) \<Rightarrow> nat option \<Rightarrow> core \<Rightarrow> core res" where
  "readsym32 = readsym ELF32"

text \<open>\<open>LinkMap::ReadSymbols\<close> on the \<open>i\<close>-th link map, without the dwarf loader it starts at the end.\<close>

definition LinkMap_ReadSymbols ::
  "os_env \<Rightarrow> (host \<Rightarrow> u64 \<Rightarrow> u64 \<Rightarrow> (memory_map \<times> host) option) \<Rightarrow> nat \<Rightarrow> core \<Rightarrow> core res" where
  "LinkMap_ReadSymbols os decode i c =
     res_bind (on_link i LinkMap_block c) (\<lambda>(b, c1).
       case b of None \<Rightarrow> Inr c1
       | Some k \<Rightarrow>
           if mMmap (blk c1 k) = None then Inr c1
           else
             res_bind (CheckLibrary c1 (LoadBlock_begin OPT_READ_ALL (blk c1 k))) (\<lambda>lib.
               if \<not> lib then Inr c1
               else
                 (let c2 = c1\<lparr>blocks := (blocks c1)[k := (blk c1 k)\<lparr>mSymbols := []\<rparr>]\<rparr>
                  in readsym (class_of (core_machine c2)) os decode b c2)))"

section \<open>ExecFile and SysRoot\<close>

text \<open>\<open>strtok\<close> with one separator: the non-empty pieces.\<close>

fun split_on :: "char \<Rightarrow> string \<Rightarrow> string \<Rightarrow> string list" where
  "split_on sep acc [] = [rev acc]"
| "split_on sep acc (ch # cs) =
     (if ch = sep then rev acc # split_on sep [] cs else split_on sep (ch # acc) cs)"

definition strtok :: "char \<Rightarrow> string \<Rightarrow> string list" where
  "strtok sep s = filter (\<lambda>t. t \<noteq> []) (split_on sep [] s)"

text \<open>The loop over the directories: the first hit of \<open>Utils::SearchFile\<close>.\<close>

fun search_dirs :: "(string \<Rightarrow> string \<Rightarrow> string option) \<Rightarrow> string \<Rightarrow> string list \<Rightarrow> string option" where
  "search_dirs SearchFile nm [] = None"
| "search_dirs SearchFile nm (d # ds) =
     (case SearchFile d nm of Some p \<Rightarrow> Some p | None \<Rightarrow> search_dirs SearchFile nm ds)"

definition ExecFile :: "os_env \<Rightarrow> (string \<Rightarrow> string \<Rightarrow> string option) \<Rightarrow> string \<Rightarrow> core \<Rightarrow> core res" where
  "ExecFile os SearchFile path c =
     (let dirs = strtok (CHR '':'') path; phdr = findAuxv AT_PHDR c in
      res_bind (Ref_IsValid c (new_memory_ref (findAuxv AT_EXECFN c))) (\<lambda>(ok, execfn).
        if \<not> ok then Inr c
        else
          res_bind (Real c execfn) (\<lambda>(real, _).
          res_bind (c_string (mem c) real) (\<lambda>search.
            case search_dirs SearchFile search dirs of None \<Rightarrow> Inr c
            | Some fp \<Rightarrow>
                if fp = [] then Inr c
                else res_bind (exec_file (class_of (core_machine c)) os
                                 (trunc (class_of (core_machine c)) phdr) fp c)
                       (\<lambda>(_, c'). Inr c')))))"

definition SysRoot ::
  "os_env \<Rightarrow> u8 list \<Rightarrow> (string \<Rightarrow> string \<Rightarrow> string option)
     \<Rightarrow> (host \<Rightarrow> u64 \<Rightarrow> u64 \<Rightarrow> (memory_map \<times> host) option) \<Rightarrow> string \<Rightarrow> core \<Rightarrow> (core \<times> unit) res option" where
  "SysRoot os junk SearchFile decode path c =
     (let dirs = strtok (CHR '':'') path in
      foreachLinkMap (\<lambda>i c _.
        res_bind (on_link i LinkMap_name c) (\<lambda>(nm, c1).
          (let parts = strtok (CHR ''!'') nm;
               sub = (if length parts > 1 then Some (parts ! 1) else None)
           in case (case parts of [] \<Rightarrow> None | ori # _ \<Rightarrow> search_dirs SearchFile ori dirs) of
                None \<Rightarrow> Inr (False, c1, ())
              | Some fp \<Rightarrow>
                  if fp = [] then Inr (False, c1, ())
                  else
                    res_bind (dlopen (class_of (core_machine c1)) os junk i fp sub c1) (\<lambda>(ok, c2).
                      if ok then res_bind (LinkMap_ReadSymbols os decode i c2) (\<lambda>c3. Inr (False, c3, ()))
                      else Inr (False, c2, ()))))) c ())"

end
