(* ===== verification/LoadProps.thy ===== *)
theory LoadProps
  imports Libraries
begin

unbundle bit_operations_syntax

text \<open>
  What loading a core file establishes: whatever its notes hold, the segments of a
  well-formed file become a core that satisfies the invariant \<open>core_ok\<close> the memory
  interface relies on.
\<close>

section \<open>Callbacks that leave the segments alone\<close>

text \<open>The part of the state a note callback must not touch.\<close>

definition same_segments :: "core \<Rightarrow> core \<Rightarrow> bool" where
  "same_segments c c' \<longleftrightarrow> blocks c' = blocks c \<and> mLoad c' = mLoad c \<and> mQuickLoad c' = mQuickLoad c \<and>
     mem c' = mem c \<and> mCore c' = mCore c \<and> vabits_mask c' = vabits_mask c \<and>
     pointer_mask c' = pointer_mask c \<and> QUICK_LOAD_ENABLED c' = QUICK_LOAD_ENABLED c"

lemma same_segments_refl [simp]: "same_segments c c"
  by (simp add: same_segments_def)

lemma same_segments_trans: "same_segments a b \<Longrightarrow> same_segments b c \<Longrightarrow> same_segments a c"
  by (simp add: same_segments_def)

text \<open>
  A callback whose every step stays inside a reflexive and transitive relation: then so
  does the walk over a whole note segment.
\<close>

locale note_callback =
  fixes cb :: note_cb and R :: "core \<Rightarrow> core \<Rightarrow> bool"
  assumes R_refl: "R c c" and R_trans: "R a b \<Longrightarrow> R b c \<Longrightarrow> R a c"
    and keeps: "cb type pos context c = Inr (r, t, c') \<Longrightarrow> R c c'"
begin

lemma note_item_keeps:
  assumes "note_item cls cb type descsz pos nb ctx c = Inr (nb', ctx', c')"
  shows "R c c'"
  using assms keeps R_refl
  by (fastforce simp: note_item_def Let_def res_bind_Inr_iff split: if_splits)

lemma note_loop_keeps:
  "note_loop cls cb pos fin nb ctx c = Inr (nb', c') \<Longrightarrow> R c c'"
proof (induction "2 ^ 64 - unat pos" arbitrary: pos nb ctx c rule: less_induct)
  case less
  show ?case
  proof (cases "pos < fin")
    case False
    then show ?thesis using less.prems R_refl by (subst (asm) note_loop.simps) simp
  next
    case True
    obtain nb1 ctx1 c1 pos1 ty descsz item_pos
      where it: "note_item cls cb ty descsz item_pos nb ctx c = Inr (nb1, ctx1, c1)"
        and lt: "pos < pos1" and rest: "note_loop cls cb pos1 fin nb1 ctx1 c1 = Inr (nb', c')"
      using less.prems True
      by (subst (asm) note_loop.simps) (auto simp: Let_def res_bind_Inr_iff split: sum.splits if_splits)
    have "2 ^ 64 - unat pos1 < 2 ^ 64 - unat pos"
      using lt unat_u64_less [of pos1] by (simp add: word_less_nat_alt)
    then have "R c1 c'" using less.hyps rest by blast
    then show ?thesis using note_item_keeps [OF it] R_trans by blast
  qed
qed

end

text \<open>The callback of every architecture but arm64 leaves segments and masks alone.\<close>

locale quiet_callback = note_callback cb same_segments for cb :: note_cb

text \<open>The callback of arm64 leaves the segments alone, but a note may change the address mask.\<close>

definition same_but_mask :: "core \<Rightarrow> core \<Rightarrow> bool" where
  "same_but_mask c c' \<longleftrightarrow> same_segments (c\<lparr>vabits_mask := vabits_mask c'\<rparr>) c'"

lemma same_but_mask_trans: "same_but_mask a b \<Longrightarrow> same_but_mask b c \<Longrightarrow> same_but_mask a c"
  by (simp add: same_but_mask_def same_segments_def)

lemma arm64_cb_keeps: "arm64_cb type pos context c = Inr (r, t, c') \<Longrightarrow> same_but_mask c c'"
  by (auto simp: arm64_cb_def res_bind_Inr_iff same_but_mask_def same_segments_def
      split: if_splits option.splits)

interpretation arm64_notes: note_callback arm64_cb same_but_mask
proof unfold_locales
  show "same_but_mask c c" for c by (simp add: same_but_mask_def same_segments_def)
qed (rule same_but_mask_trans arm64_cb_keeps, assumption+)+

lemma plain_cb_keeps: "plain_cb cls m type pos context c = Inr (r, t, c') \<Longrightarrow> same_segments c c'"
  by (auto simp: plain_cb_def res_bind_Inr_iff split: if_splits)

interpretation plain_notes: quiet_callback "plain_cb cls m" for cls m
  by unfold_locales (simp, erule same_segments_trans, assumption, rule plain_cb_keeps)

section \<open>The segments of a well-formed file\<close>

text \<open>The program headers found at address \<open>a\<close>: type and contents.\<close>

fun phdrs_at :: "elf_class \<Rightarrow> host \<Rightarrow> u64 \<Rightarrow> (u64 \<times> elf_phdr) list \<Rightarrow> bool" where
  "phdrs_at cls h a [] = True"
| "phdrs_at cls h a ((ty, p) # ps) =
     (ph_type h a = Inr ty \<and> read_Phdr cls h a = Inr p \<and> phdrs_at cls h (a + sizeof_Phdr cls) ps)"

definition load_phdrs :: "(u64 \<times> elf_phdr) list \<Rightarrow> elf_phdr list" where
  "load_phdrs ps = map snd (filter (\<lambda>x. fst x = PT_LOAD) ps)"

text \<open>
  A well-formed file: the mapping of the core file lies in mapped memory, and every
  segment fits under the address mask, has its file part inside its memory part, and
  starts at a file offset that does not wrap.
\<close>

definition core_file_ok :: "core \<Rightarrow> bool" where
  "core_file_ok c \<longleftrightarrow> mm_begin (mCore c) \<noteq> 0 \<and> unat (mm_begin (mCore c)) + unat (mm_size (mCore c)) \<le> 2 ^ 64 \<and>
     mapped (mem c) (mm_begin (mCore c)) (unat (mm_size (mCore c)))"

definition phdr_ok :: "nat \<Rightarrow> elf_phdr \<Rightarrow> bool" where
  "phdr_ok w p \<longleftrightarrow> unat (ph_vaddr p) + unat (ph_memsz p) < 2 ^ 64 \<and>
     unat (ph_vaddr p) + unat (ph_memsz p) \<le> 2 ^ w \<and> ph_filesz p \<le> ph_memsz p \<and>
     unat (ph_offset p) + unat (ph_filesz p) < 2 ^ 64"

definition phdr_below :: "elf_phdr \<Rightarrow> elf_phdr \<Rightarrow> bool" where
  "phdr_below p q \<longleftrightarrow> unat (ph_vaddr p) + unat (ph_memsz p) \<le> unat (ph_vaddr q)"

lemma make_load_simps [simp]:
  "mVaddr (make_load p c) = ph_vaddr p" "mMemSize (make_load p c) = ph_memsz p"
  "mFileSize (make_load p c) = ph_filesz p" "mOverlay (make_load p c) = None"
  "mMmap (make_load p c) = None" "mVabitsMask (make_load p c) = vabits_mask c"
  "mFlags (make_load p c) = ucast (ph_flags p)"
  by (simp_all add: make_load_def Let_def setOriAddr_def new_LoadBlock_def)

lemma make_load_ok:
  assumes f: "core_file_ok c" and p: "phdr_ok w p"
  shows "block_ok (mem c) (make_load p c)"
proof -
  let ?b = "make_load p c" and ?a = "mm_begin (mCore c)" and ?n = "unat (mm_size (mCore c))"
  have sum: "unat (ph_offset p + ph_filesz p) = unat (ph_offset p) + unat (ph_filesz p)"
    using p by (simp add: phdr_ok_def unat_add_no_wrap)
  show ?thesis
  proof (cases "isValidBlock ?b")
    case False
    then have "mOriAddr ?b = 0"
      by (auto simp: make_load_def Let_def setOriAddr_def isValidBlock_def new_LoadBlock_def split: if_splits)
    then show ?thesis using False p by (simp add: block_ok_def phdr_ok_def)
  next
    case True
    then have fs: "0 < unat (ph_filesz p)" and le: "unat (ph_offset p) + unat (ph_filesz p) \<le> ?n"
      and ori: "mOriAddr ?b = ?a + ph_offset p"
      using sum
      by (auto simp: make_load_def Let_def setOriAddr_def isValidBlock_def new_LoadBlock_def
          word_less_nat_alt not_less split: if_splits)
    have bnd: "unat ?a + ?n \<le> 2 ^ 64" "?a \<noteq> 0" "mapped (mem c) ?a ?n"
      using f by (auto simp: core_file_ok_def)
    have u: "unat (?a + ph_offset p) = unat ?a + unat (ph_offset p)"
      using bnd fs le by (intro unat_add_no_wrap) simp
    then have nz: "?a + ph_offset p \<noteq> 0" using bnd(2) by (auto simp: unat_eq_zero)
    have "mem c (?a + ph_offset p + of_nat i) \<noteq> None" if "i < unat (ph_filesz p)" for i
    proof -
      have "mem c (?a + of_nat (unat (ph_offset p) + i)) \<noteq> None"
        using bnd(3) le that unfolding mapped_def by (metis add_less_cancel_left less_le_trans)
      then show ?thesis by (simp add: add.assoc)
    qed
    then show ?thesis
      using True p ori nz u bnd(1) le by (simp add: block_ok_def phdr_ok_def mapped_def)
  qed
qed

section \<open>The state after some program headers\<close>

definition is_quick :: "core \<Rightarrow> elf_phdr \<Rightarrow> bool" where
  "is_quick c p \<longleftrightarrow> \<not> QUICK_LOAD_ENABLED c \<or> (ucast (ph_flags p) :: u32) \<noteq> 0"

definition loaded :: "core \<Rightarrow> elf_phdr list \<Rightarrow> core \<Rightarrow> bool" where
  "loaded c qs c' \<longleftrightarrow>
     mem c' = mem c \<and> mCore c' = mCore c \<and> vabits_mask c' = vabits_mask c \<and>
     pointer_mask c' = pointer_mask c \<and> QUICK_LOAD_ENABLED c' = QUICK_LOAD_ENABLED c \<and>
     blocks c' = map (\<lambda>p. make_load p c) qs \<and> mLoad c' = [0..<length qs] \<and>
     mQuickLoad c' = filter (\<lambda>i. is_quick c (qs ! i)) [0..<length qs]"

lemma loaded_same_segments: "loaded c qs c1 \<Longrightarrow> same_segments c1 c2 \<Longrightarrow> loaded c qs c2"
  by (simp add: loaded_def same_segments_def)

lemma loaded_add:
  assumes "loaded c qs c'"
  shows "loaded c (qs @ [p]) (addLoadBlock (make_load p c') c')"
proof -
  have eq: "make_load p c' = make_load p c"
    using assms by (simp add: loaded_def make_load_def)
  have "filter (\<lambda>i. is_quick c ((qs @ [p]) ! i)) [0..<length qs] =
      filter (\<lambda>i. is_quick c (qs ! i)) [0..<length qs]"
    by (rule filter_cong) (auto simp: nth_append)
  then show ?thesis
    using assms unfolding eq
    by (auto simp: loaded_def addLoadBlock_def new_block_def Let_def is_quick_def)
qed

lemma sorted_wrt_upt_intro: "(\<And>i j. i < j \<Longrightarrow> j < n \<Longrightarrow> R i j) \<Longrightarrow> sorted_wrt R [0..<n]"
  by (simp add: sorted_wrt_iff_nth_less)

lemma loaded_core_ok:
  assumes l: "loaded c qs c'" and f: "core_file_ok c" and w: "w \<le> 64" "vabits_mask c = mask w"
    and p: "\<forall>p\<in>set qs. phdr_ok w p" and s: "sorted_wrt phdr_below qs"
  shows "core_ok c'"
proof -
  let ?n = "length qs"
  have blk: "blk c' i = make_load (qs ! i) c" if "i < ?n" for i using l that by (simp add: loaded_def)
  have L: "mLoad c' = [0..<?n]" "mQuickLoad c' = filter (\<lambda>i. is_quick c (qs ! i)) [0..<?n]" "length (blocks c') = ?n"
    "mem c' = mem c" "vabits_mask c' = vabits_mask c"
    using l by (auto simp: loaded_def)
  have nth_ok: "phdr_ok w (qs ! i)" if "i < ?n" for i using p that by simp
  have "sorted_wrt (\<lambda>i j. below (blk c' i) (blk c' j)) [0..<?n]"
  proof (rule sorted_wrt_upt_intro)
    fix i j assume "i < j" "j < ?n"
    then show "below (blk c' i) (blk c' j)"
      using s by (simp add: blk sorted_wrt_iff_nth_less phdr_below_def below_def)
  qed
  then have sorted: "sorted_wrt (\<lambda>i j. below (blk c' i) (blk c' j)) (filter P [0..<?n])" for P
    by (rule sorted_wrt_filter)
  have nw: "no_wrap (blk c' i)" if "i < ?n" for i
    using nth_ok [OF that] by (simp add: blk that no_wrap_def phdr_ok_def)
  have "sorted_loads (map (blk c') (filter P [0..<?n]))" for P
    using sorted [of P] nw by (auto simp: sorted_loads_def sorted_wrt_map)
  from this [of "\<lambda>_. True"] this have "loads_ok q c'" for q
    by (cases q) (auto simp: loads_ok_def getLoads_def L)
  moreover have "mask_ok c'"
    unfolding mask_ok_def
    by (rule exI [of _ w]) (use w nth_ok in \<open>auto simp: L blk phdr_ok_def\<close>)
  moreover have "block_ok (mem c') (blk c' i)" if "i < ?n" for i
    using make_load_ok [OF f nth_ok [OF that]] by (simp add: blk that L)
  ultimately show ?thesis
    by (auto simp: core_ok_def L blk separate_def)
qed

context quiet_callback
begin

lemma load_phdr_loaded:
  assumes "loaded c qs c1" and "ph_type (mem c) a = Inr ty" "read_Phdr cls (mem c) a = Inr p"
    and "load_phdr cls cb a c1 = Inr c2"
  shows "loaded c (if ty = PT_LOAD then qs @ [p] else qs) c2"
proof -
  have m: "mem c1 = mem c" using assms(1) by (simp add: loaded_def)
  consider "ty = PT_LOAD" | "ty = PT_NOTE" "ty \<noteq> PT_LOAD" | "ty \<noteq> PT_NOTE" "ty \<noteq> PT_LOAD" by blast
  then show ?thesis
  proof cases
    case 1
    then show ?thesis using assms m loaded_add [OF assms(1), of p] by (simp add: load_phdr_def)
  next
    case 2
    then have "same_segments c1 c2"
      using assms m note_loop_keeps
      by (auto simp: load_phdr_def Let_def res_bind_Inr_iff addNoteBlock_def same_segments_def split: if_splits)
    then show ?thesis using 2 assms(1) loaded_same_segments by simp
  next
    case 3
    then show ?thesis using assms m by (simp add: load_phdr_def)
  qed
qed

lemma phdr_loop_loaded:
  assumes "loaded c qs c1" and "phdrs_at cls (mem c) a ps" and "phdr_loop cls cb a (length ps) c1 = Inr c2"
  shows "loaded c (qs @ load_phdrs ps) c2"
  using assms
proof (induction ps arbitrary: a qs c1)
  case Nil
  then show ?case by (simp add: load_phdrs_def)
next
  case (Cons x ps)
  obtain ty p where x: "x = (ty, p)" by (cases x)
  obtain c3 where c3: "load_phdr cls cb a c1 = Inr c3" "phdr_loop cls cb (a + sizeof_Phdr cls) (length ps) c3 = Inr c2"
    using Cons.prems(3) by (auto simp: res_bind_Inr_iff)
  have "loaded c (if ty = PT_LOAD then qs @ [p] else qs) c3"
    using load_phdr_loaded [OF Cons.prems(1) _ _ c3(1)] Cons.prems(2) x by simp
  from Cons.IH [OF this _ c3(2)] show ?case
    using Cons.prems(2) x by (auto simp: load_phdrs_def split: if_splits)
qed

text \<open>Loading a file that does not fault adds the segments of its headers.\<close>

lemma load_elf_loaded:
  assumes c: "blocks c = []" "mLoad c = []" "mQuickLoad c = []"
    and n: "actual_phnum cls c = Inr (Some (int (length ps)))"
    and ps: "phdrs_at cls (mem c) (mm_begin (mCore c) + sizeof_Ehdr cls) ps"
    and res: "load_elf cls cb c = Inr (r, c')"
  shows "r \<and> loaded c (load_phdrs ps) c'"
proof -
  have r: "r" "phdr_loop cls cb (mm_begin (mCore c) + sizeof_Ehdr cls) (length ps) c = Inr c'"
    using res n by (auto simp: load_elf_def res_bind_Inr_iff)
  have "loaded c [] c" using c by (simp add: loaded_def)
  from phdr_loop_loaded [OF this ps r(2)] r(1) show ?thesis by simp
qed

text \<open>Loading a well-formed file that does not fault gives a core with the invariant.\<close>

lemma load_elf_core_ok:
  assumes c: "blocks c = []" "mLoad c = []" "mQuickLoad c = []" and f: "core_file_ok c"
    and n: "actual_phnum cls c = Inr (Some (int (length ps)))"
    and ps: "phdrs_at cls (mem c) (mm_begin (mCore c) + sizeof_Ehdr cls) ps"
    and w: "w \<le> 64" "vabits_mask c = mask w"
    and ok: "\<forall>p\<in>set (load_phdrs ps). phdr_ok w p" "sorted_wrt phdr_below (load_phdrs ps)"
    and res: "load_elf cls cb c = Inr (r, c')"
  shows "r \<and> core_ok c' \<and> blocks c' = map (\<lambda>p. make_load p c) (load_phdrs ps)"
  using load_elf_loaded [OF c n ps res] loaded_core_ok [OF _ f w ok] by (auto simp: loaded_def)

end

section \<open>Note segments before load segments\<close>

text \<open>No note segment follows a load segment: the layout the kernel and the dumpers write.\<close>

definition notes_first :: "(u64 \<times> elf_phdr) list \<Rightarrow> bool" where
  "notes_first ps \<longleftrightarrow> (\<exists>qs rs. ps = qs @ rs \<and> PT_LOAD \<notin> fst ` set qs \<and> PT_NOTE \<notin> fst ` set rs)"

lemma phdrs_at_append:
  "phdrs_at cls h a (qs @ rs) \<longleftrightarrow>
     phdrs_at cls h a qs \<and> phdrs_at cls h (a + of_nat (length qs) * sizeof_Phdr cls) rs"
  by (induction qs arbitrary: a) (auto simp: algebra_simps)

lemma phdr_loop_append:
  "phdr_loop cls cb a (m + n) c =
     res_bind (phdr_loop cls cb a m c) (phdr_loop cls cb (a + of_nat m * sizeof_Phdr cls) n)"
proof (induction m arbitrary: a c)
  case (Suc m)
  then show ?case by (cases "load_phdr cls cb a c") (auto simp: algebra_simps)
qed simp

text \<open>Without note segments the callback is never called.\<close>

lemma phdr_loop_no_notes:
  assumes "PT_NOTE \<notin> fst ` set ps" and "phdrs_at cls (mem c) a ps"
  shows "phdr_loop cls cb a (length ps) c = phdr_loop cls cb' a (length ps) c"
  using assms
proof (induction ps arbitrary: a c)
  case (Cons x ps)
  have "load_phdr cls cb a c = load_phdr cls cb' a c" using Cons.prems by (cases x) (auto simp: load_phdr_def)
  moreover have "mem c1 = mem c" if "load_phdr cls cb' a c = Inr c1" for c1
    using that Cons.prems
    by (cases x) (auto simp: load_phdr_def addLoadBlock_def new_block_def Let_def res_bind_Inr_iff split: if_splits)
  moreover have "phdrs_at cls (mem c) (a + sizeof_Phdr cls) ps" "PT_NOTE \<notin> fst ` set ps"
    using Cons.prems by (cases x; auto)+
  ultimately show ?case
    using Cons.IH by (cases "load_phdr cls cb' a c") simp_all
qed simp

lemma load_phdr_same_but_mask:
  assumes "ph_type (mem c) a = Inr ty" "ty \<noteq> PT_LOAD" and "load_phdr cls arm64_cb a c = Inr c'"
  shows "same_but_mask c c'"
  using assms arm64_notes.note_loop_keeps arm64_notes.R_refl
  by (auto simp: load_phdr_def Let_def res_bind_Inr_iff addNoteBlock_def same_but_mask_def same_segments_def
      split: if_splits)

lemma phdr_loop_same_but_mask:
  assumes "PT_LOAD \<notin> fst ` set ps" and "phdrs_at cls (mem c) a ps"
    and "phdr_loop cls arm64_cb a (length ps) c = Inr c'"
  shows "same_but_mask c c'"
  using assms
proof (induction ps arbitrary: a c)
  case Nil
  then show ?case using arm64_notes.R_refl by simp
next
  case (Cons x ps)
  obtain c1 where c1: "load_phdr cls arm64_cb a c = Inr c1"
    "phdr_loop cls arm64_cb (a + sizeof_Phdr cls) (length ps) c1 = Inr c'"
    using Cons.prems(3) by (auto simp: res_bind_Inr_iff)
  have first: "same_but_mask c c1"
    using load_phdr_same_but_mask [OF _ _ c1(1)] Cons.prems by (cases x) auto
  then have "mem c1 = mem c" by (simp add: same_but_mask_def same_segments_def)
  then have "same_but_mask c1 c'" using Cons.IH [OF _ _ c1(2)] Cons.prems by (cases x) auto
  then show ?case using first same_but_mask_trans by blast
qed

text \<open>Loading an arm64 file: the load segments get the mask its notes leave.\<close>

lemma load_elf_arm64_loaded:
  assumes c: "blocks c = []" "mLoad c = []" "mQuickLoad c = []"
    and n: "actual_phnum cls c = Inr (Some (int (length ps)))"
    and ps: "phdrs_at cls (mem c) (mm_begin (mCore c) + sizeof_Ehdr cls) ps" and first: "notes_first ps"
    and res: "load_elf cls arm64_cb c = Inr (r, c')"
  shows "r \<and> loaded (c\<lparr>vabits_mask := vabits_mask c'\<rparr>) (load_phdrs ps) c'"
proof -
  let ?a = "mm_begin (mCore c) + sizeof_Ehdr cls"
  obtain qs rs where p: "ps = qs @ rs" "PT_LOAD \<notin> fst ` set qs" "PT_NOTE \<notin> fst ` set rs"
    using first by (auto simp: notes_first_def)
  have r: "r" "phdr_loop cls arm64_cb ?a (length ps) c = Inr c'"
    using res n by (auto simp: load_elf_def res_bind_Inr_iff)
  obtain c1 where c1: "phdr_loop cls arm64_cb ?a (length qs) c = Inr c1"
    "phdr_loop cls arm64_cb (?a + of_nat (length qs) * sizeof_Phdr cls) (length rs) c1 = Inr c'"
    using r(2) p(1) by (auto simp: phdr_loop_append res_bind_Inr_iff)
  have at: "phdrs_at cls (mem c) ?a qs" "phdrs_at cls (mem c) (?a + of_nat (length qs) * sizeof_Phdr cls) rs"
    using ps p(1) by (auto simp: phdrs_at_append)
  have same: "same_but_mask c c1" by (rule phdr_loop_same_but_mask [OF p(2) at(1) c1(1)])
  then have m: "mem c1 = mem c" by (simp add: same_but_mask_def same_segments_def)
  let ?c1 = "c\<lparr>vabits_mask := vabits_mask c1\<rparr>"
  have l1: "loaded ?c1 [] c1" using same c by (simp add: loaded_def same_but_mask_def same_segments_def)
  have loop: "phdr_loop cls (plain_cb cls EM_AARCH64) (?a + of_nat (length qs) * sizeof_Phdr cls) (length rs) c1
      = Inr c'"
    using c1(2) phdr_loop_no_notes [OF p(3), of cls c1 _ arm64_cb "plain_cb cls EM_AARCH64"] at(2) m by simp
  have "loaded ?c1 ([] @ load_phdrs rs) c'"
    by (rule plain_notes.phdr_loop_loaded [OF l1 _ loop]) (simp add: at(2))
  moreover have "load_phdrs ps = load_phdrs rs" using p by (force simp: load_phdrs_def filter_empty_conv)
  ultimately show ?thesis using r(1) by (simp add: loaded_def)
qed

section \<open>Properties\<close>

text \<open>The segment object a PT_LOAD header becomes in a core: the fields of the header, the core
  file as its only backing, at the file offset unless the segment is empty or cut off, and the
  masks of the core.\<close>

definition segment_of :: "core \<Rightarrow> elf_phdr \<Rightarrow> load_block \<Rightarrow> bool" where
  "segment_of c p b \<longleftrightarrow>
     mVaddr b = ph_vaddr p \<and> mPaddr b = ph_paddr p \<and> mMemSize b = ph_memsz p \<and> mFileSize b = ph_filesz p \<and>
     mOffset b = ph_offset p \<and> mAlign b = ph_align p \<and> mFlags b = ucast (ph_flags p) \<and>
     mOverlay b = None \<and> mMmap b = None \<and>
     mTruncated b = (mm_size (mCore c) < ph_offset p + ph_filesz p) \<and>
     mOriAddr b = (if ph_filesz p \<noteq> 0 \<and> \<not> mTruncated b then mm_begin (mCore c) + ph_offset p else 0) \<and>
     mVabitsMask b = vabits_mask c \<and> mPointMask b = pointer_mask c"

lemma segment_of_make_load:
  "mCore c' = mCore c \<Longrightarrow> vabits_mask c' = vabits_mask c \<Longrightarrow> pointer_mask c' = pointer_mask c \<Longrightarrow>
   segment_of c' p (make_load p c)"
  by (auto simp: segment_of_def make_load_def Let_def setOriAddr_def isValidBlock_def new_LoadBlock_def word_gt_0)

lemma loaded_segments: "loaded c qs c' \<Longrightarrow> list_all2 (segment_of c') qs (blocks c')"
  by (auto simp: loaded_def list_all2_map2 intro!: list.rel_refl_strong segment_of_make_load)

text \<open>What \<open>machine_load\<close> leaves on each architecture.\<close>

lemma machine_load_loaded:
  assumes c: "blocks c = []" "mLoad c = []" "mQuickLoad c = []"
    and n: "actual_phnum (class_of m) c = Inr (Some (int (length ps)))"
    and ps: "phdrs_at (class_of m) (mem c) (mm_begin (mCore c) + sizeof_Ehdr (class_of m)) ps"
    and first: "m = EM_AARCH64 \<Longrightarrow> notes_first ps"
    and res: "machine_load m c = Inr (r, c')"
  shows "r \<and> loaded (c\<lparr>pointer_mask := GENMASK_UL (bits m - 1) 0, vabits_mask := vabits_mask c'\<rparr>)
    (load_phdrs ps) c'"
proof -
  have n': "actual_phnum (class_of m) (c\<lparr>pointer_mask := x, vabits_mask := y\<rparr>) = Inr (Some (int (length ps)))" for x y
    using n by (simp add: actual_phnum_def Let_def cong: if_cong)
  show ?thesis
  proof (cases "m = EM_AARCH64")
    case True
    obtain v where "load_elf (class_of m) arm64_cb (c\<lparr>pointer_mask := GENMASK_UL (bits m - 1) 0, vabits_mask := v\<rparr>)
        = Inr (r, c')"
      using res True by (auto simp: arm64_load_def load64_def Let_def)
    from load_elf_arm64_loaded [OF _ _ _ n' _ first [OF True] this] c ps show ?thesis by simp
  next
    case False
    let ?c = "c\<lparr>pointer_mask := GENMASK_UL (bits m - 1) 0, vabits_mask := GENMASK_UL (bits m - 1) 0\<rparr>"
    have "machine_load m c = load_elf (class_of m) (plain_cb (class_of m) m) ?c"
      using False
      by (cases m) (auto simp: riscv64_load_def x86_64_load_def arm_load_def x86_load_def load64_def load32_def)
    then have "load_elf (class_of m) (plain_cb (class_of m) m) ?c = Inr (r, c')" using res by simp
    from plain_notes.load_elf_loaded [OF _ _ _ n' _ this] c ps have "r \<and> loaded ?c (load_phdrs ps) c'" by simp
    then show ?thesis by (simp add: loaded_def)
  qed
qed

text \<open>C4: loading a core file of any of the five architectures whose PT_LOAD headers are in
  ascending order, not overlapping and inside the address mask the load ends with (on arm64,
  where a PAC note may change that mask, with the note segments before the load segments)
  either faults on a malformed note or returns true with a core that has exactly one segment
  per PT_LOAD header, in order: the list of all segments numbers them all, the quick list
  those with access flags, every field of every segment is that of its header, its only
  backing is its part of the core file, and the core satisfies the invariant the memory
  interface relies on.\<close>

theorem load_establishes_invariant:
  assumes "blocks c = []" "mLoad c = []" "mQuickLoad c = []" and "core_file_ok c"
    and "actual_phnum (class_of m) c = Inr (Some (int (length ps)))"
    and "phdrs_at (class_of m) (mem c) (mm_begin (mCore c) + sizeof_Ehdr (class_of m)) ps"
    and "m = EM_AARCH64 \<Longrightarrow> notes_first ps"
    and "machine_load m c = Inr (r, c')" and "w \<le> 64" "vabits_mask c' = mask w"
    and "\<forall>p\<in>set (load_phdrs ps). phdr_ok w p" and "sorted_wrt phdr_below (load_phdrs ps)"
  shows "r \<and> core_ok c' \<and> list_all2 (segment_of c') (load_phdrs ps) (blocks c') \<and>
    mLoad c' = [0..<length (load_phdrs ps)] \<and>
    mQuickLoad c' = filter (\<lambda>i. QUICK_LOAD_ENABLED c \<longrightarrow> mFlags (blocks c' ! i) \<noteq> 0) (mLoad c') \<and>
    mem c' = mem c \<and> mCore c' = mCore c"
proof -
  let ?c = "c\<lparr>pointer_mask := GENMASK_UL (bits m - 1) 0, vabits_mask := vabits_mask c'\<rparr>"
  have l: "r" "loaded ?c (load_phdrs ps) c'"
    using machine_load_loaded [OF assms(1-3,5,6,7,8)] by simp_all
  have "core_ok c'"
    by (rule loaded_core_ok [OF l(2) _ assms(9) _ assms(11,12)])
      (use assms(4,10) in \<open>simp_all add: core_file_ok_def\<close>)
  moreover have "mQuickLoad c' = filter (\<lambda>i. QUICK_LOAD_ENABLED c \<longrightarrow> mFlags (blocks c' ! i) \<noteq> 0) (mLoad c')"
    using l(2) by (auto simp: loaded_def is_quick_def intro!: filter_cong)
  ultimately show ?thesis
    using l loaded_segments [OF l(2)] by (simp add: loaded_def)
qed

text \<open>A one-segment arm64 file: an ELF header with one program header.\<close>

definition tiny_file :: "u8 list" where
  "tiny_file = [0x7f, 0x45, 0x4c, 0x46] @ replicate 12 0 @ [4, 0, 183, 0] @ replicate 36 0 @ [1, 0] @ replicate 6 0
     @ [1, 0, 0, 0, 6, 0, 0, 0] @ replicate 8 0 @ [0, 0x10, 0, 0, 0, 0, 0, 0] @ replicate 16 0
     @ [0, 0x20, 0, 0, 0, 0, 0, 0] @ replicate 8 0"

definition tiny_core :: core where
  "tiny_core = new_core EM_AARCH64
     \<lparr>mm_name = [], mm_begin = 0x10000, mm_size = 120, mm_offset = 0, mm_max = 120\<rparr> True 0
     (host_map (\<lambda>_. None) 0x10000 tiny_file)"

lemma tiny_length: "length tiny_file = 120"
  by (simp add: tiny_file_def)

lemma tiny_word:
  assumes "k + n \<le> 120"
  shows "host_word (mem tiny_core) (0x10000 + of_nat k) n = Inr (le_word (take n (drop k tiny_file)))"
proof -
  have "host_read (mem tiny_core) 0x10000 120 = Inr tiny_file"
    using host_read_host_map [of tiny_file "\<lambda>_. None" "0x10000"] tiny_length
    by (simp add: tiny_core_def new_core_def)
  from host_read_slice [OF this assms] show ?thesis by (simp add: host_word_def)
qed

lemma tiny_values:
  "le_word (take 2 (drop 56 tiny_file)) = (1 :: u64)" "le_word (take 4 (drop 64 tiny_file)) = (1 :: u64)"
  "le_word (take 4 (drop 68 tiny_file)) = (6 :: u64)" "le_word (take 8 (drop 72 tiny_file)) = (0 :: u64)"
  "le_word (take 8 (drop 80 tiny_file)) = (0x1000 :: u64)" "le_word (take 8 (drop 88 tiny_file)) = (0 :: u64)"
  "le_word (take 8 (drop 96 tiny_file)) = (0 :: u64)" "le_word (take 8 (drop 104 tiny_file)) = (0x2000 :: u64)"
  "le_word (take 8 (drop 112 tiny_file)) = (0 :: u64)"
  by code_simp+

lemma tiny_words:
  "host_word (mem tiny_core) 0x10038 2 = Inr 1" "host_word (mem tiny_core) 0x10040 4 = Inr 1"
  "host_word (mem tiny_core) 0x10044 4 = Inr 6" "host_word (mem tiny_core) 0x10048 8 = Inr 0"
  "host_word (mem tiny_core) 0x10050 8 = Inr 0x1000" "host_word (mem tiny_core) 0x10058 8 = Inr 0"
  "host_word (mem tiny_core) 0x10060 8 = Inr 0" "host_word (mem tiny_core) 0x10068 8 = Inr 0x2000"
  "host_word (mem tiny_core) 0x10070 8 = Inr 0"
  using tiny_word [of 56 2] tiny_word [of 64 4] tiny_word [of 68 4] tiny_word [of 72 8] tiny_word [of 80 8]
    tiny_word [of 88 8] tiny_word [of 96 8] tiny_word [of 104 8] tiny_word [of 112 8]
  by (simp_all add: tiny_values)

definition tiny_phdr :: elf_phdr where
  "tiny_phdr = \<lparr>ph_flags = 6, ph_offset = 0, ph_vaddr = 0x1000, ph_paddr = 0, ph_filesz = 0,
     ph_memsz = 0x2000, ph_align = 0\<rparr>"

lemma tiny_va: "VA_BITS tiny_core = 0"
  by (simp add: tiny_core_def new_core_def)

lemma tiny_mCore: "mm_begin (mCore tiny_core) = 0x10000" "blocks tiny_core = []" "mLoad tiny_core = []"
  "mQuickLoad tiny_core = []"
  by (simp_all add: tiny_core_def new_core_def)

lemma tiny_read: "ph_type (mem tiny_core) 0x10040 = Inr PT_LOAD" "read_Phdr ELF64 (mem tiny_core) 0x10040 = Inr tiny_phdr"
  by (simp_all add: ph_type_def PT_LOAD_def read_Phdr64_def tiny_words tiny_phdr_def)

theorem load_establishes_invariant_witness:
  "\<exists>c'. machine_load EM_AARCH64 tiny_core = Inr (True, c') \<and> core_ok c' \<and>
     list_all2 (segment_of c') [tiny_phdr] (blocks c') \<and> mLoad c' = [0]"
proof -
  have n: "actual_phnum (class_of EM_AARCH64) tiny_core = Inr (Some (int (length [(PT_LOAD, tiny_phdr)])))"
    by (simp add: actual_phnum_def tiny_mCore tiny_words PN_XNUM_def)
  have at: "phdrs_at (class_of EM_AARCH64) (mem tiny_core)
      (mm_begin (mCore tiny_core) + sizeof_Ehdr (class_of EM_AARCH64)) [(PT_LOAD, tiny_phdr)]"
    using tiny_read by (simp add: tiny_mCore)
  have f: "core_file_ok tiny_core"
    using mapped_host_map [of tiny_file 120 "\<lambda>_. None" "0x10000"] tiny_length
    by (simp add: core_file_ok_def tiny_core_def new_core_def)
  have l: "load_phdrs [(PT_LOAD, tiny_phdr)] = [tiny_phdr]" by (simp add: load_phdrs_def)
  have ok: "\<forall>p\<in>set (load_phdrs [(PT_LOAD, tiny_phdr)]). phdr_ok 39 p"
    "sorted_wrt phdr_below (load_phdrs [(PT_LOAD, tiny_phdr)])"
    unfolding l by (simp_all add: phdr_ok_def tiny_phdr_def)
  obtain r c' where res: "machine_load EM_AARCH64 tiny_core = Inr (r, c')" and v: "vabits_mask c' = mask 39"
    using n at tiny_read
    by (auto simp: arm64_load_def tiny_va DEF_VA_BITS_def load64_def load_elf_def actual_phnum_def tiny_mCore tiny_words PN_XNUM_def
        load_phdr_def GENMASK_UL_low addLoadBlock_def new_block_def Let_def)
  have "notes_first [(PT_LOAD, tiny_phdr)]"
    unfolding notes_first_def by (rule exI [of _ "[]"]) (simp add: PT_LOAD_def PT_NOTE_def)
  from load_establishes_invariant [OF tiny_mCore(2-4) f n at this res _ v ok] res
  show ?thesis unfolding l by simp
qed

end
