(* ===== verification/Segments.thy ===== *)
theory Segments
  imports ElfTables
begin

unbundle bit_operations_syntax

text \<open>
  What a client of the memory interface may assume: \<open>valid_seg\<close> is a segment with contents of a
  well-formed core, the locale \<open>field_accessor\<close> what the readers of a field have in common, and the
  lemmas say what the accessors of \<open>api::MemoryRef\<close> return inside it. Together with the facts of a core that has one segment (\<open>flat_core\<close>), used as a
  concrete instance, the theory has the properties of references and of the dynamic
  section (core/api/memory_ref.h, core/api/elf.cpp).
\<close>

section \<open>Reading inside a segment\<close>

definition target_word :: "core \<Rightarrow> u64 \<Rightarrow> nat \<Rightarrow> u64" where
  "target_word c a n = le_word (map (\<lambda>j. the (core_byte c (a + of_nat j))) [0..<n])"

definition inside :: "core \<Rightarrow> nat \<Rightarrow> u64 \<Rightarrow> nat \<Rightarrow> bool" where
  "inside c i a n \<longleftrightarrow> a \<noteq> 0 \<and> 0 < n \<and> unat (mVaddr (blk c i)) \<le> unat a \<and>
     unat a + n \<le> unat (mVaddr (blk c i)) + backed_size (blk c i)"

lemma inside_less: "inside c i a n \<Longrightarrow> 0 < m \<Longrightarrow> m \<le> n \<Longrightarrow> inside c i a m"
  by (simp add: inside_def)

text \<open>A segment with contents of a core that satisfies the invariant.\<close>

definition valid_seg :: "core \<Rightarrow> nat \<Rightarrow> bool" where
  "valid_seg c i \<longleftrightarrow> core_ok c \<and> i \<in> set (mQuickLoad c) \<and> isValid (blk c i)"

lemma valid_segD:
  assumes "valid_seg c i"
  shows "core_ok c" "i \<in> set (mQuickLoad c)" "isValid (blk c i)" "block_ok (mem c) (blk c i)"
  using assms core_ok_blocks(1) [of c i] by (auto simp: valid_seg_def core_ok_def)

lemma inside_bound: "valid_seg c i \<Longrightarrow> inside c i a n \<Longrightarrow> unat a + n < 2 ^ 64"
  using backed_size_le [OF valid_segD(4)] block_ok_no_wrap [OF valid_segD(4)] by (force simp: inside_def no_wrap_def)

lemma inside_shift:
  assumes vs: "valid_seg c i" and "inside c i a n" "k < n"
  shows "inside c i (a + of_nat k) (n - k)" "unat (a + of_nat k) = unat a + k"
proof -
  note seg = valid_segD [OF vs]
  have k: "unat (of_nat k :: u64) = k" using assms inside_bound [OF vs assms(2)] by (simp add: unat_of_nat)
  show u: "unat (a + of_nat k) = unat a + k"
    using inside_bound [OF vs assms(2)] assms(3) by (subst unat_add_no_wrap) (simp_all add: k)
  have "a + of_nat k \<noteq> 0" using u assms by (auto simp: inside_def unat_eq_zero)
  then show "inside c i (a + of_nat k) (n - k)" using assms u by (simp add: inside_def)
qed

lemma inside_found:
  assumes vs: "valid_seg c i" and "inside c i a n"
  shows "findLoadBlock a True c = Some i" "a AND vabits_mask c = a"
proof -
  note seg = valid_segD [OF vs]
  have "block_has (blk c i) a"
    using assms backed_size_le [OF seg(4)] block_has_unat [OF block_ok_no_wrap [OF seg(4)]]
    by (simp add: inside_def)
  then show "findLoadBlock a True c = Some i" "a AND vabits_mask c = a"
    using found_inside [OF seg(1) seg(2)] by auto
qed

lemma valueNOf_inside:
  assumes vs: "valid_seg c i" and "ref_ok c r" "inside c i (ref_vaddr r) m" "k + n \<le> m"
  shows "valueNOf n (of_nat k) c r =
    Inr (target_word c (ref_vaddr r + of_nat k) n, r\<lparr>ref_block := Some i\<rparr>)"
proof -
  note seg = valid_segD [OF vs]
  note f = inside_found [OF vs assms(3)]
  have "unat (ref_vaddr r) + k + n \<le> unat (mVaddr (blk c i)) + backed_size (blk c i)"
    using assms(3,4) by (simp add: inside_def)
  then show ?thesis
    using valueNOf_bytes [OF seg(1) assms(2) _ f(1) seg(3) f(2)] assms(3)
    by (simp add: inside_def target_word_def add.assoc)
qed

lemma valueOf_inside:
  assumes vs: "valid_seg c i" and "ref_ok c r" "inside c i (ref_vaddr r) m" "k + 8 \<le> m"
  shows "valueOf (of_nat k) c r =
    Inr (target_word c (ref_vaddr r + of_nat k) 8 AND mPointMask (blk c i), r\<lparr>ref_block := Some i\<rparr>)"
  using valueNOf_inside [OF assms] by (simp add: valueOf_def Ref_PointMask_def)

lemma ref_ok_inside: "valid_seg c i \<Longrightarrow> inside c i (ref_vaddr r) n \<Longrightarrow> ref_ok c (r\<lparr>ref_block := Some i\<rparr>)"
  using inside_found(1) by (simp add: ref_ok_def)

lemma MovePtr_inside:
  assumes vs: "valid_seg c i" and "ref_ok c r" "inside c i (ref_vaddr r) n" "k < n"
  shows "MovePtr (of_nat k) c r = Inr \<lparr>ref_vaddr = ref_vaddr r + of_nat k, ref_block = Some i\<rparr>"
proof -
  note seg = valid_segD [OF vs]
  note f = inside_found(1) [OF vs assms(3)] and g = inside_found(1) [OF vs inside_shift(1) [OF vs assms(3,4)]]
  have "Prepare True c r = Inr (r\<lparr>ref_block := Some i\<rparr>)"
    using assms(2,3) f seg(3)
    by (cases "ref_block r") (auto simp: Prepare_def FindLoadBlock_def ref_ok_def inside_def
        intro: memory_ref.equality split: option.splits)
  moreover have "virtualContains (blk c i) (ref_vaddr r + of_nat k)"
    using virtualContains_found [OF seg(1) seg(2)] g by simp
  ultimately show ?thesis by (cases r) (simp add: MovePtr_def)
qed

lemma Ref_IsValid_inside:
  assumes vs: "valid_seg c i" and "ref_ok c r" "inside c i (ref_vaddr r) n"
  shows "Ref_IsValid c r = Inr (True, r\<lparr>ref_block := Some i\<rparr>)"
  using assms inside_found(1) [OF vs assms(3)] valid_segD(3) [OF vs]
  by (cases "ref_block r") (auto simp: Ref_IsValid_def Prepare_def FindLoadBlock_def ref_ok_def inside_def
      intro: memory_ref.equality split: option.splits)

lemma Real_inside:
  assumes vs: "valid_seg c i" and "ref_ok c r" "inside c i (ref_vaddr r) n"
  shows "\<exists>real. Real c r = Inr (real, r\<lparr>ref_block := Some i\<rparr>) \<and>
    (\<forall>m\<le>n. host_read (mem c) real m = Inr (map (\<lambda>j. the (core_byte c (ref_vaddr r + of_nat j))) [0..<m]))"
proof -
  note seg = valid_segD [OF vs]
  note f = inside_found [OF vs assms(3)]
  let ?o = "unat (ref_vaddr r) - unat (mVaddr (blk c i))"
  have has: "block_has (blk c i) (ref_vaddr r)" using core_ok_block(6) [OF seg(1) f(1)] f(2) by simp
  note off = block_has_offset [OF block_ok_no_wrap [OF seg(4)] has]
  have "host_read (mem c) (LoadBlock_begin OPT_READ_ALL (blk c i) + of_nat ?o) m =
      Inr (map (\<lambda>j. block_byte (mem c) (blk c i) (?o + j)) [0..<m])" if "m \<le> n" for m
    using that assms(3) unfolding inside_def by (intro read_backing [OF seg(4)]) linarith
  moreover have "core_byte c (ref_vaddr r + of_nat j) = Some (block_byte (mem c) (blk c i) (?o + j))" if "j < n" for j
    using core_byte_inside [OF seg(1) f(1,2) _ that] assms(3) backed_size_le [OF seg(4)] by (simp add: inside_def)
  moreover have "ref_vaddr r - mVaddr (blk c i) = of_nat ?o" unfolding off(1) [symmetric] by simp
  then have "Real c r = Inr (LoadBlock_begin OPT_READ_ALL (blk c i) + of_nat ?o, r\<lparr>ref_block := Some i\<rparr>)"
    using Real_eq_GetReal [OF seg(1) assms(2)] v2r_found [OF seg(1) f(1) seg(3)] f assms(3)
    by (simp add: inside_def)
  ultimately show ?thesis by auto
qed


text \<open>
  The contract of an accessor that reads a field of \<open>width\<close> bytes: inside a valid segment it
  returns the value \<open>val\<close> of the target memory at the address of the field and fills the
  cache. Structures in target memory are read by accessors of this kind, one record after the
  other with \<open>MovePtr\<close>.
\<close>

locale field_accessor =
  fixes get :: "u64 \<Rightarrow> core \<Rightarrow> memory_ref \<Rightarrow> (u64 \<times> memory_ref) res"
    and val :: "core \<Rightarrow> nat \<Rightarrow> u64 \<Rightarrow> u64" and width :: nat
  assumes get_inside: "valid_seg c i \<Longrightarrow> ref_ok c r \<Longrightarrow> inside c i (ref_vaddr r) m \<Longrightarrow> k + width \<le> m \<Longrightarrow>
    get (of_nat k) c r = Inr (val c i (ref_vaddr r + of_nat k), r\<lparr>ref_block := Some i\<rparr>)"
begin

lemma get_at:
  assumes vs: "valid_seg c i" and ins: "inside c i a m" and "k + width \<le> m"
    and "b = None \<or> b = Some i"
  shows "get (of_nat k) c \<lparr>ref_vaddr = a, ref_block = b\<rparr> =
    Inr (val c i (a + of_nat k), \<lparr>ref_vaddr = a, ref_block = Some i\<rparr>)"
proof -
  let ?r = "\<lparr>ref_vaddr = a, ref_block = b\<rparr>"
  have "ref_ok c ?r" using assms(4) inside_found(1) [OF vs ins] by (auto simp: ref_ok_def)
  then show ?thesis using get_inside [OF vs, of ?r m k] ins assms(3) by simp
qed

text \<open>The field of the record \<open>n\<close> strides further on.\<close>

lemma get_after_move:
  assumes vs: "valid_seg c i" and ins: "inside c i a (n * stride + m)" and "k + width \<le> m" "0 < m"
  shows "get (of_nat k) c \<lparr>ref_vaddr = a + of_nat (n * stride), ref_block = Some i\<rparr> =
    Inr (val c i (a + of_nat (n * stride + k)), \<lparr>ref_vaddr = a + of_nat (n * stride), ref_block = Some i\<rparr>)"
proof -
  have "inside c i (a + of_nat (n * stride)) m"
    using inside_shift(1) [OF vs ins, of "n * stride"] assms(4) by simp
  then show ?thesis using get_at [OF vs _ assms(3)] by (simp add: add.assoc)
qed

end

definition masked_word :: "core \<Rightarrow> nat \<Rightarrow> u64 \<Rightarrow> u64" where
  "masked_word c i a = target_word c a 8 AND mPointMask (blk c i)"

interpretation uint8: field_accessor "valueNOf 1" "\<lambda>c i a. target_word c a 1" 1
  by unfold_locales (rule valueNOf_inside)

interpretation uint16: field_accessor "valueNOf 2" "\<lambda>c i a. target_word c a 2" 2
  by unfold_locales (rule valueNOf_inside)

interpretation uint32: field_accessor "valueNOf 4" "\<lambda>c i a. target_word c a 4" 4
  by unfold_locales (rule valueNOf_inside)

interpretation uint64: field_accessor "valueNOf 8" "\<lambda>c i a. target_word c a 8" 8
  by unfold_locales (rule valueNOf_inside)

interpretation pointer: field_accessor valueOf masked_word 8
  by unfold_locales (simp add: valueOf_inside masked_word_def)

section \<open>A core with one segment\<close>

text \<open>One readable segment at \<open>va\<close> whose contents \<open>bs\<close> lie at host address 0x10000.\<close>

definition flat_block :: "u64 \<Rightarrow> u8 list \<Rightarrow> load_block" where
  "flat_block va bs =
     (new_LoadBlock 4 0 va 0 (of_nat (length bs)) (of_nat (length bs)) 0x1000)
       \<lparr>mOriAddr := 0x10000, mVabitsMask := mask 48, mPointMask := -1\<rparr>"

definition flat_core :: "machine \<Rightarrow> u64 \<Rightarrow> u8 list \<Rightarrow> core" where
  "flat_core m va bs =
     (new_core m \<lparr>mm_name = [], mm_begin = 0x10000, mm_size = of_nat (length bs), mm_offset = 0,
                   mm_max = of_nat (length bs)\<rparr> True 0 (host_map (\<lambda>_. None) 0x10000 bs))
       \<lparr>blocks := [flat_block va bs], mLoad := [0], mQuickLoad := [0], vabits_mask := mask 48\<rparr>"

definition flat_fits :: "u64 \<Rightarrow> u8 list \<Rightarrow> bool" where
  "flat_fits va bs \<longleftrightarrow> bs \<noteq> [] \<and> unat va + length bs \<le> 2 ^ 48"

lemma flat_core_simps [simp]:
  "core_machine (flat_core m va bs) = m" "pointer_mask (flat_core m va bs) = -1"
  "blk (flat_core m va bs) 0 = flat_block va bs"
  by (simp_all add: flat_core_def new_core_def)

lemmas flat_defs = flat_block_def flat_core_def new_core_def new_LoadBlock_def

lemma flat_length: "flat_fits va bs \<Longrightarrow> unat (of_nat (length bs) :: u64) = length bs"
  by (simp add: flat_fits_def unat_of_nat)

lemma flat_mapped: "flat_fits va bs \<Longrightarrow> mapped (host_map (\<lambda>_. None) 0x10000 bs) 0x10000 (length bs)"
  using flat_length [of va bs] by (auto simp: mapped_def host_map_at flat_fits_def)

lemma flat_core_ok:
  assumes "flat_fits va bs"
  shows "core_ok (flat_core m va bs)"
proof -
  note len = flat_length [OF assms]
  have pos: "(0 :: u64) < of_nat (length bs)"
    using assms len by (simp add: word_less_nat_alt flat_fits_def)
  have bound: "unat va + length bs < 2 ^ 64" "length bs \<le> 2 ^ 48" using assms by (simp_all add: flat_fits_def)
  have b: "block_ok (mem (flat_core m va bs)) (flat_block va bs)"
    using flat_mapped [OF assms] len pos bound
    by (simp add: block_ok_def isValidBlock_def flat_defs)
  have "mask_ok (flat_core m va bs)"
    unfolding mask_ok_def using assms len
    by (intro exI [of _ 48]) (simp add: flat_defs flat_fits_def)
  then show ?thesis
    using b len bound
    by (simp add: core_ok_def loads_ok_def getLoads_def sorted_loads_def no_wrap_def flat_defs)
qed

lemma flat_valid_seg: "flat_fits va bs \<Longrightarrow> valid_seg (flat_core m va bs) 0"
  using flat_core_ok [of va bs m] flat_length [of va bs]
  by (simp add: valid_seg_def isValid_def isValidBlock_def flat_defs word_less_nat_alt flat_fits_def)

lemma flat_inside:
  assumes "flat_fits va bs" "va \<noteq> 0" "0 < n" "k + n \<le> length bs"
  shows "inside (flat_core m va bs) 0 (va + of_nat k) n"
proof -
  have "inside (flat_core m va bs) 0 va (length bs)"
    using assms flat_length [OF assms(1)] by (simp add: inside_def flat_defs backed_size_def flat_fits_def)
  then show ?thesis
    using inside_less inside_shift(1) [OF flat_valid_seg [OF assms(1)], of m va "length bs" k] assms by auto
qed

lemma flat_byte:
  assumes "flat_fits va bs" "va \<noteq> 0" "k < length bs"
  shows "core_byte (flat_core m va bs) (va + of_nat k) = Some (bs ! k)"
proof -
  let ?c = "flat_core m va bs"
  have ins: "inside ?c 0 va (length bs)" using flat_inside [OF assms(1,2), of "length bs" 0] assms(3) by (cases "bs = []") simp_all
  have bound: "length bs < 2 ^ 64" using assms(1) by (simp add: flat_fits_def)
  have "core_byte ?c (va + of_nat k) = Some (block_byte (mem ?c) (blk ?c 0) (unat va - unat (mVaddr (blk ?c 0)) + k))"
    using inside_found [OF flat_valid_seg [OF assms(1)] ins] flat_core_ok [OF assms(1)] assms
      flat_length [OF assms(1)]
    by (intro core_byte_inside [of _ _ _ "length bs"]) (simp_all add: flat_defs)
  then show ?thesis
    using assms flat_length [OF assms(1)] bound
    by (simp add: block_byte_def flat_defs backed_size_def LoadBlock_begin_all host_map_at)
qed

lemma flat_word:
  assumes "flat_fits va bs" "va \<noteq> 0" "k + n \<le> length bs"
  shows "target_word (flat_core m va bs) (va + of_nat k) n = le_word (take n (drop k bs))"
proof -
  have "map (\<lambda>j. the (core_byte (flat_core m va bs) (va + of_nat k + of_nat j))) [0..<n] = take n (drop k bs)"
    using flat_byte [OF assms(1,2), of "k + j" m for j] assms(3)
    by (intro nth_equalityI) (auto simp: add.assoc)
  then show ?thesis by (simp add: target_word_def)
qed

lemma flat_GetReal:
  assumes "flat_fits va bs" "va \<noteq> 0" "k < length bs"
  shows "GetReal (va + of_nat k) (flat_core m va bs) = Inr (0x10000 + of_nat k)"
proof -
  note seg = flat_valid_seg [OF assms(1), of m]
  have ins: "inside (flat_core m va bs) 0 (va + of_nat k) 1" using flat_inside [OF assms(1,2), of 1 k] assms(3) by simp
  show ?thesis
    using v2r_found [OF valid_segD(1) [OF seg] inside_found(1) [OF seg ins] valid_segD(3) [OF seg]] inside_found(2) [OF seg ins]
    by (simp add: flat_defs LoadBlock_begin_all)
qed

lemma flat_real:
  assumes "flat_fits va bs" "va \<noteq> 0" "k < length bs"
  shows "Real (flat_core m va bs) (new_memory_ref (va + of_nat k)) =
    Inr (0x10000 + of_nat k, \<lparr>ref_vaddr = va + of_nat k, ref_block = Some 0\<rparr>)"
proof -
  note seg = flat_valid_seg [OF assms(1), of m]
  have ins: "inside (flat_core m va bs) 0 (va + of_nat k) 1" using flat_inside [OF assms(1,2), of 1 k] assms(3) by simp
  then have nz: "va + of_nat k \<noteq> 0" by (simp add: inside_def)
  then show ?thesis
    using Real_eq_GetReal [OF valid_segD(1) [OF seg] ref_ok_new] inside_found(1) [OF seg ins] flat_GetReal [OF assms]
    by (simp add: new_memory_ref_def)
qed

lemma flat_host:
  assumes "flat_fits va bs" "k < length bs"
  shows "mem (flat_core m va bs) (0x10000 + of_nat k) = Some (bs ! k)"
  using assms by (simp add: flat_defs host_map_at flat_fits_def)

lemma flat_string:
  assumes "flat_fits va bs" and "\<forall>j<length s. bs ! (k + j) = of_nat (of_char (s ! j)) \<and> s ! j \<noteq> char_of (0 :: nat)"
    and "k + length s < length bs" and "bs ! (k + length s) = 0"
  shows "c_string (mem (flat_core m va bs)) (0x10000 + of_nat k) = Inr s"
proof (rule c_string_intro)
  have at: "mem (flat_core m va bs) (0x10000 + of_nat k + of_nat j) = Some (bs ! (k + j))" if "j \<le> length s" for j
    using flat_host [OF assms(1), of "k + j" m] assms(3) that by (simp add: add.assoc)
  show "\<forall>j<length s. mem (flat_core m va bs) (0x10000 + of_nat k + of_nat j) = Some (of_nat (of_char (s ! j))) \<and>
      s ! j \<noteq> char_of (0 :: nat)"
    using at assms(2) by simp
  show "mem (flat_core m va bs) (0x10000 + of_nat k + of_nat (length s)) = Some 0"
    using at [of "length s"] assms(4) by simp
  have "unat (of_nat k :: u64) = k" using assms(1,3) by (simp add: unat_of_nat flat_fits_def)
  then have "unat (0x10000 + of_nat k :: u64) = 0x10000 + k"
    using assms(1,3) by (subst unat_add_no_wrap) (simp_all add: flat_fits_def)
  then show "unat (0x10000 + of_nat k :: u64) + length s < 2 ^ 64"
    using assms(1,3) by (simp add: flat_fits_def)
qed

lemma flat_host_word:
  assumes "flat_fits va bs" "k + n \<le> length bs"
  shows "host_word (mem (flat_core m va bs)) (0x10000 + of_nat k) n = Inr (le_word (take n (drop k bs)))"
proof -
  have "host_read (mem (flat_core m va bs)) (0x10000 + of_nat k) n = Inr (take n (drop k bs))"
    using flat_host [OF assms(1), of "k + j" m for j] assms(2)
    by (auto simp: host_read_Inr_iff add.assoc)
  then show ?thesis by (simp add: host_word_def)
qed

end
