(* ===== verification/PatchProps.thy ===== *)
theory PatchProps
  imports Segments
begin

unbundle bit_operations_syntax

text \<open>
  Properties of patching target memory: sequences of writes, taking a patch back,
  translating addresses to host pointers and back, and mapping a library file over a
  segment (core/api/core.cpp, core/common/load_block.cpp).
\<close>

section \<open>Sequences of writes\<close>

text \<open>The contract of a store that can be patched: a write to a range that may be written
  succeeds, updates what the store shows exactly there, and keeps every range writable.\<close>

locale patch_store =
  fixes good :: "'s \<Rightarrow> bool" and writable :: "'s \<Rightarrow> 'a \<Rightarrow> 'b list \<Rightarrow> bool"
    and wr :: "'a \<Rightarrow> 'b list \<Rightarrow> 's \<Rightarrow> 's res" and look :: "'s \<Rightarrow> 'a \<Rightarrow> 'b option"
    and upd :: "'s \<Rightarrow> 'a \<Rightarrow> 'b list \<Rightarrow> ('a \<Rightarrow> 'b option) \<Rightarrow> 'a \<Rightarrow> 'b option"
  assumes wr_ok: "good s \<Longrightarrow> writable s a bs \<Longrightarrow>
      \<exists>s'. wr a bs s = Inr s' \<and> good s' \<and> look s' = upd s a bs (look s) \<and>
        (\<forall>a bs. writable s a bs \<longrightarrow> writable s' a bs) \<and> (\<forall>a bs f. upd s' a bs f = upd s a bs f)"
begin

lemma write_sequence:
  "good s \<Longrightarrow> \<forall>(a, bs)\<in>set ws. writable s a bs \<Longrightarrow>
   \<exists>s'. fold (\<lambda>(a, bs) r. res_bind r (wr a bs)) ws (Inr s) = Inr s' \<and> good s' \<and>
     look s' = fold (\<lambda>(a, bs) f. upd s a bs f) ws (look s)"
proof (induction ws arbitrary: s)
  case (Cons w ws)
  obtain a bs where w: "w = (a, bs)" by (cases w)
  obtain s1 where s1: "wr a bs s = Inr s1" "good s1" "look s1 = upd s a bs (look s)"
      "\<forall>a bs. writable s a bs \<longrightarrow> writable s1 a bs" "\<forall>a bs f. upd s1 a bs f = upd s a bs f"
    using wr_ok [of s a bs] Cons.prems w by auto
  have "\<forall>(a, bs)\<in>set ws. writable s1 a bs" using Cons.prems(2) s1(4) by auto
  then obtain s' where "fold (\<lambda>(a, bs) r. res_bind r (wr a bs)) ws (Inr s1) = Inr s'" "good s'"
      "look s' = fold (\<lambda>(a, bs) f. upd s1 a bs f) ws (look s1)"
    using Cons.IH [OF s1(2)] by blast
  then show ?case using s1 w by (intro exI [of _ s']) simp
qed simp

end

definition overlaid :: "core \<Rightarrow> u64 \<Rightarrow> u8 list \<Rightarrow> bool" where
  "overlaid c vaddr buf \<longleftrightarrow> (case findLoadBlock vaddr True c of None \<Rightarrow> False
     | Some i \<Rightarrow> mOverlay (blk c i) \<noteq> None \<and>
         unat (vaddr AND vabits_mask c) + length buf \<le> unat (mVaddr (blk c i)) + unat (mMemSize (blk c i)))"

definition patch :: "core \<Rightarrow> u64 \<Rightarrow> u8 list \<Rightarrow> (u64 \<Rightarrow> u8 option) \<Rightarrow> u64 \<Rightarrow> u8 option" where
  "patch c vaddr buf f a =
     (let t = unat (a AND vabits_mask c); v = unat (vaddr AND vabits_mask c)
      in if v \<le> t \<and> t < v + length buf then Some (buf ! (t - v)) else f a)"

lemma overlaid_update:
  assumes "core_ok c" "i < length (blocks c)" "same_place b (blk c i)" "mOverlay b \<noteq> None" "overlaid c v buf"
  shows "overlaid (c\<lparr>blocks := (blocks c)[i := b], mem := h\<rparr>) v buf"
proof -
  obtain j where j: "findLoadBlock v True c = Some j" "mOverlay (blk c j) \<noteq> None"
      "unat (v AND vabits_mask c) + length buf \<le> unat (mVaddr (blk c j)) + unat (mMemSize (blk c j))"
    using assms(5) by (auto simp: overlaid_def split: option.splits)
  have "findLoadBlock v True (c\<lparr>blocks := (blocks c)[i := b], mem := h\<rparr>) = Some j"
    using findLoadBlock_update(1) [OF _ assms(2,3)] assms(1) j(1) by (simp add: core_ok_def)
  then show ?thesis using j assms(2-4) by (cases "j = i") (auto simp: overlaid_def same_place_def)
qed

lemma Core_Write_overlaid:
  assumes ok: "core_ok c" and w: "overlaid c v buf"
  shows "\<exists>c'. Core_Write os v buf c = Inr c' \<and> core_ok c' \<and> core_byte c' = patch c v buf (core_byte c) \<and>
    (\<forall>a bs. overlaid c a bs \<longrightarrow> overlaid c' a bs) \<and> (\<forall>a bs f. patch c' a bs f = patch c a bs f)"
proof -
  obtain i where i: "findLoadBlock v True c = Some i" "mOverlay (blk c i) \<noteq> None"
      "unat (v AND vabits_mask c) + length buf \<le> unat (mVaddr (blk c i)) + unat (mMemSize (blk c i))"
    using w by (auto simp: overlaid_def split: option.splits)
  obtain b h where wr: "Core_Write os v buf c = Inr (c\<lparr>blocks := (blocks c)[i := b], mem := h\<rparr>)"
    and pl: "same_place b (blk c i)" and ov: "mOverlay b \<noteq> None"
    and byt: "\<forall>k<unat (mMemSize b). block_byte h b k =
           (let lo = unat (v AND vabits_mask c) - unat (mVaddr (blk c i))
            in if lo \<le> k \<and> k < lo + length buf then buf ! (k - lo) else block_byte (mem c) (blk c i) k)"
    and fr: "\<forall>j\<in>set (mLoad c). j \<noteq> i \<longrightarrow> block_byte h (blk c j) = block_byte (mem c) (blk c j)"
    and ok': "core_ok (c\<lparr>blocks := (blocks c)[i := b], mem := h\<rparr>)"
    by (rule Core_Write_spec [OF _ ok i(1) _ i(3)]) (use i(2) in simp_all)
  show ?thesis
    using wr ok' core_byte_after_write [OF ok i(1,3) pl byt fr]
      overlaid_update [OF ok core_ok_block(3) [OF ok i(1)] pl ov]
    by (intro exI [of _ "c\<lparr>blocks := (blocks c)[i := b], mem := h\<rparr>"]) (auto simp: patch_def Let_def)
qed

interpretation patches: patch_store core_ok overlaid "Core_Write os" core_byte patch for os
  by unfold_locales (rule Core_Write_overlaid)

text \<open>C9: a sequence of writes to segments that have an overlay always succeeds, keeps the invariant,
  and the target memory afterwards is the memory before with the patches applied in the
  order of the writes, the later one on top.\<close>

theorem Write_sequence_refines:
  assumes "core_ok c" and "\<forall>(vaddr, buf)\<in>set ws. overlaid c vaddr buf"
  shows "\<exists>c'. fold (\<lambda>(vaddr, buf) r. res_bind r (Core_Write os vaddr buf)) ws (Inr c) = Inr c' \<and> core_ok c' \<and>
    core_byte c' = fold (\<lambda>(vaddr, buf) f. patch c vaddr buf f) ws (core_byte c)"
  using assms by (rule patches.write_sequence)

lemma demo_overlaid:
  obtains c where "core_ok c" "overlaid c 0x3010 [1, 2]" "overlaid c 0x3011 [7]" "vabits_mask c = -1"
proof -
  have fits: "unat (0x3010 AND vabits_mask demo_core) + length [0 :: u8]
      \<le> unat (mVaddr (blk demo_core 1)) + unat (mMemSize (blk demo_core 1))"
    by (simp add: demo_defs)
  obtain b h where ok: "core_ok (demo_core\<lparr>blocks := (blocks demo_core)[1 := b], mem := h\<rparr>)" (is "core_ok ?c")
    and pl: "same_place b (blk demo_core 1)" and ov: "mOverlay b \<noteq> None"
    by (rule Core_Write_spec [OF demo_os_ok demo_core_ok demo_find demo_mmap fits])
  have b: "blk ?c 1 = b" "mVaddr b = 0x3000" "mMemSize b = 0x2000"
    using pl by (auto simp: same_place_def demo_defs)
  have l: "loads_ok True ?c" "1 \<in> set (getLoads True ?c)"
    using ok by (simp_all add: core_ok_def getLoads_def demo_defs)
  have f: "findLoadBlock 0x3010 True ?c = Some 1" "findLoadBlock 0x3011 True ?c = Some 1"
    using l b by (simp_all add: findLoadBlock_iff block_has_def) (simp_all add: demo_defs)
  show ?thesis
    using f ov b by (intro that [OF ok]) (simp_all add: overlaid_def demo_defs)
qed

theorem Write_sequence_refines_witness:
  "\<exists>c c'. core_ok c \<and>
     fold (\<lambda>(vaddr, buf) r. res_bind r (Core_Write demo_os vaddr buf)) [(0x3010, [1, 2]), (0x3011, [7])] (Inr c) = Inr c' \<and>
     core_byte c' 0x3010 = Some 1 \<and> core_byte c' 0x3011 = Some 7"
proof -
  obtain c where c: "core_ok c" "overlaid c 0x3010 [1, 2]" "overlaid c 0x3011 [7]" "vabits_mask c = -1"
    by (rule demo_overlaid)
  then have "\<forall>(vaddr, buf)\<in>set [(0x3010, [1, 2]), (0x3011, [7])]. overlaid c vaddr buf" by simp
  from Write_sequence_refines [OF c(1) this, of demo_os] obtain c' where
    "fold (\<lambda>(vaddr, buf) r. res_bind r (Core_Write demo_os vaddr buf)) [(0x3010, [1, 2]), (0x3011, [7])] (Inr c) = Inr c'"
    "core_byte c' = fold (\<lambda>(vaddr, buf) f. patch c vaddr buf f) [(0x3010, [1, 2]), (0x3011, [7])] (core_byte c)"
    by blast
  moreover from this(2) have "core_byte c' 0x3010 = Some 1" "core_byte c' 0x3011 = Some 7"
    using c(4) by (simp_all add: patch_def)
  ultimately show ?thesis using c(1) by blast
qed

section \<open>Taking a patch back\<close>

lemma core_ok_more_memory:
  assumes "core_ok c" and "\<forall>x. mem c x \<noteq> None \<longrightarrow> h x = mem c x"
  shows "core_ok (c\<lparr>mem := h\<rparr>)" "core_byte (c\<lparr>mem := h\<rparr>) = core_byte c"
proof -
  have lk: "findLoadBlock a q (c\<lparr>mem := h\<rparr>) = findLoadBlock a q c" for a q
    by (simp add: findLoadBlock_def getLoads_def)
  have "block_ok h (blk c j)" if "j \<in> set (mLoad c)" for j
    using assms(2) by (intro block_ok_mono [OF core_ok_blocks(1) [OF assms(1) that]]) auto
  then show "core_ok (c\<lparr>mem := h\<rparr>)"
    using assms(1) by (simp add: core_ok_def loads_ok_def getLoads_def mask_ok_def)
  have "block_byte h (blk c j) = block_byte (mem c) (blk c j)" if "j \<in> set (mLoad c)" for j
    using assms(2) by (intro block_byte_frame [OF core_ok_blocks(1) [OF assms(1) that]]) simp
  then show "core_byte (c\<lparr>mem := h\<rparr>) = core_byte c"
    using core_ok_block(2) [OF assms(1)] by (auto simp: core_byte_def lk fun_eq_iff map_option_case split: option.splits)
qed

text \<open>A core patched in segment \<open>i\<close> of \<open>c\<close> only: the segment has an overlay in memory that was not mapped
  before, and everything else is as it was.\<close>

definition patched :: "core \<Rightarrow> nat \<Rightarrow> core \<Rightarrow> bool" where
  "patched c i c' \<longleftrightarrow> core_ok c' \<and>
     (\<exists>ov h. c' = c\<lparr>blocks := (blocks c)[i := (blk c i)\<lparr>mOverlay := ov\<rparr>], mem := h\<rparr> \<and>
       (\<forall>x. mem c x \<noteq> None \<longrightarrow> h x = mem c x) \<and>
       (\<forall>m x. ov = Some m \<longrightarrow> unat (x - mm_begin m) < unat (mMemSize (blk c i)) \<longrightarrow> mem c x = None))"

lemma patched_refl:
  assumes "core_ok c" "mOverlay (blk c i) = None"
  shows "patched c i c"
proof -
  have "(blk c i)\<lparr>mOverlay := None\<rparr> = blk c i" using assms(2) by (intro load_block.equality) simp_all
  then show ?thesis using assms(1) by (auto simp: patched_def intro!: exI [of _ None] exI [of _ "mem c"])
qed

lemma patched_find:
  assumes "patched c i c'" "core_ok c" "i < length (blocks c)" "findLoadBlock v True c = Some j"
  shows "findLoadBlock v True c' = Some j" "vabits_mask c' = vabits_mask c"
    "mVaddr (blk c' i) = mVaddr (blk c i)" "mMemSize (blk c' i) = mMemSize (blk c i)"
proof -
  obtain ov h where c': "c' = c\<lparr>blocks := (blocks c)[i := (blk c i)\<lparr>mOverlay := ov\<rparr>], mem := h\<rparr>"
    using assms(1) by (auto simp: patched_def)
  have "same_place ((blk c i)\<lparr>mOverlay := ov\<rparr>) (blk c i)" by (simp add: same_place_def)
  from findLoadBlock_update(1) [OF _ assms(3) this] assms(2,4)
  show "findLoadBlock v True c' = Some j" unfolding c' by (simp add: core_ok_def)
  show "vabits_mask c' = vabits_mask c" "mVaddr (blk c' i) = mVaddr (blk c i)"
    "mMemSize (blk c' i) = mMemSize (blk c i)"
    unfolding c' using assms(3) by simp_all
qed

text \<open>A write inside the segment keeps the core patched there only.\<close>

lemma Core_Write_patched:
  assumes p: "patched c i c1" and ok: "core_ok c" and v: "findLoadBlock v True c = Some i"
    and fits: "unat (v AND vabits_mask c) + length buf \<le> unat (mVaddr (blk c i)) + unat (mMemSize (blk c i))"
    and os: "mOverlay (blk c1 i) = None \<Longrightarrow> os_ok os \<and> os_mmap os (mem c1) (mMemSize (blk c i)) \<noteq> None"
  shows "\<exists>c2. Core_Write os v buf c1 = Inr c2 \<and> patched c i c2 \<and> mOverlay (blk c2 i) \<noteq> None"
proof -
  note len = core_ok_block(3) [OF ok v]
  note same = patched_find [OF p ok len v]
  have ok1: "core_ok c1" using p by (simp add: patched_def)
  obtain ov h1 where eq: "c1 = c\<lparr>blocks := (blocks c)[i := (blk c i)\<lparr>mOverlay := ov\<rparr>], mem := h1\<rparr>"
      and more: "\<forall>x. mem c x \<noteq> None \<longrightarrow> h1 x = mem c x"
      and fresh: "\<forall>m x. ov = Some m \<longrightarrow> unat (x - mm_begin m) < unat (mMemSize (blk c i)) \<longrightarrow> mem c x = None"
    using p unfolding patched_def by blast
  have bl: "blk c1 i = (blk c i)\<lparr>mOverlay := ov\<rparr>" "mem c1 = h1" unfolding eq by (simp_all add: len)
  note blk = core_ok_block [OF ok1 same(1)]
  note off = block_has_offset [OF block_ok_no_wrap [OF blk(4)] blk(6)]
  have fits1: "unat (v AND vabits_mask c1) + length buf \<le> unat (mVaddr (blk c1 i)) + unat (mMemSize (blk c1 i))"
    using fits same by simp
  then have lo: "unat ((v AND mVabitsMask (blk c1 i)) - mVaddr (blk c1 i)) = unat (v AND vabits_mask c1) - unat (mVaddr (blk c1 i))"
      "unat (v AND vabits_mask c1) - unat (mVaddr (blk c1 i)) + length buf \<le> unat (mMemSize (blk c1 i))"
    using off by (auto simp: blk(5))
  have os1: "mOverlay (blk c1 i) = None \<Longrightarrow> os_ok os"
    "mOverlay (blk c1 i) = None \<Longrightarrow> os_mmap os (mem c1) (mMemSize (blk c1 i)) \<noteq> None"
    using os same(4) by simp_all
  obtain m h where set: "setOverlay os (mem c1) v buf (blk c1 i) = Inr ((blk c1 i)\<lparr>mOverlay := Some m\<rparr>, h)"
    and fr: "\<forall>x. mem c1 x \<noteq> None \<longrightarrow> unat (x - mm_begin m) < unat (mMemSize (blk c1 i)) \<or> h x = mem c1 x"
    and fresh1: "mOverlay (blk c1 i) = Some m \<or> (\<forall>x. unat (x - mm_begin m) < unat (mMemSize (blk c1 i)) \<longrightarrow> mem c1 x = None)"
    by (rule setOverlay_spec [OF os1(1) blk(4) os1(2) lo])
  let ?c2 = "c1\<lparr>blocks := (blocks c1)[i := (blk c1 i)\<lparr>mOverlay := Some m\<rparr>], mem := h\<rparr>"
  have wr: "Core_Write os v buf c1 = Inr ?c2" by (simp add: Core_Write_def same(1) set)
  obtain b' h' where "Core_Write os v buf c1 = Inr (c1\<lparr>blocks := (blocks c1)[i := b'], mem := h'\<rparr>)"
      "core_ok (c1\<lparr>blocks := (blocks c1)[i := b'], mem := h'\<rparr>)"
    by (rule Core_Write_spec [OF os1(1) ok1 same(1) os1(2) fits1])
  then have "core_ok ?c2" using wr by simp
  moreover have out: "mem c x = None" if "unat (x - mm_begin m) < unat (mMemSize (blk c i))" for x
    using that fresh fresh1 more same(4) bl by fastforce
  moreover have "\<forall>x. mem c x \<noteq> None \<longrightarrow> h x = mem c x" using fr more out same(4) bl(2) by metis
  moreover have "?c2 = c\<lparr>blocks := (blocks c)[i := (blk c i)\<lparr>mOverlay := Some m\<rparr>], mem := h\<rparr>"
    unfolding eq by (simp add: len)
  ultimately have "patched c i ?c2" unfolding patched_def by (intro conjI exI [of _ "Some m"] exI [of _ h]) auto
  moreover have "mOverlay (blk ?c2 i) \<noteq> None" using blk(3) by simp
  ultimately show ?thesis using wr by blast
qed

text \<open>Removing the overlay of a core patched in one segment gives the old core, with more host memory.\<close>

lemma patched_undo:
  assumes "patched c i c'" "mOverlay (blk c i) = None" "\<not> mFake (blk c i)" "i < length (blocks c)"
  shows "c'\<lparr>blocks := (blocks c')[i := removeOverlay (blk c' i)]\<rparr> = c\<lparr>mem := mem c'\<rparr>"
    "\<forall>x. mem c x \<noteq> None \<longrightarrow> mem c' x = mem c x"
proof -
  obtain ov h where eq: "c' = c\<lparr>blocks := (blocks c)[i := (blk c i)\<lparr>mOverlay := ov\<rparr>], mem := h\<rparr>"
      and more: "\<forall>x. mem c x \<noteq> None \<longrightarrow> h x = mem c x"
    using assms(1) unfolding patched_def by blast
  have none: "(blk c i)\<lparr>mOverlay := None\<rparr> = blk c i" using assms(2) by (intro load_block.equality) simp_all
  have "removeOverlay ((blk c i)\<lparr>mOverlay := ov\<rparr>) = blk c i"
    using assms(3) none by (cases ov) (simp_all add: removeOverlay_def)
  then show "c'\<lparr>blocks := (blocks c')[i := removeOverlay (blk c' i)]\<rparr> = c\<lparr>mem := mem c'\<rparr>"
    unfolding eq by (simp add: assms(4))
  show "\<forall>x. mem c x \<noteq> None \<longrightarrow> mem c' x = mem c x" unfolding eq using more by simp
qed

lemma Core_Writes_patched:
  assumes "patched c i c1" "core_ok c" and "mOverlay (blk c1 i) \<noteq> None"
    and "\<forall>(v, buf)\<in>set ws. findLoadBlock v True c = Some i \<and>
      unat (v AND vabits_mask c) + length buf \<le> unat (mVaddr (blk c i)) + unat (mMemSize (blk c i))"
  shows "\<exists>c2. fold (\<lambda>(v, buf) r. res_bind r (Core_Write os v buf)) ws (Inr c1) = Inr c2 \<and> patched c i c2 \<and>
    mOverlay (blk c2 i) \<noteq> None"
  using assms
proof (induction ws arbitrary: c1)
  case (Cons w ws)
  obtain v buf where w: "w = (v, buf)" by (cases w)
  obtain c2 where "Core_Write os v buf c1 = Inr c2" "patched c i c2" "mOverlay (blk c2 i) \<noteq> None"
    using Core_Write_patched [OF Cons.prems(1,2), of v buf os] Cons.prems(3,4) w by auto
  then show ?case using Cons.IH [of c2] Cons.prems(2,4) w by simp
qed auto

text \<open>C13: removing the overlay of a segment takes all patches back. Starting from a core whose segment has
  no overlay and is not a fake one, after any sequence of writes that lie inside this segment
  (the first needs the host to have memory for the overlay), removeOverlay leaves the segment objects as
  they were before the first write, and every target byte of every segment reads what it read then.\<close>

theorem removeOverlay_restores:
  assumes "os_ok os" and "core_ok c" and "i < length (blocks c)"
    and "mOverlay (blk c i) = None" and "\<not> mFake (blk c i)"
    and "os_mmap os (mem c) (mMemSize (blk c i)) \<noteq> None"
    and "\<forall>(vaddr, buf)\<in>set ws. findLoadBlock vaddr True c = Some i \<and>
      unat (vaddr AND vabits_mask c) + length buf \<le> unat (mVaddr (blk c i)) + unat (mMemSize (blk c i))"
  shows "\<exists>c' d. fold (\<lambda>(vaddr, buf) r. res_bind r (Core_Write os vaddr buf)) ws (Inr c) = Inr c' \<and>
    (ws \<noteq> [] \<longrightarrow> mOverlay (blk c' i) \<noteq> None) \<and>
    d = c'\<lparr>blocks := (blocks c')[i := removeOverlay (blk c' i)]\<rparr> \<and>
    blocks d = blocks c \<and> core_ok d \<and> core_byte d = core_byte c"
proof -
  note start = patched_refl [OF assms(2,4)]
  have "\<exists>c'. fold (\<lambda>(vaddr, buf) r. res_bind r (Core_Write os vaddr buf)) ws (Inr c) = Inr c' \<and> patched c i c' \<and>
      (ws \<noteq> [] \<longrightarrow> mOverlay (blk c' i) \<noteq> None)"
  proof (cases ws)
    case (Cons w ws')
    obtain v buf where w: "w = (v, buf)" by (cases w)
    obtain c1 where "Core_Write os v buf c = Inr c1" "patched c i c1" "mOverlay (blk c1 i) \<noteq> None"
      using Core_Write_patched [OF start assms(2), of v buf os] assms(1,6,7) Cons w by auto
    then show ?thesis using Core_Writes_patched [of c i c1 ws' os] assms(2,7) Cons w by auto
  qed (use start in auto)
  then obtain c' where c': "fold (\<lambda>(vaddr, buf) r. res_bind r (Core_Write os vaddr buf)) ws (Inr c) = Inr c'"
    "patched c i c'" "ws \<noteq> [] \<longrightarrow> mOverlay (blk c' i) \<noteq> None" by blast
  note undo = patched_undo [OF c'(2) assms(4,5,3)]
  show ?thesis
    using c' undo(1) core_ok_more_memory [OF assms(2) undo(2)]
    by (intro exI [of _ c'] exI [of _ "c\<lparr>mem := mem c'\<rparr>"]) simp
qed

theorem removeOverlay_restores_witness:
  "\<exists>c1 c'. Core_Write demo_os 0x3010 [0xAB, 0xCD] demo_core = Inr c1 \<and> Core_Write demo_os 0x3010 [0xEF] c1 = Inr c' \<and>
     mOverlay (blk c' 1) \<noteq> None \<and>
     core_byte (c'\<lparr>blocks := (blocks c')[1 := removeOverlay (blk c' 1)]\<rparr>) = core_byte demo_core"
proof -
  let ?ws = "[(0x3010, [0xAB, 0xCD]), (0x3010, [0xEF])] :: (u64 \<times> u8 list) list"
  have b: "1 < length (blocks demo_core)" "mOverlay (blk demo_core 1) = None" "\<not> mFake (blk demo_core 1)"
    by (simp_all add: demo_defs)
  have ws: "\<forall>(vaddr, buf)\<in>set ?ws. findLoadBlock vaddr True demo_core = Some 1 \<and>
      unat (vaddr AND vabits_mask demo_core) + length buf
        \<le> unat (mVaddr (blk demo_core 1)) + unat (mMemSize (blk demo_core 1))"
    using demo_find by (simp add: demo_defs)
  from removeOverlay_restores [OF demo_os_ok demo_core_ok b demo_mmap ws]
  show ?thesis by (auto simp: res_bind_Inr_iff)
qed

section \<open>Host pointers\<close>

text \<open>C18: translating a target address to a host pointer and back gives the address (with the
  bits outside the mask dropped). The address must lie in the stored contents of its quick
  segment (past them v2r still answers, with a pointer behind the contents), the memory that
  backs the segment must not end at the top of the host address space, and no other quick
  segment may claim the pointer, as happens when two segments share host bytes.\<close>

theorem v2r_r2v_roundtrip:
  assumes "core_ok c" and "findLoadBlock vaddr True c = Some i" and "isValid (blk c i)"
    and "unat (vaddr AND vabits_mask c) < unat (mVaddr (blk c i)) + backed_size (blk c i)"
    and "unat (LoadBlock_begin OPT_READ_ALL (blk c i)) + unat (LoadBlock_size OPT_READ_ALL (blk c i)) < 2 ^ 64"
    and "\<forall>j\<in>set (mQuickLoad c). j \<noteq> i \<longrightarrow>
      \<not> realContains (blk c j) (LoadBlock_begin OPT_READ_ALL (blk c i) + ((vaddr AND vabits_mask c) - mVaddr (blk c i)))"
  shows "\<exists>real. v2r vaddr OPT_READ_ALL c = Inr real \<and> real \<noteq> 0 \<and> r2v real c = Inr (vaddr AND vabits_mask c)"
proof -
  let ?b = "blk c i" and ?t = "vaddr AND vabits_mask c"
  let ?a = "LoadBlock_begin OPT_READ_ALL ?b" and ?o = "unat ?t - unat (mVaddr ?b)"
  note blk = core_ok_block [OF assms(1,2)]
  note off = block_has_offset [OF block_ok_no_wrap [OF blk(4)] blk(6)]
  let ?r = "?a + (?t - mVaddr ?b)"
  have less: "unat (?t - mVaddr ?b) < unat (LoadBlock_size OPT_READ_ALL ?b)"
    using off size_bounds(1) [OF blk(4)] assms(4) by linarith
  have r: "unat ?r = unat ?a + unat (?t - mVaddr ?b)"
    using less assms(5) by (subst unat_add_no_wrap) simp_all
  have e: "unat (?a + LoadBlock_size OPT_READ_ALL ?b) = unat ?a + unat (LoadBlock_size OPT_READ_ALL ?b)"
    using assms(5) by (subst unat_add_no_wrap) simp_all
  have nz: "?a \<noteq> 0" by (rule valid_begin_nonzero [OF blk(4) assms(3)])
  have "?a \<le> ?r" "?r < ?a + LoadBlock_size OPT_READ_ALL ?b"
    using r e less by (simp_all add: word_le_nat_alt word_less_nat_alt)
  then have here: "realContains ?b ?r"
    using nz by (auto simp: realContains_def LoadBlock_begin_all Let_def split: option.splits)
  have "find (\<lambda>j. realContains (blk c j) ?r) (mQuickLoad c) = Some i"
  proof (cases "find (\<lambda>j. realContains (blk c j) ?r) (mQuickLoad c)")
    case None
    then show ?thesis using here blk(1) by (auto simp: find_None_iff)
  next
    case (Some j)
    then have "j \<in> set (mQuickLoad c)" "realContains (blk c j) ?r" by (auto simp: find_Some_iff)
    then show ?thesis using assms(6) Some by auto
  qed
  moreover have "?r \<noteq> 0" using r nz by (metis add_is_0 unat_0 unat_eq_zero)
  ultimately show ?thesis using v2r_found [OF assms(1-3)] by (simp add: r2v_def)
qed

theorem v2r_r2v_roundtrip_witness:
  "v2r 0x2002 OPT_READ_ALL (flat_core EM_X86_64 0x2000 [1, 2, 3, 4]) = Inr 0x10002 \<and>
   r2v 0x10002 (flat_core EM_X86_64 0x2000 [1, 2, 3, 4]) = Inr 0x2002"
proof -
  let ?c = "flat_core EM_X86_64 0x2000 [1, 2, 3, 4]"
  have fit: "flat_fits 0x2000 [1, 2, 3, 4]" by (simp add: flat_fits_def)
  note seg = flat_valid_seg [OF fit, of EM_X86_64]
  have ins: "inside ?c 0 0x2002 1" using flat_inside [OF fit, of 1 2 EM_X86_64] by simp
  note f = inside_found [OF seg ins]
  have b: "LoadBlock_begin OPT_READ_ALL (blk ?c 0) = 0x10000" "LoadBlock_size OPT_READ_ALL (blk ?c 0) = 4"
      "backed_size (blk ?c 0) = 4" "mVaddr (blk ?c 0) = 0x2000" "mQuickLoad ?c = [0]"
    by (simp_all add: flat_defs LoadBlock_begin_all LoadBlock_size_all backed_size_def)
  have v: "v2r 0x2002 OPT_READ_ALL ?c = Inr 0x10002"
    using v2r_found [OF valid_segD(1) [OF seg] f(1) valid_segD(3) [OF seg]] f(2) b by simp
  then show ?thesis
    using v2r_r2v_roundtrip [OF valid_segD(1) [OF seg] f(1) valid_segD(3) [OF seg]] f(2) b by simp
qed

section \<open>Mapping a file over a segment\<close>

text \<open>A mapping of \<open>sz\<close> bytes that shows \<open>bytes\<close>, and zero where it is backed but they end.\<close>

definition presents :: "host \<Rightarrow> u64 \<Rightarrow> u8 list \<Rightarrow> memory_map \<Rightarrow> bool" where
  "presents h sz bytes m \<longleftrightarrow> mm_begin m \<noteq> 0 \<and> mm_size m = sz \<and> mm_max m \<le> sz \<and>
     unat (mm_begin m) + unat sz \<le> 2 ^ 64 \<and> min (unat sz) (length bytes) \<le> unat (mm_max m) \<and>
     (\<forall>k<unat (mm_max m). h (mm_begin m + of_nat k) = Some (if k < length bytes then bytes ! k else 0))"

lemma MmapFile_range_presents:
  assumes os: "os_ok os" and "os_file os file = Some bytes" "unat off < length bytes"
    and "unat off mod os_page_size os = 0" and mem: "os_mmap os h sz = Some base"
  obtains m h1 where "MmapFile_range os h file sz off = (Some m, h1)" "presents h1 sz (drop (unat off) bytes) m"
    "\<forall>x. h x \<noteq> None \<longrightarrow> h1 x = h x"
proof -
  let ?view = "file_view (os_page_size os) bytes (unat sz) (unat off)"
  let ?m = "\<lparr>mm_name = file, mm_begin = base, mm_size = sz, mm_offset = off,
    mm_max = of_nat (min (unat sz) (length bytes - unat off))\<rparr>" and ?h1 = "host_map h base ?view"
  have real: "unat (mm_max ?m) = min (unat sz) (length bytes - unat off)"
    using unat_u64_less [of sz] by (simp add: unat_of_nat take_bit_nat_eq_self)
  have len: "length ?view \<le> unat sz" "min (unat sz) (length bytes - unat off) \<le> length ?view"
    by (simp_all add: file_view_def Let_def)
  have view: "?view ! k = bytes ! (unat off + k)" if "k < min (unat sz) (length bytes - unat off)" for k
    using that assms(3) by (simp add: file_view_def Let_def nth_append)
  have fresh: "base \<noteq> 0" "unat base + unat sz \<le> 2 ^ 64" "\<forall>x. unat (x - base) < unat sz \<longrightarrow> h x = None"
    using os mem by (auto simp: os_ok_def)
  show ?thesis
  proof (rule that [of ?m ?h1])
    show "MmapFile_range os h file sz off = (Some ?m, ?h1)"
      using assms by (simp add: MmapFile_range_def MmapFile_fd_def Let_def)
    have "?h1 (base + of_nat k) = Some (drop (unat off) bytes ! k)" if "k < unat (mm_max ?m)" for k
      using that len real view unat_u64_less [of sz] by (subst host_map_at) auto
    then show "presents ?h1 sz (drop (unat off) bytes) ?m"
      using fresh real by (simp add: presents_def word_le_nat_alt)
    show "\<forall>x. h x \<noteq> None \<longrightarrow> ?h1 x = h x"
      using fresh(3) len(1) by (auto simp: host_map_def)
  qed
qed

lemma MmapMem_presents:
  assumes os: "os_ok os" and sh: "presents h sz bytes m" and mem: "os_mmap os h sz = Some base"
  obtains a h1 where "MmapMem os h (mm_begin m) sz (mm_max m) = Inr (Some a, h1)" "mm_begin a = base" "mm_max a = sz"
    "presents h1 sz bytes a" "\<forall>x. h x \<noteq> None \<longrightarrow> h1 x = h x"
proof -
  let ?n = "unat (mm_max m)" and ?s = "unat sz"
  let ?bs = "map (\<lambda>i. the (h (mm_begin m + of_nat i))) [0..<?n]" and ?h0 = "host_zero h base (unat sz)"
  let ?a = "\<lparr>mm_name = [], mm_begin = base, mm_size = sz, mm_offset = 0, mm_max = sz\<rparr>"
  have n: "?n \<le> ?s" and m: "?s \<le> 2 ^ 64" and src: "mapped h (mm_begin m) ?n"
    using sh unat_u64_less [of sz] by (auto simp: presents_def word_le_nat_alt mapped_def)
  have fresh: "base \<noteq> 0" "unat base + unat sz \<le> 2 ^ 64" "\<And>x. unat (x - base) < ?s \<Longrightarrow> h x = None"
    using os mem by (auto simp: os_ok_def)
  show ?thesis
  proof (rule that [of ?a "host_map ?h0 base ?bs"])
    show "MmapMem os h (mm_begin m) sz (mm_max m) = Inr (Some ?a, host_map ?h0 base ?bs)"
      using mem memcpy_fresh [OF src n m fresh(3)] by (simp add: MmapMem_def)
    have "host_map ?h0 base ?bs (base + of_nat k) = Some (if k < length bytes then bytes ! k else 0)" if "k < ?s" for k
    proof (cases "k < ?n")
      case True
      then show ?thesis using sh n m by (subst host_map_at) (auto simp: presents_def)
    next
      case False
      then have "\<not> k < length bytes" using sh that by (auto simp: presents_def)
      then show ?thesis
        using False that m by (simp add: host_map_def host_zero_def unat_of_nat take_bit_nat_eq_self)
    qed
    then show "presents (host_map ?h0 base ?bs) sz bytes ?a"
      using fresh by (simp add: presents_def)
    show "\<forall>x. h x \<noteq> None \<longrightarrow> host_map ?h0 base ?bs x = h x"
      using fresh(3) n by (auto simp: host_map_def host_zero_def)
  qed simp_all
qed

lemma presents_map_ok: "presents h sz bytes m \<Longrightarrow> map_ok h sz m"
  by (auto simp: presents_def map_ok_def mapped_def)

text \<open>The whole memory of the mapping can be read: the bytes, then zeros.\<close>

definition filled :: "host \<Rightarrow> u64 \<Rightarrow> u8 list \<Rightarrow> memory_map \<Rightarrow> bool" where
  "filled h sz bytes m \<longleftrightarrow>
     (\<forall>k<unat sz. h (mm_begin m + of_nat k) = Some (if k < length bytes then bytes ! k else 0))"

lemma presents_filled: "presents h sz bytes m \<Longrightarrow> mm_max m = sz \<Longrightarrow> filled h sz bytes m"
  by (simp add: presents_def filled_def)

lemma filled_read:
  assumes "filled h sz bytes m"
  shows "host_read h (mm_begin m) (unat sz) = Inr (take (unat sz) (bytes @ replicate (unat sz) 0))"
  using assms by (auto simp: host_read_Inr_iff filled_def nth_append)

text \<open>A file that reaches into the last page of the mapping fills it: the kernel pads that page.\<close>

lemma page_pad:
  fixes L n :: nat
  assumes "0 < n"
  shows "n * ((L + (n - 1)) div n) = L + (n - L mod n) mod n"
proof -
  define q r where "q = L div n" and "r = L mod n"
  have L: "L = n * q + r" "r < n" using assms by (simp_all add: q_def r_def)
  have quot: "(L + (n - 1)) div n = k" if "n * k \<le> L + (n - 1)" "L + (n - 1) < n + n * k" for k
    using that by (intro div_nat_eqI) simp_all
  have "n * ((L + (n - 1)) div n) = L + (n - r) mod n"
  proof (cases "r = 0")
    case True
    have "(L + (n - 1)) div n = q"
      by (rule quot) (use True L assms in linarith)+
    with True L(1) show ?thesis by (simp only: diff_zero mod_self add_0_right)
  next
    case False
    have "n * Suc q = n + n * q" by simp
    then have "(L + (n - 1)) div n = Suc q"
      by (intro quot) (use False L in linarith)+
    moreover have "(n - r) mod n = n - r" using False L(2) by (simp add: mod_less)
    ultimately show ?thesis using L \<open>n * Suc q = n + n * q\<close> by simp
  qed
  then show ?thesis unfolding r_def .
qed

lemma RoundUp_wraps:
  fixes x :: u64
  assumes "p < 64" "2 ^ 64 < unat x + 2 ^ p"
  shows "RoundUp x (2 ^ p) = 0"
proof -
  have "of_nat (2 ^ p - 1) = (2 ^ p - 1 :: u64)" by (simp add: of_nat_diff)
  then have "x + 2 ^ p - 1 = of_nat (unat x + (2 ^ p - 1))" by (simp only: of_nat_add) simp
  also have "\<dots> = of_nat (unat x + (2 ^ p - 1) - 2 ^ 64)"
    using assms(2) by (simp add: of_nat_diff)
  finally have "unat (x + 2 ^ p - 1) \<le> unat x + (2 ^ p - 1) - 2 ^ 64"
    by (simp only: unat_of_nat mod_less_eq_dividend)
  also have "\<dots> < 2 ^ p" using assms(2) unat_u64_less [of x] by linarith
  finally have "unat (RoundUp x (2 ^ p)) = 0" by (simp add: RoundUp_def unat_RoundDown)
  then show ?thesis by (simp add: unat_eq_zero)
qed

lemma file_view_full:
  assumes "p < 64" "\<not> RoundUp (of_nat (min (unat sz) (length bytes - off))) (2 ^ p) < (sz :: u64)"
  shows "length (file_view (2 ^ p) bytes (unat sz) off) = unat sz"
proof (cases "unat sz \<le> length bytes - off")
  case True
  then show ?thesis by (simp add: file_view_def Let_def)
next
  case False
  let ?L = "length bytes - off" and ?x = "of_nat (length bytes - off) :: u64"
  have L: "?L < unat sz" "unat ?x = ?L" using False unat_u64_less [of sz] by (simp_all add: unat_of_nat take_bit_nat_eq_self)
  have le: "unat sz \<le> unat (RoundUp ?x (2 ^ p))" using assms(2) False by (simp add: word_less_nat_alt min_def)
  have fits: "unat ?x + 2 ^ p \<le> 2 ^ 64"
  proof (rule ccontr)
    assume over: "\<not> ?thesis"
    have "RoundUp ?x (2 ^ p) = 0" by (rule RoundUp_wraps [OF assms(1)]) (use over in simp)
    then show False using le L(1) by simp
  qed
  have "unat (RoundUp ?x (2 ^ p)) = ?L + (2 ^ p - ?L mod 2 ^ p) mod 2 ^ p"
    using unat_RoundUp [of ?x p] fits L(2) page_pad [of "2 ^ p" ?L] by simp
  then show ?thesis using le L(1) by (auto simp: file_view_def Let_def min_def)
qed

lemma file_view_nth:
  assumes "k < length (file_view page bytes n off)"
  shows "file_view page bytes n off ! k = (if k < length (drop off bytes) then drop off bytes ! k else 0)"
proof -
  let ?pad = "(page - length (drop off bytes) mod page) mod page"
  have k: "k < n" "k < length (drop off bytes @ replicate ?pad 0)" 
    using assms unfolding file_view_def Let_def length_take min_less_iff_conj by simp_all
  have "file_view page bytes n off ! k = (drop off bytes @ replicate ?pad 0) ! k"
    using k(1) by (simp add: file_view_def Let_def del: take_append)
  also have "\<dots> = (if k < length (drop off bytes) then drop off bytes ! k else 0)"
    using k(2) by (auto simp: nth_append intro!: nth_replicate)
  finally show ?thesis .
qed

lemma MmapFile_range_filled:
  assumes os: "os_ok os" and "os_file os file = Some bytes" "unat off < length bytes"
    and "unat off mod os_page_size os = 0" and pg: "os_page_size os = 2 ^ p" "p < 64"
    and res: "MmapFile_range os h file sz off = (Some m, h1)"
    and big: "\<not> RoundUp (mm_max m) (2 ^ p) < sz"
  shows "filled h1 sz (drop (unat off) bytes) m"
proof -
  let ?view = "file_view (2 ^ p) bytes (unat sz) (unat off)"
  obtain base where m: "mm_begin m = base" "mm_max m = of_nat (min (unat sz) (length bytes - unat off))"
      "h1 = host_map h base ?view"
    using res assms(2-5) by (auto simp: MmapFile_range_def MmapFile_fd_def Let_def split: option.splits)
  have len: "length ?view = unat sz" using file_view_full [OF pg(2)] big m(2) by simp
  have "?view ! k = (if k < length (drop (unat off) bytes) then drop (unat off) bytes ! k else 0)" if "k < unat sz" for k
    using file_view_nth [of k "2 ^ p" bytes "unat sz" "unat off"] that len by simp
  then show ?thesis using len unat_u64_less [of sz] by (simp add: filled_def m host_map_at)
qed

text \<open>C12: mapping a library file over a segment makes the segment show the file. For a segment that has
  no overlay and is not a fake one, when the file can be mapped at the offset (a multiple of the
  page size, a power of two, inside the file) and the host has memory for the anonymous copy, the
  segment afterwards is well formed and its whole memory can be read without a fault from the memory the
  segment is read from: the bytes of the file from that offset, then zeros from the end of the
  file to the end of the segment, whether the file reaches into the last page of the segment or
  is copied to anonymous memory. All host memory that was mapped before is unchanged.\<close>

theorem setMmapFile_presents_file:
  assumes "os_ok os" and "block_ok h b" and "mOverlay b = None" and "\<not> mFake b"
    and "os_file os file = Some bytes" and "unat off < length bytes" and "unat off mod os_page_size os = 0"
    and "os_page_size os = 2 ^ p" and "p < 64" and "os_mmap os h (mMemSize b) \<noteq> None"
    and "os_mmap os (snd (MmapFile_range os h file (mMemSize b) off)) (mMemSize b) \<noteq> None"
  shows "\<exists>b' h'. setMmapFile os h file off b = Inr (b', h') \<and> block_ok h' b' \<and> isValid b' \<and>
    LoadBlock_size OPT_READ_ALL b' = mMemSize b \<and>
    host_read h' (LoadBlock_begin OPT_READ_ALL b') (unat (mMemSize b)) =
      Inr (take (unat (mMemSize b)) (drop (unat off) bytes @ replicate (unat (mMemSize b)) 0)) \<and>
    (\<forall>x. h x \<noteq> None \<longrightarrow> h' x = h x)"
proof -
  let ?sz = "mMemSize b" and ?bs = "drop (unat off) bytes"
  obtain base where base: "os_mmap os h ?sz = Some base" using assms(10) by auto
  obtain m h1 where m: "MmapFile_range os h file ?sz off = (Some m, h1)" "presents h1 ?sz ?bs m"
      "\<forall>x. h x \<noteq> None \<longrightarrow> h1 x = h x"
    by (rule MmapFile_range_presents [OF assms(1,5-7) base])
  have "\<exists>m' h2. setMmapFile os h file off b = Inr (b\<lparr>mMmap := Some m'\<rparr>, h2) \<and> presents h2 ?sz ?bs m' \<and>
      filled h2 ?sz ?bs m' \<and> (\<forall>x. h x \<noteq> None \<longrightarrow> h2 x = h x)"
  proof (cases "RoundUp (mm_max m) (2 ^ p) < ?sz")
    case True
    obtain base2 where b2: "os_mmap os h1 ?sz = Some base2" using assms(11) m(1) by auto
    obtain a h2 where a: "MmapMem os h1 (mm_begin m) ?sz (mm_max m) = Inr (Some a, h2)" "mm_max a = ?sz"
        "presents h2 ?sz ?bs a" "\<forall>x. h1 x \<noteq> None \<longrightarrow> h2 x = h1 x"
      by (rule MmapMem_presents [OF assms(1) m(2) b2])
    have "presents h2 ?sz ?bs (MemoryMap_setFile file off a)" "filled h2 ?sz ?bs (MemoryMap_setFile file off a)"
      using a(3) presents_filled [OF a(3,2)] by (simp_all add: presents_def filled_def MemoryMap_setFile_def)
    then show ?thesis using a m(1,3) assms(3,4,8) True by (auto simp: setMmapFile_def)
  next
    case False
    have "filled h1 ?sz ?bs m" by (rule MmapFile_range_filled [OF assms(1,5-9) m(1) False])
    then show ?thesis using m assms(3,4,8) False by (auto simp: setMmapFile_def)
  qed
  then obtain m' h2 where r: "setMmapFile os h file off b = Inr (b\<lparr>mMmap := Some m'\<rparr>, h2)"
      "presents h2 ?sz ?bs m'" "filled h2 ?sz ?bs m'" "\<forall>x. h x \<noteq> None \<longrightarrow> h2 x = h x"
    by blast
  let ?b = "b\<lparr>mMmap := Some m'\<rparr>"
  have "block_ok h2 ?b"
    using block_ok_mono [OF assms(2), of h2] r(4) presents_map_ok [OF r(2)] assms(3)
    by (auto simp: block_ok_def isValidBlock_def)
  moreover have "LoadBlock_begin OPT_READ_ALL ?b = mm_begin m'" "LoadBlock_size OPT_READ_ALL ?b = ?sz"
    using assms(3) r(2) by (simp_all add: LoadBlock_begin_all LoadBlock_size_all presents_def)
  ultimately show ?thesis
    using r(1,4) filled_read [OF r(3)] by (intro exI [of _ ?b] exI [of _ h2]) (auto simp: isValid_def)
qed

definition demo_file_os :: os_env where
  "demo_file_os = \<lparr>os_file = (\<lambda>f. if f = ''/lib/a.so'' then Some [7, 8, 9] else None),
     os_mmap = (\<lambda>h n. if unat n \<le> 2 ^ 20
                        then find (\<lambda>a. \<forall>x. unat (x - a) < unat n \<longrightarrow> h x = None) [0x7000000, 0x8000000] else None),
     os_page_size = 4096\<rparr>"

lemma demo_file_os_ok: "os_ok demo_file_os"
  by (auto simp: os_ok_def demo_file_os_def find_Some_iff less_Suc_eq split: if_splits)

lemma demo_far:
  assumes "unat ((x :: u64) - 0x8000000) < 0x2000"
  shows "\<not> unat (x - 0x7000000) < 0x1000"
proof -
  have "x - 0x7000000 = (x - 0x8000000) + 0x1000000" by simp
  also have "unat \<dots> = unat (x - 0x8000000) + unat (0x1000000 :: u64)"
    using assms by (intro unat_add_no_wrap) simp
  finally show ?thesis by simp
qed

lemma demo_file_mapped:
  "snd (MmapFile_range demo_file_os (\<lambda>_. None) ''/lib/a.so'' 0x2000 0) =
     host_map (\<lambda>_. None) 0x7000000 ([7, 8, 9] @ replicate 4093 0)"
  by (simp add: MmapFile_range_def MmapFile_fd_def file_view_def demo_file_os_def Let_def)

theorem setMmapFile_presents_file_witness:
  "\<exists>b' h'. setMmapFile demo_file_os (\<lambda>_. None) ''/lib/a.so'' 0 (demo_block 0x3000 0x2000) = Inr (b', h') \<and>
     host_read h' (LoadBlock_begin OPT_READ_ALL b') 0x2000 = Inr ([7, 8, 9] @ replicate 0x1ffd 0)"
proof -
  let ?b = "demo_block 0x3000 0x2000"
  have b: "block_ok (\<lambda>_. None) ?b" by (simp add: block_ok_def isValidBlock_def demo_defs)
  have rest: "mOverlay ?b = None" "\<not> mFake ?b" "os_file demo_file_os ''/lib/a.so'' = Some [7, 8, 9]"
      "unat (0 :: u64) < length [7, 8, 9 :: u8]" "unat (0 :: u64) mod os_page_size demo_file_os = 0"
      "os_page_size demo_file_os = 2 ^ 12" "12 < (64 :: nat)"
      "os_mmap demo_file_os (\<lambda>_. None) (mMemSize ?b) \<noteq> None"
    by (simp_all add: demo_file_os_def demo_defs)
  have more: "os_mmap demo_file_os (snd (MmapFile_range demo_file_os (\<lambda>_. None) ''/lib/a.so'' (mMemSize ?b) 0)) (mMemSize ?b) \<noteq> None"
  proof -
    have "mMemSize ?b = 0x2000" by (simp add: demo_defs)
    moreover have "host_map (\<lambda>_. None) 0x7000000 ([7, 8, 9] @ replicate 4093 0) x = None"
      if "unat (x - 0x8000000) < 0x2000" for x
      using demo_far [OF that] by (simp add: host_map_def)
    ultimately show ?thesis by (simp add: demo_file_mapped) (simp add: demo_file_os_def)
  qed
  from setMmapFile_presents_file [OF demo_file_os_ok b rest more] show ?thesis
    by (auto simp: demo_defs)
qed

end
