(* ===== verification/RefProps.thy ===== *)
theory RefProps
  imports Segments
begin

unbundle bit_operations_syntax

text \<open>
  Properties of \<open>api::MemoryRef\<close> (core/api/memory_ref.h) and of the walk over a dynamic section
  (\<open>api::Elf::FindDynamicEntry\<close>, core/api/elf.cpp).
\<close>

section \<open>References\<close>

text \<open>The outcome of an accessor without the reference it returns.\<close>

definition outcome :: "('a \<times> memory_ref) res \<Rightarrow> 'a res" where
  "outcome x = res_bind x (\<lambda>(v, _). Inr v)"

lemma outcome_valueNOf:
  assumes "core_ok c" "ref_ok c r" "ref_vaddr r \<noteq> 0"
  shows "outcome (valueNOf n off c r) =
    res_bind (GetReal (ref_vaddr r) c) (\<lambda>a. host_word (mem c) (a + off) n)"
  using Real_eq_GetReal [OF assms]
  by (cases "GetReal (ref_vaddr r) c") (auto simp: valueNOf_def outcome_def res_bind_assoc res_bind_right_id)

text \<open>C10: the segment cache of a memory reference is transparent. On a core that satisfies the
  invariant, a reference whose cached segment is the one its address lies in gives the
  same value and the same exception as a fresh reference to the same address, every accessor
  and every move of the pointer keeps the cache consistent, and a copy that inherits the
  segment of another reference is consistent too.\<close>

theorem ref_cache_transparent:
  assumes "core_ok c" "ref_ok c r" "ref_vaddr r \<noteq> 0"
  shows "outcome (valueNOf n off c r) = outcome (valueNOf n off c (new_memory_ref (ref_vaddr r))) \<and>
    (\<forall>v r'. valueNOf n off c r = Inr (v, r') \<longrightarrow> ref_ok c r' \<and> ref_vaddr r' = ref_vaddr r) \<and>
    (\<forall>r'. MovePtr len c r = Inr r' \<longrightarrow> ref_ok c r' \<and> ref_vaddr r' = ref_vaddr r + len) \<and>
    ref_ok c (new_ref_from v r c)"
proof (intro conjI allI impI)
  show "outcome (valueNOf n off c r) = outcome (valueNOf n off c (new_memory_ref (ref_vaddr r)))"
    using outcome_valueNOf [OF assms] outcome_valueNOf [OF assms(1) ref_ok_new] assms(3)
    by (simp add: new_memory_ref_def)
qed (use assms valueNOf_ref_ok MovePtr_ref_ok ref_ok_copy in blast)+

definition demo_bytes :: "u8 list" where
  "demo_bytes = [1, 2, 3, 4, 5, 6, 7, 8]"

lemma demo_fits: "flat_fits 0x1000 demo_bytes"
  by (simp add: flat_fits_def demo_bytes_def)

theorem ref_cache_transparent_witness:
  "outcome (valueNOf 2 2 (flat_core EM_ARM 0x1000 demo_bytes) \<lparr>ref_vaddr = 0x1000, ref_block = Some 0\<rparr>) = Inr 0x0403"
proof -
  let ?c = "flat_core EM_ARM 0x1000 demo_bytes" and ?r = "\<lparr>ref_vaddr = 0x1000, ref_block = Some 0\<rparr>"
  note seg = flat_valid_seg [OF demo_fits, of EM_ARM]
  have ins: "inside ?c 0 0x1000 8" using flat_inside [OF demo_fits, of 8 0] by (simp add: demo_bytes_def)
  have r: "ref_ok ?c ?r" using inside_found(1) [OF seg ins] by (simp add: ref_ok_def)
  have "target_word ?c (0x1000 + of_nat 2) 2 = le_word (take 2 (drop 2 demo_bytes))"
    by (rule flat_word [OF demo_fits]) (simp_all add: demo_bytes_def)
  then have "target_word ?c 0x1002 2 = 0x0403" by (simp add: demo_bytes_def le_word_def)
  then have "outcome (valueNOf 2 2 ?c (new_memory_ref 0x1000)) = Inr 0x0403"
    using uint16.get_at [OF seg ins, of 2 None] by (simp add: outcome_def new_memory_ref_def)
  then show ?thesis
    using ref_cache_transparent [OF flat_core_ok [OF demo_fits] r, of 2 2] by simp
qed

section \<open>The dynamic section\<close>

text \<open>Type and value of entry \<open>k\<close> of the dynamic section at \<open>a\<close>, in the segment \<open>i\<close>.\<close>

definition dyn_stride :: "core \<Rightarrow> nat" where "dyn_stride c = unat (d_THIS (dyn_off c))"
definition dyn_val_off :: "core \<Rightarrow> nat" where "dyn_val_off c = unat (d_val (dyn_off c))"

definition dyn_type :: "core \<Rightarrow> nat \<Rightarrow> u64 \<Rightarrow> nat \<Rightarrow> u64" where
  "dyn_type c i a k = masked_word c i (a + of_nat (k * dyn_stride c))"

definition dyn_val :: "core \<Rightarrow> nat \<Rightarrow> u64 \<Rightarrow> nat \<Rightarrow> u64" where
  "dyn_val c i a k = masked_word c i (a + of_nat (k * dyn_stride c + dyn_val_off c))"

lemma dyn_off_cases:
  "(dyn_stride c = 16 \<and> dyn_val_off c = 8) \<or> (dyn_stride c = 8 \<and> dyn_val_off c = 4)"
  by (cases "core_machine c") (simp_all add: dyn_stride_def dyn_val_off_def Elfx_Dynamic_Init_def Let_def)

lemma dyn_off_ucast:
  "ucast (d_type (dyn_off c)) = (of_nat 0 :: u64)" "ucast (d_val (dyn_off c)) = (of_nat (dyn_val_off c) :: u64)"
  "ucast (d_THIS (dyn_off c)) = (of_nat (dyn_stride c) :: u64)"
  by (simp_all add: dyn_stride_def dyn_val_off_def Elfx_Dynamic_Init_def Let_def)

lemma dynamic_loop_entries:
  assumes vs: "valid_seg c i" and ins: "inside c i a (Suc n * dyn_stride c)"
    and live: "\<And>j. k < j \<Longrightarrow> j < n \<Longrightarrow> dyn_type c i a j \<noteq> 0" and last: "dyn_type c i a n = 0"
    and ty: "type \<noteq> 0"
  shows "k < n \<Longrightarrow> b = None \<or> b = Some i \<Longrightarrow>
    dynamic_loop c type \<lparr>ref_vaddr = a + of_nat (k * dyn_stride c), ref_block = b\<rparr> =
    Inr (case find (\<lambda>j. dyn_type c i a j = type) [k..<n] of Some j \<Rightarrow> dyn_val c i a j | None \<Rightarrow> 0)"
  using live
proof (induction "n - k" arbitrary: k b)
  case 0
  then show ?case by simp
next
  case (Suc d)
  let ?S = "dyn_stride c" and ?r = "\<lambda>k b. \<lparr>ref_vaddr = a + of_nat (k * dyn_stride c), ref_block = b\<rparr>"
  have S: "dyn_val_off c + 8 \<le> 2 * ?S" "8 \<le> ?S" using dyn_off_cases [of c] by auto
  have "k * ?S < Suc n * ?S" using Suc.prems(1) S(2) by (intro mult_less_mono1) auto
  then have here: "inside c i (a + of_nat (k * ?S)) ((Suc n - k) * ?S)"
    using inside_shift(1) [OF vs ins, of "k * ?S"] by (simp add: diff_mult_distrib)
  have two: "2 * ?S \<le> (Suc n - k) * ?S" using Suc.prems(1) by (intro mult_le_mono1) linarith
  have type_k: "valueOf (of_nat 0) c (?r k b) = Inr (dyn_type c i a k, ?r k (Some i))"
    using pointer.get_at [OF vs here, of 0 b] Suc.prems(2) S two by (simp add: dyn_type_def)
  have val_k: "valueOf (of_nat (dyn_val_off c)) c (?r k (Some i)) = Inr (dyn_val c i a k, ?r k (Some i))"
    using pointer.get_at [OF vs here, of "dyn_val_off c" "Some i"] S two by (simp add: dyn_val_def add.assoc)
  have move: "MovePtr (of_nat ?S) c (?r k (Some i)) = Inr (?r (Suc k) (Some i))"
    using MovePtr_inside [OF vs ref_ok_inside [OF vs], of "?r k b" _ "(Suc n - k) * ?S" ?S] here S two
    by (simp add: algebra_simps)
  have there: "inside c i (a + of_nat (Suc k * ?S)) ((n - k) * ?S)"
    and up: "unat (a + of_nat (Suc k * ?S)) = unat (a + of_nat (k * ?S)) + ?S"
    using inside_shift [OF vs here, of ?S] S two Suc.prems(1) by (simp_all add: algebra_simps diff_mult_distrib)
  have "1 * ?S \<le> (n - k) * ?S" using Suc.prems(1) by (intro mult_le_mono1) simp
  then have "0 + 8 \<le> (n - k) * ?S" using S by linarith
  then have type_next: "valueOf (of_nat 0) c (?r (Suc k) (Some i)) = Inr (dyn_type c i a (Suc k), ?r (Suc k) (Some i))"
    using pointer.get_at [OF vs there, of 0 "Some i"] by (simp add: dyn_type_def)
  have less: "a + of_nat (k * ?S) < a + of_nat (Suc k * ?S)" using up S by (simp add: word_less_nat_alt)
  have IH: "dynamic_loop c type (?r (Suc k) (Some i)) =
      Inr (case find (\<lambda>j. dyn_type c i a j = type) [Suc k..<n] of Some j \<Rightarrow> dyn_val c i a j | None \<Rightarrow> 0)"
    if "Suc k < n"
    using Suc.hyps(1) [of "Suc k" "Some i"] Suc.hyps(2) that Suc.prems(3) by simp
  have upt: "[k..<n] = k # [Suc k..<n]" using Suc.prems(1) by (rule upt_conv_Cons)
  show ?case
  proof (cases "Suc k < n")
    case True
    then show ?thesis
      unfolding dynamic_loop.simps [of c type "?r k b"] dyn_off_ucast type_k
      using val_k move type_next less IH Suc.prems(3) [of "Suc k"] upt by simp
  next
    case False
    then have "Suc k = n" using Suc.prems(1) by simp
    then show ?thesis
      unfolding dynamic_loop.simps [of c type "?r k b"] dyn_off_ucast type_k
      using val_k move type_next last upt by simp
  qed
qed


definition demo_dynamic :: "u8 list" where
  "demo_dynamic =
     [5, 0, 0, 0, 0, 0, 0, 0,   0, 0x40, 0, 0, 0, 0, 0, 0,
      6, 0, 0, 0, 0, 0, 0, 0,   0, 0x50, 0, 0, 0, 0, 0, 0,
      11, 0, 0, 0, 0, 0, 0, 0,   24, 0, 0, 0, 0, 0, 0, 0,
      0, 0, 0, 0, 0, 0, 0, 0,   0, 0, 0, 0, 0, 0, 0, 0]"

lemma demo_dynamic_length: "length demo_dynamic = 64"
  by (simp add: demo_dynamic_def)

lemma demo_dynamic_fits: "flat_fits 0x2000 demo_dynamic"
  using demo_dynamic_length by (auto simp: flat_fits_def)

lemma demo_dynamic_word:
  assumes "k \<le> 56"
  shows "masked_word (flat_core EM_X86_64 0x2000 demo_dynamic) 0 (0x2000 + of_nat k) =
    le_word (take 8 (drop k demo_dynamic))"
  using flat_word [OF demo_dynamic_fits, of k 8] assms demo_dynamic_length
  by (simp add: masked_word_def flat_block_def)


end
