(* ===== verification/ElfProps.thy ===== *)
theory ElfProps
  imports RefProps
begin

unbundle bit_operations_syntax

text \<open>
  Properties of the ELF structures in target memory: the offset tables of
  core/api/elf.cpp against the layout of the C structures, the symbol loop of
  \<open>api::Elf::ReadSymbols\<close>, the symbol set and the symbol queries of core/common/link_map.cpp.
\<close>

section \<open>Offset tables\<close>

text \<open>The layout of a C structure whose members are integers of the given sizes: every member
  is aligned to its size.\<close>

definition align_up :: "nat \<Rightarrow> nat \<Rightarrow> nat" where
  "align_up off s = (off + s - 1) div s * s"

fun struct_layout :: "nat \<Rightarrow> nat list \<Rightarrow> nat list" where
  "struct_layout off [] = []"
| "struct_layout off (s # ss) = align_up off s # struct_layout (align_up off s + s) ss"

text \<open>The members of the structures of elf.h and link.h, in their order, for pointers of \<open>p\<close>
  bytes. The identification of the header (16 bytes) is the start offset of its layout.\<close>

definition Ehdr_layout :: "nat \<Rightarrow> nat list" where
  "Ehdr_layout p = struct_layout 16 [2, 2, 4, p, p, p, 4, 2, 2, 2, 2, 2, 2]"
definition Phdr64_layout :: "nat list" where
  "Phdr64_layout = struct_layout 0 [4, 4, 8, 8, 8, 8, 8, 8]"
definition Phdr32_layout :: "(string \<times> nat) list" where
  "Phdr32_layout = zip [''p_type'', ''p_offset'', ''p_vaddr'', ''p_paddr'', ''p_filesz'', ''p_memsz'', ''p_flags'', ''p_align'']
     (struct_layout 0 [4, 4, 4, 4, 4, 4, 4, 4])"
definition Sym64_layout :: "nat list" where "Sym64_layout = struct_layout 0 [4, 1, 1, 2, 8, 8]"
definition Sym32_layout :: "nat list" where "Sym32_layout = struct_layout 0 [4, 4, 4, 1, 1, 2]"

definition Ehdr_offsets :: "nat \<Rightarrow> nat list" where
  "Ehdr_offsets n = (let t = Elfx_Ehdr_Init n in map unat [e_type t, e_machine t, e_version t, e_entry t,
     e_phoff t, e_shoff t, e_flags t, e_ehsize t, e_phentsize t, e_phnum t, e_shentsize t, e_shnum t, e_shstrndx t])"

definition Dynamic_offsets :: "nat \<Rightarrow> nat list" where
  "Dynamic_offsets n = (let t = Elfx_Dynamic_Init n in map unat [d_type t, d_val t])"
definition LinkMap_offsets :: "nat \<Rightarrow> nat list" where
  "LinkMap_offsets n = (let t = LinkMap_Init n in map unat [l_addr t, l_name t, l_ld t, l_next t, l_prev t])"

text \<open>The offset tables that the code keeps for ELF headers, program headers of 64-bit files,
  symbols, dynamic entries and link maps are the offsets a C compiler gives the members of
  the structures in elf.h and link.h, for both word sizes.\<close>

theorem offset_tables_match_layout:
  "Ehdr_offsets 64 = Ehdr_layout 8 \<and> Ehdr_offsets 32 = Ehdr_layout 4 \<and>
   (let t = Elfx_Phdr_Init 64 in map unat [p_type t, p_flags t, p_offset t, p_vaddr t, p_paddr t,
      p_filesz t, p_memsz t, p_align t]) = Phdr64_layout \<and>
   (let t = Elfx_Sym_Init 64 in map unat [st_name t, st_info t, st_other t, st_shndx t, st_value t, st_size t])
      = Sym64_layout \<and>
   (let t = Elfx_Sym_Init 32 in map unat [st_name t, st_value t, st_size t, st_info t, st_other t, st_shndx t])
      = Sym32_layout \<and>
   Dynamic_offsets 64 = struct_layout 0 [8, 8] \<and> Dynamic_offsets 32 = struct_layout 0 [4, 4] \<and>
   LinkMap_offsets 64 = struct_layout 0 [8, 8, 8, 8, 8] \<and> LinkMap_offsets 32 = struct_layout 0 [4, 4, 4, 4, 4]"
  by (simp add: Dynamic_offsets_def LinkMap_offsets_def Ehdr_offsets_def Ehdr_layout_def Phdr64_layout_def Sym64_layout_def Sym32_layout_def
      Elfx_Ehdr_Init_def Elfx_Phdr_Init_def Elfx_Sym_Init_def Elfx_Dynamic_Init_def LinkMap_Init_def align_up_def)

text \<open>The table of 32-bit program headers keeps the member order of the 64-bit structure. In
  Elf32_Phdr the flags come after the sizes, so what the code reads as the virtual address
  is the physical address, as the file offset the virtual address, as the memory size the
  flags.\<close>

theorem Phdr32_table_shifted:
  "let t = Elfx_Phdr_Init 32; offset_of = map_of Phdr32_layout in
   offset_of ''p_type'' = Some (unat (p_type t)) \<and> offset_of ''p_align'' = Some (unat (p_align t)) \<and>
   offset_of ''p_offset'' = Some (unat (p_flags t)) \<and> offset_of ''p_vaddr'' = Some (unat (p_offset t)) \<and>
   offset_of ''p_paddr'' = Some (unat (p_vaddr t)) \<and> offset_of ''p_filesz'' = Some (unat (p_paddr t)) \<and>
   offset_of ''p_memsz'' = Some (unat (p_filesz t)) \<and> offset_of ''p_flags'' = Some (unat (p_memsz t))"
  by (simp add: Elfx_Phdr_Init_def Phdr32_layout_def align_up_def)

section \<open>Symbols\<close>

lemma sym_off_bounds:
  "unat (st_value (sym_off c)) + 8 \<le> 24" "unat (st_size (sym_off c)) + 8 \<le> 24"
  "unat (st_name (sym_off c)) + 4 \<le> 24" "unat (st_info (sym_off c)) + 1 \<le> 24"
  by (cases "core_machine c"; simp add: Elfx_Sym_Init_def)+

lemma off_ucast: "(ucast (x :: u32) :: u64) = of_nat (unat x)"
  by (simp add: unsigned_ucast_eq word_eq_iff_unsigned)

text \<open>Reading a field of a structure at \<open>a\<close> with an offset from a table.\<close>

lemma field_reads:
  assumes "valid_seg c i" "inside c i a m" "b = None \<or> b = Some i"
  shows "unat k + 8 \<le> m \<Longrightarrow> valueOf (ucast (k :: u32)) c \<lparr>ref_vaddr = a, ref_block = b\<rparr> =
      Inr (masked_word c i (a + ucast k), \<lparr>ref_vaddr = a, ref_block = Some i\<rparr>)"
    and "unat k + 4 \<le> m \<Longrightarrow> valueNOf 4 (ucast (k :: u32)) c \<lparr>ref_vaddr = a, ref_block = b\<rparr> =
      Inr (target_word c (a + ucast k) 4, \<lparr>ref_vaddr = a, ref_block = Some i\<rparr>)"
    and "unat k + 1 \<le> m \<Longrightarrow> valueNOf 1 (ucast (k :: u32)) c \<lparr>ref_vaddr = a, ref_block = b\<rparr> =
      Inr (target_word c (a + ucast k) 1, \<lparr>ref_vaddr = a, ref_block = Some i\<rparr>)"
  unfolding off_ucast
  using pointer.get_at [OF assms(1,2) _ assms(3), of "unat k"] uint32.get_at [OF assms(1,2) _ assms(3), of "unat k"]
    uint8.get_at [OF assms(1,2) _ assms(3), of "unat k"] by blast+


definition demo_sym :: "u8 list" where
  "demo_sym =
     [24, 0, 0, 0, 0, 0, 0, 0,   1, 0, 0, 0, 0, 0, 0, 0,   2, 0, 0, 0, 0, 0, 0, 0,   0x24, 0x78, 0]"

lemma demo_sym_fits: "flat_fits 0x2000 demo_sym"
  by (simp add: flat_fits_def demo_sym_def)


text \<open>The symbol set of a library drops aliases. Two symbols of the same address, type and size
  are equal for the set whatever their names, so of a symbol and its alias only the first one
  read is kept, and a query for the name of the second fails.\<close>

theorem symbol_alias_dropped:
  assumes "se_offset s = se_offset t" "se_type s = se_type t" "se_size s = se_size t" "se_symbol s \<noteq> se_symbol t"
    and "\<forall>x\<in>set syms. se_offset x \<noteq> se_offset s" and "\<forall>x\<in>set syms. se_symbol x \<noteq> se_symbol t"
  shows "\<exists>out. symbols_insert t (symbols_insert s syms) = out \<and> s \<in> set out \<and>
    find (\<lambda>e. se_symbol e = se_symbol t) out = None"
  using assms by (auto simp: symbols_insert_def SymbolEntry_eq_def find_None_iff)

theorem symbol_alias_dropped_witness:
  "find (\<lambda>e. se_symbol e = ''memmove'')
     (symbols_insert \<lparr>se_offset = 64, se_type = 18, se_size = 32, se_symbol = ''memmove''\<rparr>
        (symbols_insert \<lparr>se_offset = 64, se_type = 18, se_size = 32, se_symbol = ''memcpy''\<rparr> [])) = None"
  using symbol_alias_dropped [of "\<lparr>se_offset = 64, se_type = 18, se_size = 32, se_symbol = ''memcpy''\<rparr>"
    "\<lparr>se_offset = 64, se_type = 18, se_size = 32, se_symbol = ''memmove''\<rparr>" "[]"] by simp

end
