(* ===== verification/LinkProps.thy ===== *)
theory LinkProps
  imports Libraries ElfProps
begin

unbundle bit_operations_syntax

text \<open>
  The walk over the link maps of the dynamic linker (\<open>loadLinkMap64\<close> of core/lp64/core.cpp and
  \<open>loadLinkMap32\<close> of core/lp32/core.cpp): it returns on a list that ends, with one link
  map per node, and does not return on a cyclic list.
\<close>

section \<open>What reading target memory depends on\<close>

text \<open>The list of link maps found so far has no influence on reads of target memory.\<close>

named_theorems link_indep

lemma core_links [link_indep]:
  "blocks (c\<lparr>mLinkMaps := ls\<rparr>) = blocks c" "mem (c\<lparr>mLinkMaps := ls\<rparr>) = mem c"
  "mQuickLoad (c\<lparr>mLinkMaps := ls\<rparr>) = mQuickLoad c" "mLoad (c\<lparr>mLinkMaps := ls\<rparr>) = mLoad c"
  "vabits_mask (c\<lparr>mLinkMaps := ls\<rparr>) = vabits_mask c" "pointer_mask (c\<lparr>mLinkMaps := ls\<rparr>) = pointer_mask c"
  "core_machine (c\<lparr>mLinkMaps := ls\<rparr>) = core_machine c"
  by simp_all

lemma v2r_links [link_indep]: "v2r a opt (c\<lparr>mLinkMaps := ls\<rparr>) = v2r a opt c"
  unfolding v2r_def findLoadBlock_def getLoads_def link_indep ..

lemma Prepare_links [link_indep]: "Prepare chk (c\<lparr>mLinkMaps := ls\<rparr>) r = Prepare chk c r"
  unfolding Prepare_def FindLoadBlock_def findLoadBlock_def getLoads_def link_indep ..

lemma Real_links [link_indep]: "Real (c\<lparr>mLinkMaps := ls\<rparr>) r = Real c r"
  unfolding Real_def link_indep ..

lemma MovePtr_links [link_indep]: "MovePtr n (c\<lparr>mLinkMaps := ls\<rparr>) r = MovePtr n c r"
  unfolding MovePtr_def link_indep ..

lemma Ref_IsValid_links [link_indep]: "Ref_IsValid (c\<lparr>mLinkMaps := ls\<rparr>) r = Ref_IsValid c r"
  unfolding Ref_IsValid_def link_indep ..

lemma valueNOf_links [link_indep]: "valueNOf n off (c\<lparr>mLinkMaps := ls\<rparr>) r = valueNOf n off c r"
  unfolding valueNOf_def link_indep ..

lemma valueOf_links [link_indep]: "valueOf off (c\<lparr>mLinkMaps := ls\<rparr>) r = valueOf off c r"
  unfolding valueOf_def Ref_PointMask_def link_indep ..

lemma IsElf_links [link_indep]: "IsElf (c\<lparr>mLinkMaps := ls\<rparr>) r = IsElf c r"
  unfolding IsElf_def link_indep ..

lemma dynamic_loop_links [link_indep]: "dynamic_loop (c\<lparr>mLinkMaps := ls\<rparr>) type r = dynamic_loop c type r"
proof (induction c type r rule: dynamic_loop.induct)
  case (1 c type r)
  show ?case
    unfolding dynamic_loop.simps [of c type r] dynamic_loop.simps [of "c\<lparr>mLinkMaps := ls\<rparr>" type r]
    by (auto simp: link_indep "1.IH" split: sum.splits)
qed

lemma FindDynamicEntry_links [link_indep]: "FindDynamicEntry (c\<lparr>mLinkMaps := ls\<rparr>) t r = FindDynamicEntry c t r"
  unfolding FindDynamicEntry_def link_indep ..

lemma find_lib_dynamic_links [link_indep]:
  "find_lib_dynamic n (c\<lparr>mLinkMaps := ls\<rparr>) laddr r = find_lib_dynamic n c laddr r"
proof (induction n arbitrary: r)
  case (Suc n)
  show ?case unfolding find_lib_dynamic.simps link_indep Suc ..
qed simp

lemma new_ref_from_links [link_indep]: "new_ref_from v r (c\<lparr>mLinkMaps := ls\<rparr>) = new_ref_from v r c"
  unfolding new_ref_from_def copyRef_def checkCopyBlock_def link_indep ..

lemma FindDynamic_links [link_indep]: "FindDynamic (c\<lparr>mLinkMaps := ls\<rparr>) lm = FindDynamic c lm"
  unfolding FindDynamic_def LinkMap_l_ld_def LinkMap_l_addr_def link_indep ..

lemma symbols_loop_links [link_indep]:
  "symbols_loop n (c\<lparr>mLinkMaps := ls\<rparr>) ent tables r syms = symbols_loop n c ent tables r syms"
  by (induction n arbitrary: r syms) (simp_all add: link_indep Let_def cong: sum.case_cong prod.case_cong if_cong)

lemma new_LinkMap_links [link_indep]: "new_LinkMap (c\<lparr>mLinkMaps := ls\<rparr>) m = new_LinkMap c m"
  unfolding new_LinkMap_def ReadDynsyms_def Elf_ReadSymbols_def LinkMap_l_addr_def link_indep ..

section \<open>The walk\<close>

text \<open>The pointer to the next node in the node at \<open>m\<close>.\<close>

definition next_link :: "elf_class \<Rightarrow> core \<Rightarrow> u64 \<Rightarrow> u64 res" where
  "next_link cls c m =
     res_bind (GetReal m c) (\<lambda>link. host_word (mem c) (link + 3 * of_nat (ptr_size cls)) (ptr_size cls))"

text \<open>A list of nodes in target memory that ends with a null pointer, and its link maps.\<close>

inductive link_chain :: "elf_class \<Rightarrow> core \<Rightarrow> u64 \<Rightarrow> link_map list \<Rightarrow> bool" for cls c where
  chain_end: "link_chain cls c 0 []"
| chain_node: "m \<noteq> 0 \<Longrightarrow> new_LinkMap c m = Inr lm \<Longrightarrow> next_link cls c m = Inr m' \<Longrightarrow>
    link_chain cls c m' lms \<Longrightarrow> link_chain cls c m (lm # lms)"

lemma link_loop_step:
  assumes "m \<noteq> 0" "new_LinkMap c m = Inr lm" "next_link cls c m = Inr m'"
  shows "link_loop cls m (c\<lparr>mLinkMaps := ls\<rparr>) = link_loop cls m' (c\<lparr>mLinkMaps := ls @ [lm]\<rparr>)"
proof -
  obtain link where "GetReal m c = Inr link"
      "host_word (mem c) (link + 3 * of_nat (ptr_size cls)) (ptr_size cls) = Inr m'"
    using assms(3) by (auto simp: next_link_def res_bind_Inr_iff)
  then show ?thesis
    using assms(1,2) by (subst link_loop.simps) (simp add: addLinkMap_def link_indep)
qed

lemma link_loop_chain:
  "link_chain cls c m lms \<Longrightarrow>
   link_loop cls m (c\<lparr>mLinkMaps := ls\<rparr>) = Some (Inr (c\<lparr>mLinkMaps := ls @ lms\<rparr>))"
proof (induction arbitrary: ls rule: link_chain.induct)
  case chain_end
  then show ?case by (subst link_loop.simps) simp
next
  case (chain_node m lm m' lms)
  then show ?case using link_loop_step [of m c lm cls m' ls] by simp
qed

text \<open>C15: the walk over the link map list returns on every list that ends with a null pointer,
  with one link map per node appended in the order of the list and nothing else changed.\<close>

theorem link_loop_returns:
  assumes "link_chain cls c m lms"
  shows "link_loop cls m c = Some (Inr (c\<lparr>mLinkMaps := mLinkMaps c @ lms\<rparr>))"
  using link_loop_chain [OF assms, of "mLinkMaps c"] by simp

lemma new_LinkMap_zero:
  assumes "valid_seg c i" "inside c i a 8" "masked_word c i a = 0"
  shows "new_LinkMap c a = Inr \<lparr>lm_ref = \<lparr>ref_vaddr = a, ref_block = Some i\<rparr>, addr_cache = new_memory_ref 0,
    name_cache = new_memory_ref 0, dynsyms = []\<rparr>"
proof -
  have "ucast (l_addr (lm_off c)) = (of_nat 0 :: u64)" by (simp add: LinkMap_Init_def Let_def)
  then have "valueOf (ucast (l_addr (lm_off c))) c (new_memory_ref a) = Inr (0, \<lparr>ref_vaddr = a, ref_block = Some i\<rparr>)"
    using pointer.get_at [OF assms(1,2), of 0 None] assms(3) by (simp add: new_memory_ref_def)
  then show ?thesis
    by (simp add: new_LinkMap_def ReadDynsyms_def Elf_ReadSymbols_def LinkMap_l_addr_def)
qed

lemma le_word_zero: "le_word (replicate n 0) = (0 :: u64)"
proof -
  have "le_val (replicate n 0) = 0" by (induction n) simp_all
  then show ?thesis by (simp add: le_word_def)
qed

text \<open>Two nodes at 0x2000 and 0x2028; the second one points to \<open>n\<close>.\<close>

definition demo_links :: "u8 list \<Rightarrow> u8 list" where
  "demo_links n = replicate 24 0 @ [0x28, 0x20, 0, 0, 0, 0, 0, 0] @ replicate 32 0 @ n @ replicate 8 0"

abbreviation demo_link_core :: "u8 list \<Rightarrow> core" where
  "demo_link_core n \<equiv> flat_core EM_X86_64 0x2000 (demo_links n)"

definition demo_lm :: "u64 \<Rightarrow> link_map" where
  "demo_lm a = \<lparr>lm_ref = \<lparr>ref_vaddr = a, ref_block = Some 0\<rparr>, addr_cache = new_memory_ref 0,
     name_cache = new_memory_ref 0, dynsyms = []\<rparr>"

lemma demo_link_node:
  assumes "length n = 8" "k = 0 \<or> k = 40"
  shows "new_LinkMap (demo_link_core n) (0x2000 + of_nat k) = Inr (demo_lm (0x2000 + of_nat k))"
    and "next_link ELF64 (demo_link_core n) (0x2000 + of_nat k) =
      Inr (le_word (take 8 (drop (k + 24) (demo_links n))))"
proof -
  have len: "length (demo_links n) = 80" using assms(1) by (simp add: demo_links_def)
  then have fit: "flat_fits 0x2000 (demo_links n)" by (auto simp: flat_fits_def)
  have "take 8 (drop k (demo_links n)) = replicate 8 0"
    using assms by (auto simp: demo_links_def)
  then have w: "masked_word (demo_link_core n) 0 (0x2000 + of_nat k) = 0"
    using flat_word [OF fit, of k 8] len assms(2) by (auto simp: masked_word_def le_word_zero)
  have "inside (demo_link_core n) 0 (0x2000 + of_nat k) 8"
    using flat_inside [OF fit, of 8 k] len assms(2) by auto
  from new_LinkMap_zero [OF flat_valid_seg [OF fit] this w]
  show "new_LinkMap (demo_link_core n) (0x2000 + of_nat k) = Inr (demo_lm (0x2000 + of_nat k))"
    by (simp add: demo_lm_def)
  have "GetReal (0x2000 + of_nat k) (demo_link_core n) = Inr (0x10000 + of_nat k)"
    using flat_GetReal [OF fit, of k] len assms(2) by auto
  then show "next_link ELF64 (demo_link_core n) (0x2000 + of_nat k) =
      Inr (le_word (take 8 (drop (k + 24) (demo_links n))))"
    using flat_host_word [OF fit, of "k + 24" 8 EM_X86_64] len assms(2) by (auto simp: next_link_def)
qed

theorem link_loop_returns_witness:
  "link_loop ELF64 0x2000 (demo_link_core [0, 0, 0, 0, 0, 0, 0, 0]) =
     Some (Inr ((demo_link_core [0, 0, 0, 0, 0, 0, 0, 0])\<lparr>mLinkMaps := [demo_lm 0x2000, demo_lm 0x2028]\<rparr>))"
proof -
  let ?c = "demo_link_core [0, 0, 0, 0, 0, 0, 0, 0]"
  note n = demo_link_node [of "[0, 0, 0, 0, 0, 0, 0, 0]" 0] demo_link_node [of "[0, 0, 0, 0, 0, 0, 0, 0]" 40]
  have nx: "next_link ELF64 ?c 0x2000 = Inr 0x2028" "next_link ELF64 ?c 0x2028 = Inr 0"
    using n(2,4) by (simp_all add: demo_links_def le_word_def)
  have "link_chain ELF64 ?c 0x2028 [demo_lm 0x2028]"
    using n(3) nx(2) by (intro chain_node [OF _ _ _ chain_end]) simp_all
  then have "link_chain ELF64 ?c 0x2000 [demo_lm 0x2000, demo_lm 0x2028]"
    using n(1) nx(1) by (intro chain_node [of "0x2000"]) simp_all
  from link_loop_returns [OF this] show ?thesis by (simp add: flat_defs)
qed

text \<open>C16: the walk does not return on a cyclic list. When every node of a set of addresses is readable
  and points to a node of the set, the loop started there never ends, and it keeps adding link
  maps: a core file with a damaged link list hangs the tool.\<close>

theorem link_loop_cycle_diverges:
  assumes "m \<in> S" and "0 \<notin> S" and "\<forall>x\<in>S. (\<exists>lm. new_LinkMap c x = Inr lm) \<and> (\<exists>y\<in>S. next_link cls c x = Inr y)"
  shows "link_loop cls m c = None"
proof -
  define P where "P = (\<lambda>cls' m' c' (r :: core res). cls' = cls \<and> m' \<in> S \<and> (\<exists>ls. c' = c\<lparr>mLinkMaps := ls\<rparr>) \<longrightarrow> False)"
  have diverges: "P cls' m' c' r" if "link_loop cls' m' c' = Some r" for cls' m' c' r
  proof (rule link_loop.raw_induct [OF _ that])
    fix f cls' m' c' r
    assume IH: "\<And>cls m c r. f cls m c = Some r \<Longrightarrow> P cls m c r"
      and step: "(if m' = 0 then Some (Inr c')
        else (case GetReal m' c' of
           Inl (InvalidAddressException a) \<Rightarrow> Some (Inr c')
         | Inl (HostFault a) \<Rightarrow> Some (Inl (HostFault a))
         | Inr link \<Rightarrow>
             (case addLinkMap m' c' of
                Inl (InvalidAddressException a) \<Rightarrow> Some (Inr c')
              | Inl (HostFault a) \<Rightarrow> Some (Inl (HostFault a))
              | Inr d \<Rightarrow>
                  (case host_word (mem d) (link + 3 * of_nat (ptr_size cls')) (ptr_size cls') of
                     Inl e \<Rightarrow> Some (Inl e)
                   | Inr y \<Rightarrow> f cls' y d)))) = Some r"
    show "P cls' m' c' r"
      unfolding P_def
    proof (intro impI, elim conjE exE)
      fix ls assume cls: "cls' = cls" and m: "m' \<in> S" and c': "c' = c\<lparr>mLinkMaps := ls\<rparr>"
      obtain lm y where lm: "new_LinkMap c m' = Inr lm" and y: "y \<in> S" "next_link cls c m' = Inr y"
        using assms(3) m by blast
      obtain link where link: "GetReal m' c = Inr link"
          "host_word (mem c) (link + 3 * of_nat (ptr_size cls)) (ptr_size cls) = Inr y"
        using y(2) by (auto simp: next_link_def res_bind_Inr_iff)
      have "m' \<noteq> 0" using m assms(2) by auto
      then have "f cls y (c\<lparr>mLinkMaps := ls @ [lm]\<rparr>) = Some r"
        using step link lm cls c' by (simp add: addLinkMap_def link_indep)
      then show False using IH y(1) unfolding P_def by blast
    qed
  qed
  have "link_loop cls m c \<noteq> Some r" for r
  proof
    assume "link_loop cls m c = Some r"
    moreover have "c = c\<lparr>mLinkMaps := mLinkMaps c\<rparr>" by simp
    ultimately show False using diverges [of cls m c r] assms(1) unfolding P_def by blast
  qed
  then show ?thesis by (cases "link_loop cls m c") auto
qed

theorem link_loop_cycle_diverges_witness:
  "link_loop ELF64 0x2000 (demo_link_core [0, 0x20, 0, 0, 0, 0, 0, 0]) = None"
proof -
  let ?n = "[0, 0x20, 0, 0, 0, 0, 0, 0] :: u8 list"
  let ?c = "demo_link_core ?n"
  note n = demo_link_node [of ?n 0] demo_link_node [of ?n 40]
  have nx: "next_link ELF64 ?c 0x2000 = Inr 0x2028" "next_link ELF64 ?c 0x2028 = Inr 0x2000"
    using n(2,4) by (simp_all add: demo_links_def le_word_def)
  have "\<forall>x\<in>{0x2000, 0x2028}. (\<exists>lm. new_LinkMap ?c x = Inr lm) \<and> (\<exists>y\<in>{0x2000, 0x2028}. next_link ELF64 ?c x = Inr y)"
    using n(1,3) nx by simp
  then show ?thesis by (intro link_loop_cycle_diverges [of "0x2000" "{0x2000, 0x2028}"]) simp_all
qed

end
