(* ===== verification/Unwind.thy ===== *)
theory Unwind
  imports Libraries
begin

unbundle bit_operations_syntax

text \<open>
  Stack unwinding: core/common/native_frame.cpp (\<open>NativeFrame\<close>), core/api/unwind.cpp
  (\<open>api::UnwindStack\<close>) and core/arm64, arm, x86, x86_64, riscv64/unwind.cpp. An unwinder looks
  for a signal context on the stack of its thread, and follows the chain of frame pointers on
  arm64.
\<close>

section \<open>Operations that keep their state when they throw\<close>

text \<open>
  A C++ exception leaves the members of the unwinder as they were when it was thrown. A step
  of the unwinder returns the exception, if any, with the state; the outer option is the link
  map walk that may not end (\<open>loadLinkMap\<close>).
\<close>

record native_frame =
  frame_fp :: u64
  frame_sp :: u64
  frame_pc :: u64
  nf_map :: "nat option"
  nf_symbol :: string
  nf_off :: u64
  nf_size :: u64
  nf_thumb :: bool

record unwind_stack =
  native_frames :: "native_frame list"
  cur_frame_fp :: u64
  cur_frame_sp :: u64
  cur_frame_pc :: u64
  cur_state :: u64
  cur_uc :: u64
  cur_num :: u64
  uc_num :: u64
  uw_thread :: thread_info

type_synonym uw_state = "unwind_stack \<times> core"
type_synonym uw_result = "(exn option \<times> uw_state) option"

definition uw_then :: "uw_result \<Rightarrow> (uw_state \<Rightarrow> uw_result) \<Rightarrow> uw_result" where
  "uw_then m f = (case m of None \<Rightarrow> None | Some (Some e, s) \<Rightarrow> Some (Some e, s) | Some (None, s) \<Rightarrow> f s)"

text \<open>\<open>catch(InvalidAddressException& e)\<close> with an empty handler.\<close>

definition uw_catch :: "uw_result \<Rightarrow> uw_result" where
  "uw_catch m = (case m of Some (Some (InvalidAddressException a), s) \<Rightarrow> Some (None, s) | _ \<Rightarrow> m)"

definition uw_lift :: "'a res \<Rightarrow> uw_state \<Rightarrow> ('a \<Rightarrow> uw_result) \<Rightarrow> uw_result" where
  "uw_lift r s f = (case r of Inl e \<Rightarrow> Some (Some e, s) | Inr x \<Rightarrow> f x)"

lemma uw_simps [simp]:
  "uw_then None f = None" "uw_then (Some (Some e, s)) f = Some (Some e, s)" "uw_then (Some (None, s)) f = f s"
  "uw_catch None = None" "uw_catch (Some (None, s)) = Some (None, s)"
  "uw_catch (Some (Some (InvalidAddressException a), s)) = Some (None, s)"
  "uw_catch (Some (Some (HostFault a), s)) = Some (Some (HostFault a), s)"
  "uw_lift (Inl e) s g = Some (Some e, s)" "uw_lift (Inr x) s g = g x"
  by (simp_all add: uw_then_def uw_catch_def uw_lift_def)

section \<open>NativeFrame\<close>

definition SetFramePc :: "core \<Rightarrow> u64 \<Rightarrow> native_frame \<Rightarrow> native_frame" where
  "SetFramePc c pc nf =
     nf\<lparr>frame_pc := (if core_machine c = EM_ARM then pc AND (pointer_mask c - 1) else pc)\<rparr>"

definition new_NativeFrame :: "core \<Rightarrow> u64 \<Rightarrow> u64 \<Rightarrow> u64 \<Rightarrow> native_frame" where
  "new_NativeFrame c fp sp pc =
     SetFramePc c pc \<lparr>frame_fp = fp, frame_sp = sp, frame_pc = 0, nf_map = None, nf_symbol = [],
       nf_off = 0, nf_size = 0, nf_thumb = False\<rparr>"

text \<open>The callback of \<open>Decode\<close>: is the program counter in the \<open>j\<close>-th library?\<close>

definition decode_cb :: "nat option \<Rightarrow> u64 \<Rightarrow> nat \<Rightarrow> core \<Rightarrow> nat option \<Rightarrow> (bool \<times> core \<times> nat option) res" where
  "decode_cb block pc j c found =
     (let va_pc = pc AND vabits_mask c in
      res_bind (on_link j LinkMap_l_ld c) (\<lambda>(ld, c1).
      res_bind (FindLoadBlock ld False True c1) (\<lambda>ld_block.
      res_bind
        (case block of None \<Rightarrow> Inr (False, c1)
         | Some i \<Rightarrow>
             if mFileName (blk c1 i) = [] then Inr (False, c1)
             else res_bind (on_link j LinkMap_name c1) (\<lambda>(nm, c2). Inr (mFileName (blk c1 i) = nm, c2)))
        (\<lambda>(same, c2).
           if same then Inr (True, c2, Some j)
           else
             res_bind (on_link j LinkMap_begin c2) (\<lambda>(b, c3).
               if b \<noteq> 0 \<and> va_pc \<ge> b then
                 res_bind (on_link j LinkMap_l_ld c3) (\<lambda>(ld', c4).
                   if va_pc < ld' \<or>
                      (case ld_block of Some k \<Rightarrow> va_pc \<le> mVaddr (blk c4 k) + mMemSize (blk c4 k) | None \<Rightarrow> False)
                   then Inr (True, c4, Some j)
                   else Inr (False, c4, found))
               else Inr (False, c3, found))))))"

definition Decode :: "native_frame \<Rightarrow> core \<Rightarrow> (core \<times> native_frame) res option" where
  "Decode nf c =
     (case FindLoadBlock (frame_pc nf) False True c of Inl e \<Rightarrow> Some (Inl e)
      | Inr block \<Rightarrow>
          (case (case block of
                   Some i \<Rightarrow> (case mLinkMap (blk c i) of Some j \<Rightarrow> Some (Inr (c, Some j))
                             | None \<Rightarrow> foreachLinkMap (decode_cb block (frame_pc nf)) c None)
                 | None \<Rightarrow> foreachLinkMap (decode_cb block (frame_pc nf)) c None) of
             None \<Rightarrow> None
           | Some r \<Rightarrow>
               Some (res_bind r (\<lambda>(c1, m).
                 case m of None \<Rightarrow> Inr (c1, nf)
                 | Some j \<Rightarrow>
                     res_bind (on_link j (\<lambda>c. NiceMethod c (frame_pc nf)) c1) (\<lambda>(nice, c2).
                       Inr (c2, case nice of None \<Rightarrow> nf\<lparr>nf_map := Some j\<rparr>
                                | Some (sname, off, sz) \<Rightarrow>
                                    nf\<lparr>nf_map := Some j, nf_symbol := sname, nf_off := off, nf_size := sz\<rparr>))))))"

definition GetOrigin :: "native_frame \<Rightarrow> core \<Rightarrow> (string \<times> core) res" where
  "GetOrigin nf c = (case nf_map nf of None \<Rightarrow> Inr ([], c) | Some j \<Rightarrow> on_link j LinkMap_name c)"

definition GetLibrary :: "native_frame \<Rightarrow> core \<Rightarrow> (string \<times> core) res" where
  "GetLibrary nf c =
     (case nf_map nf of None \<Rightarrow> Inr ([], c)
      | Some j \<Rightarrow>
          res_bind (on_link j LinkMap_name c) (\<lambda>(nm, c1).
          res_bind (on_link j LinkMap_block c1) (\<lambda>(b, c2).
            Inr (case b of Some i \<Rightarrow> if mMmap (blk c2 i) \<noteq> None then LoadBlock_name (blk c2 i) else nm
                 | None \<Rightarrow> nm, c2))))"

definition IsMmap :: "native_frame \<Rightarrow> core \<Rightarrow> (bool \<times> core) res" where
  "IsMmap nf c =
     (case nf_map nf of None \<Rightarrow> Inr (False, c)
      | Some j \<Rightarrow>
          res_bind (on_link j LinkMap_block c) (\<lambda>(b, c1).
            Inr (case b of Some i \<Rightarrow> mMmap (blk c1 i) \<noteq> None | None \<Rightarrow> False, c1)))"

section \<open>api::UnwindStack\<close>

definition new_UnwindStack :: "thread_info \<Rightarrow> unwind_stack" where
  "new_UnwindStack t =
     \<lparr>native_frames = [], cur_frame_fp = 0, cur_frame_sp = 0, cur_frame_pc = 0, cur_state = 0,
      cur_uc = 0, cur_num = 0, uc_num = -1, uw_thread = t\<rparr>"

definition VisitFrame :: "uw_state \<Rightarrow> uw_result" where
  "VisitFrame s =
     (case s of (u, c) \<Rightarrow>
        (let nf = new_NativeFrame c (cur_frame_fp u) (cur_frame_sp u) (cur_frame_pc u);
             nf' = (if core_machine c = EM_ARM \<and> (cur_state u AND 0b100000 \<noteq> 0 \<or> cur_frame_pc u AND 0x1 \<noteq> 0)
                    then nf\<lparr>nf_thumb := True\<rparr> else nf)
         in case Decode nf' c of None \<Rightarrow> None
            | Some (Inl e) \<Rightarrow> Some (Some e, s)
            | Some (Inr (c', nf2)) \<Rightarrow>
                Some (None, u\<lparr>native_frames := native_frames u @ [nf2], cur_num := cur_num u + 1\<rparr>, c')))"

section \<open>Signal contexts\<close>

text \<open>
  Offsets in \<open>struct ucontext\<close> of common/ucontext.h: the size of a pointer, of the structure,
  \<open>uc_link\<close>, \<open>uc_stack.ss_sp\<close>, \<open>uc_stack.ss_size\<close>, and where the general registers start. The
  scan moves by the size of a pointer.
\<close>

record uc_layout =
  uc_word :: nat
  uc_sizeof :: u64
  uc_link :: u64
  uc_ss_sp :: u64
  uc_ss_size :: u64
  uc_regs :: u64

definition arm64_ucontext :: uc_layout where
  "arm64_ucontext = \<lparr>uc_word = 8, uc_sizeof = 4560, uc_link = 8, uc_ss_sp = 16, uc_ss_size = 32, uc_regs = 176 + 8\<rparr>"

definition arm_ucontext :: uc_layout where
  "arm_ucontext = \<lparr>uc_word = 4, uc_sizeof = 744, uc_link = 4, uc_ss_sp = 8, uc_ss_size = 16, uc_regs = 20 + 12\<rparr>"

definition x86_ucontext :: uc_layout where
  "x86_ucontext = \<lparr>uc_word = 4, uc_sizeof = 232, uc_link = 4, uc_ss_sp = 8, uc_ss_size = 16, uc_regs = 20\<rparr>"

definition x86_64_ucontext :: uc_layout where
  "x86_64_ucontext = \<lparr>uc_word = 8, uc_sizeof = 816, uc_link = 8, uc_ss_sp = 16, uc_ss_size = 32, uc_regs = 40\<rparr>"

definition riscv64_ucontext :: uc_layout where
  "riscv64_ucontext = \<lparr>uc_word = 8, uc_sizeof = 960, uc_link = 8, uc_ss_sp = 16, uc_ss_size = 32, uc_regs = 176\<rparr>"

text \<open>
  The condition on the signal stack that the four scans share: the stack starts in the
  segment \<open>i\<close>, is a whole number of pages and not larger than the segment, and there is no
  outer context. The operands are evaluated from left to right, so the page size is only
  looked up (and cached) when the first two hold.
\<close>

definition uc_stack_ok :: "uc_layout \<Rightarrow> nat \<Rightarrow> u64 \<Rightarrow> core \<Rightarrow> (bool \<times> core) res" where
  "uc_stack_ok L i real c =
     res_bind (host_word (mem c) (real + uc_ss_sp L) (uc_word L)) (\<lambda>ss_sp.
       if \<not> virtualContains (blk c i) ss_sp then Inr (False, c)
       else
         res_bind (host_word (mem c) (real + uc_ss_size L) (uc_word L)) (\<lambda>ss_size.
           if \<not> ss_size \<le> mMemSize (blk c i) then Inr (False, c)
           else
             (case getPageSize c of (psz, c1) \<Rightarrow>
                if ss_size < psz \<or> ss_size mod psz \<noteq> 0 then Inr (False, c1)
                else res_bind (host_word (mem c) (real + uc_link L) (uc_word L)) (\<lambda>link. Inr (link = 0, c1)))))"

definition all_zero :: "host \<Rightarrow> u64 \<Rightarrow> nat \<Rightarrow> bool res" where
  "all_zero h a n = res_bind (host_read h a n) (\<lambda>bs. Inr (bs = replicate n 0))"

definition arm64_uc_check :: "core \<Rightarrow> nat \<Rightarrow> u64 \<Rightarrow> bool res" where
  "arm64_uc_check c i real = all_zero (mem c) (real + 48) (120 + 8)"

definition arm_uc_check :: "core \<Rightarrow> nat \<Rightarrow> u64 \<Rightarrow> bool res" where
  "arm_uc_check c i real = all_zero (mem c) (real + 112) 120"

text \<open>The floating point state of a context lies in the same segment, if there is one.\<close>

definition fpstate_ok :: "nat \<Rightarrow> u64 \<Rightarrow> core \<Rightarrow> nat \<Rightarrow> bool res" where
  "fpstate_ok n a c i =
     res_bind (host_word (mem c) a n) (\<lambda>fpstate. Inr (fpstate = 0 \<or> virtualContains (blk c i) fpstate))"

definition uc_sp_ok :: "nat \<Rightarrow> u64 \<Rightarrow> core \<Rightarrow> bool res" where
  "uc_sp_ok n a c =
     res_bind (host_word (mem c) a n) (\<lambda>sp.
     res_bind (Ref_IsValid c (new_memory_ref sp)) (\<lambda>(ok, _). Inr ok))"

definition x86_uc_check :: "core \<Rightarrow> nat \<Rightarrow> u64 \<Rightarrow> bool res" where
  "x86_uc_check c i real =
     res_bind (fpstate_ok 4 (real + 20 + 76) c i) (\<lambda>fp.
       if \<not> fp then Inr False else uc_sp_ok 4 (real + 20 + 28) c)"

definition x86_64_uc_check :: "core \<Rightarrow> nat \<Rightarrow> u64 \<Rightarrow> bool res" where
  "x86_64_uc_check c i real =
     res_bind (fpstate_ok 8 (real + 40 + 184) c i) (\<lambda>fp.
       if \<not> fp then Inr False
       else
         res_bind (all_zero (mem c) (real + 40 + 192) 64) (\<lambda>zero.
           if zero then uc_sp_ok 8 (real + 40 + 120) c else Inr False))"

text \<open>
  The scan itself. The reference moves up by one pointer; a move past the last address of the
  target's 64-bit space, after which the code would go on at address 0, is a fault.
\<close>

function uc_scan ::
  "uc_layout \<Rightarrow> (core \<Rightarrow> nat \<Rightarrow> u64 \<Rightarrow> bool res) \<Rightarrow> nat \<Rightarrow> core \<Rightarrow> memory_ref \<Rightarrow> exn option \<times> u64 \<times> core" where
  "uc_scan L check i c uc =
     (if ref_vaddr uc + uc_sizeof L < mVaddr (blk c i) + LoadBlock_size OPT_READ_ALL (blk c i) then
        (case Real c uc of Inl e \<Rightarrow> (Some e, 0, c)
         | Inr (real, uc1) \<Rightarrow>
             (case uc_stack_ok L i real c of Inl e \<Rightarrow> (Some e, 0, c)
              | Inr (ok, c1) \<Rightarrow>
                  (case (if ok then check c1 i real else Inr False) of Inl e \<Rightarrow> (Some e, 0, c1)
                   | Inr found \<Rightarrow>
                       if found then (None, ref_vaddr uc1, c1)
                       else
                         (case MovePtr (of_nat (uc_word L)) c1 uc1 of Inl e \<Rightarrow> (Some e, 0, c1)
                          | Inr uc2 \<Rightarrow>
                              if ref_vaddr uc < ref_vaddr uc2 then uc_scan L check i c1 uc2
                              else (Some (HostFault (ref_vaddr uc2)), 0, c1)))))
      else (None, 0, c))"
  by pat_completeness auto
termination
proof (relation "measure (\<lambda>(L, check, i, c, r). 2 ^ 64 - unat (ref_vaddr r))", goal_cases)
  case (2 L check i c uc x real uc1 y ok c1 found uc2)
  then show ?case using unat_u64_less [of "ref_vaddr uc2"] by (simp add: word_less_nat_alt)
qed simp

declare uc_scan.simps [simp del]

text \<open>
  \<open>GetUContext\<close>: the scan starts at the stack pointer, in the segment it lies in; an invalid
  address ends it without a result. The 32-bit unwinders return a \<open>uint32_t\<close>.
\<close>

definition GetUContext ::
  "uc_layout \<Rightarrow> (core \<Rightarrow> nat \<Rightarrow> u64 \<Rightarrow> bool res) \<Rightarrow> u64 \<Rightarrow> uw_state \<Rightarrow> (u64 \<times> uw_state) res" where
  "GetUContext L check sp s =
     (case s of (u, c) \<Rightarrow>
        if cur_uc u \<noteq> 0 then Inr (cur_uc u, u, c)
        else
          res_bind (Prepare False c (new_memory_ref sp)) (\<lambda>r.
            case ref_block r of None \<Rightarrow> Inr (cur_uc u, u, c)
            | Some i \<Rightarrow>
                (let uc = checkCopyBlock (Some i) c (new_memory_ref (ref_vaddr r AND vabits_mask c)) in
                 case uc_scan L check i c uc of
                   (Some (InvalidAddressException a), _, c') \<Rightarrow> Inr (cur_uc u, u, c')
                 | (Some (HostFault a), _, _) \<Rightarrow> Inl (HostFault a)
                 | (None, a, c') \<Rightarrow>
                     (let u' = (if a \<noteq> 0 then u\<lparr>cur_uc := a\<rparr> else u) in Inr (cur_uc u', u', c')))))"

text \<open>A member of \<open>Register\<close>, at an offset of the register bytes.\<close>

definition reg_at :: "u8 list \<Rightarrow> nat \<Rightarrow> nat \<Rightarrow> u64" where
  "reg_at regs off n = le_word (take n (drop off regs))"

definition arm64_GetUContext :: "uw_state \<Rightarrow> (u64 \<times> uw_state) res" where
  "arm64_GetUContext s =
     GetUContext arm64_ucontext arm64_uc_check (reg_at (th_reg (uw_thread (fst s))) 248 8) s"

definition arm_GetUContext :: "uw_state \<Rightarrow> (u64 \<times> uw_state) res" where
  "arm_GetUContext s =
     res_bind (GetUContext arm_ucontext arm_uc_check (reg_at (th_reg (uw_thread (fst s))) 52 4) s)
       (\<lambda>(a, s'). Inr (a AND 0xFFFFFFFF, s'))"

definition x86_GetUContext :: "uw_state \<Rightarrow> (u64 \<times> uw_state) res" where
  "x86_GetUContext s =
     res_bind (GetUContext x86_ucontext x86_uc_check (reg_at (th_reg (uw_thread (fst s))) 60 4) s)
       (\<lambda>(a, s'). Inr (a AND 0xFFFFFFFF, s'))"

definition x86_64_GetUContext :: "uw_state \<Rightarrow> (u64 \<times> uw_state) res" where
  "x86_64_GetUContext s =
     GetUContext x86_64_ucontext x86_64_uc_check (reg_at (th_reg (uw_thread (fst s))) 152 8) s"

definition riscv64_GetUContext :: "uw_state \<Rightarrow> (u64 \<times> uw_state) res" where
  "riscv64_GetUContext s = Inr (cur_uc (fst s), s)"

section \<open>Registers of a signal context\<close>

text \<open>
  On x86 and x86_64 the members are copied one by one into an uninitialised \<open>Register\<close>, so the
  ones that are not assigned keep whatever was there (\<open>junk\<close>). A copy is the offset and size of
  the member of \<open>Register\<close> and those of its source in \<open>struct ucontext\<close>; a narrower source is
  zero-extended.
\<close>

type_synonym member_copy = "nat \<times> nat \<times> nat \<times> nat"

fun uc_copy :: "host \<Rightarrow> u64 \<Rightarrow> member_copy list \<Rightarrow> u8 list \<Rightarrow> u8 list res" where
  "uc_copy h ctx [] regs = Inr regs"
| "uc_copy h ctx ((d, dn, s, sn) # copies) regs =
     res_bind (host_word h (ctx + of_nat s) sn) (\<lambda>v :: u64.
       uc_copy h ctx copies (splice_at d (le_bytes dn (unat v)) regs))"

definition x86_copies :: "member_copy list" where
  "x86_copies =
     [(0, 4, 20 + 32, 4) \<comment> \<open>ebx\<close>, (4, 4, 20 + 40, 4) \<comment> \<open>ecx\<close>, (8, 4, 20 + 36, 4) \<comment> \<open>edx\<close>,
      (12, 4, 20 + 20, 4) \<comment> \<open>esi\<close>, (16, 4, 20 + 16, 4) \<comment> \<open>edi\<close>, (20, 4, 20 + 24, 4) \<comment> \<open>ebp\<close>,
      (24, 4, 20 + 44, 4) \<comment> \<open>eax\<close>, (28, 2, 20 + 12, 2) \<comment> \<open>ds\<close>, (32, 2, 20 + 8, 2) \<comment> \<open>es\<close>,
      (36, 2, 20 + 4, 2) \<comment> \<open>fs\<close>, (40, 2, 20 + 0, 2) \<comment> \<open>gs\<close>, (44, 4, 20 + 44, 4) \<comment> \<open>orig_eax\<close>,
      (48, 4, 20 + 56, 4) \<comment> \<open>eip\<close>, (56, 4, 20 + 64, 4) \<comment> \<open>eflags\<close>, (60, 4, 20 + 28, 4) \<comment> \<open>esp\<close>,
      (64, 2, 20 + 72, 2) \<comment> \<open>ss\<close>]"

definition x86_64_copies :: "member_copy list" where
  "x86_64_copies =
     [(0, 8, 40 + 56, 8) \<comment> \<open>r15\<close>, (8, 8, 40 + 48, 8) \<comment> \<open>r14\<close>, (16, 8, 40 + 40, 8) \<comment> \<open>r13\<close>,
      (24, 8, 40 + 32, 8) \<comment> \<open>r12\<close>, (32, 8, 40 + 80, 8) \<comment> \<open>rbp\<close>, (40, 8, 40 + 88, 8) \<comment> \<open>rbx\<close>,
      (48, 8, 40 + 24, 8) \<comment> \<open>r11\<close>, (56, 8, 40 + 16, 8) \<comment> \<open>r10\<close>, (64, 8, 40 + 8, 8) \<comment> \<open>r9\<close>,
      (72, 8, 40 + 0, 8) \<comment> \<open>r8\<close>, (80, 8, 40 + 104, 8) \<comment> \<open>rax\<close>, (88, 8, 40 + 112, 8) \<comment> \<open>rcx\<close>,
      (96, 8, 40 + 96, 8) \<comment> \<open>rdx\<close>, (104, 8, 40 + 72, 8) \<comment> \<open>rsi\<close>, (112, 8, 40 + 64, 8) \<comment> \<open>rdi\<close>,
      (128, 8, 40 + 128, 8) \<comment> \<open>rip\<close>, (136, 4, 40 + 144, 2) \<comment> \<open>cs\<close>, (144, 8, 40 + 136, 8) \<comment> \<open>flags\<close>,
      (152, 8, 40 + 120, 8) \<comment> \<open>rsp\<close>, (160, 4, 40 + 150, 2) \<comment> \<open>ss\<close>, (200, 4, 40 + 148, 2) \<comment> \<open>fs\<close>,
      (208, 4, 40 + 146, 2) \<comment> \<open>gs\<close>]"

text \<open>The registers of the context at host address \<open>ctx\<close>.\<close>

fun uc_registers :: "machine \<Rightarrow> u8 list \<Rightarrow> host \<Rightarrow> u64 \<Rightarrow> u8 list res" where
  "uc_registers EM_AARCH64 junk h ctx = host_read h (ctx + uc_regs arm64_ucontext) (sizeof_Register EM_AARCH64)"
| "uc_registers EM_ARM junk h ctx = host_read h (ctx + uc_regs arm_ucontext) (sizeof_Register EM_ARM)"
| "uc_registers EM_RISCV junk h ctx = host_read h (ctx + uc_regs riscv64_ucontext) (sizeof_Register EM_RISCV)"
| "uc_registers EM_386 junk h ctx = uc_copy h ctx x86_copies junk"
| "uc_registers EM_X86_64 junk h ctx = uc_copy h ctx x86_64_copies junk"

fun machine_GetUContext :: "machine \<Rightarrow> uw_state \<Rightarrow> (u64 \<times> uw_state) res" where
  "machine_GetUContext EM_AARCH64 = arm64_GetUContext"
| "machine_GetUContext EM_ARM = arm_GetUContext"
| "machine_GetUContext EM_386 = x86_GetUContext"
| "machine_GetUContext EM_X86_64 = x86_64_GetUContext"
| "machine_GetUContext EM_RISCV = riscv64_GetUContext"

text \<open>\<open>DumpContextRegister\<close>: the registers it prints, if there is a context.\<close>

definition DumpContextRegister :: "machine \<Rightarrow> u8 list \<Rightarrow> uw_state \<Rightarrow> (u8 list option \<times> uw_state) res" where
  "DumpContextRegister m junk s =
     res_bind (machine_GetUContext m s) (\<lambda>(uc, s').
       if uc = 0 then Inr (None, s')
       else
         res_bind (Real (snd s') (new_memory_ref uc)) (\<lambda>(real, _).
         res_bind (uc_registers m junk (mem (snd s')) real) (\<lambda>regs. Inr (Some regs, s'))))"

section \<open>Walking the stack\<close>

text \<open>The address before a return address, unless it points into the vdso.\<close>

definition call_pc :: "core \<Rightarrow> nat option \<Rightarrow> u64 \<Rightarrow> u64" where
  "call_pc c vdso pc =
     (if (case vdso of None \<Rightarrow> True | Some k \<Rightarrow> \<not> virtualContains (blk c k) pc) then pc - 0x4 else pc)"

text \<open>The \<open>while\<close> loop of \<open>OnlyFpBackStack\<close> in segment \<open>i\<close>; it stops unless the saved frame pointer
  is above the frame.\<close>

function fp_loop :: "nat option \<Rightarrow> nat \<Rightarrow> memory_ref \<Rightarrow> uw_state \<Rightarrow> uw_result" where
  "fp_loop vdso i fp s =
     (case s of (u, c) \<Rightarrow>
        (case valueNOf 8 8 c fp of Inl e \<Rightarrow> Some (Some e, s)
         | Inr (ret, fp1) \<Rightarrow>
             (let u1 = u\<lparr>cur_frame_pc := call_pc c vdso ret\<rparr> in
              case valueNOf 8 0 c fp1 of Inl e \<Rightarrow> Some (Some e, u1, c)
              | Inr (saved, fp2) \<Rightarrow>
                  (let u2 = u1\<lparr>cur_frame_fp := saved\<rparr> in
                   if ref_vaddr fp < saved then
                     (let fp3 = checkCopyBlock (Some i) c (new_memory_ref saved) in
                      if ref_block fp3 \<noteq> Some i then Some (None, u2, c)
                      else uw_then (VisitFrame (u2, c)) (\<lambda>s'. fp_loop vdso i fp3 s'))
                   else Some (None, u2, c)))))"
  by pat_completeness auto
termination
proof (relation "measure (\<lambda>(vdso, i, fp, s). 2 ^ 64 - unat (ref_vaddr fp))", goal_cases)
  case (2 vdso i fp s u c x ret fp1 u1 y saved fp2 u2 fp3 s')
  then show ?case
    using unat_u64_less [of saved]
    by (auto simp: checkCopyBlock_def new_memory_ref_def word_less_nat_alt)
qed simp

declare fp_loop.simps [simp del]

definition vdso_block :: "core \<Rightarrow> nat option res" where
  "vdso_block c = FindLoadBlock (findAuxv AT_SYSINFO_EHDR c) False True c"

definition OnlyFpBackStack :: "u64 \<Rightarrow> uw_state \<Rightarrow> uw_result" where
  "OnlyFpBackStack curfp s =
     uw_catch
       (uw_lift (vdso_block (snd s)) s (\<lambda>vdso.
        uw_lift (Prepare False (snd s) (new_memory_ref curfp)) s (\<lambda>fp.
          case ref_block fp of None \<Rightarrow> Some (None, s) | Some i \<Rightarrow> fp_loop vdso i fp s)))"

text \<open>The link register frame is dropped again when it repeats the frame before it.\<close>

definition skip_lr_frame :: "uw_state \<Rightarrow> uw_state" where
  "skip_lr_frame s =
     (case s of (u, c) \<Rightarrow>
        (let n = length (native_frames u); lr = native_frames u ! (n - 1); pc = native_frames u ! (n - 2)
         in if (nf_symbol lr \<noteq> [] \<and> nf_symbol lr = nf_symbol pc) \<or> frame_pc lr = frame_pc pc
            then (u\<lparr>native_frames := butlast (native_frames u)\<rparr>, c) else s))"

text \<open>The \<open>try\<close> block of \<open>FpBacktrace\<close>.\<close>

definition fp_frames :: "u8 list \<Rightarrow> uw_state \<Rightarrow> uw_result" where
  "fp_frames regs s =
     uw_then
       (VisitFrame ((fst s)\<lparr>cur_frame_fp := reg_at regs 232 8, cur_frame_pc := reg_at regs 256 8\<rparr>, snd s))
       (\<lambda>(u1, c1).
          uw_lift (vdso_block c1) (u1, c1) (\<lambda>vdso.
            (let u2 = u1\<lparr>cur_frame_pc := call_pc c1 vdso (reg_at regs 240 8)\<rparr> in
             uw_lift (Prepare False c1 (new_memory_ref (cur_frame_fp u2))) (u2, c1) (\<lambda>fp.
             uw_lift (if ref_block fp = None then Inr True
                      else res_bind (valueNOf 8 8 c1 fp) (\<lambda>(v, _). Inr (reg_at regs 240 8 \<noteq> v))) (u2, c1) (\<lambda>leaf.
               if leaf then uw_then (VisitFrame (u2, c1)) (\<lambda>s3. Some (None, skip_lr_frame s3))
               else Some (None, u2, c1))))))"

definition FpBacktrace :: "u8 list \<Rightarrow> uw_state \<Rightarrow> uw_result" where
  "FpBacktrace regs s =
     uw_then (uw_catch (fp_frames regs s)) (\<lambda>s'. OnlyFpBackStack (cur_frame_fp (fst s')) s')"

definition arm_Backtrace :: "u8 list \<Rightarrow> uw_state \<Rightarrow> uw_result" where
  "arm_Backtrace regs s =
     uw_catch
       (uw_then (VisitFrame ((fst s)\<lparr>cur_frame_pc := reg_at regs 60 4, cur_state := reg_at regs 64 4\<rparr>, snd s))
          (\<lambda>(u, c). Some (None, u\<lparr>cur_state := 0\<rparr>, c)))"

definition x86_Backtrace :: "u8 list \<Rightarrow> uw_state \<Rightarrow> uw_result" where
  "x86_Backtrace regs s = uw_catch (VisitFrame ((fst s)\<lparr>cur_frame_pc := reg_at regs 48 4\<rparr>, snd s))"

definition x86_64_Backtrace :: "u8 list \<Rightarrow> uw_state \<Rightarrow> uw_result" where
  "x86_64_Backtrace regs s = uw_catch (VisitFrame ((fst s)\<lparr>cur_frame_pc := reg_at regs 128 8\<rparr>, snd s))"

text \<open>\<open>WalkStack\<close> of the four architectures that look for a context: the frames of the thread, then
  those of the context. Outside the \<open>try\<close> blocks an exception reaches the caller.\<close>

definition walk_with ::
  "machine \<Rightarrow> u8 list \<Rightarrow> (u8 list \<Rightarrow> uw_state \<Rightarrow> uw_result) \<Rightarrow> uw_state \<Rightarrow> uw_result" where
  "walk_with m junk backtrace s =
     uw_then (backtrace (th_reg (uw_thread (fst s))) s) (\<lambda>s1.
     uw_lift (machine_GetUContext m s1) s1 (\<lambda>(uc, u2, c2).
       if uc = 0 then Some (None, u2, c2)
       else
         (let u3 = u2\<lparr>uc_num := cur_num u2\<rparr> in
          uw_lift (Real c2 (new_memory_ref uc)) (u3, c2) (\<lambda>(real, _).
          uw_lift (uc_registers m junk (mem c2) real) (u3, c2) (\<lambda>regs. backtrace regs (u3, c2))))))"

definition arm64_WalkStack :: "u8 list \<Rightarrow> uw_state \<Rightarrow> uw_result" where
  "arm64_WalkStack junk = walk_with EM_AARCH64 junk FpBacktrace"

definition arm_WalkStack :: "u8 list \<Rightarrow> uw_state \<Rightarrow> uw_result" where
  "arm_WalkStack junk = walk_with EM_ARM junk arm_Backtrace"

definition x86_WalkStack :: "u8 list \<Rightarrow> uw_state \<Rightarrow> uw_result" where
  "x86_WalkStack junk = walk_with EM_386 junk x86_Backtrace"

definition x86_64_WalkStack :: "u8 list \<Rightarrow> uw_state \<Rightarrow> uw_result" where
  "x86_64_WalkStack junk = walk_with EM_X86_64 junk x86_64_Backtrace"

definition riscv64_WalkStack :: "uw_state \<Rightarrow> uw_result" where
  "riscv64_WalkStack s =
     VisitFrame ((fst s)\<lparr>cur_frame_pc := reg_at (th_reg (uw_thread (fst s))) 0 8\<rparr>, snd s)"

text \<open>\<open>MakeUnwindStack\<close> picks the subclass for the machine; here, its \<open>WalkStack\<close>.\<close>

definition WalkStack :: "u8 list \<Rightarrow> uw_state \<Rightarrow> uw_result" where
  "WalkStack junk s =
     (case core_machine (snd s) of
        EM_386 \<Rightarrow> x86_WalkStack junk s
      | EM_X86_64 \<Rightarrow> x86_64_WalkStack junk s
      | EM_ARM \<Rightarrow> arm_WalkStack junk s
      | EM_AARCH64 \<Rightarrow> arm64_WalkStack junk s
      | EM_RISCV \<Rightarrow> riscv64_WalkStack s)"

end
