(* ===== verification/NoteProps.thy ===== *)
theory NoteProps
  imports Notes
begin

unbundle bit_operations_syntax

text \<open>
  The auxiliary vector of a note block (core/common/note_block.cpp, auxv.cpp): its entries are
  kept both as objects and as bytes of the note, and the setters keep the two in step.
\<close>

section \<open>The bytes of a note block\<close>

definition note_ok :: "host \<Rightarrow> note_block \<Rightarrow> bool" where
  "note_ok h nb \<longleftrightarrow> mOriAddr nb \<noteq> 0 \<and> unat (mOriAddr nb) + unat (mFileSize nb) \<le> 2 ^ 64 \<and>
     mapped h (mOriAddr nb) (unat (mFileSize nb)) \<and>
     (\<forall>m. mOverlay nb = Some m \<longrightarrow> mm_begin m \<noteq> 0 \<and> mapped h (mm_begin m) (unat (mFileSize nb)))"

definition note_bytes :: "host \<Rightarrow> note_block \<Rightarrow> u8 list" where
  "note_bytes h nb = map (\<lambda>k. the (h (NoteBlock_begin OPT_READ_ALL nb + of_nat k))) [0..<unat (mFileSize nb)]"

lemma NoteBlock_begin_all:
  "NoteBlock_begin OPT_READ_ALL nb = (case mOverlay nb of Some m \<Rightarrow> mm_begin m | None \<Rightarrow> mOriAddr nb)"
  by (simp add: NoteBlock_begin_def split: option.splits)

lemma note_mapped: "note_ok h nb \<Longrightarrow> mapped h (NoteBlock_begin OPT_READ_ALL nb) (unat (mFileSize nb))"
  by (auto simp: note_ok_def NoteBlock_begin_all split: option.splits)

lemma NoteBlock_newOverlay_spec:
  assumes os: "os_ok os" and ok: "note_ok h nb" and mm: "mOverlay nb = None \<Longrightarrow> os_mmap os h (mFileSize nb) \<noteq> None"
  obtains m h1 where "NoteBlock_newOverlay os h nb = Inr (True, nb\<lparr>mOverlay := Some m\<rparr>, h1)"
    and "note_ok h1 (nb\<lparr>mOverlay := Some m\<rparr>)" "note_bytes h1 (nb\<lparr>mOverlay := Some m\<rparr>) = note_bytes h nb"
proof (cases "mOverlay nb")
  case None
  let ?n = "unat (mFileSize nb)" and ?a = "NoteBlock_begin OPT_READ_ALL nb"
  obtain base where base: "os_mmap os h (mFileSize nb) = Some base" using mm [OF None] by auto
  have fresh: "base \<noteq> 0" "\<And>x. unat (x - base) < ?n \<Longrightarrow> h x = None"
    using os base by (auto simp: os_ok_def)
  let ?h1 = "host_map (host_zero h base ?n) base (note_bytes h nb)"
  let ?m = "\<lparr>mm_name = [], mm_begin = base, mm_size = mFileSize nb, mm_offset = 0, mm_max = mFileSize nb\<rparr>"
  have n: "?n \<le> 2 ^ 64" using unat_u64_less [of "mFileSize nb"] by simp
  have len: "length (note_bytes h nb) = ?n" by (simp add: note_bytes_def)
  have new: "NoteBlock_newOverlay os h nb = Inr (True, nb\<lparr>mOverlay := Some ?m\<rparr>, ?h1)"
    using memcpy_fresh [OF note_mapped [OF ok] order_refl n fresh(2)] base None
    by (simp add: NoteBlock_newOverlay_def MmapMem_def note_bytes_def)
  have keep: "?h1 x \<noteq> None" if "h x \<noteq> None" for x using that by (simp add: host_map_def host_zero_def)
  have at: "?h1 (base + of_nat k) = Some (note_bytes h nb ! k)" if "k < ?n" for k
    using that len n by (simp add: host_map_at)
  have "note_ok ?h1 (nb\<lparr>mOverlay := Some ?m\<rparr>)"
    using ok fresh(1) mapped_mono [of h _ _ ?h1] keep at by (auto simp: note_ok_def mapped_def)
  moreover have "note_bytes ?h1 (nb\<lparr>mOverlay := Some ?m\<rparr>) = note_bytes h nb"
    using at len by (intro nth_equalityI) (simp_all add: note_bytes_def NoteBlock_begin_all)
  ultimately show ?thesis using that new by blast
next
  case (Some m)
  then have same: "nb\<lparr>mOverlay := Some m\<rparr> = nb" by (intro note_block.equality) simp_all
  show ?thesis
  proof (rule that)
    show "NoteBlock_newOverlay os h nb = Inr (True, nb\<lparr>mOverlay := Some m\<rparr>, h)"
      using Some by (simp only: same NoteBlock_newOverlay_def option.case)
    show "note_ok h (nb\<lparr>mOverlay := Some m\<rparr>)" unfolding same by (rule ok)
    show "note_bytes h (nb\<lparr>mOverlay := Some m\<rparr>) = note_bytes h nb" unfolding same ..
  qed
qed

lemma NoteBlock_setOverlay_spec:
  assumes os: "os_ok os" and ok: "note_ok h nb" and mm: "mOverlay nb = None \<Longrightarrow> os_mmap os h (mFileSize nb) \<noteq> None"
    and addr: "addr = mOriAddr nb + of_nat lo" "lo + length buf \<le> unat (mFileSize nb)"
  obtains m h' where "NoteBlock_setOverlay os h addr buf nb = Inr (nb\<lparr>mOverlay := Some m\<rparr>, h')"
    and "note_ok h' (nb\<lparr>mOverlay := Some m\<rparr>)"
    and "note_bytes h' (nb\<lparr>mOverlay := Some m\<rparr>) = splice_at lo buf (note_bytes h nb)"
proof -
  let ?n = "unat (mFileSize nb)"
  obtain m h1 where new: "NoteBlock_newOverlay os h nb = Inr (True, nb\<lparr>mOverlay := Some m\<rparr>, h1)"
    and ok1: "note_ok h1 (nb\<lparr>mOverlay := Some m\<rparr>)" and bytes: "note_bytes h1 (nb\<lparr>mOverlay := Some m\<rparr>) = note_bytes h nb"
    by (rule NoteBlock_newOverlay_spec [OF os ok mm])
  let ?nb = "nb\<lparr>mOverlay := Some m\<rparr>" and ?h = "host_map h1 (mm_begin m + of_nat lo) buf"
  have n: "?n < 2 ^ 64" by (rule unat_u64_less)
  have mp: "h1 (mm_begin m + of_nat k) \<noteq> None" if "k < ?n" for k
    using ok1 that by (simp add: note_ok_def mapped_def)
  have "h1 (mm_begin m + of_nat lo + of_nat i) \<noteq> None" if "i < length buf" for i
    using mp [of "lo + i"] that addr(2) by (simp add: add.assoc)
  then have wr: "host_write h1 (mm_begin m + of_nat lo) buf = Inr ?h"
    using addr(2) n by (intro host_write_mapped) auto
  have set: "NoteBlock_setOverlay os h addr buf nb = Inr (?nb, ?h)"
    using new wr addr(1) by (simp add: NoteBlock_setOverlay_def)
  have keep: "?h x \<noteq> None" if "h1 x \<noteq> None" for x using that by (simp add: host_map_def)
  have ok': "note_ok ?h ?nb"
    using ok1 mapped_mono [of h1 _ _ ?h] keep by (auto simp: note_ok_def)
  have at: "?h (mm_begin m + of_nat k) =
      (if lo \<le> k \<and> k < lo + length buf then Some (buf ! (k - lo)) else h1 (mm_begin m + of_nat k))" if "k < ?n" for k
    using host_map_slice [of k lo buf h1 "mm_begin m"] that addr(2) n by simp
  have "note_bytes ?h ?nb = splice_at lo buf (note_bytes h1 ?nb)"
    using at addr(2) by (intro nth_equalityI) (auto simp: length_splice_at splice_at_nth note_bytes_def NoteBlock_begin_all)
  then show ?thesis using that set ok' bytes by simp
qed

section \<open>Entries and bytes in step\<close>

text \<open>The vector starts at offset \<open>lo\<close> of the note and is an array of words of \<open>psz\<close> bytes: entry
  \<open>i\<close> is the words \<open>2 * i\<close> and \<open>2 * i + 1\<close>.\<close>

definition slot_word :: "nat \<Rightarrow> nat \<Rightarrow> u8 list \<Rightarrow> nat \<Rightarrow> u64" where
  "slot_word psz lo bytes s = le_word (take psz (drop (lo + s * psz) bytes))"

definition auxv_synced :: "nat \<Rightarrow> nat \<Rightarrow> host \<Rightarrow> note_block \<Rightarrow> bool" where
  "auxv_synced psz lo h nb \<longleftrightarrow> note_ok h nb \<and> lo + 2 * length (mAuxvs nb) * psz \<le> unat (mFileSize nb) \<and>
     (\<forall>i<length (mAuxvs nb). let a = mAuxvs nb ! i in
        mAuxv a = mOriAddr nb + of_nat (lo + 2 * i * psz) \<and>
        mType a = slot_word psz lo (note_bytes h nb) (2 * i) \<and>
        mValue a = slot_word psz lo (note_bytes h nb) (2 * i + 1))"

lemma le_word_le_bytes_small:
  assumes "unat (v :: u64) < 256 ^ n"
  shows "le_word (le_bytes n (unat v)) = v"
  using assms by (simp add: le_word_def le_val_le_bytes)

lemma slot_splice:
  assumes "s < n" "t < n" "lo + n * psz \<le> length bytes" "unat v < 256 ^ psz"
  shows "slot_word psz lo (splice_at (lo + s * psz) (le_bytes psz (unat v)) bytes) t =
    (if t = s then v else slot_word psz lo bytes t)"
proof -
  have "(s + 1) * psz \<le> n * psz" "(t + 1) * psz \<le> n * psz" using assms(1,2) by (auto intro: mult_le_mono1 simp del: mult_Suc)
  then have fit: "lo + s * psz + psz \<le> length bytes" "lo + t * psz + psz \<le> length bytes" using assms(3) by simp_all
  show ?thesis
  proof (cases "t = s")
    case True
    then show ?thesis
      using splice_at_same [of "lo + s * psz" "le_bytes psz (unat v)" bytes] fit(1) le_word_le_bytes_small [OF assms(4)]
      by (simp add: slot_word_def)
  next
    case False
    then have "t + 1 \<le> s \<or> s + 1 \<le> t" by linarith
    then have "(t + 1) * psz \<le> s * psz \<or> (s + 1) * psz \<le> t * psz" by (auto intro: mult_le_mono1 simp del: mult_Suc)
    then show ?thesis
      using splice_at_other [of "lo + s * psz" "le_bytes psz (unat v)" bytes "lo + t * psz" psz] fit False
      by (auto simp: slot_word_def)
  qed
qed

text \<open>Writing one word of the vector to the overlay.\<close>

lemma set_slot:
  assumes os: "os_ok os" and ok: "note_ok h nb" and mm: "mOverlay nb = None \<Longrightarrow> os_mmap os h (mFileSize nb) \<noteq> None"
    and s: "s < n" "lo + n * psz \<le> unat (mFileSize nb)" "unat v < 256 ^ psz"
    and addr: "addr = mOriAddr nb + of_nat (lo + s * psz)"
  obtains m h' where "NoteBlock_setOverlay os h addr (le_bytes psz (unat v)) nb = Inr (nb\<lparr>mOverlay := Some m\<rparr>, h')"
    and "note_ok h' (nb\<lparr>mOverlay := Some m\<rparr>)"
    and "\<forall>t<n. slot_word psz lo (note_bytes h' (nb\<lparr>mOverlay := Some m\<rparr>)) t =
           (if t = s then v else slot_word psz lo (note_bytes h nb) t)"
proof -
  have len: "length (note_bytes h nb) = unat (mFileSize nb)" by (simp add: note_bytes_def)
  have "(s + 1) * psz \<le> n * psz" using s(1) by (intro mult_le_mono1) simp
  then have "lo + s * psz + length (le_bytes psz (unat v)) \<le> unat (mFileSize nb)" using s(2) by simp
  then obtain m h' where "NoteBlock_setOverlay os h addr (le_bytes psz (unat v)) nb = Inr (nb\<lparr>mOverlay := Some m\<rparr>, h')"
    and "note_ok h' (nb\<lparr>mOverlay := Some m\<rparr>)"
    and "note_bytes h' (nb\<lparr>mOverlay := Some m\<rparr>) = splice_at (lo + s * psz) (le_bytes psz (unat v)) (note_bytes h nb)"
    using NoteBlock_setOverlay_spec [OF os ok mm addr] by blast
  then show ?thesis using that [of m h'] slot_splice [OF s(1)] s(2,3) len by simp
qed

lemma auxv_synced_update:
  assumes sync: "auxv_synced psz lo h nb" and i: "i < length (mAuxvs nb)"
    and ok': "note_ok h' (nb\<lparr>mOverlay := m\<rparr>)"
    and words: "\<forall>t<2 * length (mAuxvs nb). slot_word psz lo (note_bytes h' (nb\<lparr>mOverlay := m\<rparr>)) t =
      (if t = 2 * i then ty else if t = 2 * i + 1 then v else slot_word psz lo (note_bytes h nb) t)"
  shows "auxv_synced psz lo h' (nb\<lparr>mOverlay := m, mAuxvs := (mAuxvs nb)[i := (mAuxvs nb ! i)\<lparr>mType := ty, mValue := v\<rparr>]\<rparr>)"
    (is "auxv_synced psz lo h' ?nb")
proof -
  have nb: "note_bytes h' ?nb = note_bytes h' (nb\<lparr>mOverlay := m\<rparr>)" "note_ok h' ?nb"
    using ok' by (simp_all add: note_bytes_def NoteBlock_begin_def note_ok_def)
  have "2 * j \<noteq> 2 * i + 1" "2 * j + 1 \<noteq> 2 * i" for j by presburger+
  then have "slot_word psz lo (note_bytes h' ?nb) (2 * j) = (if j = i then ty else slot_word psz lo (note_bytes h nb) (2 * j))"
      "slot_word psz lo (note_bytes h' ?nb) (2 * j + 1) = (if j = i then v else slot_word psz lo (note_bytes h nb) (2 * j + 1))"
    if "j < length (mAuxvs nb)" for j
    using words that nb(1) by auto
  then show ?thesis
    using sync nb(2) unfolding auxv_synced_def by (auto simp: nth_list_update Let_def)
qed

lemma auxv_entry:
  assumes "auxv_synced psz lo h nb" "i < length (mAuxvs nb)"
  shows "note_ok h nb" "lo + 2 * length (mAuxvs nb) * psz \<le> unat (mFileSize nb)"
    "mAuxv (mAuxvs nb ! i) = mOriAddr nb + of_nat (lo + (2 * i) * psz)"
    "mAuxv (mAuxvs nb ! i) + of_nat psz = mOriAddr nb + of_nat (lo + (2 * i + 1) * psz)"
    "mType (mAuxvs nb ! i) = slot_word psz lo (note_bytes h nb) (2 * i)"
    "mValue (mAuxvs nb ! i) = slot_word psz lo (note_bytes h nb) (2 * i + 1)"
    "2 * i < 2 * length (mAuxvs nb)" "2 * i + 1 < 2 * length (mAuxvs nb)"
  using assms by (auto simp: auxv_synced_def Let_def algebra_simps)

text \<open>What the two writes of a setter leave behind.\<close>

lemma value_write:
  assumes "os_ok os" "auxv_synced psz lo h0 nb0" "i < length (mAuxvs nb)" "unat v < 256 ^ psz"
    and "mOverlay nb = None \<Longrightarrow> os_mmap os h (mFileSize nb) \<noteq> None"
    and "note_ok h nb" "nb = nb0\<lparr>mOverlay := m0\<rparr>"
  obtains m h' where
    "NoteBlock_setOverlay os h (mAuxv (mAuxvs nb ! i) + of_nat psz) (le_bytes psz (unat v)) nb = Inr (nb\<lparr>mOverlay := Some m\<rparr>, h')"
    "note_ok h' (nb\<lparr>mOverlay := Some m\<rparr>)"
    "\<forall>t<2 * length (mAuxvs nb). slot_word psz lo (note_bytes h' (nb\<lparr>mOverlay := Some m\<rparr>)) t =
       (if t = 2 * i + 1 then v else slot_word psz lo (note_bytes h nb) t)"
proof -
  note e = auxv_entry [OF assms(2), of i]
  have i: "2 * i + 1 < 2 * length (mAuxvs nb)" "lo + 2 * length (mAuxvs nb) * psz \<le> unat (mFileSize nb)"
      "mAuxv (mAuxvs nb ! i) + of_nat psz = mOriAddr nb + of_nat (lo + (2 * i + 1) * psz)"
    using e(2,4,8) assms(3,7) by simp_all
  show thesis by (rule set_slot [OF assms(1,6,5) i(1,2) assms(4) i(3)]) (assumption, rule that)
qed

lemma type_write:
  assumes "os_ok os" "auxv_synced psz lo h nb" "i < length (mAuxvs nb)" "unat ty < 256 ^ psz"
    and "mOverlay nb = None \<Longrightarrow> os_mmap os h (mFileSize nb) \<noteq> None"
  obtains m h' where
    "NoteBlock_setOverlay os h (mAuxv (mAuxvs nb ! i)) (le_bytes psz (unat ty)) nb = Inr (nb\<lparr>mOverlay := Some m\<rparr>, h')"
    "note_ok h' (nb\<lparr>mOverlay := Some m\<rparr>)"
    "\<forall>t<2 * length (mAuxvs nb). slot_word psz lo (note_bytes h' (nb\<lparr>mOverlay := Some m\<rparr>)) t =
       (if t = 2 * i then ty else slot_word psz lo (note_bytes h nb) t)"
proof -
  note e = auxv_entry [OF assms(2,3)]
  show thesis by (rule set_slot [OF assms(1) e(1) assms(5) e(7,2) assms(4) e(3)]) (assumption, rule that)
qed

lemma Auxv_setValue_synced:
  assumes "os_ok os" "auxv_synced psz lo h nb" "i < length (mAuxvs nb)" "unat v < 256 ^ psz"
    and "mOverlay nb = None \<Longrightarrow> os_mmap os h (mFileSize nb) \<noteq> None"
  shows "\<exists>nb' h'. Auxv_setValue os h psz i v nb = Inr (nb', h') \<and> auxv_synced psz lo h' nb' \<and>
    mAuxvs nb' = (mAuxvs nb)[i := (mAuxvs nb ! i)\<lparr>mValue := v\<rparr>]"
proof -
  let ?a = "mAuxvs nb ! i"
  note e = auxv_entry [OF assms(2,3)]
  have self: "nb = nb\<lparr>mOverlay := mOverlay nb\<rparr>" by simp
  obtain m h1 where w: "NoteBlock_setOverlay os h (mAuxv ?a + of_nat psz) (le_bytes psz (unat v)) nb = Inr (nb\<lparr>mOverlay := Some m\<rparr>, h1)"
    and ok: "note_ok h1 (nb\<lparr>mOverlay := Some m\<rparr>)"
    and sw: "\<forall>t<2 * length (mAuxvs nb). slot_word psz lo (note_bytes h1 (nb\<lparr>mOverlay := Some m\<rparr>)) t =
       (if t = 2 * i + 1 then v else slot_word psz lo (note_bytes h nb) t)"
    by (rule value_write [OF assms(1,2,3,4,5) e(1) self])
  have "auxv_synced psz lo h1 (nb\<lparr>mOverlay := Some m, mAuxvs := (mAuxvs nb)[i := ?a\<lparr>mType := mType ?a, mValue := v\<rparr>]\<rparr>)"
    using sw e(5) by (intro auxv_synced_update [OF assms(2,3) ok]) auto
  then show ?thesis using w by (simp add: Auxv_setValue_def)
qed

lemma Auxv_setType_synced:
  assumes "os_ok os" "auxv_synced psz lo h nb" "i < length (mAuxvs nb)" "unat ty < 256 ^ psz"
    and "mOverlay nb = None \<Longrightarrow> os_mmap os h (mFileSize nb) \<noteq> None"
  shows "\<exists>nb' h'. Auxv_setType os h psz i ty nb = Inr (nb', h') \<and> auxv_synced psz lo h' nb' \<and>
    mAuxvs nb' = (mAuxvs nb)[i := (mAuxvs nb ! i)\<lparr>mType := ty\<rparr>]"
proof -
  let ?a = "mAuxvs nb ! i"
  note e = auxv_entry [OF assms(2,3)]
  obtain m h1 where w: "NoteBlock_setOverlay os h (mAuxv ?a) (le_bytes psz (unat ty)) nb = Inr (nb\<lparr>mOverlay := Some m\<rparr>, h1)"
    and ok: "note_ok h1 (nb\<lparr>mOverlay := Some m\<rparr>)"
    and sw: "\<forall>t<2 * length (mAuxvs nb). slot_word psz lo (note_bytes h1 (nb\<lparr>mOverlay := Some m\<rparr>)) t =
       (if t = 2 * i then ty else slot_word psz lo (note_bytes h nb) t)"
    by (rule type_write [OF assms])
  have "auxv_synced psz lo h1 (nb\<lparr>mOverlay := Some m, mAuxvs := (mAuxvs nb)[i := ?a\<lparr>mType := ty, mValue := mValue ?a\<rparr>]\<rparr>)"
    using sw e(6) by (intro auxv_synced_update [OF assms(2,3) ok]) auto
  then show ?thesis using w by (simp add: Auxv_setType_def)
qed

lemma Auxv_setTypeAndValue_synced:
  assumes "os_ok os" "auxv_synced psz lo h nb" "i < length (mAuxvs nb)" "unat ty < 256 ^ psz" "unat v < 256 ^ psz"
    and "mOverlay nb = None \<Longrightarrow> os_mmap os h (mFileSize nb) \<noteq> None"
  shows "\<exists>nb' h'. Auxv_setTypeAndValue os h psz i ty v nb = Inr (nb', h') \<and> auxv_synced psz lo h' nb' \<and>
    mAuxvs nb' = (mAuxvs nb)[i := (mAuxvs nb ! i)\<lparr>mType := ty, mValue := v\<rparr>]"
proof -
  let ?a = "mAuxvs nb ! i"
  obtain m h1 where w: "NoteBlock_setOverlay os h (mAuxv ?a) (le_bytes psz (unat ty)) nb = Inr (nb\<lparr>mOverlay := Some m\<rparr>, h1)"
    and ok: "note_ok h1 (nb\<lparr>mOverlay := Some m\<rparr>)"
    and sw: "\<forall>t<2 * length (mAuxvs nb). slot_word psz lo (note_bytes h1 (nb\<lparr>mOverlay := Some m\<rparr>)) t =
       (if t = 2 * i then ty else slot_word psz lo (note_bytes h nb) t)"
    by (rule type_write [OF assms(1-4,6)])
  let ?nb = "nb\<lparr>mOverlay := Some m\<rparr>"
  have nb: "i < length (mAuxvs ?nb)" "mOverlay ?nb = None \<Longrightarrow> os_mmap os h1 (mFileSize ?nb) \<noteq> None" using assms(3) by simp_all
  obtain m2 h2 where w2: "NoteBlock_setOverlay os h1 (mAuxv (mAuxvs ?nb ! i) + of_nat psz) (le_bytes psz (unat v)) ?nb =
      Inr (?nb\<lparr>mOverlay := Some m2\<rparr>, h2)"
    and ok2: "note_ok h2 (?nb\<lparr>mOverlay := Some m2\<rparr>)"
    and sw2: "\<forall>t<2 * length (mAuxvs ?nb). slot_word psz lo (note_bytes h2 (?nb\<lparr>mOverlay := Some m2\<rparr>)) t =
       (if t = 2 * i + 1 then v else slot_word psz lo (note_bytes h1 ?nb) t)"
    by (rule value_write [OF assms(1,2) nb(1) assms(5) nb(2) ok refl])
  have "auxv_synced psz lo h2 (nb\<lparr>mOverlay := Some m2, mAuxvs := (mAuxvs nb)[i := ?a\<lparr>mType := ty, mValue := v\<rparr>]\<rparr>)"
    using ok2 sw2 sw by (intro auxv_synced_update [OF assms(2,3)]) auto
  then show ?thesis using w w2 by (simp add: Auxv_setTypeAndValue_def)
qed

text \<open>C14: the setters of an auxiliary vector entry keep objects and bytes in step. On a note whose
  bytes spell the entries, setValue, setType and setTypeAndValue succeed, change the one entry
  and nothing else in the vector, and the bytes of the note (now in the overlay) spell the
  changed vector.\<close>

theorem Auxv_setters_synced:
  assumes "os_ok os" and "auxv_synced psz lo h nb" and "i < length (mAuxvs nb)"
    and "mOverlay nb = None \<Longrightarrow> os_mmap os h (mFileSize nb) \<noteq> None"
    and "unat ty < 256 ^ psz" and "unat v < 256 ^ psz"
  shows "(\<exists>nb' h'. Auxv_setValue os h psz i v nb = Inr (nb', h') \<and> auxv_synced psz lo h' nb' \<and>
      mAuxvs nb' = (mAuxvs nb)[i := (mAuxvs nb ! i)\<lparr>mValue := v\<rparr>]) \<and>
    (\<exists>nb' h'. Auxv_setType os h psz i ty nb = Inr (nb', h') \<and> auxv_synced psz lo h' nb' \<and>
      mAuxvs nb' = (mAuxvs nb)[i := (mAuxvs nb ! i)\<lparr>mType := ty\<rparr>]) \<and>
    (\<exists>nb' h'. Auxv_setTypeAndValue os h psz i ty v nb = Inr (nb', h') \<and> auxv_synced psz lo h' nb' \<and>
      mAuxvs nb' = (mAuxvs nb)[i := (mAuxvs nb ! i)\<lparr>mType := ty, mValue := v\<rparr>])"
  using Auxv_setValue_synced [OF assms(1-3,6,4)] Auxv_setType_synced [OF assms(1-3,5,4)]
    Auxv_setTypeAndValue_synced [OF assms(1-3,5,6,4)] by blast

definition demo_aux_bytes :: "u8 list" where
  "demo_aux_bytes = [6, 0, 0, 0, 0, 0x10, 0, 0,   0, 0, 0, 0, 0, 0, 0, 0]"

definition demo_aux_note :: note_block where
  "demo_aux_note = (new_NoteBlock 4 0 0 0 16 0 4)\<lparr>mOriAddr := 0x1000,
     mAuxvs := [\<lparr>mType = 6, mValue = 0x1000, mAuxv = 0x1000\<rparr>, \<lparr>mType = 0, mValue = 0, mAuxv = 0x1008\<rparr>]\<rparr>"

definition demo_aux_os :: os_env where
  "demo_aux_os = \<lparr>os_file = (\<lambda>_. None), os_mmap = (\<lambda>h n. if unat n \<le> 16 \<and>
     (\<forall>x. unat (x - 0x9000) < unat n \<longrightarrow> h x = None) then Some 0x9000 else None), os_page_size = 4096\<rparr>"

theorem Auxv_setters_synced_witness:
  "\<exists>nb' h'. Auxv_setValue demo_aux_os (host_map (\<lambda>_. None) 0x1000 demo_aux_bytes) 4 0 0x4000 demo_aux_note = Inr (nb', h') \<and>
     auxv_synced 4 0 h' nb' \<and> mValue (mAuxvs nb' ! 0) = 0x4000"
proof -
  let ?h = "host_map (\<lambda>_. None) 0x1000 demo_aux_bytes"
  have os: "os_ok demo_aux_os" unfolding os_ok_def demo_aux_os_def by (auto split: if_splits)
  have at: "?h (0x1000 + of_nat k) = Some (demo_aux_bytes ! k)" if "k < 16" for k
    using that by (intro host_map_at) (simp_all add: demo_aux_bytes_def)
  have bytes: "note_bytes ?h demo_aux_note = demo_aux_bytes"
    using at by (intro nth_equalityI) (simp_all add: note_bytes_def demo_aux_note_def new_NoteBlock_def NoteBlock_begin_all demo_aux_bytes_def)
  have ok: "note_ok ?h demo_aux_note"
    using at by (simp add: note_ok_def demo_aux_note_def new_NoteBlock_def mapped_def)
  have "auxv_synced 4 0 ?h demo_aux_note"
    unfolding auxv_synced_def bytes using ok
    by (simp add: demo_aux_note_def new_NoteBlock_def slot_word_def demo_aux_bytes_def le_word_def All_less_Suc)
  moreover have "os_mmap demo_aux_os ?h (mFileSize demo_aux_note) \<noteq> None"
  proof -
    have "?h x = None" if "unat (x - 0x9000) < 16" for x
      using that in_range_iff_unat [of "0x9000 :: u64" 16 x] in_range_iff_unat [of "0x1000 :: u64" 16 x]
      by (simp add: host_map_def demo_aux_bytes_def)
    then show ?thesis by (simp add: demo_aux_os_def demo_aux_note_def new_NoteBlock_def)
  qed
  ultimately show ?thesis
    using Auxv_setters_synced [OF os, of 4 0 ?h demo_aux_note 0 0 "0x4000"] by (auto simp: demo_aux_note_def)
qed

end
