(* ===== verification/Registers.thy ===== *)
theory Registers
  imports Unwind NoteProps
begin

unbundle bit_operations_syntax

text \<open>
  The registers of a thread by name: \<open>RegisterSet\<close> and \<open>RegisterGet\<close> of core/arm64, arm, x86, x86_64,
  riscv64/thread_info.cpp. A change goes both to the register structure of the thread and, as an
  overlay, to the note the thread was read from.
\<close>

section \<open>Register tables\<close>

text \<open>\<open>ThreadApi::RegsMap\<close>: name, \<open>offsetof\<close> in the \<open>Register\<close> class of the architecture, size.\<close>

type_synonym RegsMap = "string \<times> nat \<times> nat"

definition arm64_kMap :: "RegsMap list" where
  "arm64_kMap =
     [(''x0'', 0, 8), (''x1'', 8, 8), (''x2'', 16, 8), (''x3'', 24, 8), (''x4'', 32, 8), (''x5'', 40, 8),
      (''x6'', 48, 8), (''x7'', 56, 8), (''x8'', 64, 8), (''x9'', 72, 8), (''x10'', 80, 8),
      (''x11'', 88, 8), (''x12'', 96, 8), (''x13'', 104, 8), (''x14'', 112, 8), (''x15'', 120, 8),
      (''x16'', 128, 8), (''x17'', 136, 8), (''x18'', 144, 8), (''x19'', 152, 8), (''x20'', 160, 8),
      (''x21'', 168, 8), (''x22'', 176, 8), (''x23'', 184, 8), (''x24'', 192, 8), (''x25'', 200, 8),
      (''x26'', 208, 8), (''x27'', 216, 8), (''x28'', 224, 8), (''x29'', 232, 8), (''fp'', 232, 8),
      (''lr'', 240, 8), (''sp'', 248, 8), (''pc'', 256, 8), (''cpsr'', 264, 8), (''pst'', 264, 8)]"

definition arm_kMap :: "RegsMap list" where
  "arm_kMap =
     [(''r0'', 0, 4), (''r1'', 4, 4), (''r2'', 8, 4), (''r3'', 12, 4), (''r4'', 16, 4), (''r5'', 20, 4),
      (''r6'', 24, 4), (''r7'', 28, 4), (''r8'', 32, 4), (''r9'', 36, 4), (''r10'', 40, 4),
      (''r11'', 44, 4), (''r12'', 48, 4), (''sp'', 52, 4), (''lr'', 56, 4), (''pc'', 60, 4),
      (''cpsr'', 64, 4)]"

definition x86_kMap :: "RegsMap list" where
  "x86_kMap =
     [(''ebx'', 0, 4), (''ecx'', 4, 4), (''edx'', 8, 4), (''esi'', 12, 4), (''edi'', 16, 4),
      (''ebp'', 20, 4), (''eax'', 24, 4), (''eip'', 48, 4), (''esp'', 60, 4), (''eflags'', 56, 4),
      (''orig_eax'', 44, 4), (''ds'', 28, 2), (''es'', 32, 2), (''fs'', 36, 2), (''gs'', 40, 2),
      (''cs'', 52, 2), (''ss'', 64, 2)]"

definition x86_64_kMap :: "RegsMap list" where
  "x86_64_kMap =
     [(''r15'', 0, 8), (''r14'', 8, 8), (''r13'', 16, 8), (''r12'', 24, 8), (''rbp'', 32, 8),
      (''rbx'', 40, 8), (''r11'', 48, 8), (''r10'', 56, 8), (''r9'', 64, 8), (''r8'', 72, 8),
      (''rax'', 80, 8), (''rcx'', 88, 8), (''rdx'', 96, 8), (''rsi'', 104, 8), (''rdi'', 112, 8),
      (''orig_rax'', 120, 8), (''rip'', 128, 8), (''rsp'', 152, 8), (''flags'', 144, 8),
      (''ds'', 184, 4), (''es'', 192, 4), (''fs'', 200, 4), (''gs'', 208, 4), (''cs'', 136, 4),
      (''ss'', 160, 4)]"

definition riscv64_kMap :: "RegsMap list" where
  "riscv64_kMap =
     [(''pc'', 0, 8), (''ra'', 8, 8), (''sp'', 16, 8), (''gp'', 24, 8), (''tp'', 32, 8), (''t0'', 40, 8),
      (''t1'', 48, 8), (''t2'', 56, 8), (''s0'', 64, 8), (''s1'', 72, 8), (''a0'', 80, 8),
      (''a1'', 88, 8), (''a2'', 96, 8), (''a3'', 104, 8), (''a4'', 112, 8), (''a5'', 120, 8),
      (''a6'', 128, 8), (''a7'', 136, 8), (''s2'', 144, 8), (''s3'', 152, 8), (''s4'', 160, 8),
      (''s5'', 168, 8), (''s6'', 176, 8), (''s7'', 184, 8), (''s8'', 192, 8), (''s9'', 200, 8),
      (''s10'', 208, 8), (''s11'', 216, 8), (''t3'', 224, 8), (''t4'', 232, 8), (''t5'', 240, 8),
      (''t6'', 248, 8)]"

text \<open>The \<open>for\<close> loop over the table: the first entry with the name.\<close>

fun find_reg :: "string \<Rightarrow> RegsMap list \<Rightarrow> (nat \<times> nat) option" where
  "find_reg regs [] = None"
| "find_reg regs ((name, off, sz) # rest) = (if regs = name then Some (off, sz) else find_reg regs rest)"

section \<open>Reading a register\<close>

text \<open>\<open>*(reinterpret_cast<uintW_t*>(&reg) + offset / W)\<close> with \<open>W\<close> in bytes.\<close>

definition reg_load :: "nat \<Rightarrow> nat \<Rightarrow> u8 list \<Rightarrow> u64" where
  "reg_load w off regs = reg_at regs (w * (off div w)) w"

definition reg_store :: "nat \<Rightarrow> nat \<Rightarrow> u64 \<Rightarrow> u8 list \<Rightarrow> u8 list" where
  "reg_store w off v regs = splice_at (w * (off div w)) (le_bytes w (unat v)) regs"

text \<open>arm64, arm and riscv64 use their word throughout; x86 and x86_64 use half of it for the
  segment registers.\<close>

definition get_wide :: "RegsMap list \<Rightarrow> nat \<Rightarrow> string \<Rightarrow> u8 list \<Rightarrow> u64" where
  "get_wide kMap w name regs =
     (case find_reg name kMap of None \<Rightarrow> 0 | Some (off, sz) \<Rightarrow> reg_load w off regs)"

definition get_split :: "RegsMap list \<Rightarrow> nat \<Rightarrow> string \<Rightarrow> u8 list \<Rightarrow> u64" where
  "get_split kMap w name regs =
     (case find_reg name kMap of None \<Rightarrow> 0
      | Some (off, sz) \<Rightarrow> if sz = w then reg_load w off regs else reg_load (w div 2) off regs)"

definition arm64_RegisterGet :: "string \<Rightarrow> thread_info \<Rightarrow> u64" where
  "arm64_RegisterGet name t = get_wide arm64_kMap 8 name (th_reg t)"

definition arm_RegisterGet :: "string \<Rightarrow> thread_info \<Rightarrow> u64" where
  "arm_RegisterGet name t = get_wide arm_kMap 4 name (th_reg t)"

definition riscv64_RegisterGet :: "string \<Rightarrow> thread_info \<Rightarrow> u64" where
  "riscv64_RegisterGet name t = get_wide riscv64_kMap 8 name (th_reg t)"

definition x86_RegisterGet :: "string \<Rightarrow> thread_info \<Rightarrow> u64" where
  "x86_RegisterGet name t = get_split x86_kMap 4 name (th_reg t)"

definition x86_64_RegisterGet :: "string \<Rightarrow> thread_info \<Rightarrow> u64" where
  "x86_64_RegisterGet name t = get_split x86_64_kMap 8 name (th_reg t)"

section \<open>Setting a register\<close>

text \<open>What is stored in the structure, and the value whose first \<open>size\<close> bytes go to the overlay.\<close>

definition put_wide :: "nat \<Rightarrow> nat \<Rightarrow> nat \<Rightarrow> u64 \<Rightarrow> u8 list \<Rightarrow> u64 \<times> u8 list" where
  "put_wide w off sz v regs = (v, reg_store w off v regs)"

definition put_split :: "nat \<Rightarrow> nat \<Rightarrow> nat \<Rightarrow> u64 \<Rightarrow> u8 list \<Rightarrow> u64 \<times> u8 list" where
  "put_split w off sz v regs =
     (if sz = w then (v, reg_store w off v regs)
      else (let v' = v AND mask (8 * (w div 2)) in (v', reg_store (w div 2) off v' regs)))"

text \<open>The \<open>j\<close>-th thread of the \<open>n\<close>-th note block.\<close>

abbreviation thread_at :: "core \<Rightarrow> nat \<Rightarrow> nat \<Rightarrow> thread_info" where
  "thread_at c n j \<equiv> mThread (mNote c ! n) ! j"

text \<open>Assign the register structure and write \<open>buf\<close> at offset \<open>off\<close> of \<open>pr_reg\<close> in the overlay of the
  note (\<open>block()->setOverlay(prs() + offsetof(prstatus, pr_reg) + off, buf, size)\<close>).\<close>

definition assign_regs ::
  "os_env \<Rightarrow> elf_class \<Rightarrow> nat \<Rightarrow> nat \<Rightarrow> u8 list \<Rightarrow> nat \<Rightarrow> u8 list \<Rightarrow> core \<Rightarrow> core res" where
  "assign_regs os cls n j regs off buf c =
     (let nb = mNote c ! n; t = (mThread nb ! j)\<lparr>th_reg := regs\<rparr>;
          nb1 = nb\<lparr>mThread := (mThread nb)[j := t]\<rparr>
      in res_bind (NoteBlock_setOverlay os (mem c) (mPrs t + pr_reg cls + of_nat off) buf nb1)
           (\<lambda>(nb2, h). Inr (c\<lparr>mNote := (mNote c)[n := nb2], mem := h\<rparr>)))"

text \<open>
  The branch for \<open>ucontext\<close>: the given address, or the context found on the stack, must lie in a
  valid segment that contains the address \<open>need\<close> bytes on.
\<close>

definition set_from_ucontext ::
  "os_env \<Rightarrow> machine \<Rightarrow> elf_class \<Rightarrow> u8 list \<Rightarrow> u64 \<Rightarrow> nat \<Rightarrow> nat \<Rightarrow> u64 \<Rightarrow> core \<Rightarrow> core res" where
  "set_from_ucontext os m cls junk need n j v c =
     res_bind (Ref_IsValid c (new_memory_ref v)) (\<lambda>(ok, uc).
     res_bind (if ok then Inr (uc, c)
               else res_bind (machine_GetUContext m (new_UnwindStack (thread_at c n j), c))
                      (\<lambda>(a, _, c'). Inr (new_memory_ref a, c'))) (\<lambda>(uc1, c1).
     res_bind (Ref_IsValid c1 uc1) (\<lambda>(ok1, uc2).
       if ok1 \<and> virtualContains (blk c1 (the (ref_block uc2))) (ref_vaddr uc2 + need) then
         res_bind (Real c1 uc2) (\<lambda>(real, _).
         res_bind (uc_registers m junk (mem c1) real) (\<lambda>regs. assign_regs os cls n j regs 0 regs c1))
       else Inr c1)))"

text \<open>
  \<open>RegisterSet(command)\<close>, with the command split at \<open>=\<close>. \<open>indet\<close> is what \<open>Utils::atol\<close> returns for a
  string that is no number; \<open>w\<close> is the size of \<open>value\<close>.
\<close>

definition command_value :: "u64 \<Rightarrow> nat \<Rightarrow> string list \<Rightarrow> u64" where
  "command_value indet w tokens =
     (case tokens of _ # token # _ \<Rightarrow> (case Utils_atol token of Some v \<Rightarrow> v | None \<Rightarrow> indet) AND mask (8 * w)
      | _ \<Rightarrow> 0)"

definition RegisterSet ::
  "os_env \<Rightarrow> machine \<Rightarrow> elf_class \<Rightarrow> RegsMap list \<Rightarrow> nat \<Rightarrow> (nat \<Rightarrow> nat \<Rightarrow> u64 \<Rightarrow> u8 list \<Rightarrow> u64 \<times> u8 list) \<Rightarrow> u64
     \<Rightarrow> u8 list \<Rightarrow> u64 \<Rightarrow> string \<Rightarrow> nat \<Rightarrow> nat \<Rightarrow> core \<Rightarrow> core res" where
  "RegisterSet os m cls kMap w put need junk indet command n j c =
     (case strtok (CHR ''='') command of [] \<Rightarrow> Inr c
      | regs # rest \<Rightarrow>
          (let val = command_value indet w (regs # rest) in
           if regs \<noteq> ''ucontext'' then
             (case find_reg regs kMap of None \<Rightarrow> Inr c
              | Some (off, sz) \<Rightarrow>
                  (case put off sz val (th_reg (thread_at c n j)) of (v', regs') \<Rightarrow>
                     assign_regs os cls n j regs' off (le_bytes sz (unat v')) c))
           else set_from_ucontext os m cls junk need n j val c))"

definition arm64_RegisterSet :: "os_env \<Rightarrow> u64 \<Rightarrow> string \<Rightarrow> nat \<Rightarrow> nat \<Rightarrow> core \<Rightarrow> core res" where
  "arm64_RegisterSet os =
     RegisterSet os EM_AARCH64 ELF64 arm64_kMap 8 (put_wide 8) (176 + 8 + 272) []"

definition arm_RegisterSet :: "os_env \<Rightarrow> u64 \<Rightarrow> string \<Rightarrow> nat \<Rightarrow> nat \<Rightarrow> core \<Rightarrow> core res" where
  "arm_RegisterSet os = RegisterSet os EM_ARM ELF32 arm_kMap 4 (put_wide 4) (20 + 12 + 68) []"

definition riscv64_RegisterSet :: "os_env \<Rightarrow> u64 \<Rightarrow> string \<Rightarrow> nat \<Rightarrow> nat \<Rightarrow> core \<Rightarrow> core res" where
  "riscv64_RegisterSet os = RegisterSet os EM_RISCV ELF64 riscv64_kMap 8 (put_wide 8) (176 + 0 + 256) []"

definition x86_RegisterSet :: "os_env \<Rightarrow> u8 list \<Rightarrow> u64 \<Rightarrow> string \<Rightarrow> nat \<Rightarrow> nat \<Rightarrow> core \<Rightarrow> core res" where
  "x86_RegisterSet os junk = RegisterSet os EM_386 ELF32 x86_kMap 4 (put_split 4) (20 + 80) junk"

definition x86_64_RegisterSet :: "os_env \<Rightarrow> u8 list \<Rightarrow> u64 \<Rightarrow> string \<Rightarrow> nat \<Rightarrow> nat \<Rightarrow> core \<Rightarrow> core res" where
  "x86_64_RegisterSet os junk = RegisterSet os EM_X86_64 ELF64 x86_64_kMap 8 (put_split 8) (40 + 152) junk"

end
