(* ===== verification/RegProps.thy ===== *)
theory RegProps
  imports Registers
begin

unbundle bit_operations_syntax

text \<open>
  What \<open>RegisterSet\<close> and \<open>RegisterGet\<close> promise. The interface is a register table (locale
  \<open>register_table\<close>): its entries lie in the structure, are the same or do not overlap, and the
  load and the store of an entry use its own bytes. The tables of the five architectures
  satisfy it.
\<close>

section \<open>Members of the register structure\<close>

lemma reg_at_splice:
  assumes "off + n \<le> length regs" "unat v < 256 ^ n"
  shows "reg_at (splice_at off (le_bytes n (unat v)) regs) off n = v"
  using splice_at_same [of off "le_bytes n (unat v)" regs] assms
  by (simp add: reg_at_def le_word_le_bytes_small)

lemma reg_at_splice_other:
  assumes "off + length buf \<le> length regs" "o1 + n \<le> length regs" "o1 + n \<le> off \<or> off + length buf \<le> o1"
  shows "reg_at (splice_at off buf regs) o1 n = reg_at regs o1 n"
  using splice_at_other [OF assms] by (simp add: reg_at_def)

lemma masked_bytes:
  fixes v :: u64
  assumes "n \<le> 8"
  shows "unat (v AND mask (8 * n)) < 256 ^ n"
proof -
  have "v AND mask (8 * n) = take_bit (8 * n) v" by (simp add: take_bit_eq_mask)
  moreover have "unat (take_bit (8 * n) v) = take_bit (8 * n) (unat v)" by (simp add: unsigned_take_bit_eq)
  moreover have "take_bit (8 * n) (unat v) < 2 ^ (8 * n)" by simp
  ultimately show ?thesis by (simp add: power_mult)
qed

section \<open>The interface\<close>

locale register_table =
  fixes kMap :: "RegsMap list" and w tsize :: nat
    and put :: "nat \<Rightarrow> nat \<Rightarrow> u64 \<Rightarrow> u8 list \<Rightarrow> u64 \<times> u8 list"
    and get :: "string \<Rightarrow> u8 list \<Rightarrow> u64"
  assumes entry_fits: "find_reg name kMap = Some (off, sz) \<Longrightarrow> off + sz \<le> tsize \<and> sz \<le> 8"
    and entries_apart: "find_reg a kMap = Some (o1, s1) \<Longrightarrow> find_reg b kMap = Some (o2, s2) \<Longrightarrow>
      (o1 = o2 \<and> s1 = s2) \<or> o1 + s1 \<le> o2 \<or> o2 + s2 \<le> o1"
    and put_entry: "find_reg name kMap = Some (off, sz) \<Longrightarrow>
      put off sz (v AND mask (8 * w)) regs =
        (v AND mask (8 * sz), splice_at off (le_bytes sz (unat (v AND mask (8 * sz)))) regs)"
    and get_entry: "find_reg name kMap = Some (off, sz) \<Longrightarrow> get name regs = reg_at regs off sz"
    and get_unknown: "find_reg name kMap = None \<Longrightarrow> get name regs = 0"
    and no_ucontext: "find_reg ''ucontext'' kMap = None"
begin

lemma put_get:
  assumes "find_reg name kMap = Some (off, sz)" "length regs = tsize"
  shows "get name (snd (put off sz (v AND mask (8 * w)) regs)) = v AND mask (8 * sz)"
  using entry_fits [OF assms(1)] assms(2)
  by (simp add: put_entry [OF assms(1)] get_entry [OF assms(1)] reg_at_splice masked_bytes)

lemma put_other:
  assumes "find_reg name kMap = Some (off, sz)" "length regs = tsize"
    and "\<forall>s. find_reg other kMap \<noteq> Some (off, s)"
  shows "get other (snd (put off sz (v AND mask (8 * w)) regs)) = get other regs"
proof (cases "find_reg other kMap")
  case None
  then show ?thesis by (simp add: get_unknown)
next
  case (Some e)
  then obtain o2 s2 where e: "find_reg other kMap = Some (o2, s2)" by (cases e) auto
  then have "o2 \<noteq> off" using assms(3) by auto
  then have "o2 + s2 \<le> off \<or> off + sz \<le> o2" using entries_apart [OF assms(1) e] by auto
  then show ?thesis
    using entry_fits [OF assms(1)] entry_fits [OF e] assms(2)
    by (simp add: put_entry [OF assms(1)] get_entry [OF e] reg_at_splice_other)
qed

end

section \<open>The five tables\<close>

text \<open>The conditions on a table, as a check that can be evaluated.\<close>

definition apart :: "RegsMap \<Rightarrow> RegsMap \<Rightarrow> bool" where
  "apart e f = (case (e, f) of ((_, o1, s1), (_, o2, s2)) \<Rightarrow> (o1 = o2 \<and> s1 = s2) \<or> o1 + s1 \<le> o2 \<or> o2 + s2 \<le> o1)"

fun all_pairs :: "('a \<Rightarrow> 'a \<Rightarrow> bool) \<Rightarrow> 'a list \<Rightarrow> bool" where
  "all_pairs R [] = True"
| "all_pairs R (x # xs) = (list_all (R x) xs \<and> all_pairs R xs)"

definition kmap_ok :: "nat list \<Rightarrow> nat \<Rightarrow> RegsMap list \<Rightarrow> bool" where
  "kmap_ok sizes tsize kMap =
     (list_all (\<lambda>(name, off, sz). sz \<in> set sizes \<and> sz dvd off \<and> off + sz \<le> tsize \<and> name \<noteq> ''ucontext'') kMap \<and>
      all_pairs apart kMap)"

lemma all_pairsD:
  assumes "all_pairs R xs" "x \<in> set xs" "y \<in> set xs" "\<And>u v. R u v \<Longrightarrow> R v u"
  shows "x = y \<or> R x y"
  using assms by (induction xs) (auto simp: list_all_iff)

lemma apart_sym: "apart e f \<Longrightarrow> apart f e"
  by (auto simp: apart_def split: prod.splits)

lemma find_reg_in: "find_reg name kMap = Some (off, sz) \<Longrightarrow> (name, off, sz) \<in> set kMap"
  by (induction name kMap rule: find_reg.induct) (auto split: if_splits)

lemma find_reg_none: "(\<forall>e\<in>set kMap. fst e \<noteq> name) \<Longrightarrow> find_reg name kMap = None"
  by (induction name kMap rule: find_reg.induct) auto

lemma kmap_okD:
  assumes "kmap_ok sizes tsize kMap" "find_reg name kMap = Some (off, sz)"
  shows "sz \<in> set sizes" "sz dvd off" "off + sz \<le> tsize"
  using assms find_reg_in [OF assms(2)] by (auto simp: kmap_ok_def list_all_iff)

lemma kmap_ok_apart:
  assumes "kmap_ok sizes tsize kMap" "find_reg a kMap = Some (o1, s1)" "find_reg b kMap = Some (o2, s2)"
  shows "(o1 = o2 \<and> s1 = s2) \<or> o1 + s1 \<le> o2 \<or> o2 + s2 \<le> o1"
  using assms all_pairsD [of apart kMap "(a, o1, s1)" "(b, o2, s2)"] find_reg_in apart_sym
  by (auto simp: kmap_ok_def apart_def)

lemma kmap_ok_no_ucontext: "kmap_ok sizes tsize kMap \<Longrightarrow> find_reg ''ucontext'' kMap = None"
  by (rule find_reg_none) (auto simp: kmap_ok_def list_all_iff)

lemma wide_table:
  assumes "kmap_ok [w] tsize kMap" "w \<le> 8"
  shows "register_table kMap w tsize (put_wide w) (get_wide kMap w)"
proof
  fix name off sz v and regs :: "u8 list"
  assume f: "find_reg name kMap = Some (off, sz)"
  note d = kmap_okD [OF assms(1) f]
  show "off + sz \<le> tsize \<and> sz \<le> 8" using d assms(2) by simp
  show "put_wide w off sz (v AND mask (8 * w)) regs =
      (v AND mask (8 * sz), splice_at off (le_bytes sz (unat (v AND mask (8 * sz)))) regs)"
    using d by (simp add: put_wide_def reg_store_def)
  show "get_wide kMap w name regs = reg_at regs off sz" using d f by (simp add: get_wide_def reg_load_def)
qed (use kmap_ok_apart [OF assms(1)] kmap_ok_no_ucontext [OF assms(1)] in \<open>auto simp: get_wide_def\<close>)

lemma split_table:
  assumes "kmap_ok [w, w div 2] tsize kMap" "w \<le> 8"
  shows "register_table kMap w tsize (put_split w) (get_split kMap w)"
proof
  fix name off sz v and regs :: "u8 list"
  assume f: "find_reg name kMap = Some (off, sz)"
  note d = kmap_okD [OF assms(1) f]
  show "off + sz \<le> tsize \<and> sz \<le> 8" using d assms(2) by auto
  have "(v AND mask (8 * w)) AND mask (8 * (w div 2)) = v AND (mask (8 * (w div 2)) :: u64)"
    by (rule bit_eqI) (auto simp: bit_simps)
  then show "put_split w off sz (v AND mask (8 * w)) regs =
      (v AND mask (8 * sz), splice_at off (le_bytes sz (unat (v AND mask (8 * sz)))) regs)"
    using d by (auto simp: put_split_def reg_store_def Let_def)
  show "get_split kMap w name regs = reg_at regs off sz"
    using d f by (auto simp: get_split_def reg_load_def)
qed (use kmap_ok_apart [OF assms(1)] kmap_ok_no_ucontext [OF assms(1)] in \<open>auto simp: get_split_def\<close>)

interpretation arm64_regs: register_table arm64_kMap 8 272 "put_wide 8" "get_wide arm64_kMap 8"
  by (rule wide_table) (code_simp, simp)

interpretation arm_regs: register_table arm_kMap 4 68 "put_wide 4" "get_wide arm_kMap 4"
  by (rule wide_table) (code_simp, simp)

interpretation riscv64_regs: register_table riscv64_kMap 8 256 "put_wide 8" "get_wide riscv64_kMap 8"
  by (rule wide_table) (code_simp, simp)

interpretation x86_regs: register_table x86_kMap 4 68 "put_split 4" "get_split x86_kMap 4"
  by (rule split_table) (code_simp, simp)

interpretation x86_64_regs: register_table x86_64_kMap 8 216 "put_split 8" "get_split x86_64_kMap 8"
  by (rule split_table) (code_simp, simp)

section \<open>The note of a thread\<close>

text \<open>The register bytes of the thread are those at \<open>pr_reg\<close> of its note.\<close>

definition thread_synced :: "machine \<Rightarrow> host \<Rightarrow> note_block \<Rightarrow> thread_info \<Rightarrow> bool" where
  "thread_synced m h nb t \<longleftrightarrow> note_ok h nb \<and> length (th_reg t) = sizeof_Register m \<and>
     (\<exists>lo. mPrs t + pr_reg (class_of m) = mOriAddr nb + of_nat lo \<and>
           lo + sizeof_Register m \<le> unat (mFileSize nb) \<and>
           take (sizeof_Register m) (drop lo (note_bytes h nb)) = th_reg t)"

lemma note_bytes_threads [simp]: "note_bytes h (nb\<lparr>mThread := ts\<rparr>) = note_bytes h nb"
  by (simp add: note_bytes_def NoteBlock_begin_def)

lemma note_ok_threads [simp]: "note_ok h (nb\<lparr>mThread := ts\<rparr>) = note_ok h nb"
  by (simp add: note_ok_def)

lemma splice_inside:
  assumes "off + length buf \<le> n" "lo + n \<le> length xs"
  shows "take n (drop lo (splice_at (lo + off) buf xs)) = splice_at off buf (take n (drop lo xs))"
  using assms by (intro nth_equalityI) (auto simp: length_splice_at splice_at_nth)

lemma assign_regs_synced:
  assumes os: "os_ok os" and n: "n < length (mNote c)" and j: "j < length (mThread (mNote c ! n))"
    and sync: "thread_synced m (mem c) (mNote c ! n) (thread_at c n j)"
    and mm: "mOverlay (mNote c ! n) = None \<Longrightarrow> os_mmap os (mem c) (mFileSize (mNote c ! n)) \<noteq> None"
    and regs: "off + length buf \<le> sizeof_Register m" "regs = splice_at off buf (th_reg (thread_at c n j))"
  obtains nb h where "assign_regs os (class_of m) n j regs off buf c = Inr (c\<lparr>mNote := (mNote c)[n := nb], mem := h\<rparr>)"
    and "thread_synced m h nb (mThread nb ! j)"
    and "mThread nb = (mThread (mNote c ! n))[j := (thread_at c n j)\<lparr>th_reg := regs\<rparr>]"
proof -
  let ?nb = "mNote c ! n" and ?t = "thread_at c n j"
  let ?ts = "(mThread ?nb)[j := ?t\<lparr>th_reg := regs\<rparr>]"
  let ?nb1 = "?nb\<lparr>mThread := ?ts\<rparr>"
  obtain lo where ok: "note_ok (mem c) ?nb" and len: "length (th_reg ?t) = sizeof_Register m"
    and prs: "mPrs ?t + pr_reg (class_of m) = mOriAddr ?nb + of_nat lo" "lo + sizeof_Register m \<le> unat (mFileSize ?nb)"
    and eq: "take (sizeof_Register m) (drop lo (note_bytes (mem c) ?nb)) = th_reg ?t"
    using sync by (auto simp: thread_synced_def)
  have nb1: "note_ok (mem c) ?nb1" "mOverlay ?nb1 = None \<Longrightarrow> os_mmap os (mem c) (mFileSize ?nb1) \<noteq> None"
    "mPrs ?t + pr_reg (class_of m) + of_nat off = mOriAddr ?nb1 + of_nat (lo + off)"
    "lo + off + length buf \<le> unat (mFileSize ?nb1)"
    using ok mm prs regs(1) by (simp_all add: add.assoc)
  obtain mp h where w: "NoteBlock_setOverlay os (mem c) (mPrs ?t + pr_reg (class_of m) + of_nat off) buf ?nb1 =
      Inr (?nb1\<lparr>mOverlay := Some mp\<rparr>, h)"
    and ok': "note_ok h (?nb1\<lparr>mOverlay := Some mp\<rparr>)"
    and bytes: "note_bytes h (?nb1\<lparr>mOverlay := Some mp\<rparr>) = splice_at (lo + off) buf (note_bytes (mem c) ?nb1)"
    by (rule NoteBlock_setOverlay_spec [OF os nb1])
  have "length (note_bytes (mem c) ?nb) = unat (mFileSize ?nb)" by (simp add: note_bytes_def)
  then have "take (sizeof_Register m) (drop lo (note_bytes h (?nb1\<lparr>mOverlay := Some mp\<rparr>))) = regs"
    unfolding bytes using splice_inside [of off buf "sizeof_Register m" lo] regs prs(2) eq by simp
  then have "thread_synced m h (?nb1\<lparr>mOverlay := Some mp\<rparr>) (?t\<lparr>th_reg := regs\<rparr>)"
    using ok' prs regs len by (auto simp: thread_synced_def length_splice_at)
  then show thesis
    using that [where nb = "?nb1\<lparr>mOverlay := Some mp\<rparr>" and h = h] w j by (simp add: assign_regs_def Let_def)
qed

section \<open>Setting a register by name\<close>

fun kMap_of :: "machine \<Rightarrow> RegsMap list" where
  "kMap_of EM_AARCH64 = arm64_kMap" | "kMap_of EM_ARM = arm_kMap" | "kMap_of EM_RISCV = riscv64_kMap"
| "kMap_of EM_386 = x86_kMap" | "kMap_of EM_X86_64 = x86_64_kMap"

text \<open>The virtual calls \<open>ThreadApi::RegisterSet\<close> and \<open>RegisterGet\<close> of a thread of machine \<open>m\<close>.\<close>

fun machine_RegisterSet :: "machine \<Rightarrow> os_env \<Rightarrow> u8 list \<Rightarrow> u64 \<Rightarrow> string \<Rightarrow> nat \<Rightarrow> nat \<Rightarrow> core \<Rightarrow> core res" where
  "machine_RegisterSet EM_AARCH64 os junk = arm64_RegisterSet os"
| "machine_RegisterSet EM_ARM os junk = arm_RegisterSet os"
| "machine_RegisterSet EM_RISCV os junk = riscv64_RegisterSet os"
| "machine_RegisterSet EM_386 os junk = x86_RegisterSet os junk"
| "machine_RegisterSet EM_X86_64 os junk = x86_64_RegisterSet os junk"

fun machine_RegisterGet :: "machine \<Rightarrow> string \<Rightarrow> thread_info \<Rightarrow> u64" where
  "machine_RegisterGet EM_AARCH64 = arm64_RegisterGet"
| "machine_RegisterGet EM_ARM = arm_RegisterGet"
| "machine_RegisterGet EM_RISCV = riscv64_RegisterGet"
| "machine_RegisterGet EM_386 = x86_RegisterGet"
| "machine_RegisterGet EM_X86_64 = x86_64_RegisterGet"

lemmas register_defs = arm64_RegisterSet_def arm_RegisterSet_def riscv64_RegisterSet_def x86_RegisterSet_def
  x86_64_RegisterSet_def arm64_RegisterGet_def arm_RegisterGet_def riscv64_RegisterGet_def x86_RegisterGet_def
  x86_64_RegisterGet_def

context register_table
begin

lemma set_by_name:
  assumes os: "os_ok os" and n: "n < length (mNote c)" and j: "j < length (mThread (mNote c ! n))"
    and sync: "thread_synced m (mem c) (mNote c ! n) (thread_at c n j)" and sz: "sizeof_Register m = tsize"
    and mm: "mOverlay (mNote c ! n) = None \<Longrightarrow> os_mmap os (mem c) (mFileSize (mNote c ! n)) \<noteq> None"
    and cmd: "strtok (CHR ''='') command = name # token # rest" "Utils_atol token = Some v"
    and known: "find_reg name kMap = Some (off, sz)"
  shows "\<exists>nb h. RegisterSet os m' (class_of m) kMap w put need junk indet command n j c =
      Inr (c\<lparr>mNote := (mNote c)[n := nb], mem := h\<rparr>) \<and>
    thread_synced m h nb (mThread nb ! j) \<and>
    mThread nb = (mThread (mNote c ! n))[j := mThread nb ! j] \<and>
    get name (th_reg (mThread nb ! j)) = v AND mask (8 * sz) \<and>
    (\<forall>other. (\<forall>s. find_reg other kMap \<noteq> Some (off, s)) \<longrightarrow>
       get other (th_reg (mThread nb ! j)) = get other (th_reg (thread_at c n j)))"
proof -
  let ?regs = "th_reg (thread_at c n j)"
  let ?v = "v AND mask (8 * sz)"
  let ?buf = "le_bytes sz (unat ?v)"
  have len: "length ?regs = tsize" using sync sz by (simp add: thread_synced_def)
  have "off + length ?buf \<le> sizeof_Register m" using entry_fits [OF known] sz by simp
  then obtain nb h where a: "assign_regs os (class_of m) n j (splice_at off ?buf ?regs) off ?buf c =
      Inr (c\<lparr>mNote := (mNote c)[n := nb], mem := h\<rparr>)"
    and s: "thread_synced m h nb (mThread nb ! j)"
    and t: "mThread nb = (mThread (mNote c ! n))[j := (thread_at c n j)\<lparr>th_reg := splice_at off ?buf ?regs\<rparr>]"
    using assign_regs_synced [OF os n j sync mm _ refl] by blast
  have new: "th_reg (mThread nb ! j) = snd (put off sz (v AND mask (8 * w)) ?regs)"
    using t j put_entry [OF known] by simp
  have "name \<noteq> ''ucontext''" using known no_ucontext by auto
  then have "RegisterSet os m' (class_of m) kMap w put need junk indet command n j c =
      Inr (c\<lparr>mNote := (mNote c)[n := nb], mem := h\<rparr>)"
    using cmd known a put_entry [OF known] by (simp add: RegisterSet_def command_value_def)
  moreover have "mThread nb = (mThread (mNote c ! n))[j := mThread nb ! j]" using t j by simp
  ultimately show ?thesis
    using s put_get [OF known len] put_other [OF known len] new by metis
qed

end

text \<open>C19: setting a register by name. On every architecture, RegisterSet of a known register
  with a number succeeds, RegisterGet then returns the number cut to the size of the register,
  every register at another offset and every other thread keeps its value, and the bytes of
  the note stay in step with the register structure.\<close>

theorem RegisterSet_roundtrip:
  assumes "os_ok os" and "n < length (mNote c)" and "j < length (mThread (mNote c ! n))"
    and "thread_synced m (mem c) (mNote c ! n) (thread_at c n j)"
    and "mOverlay (mNote c ! n) = None \<Longrightarrow> os_mmap os (mem c) (mFileSize (mNote c ! n)) \<noteq> None"
    and "strtok (CHR ''='') command = name # token # rest" and "Utils_atol token = Some v"
    and "find_reg name (kMap_of m) = Some (off, sz)"
  shows "\<exists>nb h. machine_RegisterSet m os junk indet command n j c = Inr (c\<lparr>mNote := (mNote c)[n := nb], mem := h\<rparr>) \<and>
    thread_synced m h nb (mThread nb ! j) \<and>
    mThread nb = (mThread (mNote c ! n))[j := mThread nb ! j] \<and>
    machine_RegisterGet m name (mThread nb ! j) = v AND mask (8 * sz) \<and>
    (\<forall>other. (\<forall>s. find_reg other (kMap_of m) \<noteq> Some (off, s)) \<longrightarrow>
       machine_RegisterGet m other (mThread nb ! j) = machine_RegisterGet m other (thread_at c n j))"
proof (cases m)
  case EM_AARCH64
  show ?thesis using arm64_regs.set_by_name [OF assms(1-4) _ assms(5-7)] assms(8) EM_AARCH64 by (simp add: register_defs)
next
  case EM_ARM
  show ?thesis using arm_regs.set_by_name [OF assms(1-4) _ assms(5-7)] assms(8) EM_ARM by (simp add: register_defs)
next
  case EM_RISCV
  show ?thesis using riscv64_regs.set_by_name [OF assms(1-4) _ assms(5-7)] assms(8) EM_RISCV by (simp add: register_defs)
next
  case EM_386
  show ?thesis using x86_regs.set_by_name [OF assms(1-4) _ assms(5-7)] assms(8) EM_386 by (simp add: register_defs)
next
  case EM_X86_64
  show ?thesis using x86_64_regs.set_by_name [OF assms(1-4) _ assms(5-7)] assms(8) EM_X86_64 by (simp add: register_defs)
qed

definition demo_reg_note :: note_block where
  "demo_reg_note = (new_NoteBlock 4 0 0 0 140 0 4)\<lparr>mOriAddr := 0x1000,
     mThread := [\<lparr>mPid = 7, mPrs = 0x1000, th_reg = replicate 68 0, th_fpr = [], th_tls = []\<rparr>]\<rparr>"

definition demo_reg_core :: core where
  "demo_reg_core = (new_core EM_ARM \<lparr>mm_name = [], mm_begin = 0x1000, mm_size = 140, mm_offset = 0, mm_max = 140\<rparr>
     True 0 (host_map (\<lambda>_. None) 0x1000 (replicate 140 0)))\<lparr>mNote := [demo_reg_note]\<rparr>"

definition demo_reg_os :: os_env where
  "demo_reg_os = \<lparr>os_file = (\<lambda>_. None), os_mmap = (\<lambda>h n. if unat n \<le> 140 \<and>
     (\<forall>x. unat (x - 0x9000) < unat n \<longrightarrow> h x = None) then Some 0x9000 else None), os_page_size = 4096\<rparr>"

theorem RegisterSet_roundtrip_witness:
  "\<exists>nb h. machine_RegisterSet EM_ARM demo_reg_os [] 0 ''pc=0x1F'' 0 0 demo_reg_core =
       Inr (demo_reg_core\<lparr>mNote := [nb], mem := h\<rparr>) \<and>
     thread_synced EM_ARM h nb (mThread nb ! 0) \<and>
     machine_RegisterGet EM_ARM ''pc'' (mThread nb ! 0) = 0x1F"
proof -
  let ?h = "host_map (\<lambda>_. None) 0x1000 (replicate 140 0)"
  have os: "os_ok demo_reg_os" unfolding os_ok_def demo_reg_os_def by (auto split: if_splits)
  have at: "?h (0x1000 + of_nat k) = Some 0" if "k < 140" for k
    using that host_map_at [of k "replicate 140 0" "\<lambda>_. None" "0x1000"] by simp
  have bytes: "note_bytes ?h demo_reg_note = replicate 140 0"
    using at by (intro nth_equalityI) (simp_all add: note_bytes_def demo_reg_note_def new_NoteBlock_def NoteBlock_begin_all)
  have ok: "note_ok ?h demo_reg_note"
    using at by (simp add: note_ok_def demo_reg_note_def new_NoteBlock_def mapped_def)
  have sync: "thread_synced EM_ARM (mem demo_reg_core) (mNote demo_reg_core ! 0) (thread_at demo_reg_core 0 0)"
    using ok bytes by (auto simp: thread_synced_def demo_reg_core_def new_core_def demo_reg_note_def
      new_NoteBlock_def intro!: exI [of _ 72])
  have free: "?h x = None" if "unat (x - 0x9000) < 140" for x
    using that in_range_iff_unat [of "0x9000 :: u64" 140 x] in_range_iff_unat [of "0x1000 :: u64" 140 x]
    by (simp add: host_map_def)
  have mm: "os_mmap demo_reg_os (mem demo_reg_core) (mFileSize (mNote demo_reg_core ! 0)) \<noteq> None"
    using free by (simp add: demo_reg_os_def demo_reg_core_def demo_reg_note_def new_NoteBlock_def new_core_def)
  have cmd: "strtok (CHR ''='') ''pc=0x1F'' = ''pc'' # ''0x1F'' # []" by (simp add: strtok_def)
  have val: "Utils_atol ''0x1F'' = Some 0x1F" by (simp add: Utils_atol_def is_space_def scan_unsigned_hex_def scan_hex_digits_def hex_value_def)
  have known: "find_reg ''pc'' (kMap_of EM_ARM) = Some (60, 4)" by code_simp
  have n: "0 < length (mNote demo_reg_core)" "0 < length (mThread (mNote demo_reg_core ! 0))"
    by (simp_all add: demo_reg_core_def demo_reg_note_def)
  have one: "(mNote demo_reg_core)[0 := nb] = [nb]" for nb by (simp add: demo_reg_core_def)
  have "(0x1F :: u64) AND mask (8 * 4) = 0x1F" by (simp add: mask_eq_exp_minus_1)
  then show ?thesis
    using RegisterSet_roundtrip [OF os n sync mm cmd val known, of "[]" 0] unfolding one by auto
qed

end
