(* ===== verification/UnwindProps.thy ===== *)
theory UnwindProps
  imports Unwind ElfProps
begin

unbundle bit_operations_syntax

text \<open>
  What the unwinders promise: they change nothing of the core but the link map caches, the walk
  over frame pointers ends on every stack and only goes up, and on a stack with a chain of
  frame records it lists exactly those frames. The last section proves that the number kept
  for the signal context counts a frame that was dropped.
\<close>

section \<open>Unwinding reads the core\<close>

definition links_only :: "core \<Rightarrow> core \<Rightarrow> bool" where
  "links_only c c' \<longleftrightarrow> (\<exists>ls d. c' = c\<lparr>mLinkMaps := ls, mDebug := d\<rparr>)"

lemma links_onlyI: "c' = c\<lparr>mLinkMaps := ls, mDebug := d\<rparr> \<Longrightarrow> links_only c c'"
  unfolding links_only_def by blast

lemma links_only_simps [simp]:
  "links_only c c" "links_only c (c\<lparr>mLinkMaps := ls\<rparr>)" "links_only c (c\<lparr>mDebug := d\<rparr>)"
  by (rule links_onlyI [where ls = "mLinkMaps c" and d = "mDebug c"], simp,
      rule links_onlyI [where ls = ls and d = "mDebug c"], simp,
      rule links_onlyI [where ls = "mLinkMaps c" and d = d], simp)

lemma links_only_trans:
  assumes "links_only a b" "links_only b c"
  shows "links_only a c"
proof -
  obtain ls d where "c = b\<lparr>mLinkMaps := ls, mDebug := d\<rparr>" using assms(2) by (auto simp: links_only_def)
  then have "c = a\<lparr>mLinkMaps := ls, mDebug := d\<rparr>" using assms(1) by (auto simp: links_only_def)
  then show ?thesis by (rule links_onlyI)
qed

lemma links_onlyD:
  assumes "links_only c c'"
  shows "blocks c' = blocks c" "mem c' = mem c" "mNote c' = mNote c" "mQuickLoad c' = mQuickLoad c"
    "core_machine c' = core_machine c" "vabits_mask c' = vabits_mask c" "pointer_mask c' = pointer_mask c"
  using assms by (auto simp: links_only_def)

text \<open>Once the link maps are read their number does not change.\<close>

definition links_kept :: "core \<Rightarrow> core \<Rightarrow> bool" where
  "links_kept c c' \<longleftrightarrow> links_only c c' \<and> (mLinkMaps c \<noteq> [] \<longrightarrow> mLinkMaps c' \<noteq> [])"

lemma links_kept_refl [simp]: "links_kept c c"
  by (simp add: links_kept_def)

lemma links_kept_trans: "links_kept a b \<Longrightarrow> links_kept b c \<Longrightarrow> links_kept a c"
  using links_only_trans by (auto simp: links_kept_def)

lemma on_link_kept: "on_link j f c = Inr (v, c') \<Longrightarrow> links_kept c c'"
  by (auto simp: on_link_def res_bind_Inr_iff links_kept_def)

lemma decode_cb_kept:
  assumes "decode_cb block pc j c found = Inr (stop, c', r)"
  shows "links_kept c c'"
proof -
  obtain ld c1 ld_block same c2 where 1: "on_link j LinkMap_l_ld c = Inr (ld, c1)"
    and 2: "(case block of None \<Rightarrow> Inr (False, c1)
         | Some i \<Rightarrow> if mFileName (blk c1 i) = [] then Inr (False, c1)
             else res_bind (on_link j LinkMap_name c1) (\<lambda>(nm, c2). Inr (mFileName (blk c1 i) = nm, c2))) = Inr (same, c2)"
    and 3: "(if same then Inr (True, c2, Some j)
           else res_bind (on_link j LinkMap_begin c2) (\<lambda>(b, c3).
               if b \<noteq> 0 \<and> pc AND vabits_mask c \<ge> b then
                 res_bind (on_link j LinkMap_l_ld c3) (\<lambda>(ld', c4).
                   if pc AND vabits_mask c < ld' \<or>
                      (case ld_block of Some k \<Rightarrow> pc AND vabits_mask c \<le> mVaddr (blk c4 k) + mMemSize (blk c4 k) | None \<Rightarrow> False)
                   then Inr (True, c4, Some j) else Inr (False, c4, found))
               else Inr (False, c3, found))) = Inr (stop, c', r)"
    using assms unfolding decode_cb_def Let_def res_bind_Inr_iff by (auto simp: res_bind_Inr_iff)
  have "links_kept c c1" using 1 by (rule on_link_kept)
  moreover have "links_kept c1 c2"
    using 2 by (auto simp: res_bind_Inr_iff split: option.splits if_splits intro: on_link_kept)
  moreover have "links_kept c2 c'"
    using 3 by (auto simp: res_bind_Inr_iff split: if_splits intro: on_link_kept links_kept_trans)
  ultimately show ?thesis by (blast intro: links_kept_trans)
qed

lemma link_walk_kept:
  assumes "\<And>j c s stop c' s'. f j c s = Inr (stop, c', s') \<Longrightarrow> links_kept c c'"
  shows "link_walk f js c s = Inr (c', s') \<Longrightarrow> links_kept c c'"
proof (induction js arbitrary: c s)
  case (Cons j js)
  then show ?case
    by (auto simp: res_bind_Inr_iff split: if_splits intro: links_kept_trans dest!: assms)
qed simp

lemma GetDebug_kept: "GetDebug c = Inr (d, c') \<Longrightarrow> links_only c c' \<and> mLinkMaps c' = mLinkMaps c"
  by (auto simp: GetDebug_def Let_def res_bind_Inr_iff split: if_splits)

lemma addLinkMap_only: "addLinkMap m c = Inr c' \<Longrightarrow> links_only c c'"
  by (auto simp: addLinkMap_def res_bind_Inr_iff)

lemma link_loop_only:
  assumes "link_loop cls m c = Some r" "r = Inr c'"
  shows "links_only c c'"
proof -
  define P where "P = (\<lambda>(cls :: elf_class) (m :: u64) c (r :: core res). \<forall>c'. r = Inr c' \<longrightarrow> links_only c c')"
  have "P cls m c r"
  proof (rule link_loop.raw_induct [OF _ assms(1)])
    fix f cls m c r
    assume IH: "\<And>cls m c r. f cls m c = Some r \<Longrightarrow> P cls m c r"
      and step: "(if m = 0 then Some (Inr c)
        else (case GetReal m c of
           Inl (InvalidAddressException a) \<Rightarrow> Some (Inr c)
         | Inl (HostFault a) \<Rightarrow> Some (Inl (HostFault a))
         | Inr link \<Rightarrow>
             (case addLinkMap m c of
                Inl (InvalidAddressException a) \<Rightarrow> Some (Inr c)
              | Inl (HostFault a) \<Rightarrow> Some (Inl (HostFault a))
              | Inr d \<Rightarrow>
                  (case host_word (mem d) (link + 3 * of_nat (ptr_size cls)) (ptr_size cls) of
                     Inl e \<Rightarrow> Some (Inl e)
                   | Inr y \<Rightarrow> f cls y d)))) = Some r"
    have deeper: "P cls m c r" if "addLinkMap m c = Inr d" "f cls y d = Some r" for d y
      using IH [OF that(2)] links_only_trans [OF addLinkMap_only [OF that(1)]] by (auto simp: P_def)
    show "P cls m c r"
      using step deeper
      by (auto simp: P_def split: if_splits sum.splits exn.splits)
  qed
  then show ?thesis using assms(2) by (simp add: P_def)
qed

lemma loadLinkMap_only: "loadLinkMap cls c = Some (Inr c') \<Longrightarrow> links_only c c'"
  using GetDebug_kept [of c] link_loop_only links_only_trans
  by (fastforce simp: loadLinkMap_def split: sum.splits prod.splits if_splits exn.splits)

lemma foreachLinkMap_kept:
  assumes "\<And>j c s stop c' s'. f j c s = Inr (stop, c', s') \<Longrightarrow> links_kept c c'"
    and "foreachLinkMap f c s = Some (Inr (c', s'))"
  shows "links_kept c c'"
proof (cases "mLinkMaps c = []")
  case True
  have walk: "links_kept d d'" if "link_walk f js d s = Inr (d', s')" for js d d' s s'
    using that by (rule link_walk_kept [rotated]) (rule assms(1))
  obtain c1 where "links_only c c1" "link_walk f [0..<length (mLinkMaps c1)] c1 s = Inr (c', s')"
  proof (cases "loadLinkMap (class_of (core_machine c)) c")
    case (Some r)
    show thesis
    proof (cases r)
      case (Inl e)
      then show thesis using assms(2) Some True that [of c] by (cases e) (auto simp: foreachLinkMap_def)
    next
      case (Inr c1)
      then show thesis
        using assms(2) Some True that [of c1] loadLinkMap_only by (auto simp: foreachLinkMap_def)
    qed
  qed (use assms(2) True in \<open>auto simp: foreachLinkMap_def\<close>)
  moreover from this have "links_only c1 c'" using walk by (auto simp: links_kept_def)
  ultimately show ?thesis using True by (auto simp: links_kept_def intro: links_only_trans)
next
  case False
  then have "link_walk f [0..<length (mLinkMaps c)] c s = Inr (c', s')" using assms(2) by (simp add: foreachLinkMap_def)
  then show ?thesis by (rule link_walk_kept [rotated]) (rule assms(1))
qed

lemma foreachLinkMap_returns: "mLinkMaps c \<noteq> [] \<Longrightarrow> foreachLinkMap f c s \<noteq> None"
  by (simp add: foreachLinkMap_def)

lemma Decode_returns: "mLinkMaps c \<noteq> [] \<Longrightarrow> Decode nf c \<noteq> None"
  by (auto simp: Decode_def foreachLinkMap_returns split: sum.splits option.splits)

lemma Decode_found_kept:
  assumes "(case block of
      Some i \<Rightarrow> (case mLinkMap (blk c i) of Some j \<Rightarrow> Some (Inr (c, Some j))
                | None \<Rightarrow> foreachLinkMap (decode_cb block pc) c None)
    | None \<Rightarrow> foreachLinkMap (decode_cb block pc) c None) = Some (Inr (c1, m))"
  shows "links_kept c c1"
proof -
  have walk: "links_kept c c1" if "foreachLinkMap (decode_cb b pc) c None = Some (Inr (c1, m))" for b
    by (rule foreachLinkMap_kept [OF _ that]) (rule decode_cb_kept)
  show ?thesis using assms walk by (auto split: option.splits)
qed

lemma Decode_kept:
  assumes "Decode nf c = Some (Inr (c', nf'))"
  shows "links_kept c c' \<and> frame_fp nf' = frame_fp nf \<and> frame_pc nf' = frame_pc nf"
proof -
  obtain block where b: "FindLoadBlock (frame_pc nf) False True c = Inr block"
    using assms by (auto simp: Decode_def split: sum.splits)
  obtain r where r: "(case block of
      Some i \<Rightarrow> (case mLinkMap (blk c i) of Some j \<Rightarrow> Some (Inr (c, Some j))
                | None \<Rightarrow> foreachLinkMap (decode_cb block (frame_pc nf)) c None)
    | None \<Rightarrow> foreachLinkMap (decode_cb block (frame_pc nf)) c None) = Some r"
    using assms b unfolding Decode_def by (cases "case block of
      Some i \<Rightarrow> (case mLinkMap (blk c i) of Some j \<Rightarrow> Some (Inr (c, Some j))
                | None \<Rightarrow> foreachLinkMap (decode_cb block (frame_pc nf)) c None)
    | None \<Rightarrow> foreachLinkMap (decode_cb block (frame_pc nf)) c None") auto
  obtain c1 m where c1: "r = Inr (c1, m)" using assms b r by (cases r) (auto simp: Decode_def)
  have "links_kept c c1" using Decode_found_kept r c1 by blast
  moreover have "links_kept c1 c' \<and> frame_fp nf' = frame_fp nf \<and> frame_pc nf' = frame_pc nf"
    using assms b r c1
    by (auto simp: Decode_def res_bind_Inr_iff split: option.splits intro: on_link_kept)
  ultimately show ?thesis using links_kept_trans by blast
qed

lemma VisitFrame_ok:
  assumes "VisitFrame (u, c) = Some (None, u', c')"
  shows "links_kept c c'"
    "\<exists>nf. u' = u\<lparr>native_frames := native_frames u @ [nf], cur_num := cur_num u + 1\<rparr> \<and> frame_fp nf = cur_frame_fp u"
proof -
  define nf where "nf = (if core_machine c = EM_ARM \<and> (cur_state u AND 0b100000 \<noteq> 0 \<or> cur_frame_pc u AND 0x1 \<noteq> 0)
      then (new_NativeFrame c (cur_frame_fp u) (cur_frame_sp u) (cur_frame_pc u))\<lparr>nf_thumb := True\<rparr>
      else new_NativeFrame c (cur_frame_fp u) (cur_frame_sp u) (cur_frame_pc u))"
  obtain nf2 where d: "Decode nf c = Some (Inr (c', nf2))"
    and u': "u' = u\<lparr>native_frames := native_frames u @ [nf2], cur_num := cur_num u + 1\<rparr>"
    using assms unfolding VisitFrame_def by (auto simp: Let_def nf_def split: option.splits sum.splits)
  have "frame_fp nf = cur_frame_fp u" by (simp add: nf_def new_NativeFrame_def SetFramePc_def)
  then show "links_kept c c'"
    "\<exists>nf. u' = u\<lparr>native_frames := native_frames u @ [nf], cur_num := cur_num u + 1\<rparr> \<and> frame_fp nf = cur_frame_fp u"
    using Decode_kept [OF d] u' by auto
qed

lemma VisitFrame_returns: "mLinkMaps c \<noteq> [] \<Longrightarrow> VisitFrame (u, c) \<noteq> None"
  by (simp add: VisitFrame_def Let_def Decode_returns split: option.splits sum.splits)

lemma VisitFrame_throws: "VisitFrame s = Some (Some e, s') \<Longrightarrow> s' = s"
  by (auto simp: VisitFrame_def Let_def split: prod.splits option.splits sum.splits)

section \<open>The walk over frame pointers\<close>

text \<open>What the loop does to the list of frames, whatever is on the stack.\<close>

definition walked :: "core \<Rightarrow> nat \<Rightarrow> u64 \<Rightarrow> uw_state \<Rightarrow> uw_state \<Rightarrow> bool" where
  "walked c i fp s s' \<longleftrightarrow> (\<exists>new. native_frames (fst s') = native_frames (fst s) @ new \<and>
     cur_num (fst s') = cur_num (fst s) + of_nat (length new) \<and>
     sorted_wrt (<) (fp # map frame_fp new) \<and>
     (\<forall>f\<in>set new. virtualContains (blk c i) (frame_fp f)) \<and> links_kept c (snd s'))"

lemma walked_nothing:
  assumes "native_frames u' = native_frames u" "cur_num u' = cur_num u" "links_kept c c'"
  shows "walked c i fp (u, c) (u', c')"
  using assms by (auto simp: walked_def)

lemma walked_step:
  assumes "walked c1 i saved (u1, c1) s'" "fp < saved" "virtualContains (blk c i) saved" "links_kept c c1"
    and "native_frames u1 = native_frames u @ [nf]" "cur_num u1 = cur_num u + 1" "frame_fp nf = saved"
  shows "walked c i fp (u, c) s'"
proof -
  obtain new where new: "native_frames (fst s') = native_frames u1 @ new" "cur_num (fst s') = cur_num u1 + of_nat (length new)"
      "sorted_wrt (<) (saved # map frame_fp new)" "\<forall>f\<in>set new. virtualContains (blk c1 i) (frame_fp f)" "links_kept c1 (snd s')"
    using assms(1) by (auto simp: walked_def)
  have "blocks c1 = blocks c" using assms(4) links_onlyD(1) by (auto simp: links_kept_def)
  then show ?thesis
    unfolding walked_def using new assms links_kept_trans [OF assms(4) new(5)]
    by (intro exI [of _ "nf # new"]) (auto intro: less_trans)
qed

text \<open>One turn of the loop: it stops without a frame, or visits the saved frame pointer and goes on there.\<close>

lemma fp_loop_cases:
  obtains (stop) e u' where "fp_loop vdso i fp (u, c) = Some (e, u', c)"
      "native_frames u' = native_frames u" "cur_num u' = cur_num u"
  | (visit) u' fp' where "fp_loop vdso i fp (u, c) = uw_then (VisitFrame (u', c)) (fp_loop vdso i fp')"
      "ref_vaddr fp < ref_vaddr fp'" "cur_frame_fp u' = ref_vaddr fp'" "virtualContains (blk c i) (ref_vaddr fp')"
      "native_frames u' = native_frames u" "cur_num u' = cur_num u"
proof (cases "\<exists>ret fp1 saved fp2. valueNOf 8 8 c fp = Inr (ret, fp1) \<and> valueNOf 8 0 c fp1 = Inr (saved, fp2) \<and>
    ref_vaddr fp < saved \<and> virtualContains (blk c i) saved")
  case True
  then obtain ret fp1 saved fp2 where r: "valueNOf 8 8 c fp = Inr (ret, fp1)" "valueNOf 8 0 c fp1 = Inr (saved, fp2)"
    and up: "ref_vaddr fp < saved" "virtualContains (blk c i) saved" by blast
  have "checkCopyBlock (Some i) c (new_memory_ref saved) = \<lparr>ref_vaddr = saved, ref_block = Some i\<rparr>"
    using up by (simp add: checkCopyBlock_def new_memory_ref_def)
  then show thesis
    using visit [of "u\<lparr>cur_frame_pc := call_pc c vdso ret, cur_frame_fp := saved\<rparr>" "\<lparr>ref_vaddr = saved, ref_block = Some i\<rparr>"]
      r up by (simp add: fp_loop.simps [of vdso i fp] Let_def)
next
  case False
  then have "\<exists>e u'. fp_loop vdso i fp (u, c) = Some (e, u', c) \<and> native_frames u' = native_frames u \<and> cur_num u' = cur_num u"
    by (subst fp_loop.simps) (auto simp: Let_def checkCopyBlock_def new_memory_ref_def split: sum.splits)
  then show thesis using stop by blast
qed

lemma fp_loop_walked:
  assumes "mLinkMaps c \<noteq> []"
  shows "\<exists>e s'. fp_loop vdso i fp (u, c) = Some (e, s') \<and> walked c i (ref_vaddr fp) (u, c) s'"
  using assms
proof (induction "2 ^ 64 - unat (ref_vaddr fp)" arbitrary: fp u c rule: less_induct)
  case less
  show ?case
  proof (cases rule: fp_loop_cases [of vdso i fp u c])
    case (stop e u')
    then show ?thesis using walked_nothing by auto
  next
    case (visit u2 fp2)
    obtain r where v: "VisitFrame (u2, c) = Some r" using VisitFrame_returns [OF less.prems, of u2] by blast
    show ?thesis
    proof (cases "fst r")
      case (Some e)
      then have "r = (Some e, u2, c)" using v VisitFrame_throws by (cases r) auto
      then show ?thesis using visit v walked_nothing by auto
    next
      case None
      then obtain u3 c3 where r: "r = (None, u3, c3)" by (cases r) auto
      then obtain nf where kept: "links_kept c c3" and nf: "frame_fp nf = cur_frame_fp u2"
          "u3 = u2\<lparr>native_frames := native_frames u2 @ [nf], cur_num := cur_num u2 + 1\<rparr>"
        using VisitFrame_ok [of u2 c u3 c3] v by auto
      have "2 ^ 64 - unat (ref_vaddr fp2) < 2 ^ 64 - unat (ref_vaddr fp)"
        using visit(2) unat_u64_less [of "ref_vaddr fp2"] by (simp add: word_less_nat_alt)
      moreover have "mLinkMaps c3 \<noteq> []" using kept less.prems by (auto simp: links_kept_def)
      ultimately obtain e s' where "fp_loop vdso i fp2 (u3, c3) = Some (e, s')" "walked c3 i (ref_vaddr fp2) (u3, c3) s'"
        using less.hyps by blast
      then show ?thesis using visit v r nf walked_step [OF _ visit(2,4) kept, of u3 s' u nf] by simp
    qed
  qed
qed

text \<open>C29: following frame pointers ends on every stack. Once the link maps are read,
  OnlyFpBackStack returns whatever the memory holds (cyclic or corrupt chains included); the
  frames it adds have strictly increasing frame pointers above the start, all in the segment
  the start lies in, and the frame count grows by their number.\<close>

theorem OnlyFpBackStack_terminates:
  assumes "mLinkMaps c \<noteq> []"
  shows "\<exists>e u' c' new. OnlyFpBackStack fp (u, c) = Some (e, u', c') \<and>
    native_frames u' = native_frames u @ new \<and> cur_num u' = cur_num u + of_nat (length new) \<and>
    sorted_wrt (<) (fp # map frame_fp new) \<and>
    (\<forall>f\<in>set new. \<exists>i. findLoadBlock fp True c = Some i \<and> virtualContains (blk c i) (frame_fp f)) \<and>
    blocks c' = blocks c \<and> mem c' = mem c \<and> mNote c' = mNote c"
proof -
  have vdso: "vdso_block c = Inr (findLoadBlock (findAuxv AT_SYSINFO_EHDR c) True c)"
    by (simp add: vdso_block_def FindLoadBlock_def Let_def split: option.splits)
  have prep: "Prepare False c (new_memory_ref fp) =
      Inr \<lparr>ref_vaddr = fp, ref_block = (if fp = 0 then None else findLoadBlock fp True c)\<rparr>"
    by (simp add: Prepare_def new_memory_ref_def FindLoadBlock_def Let_def split: option.splits)
  show ?thesis
  proof (cases "fp = 0 \<or> findLoadBlock fp True c = None")
    case True
    then show ?thesis by (auto simp: OnlyFpBackStack_def vdso prep)
  next
    case False
    then obtain i where i: "fp \<noteq> 0" "findLoadBlock fp True c = Some i" by auto
    obtain e s' where w: "fp_loop (findLoadBlock (findAuxv AT_SYSINFO_EHDR c) True c) i \<lparr>ref_vaddr = fp, ref_block = Some i\<rparr> (u, c) = Some (e, s')"
        "walked c i fp (u, c) s'"
      using fp_loop_walked [OF assms, of "findLoadBlock (findAuxv AT_SYSINFO_EHDR c) True c" i "\<lparr>ref_vaddr = fp, ref_block = Some i\<rparr>" u]
      unfolding memory_ref.simps by blast
    have "\<exists>e'. OnlyFpBackStack fp (u, c) = Some (e', s')"
      using w(1) i by (cases e; cases s'; cases "the e") (auto simp: OnlyFpBackStack_def vdso prep uw_catch_def)
    then show ?thesis
      using w(2) i links_onlyD [of c "snd s'"] by (cases s') (auto simp: walked_def links_kept_def)
  qed
qed

definition demo_thread :: thread_info where
  "demo_thread = \<lparr>mPid = 1, mPrs = 0, th_reg = [], th_fpr = [], th_tls = []\<rparr>"

definition demo_link :: link_map where
  "demo_link = \<lparr>lm_ref = new_memory_ref 0, addr_cache = new_memory_ref 0, name_cache = new_memory_ref 0, dynsyms = []\<rparr>"

text \<open>A frame record that points to itself: the loop that a corrupt stack would make.\<close>

definition demo_stack :: "u8 list" where
  "demo_stack = [0x00, 0x10, 0, 0, 0, 0, 0, 0,   0x00, 0x20, 0, 0, 0, 0, 0, 0]"

theorem OnlyFpBackStack_terminates_witness:
  "\<exists>e u' c' new.
     OnlyFpBackStack 0x1000 (new_UnwindStack demo_thread, (flat_core EM_AARCH64 0x1000 demo_stack)\<lparr>mLinkMaps := [demo_link]\<rparr>) =
       Some (e, u', c') \<and>
     native_frames u' = new \<and> sorted_wrt (<) (0x1000 # map frame_fp new)"
  using OnlyFpBackStack_terminates [of "(flat_core EM_AARCH64 0x1000 demo_stack)\<lparr>mLinkMaps := [demo_link]\<rparr>"
      "0x1000" "new_UnwindStack demo_thread"]
  by (auto simp: new_UnwindStack_def)

section \<open>A chain of frame records\<close>

text \<open>
  Frame records at \<open>a\<close>, then at each address of the list: two words inside segment \<open>i\<close>, the
  first the address of the next record, which lies higher up. The last record does not
  lead to a higher address of the segment.
\<close>

fun frame_chain :: "core \<Rightarrow> nat \<Rightarrow> u64 \<Rightarrow> u64 list \<Rightarrow> bool" where
  "frame_chain c i a [] \<longleftrightarrow> inside c i a 16 \<and> \<not> (a < target_word c a 8 \<and> virtualContains (blk c i) (target_word c a 8))"
| "frame_chain c i a (b # bs) \<longleftrightarrow> inside c i a 16 \<and> target_word c a 8 = b \<and> a < b \<and> frame_chain c i b bs"

text \<open>The two words of a record.\<close>

lemma record_words:
  assumes vs: "valid_seg c i" and "inside c i a 16" and r: "ref_vaddr r = a" "ref_ok c r"
  shows "valueNOf 8 8 c r = Inr (target_word c (a + 8) 8, r\<lparr>ref_block := Some i\<rparr>)"
    "valueNOf 8 0 c (r\<lparr>ref_block := Some i\<rparr>) = Inr (target_word c a 8, r\<lparr>ref_block := Some i\<rparr>)"
proof -
  have ok: "ref_ok c (r\<lparr>ref_block := Some i\<rparr>)" using ref_ok_inside [OF vs, of r 16] assms by simp
  show "valueNOf 8 8 c r = Inr (target_word c (a + 8) 8, r\<lparr>ref_block := Some i\<rparr>)"
    using valueNOf_inside [OF vs r(2), of 16 8 8] assms(2) r(1) by simp
  show "valueNOf 8 0 c (r\<lparr>ref_block := Some i\<rparr>) = Inr (target_word c a 8, r\<lparr>ref_block := Some i\<rparr>)"
    using valueNOf_inside [OF vs ok, of 16 0 8] assms(2) r(1) by simp
qed

text \<open>A core in which every frame can be looked up without reading more of the link maps.\<close>

definition decodes :: "core \<Rightarrow> bool" where
  "decodes c \<longleftrightarrow> core_machine c = EM_AARCH64 \<and> (\<forall>nf. \<exists>nf'. Decode nf c = Some (Inr (c, nf')))"

lemma VisitFrame_decodes:
  assumes "decodes c"
  obtains nf where "VisitFrame (u, c) = Some (None, u\<lparr>native_frames := native_frames u @ [nf], cur_num := cur_num u + 1\<rparr>, c)"
    "frame_fp nf = cur_frame_fp u" "frame_pc nf = cur_frame_pc u"
proof -
  let ?nf = "new_NativeFrame c (cur_frame_fp u) (cur_frame_sp u) (cur_frame_pc u)"
  obtain nf where d: "Decode ?nf c = Some (Inr (c, nf))" and m: "core_machine c \<noteq> EM_ARM"
    using assms by (auto simp: decodes_def)
  have "frame_fp ?nf = cur_frame_fp u" "frame_pc ?nf = cur_frame_pc u"
    using m by (simp_all add: new_NativeFrame_def SetFramePc_def)
  then show thesis using that [of nf] Decode_kept [OF d] d m by (simp add: VisitFrame_def Let_def)
qed

lemma inside_contained: "valid_seg c i \<Longrightarrow> inside c i a n \<Longrightarrow> virtualContains (blk c i) a"
  using virtualContains_found [OF valid_segD(1,2)] inside_found(1) by blast

lemma chain_inside: "frame_chain c i a bs \<Longrightarrow> inside c i a 16"
  by (cases bs) simp_all

lemma fp_loop_chain:
  assumes vs: "valid_seg c i" and dec: "decodes c"
  shows "frame_chain c i a bs \<Longrightarrow> ref_vaddr fp = a \<Longrightarrow> ref_ok c fp \<Longrightarrow>
    \<exists>u'. fp_loop vdso i fp (u, c) = Some (None, u', c) \<and>
      map frame_fp (native_frames u') = map frame_fp (native_frames u) @ bs \<and>
      map frame_pc (native_frames u') = map frame_pc (native_frames u) @
        map (\<lambda>x. call_pc c vdso (target_word c (x + 8) 8)) (butlast (a # bs))"
proof (induction bs arbitrary: a fp u)
  case Nil
  note w = record_words [OF vs chain_inside [OF Nil(1)] Nil(2,3)]
  show ?case
    using Nil w by (simp add: fp_loop.simps [of vdso i fp] Let_def checkCopyBlock_def new_memory_ref_def)
next
  case (Cons b bs)
  note w = record_words [OF vs chain_inside [OF Cons.prems(1)] Cons.prems(2,3)]
  let ?u = "u\<lparr>cur_frame_pc := call_pc c vdso (target_word c (a + 8) 8), cur_frame_fp := b\<rparr>"
  let ?r = "\<lparr>ref_vaddr = b, ref_block = Some i\<rparr>"
  have b: "target_word c a 8 = b" "a < b" and rest: "frame_chain c i b bs" using Cons.prems by auto
  note ins = chain_inside [OF rest]
  obtain nf where v: "VisitFrame (?u, c) = Some (None, ?u\<lparr>native_frames := native_frames ?u @ [nf], cur_num := cur_num ?u + 1\<rparr>, c)"
      "frame_fp nf = cur_frame_fp ?u" "frame_pc nf = cur_frame_pc ?u"
    by (rule VisitFrame_decodes [OF dec])
  have "ref_ok c ?r" using ref_ok_inside [OF vs, of "new_memory_ref b"] ins by (simp add: new_memory_ref_def)
  then obtain u' where u': "fp_loop vdso i ?r (?u\<lparr>native_frames := native_frames ?u @ [nf], cur_num := cur_num ?u + 1\<rparr>, c) = Some (None, u', c)"
      "map frame_fp (native_frames u') = map frame_fp (native_frames u @ [nf]) @ bs"
      "map frame_pc (native_frames u') = map frame_pc (native_frames u @ [nf]) @
        map (\<lambda>x. call_pc c vdso (target_word c (x + 8) 8)) (butlast (b # bs))"
    using Cons.IH [OF rest, of ?r "?u\<lparr>native_frames := native_frames ?u @ [nf], cur_num := cur_num ?u + 1\<rparr>"] by auto
  have "fp_loop vdso i fp (u, c) = Some (None, u', c)"
    using w b v(1) u'(1) inside_contained [OF vs ins] Cons.prems(2)
    by (simp add: fp_loop.simps [of vdso i fp] Let_def checkCopyBlock_def new_memory_ref_def)
  then show ?case using u'(2,3) v(2,3) by auto
qed

text \<open>C30: the backtrace of a stack with frame records. From a record that starts a chain, the walk
  of OnlyFpBackStack adds one frame per link, with the saved frame pointer and the address
  before the saved return address (four less, unless it is in the vdso); the record that ends
  the chain adds none.\<close>

theorem OnlyFpBackStack_lists_chain:
  assumes "valid_seg c i" and "decodes c" and "frame_chain c i a bs"
  shows "\<exists>u'. OnlyFpBackStack a (u, c) = Some (None, u', c) \<and>
    map frame_fp (native_frames u') = map frame_fp (native_frames u) @ bs \<and>
    map frame_pc (native_frames u') = map frame_pc (native_frames u) @
      map (\<lambda>x. call_pc c (findLoadBlock (findAuxv AT_SYSINFO_EHDR c) True c) (target_word c (x + 8) 8)) (butlast (a # bs))"
proof -
  note ins = chain_inside [OF assms(3)]
  let ?r = "\<lparr>ref_vaddr = a, ref_block = Some i\<rparr>" and ?v = "findLoadBlock (findAuxv AT_SYSINFO_EHDR c) True c"
  have vdso: "vdso_block c = Inr ?v" by (simp add: vdso_block_def FindLoadBlock_def Let_def split: option.splits)
  have "a \<noteq> 0" using ins by (simp add: inside_def)
  then have prep: "Prepare False c (new_memory_ref a) = Inr ?r"
    using inside_found(1) [OF assms(1) ins]
    by (simp add: Prepare_def new_memory_ref_def FindLoadBlock_def Let_def split: option.splits)
  have "ref_ok c ?r" using ref_ok_inside [OF assms(1), of "new_memory_ref a"] ins by (simp add: new_memory_ref_def)
  then show ?thesis
    using fp_loop_chain [OF assms, of ?r ?v u] by (auto simp: OnlyFpBackStack_def vdso prep)
qed

text \<open>In a core without notes there are no link maps to read.\<close>

lemma flat_decode:
  assumes "flat_fits va bs"
  shows "Decode nf (flat_core m va bs) = Some (Inr (flat_core m va bs, nf))"
proof -
  let ?c = "flat_core m va bs"
  have empty: "mLinkMaps ?c = []" "findAuxv t ?c = 0" "mDebug ?c = new_memory_ref 0" for t
    by (simp_all add: flat_core_def new_core_def findAuxv_def)
  have "GetDebug ?c = Inr (new_memory_ref 0, ?c)"
    using empty by (simp add: GetDebug_def Ref_IsValid_def Prepare_def new_memory_ref_def)
  then have "foreachLinkMap f ?c s = Some (Inr (?c, s))" for f and s :: "nat option"
    using empty by (simp add: foreachLinkMap_def loadLinkMap_def new_memory_ref_def)
  moreover have "mLinkMap (blk ?c i) = None" if "findLoadBlock a True ?c = Some i" for a i
  proof -
    have "i \<in> set (mQuickLoad ?c)" by (rule core_ok_block(1) [OF flat_core_ok [OF assms] that])
    then show ?thesis by (simp add: flat_defs)
  qed
  ultimately show ?thesis
    by (auto simp: Decode_def FindLoadBlock_def Let_def split: option.splits)
qed


definition demo_chain :: "u8 list" where
  "demo_chain = [0x10, 0x10, 0, 0, 0, 0, 0, 0,   0x04, 0x20, 0, 0, 0, 0, 0, 0,
                 0, 0, 0, 0, 0, 0, 0, 0,   0, 0, 0, 0, 0, 0, 0, 0]"

theorem OnlyFpBackStack_lists_chain_witness:
  "\<exists>u'. OnlyFpBackStack 0x1000 (new_UnwindStack demo_thread, flat_core EM_AARCH64 0x1000 demo_chain) =
       Some (None, u', flat_core EM_AARCH64 0x1000 demo_chain) \<and>
     map frame_fp (native_frames u') = [0x1010]"
proof -
  let ?c = "flat_core EM_AARCH64 0x1000 demo_chain"
  have fits: "flat_fits 0x1000 demo_chain" by (simp add: flat_fits_def demo_chain_def)
  have vs: "valid_seg ?c 0" by (rule flat_valid_seg [OF fits])
  have dec: "decodes ?c" using flat_decode [OF fits] by (auto simp: decodes_def)
  have ins: "inside ?c 0 0x1000 16" "inside ?c 0 0x1010 16"
    using flat_inside [OF fits, of 16 0 EM_AARCH64] flat_inside [OF fits, of 16 16 EM_AARCH64]
    by (simp_all add: demo_chain_def)
  have "target_word ?c 0x1000 8 = 0x1010" "target_word ?c 0x1010 8 = 0"
    using flat_word [OF fits, of 0 8 EM_AARCH64] flat_word [OF fits, of 16 8 EM_AARCH64]
    by (simp_all add: demo_chain_def le_word_def)
  then have "frame_chain ?c 0 0x1000 [0x1010]" using ins by simp
  then show ?thesis
    using OnlyFpBackStack_lists_chain [OF vs dec, of "0x1000" "[0x1010]" "new_UnwindStack demo_thread"]
    by (auto simp: new_UnwindStack_def)
qed

section \<open>The number of the context frame\<close>

text \<open>The frame count runs ahead of the list of frames in one case: when the address before the link
  register repeats the program counter and the frame pointer is not mapped, FpBacktrace lists
  one frame and counts two, since the frame of the link register is dropped from the list without
  correcting cur_num.\<close>

theorem FpBacktrace_counts_dropped_frame:
  assumes "decodes c" and "findLoadBlock (reg_at regs 232 8) True c = None"
    and "call_pc c (findLoadBlock (findAuxv AT_SYSINFO_EHDR c) True c) (reg_at regs 240 8) = reg_at regs 256 8"
  shows "\<exists>u'. FpBacktrace regs (u, c) = Some (None, u', c) \<and>
    length (native_frames u') = length (native_frames u) + 1 \<and> cur_num u' = cur_num u + 2"
proof -
  let ?v = "findLoadBlock (findAuxv AT_SYSINFO_EHDR c) True c" and ?fp = "reg_at regs 232 8"
  have vdso: "vdso_block c = Inr ?v" by (simp add: vdso_block_def FindLoadBlock_def Let_def split: option.splits)
  have prep: "Prepare False c \<lparr>ref_vaddr = ?fp, ref_block = None\<rparr> = Inr \<lparr>ref_vaddr = ?fp, ref_block = None\<rparr>"
    using assms(2) by (simp add: Prepare_def FindLoadBlock_def)
  let ?u0 = "u\<lparr>cur_frame_fp := ?fp, cur_frame_pc := reg_at regs 256 8\<rparr>"
  obtain nf1 where v1: "VisitFrame (?u0, c) = Some (None, ?u0\<lparr>native_frames := native_frames ?u0 @ [nf1], cur_num := cur_num ?u0 + 1\<rparr>, c)"
      "frame_pc nf1 = cur_frame_pc ?u0"
    by (rule VisitFrame_decodes [OF assms(1)])
  let ?u2 = "?u0\<lparr>native_frames := native_frames ?u0 @ [nf1], cur_num := cur_num ?u0 + 1, cur_frame_pc := reg_at regs 256 8\<rparr>"
  obtain nf2 where v2: "VisitFrame (?u2, c) = Some (None, ?u2\<lparr>native_frames := native_frames ?u2 @ [nf2], cur_num := cur_num ?u2 + 1\<rparr>, c)"
      "frame_pc nf2 = cur_frame_pc ?u2"
    by (rule VisitFrame_decodes [OF assms(1)])
  let ?u3 = "?u2\<lparr>cur_num := cur_num ?u2 + 1\<rparr>"
  have "fp_frames regs (u, c) = Some (None, ?u3, c)"
    using v1 v2 assms(3)
    by (simp add: fp_frames_def vdso prep new_memory_ref_def skip_lr_frame_def Let_def nth_append butlast_append)
  moreover have "OnlyFpBackStack ?fp (?u3, c) = Some (None, ?u3, c)"
    by (simp add: OnlyFpBackStack_def vdso prep new_memory_ref_def)
  ultimately show ?thesis by (auto simp: FpBacktrace_def)
qed

definition demo_leaf_regs :: "u8 list" where
  "demo_leaf_regs = replicate 232 0 @ le_bytes 8 0 @ le_bytes 8 0x2004 @ le_bytes 8 0 @ le_bytes 8 0x2000 @ replicate 8 0"

theorem FpBacktrace_counts_dropped_frame_witness:
  "\<exists>u'. FpBacktrace demo_leaf_regs (new_UnwindStack demo_thread, flat_core EM_AARCH64 0x1000 demo_chain) =
       Some (None, u', flat_core EM_AARCH64 0x1000 demo_chain) \<and>
     length (native_frames u') = 1 \<and> cur_num u' = 2"
proof -
  let ?c = "flat_core EM_AARCH64 0x1000 demo_chain"
  have fits: "flat_fits 0x1000 demo_chain" by (simp add: flat_fits_def demo_chain_def)
  have dec: "decodes ?c" using flat_decode [OF fits] by (auto simp: decodes_def)
  have regs: "reg_at demo_leaf_regs 232 8 = 0" "reg_at demo_leaf_regs 240 8 = 0x2004" "reg_at demo_leaf_regs 256 8 = 0x2000"
    by (simp_all add: reg_at_def demo_leaf_regs_def le_word_def le_val_le_bytes)
  have none: "findLoadBlock 0 True ?c = None"
    by (simp add: findLoadBlock_def search_loads_def getLoads_def flat_defs)
  have "findAuxv AT_SYSINFO_EHDR ?c = 0" by (simp add: findAuxv_def flat_defs)
  then show ?thesis
    using FpBacktrace_counts_dropped_frame [OF dec, of demo_leaf_regs "new_UnwindStack demo_thread"] regs none
    by (simp add: call_pc_def new_UnwindStack_def)
qed

end
