(* ===== verification/ContextProps.thy ===== *)
theory ContextProps
  imports UnwindProps
begin

unbundle bit_operations_syntax

text \<open>
  The search for a signal context on the stack (\<open>GetUContext\<close> of the four unwinders that have
  one): it returns the first address, going up from the stack pointer one pointer at a time,
  where the checks of the architecture hold.
\<close>

section \<open>The outcome of the checks at one address\<close>

definition seg_real :: "core \<Rightarrow> nat \<Rightarrow> u64 \<Rightarrow> u64" where
  "seg_real c i a = LoadBlock_begin OPT_READ_ALL (blk c i) + (a - mVaddr (blk c i))"

text \<open>Does the structure at target address \<open>a\<close> pass the checks of the scan?\<close>

definition context_at ::
  "uc_layout \<Rightarrow> (core \<Rightarrow> nat \<Rightarrow> u64 \<Rightarrow> bool res) \<Rightarrow> core \<Rightarrow> nat \<Rightarrow> u64 \<Rightarrow> bool res" where
  "context_at L check c i a =
     res_bind (uc_stack_ok L i (seg_real c i a) c)
       (\<lambda>(ok, c1). if ok then check c1 i (seg_real c i a) else Inr False)"

lemma Real_seg:
  assumes vs: "valid_seg c i" and "ref_ok c r" "inside c i (ref_vaddr r) n"
  shows "Real c r = Inr (seg_real c i (ref_vaddr r), r\<lparr>ref_block := Some i\<rparr>)"
  using Real_eq_GetReal [OF valid_segD(1) [OF vs] assms(2)] inside_found [OF vs assms(3)] assms(3)
    v2r_found [OF valid_segD(1) [OF vs] inside_found(1) [OF vs assms(3)] valid_segD(3) [OF vs]]
  by (simp add: inside_def seg_real_def)

lemma uc_stack_ok_core:
  "page_size c \<noteq> 0 \<Longrightarrow> uc_stack_ok L i real c = Inr (ok, c1) \<Longrightarrow> c1 = c"
  by (auto simp: uc_stack_ok_def getPageSize_def res_bind_Inr_iff split: if_splits)

lemma context_at_cases:
  assumes "page_size c \<noteq> 0" "context_at L check c i a = Inr b"
  obtains ok where "uc_stack_ok L i (seg_real c i a) c = Inr (ok, c)"
    "(if ok then check c i (seg_real c i a) else Inr False) = Inr b"
  using assms uc_stack_ok_core [OF assms(1)] unfolding context_at_def res_bind_Inr_iff by fastforce

text \<open>The loop condition: the structure ends before the segment does.\<close>

lemma scan_continues:
  assumes vs: "valid_seg c i" and "inside c i a (unat sz + 1)"
  shows "a + sz < mVaddr (blk c i) + LoadBlock_size OPT_READ_ALL (blk c i)"
proof -
  note ok = valid_segD(4) [OF vs]
  have "unat (mVaddr (blk c i)) + unat (LoadBlock_size OPT_READ_ALL (blk c i)) < 2 ^ 64"
    using size_bounds(2) [OF ok] block_ok_no_wrap [OF ok] by (simp add: no_wrap_def)
  then have e: "unat (mVaddr (blk c i) + LoadBlock_size OPT_READ_ALL (blk c i)) =
      unat (mVaddr (blk c i)) + unat (LoadBlock_size OPT_READ_ALL (blk c i))"
    by (subst unat_add_no_wrap) simp_all
  have "unat (a + sz) = unat a + unat sz"
    using inside_bound [OF assms] by (subst unat_add_no_wrap) simp_all
  then show ?thesis
    using assms(2) size_bounds(1) [OF ok] e by (simp add: word_less_nat_alt inside_def)
qed

section \<open>The scan finds the first context\<close>

lemma uc_scan_first:
  assumes vs: "valid_seg c i" and pg: "page_size c \<noteq> 0" and w: "0 < uc_word L"
    and room: "inside c i sp (n * uc_word L + unat (uc_sizeof L) + 1)"
    and hit: "context_at L check c i (sp + of_nat (n * uc_word L)) = Inr True"
    and miss: "\<And>j. j < n \<Longrightarrow> context_at L check c i (sp + of_nat (j * uc_word L)) = Inr False"
  shows "k \<le> n \<Longrightarrow> ref_vaddr uc = sp + of_nat (k * uc_word L) \<Longrightarrow> ref_ok c uc \<Longrightarrow>
    uc_scan L check i c uc = (None, sp + of_nat (n * uc_word L), c)"
proof (induction "n - k" arbitrary: k uc)
  case 0
  then have k: "k = n" by simp
  have ins: "inside c i (ref_vaddr uc) (unat (uc_sizeof L) + 1)"
    using inside_shift(1) [OF vs room, of "n * uc_word L"] 0 k by simp
  obtain ok where "uc_stack_ok L i (seg_real c i (ref_vaddr uc)) c = Inr (ok, c)"
      "(if ok then check c i (seg_real c i (ref_vaddr uc)) else Inr False) = Inr True"
    using context_at_cases [OF pg] hit 0 k by metis
  then have "uc_scan L check i c uc = (None, ref_vaddr uc, c)"
    using scan_continues [OF vs ins] Real_seg [OF vs 0(4) ins]
    by (simp add: uc_scan.simps [of L check i c uc] split: if_splits)
  then show ?case using 0(3) k by simp
next
  case (Suc d)
  let ?w = "uc_word L"
  have k: "k < n" "n - Suc k = d" using Suc by auto
  have le: "k * ?w + ?w \<le> n * ?w" using mult_le_mono1 [of "k + 1" n ?w] k by simp
  have ins: "inside c i (ref_vaddr uc) (n * ?w + unat (uc_sizeof L) + 1 - k * ?w)"
    using inside_shift(1) [OF vs room, of "k * ?w"] le Suc.prems(2) by simp
  then have ins': "inside c i (ref_vaddr uc) (unat (uc_sizeof L) + 1)" by (rule inside_less) (use le in auto)
  obtain ok where hdr: "uc_stack_ok L i (seg_real c i (ref_vaddr uc)) c = Inr (ok, c)"
      "(if ok then check c i (seg_real c i (ref_vaddr uc)) else Inr False) = Inr False"
    using context_at_cases [OF pg] miss [OF k(1)] Suc.prems(2) by metis
  let ?uc = "uc\<lparr>ref_block := Some i\<rparr>" and ?next = "\<lparr>ref_vaddr = ref_vaddr uc + of_nat ?w, ref_block = Some i\<rparr>"
  have okuc: "ref_ok c ?uc" using ref_ok_inside [OF vs] ins by simp
  have wlt: "?w < n * ?w + unat (uc_sizeof L) + 1 - k * ?w" using le by simp
  have move: "MovePtr (of_nat ?w) c ?uc = Inr ?next"
    using MovePtr_inside [OF vs okuc, of _ ?w] ins wlt by simp
  note sh = inside_shift [OF vs ins wlt]
  have up: "ref_vaddr uc < ref_vaddr uc + of_nat ?w" using sh(2) w by (simp add: word_less_nat_alt)
  have "ref_ok c ?next" using ref_ok_inside [OF vs, of "new_memory_ref (ref_vaddr uc + of_nat ?w)"] sh(1) by (simp add: new_memory_ref_def)
  moreover have "ref_vaddr ?next = sp + of_nat (Suc k * ?w)" using Suc.prems(2) by (simp add: algebra_simps)
  ultimately have "uc_scan L check i c ?next = (None, sp + of_nat (n * ?w), c)"
    using Suc.hyps(1) [of "Suc k" ?next] k by simp
  then show ?case
    using scan_continues [OF vs ins'] Real_seg [OF vs Suc.prems(3) ins] hdr move up
    by (simp add: uc_scan.simps [of L check i c uc])
qed

text \<open>C31: the signal context found is the first one. When the structure \<open>n\<close> pointers above the stack
  pointer passes the checks of the architecture, lies in the readable segment of the stack and
  no structure between the stack pointer and it passes them, GetUContext returns its address
  and remembers it, and changes nothing else.\<close>

theorem GetUContext_first:
  assumes "valid_seg c i" and "page_size c \<noteq> 0" and "0 < uc_word L" and "cur_uc u = 0"
    and "inside c i sp (n * uc_word L + unat (uc_sizeof L) + 1)"
    and "context_at L check c i (sp + of_nat (n * uc_word L)) = Inr True"
    and "\<forall>j<n. context_at L check c i (sp + of_nat (j * uc_word L)) = Inr False"
  shows "GetUContext L check sp (u, c) =
    Inr (sp + of_nat (n * uc_word L), u\<lparr>cur_uc := sp + of_nat (n * uc_word L)\<rparr>, c)"
proof -
  note found = inside_found [OF assms(1,5)]
  have nz: "sp \<noteq> 0" using assms(5) by (simp add: inside_def)
  have prep: "Prepare False c (new_memory_ref sp) = Inr \<lparr>ref_vaddr = sp, ref_block = Some i\<rparr>"
    using found(1) nz by (simp add: Prepare_def new_memory_ref_def FindLoadBlock_def Let_def)
  have cp: "checkCopyBlock (Some i) c (new_memory_ref sp) = \<lparr>ref_vaddr = sp, ref_block = Some i\<rparr>"
    using inside_contained [OF assms(1,5)] by (simp add: checkCopyBlock_def new_memory_ref_def)
  have "ref_ok c \<lparr>ref_vaddr = sp, ref_block = Some i\<rparr>" using found(1) by (simp add: ref_ok_def)
  then have "uc_scan L check i c \<lparr>ref_vaddr = sp, ref_block = Some i\<rparr> = (None, sp + of_nat (n * uc_word L), c)"
    using uc_scan_first [OF assms(1-3,5,6), of 0 "\<lparr>ref_vaddr = sp, ref_block = Some i\<rparr>"] assms(7) by simp
  moreover have "sp + of_nat (n * uc_word L) \<noteq> 0"
    using inside_shift(1) [OF assms(1,5), of "n * uc_word L"] by (simp add: inside_def)
  ultimately show ?thesis using assms(4) prep cp found(2) by (simp add: GetUContext_def)
qed

text \<open>An arm64 stack with a signal context one pointer above the stack pointer.\<close>

definition demo_uc_bytes :: "u8 list" where
  "demo_uc_bytes = replicate 24 0 @ [0, 0x10, 0, 0, 0, 0, 0, 0] @ replicate 8 0 @ [0, 0x10, 0, 0, 0, 0, 0, 0] @ replicate 4600 0"

definition demo_uc_core :: core where
  "demo_uc_core = (flat_core EM_AARCH64 0x1000 demo_uc_bytes)\<lparr>page_size := 4096\<rparr>"

lemma demo_uc_fits: "flat_fits 0x1000 demo_uc_bytes"
  by (simp add: flat_fits_def demo_uc_bytes_def)

lemma demo_uc_seg: "valid_seg demo_uc_core 0" "inside demo_uc_core 0 0x1000 4569" "blk demo_uc_core 0 = flat_block 0x1000 demo_uc_bytes"
proof -
  show b: "blk demo_uc_core 0 = flat_block 0x1000 demo_uc_bytes" by (simp add: demo_uc_core_def)
  have "mQuickLoad demo_uc_core = mQuickLoad (flat_core EM_AARCH64 0x1000 demo_uc_bytes)" by (simp add: demo_uc_core_def)
  moreover have "core_ok demo_uc_core = core_ok (flat_core EM_AARCH64 0x1000 demo_uc_bytes)"
    by (simp add: demo_uc_core_def core_ok_def loads_ok_def getLoads_def mask_ok_def sorted_loads_def)
  ultimately show "valid_seg demo_uc_core 0"
    using flat_valid_seg [OF demo_uc_fits, of EM_AARCH64] b by (simp add: valid_seg_def)
  show "inside demo_uc_core 0 0x1000 4569"
    using flat_inside [OF demo_uc_fits, of 4569 0 EM_AARCH64] b by (simp add: inside_def demo_uc_bytes_def)
qed

lemma demo_uc_length: "length demo_uc_bytes = 4648"
  by (simp add: demo_uc_bytes_def)

lemma le_val_zeros: "le_val (replicate n 0) = 0"
  by (induction n) simp_all

lemma demo_uc_word:
  "k + n \<le> 4648 \<Longrightarrow> host_read (mem demo_uc_core) (0x10000 + of_nat k) n = Inr (take n (drop k demo_uc_bytes))"
  using flat_host [OF demo_uc_fits, of "k + j" EM_AARCH64 for j]
  by (auto simp: host_read_Inr_iff add.assoc demo_uc_core_def demo_uc_length)

theorem GetUContext_first_witness:
  "arm64_GetUContext
     (new_UnwindStack \<lparr>mPid = 1, mPrs = 0, th_reg = replicate 248 0 @ [0, 0x10, 0, 0, 0, 0, 0, 0] @ replicate 16 0,
        th_fpr = [], th_tls = []\<rparr>, demo_uc_core) =
     Inr (0x1008, (new_UnwindStack \<lparr>mPid = 1, mPrs = 0, th_reg = replicate 248 0 @ [0, 0x10, 0, 0, 0, 0, 0, 0] @ replicate 16 0,
        th_fpr = [], th_tls = []\<rparr>)\<lparr>cur_uc := 0x1008\<rparr>, demo_uc_core)"
proof -
  let ?t = "\<lparr>mPid = 1, mPrs = 0, th_reg = replicate 248 0 @ [0, 0x10, 0, 0, 0, 0, 0, 0] @ replicate 16 0, th_fpr = [], th_tls = []\<rparr> :: thread_info"
  let ?L = arm64_ucontext
  have real: "seg_real demo_uc_core 0 a = 0x10000 + (a - 0x1000)" for a
    using demo_uc_seg(3) by (simp add: seg_real_def LoadBlock_begin_all flat_block_def new_LoadBlock_def)
  have pg: "page_size demo_uc_core = 4096" by (simp add: demo_uc_core_def)
  have ms: "mMemSize (blk demo_uc_core 0) = 4648" "mVaddr (blk demo_uc_core 0) = 0x1000" "mVabitsMask (blk demo_uc_core 0) = mask 48"
    using demo_uc_seg(3) by (simp_all add: flat_block_def new_LoadBlock_def demo_uc_bytes_def)
  have sp0: "host_word (mem demo_uc_core) 0x10010 8 = Inr 0" "host_word (mem demo_uc_core) 0x10018 8 = Inr 0x1000"
      "host_word (mem demo_uc_core) 0x10028 8 = Inr 0x1000" "host_word (mem demo_uc_core) 0x10010 8 = Inr 0"
    using demo_uc_word [of 16 8] demo_uc_word [of 24 8] demo_uc_word [of 40 8]
    by (simp_all add: host_word_def demo_uc_bytes_def le_word_def le_val_zeros)
  have zeros: "host_read (mem demo_uc_core) 0x10038 128 = Inr (replicate 128 0)"
    using demo_uc_word [of 56 128] by (simp add: demo_uc_bytes_def)
  have vc: "\<not> virtualContains (blk demo_uc_core 0) 0" "virtualContains (blk demo_uc_core 0) 0x1000"
    by (simp_all add: virtualContains_def ms mask_eq_exp_minus_1)
  have miss: "context_at ?L arm64_uc_check demo_uc_core 0 0x1000 = Inr False"
    using sp0 vc by (simp add: context_at_def uc_stack_ok_def real arm64_ucontext_def)
  have hit: "context_at ?L arm64_uc_check demo_uc_core 0 0x1008 = Inr True"
    using sp0 vc zeros
    by (simp add: context_at_def uc_stack_ok_def real arm64_ucontext_def ms getPageSize_def pg arm64_uc_check_def all_zero_def)
  have "reg_at (th_reg ?t) 248 8 = 0x1000" by (simp add: reg_at_def le_word_def)
  moreover have "GetUContext ?L arm64_uc_check (0x1000) (new_UnwindStack ?t, demo_uc_core) =
      Inr (0x1000 + of_nat (1 * uc_word ?L), (new_UnwindStack ?t)\<lparr>cur_uc := 0x1000 + of_nat (1 * uc_word ?L)\<rparr>, demo_uc_core)"
    by (rule GetUContext_first [where i = 0])
      (use demo_uc_seg miss hit pg in \<open>simp_all add: arm64_ucontext_def new_UnwindStack_def\<close>)
  ultimately show ?thesis by (simp add: arm64_GetUContext_def new_UnwindStack_def arm64_ucontext_def)
qed

end
