(* ===== verification/ZipProps.thy ===== *)
theory ZipProps
  imports Zip
begin

unbundle bit_operations_syntax

text \<open>
  What the archive reader of utils/zip returns on an archive: an encoder of archives, written
  after the format and not after the reader, and the round trip through \<open>readCentralDir\<close>.
\<close>

section \<open>Encoding archives\<close>

definition le2 :: "u16 \<Rightarrow> u8 list" where
  "le2 w = [ucast w, ucast (drop_bit 8 w)]"

definition le4 :: "u32 \<Rightarrow> u8 list" where
  "le4 w = [ucast w, ucast (drop_bit 8 w), ucast (drop_bit 16 w), ucast (drop_bit 24 w)]"

text \<open>An item; its local header and its central directory entry have extra fields of their own.\<close>

record zip_item =
  zi_method :: u16
  zi_crc :: u32
  zi_usize :: u32
  zi_name :: "u8 list"
  zi_extra :: "u8 list"
  zi_cextra :: "u8 list"
  zi_comment :: "u8 list"
  zi_data :: "u8 list"

abbreviation len16 :: "u8 list \<Rightarrow> u16" where "len16 xs \<equiv> of_nat (length xs)"
abbreviation len32 :: "u8 list \<Rightarrow> u32" where "len32 xs \<equiv> of_nat (length xs)"

definition lfh_head :: "zip_item \<Rightarrow> u8 list" where
  "lfh_head z = le4 0x04034b50 @ le2 20 @ le2 0 @ le2 (zi_method z) @ le2 0 @ le2 0 @ le4 (zi_crc z)
     @ le4 (len32 (zi_data z)) @ le4 (zi_usize z) @ le2 (len16 (zi_name z)) @ le2 (len16 (zi_extra z))"

definition local_part :: "zip_item \<Rightarrow> u8 list" where
  "local_part z = lfh_head z @ zi_name z @ zi_extra z @ zi_data z"

definition cde_head :: "zip_item \<Rightarrow> u32 \<Rightarrow> u8 list" where
  "cde_head z lho = le4 0x02014b50 @ le2 20 @ le2 20 @ le2 0 @ le2 (zi_method z) @ le2 0 @ le2 0 @ le4 (zi_crc z)
     @ le4 (len32 (zi_data z)) @ le4 (zi_usize z) @ le2 (len16 (zi_name z)) @ le2 (len16 (zi_cextra z))
     @ le2 (len16 (zi_comment z)) @ le2 0 @ le2 0 @ le4 0 @ le4 lho"

definition central_part :: "zip_item \<Rightarrow> nat \<Rightarrow> u8 list" where
  "central_part z lho = cde_head z (of_nat lho) @ zi_name z @ zi_cextra z @ zi_comment z"

definition eocd_part :: "nat \<Rightarrow> nat \<Rightarrow> nat \<Rightarrow> u8 list" where
  "eocd_part n cdsize cdoff = le4 0x06054b50 @ le2 0 @ le2 0 @ le2 (of_nat n) @ le2 (of_nat n)
     @ le4 (of_nat cdsize) @ le4 (of_nat cdoff) @ le2 0"

fun offsets :: "nat \<Rightarrow> zip_item list \<Rightarrow> nat list" where
  "offsets o1 [] = []"
| "offsets o1 (z # zs) = o1 # offsets (o1 + length (local_part z)) zs"

definition central_dir :: "zip_item list \<Rightarrow> u8 list" where
  "central_dir zs = concat (map2 central_part zs (offsets 0 zs))"

definition archive :: "zip_item list \<Rightarrow> u8 list" where
  "archive zs =
     (let locals = concat (map local_part zs); cd = central_dir zs
      in locals @ cd @ eocd_part (length zs) (length cd) (length locals))"

section \<open>Reading it back\<close>

lemma join2: "ucast (ucast w :: u8) OR push_bit 8 (ucast (ucast (drop_bit 8 w) :: u8)) = (w :: u16)"
  by (rule bit_word_eqI) (auto simp: bit_simps)

lemma join4: "ucast (ucast w :: u8) OR push_bit 8 (ucast (ucast (drop_bit 8 w) :: u8))
    OR push_bit 16 (ucast (ucast (drop_bit 16 w) :: u8)) OR push_bit 24 (ucast (ucast (drop_bit 24 w) :: u8)) = (w :: u32)" (is "?l = w")
proof (rule bit_word_eqI)
  fix n assume "n < LENGTH(32)"
  then consider "n < 8" | "8 \<le> n" "n < 16" | "16 \<le> n" "n < 24" | "24 \<le> n" "n < 32" by fastforce
  then show "bit ?l n \<longleftrightarrow> bit w n" by cases (auto simp: bit_simps)
qed

lemma length_heads [simp]:
  "length (lfh_head z) = 30" "length (cde_head z lho) = 46" "length (eocd_part n s p) = 22"
  by (simp_all add: lfh_head_def cde_head_def eocd_part_def le2_def le4_def)

lemmas get_simps = getShortLE_def getLongLE_def le2_def le4_def join2 join4

lemma lfh_fields:
  "getLongLE (lfh_head z) 0 = kLFHSigNature" "getShortLE (lfh_head z) 0x08 = zi_method z"
  "getLongLE (lfh_head z) 0x12 = len32 (zi_data z)"
  "getShortLE (lfh_head z) 0x1a = len16 (zi_name z)" "getShortLE (lfh_head z) 0x1c = len16 (zi_extra z)"
  unfolding lfh_head_def kLFHSigNature_def by (simp_all add: get_simps)

lemma cde_fields:
  "getLongLE (cde_head z lho) 0 = kCDESignature" "getShortLE (cde_head z lho) 0x0a = zi_method z"
  "getLongLE (cde_head z lho) 0x10 = zi_crc z" "getLongLE (cde_head z lho) 0x14 = len32 (zi_data z)"
  "getLongLE (cde_head z lho) 0x18 = zi_usize z" "getShortLE (cde_head z lho) 0x1c = len16 (zi_name z)"
  "getShortLE (cde_head z lho) 0x1e = len16 (zi_cextra z)" "getShortLE (cde_head z lho) 0x20 = len16 (zi_comment z)"
  "getLongLE (cde_head z lho) 0x2a = lho"
  unfolding cde_head_def kCDESignature_def by (simp_all add: get_simps)

lemma eocd_fields:
  "getLongLE (eocd_part n s p @ junk) 0 = kEOCDSignature" "getShortLE (eocd_part n s p @ junk) 0x04 = 0"
  "getShortLE (eocd_part n s p @ junk) 0x06 = 0" "getShortLE (eocd_part n s p @ junk) 0x08 = of_nat n"
  "getShortLE (eocd_part n s p @ junk) 0x0a = of_nat n" "getLongLE (eocd_part n s p @ junk) 0x10 = of_nat p"
  unfolding eocd_part_def kEOCDSignature_def by (simp_all add: get_simps)

lemma eocd_sig: "getLongLE (eocd_part n s p) 0 = kEOCDSignature"
  using eocd_fields(1) [of n s p "[]"] by simp

lemma eocd_first: "eocd_part n s p ! 0 = 0x50"
  by (simp add: eocd_part_def le4_def)

lemma zfread_at: "drop pos file = xs @ ys \<Longrightarrow> xs \<noteq> [] \<Longrightarrow> zfread file pos (length xs) = Some (xs, pos + length xs)"
  by (cases "pos \<le> length file") (auto simp: zfread_def dest: arg_cong [of _ _ length])

lemma drop_at: "drop pos file = xs @ ys \<Longrightarrow> n = length xs \<Longrightarrow> drop (pos + n) file = ys"
  by (metis add.commute append_eq_conv_conj drop_drop)

text \<open>Items the format can describe.\<close>

definition item_ok :: "zip_item \<Rightarrow> bool" where
  "item_ok z \<longleftrightarrow> zi_name z \<noteq> [] \<and> 0 \<notin> set (zi_name z) \<and> length (zi_name z) < 2 ^ 16 \<and>
     length (zi_extra z) < 2 ^ 16 \<and> length (zi_cextra z) < 2 ^ 16 \<and> length (zi_comment z) < 2 ^ 16 \<and> length (zi_data z) < 2 ^ 32"

lemma len16_zero: "length xs < 2 ^ 16 \<Longrightarrow> (len16 xs = 0) = (xs = [])" "length xs < 2 ^ 16 \<Longrightarrow> unat (len16 xs) = length xs"
proof -
  assume "length xs < 2 ^ 16"
  then show u: "unat (len16 xs) = length xs" by (simp add: unat_of_nat)
  then show "(len16 xs = 0) = (xs = [])" using unat_eq_zero [of "len16 xs"] by simp
qed

lemma read_field_at:
  assumes "drop pos file = xs @ ys" "length xs < 2 ^ 16"
  shows "read_field file pos (len16 xs) = Some (if xs = [] then None else Some xs, pos + length xs)"
  using assms zfread_at [OF assms(1)] len16_zero [OF assms(2)] by (simp add: read_field_def)

lemma LocalFileHeader_read_at:
  assumes "drop pos file = local_part z @ ys" "item_ok z"
  shows "\<exists>l p. LocalFileHeader_read file pos = Some (l, p) \<and> lfh_name_len l = len16 (zi_name z) \<and>
    lfh_extra_len l = len16 (zi_extra z) \<and> lfh_csize l = len32 (zi_data z)"
proof -
  have d: "drop pos file = lfh_head z @ zi_name z @ zi_extra z @ zi_data z @ ys"
    using assms(1) by (simp add: local_part_def)
  have "lfh_head z \<noteq> []" by (metis length_heads(1) list.size(3) zero_neq_numeral)
  note r0 = zfread_at [OF d this, simplified]
  note d1 = drop_at [OF d, of 30, simplified] 
  note d2 = drop_at [OF d1 refl]
  show ?thesis
    using assms(2) r0 read_field_at [OF d1] read_field_at [OF d2]
    by (simp add: LocalFileHeader_read_def kLFHLen_def lfh_fields item_ok_def)
qed

lemma CentralDirEntry_read_at:
  assumes "drop pos file = cde_head z lho @ zi_name z @ zi_cextra z @ ys" "item_ok z"
  shows "\<exists>cd. CentralDirEntry_read file pos = Inr (Some (cd, pos + 46 + length (zi_name z) + length (zi_cextra z))) \<and>
    cde_name cd = Some (zi_name z) \<and> cde_lho cd = lho \<and> cde_method cd = zi_method z \<and>
    cde_csize cd = len32 (zi_data z) \<and> cde_usize cd = zi_usize z \<and> cde_crc cd = zi_crc z"
proof -
  have "cde_head z lho \<noteq> []" by (metis length_heads(2) list.size(3) zero_neq_numeral)
  note r0 = zfread_at [OF assms(1) this, simplified]
  note d1 = drop_at [OF assms(1), of 46, simplified]
  note d2 = drop_at [OF d1 refl]
  show ?thesis
    using assms(2) r0 read_field_at [OF d1] read_field_at [OF d2]
    by (simp add: CentralDirEntry_read_def kCDELen_def cde_fields item_ok_def)
qed

text \<open>What the reader knows of an item stored at \<open>off\<close>.\<close>

definition entry_of :: "zip_item \<Rightarrow> nat \<Rightarrow> zip_entry \<Rightarrow> bool" where
  "entry_of z off e \<longleftrightarrow> entry_name e = Some (map (\<lambda>b. char_of (unat b)) (zi_name z)) \<and>
     getFileOffset e = off + 30 + length (zi_name z) + length (zi_extra z) \<and> getLHFOffset e = off \<and>
     getEntryTotalMemsz e = length (local_part z) \<and> (IsUncompressed e \<longleftrightarrow> zi_method z = 0) \<and>
     cde_usize (mCDE e) = zi_usize z \<and> cde_crc (mCDE e) = zi_crc z"

lemma unat_len32: "n < 2 ^ 32 \<Longrightarrow> unat (of_nat n :: u32) = n"
  by (simp add: unat_of_nat)

lemma ucast_len16:
  assumes "length xs < 2 ^ 16"
  shows "(ucast (len16 xs) :: u32) = of_nat (length xs)"
  using len16_zero(2) [OF assms] by (metis of_nat_unat)

lemma initFromCDE_at:
  assumes "drop pos file = cde_head z (of_nat off) @ zi_name z @ zi_cextra z @ ys" "item_ok z"
    and "drop off file = local_part z @ xs" "off + length (local_part z) < 2 ^ 32"
  shows "\<exists>e. initFromCDE file pos = Inr (Some (e, pos + 46 + length (zi_name z) + length (zi_cextra z))) \<and> entry_of z off e"
proof -
  obtain cd where cd: "CentralDirEntry_read file pos = Inr (Some (cd, pos + 46 + length (zi_name z) + length (zi_cextra z)))"
      "cde_name cd = Some (zi_name z)" "cde_lho cd = of_nat off" "cde_method cd = zi_method z"
      "cde_csize cd = len32 (zi_data z)" "cde_usize cd = zi_usize z" "cde_crc cd = zi_crc z"
    using CentralDirEntry_read_at [OF assms(1,2)] by blast
  obtain l p where l: "LocalFileHeader_read file off = Some (l, p)" "lfh_name_len l = len16 (zi_name z)"
      "lfh_extra_len l = len16 (zi_extra z)" "lfh_csize l = len32 (zi_data z)"
    using LocalFileHeader_read_at [OF assms(3,2)] by blast
  have "length (zi_name z) < 2 ^ 16" "length (zi_extra z) < 2 ^ 16" using assms(2) by (simp_all add: item_ok_def)
  then have len: "(ucast (len16 (zi_name z)) :: u32) = of_nat (length (zi_name z))"
      "(ucast (len16 (zi_extra z)) :: u32) = of_nat (length (zi_extra z))"
    by (simp_all add: ucast_len16)
  let ?e = "\<lparr>mCDE = cd, mLFH = l\<rparr>"
  have off: "unat (of_nat off :: u32) = off" using assms(4) by (simp add: unat_of_nat)
  have "getFileOffset ?e = unat (of_nat (off + 30 + length (zi_name z) + length (zi_extra z)) :: u32)"
    by (simp add: getFileOffset_def cd l len kLFHLen_def)
  also have "\<dots> = off + 30 + length (zi_name z) + length (zi_extra z)"
    by (rule unat_len32) (use assms(4) in \<open>simp add: local_part_def\<close>)
  finally have fo: "getFileOffset ?e = off + 30 + length (zi_name z) + length (zi_extra z)" .
  have "getEntryTotalMemsz ?e = unat (of_nat (length (local_part z)) :: u32)"
    by (simp add: getEntryTotalMemsz_def cd l len kLFHLen_def local_part_def algebra_simps)
  then have ms: "getEntryTotalMemsz ?e = length (local_part z)" using assms(4) by (simp add: unat_of_nat)
  have name: "takeWhile (\<lambda>b. b \<noteq> 0) (zi_name z) = zi_name z"
    using assms(2) by (auto simp: item_ok_def takeWhile_eq_all_conv)
  show ?thesis
    using cd l off fo ms
    by (simp add: name initFromCDE_def entry_of_def entry_name_def getLHFOffset_def IsUncompressed_def)
qed

lemma read_entries_at:
  assumes "\<forall>(z, off)\<in>set (zip zs offs). item_ok z \<and> zi_comment z = [] \<and> off + length (local_part z) < 2 ^ 32 \<and> (\<exists>xs. drop off file = local_part z @ xs)"
    and "length offs = length zs" and "drop pos file = concat (map2 central_part zs offs) @ ys"
  shows "\<exists>es. read_entries file pos (length zs) = Inr (Some (es, pos + length (concat (map2 central_part zs offs)))) \<and>
    list_all2 (\<lambda>(z, off) e. entry_of z off e) (zip zs offs) es"
  using assms
proof (induction zs arbitrary: offs pos)
  case (Cons z zs)
  then obtain off offs' where offs: "offs = off # offs'" by (cases offs) auto
  have z: "item_ok z" "zi_comment z = []" "off + length (local_part z) < 2 ^ 32" and "\<exists>xs. drop off file = local_part z @ xs"
    using Cons.prems(1) offs by auto
  then obtain xs where xs: "drop off file = local_part z @ xs" by blast
  have d: "drop pos file = cde_head z (of_nat off) @ zi_name z @ zi_cextra z @ concat (map2 central_part zs offs') @ ys"
    using Cons.prems(3) offs z(2) by (simp add: central_part_def)
  obtain e where e: "initFromCDE file pos = Inr (Some (e, pos + 46 + length (zi_name z) + length (zi_cextra z)))" "entry_of z off e"
    using initFromCDE_at [OF d z(1) xs z(3)] by blast
  let ?p = "pos + 46 + length (zi_name z) + length (zi_cextra z)"
  have "drop ?p file = concat (map2 central_part zs offs') @ ys"
    using drop_at [OF drop_at [OF drop_at [OF d, of 46, simplified] refl] refl] by simp
  then obtain es where "read_entries file ?p (length zs) = Inr (Some (es, ?p + length (concat (map2 central_part zs offs'))))"
      "list_all2 (\<lambda>(z, off) e. entry_of z off e) (zip zs offs') es"
    using Cons.IH [of offs' ?p] Cons.prems(1,2) offs by auto
  then show ?case using e offs z(2) by (auto simp: central_part_def)
qed simp

text \<open>No end of central directory signature inside the record itself.\<close>

definition eocd_clean :: "u8 list \<Rightarrow> bool" where
  "eocd_clean r \<longleftrightarrow> (\<forall>k\<in>set [1..<19]. getLongLE r k \<noteq> kEOCDSignature)"

lemma getLongLE_append: "getLongLE (xs @ ys) (length xs + k) = getLongLE ys k"
  by (simp add: getLongLE_def nth_append)

lemma eocd_search_at:
  assumes "eocd_clean r" "getLongLE r 0 = kEOCDSignature" "r ! 0 = 0x50" "j < 19"
  shows "eocd_search (xs @ r) (length xs + Suc j) = Some (length xs)"
  using assms(4)
proof (induction j)
  case 0
  then show ?case using assms(2,3) getLongLE_append [of xs r 0] by (simp add: nth_append)
next
  case (Suc j)
  have "getLongLE (xs @ r) (length xs + Suc j) \<noteq> kEOCDSignature"
    using assms(1) Suc.prems getLongLE_append [of xs r "Suc j"] by (simp add: eocd_clean_def)
  then show ?case using Suc by simp
qed

lemma offsets_locals:
  "(z, off) \<in> set (zip zs (offsets o1 zs)) \<Longrightarrow> o1 \<le> off \<and>
     off + length (local_part z) \<le> o1 + length (concat (map local_part zs)) \<and>
     (\<exists>xs. drop (off - o1) (concat (map local_part zs) @ ys) = local_part z @ xs)"
proof (induction zs arbitrary: o1)
  case (Cons w zs)
  let ?o = "o1 + length (local_part w)"
  show ?case
  proof (cases "z = w \<and> off = o1")
    case False
    then have "(z, off) \<in> set (zip zs (offsets ?o zs))" using Cons.prems by auto
    note IH = Cons.IH [OF this]
    then have "off - o1 = length (local_part w) + (off - ?o)" by linarith
    then show ?thesis using IH by auto
  qed auto
qed simp

lemma length_offsets [simp]: "length (offsets o1 zs) = length zs"
  by (induction zs arbitrary: o1) simp_all

lemma length_parts: "length (local_part z) \<ge> 30"
  by (simp add: local_part_def)

lemma find_eocd:
  assumes "f = pre @ eo" "length eo = 22" "eocd_clean eo" "getLongLE eo 0 = kEOCDSignature" "eo ! 0 = 0x50"
  shows "\<exists>i. eocd_search (drop (length f - min (length f) kMaxEOCDSearch) f) (min (length f) kMaxEOCDSearch - 3) = Some i \<and>
    drop i (drop (length f - min (length f) kMaxEOCDSearch) f) = eo"
proof -
  let ?n = "min (length f) kMaxEOCDSearch"
  let ?xs = "drop (length f - ?n) pre"
  have n: "22 \<le> ?n" using assms(1,2) by (simp add: kMaxEOCDSearch_def)
  have buf: "drop (length f - ?n) f = ?xs @ eo" using assms(1,2) n by auto
  have "length ?xs = ?n - 22" using assms(1,2) n by auto
  then have "?n - 3 = length ?xs + Suc 18" using n by linarith
  then show ?thesis
    using eocd_search_at [OF assms(3-5), of 18 ?xs] unfolding buf by simp
qed

lemma readCentralDir_eocd:
  assumes "f = pre @ eocd_part n s p" "eocd_clean (eocd_part n s p)" "n < 2 ^ 16" "p < 2 ^ 32"
  shows "readCentralDir junk f = res_bind (read_entries f p n) (\<lambda>r. case r of None \<Rightarrow> Inr None
    | Some (es, q) \<Rightarrow> (case zfread f q 4 of None \<Rightarrow> Inr None
       | Some (checkBuf, _) \<Rightarrow> if getLongLE checkBuf 0 \<noteq> kEOCDSignature then Inr None else Inr (Some es)))"
proof -
  obtain i where i: "eocd_search (drop (length f - min (length f) kMaxEOCDSearch) f) (min (length f) kMaxEOCDSearch - 3) = Some i"
      "drop i (drop (length f - min (length f) kMaxEOCDSearch) f) = eocd_part n s p"
    using find_eocd [OF assms(1) length_heads(3) assms(2) eocd_sig eocd_first] by blast
  have nums: "unat (of_nat n :: u16) = n" "unat (of_nat p :: u32) = p"
    using assms(3,4) by (simp_all add: unat_of_nat)
  have "kEOCDLen \<le> length f" using assms(1) by (simp add: kEOCDLen_def)
  then show ?thesis
    unfolding readCentralDir_def Let_def i(1) option.case i(2) using nums
    by (simp add: EOCD_readbuf_def eocd_fields)
qed

lemma le4_getLongLE: "4 \<le> length buf \<Longrightarrow> le4 (getLongLE buf 0) = take 4 buf"
proof -
  assume "4 \<le> length buf"
  then obtain a b c d r where buf: "buf = a # b # c # d # r"
    by (auto simp: numeral_eq_Suc Suc_le_length_iff)
  have "ucast (getLongLE buf 0) = a" "ucast (drop_bit 8 (getLongLE buf 0)) = b"
      "ucast (drop_bit 16 (getLongLE buf 0)) = c" "ucast (drop_bit 24 (getLongLE buf 0)) = d"
    unfolding buf getLongLE_def by (rule bit_word_eqI; auto simp: bit_simps dest: bit_imp_le_length)+
  then show ?thesis by (simp add: le4_def buf)
qed

lemma CentralDirEntry_read_bad:
  assumes "drop pos file = xs @ ys" "4 \<le> length xs" "take 4 xs \<noteq> le4 kCDESignature"
  shows "CentralDirEntry_read file pos = Inr None"
proof (cases "zfread file pos kCDELen")
  case (Some r)
  then have r: "fst r = take 46 (drop pos file)" "46 \<le> length (drop pos file)"
    by (auto simp: zfread_def kCDELen_def split: if_splits)
  then have "take 4 (fst r) = take 4 xs" using assms(1,2) by (simp add: min_def)
  then have "getLongLE (fst r) 0 \<noteq> kCDESignature"
    using le4_getLongLE [of "fst r"] r assms(3) by auto
  then show ?thesis using Some by (cases r) (simp add: CentralDirEntry_read_def)
qed (simp add: CentralDirEntry_read_def)

text \<open>C17: the archive reader reads back what an archive holds. For every archive below 4 GiB of items
  that have a name and no comment and are within the limits of the format, the local and the
  central extra field of an item independent of each other, whose end record does not contain its
  own signature a second time, readCentralDir succeeds and returns one entry per item, in order,
  with the name, method, size and checksum of the item, and the file offset of an entry is where
  the data of the item starts in the archive. (An archive with entry comments is refused, which is
  stated below.)\<close>

theorem readCentralDir_roundtrip:
  assumes "\<forall>z\<in>set zs. item_ok z \<and> zi_comment z = []" and "length zs < 2 ^ 16"
    and "length (archive zs) < 2 ^ 32"
    and "eocd_clean (eocd_part (length zs) (length (central_dir zs)) (length (concat (map local_part zs))))"
  shows "\<exists>es. readCentralDir junk (archive zs) = Inr (Some es) \<and> length es = length zs \<and>
    (\<forall>i<length zs. entry_of (zs ! i) (offsets 0 zs ! i) (es ! i) \<and>
      take (length (zi_data (zs ! i))) (drop (getFileOffset (es ! i)) (archive zs)) = zi_data (zs ! i))"
proof -
  let ?loc = "concat (map local_part zs)" and ?cd = "central_dir zs" and ?f = "archive zs"
  let ?eo = "eocd_part (length zs) (length ?cd) (length ?loc)"
  let ?pre = "?loc @ ?cd"
  have f: "?f = ?pre @ ?eo" by (simp add: archive_def Let_def)
  have at: "\<exists>xs. drop off ?f = local_part z @ xs" "off + length (local_part z) < 2 ^ 32" if "(z, off) \<in> set (zip zs (offsets 0 zs))" for z off
    using offsets_locals [OF that, of "?cd @ ?eo"] assms(3) f length_parts [of z] by auto
  have items: "\<forall>(z, off)\<in>set (zip zs (offsets 0 zs)). item_ok z \<and> zi_comment z = [] \<and> off + length (local_part z) < 2 ^ 32 \<and>
      (\<exists>xs. drop off ?f = local_part z @ xs)"
    using at assms(1) by (auto dest: set_zip_leftD)
  have "drop (length ?loc) ?f = concat (map2 central_part zs (offsets 0 zs)) @ ?eo"
    using f by (simp add: central_dir_def)
  then obtain es where es: "read_entries ?f (length ?loc) (length zs) = Inr (Some (es, length ?loc + length ?cd))"
      "list_all2 (\<lambda>(z, off) e. entry_of z off e) (zip zs (offsets 0 zs)) es"
    using read_entries_at [OF items] by (auto simp: central_dir_def)
  have search: "readCentralDir junk ?f = Inr (Some es)"
  proof -
    have chk: "zfread ?f (length ?loc + length ?cd) 4 = Some (take 4 ?eo, length ?loc + length ?cd + 4)"
      unfolding f by (simp add: zfread_def)
    have sig: "getLongLE (take 4 ?eo) 0 = kEOCDSignature" using eocd_sig by (simp add: getLongLE_def)
    have "length ?loc < 2 ^ 32" using assms(3) f by simp
    from readCentralDir_eocd [OF f assms(4,2) this] show ?thesis using es(1) chk sig by simp
  qed
  show ?thesis
  proof (intro exI conjI allI impI)
    show "readCentralDir junk ?f = Inr (Some es)" by (rule search)
    show len: "length es = length zs" using list_all2_lengthD [OF es(2)] by simp
    fix i assume i: "i < length zs"
    then show e: "entry_of (zs ! i) (offsets 0 zs ! i) (es ! i)"
      using list_all2_nthD [OF es(2), of i] by simp
    have "(zs ! i, offsets 0 zs ! i) \<in> set (zip zs (offsets 0 zs))" using i by (auto simp: set_zip)
    then obtain xs where "drop (offsets 0 zs ! i) ?f = local_part (zs ! i) @ xs" using at by blast
    then have "drop (getFileOffset (es ! i)) ?f = zi_data (zs ! i) @ xs"
      using e drop_at [of "offsets 0 zs ! i" ?f "lfh_head (zs ! i) @ zi_name (zs ! i) @ zi_extra (zs ! i)"
          "zi_data (zs ! i) @ xs"] by (simp add: entry_of_def local_part_def add.assoc)
    then show "take (length (zi_data (zs ! i))) (drop (getFileOffset (es ! i)) ?f) = zi_data (zs ! i)" by simp
  qed
qed

definition demo_item :: zip_item where
  "demo_item = \<lparr>zi_method = 0, zi_crc = 0, zi_usize = 3, zi_name = [0x61, 0x2E, 0x73, 0x6F], zi_extra = [1], zi_cextra = [],
     zi_comment = [], zi_data = [7, 8, 9]\<rparr>"

theorem readCentralDir_roundtrip_witness:
  "\<exists>e. readCentralDir [] (archive [demo_item]) = Inr (Some [e]) \<and> entry_name e = Some ''a.so'' \<and> getFileOffset e = 35"
proof -
  have len: "length (concat (map local_part [demo_item])) = 38" "length (central_dir [demo_item]) = 50"
    by (simp_all add: local_part_def central_dir_def central_part_def demo_item_def)
  have clean: "eocd_clean (eocd_part 1 50 38)"
    by (simp add: eocd_clean_def eocd_part_def le2_def le4_def getLongLE_def kEOCDSignature_def upt_rec)
  have "\<forall>z\<in>set [demo_item]. item_ok z \<and> zi_comment z = []" by (simp add: item_ok_def demo_item_def)
  moreover have "length (archive [demo_item]) < 2 ^ 32" using len by (simp add: archive_def)
  ultimately obtain es where es: "readCentralDir [] (archive [demo_item]) = Inr (Some es)" "length es = 1"
      "entry_of demo_item 0 (es ! 0)"
    using readCentralDir_roundtrip [of "[demo_item]" "[]"] clean len by auto
  then obtain e where "es = [e]" by (auto simp: length_Suc_conv)
  then show ?thesis using es by (auto simp: entry_of_def demo_item_def char_of_def bit_0)
qed

text \<open>An archive in which an entry that is not the last one carries a comment is refused, although
  the format allows it: the reader does not skip the comment, takes its bytes for the next
  entry, and fails on the signature, unless the comment looks like one.\<close>

theorem readCentralDir_refuses_comments:
  assumes "\<forall>z\<in>set (z # w # zs). item_ok z" and "length zs + 2 < 2 ^ 16"
    and "length (archive (z # w # zs)) < 2 ^ 32"
    and "eocd_clean (eocd_part (length zs + 2) (length (central_dir (z # w # zs)))
           (length (concat (map local_part (z # w # zs)))))"
    and "4 \<le> length (zi_comment z)" and "take 4 (zi_comment z) \<noteq> le4 kCDESignature"
  shows "readCentralDir junk (archive (z # w # zs)) = Inr None"
proof -
  let ?zs = "z # w # zs"
  let ?loc = "concat (map local_part ?zs)" and ?cd = "central_dir ?zs" and ?f = "archive ?zs"
  let ?eo = "eocd_part (length zs + 2) (length ?cd) (length ?loc)"
  have f: "?f = (?loc @ ?cd) @ ?eo" by (simp add: archive_def Let_def)
  obtain ys where ys: "?cd = central_part z 0 @ ys" by (simp add: central_dir_def)
  have d: "drop (length ?loc) ?f = cde_head z (of_nat 0) @ zi_name z @ zi_cextra z @ zi_comment z @ ys @ ?eo"
    unfolding f ys by (simp add: central_part_def)
  have l: "drop 0 ?f = local_part z @ concat (map local_part (w # zs)) @ ?cd @ ?eo" by (simp add: f)
  have z: "item_ok z" using assms(1) by simp
  obtain e where e: "initFromCDE ?f (length ?loc) =
      Inr (Some (e, length ?loc + 46 + length (zi_name z) + length (zi_cextra z)))"
    using initFromCDE_at [OF d z l] assms(3) f by auto
  have "drop (length ?loc + 46 + length (zi_name z) + length (zi_cextra z)) ?f = zi_comment z @ ys @ ?eo"
    using drop_at [OF drop_at [OF drop_at [OF d, of 46, simplified] refl] refl] by simp
  then have "initFromCDE ?f (length ?loc + 46 + length (zi_name z) + length (zi_cextra z)) = Inr None"
    using CentralDirEntry_read_bad [OF _ assms(5,6)] by (simp add: initFromCDE_def)
  then have "read_entries ?f (length ?loc) (length zs + 2) = Inr None" using e by simp
  moreover have "length ?loc < 2 ^ 32" using assms(3) f by simp
  ultimately show ?thesis using readCentralDir_eocd [OF f assms(4,2)] by simp
qed

theorem readCentralDir_refuses_comments_witness:
  "readCentralDir [] (archive [demo_item\<lparr>zi_comment := [1, 2, 3, 4]\<rparr>, demo_item]) = Inr None"
proof (rule readCentralDir_refuses_comments)
  show "\<forall>z\<in>set [demo_item\<lparr>zi_comment := [1, 2, 3, 4]\<rparr>, demo_item]. item_ok z" by (simp add: item_ok_def demo_item_def)
  have len: "length (concat (map local_part [demo_item\<lparr>zi_comment := [1, 2, 3, 4]\<rparr>, demo_item])) = 76"
      "length (central_dir [demo_item\<lparr>zi_comment := [1, 2, 3, 4]\<rparr>, demo_item]) = 104"
    by (simp_all add: local_part_def central_dir_def central_part_def demo_item_def)
  then show "length (archive [demo_item\<lparr>zi_comment := [1, 2, 3, 4]\<rparr>, demo_item]) < 2 ^ 32"
    by (simp add: archive_def)
  show "eocd_clean (eocd_part (length ([] :: zip_item list) + 2) (length (central_dir [demo_item\<lparr>zi_comment := [1, 2, 3, 4]\<rparr>, demo_item]))
      (length (concat (map local_part [demo_item\<lparr>zi_comment := [1, 2, 3, 4]\<rparr>, demo_item]))))"
    unfolding len by (simp add: eocd_clean_def eocd_part_def le2_def le4_def getLongLE_def kEOCDSignature_def upt_rec)
qed (simp_all add: demo_item_def le4_def kCDESignature_def)

end
