(* ===== verification/PropArea.thy ===== *)
theory PropArea
  imports Segments "HOL-Library.Monad_Syntax"
begin

unbundle bit_operations_syntax

text \<open>
  The system properties of an Android process: android/properties/prop_area.cpp
  (\<open>android::PropArea\<close>, \<open>android::Propbt\<close>), prop_info.cpp (\<open>android::PropInfo\<close>) and property.cpp
  (\<open>android::Property\<close>). An area is a trie in the memory of the process: each node holds one part of
  a dotted name, the nodes of one level form a binary search tree, and a node points to the
  level below it and to its property.
\<close>

section \<open>Nodes\<close>

text \<open>The offset tables.\<close>

record Propbt_OffsetTable =
  bt_namelen :: u32
  bt_prop :: u32
  bt_left :: u32
  bt_right :: u32
  bt_children :: u32
  bt_name :: u32

definition Propbt_Init :: Propbt_OffsetTable where
  "Propbt_Init = \<lparr>bt_namelen = 0, bt_prop = 4, bt_left = 8, bt_right = 12, bt_children = 16, bt_name = 20\<rparr>"

record PropArea_OffsetTable =
  pa_bytes_used :: u32
  pa_serial :: u32
  pa_magic :: u32
  pa_version :: u32
  pa_data :: u32

definition PropArea_Init :: PropArea_OffsetTable where
  "PropArea_Init = \<lparr>pa_bytes_used = 0, pa_serial = 4, pa_magic = 8, pa_version = 12, pa_data = 128\<rparr>"

definition kLongLegacyErrorBufferSize :: u32 where "kLongLegacyErrorBufferSize = 56"
definition kLongFlag :: u64 where "kLongFlag = push_bit 16 1"

record PropInfo_OffsetTable =
  pi_serial :: u32
  pi_value :: u32
  pi_name :: u32
  pi_long_offset :: u32

definition PropInfo_Init :: PropInfo_OffsetTable where
  "PropInfo_Init = \<lparr>pi_serial = 0, pi_value = 4, pi_name = 96, pi_long_offset = kLongLegacyErrorBufferSize + 4\<rparr>"

definition PROP_AREA_MAGIC :: u64 where "PROP_AREA_MAGIC = 0x504f5250"
definition PROP_AREA_VERSION :: u64 where "PROP_AREA_VERSION = 0xfc6ed0ab"
definition PA_SIZE :: u64 where "PA_SIZE = 128 * 1024"
definition LARGE_PA_SIZE :: u64 where "LARGE_PA_SIZE = 1024 * 1024"

text \<open>A 32-bit member of a node, an area or a property.\<close>

definition member32 :: "u32 \<Rightarrow> core \<Rightarrow> memory_ref \<Rightarrow> (u64 \<times> memory_ref) res" where
  "member32 off c r = valueNOf 4 (ucast off) c r"

definition toPropObj :: "memory_ref \<Rightarrow> u64 \<Rightarrow> u64" where
  "toPropObj area off = ref_vaddr area + ucast (pa_data PropArea_Init) + off"

text \<open>\<open>toPropbt\<close> and \<open>toPropInfo\<close>: a reference that takes over the segment of the area.\<close>

definition toPropRef :: "core \<Rightarrow> memory_ref \<Rightarrow> u64 \<Rightarrow> memory_ref" where
  "toPropRef c area off = new_ref_from (toPropObj area off) area c"

text \<open>\<open>strncmp\<close> of a string of the host with the characters at a host address; the first string has
  no zero byte among its characters.\<close>

fun strncmp_host :: "host \<Rightarrow> string \<Rightarrow> u64 \<Rightarrow> int res" where
  "strncmp_host h [] a = Inr 0"
| "strncmp_host h (ch # cs) a =
     (case h a of None \<Rightarrow> Inl (HostFault a)
      | Some b \<Rightarrow> if of_char ch = unat b then strncmp_host h cs (a + 1)
                  else Inr (if of_char ch < unat b then -1 else 1))"

text \<open>The length of the name is a \<open>uint32_t\<close> in the code: names of 4 GiB and more have no counterpart.\<close>

definition ComparePropName :: "core \<Rightarrow> string \<Rightarrow> memory_ref \<Rightarrow> (int \<times> memory_ref) res" where
  "ComparePropName c nm bt =
     res_bind (Real c bt) (\<lambda>(real, bt1).
     res_bind (member32 (bt_namelen Propbt_Init) c bt1) (\<lambda>(two_len, bt2).
       (let one_len = of_nat (length nm) :: u64 in
        if one_len < two_len then Inr (-1, bt2)
        else if one_len > two_len then Inr (1, bt2)
        else res_bind (strncmp_host (mem c) nm (real + ucast (bt_name Propbt_Init))) (\<lambda>r. Inr (r, bt2)))))"

section \<open>Finding a property\<close>

text \<open>
  \<open>findPropbt\<close>: the search in the tree of one level. The offsets come from target memory, so the
  walk need not end; \<open>None\<close> is a walk that does not.
\<close>

partial_function (option) findPropbt :: "core \<Rightarrow> memory_ref \<Rightarrow> string \<Rightarrow> memory_ref \<Rightarrow> memory_ref res option" where
  "findPropbt c area nm current =
     (if ref_vaddr current = 0 then Some (Inr (new_memory_ref 0))
      else
        (case ComparePropName c nm current of Inl e \<Rightarrow> Some (Inl e)
         | Inr (ret, cur1) \<Rightarrow>
             if ret = 0 then Some (Inr cur1)
             else
               (case member32 (if ret < 0 then bt_left Propbt_Init else bt_right Propbt_Init) c cur1 of
                  Inl e \<Rightarrow> Some (Inl e)
                | Inr (off, cur2) \<Rightarrow>
                    if off \<noteq> 0 then findPropbt c area nm (toPropRef c area off)
                    else Some (Inr (new_memory_ref 0)))))"

text \<open>The \<open>while\<close> loop of \<open>findProperty\<close>: one part of the name per round.\<close>

function findProperty_loop :: "core \<Rightarrow> memory_ref \<Rightarrow> string \<Rightarrow> memory_ref \<Rightarrow> memory_ref res option" where
  "findProperty_loop c area remaining current =
     (let sub = takeWhile (\<lambda>ch. ch \<noteq> CHR ''.'') remaining; want_subtree = CHR ''.'' \<in> set remaining in
      if sub = [] then Some (Inr (new_memory_ref 0))
      else
        (case member32 (bt_children Propbt_Init) c current of Inl e \<Rightarrow> Some (Inl e)
         | Inr (children, _) \<Rightarrow>
             (let root = (if children \<noteq> 0 then toPropRef c area children else new_memory_ref 0) in
              if ref_vaddr root = 0 then Some (Inr (new_memory_ref 0))
              else
                (case findPropbt c area sub root of None \<Rightarrow> None
                 | Some (Inl e) \<Rightarrow> Some (Inl e)
                 | Some (Inr cur) \<Rightarrow>
                     if ref_vaddr cur = 0 then Some (Inr (new_memory_ref 0))
                     else if want_subtree then findProperty_loop c area (drop (Suc (length sub)) remaining) cur
                     else
                       (case member32 (bt_prop Propbt_Init) c cur of Inl e \<Rightarrow> Some (Inl e)
                        | Inr (prop, _) \<Rightarrow>
                            Some (Inr (if prop \<noteq> 0 then toPropRef c area prop else new_memory_ref 0)))))))"
  by pat_completeness auto
termination
proof (relation "measure (\<lambda>(c, area, remaining, current). length remaining)", goal_cases)
  case (2 c area remaining current sub want)
  then have "remaining \<noteq> []" by auto
  then show ?case by simp
qed simp

declare findProperty_loop.simps [simp del]

definition findProperty :: "core \<Rightarrow> memory_ref \<Rightarrow> memory_ref \<Rightarrow> string \<Rightarrow> memory_ref res option" where
  "findProperty c area trie name =
     (if ref_vaddr trie = 0 then Some (Inr (new_memory_ref 0)) else findProperty_loop c area name trie)"

text \<open>The check of version and magic that guards \<open>find\<close> and \<open>foreach\<close>.\<close>

definition area_valid :: "core \<Rightarrow> memory_ref \<Rightarrow> (bool \<times> memory_ref) res" where
  "area_valid c area =
     res_bind (member32 (pa_version PropArea_Init) c area) (\<lambda>(v, a1).
       if v \<noteq> PROP_AREA_VERSION then Inr (False, a1)
       else res_bind (member32 (pa_magic PropArea_Init) c a1) (\<lambda>(m, a2). Inr (m = PROP_AREA_MAGIC, a2)))"

definition rootNode :: "core \<Rightarrow> memory_ref \<Rightarrow> memory_ref" where
  "rootNode c area = toPropRef c area 0"

definition PropArea_find :: "core \<Rightarrow> memory_ref \<Rightarrow> string \<Rightarrow> memory_ref res option" where
  "PropArea_find c area name =
     (case area_valid c area of Inl e \<Rightarrow> Some (Inl e)
      | Inr (ok, area') \<Rightarrow>
          if ok then findProperty c area' (rootNode c area') name else Some (Inr (new_memory_ref 0)))"

section \<open>Visiting every property\<close>

text \<open>
  \<open>foreachProperty\<close>: the visited properties are collected in order, also when an invalid address
  ends the walk. The results of the recursive calls are compared with 0 as integers, which a
  \<open>bool\<close> is never below.
\<close>

partial_function (option) foreachProperty ::
  "core \<Rightarrow> memory_ref \<Rightarrow> memory_ref \<Rightarrow> memory_ref list \<Rightarrow> (bool res \<times> memory_ref list) option" where
  "foreachProperty c area trie log =
     (if ref_vaddr trie = 0 then Some (Inr False, log)
      else
        (case member32 (bt_left Propbt_Init) c trie of Inl e \<Rightarrow> Some (Inl e, log)
         | Inr (left, t1) \<Rightarrow>
     Option.bind (if left \<noteq> 0 then foreachProperty c area (toPropRef c area left) log else Some (Inr True, log))
       (\<lambda>r1. if isl (fst r1) then Some r1 else
        (case member32 (bt_prop Propbt_Init) c t1 of Inl e \<Rightarrow> Some (Inl e, snd r1)
         | Inr (prop, t2) \<Rightarrow>
             if prop \<noteq> 0 \<and> ref_vaddr (toPropRef c area prop) = 0 then Some (Inr False, snd r1)
             else
        (case member32 (bt_children Propbt_Init) c t2 of
           Inl e \<Rightarrow> Some (Inl e, snd r1 @ (if prop \<noteq> 0 then [toPropRef c area prop] else []))
         | Inr (children, t3) \<Rightarrow>
     Option.bind (if children \<noteq> 0
                  then foreachProperty c area (toPropRef c area children) (snd r1 @ (if prop \<noteq> 0 then [toPropRef c area prop] else []))
                  else Some (Inr True, snd r1 @ (if prop \<noteq> 0 then [toPropRef c area prop] else [])))
       (\<lambda>r2. if isl (fst r2) then Some r2 else
        (case member32 (bt_right Propbt_Init) c t3 of Inl e \<Rightarrow> Some (Inl e, snd r2)
         | Inr (right, t4) \<Rightarrow>
     Option.bind (if right \<noteq> 0 then foreachProperty c area (toPropRef c area right) (snd r2) else Some (Inr True, snd r2))
       (\<lambda>r3. if isl (fst r3) then Some r3 else Some (Inr True, snd r3)))))))))"

definition PropArea_foreach :: "core \<Rightarrow> memory_ref \<Rightarrow> (bool res \<times> memory_ref list) option" where
  "PropArea_foreach c area =
     (case area_valid c area of Inl e \<Rightarrow> Some (Inl e, [])
      | Inr (ok, area') \<Rightarrow>
          if ok then foreachProperty c area' (rootNode c area') [] else Some (Inr False, []))"

section \<open>PropInfo and Property\<close>

definition is_long :: "core \<Rightarrow> memory_ref \<Rightarrow> (bool \<times> memory_ref) res" where
  "is_long c info =
     res_bind (member32 (pi_serial PropInfo_Init) c info) (\<lambda>(s, i1). Inr (s AND kLongFlag \<noteq> 0, i1))"

definition prop_value :: "core \<Rightarrow> memory_ref \<Rightarrow> string res" where
  "prop_value c info =
     res_bind (Real c info) (\<lambda>(real, _). c_string (mem c) (real + ucast (pi_value PropInfo_Init)))"

definition long_value :: "core \<Rightarrow> memory_ref \<Rightarrow> string res" where
  "long_value c info =
     res_bind (Real c info) (\<lambda>(real, i1).
     res_bind (member32 (pi_long_offset PropInfo_Init) c i1) (\<lambda>(off, _). c_string (mem c) (real + off)))"

text \<open>Could the segment hold a property area?\<close>

definition area_sized :: "load_block \<Rightarrow> bool" where
  "area_sized b \<longleftrightarrow> mFileSize b \<ge> PA_SIZE \<and> mFileSize b \<le> LARGE_PA_SIZE \<and> mFileSize b mod PA_SIZE = 0"

text \<open>The constructor \<open>PropArea(v, block)\<close>.\<close>

definition new_PropArea :: "core \<Rightarrow> nat \<Rightarrow> memory_ref" where
  "new_PropArea c i = checkCopyBlock (Some i) c (new_memory_ref (mVaddr (blk c i)))"

text \<open>The walk of \<open>Get\<close> over the valid quick segments: the first area that has the property. A walk that
  does not end is \<open>None\<close>, a fault of the host ends it, an invalid address is skipped.\<close>

fun find_in_areas :: "core \<Rightarrow> string \<Rightarrow> nat list \<Rightarrow> memory_ref res option" where
  "find_in_areas c name [] = Some (Inr (new_memory_ref 0))"
| "find_in_areas c name (i # is) =
     (if isValid (blk c i) \<and> area_sized (blk c i) then
        (case PropArea_find c (new_PropArea c i) name of None \<Rightarrow> None
         | Some (Inl (InvalidAddressException a)) \<Rightarrow> find_in_areas c name is
         | Some (Inl (HostFault a)) \<Rightarrow> Some (Inl (HostFault a))
         | Some (Inr info) \<Rightarrow> if ref_vaddr info \<noteq> 0 then Some (Inr info) else find_in_areas c name is)
      else find_in_areas c name is)"

definition Property_Get :: "core \<Rightarrow> string \<Rightarrow> string \<Rightarrow> string res option" where
  "Property_Get c name def =
     (case find_in_areas c name (getLoads True c) of None \<Rightarrow> None
      | Some r \<Rightarrow>
          Some (res_bind r (\<lambda>info.
            if ref_vaddr info \<noteq> 0 then
              res_bind (is_long c info) (\<lambda>(long, i1). if long then long_value c i1 else prop_value c i1)
            else Inr def)))"

text \<open>\<open>Foreach\<close> over all areas; here an invalid address is not caught.\<close>

fun foreach_areas :: "core \<Rightarrow> nat list \<Rightarrow> memory_ref list \<Rightarrow> (exn option \<times> memory_ref list) option" where
  "foreach_areas c [] log = Some (None, log)"
| "foreach_areas c (i # is) log =
     (if isValid (blk c i) \<and> area_sized (blk c i) then
        (case PropArea_foreach c (new_PropArea c i) of None \<Rightarrow> None
         | Some (Inl e, l) \<Rightarrow> Some (Some e, log @ l)
         | Some (Inr _, l) \<Rightarrow> foreach_areas c is (log @ l))
      else foreach_areas c is log)"

definition Property_Foreach :: "core \<Rightarrow> (exn option \<times> memory_ref list) option" where
  "Property_Foreach c = foreach_areas c (getLoads True c) []"

end
