(* ===== verification/PropAreaProps.thy ===== *)
theory PropAreaProps
  imports PropArea
begin

unbundle bit_operations_syntax

text \<open>
  The property area against its abstract content: a trie whose levels are binary search trees is
  looked up like nested finite maps, and visited in order.
\<close>

section \<open>Abstract tries\<close>

text \<open>A node: its part of the name, the offset of its property (0 for none), the nodes to the left,
  the level below and the nodes to the right.\<close>

datatype prop_tree = PTip | PNode string u64 prop_tree prop_tree prop_tree

fun lex_cmp :: "string \<Rightarrow> string \<Rightarrow> int" where
  "lex_cmp (a # as) (b # bs) =
     (if a = b then lex_cmp as bs else if (of_char a :: nat) < of_char b then -1 else 1)"
| "lex_cmp _ _ = 0"

definition name_cmp :: "string \<Rightarrow> string \<Rightarrow> int" where
  "name_cmp one two =
     (if length one < length two then -1 else if length one > length two then 1 else lex_cmp one two)"

lemma lex_cmp_zero: "length a = length b \<Longrightarrow> lex_cmp a b = 0 \<longleftrightarrow> a = b"
  by (induction a b rule: lex_cmp.induct) auto

lemma lex_cmp_swap: "length a = length b \<Longrightarrow> lex_cmp a b < 0 \<longleftrightarrow> lex_cmp b a > 0"
  by (induction a b rule: lex_cmp.induct) (auto simp: not_less less_le)

lemma name_cmp_zero [simp]: "name_cmp a b = 0 \<longleftrightarrow> a = b"
  using lex_cmp_zero [of a b] by (auto simp: name_cmp_def)

lemma name_cmp_same [simp]: "name_cmp a a = 0"
  by simp

lemma name_cmp_swap: "name_cmp a b < 0 \<longleftrightarrow> name_cmp b a > 0"
  using lex_cmp_swap [of a b] by (auto simp: name_cmp_def)

lemma lex_cmp_trans:
  "length a = length b \<Longrightarrow> length b = length d \<Longrightarrow> lex_cmp a b < 0 \<Longrightarrow> lex_cmp b d < 0 \<Longrightarrow> lex_cmp a d < 0"
proof (induction a b arbitrary: d rule: lex_cmp.induct)
  case (1 a as b bs)
  then show ?case by (cases d) (auto split: if_splits)
qed auto

lemma name_cmp_trans: "name_cmp a b < 0 \<Longrightarrow> name_cmp b d < 0 \<Longrightarrow> name_cmp a d < 0"
  using lex_cmp_trans [of a b d] by (auto simp: name_cmp_def split: if_splits)

text \<open>The entries of one level, in order: name, property and the level below.\<close>

fun level_entries :: "prop_tree \<Rightarrow> (string \<times> u64 \<times> prop_tree) list" where
  "level_entries PTip = []"
| "level_entries (PNode nm p l ch r) = level_entries l @ [(nm, p, ch)] @ level_entries r"

fun level_find :: "string \<Rightarrow> prop_tree \<Rightarrow> (u64 \<times> prop_tree) option" where
  "level_find nm PTip = None"
| "level_find nm (PNode m p l ch r) =
     (if name_cmp nm m = 0 then Some (p, ch) else if name_cmp nm m < 0 then level_find nm l else level_find nm r)"

text \<open>The order a level must have, on every level of the trie.\<close>

fun trie_sorted :: "prop_tree \<Rightarrow> bool" where
  "trie_sorted PTip = True"
| "trie_sorted (PNode nm p l ch r) \<longleftrightarrow>
     (\<forall>e\<in>set (level_entries l). name_cmp (fst e) nm < 0) \<and>
     (\<forall>e\<in>set (level_entries r). name_cmp nm (fst e) < 0) \<and>
     trie_sorted l \<and> trie_sorted ch \<and> trie_sorted r"

lemma map_of_absent: "(\<forall>e\<in>set xs. fst e \<noteq> k) \<Longrightarrow> map_of xs k = None"
  by (induction xs) auto

lemma level_find_map:
  assumes "trie_sorted t"
  shows "level_find nm t = map_of (level_entries t) nm"
  using assms
proof (induction t)
  case (PNode m p l ch r)
  have l: "map_of (level_entries l) nm = None" if "\<not> name_cmp nm m < 0"
    using PNode.prems that name_cmp_trans by (intro map_of_absent) auto
  have r: "map_of (level_entries r) nm = None" if "\<not> name_cmp m nm < 0"
    using PNode.prems that name_cmp_trans by (intro map_of_absent) auto
  show ?case
  proof (cases "nm = m")
    case True
    then show ?thesis using l by (simp add: map_add_def)
  next
    case False
    then have "name_cmp nm m < 0 \<or> name_cmp m nm < 0"
      using name_cmp_zero [of nm m] name_cmp_swap [of m nm] by linarith
    moreover have "\<not> (name_cmp nm m < 0 \<and> name_cmp m nm < 0)" using name_cmp_swap [of m nm] by linarith
    ultimately show ?thesis using False l r PNode by (auto simp: map_add_def split: option.splits)
  qed
qed simp

lemma level_find_sorted: "trie_sorted t \<Longrightarrow> level_find nm t = Some (p, ch) \<Longrightarrow> trie_sorted ch"
  by (induction t) (auto split: if_splits)

text \<open>Looking up a dotted name, part by part, in nested maps; 0 when it is absent.\<close>

function dot_split :: "string \<Rightarrow> string list" where
  "dot_split s =
     (let a = takeWhile (\<lambda>ch. ch \<noteq> CHR ''.'') s
      in if CHR ''.'' \<in> set s then a # dot_split (drop (Suc (length a)) s) else [a])"
  by pat_completeness auto
termination
  by (relation "measure length") (auto simp: Let_def intro: diff_less length_pos_if_in_set)

declare dot_split.simps [simp del]

fun trie_get :: "prop_tree \<Rightarrow> string list \<Rightarrow> u64" where
  "trie_get t [] = 0"
| "trie_get t (s # rest) =
     (if s = [] then 0
      else (case map_of (level_entries t) s of None \<Rightarrow> 0
            | Some (p, ch) \<Rightarrow> if rest = [] then p else trie_get ch rest))"

fun trie_props :: "prop_tree \<Rightarrow> u64 list" where
  "trie_props PTip = []"
| "trie_props (PNode nm p l ch r) =
     trie_props l @ (if p \<noteq> 0 then [p] else []) @ trie_props ch @ trie_props r"

section \<open>Tries in target memory\<close>

definition node_at ::
  "core \<Rightarrow> nat \<Rightarrow> u64 \<Rightarrow> string \<Rightarrow> u64 \<Rightarrow> u64 \<Rightarrow> u64 \<Rightarrow> u64 \<Rightarrow> bool" where
  "node_at c i a nm prop left right children \<longleftrightarrow>
     inside c i a (20 + length nm) \<and> length nm < 2 ^ 32 \<and>
     target_word c a 4 = of_nat (length nm) \<and> target_word c (a + 4) 4 = prop \<and>
     target_word c (a + 8) 4 = left \<and> target_word c (a + 12) 4 = right \<and> target_word c (a + 16) 4 = children \<and>
     (\<forall>j<length nm. core_byte c (a + 20 + of_nat j) = Some (of_nat (of_char (nm ! j))))"

text \<open>\<open>bt_at c i d off t\<close>: offset \<open>off\<close> of the data at \<open>d\<close> holds the tree \<open>t\<close>; the offset 0 is the empty tree.\<close>

fun bt_at :: "core \<Rightarrow> nat \<Rightarrow> u64 \<Rightarrow> u64 \<Rightarrow> prop_tree \<Rightarrow> bool" where
  "bt_at c i d off PTip \<longleftrightarrow> off = 0"
| "bt_at c i d off (PNode nm p l ch r) \<longleftrightarrow>
     off \<noteq> 0 \<and> (p \<noteq> 0 \<longrightarrow> d + p \<noteq> 0) \<and>
     (\<exists>left right children. node_at c i (d + off) nm p left right children \<and>
        bt_at c i d left l \<and> bt_at c i d right r \<and> bt_at c i d children ch)"

text \<open>A reference to the area that has its segment cached.\<close>

definition area_ref :: "core \<Rightarrow> nat \<Rightarrow> u64 \<Rightarrow> memory_ref \<Rightarrow> bool" where
  "area_ref c i d area \<longleftrightarrow> valid_seg c i \<and> ref_ok c area \<and> ref_vaddr area + 128 = d"

lemma toPropRef_addr:
  assumes "area_ref c i d area"
  shows "ref_vaddr (toPropRef c area off) = d + off" "ref_ok c (toPropRef c area off)"
proof -
  show "ref_ok c (toPropRef c area off)"
    using assms ref_ok_copy [OF valid_segD(1)] by (auto simp: toPropRef_def area_ref_def)
  show "ref_vaddr (toPropRef c area off) = d + off"
    using assms by (auto simp: toPropRef_def new_ref_from_def copyRef_def checkCopyBlock_def new_memory_ref_def
        toPropObj_def PropArea_Init_def area_ref_def split: option.splits)
qed

lemma member32_inside:
  assumes "valid_seg c i" "ref_ok c r" "inside c i (ref_vaddr r) m" "unat off + 4 \<le> m"
  shows "member32 off c r = Inr (target_word c (ref_vaddr r + ucast off) 4, r\<lparr>ref_block := Some i\<rparr>)"
proof -
  have "of_nat (unat off) = (ucast off :: u64)" by simp
  then show ?thesis using valueNOf_inside [OF assms] by (simp add: member32_def)
qed

lemma node_members:
  assumes vs: "valid_seg c i" and "node_at c i a nm p left right children" "ref_vaddr r = a" "ref_ok c r"
  shows "member32 (bt_namelen Propbt_Init) c r = Inr (of_nat (length nm), r\<lparr>ref_block := Some i\<rparr>)"
    "member32 (bt_prop Propbt_Init) c r = Inr (p, r\<lparr>ref_block := Some i\<rparr>)"
    "member32 (bt_left Propbt_Init) c r = Inr (left, r\<lparr>ref_block := Some i\<rparr>)"
    "member32 (bt_right Propbt_Init) c r = Inr (right, r\<lparr>ref_block := Some i\<rparr>)"
    "member32 (bt_children Propbt_Init) c r = Inr (children, r\<lparr>ref_block := Some i\<rparr>)"
    "a \<noteq> 0" "ref_ok c (r\<lparr>ref_block := Some i\<rparr>)"
proof -
  have ins: "inside c i (ref_vaddr r) (20 + length nm)" using assms by (simp add: node_at_def)
  note m = member32_inside [OF vs assms(4) ins]
  show "member32 (bt_namelen Propbt_Init) c r = Inr (of_nat (length nm), r\<lparr>ref_block := Some i\<rparr>)"
    "member32 (bt_prop Propbt_Init) c r = Inr (p, r\<lparr>ref_block := Some i\<rparr>)"
    "member32 (bt_left Propbt_Init) c r = Inr (left, r\<lparr>ref_block := Some i\<rparr>)"
    "member32 (bt_right Propbt_Init) c r = Inr (right, r\<lparr>ref_block := Some i\<rparr>)"
    "member32 (bt_children Propbt_Init) c r = Inr (children, r\<lparr>ref_block := Some i\<rparr>)"
    using m assms(2,3) by (simp_all add: Propbt_Init_def node_at_def)
  show "a \<noteq> 0" using ins assms(3) by (simp add: inside_def)
  show "ref_ok c (r\<lparr>ref_block := Some i\<rparr>)" by (rule ref_ok_inside [OF vs ins])
qed

section \<open>The search refines the maps\<close>

lemma strncmp_bytes:
  assumes "length one = length two" "\<forall>j<length two. h (a + of_nat j) = Some (of_nat (of_char (two ! j)))"
  shows "strncmp_host h one a = Inr (lex_cmp one two)"
  using assms
proof (induction one arbitrary: two a)
  case (Cons x xs)
  then obtain y ys where two: "two = y # ys" by (cases two) auto
  have at: "h a = Some (of_nat (of_char y))" using Cons.prems(2) two by (auto dest: spec [of _ 0])
  have "strncmp_host h xs (a + 1) = Inr (lex_cmp xs ys)"
    using Cons.prems two by (intro Cons.IH) (auto simp: All_less_Suc2 add.assoc)
  moreover have "(of_char x :: nat) = of_char y \<longleftrightarrow> x = y" by (metis char_of_char)
  ultimately show ?case using at two by (simp add: of_char_u8)
qed simp

lemma node_host_bytes:
  assumes vs: "valid_seg c i" and nd: "node_at c i a nm p left right children" and r: "ref_vaddr r = a" "ref_ok c r"
  obtains real where "Real c r = Inr (real, r\<lparr>ref_block := Some i\<rparr>)"
    "\<forall>j<length nm. mem c (real + 20 + of_nat j) = Some (of_nat (of_char (nm ! j)))"
proof -
  have ins: "inside c i (ref_vaddr r) (20 + length nm)" using nd r by (simp add: node_at_def)
  obtain real where real: "Real c r = Inr (real, r\<lparr>ref_block := Some i\<rparr>)"
      "host_read (mem c) real (20 + length nm) = Inr (map (\<lambda>j. the (core_byte c (ref_vaddr r + of_nat j))) [0..<20 + length nm])"
    using Real_inside [OF vs r(2) ins] by auto
  have "mem c (real + 20 + of_nat j) = Some (of_nat (of_char (nm ! j)))" if "j < length nm" for j
  proof -
    have "core_byte c (a + 20 + of_nat j) = Some (of_nat (of_char (nm ! j)))" using nd that by (simp add: node_at_def)
    then show ?thesis using host_read_nth [OF real(2), of "20 + j"] that r(1) by (simp add: add.assoc)
  qed
  then show thesis using that real(1) by blast
qed

lemma Compare_node:
  assumes vs: "valid_seg c i" and nd: "node_at c i a m p left right children" and r: "ref_vaddr r = a" "ref_ok c r"
    and len: "length nm < 2 ^ 32"
  shows "ComparePropName c nm r = Inr (name_cmp nm m, r\<lparr>ref_block := Some i\<rparr>)"
proof -
  obtain real where real: "Real c r = Inr (real, r\<lparr>ref_block := Some i\<rparr>)"
      "\<forall>j<length m. mem c (real + 20 + of_nat j) = Some (of_nat (of_char (m ! j)))"
    by (rule node_host_bytes [OF vs nd r])
  have r': "ref_vaddr (r\<lparr>ref_block := Some i\<rparr>) = a" "ref_ok c (r\<lparr>ref_block := Some i\<rparr>)"
    using r node_members(7) [OF vs nd r] by simp_all
  have m: "length m < 2 ^ 32" using nd by (simp add: node_at_def)
  have u: "unat (of_nat (length nm) :: u64) = length nm" "unat (of_nat (length m) :: u64) = length m"
    using len m by (simp_all add: unat_of_nat)
  have cmp: "(of_nat (length nm) :: u64) < of_nat (length m) \<longleftrightarrow> length nm < length m"
    "(of_nat (length m) :: u64) < of_nat (length nm) \<longleftrightarrow> length m < length nm"
    using u by (simp_all add: word_less_nat_alt)
  show ?thesis
    using real(1) node_members(1) [OF vs nd r'] cmp strncmp_bytes [of nm m "mem c" "real + 20"] real(2)
    by (auto simp: ComparePropName_def name_cmp_def Let_def Propbt_Init_def)
qed

text \<open>Where the search ends: at a node with the entry, or at no node.\<close>

definition found_node :: "core \<Rightarrow> nat \<Rightarrow> u64 \<Rightarrow> (u64 \<times> prop_tree) option \<Rightarrow> memory_ref \<Rightarrow> bool" where
  "found_node c i d e cur \<longleftrightarrow>
     (case e of None \<Rightarrow> ref_vaddr cur = 0
      | Some (p, ch) \<Rightarrow> ref_ok c cur \<and> (p \<noteq> 0 \<longrightarrow> d + p \<noteq> 0) \<and>
          (\<exists>nm left right children. node_at c i (ref_vaddr cur) nm p left right children \<and> bt_at c i d children ch))"

lemma findPropbt_level:
  assumes ar: "area_ref c i d area" and len: "length nm < 2 ^ 32"
  shows "bt_at c i d off t \<Longrightarrow> off \<noteq> 0 \<Longrightarrow>
    \<exists>cur. findPropbt c area nm (toPropRef c area off) = Some (Inr cur) \<and> found_node c i d (level_find nm t) cur"
proof (induction t arbitrary: off)
  case (PNode m p l ch r)
  have vs: "valid_seg c i" using ar by (simp add: area_ref_def)
  obtain left right children where nd: "node_at c i (d + off) m p left right children"
    and sub: "bt_at c i d left l" "bt_at c i d right r" "bt_at c i d children ch" and p: "p \<noteq> 0 \<longrightarrow> d + p \<noteq> 0"
    using PNode.prems by auto
  let ?r = "toPropRef c area off"
  let ?r' = "?r\<lparr>ref_block := Some i\<rparr>"
  note ra = toPropRef_addr [OF ar, of off]
  note mem = node_members [OF vs nd ra]
  have ra': "ref_vaddr ?r' = d + off" using ra by simp
  note cmp = Compare_node [OF vs nd ra len] and mem' = node_members [OF vs nd ra' mem(7)]
  note unfold = findPropbt.simps [of c area nm ?r]
  have nz: "ref_vaddr ?r \<noteq> 0" using ra mem(6) by simp
  show ?case
  proof (cases "name_cmp nm m = 0")
    case True
    then show ?thesis
      using unfold cmp nz nd sub p mem(7) ra by (auto simp: found_node_def)
  next
    case False
    let ?off = "if name_cmp nm m < 0 then left else right" and ?t = "if name_cmp nm m < 0 then l else r"
    have field: "member32 (if name_cmp nm m < 0 then bt_left Propbt_Init else bt_right Propbt_Init) c ?r' = Inr (?off, ?r')"
      using mem'(3,4) by simp
    have step: "findPropbt c area nm ?r = (if ?off \<noteq> 0 then findPropbt c area nm (toPropRef c area ?off) else Some (Inr (new_memory_ref 0)))"
      using unfold cmp nz False field by simp
    show ?thesis
    proof (cases "?off = 0")
      case True
      then have "?t = PTip" using sub by (cases ?t) (auto split: if_splits)
      then show ?thesis using step True False by (auto simp: found_node_def new_memory_ref_def split: if_splits)
    next
      case nonempty: False
      then show ?thesis using step False PNode.IH(1) [of left] PNode.IH(3) [of right] sub by (auto split: if_splits)
    qed
  qed
qed simp

lemma findProperty_step:
  assumes "takeWhile (\<lambda>ch. ch \<noteq> CHR ''.'') name = sub" "sub \<noteq> []" "member32 (bt_children Propbt_Init) c cur = Inr (children, r)"
    and "children \<noteq> 0" "ref_vaddr (toPropRef c area children) \<noteq> 0"
    and "findPropbt c area sub (toPropRef c area children) = Some (Inr nd)"
  shows "findProperty_loop c area name cur =
    (if ref_vaddr nd = 0 then Some (Inr (new_memory_ref 0))
     else if CHR ''.'' \<in> set name then findProperty_loop c area (drop (Suc (length sub)) name) nd
     else (case member32 (bt_prop Propbt_Init) c nd of Inl e \<Rightarrow> Some (Inl e)
        | Inr (prop, _) \<Rightarrow> Some (Inr (if prop \<noteq> 0 then toPropRef c area prop else new_memory_ref 0))))"
  using assms by (subst findProperty_loop.simps) (simp add: Let_def)

lemma findProperty_path:
  assumes ar: "area_ref c i d area"
  shows "length name < 2 ^ 32 \<Longrightarrow> trie_sorted t \<Longrightarrow> bt_at c i d children t \<Longrightarrow>
    node_at c i (ref_vaddr cur) nm0 p0 l0 r0 children \<Longrightarrow> ref_ok c cur \<Longrightarrow>
    \<exists>info. findProperty_loop c area name cur = Some (Inr info) \<and>
      ref_vaddr info = (if trie_get t (dot_split name) = 0 then 0 else d + trie_get t (dot_split name))"
proof (induction name arbitrary: t children cur nm0 p0 l0 r0 rule: dot_split.induct)
  case (1 name)
  let ?sub = "takeWhile (\<lambda>ch. ch \<noteq> CHR ''.'') name" and ?rest = "drop (Suc (length (takeWhile (\<lambda>ch. ch \<noteq> CHR ''.'') name))) name"
  have vs: "valid_seg c i" using ar by (simp add: area_ref_def)
  have len: "length ?sub < 2 ^ 32" using "1.prems"(1) length_takeWhile_le [of _ name] by (meson le_less_trans)
  note ch = node_members(5) [OF vs "1.prems"(4) refl "1.prems"(5)]
  note unfold = findProperty_loop.simps [of c area name cur]
  have parts: "dot_split name = ?sub # (if CHR ''.'' \<in> set name then dot_split ?rest else [])"
    by (subst dot_split.simps) (simp add: Let_def)
  have rest: "dot_split ?rest \<noteq> []" by (subst dot_split.simps) (simp add: Let_def)
  have lf: "level_find ?sub t = map_of (level_entries t) ?sub" by (rule level_find_map [OF "1.prems"(2)])
  show ?case
  proof (cases "?sub = []")
    case True
    then show ?thesis using unfold parts by (simp add: new_memory_ref_def)
  next
    case sub: False
    show ?thesis
    proof (cases "children = 0")
      case True
      then have "t = PTip" using "1.prems"(3) by (cases t) auto
      then show ?thesis using unfold parts sub ch True by (simp add: new_memory_ref_def)
    next
      case False
      obtain nd where nd: "findPropbt c area ?sub (toPropRef c area children) = Some (Inr nd)"
          "found_node c i d (map_of (level_entries t) ?sub) nd"
        using findPropbt_level [OF ar len "1.prems"(3) False] lf by auto
      obtain m p l ch' r where "t = PNode m p l ch' r" using "1.prems"(3) False by (cases t) auto
      then have root: "ref_vaddr (toPropRef c area children) \<noteq> 0"
        using "1.prems"(3) toPropRef_addr(1) [OF ar, of children] by (auto simp: node_at_def inside_def)
      note step = findProperty_step [OF refl sub ch False root nd(1)]
      show ?thesis
      proof (cases "map_of (level_entries t) ?sub")
        case None
        then show ?thesis using step nd(2) parts sub by (simp add: found_node_def new_memory_ref_def)
      next
        case (Some e)
        then obtain p ch2 where e: "map_of (level_entries t) ?sub = Some (p, ch2)" by (cases e) auto
        then obtain nm l0 r0 children2 where n2: "ref_ok c nd" "p \<noteq> 0 \<longrightarrow> d + p \<noteq> 0"
            "node_at c i (ref_vaddr nd) nm p l0 r0 children2" "bt_at c i d children2 ch2"
          using nd(2) by (auto simp: found_node_def)
        note mem = node_members [OF vs n2(3) refl n2(1)]
        have sorted: "trie_sorted ch2" using level_find_sorted [OF "1.prems"(2)] lf e by simp
        show ?thesis
        proof (cases "CHR ''.'' \<in> set name")
          case True
          have "length ?rest < 2 ^ 32" using "1.prems"(1) by simp
          then obtain info where "findProperty_loop c area ?rest nd = Some (Inr info)"
              "ref_vaddr info = (if trie_get ch2 (dot_split ?rest) = 0 then 0 else d + trie_get ch2 (dot_split ?rest))"
            using "1.IH" [OF refl True _ sorted n2(4,3,1)] by blast
          then show ?thesis using step mem(6) True parts sub e rest by simp
        next
          case False
          then show ?thesis
            using step mem(2,6) parts sub e toPropRef_addr(1) [OF ar, of p] by (simp add: new_memory_ref_def)
        qed
      qed
    qed
  qed
qed

text \<open>A property area: its header and its root node.\<close>

definition area_at :: "core \<Rightarrow> nat \<Rightarrow> memory_ref \<Rightarrow> prop_tree \<Rightarrow> bool" where
  "area_at c i area t \<longleftrightarrow> valid_seg c i \<and> ref_ok c area \<and> inside c i (ref_vaddr area) 16 \<and>
     target_word c (ref_vaddr area + 12) 4 = PROP_AREA_VERSION \<and> target_word c (ref_vaddr area + 8) 4 = PROP_AREA_MAGIC \<and>
     (\<exists>nm children. node_at c i (ref_vaddr area + 128) nm 0 0 0 children \<and> bt_at c i (ref_vaddr area + 128) children t)"

lemma area_valid_at:
  assumes "area_at c i area t"
  shows "area_valid c area = Inr (True, area\<lparr>ref_block := Some i\<rparr>)" "area_ref c i (ref_vaddr area + 128) (area\<lparr>ref_block := Some i\<rparr>)"
proof -
  have vs: "valid_seg c i" and ok: "ref_ok c area" and ins: "inside c i (ref_vaddr area) 16"
    using assms by (simp_all add: area_at_def)
  have ok': "ref_ok c (area\<lparr>ref_block := Some i\<rparr>)" by (rule ref_ok_inside [OF vs ins])
  have ins': "inside c i (ref_vaddr (area\<lparr>ref_block := Some i\<rparr>)) 16" using ins by simp
  show "area_valid c area = Inr (True, area\<lparr>ref_block := Some i\<rparr>)"
    using assms member32_inside [OF vs ok ins, of 12] member32_inside [OF vs ok' ins', of 8]
    by (simp add: area_valid_def PropArea_Init_def area_at_def)
  show "area_ref c i (ref_vaddr area + 128) (area\<lparr>ref_block := Some i\<rparr>)" using vs ok' by (simp add: area_ref_def)
qed

text \<open>C20: the property area implements nested maps. In an area whose nodes form a trie with
  ordered levels, looking up a dotted name ends and returns the property that the maps of the
  levels give for its parts, and no property when a part is empty or missing.\<close>

theorem PropArea_find_refines:
  assumes "area_at c i area t" and "trie_sorted t" and "length name < 2 ^ 32"
  shows "\<exists>info. PropArea_find c area name = Some (Inr info) \<and>
    ref_vaddr info = (if trie_get t (dot_split name) = 0 then 0 else ref_vaddr area + 128 + trie_get t (dot_split name))"
proof -
  let ?area = "area\<lparr>ref_block := Some i\<rparr>" and ?d = "ref_vaddr area + 128"
  note v = area_valid_at [OF assms(1)]
  obtain nm children where root: "node_at c i ?d nm 0 0 0 children" "bt_at c i ?d children t"
    using assms(1) by (auto simp: area_at_def)
  note rr = toPropRef_addr [OF v(2), of 0]
  have "ref_vaddr (rootNode c ?area) \<noteq> 0"
    using root(1) rr(1) by (simp add: rootNode_def node_at_def inside_def)
  then show ?thesis
    using findProperty_path [OF v(2) assms(3,2) root(2), of "rootNode c ?area" nm 0 0 0] root(1) rr v(1)
    by (simp add: PropArea_find_def findProperty_def rootNode_def)
qed

section \<open>Visiting every property\<close>

lemma foreach_tree:
  assumes ar: "area_ref c i d area"
  shows "bt_at c i d off t \<Longrightarrow> off \<noteq> 0 \<Longrightarrow>
    foreachProperty c area (toPropRef c area off) log = Some (Inr True, log @ map (toPropRef c area) (trie_props t))"
proof (induction t arbitrary: off log)
  case (PNode m p l ch r)
  have vs: "valid_seg c i" using ar by (simp add: area_ref_def)
  obtain left right children where nd: "node_at c i (d + off) m p left right children"
    and sub: "bt_at c i d left l" "bt_at c i d right r" "bt_at c i d children ch" and p: "p \<noteq> 0 \<longrightarrow> d + p \<noteq> 0"
    using PNode.prems by auto
  let ?r = "toPropRef c area off"
  let ?r' = "?r\<lparr>ref_block := Some i\<rparr>"
  note ra = toPropRef_addr [OF ar, of off]
  note mem = node_members [OF vs nd ra]
  have ra': "ref_vaddr ?r' = d + off" using ra by simp
  note mem' = node_members [OF vs nd ra' mem(7)]
  have walk: "(if o1 \<noteq> 0 then foreachProperty c area (toPropRef c area o1) lg else Some (Inr True, lg)) =
      Some (Inr True, lg @ map (toPropRef c area) (trie_props t1))"
    if "bt_at c i d o1 t1" "o1 \<noteq> 0 \<Longrightarrow> foreachProperty c area (toPropRef c area o1) lg =
      Some (Inr True, lg @ map (toPropRef c area) (trie_props t1))" for o1 t1 lg
    using that by (cases t1) auto
  note L = walk [OF sub(1) PNode.IH(1) [OF sub(1)]] and C = walk [OF sub(3) PNode.IH(2) [OF sub(3)]]
    and R = walk [OF sub(2) PNode.IH(3) [OF sub(2)]]
  have "ref_vaddr ?r \<noteq> 0" "p \<noteq> 0 \<Longrightarrow> ref_vaddr (toPropRef c area p) \<noteq> 0"
    using ra mem(6) p toPropRef_addr(1) [OF ar] by auto
  then show ?case
    using mem mem' L C R by (subst foreachProperty.simps) auto
qed simp

text \<open>C21: visiting an area lists every property once. On an area whose nodes form a trie, foreach ends
  and visits the properties of the trie in the order of its walk: the nodes to the left, the
  node, the level below, the nodes to the right.\<close>

theorem PropArea_foreach_lists:
  assumes "area_at c i area t"
  shows "PropArea_foreach c area =
    Some (Inr True, map (toPropRef c (area\<lparr>ref_block := Some i\<rparr>)) (trie_props t))"
proof -
  let ?area = "area\<lparr>ref_block := Some i\<rparr>" and ?d = "ref_vaddr area + 128"
  note v = area_valid_at [OF assms]
  have vs: "valid_seg c i" using assms by (simp add: area_at_def)
  obtain nm children where root: "node_at c i ?d nm 0 0 0 children" "bt_at c i ?d children t"
    using assms by (auto simp: area_at_def)
  have ra: "ref_vaddr (rootNode c ?area) = ?d" "ref_ok c (rootNode c ?area)"
    using toPropRef_addr [OF v(2), of 0] by (simp_all add: rootNode_def)
  note mem = node_members [OF vs root(1) ra]
  have ra': "ref_vaddr ((rootNode c ?area)\<lparr>ref_block := Some i\<rparr>) = ?d" using ra by simp
  note mem' = node_members [OF vs root(1) ra' mem(7)]
  have "(if children \<noteq> 0 then foreachProperty c ?area (toPropRef c ?area children) [] else Some (Inr True, [])) =
      Some (Inr True, map (toPropRef c ?area) (trie_props t))"
    using foreach_tree [OF v(2) root(2), of "[]"] root(2) by (cases t) auto
  then have "foreachProperty c ?area (rootNode c ?area) [] = Some (Inr True, map (toPropRef c ?area) (trie_props t))"
    using mem mem' ra by (subst foreachProperty.simps) auto
  then show ?thesis using v(1) by (simp add: PropArea_foreach_def)
qed

section \<open>A concrete area\<close>

text \<open>An area with the property \<open>ro.a\<close> at offset 68.\<close>

definition demo_area :: "u8 list" where
  "demo_area = replicate 8 0 @ [0x50, 0x52, 0x4f, 0x50, 0xab, 0xd0, 0x6e, 0xfc] @ replicate 112 0 @
     [0, 0, 0, 0,   0, 0, 0, 0,   0, 0, 0, 0,   0, 0, 0, 0,   20, 0, 0, 0] @
     [2, 0, 0, 0,   0, 0, 0, 0,   0, 0, 0, 0,   0, 0, 0, 0,   44, 0, 0, 0,   0x72, 0x6f, 0, 0] @
     [1, 0, 0, 0,   68, 0, 0, 0,   0, 0, 0, 0,   0, 0, 0, 0,   0, 0, 0, 0,   0x61, 0, 0, 0]"

definition demo_trie :: prop_tree where
  "demo_trie = PNode ''ro'' 0 PTip (PNode ''a'' 68 PTip PTip PTip) PTip"

lemma demo_area_at: "area_at (flat_core EM_AARCH64 0x1000 demo_area) 0 (new_memory_ref 0x1000) demo_trie"
proof -
  let ?c = "flat_core EM_AARCH64 0x1000 demo_area"
  have fits: "flat_fits 0x1000 demo_area" by (simp add: flat_fits_def demo_area_def)
  have len: "length demo_area = 196" by (simp add: demo_area_def)
  have w: "target_word ?c (0x1000 + of_nat k) 4 = le_word (take 4 (drop k demo_area))" if "k + 4 \<le> 196" for k
    using flat_word [OF fits, of k 4 EM_AARCH64] that len by simp
  have b: "core_byte ?c (0x1000 + of_nat k) = Some (demo_area ! k)" if "k < 196" for k
    using flat_byte [OF fits, of k EM_AARCH64] that len by simp
  have ins: "inside ?c 0 (0x1000 + of_nat k) n" if "0 < n" "k + n \<le> 196" for k n
    using flat_inside [OF fits, of n k EM_AARCH64] that len by simp
  have tail: "drop 128 demo_area =
    [0, 0, 0, 0,   0, 0, 0, 0,   0, 0, 0, 0,   0, 0, 0, 0,   20, 0, 0, 0,
     2, 0, 0, 0,   0, 0, 0, 0,   0, 0, 0, 0,   0, 0, 0, 0,   44, 0, 0, 0,   0x72, 0x6f, 0, 0,
     1, 0, 0, 0,   68, 0, 0, 0,   0, 0, 0, 0,   0, 0, 0, 0,   0, 0, 0, 0,   0x61, 0, 0, 0]"
    by (simp add: demo_area_def)
  have wt: "target_word ?c (0x1080 + of_nat k) 4 = le_word (take 4 (drop k (drop 128 demo_area)))" if "k + 4 \<le> 68" for k
    using w [of "128 + k"] that by (simp add: add.assoc add.commute)
  have bt: "core_byte ?c (0x1080 + of_nat k) = Some (drop 128 demo_area ! k)" if "k < 68" for k
    using b [of "128 + k"] that len by (simp add: add.assoc)
  have head: "target_word ?c 0x1008 4 = PROP_AREA_MAGIC" "target_word ?c 0x100C 4 = PROP_AREA_VERSION"
    using w [of 8] w [of 12] by (simp_all add: demo_area_def le_word_def PROP_AREA_MAGIC_def PROP_AREA_VERSION_def)
  have w128: "target_word ?c 0x1080 4 = 0" using wt [of 0] by (simp add: tail le_word_def)
  have w132: "target_word ?c 0x1084 4 = 0" using wt [of 4] by (simp add: tail le_word_def)
  have w136: "target_word ?c 0x1088 4 = 0" using wt [of 8] by (simp add: tail le_word_def)
  have w140: "target_word ?c 0x108c 4 = 0" using wt [of 12] by (simp add: tail le_word_def)
  have w144: "target_word ?c 0x1090 4 = 20" using wt [of 16] by (simp add: tail le_word_def)
  have w148: "target_word ?c 0x1094 4 = 2" using wt [of 20] by (simp add: tail le_word_def)
  have w152: "target_word ?c 0x1098 4 = 0" using wt [of 24] by (simp add: tail le_word_def)
  have w156: "target_word ?c 0x109c 4 = 0" using wt [of 28] by (simp add: tail le_word_def)
  have w160: "target_word ?c 0x10a0 4 = 0" using wt [of 32] by (simp add: tail le_word_def)
  have w164: "target_word ?c 0x10a4 4 = 44" using wt [of 36] by (simp add: tail le_word_def)
  have w172: "target_word ?c 0x10ac 4 = 1" using wt [of 44] by (simp add: tail le_word_def)
  have w176: "target_word ?c 0x10b0 4 = 68" using wt [of 48] by (simp add: tail le_word_def)
  have w180: "target_word ?c 0x10b4 4 = 0" using wt [of 52] by (simp add: tail le_word_def)
  have w184: "target_word ?c 0x10b8 4 = 0" using wt [of 56] by (simp add: tail le_word_def)
  have w188: "target_word ?c 0x10bc 4 = 0" using wt [of 60] by (simp add: tail le_word_def)
  have bytes: "core_byte ?c 0x10A8 = Some 0x72" "core_byte ?c 0x10A9 = Some 0x6f" "core_byte ?c 0x10C0 = Some 0x61"
    using bt [of 40] bt [of 41] bt [of 64] by (simp_all add: tail)
  have root: "node_at ?c 0 0x1080 [] 0 0 0 20"
    using ins [of 20 128] w128 w132 w136 w140 w144 by (simp add: node_at_def)
  have ro: "node_at ?c 0 0x1094 ''ro'' 0 0 0 44"
    using ins [of 22 148] w148 w152 w156 w160 w164 bytes by (simp add: node_at_def All_less_Suc)
  have a: "node_at ?c 0 0x10AC ''a'' 68 0 0 0"
    using ins [of 21 172] w172 w176 w180 w184 w188 bytes by (simp add: node_at_def)
  have "bt_at ?c 0 0x1080 20 demo_trie" using ro a by (simp add: demo_trie_def) (rule exI [of _ 44], simp)
  then show ?thesis
    using root head ins [of 16 0] flat_valid_seg [OF fits, of EM_AARCH64] by (auto simp: area_at_def new_memory_ref_def ref_ok_def)
qed

theorem PropArea_find_refines_witness:
  "\<exists>info. PropArea_find (flat_core EM_AARCH64 0x1000 demo_area) (new_memory_ref 0x1000) ''ro.a'' = Some (Inr info) \<and>
     ref_vaddr info = 0x10C4"
proof -
  have "dot_split ''ro.a'' = [''ro'', ''a'']" by (simp add: dot_split.simps Let_def)
  moreover have "trie_sorted demo_trie" "trie_get demo_trie [''ro'', ''a''] = 68" by (simp_all add: demo_trie_def)
  ultimately show ?thesis
    using PropArea_find_refines [OF demo_area_at, of "''ro.a''"] by (simp add: new_memory_ref_def)
qed

theorem PropArea_foreach_lists_witness:
  "\<exists>info. PropArea_foreach (flat_core EM_AARCH64 0x1000 demo_area) (new_memory_ref 0x1000) = Some (Inr True, [info])"
  using PropArea_foreach_lists [OF demo_area_at] by (simp add: demo_trie_def)

end
