(* ===== verification/BitRegion.thy ===== *)
theory BitRegion
  imports Segments
begin

unbundle bit_operations_syntax

text \<open>
  Bit-packed data of the Android runtime as the kit reads it from target memory
  (android/art/base): LEB128 numbers, regions of bytes and of bits, the reader that consumes a
  bit region from its start, bit tables and bit vectors.

  A region keeps a \<open>api::MemoryRef\<close>. The accessors here return the value only and keep the
  reference as it was: the segment that a C++ reference caches does not change what later
  accesses return (the property on \<open>ref_cache_transparent\<close> in theory RefProps).
\<close>

section \<open>Constants (base/globals.h, bit_memory_region.h)\<close>

definition kBitsPerByte :: "'a::len word" where "kBitsPerByte = 8"
definition kBitsPerByteLog2 :: nat where "kBitsPerByteLog2 = 3"
definition kStackAlignment :: u32 where "kStackAlignment = 16"
definition art_kPageSize :: u64 where "art_kPageSize = 0x1000"
definition kVarintBits :: u32 where "kVarintBits = 4"
definition kVarintMax :: u32 where "kVarintMax = 11"

text \<open>\<open>CoreApi::Bits\<close> and \<open>CoreApi::GetPointSize\<close>.\<close>

definition core_bits :: "core \<Rightarrow> u64" where "core_bits c = of_nat (bits (core_machine c))"
definition point_size :: "core \<Rightarrow> u64" where "point_size c = of_nat (getPointSize (core_machine c))"

section \<open>Reading without the cache\<close>

definition ref_value8 :: "core \<Rightarrow> u64 \<Rightarrow> memory_ref \<Rightarrow> u32 res" where
  "ref_value8 c off r = res_bind (valueNOf 1 off c r) (\<lambda>(v, _). Inr (ucast v))"

definition ref_value32 :: "core \<Rightarrow> u64 \<Rightarrow> memory_ref \<Rightarrow> u32 res" where
  "ref_value32 c off r = res_bind (valueNOf 4 off c r) (\<lambda>(v, _). Inr (ucast v))"

definition ref_value64 :: "core \<Rightarrow> u64 \<Rightarrow> memory_ref \<Rightarrow> u64 res" where
  "ref_value64 c off r = res_bind (valueNOf 8 off c r) (\<lambda>(v, _). Inr v)"

definition ref_value :: "core \<Rightarrow> u64 \<Rightarrow> memory_ref \<Rightarrow> u64 res" where
  "ref_value c off r = res_bind (valueOf off c r) (\<lambda>(v, _). Inr v)"

text \<open>\<open>v[i]\<close> of a \<open>std::vector\<close>: an index past the end reads memory that is not the vector's.\<close>

definition vec_at :: "'a list \<Rightarrow> nat \<Rightarrow> 'a res" where
  "vec_at xs i = (if i < length xs then Inr (xs ! i) else Inl (HostFault 0))"

definition vec_resize :: "nat \<Rightarrow> 'a \<Rightarrow> 'a list \<Rightarrow> 'a list" where
  "vec_resize n x xs = take n xs @ replicate (n - length xs) x"

section \<open>LEB128 (base/leb128.h)\<close>

text \<open>
  The \<open>int\<close> variables of the code hold the same 32 bits as the words here; the shift of the fifth
  byte moves its upper four bits out of the word.
\<close>

definition leb_byte :: "host \<Rightarrow> u64 \<Rightarrow> u32 res" where
  "leb_byte h p = (case h p of None \<Rightarrow> Inl (HostFault p) | Some b \<Rightarrow> Inr (ucast b))"

definition DecodeUnsignedLeb128 :: "host \<Rightarrow> u64 \<Rightarrow> (u32 \<times> u64) res" where
  "DecodeUnsignedLeb128 h ptr =
     res_bind (leb_byte h ptr) (\<lambda>r0.
     if r0 > 0x7f then
       res_bind (leb_byte h (ptr + 1)) (\<lambda>c1.
       let r1 = (r0 AND 0x7f) OR push_bit 7 (c1 AND 0x7f) in
       if c1 > 0x7f then
         res_bind (leb_byte h (ptr + 2)) (\<lambda>c2.
         let r2 = r1 OR push_bit 14 (c2 AND 0x7f) in
         if c2 > 0x7f then
           res_bind (leb_byte h (ptr + 3)) (\<lambda>c3.
           let r3 = r2 OR push_bit 21 (c3 AND 0x7f) in
           if c3 > 0x7f then
             res_bind (leb_byte h (ptr + 4)) (\<lambda>c4. Inr (r3 OR push_bit 28 c4, ptr + 5))
           else Inr (r3, ptr + 4))
         else Inr (r2, ptr + 3))
       else Inr (r1, ptr + 2))
     else Inr (r0, ptr + 1))"

section \<open>Bit operations (base/bit_utils.h)\<close>

definition POPCOUNT :: "'a::len word \<Rightarrow> nat" where
  "POPCOUNT x = length (filter (bit x) [0..<LENGTH('a)])"

definition MaskLeastSignificant :: "nat \<Rightarrow> 'a::len word" where
  "MaskLeastSignificant n = (if n \<ge> LENGTH('a) then NOT 0 else push_bit n 1 - 1)"

text \<open>The instance for unsigned types, the only one the code uses.\<close>

definition BitFieldExtract :: "'a::len word \<Rightarrow> nat \<Rightarrow> nat \<Rightarrow> 'a word" where
  "BitFieldExtract val lsb width = drop_bit lsb val AND MaskLeastSignificant width"

section \<open>Byte regions (base/memory_region.h)\<close>

record memory_region =
  mr_pointer :: u64
  mr_size :: u64

definition new_MemoryRegion :: "u64 \<Rightarrow> u64 \<Rightarrow> memory_region" where
  "new_MemoryRegion p n = \<lparr>mr_pointer = p, mr_size = n\<rparr>"

definition mr_size_in_bits :: "memory_region \<Rightarrow> u64" where
  "mr_size_in_bits r = mr_size r * kBitsPerByte"

definition mr_Subregion :: "u64 \<Rightarrow> u64 \<Rightarrow> memory_region \<Rightarrow> memory_region" where
  "mr_Subregion off n r = new_MemoryRegion (mr_pointer r + off) n"

text \<open>The loop of \<open>LoadUnaligned8\<close>, \<open>LoadUnaligned16\<close> and \<open>LoadUnaligned32\<close> from byte \<open>i\<close> on: each
  byte is an \<open>uint32_t\<close> that is shifted and added to a sum of the width of the result.\<close>

fun unaligned_loop :: "core \<Rightarrow> memory_ref \<Rightarrow> u64 \<Rightarrow> nat \<Rightarrow> nat \<Rightarrow> 'a::len word \<Rightarrow> 'a word res" where
  "unaligned_loop c r off i 0 acc = Inr acc"
| "unaligned_loop c r off i (Suc n) acc =
     res_bind (ref_value8 c (off + of_nat i) r) (\<lambda>b.
       unaligned_loop c r off (Suc i) n (acc + ucast (push_bit (8 * i) b)))"

definition LoadUnaligned8 :: "core \<Rightarrow> u64 \<Rightarrow> memory_region \<Rightarrow> u8 res" where
  "LoadUnaligned8 c off r = unaligned_loop c (new_memory_ref (mr_pointer r)) off 0 1 0"

definition LoadUnaligned16 :: "core \<Rightarrow> u64 \<Rightarrow> memory_region \<Rightarrow> u16 res" where
  "LoadUnaligned16 c off r = unaligned_loop c (new_memory_ref (mr_pointer r)) off 0 2 0"

definition LoadUnaligned32 :: "core \<Rightarrow> u64 \<Rightarrow> memory_region \<Rightarrow> u32 res" where
  "LoadUnaligned32 c off r = unaligned_loop c (new_memory_ref (mr_pointer r)) off 0 4 0"

definition ComputeBitPointer :: "u64 \<Rightarrow> memory_region \<Rightarrow> u64 \<times> u8" where
  "ComputeBitPointer bit_offset r =
     (let bit_remainder = bit_offset AND (kBitsPerByte - 1)
      in (mr_pointer r + drop_bit kBitsPerByteLog2 bit_offset, push_bit (unat bit_remainder) 1))"

definition mr_LoadBit :: "core \<Rightarrow> u64 \<Rightarrow> memory_region \<Rightarrow> bool res" where
  "mr_LoadBit c bit_offset r =
     (let (byte, bit_mask) = ComputeBitPointer bit_offset r
      in res_bind (ref_value8 c 0 (new_memory_ref byte)) (\<lambda>b. Inr (b AND ucast bit_mask \<noteq> 0)))"

section \<open>Bit regions (base/bit_memory_region.h, bit_memory_region.cpp)\<close>

record bit_region =
  br_data :: memory_ref
  bit_start :: u64
  bit_size :: u64

text \<open>The constructor from an address, a signed bit offset and a size.\<close>

definition new_BitMemoryRegion :: "u64 \<Rightarrow> u64 \<Rightarrow> u64 \<Rightarrow> bit_region" where
  "new_BitMemoryRegion data bstart bsize =
     (let d = RoundDown (data + signed_drop_bit kBitsPerByteLog2 bstart) art_kPageSize
      in \<lparr>br_data = new_memory_ref d, bit_start = bstart + kBitsPerByte * (data - d), bit_size = bsize\<rparr>)"

definition br_address :: "bit_region \<Rightarrow> u64" where
  "br_address r = ref_vaddr (br_data r) + bit_start r div kBitsPerByte"

definition Resize :: "u64 \<Rightarrow> bit_region \<Rightarrow> bit_region" where
  "Resize n r = r\<lparr>bit_size := n\<rparr>"

definition br_Subregion :: "u64 \<Rightarrow> u64 \<Rightarrow> bit_region \<Rightarrow> bit_region" where
  "br_Subregion off len r = r\<lparr>bit_start := bit_start r + off, bit_size := len\<rparr>"

definition br_Subregion_from :: "u64 \<Rightarrow> bit_region \<Rightarrow> bit_region" where
  "br_Subregion_from off r = r\<lparr>bit_start := bit_start r + off, bit_size := bit_size r - off\<rparr>"

definition region_bits :: "memory_region \<Rightarrow> bit_region" where
  "region_bits r = new_BitMemoryRegion (mr_pointer r) 0 (mr_size_in_bits r)"

definition region_bits_at :: "memory_region \<Rightarrow> u64 \<Rightarrow> u64 \<Rightarrow> bit_region" where
  "region_bits_at r off len = br_Subregion off len (region_bits r)"

definition LoadBit :: "core \<Rightarrow> u64 \<Rightarrow> bit_region \<Rightarrow> bool res" where
  "LoadBit c bit_offset r =
     (let index = (bit_start r + bit_offset) div kBitsPerByte;
          shift = (bit_start r + bit_offset) mod kBitsPerByte
      in res_bind (ref_value8 c index (br_data r)) (\<lambda>b. Inr (drop_bit (unat shift) b AND 1 \<noteq> 0)))"

text \<open>The body shared by \<open>LoadBits\<close> and \<open>LoadBits64\<close>: \<open>load\<close> is the word access, \<open>psize\<close> and \<open>width\<close> the
  size of a word in bytes and bits.\<close>

definition load_bits :: "(u64 \<Rightarrow> memory_ref \<Rightarrow> u64 res) \<Rightarrow> u64 \<Rightarrow> u64 \<Rightarrow> u64 \<Rightarrow> u64 \<Rightarrow> bit_region \<Rightarrow> u64 res" where
  "load_bits load psize width bit_offset bit_length r =
     (if bit_length = 0 then Inr 0
      else
        (let index = (bit_start r + bit_offset) div width;
             shift = (bit_start r + bit_offset) mod width
         in res_bind (load (index * psize) (br_data r)) (\<lambda>v.
            res_bind (load ((index + (shift + (bit_length - 1)) div width) * psize) (br_data r)) (\<lambda>extra.
            let value = drop_bit (unat shift) v;
                clear = push_bit (unat (bit_length - 1)) (push_bit 1 (NOT 0))
            in Inr ((value OR push_bit (unat ((width - shift) AND (width - 1))) extra) AND NOT clear)))))"

definition LoadBits :: "core \<Rightarrow> u64 \<Rightarrow> u64 \<Rightarrow> bit_region \<Rightarrow> u64 res" where
  "LoadBits c = load_bits (ref_value c) (point_size c) (core_bits c)"

definition LoadBits64 :: "core \<Rightarrow> u64 \<Rightarrow> u64 \<Rightarrow> bit_region \<Rightarrow> u64 res" where
  "LoadBits64 c = load_bits (ref_value64 c) 8 64"

text \<open>\<open>VisitChunks\<close> with the visitor of \<open>PopCount\<close>, which never stops the walk: the values of the
  chunks. \<open>chunk_loop\<close> is the loop over whole words followed by the last, partial one.\<close>

definition low_bits :: "u64 \<Rightarrow> u64 \<Rightarrow> u64" where
  "low_bits n v = v AND NOT (push_bit (unat n) (NOT 0))"

function chunk_loop :: "core \<Rightarrow> memory_ref \<Rightarrow> u64 \<Rightarrow> u64 list res" where
  "chunk_loop c data remaining_bits =
     (if core_bits c \<le> remaining_bits then
        res_bind (ref_value c 0 data) (\<lambda>value.
        res_bind (MovePtr (point_size c) c data) (\<lambda>data'.
        res_bind (chunk_loop c data' (remaining_bits - core_bits c)) (\<lambda>vs. Inr (value # vs))))
      else if remaining_bits \<noteq> 0 then
        res_bind (ref_value c 0 data) (\<lambda>value. Inr [low_bits remaining_bits value])
      else Inr [])"
  by pat_completeness auto
termination
proof (relation "measure (\<lambda>(c, d, n). unat n)")
  fix c :: core and data x2 :: memory_ref and n x1 :: u64
  assume le: "core_bits c \<le> n"
  have pos: "0 < unat (core_bits c)" by (cases "core_machine c") (simp_all add: core_bits_def)
  then have "unat (n - core_bits c) < unat n" using le by (simp add: unat_diff_le word_le_nat_alt)
  then show "((c, x2, n - core_bits c), (c, data, n)) \<in> measure (\<lambda>(c, d, n). unat n)" by simp
qed simp

declare chunk_loop.simps [simp del]

definition VisitChunks :: "core \<Rightarrow> bit_region \<Rightarrow> u64 list res" where
  "VisitChunks c r =
     (if bit_size r = 0 then Inr []
      else
        (let kChunkSize = core_bits c; start = bit_start r mod kChunkSize
         in res_bind (MovePtr (bit_start r div kChunkSize * point_size c) c (br_data r)) (\<lambda>data.
            if start \<noteq> 0 then
              (let leading_bits = kChunkSize - start
               in res_bind (ref_value c 0 data) (\<lambda>v.
                  let value = drop_bit (unat start) v;
                      short = leading_bits > bit_size r;
                      leading = (if short then bit_size r else leading_bits);
                      value' = (if short then low_bits (bit_size r) value else value)
                  in res_bind (MovePtr (point_size c) c data) (\<lambda>data'.
                     res_bind (chunk_loop c data' (bit_size r - leading)) (\<lambda>vs. Inr (value' # vs)))))
            else chunk_loop c data (bit_size r))))"

definition PopCount :: "core \<Rightarrow> bit_region \<Rightarrow> u64 res" where
  "PopCount c r = res_bind (VisitChunks c r) (\<lambda>vs. Inr (sum_list (map (\<lambda>v. of_nat (POPCOUNT v)) vs)))"

definition PopCount_range :: "core \<Rightarrow> u64 \<Rightarrow> u64 \<Rightarrow> bit_region \<Rightarrow> u64 res" where
  "PopCount_range c off len r = PopCount c (br_Subregion off len r)"

section \<open>The bit reader\<close>

text \<open>A \<open>BitMemoryReader\<close> is the region it has read so far, \<open>finished_region_\<close>.\<close>

type_synonym bit_reader = bit_region

definition new_BitMemoryReader :: "u64 \<Rightarrow> u64 \<Rightarrow> bit_reader" where
  "new_BitMemoryReader data bit_offset = new_BitMemoryRegion data bit_offset 0"

definition reader_of_region :: "bit_region \<Rightarrow> bit_reader" where
  "reader_of_region r = br_Subregion 0 0 r"

definition NumberOfReadBits :: "bit_reader \<Rightarrow> u64" where
  "NumberOfReadBits rd = bit_size rd"

definition ReadRegion :: "u64 \<Rightarrow> bit_reader \<Rightarrow> bit_region \<times> bit_reader" where
  "ReadRegion bit_length rd =
     (let bit_offset = bit_size rd; rd' = Resize (bit_offset + bit_length) rd
      in (br_Subregion bit_offset bit_length rd', rd'))"

definition ReadBit :: "core \<Rightarrow> bit_reader \<Rightarrow> (bool \<times> bit_reader) res" where
  "ReadBit c rd =
     (let (region, rd') = ReadRegion 1 rd in res_bind (LoadBit c 0 region) (\<lambda>b. Inr (b, rd')))"

definition ReadBits :: "core \<Rightarrow> u64 \<Rightarrow> bit_reader \<Rightarrow> (u64 \<times> bit_reader) res" where
  "ReadBits c n rd =
     (let (region, rd') = ReadRegion n rd in res_bind (LoadBits c 0 n region) (\<lambda>v. Inr (v, rd')))"

definition ReadBits64 :: "core \<Rightarrow> u64 \<Rightarrow> bit_reader \<Rightarrow> (u64 \<times> bit_reader) res" where
  "ReadBits64 c n rd =
     (let (region, rd') = ReadRegion n rd in res_bind (LoadBits64 c 0 n region) (\<lambda>v. Inr (v, rd')))"

text \<open>The second step of a varint: a header above 11 gives the number of bytes that follow.\<close>

definition varint_tail :: "core \<Rightarrow> u32 \<Rightarrow> bit_reader \<Rightarrow> (u32 \<times> bit_reader) res" where
  "varint_tail c x rd =
     (if x > kVarintMax
      then res_bind (ReadBits c (ucast ((x - kVarintMax) * kBitsPerByte)) rd) (\<lambda>(v, rd'). Inr (ucast v, rd'))
      else Inr (x, rd))"

definition ReadVarint :: "core \<Rightarrow> bit_reader \<Rightarrow> (u32 \<times> bit_reader) res" where
  "ReadVarint c rd =
     res_bind (ReadBits c (ucast kVarintBits) rd) (\<lambda>(x, rd'). varint_tail c (ucast x) rd')"

fun varint_tails :: "core \<Rightarrow> u32 list \<Rightarrow> bit_reader \<Rightarrow> (u32 list \<times> bit_reader) res" where
  "varint_tails c [] rd = Inr ([], rd)"
| "varint_tails c (x # xs) rd =
     res_bind (varint_tail c x rd) (\<lambda>(v, rd').
     res_bind (varint_tails c xs rd') (\<lambda>(vs, rd''). Inr (v # vs, rd'')))"

definition ReadInterleavedVarints :: "core \<Rightarrow> nat \<Rightarrow> bit_reader \<Rightarrow> (u32 list \<times> bit_reader) res" where
  "ReadInterleavedVarints c num rd =
     res_bind (ReadBits64 c (ucast (of_nat num * kVarintBits)) rd) (\<lambda>(data, rd').
       varint_tails c
         (map (\<lambda>i. ucast (BitFieldExtract data (unat (of_nat i * kVarintBits)) (unat kVarintBits))) [0..<num]) rd')"

section \<open>Bit tables (base/bit_table.h, bit_table.cpp)\<close>

text \<open>The number of columns is a static member of each table class that depends on the version of
  the runtime; it is an argument here.\<close>

record bit_table =
  table_data :: bit_region
  num_rows :: u32
  column_offset :: "u16 list"

definition kNoValue :: u32 where "kNoValue = -1"
definition kValueBias :: u32 where "kValueBias = kNoValue"

text \<open>The members of the default region without an initial value are 0 here; they are read only
  once the table has rows.\<close>

definition new_BitTable :: bit_table where
  "new_BitTable = \<lparr>table_data = \<lparr>br_data = new_memory_ref 0, bit_start = 0, bit_size = 0\<rparr>,
     num_rows = 0, column_offset = []\<rparr>"

definition NumRowBits :: "nat \<Rightarrow> bit_table \<Rightarrow> u32 res" where
  "NumRowBits ncols t = res_bind (vec_at (column_offset t) ncols) (\<lambda>w. Inr (ucast w))"

definition NumColumnBits :: "nat \<Rightarrow> bit_table \<Rightarrow> u32 res" where
  "NumColumnBits column t =
     res_bind (vec_at (column_offset t) (column + 1)) (\<lambda>e.
     res_bind (vec_at (column_offset t) column) (\<lambda>s. Inr (ucast e - ucast s)))"

definition cell_offset :: "nat \<Rightarrow> u32 \<Rightarrow> nat \<Rightarrow> bit_table \<Rightarrow> u64 res" where
  "cell_offset ncols row column t =
     res_bind (NumRowBits ncols t) (\<lambda>rb.
     res_bind (vec_at (column_offset t) column) (\<lambda>s. Inr (ucast (row * rb + ucast s))))"

definition Table_Get :: "core \<Rightarrow> nat \<Rightarrow> u32 \<Rightarrow> nat \<Rightarrow> bit_table \<Rightarrow> u32 res" where
  "Table_Get c ncols row column t =
     res_bind (cell_offset ncols row column t) (\<lambda>offset.
     res_bind (NumColumnBits column t) (\<lambda>n.
     res_bind (LoadBits c offset (ucast n) (table_data t)) (\<lambda>v. Inr (ucast (v + ucast kValueBias)))))"

definition GetBitMemoryRegion :: "nat \<Rightarrow> u32 \<Rightarrow> nat \<Rightarrow> bit_table \<Rightarrow> bit_region res" where
  "GetBitMemoryRegion ncols row column t =
     res_bind (cell_offset ncols row column t) (\<lambda>offset.
     res_bind (NumColumnBits column t) (\<lambda>n. Inr (br_Subregion offset (ucast n) (table_data t))))"

definition Table_IsValid :: "bit_table \<Rightarrow> bool" where
  "Table_IsValid t \<longleftrightarrow> num_rows t > 0"

text \<open>The column offsets are running sums kept in 16 bits.\<close>

fun column_ends :: "u16 \<Rightarrow> u32 list \<Rightarrow> u16 list" where
  "column_ends e [] = []"
| "column_ends e (h # hs) = (let e' = ucast (ucast e + h) in e' # column_ends e' hs)"

fun read_varints :: "core \<Rightarrow> nat \<Rightarrow> bit_reader \<Rightarrow> (u32 list \<times> bit_reader) res" where
  "read_varints c 0 rd = Inr ([], rd)"
| "read_varints c (Suc n) rd =
     res_bind (ReadVarint c rd) (\<lambda>(v, rd').
     res_bind (read_varints c n rd') (\<lambda>(vs, rd''). Inr (v # vs, rd'')))"

definition take_table_data :: "nat \<Rightarrow> bit_table \<Rightarrow> bit_reader \<Rightarrow> (bit_table \<times> bit_reader) res" where
  "take_table_data ncols t rd =
     res_bind (NumRowBits ncols t) (\<lambda>rb.
       let (region, rd') = ReadRegion (ucast (num_rows t * rb)) rd
       in Inr (t\<lparr>table_data := region\<rparr>, rd'))"

definition DecodeOnly :: "int \<Rightarrow> core \<Rightarrow> nat \<Rightarrow> bit_table \<Rightarrow> bit_reader \<Rightarrow> (u32 list \<times> bit_table \<times> bit_reader) res" where
  "DecodeOnly oat c ncols t rd =
     (if oat \<ge> 173 then
        res_bind (ReadInterleavedVarints c (ncols + 1) rd) (\<lambda>(header, rd1).
        res_bind (take_table_data ncols
          (t\<lparr>num_rows := hd header, column_offset := 0 # column_ends 0 (tl header)\<rparr>) rd1) (\<lambda>(t', rd2).
        Inr (header, t', rd2)))
      else if oat \<ge> 159 then
        res_bind (ReadVarint c rd) (\<lambda>(rows, rd1).
        res_bind (if rows \<noteq> 0 then read_varints c ncols rd1 else Inr ([], rd1)) (\<lambda>(cols, rd2).
        let offs = (if rows \<noteq> 0 then 0 # column_ends 0 cols else vec_resize (ncols + 1) 0 (column_offset t))
        in res_bind (take_table_data ncols (t\<lparr>num_rows := rows, column_offset := offs\<rparr>) rd2) (\<lambda>(t', rd3).
        Inr (rows # cols, t', rd3))))
      else Inr ([], t, rd))"

section \<open>Bit vectors (base/bit_vector.h)\<close>

definition WordIndex :: "u32 \<Rightarrow> u32" where "WordIndex idx = drop_bit 5 idx"
definition BitMask :: "u32 \<Rightarrow> u32" where "BitMask idx = push_bit (unat (idx AND 0x1f)) 1"

definition IsBitSet :: "core \<Rightarrow> memory_ref \<Rightarrow> u32 \<Rightarrow> bool res" where
  "IsBitSet c storage idx =
     res_bind (ref_value32 c (ucast (WordIndex idx) * 4) storage) (\<lambda>w. Inr (w AND BitMask idx \<noteq> 0))"

fun set_bits_loop :: "core \<Rightarrow> memory_ref \<Rightarrow> nat \<Rightarrow> nat \<Rightarrow> u32 \<Rightarrow> u32 res" where
  "set_bits_loop c storage word 0 count = Inr count"
| "set_bits_loop c storage word (Suc n) count =
     res_bind (ref_value32 c (of_nat word * 4) storage) (\<lambda>w.
       set_bits_loop c storage (Suc word) n (count + of_nat (POPCOUNT w)))"

definition NumSetBits :: "core \<Rightarrow> memory_ref \<Rightarrow> u32 \<Rightarrow> u32 res" where
  "NumSetBits c storage e =
     (let word_end = WordIndex e; partial_word_bits = e AND 0x1f
      in res_bind (set_bits_loop c storage 0 (unat word_end) 0) (\<lambda>count.
         if partial_word_bits \<noteq> 0 then
           res_bind (ref_value32 c (ucast word_end * 4) storage) (\<lambda>w.
             Inr (count + of_nat (POPCOUNT (w AND NOT (push_bit (unat partial_word_bits) 0xffffffff)))))
         else Inr count))"

definition BitsToWords :: "u32 \<Rightarrow> u32" where
  "BitsToWords n = RoundUp n 32 div 32"

end
