(* ===== verification/StackMaps.thy ===== *)
theory StackMaps
  imports BitRegion
begin

unbundle bit_operations_syntax

text \<open>
  The stack maps of compiled Android code (android/art/runtime/oat/stack_map.h, stack_map.cpp): the
  class statics and the listeners that set them per version of the runtime, the bit tables of a
  \<open>CodeInfo\<close>, the decoding of the five layouts, and the queries from native to Dex program
  counters and from registers to their locations.

  \<open>OatHeader::OatVersion()\<close> is the argument \<open>oat\<close>; the statics are the argument \<open>st\<close>. The
  \<open>Dump\<close> methods print and are left out, and so are the members for versions before 79 that only
  code under \<open>#if 0\<close> calls.
\<close>

section \<open>Class statics and their listeners\<close>

record oat_statics =
  kNumHeaders :: nat
  kNumBitTables :: nat
  kNumStackMaps :: nat
  StackMap_kColNumKind :: nat
  kColNumPackedNativePc :: nat
  StackMap_kColNumDexPc :: nat
  kColNumRegisterMaskIndex :: nat
  kColNumStackMaskIndex :: nat
  kColNumInlineInfoIndex :: nat
  kColNumDexRegisterMaskIndex :: nat
  kColNumDexRegisterMapIndex :: nat
  kNumRegisterMasks :: nat
  kColNumValue :: nat
  kColNumShift :: nat
  kNumStackMasks :: nat
  StackMask_kColNumMask :: nat
  kNumInlineInfos :: nat
  kColNumIsLast :: nat
  InlineInfo_kColNumDexPc :: nat
  kColNumMethodInfoIndex :: nat
  kColNumArtMethodHi :: nat
  kColNumArtMethodLo :: nat
  kColNumNumberOfDexRegisters :: nat
  kNumMethodInfos :: nat
  kColNumMethodIndex :: nat
  kColNumDexFileIndexKind :: nat
  kColNumDexFileIndex :: nat
  kNumDexRegisterMasks :: nat
  DexRegisterMask_kColNumMask :: nat
  kNumDexRegisterMaps :: nat
  kColNumCatalogueIndex :: nat
  kNumDexRegisterInfos :: nat
  DexRegisterInfo_kColNumKind :: nat
  kColNumPackedValue :: nat

definition static_init :: oat_statics where
  "static_init = \<lparr>kNumHeaders = 0, kNumBitTables = 8, kNumStackMaps = 6, StackMap_kColNumKind = 0,
      kColNumPackedNativePc = 1, StackMap_kColNumDexPc = 2, kColNumRegisterMaskIndex = 3,
      kColNumStackMaskIndex = 4, kColNumInlineInfoIndex = 5, kColNumDexRegisterMaskIndex = 6,
      kColNumDexRegisterMapIndex = 7, kNumRegisterMasks = 2, kColNumValue = 0, kColNumShift = 1,
      kNumStackMasks = 1, StackMask_kColNumMask = 0, kNumInlineInfos = 6, kColNumIsLast = 0,
      InlineInfo_kColNumDexPc = 1, kColNumMethodInfoIndex = 2, kColNumArtMethodHi = 3, kColNumArtMethodLo = 4,
      kColNumNumberOfDexRegisters = 5, kNumMethodInfos = 1, kColNumMethodIndex = 0,
      kColNumDexFileIndexKind = 1, kColNumDexFileIndex = 2, kNumDexRegisterMasks = 1,
      DexRegisterMask_kColNumMask = 0, kNumDexRegisterMaps = 1, kColNumCatalogueIndex = 0,
      kNumDexRegisterInfos = 2, DexRegisterInfo_kColNumKind = 0, kColNumPackedValue = 1\<rparr>"

definition CodeInfo_OatInit64 :: "oat_statics \<Rightarrow> oat_statics" where
  "CodeInfo_OatInit64 st = st\<lparr>kNumHeaders := 2, kNumBitTables := 8\<rparr>"

definition CodeInfo_OatInit79 :: "oat_statics \<Rightarrow> oat_statics" where
  "CodeInfo_OatInit79 st = st\<lparr>kNumHeaders := 2, kNumBitTables := 8\<rparr>"

definition CodeInfo_OatInit124 :: "oat_statics \<Rightarrow> oat_statics" where
  "CodeInfo_OatInit124 st = st\<lparr>kNumHeaders := 2, kNumBitTables := 8\<rparr>"

definition CodeInfo_OatInit150 :: "oat_statics \<Rightarrow> oat_statics" where
  "CodeInfo_OatInit150 st = st\<lparr>kNumBitTables := 8, kNumHeaders := 4\<rparr>"

definition CodeInfo_OatInit171 :: "oat_statics \<Rightarrow> oat_statics" where
  "CodeInfo_OatInit171 st = st\<lparr>kNumHeaders := 5\<rparr>"

definition CodeInfo_OatInit172 :: "oat_statics \<Rightarrow> oat_statics" where
  "CodeInfo_OatInit172 st = st\<lparr>kNumHeaders := 6\<rparr>"

definition CodeInfo_OatInit191 :: "oat_statics \<Rightarrow> oat_statics" where
  "CodeInfo_OatInit191 st = st\<lparr>kNumHeaders := 7\<rparr>"

definition StackMap_OatInit150 :: "oat_statics \<Rightarrow> oat_statics" where
  "StackMap_OatInit150 st = st\<lparr>kNumStackMaps := 6\<rparr>"

definition StackMap_OatInit170 :: "oat_statics \<Rightarrow> oat_statics" where
  "StackMap_OatInit170 st = st\<lparr>kNumStackMaps := 8, StackMap_kColNumKind := 0,
      kColNumPackedNativePc := 1, StackMap_kColNumDexPc := 2, kColNumRegisterMaskIndex := 3,
      kColNumStackMaskIndex := 4, kColNumInlineInfoIndex := 5, kColNumDexRegisterMaskIndex := 6,
      kColNumDexRegisterMapIndex := 7\<rparr>"

definition RegisterMask_OatInit150 :: "oat_statics \<Rightarrow> oat_statics" where
  "RegisterMask_OatInit150 st = st\<lparr>kNumRegisterMasks := 2\<rparr>"

definition RegisterMask_OatInit170 :: "oat_statics \<Rightarrow> oat_statics" where
  "RegisterMask_OatInit170 st = st\<lparr>kNumRegisterMasks := 2, kColNumValue := 0,
      kColNumShift := 1\<rparr>"

definition StackMask_OatInit150 :: "oat_statics \<Rightarrow> oat_statics" where
  "StackMask_OatInit150 st = st\<lparr>kNumStackMasks := 1\<rparr>"

definition StackMask_OatInit170 :: "oat_statics \<Rightarrow> oat_statics" where
  "StackMask_OatInit170 st = st\<lparr>kNumStackMasks := 1, StackMask_kColNumMask := 0\<rparr>"

definition InlineInfo_OatInit150 :: "oat_statics \<Rightarrow> oat_statics" where
  "InlineInfo_OatInit150 st = st\<lparr>kNumInlineInfos := 6\<rparr>"

definition InlineInfo_OatInit170 :: "oat_statics \<Rightarrow> oat_statics" where
  "InlineInfo_OatInit170 st = st\<lparr>kNumInlineInfos := 6, kColNumIsLast := 0, InlineInfo_kColNumDexPc := 1,
      kColNumMethodInfoIndex := 2, kColNumArtMethodHi := 3, kColNumArtMethodLo := 4,
      kColNumNumberOfDexRegisters := 5\<rparr>"

definition MethodInfo_OatInit150 :: "oat_statics \<Rightarrow> oat_statics" where
  "MethodInfo_OatInit150 st = st\<lparr>kNumMethodInfos := 1\<rparr>"

definition MethodInfo_OatInit170 :: "oat_statics \<Rightarrow> oat_statics" where
  "MethodInfo_OatInit170 st = st\<lparr>kNumMethodInfos := 1, kColNumMethodIndex := 0\<rparr>"

definition MethodInfo_OatInit225 :: "oat_statics \<Rightarrow> oat_statics" where
  "MethodInfo_OatInit225 st = st\<lparr>kNumMethodInfos := 3, kColNumMethodIndex := 0,
      kColNumDexFileIndexKind := 1, kColNumDexFileIndex := 2\<rparr>"

definition DexRegisterMask_OatInit150 :: "oat_statics \<Rightarrow> oat_statics" where
  "DexRegisterMask_OatInit150 st = st\<lparr>kNumDexRegisterMasks := 1\<rparr>"

definition DexRegisterMask_OatInit170 :: "oat_statics \<Rightarrow> oat_statics" where
  "DexRegisterMask_OatInit170 st = st\<lparr>kNumDexRegisterMasks := 1,
      DexRegisterMask_kColNumMask := 0\<rparr>"

definition DexRegisterMap_OatInit150 :: "oat_statics \<Rightarrow> oat_statics" where
  "DexRegisterMap_OatInit150 st = st\<lparr>kNumDexRegisterMaps := 1\<rparr>"

definition DexRegisterMap_OatInit170 :: "oat_statics \<Rightarrow> oat_statics" where
  "DexRegisterMap_OatInit170 st = st\<lparr>kNumDexRegisterMaps := 1, kColNumCatalogueIndex := 0\<rparr>"

definition DexRegisterInfo_OatInit150 :: "oat_statics \<Rightarrow> oat_statics" where
  "DexRegisterInfo_OatInit150 st = st\<lparr>kNumDexRegisterInfos := 2\<rparr>"

definition DexRegisterInfo_OatInit170 :: "oat_statics \<Rightarrow> oat_statics" where
  "DexRegisterInfo_OatInit170 st = st\<lparr>kNumDexRegisterInfos := 2, DexRegisterInfo_kColNumKind := 0,
      kColNumPackedValue := 1\<rparr>"

text \<open>The listeners in the order of their registration, and their execution on a change of the
  version (android.cpp, \<open>oatPreLoadLater\<close>).\<close>

definition CodeInfo_Init :: "(int \<times> (oat_statics \<Rightarrow> oat_statics)) list" where
  "CodeInfo_Init = [(64, CodeInfo_OatInit64), (79, CodeInfo_OatInit79), (124, CodeInfo_OatInit124), (150,
      CodeInfo_OatInit150), (171, CodeInfo_OatInit171), (172, CodeInfo_OatInit172), (191, CodeInfo_OatInit191),
      (150, StackMap_OatInit150), (170, StackMap_OatInit170), (150, RegisterMask_OatInit150), (170,
      RegisterMask_OatInit170), (150, DexRegisterMask_OatInit150), (170, DexRegisterMask_OatInit170), (150,
      StackMask_OatInit150), (170, StackMask_OatInit170), (150, InlineInfo_OatInit150), (170,
      InlineInfo_OatInit170), (150, MethodInfo_OatInit150), (170, MethodInfo_OatInit170), (225,
      MethodInfo_OatInit225), (150, DexRegisterMap_OatInit150), (170, DexRegisterMap_OatInit170), (150,
      DexRegisterInfo_OatInit150), (170, DexRegisterInfo_OatInit170)]"

definition OatListener_execute :: "int \<Rightarrow> int \<times> (oat_statics \<Rightarrow> oat_statics) \<Rightarrow> oat_statics \<Rightarrow> oat_statics" where
  "OatListener_execute oat l st = (if oat \<ge> fst l then snd l st else st)"

definition oatPreLoadLater :: "int \<Rightarrow> oat_statics \<Rightarrow> oat_statics" where
  "oatPreLoadLater oat st = fold (OatListener_execute oat) CodeInfo_Init st"

section \<open>The tables\<close>

text \<open>Each class extends \<open>BitTable\<close>, which is the first member here. A header that is shorter than the
  members that are read from it is an access past the end of a vector.\<close>

record StackMap =
  sm_table :: bit_table
  sm_kind :: u32
  sm_packed_native_pc :: u32
  sm_dex_pc :: u32
  sm_register_mask_index :: u32
  sm_stack_mask_index :: u32
  sm_inline_info_index :: u32
  sm_dex_register_mask_index :: u32
  sm_dex_register_map_index :: u32

definition new_StackMap :: StackMap where
  "new_StackMap = \<lparr>sm_table = new_BitTable, sm_kind = 0, sm_packed_native_pc = 0, sm_dex_pc = 0,
      sm_register_mask_index = 0, sm_stack_mask_index = 0, sm_inline_info_index = 0,
      sm_dex_register_mask_index = 0, sm_dex_register_map_index = 0\<rparr>"

definition StackMap_Decode :: "int \<Rightarrow> oat_statics \<Rightarrow> core \<Rightarrow> StackMap \<Rightarrow> bit_reader \<Rightarrow> (StackMap \<times> bit_reader) res" where
  "StackMap_Decode oat st c t rd =
     res_bind (DecodeOnly oat c (kNumStackMaps st) (sm_table t) rd) (\<lambda>(header, tb, rd').
     (if oat \<ge> 170 then
        (if length header \<le> 8 then Inl (HostFault 0)
         else Inr (t\<lparr>sm_table := tb, sm_kind := header ! 1, sm_packed_native_pc := header ! 2,
             sm_dex_pc := header ! 3, sm_register_mask_index := header ! 4, sm_stack_mask_index := header ! 5,
             sm_inline_info_index := header ! 6, sm_dex_register_mask_index := header ! 7,
             sm_dex_register_map_index := header ! 8\<rparr>, rd'))
      else Inr (t\<lparr>sm_table := tb\<rparr>, rd')))"

record RegisterMask =
  rm_table :: bit_table
  rm_value :: u32
  rm_shift :: u32

definition new_RegisterMask :: RegisterMask where
  "new_RegisterMask = \<lparr>rm_table = new_BitTable, rm_value = 0, rm_shift = 0\<rparr>"

definition RegisterMask_Decode :: "int \<Rightarrow> oat_statics \<Rightarrow> core \<Rightarrow> RegisterMask \<Rightarrow> bit_reader \<Rightarrow> (RegisterMask \<times> bit_reader) res" where
  "RegisterMask_Decode oat st c t rd =
     res_bind (DecodeOnly oat c (kNumRegisterMasks st) (rm_table t) rd) (\<lambda>(header, tb, rd').
     (if oat \<ge> 170 then
        (if length header \<le> 2 then Inl (HostFault 0)
         else Inr (t\<lparr>rm_table := tb, rm_value := header ! 1, rm_shift := header ! 2\<rparr>, rd'))
      else Inr (t\<lparr>rm_table := tb\<rparr>, rd')))"

record StackMask =
  sk_table :: bit_table
  sk_mask :: u32

definition new_StackMask :: StackMask where
  "new_StackMask = \<lparr>sk_table = new_BitTable, sk_mask = 0\<rparr>"

definition StackMask_Decode :: "int \<Rightarrow> oat_statics \<Rightarrow> core \<Rightarrow> StackMask \<Rightarrow> bit_reader \<Rightarrow> (StackMask \<times> bit_reader) res" where
  "StackMask_Decode oat st c t rd =
     res_bind (DecodeOnly oat c (kNumStackMasks st) (sk_table t) rd) (\<lambda>(header, tb, rd').
     (if oat \<ge> 170 then
        (if length header \<le> 1 then Inl (HostFault 0)
         else Inr (t\<lparr>sk_table := tb, sk_mask := header ! 1\<rparr>, rd'))
      else Inr (t\<lparr>sk_table := tb\<rparr>, rd')))"

record InlineInfo =
  ii_table :: bit_table
  ii_is_last :: u32
  ii_dex_pc :: u32
  ii_method_info_index :: u32
  ii_art_method_hi :: u32
  ii_art_method_lo :: u32
  ii_number_of_dex_registers :: u32

definition new_InlineInfo :: InlineInfo where
  "new_InlineInfo = \<lparr>ii_table = new_BitTable, ii_is_last = 0, ii_dex_pc = 0, ii_method_info_index = 0,
      ii_art_method_hi = 0, ii_art_method_lo = 0, ii_number_of_dex_registers = 0\<rparr>"

definition InlineInfo_Decode :: "int \<Rightarrow> oat_statics \<Rightarrow> core \<Rightarrow> InlineInfo \<Rightarrow> bit_reader \<Rightarrow> (InlineInfo \<times> bit_reader) res" where
  "InlineInfo_Decode oat st c t rd =
     res_bind (DecodeOnly oat c (kNumInlineInfos st) (ii_table t) rd) (\<lambda>(header, tb, rd').
     (if oat \<ge> 170 then
        (if length header \<le> 6 then Inl (HostFault 0)
         else Inr (t\<lparr>ii_table := tb, ii_is_last := header ! 1, ii_dex_pc := header ! 2,
             ii_method_info_index := header ! 3, ii_art_method_hi := header ! 4,
             ii_art_method_lo := header ! 5, ii_number_of_dex_registers := header ! 6\<rparr>, rd'))
      else Inr (t\<lparr>ii_table := tb\<rparr>, rd')))"

record MethodInfo =
  mi_table :: bit_table
  mi_method_index :: u32
  mi_dex_file_index_kind :: u32
  mi_dex_file_index :: u32

definition new_MethodInfo :: MethodInfo where
  "new_MethodInfo = \<lparr>mi_table = new_BitTable, mi_method_index = 0, mi_dex_file_index_kind = 0,
      mi_dex_file_index = 0\<rparr>"

definition MethodInfo_Decode :: "int \<Rightarrow> oat_statics \<Rightarrow> core \<Rightarrow> MethodInfo \<Rightarrow> bit_reader \<Rightarrow> (MethodInfo \<times> bit_reader) res" where
  "MethodInfo_Decode oat st c t rd =
     res_bind (DecodeOnly oat c (kNumMethodInfos st) (mi_table t) rd) (\<lambda>(header, tb, rd').
     (if oat \<ge> 225 then
        (if length header \<le> 3 then Inl (HostFault 0)
         else Inr (t\<lparr>mi_table := tb, mi_method_index := header ! 1,
             mi_dex_file_index_kind := header ! 2, mi_dex_file_index := header ! 3\<rparr>, rd'))
      else if oat \<ge> 170 then
        (if length header \<le> 1 then Inl (HostFault 0)
         else Inr (t\<lparr>mi_table := tb, mi_method_index := header ! 1\<rparr>, rd'))
      else Inr (t\<lparr>mi_table := tb\<rparr>, rd')))"

record DexRegisterMask =
  dm_table :: bit_table
  dm_mask :: u32

definition new_DexRegisterMask :: DexRegisterMask where
  "new_DexRegisterMask = \<lparr>dm_table = new_BitTable, dm_mask = 0\<rparr>"

definition DexRegisterMask_Decode :: "int \<Rightarrow> oat_statics \<Rightarrow> core \<Rightarrow> DexRegisterMask \<Rightarrow> bit_reader \<Rightarrow> (DexRegisterMask \<times> bit_reader) res" where
  "DexRegisterMask_Decode oat st c t rd =
     res_bind (DecodeOnly oat c (kNumDexRegisterMasks st) (dm_table t) rd) (\<lambda>(header, tb, rd').
     (if oat \<ge> 170 then
        (if length header \<le> 1 then Inl (HostFault 0)
         else Inr (t\<lparr>dm_table := tb, dm_mask := header ! 1\<rparr>, rd'))
      else Inr (t\<lparr>dm_table := tb\<rparr>, rd')))"

record DexRegisterMap =
  dr_table :: bit_table
  dr_catalogue_index :: u32

definition new_DexRegisterMap :: DexRegisterMap where
  "new_DexRegisterMap = \<lparr>dr_table = new_BitTable, dr_catalogue_index = 0\<rparr>"

definition DexRegisterMap_Decode :: "int \<Rightarrow> oat_statics \<Rightarrow> core \<Rightarrow> DexRegisterMap \<Rightarrow> bit_reader \<Rightarrow> (DexRegisterMap \<times> bit_reader) res" where
  "DexRegisterMap_Decode oat st c t rd =
     res_bind (DecodeOnly oat c (kNumDexRegisterMaps st) (dr_table t) rd) (\<lambda>(header, tb, rd').
     (if oat \<ge> 170 then
        (if length header \<le> 1 then Inl (HostFault 0)
         else Inr (t\<lparr>dr_table := tb, dr_catalogue_index := header ! 1\<rparr>, rd'))
      else Inr (t\<lparr>dr_table := tb\<rparr>, rd')))"

record DexRegisterInfo =
  di_table :: bit_table
  di_kind :: u32
  di_packed_value :: u32

definition new_DexRegisterInfo :: DexRegisterInfo where
  "new_DexRegisterInfo = \<lparr>di_table = new_BitTable, di_kind = -2, di_packed_value = 0\<rparr>"

definition DexRegisterInfo_Decode :: "int \<Rightarrow> oat_statics \<Rightarrow> core \<Rightarrow> DexRegisterInfo \<Rightarrow> bit_reader \<Rightarrow> (DexRegisterInfo \<times> bit_reader) res" where
  "DexRegisterInfo_Decode oat st c t rd =
     res_bind (DecodeOnly oat c (kNumDexRegisterInfos st) (di_table t) rd) (\<lambda>(header, tb, rd').
     (if oat \<ge> 170 then
        (if length header \<le> 2 then Inl (HostFault 0)
         else Inr (t\<lparr>di_table := tb, di_kind := header ! 1, di_packed_value := header ! 2\<rparr>,
             rd'))
      else Inr (t\<lparr>di_table := tb\<rparr>, rd')))"


end
