(* ===== verification/CodeInfo.thy ===== *)
theory CodeInfo
  imports StackMaps
begin

unbundle bit_operations_syntax

text \<open>
  \<open>CodeInfo\<close> of android/art/runtime/oat/stack_map.h and stack_map.cpp: the header encodings of older
  versions, decoding of the header and of the tables, and the queries of the stack walker.
\<close>

section \<open>Encodings before version 150\<close>

definition kInvalidOffset :: u32 where "kInvalidOffset = -1"
definition kInvalidSize :: u32 where "kInvalidSize = -1"

record ByteSizedTable =
  bs_num_entries :: u32
  bs_num_bytes :: u32
  bs_byte_offset :: u32

definition new_ByteSizedTable :: ByteSizedTable where
  "new_ByteSizedTable = \<lparr>bs_num_entries = 0, bs_num_bytes = 0, bs_byte_offset = kInvalidOffset\<rparr>"

definition ByteSizedTable_Decode :: "host \<Rightarrow> u64 \<Rightarrow> ByteSizedTable \<Rightarrow> (ByteSizedTable \<times> u64) res" where
  "ByteSizedTable_Decode h ptr t =
     res_bind (DecodeUnsignedLeb128 h ptr) (\<lambda>(n, ptr1).
     res_bind (DecodeUnsignedLeb128 h ptr1) (\<lambda>(b, ptr2).
     Inr (t\<lparr>bs_num_entries := n, bs_num_bytes := b\<rparr>, ptr2)))"

definition ByteSizedTable_UpdateBitOffset :: "u32 \<Rightarrow> ByteSizedTable \<Rightarrow> ByteSizedTable \<times> u32" where
  "ByteSizedTable_UpdateBitOffset offset t =
     (t\<lparr>bs_byte_offset := offset div kBitsPerByte\<rparr>, offset + bs_num_bytes t * kBitsPerByte)"

text \<open>A field of a row: \<open>int32_t\<close> arithmetic on the loaded bits.\<close>

record FieldEncoding =
  start_offset :: u32
  end_offset :: u32
  min_value :: u32

definition FieldEncoding_BitSize :: "FieldEncoding \<Rightarrow> u32" where
  "FieldEncoding_BitSize f = end_offset f - start_offset f"

definition FieldEncoding_Load :: "core \<Rightarrow> bit_region \<Rightarrow> FieldEncoding \<Rightarrow> u32 res" where
  "FieldEncoding_Load c region f =
     res_bind (LoadBits c (ucast (start_offset f)) (ucast (FieldEncoding_BitSize f)) region) (\<lambda>v.
       Inr (ucast v + min_value f))"

record StackMapEncoding =
  se_dex_pc_bit_offset :: u8
  se_dex_register_map_bit_offset :: u8
  se_inline_info_bit_offset :: u8
  se_register_mask_index_bit_offset :: u8
  se_stack_mask_index_bit_offset :: u8
  se_total_bit_size :: u8

definition new_StackMapEncoding :: StackMapEncoding where
  "new_StackMapEncoding = \<lparr>se_dex_pc_bit_offset = 0, se_dex_register_map_bit_offset = 0,
     se_inline_info_bit_offset = 0, se_register_mask_index_bit_offset = 0,
     se_stack_mask_index_bit_offset = 0, se_total_bit_size = 0\<rparr>"

definition StackMapEncoding_Decode :: "int \<Rightarrow> host \<Rightarrow> u64 \<Rightarrow> StackMapEncoding \<Rightarrow> (StackMapEncoding \<times> u64) res" where
  "StackMapEncoding_Decode oat h ptr e =
     res_bind (host_read h ptr 5) (\<lambda>b.
       let e' = e\<lparr>se_dex_pc_bit_offset := b ! 0, se_dex_register_map_bit_offset := b ! 1,
                  se_inline_info_bit_offset := b ! 2, se_register_mask_index_bit_offset := b ! 3,
                  se_stack_mask_index_bit_offset := b ! 4\<rparr>
       in if oat \<ge> 124 then
            res_bind (host_read h (ptr + 5) 1) (\<lambda>t. Inr (e'\<lparr>se_total_bit_size := t ! 0\<rparr>, ptr + 6))
          else Inr (e', ptr + 5))"

definition GetNativePcEncoding :: "StackMapEncoding \<Rightarrow> FieldEncoding" where
  "GetNativePcEncoding e = \<lparr>start_offset = 0, end_offset = ucast (se_dex_pc_bit_offset e), min_value = -1\<rparr>"

definition GetDexPcEncoding :: "StackMapEncoding \<Rightarrow> FieldEncoding" where
  "GetDexPcEncoding e = \<lparr>start_offset = ucast (se_dex_pc_bit_offset e),
     end_offset = ucast (se_dex_register_map_bit_offset e), min_value = -1\<rparr>"

definition GetDexRegisterMapEncoding :: "StackMapEncoding \<Rightarrow> FieldEncoding" where
  "GetDexRegisterMapEncoding e = \<lparr>start_offset = ucast (se_dex_register_map_bit_offset e),
     end_offset = ucast (se_inline_info_bit_offset e), min_value = -1\<rparr>"

definition GetInlineInfoEncoding :: "StackMapEncoding \<Rightarrow> FieldEncoding" where
  "GetInlineInfoEncoding e = \<lparr>start_offset = ucast (se_inline_info_bit_offset e),
     end_offset = ucast (se_register_mask_index_bit_offset e), min_value = -1\<rparr>"

record BitRegionEncoding =
  be_num_bits :: u32

definition BitRegionEncoding_Decode :: "host \<Rightarrow> u64 \<Rightarrow> BitRegionEncoding \<Rightarrow> (BitRegionEncoding \<times> u64) res" where
  "BitRegionEncoding_Decode h ptr e =
     res_bind (DecodeUnsignedLeb128 h ptr) (\<lambda>(n, ptr'). Inr (e\<lparr>be_num_bits := n\<rparr>, ptr'))"

record InvokeInfoEncoding =
  iv_invoke_type_bit_offset :: u8
  iv_method_index_bit_offset :: u8
  iv_total_bit_size :: u8

definition InvokeInfoEncoding_Decode :: "host \<Rightarrow> u64 \<Rightarrow> InvokeInfoEncoding \<Rightarrow> (InvokeInfoEncoding \<times> u64) res" where
  "InvokeInfoEncoding_Decode h ptr e =
     res_bind (host_read h ptr 3) (\<lambda>b.
       Inr (e\<lparr>iv_invoke_type_bit_offset := b ! 0, iv_method_index_bit_offset := b ! 1, iv_total_bit_size := b ! 2\<rparr>,
            ptr + 3))"

record InlineInfoEncoding =
  ie_dex_pc_bit_offset :: u8
  ie_extra_data_bit_offset :: u8
  ie_dex_register_map_bit_offset :: u8
  ie_total_bit_size :: u8

definition new_InlineInfoEncoding :: InlineInfoEncoding where
  "new_InlineInfoEncoding = \<lparr>ie_dex_pc_bit_offset = 0, ie_extra_data_bit_offset = 0,
     ie_dex_register_map_bit_offset = 0, ie_total_bit_size = 0\<rparr>"

definition InlineInfoEncoding_Decode :: "host \<Rightarrow> u64 \<Rightarrow> InlineInfoEncoding \<Rightarrow> (InlineInfoEncoding \<times> u64) res" where
  "InlineInfoEncoding_Decode h ptr e =
     res_bind (host_read h ptr 4) (\<lambda>b.
       Inr (e\<lparr>ie_dex_pc_bit_offset := b ! 0, ie_extra_data_bit_offset := b ! 1,
              ie_dex_register_map_bit_offset := b ! 2, ie_total_bit_size := b ! 3\<rparr>, ptr + 4))"

text \<open>The template \<open>BitEncodingTable\<close>; its methods take those of the encoding.\<close>

record 'e enc_table =
  et_encoding :: 'e
  et_num_entries :: u32
  et_bit_offset :: u32

definition new_BitEncodingTable :: "'e \<Rightarrow> 'e enc_table" where
  "new_BitEncodingTable e = \<lparr>et_encoding = e, et_num_entries = 0, et_bit_offset = kInvalidOffset\<rparr>"

definition DecodeOnlyTable :: "(u64 \<Rightarrow> 'e \<Rightarrow> ('e \<times> u64) res) \<Rightarrow> u64 \<Rightarrow> 'e enc_table \<Rightarrow> ('e enc_table \<times> u64) res" where
  "DecodeOnlyTable dec ptr t =
     res_bind (dec ptr (et_encoding t)) (\<lambda>(e, ptr'). Inr (t\<lparr>et_encoding := e\<rparr>, ptr'))"

definition BitEncodingTable_Decode ::
  "host \<Rightarrow> (u64 \<Rightarrow> 'e \<Rightarrow> ('e \<times> u64) res) \<Rightarrow> u64 \<Rightarrow> 'e enc_table \<Rightarrow> ('e enc_table \<times> u64) res" where
  "BitEncodingTable_Decode h dec ptr t =
     res_bind (DecodeUnsignedLeb128 h ptr) (\<lambda>(n, ptr1). DecodeOnlyTable dec ptr1 (t\<lparr>et_num_entries := n\<rparr>))"

definition BitEncodingTable_UpdateBitOffset :: "('e \<Rightarrow> u32) \<Rightarrow> u32 \<Rightarrow> 'e enc_table \<Rightarrow> 'e enc_table \<times> u32" where
  "BitEncodingTable_UpdateBitOffset bsize offset t =
     (t\<lparr>et_bit_offset := offset\<rparr>, offset + bsize (et_encoding t) * et_num_entries t)"

definition BitEncodingTable_BitRegion :: "('e \<Rightarrow> u32) \<Rightarrow> memory_region \<Rightarrow> u32 \<Rightarrow> 'e enc_table \<Rightarrow> bit_region" where
  "BitEncodingTable_BitRegion bsize region index t =
     (let map_size = bsize (et_encoding t)
      in region_bits_at region (ucast (et_bit_offset t + index * map_size)) (ucast map_size))"

record CodeInfoEncoding =
  ce_number_of_stack_maps :: u32
  ce_stack_map_size_in_bytes :: u32
  ce_number_of_location_catalog_entries :: u32
  cache_header_size :: u32
  cache_non_header_size :: u32
  ce_dex_register_map :: ByteSizedTable
  ce_location_catalog :: ByteSizedTable
  ce_stack_map :: "StackMapEncoding enc_table"
  ce_register_mask :: "BitRegionEncoding enc_table"
  ce_stack_mask :: "BitRegionEncoding enc_table"
  ce_invoke_info :: "InvokeInfoEncoding enc_table"
  ce_inline_info :: "InlineInfoEncoding enc_table"

text \<open>The first three members have no initial value in the code; they are written before they are
  read on the versions that use them.\<close>

definition default_CodeInfoEncoding :: CodeInfoEncoding where
  "default_CodeInfoEncoding = \<lparr>ce_number_of_stack_maps = 0, ce_stack_map_size_in_bytes = 0,
     ce_number_of_location_catalog_entries = 0, cache_header_size = kInvalidSize,
     cache_non_header_size = kInvalidSize, ce_dex_register_map = new_ByteSizedTable,
     ce_location_catalog = new_ByteSizedTable, ce_stack_map = new_BitEncodingTable new_StackMapEncoding,
     ce_register_mask = new_BitEncodingTable \<lparr>be_num_bits = 0\<rparr>,
     ce_stack_mask = new_BitEncodingTable \<lparr>be_num_bits = 0\<rparr>,
     ce_invoke_info = new_BitEncodingTable \<lparr>iv_invoke_type_bit_offset = 0, iv_method_index_bit_offset = 0, iv_total_bit_size = 0\<rparr>,
     ce_inline_info = new_BitEncodingTable new_InlineInfoEncoding\<rparr>"

abbreviation se_bits :: "StackMapEncoding \<Rightarrow> u32" where "se_bits e \<equiv> ucast (se_total_bit_size e)"

definition ComputeTableOffsets :: "CodeInfoEncoding \<Rightarrow> CodeInfoEncoding" where
  "ComputeTableOffsets e =
     (let off0 = cache_header_size e * kBitsPerByte;
          (t1, off1) = ByteSizedTable_UpdateBitOffset off0 (ce_dex_register_map e);
          (t2, off2) = ByteSizedTable_UpdateBitOffset off1 (ce_location_catalog e);
          (t3, off3) = BitEncodingTable_UpdateBitOffset se_bits off2 (ce_stack_map e);
          (t4, off4) = BitEncodingTable_UpdateBitOffset be_num_bits off3 (ce_register_mask e);
          (t5, off5) = BitEncodingTable_UpdateBitOffset be_num_bits off4 (ce_stack_mask e);
          (t6, off6) = BitEncodingTable_UpdateBitOffset (\<lambda>i. ucast (iv_total_bit_size i)) off5 (ce_invoke_info e);
          (t7, off7) = BitEncodingTable_UpdateBitOffset (\<lambda>i. ucast (ie_total_bit_size i)) off6 (ce_inline_info e)
      in e\<lparr>ce_dex_register_map := t1, ce_location_catalog := t2, ce_stack_map := t3, ce_register_mask := t4,
           ce_stack_mask := t5, ce_invoke_info := t6, ce_inline_info := t7,
           cache_non_header_size := RoundUp off7 kBitsPerByte div kBitsPerByte - cache_header_size e\<rparr>)"

text \<open>The two layouts that the constructor reads. The start of the data is a host pointer, \<open>data.Real()\<close>.\<close>

definition has_inline_info :: "StackMapEncoding enc_table \<Rightarrow> bool" where
  "has_inline_info t \<longleftrightarrow> FieldEncoding_BitSize (GetInlineInfoEncoding (et_encoding t)) > 0"

definition encoding_124 :: "int \<Rightarrow> host \<Rightarrow> u64 \<Rightarrow> CodeInfoEncoding res" where
  "encoding_124 oat h real =
     (let e = default_CodeInfoEncoding in
      res_bind (ByteSizedTable_Decode h real (ce_dex_register_map e)) (\<lambda>(dr, p1).
      res_bind (ByteSizedTable_Decode h p1 (ce_location_catalog e)) (\<lambda>(lc, p2).
      res_bind (BitEncodingTable_Decode h (StackMapEncoding_Decode oat h) p2 (ce_stack_map e)) (\<lambda>(sm, p3).
      res_bind (BitEncodingTable_Decode h (BitRegionEncoding_Decode h) p3 (ce_register_mask e)) (\<lambda>(rm, p4).
      res_bind (BitEncodingTable_Decode h (BitRegionEncoding_Decode h) p4 (ce_stack_mask e)) (\<lambda>(sk, p5).
      res_bind (BitEncodingTable_Decode h (InvokeInfoEncoding_Decode h) p5 (ce_invoke_info e)) (\<lambda>(iv, p6).
      res_bind (if has_inline_info sm then BitEncodingTable_Decode h (InlineInfoEncoding_Decode h) p6 (ce_inline_info e)
                else Inr (new_BitEncodingTable new_InlineInfoEncoding, p6)) (\<lambda>(ii, p7).
      Inr (ComputeTableOffsets
        (e\<lparr>ce_dex_register_map := dr, ce_location_catalog := lc, ce_stack_map := sm, ce_register_mask := rm,
           ce_stack_mask := sk, ce_invoke_info := iv, ce_inline_info := ii, cache_header_size := ucast (p7 - real)\<rparr>))))))))))"

definition encoding_79 :: "int \<Rightarrow> host \<Rightarrow> u64 \<Rightarrow> CodeInfoEncoding res" where
  "encoding_79 oat h real =
     (let e = default_CodeInfoEncoding in
      res_bind (DecodeUnsignedLeb128 h real) (\<lambda>(nh, p1).
      res_bind (DecodeUnsignedLeb128 h p1) (\<lambda>(n, p2).
      res_bind (DecodeUnsignedLeb128 h p2) (\<lambda>(sz, p3).
      res_bind (DecodeUnsignedLeb128 h p3) (\<lambda>(lc, p4).
      res_bind (DecodeOnlyTable (StackMapEncoding_Decode oat h) p4 (ce_stack_map e)) (\<lambda>(sm, p5).
      res_bind (if has_inline_info sm then DecodeOnlyTable (InlineInfoEncoding_Decode h) p5 (ce_inline_info e)
                else Inr (new_BitEncodingTable new_InlineInfoEncoding, p5)) (\<lambda>(ii, p6).
      Inr (e\<lparr>cache_non_header_size := nh, ce_number_of_stack_maps := n, ce_stack_map_size_in_bytes := sz,
             ce_number_of_location_catalog_entries := lc, ce_stack_map := sm, ce_inline_info := ii,
             cache_header_size := ucast (p6 - real)\<rparr>))))))))"

definition new_CodeInfoEncoding :: "int \<Rightarrow> core \<Rightarrow> u64 \<Rightarrow> CodeInfoEncoding res" where
  "new_CodeInfoEncoding oat c code_info_data =
     res_bind (Real c (new_memory_ref code_info_data)) (\<lambda>(real, _).
       if oat \<ge> 124 then encoding_124 oat (mem c) real
       else if oat \<ge> 79 then encoding_79 oat (mem c) real
       else Inr default_CodeInfoEncoding)"

section \<open>Decoding\<close>

record code_info =
  ci_region :: memory_region
  ci_encoding :: CodeInfoEncoding
  ci_data :: u64
  ci_reader :: bit_reader
  flags :: u32
  code_size :: u32
  packed_frame_size :: u32
  core_spill_mask :: u32
  fp_spill_mask :: u32
  number_of_dex_registers :: u32
  bit_table_flags :: u32
  number_of_stack_maps :: u32
  frame_size_in_bytes :: u32
  stack_map :: StackMap
  register_mask :: RegisterMask
  stack_mask :: StackMask
  inline_info :: InlineInfo
  method_info :: MethodInfo
  dex_register_mask :: DexRegisterMask
  dex_register_map :: DexRegisterMap
  dex_register_info :: DexRegisterInfo

definition new_CodeInfo :: "int \<Rightarrow> u64 \<Rightarrow> code_info" where
  "new_CodeInfo oat code_info_data =
     \<lparr>ci_region = new_MemoryRegion 0 0, ci_encoding = default_CodeInfoEncoding, ci_data = code_info_data,
      ci_reader = new_BitMemoryReader (if oat \<ge> 150 then code_info_data else 0) 0, flags = 0, code_size = 0,
      packed_frame_size = 0, core_spill_mask = 0, fp_spill_mask = 0, number_of_dex_registers = 0,
      bit_table_flags = 0, number_of_stack_maps = 0, frame_size_in_bytes = 0, stack_map = new_StackMap,
      register_mask = new_RegisterMask, stack_mask = new_StackMask, inline_info = new_InlineInfo,
      method_info = new_MethodInfo, dex_register_mask = new_DexRegisterMask,
      dex_register_map = new_DexRegisterMap, dex_register_info = new_DexRegisterInfo\<rparr>"

definition HasBitTable :: "nat \<Rightarrow> code_info \<Rightarrow> bool" where
  "HasBitTable i ci \<longleftrightarrow> drop_bit i (bit_table_flags ci) AND 1 \<noteq> 0"

definition IsBitTableDeduped :: "oat_statics \<Rightarrow> nat \<Rightarrow> code_info \<Rightarrow> bool" where
  "IsBitTableDeduped st i ci \<longleftrightarrow> drop_bit (kNumBitTables st + i) (bit_table_flags ci) AND 1 \<noteq> 0"

text \<open>The values of the header in the formats of version 159 and later.\<close>

definition header_varints :: "int \<Rightarrow> oat_statics \<Rightarrow> core \<Rightarrow> bit_reader \<Rightarrow> (u32 list \<times> bit_reader) res" where
  "header_varints oat st c rd =
     (if oat \<ge> 173 then ReadInterleavedVarints c (kNumHeaders st) rd
      else if oat \<ge> 172 then read_varints c 6 rd
      else if oat \<ge> 171 then read_varints c 5 rd
      else read_varints c 4 rd)"

definition header_members :: "int \<Rightarrow> u32 list \<Rightarrow> code_info \<Rightarrow> code_info res" where
  "header_members oat h ci =
     (if oat \<ge> 191 then
        (if length h < 7 then Inl (HostFault 0)
         else Inr (ci\<lparr>flags := h ! 0, code_size := h ! 1, packed_frame_size := h ! 2, core_spill_mask := h ! 3,
                fp_spill_mask := h ! 4, number_of_dex_registers := h ! 5, bit_table_flags := h ! 6,
                frame_size_in_bytes := h ! 2 * kStackAlignment\<rparr>))
      else if oat \<ge> 172 then
        (if length h < 6 then Inl (HostFault 0)
         else Inr (ci\<lparr>flags := h ! 0, packed_frame_size := h ! 1, core_spill_mask := h ! 2, fp_spill_mask := h ! 3,
                number_of_dex_registers := h ! 4, bit_table_flags := h ! 5,
                frame_size_in_bytes := h ! 1 * kStackAlignment\<rparr>))
      else if oat \<ge> 171 then
        (if length h < 5 then Inl (HostFault 0)
         else Inr (ci\<lparr>flags := h ! 0, packed_frame_size := h ! 1, core_spill_mask := h ! 2, fp_spill_mask := h ! 3,
                number_of_dex_registers := h ! 4, frame_size_in_bytes := h ! 1 * kStackAlignment\<rparr>))
      else
        (if length h < 4 then Inl (HostFault 0)
         else Inr (ci\<lparr>packed_frame_size := h ! 0, core_spill_mask := h ! 1, fp_spill_mask := h ! 2,
                number_of_dex_registers := h ! 3, frame_size_in_bytes := h ! 0 * kStackAlignment\<rparr>)))"

text \<open>The four numbers in LEB128 of versions 150 to 158.\<close>

fun leb_values :: "host \<Rightarrow> nat \<Rightarrow> u64 \<Rightarrow> (u32 list \<times> u64) res" where
  "leb_values h 0 ptr = Inr ([], ptr)"
| "leb_values h (Suc n) ptr =
     res_bind (DecodeUnsignedLeb128 h ptr) (\<lambda>(v, ptr').
     res_bind (leb_values h n ptr') (\<lambda>(vs, ptr''). Inr (v # vs, ptr'')))"

definition leb_members :: "u32 list \<Rightarrow> code_info \<Rightarrow> code_info" where
  "leb_members vs ci = ci\<lparr>frame_size_in_bytes := vs ! 0, core_spill_mask := vs ! 1, fp_spill_mask := vs ! 2,
     number_of_dex_registers := vs ! 3\<rparr>"

definition DecodeHeaderOnly :: "int \<Rightarrow> oat_statics \<Rightarrow> core \<Rightarrow> u64 \<Rightarrow> code_info res" where
  "DecodeHeaderOnly oat st c code_info_data =
     (let ci = new_CodeInfo oat code_info_data in
      if oat \<ge> 159 then
        res_bind (header_varints oat st c (ci_reader ci)) (\<lambda>(h, rd).
          header_members oat h (ci\<lparr>ci_reader := rd\<rparr>))
      else if oat \<ge> 151 then
        res_bind (Real c (new_memory_ref code_info_data)) (\<lambda>(real, _).
        res_bind (leb_values (mem c) 4 real) (\<lambda>(vs, ptr).
        Inr ((leb_members vs ci)
          \<lparr>ci_reader := new_BitMemoryReader (code_info_data + ucast (ucast (ptr - real) :: u32)) 0\<rparr>)))
      else if oat \<ge> 150 then
        res_bind (Real c (new_memory_ref code_info_data)) (\<lambda>(real, _).
        res_bind (DecodeUnsignedLeb128 (mem c) real) (\<lambda>(non_header_size, ptr0).
        res_bind (leb_values (mem c) 4 ptr0) (\<lambda>(vs, ptr).
          let region = new_MemoryRegion (code_info_data + ucast (ucast (ptr - real) :: u32))
                         (ptr0 + ucast non_header_size - ptr)
          in Inr ((leb_members vs ci)
               \<lparr>ci_region := region, ci_reader := reader_of_region (region_bits region)\<rparr>))))
      else if oat \<ge> 144 then
        res_bind (Real c (new_memory_ref code_info_data)) (\<lambda>(real, _).
        res_bind (DecodeUnsignedLeb128 (mem c) real) (\<lambda>(non_header_size, ptr).
        Inr (ci\<lparr>ci_region := new_MemoryRegion (code_info_data + ucast (ucast (ptr - real) :: u32))
               (ucast non_header_size)\<rparr>)))
      else Inr ci)"

definition DecodeCodeSize :: "int \<Rightarrow> oat_statics \<Rightarrow> core \<Rightarrow> u64 \<Rightarrow> u32 res" where
  "DecodeCodeSize oat st c data = res_bind (DecodeHeaderOnly oat st c data) (\<lambda>ci. Inr (code_size ci))"

record QuickMethodFrameInfo =
  qf_frame_size_in_bytes :: u32
  qf_core_spill_mask :: u32
  qf_fp_spill_mask :: u32

definition DecodeFrameInfo :: "int \<Rightarrow> oat_statics \<Rightarrow> core \<Rightarrow> u64 \<Rightarrow> QuickMethodFrameInfo res" where
  "DecodeFrameInfo oat st c data =
     res_bind (DecodeHeaderOnly oat st c data) (\<lambda>ci.
       Inr \<lparr>qf_frame_size_in_bytes = frame_size_in_bytes ci, qf_core_spill_mask = core_spill_mask ci,
            qf_fp_spill_mask = fp_spill_mask ci\<rparr>)"

text \<open>
  The macros \<open>DECODE_BIT_TABLE_173\<close> and \<open>DECODE_BIT_TABLE_172\<close>, which differ only in a
  region that is computed and dropped, and \<open>DECODE_BIT_TABLE_159\<close>. A deduplicated table lies
  the given number of bits before the current position; the operands of the subtraction are
  evaluated from left to right.
\<close>

definition decode_deduped :: "('t \<Rightarrow> bit_reader \<Rightarrow> ('t \<times> bit_reader) res) \<Rightarrow> core \<Rightarrow> 't \<Rightarrow> bit_reader \<Rightarrow> ('t \<times> bit_reader) res" where
  "decode_deduped dec c t rd =
     res_bind (ReadVarint c rd) (\<lambda>(v, rd').
       let bit_offset = NumberOfReadBits rd - ucast v; reader2 = new_BitMemoryReader (br_address rd') bit_offset
       in res_bind (dec t reader2) (\<lambda>(t', _). Inr (t', rd')))"

definition decode_flagged ::
  "oat_statics \<Rightarrow> core \<Rightarrow> code_info \<Rightarrow> nat \<Rightarrow> ('t \<Rightarrow> bit_reader \<Rightarrow> ('t \<times> bit_reader) res) \<Rightarrow> 't \<Rightarrow> bit_reader \<Rightarrow> ('t \<times> bit_reader) res" where
  "decode_flagged st c ci num dec t rd =
     (if HasBitTable num ci then
        (if IsBitTableDeduped st num ci then decode_deduped dec c t rd else dec t rd)
      else Inr (t, rd))"

definition decode_159 :: "core \<Rightarrow> ('t \<Rightarrow> bit_reader \<Rightarrow> ('t \<times> bit_reader) res) \<Rightarrow> 't \<Rightarrow> bit_reader \<Rightarrow> ('t \<times> bit_reader) res" where
  "decode_159 c dec t rd =
     res_bind (ReadBit c rd) (\<lambda>(is_deduped, rd'). if is_deduped then decode_deduped dec c t rd' else dec t rd')"

definition decode_slot ::
  "int \<Rightarrow> oat_statics \<Rightarrow> core \<Rightarrow> code_info \<Rightarrow> nat \<Rightarrow> ('t \<Rightarrow> bit_reader \<Rightarrow> ('t \<times> bit_reader) res) \<Rightarrow> 't \<Rightarrow> bit_reader \<Rightarrow> ('t \<times> bit_reader) res" where
  "decode_slot oat st c ci num dec t rd =
     (if oat \<ge> 172 then decode_flagged st c ci num dec t rd
      else if oat \<ge> 159 then decode_159 c dec t rd
      else Inr (t, rd))"

definition decode_tables :: "int \<Rightarrow> oat_statics \<Rightarrow> core \<Rightarrow> code_info \<Rightarrow> code_info res" where
  "decode_tables oat st c ci =
     res_bind (decode_slot oat st c ci 0 (StackMap_Decode oat st c) (stack_map ci) (ci_reader ci)) (\<lambda>(t0, r0).
     res_bind (decode_slot oat st c ci 1 (RegisterMask_Decode oat st c) (register_mask ci) r0) (\<lambda>(t1, r1).
     res_bind (decode_slot oat st c ci 2 (StackMask_Decode oat st c) (stack_mask ci) r1) (\<lambda>(t2, r2).
     res_bind (decode_slot oat st c ci 3 (InlineInfo_Decode oat st c) (inline_info ci) r2) (\<lambda>(t3, r3).
     res_bind (decode_slot oat st c ci 4 (MethodInfo_Decode oat st c) (method_info ci) r3) (\<lambda>(t4, r4).
     res_bind (decode_slot oat st c ci 5 (DexRegisterMask_Decode oat st c) (dex_register_mask ci) r4) (\<lambda>(t5, r5).
     res_bind (decode_slot oat st c ci 6 (DexRegisterMap_Decode oat st c) (dex_register_map ci) r5) (\<lambda>(t6, r6).
     res_bind (decode_slot oat st c ci 7 (DexRegisterInfo_Decode oat st c) (dex_register_info ci) r6) (\<lambda>(t7, r7).
     Inr (ci\<lparr>ci_reader := r7, stack_map := t0, register_mask := t1, stack_mask := t2, inline_info := t3,
             method_info := t4, dex_register_mask := t5, dex_register_map := t6, dex_register_info := t7\<rparr>)))))))))"

definition kNumberOfStackMapsOffset :: u64 where "kNumberOfStackMapsOffset = 10"

definition GetNumberOfStackMaps :: "core \<Rightarrow> code_info \<Rightarrow> u64 res" where
  "GetNumberOfStackMaps c ci =
     res_bind (LoadUnaligned32 c kNumberOfStackMapsOffset (ci_region ci)) (\<lambda>n. Inr (ucast n))"

definition CodeInfo_Decode :: "int \<Rightarrow> oat_statics \<Rightarrow> core \<Rightarrow> u64 \<Rightarrow> code_info res" where
  "CodeInfo_Decode oat st c data =
     (let ci = new_CodeInfo oat data in
      if oat \<ge> 144 then res_bind (DecodeHeaderOnly oat st c data) (decode_tables oat st c)
      else if oat \<ge> 79 then
        res_bind (new_CodeInfoEncoding oat c data) (\<lambda>e.
          Inr (ci\<lparr>ci_encoding := e,
             ci_region := new_MemoryRegion data (ucast (cache_header_size e + cache_non_header_size e)),
             number_of_stack_maps := (if oat \<ge> 124 then et_num_entries (ce_stack_map e) else ce_number_of_stack_maps e)\<rparr>))
      else if oat \<ge> 64 then
        res_bind (ref_value32 c 0 (new_memory_ref data)) (\<lambda>n.
          let ci' = ci\<lparr>ci_region := new_MemoryRegion data (ucast n)\<rparr>
          in res_bind (GetNumberOfStackMaps c ci') (\<lambda>k. Inr (ci'\<lparr>number_of_stack_maps := ucast k\<rparr>)))
      else Inr ci)"

text \<open>\<open>item_regs\<close> is \<open>num_regs_\<close> of the code item of the method, when it has one.\<close>

definition ExtendNumRegister :: "int \<Rightarrow> u32 option \<Rightarrow> code_info \<Rightarrow> code_info" where
  "ExtendNumRegister oat item_regs ci =
     (if oat < 150 then
        (case item_regs of Some n \<Rightarrow> ci\<lparr>number_of_dex_registers := n\<rparr> | None \<Rightarrow> ci)
      else ci)"

section \<open>From native to Dex program counters\<close>

fun UnpackNativePc :: "machine \<Rightarrow> u32 \<Rightarrow> u32" where
  "UnpackNativePc EM_386 pc = pc"
| "UnpackNativePc EM_X86_64 pc = pc"
| "UnpackNativePc EM_ARM pc = pc * 2"
| "UnpackNativePc EM_AARCH64 pc = pc * 4"
| "UnpackNativePc EM_RISCV pc = pc * 2"

text \<open>The two program counters of a row, in the three formats.\<close>

definition row_pcs_144 :: "oat_statics \<Rightarrow> core \<Rightarrow> code_info \<Rightarrow> u32 \<Rightarrow> (u32 \<times> u32) res" where
  "row_pcs_144 st c ci row =
     (let map = sm_table (stack_map ci) in
      res_bind (Table_Get c (kNumStackMaps st) row (kColNumPackedNativePc st) map) (\<lambda>packed.
      res_bind (Table_Get c (kNumStackMaps st) row (StackMap_kColNumDexPc st) map) (\<lambda>dex.
      Inr (UnpackNativePc (core_machine c) packed, dex))))"

definition encoded_pcs :: "core \<Rightarrow> code_info \<Rightarrow> bit_region \<Rightarrow> (u32 \<times> u32) res" where
  "encoded_pcs c ci region =
     (let e = et_encoding (ce_stack_map (ci_encoding ci)) in
      res_bind (FieldEncoding_Load c region (GetNativePcEncoding e)) (\<lambda>native.
      res_bind (FieldEncoding_Load c region (GetDexPcEncoding e)) (\<lambda>dex. Inr (native, dex))))"

definition row_pcs_124 :: "core \<Rightarrow> code_info \<Rightarrow> u32 \<Rightarrow> (u32 \<times> u32) res" where
  "row_pcs_124 c ci row =
     encoded_pcs c ci (BitEncodingTable_BitRegion se_bits (ci_region ci) row (ce_stack_map (ci_encoding ci)))"

definition stack_region :: "code_info \<Rightarrow> memory_region" where
  "stack_region ci =
     (let e = ci_encoding ci
      in mr_Subregion (ucast (cache_header_size e)) (ucast (ce_stack_map_size_in_bytes e * ce_number_of_stack_maps e))
           (ci_region ci))"

definition row_pcs_79 :: "core \<Rightarrow> code_info \<Rightarrow> u32 \<Rightarrow> (u32 \<times> u32) res" where
  "row_pcs_79 c ci row =
     (let sz = ce_stack_map_size_in_bytes (ci_encoding ci)
      in encoded_pcs c ci (region_bits (mr_Subregion (ucast (row * sz)) (ucast sz) (stack_region ci))))"

definition row_indices :: "u32 \<Rightarrow> u32 list" where
  "row_indices n = map of_nat [0..<unat n]"

text \<open>The rows that the version walks over, with their program counters.\<close>

definition pc_rows :: "int \<Rightarrow> oat_statics \<Rightarrow> core \<Rightarrow> code_info \<Rightarrow> u32 list \<times> (u32 \<Rightarrow> (u32 \<times> u32) res)" where
  "pc_rows oat st c ci =
     (if oat \<ge> 144 then (row_indices (num_rows (sm_table (stack_map ci))), row_pcs_144 st c ci)
      else if oat \<ge> 124 then (row_indices (number_of_stack_maps ci), row_pcs_124 c ci)
      else if oat \<ge> 79 \<and> mr_size (ci_region ci) \<noteq> 0 then (row_indices (number_of_stack_maps ci), row_pcs_79 c ci)
      else ([], \<lambda>_. Inr (0, 0)))"

fun collect_rows :: "(u32 \<Rightarrow> (u32 \<times> u32) res) \<Rightarrow> u32 list \<Rightarrow> (u32 \<times> u32) list res" where
  "collect_rows pcs [] = Inr []"
| "collect_rows pcs (row # rows) =
     res_bind (pcs row) (\<lambda>p. res_bind (collect_rows pcs rows) (\<lambda>ps. Inr (p # ps)))"

definition NativeStackMaps :: "int \<Rightarrow> oat_statics \<Rightarrow> core \<Rightarrow> code_info \<Rightarrow> (u32 \<times> u32) list res" where
  "NativeStackMaps oat st c ci = (let (rows, pcs) = pc_rows oat st c ci in collect_rows pcs rows)"

fun dex_pc_loop :: "(u32 \<Rightarrow> (u32 \<times> u32) res) \<Rightarrow> u32 \<Rightarrow> u32 list \<Rightarrow> u32 \<Rightarrow> u32 res" where
  "dex_pc_loop pcs native_pc [] dex_pc = Inr dex_pc"
| "dex_pc_loop pcs native_pc (row # rows) dex_pc =
     res_bind (pcs row) (\<lambda>(current_native_pc, dex).
       if current_native_pc > native_pc then Inr dex else dex_pc_loop pcs native_pc rows dex)"

definition NativePc2DexPc :: "int \<Rightarrow> oat_statics \<Rightarrow> core \<Rightarrow> u32 \<Rightarrow> code_info \<Rightarrow> u32 res" where
  "NativePc2DexPc oat st c native_pc ci = (let (rows, pcs) = pc_rows oat st c ci in dex_pc_loop pcs native_pc rows 0)"

section \<open>Locations of Dex registers\<close>

text \<open>The first loop of \<open>NativePc2VRegsV2\<close>: the row at which it stops and its register map index.\<close>

fun find_row :: "(u32 \<Rightarrow> u32 res) \<Rightarrow> (u32 \<Rightarrow> u32 res) \<Rightarrow> u32 \<Rightarrow> u32 list \<Rightarrow> u32 \<times> u32 \<Rightarrow> (u32 \<times> u32) res" where
  "find_row native index native_pc [] cur = Inr cur"
| "find_row native index native_pc (row # rows) cur =
     res_bind (native row) (\<lambda>pc.
     res_bind (index row) (\<lambda>i.
       if pc > native_pc then Inr (row, i) else find_row native index native_pc rows (row, i)))"

text \<open>What the nested loops carry: the register map, the registers already set, the number of
  registers still missing and the running index into the register maps.\<close>

record vreg_state =
  vreg_map :: "u32 \<rightharpoonup> u32 \<times> u32"
  bits_set :: "u32 \<Rightarrow> bool"
  remaining_registers :: u32
  map_index :: u32

definition ctz :: "u32 \<Rightarrow> nat" where
  "ctz x = hd (filter (bit x) [0..<32])"

lemma ctz_bit:
  assumes "x \<noteq> 0"
  shows "bit x (ctz x)" "ctz x < 32"
proof -
  obtain k where "bit x k" using assms by (metis bit_eqI bit_0_eq bot_apply bot_bool_def)
  then have "k \<in> set (filter (bit x) [0..<32])" using bit_imp_le_length [of x k] by auto
  then have "filter (bit x) [0..<32] \<noteq> []" by force
  then have "ctz x \<in> set (filter (bit x) [0..<32])" unfolding ctz_def by (rule hd_in_set)
  then show "bit x (ctz x)" "ctz x < 32" by auto
qed

lemma POPCOUNT_card: "POPCOUNT (x :: 'a::len word) = card {k. bit x k}"
proof -
  have "set (filter (bit x) [0..<LENGTH('a)]) = {k. bit x k}" by (auto dest: bit_imp_le_length)
  then show ?thesis unfolding POPCOUNT_def by (metis distinct_card distinct_filter distinct_upt)
qed

lemma POPCOUNT_clear:
  assumes "bit (x :: 'a::len word) k"
  shows "POPCOUNT (x XOR 2 ^ k) < POPCOUNT x"
proof -
  have "{j. bit (x XOR 2 ^ k) j} = {j. bit x j} - {k}"
    using assms by (auto simp: bit_xor_iff bit_exp_iff dest: bit_imp_le_length)
  moreover have "finite {j. bit x j}" by (rule finite_subset [of _ "{..<LENGTH('a)}"]) (auto dest: bit_imp_le_length)
  ultimately show ?thesis unfolding POPCOUNT_card using card_Diff1_less [of "{j. bit x j}" k] assms by simp
qed

text \<open>The \<open>while\<close> loop over the bits of one word of the mask.\<close>

definition vreg_bit :: "oat_statics \<Rightarrow> core \<Rightarrow> code_info \<Rightarrow> u32 \<Rightarrow> vreg_state \<Rightarrow> vreg_state res" where
  "vreg_bit st c ci r s =
     res_bind (Table_Get c (kNumDexRegisterMaps st) (map_index s) (kColNumCatalogueIndex st)
                 (dr_table (dex_register_map ci))) (\<lambda>catalogue_index.
       if catalogue_index = kNoValue then Inr (s\<lparr>map_index := map_index s + 1\<rparr>)
       else
         (let info = di_table (dex_register_info ci) in
          res_bind (Table_Get c (kNumDexRegisterInfos st) catalogue_index (DexRegisterInfo_kColNumKind st) info) (\<lambda>kind.
          res_bind (Table_Get c (kNumDexRegisterInfos st) catalogue_index (kColNumPackedValue st) info) (\<lambda>v.
            let s' = (if bits_set s r then s
                      else s\<lparr>vreg_map := (vreg_map s)(r \<mapsto> (kind, v)),
                             remaining_registers := remaining_registers s - 1, bits_set := (bits_set s)(r := True)\<rparr>)
            in Inr (s'\<lparr>map_index := map_index s + 1\<rparr>)))))"

function vreg_bits :: "oat_statics \<Rightarrow> core \<Rightarrow> code_info \<Rightarrow> u32 \<Rightarrow> u32 \<Rightarrow> vreg_state \<Rightarrow> vreg_state res" where
  "vreg_bits st c ci reg w s =
     (if w = 0 then Inr s
      else res_bind (vreg_bit st c ci (reg + of_nat (ctz w)) s) (\<lambda>s'.
             vreg_bits st c ci reg (w XOR push_bit (ctz w) 1) s'))"
  by pat_completeness auto
termination
  by (relation "measure (\<lambda>(st, c, ci, reg, w, s). POPCOUNT w)") (simp_all add: POPCOUNT_clear ctz_bit)

declare vreg_bits.simps [simp del]

text \<open>The \<open>for\<close> loop over the words of the mask. A register number that would wrap around, which
  needs a mask of almost four thousand million bits, is outside the model.\<close>

function vreg_words :: "oat_statics \<Rightarrow> core \<Rightarrow> code_info \<Rightarrow> bit_region \<Rightarrow> u32 \<Rightarrow> u32 \<Rightarrow> vreg_state \<Rightarrow> vreg_state res" where
  "vreg_words st c ci mask_region last_reg reg s =
     (if reg < last_reg then
        res_bind (LoadBits c (ucast reg) (ucast (min (last_reg - reg) 32)) mask_region) (\<lambda>w.
        res_bind (vreg_bits st c ci reg (ucast w) s) (\<lambda>s'.
          if reg < reg + 32 then vreg_words st c ci mask_region last_reg (reg + 32) s' else Inl (HostFault 0)))
      else Inr s)"
  by pat_completeness auto
termination
proof (relation "measure (\<lambda>(st, c, ci, m, last_reg, reg, s). unat last_reg - unat reg)")
  fix st c ci m s s' w and last_reg reg :: u32
  assume "reg < last_reg" "reg < reg + 32"
  then have "unat last_reg - unat (reg + 32) < unat last_reg - unat reg" by (simp add: word_less_nat_alt)
  then show "((st, c, ci, m, last_reg, reg + 32, s'), st, c, ci, m, last_reg, reg, s) \<in>
      measure (\<lambda>(st, c, ci, m, last_reg, reg, s). unat last_reg - unat reg)" by simp
qed simp

declare vreg_words.simps [simp del]

text \<open>One round of the loop over the rows, downwards from the current one.\<close>

definition vreg_row :: "oat_statics \<Rightarrow> core \<Rightarrow> code_info \<Rightarrow> u32 \<Rightarrow> vreg_state \<Rightarrow> vreg_state res" where
  "vreg_row st c ci row s =
     (let map = sm_table (stack_map ci); dex_mask = dm_table (dex_register_mask ci) in
      res_bind (Table_Get c (kNumStackMaps st) row (kColNumDexRegisterMaskIndex st) map) (\<lambda>mi.
      if mi = kNoValue then Inr s
      else if mi < num_rows dex_mask then
        res_bind (GetBitMemoryRegion (kNumDexRegisterMasks st) mi (DexRegisterMask_kColNumMask st) dex_mask) (\<lambda>region.
        if bit_size region = 0 then Inr s
        else
          res_bind (Table_Get c (kNumStackMaps st) row (kColNumDexRegisterMapIndex st) map) (\<lambda>i0.
          res_bind (PopCount_range c 0 0 region) (\<lambda>pc.
            let region' = br_Subregion 0 (bit_size region - 0) region;
                last_reg = min (number_of_dex_registers ci) (ucast (bit_size region'))
            in vreg_words st c ci region' last_reg 0 (s\<lparr>map_index := i0 + ucast pc\<rparr>))))
      else Inr s))"

fun vreg_rows :: "oat_statics \<Rightarrow> core \<Rightarrow> code_info \<Rightarrow> nat \<Rightarrow> vreg_state \<Rightarrow> vreg_state res" where
  "vreg_rows st c ci 0 s =
     (if remaining_registers s = 0 then Inr s else vreg_row st c ci 0 s)"
| "vreg_rows st c ci (Suc n) s =
     (if remaining_registers s = 0 then Inr s
      else res_bind (vreg_row st c ci (of_nat (Suc n)) s) (vreg_rows st c ci n))"

definition NativePc2VRegsV2 :: "oat_statics \<Rightarrow> core \<Rightarrow> u32 \<Rightarrow> code_info \<Rightarrow> (u32 \<rightharpoonup> u32 \<times> u32) \<Rightarrow> (u32 \<rightharpoonup> u32 \<times> u32) res" where
  "NativePc2VRegsV2 st c native_pc ci vregs =
     (let map = sm_table (stack_map ci) in
      if \<not> Table_IsValid map then Inr vregs
      else
        res_bind (find_row
          (\<lambda>row. res_bind (Table_Get c (kNumStackMaps st) row (kColNumPackedNativePc st) map)
             (\<lambda>p. Inr (UnpackNativePc (core_machine c) p)))
          (\<lambda>row. Table_Get c (kNumStackMaps st) row (kColNumDexRegisterMapIndex st) map)
          native_pc (row_indices (num_rows map)) (kNoValue, kNoValue)) (\<lambda>(current_row, index).
        if index = kNoValue \<or> \<not> Table_IsValid (dr_table (dex_register_map ci))
           \<or> \<not> Table_IsValid (dm_table (dex_register_mask ci)) \<or> \<not> Table_IsValid (di_table (dex_register_info ci))
        then Inr vregs
        else
          res_bind (vreg_rows st c ci (unat current_row)
            \<lparr>vreg_map = vregs, bits_set = (\<lambda>_. False), remaining_registers = number_of_dex_registers ci, map_index = 0\<rparr>)
            (\<lambda>s. Inr (vreg_map s))))"

text \<open>Versions 79 to 143 only look for the row; no location is decoded.\<close>

definition NativePc2VRegs_old :: "(u32 \<Rightarrow> u32 res) \<Rightarrow> (u32 \<Rightarrow> u32 res) \<Rightarrow> u32 \<Rightarrow> u32 list \<Rightarrow> (u32 \<rightharpoonup> u32 \<times> u32) \<Rightarrow> (u32 \<rightharpoonup> u32 \<times> u32) res" where
  "NativePc2VRegs_old native index native_pc rows vregs =
     res_bind (find_row native index native_pc rows (0, kNoValue)) (\<lambda>_. Inr vregs)"

definition encoded_index :: "core \<Rightarrow> code_info \<Rightarrow> bit_region \<Rightarrow> u32 res" where
  "encoded_index c ci region =
     FieldEncoding_Load c region (GetDexRegisterMapEncoding (et_encoding (ce_stack_map (ci_encoding ci))))"

definition NativePc2VRegsV1 :: "core \<Rightarrow> u32 \<Rightarrow> code_info \<Rightarrow> (u32 \<rightharpoonup> u32 \<times> u32) \<Rightarrow> (u32 \<rightharpoonup> u32 \<times> u32) res" where
  "NativePc2VRegsV1 c native_pc ci vregs =
     (let region = (\<lambda>row. BitEncodingTable_BitRegion se_bits (ci_region ci) row (ce_stack_map (ci_encoding ci))) in
      NativePc2VRegs_old
        (\<lambda>row. FieldEncoding_Load c (region row) (GetNativePcEncoding (et_encoding (ce_stack_map (ci_encoding ci)))))
        (\<lambda>row. encoded_index c ci (region row)) native_pc (row_indices (number_of_stack_maps ci)) vregs)"

definition NativePc2VRegsV0 :: "core \<Rightarrow> u32 \<Rightarrow> code_info \<Rightarrow> (u32 \<rightharpoonup> u32 \<times> u32) \<Rightarrow> (u32 \<rightharpoonup> u32 \<times> u32) res" where
  "NativePc2VRegsV0 c native_pc ci vregs =
     (if mr_size (ci_region ci) = 0 then Inr vregs
      else
        (let sz = ce_stack_map_size_in_bytes (ci_encoding ci);
             region = (\<lambda>row. region_bits (mr_Subregion (ucast (row * sz)) (ucast sz) (stack_region ci))) in
         NativePc2VRegs_old
           (\<lambda>row. FieldEncoding_Load c (region row) (GetNativePcEncoding (et_encoding (ce_stack_map (ci_encoding ci)))))
           (\<lambda>row. encoded_index c ci (region row)) native_pc (row_indices (number_of_stack_maps ci)) vregs))"

definition NativePc2VRegs :: "int \<Rightarrow> oat_statics \<Rightarrow> core \<Rightarrow> u32 \<Rightarrow> code_info \<Rightarrow> (u32 \<rightharpoonup> u32 \<times> u32) \<Rightarrow> (u32 \<rightharpoonup> u32 \<times> u32) res" where
  "NativePc2VRegs oat st c native_pc ci vregs =
     (if oat \<ge> 170 then NativePc2VRegsV2 st c native_pc ci vregs
      else if oat \<ge> 144 then Inr vregs
      else if oat \<ge> 124 then NativePc2VRegsV1 c native_pc ci vregs
      else if oat \<ge> 79 then NativePc2VRegsV0 c native_pc ci vregs
      else Inr vregs)"

end
