(* ===== verification/BitProps.thy ===== *)
theory BitProps
  imports BitRegion
begin

unbundle bit_operations_syntax

text \<open>
  What the bit-level readers of theory BitRegion return, stated over the bits of target memory.
  The locale \<open>word_loader\<close> is the contract of the word access under \<open>LoadBits\<close> and
  \<open>LoadBits64\<close>; its interpretations are the 64-bit load and the masked pointer-sized load
  on 64-bit and 32-bit cores. On top of it the encodings that the Android runtime writes
  (LEB128, varints, interleaved varints, bit tables) are read back.
\<close>

section \<open>Bits of target memory\<close>

text \<open>The bit \<open>p\<close> positions after the start of the byte at \<open>a\<close>, lowest bit of a byte first.\<close>

definition target_bit :: "core \<Rightarrow> u64 \<Rightarrow> nat \<Rightarrow> bool" where
  "target_bit c a p = bit (the (core_byte c (a + of_nat (p div 8)))) (p mod 8)"

lemma bit_le_val: "bit (le_val bs) k \<longleftrightarrow> k < 8 * length bs \<and> bit (bs ! (k div 8)) (k mod 8)"
proof (induction bs arbitrary: k)
  case (Cons b bs)
  have "le_val (b # bs) = unat b + push_bit 8 (le_val bs)" by (simp add: push_bit_eq_mult)
  also have "\<dots> = unat b OR push_bit 8 (le_val bs)"
    by (rule disjunctive_add) (auto simp: bit_push_bit_iff bit_unsigned_iff dest: bit_imp_le_length)
  finally have "bit (le_val (b # bs)) k \<longleftrightarrow> bit b k \<or> (8 \<le> k \<and> bit (le_val bs) (k - 8))"
    by (auto simp: bit_or_iff bit_push_bit_iff bit_unsigned_iff)
  also have "\<dots> \<longleftrightarrow> k < 8 * length (b # bs) \<and> bit ((b # bs) ! (k div 8)) (k mod 8)"
  proof (cases "k < 8")
    case False
    then have "k div 8 = Suc ((k - 8) div 8)" "k mod 8 = (k - 8) mod 8"
      by (simp_all add: le_div_geq le_mod_geq not_less)
    moreover have "\<not> bit b k" using False by (auto dest: bit_imp_le_length)
    moreover have "8 \<le> k" "k - 8 < 8 * length bs \<longleftrightarrow> k < 8 * length (b # bs)" using False by auto
    ultimately show ?thesis by (simp add: Cons)
  next
    case True
    then have "k div 8 = 0" "k mod 8 = k" by simp_all
    then show ?thesis using True by simp
  qed
  finally show ?case .
qed simp

lemma bit_target_word:
  assumes "n \<le> 8"
  shows "bit (target_word c a n) k \<longleftrightarrow> k < 8 * n \<and> target_bit c a k"
proof (cases "k < 8 * n")
  case True
  then have "k div 8 < n" by auto
  moreover have "k < 64" using True assms by simp
  ultimately show ?thesis using True
    by (simp add: target_word_def le_word_def bit_of_nat_iff bit_le_val target_bit_def)
qed (simp add: target_word_def le_word_def bit_of_nat_iff bit_le_val)

lemma target_bit_shift: "target_bit c (a + of_nat k) p = target_bit c a (8 * k + p)"
  by (simp add: target_bit_def add.assoc)

text \<open>A run of bits in memory, and the word that it spells.\<close>

definition holds_bits :: "core \<Rightarrow> u64 \<Rightarrow> nat \<Rightarrow> bool list \<Rightarrow> bool" where
  "holds_bits c a p bs \<longleftrightarrow> (\<forall>k<length bs. target_bit c a (p + k) = bs ! k)"

lemma holds_bits_append:
  "holds_bits c a p (xs @ ys) \<longleftrightarrow> holds_bits c a p xs \<and> holds_bits c a (p + length xs) ys"
proof
  assume h: "holds_bits c a p (xs @ ys)"
  then have "target_bit c a (p + k) = xs ! k" if "k < length xs" for k
    using that by (auto simp: holds_bits_def nth_append)
  moreover have "target_bit c a (p + length xs + k) = ys ! k" if "k < length ys" for k
    using that h [unfolded holds_bits_def, rule_format, of "length xs + k"] by (simp add: nth_append add.assoc)
  ultimately show "holds_bits c a p xs \<and> holds_bits c a (p + length xs) ys" by (simp add: holds_bits_def)
next
  assume h: "holds_bits c a p xs \<and> holds_bits c a (p + length xs) ys"
  show "holds_bits c a p (xs @ ys)"
    unfolding holds_bits_def
  proof (intro allI impI)
    fix k assume k: "k < length (xs @ ys)"
    show "target_bit c a (p + k) = (xs @ ys) ! k"
    proof (cases "k < length xs")
      case False
      then have "k - length xs < length ys" using k by simp
      then have "target_bit c a (p + length xs + (k - length xs)) = ys ! (k - length xs)"
        using h unfolding holds_bits_def by blast
      then show ?thesis using False by (simp add: nth_append)
    qed (use h in \<open>simp add: holds_bits_def nth_append\<close>)
  qed
qed

definition bits_of :: "nat \<Rightarrow> 'a::len word \<Rightarrow> bool list" where
  "bits_of n x = map (bit x) [0..<n]"

lemma length_bits_of [simp]: "length (bits_of n x) = n"
  by (simp add: bits_of_def)

lemma holds_bits_of: "holds_bits c a p (bits_of n x) \<longleftrightarrow> (\<forall>k<n. target_bit c a (p + k) = bit x k)"
  by (simp add: holds_bits_def bits_of_def)

section \<open>Loads of bit runs\<close>

lemma unat_of_nat_small: "x < 2 ^ LENGTH('a) \<Longrightarrow> unat (of_nat x :: 'a::len word) = x"
  by (simp add: unat_of_nat take_bit_nat_eq_self)

lemma of_nat_word_div:
  assumes "x < 2 ^ LENGTH('a)" "y < 2 ^ LENGTH('a)"
  shows "(of_nat x :: 'a::len word) div of_nat y = of_nat (x div y)"
  using assms by (simp add: word_unat_eq_iff unat_div_distrib unat_of_nat_small le_less_trans [OF div_le_dividend])

lemma of_nat_word_mod:
  assumes "x < 2 ^ LENGTH('a)" "y < 2 ^ LENGTH('a)"
  shows "(of_nat x :: 'a::len word) mod of_nat y = of_nat (x mod y)"
  using assms by (simp add: word_unat_eq_iff unat_mod_distrib unat_of_nat_small le_less_trans [OF mod_less_eq_dividend])

lemma word_width_sub:
  assumes "W = 32 \<or> W = 64" "s < W"
  shows "unat ((of_nat W - of_nat s) AND (of_nat W - 1) :: u64) = (W - s) mod W"
proof -
  obtain q where q: "W = 2 ^ q" "q < 64" using assms(1) by (elim disjE) (use that [of 5] that [of 6] in auto)
  have "(of_nat W - of_nat s :: u64) = of_nat (W - s)" using assms(2) by (simp add: of_nat_diff)
  moreover have "(of_nat W - 1 :: u64) = mask q" by (simp add: q mask_eq_exp_minus_1)
  moreover have "unat (of_nat (W - s) :: u64) = W - s"
    by (rule unat_of_nat_small) (use assms in auto)
  ultimately have "unat ((of_nat W - of_nat s) AND (of_nat W - 1) :: u64) = take_bit q (W - s)"
    by (simp only: take_bit_eq_mask [symmetric] unsigned_take_bit_eq)
  then show ?thesis by (simp only: q(1) take_bit_eq_mod)
qed

text \<open>
  The contract of a word access of \<open>W\<close> bits: the word \<open>j\<close> after the start of a reference has
  the bits of target memory there and no others.
\<close>

locale word_loader =
  fixes load :: "core \<Rightarrow> u64 \<Rightarrow> memory_ref \<Rightarrow> u64 res" and W :: nat and good :: "core \<Rightarrow> nat \<Rightarrow> bool"
  assumes width: "W = 32 \<or> W = 64"
    and load_inside: "valid_seg c i \<Longrightarrow> good c i \<Longrightarrow> inside c i a m \<Longrightarrow> W div 8 * j + 8 \<le> m \<Longrightarrow>
      \<exists>w. load c (of_nat (W div 8 * j)) (new_memory_ref a) = Inr w \<and>
        (\<forall>k. bit w k \<longleftrightarrow> k < W \<and> target_bit c a (W * j + k))"
begin

text \<open>The shifts and masks of \<open>load_bits\<close> on the first and the last word of the run.\<close>

lemma combine_words:
  fixes v x :: u64
  assumes "0 < n" "n \<le> W"
    and v: "\<forall>k. bit v k \<longleftrightarrow> k < W \<and> T (W * (p div W) + k)"
    and x: "\<forall>k. bit x k \<longleftrightarrow> k < W \<and> T (W * ((p + n - 1) div W) + k)"
  shows "bit ((drop_bit (p mod W) v OR push_bit ((W - p mod W) mod W) x) AND
      NOT (push_bit (n - 1) (push_bit 1 (NOT 0)))) k \<longleftrightarrow> k < n \<and> T (p + k)"
proof (cases "k < n")
  case False
  then show ?thesis using assms(1) by (auto simp: bit_simps)
next
  case True
  let ?s = "p mod W"
  have W: "0 < W" "W \<le> 64" using width by auto
  have s: "?s < W" "W * (p div W) + ?s = p" using W by simp_all
  have k: "k < 64" using True assms(2) W by simp
  have low: "bit (drop_bit ?s v) k \<longleftrightarrow> ?s + k < W \<and> T (p + k)"
    using v s by (simp add: bit_drop_bit_eq add.assoc [symmetric])
  have high: "bit (push_bit ((W - ?s) mod W) x) k \<longrightarrow> T (p + k)"
    "W \<le> ?s + k \<longrightarrow> bit (push_bit ((W - ?s) mod W) x) k = T (p + k)"
  proof -
    have e: "(p + n - 1) div W = p div W + (?s + n - 1) div W"
    proof -
      have "p + n - 1 = W * (p div W) + (?s + n - 1)" using s(2) assms(1) by linarith
      then show ?thesis using W by simp
    qed
    show "bit (push_bit ((W - ?s) mod W) x) k \<longrightarrow> T (p + k)"
      "W \<le> ?s + k \<longrightarrow> bit (push_bit ((W - ?s) mod W) x) k = T (p + k)"
    proof (atomize (full), cases "?s = 0")
      case True
      then have "(p + n - 1) div W = p div W" using e assms(1,2) by simp
      then show "(bit (push_bit ((W - ?s) mod W) x) k \<longrightarrow> T (p + k)) \<and>
          (W \<le> ?s + k \<longrightarrow> bit (push_bit ((W - ?s) mod W) x) k = T (p + k))"
        using x s True \<open>k < n\<close> assms(2) by (auto simp: bit_push_bit_iff)
    next
      case False
      then have sh: "(W - ?s) mod W = W - ?s" using W by simp
      show "(bit (push_bit ((W - ?s) mod W) x) k \<longrightarrow> T (p + k)) \<and>
          (W \<le> ?s + k \<longrightarrow> bit (push_bit ((W - ?s) mod W) x) k = T (p + k))"
      proof (cases "W \<le> ?s + k")
        case True
        have "W * 1 \<le> ?s + n - 1" "?s + n - 1 < W * Suc 1"
          unfolding mult_Suc_right using True \<open>k < n\<close> assms(2) s(1) by linarith+
        then have "(?s + n - 1) div W = 1" by (rule div_nat_eqI)
        then have at: "W * ((p + n - 1) div W) + (k - (W - ?s)) = p + k"
          using e s True by (simp add: distrib_left)
        have "k - (W - ?s) < W" using s(1) \<open>k < n\<close> assms(2) by linarith
        then have "bit x (k - (W - ?s)) \<longleftrightarrow> T (p + k)" using x [rule_format] at by presburger
        moreover have "bit (push_bit (W - ?s) x) k \<longleftrightarrow> bit x (k - (W - ?s))"
          using True k le_diff_conv [of W ?s k] by (simp add: bit_push_bit_iff add.commute)
        ultimately show ?thesis unfolding sh by blast
      next
        case False
        then show ?thesis using sh by (auto simp: bit_push_bit_iff)
      qed
    qed
  qed
  have "bit (NOT (push_bit (n - 1) (push_bit 1 (NOT 0))) :: u64) k" using True k by (auto simp: bit_simps)
  then show ?thesis using low high True k s(1) by (auto simp: bit_and_iff bit_or_iff not_less)
qed

lemma load_bits_inside:
  assumes vs: "valid_seg c i" and g: "good c i" and ins: "inside c i a m" and small: "8 * m < 2 ^ 64"
    and n: "0 < n" "n \<le> W" and fits: "p + n + 64 \<le> 8 * m"
    and r: "br_data r = new_memory_ref a" and pos: "bit_start r + off = of_nat p"
  shows "\<exists>v. load_bits (load c) (of_nat (W div 8)) (of_nat W) off (of_nat n) r = Inr v \<and>
    (\<forall>k. bit v k \<longleftrightarrow> k < n \<and> target_bit c a (p + k))"
proof -
  have W: "0 < W" "W < 2 ^ 64" "W = 8 * (W div 8)" using width by auto
  have bound: "p < 2 ^ 64" "p mod W + (n - 1) < 2 ^ 64" "n < 2 ^ 64"
  proof -
    show "p < 2 ^ 64" "n < 2 ^ 64" using fits small by linarith+
    have "p mod W \<le> p" by simp
    then show "p mod W + (n - 1) < 2 ^ 64" using fits small by linarith
  qed
  let ?j = "p div W" and ?e = "(p + n - 1) div W"
  have e: "?j + (p mod W + (n - 1)) div W = ?e"
  proof -
    have "(W * ?j + (p mod W + (n - 1))) div W = ?j + (p mod W + (n - 1)) div W"
      by (rule div_mult_self4 [OF W(1) [THEN neq0_conv [THEN iffD2]]])
    moreover have "W * ?j + (p mod W + (n - 1)) = p + n - 1" using n(1) by simp
    ultimately show ?thesis by simp
  qed
  have le: "W div 8 * ?j + 8 \<le> m" "W div 8 * ?e + 8 \<le> m"
  proof -
    have "8 * (W div 8 * ?e) = W * ?e" using W(3) by (metis mult.assoc)
    also have "\<dots> \<le> p + n - 1" by simp
    finally show "W div 8 * ?e + 8 \<le> m" using fits n(1) by linarith
    have "?j \<le> ?e" using n(1) by (intro div_le_mono) simp
    then have "W div 8 * ?j \<le> W div 8 * ?e" by simp
    with \<open>W div 8 * ?e + 8 \<le> m\<close> show "W div 8 * ?j + 8 \<le> m" by linarith
  qed
  obtain v where v: "load c (of_nat (W div 8 * ?j)) (new_memory_ref a) = Inr v"
    "\<forall>k. bit v k \<longleftrightarrow> k < W \<and> target_bit c a (W * ?j + k)" using load_inside [OF vs g ins le(1)] by blast
  obtain x where x: "load c (of_nat (W div 8 * ?e)) (new_memory_ref a) = Inr x"
    "\<forall>k. bit x k \<longleftrightarrow> k < W \<and> target_bit c a (W * ?e + k)" using load_inside [OF vs g ins le(2)] by blast
  have idx: "(of_nat p :: u64) div of_nat W * of_nat (W div 8) = of_nat (W div 8 * ?j)"
    using bound W by (simp add: of_nat_word_div mult.commute)
  have sh: "(of_nat p :: u64) mod of_nat W = of_nat (p mod W)"
    using bound W by (simp add: of_nat_word_mod)
  have len: "(of_nat n :: u64) - 1 = of_nat (n - 1)" using n(1) by (simp add: of_nat_diff)
  have "((of_nat p :: u64) div of_nat W + (of_nat (p mod W) + of_nat (n - 1)) div of_nat W) * of_nat (W div 8)
      = of_nat (W div 8 * ?e)"
    unfolding of_nat_add [symmetric] using bound W e
    by (simp add: of_nat_word_div mult.commute flip: of_nat_add)
  moreover have "unat (of_nat (p mod W) :: u64) = p mod W" "unat (of_nat (n - 1) :: u64) = n - 1"
    by (rule unat_of_nat_small, use bound in simp)+
  moreover have "(of_nat n :: u64) \<noteq> 0"
    using bound(3) n(1) by (simp add: word_of_nat_eq_0_iff nat_dvd_not_less)
  moreover have "unat ((of_nat W - of_nat (p mod W)) AND (of_nat W - 1) :: u64) = (W - p mod W) mod W"
    using word_width_sub [OF width] W(1) by simp
  ultimately have "load_bits (load c) (of_nat (W div 8)) (of_nat W) off (of_nat n) r =
      Inr ((drop_bit (p mod W) v OR push_bit ((W - p mod W) mod W) x) AND
      NOT (push_bit (n - 1) (push_bit 1 (NOT 0))))"
    using v(1) x(1) r unfolding load_bits_def pos sh len Let_def
    by (simp add: idx)
  then show ?thesis using combine_words [OF n v(2) x(2)] by blast
qed

end

text \<open>The mask of a segment that the loaders set keeps exactly the bits of a pointer.\<close>

definition full_mask :: "core \<Rightarrow> nat \<Rightarrow> bool" where
  "full_mask c i \<longleftrightarrow> mPointMask (blk c i) = mask (bits (core_machine c))"

lemma ref_value64_inside:
  assumes "valid_seg c i" "inside c i a m" "k + 8 \<le> m"
  shows "ref_value64 c (of_nat k) (new_memory_ref a) = Inr (target_word c (a + of_nat k) 8)"
  using uint64.get_at [OF assms, of None] by (simp add: ref_value64_def new_memory_ref_def)

lemma ref_value_inside:
  assumes "valid_seg c i" "inside c i a m" "k + 8 \<le> m"
  shows "ref_value c (of_nat k) (new_memory_ref a) = Inr (target_word c (a + of_nat k) 8 AND mPointMask (blk c i))"
  using pointer.get_at [OF assms, of None] by (simp add: ref_value_def new_memory_ref_def masked_word_def)

lemma bit_word_at: "bit (target_word c (a + of_nat (q * j)) 8) k \<longleftrightarrow> k < 64 \<and> target_bit c a (8 * q * j + k)"
  by (simp only: bit_target_word [of 8] target_bit_shift) (simp add: mult.assoc)

lemma bit_masked_word_at:
  "B \<le> 64 \<Longrightarrow> bit (target_word c (a + of_nat (q * j)) 8 AND mask B) k \<longleftrightarrow> k < B \<and> target_bit c a (8 * q * j + k)"
  unfolding bit_and_iff bit_word_at bit_mask_iff by auto

interpretation loader64: word_loader ref_value64 64 "\<lambda>c i. True"
proof unfold_locales
  fix c :: core and i m j :: nat and a :: u64
  assume "valid_seg c i" "inside c i a m" "64 div 8 * j + 8 \<le> m"
  then show "\<exists>w. ref_value64 c (of_nat (64 div 8 * j)) (new_memory_ref a) = Inr w \<and>
      (\<forall>k. bit w k \<longleftrightarrow> k < 64 \<and> target_bit c a (64 * j + k))"
    using ref_value64_inside [of c i a m "8 * j"] bit_word_at [of c a 8 j] by simp
qed simp

interpretation pointer64: word_loader ref_value 64 "\<lambda>c i. bits (core_machine c) = 64 \<and> full_mask c i"
proof unfold_locales
  fix c :: core and i m j :: nat and a :: u64
  assume "valid_seg c i" "inside c i a m" "64 div 8 * j + 8 \<le> m" "bits (core_machine c) = 64 \<and> full_mask c i"
  then show "\<exists>w. ref_value c (of_nat (64 div 8 * j)) (new_memory_ref a) = Inr w \<and>
      (\<forall>k. bit w k \<longleftrightarrow> k < 64 \<and> target_bit c a (64 * j + k))"
    using ref_value_inside [of c i a m "8 * j"] bit_masked_word_at [of 64 c a 8 j]
    by (simp add: full_mask_def)
qed simp

interpretation pointer32: word_loader ref_value 32 "\<lambda>c i. bits (core_machine c) = 32 \<and> full_mask c i"
proof unfold_locales
  fix c :: core and i m j :: nat and a :: u64
  assume "valid_seg c i" "inside c i a m" "32 div 8 * j + 8 \<le> m" "bits (core_machine c) = 32 \<and> full_mask c i"
  then show "\<exists>w. ref_value c (of_nat (32 div 8 * j)) (new_memory_ref a) = Inr w \<and>
      (\<forall>k. bit w k \<longleftrightarrow> k < 32 \<and> target_bit c a (32 * j + k))"
    using ref_value_inside [of c i a m "4 * j"] bit_masked_word_at [of 32 c a 4 j]
    by (simp add: full_mask_def)
qed simp

text \<open>The window of target memory that holds bit-packed data, with room for the last word access.\<close>

definition bit_window :: "core \<Rightarrow> nat \<Rightarrow> u64 \<Rightarrow> nat \<Rightarrow> bool" where
  "bit_window c i a m \<longleftrightarrow> valid_seg c i \<and> inside c i a m \<and> 8 * m < 2 ^ 64 \<and> full_mask c i"

definition in_window :: "nat \<Rightarrow> nat \<Rightarrow> nat \<Rightarrow> bool" where
  "in_window m p n \<longleftrightarrow> p + n + 64 \<le> 8 * m"

lemma machine_width: "bits (core_machine c) = 64 \<and> getPointSize (core_machine c) = 8 \<or>
    bits (core_machine c) = 32 \<and> getPointSize (core_machine c) = 4"
  by (cases "core_machine c") simp_all

lemma LoadBits_inside:
  assumes "bit_window c i a m" "in_window m p n" "n \<le> bits (core_machine c)"
    and "br_data r = new_memory_ref a" "bit_start r + off = of_nat p"
  shows "\<exists>v. LoadBits c off (of_nat n) r = Inr v \<and> (\<forall>k. bit v k \<longleftrightarrow> k < n \<and> target_bit c a (p + k))"
proof (cases "n = 0")
  case True
  then show ?thesis by (simp add: LoadBits_def load_bits_def)
next
  case False
  have w: "valid_seg c i" "inside c i a m" "8 * m < 2 ^ 64" "full_mask c i" "p + n + 64 \<le> 8 * m" "0 < n"
    using assms False by (simp_all add: bit_window_def in_window_def)
  from machine_width [of c] show ?thesis
  proof
    assume b: "bits (core_machine c) = 64 \<and> getPointSize (core_machine c) = 8"
    show ?thesis
      using pointer64.load_bits_inside [OF w(1) _ w(2,3,6) _ w(5) assms(4,5)] assms(3) b w(4)
      by (simp add: LoadBits_def point_size_def core_bits_def)
  next
    assume b: "bits (core_machine c) = 32 \<and> getPointSize (core_machine c) = 4"
    show ?thesis
      using pointer32.load_bits_inside [OF w(1) _ w(2,3,6) _ w(5) assms(4,5)] assms(3) b w(4)
      by (simp add: LoadBits_def point_size_def core_bits_def)
  qed
qed

lemma LoadBits64_inside:
  assumes "bit_window c i a m" "in_window m p n" "n \<le> 64"
    and "br_data r = new_memory_ref a" "bit_start r + off = of_nat p"
  shows "\<exists>v. LoadBits64 c off (of_nat n) r = Inr v \<and> (\<forall>k. bit v k \<longleftrightarrow> k < n \<and> target_bit c a (p + k))"
proof (cases "n = 0")
  case True
  then show ?thesis by (simp add: LoadBits64_def load_bits_def)
next
  case False
  have w: "valid_seg c i" "inside c i a m" "8 * m < 2 ^ 64" "p + n + 64 \<le> 8 * m" "0 < n"
    using assms False by (simp_all add: bit_window_def in_window_def)
  show ?thesis
    using loader64.load_bits_inside [OF w(1) TrueI w(2,3,5) assms(3) w(4) assms(4,5)]
    by (simp add: LoadBits64_def)
qed

end
