(* ===== verification/BitCodes.thy ===== *)
theory BitCodes
  imports BitProps
begin

unbundle bit_operations_syntax

text \<open>
  The encodings of the Android runtime as reference definitions (what the runtime writes) and
  that the readers of theory BitRegion give back what was written: LEB128 numbers, varints,
  interleaved varints and bit tables.
\<close>

section \<open>Runs of bits\<close>

lemma holds_bits_concat:
  assumes "holds_bits c a p (concat bss)" "k < length bss"
  shows "holds_bits c a (p + length (concat (take k bss))) (bss ! k)"
proof -
  have "concat bss = concat (take k bss) @ bss ! k @ concat (drop (Suc k) bss)"
    using id_take_nth_drop [OF assms(2)] by (metis concat.simps(2) concat_append)
  then show ?thesis using assms(1) by (simp add: holds_bits_append)
qed

lemma length_concat_same: "\<forall>x\<in>set xs. length x = n \<Longrightarrow> length (concat xs) = n * length xs"
  by (induction xs) auto

lemma in_window_less: "in_window m p n \<Longrightarrow> q + k \<le> p + n \<Longrightarrow> in_window m q k"
  by (simp add: in_window_def)

text \<open>A reader that has come to bit \<open>p\<close> after \<open>a\<close>.\<close>

definition reader_at :: "bit_reader \<Rightarrow> u64 \<Rightarrow> nat \<Rightarrow> bool" where
  "reader_at rd a p \<longleftrightarrow> br_data rd = new_memory_ref a \<and> bit_start rd + bit_size rd = of_nat p"

definition advance :: "nat \<Rightarrow> bit_reader \<Rightarrow> bit_reader" where
  "advance n rd = rd\<lparr>bit_size := bit_size rd + of_nat n\<rparr>"

lemma reader_at_advance: "reader_at rd a p \<Longrightarrow> reader_at (advance n rd) a (p + n)"
  by (simp add: reader_at_def advance_def add.assoc [symmetric])

lemma advance_0 [simp]: "advance 0 rd = rd"
  by (simp add: advance_def)

lemma advance_advance [simp]: "advance n (advance k rd) = advance (k + n) rd"
  by (simp add: advance_def add.assoc)

lemma word_of_run:
  fixes v :: u64 and x :: "'a::len word"
  assumes "\<forall>k. bit v k \<longleftrightarrow> k < n \<and> target_bit c a (p + k)" "holds_bits c a p (bits_of n x)" "take_bit n x = x"
    and "LENGTH('a) \<le> 64"
  shows "v = ucast x"
proof (rule bit_word_eqI)
  fix k assume "k < LENGTH(64)"
  have "bit x k \<longleftrightarrow> k < n \<and> bit x k" using assms(3) by (metis bit_take_bit_iff)
  moreover have "k < n \<Longrightarrow> target_bit c a (p + k) = bit x k" using assms(2) by (simp add: holds_bits_of)
  ultimately show "bit v k = bit (ucast x :: u64) k"
    using assms(1) \<open>k < LENGTH(64)\<close> by (auto simp: bit_unsigned_iff)
qed

text \<open>The contract of a read of \<open>n\<close> bits, which \<open>ReadBits\<close> and \<open>ReadBits64\<close> share.\<close>

locale run_reader =
  fixes rbits :: "core \<Rightarrow> u64 \<Rightarrow> bit_reader \<Rightarrow> (u64 \<times> bit_reader) res" and limit :: "core \<Rightarrow> nat"
  assumes rbits: "bit_window c i a m \<Longrightarrow> in_window m p n \<Longrightarrow> n \<le> limit c \<Longrightarrow> reader_at rd a p \<Longrightarrow>
    \<exists>v. rbits c (of_nat n) rd = Inr (v, advance n rd) \<and> (\<forall>k. bit v k \<longleftrightarrow> k < n \<and> target_bit c a (p + k))"
begin

lemma rbits_run:
  fixes x :: "'a::len word"
  assumes "bit_window c i a m" "in_window m p n" "n \<le> limit c" "reader_at rd a p"
    and "holds_bits c a p (bits_of n x)" "take_bit n x = x" "LENGTH('a) \<le> 64"
  shows "rbits c (of_nat n) rd = Inr (ucast x, advance n rd)"
  using rbits [OF assms(1-4)] word_of_run [OF _ assms(5-7)] by auto

end

interpretation read: run_reader ReadBits "\<lambda>c. bits (core_machine c)"
proof unfold_locales
  fix c i a m p n rd
  assume w: "bit_window c i a m" "in_window m p n" "n \<le> bits (core_machine c)" and "reader_at rd a p"
  then show "\<exists>v. ReadBits c (of_nat n) rd = Inr (v, advance n rd) \<and> (\<forall>k. bit v k \<longleftrightarrow> k < n \<and> target_bit c a (p + k))"
    using LoadBits_inside [OF w, of "br_Subregion (bit_size rd) (of_nat n) (advance n rd)" 0]
    by (force simp: ReadBits_def ReadRegion_def Let_def Resize_def br_Subregion_def reader_at_def advance_def)
qed

interpretation read64: run_reader ReadBits64 "\<lambda>c. 64"
proof unfold_locales
  fix c i a m p n rd
  assume w: "bit_window c i a m" "in_window m p n" "n \<le> 64" and "reader_at rd a p"
  then show "\<exists>v. ReadBits64 c (of_nat n) rd = Inr (v, advance n rd) \<and> (\<forall>k. bit v k \<longleftrightarrow> k < n \<and> target_bit c a (p + k))"
    using LoadBits64_inside [OF w, of "br_Subregion (bit_size rd) (of_nat n) (advance n rd)" 0]
    by (force simp: ReadBits64_def ReadRegion_def Let_def Resize_def br_Subregion_def reader_at_def advance_def)
qed

section \<open>Varints\<close>

text \<open>A value up to 11 is its own four-bit header; a larger one has a header above 11 that counts
  the bytes of the value, which follow.\<close>

definition varint_bytes :: "u32 \<Rightarrow> nat" where
  "varint_bytes x = (if x < 2 ^ 8 then 1 else if x < 2 ^ 16 then 2 else if x < 2 ^ 24 then 3 else 4)"

definition varint_header :: "u32 \<Rightarrow> u32" where
  "varint_header x = (if x \<le> kVarintMax then x else kVarintMax + of_nat (varint_bytes x))"

definition varint_rest :: "u32 \<Rightarrow> bool list" where
  "varint_rest x = (if x \<le> kVarintMax then [] else bits_of (8 * varint_bytes x) x)"

definition varint_bits :: "u32 \<Rightarrow> bool list" where
  "varint_bits x = bits_of 4 (varint_header x) @ varint_rest x"

definition interleaved_bits :: "u32 list \<Rightarrow> bool list" where
  "interleaved_bits xs = concat (map (\<lambda>x. bits_of 4 (varint_header x)) xs) @ concat (map varint_rest xs)"

lemma varint_bytes_bounds: "1 \<le> varint_bytes x" "varint_bytes x \<le> 4"
  by (simp_all add: varint_bytes_def)

lemma varint_bytes_enough: "take_bit (8 * varint_bytes x) x = x"
proof -
  have "unat x < 2 ^ (8 * varint_bytes x)"
    using unsigned_less [of x] by (auto simp: varint_bytes_def word_less_nat_alt)
  then show ?thesis by (simp add: word_unat_eq_iff unsigned_take_bit_eq take_bit_nat_eq_self)
qed

lemma varint_header_fits: "take_bit 4 (varint_header x) = varint_header x"
proof -
  have "unat (varint_header x) < 2 ^ 4"
  proof (cases "x \<le> kVarintMax")
    case False
    have "unat (11 + of_nat (varint_bytes x) :: u32) \<le> 15"
      using varint_bytes_bounds [of x] by (simp add: varint_bytes_def)
    then show ?thesis using False by (simp add: varint_header_def kVarintMax_def)
  qed (simp add: varint_header_def kVarintMax_def word_le_nat_alt)
  then show ?thesis by (simp add: word_unat_eq_iff unsigned_take_bit_eq take_bit_nat_eq_self)
qed

lemma narrow_widen [simp]: "ucast (ucast (x :: u32) :: u64) = x"
  by (rule bit_word_eqI) (auto simp: bit_unsigned_iff)

lemma bits_at_least_32: "32 \<le> bits m"
  by (cases m) simp_all

lemma varint_tail_run:
  assumes w: "bit_window c i a m" and "in_window m p (length (varint_rest x))" "reader_at rd a p"
    and "holds_bits c a p (varint_rest x)"
  shows "varint_tail c (varint_header x) rd = Inr (x, advance (length (varint_rest x)) rd)"
proof (cases "x \<le> kVarintMax")
  case True
  then have "\<not> kVarintMax < x" by simp
  then show ?thesis using True by (simp add: varint_tail_def varint_header_def varint_rest_def)
next
  case False
  let ?n = "8 * varint_bytes x"
  have h: "varint_header x > kVarintMax" "ucast ((varint_header x - kVarintMax) * kBitsPerByte) = (of_nat ?n :: u64)"
    using False by (auto simp: varint_header_def kVarintMax_def kBitsPerByte_def varint_bytes_def)
  have "?n \<le> bits (core_machine c)" using varint_bytes_bounds(2) [of x] bits_at_least_32 [of "core_machine c"] by linarith
  then have "ReadBits c (of_nat ?n) rd = Inr (ucast x, advance ?n rd)"
    using False assms by (intro read.rbits_run [OF w]) (simp_all add: varint_rest_def varint_bytes_enough)
  then show ?thesis using False h by (simp add: varint_tail_def varint_rest_def)
qed

lemma ReadVarint_run:
  assumes w: "bit_window c i a m" and "in_window m p (length (varint_bits x))" "reader_at rd a p"
    and "holds_bits c a p (varint_bits x)"
  shows "ReadVarint c rd = Inr (x, advance (length (varint_bits x)) rd)"
proof -
  have "ReadBits c (of_nat 4) rd = Inr (ucast (varint_header x), advance 4 rd)"
    using assms bits_at_least_32 [of "core_machine c"]
    by (intro read.rbits_run [OF w])
      (auto simp: varint_bits_def holds_bits_append varint_header_fits elim: in_window_less)
  moreover have "varint_tail c (varint_header x) (advance 4 rd) = Inr (x, advance (length (varint_rest x)) (advance 4 rd))"
    using assms reader_at_advance [OF assms(3)]
    by (intro varint_tail_run [OF w, of "p + 4"])
      (auto simp: varint_bits_def holds_bits_append elim: in_window_less)
  ultimately show ?thesis by (simp add: ReadVarint_def kVarintBits_def varint_bits_def)
qed

lemma varint_tails_run:
  assumes w: "bit_window c i a m"
  shows "in_window m p (length (concat (map varint_rest xs))) \<Longrightarrow> reader_at rd a p \<Longrightarrow>
    holds_bits c a p (concat (map varint_rest xs)) \<Longrightarrow>
    varint_tails c (map varint_header xs) rd = Inr (xs, advance (length (concat (map varint_rest xs))) rd)"
proof (induction xs arbitrary: p rd)
  case (Cons x xs)
  let ?k = "length (varint_rest x)"
  have "varint_tail c (varint_header x) rd = Inr (x, advance ?k rd)"
    using Cons.prems by (intro varint_tail_run [OF w, of p]) (auto simp: holds_bits_append elim: in_window_less)
  moreover have "varint_tails c (map varint_header xs) (advance ?k rd) =
      Inr (xs, advance (length (concat (map varint_rest xs))) (advance ?k rd))"
    using Cons.prems reader_at_advance
    by (intro Cons.IH [of "p + ?k"]) (auto simp: holds_bits_append elim: in_window_less)
  ultimately show ?case by simp
qed simp

lemma BitFieldExtract_run:
  fixes v :: u64
  assumes "\<forall>k. bit v k \<longleftrightarrow> k < n \<and> target_bit c a (p + k)" "holds_bits c a (p + q) (bits_of w x)"
    and "take_bit w x = x" "q + w \<le> n" "w < 64" "LENGTH('a) \<le> 64"
  shows "BitFieldExtract v q w = ucast (x :: 'a::len word)"
proof (rule word_of_run [OF _ assms(2,3,6)])
  have "BitFieldExtract v q w = take_bit w (drop_bit q v)"
    using assms(5) by (simp add: BitFieldExtract_def MaskLeastSignificant_def take_bit_eq_mask mask_eq_exp_minus_1)
  then have b: "bit (BitFieldExtract v q w) k \<longleftrightarrow> k < w \<and> bit v (q + k)" for k
    by (simp add: bit_take_bit_iff bit_drop_bit_eq)
  have "bit v (q + k) \<longleftrightarrow> target_bit c a (p + q + k)" if "k < w" for k
    using assms(1) [rule_format, of "q + k"] assms(4) that by (simp add: add.assoc)
  then show "\<forall>k. bit (BitFieldExtract v q w) k \<longleftrightarrow> k < w \<and> target_bit c a (p + q + k)"
    unfolding b by blast
qed

lemma ReadInterleavedVarints_run:
  assumes w: "bit_window c i a m" and "in_window m p (length (interleaved_bits xs))" "reader_at rd a p"
    and h: "holds_bits c a p (interleaved_bits xs)" and len: "length xs \<le> 16"
  shows "ReadInterleavedVarints c (length xs) rd = Inr (xs, advance (length (interleaved_bits xs)) rd)"
proof -
  let ?n = "4 * length xs" and ?hs = "map (\<lambda>x. bits_of 4 (varint_header x)) xs"
  have hn: "length (concat ?hs) = ?n" by (subst length_concat_same [where n = 4]) auto
  have num: "ucast (of_nat (length xs) * kVarintBits) = (of_nat ?n :: u64)"
  proof -
    have "unat (of_nat (length xs) * kVarintBits) = ?n"
      using len by (simp add: kVarintBits_def unat_word_ariths unat_of_nat)
    then show ?thesis by (metis of_nat_unat)
  qed
  have nw: "in_window m p ?n" using assms(2) hn by (auto simp: interleaved_bits_def elim: in_window_less)
  obtain v where v: "ReadBits64 c (of_nat ?n) rd = Inr (v, advance ?n rd)"
    "\<forall>k. bit v k \<longleftrightarrow> k < ?n \<and> target_bit c a (p + k)"
    using read64.rbits [OF w nw _ assms(3)] len by auto
  have "ucast (BitFieldExtract v (unat (of_nat k * kVarintBits)) (unat kVarintBits)) = varint_header (xs ! k)"
    if "k < length xs" for k
  proof -
    have u: "unat (of_nat k * kVarintBits) = 4 * k" "unat kVarintBits = 4"
      using len that by (simp_all add: kVarintBits_def unat_word_ariths unat_of_nat)
    have "length (concat (take k ?hs)) = 4 * k"
      using that by (subst length_concat_same [where n = 4]) (auto dest!: in_set_takeD)
    then have "holds_bits c a (p + 4 * k) (bits_of 4 (varint_header (xs ! k)))"
      using holds_bits_concat [of c a p ?hs k] h that by (simp add: interleaved_bits_def holds_bits_append)
    then have "BitFieldExtract v (4 * k) 4 = ucast (varint_header (xs ! k))"
      using that by (intro BitFieldExtract_run [OF v(2)]) (simp_all add: varint_header_fits)
    then show ?thesis using u by simp
  qed
  then have hs: "map (\<lambda>k. ucast (BitFieldExtract v (unat (of_nat k * kVarintBits)) (unat kVarintBits))) [0..<length xs] =
      map varint_header xs" by (intro nth_equalityI) simp_all
  have "varint_tails c (map varint_header xs) (advance ?n rd) =
      Inr (xs, advance (length (concat (map varint_rest xs))) (advance ?n rd))"
    using assms(2) h hn reader_at_advance [OF assms(3)]
    by (intro varint_tails_run [OF w, of "p + ?n"])
      (auto simp: interleaved_bits_def holds_bits_append elim: in_window_less)
  then show ?thesis
    using v(1) hn unfolding ReadInterleavedVarints_def num by (simp add: hs interleaved_bits_def)
qed

section \<open>LEB128\<close>

lemma unat_drop7: "unat (drop_bit 7 (x :: u32)) = unat x div 128"
  by (simp only: unat_drop_bit_eq drop_bit_eq_div [of 7 "unat x"]) simp

text \<open>Seven bits a byte, lowest first; all bytes but the last have their top bit set.\<close>

function leb_bytes :: "u32 \<Rightarrow> u8 list" where
  "leb_bytes x =
     (if drop_bit 7 x = 0 then [ucast x] else (ucast (take_bit 7 x) OR 0x80) # leb_bytes (drop_bit 7 x))"
  by pat_completeness auto
termination
proof (relation "measure unat")
  fix x :: u32 assume "drop_bit 7 x \<noteq> 0"
  then have "x \<noteq> 0" by auto
  then show "(drop_bit 7 x, x) \<in> measure unat"
    by (simp add: unat_drop7 unat_gt_0)
qed simp

declare leb_bytes.simps [simp del]

lemma above_7f: "(0x7f :: u32) < r \<longleftrightarrow> drop_bit 7 r \<noteq> 0"
  by (simp only: word_less_nat_alt word_unat_eq_iff unat_drop7) (simp add: Suc_le_eq [symmetric] div_greater_zero_iff, linarith?)

lemma and_7f: "(r :: u32) AND 0x7f = take_bit 7 r"
  by (simp add: take_bit_eq_mask mask_eq_exp_minus_1)

lemma bit_more_byte:
  "bit (ucast (ucast (take_bit 7 (y :: u32)) OR 0x80 :: u8) :: u32) k \<longleftrightarrow> k < 7 \<and> bit y k \<or> k = 7"
proof -
  have "bit (0x80 :: u8) k \<longleftrightarrow> k = 7"
    using bit_exp_iff [of 7 k, where ?'a = u8] by (simp add: conj_commute) (auto dest: bit_imp_le_length)
  then show ?thesis by (simp only: bit_unsigned_iff bit_or_iff bit_take_bit_iff) auto
qed

lemma more_byte: "drop_bit 7 (ucast (ucast (take_bit 7 (y :: u32)) OR 0x80 :: u8) :: u32) \<noteq> 0"
  "take_bit 7 (ucast (ucast (take_bit 7 y) OR 0x80 :: u8) :: u32) = take_bit 7 y"
proof -
  have "bit (drop_bit 7 (ucast (ucast (take_bit 7 y) OR 0x80 :: u8) :: u32)) 0"
    by (simp only: bit_drop_bit_eq bit_more_byte comp_apply) simp
  then show "drop_bit 7 (ucast (ucast (take_bit 7 y) OR 0x80 :: u8) :: u32) \<noteq> 0"
    by (metis bit_0_eq bot_apply bot_bool_def)
  show "take_bit 7 (ucast (ucast (take_bit 7 y) OR 0x80 :: u8) :: u32) = take_bit 7 y"
    by (rule bit_word_eqI) (simp only: bit_take_bit_iff bit_more_byte, auto)
qed

lemma join_bits: "take_bit n x OR push_bit n (take_bit 7 (drop_bit n x)) = take_bit (n + 7) (x :: u32)"
  by (rule bit_word_eqI) (auto simp: bit_or_iff bit_take_bit_iff bit_push_bit_iff bit_drop_bit_eq le_add_diff_inverse)

lemma join_last: "take_bit n x OR push_bit n (drop_bit n x) = (x :: u32)"
proof (rule bit_word_eqI)
  fix k assume "k < LENGTH(32)"
  then show "bit (take_bit n x OR push_bit n (drop_bit n x)) k = bit x k"
    by (cases "k < n") (simp_all add: bit_or_iff bit_take_bit_iff bit_push_bit_iff bit_drop_bit_eq)
qed

lemma take_all: "drop_bit n x = 0 \<Longrightarrow> take_bit n x = (x :: u32)"
  using join_last [of n x] by simp

lemma last_byte:
  assumes "drop_bit 7 (y :: u32) = 0"
  shows "(ucast (ucast y :: u8) :: u32) = y"
proof -
  have "(ucast (ucast (take_bit 7 y) :: u8) :: u32) = take_bit 7 y"
    by (rule bit_word_eqI) (simp only: bit_unsigned_iff bit_take_bit_iff, auto)
  then show ?thesis by (simp only: take_all [OF assms])
qed

definition host_holds :: "host \<Rightarrow> u64 \<Rightarrow> u8 list \<Rightarrow> bool" where
  "host_holds h p bs \<longleftrightarrow> (\<forall>k<length bs. h (p + of_nat k) = Some (bs ! k))"

lemma host_holds_Cons: "host_holds h p (b # bs) \<longleftrightarrow> h p = Some b \<and> host_holds h (p + 1) bs"
  by (auto simp: host_holds_def All_less_Suc2 add.assoc)

lemma DecodeUnsignedLeb128_run:
  assumes "host_holds h p (leb_bytes x)"
  shows "DecodeUnsignedLeb128 h p = Inr (x, p + of_nat (length (leb_bytes x)))"
proof -
  let ?y = "\<lambda>k. drop_bit (7 * k) x"
  have more: "leb_bytes (?y k) = (ucast (take_bit 7 (?y k)) OR 0x80) # leb_bytes (?y (Suc k))"
    if "?y (Suc k) \<noteq> 0" for k
    using that by (subst leb_bytes.simps) (simp add: add.commute)
  have stop: "leb_bytes (?y k) = [ucast (?y k)]" if "?y (Suc k) = 0" for k
    using that by (subst leb_bytes.simps) (simp add: add.commute)
  have down: "?y (Suc k) \<noteq> 0 \<Longrightarrow> ?y k \<noteq> 0" for k
    by (metis add.commute drop_bit_drop_bit drop_bit_of_0 mult_Suc_right)
  have top: "?y 5 = 0" by (rule bit_word_eqI) (simp add: bit_drop_bit_eq bit_imp_le_length)
  note run = DecodeUnsignedLeb128_def leb_byte_def host_holds_Cons above_7f and_7f more_byte join_bits join_last take_all
    add.commute [of p]
  consider "?y 1 = 0" | "?y 1 \<noteq> 0" "?y 2 = 0" | "?y 1 \<noteq> 0" "?y 2 \<noteq> 0" "?y 3 = 0"
    | "?y 1 \<noteq> 0" "?y 2 \<noteq> 0" "?y 3 \<noteq> 0" "?y 4 = 0" | "?y 1 \<noteq> 0" "?y 2 \<noteq> 0" "?y 3 \<noteq> 0" "?y 4 \<noteq> 0"
    using down [of 3] down [of 2] down [of 1] by fastforce
  then show ?thesis
  proof cases
    case 1
    then show ?thesis using assms stop [of 0] last_byte [of x] by (simp add: run)
  next
    case 2
    then show ?thesis using assms more [of 0] stop [of 1] last_byte [of "?y 1"]
      by (simp add: run numeral_2_eq_2)
  next
    case 3
    then show ?thesis using assms more [of 0] more [of 1] stop [of 2] last_byte [of "?y 2"]
      by (simp add: run numeral_2_eq_2 numeral_3_eq_3)
  next
    case 4
    then show ?thesis using assms more [of 0] more [of 1] more [of 2] stop [of 3] last_byte [of "?y 3"]
      by (simp add: run)
  next
    case 5
    then show ?thesis using assms more [of 0] more [of 1] more [of 2] more [of 3] stop [of 4] last_byte [of "?y 4"] top
      by (simp add: run)
  qed
qed

section \<open>Bit tables\<close>

text \<open>
  A table of rows of values: the column widths and the number of rows as varints, then the cells
  row by row. A value is stored plus one, so that the value without meaning is stored as zero.
\<close>

definition row_cells :: "nat list \<Rightarrow> u32 list \<Rightarrow> bool list list" where
  "row_cells widths row = map2 (\<lambda>w v. bits_of w (v + 1)) widths row"

definition table_cells :: "nat list \<Rightarrow> u32 list list \<Rightarrow> bool list" where
  "table_cells widths rows = concat (map (\<lambda>row. concat (row_cells widths row)) rows)"

definition table_header :: "nat list \<Rightarrow> u32 list list \<Rightarrow> u32 list" where
  "table_header widths rows = of_nat (length rows) # map of_nat widths"

definition header_bits :: "int \<Rightarrow> nat list \<Rightarrow> u32 list list \<Rightarrow> bool list" where
  "header_bits oat widths rows =
     (if oat \<ge> 173 then interleaved_bits (table_header widths rows)
      else concat (map varint_bits (table_header widths rows)))"

definition table_bits :: "int \<Rightarrow> nat list \<Rightarrow> u32 list list \<Rightarrow> bool list" where
  "table_bits oat widths rows = header_bits oat widths rows @ table_cells widths rows"

definition table_ok :: "nat list \<Rightarrow> u32 list list \<Rightarrow> bool" where
  "table_ok widths rows \<longleftrightarrow> rows \<noteq> [] \<and> length rows < 2 ^ 32 \<and> length rows * sum_list widths < 2 ^ 32 \<and>
     length widths < 16 \<and> sum_list widths < 2 ^ 16 \<and> (\<forall>w\<in>set widths. w \<le> 32) \<and>
     (\<forall>row\<in>set rows. length row = length widths \<and>
        (\<forall>j<length widths. take_bit (widths ! j) (row ! j + 1) = row ! j + 1))"

lemma length_concat_take_cells:
  "length row = length widths \<Longrightarrow> length (concat (take j (row_cells widths row))) = sum_list (take j widths)"
proof (induction widths arbitrary: row j)
  case (Cons w ws)
  then obtain v vs where "row = v # vs" by (cases row) auto
  then show ?case using Cons by (cases j) (simp_all add: row_cells_def)
qed (simp add: row_cells_def)

lemma length_concat_take_rows:
  "\<forall>row\<in>set rows. length row = length widths \<Longrightarrow> i \<le> length rows \<Longrightarrow>
   length (concat (take i (map (\<lambda>row. concat (row_cells widths row)) rows))) = i * sum_list widths"
  using length_concat_take_cells [of _ widths "length widths"]
  by (subst length_concat_same [where n = "sum_list widths"])
    (auto dest!: in_set_takeD simp: row_cells_def)

lemma table_cell_run:
  assumes "table_ok widths rows" "holds_bits c a p (table_cells widths rows)" "i < length rows" "j < length widths"
  shows "holds_bits c a (p + (i * sum_list widths + sum_list (take j widths))) (bits_of (widths ! j) (rows ! i ! j + 1))"
proof -
  have len: "\<forall>row\<in>set rows. length row = length widths" using assms(1) by (simp add: table_ok_def)
  then have li: "length (rows ! i) = length widths" using assms(3) by simp
  have "holds_bits c a (p + i * sum_list widths) (concat (row_cells widths (rows ! i)))"
    using holds_bits_concat [OF assms(2) [unfolded table_cells_def], of i] assms(3) length_concat_take_rows [OF len, of i]
    by simp
  then show ?thesis
    using holds_bits_concat [of c a "p + i * sum_list widths" "row_cells widths (rows ! i)" j]
      length_concat_take_cells [OF li, of j] li assms(4)
    by (simp add: row_cells_def add.assoc)
qed

lemma ucast_of_nat_small: "x < 2 ^ LENGTH('a) \<Longrightarrow> ucast (of_nat x :: 'a::len word) = (of_nat x :: 'b::len word)"
  by (metis of_nat_unat unat_of_nat_small)

lemma column_ends_sums:
  assumes "e + sum_list widths < 2 ^ 16"
  shows "column_ends (of_nat e) (map of_nat widths) = map (\<lambda>j. of_nat (e + sum_list (take (Suc j) widths))) [0..<length widths]"
  using assms
proof (induction widths arbitrary: e)
  case (Cons w ws)
  have "ucast (ucast (of_nat e :: u16) + of_nat w :: u32) = (of_nat (e + w) :: u16)"
  proof -
    have "ucast (of_nat e :: u16) = (of_nat e :: u32)" using Cons.prems by (intro ucast_of_nat_small) simp
    then show ?thesis using Cons.prems by (simp only: of_nat_add [symmetric]) (simp add: ucast_of_nat_small del: of_nat_add)
  qed
  then have "column_ends (of_nat e) (map of_nat (w # ws)) = of_nat (e + w) # column_ends (of_nat (e + w)) (map of_nat ws)"
    by (simp add: Let_def)
  also have "column_ends (of_nat (e + w)) (map of_nat ws) =
      map (\<lambda>j. of_nat (e + w + sum_list (take (Suc j) ws))) [0..<length ws]"
    using Cons.prems by (intro Cons.IH) simp
  finally show ?case by (simp add: map_upt_Suc add.assoc del: upt_Suc)
qed simp

lemma column_offset_nth:
  assumes "sum_list widths < 2 ^ 16" "j \<le> length widths"
  shows "vec_at (0 # column_ends 0 (map of_nat widths)) j = Inr (of_nat (sum_list (take j widths)) :: u16)"
  using column_ends_sums [of 0 widths] assms by (cases j) (simp_all add: vec_at_def)

lemma ucast_add_back: "ucast (ucast x + ucast y :: u64) = (x + y :: u32)"
proof -
  have "unat x < 2 ^ 32" "unat y < 2 ^ 32" using unsigned_less [of x] unsigned_less [of y] by simp_all
  then have "unat (ucast x + ucast y :: u64) = unat x + unat y"
    by (subst unat_add_no_wrap) (simp_all add: unsigned_ucast_eq take_bit_nat_eq_self)
  then show ?thesis by (simp add: word_unat_eq_iff unsigned_ucast_eq unat_word_ariths take_bit_eq_mod)
qed

text \<open>A decoded table: its columns and the place of its cells.\<close>

definition table_at :: "bit_table \<Rightarrow> u64 \<Rightarrow> nat \<Rightarrow> nat list \<Rightarrow> u32 list list \<Rightarrow> bool" where
  "table_at t a p widths rows \<longleftrightarrow> num_rows t = of_nat (length rows) \<and>
     column_offset t = 0 # column_ends 0 (map of_nat widths) \<and>
     br_data (table_data t) = new_memory_ref a \<and> bit_start (table_data t) = of_nat p"

lemma widen16: "x < 2 ^ 16 \<Longrightarrow> ucast (of_nat x :: u16) = (of_nat x :: u32)"
  by (rule ucast_of_nat_small) simp

lemma sum_take_le: "sum_list (take j xs) \<le> sum_list (xs :: nat list)"
  by (metis append_take_drop_id le_add1 sum_list.append)

lemma cell_offset_at:
  assumes ok: "table_ok widths rows" and t: "table_at t a p widths rows" and "i < length rows" "j < length widths"
  shows "cell_offset (length widths) (of_nat i) j t = Inr (of_nat (i * sum_list widths + sum_list (take j widths)))"
    "NumColumnBits j t = Inr (of_nat (widths ! j))"
proof -
  have s: "sum_list widths < 2 ^ 16" using ok by (simp add: table_ok_def)
  note at = column_offset_nth [OF s]
  have lt: "sum_list (take k widths) < 2 ^ 16" for k using sum_take_le [of k widths] s by linarith
  have "i * sum_list widths + sum_list (take j widths) \<le> Suc i * sum_list widths" using sum_take_le [of j widths] by simp
  also have "\<dots> \<le> length rows * sum_list widths" using assms(3) by (intro mult_le_mono1) simp
  also have "\<dots> < 2 ^ 32" using ok by (simp add: table_ok_def)
  finally have b: "i * sum_list widths + sum_list (take j widths) < 2 ^ 32" .
  have "ucast (of_nat i * of_nat (sum_list widths) + of_nat (sum_list (take j widths)) :: u32) =
      (of_nat (i * sum_list widths + sum_list (take j widths)) :: u64)"
    unfolding of_nat_mult [symmetric] of_nat_add [symmetric] by (rule ucast_of_nat_small) (use b in simp)
  then show "cell_offset (length widths) (of_nat i) j t = Inr (of_nat (i * sum_list widths + sum_list (take j widths)))"
    using t at [of "length widths"] at [of j] assms(4) widen16 [OF lt]  widen16 [OF s]
    by (simp add: cell_offset_def NumRowBits_def table_at_def)
  have "sum_list (take (Suc j) widths) = sum_list (take j widths) + widths ! j"
    using assms(4) by (simp add: take_Suc_conv_app_nth)
  then have "(of_nat (sum_list (take (Suc j) widths)) :: u32) - of_nat (sum_list (take j widths)) = of_nat (widths ! j)"
    by simp
  then have "ucast (of_nat (sum_list (take (Suc j) widths)) :: u16) - ucast (of_nat (sum_list (take j widths)) :: u16) =
      (of_nat (widths ! j) :: u32)" unfolding widen16 [OF lt] .
  then show "NumColumnBits j t = Inr (of_nat (widths ! j))"
    using t at [of "Suc j"] at [of j] assms(4) unfolding NumColumnBits_def table_at_def by simp
qed

lemma Table_Get_run:
  assumes w: "bit_window c i a m" and ok: "table_ok widths rows" and t: "table_at t a p widths rows"
    and win: "in_window m p (length (table_cells widths rows))" and h: "holds_bits c a p (table_cells widths rows)"
    and r: "r < length rows" and j: "j < length widths"
  shows "Table_Get c (length widths) (of_nat r) j t = Inr (rows ! r ! j)"
proof -
  let ?o = "r * sum_list widths + sum_list (take j widths)" and ?w = "widths ! j" and ?x = "rows ! r ! j + 1"
  have w32: "?w \<le> 32" and fits: "take_bit ?w ?x = ?x" and len: "\<forall>row\<in>set rows. length row = length widths"
    using ok r j by (auto simp: table_ok_def)
  have "length (table_cells widths rows) = length rows * sum_list widths"
    using length_concat_take_rows [OF len, of "length rows"] by (simp add: table_cells_def)
  moreover have "?o + ?w \<le> Suc r * sum_list widths"
    using sum_take_le [of "Suc j" widths] j by (simp add: take_Suc_conv_app_nth)
  moreover have "Suc r * sum_list widths \<le> length rows * sum_list widths" using r by (intro mult_le_mono1) simp
  ultimately have win': "in_window m (p + ?o) ?w" using win by (auto elim!: in_window_less)
  obtain v where v: "LoadBits c (of_nat ?o) (of_nat ?w) (table_data t) = Inr v"
    "\<forall>k. bit v k \<longleftrightarrow> k < ?w \<and> target_bit c a (p + ?o + k)"
    using LoadBits_inside [OF w win', of "table_data t" "of_nat ?o"] t w32 bits_at_least_32 [of "core_machine c"]
    by (auto simp: table_at_def)
  have "v = ucast ?x"
    by (rule word_of_run [OF v(2) _ fits]) (use table_cell_run [OF ok h r j] in \<open>simp_all add: add.assoc\<close>)
  moreover have "ucast (of_nat ?w :: u32) = (of_nat ?w :: u64)"
    using w32 by (intro ucast_of_nat_small) simp
  moreover have "ucast (ucast ?x + ucast kValueBias :: u64) = rows ! r ! j"
    by (simp add: kValueBias_def kNoValue_def unsigned_ucast_eq ucast_add_back)
  ultimately show ?thesis
    using cell_offset_at [OF ok t r j] v(1) by (simp add: Table_Get_def)
qed

lemma read_varints_run:
  assumes w: "bit_window c i a m"
  shows "in_window m p (length (concat (map varint_bits xs))) \<Longrightarrow> reader_at rd a p \<Longrightarrow>
    holds_bits c a p (concat (map varint_bits xs)) \<Longrightarrow>
    read_varints c (length xs) rd = Inr (xs, advance (length (concat (map varint_bits xs))) rd)"
proof (induction xs arbitrary: p rd)
  case (Cons x xs)
  let ?k = "length (varint_bits x)"
  have "ReadVarint c rd = Inr (x, advance ?k rd)"
    using Cons.prems by (intro ReadVarint_run [OF w, of p]) (auto simp: holds_bits_append elim: in_window_less)
  moreover have "read_varints c (length xs) (advance ?k rd) =
      Inr (xs, advance (length (concat (map varint_bits xs))) (advance ?k rd))"
    using Cons.prems reader_at_advance
    by (intro Cons.IH [of "p + ?k"]) (auto simp: holds_bits_append elim: in_window_less)
  ultimately show ?case by simp
qed simp

text \<open>The header of a table, in both formats.\<close>

lemma take_table_data_at:
  assumes ok: "table_ok widths rows" and rd: "reader_at rd a p"
    and "num_rows t = of_nat (length rows)" "column_offset t = 0 # column_ends 0 (map of_nat widths)"
  shows "\<exists>t'. take_table_data (length widths) t rd = Inr (t', advance (length (table_cells widths rows)) rd) \<and>
    table_at t' a p widths rows"
proof -
  let ?n = "length rows * sum_list widths"
  have s: "sum_list widths < 2 ^ 16" and n: "?n < 2 ^ 32" and len: "\<forall>row\<in>set rows. length row = length widths"
    using ok by (simp_all add: table_ok_def)
  have "ucast (of_nat (length rows) * of_nat (sum_list widths) :: u32) = (of_nat ?n :: u64)"
    unfolding of_nat_mult [symmetric] by (rule ucast_of_nat_small) (use n in simp)
  moreover have "length (table_cells widths rows) = ?n"
    using length_concat_take_rows [OF len, of "length rows"] by (simp add: table_cells_def)
  ultimately show ?thesis
    using column_offset_nth [OF s, of "length widths"] widen16 [OF s] assms(2-4)
    by (simp add: take_table_data_def NumRowBits_def ReadRegion_def Resize_def br_Subregion_def advance_def
        table_at_def reader_at_def Let_def del: of_nat_mult)
qed

lemma DecodeOnly_run:
  assumes w: "bit_window c i a m" and ok: "table_ok widths rows" and oat: "159 \<le> oat"
    and win: "in_window m p (length (table_bits oat widths rows))" and rd: "reader_at rd a p"
    and h: "holds_bits c a p (table_bits oat widths rows)"
  shows "\<exists>t'. DecodeOnly oat c (length widths) t rd =
      Inr (table_header widths rows, t', advance (length (table_bits oat widths rows)) rd) \<and>
    table_at t' a (p + length (header_bits oat widths rows)) widths rows"
proof -
  let ?h = "table_header widths rows" and ?hb = "header_bits oat widths rows"
  note t0 = take_table_data_at [OF ok reader_at_advance [OF rd, of "length ?hb"],
      of "t\<lparr>num_rows := of_nat (length rows), column_offset := 0 # column_ends 0 (map of_nat widths)\<rparr>"]
  have win_h: "in_window m p (length ?hb)" using win by (auto simp: table_bits_def elim: in_window_less)
  have hb: "holds_bits c a p ?hb" using h by (simp add: table_bits_def holds_bits_append)
  show ?thesis
  proof (cases "173 \<le> oat")
    case True
    have "ReadInterleavedVarints c (length ?h) rd = Inr (?h, advance (length ?hb) rd)"
      using True win_h hb ok ReadInterleavedVarints_run [OF w, of p ?h rd] rd
      by (simp add: header_bits_def table_header_def table_ok_def)
    then show ?thesis
      using True t0
      by (auto simp: DecodeOnly_def table_header_def table_bits_def)
  next
    case False
    have rows: "(of_nat (length rows) :: u32) \<noteq> 0"
      using ok by (auto simp: table_ok_def word_of_nat_eq_0_iff dest!: dvd_imp_le)
    have "read_varints c (length ?h) rd = Inr (?h, advance (length ?hb) rd)"
      using False win_h hb read_varints_run [OF w, of p ?h rd] rd
      by (simp add: header_bits_def)
    then obtain rd1 where "ReadVarint c rd = Inr (of_nat (length rows), rd1)"
      "read_varints c (length widths) rd1 = Inr (map of_nat widths, advance (length ?hb) rd)"
      by (auto simp: table_header_def res_bind_Inr_iff)
    then show ?thesis
      using False oat rows t0
      by (auto simp: DecodeOnly_def table_header_def table_bits_def)
  qed
qed

end
