(* ===== verification/ArtProps.thy ===== *)
theory ArtProps
  imports CodeInfo BitCodes
begin

unbundle bit_operations_syntax

text \<open>
  Properties of the bit-packed data of the Android runtime: loads of bit runs, the encodings,
  and the decoding of a \<open>CodeInfo\<close> with the query from native to Dex program counters.
\<close>

section \<open>Readers at an address\<close>

lemma reader_new:
  assumes "a = RoundDown data art_kPageSize"
  shows "reader_at (new_BitMemoryReader data 0) a (8 * unat (data - a))"
proof -
  have "kBitsPerByte * (data - a) = (of_nat (8 * unat (data - a)) :: u64)" by (simp add: kBitsPerByte_def)
  then show ?thesis
    using assms by (simp add: reader_at_def new_BitMemoryReader_def new_BitMemoryRegion_def Let_def)
qed

section \<open>Bits as the bytes of a core\<close>

text \<open>A run of bits packed into bytes, with eight further bytes for the last word access.\<close>

definition pack_bits :: "bool list \<Rightarrow> u8 list" where
  "pack_bits bs = map (\<lambda>j. horner_sum of_bool 2 (map (\<lambda>k. 8 * j + k < length bs \<and> bs ! (8 * j + k)) [0..<8]))
     [0..<(length bs + 7) div 8 + 8]"

lemma length_pack_bits: "length (pack_bits bs) = (length bs + 7) div 8 + 8"
  by (simp add: pack_bits_def)

lemma target_bit_flat:
  assumes "flat_fits va bs" "va \<noteq> 0" "p < 8 * length bs"
  shows "target_bit (flat_core m va bs) va p = bit (bs ! (p div 8)) (p mod 8)"
  using flat_byte [OF assms(1,2), of "p div 8" m] assms(3) by (simp add: target_bit_def less_mult_imp_div_less mult.commute)

lemma flat_holds_bits:
  assumes "flat_fits va (pack_bits bs)" "va \<noteq> 0"
  shows "holds_bits (flat_core m va (pack_bits bs)) va 0 bs"
  unfolding holds_bits_def
proof (intro allI impI)
  fix k assume k: "k < length bs"
  have j: "k div 8 < (length bs + 7) div 8 + 8" using k by (simp add: div_le_mono less_Suc_eq_le trans_le_add1)
  have "target_bit (flat_core m va (pack_bits bs)) va k = bit (pack_bits bs ! (k div 8)) (k mod 8)"
    using assms k by (intro target_bit_flat) (simp_all add: length_pack_bits)
  also have "\<dots> = bs ! k"
    using j k by (simp add: pack_bits_def bit_horner_sum_bit_iff)
  finally show "target_bit (flat_core m va (pack_bits bs)) va (0 + k) = bs ! k" by simp
qed

lemma flat_window:
  assumes "flat_fits va bs" "va \<noteq> 0" "bits m = 64"
  shows "bit_window (flat_core m va bs) 0 va (length bs)"
  using flat_valid_seg [OF assms(1), of m] flat_inside [OF assms(1,2), of "length bs" 0 m] assms
  by (simp add: bit_window_def full_mask_def flat_fits_def flat_block_def mask_eq_exp_minus_1)

lemma pack_in_window: "in_window (length (pack_bits bs)) 0 (length bs)"
  by (simp add: in_window_def length_pack_bits)

section \<open>Loads and encodings\<close>

text \<open>The number that the \<open>n\<close> bits from bit \<open>p\<close> on spell, lowest bit first.\<close>

definition run_value :: "core \<Rightarrow> u64 \<Rightarrow> nat \<Rightarrow> nat \<Rightarrow> u64" where
  "run_value c a p n = horner_sum of_bool 2 (map (\<lambda>k. target_bit c a (p + k)) [0..<n])"

lemma run_value_bits: "n \<le> 64 \<Longrightarrow> bit (run_value c a p n) k \<longleftrightarrow> k < n \<and> target_bit c a (p + k)"
  by (auto simp: run_value_def bit_horner_sum_bit_iff)

text \<open>C24: The word-wise loads of bit runs are the bit-wise ones: \<open>LoadBits\<close>, with the words of the core (64
  or 32 bits), and \<open>LoadBits64\<close> return the number that the bits of target memory at the offset spell, for
  runs up to a word, across word boundaries too.\<close>

theorem LoadBits_reads_slice:
  assumes "bit_window c i a m" "in_window m p n" "br_data r = new_memory_ref a" "bit_start r + off = of_nat p"
  shows "(n \<le> bits (core_machine c) \<longrightarrow> LoadBits c off (of_nat n) r = Inr (run_value c a p n)) \<and>
    (n \<le> 64 \<longrightarrow> LoadBits64 c off (of_nat n) r = Inr (run_value c a p n))"
proof -
  have le: "bits (core_machine c) \<le> 64" using machine_width [of c] by auto
  have eq: "v = run_value c a p n" if "\<forall>k. bit v k \<longleftrightarrow> k < n \<and> target_bit c a (p + k)" "n \<le> 64" for v :: u64
    using that run_value_bits [OF that(2)] by (intro bit_word_eqI) simp
  show ?thesis
  proof (intro conjI impI)
    assume n: "n \<le> bits (core_machine c)"
    then obtain v where v: "LoadBits c off (of_nat n) r = Inr v" "\<forall>k. bit v k \<longleftrightarrow> k < n \<and> target_bit c a (p + k)"
      using LoadBits_inside [OF assms(1,2) _ assms(3,4)] by blast
    show "LoadBits c off (of_nat n) r = Inr (run_value c a p n)" unfolding v(1) eq [OF v(2) order_trans [OF n le]] ..
  next
    assume n: "n \<le> 64"
    then obtain v where v: "LoadBits64 c off (of_nat n) r = Inr v" "\<forall>k. bit v k \<longleftrightarrow> k < n \<and> target_bit c a (p + k)"
      using LoadBits64_inside [OF assms(1,2) _ assms(3,4)] by blast
    show "LoadBits64 c off (of_nat n) r = Inr (run_value c a p n)" unfolding v(1) eq [OF v(2) n] ..
  qed
qed

text \<open>Bits 4 to 11 of the bytes 0xAB 0xCD spell 0xDA.\<close>

definition demo_run :: "u8 list" where "demo_run = [0xAB, 0xCD] @ replicate 14 0"

lemma LoadBits_reads_slice_witness:
  "LoadBits (flat_core EM_AARCH64 0x1000 demo_run) 4 8 (new_BitMemoryRegion 0x1000 0 128) = Inr 0xDA"
proof -
  let ?c = "flat_core EM_AARCH64 0x1000 demo_run"
  have f: "flat_fits 0x1000 demo_run" by (simp add: flat_fits_def demo_run_def)
  have "run_value ?c 0x1000 4 8 = horner_sum of_bool 2 (map (\<lambda>k. bit (demo_run ! ((4 + k) div 8)) ((4 + k) mod 8)) [0..<8])"
    unfolding run_value_def using target_bit_flat [OF f, of "4 + k" EM_AARCH64 for k]
    by (intro arg_cong [where f = "horner_sum of_bool 2"] map_cong) (simp_all add: demo_run_def)
  also have "\<dots> = 0xDA" by code_simp
  finally have "run_value ?c 0x1000 4 8 = 0xDA" .
  then show ?thesis
    using LoadBits_reads_slice [OF flat_window [OF f, of EM_AARCH64], of 4 8 "new_BitMemoryRegion 0x1000 0 128" 4]
    by (simp add: demo_run_def in_window_def new_BitMemoryRegion_def RoundDown_def art_kPageSize_def Let_def)
qed

text \<open>Reading a LEB128 number gives the value that was written, for every 32-bit value, and leaves the
  pointer just past its last byte.\<close>

theorem DecodeUnsignedLeb128_roundtrip:
  assumes "host_holds h p (leb_bytes x)"
  shows "DecodeUnsignedLeb128 h p = Inr (x, p + of_nat (length (leb_bytes x)))"
  using DecodeUnsignedLeb128_run [OF assms] .

lemma DecodeUnsignedLeb128_roundtrip_witness:
  "DecodeUnsignedLeb128 (host_map (\<lambda>_. None) 0x10000 [0xE5, 0x8E, 0x26]) 0x10000 = Inr (624485, 0x10003)"
proof -
  have b: "leb_bytes 624485 = [0xE5, 0x8E, 0x26]" by code_simp
  have "host_holds (host_map (\<lambda>_. None) 0x10000 [0xE5, 0x8E, 0x26]) 0x10000 (leb_bytes 624485)"
    unfolding host_holds_def b by (auto simp: host_map_at)
  from DecodeUnsignedLeb128_roundtrip [OF this] show ?thesis by (simp add: b)
qed

text \<open>C22: A bit table as the runtime writes it is read back: decoding gives the header values, moves the
  reader past the table, and \<open>Get\<close> returns every cell, the value without meaning included. This covers the
  interleaved headers from version 173 on and the plain ones from version 159 on.\<close>

theorem BitTable_roundtrip:
  assumes w: "bit_window c i a m" and ok: "table_ok widths rows" and oat: "159 \<le> oat"
    and win: "in_window m p (length (table_bits oat widths rows))" and rd: "reader_at rd a p"
    and h: "holds_bits c a p (table_bits oat widths rows)"
  shows "\<exists>t' rd'. DecodeOnly oat c (length widths) t rd = Inr (table_header widths rows, t', rd') \<and>
    reader_at rd' a (p + length (table_bits oat widths rows)) \<and> num_rows t' = of_nat (length rows) \<and>
    (\<forall>r<length rows. \<forall>j<length widths. Table_Get c (length widths) (of_nat r) j t' = Inr (rows ! r ! j))"
proof -
  obtain t' where t': "DecodeOnly oat c (length widths) t rd =
      Inr (table_header widths rows, t', advance (length (table_bits oat widths rows)) rd)"
    "table_at t' a (p + length (header_bits oat widths rows)) widths rows"
    using DecodeOnly_run [OF w ok oat win rd h] by blast
  have "in_window m (p + length (header_bits oat widths rows)) (length (table_cells widths rows))"
    "holds_bits c a (p + length (header_bits oat widths rows)) (table_cells widths rows)"
    using win h by (auto simp: table_bits_def holds_bits_append elim: in_window_less)
  then have "\<forall>r<length rows. \<forall>j<length widths. Table_Get c (length widths) (of_nat r) j t' = Inr (rows ! r ! j)"
    using Table_Get_run [OF w ok t'(2)] by blast
  then show ?thesis using t' reader_at_advance [OF rd] by (auto simp: table_at_def)
qed

definition demo_widths :: "nat list" where "demo_widths = [5, 0, 9]"
definition demo_rows :: "u32 list list" where "demo_rows = [[17, -1, 300], [-1, -1, 2], [30, -1, -1]]"

lemma demo_table_ok: "table_ok demo_widths demo_rows"
  by (simp add: table_ok_def demo_widths_def demo_rows_def All_less_Suc2 take_bit_eq_mod)

lemma BitTable_roundtrip_witness:
  "\<exists>t' rd'. DecodeOnly 195 (flat_core EM_AARCH64 0x1000 (pack_bits (table_bits 195 demo_widths demo_rows))) 3 new_BitTable
      (new_BitMemoryReader 0x1000 0) = Inr ([3, 5, 0, 9], t', rd') \<and>
    Table_Get (flat_core EM_AARCH64 0x1000 (pack_bits (table_bits 195 demo_widths demo_rows))) 3 1 2 t' = Inr 2"
proof -
  let ?bs = "table_bits 195 demo_widths demo_rows"
  let ?c = "flat_core EM_AARCH64 0x1000 (pack_bits ?bs)"
  have "length ?bs = 58" by code_simp
  then have f: "flat_fits 0x1000 (pack_bits ?bs)" using length_pack_bits [of ?bs] by (auto simp: flat_fits_def)
  have w: "bit_window ?c 0 0x1000 (length (pack_bits ?bs))" using flat_window [OF f, of EM_AARCH64] by simp
  have rd: "reader_at (new_BitMemoryReader 0x1000 0) 0x1000 0"
    using reader_new [of "0x1000" "0x1000"] by (simp add: RoundDown_def art_kPageSize_def)
  have h: "holds_bits ?c 0x1000 0 ?bs" using flat_holds_bits [OF f, of EM_AARCH64] by simp
  have len: "length demo_widths = 3" "length demo_rows = 3" by (simp_all add: demo_widths_def demo_rows_def)
  have hd: "table_header demo_widths demo_rows = [3, 5, 0, 9]" by code_simp
  obtain t' rd' where t: "DecodeOnly 195 ?c 3 new_BitTable (new_BitMemoryReader 0x1000 0) = Inr ([3, 5, 0, 9], t', rd')"
    "\<forall>r<3. \<forall>j<3. Table_Get ?c 3 (of_nat r) j t' = Inr (demo_rows ! r ! j)"
    using BitTable_roundtrip [OF w demo_table_ok _ pack_in_window rd h, of new_BitTable] unfolding len hd by auto
  have "Table_Get ?c 3 1 2 t' = Inr 2" using t(2) [rule_format, of 1 2] by (simp add: demo_rows_def)
  then show ?thesis using t(1) by blast
qed

section \<open>The header of a code info\<close>

text \<open>The number of values in the header of a version.\<close>

definition header_length :: "int \<Rightarrow> nat" where
  "header_length oat = (if oat \<ge> 191 then 7 else if oat \<ge> 172 then 6 else if oat \<ge> 171 then 5 else 4)"

definition info_header_bits :: "int \<Rightarrow> u32 list \<Rightarrow> bool list" where
  "info_header_bits oat hs = (if oat \<ge> 173 then interleaved_bits hs else concat (map varint_bits hs))"

lemmas oat_init_defs = oatPreLoadLater_def CodeInfo_Init_def OatListener_execute_def
  CodeInfo_OatInit64_def CodeInfo_OatInit79_def CodeInfo_OatInit124_def CodeInfo_OatInit150_def
  CodeInfo_OatInit171_def CodeInfo_OatInit172_def CodeInfo_OatInit191_def StackMap_OatInit150_def
  StackMap_OatInit170_def RegisterMask_OatInit150_def RegisterMask_OatInit170_def StackMask_OatInit150_def
  StackMask_OatInit170_def InlineInfo_OatInit150_def InlineInfo_OatInit170_def MethodInfo_OatInit150_def
  MethodInfo_OatInit170_def MethodInfo_OatInit225_def DexRegisterMask_OatInit150_def
  DexRegisterMask_OatInit170_def DexRegisterMap_OatInit150_def DexRegisterMap_OatInit170_def
  DexRegisterInfo_OatInit150_def DexRegisterInfo_OatInit170_def

lemma oat_statics_173:
  assumes "173 \<le> oat"
  shows "kNumHeaders (oatPreLoadLater oat st) = header_length oat"
    "kNumBitTables (oatPreLoadLater oat st) = 8"
  using assms by (simp_all add: oat_init_defs header_length_def)

lemma oat_statics_170:
  assumes "170 \<le> oat"
  shows "kNumStackMaps (oatPreLoadLater oat st) = 8" "kColNumPackedNativePc (oatPreLoadLater oat st) = 1"
    "StackMap_kColNumDexPc (oatPreLoadLater oat st) = 2"
  using assms by (simp_all add: oat_init_defs)

lemma header_varints_run:
  assumes w: "bit_window c i a m" and "159 \<le> oat" "length hs = header_length oat" and rd: "reader_at rd a p"
    and "in_window m p (length (info_header_bits oat hs))" "holds_bits c a p (info_header_bits oat hs)"
  shows "header_varints oat (oatPreLoadLater oat st) c rd = Inr (hs, advance (length (info_header_bits oat hs)) rd)"
proof (cases "173 \<le> oat")
  case True
  have "length hs \<le> 16" using assms(3) by (auto simp: header_length_def split: if_splits)
  then show ?thesis
    using True assms ReadInterleavedVarints_run [OF w, of p hs rd] oat_statics_173 [OF True, of st]
    by (simp add: header_varints_def info_header_bits_def)
next
  case False
  then show ?thesis
    using assms read_varints_run [OF w, of p hs rd]
    by (auto simp: header_varints_def info_header_bits_def header_length_def split: if_splits)
qed

text \<open>The members that a version reads from the header, in their order.\<close>

definition info_fields :: "int \<Rightarrow> code_info \<Rightarrow> u32 list" where
  "info_fields oat ci =
     (if oat \<ge> 191 then [flags ci, code_size ci, packed_frame_size ci, core_spill_mask ci, fp_spill_mask ci,
                          number_of_dex_registers ci, bit_table_flags ci]
      else if oat \<ge> 172 then [flags ci, packed_frame_size ci, core_spill_mask ci, fp_spill_mask ci,
                          number_of_dex_registers ci, bit_table_flags ci]
      else if oat \<ge> 171 then [flags ci, packed_frame_size ci, core_spill_mask ci, fp_spill_mask ci, number_of_dex_registers ci]
      else [packed_frame_size ci, core_spill_mask ci, fp_spill_mask ci, number_of_dex_registers ci])"

lemma list_spelled:
  "length h = 4 \<Longrightarrow> [h ! 0, h ! Suc 0, h ! 2, h ! 3] = h"
  "length h = 5 \<Longrightarrow> [h ! 0, h ! Suc 0, h ! 2, h ! 3, h ! 4] = h"
  "length h = 6 \<Longrightarrow> [h ! 0, h ! Suc 0, h ! 2, h ! 3, h ! 4, h ! 5] = h"
  "length h = 7 \<Longrightarrow> [h ! 0, h ! Suc 0, h ! 2, h ! 3, h ! 4, h ! 5, h ! 6] = h"
  by (auto simp: length_Suc_conv numeral_eq_Suc)

lemma header_members_fields:
  assumes "length h = header_length oat"
  shows "\<exists>ci'. header_members oat h ci = Inr ci' \<and> info_fields oat ci' = h \<and>
    frame_size_in_bytes ci' = packed_frame_size ci' * kStackAlignment \<and> ci_reader ci' = ci_reader ci \<and> stack_map ci' = stack_map ci"
  using assms
  by (auto simp: header_members_def info_fields_def header_length_def list_spelled split: if_splits)

lemma DecodeHeaderOnly_run:
  assumes w: "bit_window c i a m" and a: "a = RoundDown data art_kPageSize" and p: "p = 8 * unat (data - a)"
    and oat: "159 \<le> oat" "length hs = header_length oat"
    and win: "in_window m p (length (info_header_bits oat hs))" and h: "holds_bits c a p (info_header_bits oat hs)"
  shows "\<exists>ci. DecodeHeaderOnly oat (oatPreLoadLater oat st) c data = Inr ci \<and> info_fields oat ci = hs \<and>
    frame_size_in_bytes ci = packed_frame_size ci * kStackAlignment \<and>
    reader_at (ci_reader ci) a (p + length (info_header_bits oat hs)) \<and> stack_map ci = new_StackMap"
proof -
  have rd: "reader_at (ci_reader (new_CodeInfo oat data)) a p"
    using reader_new [OF a] oat p by (simp add: new_CodeInfo_def)
  let ?rd = "advance (length (info_header_bits oat hs)) (ci_reader (new_CodeInfo oat data))"
  obtain ci where ci: "header_members oat hs (new_CodeInfo oat data\<lparr>ci_reader := ?rd\<rparr>) = Inr ci"
    "info_fields oat ci = hs" "frame_size_in_bytes ci = packed_frame_size ci * kStackAlignment"
    "ci_reader ci = ?rd" "stack_map ci = new_StackMap"
    using header_members_fields [OF oat(2), of "new_CodeInfo oat data\<lparr>ci_reader := ?rd\<rparr>"]
    by (auto simp: new_CodeInfo_def)
  then show ?thesis
    using header_varints_run [OF w oat rd win h, of st] oat(1) reader_at_advance [OF rd]
    by (simp add: DecodeHeaderOnly_def Let_def)
qed

lemma demo_reader: "0x1000 = RoundDown (0x1000 :: u64) art_kPageSize"
  by (simp add: RoundDown_def art_kPageSize_def)

text \<open>Decoding the header of a code info gives back the values that the runtime wrote, under the names
  of their members for the version at hand, from version 159 on; the frame size in bytes is the packed one
  times the stack alignment, and the reader stands at the first table.\<close>

theorem DecodeHeaderOnly_roundtrip:
  assumes "bit_window c i a m" "a = RoundDown data art_kPageSize" "p = 8 * unat (data - a)" "159 \<le> oat"
    and "length hs = header_length oat" "in_window m p (length (info_header_bits oat hs))"
    and "holds_bits c a p (info_header_bits oat hs)"
  shows "\<exists>ci. DecodeHeaderOnly oat (oatPreLoadLater oat st) c data = Inr ci \<and> info_fields oat ci = hs \<and>
    frame_size_in_bytes ci = packed_frame_size ci * 16 \<and>
    reader_at (ci_reader ci) a (p + length (info_header_bits oat hs))"
  using DecodeHeaderOnly_run [OF assms, of st] by (auto simp: kStackAlignment_def)

definition demo_header :: "u32 list" where "demo_header = [0, 0x1234, 5, 0x40F00000, 0, 3, 1]"

lemma DecodeHeaderOnly_roundtrip_witness:
  "\<exists>ci. DecodeHeaderOnly 195 (oatPreLoadLater 195 static_init)
      (flat_core EM_AARCH64 0x1000 (pack_bits (info_header_bits 195 demo_header))) 0x1000 = Inr ci \<and>
    code_size ci = 0x1234 \<and> core_spill_mask ci = 0x40F00000 \<and> frame_size_in_bytes ci = 80"
proof -
  let ?bs = "info_header_bits 195 demo_header"
  let ?c = "flat_core EM_AARCH64 0x1000 (pack_bits ?bs)"
  have "length ?bs = 76" by code_simp
  then have f: "flat_fits 0x1000 (pack_bits ?bs)" using length_pack_bits [of ?bs] by (auto simp: flat_fits_def)
  have w: "bit_window ?c 0 0x1000 (length (pack_bits ?bs))" using flat_window [OF f, of EM_AARCH64] by simp
  have h: "holds_bits ?c 0x1000 0 ?bs" using flat_holds_bits [OF f, of EM_AARCH64] by simp
  obtain ci where "DecodeHeaderOnly 195 (oatPreLoadLater 195 static_init) ?c 0x1000 = Inr ci"
    "info_fields 195 ci = demo_header" "frame_size_in_bytes ci = packed_frame_size ci * 16"
    using DecodeHeaderOnly_roundtrip [OF w demo_reader _ _ _ pack_in_window h, of static_init]
    by (auto simp: header_length_def demo_header_def)
  then show ?thesis by (auto simp: info_fields_def demo_header_def)
qed

section \<open>Decoding the stack maps\<close>

lemma StackMap_Decode_run:
  assumes w: "bit_window c i a m" and ok: "table_ok widths rows" and oat: "170 \<le> oat" and n: "length widths = 8"
    and win: "in_window m p (length (table_bits oat widths rows))" and rd: "reader_at rd a p"
    and h: "holds_bits c a p (table_bits oat widths rows)"
  shows "\<exists>t'. StackMap_Decode oat (oatPreLoadLater oat st) c t rd = Inr (t', advance (length (table_bits oat widths rows)) rd) \<and>
    table_at (sm_table t') a (p + length (header_bits oat widths rows)) widths rows"
proof -
  obtain tb where tb: "DecodeOnly oat c (length widths) (sm_table t) rd =
      Inr (table_header widths rows, tb, advance (length (table_bits oat widths rows)) rd)"
    "table_at tb a (p + length (header_bits oat widths rows)) widths rows"
    using DecodeOnly_run [OF w ok _ win rd h] oat by fastforce
  have "length (table_header widths rows) = 9" using n by (simp add: table_header_def)
  then show ?thesis using tb oat n oat_statics_170 [OF oat, of st] by (simp add: StackMap_Decode_def)
qed

lemma decode_tables_first:
  assumes "172 \<le> oat" "bit_table_flags ci = 1" "kNumBitTables st = 8"
    and "StackMap_Decode oat st c (stack_map ci) (ci_reader ci) = Inr (t, rd)"
  shows "\<exists>ci'. decode_tables oat st c ci = Inr ci' \<and> stack_map ci' = t"
  using assms
  by (simp add: decode_tables_def decode_slot_def decode_flagged_def HasBitTable_def IsBitTableDeduped_def
      drop_bit_eq_div)

text \<open>The program counters of the rows, and the reference for the query: the first row past the
  given native program counter, or the last one.\<close>

definition pc_pairs :: "machine \<Rightarrow> u32 list list \<Rightarrow> (u32 \<times> u32) list" where
  "pc_pairs mach rows = map (\<lambda>row. (UnpackNativePc mach (row ! 1), row ! 2)) rows"

definition dex_pc_of :: "u32 \<Rightarrow> (u32 \<times> u32) list \<Rightarrow> u32" where
  "dex_pc_of native_pc pcs =
     (case find (\<lambda>(n, d). n > native_pc) pcs of Some (n, d) \<Rightarrow> d | None \<Rightarrow> snd (last pcs))"

lemma dex_pc_loop_rows:
  assumes "\<forall>k<length pcs. f (rs ! k) = Inr (pcs ! k)" "length rs = length pcs"
  shows "dex_pc_loop f native_pc rs d = Inr (if pcs = [] then d else dex_pc_of native_pc pcs)"
  using assms
proof (induction pcs arbitrary: rs d)
  case (Cons q pcs)
  then obtain r rs' where rs: "rs = r # rs'" "length rs' = length pcs" by (cases rs) auto
  have "f r = Inr q" "\<forall>k<length pcs. f (rs' ! k) = Inr (pcs ! k)" using Cons.prems(1) rs by (auto simp: All_less_Suc2)
  then show ?case using Cons.IH [OF _ rs(2), of "snd q"] rs by (cases q) (auto simp: dex_pc_of_def split: option.splits)
qed simp

lemma collect_rows_all:
  assumes "\<forall>k<length pcs. f (rs ! k) = Inr (pcs ! k)" "length rs = length pcs"
  shows "collect_rows f rs = Inr pcs"
  using assms
proof (induction pcs arbitrary: rs)
  case (Cons q pcs)
  then obtain r rs' where rs: "rs = r # rs'" "length rs' = length pcs" by (cases rs) auto
  have "f r = Inr q" "\<forall>k<length pcs. f (rs' ! k) = Inr (pcs ! k)" using Cons.prems(1) rs by (auto simp: All_less_Suc2)
  then show ?case using Cons.IH [OF _ rs(2)] rs by simp
qed simp

lemma row_pcs_at:
  assumes w: "bit_window c i a m" and ok: "table_ok widths rows" and oat: "170 \<le> oat" and n: "length widths = 8"
    and t: "table_at (sm_table (stack_map ci)) a p widths rows"
    and win: "in_window m p (length (table_cells widths rows))" and h: "holds_bits c a p (table_cells widths rows)"
  shows "\<forall>k<length rows. row_pcs_144 (oatPreLoadLater oat st) c ci (row_indices (num_rows (sm_table (stack_map ci))) ! k) =
      Inr (pc_pairs (core_machine c) rows ! k)"
    "length (row_indices (num_rows (sm_table (stack_map ci)))) = length rows"
proof -
  have "length rows < 2 ^ 32" using ok by (simp add: table_ok_def)
  then have u: "unat (num_rows (sm_table (stack_map ci))) = length rows"
    using t by (simp add: table_at_def unat_of_nat_small)
  then show "length (row_indices (num_rows (sm_table (stack_map ci)))) = length rows" by (simp add: row_indices_def)
  note get = Table_Get_run [OF w ok t win h, unfolded n]
  show "\<forall>k<length rows. row_pcs_144 (oatPreLoadLater oat st) c ci (row_indices (num_rows (sm_table (stack_map ci))) ! k) =
      Inr (pc_pairs (core_machine c) rows ! k)"
    using u get [of _ 1] get [of _ 2] oat_statics_170 [OF oat, of st]
    by (auto simp: row_pcs_144_def row_indices_def pc_pairs_def Let_def)
qed

text \<open>C23: Decoding the code info of a method whose only table is the stack map table, and asking it for
  the Dex program counter of a native one, gives the value of the first row whose native program counter
  is larger, or of the last row; the listing of all rows gives their program counters in order.
  This holds for every column layout, on every machine, and in all formats from version 172 on.\<close>

theorem NativePc2DexPc_finds_row:
  assumes w: "bit_window c i a m" and a: "a = RoundDown data art_kPageSize" and p: "p = 8 * unat (data - a)"
    and oat: "172 \<le> oat" and hs: "length hs = header_length oat" "last hs = 1"
    and ok: "table_ok widths rows" "length widths = 8"
    and win: "in_window m p (length (info_header_bits oat hs @ table_bits oat widths rows))"
    and h: "holds_bits c a p (info_header_bits oat hs @ table_bits oat widths rows)"
  shows "\<exists>ci. CodeInfo_Decode oat (oatPreLoadLater oat st) c data = Inr ci \<and>
    NativePc2DexPc oat (oatPreLoadLater oat st) c native_pc ci = Inr (dex_pc_of native_pc (pc_pairs (core_machine c) rows)) \<and>
    NativeStackMaps oat (oatPreLoadLater oat st) c ci = Inr (pc_pairs (core_machine c) rows)"
proof -
  let ?st = "oatPreLoadLater oat st" and ?q = "p + length (info_header_bits oat hs)"
  have h1: "holds_bits c a p (info_header_bits oat hs)" and h2: "holds_bits c a ?q (table_bits oat widths rows)"
    using h by (simp_all add: holds_bits_append)
  have w1: "in_window m p (length (info_header_bits oat hs))" and w2: "in_window m ?q (length (table_bits oat widths rows))"
    using win by (auto elim: in_window_less)
  obtain ci where ci: "DecodeHeaderOnly oat ?st c data = Inr ci" "info_fields oat ci = hs" "reader_at (ci_reader ci) a ?q"
    using DecodeHeaderOnly_run [OF w a p _ hs(1) w1 h1, of st] oat by auto
  have flags: "bit_table_flags ci = 1" using ci(2) hs(2) oat by (auto simp: info_fields_def split: if_splits)
  obtain t where t: "StackMap_Decode oat ?st c (stack_map ci) (ci_reader ci) =
      Inr (t, advance (length (table_bits oat widths rows)) (ci_reader ci))"
    "table_at (sm_table t) a (?q + length (header_bits oat widths rows)) widths rows"
    using StackMap_Decode_run [OF w ok(1) _ ok(2) w2 ci(3) h2] oat by fastforce
  have nb: "kNumBitTables ?st = 8" using oat by (simp add: oat_init_defs)
  obtain ci' where ci': "decode_tables oat ?st c ci = Inr ci'" "stack_map ci' = t"
    using decode_tables_first [OF oat flags nb t(1)] by blast
  have dec: "CodeInfo_Decode oat ?st c data = Inr ci'" using oat ci(1) ci'(1) by (simp add: CodeInfo_Decode_def Let_def)
  have win3: "in_window m (?q + length (header_bits oat widths rows)) (length (table_cells widths rows))"
    using w2 by (auto simp: table_bits_def elim: in_window_less)
  have h3: "holds_bits c a (?q + length (header_bits oat widths rows)) (table_cells widths rows)"
    using h2 by (simp add: table_bits_def holds_bits_append)
  have o: "170 \<le> oat" using oat by simp
  have t': "table_at (sm_table (stack_map ci')) a (?q + length (header_bits oat widths rows)) widths rows"
    using t(2) ci'(2) by simp
  note rows = row_pcs_at(1) [OF w ok(1) o ok(2) t' win3 h3, of st, unfolded ci'(2)]
    row_pcs_at(2) [OF w ok(1) o ok(2) t' win3 h3, unfolded ci'(2)]
  have "pc_pairs (core_machine c) rows \<noteq> []" "length (pc_pairs (core_machine c) rows) = length rows"
    using ok(1) by (simp_all add: pc_pairs_def table_ok_def)
  then have "NativePc2DexPc oat ?st c native_pc ci' = Inr (dex_pc_of native_pc (pc_pairs (core_machine c) rows))"
    "NativeStackMaps oat ?st c ci' = Inr (pc_pairs (core_machine c) rows)"
    using rows oat ci'(2) dex_pc_loop_rows [of "pc_pairs (core_machine c) rows" "row_pcs_144 ?st c ci'"
        "row_indices (num_rows (sm_table t))" native_pc 0]
      collect_rows_all [of "pc_pairs (core_machine c) rows" "row_pcs_144 ?st c ci'" "row_indices (num_rows (sm_table t))"]
    by (simp_all add: NativePc2DexPc_def NativeStackMaps_def pc_rows_def)
  then show ?thesis using dec by blast
qed

definition map_widths :: "nat list" where "map_widths = [0, 6, 5, 0, 0, 0, 0, 0]"

definition map_rows :: "u32 list list" where
  "map_rows = [[-1, 3, 0, -1, -1, -1, -1, -1], [-1, 7, 9, -1, -1, -1, -1, -1], [-1, 20, 30, -1, -1, -1, -1, -1]]"

lemma map_table_ok: "table_ok map_widths map_rows"
  by (simp add: table_ok_def map_widths_def map_rows_def All_less_Suc2 take_bit_eq_mod)

lemma NativePc2DexPc_finds_row_witness:
  "\<exists>ci. CodeInfo_Decode 195 (oatPreLoadLater 195 static_init)
      (flat_core EM_AARCH64 0x1000 (pack_bits (info_header_bits 195 demo_header @ table_bits 195 map_widths map_rows))) 0x1000 = Inr ci \<and>
    NativePc2DexPc 195 (oatPreLoadLater 195 static_init)
      (flat_core EM_AARCH64 0x1000 (pack_bits (info_header_bits 195 demo_header @ table_bits 195 map_widths map_rows))) 12 ci = Inr 9"
proof -
  let ?bs = "info_header_bits 195 demo_header @ table_bits 195 map_widths map_rows"
  let ?c = "flat_core EM_AARCH64 0x1000 (pack_bits ?bs)"
  have "length ?bs = 145" by code_simp
  then have f: "flat_fits 0x1000 (pack_bits ?bs)" using length_pack_bits [of ?bs] by (auto simp: flat_fits_def)
  have w: "bit_window ?c 0 0x1000 (length (pack_bits ?bs))" using flat_window [OF f, of EM_AARCH64] by simp
  have h: "holds_bits ?c 0x1000 0 ?bs" using flat_holds_bits [OF f, of EM_AARCH64] by simp
  have "dex_pc_of 12 (pc_pairs EM_AARCH64 map_rows) = 9" by code_simp
  moreover have "length demo_header = header_length 195" "last demo_header = 1" "length map_widths = 8"
    by (simp_all add: header_length_def demo_header_def map_widths_def)
  ultimately show ?thesis
    using NativePc2DexPc_finds_row [OF w demo_reader _ _ _ _ map_table_ok _ pack_in_window h, of static_init 12] by auto
qed

section \<open>Empty tables in versions 170 to 172\<close>

lemma DecodeOnly_empty:
  assumes w: "bit_window c i a m" and "159 \<le> oat" "oat < 173" and rd: "reader_at rd a p" and win: "in_window m p 4"
    and h: "holds_bits c a p (bits_of 4 (0 :: u32))"
  shows "\<exists>t' rd'. DecodeOnly oat c n t rd = Inr ([0], t', rd')"
proof -
  have z: "varint_bits 0 = bits_of 4 (0 :: u32)"
    by (simp add: varint_bits_def varint_header_def varint_rest_def kVarintMax_def)
  have "ReadVarint c rd = Inr (0, advance 4 rd)"
    using ReadVarint_run [OF w, of p 0 rd] win rd h by (simp add: z)
  moreover have "length (vec_resize (n + 1) 0 (column_offset t)) = n + 1" by (simp add: vec_resize_def)
  ultimately show ?thesis
    using assms(2,3)
    by (simp add: DecodeOnly_def take_table_data_def NumRowBits_def vec_at_def ReadRegion_def Let_def)
qed

text \<open>C36: In versions 170 to 172 a table without rows is stored as the single value zero, and decoding it
  reads the members of the table class from a header vector that has only one element: every one of
  the eight table classes reads past the end of the vector.\<close>

theorem empty_table_reads_past_header:
  assumes w: "bit_window c i a m" and "170 \<le> oat" "oat < 173" and "reader_at rd a p" "in_window m p 4"
    and "holds_bits c a p (bits_of 4 (0 :: u32))"
  shows "StackMap_Decode oat st c t0 rd = Inl (HostFault 0) \<and> RegisterMask_Decode oat st c t1 rd = Inl (HostFault 0) \<and>
    StackMask_Decode oat st c t2 rd = Inl (HostFault 0) \<and> InlineInfo_Decode oat st c t3 rd = Inl (HostFault 0) \<and>
    MethodInfo_Decode oat st c t4 rd = Inl (HostFault 0) \<and> DexRegisterMask_Decode oat st c t5 rd = Inl (HostFault 0) \<and>
    DexRegisterMap_Decode oat st c t6 rd = Inl (HostFault 0) \<and> DexRegisterInfo_Decode oat st c t7 rd = Inl (HostFault 0)"
proof -
  have "\<forall>n t. \<exists>t' rd'. DecodeOnly oat c n t rd = Inr ([0], t', rd')"
    using DecodeOnly_empty [OF w _ assms(3-6)] assms(2) by simp
  then obtain F G where "\<And>n t. DecodeOnly oat c n t rd = Inr ([0], F n t, G n t)" by metis
  then show ?thesis
    using assms(2,3)
    by (simp add: StackMap_Decode_def RegisterMask_Decode_def StackMask_Decode_def InlineInfo_Decode_def
        MethodInfo_Decode_def DexRegisterMask_Decode_def DexRegisterMap_Decode_def DexRegisterInfo_Decode_def)
qed

lemma empty_table_reads_past_header_witness:
  "StackMap_Decode 170 (oatPreLoadLater 170 static_init)
      (flat_core EM_AARCH64 0x1000 (pack_bits (bits_of 4 (0 :: u32)))) new_StackMap (new_BitMemoryReader 0x1000 0) = Inl (HostFault 0)"
proof -
  let ?bs = "bits_of 4 (0 :: u32)"
  let ?c = "flat_core EM_AARCH64 0x1000 (pack_bits ?bs)"
  have f: "flat_fits 0x1000 (pack_bits ?bs)" using length_pack_bits [of ?bs] by (auto simp: flat_fits_def)
  have w: "bit_window ?c 0 0x1000 (length (pack_bits ?bs))" using flat_window [OF f, of EM_AARCH64] by simp
  have h: "holds_bits ?c 0x1000 0 ?bs" using flat_holds_bits [OF f, of EM_AARCH64] by simp
  have rd: "reader_at (new_BitMemoryReader 0x1000 0) 0x1000 0" using reader_new [OF demo_reader] by simp
  show ?thesis
    using empty_table_reads_past_header [OF w _ _ rd _ h, of 170 "oatPreLoadLater 170 static_init" new_StackMap]
      pack_in_window [of ?bs] by simp
qed

end
