(* ===== verification/Dwarf.thy ===== *)
theory Dwarf
  imports ElfLoad
begin

unbundle bit_operations_syntax

text \<open>
  The DWARF reader (core/api/dwarf.h, dwarf.cpp): it maps an ELF file, finds the debug sections,
  reads all abbreviation tables, walks the debugging entries of every compile unit and collects the
  structures with their members and bases; at the end the names of the member types are resolved.

  Pointers are addresses of the analysing process (the null pointer is 0) and pointer sums are taken
  at 64 bits, as the compiled code takes them. A pointer result and the values the code writes
  through its out parameters are returned together; an out parameter that is a null pointer is
  \<open>None\<close>. The log calls are left out. The zstd decoder is a parameter: the decoded bytes of a
  payload for a buffer of the given capacity, \<open>None\<close> when it fails or is not compiled in.
\<close>

section \<open>Constants (dwarf.h, dwarf.cpp)\<close>

definition DW_TAG_array_type :: u32 where "DW_TAG_array_type = 0x01"
definition DW_TAG_class_type :: u32 where "DW_TAG_class_type = 0x02"
definition DW_TAG_enumeration_type :: u32 where "DW_TAG_enumeration_type = 0x04"
definition DW_TAG_member :: u32 where "DW_TAG_member = 0x0d"
definition DW_TAG_pointer_type :: u32 where "DW_TAG_pointer_type = 0x0f"
definition DW_TAG_reference_type :: u32 where "DW_TAG_reference_type = 0x10"
definition DW_TAG_typedef :: u32 where "DW_TAG_typedef = 0x16"
definition DW_TAG_union_type :: u32 where "DW_TAG_union_type = 0x17"
definition DW_TAG_inheritance :: u32 where "DW_TAG_inheritance = 0x1c"
definition DW_TAG_structure_type :: u32 where "DW_TAG_structure_type = 0x13"
definition DW_TAG_base_type :: u32 where "DW_TAG_base_type = 0x24"
definition DW_TAG_const_type :: u32 where "DW_TAG_const_type = 0x26"
definition DW_TAG_volatile_type :: u32 where "DW_TAG_volatile_type = 0x35"
definition DW_TAG_namespace :: u32 where "DW_TAG_namespace = 0x39"
definition DW_TAG_rvalue_reference_type :: u32 where "DW_TAG_rvalue_reference_type = 0x42"

definition DW_AT_name :: u32 where "DW_AT_name = 0x03"
definition DW_AT_byte_size :: u32 where "DW_AT_byte_size = 0x0b"
definition DW_AT_data_member_location :: u32 where "DW_AT_data_member_location = 0x38"
definition DW_AT_type :: u32 where "DW_AT_type = 0x49"
definition DW_AT_str_offsets_base :: u32 where "DW_AT_str_offsets_base = 0x72"

definition DW_OP_plus_uconst :: u8 where "DW_OP_plus_uconst = 0x23"

definition DW_FORM_addr :: u32 where "DW_FORM_addr = 0x01"
definition DW_FORM_block2 :: u32 where "DW_FORM_block2 = 0x03"
definition DW_FORM_block4 :: u32 where "DW_FORM_block4 = 0x04"
definition DW_FORM_data2 :: u32 where "DW_FORM_data2 = 0x05"
definition DW_FORM_data4 :: u32 where "DW_FORM_data4 = 0x06"
definition DW_FORM_data8 :: u32 where "DW_FORM_data8 = 0x07"
definition DW_FORM_string :: u32 where "DW_FORM_string = 0x08"
definition DW_FORM_block :: u32 where "DW_FORM_block = 0x09"
definition DW_FORM_block1 :: u32 where "DW_FORM_block1 = 0x0a"
definition DW_FORM_data1 :: u32 where "DW_FORM_data1 = 0x0b"
definition DW_FORM_flag :: u32 where "DW_FORM_flag = 0x0c"
definition DW_FORM_sdata :: u32 where "DW_FORM_sdata = 0x0d"
definition DW_FORM_strp :: u32 where "DW_FORM_strp = 0x0e"
definition DW_FORM_udata :: u32 where "DW_FORM_udata = 0x0f"
definition DW_FORM_ref_addr :: u32 where "DW_FORM_ref_addr = 0x10"
definition DW_FORM_ref1 :: u32 where "DW_FORM_ref1 = 0x11"
definition DW_FORM_ref2 :: u32 where "DW_FORM_ref2 = 0x12"
definition DW_FORM_ref4 :: u32 where "DW_FORM_ref4 = 0x13"
definition DW_FORM_ref8 :: u32 where "DW_FORM_ref8 = 0x14"
definition DW_FORM_ref_udata :: u32 where "DW_FORM_ref_udata = 0x15"
definition DW_FORM_indirect :: u32 where "DW_FORM_indirect = 0x16"
definition DW_FORM_sec_offset :: u32 where "DW_FORM_sec_offset = 0x17"
definition DW_FORM_exprloc :: u32 where "DW_FORM_exprloc = 0x18"
definition DW_FORM_flag_present :: u32 where "DW_FORM_flag_present = 0x19"
definition DW_FORM_strx :: u32 where "DW_FORM_strx = 0x1a"
definition DW_FORM_addrx :: u32 where "DW_FORM_addrx = 0x1b"
definition DW_FORM_ref_sup4 :: u32 where "DW_FORM_ref_sup4 = 0x1c"
definition DW_FORM_strp_sup :: u32 where "DW_FORM_strp_sup = 0x1d"
definition DW_FORM_data16 :: u32 where "DW_FORM_data16 = 0x1e"
definition DW_FORM_line_strp :: u32 where "DW_FORM_line_strp = 0x1f"
definition DW_FORM_ref_sig8 :: u32 where "DW_FORM_ref_sig8 = 0x20"
definition DW_FORM_implicit_const :: u32 where "DW_FORM_implicit_const = 0x21"
definition DW_FORM_loclistx :: u32 where "DW_FORM_loclistx = 0x22"
definition DW_FORM_rnglistx :: u32 where "DW_FORM_rnglistx = 0x23"
definition DW_FORM_ref_sup8 :: u32 where "DW_FORM_ref_sup8 = 0x24"
definition DW_FORM_strx1 :: u32 where "DW_FORM_strx1 = 0x25"
definition DW_FORM_strx2 :: u32 where "DW_FORM_strx2 = 0x26"
definition DW_FORM_strx3 :: u32 where "DW_FORM_strx3 = 0x27"
definition DW_FORM_strx4 :: u32 where "DW_FORM_strx4 = 0x28"
definition DW_FORM_addrx1 :: u32 where "DW_FORM_addrx1 = 0x29"
definition DW_FORM_addrx2 :: u32 where "DW_FORM_addrx2 = 0x2a"
definition DW_FORM_addrx3 :: u32 where "DW_FORM_addrx3 = 0x2b"
definition DW_FORM_addrx4 :: u32 where "DW_FORM_addrx4 = 0x2c"

definition DW_CHILDREN_yes :: u8 where "DW_CHILDREN_yes = 1"
definition DW_UT_compile :: u8 where "DW_UT_compile = 0x01"
definition SHF_COMPRESSED :: u64 where "SHF_COMPRESSED = 0x800"
definition ELFCOMPRESS_ZLIB :: u32 where "ELFCOMPRESS_ZLIB = 1"
definition ELFCOMPRESS_ZSTD :: u32 where "ELFCOMPRESS_ZSTD = 2"

lemmas dw_tags =
  DW_TAG_array_type_def DW_TAG_class_type_def DW_TAG_enumeration_type_def DW_TAG_member_def
  DW_TAG_pointer_type_def DW_TAG_reference_type_def DW_TAG_typedef_def DW_TAG_union_type_def
  DW_TAG_inheritance_def DW_TAG_structure_type_def DW_TAG_base_type_def DW_TAG_const_type_def
  DW_TAG_volatile_type_def DW_TAG_namespace_def DW_TAG_rvalue_reference_type_def

lemmas dw_attributes =
  DW_AT_name_def DW_AT_byte_size_def DW_AT_data_member_location_def DW_AT_type_def
  DW_AT_str_offsets_base_def

lemmas dw_forms =
  DW_FORM_addr_def DW_FORM_block2_def DW_FORM_block4_def DW_FORM_data2_def DW_FORM_data4_def
  DW_FORM_data8_def DW_FORM_string_def DW_FORM_block_def DW_FORM_block1_def DW_FORM_data1_def
  DW_FORM_flag_def DW_FORM_sdata_def DW_FORM_strp_def DW_FORM_udata_def DW_FORM_ref_addr_def
  DW_FORM_ref1_def DW_FORM_ref2_def DW_FORM_ref4_def DW_FORM_ref8_def DW_FORM_ref_udata_def
  DW_FORM_indirect_def DW_FORM_sec_offset_def DW_FORM_exprloc_def DW_FORM_flag_present_def
  DW_FORM_strx_def DW_FORM_addrx_def DW_FORM_ref_sup4_def DW_FORM_strp_sup_def DW_FORM_data16_def
  DW_FORM_line_strp_def DW_FORM_ref_sig8_def DW_FORM_implicit_const_def DW_FORM_loclistx_def
  DW_FORM_rnglistx_def DW_FORM_ref_sup8_def DW_FORM_strx1_def DW_FORM_strx2_def DW_FORM_strx3_def
  DW_FORM_strx4_def DW_FORM_addrx1_def DW_FORM_addrx2_def DW_FORM_addrx3_def DW_FORM_addrx4_def

section \<open>Data (dwarf.h)\<close>

text \<open>Signed values are kept as their 64 bits; every use casts them to \<open>uint64_t\<close>.\<close>

record attr_spec =
  as_name :: u32
  as_form :: u32
  as_implicit_const :: u64

record abbrev_entry =
  ae_code :: u32
  ae_tag :: u32
  ae_has_children :: bool
  ae_attrs :: "attr_spec list"

type_synonym abbrev_table = "u32 \<rightharpoonup> abbrev_entry"

record base_info =
  bi_type_name :: string
  bi_offset :: u32
  bi_has_offset :: bool

record member_info =
  mi_name :: string
  mi_type_name :: string
  mi_offset :: u32
  mi_has_offset :: bool

record struct_info =
  si_name :: string
  si_byte_size :: u32
  si_has_size :: bool
  si_bases :: "base_info list"
  si_members :: "member_info list"

record type_entry =
  te_name :: string
  te_type_ref :: u64
  te_qualifier :: nat

text \<open>Indices into the vectors are C \<open>int\<close>s, here without their bound; \<open>-1\<close> is \<open>kNoStruct\<close>.\<close>

record pending_ref =
  pr_struct_idx :: int
  pr_is_base :: bool
  pr_item_idx :: int
  pr_type_offset :: u64

record dwarf_loader =
  debug_abbrev_data :: u64
  debug_abbrev_size :: u64
  debug_info_data :: u64
  debug_info_size :: u64
  debug_str_data :: u64
  debug_str_size :: u64
  debug_str_offsets_data :: u64
  debug_str_offsets_size :: u64
  elf_bits :: elf_class
  abbrev_map :: "u64 \<rightharpoonup> abbrev_table"
  structs :: "struct_info list"
  type_registry :: "u64 \<rightharpoonup> type_entry"
  pending_refs :: "pending_ref list"

definition new_DwarfLoader :: dwarf_loader where
  "new_DwarfLoader = \<lparr>debug_abbrev_data = 0, debug_abbrev_size = 0, debug_info_data = 0,
     debug_info_size = 0, debug_str_data = 0, debug_str_size = 0, debug_str_offsets_data = 0,
     debug_str_offsets_size = 0, elf_bits = ELF64, abbrev_map = Map.empty, structs = [],
     type_registry = Map.empty, pending_refs = []\<rparr>"

section \<open>LEB128\<close>

lemma unat_ptr_Suc:
  fixes p e :: "'a::len word"
  assumes "p < e"
  shows "unat (p + 1) = Suc (unat p)"
proof -
  have "unat p < unat e" using assms by (simp add: word_less_nat_alt)
  moreover have "unat e < 2 ^ LENGTH('a)" by (rule unsigned_less)
  ultimately have "unat p + unat (1 :: 'a word) < 2 ^ LENGTH('a)" by (simp only: unsigned_1)
  then show ?thesis by (simp add: unat_add_no_wrap)
qed

function uleb_loop :: "host \<Rightarrow> u64 \<Rightarrow> nat \<Rightarrow> u64 \<Rightarrow> u64 \<Rightarrow> (u64 \<times> u64) res" where
  "uleb_loop h e shift acc p =
     (if p < e \<and> shift < 64 then
        (case h p of None \<Rightarrow> Inl (HostFault p)
         | Some b \<Rightarrow>
             (let r = acc OR push_bit shift (ucast (b AND 0x7f)) in
              if b AND 0x80 = 0 then Inr (r, p + 1)
              else uleb_loop h e (shift + 7) r (p + 1)))
      else Inr (acc, p))"
  by pat_completeness auto
termination by (relation "measure (\<lambda>(h, e, shift, acc, p). 64 - shift)") auto

declare uleb_loop.simps [simp del]

definition ReadULEB128 :: "host \<Rightarrow> u64 \<Rightarrow> u64 \<Rightarrow> (u64 \<times> u64) res" where
  "ReadULEB128 h e p = uleb_loop h e 0 0 p"

function sleb_loop :: "host \<Rightarrow> u64 \<Rightarrow> nat \<Rightarrow> u8 \<Rightarrow> u64 \<Rightarrow> u64 \<Rightarrow> (u64 \<times> nat \<times> u8 \<times> u64) res" where
  "sleb_loop h e shift b acc p =
     (if p < e \<and> shift < 64 then
        (case h p of None \<Rightarrow> Inl (HostFault p)
         | Some b' \<Rightarrow>
             (let r = acc OR push_bit shift (ucast (b' AND 0x7f)) in
              if b' AND 0x80 = 0 then Inr (r, shift + 7, b', p + 1)
              else sleb_loop h e (shift + 7) b' r (p + 1)))
      else Inr (acc, shift, b, p))"
  by pat_completeness auto
termination by (relation "measure (\<lambda>(h, e, shift, b, acc, p). 64 - shift)") auto

declare sleb_loop.simps [simp del]

definition ReadSLEB128 :: "host \<Rightarrow> u64 \<Rightarrow> u64 \<Rightarrow> (u64 \<times> u64) res" where
  "ReadSLEB128 h e p =
     res_bind (sleb_loop h e 0 0 0 p) (\<lambda>(r, shift, b, p').
       Inr (if shift < 64 \<and> b AND 0x40 \<noteq> 0 then r OR - push_bit shift 1 else r, p'))"

text \<open>The readers stay inside the range, and consume a byte when there is one.\<close>

lemma uleb_loop_moves:
  assumes "uleb_loop h e shift acc p = Inr (v, q)" "p \<le> e"
  shows "p \<le> q \<and> q \<le> e \<and> (p < e \<and> shift < 64 \<longrightarrow> p < q)"
  using assms
proof (induction h e shift acc p rule: uleb_loop.induct)
  case (1 h e shift acc p)
  show ?case
  proof (cases "p < e \<and> shift < 64")
    case True
    then have suc: "unat (p + 1) = Suc (unat p)" using unat_ptr_Suc by blast
    have step: "p < p + 1" "p + 1 \<le> e"
      using True suc by (simp_all add: word_less_nat_alt word_le_nat_alt)
    obtain b where b: "h p = Some b" using 1(2) True by (subst (asm) uleb_loop.simps) (auto split: option.splits)
    show ?thesis
    proof (cases "b AND 0x80 = 0")
      case t: True
      then show ?thesis using 1(2) True b step by (subst (asm) uleb_loop.simps) (auto simp: Let_def)
    next
      case False
      then have "uleb_loop h e (shift + 7) (acc OR push_bit shift (ucast (b AND 0x7f))) (p + 1) = Inr (v, q)"
        using 1(2) True b by (subst (asm) uleb_loop.simps) (simp add: Let_def)
      from 1(1) [OF True b refl False this step(2)] step show ?thesis by auto
    qed
  next
    case False
    then show ?thesis using 1(2,3) by (subst (asm) uleb_loop.simps) auto
  qed
qed

text \<open>Both loops accumulate the same number; the signed one also keeps its last byte.\<close>

lemma sleb_loop_uleb:
  "res_bind (sleb_loop h e shift b acc p) (\<lambda>(v, s, c, q). Inr (v, q)) = uleb_loop h e shift acc p"
proof (induction h e shift b acc p rule: sleb_loop.induct)
  case (1 h e shift b acc p)
  then show ?case
    by (subst sleb_loop.simps, subst uleb_loop.simps) (auto simp: Let_def split: option.splits)
qed

lemma ReadULEB128_moves:
  assumes "ReadULEB128 h e p = Inr (v, q)" "p \<le> e"
  shows "p \<le> q" "q \<le> e" "p < e \<Longrightarrow> p < q"
  using uleb_loop_moves [OF assms(1) [unfolded ReadULEB128_def] assms(2)] by auto

lemma ReadSLEB128_moves:
  assumes "ReadSLEB128 h e p = Inr (v, q)" "p \<le> e"
  shows "p \<le> q" "q \<le> e" "p < e \<Longrightarrow> p < q"
proof -
  obtain r s b where "sleb_loop h e 0 0 0 p = Inr (r, s, b, q)"
    using assms(1) by (auto simp: ReadSLEB128_def res_bind_Inr_iff)
  then have "ReadULEB128 h e p = Inr (r, q)"
    using sleb_loop_uleb [of h e 0 0 0 p] by (simp add: ReadULEB128_def)
  from ReadULEB128_moves [OF this assms(2)] show "p \<le> q" "q \<le> e" "p < e \<Longrightarrow> p < q" by auto
qed

section \<open>Strings\<close>

definition IsRelRef :: "u32 \<Rightarrow> bool" where
  "IsRelRef form \<longleftrightarrow> form = DW_FORM_ref1 \<or> form = DW_FORM_ref2 \<or> form = DW_FORM_ref4 \<or>
     form = DW_FORM_ref8 \<or> form = DW_FORM_ref_udata"

text \<open>\<open>while (p < end && *p) ++p\<close>.\<close>

function str_end :: "host \<Rightarrow> u64 \<Rightarrow> u64 \<Rightarrow> u64 res" where
  "str_end h e p =
     (if p < e then
        (case h p of None \<Rightarrow> Inl (HostFault p)
         | Some b \<Rightarrow> if b = 0 then Inr p else str_end h e (p + 1))
      else Inr p)"
  by pat_completeness auto
termination
  by (relation "measure (\<lambda>(h, e, p). unat e - unat p)")
    (auto simp: unat_ptr_Suc word_less_nat_alt)

declare str_end.simps [simp del]

definition GetDebugStr :: "host \<Rightarrow> dwarf_loader \<Rightarrow> u64 \<Rightarrow> u64 res" where
  "GetDebugStr h d off =
     (if debug_str_data d = 0 \<or> off \<ge> debug_str_size d then Inr 0
      else
        (let s = debug_str_data d + off; e = debug_str_data d + debug_str_size d in
         res_bind (str_end h e s) (\<lambda>p. Inr (if p \<ge> e then 0 else s))))"

definition GetDebugStrX :: "host \<Rightarrow> dwarf_loader \<Rightarrow> u64 \<Rightarrow> u64 \<Rightarrow> bool \<Rightarrow> u64 res" where
  "GetDebugStrX h d index str_offsets_base dwarf64 =
     (if debug_str_offsets_data d = 0 then Inr 0
      else
        (let entry_size = (if dwarf64 then 8 else 4);
             off = str_offsets_base + index * of_nat entry_size in
         if off + of_nat entry_size > debug_str_offsets_size d then Inr 0
         else res_bind (host_word h (debug_str_offsets_data d + off) entry_size) (GetDebugStr h d)))"

section \<open>Attribute values\<close>

text \<open>\<open>None\<close> when the function returns false and leaves its out parameter.\<close>

definition ParseExprloc :: "host \<Rightarrow> u64 \<Rightarrow> u64 \<Rightarrow> u64 option res" where
  "ParseExprloc h data sz =
     (if data = 0 \<or> sz = 0 then Inr None
      else
        (case h data of None \<Rightarrow> Inl (HostFault data)
         | Some op \<Rightarrow>
             (let e = data + sz; p = data + 1 in
              if op = DW_OP_plus_uconst then
                (if p \<ge> e then Inr None
                 else res_bind (ReadULEB128 h e p) (\<lambda>(v, _). Inr (Some v)))
              else if op = 0x10 then
                (if p \<ge> e then Inr None
                 else res_bind (ReadULEB128 h e p) (\<lambda>(v, _). Inr (Some v)))
              else Inr None)))"

type_synonym attr_out = "u64 \<times> u64 option \<times> string option"

text \<open>\<open>if (s) *out_str = s;\<close>\<close>

definition assign_str :: "host \<Rightarrow> u64 \<Rightarrow> string option \<Rightarrow> string option res" where
  "assign_str h s os = (if s = 0 then Inr os else res_bind (c_string h s) (\<lambda>str. Inr (Some str)))"

text \<open>
  The cases that read a number of \<open>n\<close> bytes: \<open>if (ptr + n > end) return nullptr;\<close>, then
  \<open>if (out_value) *out_value = read_uN(); else ptr += n;\<close>.
\<close>

definition attr_data :: "host \<Rightarrow> nat \<Rightarrow> u64 \<Rightarrow> u64 \<Rightarrow> u64 option \<Rightarrow> string option \<Rightarrow> attr_out res" where
  "attr_data h n ptr e ov os =
     (if ptr + of_nat n > e then Inr (0, ov, os)
      else if ov = None then Inr (ptr + of_nat n, ov, os)
      else res_bind (host_word h ptr n) (\<lambda>v. Inr (ptr + of_nat n, Some v, os)))"

definition attr_skip :: "u64 \<Rightarrow> u64 \<Rightarrow> u64 \<Rightarrow> u64 option \<Rightarrow> string option \<Rightarrow> attr_out res" where
  "attr_skip n ptr e ov os = Inr (if ptr + n > e then 0 else ptr + n, ov, os)"

text \<open>
  \<open>v |= (uint64_t)ptr[i] << (8 * i)\<close> for \<open>addr_size\<close> bytes; a shift count of 64 or more is taken
  modulo 64, as the shift instructions of x86-64 and AArch64 take it.
\<close>

fun addr_bytes :: "nat \<Rightarrow> u8 list \<Rightarrow> u64" where
  "addr_bytes i [] = 0"
| "addr_bytes i (b # bs) = push_bit (8 * i mod 64) (ucast b) OR addr_bytes (Suc i) bs"

definition attr_addr :: "host \<Rightarrow> u32 \<Rightarrow> u64 \<Rightarrow> u64 \<Rightarrow> u64 option \<Rightarrow> string option \<Rightarrow> attr_out res" where
  "attr_addr h addr_size ptr e ov os =
     (let next = ptr + ucast addr_size in
      if next > e then Inr (0, ov, os)
      else if ov = None then Inr (next, ov, os)
      else res_bind (host_read h ptr (unat addr_size)) (\<lambda>bs. Inr (next, Some (addr_bytes 0 bs), os)))"

definition attr_udata :: "host \<Rightarrow> u64 \<Rightarrow> u64 \<Rightarrow> u64 option \<Rightarrow> string option \<Rightarrow> attr_out res" where
  "attr_udata h ptr e ov os =
     res_bind (ReadULEB128 h e ptr) (\<lambda>(v, p). Inr (p, if ov = None then None else Some v, os))"

definition attr_uskip :: "host \<Rightarrow> u64 \<Rightarrow> u64 \<Rightarrow> u64 option \<Rightarrow> string option \<Rightarrow> attr_out res" where
  "attr_uskip h ptr e ov os = res_bind (ReadULEB128 h e ptr) (\<lambda>(_, p). Inr (p, ov, os))"

definition attr_sdata :: "host \<Rightarrow> u64 \<Rightarrow> u64 \<Rightarrow> u64 option \<Rightarrow> string option \<Rightarrow> attr_out res" where
  "attr_sdata h ptr e ov os =
     res_bind (ReadSLEB128 h e ptr) (\<lambda>(v, p). Inr (p, if ov = None then None else Some v, os))"

text \<open>The string of an index, when the caller asks for it.\<close>

definition indexed_str ::
  "host \<Rightarrow> dwarf_loader \<Rightarrow> bool \<Rightarrow> u64 \<Rightarrow> u64 \<Rightarrow> string option \<Rightarrow> string option res" where
  "indexed_str h d dwarf64 base idx os =
     (if os = None then Inr None
      else res_bind (GetDebugStrX h d idx base dwarf64) (\<lambda>s. assign_str h s os))"

definition attr_strx ::
  "host \<Rightarrow> dwarf_loader \<Rightarrow> bool \<Rightarrow> u64 \<Rightarrow> u64 \<Rightarrow> u64 \<Rightarrow> u64 option \<Rightarrow> string option \<Rightarrow> attr_out res" where
  "attr_strx h d dwarf64 base ptr e ov os =
     res_bind (ReadULEB128 h e ptr) (\<lambda>(idx, p).
     res_bind (indexed_str h d dwarf64 base idx os) (\<lambda>os'. Inr (p, ov, os')))"

definition attr_strxN ::
  "host \<Rightarrow> dwarf_loader \<Rightarrow> bool \<Rightarrow> u64 \<Rightarrow> nat \<Rightarrow> u64 \<Rightarrow> u64 \<Rightarrow> u64 option \<Rightarrow> string option \<Rightarrow> attr_out res" where
  "attr_strxN h d dwarf64 base n ptr e ov os =
     (if ptr + of_nat n > e then Inr (0, ov, os)
      else
        res_bind (host_word h ptr n) (\<lambda>idx.
        res_bind (indexed_str h d dwarf64 base idx os) (\<lambda>os'. Inr (ptr + of_nat n, ov, os'))))"

definition attr_string :: "host \<Rightarrow> u64 \<Rightarrow> u64 \<Rightarrow> u64 option \<Rightarrow> string option \<Rightarrow> attr_out res" where
  "attr_string h ptr e ov os =
     res_bind (str_end h e ptr) (\<lambda>p.
       if p \<ge> e then Inr (0, ov, os)
       else if os = None then Inr (p + 1, ov, None)
       else res_bind (c_string h ptr) (\<lambda>s. Inr (p + 1, ov, Some s)))"

definition attr_strp ::
  "host \<Rightarrow> dwarf_loader \<Rightarrow> bool \<Rightarrow> u32 \<Rightarrow> u64 \<Rightarrow> u64 \<Rightarrow> u64 option \<Rightarrow> string option \<Rightarrow> attr_out res" where
  "attr_strp h d dwarf64 form ptr e ov os =
     (let n = (if dwarf64 then 8 else 4) in
      if ptr + of_nat n > e then Inr (0, ov, os)
      else
        res_bind (host_word h ptr n) (\<lambda>off.
          if form = DW_FORM_strp \<and> os \<noteq> None then
            res_bind (GetDebugStr h d off) (\<lambda>s.
            res_bind (assign_str h s os) (\<lambda>os'. Inr (ptr + of_nat n, ov, os')))
          else Inr (ptr + of_nat n, ov, os)))"

text \<open>A block of \<open>len\<close> bytes at \<open>ptr\<close>, the pointer already past its length.\<close>

definition attr_block :: "host \<Rightarrow> u64 \<Rightarrow> u64 \<Rightarrow> u64 \<Rightarrow> u64 option \<Rightarrow> string option \<Rightarrow> attr_out res" where
  "attr_block h len ptr e ov os =
     (if ptr + len > e then Inr (0, ov, os)
      else if ov = None then Inr (ptr + len, ov, os)
      else
        res_bind (ParseExprloc h ptr len) (\<lambda>r.
          Inr (ptr + len, if r = None then ov else r, os)))"

definition attr_blockN :: "host \<Rightarrow> nat \<Rightarrow> u64 \<Rightarrow> u64 \<Rightarrow> u64 option \<Rightarrow> string option \<Rightarrow> attr_out res" where
  "attr_blockN h n ptr e ov os =
     (if ptr + of_nat n > e then Inr (0, ov, os)
      else res_bind (host_word h ptr n) (\<lambda>len. attr_block h len (ptr + of_nat n) e ov os))"

definition attr_exprloc :: "host \<Rightarrow> u64 \<Rightarrow> u64 \<Rightarrow> u64 option \<Rightarrow> string option \<Rightarrow> attr_out res" where
  "attr_exprloc h ptr e ov os =
     res_bind (ReadULEB128 h e ptr) (\<lambda>(len, p). attr_block h len p e ov os)"

text \<open>
  The \<open>switch\<close> of \<open>ReadAttrValue\<close> for every form but \<open>DW_FORM_indirect\<close>; the result pointer 0 is
  the parse error. \<open>attr_args\<close> are the arguments the recursive call passes on unchanged.
\<close>

record attr_args =
  aa_end :: u64
  aa_addr_size :: u32
  aa_dwarf64 :: bool
  aa_str_offsets_base :: u64

definition read_form ::
  "host \<Rightarrow> dwarf_loader \<Rightarrow> attr_args \<Rightarrow> u32 \<Rightarrow> u64 \<Rightarrow> u64 option \<Rightarrow> string option \<Rightarrow> attr_out res" where
  "read_form h d a form ptr ov os =
     (let e = aa_end a; dwarf64 = aa_dwarf64 a; base = aa_str_offsets_base a in
      if form = DW_FORM_addr then attr_addr h (aa_addr_size a) ptr e ov os
      else if form = DW_FORM_data1 then attr_data h 1 ptr e ov os
      else if form = DW_FORM_data2 then attr_data h 2 ptr e ov os
      else if form = DW_FORM_data4 then attr_data h 4 ptr e ov os
      else if form = DW_FORM_data8 then attr_data h 8 ptr e ov os
      else if form = DW_FORM_data16 then attr_skip 16 ptr e ov os
      else if form = DW_FORM_udata \<or> form = DW_FORM_ref_udata then attr_udata h ptr e ov os
      else if form = DW_FORM_loclistx \<or> form = DW_FORM_rnglistx then attr_uskip h ptr e ov os
      else if form = DW_FORM_addrx then attr_uskip h ptr e ov os
      else if form = DW_FORM_strx then attr_strx h d dwarf64 base ptr e ov os
      else if form = DW_FORM_addrx1 then attr_skip 1 ptr e ov os
      else if form = DW_FORM_addrx2 then attr_skip 2 ptr e ov os
      else if form = DW_FORM_addrx3 then attr_skip 3 ptr e ov os
      else if form = DW_FORM_addrx4 then attr_skip 4 ptr e ov os
      else if form = DW_FORM_strx1 then attr_strxN h d dwarf64 base 1 ptr e ov os
      else if form = DW_FORM_strx2 then attr_strxN h d dwarf64 base 2 ptr e ov os
      else if form = DW_FORM_strx3 then attr_strxN h d dwarf64 base 3 ptr e ov os
      else if form = DW_FORM_strx4 then attr_strxN h d dwarf64 base 4 ptr e ov os
      else if form = DW_FORM_sdata then attr_sdata h ptr e ov os
      else if form = DW_FORM_string then attr_string h ptr e ov os
      else if form = DW_FORM_strp \<or> form = DW_FORM_strp_sup \<or> form = DW_FORM_line_strp
        then attr_strp h d dwarf64 form ptr e ov os
      else if form = DW_FORM_block1 then attr_blockN h 1 ptr e ov os
      else if form = DW_FORM_block2 then attr_blockN h 2 ptr e ov os
      else if form = DW_FORM_block4 then attr_blockN h 4 ptr e ov os
      else if form = DW_FORM_block \<or> form = DW_FORM_exprloc then attr_exprloc h ptr e ov os
      else if form = DW_FORM_flag then attr_data h 1 ptr e ov os
      else if form = DW_FORM_flag_present then Inr (ptr, if ov = None then None else Some 1, os)
      else if form = DW_FORM_ref1 then attr_data h 1 ptr e ov os
      else if form = DW_FORM_ref2 then attr_data h 2 ptr e ov os
      else if form = DW_FORM_ref4 \<or> form = DW_FORM_ref_sup4 then attr_data h 4 ptr e ov os
      else if form = DW_FORM_ref8 \<or> form = DW_FORM_ref_sup8 \<or> form = DW_FORM_ref_sig8
        then attr_data h 8 ptr e ov os
      else if form = DW_FORM_ref_addr \<or> form = DW_FORM_sec_offset
        then attr_data h (if dwarf64 then 8 else 4) ptr e ov os
      else if form = DW_FORM_implicit_const then Inr (ptr, ov, os)
      else Inr (0, ov, os))"

function ReadAttrValue ::
  "host \<Rightarrow> dwarf_loader \<Rightarrow> attr_args \<Rightarrow> u32 \<Rightarrow> u64 \<Rightarrow> u64 option \<Rightarrow> string option \<Rightarrow> attr_out res" where
  "ReadAttrValue h d a form ptr ov os =
     (if ptr = 0 \<or> ptr \<ge> aa_end a then Inr (0, ov, os)
      else if form = DW_FORM_indirect then
        (case ReadULEB128 h (aa_end a) ptr of Inl x \<Rightarrow> Inl x
         | Inr (real_form, p) \<Rightarrow> ReadAttrValue h d a (ucast real_form) p ov os)
      else read_form h d a form ptr ov os)"
  by pat_completeness auto
termination
proof (relation "measure (\<lambda>(h, d, a, form, ptr, ov, os). unat (aa_end a) - unat ptr)", goal_cases)
  case (2 h d a form ptr ov os x2 f p)
  then have "ptr < aa_end a" "ptr < p" "p \<le> aa_end a"
    using ReadULEB128_moves [of h "aa_end a" ptr f p] by auto
  then show ?case by (simp add: word_less_nat_alt word_le_nat_alt)
qed simp

declare ReadAttrValue.simps [simp del]

section \<open>Abbreviation tables\<close>

function attr_specs :: "host \<Rightarrow> u64 \<Rightarrow> attr_spec list \<Rightarrow> u64 \<Rightarrow> (attr_spec list \<times> u64) res" where
  "attr_specs h e acc p =
     (if p < e then
        (case ReadULEB128 h e p of Inl x \<Rightarrow> Inl x
         | Inr (n, p1) \<Rightarrow>
             (case ReadULEB128 h e p1 of Inl x \<Rightarrow> Inl x
              | Inr (f, p2) \<Rightarrow>
                  (let attr_name = ucast n; attr_form = ucast f in
                   if attr_name = 0 \<and> attr_form = 0 then Inr (acc, p2)
                   else
                     (case (if attr_form = DW_FORM_implicit_const then ReadSLEB128 h e p2 else Inr (0, p2)) of
                        Inl x \<Rightarrow> Inl x
                      | Inr (c, p3) \<Rightarrow>
                          attr_specs h e
                            (acc @ [\<lparr>as_name = attr_name, as_form = attr_form, as_implicit_const = c\<rparr>]) p3))))
      else Inr (acc, p))"
  by pat_completeness auto
termination
proof (relation "measure (\<lambda>(h, e, acc, p). unat e - unat p)", goal_cases)
  case (2 h e acc p x2 n p1 x2a f p2 name form x2b c p3)
  then have "p < p1" "p1 \<le> p2" "p1 \<le> e"
    using ReadULEB128_moves [of h e p n p1] ReadULEB128_moves [of h e p1 f p2] by auto
  moreover have "p2 \<le> e" using 2 calculation ReadULEB128_moves [of h e p1 f p2] by auto
  then have "p2 \<le> p3" using 2 ReadSLEB128_moves [of h e p2 c p3] by (auto split: if_splits)
  ultimately show ?case using 2(1) by (simp add: word_less_nat_alt word_le_nat_alt)
qed simp

declare attr_specs.simps [simp del]

lemma attr_specs_moves:
  assumes "attr_specs h e acc p = Inr (as, q)" "p \<le> e"
  shows "p \<le> q \<and> q \<le> e"
  using assms
proof (induction h e acc p rule: attr_specs.induct)
  case (1 h e acc p)
  show ?case
  proof (cases "p < e")
    case True
    then obtain n p1 f p2 where r: "ReadULEB128 h e p = Inr (n, p1)" "ReadULEB128 h e p1 = Inr (f, p2)"
      using 1(2) by (subst (asm) attr_specs.simps) (auto split: sum.splits)
    have m1: "p \<le> p1" "p1 \<le> e" using ReadULEB128_moves [OF r(1)] 1(3) by auto
    have m2: "p1 \<le> p2" "p2 \<le> e" using ReadULEB128_moves [OF r(2) m1(2)] by auto
    show ?thesis
    proof (cases "(ucast n :: u32) = 0 \<and> (ucast f :: u32) = 0")
      case z: True
      then show ?thesis using 1(2) True r m1 m2 by (subst (asm) attr_specs.simps) (auto simp: Let_def)
    next
      case nz: False
      obtain c p3 where s: "(if ucast f = DW_FORM_implicit_const then ReadSLEB128 h e p2 else Inr (0, p2)) = Inr (c, p3)"
        and rest: "attr_specs h e (acc @ [\<lparr>as_name = ucast n, as_form = ucast f, as_implicit_const = c\<rparr>]) p3 = Inr (as, q)"
        using 1(2) True r nz
        by (subst (asm) attr_specs.simps)
          (auto simp: Let_def split: sum.splits prod.splits if_splits)
      have m3: "p2 \<le> p3" "p3 \<le> e"
        using s m2 ReadSLEB128_moves [of h e p2 c p3] by (auto split: if_splits)
      have "p3 \<le> q \<and> q \<le> e"
        using 1(1) [OF True r(1) refl r(2) refl refl refl nz s refl rest m3(2)] .
      with m1 m2 m3 show ?thesis by auto
    qed
  next
    case False
    then show ?thesis using 1(2,3) by (subst (asm) attr_specs.simps) auto
  qed
qed

function abbrev_entries :: "host \<Rightarrow> u64 \<Rightarrow> abbrev_table \<Rightarrow> u64 \<Rightarrow> (abbrev_table \<times> u64) res" where
  "abbrev_entries h e table p =
     (if p < e then
        (case ReadULEB128 h e p of Inl x \<Rightarrow> Inl x
         | Inr (code, p1) \<Rightarrow>
             if code = 0 then Inr (table, p1)
             else
               (case ReadULEB128 h e p1 of Inl x \<Rightarrow> Inl x
                | Inr (tag, p2) \<Rightarrow>
                    if p2 \<ge> e then Inr (table, p2)
                    else
                      (case h p2 of None \<Rightarrow> Inl (HostFault p2)
                       | Some b \<Rightarrow>
                           (case attr_specs h e [] (p2 + 1) of Inl x \<Rightarrow> Inl x
                            | Inr (attrs, p3) \<Rightarrow>
                                abbrev_entries h e
                                  (table(ucast code \<mapsto>
                                     \<lparr>ae_code = ucast code, ae_tag = ucast tag,
                                      ae_has_children = (b = DW_CHILDREN_yes), ae_attrs = attrs\<rparr>)) p3))))
      else Inr (table, p))"
  by pat_completeness auto
termination
proof (relation "measure (\<lambda>(h, e, table, p). unat e - unat p)", goal_cases)
  case (2 h e table p x2 code p1 x2a tag p2 b x2b attrs p3)
  have m: "p < p1" "p1 \<le> p2" "p2 < e"
    using 2 ReadULEB128_moves [of h e p code p1] ReadULEB128_moves [of h e p1 tag p2] by auto
  have "p2 < p2 + 1" "p2 + 1 \<le> e"
    using unat_ptr_Suc [OF m(3)] m(3) by (simp_all add: word_less_nat_alt word_le_nat_alt)
  moreover have "p2 + 1 \<le> p3"
    using 2 attr_specs_moves [of h e "[]" "p2 + 1" attrs p3] calculation by auto
  ultimately show ?case using 2(1) m by (simp add: word_less_nat_alt word_le_nat_alt)
qed simp

declare abbrev_entries.simps [simp del]

definition ParseAbbrevTable :: "host \<Rightarrow> u64 \<Rightarrow> u64 \<Rightarrow> u64 \<Rightarrow> dwarf_loader \<Rightarrow> (u64 \<times> dwarf_loader) res" where
  "ParseAbbrevTable h ptr e base_offset d =
     res_bind (abbrev_entries h e Map.empty ptr) (\<lambda>(table, p).
       Inr (p, d\<lparr>abbrev_map := (abbrev_map d)(base_offset \<mapsto> table)\<rparr>))"

function abbrev_loop :: "host \<Rightarrow> u64 \<Rightarrow> u64 \<Rightarrow> dwarf_loader \<Rightarrow> dwarf_loader res" where
  "abbrev_loop h e ptr d =
     (if ptr < e then
        (case ParseAbbrevTable h ptr e (ptr - debug_abbrev_data d) d of Inl x \<Rightarrow> Inl x
         | Inr (next, d') \<Rightarrow> if next = 0 \<or> next \<le> ptr then Inr d' else abbrev_loop h e next d')
      else Inr d)"
  by pat_completeness auto
termination
  by (relation "measure (\<lambda>(h, e, ptr, d). unat e - unat ptr)")
    (auto simp: word_less_nat_alt word_le_nat_alt)

declare abbrev_loop.simps [simp del]

definition ParseAbbrevSection :: "host \<Rightarrow> dwarf_loader \<Rightarrow> dwarf_loader res" where
  "ParseAbbrevSection h d =
     (if debug_abbrev_data d = 0 then Inr d
      else abbrev_loop h (debug_abbrev_data d + debug_abbrev_size d) (debug_abbrev_data d) d)"

end
