(* ===== verification/DwarfInfo.thy ===== *)
theory DwarfInfo
  imports Dwarf
begin

unbundle bit_operations_syntax

text \<open>
  The second half of core/api/dwarf.cpp: the walk over the debugging entries of a compile unit,
  the units of a section, the resolution of type names, compressed sections, the search for the
  debug sections and the entry points \<open>Init\<close>, \<open>Load\<close> and \<open>ForEachStruct\<close>.

  A block length near \<open>2 ^ 64\<close> moves the read pointer backwards, so the walk over the entries need
  not end; it is a partial function whose value \<open>None\<close> is that it does not return.
\<close>

section \<open>Debugging entries\<close>

definition kNoStruct :: int where "kNoStruct = -1"

text \<open>The values of one entry that the walk keeps.\<close>

record die =
  die_name :: string
  member_loc :: u64
  has_member_loc :: bool
  byte_sz :: u64
  has_byte_sz :: bool
  type_ref :: u64
  type_ref_form :: u32

definition new_die :: die where
  "new_die = \<lparr>die_name = [], member_loc = 0, has_member_loc = False, byte_sz = 0,
     has_byte_sz = False, type_ref = 0, type_ref_form = 0\<rparr>"

definition set_attr :: "attr_spec \<Rightarrow> u64 \<Rightarrow> string \<Rightarrow> die \<Rightarrow> die" where
  "set_attr attr v s x =
     (if as_name attr = DW_AT_name then (if s \<noteq> [] then x\<lparr>die_name := s\<rparr> else x)
      else if as_name attr = DW_AT_data_member_location then x\<lparr>member_loc := v, has_member_loc := True\<rparr>
      else if as_name attr = DW_AT_byte_size then x\<lparr>byte_sz := v, has_byte_sz := True\<rparr>
      else if as_name attr = DW_AT_type then x\<lparr>type_ref := v, type_ref_form := as_form attr\<rparr>
      else x)"

text \<open>The loop over the attributes of an entry; \<open>None\<close> is the parse error.\<close>

definition out_or :: "'a \<Rightarrow> 'a option \<Rightarrow> 'a" where
  "out_or x v = (case v of None \<Rightarrow> x | Some y \<Rightarrow> y)"

fun die_attrs ::
  "host \<Rightarrow> dwarf_loader \<Rightarrow> attr_args \<Rightarrow> attr_spec list \<Rightarrow> u64 \<Rightarrow> die \<Rightarrow> (u64 \<times> die) option res" where
  "die_attrs h d a [] ptr x = Inr (Some (ptr, x))"
| "die_attrs h d a (attr # attrs) ptr x =
     (if as_form attr = DW_FORM_implicit_const then
        die_attrs h d a attrs ptr (set_attr attr (as_implicit_const attr) [] x)
      else
        res_bind (ReadAttrValue h d a (as_form attr) ptr (Some 0) (Some [])) (\<lambda>(next, v, s).
          if next = 0 then Inr None
          else die_attrs h d a attrs next (set_attr attr (out_or 0 v) (out_or [] s) x)))"

definition abs_type_ref :: "u64 \<Rightarrow> die \<Rightarrow> u64" where
  "abs_type_ref cu_base_offset x =
     (if type_ref_form x \<noteq> 0
      then (if IsRelRef (type_ref_form x) then cu_base_offset + type_ref x else type_ref x) else 0)"

text \<open>The scope of the walk: the stack of saved scopes, the name prefix and the current structure.\<close>

record scope =
  stk :: "(string \<times> int) list"
  cur_ns :: string
  cur_struct_idx :: int

definition full_name :: "string \<Rightarrow> string \<Rightarrow> string" where
  "full_name ns name = (if ns = [] then name else ns @ ''::'' @ name)"

text \<open>\<open>stk.push({cur_ns, cur_struct_idx}); cur_struct_idx = idx;\<close> when the entry has children.\<close>

definition enter :: "abbrev_entry \<Rightarrow> int \<Rightarrow> scope \<Rightarrow> scope" where
  "enter entry idx w =
     (if ae_has_children entry
      then w\<lparr>stk := (cur_ns w, cur_struct_idx w) # stk w, cur_struct_idx := idx\<rparr> else w)"

definition register_type :: "u64 \<Rightarrow> string \<Rightarrow> u64 \<Rightarrow> nat \<Rightarrow> dwarf_loader \<Rightarrow> dwarf_loader" where
  "register_type off name ref q d =
     d\<lparr>type_registry := (type_registry d)(off \<mapsto> \<lparr>te_name = name, te_type_ref = ref, te_qualifier = q\<rparr>)\<rparr>"

text \<open>\<open>structs_[i]\<close>; an index outside the vector is an access outside its memory.\<close>

definition upd_struct :: "int \<Rightarrow> (struct_info \<Rightarrow> struct_info) \<Rightarrow> dwarf_loader \<Rightarrow> dwarf_loader res" where
  "upd_struct i f d =
     (if 0 \<le> i \<and> i < int (length (structs d))
      then Inr (d\<lparr>structs := (structs d)[nat i := f (structs d ! nat i)]\<rparr>) else Inl (HostFault 0))"

definition add_pending :: "pending_ref \<Rightarrow> dwarf_loader \<Rightarrow> dwarf_loader" where
  "add_pending r d = d\<lparr>pending_refs := pending_refs d @ [r]\<rparr>"

definition add_struct :: "abbrev_entry \<Rightarrow> die \<Rightarrow> u64 \<Rightarrow> scope \<Rightarrow> dwarf_loader \<Rightarrow> scope \<times> dwarf_loader" where
  "add_struct entry x off w d =
     (if die_name x \<noteq> [] then
        (let name = full_name (cur_ns w) (die_name x);
             d1 = register_type off name 0 0 d;
             d2 = d1\<lparr>structs := structs d1 @ [\<lparr>si_name = name, si_byte_size = ucast (byte_sz x),
                      si_has_size = has_byte_sz x, si_bases = [], si_members = []\<rparr>]\<rparr>
         in (enter entry (int (length (structs d2)) - 1) w, d2))
      else (enter entry kNoStruct w, d))"

definition add_member :: "die \<Rightarrow> u64 \<Rightarrow> scope \<Rightarrow> dwarf_loader \<Rightarrow> dwarf_loader res" where
  "add_member x ref w d =
     (if cur_struct_idx w \<noteq> kNoStruct \<and> die_name x \<noteq> [] then
        res_bind
          (upd_struct (cur_struct_idx w) (\<lambda>s. s\<lparr>si_members := si_members s @
             [\<lparr>mi_name = die_name x, mi_type_name = [], mi_offset = ucast (member_loc x),
               mi_has_offset = has_member_loc x\<rparr>]\<rparr>) d) (\<lambda>d1.
          Inr (if ref \<noteq> 0 then
                 add_pending \<lparr>pr_struct_idx = cur_struct_idx w, pr_is_base = False,
                   pr_item_idx = int (length (si_members (structs d1 ! nat (cur_struct_idx w)))) - 1,
                   pr_type_offset = ref\<rparr> d1
               else d1))
      else Inr d)"

definition add_base :: "die \<Rightarrow> u64 \<Rightarrow> scope \<Rightarrow> dwarf_loader \<Rightarrow> dwarf_loader res" where
  "add_base x ref w d =
     (if cur_struct_idx w \<noteq> kNoStruct then
        res_bind
          (upd_struct (cur_struct_idx w) (\<lambda>s. s\<lparr>si_bases := si_bases s @
             [\<lparr>bi_type_name = [], bi_offset = ucast (member_loc x),
               bi_has_offset = has_member_loc x\<rparr>]\<rparr>) d) (\<lambda>d1.
          Inr (if ref \<noteq> 0 then
                 add_pending \<lparr>pr_struct_idx = cur_struct_idx w, pr_is_base = True,
                   pr_item_idx = int (length (si_bases (structs d1 ! nat (cur_struct_idx w)))) - 1,
                   pr_type_offset = ref\<rparr> d1
               else d1))
      else Inr d)"

text \<open>The \<open>switch\<close> on the tag of the entry at offset \<open>off\<close>.\<close>

definition handle_die ::
  "abbrev_entry \<Rightarrow> die \<Rightarrow> u64 \<Rightarrow> u64 \<Rightarrow> scope \<Rightarrow> dwarf_loader \<Rightarrow> (scope \<times> dwarf_loader) res" where
  "handle_die entry x ref off w d =
     (let tag = ae_tag entry; leave = enter entry kNoStruct w in
      if tag = DW_TAG_namespace then
        Inr (if ae_has_children entry
             then (enter entry (cur_struct_idx w) w)\<lparr>cur_ns := full_name (cur_ns w) (die_name x)\<rparr> else w, d)
      else if tag = DW_TAG_structure_type \<or> tag = DW_TAG_class_type then Inr (add_struct entry x off w d)
      else if tag = DW_TAG_member then res_bind (add_member x ref w d) (\<lambda>d'. Inr (leave, d'))
      else if tag = DW_TAG_inheritance then res_bind (add_base x ref w d) (\<lambda>d'. Inr (leave, d'))
      else if tag = DW_TAG_base_type \<or> tag = DW_TAG_enumeration_type \<or> tag = DW_TAG_union_type then
        Inr (leave, if die_name x \<noteq> [] then register_type off (full_name (cur_ns w) (die_name x)) 0 0 d else d)
      else if tag = DW_TAG_typedef then
        Inr (leave, if die_name x \<noteq> [] then register_type off (full_name (cur_ns w) (die_name x)) ref 5 d else d)
      else if tag = DW_TAG_pointer_type \<or> tag = DW_TAG_rvalue_reference_type then
        Inr (leave, register_type off [] ref 1 d)
      else if tag = DW_TAG_reference_type then Inr (leave, register_type off [] ref 2 d)
      else if tag = DW_TAG_const_type then Inr (leave, register_type off [] ref 3 d)
      else if tag = DW_TAG_volatile_type then Inr (leave, register_type off [] ref 4 d)
      else if tag = DW_TAG_array_type then Inr (leave, register_type off [] ref 6 d)
      else Inr (leave, d))"

text \<open>
  One round of the loop of \<open>ParseDIETree\<close>: \<open>Exit r\<close> when the function returns \<open>r\<close> (or faults), the
  result pointer 0 being the parse error, and otherwise the pointer, scope and loader of the next round.
\<close>

datatype die_round = Exit "(u64 \<times> dwarf_loader) res" | Again u64 scope dwarf_loader

definition die_step ::
  "host \<Rightarrow> attr_args \<Rightarrow> abbrev_table \<Rightarrow> u64 \<Rightarrow> u64 \<Rightarrow> scope \<Rightarrow> dwarf_loader \<Rightarrow> die_round" where
  "die_step h a table cu_base ptr w d =
     (case ReadULEB128 h (aa_end a) ptr of Inl x \<Rightarrow> Exit (Inl x)
      | Inr (code, p1) \<Rightarrow>
          if code = 0 then
            (case stk w of [] \<Rightarrow> Exit (Inr (p1, d))
             | (ns, i) # rest \<Rightarrow> Again p1 \<lparr>stk = rest, cur_ns = ns, cur_struct_idx = i\<rparr> d)
          else
            (case table (ucast code) of None \<Rightarrow> Exit (Inr (0, d))
             | Some entry \<Rightarrow>
                 (case die_attrs h d a (ae_attrs entry) p1 new_die of Inl x \<Rightarrow> Exit (Inl x)
                  | Inr None \<Rightarrow> Exit (Inr (0, d))
                  | Inr (Some (p2, x)) \<Rightarrow>
                      (case handle_die entry x (abs_type_ref cu_base x) (ptr - debug_info_data d) w d of
                         Inl x \<Rightarrow> Exit (Inl x)
                       | Inr (w', d') \<Rightarrow> Again p2 w' d'))))"

partial_function (option) die_loop ::
  "host \<Rightarrow> attr_args \<Rightarrow> abbrev_table \<Rightarrow> u64 \<Rightarrow> u64 \<Rightarrow> scope \<Rightarrow> dwarf_loader \<Rightarrow> (u64 \<times> dwarf_loader) res option" where
  "die_loop h a table cu_base ptr w d =
     (if ptr < aa_end a then
        (case die_step h a table cu_base ptr w d of Exit r \<Rightarrow> Some r
         | Again ptr' w' d' \<Rightarrow> die_loop h a table cu_base ptr' w' d')
      else Some (Inr (ptr, d)))"

declare die_loop.simps [code]

definition ParseDIETree ::
  "host \<Rightarrow> attr_args \<Rightarrow> abbrev_table \<Rightarrow> string \<Rightarrow> u64 \<Rightarrow> u64 \<Rightarrow> dwarf_loader \<Rightarrow> (u64 \<times> dwarf_loader) res option" where
  "ParseDIETree h a table ns_prefix cu_base_offset ptr d =
     die_loop h a table cu_base_offset ptr \<lparr>stk = [], cur_ns = ns_prefix, cur_struct_idx = kNoStruct\<rparr> d"

section \<open>Compile units\<close>

text \<open>
  The header of a unit: \<open>Inl next\<close> when the function returns \<open>next\<close> already, otherwise the pointer
  past the header, the end of the unit, the address size, the format and the abbreviation offset.
\<close>

type_synonym cu_info = "u64 \<times> u64 \<times> u32 \<times> bool \<times> u64"

definition cu_version :: "host \<Rightarrow> u64 \<Rightarrow> u64 \<Rightarrow> bool \<Rightarrow> (u64 + cu_info) res" where
  "cu_version h ptr cu_end dwarf64 =
     (let n = (if dwarf64 then 8 else 4) in
      if ptr + 2 > cu_end then Inr (Inl cu_end)
      else
        res_bind (host_word h ptr 2) (\<lambda>version.
        (let ptr = ptr + 2 in
         if version \<ge> 5 then
           (if ptr + 2 > cu_end then Inr (Inl cu_end)
            else
              res_bind (host_word h ptr 1) (\<lambda>unit_type.
              res_bind (host_word h (ptr + 1) 1) (\<lambda>addr_size.
              (let ptr = ptr + 2 in
               if (ucast unit_type :: u8) \<noteq> DW_UT_compile then Inr (Inl cu_end)
               else if ptr + of_nat n > cu_end then Inr (Inl cu_end)
               else
                 res_bind (host_word h ptr n) (\<lambda>abbrev_offset.
                   Inr (Inr (ptr + of_nat n, cu_end, ucast addr_size, dwarf64, abbrev_offset)))))))
         else
           (if ptr + of_nat n > cu_end then Inr (Inl cu_end)
            else
              res_bind (host_word h ptr n) (\<lambda>abbrev_offset.
              (let ptr = ptr + of_nat n in
               if ptr + 1 > cu_end then Inr (Inl cu_end)
               else
                 res_bind (host_word h ptr 1) (\<lambda>addr_size.
                   Inr (Inr (ptr + 1, cu_end, ucast addr_size, dwarf64, abbrev_offset)))))))))"

definition cu_header :: "host \<Rightarrow> u64 \<Rightarrow> u64 \<Rightarrow> (u64 + cu_info) res" where
  "cu_header h ptr e =
     (if ptr + 4 > e then Inr (Inl 0)
      else
        res_bind (host_word h ptr 4) (\<lambda>unit_length_32.
        (let ptr = ptr + 4 in
         if unit_length_32 = 0xffffffff then
           (if ptr + 8 > e then Inr (Inl 0)
            else
              res_bind (host_word h ptr 8) (\<lambda>unit_length.
              (let ptr = ptr + 8; cu_end = ptr + unit_length in
               if cu_end > e then Inr (Inl 0) else cu_version h ptr cu_end True)))
         else
           (let cu_end = ptr + unit_length_32 in
            if cu_end > e then Inr (Inl 0) else cu_version h ptr cu_end False))))"

text \<open>The look at the first entry for \<open>DW_AT_str_offsets_base\<close>.\<close>

fun peek_base :: "host \<Rightarrow> dwarf_loader \<Rightarrow> attr_args \<Rightarrow> attr_spec list \<Rightarrow> u64 \<Rightarrow> u64 res" where
  "peek_base h d a [] peek = Inr 0"
| "peek_base h d a (attr # attrs) peek =
     (if as_form attr = DW_FORM_implicit_const then
        (if as_name attr = DW_AT_str_offsets_base then Inr (as_implicit_const attr)
         else peek_base h d a attrs peek)
      else
        res_bind (ReadAttrValue h d a (as_form attr) peek
                    (if as_name attr = DW_AT_str_offsets_base then Some 0 else None) None) (\<lambda>(next, v, _).
          if next = 0 then Inr 0
          else if as_name attr = DW_AT_str_offsets_base then Inr (out_or 0 v)
          else peek_base h d a attrs next))"

definition str_base :: "host \<Rightarrow> dwarf_loader \<Rightarrow> attr_args \<Rightarrow> abbrev_table \<Rightarrow> u64 \<Rightarrow> u64 res" where
  "str_base h d a table ptr =
     res_bind (ReadULEB128 h (aa_end a) ptr) (\<lambda>(code, peek).
       case table (ucast code) of None \<Rightarrow> Inr 0
       | Some entry \<Rightarrow> peek_base h d a (ae_attrs entry) peek)"

definition ParseCompileUnit :: "host \<Rightarrow> u64 \<Rightarrow> u64 \<Rightarrow> dwarf_loader \<Rightarrow> (u64 \<times> dwarf_loader) res option" where
  "ParseCompileUnit h ptr e d =
     (case cu_header h ptr e of Inl x \<Rightarrow> Some (Inl x)
      | Inr (Inl next) \<Rightarrow> Some (Inr (next, d))
      | Inr (Inr (p, cu_end, addr_size, dwarf64, abbrev_offset)) \<Rightarrow>
          (case abbrev_map d abbrev_offset of None \<Rightarrow> Some (Inr (cu_end, d))
           | Some table \<Rightarrow>
               (let a = \<lparr>aa_end = cu_end, aa_addr_size = addr_size, aa_dwarf64 = dwarf64,
                         aa_str_offsets_base = 0\<rparr> in
                (case str_base h d a table p of Inl x \<Rightarrow> Some (Inl x)
                 | Inr base \<Rightarrow>
                     map_option (\<lambda>r. res_bind r (\<lambda>(_, d'). Inr (cu_end, d')))
                       (ParseDIETree h (a\<lparr>aa_str_offsets_base := base\<rparr>) table []
                          (ptr - debug_info_data d) p d)))))"

section \<open>Type names\<close>

function ResolveTypeName :: "dwarf_loader \<Rightarrow> u64 \<Rightarrow> nat \<Rightarrow> string" where
  "ResolveTypeName d off depth =
     (if depth > 8 \<or> off = 0 then []
      else
        (case type_registry d off of None \<Rightarrow> []
         | Some e \<Rightarrow>
             if te_qualifier e = 0 then te_name e
             else if te_qualifier e = 1 then ResolveTypeName d (te_type_ref e) (depth + 1) @ ''*''
             else if te_qualifier e = 2 then ResolveTypeName d (te_type_ref e) (depth + 1) @ ''&''
             else if te_qualifier e = 3 then
               (let s = ResolveTypeName d (te_type_ref e) (depth + 1) in
                if s = [] then ''const'' else ''const '' @ s)
             else if te_qualifier e = 4 then
               (let s = ResolveTypeName d (te_type_ref e) (depth + 1) in
                if s = [] then ''volatile'' else ''volatile '' @ s)
             else if te_qualifier e = 5 then
               (if te_name e \<noteq> [] then te_name e else ResolveTypeName d (te_type_ref e) (depth + 1))
             else if te_qualifier e = 6 then ResolveTypeName d (te_type_ref e) (depth + 1) @ ''[]''
             else te_name e))"
  by pat_completeness auto
termination by (relation "measure (\<lambda>(d, off, depth). 9 - depth)") auto

declare ResolveTypeName.simps [simp del]

text \<open>An assignment through an index; one outside the vector is an access outside its memory.\<close>

definition upd_item :: "int \<Rightarrow> ('a \<Rightarrow> 'a) \<Rightarrow> 'a list \<Rightarrow> 'a list res" where
  "upd_item i f xs =
     (if 0 \<le> i \<and> i < int (length xs) then Inr (xs[nat i := f (xs ! nat i)]) else Inl (HostFault 0))"

definition resolve_ref :: "pending_ref \<Rightarrow> dwarf_loader \<Rightarrow> dwarf_loader res" where
  "resolve_ref p d =
     (let name = ResolveTypeName d (pr_type_offset p) 0 in
      if pr_type_offset p = 0 \<or> name = [] then Inr d
      else if \<not> (0 \<le> pr_struct_idx p \<and> pr_struct_idx p < int (length (structs d))) then Inl (HostFault 0)
      else
        (let s = structs d ! nat (pr_struct_idx p) in
         res_bind
           (if pr_is_base p then
              res_bind (upd_item (pr_item_idx p) (\<lambda>b. b\<lparr>bi_type_name := name\<rparr>) (si_bases s))
                (\<lambda>bs. Inr (s\<lparr>si_bases := bs\<rparr>))
            else
              res_bind (upd_item (pr_item_idx p) (\<lambda>m. m\<lparr>mi_type_name := name\<rparr>) (si_members s))
                (\<lambda>ms. Inr (s\<lparr>si_members := ms\<rparr>))) (\<lambda>s'.
           Inr (d\<lparr>structs := (structs d)[nat (pr_struct_idx p) := s']\<rparr>))))"

fun resolve_refs :: "pending_ref list \<Rightarrow> dwarf_loader \<Rightarrow> dwarf_loader res" where
  "resolve_refs [] d = Inr d"
| "resolve_refs (p # ps) d = res_bind (resolve_ref p d) (resolve_refs ps)"

definition ResolveTypes :: "dwarf_loader \<Rightarrow> dwarf_loader res" where
  "ResolveTypes d = resolve_refs (pending_refs d) d"

section \<open>The info section\<close>

partial_function (option) info_loop :: "host \<Rightarrow> u64 \<Rightarrow> u64 \<Rightarrow> dwarf_loader \<Rightarrow> dwarf_loader res option" where
  "info_loop h e ptr d =
     (if ptr < e then
        (case ParseCompileUnit h ptr e d of None \<Rightarrow> None
         | Some (Inl x) \<Rightarrow> Some (Inl x)
         | Some (Inr (next, d')) \<Rightarrow>
             if next = 0 \<or> next \<le> ptr then Some (Inr d') else info_loop h e next d')
      else Some (Inr d))"

declare info_loop.simps [code]

definition ParseInfoSection :: "host \<Rightarrow> dwarf_loader \<Rightarrow> dwarf_loader res option" where
  "ParseInfoSection h d =
     (if debug_info_data d = 0 then Some (Inr d)
      else map_option (\<lambda>r. res_bind r ResolveTypes)
             (info_loop h (debug_info_data d + debug_info_size d) (debug_info_data d) d))"

section \<open>Sections\<close>

text \<open>
  The buffer of a decompressed section is memory the process allocates (an empty vector has none);
  an allocation that fails ends the process. \<open>None\<close> when the function returns false.
\<close>

definition DecompressSection ::
  "os_env \<Rightarrow> (u8 list \<Rightarrow> nat \<Rightarrow> u8 list option) \<Rightarrow> elf_class \<Rightarrow> u64 \<Rightarrow> u64 \<Rightarrow> host \<Rightarrow> ((u64 \<times> u64) option \<times> host) res" where
  "DecompressSection os zstd cls raw raw_size h =
     (let chdr_size = (if cls = ELF64 then 24 else 12) in
      if raw_size < chdr_size then Inr (None, h)
      else
        res_bind (host_word h raw 4) (\<lambda>ch_type.
        res_bind (if cls = ELF64 then host_word h (raw + 8) 8 else host_word h (raw + 4) 4) (\<lambda>ch_size.
          if (ucast ch_type :: u32) = ELFCOMPRESS_ZSTD then
            res_bind (host_read h (raw + chdr_size) (unat (raw_size - chdr_size))) (\<lambda>payload.
              case (if ch_size = 0 then Some 0 else os_mmap os h ch_size) of None \<Rightarrow> Inl (HostFault 0)
              | Some buf \<Rightarrow>
                  (case zstd payload (unat ch_size) of None \<Rightarrow> Inr (None, h)
                   | Some bytes \<Rightarrow> Inr (Some (buf, of_nat (length bytes)), host_map h buf bytes)))
          else Inr (None, h))))"

fun sh_flags :: "elf_class \<Rightarrow> host \<Rightarrow> u64 \<Rightarrow> u64 res" where
  "sh_flags ELF64 h a = host_word h (a + 8) 8" | "sh_flags ELF32 h a = host_word h (a + 8) 4"

text \<open>The setter of a section of the given name, \<open>None\<close> for the names the code does not look for.\<close>

definition section_setter :: "string \<Rightarrow> (u64 \<Rightarrow> u64 \<Rightarrow> dwarf_loader \<Rightarrow> dwarf_loader) option" where
  "section_setter name =
     (if name = ''.debug_abbrev'' then Some (\<lambda>p n d. d\<lparr>debug_abbrev_data := p, debug_abbrev_size := n\<rparr>)
      else if name = ''.debug_info'' then Some (\<lambda>p n d. d\<lparr>debug_info_data := p, debug_info_size := n\<rparr>)
      else if name = ''.debug_str'' then Some (\<lambda>p n d. d\<lparr>debug_str_data := p, debug_str_size := n\<rparr>)
      else if name = ''.debug_str_offsets'' then
        Some (\<lambda>p n d. d\<lparr>debug_str_offsets_data := p, debug_str_offsets_size := n\<rparr>)
      else None)"

definition locate_section ::
  "os_env \<Rightarrow> (u8 list \<Rightarrow> nat \<Rightarrow> u8 list option) \<Rightarrow> memory_map \<Rightarrow> u64 \<Rightarrow> u64 \<Rightarrow> host \<Rightarrow> dwarf_loader \<Rightarrow> (host \<times> dwarf_loader) res" where
  "locate_section os zstd m shstr shdr h d =
     (let cls = elf_bits d; data = mm_begin m; size = mm_size m in
      res_bind (sh_type h shdr) (\<lambda>ty.
      res_bind (sh_offset cls h shdr) (\<lambda>off.
      res_bind (sh_size cls h shdr) (\<lambda>sz.
      res_bind (sh_name h shdr) (\<lambda>nm.
      res_bind (sh_flags cls h shdr) (\<lambda>flags.
        (let name_ptr = shstr + nm in
         if ty = 8 \<or> off + sz > size \<or> name_ptr < data \<or> name_ptr \<ge> data + size then Inr (h, d)
         else
           res_bind (c_string h name_ptr) (\<lambda>name.
             case section_setter name of None \<Rightarrow> Inr (h, d)
             | Some put \<Rightarrow>
                 if flags AND SHF_COMPRESSED \<noteq> 0 then
                   res_bind (DecompressSection os zstd cls (data + off) sz h) (\<lambda>(r, h').
                     Inr (h', case r of None \<Rightarrow> d | Some (p, n) \<Rightarrow> put p n d))
                 else Inr (h, put (data + off) sz d)))))))))"

fun locate_loop ::
  "os_env \<Rightarrow> (u8 list \<Rightarrow> nat \<Rightarrow> u8 list option) \<Rightarrow> memory_map \<Rightarrow> u64 \<Rightarrow> u64 \<Rightarrow> nat list \<Rightarrow> host \<Rightarrow> dwarf_loader \<Rightarrow> (host \<times> dwarf_loader) res" where
  "locate_loop os zstd m shstr shdr [] h d = Inr (h, d)"
| "locate_loop os zstd m shstr shdr (i # is) h d =
     res_bind (locate_section os zstd m shstr (shdr + of_nat i * sizeof_Shdr (elf_bits d)) h d)
       (\<lambda>(h', d'). locate_loop os zstd m shstr shdr is h' d')"

definition LocateSections ::
  "os_env \<Rightarrow> (u8 list \<Rightarrow> nat \<Rightarrow> u8 list option) \<Rightarrow> memory_map \<Rightarrow> host \<Rightarrow> dwarf_loader \<Rightarrow> (bool \<times> host \<times> dwarf_loader) res" where
  "LocateSections os zstd m h d =
     (let data = mm_begin m; size = mm_size m in
      if size < 5 then Inr (False, h, d)
      else
        res_bind (host_read h data 5) (\<lambda>ident.
          if take 4 ident \<noteq> [0x7f, 0x45, 0x4c, 0x46] then Inr (False, h, d)
          else
            (let cls = (if ident ! 4 = 1 then ELF32 else ELF64); d1 = d\<lparr>elf_bits := cls\<rparr> in
             if size < sizeof_Ehdr cls then Inr (False, h, d1)
             else
               res_bind (eh_shoff cls h data) (\<lambda>shoff.
               res_bind (eh_shnum cls h data) (\<lambda>shnum.
               res_bind (eh_shstrndx cls h data) (\<lambda>strndx.
                 if shoff = 0 \<or> shoff + shnum * sizeof_Shdr cls > size \<or> strndx \<ge> shnum then Inr (False, h, d1)
                 else
                   (let shdr = data + shoff in
                    res_bind (sh_offset cls h (shdr + strndx * sizeof_Shdr cls)) (\<lambda>stroff.
                      if stroff \<ge> size then Inr (False, h, d1)
                      else
                        res_bind (locate_loop os zstd m (data + stroff) shdr [0..<unat shnum] h d1) (\<lambda>(h', d').
                          Inr (debug_abbrev_data d' \<noteq> 0 \<and> debug_info_data d' \<noteq> 0, h', d'))))))))))"

text \<open>\<open>Init\<close> and \<open>Load\<close>: the loader, \<open>None\<close> when \<open>Init\<close> fails, and the memory of the process.\<close>

definition DwarfLoader_Init ::
  "os_env \<Rightarrow> (u8 list \<Rightarrow> nat \<Rightarrow> u8 list option) \<Rightarrow> string \<Rightarrow> host \<Rightarrow> dwarf_loader \<Rightarrow> (bool \<times> host \<times> dwarf_loader) res option" where
  "DwarfLoader_Init os zstd elf_path h d =
     (case MmapFile os h elf_path of (None, h') \<Rightarrow> Some (Inr (False, h', d))
      | (Some m, h') \<Rightarrow>
          (case LocateSections os zstd m h' d of Inl x \<Rightarrow> Some (Inl x)
           | Inr (ok, h2, d1) \<Rightarrow>
               if \<not> ok then Some (Inr (False, h2, d1))
               else
                 (case ParseAbbrevSection h2 d1 of Inl x \<Rightarrow> Some (Inl x)
                  | Inr d2 \<Rightarrow>
                      map_option (\<lambda>r. res_bind r (\<lambda>d3. Inr (structs d3 \<noteq> [], h2, d3)))
                        (ParseInfoSection h2 d2))))"

definition DwarfLoader_Load ::
  "os_env \<Rightarrow> (u8 list \<Rightarrow> nat \<Rightarrow> u8 list option) \<Rightarrow> string \<Rightarrow> host \<Rightarrow> (dwarf_loader option \<times> host) res option" where
  "DwarfLoader_Load os zstd elf_path h =
     map_option (\<lambda>r. res_bind r (\<lambda>(ok, h', d). Inr (if ok then Some d else None, h')))
       (DwarfLoader_Init os zstd elf_path h new_DwarfLoader)"

fun foreach_struct :: "(struct_info \<Rightarrow> 's \<Rightarrow> bool \<times> 's) \<Rightarrow> struct_info list \<Rightarrow> 's \<Rightarrow> 's" where
  "foreach_struct cb [] s = s"
| "foreach_struct cb (si # rest) s = (case cb si s of (stop, s') \<Rightarrow> if stop then s' else foreach_struct cb rest s')"

definition ForEachStruct :: "(struct_info \<Rightarrow> 's \<Rightarrow> bool \<times> 's) \<Rightarrow> dwarf_loader \<Rightarrow> 's \<Rightarrow> 's" where
  "ForEachStruct cb d s = foreach_struct cb (structs d) s"

end
