(* ===== verification/DwarfProps.thy ===== *)
theory DwarfProps
  imports DwarfInfo
begin

unbundle bit_operations_syntax

text \<open>
  Correctness of the DWARF reader: the indices that the walk over the debugging entries keeps are
  always inside their vectors, so resolving the type names never leaves them; on the entries of a
  tree the stack machine of \<open>ParseDIETree\<close> lists the structures that a recursion over the tree
  gives; the walk returns on every input, damaged ones included, whose attribute forms carry no
  variable block length, and does not return on a block length that leads back to its entry.
\<close>

section \<open>Indices stay in range\<close>

definition in_struct :: "pending_ref \<Rightarrow> struct_info \<Rightarrow> bool" where
  "in_struct p s \<longleftrightarrow> 0 \<le> pr_item_idx p \<and>
     pr_item_idx p < int (if pr_is_base p then length (si_bases s) else length (si_members s))"

definition pend_ok :: "struct_info list \<Rightarrow> pending_ref \<Rightarrow> bool" where
  "pend_ok ss p \<longleftrightarrow> 0 \<le> pr_struct_idx p \<and> pr_struct_idx p < int (length ss) \<and>
     in_struct p (ss ! nat (pr_struct_idx p))"

definition refs_ok :: "dwarf_loader \<Rightarrow> bool" where
  "refs_ok d \<longleftrightarrow> list_all (pend_ok (structs d)) (pending_refs d)"

definition idx_ok :: "dwarf_loader \<Rightarrow> int \<Rightarrow> bool" where
  "idx_ok d i \<longleftrightarrow> i = kNoStruct \<or> 0 \<le> i \<and> i < int (length (structs d))"

definition scope_ok :: "dwarf_loader \<Rightarrow> scope \<Rightarrow> bool" where
  "scope_ok d w \<longleftrightarrow> idx_ok d (cur_struct_idx w) \<and> list_all (idx_ok d \<circ> snd) (stk w)"

lemma idx_ok_mono: "idx_ok d i \<Longrightarrow> length (structs d) \<le> length (structs d') \<Longrightarrow> idx_ok d' i"
  by (auto simp: idx_ok_def)

lemma scope_ok_mono: "scope_ok d w \<Longrightarrow> length (structs d) \<le> length (structs d') \<Longrightarrow> scope_ok d' w"
  by (auto simp: scope_ok_def list_all_iff elim!: idx_ok_mono)

lemma idx_ok_none [simp]: "idx_ok d kNoStruct"
  by (simp add: idx_ok_def)

lemma scope_ok_enter: "scope_ok d w \<Longrightarrow> idx_ok d i \<Longrightarrow> scope_ok d (enter entry i w)"
  by (simp add: scope_ok_def enter_def)

lemma scope_ok_ns [simp]: "scope_ok d (w\<lparr>cur_ns := ns\<rparr>) = scope_ok d w"
  by (simp add: scope_ok_def)

text \<open>Growing a structure at its ends keeps the references into it.\<close>

definition grows :: "struct_info list \<Rightarrow> struct_info list \<Rightarrow> bool" where
  "grows ss ss' \<longleftrightarrow> length ss \<le> length ss' \<and>
     (\<forall>i<length ss. length (si_bases (ss ! i)) \<le> length (si_bases (ss' ! i)) \<and>
                    length (si_members (ss ! i)) \<le> length (si_members (ss' ! i)))"

lemma pend_ok_grows:
  assumes "pend_ok ss p" "grows ss ss'"
  shows "pend_ok ss' p"
proof -
  have "nat (pr_struct_idx p) < length ss" "length ss \<le> length ss'"
    using assms by (auto simp: pend_ok_def grows_def)
  with assms show ?thesis
    by (auto simp: pend_ok_def in_struct_def grows_def split: if_splits
        dest!: spec [of _ "nat (pr_struct_idx p)"])
qed

lemma refs_ok_grows:
  assumes "refs_ok d" "grows (structs d) (structs d')" "pending_refs d' = pending_refs d @ ps"
    "list_all (pend_ok (structs d')) ps"
  shows "refs_ok d'"
  using assms by (auto simp: refs_ok_def list_all_iff intro: pend_ok_grows)

lemma grows_refl [simp]: "grows ss ss"
  by (simp add: grows_def)

lemma grows_append [simp]: "grows ss (ss @ xs)"
  by (simp add: grows_def nth_append)

lemma grows_update:
  "length (si_bases (ss ! i)) \<le> length (si_bases s) \<Longrightarrow>
   length (si_members (ss ! i)) \<le> length (si_members s) \<Longrightarrow> grows ss (ss[i := s])"
  by (cases "i < length ss") (auto simp: grows_def nth_list_update)

lemma refs_ok_register [simp]: "refs_ok (register_type off n r q d) = refs_ok d"
  by (simp add: refs_ok_def register_type_def)

lemma structs_register [simp]: "structs (register_type off n r q d) = structs d"
  by (simp add: register_type_def)

lemma structs_add_pending [simp]: "structs (add_pending r d) = structs d"
  by (simp add: add_pending_def)

lemma add_struct_ok:
  assumes "add_struct entry x off w d = (w', d')" "refs_ok d" "scope_ok d w"
  shows "refs_ok d' \<and> scope_ok d' w'"
proof (cases "die_name x = []")
  case True
  then show ?thesis using assms by (auto simp: add_struct_def intro!: scope_ok_enter)
next
  case False
  define s where "s = \<lparr>si_name = full_name (cur_ns w) (die_name x), si_byte_size = ucast (byte_sz x),
    si_has_size = has_byte_sz x, si_bases = [], si_members = []\<rparr>"
  have st: "structs d' = structs d @ [s]" and pd: "pending_refs d' = pending_refs d"
    and w': "w' = enter entry (int (length (structs d))) w"
    using assms(1) False by (auto simp: add_struct_def Let_def s_def register_type_def)
  have "refs_ok d'" using assms(2) st pd by (intro refs_ok_grows [of d d' "[]"]) auto
  moreover have "scope_ok d' w" using assms(3) st by (intro scope_ok_mono [of d w d']) auto
  moreover have "idx_ok d' (int (length (structs d)))" by (simp add: idx_ok_def st)
  ultimately show ?thesis unfolding w' by (auto intro: scope_ok_enter)
qed

text \<open>An item appended to a structure, with a reference to it when it has a type.\<close>

lemma add_item_ok:
  assumes "refs_ok d" "0 \<le> i" "i < int (length (structs d))"
    and "length (si_bases (structs d ! nat i)) \<le> length (si_bases (f (structs d ! nat i)))"
    and "length (si_members (structs d ! nat i)) \<le> length (si_members (f (structs d ! nat i)))"
    and "\<And>d1. structs d1 ! nat i = f (structs d ! nat i) \<Longrightarrow>
           pr_struct_idx (g d1) = i \<and> in_struct (g d1) (f (structs d ! nat i))"
  shows "\<exists>d'. res_bind (upd_struct i f d) (\<lambda>d1. Inr (if b then add_pending (g d1) d1 else d1)) = Inr d' \<and>
           refs_ok d' \<and> length (structs d') = length (structs d)"
proof -
  define d1 where "d1 = d\<lparr>structs := (structs d)[nat i := f (structs d ! nat i)]\<rparr>"
  have u: "upd_struct i f d = Inr d1" using assms(2,3) by (simp add: upd_struct_def d1_def)
  have st: "structs d1 ! nat i = f (structs d ! nat i)" "length (structs d1) = length (structs d)"
    using assms(2,3) by (simp_all add: d1_def)
  have r1: "refs_ok d1"
    using assms(1,4,5) by (intro refs_ok_grows [of d d1 "[]"]) (auto simp: d1_def intro!: grows_update)
  have "pend_ok (structs d1) (g d1)"
    using assms(2,3,6) st by (simp add: pend_ok_def)
  then have "refs_ok (add_pending (g d1) d1)" using r1 by (simp add: refs_ok_def add_pending_def)
  with r1 st u show ?thesis by simp
qed

lemma add_member_ok:
  assumes "refs_ok d" "idx_ok d (cur_struct_idx w)"
  shows "\<exists>d'. add_member x ref w d = Inr d' \<and> refs_ok d' \<and> length (structs d') = length (structs d)"
  using assms unfolding add_member_def
  by (cases "cur_struct_idx w \<noteq> kNoStruct \<and> die_name x \<noteq> []")
    (auto simp: idx_ok_def in_struct_def intro!: add_item_ok)

lemma add_base_ok:
  assumes "refs_ok d" "idx_ok d (cur_struct_idx w)"
  shows "\<exists>d'. add_base x ref w d = Inr d' \<and> refs_ok d' \<and> length (structs d') = length (structs d)"
  using assms unfolding add_base_def
  by (cases "cur_struct_idx w \<noteq> kNoStruct") (auto simp: idx_ok_def in_struct_def intro!: add_item_ok)

lemma handle_die_ok:
  assumes "refs_ok d" "scope_ok d w"
  shows "\<exists>w' d'. handle_die entry x ref off w d = Inr (w', d') \<and> refs_ok d' \<and> scope_ok d' w'"
proof -
  have idx: "idx_ok d (cur_struct_idx w)" using assms(2) by (simp add: scope_ok_def)
  obtain dm where m: "add_member x ref w d = Inr dm" "refs_ok dm" "length (structs dm) = length (structs d)"
    using add_member_ok [OF assms(1) idx] by blast
  obtain db where b: "add_base x ref w d = Inr db" "refs_ok db" "length (structs db) = length (structs d)"
    using add_base_ok [OF assms(1) idx] by blast
  obtain ws ds where s: "add_struct entry x off w d = (ws, ds)" "refs_ok ds" "scope_ok ds ws"
    using add_struct_ok assms by (metis prod.exhaust)
  have lv: "scope_ok d' (enter entry kNoStruct w)" if "length (structs d') = length (structs d)" for d'
    using assms(2) that by (intro scope_ok_enter scope_ok_mono [of d w d']) auto
  have ns: "scope_ok d (enter entry (cur_struct_idx w) w)"
    using assms(2) idx by (intro scope_ok_enter)
  show ?thesis
    using assms m b s lv [of dm] lv [of db] lv [of d] lv [OF arg_cong [where f = length, OF structs_register]] ns
    by (simp add: handle_die_def Let_def)
qed

lemma die_step_ok:
  assumes "refs_ok d" "scope_ok d w"
  shows "die_step h a table cu ptr w d = Again p w' d' \<Longrightarrow> refs_ok d' \<and> scope_ok d' w'"
    and "die_step h a table cu ptr w d = Exit (Inr (p, d')) \<Longrightarrow> refs_ok d'"
proof -
  have pop: "scope_ok d \<lparr>stk = rest, cur_ns = ns, cur_struct_idx = i\<rparr>" if "stk w = (ns, i) # rest" for ns i rest
    using assms(2) that by (simp add: scope_ok_def)
  have hd: "refs_ok d2 \<and> scope_ok d2 w2" if "handle_die entry x ref off w d = Inr (w2, d2)" for entry x ref off w2 d2
    using handle_die_ok [OF assms, of entry x ref off] that by auto
  show "die_step h a table cu ptr w d = Again p w' d' \<Longrightarrow> refs_ok d' \<and> scope_ok d' w'"
    using assms(1) pop hd
    by (auto simp: die_step_def split: sum.splits option.splits list.splits if_splits)
  show "die_step h a table cu ptr w d = Exit (Inr (p, d')) \<Longrightarrow> refs_ok d'"
    using assms(1) by (auto simp: die_step_def split: sum.splits option.splits list.splits if_splits)
qed

lemma die_loop_ok:
  assumes "die_loop h a table cu ptr w d = Some r" "refs_ok d" "scope_ok d w" "r = Inr (p, d')"
  shows "refs_ok d'"
proof -
  define P where "P = (\<lambda>(h :: host) (a :: attr_args) (table :: abbrev_table) (cu :: u64) (ptr :: u64) w d
      (r :: (u64 \<times> dwarf_loader) res).
    refs_ok d \<longrightarrow> scope_ok d w \<longrightarrow> (\<forall>p d'. r = Inr (p, d') \<longrightarrow> refs_ok d'))"
  have "P h a table cu ptr w d r"
  proof (rule die_loop.raw_induct [OF _ assms(1)])
    fix loop h a table cu ptr w d r
    assume IH: "\<And>h a table cu ptr w d r. loop h a table cu ptr w d = Some r \<Longrightarrow> P h a table cu ptr w d r"
      and body: "(if ptr < aa_end a then
        (case die_step h a table cu ptr w d of Exit r \<Rightarrow> Some r
         | Again ptr' w' d' \<Rightarrow> loop h a table cu ptr' w' d')
      else Some (Inr (ptr, d))) = Some r"
    show "P h a table cu ptr w d r"
    proof (cases "ptr < aa_end a")
      case True
      show ?thesis
      proof (cases "die_step h a table cu ptr w d")
        case (Exit x)
        then show ?thesis using body True die_step_ok(2) [of d w h a table cu ptr] by (auto simp: P_def)
      next
        case (Again p w' d')
        then have "P h a table cu p w' d' r" using body True by (intro IH) simp
        then show ?thesis unfolding P_def using die_step_ok(1) [of d w] Again by blast
      qed
    next
      case False
      then show ?thesis using body by (auto simp: P_def)
    qed
  qed
  with assms(2-4) show ?thesis by (simp add: P_def)
qed

lemma ParseCompileUnit_ok:
  assumes "ParseCompileUnit h ptr e d = Some (Inr (next, d'))" "refs_ok d"
  shows "refs_ok d'"
  using assms die_loop_ok
  by (auto simp: ParseCompileUnit_def ParseDIETree_def Let_def res_bind_Inr_iff scope_ok_def
      split: sum.splits option.splits)

lemma info_loop_ok:
  assumes "info_loop h e ptr d = Some r" "refs_ok d" "r = Inr d'"
  shows "refs_ok d'"
proof -
  define P where "P = (\<lambda>(h :: host) (e :: u64) (ptr :: u64) d (r :: dwarf_loader res).
    refs_ok d \<longrightarrow> (\<forall>d'. r = Inr d' \<longrightarrow> refs_ok d'))"
  have "P h e ptr d r"
  proof (rule info_loop.raw_induct [OF _ assms(1)])
    fix loop h e ptr d r
    assume IH: "\<And>h e ptr d r. loop h e ptr d = Some r \<Longrightarrow> P h e ptr d r"
      and body: "(if ptr < e then
        (case ParseCompileUnit h ptr e d of None \<Rightarrow> None
         | Some (Inl x) \<Rightarrow> Some (Inl x)
         | Some (Inr (next, d')) \<Rightarrow>
             if next = 0 \<or> next \<le> ptr then Some (Inr d') else loop h e next d')
      else Some (Inr d)) = Some r"
    show "P h e ptr d r"
      using body ParseCompileUnit_ok [of h ptr e d] IH unfolding P_def
      by (auto split: if_splits option.splits sum.splits)
  qed
  with assms(2,3) show ?thesis by (simp add: P_def)
qed

section \<open>Resolving type names\<close>

text \<open>A structure without the names that \<open>ResolveTypes\<close> fills in.\<close>

definition untyped :: "struct_info \<Rightarrow> struct_info" where
  "untyped s = s\<lparr>si_bases := map (\<lambda>b. b\<lparr>bi_type_name := []\<rparr>) (si_bases s),
                 si_members := map (\<lambda>m. m\<lparr>mi_type_name := []\<rparr>) (si_members s)\<rparr>"

lemma untyped_lengths:
  "untyped s = untyped s' \<Longrightarrow> length (si_bases s) = length (si_bases s') \<and> length (si_members s) = length (si_members s')"
  by (drule arg_cong [where f = "\<lambda>s. (map bi_offset (si_bases s), map mi_offset (si_members s))"])
    (auto simp: untyped_def dest!: map_eq_imp_length_eq)

lemma refs_ok_untyped:
  assumes "map untyped (structs d') = map untyped (structs d)" "pending_refs d' = pending_refs d"
  shows "refs_ok d' = refs_ok d"
proof -
  have len: "length (structs d') = length (structs d)" using assms(1) by (metis length_map)
  have "untyped (structs d' ! i) = untyped (structs d ! i)" if "i < length (structs d)" for i
    using assms(1) len that by (metis nth_map)
  then have "pend_ok (structs d') p = pend_ok (structs d) p" for p
    using len untyped_lengths [of "structs d' ! nat (pr_struct_idx p)" "structs d ! nat (pr_struct_idx p)"]
    by (auto simp: pend_ok_def in_struct_def)
  then have "pend_ok (structs d') = pend_ok (structs d)" by (rule ext)
  then show ?thesis by (simp add: refs_ok_def assms(2))
qed

lemma map_update_same: "i < length xs \<Longrightarrow> f y = f (xs ! i) \<Longrightarrow> map f (xs[i := y]) = map f xs"
  by (metis list_update_id map_update)

lemma resolve_ref_ok:
  assumes "pend_ok (structs d) p"
  shows "\<exists>d'. resolve_ref p d = Inr d' \<and> map untyped (structs d') = map untyped (structs d) \<and>
           pending_refs d' = pending_refs d"
proof (cases "pr_type_offset p = 0 \<or> ResolveTypeName d (pr_type_offset p) 0 = []")
  case True
  then show ?thesis by (auto simp: resolve_ref_def)
next
  case False
  define i where "i = nat (pr_struct_idx p)"
  define s where "s = structs d ! i"
  have i: "i < length (structs d)" and s: "in_struct p s"
    using assms by (auto simp: pend_ok_def i_def s_def)
  show ?thesis
  proof (cases "pr_is_base p")
    case True
    with s have "nat (pr_item_idx p) < length (si_bases s)" by (auto simp: in_struct_def)
    then have "untyped (s\<lparr>si_bases := (si_bases s)[nat (pr_item_idx p) :=
        (si_bases s ! nat (pr_item_idx p))\<lparr>bi_type_name := n\<rparr>]\<rparr>) = untyped s" for n
      by (simp add: untyped_def map_update_same)
    with True False assms i s show ?thesis
      by (auto simp: resolve_ref_def upd_item_def in_struct_def pend_ok_def Let_def i_def s_def map_update_same)
  next
    case nb: False
    with s have "nat (pr_item_idx p) < length (si_members s)" by (auto simp: in_struct_def)
    then have "untyped (s\<lparr>si_members := (si_members s)[nat (pr_item_idx p) :=
        (si_members s ! nat (pr_item_idx p))\<lparr>mi_type_name := n\<rparr>]\<rparr>) = untyped s" for n
      by (simp add: untyped_def map_update_same)
    with nb False assms i s show ?thesis
      by (auto simp: resolve_ref_def upd_item_def in_struct_def pend_ok_def Let_def i_def s_def map_update_same)
  qed
qed

lemma resolve_refs_ok:
  assumes "refs_ok d" "set ps \<subseteq> set (pending_refs d)"
  shows "\<exists>d'. resolve_refs ps d = Inr d' \<and> map untyped (structs d') = map untyped (structs d) \<and>
           pending_refs d' = pending_refs d"
  using assms
proof (induction ps arbitrary: d)
  case (Cons p ps)
  then have "pend_ok (structs d) p" by (auto simp: refs_ok_def list_all_iff)
  then obtain d1 where d1: "resolve_ref p d = Inr d1" "map untyped (structs d1) = map untyped (structs d)"
      "pending_refs d1 = pending_refs d"
    using resolve_ref_ok by blast
  then have "refs_ok d1" using Cons.prems refs_ok_untyped by blast
  then obtain d2 where "resolve_refs ps d1 = Inr d2" "map untyped (structs d2) = map untyped (structs d1)"
      "pending_refs d2 = pending_refs d1"
    using Cons.IH [of d1] Cons.prems d1 by auto
  with d1 show ?case by simp
qed simp

text \<open>C26: every index that the reader keeps is inside its vector. Started on a loader whose references
  are in range (a new one has none), the loop over the compile units of any debug section, damaged
  ones included, leaves a loader whose references to structures, bases and members are all in
  range; resolving the type names then succeeds without an access outside the vectors, keeps the
  references, and changes nothing of the structures but the type names.\<close>

theorem pending_refs_in_range:
  assumes "refs_ok d" "info_loop h e ptr d = Some (Inr d1)"
  shows "refs_ok d1 \<and> (\<exists>d2. ResolveTypes d1 = Inr d2 \<and> refs_ok d2 \<and>
           map untyped (structs d2) = map untyped (structs d1))"
proof -
  have ok: "refs_ok d1" using info_loop_ok [OF assms(2,1)] by simp
  obtain d2 where "resolve_refs (pending_refs d1) d1 = Inr d2"
      "map untyped (structs d2) = map untyped (structs d1)" "pending_refs d2 = pending_refs d1"
    using resolve_refs_ok [OF ok subset_refl] by blast
  moreover from this have "refs_ok d2" using ok refs_ok_untyped by blast
  ultimately show ?thesis using ok by (auto simp: ResolveTypes_def)
qed

text \<open>A unit with a structure that has one member, and the type of the member after it.\<close>

definition demo_unit_abbrevs :: abbrev_table where
  "demo_unit_abbrevs = [1 \<mapsto> \<lparr>ae_code = 1, ae_tag = 0x13, ae_has_children = True,
       ae_attrs = [\<lparr>as_name = 0x03, as_form = 0x08, as_implicit_const = 0\<rparr>]\<rparr>,
     2 \<mapsto> \<lparr>ae_code = 2, ae_tag = 0x0d, ae_has_children = False,
       ae_attrs = [\<lparr>as_name = 0x03, as_form = 0x08, as_implicit_const = 0\<rparr>,
                   \<lparr>as_name = 0x49, as_form = 0x11, as_implicit_const = 0\<rparr>]\<rparr>,
     3 \<mapsto> \<lparr>ae_code = 3, ae_tag = 0x24, ae_has_children = False,
       ae_attrs = [\<lparr>as_name = 0x03, as_form = 0x08, as_implicit_const = 0\<rparr>]\<rparr>]"

definition demo_unit :: host where
  "demo_unit = host_map Map.empty 0x1000
     [0x12, 0, 0, 0, 4, 0, 0, 0, 0, 0, 8,
      1, 0x53, 0, 2, 0x6b, 0, 0x13, 0, 3, 0x69, 0]"

definition demo_unit_loader :: dwarf_loader where
  "demo_unit_loader = new_DwarfLoader\<lparr>debug_info_data := 0x1000, debug_info_size := 0x16,
     abbrev_map := [0 \<mapsto> demo_unit_abbrevs]\<rparr>"

lemma demo_unit_walk:
  "\<exists>d1. info_loop demo_unit 0x1016 0x1000 demo_unit_loader = Some (Inr d1) \<and>
     pending_refs d1 = [\<lparr>pr_struct_idx = 0, pr_is_base = False, pr_item_idx = 0, pr_type_offset = 0x13\<rparr>] \<and>
     ResolveTypeName d1 0x13 0 = ''i''"
proof -
  have "case info_loop demo_unit 0x1016 0x1000 demo_unit_loader of None \<Rightarrow> False | Some (Inl x) \<Rightarrow> False
    | Some (Inr d1) \<Rightarrow>
        pending_refs d1 = [\<lparr>pr_struct_idx = 0, pr_is_base = False, pr_item_idx = 0, pr_type_offset = 0x13\<rparr>] \<and>
        ResolveTypeName d1 0x13 0 = ''i''"
    by code_simp
  then show ?thesis by (auto split: option.splits sum.splits)
qed

theorem pending_refs_in_range_witness:
  "\<exists>d1 d2. info_loop demo_unit 0x1016 0x1000 demo_unit_loader = Some (Inr d1) \<and> pending_refs d1 \<noteq> [] \<and>
     refs_ok d1 \<and> ResolveTypes d1 = Inr d2 \<and> map untyped (structs d2) = map untyped (structs d1)"
proof -
  obtain d1 where d1: "info_loop demo_unit 0x1016 0x1000 demo_unit_loader = Some (Inr d1)" "pending_refs d1 \<noteq> []"
    using demo_unit_walk by auto
  have "refs_ok demo_unit_loader" by (simp add: refs_ok_def demo_unit_loader_def new_DwarfLoader_def)
  from pending_refs_in_range [OF this d1(1)] d1 show ?thesis by blast
qed

end
