(* ===== verification/DwarfTree.thy ===== *)
theory DwarfTree
  imports DwarfProps
begin

unbundle bit_operations_syntax

text \<open>
  What \<open>ParseDIETree\<close> collects, stated over the tree of debugging entries that the bytes encode:
  the structures in preorder, each with the members and bases among its own children, named with
  the namespaces around them. The loop with its explicit stack of scopes refines this recursion.
\<close>

section \<open>The loader's sections do not change during a walk\<close>

definition same_sections :: "dwarf_loader \<Rightarrow> dwarf_loader \<Rightarrow> bool" where
  "same_sections d d' \<longleftrightarrow>
     debug_info_data d' = debug_info_data d \<and> debug_info_size d' = debug_info_size d \<and>
     debug_str_data d' = debug_str_data d \<and> debug_str_size d' = debug_str_size d \<and>
     debug_str_offsets_data d' = debug_str_offsets_data d \<and>
     debug_str_offsets_size d' = debug_str_offsets_size d"

lemma same_sections_refl [simp]: "same_sections d d"
  by (simp add: same_sections_def)

lemma same_sections_trans: "same_sections d1 d2 \<Longrightarrow> same_sections d2 d3 \<Longrightarrow> same_sections d1 d3"
  by (simp add: same_sections_def)

lemma GetDebugStr_sections: "same_sections d d' \<Longrightarrow> GetDebugStr h d' = GetDebugStr h d"
  by (rule ext) (simp add: GetDebugStr_def same_sections_def)

lemma GetDebugStrX_sections: "same_sections d d' \<Longrightarrow> GetDebugStrX h d' i b w = GetDebugStrX h d i b w"
  by (frule GetDebugStr_sections [of d d' h]) (simp add: GetDebugStrX_def Let_def same_sections_def)

lemma read_form_sections: "same_sections d d' \<Longrightarrow> read_form h d' a form ptr ov os = read_form h d a form ptr ov os"
  by (simp add: read_form_def attr_strx_def attr_strxN_def attr_strp_def indexed_str_def
      GetDebugStrX_sections GetDebugStr_sections cong: if_cong)

lemma ReadAttrValue_sections:
  "same_sections d d' \<Longrightarrow> ReadAttrValue h d' a form ptr ov os = ReadAttrValue h d a form ptr ov os"
proof (induction h d a form ptr ov os rule: ReadAttrValue.induct)
  case (1 h d a form ptr ov os)
  then show ?case
    by (subst (1 2) ReadAttrValue.simps) (auto simp: read_form_sections split: sum.splits)
qed

lemma die_attrs_sections: "same_sections d d' \<Longrightarrow> die_attrs h d' a attrs ptr x = die_attrs h d a attrs ptr x"
  by (induction attrs arbitrary: ptr x) (simp_all add: ReadAttrValue_sections cong: if_cong)

section \<open>Trees of entries\<close>

text \<open>An entry at an address, with its abbreviation, the values of its attributes and its children.\<close>

datatype dtree = DNode u64 abbrev_entry die "dtree list"

text \<open>The bytes from \<open>p\<close> to \<open>q\<close> are the entries of a forest; a null entry ends a list of children.\<close>

inductive forest_at :: "host \<Rightarrow> dwarf_loader \<Rightarrow> attr_args \<Rightarrow> abbrev_table \<Rightarrow> u64 \<Rightarrow> dtree list \<Rightarrow> u64 \<Rightarrow> bool"
  for h d a table where
  none: "forest_at h d a table p [] p"
| leaf: "p < aa_end a \<Longrightarrow> ReadULEB128 h (aa_end a) p = Inr (code, p1) \<Longrightarrow> code \<noteq> 0 \<Longrightarrow>
    table (ucast code) = Some en \<Longrightarrow> die_attrs h d a (ae_attrs en) p1 new_die = Inr (Some (p2, x)) \<Longrightarrow>
    \<not> ae_has_children en \<Longrightarrow> forest_at h d a table p2 ts q \<Longrightarrow>
    forest_at h d a table p (DNode p en x [] # ts) q"
| node: "p < aa_end a \<Longrightarrow> ReadULEB128 h (aa_end a) p = Inr (code, p1) \<Longrightarrow> code \<noteq> 0 \<Longrightarrow>
    table (ucast code) = Some en \<Longrightarrow> die_attrs h d a (ae_attrs en) p1 new_die = Inr (Some (p2, x)) \<Longrightarrow>
    ae_has_children en \<Longrightarrow> forest_at h d a table p2 kids p3 \<Longrightarrow>
    p3 < aa_end a \<Longrightarrow> ReadULEB128 h (aa_end a) p3 = Inr (0, p4) \<Longrightarrow> forest_at h d a table p4 ts q \<Longrightarrow>
    forest_at h d a table p (DNode p en x kids # ts) q"

section \<open>The structures of a forest\<close>

definition is_struct :: "abbrev_entry \<Rightarrow> bool" where
  "is_struct en \<longleftrightarrow> ae_tag en = DW_TAG_structure_type \<or> ae_tag en = DW_TAG_class_type"

definition node_bases :: "abbrev_entry \<Rightarrow> die \<Rightarrow> base_info list" where
  "node_bases en x =
     (if ae_tag en = DW_TAG_inheritance
      then [\<lparr>bi_type_name = [], bi_offset = ucast (member_loc x), bi_has_offset = has_member_loc x\<rparr>] else [])"

definition node_members :: "abbrev_entry \<Rightarrow> die \<Rightarrow> member_info list" where
  "node_members en x =
     (if ae_tag en = DW_TAG_member \<and> die_name x \<noteq> []
      then [\<lparr>mi_name = die_name x, mi_type_name = [], mi_offset = ucast (member_loc x),
             mi_has_offset = has_member_loc x\<rparr>] else [])"

definition node_struct :: "string \<Rightarrow> abbrev_entry \<Rightarrow> die \<Rightarrow> base_info list \<Rightarrow> member_info list \<Rightarrow> struct_info list" where
  "node_struct ns en x bs ms =
     (if is_struct en \<and> die_name x \<noteq> []
      then [\<lparr>si_name = full_name ns (die_name x), si_byte_size = ucast (byte_sz x),
             si_has_size = has_byte_sz x, si_bases = bs, si_members = ms\<rparr>] else [])"

definition child_ns :: "string \<Rightarrow> abbrev_entry \<Rightarrow> die \<Rightarrow> string" where
  "child_ns ns en x = (if ae_tag en = DW_TAG_namespace then full_name ns (die_name x) else ns)"

fun own_bases :: "dtree list \<Rightarrow> base_info list" where
  "own_bases [] = []"
| "own_bases (DNode p en x kids # ts) =
     node_bases en x @ (if ae_tag en = DW_TAG_namespace then own_bases kids else []) @ own_bases ts"

fun own_members :: "dtree list \<Rightarrow> member_info list" where
  "own_members [] = []"
| "own_members (DNode p en x kids # ts) =
     node_members en x @ (if ae_tag en = DW_TAG_namespace then own_members kids else []) @ own_members ts"

fun forest_structs :: "string \<Rightarrow> dtree list \<Rightarrow> struct_info list" where
  "forest_structs ns [] = []"
| "forest_structs ns (DNode p en x kids # ts) =
     node_struct ns en x (own_bases kids) (own_members kids) @
     forest_structs (child_ns ns en x) kids @ forest_structs ns ts"

text \<open>Items appended to the structure with index \<open>i\<close>, nothing outside a structure.\<close>

definition append_items :: "int \<Rightarrow> base_info list \<Rightarrow> member_info list \<Rightarrow> struct_info list \<Rightarrow> struct_info list" where
  "append_items i bs ms ss =
     (if i = kNoStruct then ss
      else ss[nat i := (ss ! nat i)\<lparr>si_bases := si_bases (ss ! nat i) @ bs,
                                     si_members := si_members (ss ! nat i) @ ms\<rparr>])"

lemma append_items_none [simp]: "append_items i [] [] ss = ss"
  by (simp add: append_items_def)

lemma append_items_kNoStruct [simp]: "append_items kNoStruct bs ms ss = ss"
  by (simp add: append_items_def)

lemma length_append_items [simp]: "length (append_items i bs ms ss) = length ss"
  by (simp add: append_items_def)

lemma append_items_twice:
  assumes "i = kNoStruct \<or> 0 \<le> i \<and> i < int (length ss)"
  shows "append_items i bs' ms' (append_items i bs ms ss @ xs) = append_items i (bs @ bs') (ms @ ms') ss @ xs"
  using assms by (auto simp: append_items_def kNoStruct_def nth_append list_update_append)

lemma append_items_last:
  "append_items (int (length ss)) bs ms (ss @ [s]) =
     ss @ [s\<lparr>si_bases := si_bases s @ bs, si_members := si_members s @ ms\<rparr>]"
  by (simp add: append_items_def kNoStruct_def)

section \<open>One entry\<close>

definition child_idx :: "abbrev_entry \<Rightarrow> die \<Rightarrow> int \<Rightarrow> dwarf_loader \<Rightarrow> int" where
  "child_idx en x i d =
     (if ae_tag en = DW_TAG_namespace then i
      else if is_struct en \<and> die_name x \<noteq> [] then int (length (structs d)) else kNoStruct)"

lemma add_member_effect:
  assumes "idx_ok d i" "ae_tag en = DW_TAG_member"
  shows "\<exists>d1. add_member x ref \<lparr>stk = S, cur_ns = ns, cur_struct_idx = i\<rparr> d = Inr d1 \<and>
    same_sections d d1 \<and> structs d1 = append_items i [] (node_members en x) (structs d)"
  using assms
  by (auto simp: add_member_def upd_struct_def idx_ok_def append_items_def node_members_def
      same_sections_def add_pending_def)

lemma add_base_effect:
  assumes "idx_ok d i" "ae_tag en = DW_TAG_inheritance"
  shows "\<exists>d1. add_base x ref \<lparr>stk = S, cur_ns = ns, cur_struct_idx = i\<rparr> d = Inr d1 \<and>
    same_sections d d1 \<and> structs d1 = append_items i (node_bases en x) [] (structs d)"
  using assms
  by (auto simp: add_base_def upd_struct_def idx_ok_def append_items_def node_bases_def
      same_sections_def add_pending_def)

lemma same_sections_register [simp]: "same_sections d (register_type off n r q d)"
  by (simp add: same_sections_def register_type_def)

lemma handle_die_effect:
  assumes "idx_ok d i"
  shows "\<exists>d1. handle_die en x ref off \<lparr>stk = S, cur_ns = ns, cur_struct_idx = i\<rparr> d =
      Inr (if ae_has_children en
           then \<lparr>stk = (ns, i) # S, cur_ns = child_ns ns en x, cur_struct_idx = child_idx en x i d\<rparr>
           else \<lparr>stk = S, cur_ns = ns, cur_struct_idx = i\<rparr>, d1) \<and>
    same_sections d d1 \<and>
    structs d1 = append_items i (node_bases en x) (node_members en x) (structs d) @ node_struct ns en x [] []"
proof -
  consider (m) "ae_tag en = DW_TAG_member" | (b) "ae_tag en = DW_TAG_inheritance"
    | (s) "is_struct en" | (o) "\<not> is_struct en" "ae_tag en \<noteq> DW_TAG_member" "ae_tag en \<noteq> DW_TAG_inheritance"
    by blast
  then show ?thesis
  proof cases
    case m
    then show ?thesis
      using add_member_effect [OF assms m, of x ref S ns]
      by (auto simp: handle_die_def enter_def child_ns_def child_idx_def is_struct_def node_bases_def
          node_struct_def dw_tags)
  next
    case b
    then show ?thesis
      using add_base_effect [OF assms b, of x ref S ns]
      by (auto simp: handle_die_def enter_def child_ns_def child_idx_def is_struct_def node_members_def
          node_struct_def dw_tags)
  next
    case s
    then show ?thesis
      by (auto simp: handle_die_def add_struct_def enter_def child_ns_def child_idx_def is_struct_def
          node_members_def node_bases_def node_struct_def same_sections_def register_type_def Let_def dw_tags)
  next
    case o
    then show ?thesis
      by (auto simp: handle_die_def enter_def child_ns_def child_idx_def is_struct_def node_members_def
          node_bases_def node_struct_def Let_def)
  qed
qed

section \<open>The loop refines the recursion\<close>

text \<open>The structures after the children of a node.\<close>

lemma children_structs:
  assumes "idx_ok d i"
  shows "append_items (child_idx en x i d) (own_bases kids) (own_members kids)
      (append_items i (node_bases en x) (node_members en x) (structs d) @ node_struct ns en x [] []) =
    append_items i (node_bases en x @ (if ae_tag en = DW_TAG_namespace then own_bases kids else []))
      (node_members en x @ (if ae_tag en = DW_TAG_namespace then own_members kids else [])) (structs d) @
    node_struct ns en x (own_bases kids) (own_members kids)"
proof -
  consider (ns) "ae_tag en = DW_TAG_namespace" | (s) "is_struct en" "die_name x \<noteq> []" "ae_tag en \<noteq> DW_TAG_namespace"
    | (o) "\<not> (is_struct en \<and> die_name x \<noteq> [])" "ae_tag en \<noteq> DW_TAG_namespace"
    by blast
  then show ?thesis
  proof cases
    case ns
    moreover from ns have "\<not> is_struct en" by (simp add: is_struct_def dw_tags)
    ultimately show ?thesis
      using append_items_twice [of i "structs d" _ _ "node_bases en x" "node_members en x" "[]"] assms
      by (simp add: child_idx_def node_struct_def idx_ok_def)
  next
    case s
    then have "node_bases en x = []" "node_members en x = []"
      by (auto simp: is_struct_def node_bases_def node_members_def dw_tags)
    with s show ?thesis by (simp add: child_idx_def node_struct_def append_items_last)
  next
    case o
    then show ?thesis by (auto simp: child_idx_def node_struct_def)
  qed
qed

lemma child_idx_ok:
  assumes "idx_ok d i" "length (structs d1) = length (structs d) + length (node_struct ns en x [] [])"
  shows "idx_ok d1 (child_idx en x i d)" "idx_ok d1 i"
  using assms by (auto simp: idx_ok_def child_idx_def node_struct_def)

lemma die_loop_again:
  assumes "p < aa_end a" "die_step h a table cu p w d = Again p' w' d'"
  shows "die_loop h a table cu p w d = die_loop h a table cu p' w' d'"
  using assms by (subst die_loop.simps) simp

text \<open>The round for an entry: its own effect, and the scope of its children when it has some.\<close>

lemma die_loop_entry:
  assumes "p < aa_end a" "ReadULEB128 h (aa_end a) p = Inr (code, p1)" "code \<noteq> 0" "table (ucast code) = Some en"
    and "die_attrs h d0 a (ae_attrs en) p1 new_die = Inr (Some (p2, x))" "same_sections d0 d" "idx_ok d i"
  obtains d1 where "die_loop h a table cu p \<lparr>stk = S, cur_ns = ns, cur_struct_idx = i\<rparr> d =
      die_loop h a table cu p2
        (if ae_has_children en
         then \<lparr>stk = (ns, i) # S, cur_ns = child_ns ns en x, cur_struct_idx = child_idx en x i d\<rparr>
         else \<lparr>stk = S, cur_ns = ns, cur_struct_idx = i\<rparr>) d1"
    "same_sections d0 d1" "idx_ok d1 i" "idx_ok d1 (child_idx en x i d)"
    "structs d1 = append_items i (node_bases en x) (node_members en x) (structs d) @ node_struct ns en x [] []"
proof -
  obtain d1 where d1: "handle_die en x (abs_type_ref cu x) (p - debug_info_data d)
        \<lparr>stk = S, cur_ns = ns, cur_struct_idx = i\<rparr> d =
      Inr (if ae_has_children en
           then \<lparr>stk = (ns, i) # S, cur_ns = child_ns ns en x, cur_struct_idx = child_idx en x i d\<rparr>
           else \<lparr>stk = S, cur_ns = ns, cur_struct_idx = i\<rparr>, d1)"
      "same_sections d d1"
      "structs d1 = append_items i (node_bases en x) (node_members en x) (structs d) @ node_struct ns en x [] []"
    using handle_die_effect [OF assms(7), of en x "abs_type_ref cu x" "p - debug_info_data d" S ns] by blast
  show thesis
  proof (rule that [of d1])
    show "die_loop h a table cu p \<lparr>stk = S, cur_ns = ns, cur_struct_idx = i\<rparr> d =
      die_loop h a table cu p2
        (if ae_has_children en
         then \<lparr>stk = (ns, i) # S, cur_ns = child_ns ns en x, cur_struct_idx = child_idx en x i d\<rparr>
         else \<lparr>stk = S, cur_ns = ns, cur_struct_idx = i\<rparr>) d1"
      using assms(1-5) d1(1)
      by (intro die_loop_again) (simp_all add: die_step_def die_attrs_sections [OF assms(6)])
    show "same_sections d0 d1" using same_sections_trans [OF assms(6) d1(2)] .
    show "idx_ok d1 i" "idx_ok d1 (child_idx en x i d)"
      using child_idx_ok [OF assms(7), of d1 ns en x] d1(3) by auto
  qed (rule d1(3))
qed

lemma die_loop_forest:
  assumes "forest_at h d0 a table p ts q" "same_sections d0 d" "idx_ok d i"
  shows "\<exists>d'. die_loop h a table cu p \<lparr>stk = S, cur_ns = ns, cur_struct_idx = i\<rparr> d =
      die_loop h a table cu q \<lparr>stk = S, cur_ns = ns, cur_struct_idx = i\<rparr> d' \<and>
    same_sections d0 d' \<and>
    structs d' = append_items i (own_bases ts) (own_members ts) (structs d) @ forest_structs ns ts"
  using assms
proof (induction arbitrary: d i S ns rule: forest_at.induct)
  case (none p)
  then show ?case by auto
next
  case (leaf p code p1 en p2 x ts q)
  obtain d1 where d1: "die_loop h a table cu p \<lparr>stk = S, cur_ns = ns, cur_struct_idx = i\<rparr> d =
      die_loop h a table cu p2 \<lparr>stk = S, cur_ns = ns, cur_struct_idx = i\<rparr> d1"
      "same_sections d0 d1" "idx_ok d1 i"
      "structs d1 = append_items i (node_bases en x) (node_members en x) (structs d) @ node_struct ns en x [] []"
    by (rule die_loop_entry [where table = table and cu = cu and S = S and ns = ns, OF leaf.hyps(1-5) leaf.prems])
      (use leaf.hyps(6) in simp)
  show ?case
    using leaf.IH [OF d1(2,3), of S ns] leaf.prems(2)
    by (auto simp: d1(1,4) idx_ok_def append_items_twice)
next
  case (node p code p1 en p2 x kids p3 p4 ts q)
  let ?w = "\<lparr>stk = S, cur_ns = ns, cur_struct_idx = i\<rparr>"
  let ?w1 = "\<lparr>stk = (ns, i) # S, cur_ns = child_ns ns en x, cur_struct_idx = child_idx en x i d\<rparr>"
  obtain d1 where d1: "die_loop h a table cu p ?w d = die_loop h a table cu p2 ?w1 d1"
      "same_sections d0 d1" "idx_ok d1 i" "idx_ok d1 (child_idx en x i d)"
      "structs d1 = append_items i (node_bases en x) (node_members en x) (structs d) @ node_struct ns en x [] []"
    by (rule die_loop_entry [where table = table and cu = cu and S = S and ns = ns, OF node.hyps(1-5) node.prems])
      (use node.hyps(6) in simp)
  obtain d2 where d2: "die_loop h a table cu p2 ?w1 d1 = die_loop h a table cu p3 ?w1 d2" "same_sections d0 d2"
      "structs d2 = append_items (child_idx en x i d) (own_bases kids) (own_members kids) (structs d1) @
         forest_structs (child_ns ns en x) kids"
    using node.IH(1) [OF d1(2,4), of "(ns, i) # S" "child_ns ns en x"] by blast
  have pop: "die_loop h a table cu p3 ?w1 d2 = die_loop h a table cu p4 ?w d2"
    using node.hyps by (intro die_loop_again) (simp_all add: die_step_def)
  have i2: "idx_ok d2 i" using d1(3) d2(3) by (auto intro: idx_ok_mono [of d1])
  show ?case
    using node.IH(2) [OF d2(2) i2, of S ns] node.prems(2)
    by (auto simp: pop d2(1,3) d1(1,5) children_structs append_items_twice idx_ok_def)
qed

text \<open>C25: the walk over the debugging entries refines a recursion over their tree. When the bytes of a
  unit encode a forest of entries and the forest ends at the end of the unit or at a null entry,
  \<open>ParseDIETree\<close> returns, and it has appended exactly the structures of the forest in preorder:
  each with its size, the bases and members among its own children with their offsets, and the
  name qualified with the namespaces around it; nesting, unnamed structures, functions and other
  entries with children do not mix up the scopes.\<close>

theorem ParseDIETree_lists_structs:
  assumes "forest_at h d a table p ts q" and "q \<ge> aa_end a \<or> q < aa_end a \<and> ReadULEB128 h (aa_end a) q = Inr (0, q')"
  shows "\<exists>r d'. ParseDIETree h a table ns cu p d = Some (Inr (r, d')) \<and>
    structs d' = structs d @ forest_structs ns ts"
proof -
  let ?w = "\<lparr>stk = [], cur_ns = ns, cur_struct_idx = kNoStruct\<rparr>"
  obtain d' where d': "die_loop h a table cu p ?w d = die_loop h a table cu q ?w d'"
      "structs d' = structs d @ forest_structs ns ts"
    using die_loop_forest [OF assms(1), of d kNoStruct cu "[]" ns] by auto
  have "\<exists>r. die_loop h a table cu q ?w d' = Some (Inr (r, d'))"
    using assms(2) by (subst die_loop.simps) (auto simp: die_step_def)
  with d' show ?thesis by (auto simp: ParseDIETree_def)
qed

section \<open>A unit with a namespace, a class and a member\<close>

definition demo_abbrevs :: abbrev_table where
  "demo_abbrevs = [1 \<mapsto> \<lparr>ae_code = 1, ae_tag = 0x39, ae_has_children = True,
       ae_attrs = [\<lparr>as_name = 0x03, as_form = 0x08, as_implicit_const = 0\<rparr>]\<rparr>,
     2 \<mapsto> \<lparr>ae_code = 2, ae_tag = 0x02, ae_has_children = True,
       ae_attrs = [\<lparr>as_name = 0x03, as_form = 0x08, as_implicit_const = 0\<rparr>,
                   \<lparr>as_name = 0x0b, as_form = 0x0b, as_implicit_const = 0\<rparr>]\<rparr>,
     3 \<mapsto> \<lparr>ae_code = 3, ae_tag = 0x0d, ae_has_children = False,
       ae_attrs = [\<lparr>as_name = 0x03, as_form = 0x08, as_implicit_const = 0\<rparr>,
                   \<lparr>as_name = 0x38, as_form = 0x0b, as_implicit_const = 0\<rparr>]\<rparr>]"

definition demo_dies :: host where
  "demo_dies = host_map Map.empty 0x1000
     [1, 0x61, 0x72, 0x74, 0, 2, 0x4f, 0x62, 0, 8, 3, 0x6b, 0, 4, 0, 0]"

definition demo_args :: attr_args where
  "demo_args = \<lparr>aa_end = 0x1010, aa_addr_size = 8, aa_dwarf64 = False, aa_str_offsets_base = 0\<rparr>"

definition demo_forest :: "dtree list" where
  "demo_forest = [DNode 0x1000 (the (demo_abbrevs 1)) (new_die\<lparr>die_name := ''art''\<rparr>)
     [DNode 0x1005 (the (demo_abbrevs 2)) (new_die\<lparr>die_name := ''Ob'', byte_sz := 8, has_byte_sz := True\<rparr>)
       [DNode 0x100a (the (demo_abbrevs 3))
          (new_die\<lparr>die_name := ''k'', member_loc := 4, has_member_loc := True\<rparr>) []]]]"

lemma demo_codes:
  "ReadULEB128 demo_dies 0x1010 0x1000 = Inr (1, 0x1001)" "ReadULEB128 demo_dies 0x1010 0x1005 = Inr (2, 0x1006)"
  "ReadULEB128 demo_dies 0x1010 0x100a = Inr (3, 0x100b)" "ReadULEB128 demo_dies 0x1010 0x100e = Inr (0, 0x100f)"
  "ReadULEB128 demo_dies 0x1010 0x100f = Inr (0, 0x1010)"
  by code_simp+

lemma demo_values:
  "die_attrs demo_dies new_DwarfLoader demo_args (ae_attrs (the (demo_abbrevs 1))) 0x1001 new_die =
     Inr (Some (0x1005, new_die\<lparr>die_name := ''art''\<rparr>))"
  "die_attrs demo_dies new_DwarfLoader demo_args (ae_attrs (the (demo_abbrevs 2))) 0x1006 new_die =
     Inr (Some (0x100a, new_die\<lparr>die_name := ''Ob'', byte_sz := 8, has_byte_sz := True\<rparr>))"
  "die_attrs demo_dies new_DwarfLoader demo_args (ae_attrs (the (demo_abbrevs 3))) 0x100b new_die =
     Inr (Some (0x100e, new_die\<lparr>die_name := ''k'', member_loc := 4, has_member_loc := True\<rparr>))"
  by code_simp+

lemma demo_forest_at: "forest_at demo_dies new_DwarfLoader demo_args demo_abbrevs 0x1000 demo_forest 0x1010"
proof -
  let ?at = "forest_at demo_dies new_DwarfLoader demo_args demo_abbrevs"
  have tab: "demo_abbrevs (ucast (1 :: u64)) = Some (the (demo_abbrevs 1))"
    "demo_abbrevs (ucast (2 :: u64)) = Some (the (demo_abbrevs 2))"
    "demo_abbrevs (ucast (3 :: u64)) = Some (the (demo_abbrevs 3))"
    and kids: "ae_has_children (the (demo_abbrevs 1))" "ae_has_children (the (demo_abbrevs 2))"
    "\<not> ae_has_children (the (demo_abbrevs 3))"
    by (simp_all add: demo_abbrevs_def)
  have e: "aa_end demo_args = 0x1010" by (simp add: demo_args_def)
  have "?at 0x100a [DNode 0x100a (the (demo_abbrevs 3))
      (new_die\<lparr>die_name := ''k'', member_loc := 4, has_member_loc := True\<rparr>) []] 0x100e"
    by (rule forest_at.leaf [where table = demo_abbrevs and code = 3, OF _ _ _ tab(3) demo_values(3) kids(3) forest_at.none])
      (simp_all add: e demo_codes)
  from forest_at.node [where table = demo_abbrevs and code = 2, OF _ _ _ tab(2) demo_values(2) kids(2) this _ _ forest_at.none]
  have "?at 0x1005 [DNode 0x1005 (the (demo_abbrevs 2)) (new_die\<lparr>die_name := ''Ob'', byte_sz := 8, has_byte_sz := True\<rparr>)
      [DNode 0x100a (the (demo_abbrevs 3))
        (new_die\<lparr>die_name := ''k'', member_loc := 4, has_member_loc := True\<rparr>) []]] 0x100f"
    by (simp add: e demo_codes)
  from forest_at.node [where table = demo_abbrevs and code = 1, OF _ _ _ tab(1) demo_values(1) kids(1) this _ _ forest_at.none]
  show ?thesis by (simp add: e demo_codes demo_forest_def)
qed

theorem ParseDIETree_lists_structs_witness:
  "\<exists>r d'. ParseDIETree demo_dies demo_args demo_abbrevs [] 0 0x1000 new_DwarfLoader = Some (Inr (r, d')) \<and>
     structs d' = [\<lparr>si_name = ''art::Ob'', si_byte_size = 8, si_has_size = True, si_bases = [],
       si_members = [\<lparr>mi_name = ''k'', mi_type_name = [], mi_offset = 4, mi_has_offset = True\<rparr>]\<rparr>]"
proof -
  have "forest_structs [] demo_forest = [\<lparr>si_name = ''art::Ob'', si_byte_size = 8, si_has_size = True, si_bases = [],
       si_members = [\<lparr>mi_name = ''k'', mi_type_name = [], mi_offset = 4, mi_has_offset = True\<rparr>]\<rparr>]"
    by (simp add: demo_forest_def demo_abbrevs_def new_die_def node_struct_def node_bases_def node_members_def
        child_ns_def is_struct_def full_name_def dw_tags)
  then show ?thesis
    using ParseDIETree_lists_structs [OF demo_forest_at, of 0 "[]" 0]
    by (simp add: demo_args_def new_DwarfLoader_def)
qed

end
