(* ===== verification/DwarfLoops.thy ===== *)
theory DwarfLoops
  imports DwarfTree
begin

unbundle bit_operations_syntax

text \<open>
  When the loops of the DWARF reader end. An attribute whose length is at most 32 bits wide moves
  the read pointer forwards and not past the end of the unit, so every round consumes a byte and
  the loops end on any bytes. The forms \<open>DW_FORM_block\<close> and \<open>DW_FORM_exprloc\<close> (and
  \<open>DW_FORM_indirect\<close>, which can name them) take a 64-bit length, and the check
  \<open>ptr + len > end\<close> lets a length near \<open>2 ^ 64\<close> through.
\<close>

section \<open>Attributes move the pointer forwards\<close>

definition narrow_form :: "u32 \<Rightarrow> bool" where
  "narrow_form form \<longleftrightarrow> form \<noteq> DW_FORM_block \<and> form \<noteq> DW_FORM_exprloc \<and> form \<noteq> DW_FORM_indirect"

definition narrow_table :: "abbrev_table \<Rightarrow> bool" where
  "narrow_table table \<longleftrightarrow> (\<forall>en\<in>ran table. list_all (narrow_form \<circ> as_form) (ae_attrs en))"

text \<open>The end of the section leaves room for one 32-bit length before the top of the address space.\<close>

definition roomy :: "u64 \<Rightarrow> bool" where
  "roomy e \<longleftrightarrow> unat e + 2 ^ 33 \<le> 2 ^ 64"

lemma roomy_le: "roomy e \<Longrightarrow> e' \<le> e \<Longrightarrow> roomy e'"
  by (simp add: roomy_def word_le_nat_alt)

lemma advance:
  assumes "roomy e" "p \<le> e" "unat n < 2 ^ 33" "\<not> p + n > e"
  shows "p \<le> p + n" "p + n \<le> e"
proof -
  have "unat p + unat n < 2 ^ 64" using assms(1-3) by (simp add: roomy_def word_le_nat_alt)
  then show "p \<le> p + n" by (simp add: word_le_nat_alt unat_add_no_wrap)
qed (use assms(4) in simp)

lemma host_word_bound:
  assumes "host_word h p n = Inr v" "n \<le> 4"
  shows "unat v < 2 ^ 32"
proof -
  obtain bs where bs: "host_read h p n = Inr bs" "v = le_word bs"
    using assms(1) by (auto simp: host_word_def res_bind_Inr_iff)
  have "le_val bs < 256 ^ n" using le_val_bound [of bs] host_read_length [OF bs(1)] by simp
  also have "(256 :: nat) ^ n \<le> 256 ^ 4" using assms(2) by (intro power_increasing) auto
  finally show ?thesis by (simp add: bs(2) le_word_def unat_of_nat take_bit_nat_eq_self)
qed

lemma str_end_moves: "str_end h e p = Inr q \<Longrightarrow> p \<le> e \<Longrightarrow> p \<le> q \<and> q \<le> e"
proof (induction h e p rule: str_end.induct)
  case (1 h e p)
  show ?case
  proof (cases "p < e")
    case True
    then have "unat (p + 1) = Suc (unat p)" by (rule unat_ptr_Suc)
    then have step: "p \<le> p + 1" "p + 1 \<le> e" using True by (simp_all add: word_le_nat_alt word_less_nat_alt)
    obtain b where b: "h p = Some b" using 1(2) True by (subst (asm) str_end.simps) (auto split: option.splits)
    show ?thesis
    proof (cases "b = 0")
      case z: True
      then show ?thesis using 1(2,3) True b by (subst (asm) str_end.simps) simp
    next
      case False
      then have "str_end h e (p + 1) = Inr q" using 1(2) True b by (subst (asm) str_end.simps) simp
      from 1(1) [OF True b False this step(2)] step show ?thesis by auto
    qed
  next
    case False
    then show ?thesis using 1(2,3) by (subst (asm) str_end.simps) simp
  qed
qed

text \<open>What the cases of \<open>ReadAttrValue\<close> share: the result is the parse error or further on.\<close>

definition moves :: "u64 \<Rightarrow> u64 \<Rightarrow> attr_out res \<Rightarrow> bool" where
  "moves ptr e r \<longleftrightarrow> (\<forall>q ov os. r = Inr (q, ov, os) \<longrightarrow> q = 0 \<or> ptr \<le> q \<and> q \<le> e)"

lemma movesI: "(\<And>q ov os. r = Inr (q, ov, os) \<Longrightarrow> q = 0 \<or> ptr \<le> q \<and> q \<le> e) \<Longrightarrow> moves ptr e r"
  by (simp add: moves_def)

lemma moves_attr_data: "roomy e \<Longrightarrow> ptr \<le> e \<Longrightarrow> n \<le> 8 \<Longrightarrow> moves ptr e (attr_data h n ptr e ov os)"
  using advance [of e ptr "of_nat n"]
  by (auto simp: moves_def attr_data_def unat_of_nat take_bit_nat_eq_self res_bind_Inr_iff split: if_splits)

lemma moves_attr_skip: "roomy e \<Longrightarrow> ptr \<le> e \<Longrightarrow> unat n < 2 ^ 33 \<Longrightarrow> moves ptr e (attr_skip n ptr e ov os)"
  using advance [of e ptr n] by (auto simp: moves_def attr_skip_def split: if_splits)

lemma moves_attr_addr: "roomy e \<Longrightarrow> ptr \<le> e \<Longrightarrow> moves ptr e (attr_addr h n ptr e ov os)"
proof -
  assume "roomy e" "ptr \<le> e"
  moreover have "unat (ucast n :: u64) < 2 ^ 33"
  proof -
    have "unat n < 2 ^ 32" using unsigned_less [of n] by simp
    then show ?thesis by (simp add: unsigned_ucast_eq take_bit_nat_eq_self)
  qed
  ultimately show ?thesis
    using advance [of e ptr "ucast n"]
    by (auto simp: moves_def attr_addr_def Let_def res_bind_Inr_iff split: if_splits)
qed

text \<open>
  The contract of a reader of a number inside a range: it stays in the range and consumes a byte
  when there is one. A form that only reads such a number moves the pointer the way the reader does.
\<close>

locale range_reader =
  fixes rd :: "host \<Rightarrow> u64 \<Rightarrow> u64 \<Rightarrow> (u64 \<times> u64) res"
  assumes forwards: "rd h e p = Inr (v, q) \<Longrightarrow> p \<le> e \<Longrightarrow> p \<le> q \<and> q \<le> e"
    and progress: "rd h e p = Inr (v, q) \<Longrightarrow> p < e \<Longrightarrow> p < q"
begin

lemma moves_then:
  assumes "ptr \<le> e" "\<And>v q q' ov os. k (v, q) = Inr (q', ov, os) \<Longrightarrow> q' = q"
  shows "moves ptr e (res_bind (rd h e ptr) k)"
proof (rule movesI)
  fix q ov os assume "res_bind (rd h e ptr) k = Inr (q, ov, os)"
  then obtain v p where "rd h e ptr = Inr (v, p)" "k (v, p) = Inr (q, ov, os)"
    by (auto simp: res_bind_Inr_iff)
  with assms(2) forwards [OF _ assms(1), of h v p] show "q = 0 \<or> ptr \<le> q \<and> q \<le> e" by fastforce
qed

end

interpretation uleb: range_reader ReadULEB128
  by unfold_locales (auto dest: ReadULEB128_moves)

interpretation sleb: range_reader ReadSLEB128
  by unfold_locales (auto dest: ReadSLEB128_moves)

lemma moves_attr_leb:
  assumes "ptr \<le> e"
  shows "moves ptr e (attr_udata h ptr e ov os)" "moves ptr e (attr_uskip h ptr e ov os)"
    "moves ptr e (attr_sdata h ptr e ov os)" "moves ptr e (attr_strx h d w b ptr e ov os)"
  unfolding attr_udata_def attr_uskip_def attr_sdata_def attr_strx_def
  by (auto intro!: uleb.moves_then sleb.moves_then assms simp: res_bind_Inr_iff)

lemma moves_attr_strxN: "roomy e \<Longrightarrow> ptr \<le> e \<Longrightarrow> n \<le> 8 \<Longrightarrow> moves ptr e (attr_strxN h d w b n ptr e ov os)"
  using advance [of e ptr "of_nat n"]
  by (auto simp: moves_def attr_strxN_def unat_of_nat take_bit_nat_eq_self res_bind_Inr_iff split: if_splits)

lemma moves_attr_strp: "roomy e \<Longrightarrow> ptr \<le> e \<Longrightarrow> moves ptr e (attr_strp h d w f ptr e ov os)"
  using advance [of e ptr 8] advance [of e ptr 4]
  by (auto simp: moves_def attr_strp_def Let_def res_bind_Inr_iff split: if_splits)

lemma moves_attr_string: "ptr \<le> e \<Longrightarrow> moves ptr e (attr_string h ptr e ov os)"
proof (rule movesI)
  fix q ov' os' assume le: "ptr \<le> e" and r: "attr_string h ptr e ov os = Inr (q, ov', os')"
  then obtain p where p: "str_end h e ptr = Inr p" "q = (if p \<ge> e then 0 else p + 1)"
    by (auto simp: attr_string_def res_bind_Inr_iff split: if_splits)
  have m: "ptr \<le> p" "p \<le> e" using str_end_moves [OF p(1) le] by auto
  show "q = 0 \<or> ptr \<le> q \<and> q \<le> e"
  proof (cases "p \<ge> e")
    case False
    then have "unat (p + 1) = Suc (unat p)" using unat_ptr_Suc [of p e] by simp
    with False m p(2) show ?thesis by (simp add: word_le_nat_alt word_less_nat_alt)
  qed (use p(2) in simp)
qed

lemma moves_attr_blockN:
  assumes "roomy e" "ptr \<le> e" "n \<le> 4"
  shows "moves ptr e (attr_blockN h n ptr e ov os)"
proof (rule movesI)
  fix q ov' os' assume r: "attr_blockN h n ptr e ov os = Inr (q, ov', os')"
  show "q = 0 \<or> ptr \<le> q \<and> q \<le> e"
  proof (cases "ptr + of_nat n > e")
    case False
    then obtain len where len: "host_word h ptr n = Inr len" "attr_block h len (ptr + of_nat n) e ov os = Inr (q, ov', os')"
      using r by (auto simp: attr_blockN_def res_bind_Inr_iff)
    have p: "ptr \<le> ptr + of_nat n" "ptr + of_nat n \<le> e"
      using advance [OF assms(1,2) _ False] assms(3) by (simp_all add: unat_of_nat take_bit_nat_eq_self)
    have "unat len < 2 ^ 33" using host_word_bound [OF len(1) assms(3)] by simp
    then show ?thesis
      using advance [OF assms(1) p(2), of len] p len(2)
      by (auto simp: attr_block_def res_bind_Inr_iff split: if_splits)
  qed (use r in \<open>simp add: attr_blockN_def\<close>)
qed

lemmas moves_attrs =
  moves_attr_data moves_attr_skip moves_attr_addr moves_attr_leb moves_attr_strxN moves_attr_strp
  moves_attr_string moves_attr_blockN

lemma moves_read_form:
  assumes "narrow_form form" "roomy (aa_end a)" "ptr \<le> aa_end a"
  shows "moves ptr (aa_end a) (read_form h d a form ptr ov os)"
  using assms by (simp add: read_form_def moves_attrs narrow_form_def Let_def) (simp add: moves_def)

lemma die_attrs_moves:
  assumes "die_attrs h d a attrs ptr x = Inr (Some (q, y))" "list_all (narrow_form \<circ> as_form) attrs"
    "roomy (aa_end a)" "ptr \<le> aa_end a"
  shows "ptr \<le> q \<and> q \<le> aa_end a"
  using assms
proof (induction attrs arbitrary: ptr x)
  case (Cons attr attrs)
  show ?case
  proof (cases "as_form attr = DW_FORM_implicit_const")
    case True
    then show ?thesis using Cons by simp
  next
    case False
    then obtain p v s where r: "ReadAttrValue h d a (as_form attr) ptr (Some 0) (Some []) = Inr (p, v, s)" "p \<noteq> 0"
        "die_attrs h d a attrs p (set_attr attr (out_or 0 v) (out_or [] s) x) = Inr (Some (q, y))"
      using Cons.prems(1) by (auto simp: res_bind_Inr_iff split: if_splits)
    have nf: "narrow_form (as_form attr)" using Cons.prems(2) by simp
    then have "as_form attr \<noteq> DW_FORM_indirect" by (simp add: narrow_form_def)
    then have "read_form h d a (as_form attr) ptr (Some 0) (Some []) = Inr (p, v, s)"
      using r(1,2) by (subst (asm) ReadAttrValue.simps) (auto split: if_splits)
    then have "ptr \<le> p" "p \<le> aa_end a"
      using moves_read_form [OF nf Cons.prems(3,4), of h d "Some 0" "Some []"] r(2) by (auto simp: moves_def)
    with Cons.IH [OF r(3)] Cons.prems(2,3) show ?thesis by auto
  qed
qed simp

section \<open>The loops return\<close>

lemma handle_die_abbrevs:
  assumes "handle_die en x ref off w d = Inr (w', d')"
  shows "abbrev_map d' = abbrev_map d"
  using assms
  by (auto simp: handle_die_def add_member_def add_base_def add_struct_def upd_struct_def register_type_def
      add_pending_def Let_def res_bind_Inr_iff split: if_splits)

lemma die_step_moves:
  assumes "narrow_table table" "roomy (aa_end a)" "p < aa_end a" "die_step h a table cu p w d = Again q w' d'"
  shows "p < q" "q \<le> aa_end a" "abbrev_map d' = abbrev_map d"
proof -
  obtain code p1 where c: "ReadULEB128 h (aa_end a) p = Inr (code, p1)"
    using assms(4) by (auto simp: die_step_def split: sum.splits)
  have p1: "p < p1" "p1 \<le> aa_end a" using ReadULEB128_moves [OF c] assms(3) by auto
  have "p1 \<le> q \<and> q \<le> aa_end a \<and> abbrev_map d' = abbrev_map d"
  proof (cases "code = 0")
    case True
    then show ?thesis using assms(4) c p1 by (auto simp: die_step_def split: list.splits)
  next
    case False
    then obtain en x where en: "table (ucast code) = Some en"
        "die_attrs h d a (ae_attrs en) p1 new_die = Inr (Some (q, x))"
      and hd: "handle_die en x (abs_type_ref cu x) (p - debug_info_data d) w d = Inr (w', d')"
      using assms(4) c by (auto simp: die_step_def split: option.splits sum.splits)
    have "list_all (narrow_form \<circ> as_form) (ae_attrs en)"
      using assms(1) en(1) by (auto simp: narrow_table_def intro: ranI)
    from die_attrs_moves [OF en(2) this assms(2) p1(2)] handle_die_abbrevs [OF hd] show ?thesis by simp
  qed
  with p1 show "p < q" "q \<le> aa_end a" "abbrev_map d' = abbrev_map d" by auto
qed

lemma die_step_exit_abbrevs:
  "die_step h a table cu p w d = Exit (Inr (q, d')) \<Longrightarrow> abbrev_map d' = abbrev_map d"
  by (auto simp: die_step_def split: sum.splits option.splits list.splits if_splits)

lemma die_loop_returns:
  assumes "narrow_table table" "roomy (aa_end a)"
  shows "\<exists>r. die_loop h a table cu p w d = Some r \<and> (\<forall>q d'. r = Inr (q, d') \<longrightarrow> abbrev_map d' = abbrev_map d)"
proof (induction "unat (aa_end a) - unat p" arbitrary: p w d rule: less_induct)
  case less
  show ?case
  proof (cases "p < aa_end a")
    case True
    show ?thesis
    proof (cases "die_step h a table cu p w d")
      case (Exit r)
      then show ?thesis using True die_step_exit_abbrevs by (subst die_loop.simps) auto
    next
      case (Again q w' d')
      note m = die_step_moves [OF assms True Again]
      have "unat (aa_end a) - unat q < unat (aa_end a) - unat p"
        using True m by (simp add: word_less_nat_alt word_le_nat_alt)
      from less [OF this, of w' d'] m(3) show ?thesis
        by (simp add: die_loop_again [OF True Again])
    qed
  next
    case False
    then show ?thesis by (subst die_loop.simps) simp
  qed
qed

definition narrow_tables :: "dwarf_loader \<Rightarrow> bool" where
  "narrow_tables d \<longleftrightarrow> (\<forall>table\<in>ran (abbrev_map d). narrow_table table)"

lemma cu_header_end:
  "cu_header h p e = Inr (Inr (q, cu_end, sz, w, off)) \<Longrightarrow> cu_end \<le> e"
  by (auto simp: cu_header_def cu_version_def Let_def res_bind_Inr_iff split: if_splits)

lemma ParseCompileUnit_returns:
  assumes "narrow_tables d" "roomy e"
  shows "\<exists>r. ParseCompileUnit h p e d = Some r \<and> (\<forall>q d'. r = Inr (q, d') \<longrightarrow> abbrev_map d' = abbrev_map d)"
proof -
  consider (x) x where "cu_header h p e = Inl x" | (stop) q where "cu_header h p e = Inr (Inl q)"
    | (cu) q cu_end sz w off where "cu_header h p e = Inr (Inr (q, cu_end, sz, w, off))"
    by (metis prod_cases5 sum.exhaust)
  then show ?thesis
  proof cases
    case cu
    show ?thesis
    proof (cases "abbrev_map d off")
      case None
      then show ?thesis by (simp add: ParseCompileUnit_def cu)
    next
      case (Some table)
      define a where "a = \<lparr>aa_end = cu_end, aa_addr_size = sz, aa_dwarf64 = w, aa_str_offsets_base = 0\<rparr>"
      have nt: "narrow_table table" using assms(1) Some by (auto simp: narrow_tables_def intro: ranI)
      have rm: "roomy cu_end" using assms(2) cu_header_end [OF cu] by (rule roomy_le)
      show ?thesis
      proof (cases "str_base h d a table q")
        case (Inl x)
        then show ?thesis by (simp add: ParseCompileUnit_def cu Some a_def)
      next
        case (Inr base)
        have "\<exists>r. ParseDIETree h (a\<lparr>aa_str_offsets_base := base\<rparr>) table [] (p - debug_info_data d) q d = Some r \<and>
            (\<forall>q d'. r = Inr (q, d') \<longrightarrow> abbrev_map d' = abbrev_map d)"
          unfolding ParseDIETree_def by (intro die_loop_returns nt) (simp add: a_def rm)
        with Inr show ?thesis
          by (auto simp: ParseCompileUnit_def cu Some a_def res_bind_Inr_iff)
      qed
    qed
  qed (simp_all add: ParseCompileUnit_def)
qed

lemma info_loop_returns:
  assumes "roomy e" "narrow_tables d"
  shows "\<exists>r. info_loop h e p d = Some r"
  using assms(2)
proof (induction "unat e - unat p" arbitrary: p d rule: less_induct)
  case less
  show ?case
  proof (cases "p < e")
    case True
    obtain r where r: "ParseCompileUnit h p e d = Some r" "\<And>q d'. r = Inr (q, d') \<Longrightarrow> abbrev_map d' = abbrev_map d"
      using ParseCompileUnit_returns [OF less.prems assms(1)] by blast
    show ?thesis
    proof (cases "\<exists>q d'. r = Inr (q, d') \<and> \<not> (q = 0 \<or> q \<le> p)")
      case again: True
      then obtain q d' where q: "r = Inr (q, d')" "\<not> (q = 0 \<or> q \<le> p)" by blast
      have "unat e - unat q < unat e - unat p"
        using True q(2) by (auto simp: word_less_nat_alt word_le_nat_alt)
      moreover have "narrow_tables d'" using r(2) [OF q(1)] less.prems by (simp add: narrow_tables_def)
      ultimately have "\<exists>r. info_loop h e q d' = Some r" by (rule less.hyps)
      with True r(1) q show ?thesis by (subst info_loop.simps) simp
    next
      case False
      then show ?thesis using True r(1) by (subst info_loop.simps) (auto split: sum.splits)
    qed
  next
    case False
    then show ?thesis by (subst info_loop.simps) simp
  qed
qed

text \<open>C27: reading the info section returns on arbitrary bytes, damaged ones included, when no
  abbreviation uses a form with a 64-bit block length (or the indirect form that can name one) and
  the section does not end in the last eight gigabytes of the address space. Every round of the
  loop over the entries, whatever the values, consumes at least one byte of the unit and never
  leaves it, and every unit moves on.\<close>

theorem ParseInfoSection_returns:
  assumes "narrow_tables d" "roomy (debug_info_data d + debug_info_size d)"
  shows "\<exists>r. ParseInfoSection h d = Some r"
  using info_loop_returns [OF assms(2,1)] by (auto simp: ParseInfoSection_def)

theorem ParseInfoSection_returns_witness: "\<exists>r. ParseInfoSection demo_unit demo_unit_loader = Some r"
proof (rule ParseInfoSection_returns)
  have "narrow_table demo_unit_abbrevs"
    by (auto simp: narrow_table_def demo_unit_abbrevs_def narrow_form_def dw_forms ran_def split: if_splits)
  then show "narrow_tables demo_unit_loader"
    by (auto simp: narrow_tables_def demo_unit_loader_def ran_def split: if_splits)
  show "roomy (debug_info_data demo_unit_loader + debug_info_size demo_unit_loader)"
    by (simp add: demo_unit_loader_def roomy_def)
qed

section \<open>A block length that leads back\<close>

lemma handle_die_leaf:
  assumes "\<not> ae_has_children en" "ae_tag en \<noteq> DW_TAG_member" "ae_tag en \<noteq> DW_TAG_inheritance"
  shows "\<exists>d'. handle_die en x ref off w d = Inr (w, d')"
  using assms by (auto simp: handle_die_def add_struct_def enter_def Let_def)

lemma ParseExprloc_wrapped:
  assumes "p < p2" "p2 < e" "p2 + len = p" "h p2 \<noteq> None"
  shows "ParseExprloc h p2 len = Inr None"
proof -
  have "p2 + 1 \<ge> p"
    using assms(1) unat_ptr_Suc [OF assms(2)] by (simp add: word_le_nat_alt word_less_nat_alt)
  with assms(3,4) show ?thesis by (auto simp: ParseExprloc_def Let_def)
qed

text \<open>The attribute that leads back to the entry at \<open>p\<close>.\<close>

definition leads_back :: "host \<Rightarrow> u64 \<Rightarrow> u64 \<Rightarrow> u64 \<Rightarrow> bool" where
  "leads_back h e p p1 \<longleftrightarrow> p1 \<noteq> 0 \<and> p1 < e \<and>
     (case ReadULEB128 h e p1 of Inl x \<Rightarrow> False
      | Inr (len, p2) \<Rightarrow> p2 < e \<and> h p2 \<noteq> None \<and> p2 + len = p)"

lemma ReadAttrValue_back:
  assumes "leads_back h (aa_end a) p p1" "form = DW_FORM_block \<or> form = DW_FORM_exprloc" "p < p1"
  shows "ReadAttrValue h d a form p1 (Some 0) (Some []) = Inr (p, Some 0, Some [])"
proof -
  obtain len p2 where r: "ReadULEB128 h (aa_end a) p1 = Inr (len, p2)" "p2 < aa_end a" "h p2 \<noteq> None"
      "p2 + len = p" "p1 \<noteq> 0" "p1 < aa_end a"
    using assms(1) by (auto simp: leads_back_def split: sum.splits)
  have "p1 \<le> p2" using ReadULEB128_moves(1) [OF r(1)] r(6) by simp
  then have lt: "p < p2" "\<not> p > aa_end a" using assms(3) r(2) by auto
  have "attr_exprloc h p1 (aa_end a) (Some 0) (Some []) = Inr (p, Some 0, Some [])"
    using r lt ParseExprloc_wrapped [where h = h, OF lt(1) r(2,4,3)] by (auto simp: attr_exprloc_def attr_block_def)
  then show ?thesis
    using assms(2) r(5,6) by (subst ReadAttrValue.simps) (auto simp: read_form_def dw_forms)
qed

text \<open>C38: a block length near \<open>2 ^ 64\<close> hangs the reader. When the only attribute of an entry without
  children is a block or location expression whose length, added to the pointer past it, gives the
  address of the entry itself, the check against the end of the unit passes and the loop reads the
  same entry again: it never returns, whatever the scope and the structures found so far.\<close>

theorem die_loop_wrapped_length_diverges:
  assumes "p < aa_end a" "p \<noteq> 0" "ReadULEB128 h (aa_end a) p = Inr (code, p1)" "code \<noteq> 0"
    and "table (ucast code) = Some en" "\<not> ae_has_children en" "ae_tag en \<noteq> DW_TAG_member"
    and "ae_tag en \<noteq> DW_TAG_inheritance" "ae_attrs en = [attr]"
    and "as_form attr = DW_FORM_block \<or> as_form attr = DW_FORM_exprloc"
    and "leads_back h (aa_end a) p p1"
  shows "die_loop h a table cu p w d = None"
proof -
  have step: "\<exists>d'. die_step h a table cu p w d = Again p w d'" for w d
  proof -
    have "p < p1" using ReadULEB128_moves(3) [OF assms(3)] assms(1) by simp
    from ReadAttrValue_back [OF assms(11,10) this, of d]
    have "die_attrs h d a (ae_attrs en) p1 new_die = Inr (Some (p, set_attr attr 0 [] new_die))"
      using assms(2,9,10) by (auto simp: dw_forms out_or_def)
    moreover obtain d' where "handle_die en (set_attr attr 0 [] new_die)
        (abs_type_ref cu (set_attr attr 0 [] new_die)) (p - debug_info_data d) w d = Inr (w, d')"
      using handle_die_leaf [OF assms(6-8)] by blast
    ultimately show ?thesis using assms(3-5) by (simp add: die_step_def)
  qed
  define P where "P = (\<lambda>h' a' t' cu' p' (w :: scope) (d :: dwarf_loader) (r :: (u64 \<times> dwarf_loader) res).
    \<not> (h' = h \<and> a' = a \<and> t' = table \<and> cu' = cu \<and> p' = p))"
  have never: "P h' a' t' cu' p' w' d' r" if "die_loop h' a' t' cu' p' w' d' = Some r" for h' a' t' cu' p' w' d' r
  proof (rule die_loop.raw_induct [OF _ that])
    fix loop h' a' t' cu' p' w' d' r
    assume IH: "\<And>h a t cu p w d r. loop h a t cu p w d = Some r \<Longrightarrow> P h a t cu p w d r"
      and body: "(if p' < aa_end a' then
        (case die_step h' a' t' cu' p' w' d' of Exit r \<Rightarrow> Some r
         | Again q v x \<Rightarrow> loop h' a' t' cu' q v x)
      else Some (Inr (p', d'))) = Some r"
    obtain d2 where d2: "die_step h a table cu p w' d' = Again p w' d2" using step by blast
    show "P h' a' t' cu' p' w' d' r"
      unfolding P_def
    proof
      assume "h' = h \<and> a' = a \<and> t' = table \<and> cu' = cu \<and> p' = p"
      then have "loop h a table cu p w' d2 = Some r" using body d2 assms(1) by simp
      from IH [OF this] show False by (simp add: P_def)
    qed
  qed
  have "die_loop h a table cu p w d \<noteq> Some r" for r
    using never [of h a table cu p w d r] by (auto simp: P_def)
  then show ?thesis by (cases "die_loop h a table cu p w d") auto
qed

definition demo_hang_abbrevs :: abbrev_table where
  "demo_hang_abbrevs = [1 \<mapsto> \<lparr>ae_code = 1, ae_tag = 0x11, ae_has_children = False,
       ae_attrs = [\<lparr>as_name = 0x40, as_form = 0x18, as_implicit_const = 0\<rparr>]\<rparr>]"

definition demo_hang :: host where
  "demo_hang = host_map Map.empty 0x1000
     [1, 0xf5, 0xff, 0xff, 0xff, 0xff, 0xff, 0xff, 0xff, 0xff, 0x01, 0]"

theorem die_loop_wrapped_length_diverges_witness:
  "die_loop demo_hang (demo_args\<lparr>aa_end := 0x100c\<rparr>) demo_hang_abbrevs 0 0x1000
     \<lparr>stk = [], cur_ns = [], cur_struct_idx = kNoStruct\<rparr> new_DwarfLoader = None"
proof (rule die_loop_wrapped_length_diverges [where ?p1.0 = "0x1001" and code = 1 and en = "the (demo_hang_abbrevs 1)"
    and attr = "hd (ae_attrs (the (demo_hang_abbrevs 1)))"])
  show "leads_back demo_hang (aa_end (demo_args\<lparr>aa_end := 0x100c\<rparr>)) 0x1000 0x1001" by code_simp
  show "ReadULEB128 demo_hang (aa_end (demo_args\<lparr>aa_end := 0x100c\<rparr>)) 0x1000 = Inr (1, 0x1001)" by code_simp
qed (simp_all add: demo_hang_abbrevs_def demo_args_def dw_tags dw_forms)

end
