(* ===== verification/DwarfLeb.thy ===== *)
theory DwarfLeb
  imports Dwarf
begin

unbundle bit_operations_syntax

text \<open>
  The LEB128 readers of the DWARF reader return the numbers that the encoding of the DWARF standard
  (section 7.6) spells, over the whole range of 64-bit unsigned and signed values.
\<close>

section \<open>The encodings\<close>

definition leb_low :: "int \<Rightarrow> u8" where "leb_low v = of_int (take_bit 7 v)"
definition leb_more :: "int \<Rightarrow> u8" where "leb_more v = leb_low v OR push_bit 7 1"

function uleb_bytes :: "int \<Rightarrow> u8 list" where
  "uleb_bytes v = (if v < 128 then [leb_low v] else leb_more v # uleb_bytes (v div 128))"
  by pat_completeness auto
termination by (relation "measure nat") auto

function sleb_bytes :: "int \<Rightarrow> u8 list" where
  "sleb_bytes v =
     (if -64 \<le> v \<and> v < 64 then [leb_low v] else leb_more v # sleb_bytes (v div 128))"
  by pat_completeness auto
termination
proof (relation "measure (\<lambda>v. nat \<bar>v\<bar>)", goal_cases)
  case (2 v)
  have "v = 128 * (v div 128) + v mod 128" "0 \<le> v mod 128" "v mod 128 < 128" by simp_all
  with 2 have "\<bar>v div 128\<bar> < \<bar>v\<bar>" by linarith
  then show ?case by simp
qed simp

declare uleb_bytes.simps [simp del] sleb_bytes.simps [simp del]

text \<open>The bytes are at \<open>p\<close>, before the end \<open>e\<close>.\<close>

definition stored :: "host \<Rightarrow> u64 \<Rightarrow> u64 \<Rightarrow> u8 list \<Rightarrow> bool" where
  "stored h e p bs \<longleftrightarrow> host_read h p (length bs) = Inr bs \<and> unat p + length bs \<le> unat e"

lemma stored_Cons:
  assumes "stored h e p (b # bs)"
  shows "p < e" "h p = Some b" "stored h e (p + 1) bs"
proof -
  show lt: "p < e" using assms by (auto simp: stored_def word_less_nat_alt)
  show "h p = Some b" "stored h e (p + 1) bs"
    using assms unat_ptr_Suc [OF lt]
    by (auto simp: stored_def res_bind_Inr_iff split: option.splits)
qed

section \<open>Bytes and bits\<close>

lemma bit_leb_low: "bit (leb_low v) n \<longleftrightarrow> n < 7 \<and> bit v n"
  by (auto simp: leb_low_def bit_of_int_iff bit_take_bit_iff)

lemma low_mask: "b AND 0x7f = take_bit 7 (b :: u8)"
  by (simp add: take_bit_eq_mask mask_eq_exp_minus_1)

lemma and_0x80: "(b :: u8) AND 0x80 = 0 \<longleftrightarrow> \<not> bit b 7"
  using and_exp_eq_0_iff_not_bit [of b 7] by simp

lemma and_0x40: "(b :: u8) AND 0x40 = 0 \<longleftrightarrow> \<not> bit b 6"
  using and_exp_eq_0_iff_not_bit [of b 6] by simp

lemma bit_leb_more: "bit (leb_more v) n \<longleftrightarrow> n < 7 \<and> bit v n \<or> n = 7"
  by (auto simp: leb_more_def bit_or_iff bit_leb_low bit_push_bit_iff bit_1_iff simp del: push_bit_of_1)

lemma low_bits:
  "ucast (leb_low v AND 0x7f) = (of_int (take_bit 7 v) :: u64)"
  "ucast (leb_more v AND 0x7f) = (of_int (take_bit 7 v) :: u64)"
  by (auto intro!: bit_word_eqI
      simp: low_mask bit_ucast_iff bit_take_bit_iff bit_leb_low bit_leb_more bit_of_int_iff)

lemma top_bit: "leb_low v AND 0x80 = 0" "leb_more v AND 0x80 \<noteq> 0"
  by (simp_all add: and_0x80 bit_leb_low bit_leb_more)

lemma join7:
  "push_bit s (of_int (take_bit 7 v)) OR push_bit (s + 7) (of_int (v div 128)) = (push_bit s (of_int v) :: u64)"
proof (rule bit_word_eqI)
  fix n assume "n < LENGTH(64)"
  moreover have "v div 128 = drop_bit 7 v" by (simp add: drop_bit_eq_div)
  moreover have "s + 7 \<le> n \<Longrightarrow> 7 + (n - (s + 7)) = n - s" by simp
  ultimately show "bit (push_bit s (of_int (take_bit 7 v)) OR push_bit (s + 7) (of_int (v div 128)) :: u64) n =
      bit (push_bit s (of_int v) :: u64) n"
    by (cases "s + 7 \<le> n")
      (auto simp: bit_or_iff bit_push_bit_iff bit_of_int_iff bit_take_bit_iff bit_drop_bit_eq)
qed

section \<open>The unsigned reader\<close>

lemma uleb_loop_run:
  assumes "stored h e p (uleb_bytes v)" "0 \<le> v" "v < 2 ^ (64 - s)" "s < 64" "7 dvd s"
  shows "uleb_loop h e s acc p = Inr (acc OR push_bit s (of_int v), p + of_nat (length (uleb_bytes v)))"
  using assms
proof (induction v arbitrary: p s acc rule: uleb_bytes.induct)
  case (1 v)
  show ?case
  proof (cases "v < 128")
    case True
    then have b: "uleb_bytes v = [leb_low v]" by (simp add: uleb_bytes.simps)
    have "take_bit 7 v = v" using True 1(3) by (simp add: take_bit_int_eq_self)
    then show ?thesis
      using stored_Cons [OF 1(2) [unfolded b]] 1(5) unfolding b
      by (subst uleb_loop.simps) (simp add: top_bit low_bits)
  next
    case False
    then have b: "uleb_bytes v = leb_more v # uleb_bytes (v div 128)" by (subst uleb_bytes.simps) simp
    have "s \<noteq> 63" using False 1(4) by auto
    then have s: "s + 7 < 64" using 1(5,6) by presburger
    have "v < 2 ^ (64 - (s + 7)) * 128"
      using 1(4) s by (simp add: power_add [symmetric] flip: power_add [of "2::int" "64 - (s + 7)" 7, simplified])
    then have lim: "v div 128 < 2 ^ (64 - (s + 7))" by linarith
    note st = stored_Cons [OF 1(2) [unfolded b]]
    have "uleb_loop h e (s + 7) (acc OR push_bit s (of_int (take_bit 7 v))) (p + 1) =
        Inr (acc OR push_bit s (of_int (take_bit 7 v)) OR push_bit (s + 7) (of_int (v div 128)),
             p + 1 + of_nat (length (uleb_bytes (v div 128))))"
      using 1(1) [OF False st(3) _ lim s, of "acc OR push_bit s (of_int (take_bit 7 v))"] 1(3,6)
      by (simp add: or.assoc)
    moreover have "uleb_loop h e s acc p =
        uleb_loop h e (s + 7) (acc OR push_bit s (of_int (take_bit 7 v))) (p + 1)"
      using st 1(5) by (subst uleb_loop.simps) (simp add: top_bit low_bits)
    ultimately show ?thesis by (simp add: b or.assoc join7 add.assoc)
  qed
qed

section \<open>The signed reader\<close>

text \<open>The sign extension at the end of \<open>ReadSLEB128\<close>.\<close>

definition sign_fill :: "nat \<Rightarrow> u8 \<Rightarrow> u64 \<Rightarrow> u64" where
  "sign_fill s b r = (if s < 64 \<and> b AND 0x40 \<noteq> 0 then r OR - push_bit s 1 else r)"

lemma bit_minus_exp: "bit (- push_bit s 1 :: u64) n \<longleftrightarrow> s \<le> n \<and> n < 64"
proof -
  have "- push_bit s 1 = (NOT (mask s) :: u64)"
    by (simp add: minus_exp_eq_not_mask push_bit_eq_mult)
  then show ?thesis by (auto simp: bit_not_iff bit_mask_iff)
qed

text \<open>Bit \<open>n\<close> of a number of 7 signed bits is its bit 6 from there on.\<close>

lemma bit_short:
  assumes "-64 \<le> v" "v < 64" "6 \<le> n"
  shows "bit (v :: int) n \<longleftrightarrow> v < 0"
proof -
  have "bit v n \<longleftrightarrow> odd (v div 2 ^ n)" by (simp add: bit_iff_odd)
  moreover have "(64 :: int) \<le> 2 ^ n" using power_increasing [OF assms(3), of "2::int"] by simp
  then have "v div 2 ^ n = (if v < 0 then -1 else 0)"
    using assms(1,2) by (auto intro!: div_pos_pos_trivial int_div_pos_eq [where r = "v + 2 ^ n"])
  ultimately show ?thesis by simp
qed

lemma last_signed:
  assumes "-64 \<le> v" "v < 64" "s < 64" "s + 7 < 64 \<or> s = 63"
  shows "sign_fill (s + 7) (leb_low v) (acc OR push_bit s (of_int (take_bit 7 v))) = acc OR push_bit s (of_int v)"
proof (rule bit_word_eqI)
  fix n assume n: "n < LENGTH(64)"
  have six: "bit v 6 \<longleftrightarrow> v < 0" using bit_short [OF assms(1,2), of 6] by simp
  have high: "bit v (n - s) \<longleftrightarrow> v < 0" if "s + 7 \<le> n" using bit_short [OF assms(1,2), of "n - s"] that by simp
  have fill: "leb_low v AND 0x40 \<noteq> 0 \<longleftrightarrow> v < 0" by (simp add: and_0x40 bit_leb_low six)
  show "bit (sign_fill (s + 7) (leb_low v) (acc OR push_bit s (of_int (take_bit 7 v)))) n =
      bit (acc OR push_bit s (of_int v)) n"
    using n assms(3,4) high
    by (cases "s + 7 \<le> n")
      (auto simp: sign_fill_def fill bit_or_iff bit_minus_exp bit_push_bit_iff bit_of_int_iff bit_take_bit_iff
        simp del: push_bit_of_1)
qed

lemma sleb_loop_run:
  assumes "stored h e p (sleb_bytes v)" "- (2 ^ (63 - s)) \<le> v" "v < 2 ^ (63 - s)" "s < 64" "7 dvd s"
  shows "\<exists>r s' c. sleb_loop h e s b acc p = Inr (r, s', c, p + of_nat (length (sleb_bytes v))) \<and>
           sign_fill s' c r = acc OR push_bit s (of_int v)"
  using assms
proof (induction v arbitrary: p s b acc rule: sleb_bytes.induct)
  case (1 v)
  have "s + 7 < 64 \<or> s = 63" using 1(5,6) by presburger
  show ?case
  proof (cases "-64 \<le> v \<and> v < 64")
    case True
    then have bs: "sleb_bytes v = [leb_low v]" by (simp add: sleb_bytes.simps)
    have "sleb_loop h e s b acc p = Inr (acc OR push_bit s (of_int (take_bit 7 v)), s + 7, leb_low v, p + 1)"
      using stored_Cons [OF 1(2) [unfolded bs]] 1(5)
      by (subst sleb_loop.simps) (simp add: top_bit low_bits)
    with last_signed [of v s acc] True 1(5) \<open>s + 7 < 64 \<or> s = 63\<close> show ?thesis by (simp add: bs)
  next
    case False
    then have bs: "sleb_bytes v = leb_more v # sleb_bytes (v div 128)" by (subst sleb_bytes.simps) auto
    have "s \<noteq> 63" using False 1(3,4) by auto
    then have s: "s + 7 < 64" using \<open>s + 7 < 64 \<or> s = 63\<close> by simp
    have pow: "(2 :: int) ^ (63 - s) = 2 ^ (63 - (s + 7)) * 128"
      using s by (simp add: power_add [symmetric] flip: power_add [of "2::int" "63 - (s + 7)" 7, simplified])
    then have lim: "- (2 ^ (63 - (s + 7))) \<le> v div 128" "v div 128 < 2 ^ (63 - (s + 7))"
      using 1(3,4) by linarith+
    note st = stored_Cons [OF 1(2) [unfolded bs]]
    have "sleb_loop h e s b acc p =
        sleb_loop h e (s + 7) (leb_more v) (acc OR push_bit s (of_int (take_bit 7 v))) (p + 1)"
      using st 1(5) by (subst sleb_loop.simps) (simp add: top_bit low_bits)
    with 1(1) [OF False st(3) lim s, of "leb_more v" "acc OR push_bit s (of_int (take_bit 7 v))"] 1(6)
    show ?thesis by (auto simp: bs or.assoc join7 add.assoc)
  qed
qed

text \<open>C28: the LEB128 readers return what was written. From the unsigned encoding of any 64-bit value
  and from the signed encoding of any 64-bit two's complement value, stored before the end of the
  range, they return the value (the ten-byte encodings included, whose last byte has one
  significant bit) and leave the pointer past the last byte.\<close>

theorem LEB128_roundtrip:
  fixes v :: u64
  assumes "stored h e p (uleb_bytes (uint v))" "stored h e q (sleb_bytes (sint v))"
  shows "ReadULEB128 h e p = Inr (v, p + of_nat (length (uleb_bytes (uint v)))) \<and>
    ReadSLEB128 h e q = Inr (v, q + of_nat (length (sleb_bytes (sint v))))"
proof
  have "uint v < 2 ^ (64 - 0)" using uint_lt2p [of v] by simp
  then show "ReadULEB128 h e p = Inr (v, p + of_nat (length (uleb_bytes (uint v))))"
    using uleb_loop_run [OF assms(1), of 0 0] by (simp add: ReadULEB128_def)
  have "- (2 ^ (63 - 0)) \<le> sint v" "sint v < 2 ^ (63 - 0)"
    using sint_ge [of v] sint_lt [of v] by simp_all
  then obtain r s c where "sleb_loop h e 0 0 0 q = Inr (r, s, c, q + of_nat (length (sleb_bytes (sint v))))"
      "sign_fill s c r = v"
    using sleb_loop_run [OF assms(2), of 0 0 0] by auto
  then show "ReadSLEB128 h e q = Inr (v, q + of_nat (length (sleb_bytes (sint v))))"
    by (auto simp: ReadSLEB128_def sign_fill_def)
qed

definition demo_leb :: host where
  "demo_leb = host_map Map.empty 0x1000
     [0xff, 0xff, 0xff, 0xff, 0xff, 0xff, 0xff, 0xff, 0xff, 0x01, 0x7f]"

theorem LEB128_roundtrip_witness:
  "ReadULEB128 demo_leb 0x100b 0x1000 = Inr (-1, 0x100a) \<and> ReadSLEB128 demo_leb 0x100b 0x100a = Inr (-1, 0x100b)"
proof -
  have len: "length (uleb_bytes (uint (-1 :: u64))) = 10" "length (sleb_bytes (sint (-1 :: u64))) = 1"
    and st: "stored demo_leb 0x100b 0x1000 (uleb_bytes (uint (-1 :: u64)))"
    "stored demo_leb 0x100b 0x100a (sleb_bytes (sint (-1 :: u64)))"
    by code_simp+
  show ?thesis using LEB128_roundtrip [OF st] unfolding len by simp
qed

end
