(* ===== verification/SaveCore.thy ===== *)
theory SaveCore
  imports Libraries
begin

unbundle bit_operations_syntax

text \<open>
  Writing the current core back to a core file: \<open>FakeCore::execute\<close> of
  parser/command/fake/core/lp64/fake_core.cpp and lp32/fake_core.cpp (the command
  \<open>fake core --rebuild\<close>). The result is the list of bytes the sequence of \<open>fwrite\<close> and \<open>fseek\<close>
  calls leaves in the file.
\<close>

section \<open>Program headers\<close>

definition IS_ALIGNED :: "u64 \<Rightarrow> u64 \<Rightarrow> bool" where
  "IS_ALIGNED x a \<longleftrightarrow> x AND (a - 1) = 0"

fun phdr_bytes :: "elf_class \<Rightarrow> u64 \<Rightarrow> elf_phdr \<Rightarrow> u8 list" where
  "phdr_bytes ELF64 ty p = le_bytes 4 (unat ty) @ le_bytes 4 (unat (ph_flags p)) @
     le_bytes 8 (unat (ph_offset p)) @ le_bytes 8 (unat (ph_vaddr p)) @ le_bytes 8 (unat (ph_paddr p)) @
     le_bytes 8 (unat (ph_filesz p)) @ le_bytes 8 (unat (ph_memsz p)) @ le_bytes 8 (unat (ph_align p))"
| "phdr_bytes ELF32 ty p = le_bytes 4 (unat ty) @
     le_bytes 4 (unat (ph_offset p)) @ le_bytes 4 (unat (ph_vaddr p)) @ le_bytes 4 (unat (ph_paddr p)) @
     le_bytes 4 (unat (ph_filesz p)) @ le_bytes 4 (unat (ph_memsz p)) @ le_bytes 4 (unat (ph_flags p)) @
     le_bytes 4 (unat (ph_align p))"

text \<open>
  \<open>RoundUp(tmp[num].p_offset + tmp[num].p_filesz, ELF_PAGE_SIZE)\<close>, computed at the width of the
  header fields.
\<close>

fun round_page :: "elf_class \<Rightarrow> u64 \<Rightarrow> u64" where
  "round_page ELF64 x = RoundUp x ELF_PAGE_SIZE"
| "round_page ELF32 x = ucast (RoundUp (ucast x :: u32) (ucast ELF_PAGE_SIZE))"

definition note_phdr :: "elf_class \<Rightarrow> u64 \<Rightarrow> note_block \<Rightarrow> elf_phdr" where
  "note_phdr cls off nb =
     \<lparr>ph_flags = ucast (mFlags nb), ph_offset = trunc cls off, ph_vaddr = trunc cls (mVaddr nb),
      ph_paddr = trunc cls (mPaddr nb), ph_filesz = trunc cls (mFileSize nb),
      ph_memsz = trunc cls (mMemSize nb), ph_align = trunc cls (mAlign nb)\<rparr>"

fun note_headers :: "elf_class \<Rightarrow> u64 \<Rightarrow> note_block list \<Rightarrow> elf_phdr list \<times> u64" where
  "note_headers cls off [] = ([], off)"
| "note_headers cls off (nb # nbs) =
     (let p = note_phdr cls off nb;
          (ps, off') = note_headers cls (round_page cls (ph_offset p + ph_filesz p)) nbs
      in (p # ps, off'))"

definition saved_size :: "elf_class \<Rightarrow> load_block \<Rightarrow> u64" where
  "saved_size cls b =
     (if mFileSize b = 0 \<and> isValid b then trunc cls (mMemSize b)
      else if mFileSize b \<noteq> 0 \<and> \<not> isValid b then 0
      else trunc cls (mFileSize b))"

definition load_phdr_of :: "elf_class \<Rightarrow> u64 \<Rightarrow> load_block \<Rightarrow> elf_phdr" where
  "load_phdr_of cls off b =
     \<lparr>ph_flags = ucast (mFlags b), ph_offset = trunc cls off, ph_vaddr = trunc cls (mVaddr b),
      ph_paddr = trunc cls (mPaddr b), ph_filesz = saved_size cls b,
      ph_memsz = trunc cls (mMemSize b), ph_align = trunc cls (mAlign b)\<rparr>"

fun load_headers :: "elf_class \<Rightarrow> u64 \<Rightarrow> load_block list \<Rightarrow> elf_phdr list" where
  "load_headers cls off [] = []"
| "load_headers cls off (b # bs) =
     (let p = load_phdr_of cls off b in p # load_headers cls (off + ph_filesz p) bs)"

section \<open>Segments\<close>

text \<open>The notes, each padded to a page; the second component is \<open>current_filesz\<close>.\<close>

fun write_notes :: "host \<Rightarrow> u64 \<Rightarrow> (note_block \<times> elf_phdr) list \<Rightarrow> (u8 list \<times> u64) res" where
  "write_notes h cur [] = Inr ([], cur)"
| "write_notes h cur ((nb, p) # xs) =
     res_bind (host_read h (NoteBlock_begin OPT_READ_ALL nb) (unat (ph_filesz p))) (\<lambda>bs.
       (let cur1 = cur + ph_filesz p;
            pad = (if IS_ALIGNED cur1 ELF_PAGE_SIZE then 0 else RoundUp cur1 ELF_PAGE_SIZE - cur1)
        in res_bind (write_notes h (cur1 + pad) xs) (\<lambda>(rest, cur').
             Inr (bs @ replicate (unat pad) 0 @ rest, cur'))))"

fun write_loads :: "host \<Rightarrow> u64 \<Rightarrow> (load_block \<times> elf_phdr) list \<Rightarrow> (u8 list \<times> u64) res" where
  "write_loads h cur [] = Inr ([], cur)"
| "write_loads h cur ((b, p) # xs) =
     (if ph_filesz p = 0 \<or> \<not> isValid b then write_loads h cur xs
      else
        res_bind (host_read h (LoadBlock_begin OPT_READ_ALL b) (unat (ph_filesz p))) (\<lambda>bs.
        res_bind (write_loads h (cur + ph_filesz p) xs) (\<lambda>(rest, cur'). Inr (bs @ rest, cur'))))"

section \<open>The file header\<close>

text \<open>\<open>e_phnum\<close>, and the section header fields that carry a number of headers above \<open>PN_XNUM\<close>.\<close>

definition save_ehdr64 :: "u32 \<Rightarrow> u8 list \<Rightarrow> u8 list" where
  "save_ehdr64 real_phnum ehdr =
     (if ucast real_phnum \<ge> PN_XNUM then
        splice_at 56 (le_bytes 2 (unat PN_XNUM)) (splice_at 58 (le_bytes 2 (unat (sizeof_Shdr ELF64)))
          (splice_at 60 (le_bytes 2 1) (splice_at 62 (le_bytes 2 0) ehdr)))
      else
        splice_at 56 (le_bytes 2 (unat real_phnum)) (splice_at 40 (le_bytes 8 0)
          (splice_at 58 (le_bytes 2 0) (splice_at 60 (le_bytes 2 0) ehdr))))"

definition null_shdr64 :: "u32 \<Rightarrow> u8 list" where
  "null_shdr64 real_phnum = replicate 44 0 @ le_bytes 4 (unat real_phnum) @ replicate 16 0"

text \<open>
  \<open>lp64::FakeCore::execute\<close> and \<open>lp32::FakeCore::execute\<close>. The 32-bit version keeps the number of
  headers in the 16-bit \<open>e_phnum\<close> and makes a vector of that many headers; with more headers it
  writes past the vector.
\<close>

definition save_body :: "elf_class \<Rightarrow> core \<Rightarrow> (u8 list \<times> u64) res" where
  "save_body cls c =
     (let loads = map (blk c) (getLoads False c);
          n = length loads + length (mNote c);
          start = sizeof_Ehdr cls + of_nat n * sizeof_Phdr cls;
          (nps, off) = note_headers cls start (mNote c);
          lps = load_headers cls off loads;
          headers = concat (map (phdr_bytes cls PT_NOTE) nps) @ concat (map (phdr_bytes cls PT_LOAD) lps)
      in
      res_bind (write_notes (mem c) start (zip (mNote c) nps)) (\<lambda>(notes, cur).
      res_bind (write_loads (mem c) cur (zip loads lps)) (\<lambda>(segs, cur').
        Inr (headers @ notes @ segs, cur'))))"

definition lp64_execute :: "core \<Rightarrow> u8 list res" where
  "lp64_execute c =
     (let real_phnum = of_nat (length (getLoads False c) + length (mNote c)) :: u32 in
      res_bind (host_read (mem c) (mm_begin (mCore c)) (unat (sizeof_Ehdr ELF64))) (\<lambda>raw.
      res_bind (save_body ELF64 c) (\<lambda>(body, cur).
        (let ehdr = save_ehdr64 real_phnum raw in
         Inr (if ucast real_phnum \<ge> PN_XNUM
              then splice_at 0 (splice_at 40 (le_bytes 8 (unat cur)) ehdr)
                     (ehdr @ body @ null_shdr64 real_phnum)
              else ehdr @ body)))))"

definition lp32_execute :: "core \<Rightarrow> u8 list res" where
  "lp32_execute c =
     (let n = length (getLoads False c) + length (mNote c) in
      res_bind (host_read (mem c) (mm_begin (mCore c)) (unat (sizeof_Ehdr ELF32))) (\<lambda>raw.
        if n \<ge> 2 ^ 16 then Inl (HostFault 0)
        else
          res_bind (save_body ELF32 c) (\<lambda>(body, _).
            Inr (splice_at 44 (le_bytes 2 n) raw @ body))))"

text \<open>
  The command: \<open>None\<close> is a return of \<open>-1\<close> (no core, or the file cannot be opened), otherwise the
  contents of the file. \<open>FakeCore::Make\<close> picks the version by the width of the core.
\<close>

definition FakeCore_execute :: "core option \<Rightarrow> bool \<Rightarrow> u8 list option res" where
  "FakeCore_execute inst opened =
     (case inst of None \<Rightarrow> Inr None
      | Some c \<Rightarrow>
          if \<not> opened then Inr None
          else map_sum id Some (if bits (core_machine c) = 64 then lp64_execute c else lp32_execute c))"

end
