(* ===== verification/SaveProps.thy ===== *)
theory SaveProps
  imports SaveCore LoadProps
begin

unbundle bit_operations_syntax

text \<open>
  Saving a core and loading the file again gives a core that shows the target memory of the
  saved parts of the segments.
\<close>

section \<open>Bytes stored in memory\<close>

definition stored_at :: "host \<Rightarrow> u64 \<Rightarrow> u8 list \<Rightarrow> bool" where
  "stored_at h a bs \<longleftrightarrow> (\<forall>i<length bs. h (a + of_nat i) = Some (bs ! i))"

lemma stored_at_read: "stored_at h a bs \<longleftrightarrow> host_read h a (length bs) = Inr bs"
  by (simp add: stored_at_def host_read_Inr_iff)

lemma stored_at_append:
  "stored_at h a (xs @ ys) \<longleftrightarrow> stored_at h a xs \<and> stored_at h (a + of_nat (length xs)) ys"
proof (induction xs arbitrary: a)
  case (Cons x xs)
  have step: "stored_at h b (z # zs) \<longleftrightarrow> h b = Some z \<and> stored_at h (b + 1) zs" for b z zs
    by (simp add: stored_at_def All_less_Suc2 add.assoc)
  show ?case by (simp add: step Cons.IH add.assoc)
qed (simp add: stored_at_def)

lemma stored_word:
  assumes "stored_at h a (le_bytes n (unat v))" "unat v < 256 ^ n"
  shows "host_word h a n = Inr v"
proof -
  have "host_read h a n = Inr (le_bytes n (unat v))" using assms(1) by (simp add: stored_at_read)
  then show ?thesis using assms(2) by (simp add: host_word_def le_word_def le_val_le_bytes)
qed

lemma stored_slice:
  assumes "stored_at h a bs" "k + n \<le> length bs"
  shows "stored_at h (a + of_nat k) (take n (drop k bs))"
  using assms host_read_slice [of h a "length bs" bs k n] by (simp add: stored_at_read)

section \<open>Headers\<close>

lemma fits_8 [simp]: "unat (v :: u64) < 256 ^ 8"
  using unat_u64_less [of v] by simp

lemma fits_4: "unat (ucast (f :: u32) :: u64) < 256 ^ 4"
proof -
  have "unat f < 2 ^ 32" using unsigned_less [of f] by simp
  then show ?thesis by (simp add: unsigned_ucast_eq take_bit_nat_eq_self)
qed

lemma flags_back: "ucast (ucast (f :: u32) :: u64) = f"
  by (rule bit_word_eqI) (simp add: bit_ucast_iff)

lemma stored_phdr:
  assumes "stored_at h a (phdr_bytes ELF64 ty p)" "unat ty < 256 ^ 4" "unat (ph_flags p) < 256 ^ 4"
  shows "ph_type h a = Inr ty" "read_Phdr ELF64 h a = Inr p"
proof -
  have st: "stored_at h a (le_bytes 4 (unat ty))" "stored_at h (a + 4) (le_bytes 4 (unat (ph_flags p)))"
    "stored_at h (a + 8) (le_bytes 8 (unat (ph_offset p)))" "stored_at h (a + 16) (le_bytes 8 (unat (ph_vaddr p)))"
    "stored_at h (a + 24) (le_bytes 8 (unat (ph_paddr p)))" "stored_at h (a + 32) (le_bytes 8 (unat (ph_filesz p)))"
    "stored_at h (a + 40) (le_bytes 8 (unat (ph_memsz p)))" "stored_at h (a + 48) (le_bytes 8 (unat (ph_align p)))"
    using assms(1) by (simp_all add: stored_at_append add.assoc)
  show "ph_type h a = Inr ty" using stored_word [OF st(1) assms(2)] by (simp add: ph_type_def)
  show "read_Phdr ELF64 h a = Inr p"
    using stored_word [OF st(2) assms(3)] stored_word [OF st(3) fits_8] stored_word [OF st(4) fits_8]
      stored_word [OF st(5) fits_8] stored_word [OF st(6) fits_8] stored_word [OF st(7) fits_8]
      stored_word [OF st(8) fits_8]
    by (simp add: read_Phdr64_def)
qed

lemma length_phdr_bytes [simp]: "length (phdr_bytes ELF64 ty p) = 56"
  by simp

declare phdr_bytes.simps [simp del]

lemma stored_phdrs:
  assumes "stored_at h a (concat (map (\<lambda>(ty, p). phdr_bytes ELF64 ty p) ps))"
    and "\<forall>(ty, p)\<in>set ps. unat ty < 256 ^ 4 \<and> unat (ph_flags p) < 256 ^ 4"
  shows "phdrs_at ELF64 h a ps"
  using assms
proof (induction ps arbitrary: a)
  case (Cons x ps)
  obtain ty p where x: "x = (ty, p)" by force
  have st: "stored_at h a (phdr_bytes ELF64 ty p)"
    "stored_at h (a + 56) (concat (map (\<lambda>(ty, p). phdr_bytes ELF64 ty p) ps))"
    using Cons.prems(1) x by (simp_all add: stored_at_append)
  show ?case
    using stored_phdr [OF st(1)] Cons.IH [OF st(2)] Cons.prems(2) x by simp
qed simp

section \<open>Segments\<close>

lemma RoundUp_aligned:
  assumes "IS_ALIGNED x ELF_PAGE_SIZE"
  shows "RoundUp x ELF_PAGE_SIZE = x"
proof -
  have z: "x AND mask 12 = 0" using assms by (simp add: IS_ALIGNED_def ELF_PAGE_SIZE_def mask_eq_exp_minus_1)
  have "x + mask 12 = x OR mask 12" using z by (rule disjunctive_add_eq_or)
  moreover have "ELF_PAGE_SIZE = 2 ^ 12" "mask 12 = ELF_PAGE_SIZE - 1"
    by (simp_all add: ELF_PAGE_SIZE_def mask_eq_exp_minus_1)
  ultimately have "RoundUp x ELF_PAGE_SIZE = push_bit 12 (drop_bit 12 (x OR mask 12))"
    unfolding RoundUp_def by (metis RoundDown_eq_push_drop add_diff_eq)
  also have "\<dots> = push_bit 12 (drop_bit 12 x)"
    by (rule bit_word_eqI) (auto simp: bit_push_bit_iff bit_drop_bit_eq bit_or_iff bit_mask_iff)
  also have "\<dots> = x"
    using bits_ident [of 12 x] z by (simp add: take_bit_eq_mask)
  finally show ?thesis .
qed

text \<open>The second pass over the notes reaches the offsets the first pass gave out.\<close>

lemma write_notes_size:
  assumes "note_headers ELF64 off nbs = (ps, off')" "write_notes h off (zip nbs ps) = Inr (bs, cur)"
  shows "cur = off'" "of_nat (length bs) = off' - off" "length ps = length nbs"
proof -
  have "cur = off' \<and> of_nat (length bs) = off' - off \<and> length ps = length nbs"
    using assms
  proof (induction nbs arbitrary: off ps bs)
    case (Cons nb nbs)
    define p where "p = note_phdr ELF64 off nb"
    obtain ps1 where ps: "ps = p # ps1" "note_headers ELF64 (round_page ELF64 (ph_offset p + ph_filesz p)) nbs = (ps1, off')"
      using Cons.prems(1) by (auto simp: p_def Let_def split: prod.splits)
    have off: "ph_offset p = off" by (simp add: p_def note_phdr_def)
    define cur1 where "cur1 = off + ph_filesz p"
    define pad where "pad = (if IS_ALIGNED cur1 ELF_PAGE_SIZE then 0 else RoundUp cur1 ELF_PAGE_SIZE - cur1)"
    have pad: "cur1 + pad = RoundUp cur1 ELF_PAGE_SIZE" by (simp add: pad_def RoundUp_aligned)
    obtain b1 b2 where b: "host_read h (NoteBlock_begin OPT_READ_ALL nb) (unat (ph_filesz p)) = Inr b1"
        "write_notes h (cur1 + pad) (zip nbs ps1) = Inr (b2, cur)" "bs = b1 @ replicate (unat pad) 0 @ b2"
      using Cons.prems(2) by (auto simp: ps(1) Let_def res_bind_Inr_iff cur1_def pad_def split: if_splits)
    have next_off: "note_headers ELF64 (cur1 + pad) nbs = (ps1, off')"
      using ps(2) unfolding pad by (simp add: off cur1_def)
    have "cur = off' \<and> of_nat (length b2) = off' - (cur1 + pad) \<and> length ps1 = length nbs"
      by (rule Cons.IH [OF next_off b(2)])
    moreover have "length b1 = unat (ph_filesz p)" using host_read_length [OF b(1)] .
    ultimately show ?case by (simp add: b(3) ps(1) cur1_def)
  qed simp
  then show "cur = off'" "of_nat (length bs) = off' - off" "length ps = length nbs" by auto
qed

text \<open>Each segment is at the offset of its header.\<close>

lemma write_loads_at:
  assumes "write_loads h off (zip bs (load_headers ELF64 off bs)) = Inr (segs, cur)" "stored_at h' (base + off) segs"
    "unat off + length segs < 2 ^ 64" "\<forall>b\<in>set bs. saved_size ELF64 b \<noteq> 0 \<longrightarrow> isValid b" "i < length bs"
  shows "\<exists>data. ph_filesz (load_headers ELF64 off bs ! i) = saved_size ELF64 (bs ! i) \<and>
    unat (ph_offset (load_headers ELF64 off bs ! i)) + unat (saved_size ELF64 (bs ! i)) \<le> unat off + length segs \<and>
    (saved_size ELF64 (bs ! i) \<noteq> 0 \<longrightarrow>
       host_read h (LoadBlock_begin OPT_READ_ALL (bs ! i)) (unat (saved_size ELF64 (bs ! i))) = Inr data \<and>
       stored_at h' (base + ph_offset (load_headers ELF64 off bs ! i)) data)"
  using assms
proof (induction bs arbitrary: off segs i)
  case (Cons b bs)
  define p where "p = load_phdr_of ELF64 off b"
  have p: "ph_filesz p = saved_size ELF64 b" "ph_offset p = off" by (simp_all add: p_def load_phdr_of_def)
  have hs: "load_headers ELF64 off (b # bs) = p # load_headers ELF64 (off + saved_size ELF64 b) bs"
    by (simp add: p_def load_phdr_of_def Let_def)
  show ?case
  proof (cases "saved_size ELF64 b = 0")
    case True
    have rest: "write_loads h off (zip bs (load_headers ELF64 off bs)) = Inr (segs, cur)"
      using Cons.prems(1) True hs p by simp
    show ?thesis
      using Cons.IH [OF rest Cons.prems(2,3)] Cons.prems(4,5) True hs p by (cases i) auto
  next
    case False
    then have v: "isValid b" using Cons.prems(4) by simp
    obtain data rest where r: "host_read h (LoadBlock_begin OPT_READ_ALL b) (unat (saved_size ELF64 b)) = Inr data"
        "write_loads h (off + saved_size ELF64 b) (zip bs (load_headers ELF64 (off + saved_size ELF64 b) bs)) = Inr (rest, cur)"
        "segs = data @ rest"
      using Cons.prems(1) False v hs p by (auto simp: res_bind_Inr_iff)
    have len: "length data = unat (saved_size ELF64 b)" using host_read_length [OF r(1)] .
    have st: "stored_at h' (base + off) data" "stored_at h' (base + (off + saved_size ELF64 b)) rest"
      using Cons.prems(2) by (simp_all add: r(3) stored_at_append len add.assoc)
    have u: "unat (off + saved_size ELF64 b) = unat off + unat (saved_size ELF64 b)"
      using Cons.prems(3) r(3) len by (intro unat_add_no_wrap) simp
    show ?thesis
    proof (cases i)
      case 0
      then show ?thesis using r len st(1) hs p by auto
    next
      case (Suc j)
      have "unat (off + saved_size ELF64 b) + length rest < 2 ^ 64" using Cons.prems(3) u r(3) len by simp
      from Cons.IH [OF r(2) st(2) this, of j] show ?thesis
        using Cons.prems(4,5) Suc hs u r(3) len by (auto simp: add.assoc)
    qed
  qed
qed simp

lemma write_loads_size:
  assumes "write_loads h off (zip bs ps) = Inr (segs, cur)"
  shows "of_nat (length segs) = cur - off"
  using assms
proof (induction bs arbitrary: ps off segs)
  case (Cons b bs)
  show ?case
  proof (cases ps)
    case Nil
    then show ?thesis using Cons.prems by simp
  next
    case (Cons p ps1)
    show ?thesis
    proof (cases "ph_filesz p = 0 \<or> \<not> isValid b")
      case True
      then show ?thesis using Cons.IH Cons.prems Cons by simp
    next
      case False
      then obtain b1 b2 where b: "host_read h (LoadBlock_begin OPT_READ_ALL b) (unat (ph_filesz p)) = Inr b1"
          "write_loads h (off + ph_filesz p) (zip bs ps1) = Inr (b2, cur)" "segs = b1 @ b2"
        using Cons.prems Cons by (auto simp: res_bind_Inr_iff)
      have "of_nat (length b2) = cur - (off + ph_filesz p)" using Cons.IH b(2) by blast
      then show ?thesis using host_read_length [OF b(1)] by (simp add: b(3))
    qed
  qed
qed simp

section \<open>The file header\<close>

text \<open>The number of headers as the loader finds it in the header (and the extra section header).\<close>

definition tells :: "u8 list \<Rightarrow> nat \<Rightarrow> nat \<Rightarrow> u8 list \<Rightarrow> bool" where
  "tells ehdr n pos tail \<longleftrightarrow> length ehdr = 64 \<and>
     (if n < 0xffff then take 2 (drop 56 ehdr) = le_bytes 2 n \<and> tail = []
      else take 2 (drop 56 ehdr) = le_bytes 2 0xffff \<and> take 2 (drop 60 ehdr) = le_bytes 2 1 \<and>
        take 8 (drop 40 ehdr) = le_bytes 8 pos \<and> tail = replicate 44 0 @ le_bytes 4 n @ replicate 16 0)"

lemma splice_keeps:
  assumes "length xs = 64" "o1 + n \<le> 64" "lo + length buf \<le> 64" "o1 + n \<le> lo \<or> lo + length buf \<le> o1"
  shows "take n (drop o1 (splice_at lo buf xs)) = take n (drop o1 xs)"
  using assms by (intro splice_at_other) auto

lemma splice_sets:
  assumes "length xs = 64" "lo + length buf \<le> 64" "n = length buf"
  shows "take n (drop lo (splice_at lo buf xs)) = buf"
  using assms by (simp add: splice_at_same)

lemma splice_length: "length xs = 64 \<Longrightarrow> lo + length buf \<le> 64 \<Longrightarrow> length (splice_at lo buf xs) = 64"
  by (simp add: length_splice_at)

lemma lp64_execute_file:
  assumes "lp64_execute c = Inr file" "n = length (mLoad c) + length (mNote c)" "n < 2 ^ 31"
  obtains ehdr body cur tail where "save_body ELF64 c = Inr (body, cur)" "file = ehdr @ body @ tail"
    "tells ehdr n (unat cur) tail"
proof -
  define rp where "rp = (of_nat n :: u32)"
  have u: "unat rp = n" using assms(3) by (simp add: rp_def unat_of_nat take_bit_nat_eq_self)
  have ge: "ucast rp \<ge> PN_XNUM \<longleftrightarrow> n \<ge> 0xffff"
    using u assms(3) by (simp add: PN_XNUM_def word_le_nat_alt unsigned_ucast_eq take_bit_nat_eq_self)
  obtain raw body cur where r: "host_read (mem c) (mm_begin (mCore c)) 64 = Inr raw" "save_body ELF64 c = Inr (body, cur)"
      "file = (if n \<ge> 0xffff
         then splice_at 0 (splice_at 40 (le_bytes 8 (unat cur)) (save_ehdr64 rp raw)) (save_ehdr64 rp raw @ body @ null_shdr64 rp)
         else save_ehdr64 rp raw @ body)"
    using assms(1) ge by (auto simp: lp64_execute_def getLoads_def assms(2) rp_def Let_def res_bind_Inr_iff)
  have len: "length raw = 64" using host_read_length [OF r(1)] .
  show thesis
  proof (cases "n \<ge> 0xffff")
    case True
    define e1 where "e1 = save_ehdr64 rp raw"
    define e2 where "e2 = splice_at 40 (le_bytes 8 (unat cur)) e1"
    have e1: "length e1 = 64" "take 2 (drop 56 e1) = le_bytes 2 0xffff" "take 2 (drop 60 e1) = le_bytes 2 1"
      using len True ge by (simp_all add: e1_def save_ehdr64_def PN_XNUM_def splice_length splice_keeps splice_sets)
    have e2: "length e2 = 64" using e1 by (simp add: e2_def splice_length)
    have "file = e2 @ body @ null_shdr64 rp"
      using r(3) True e1(1) e2 by (simp add: e2_def e1_def splice_at_def)
    moreover have "tells e2 n (unat cur) (null_shdr64 rp)"
      using True e1 e2 u by (simp add: tells_def e2_def splice_keeps splice_sets null_shdr64_def)
    ultimately show ?thesis using that r(2) by blast
  next
    case False
    then have "tells (save_ehdr64 rp raw) n (unat cur) []"
      using len ge u by (simp add: tells_def save_ehdr64_def splice_length splice_sets)
    moreover have "file = save_ehdr64 rp raw @ body @ []" using r(3) False by simp
    ultimately show ?thesis using that r(2) by blast
  qed
qed

lemma tells_phnum:
  assumes "tells ehdr n pos tail" "stored_at (mem c) (mm_begin (mCore c)) (ehdr @ body @ tail)"
    "n < 2 ^ 31" "pos = 64 + length body" "pos < 2 ^ 64"
  shows "actual_phnum ELF64 c = Inr (Some (int n))"
proof -
  let ?b = "mm_begin (mCore c)"
  have len: "length ehdr = 64" using assms(1) by (simp add: tells_def)
  have ehdr: "stored_at (mem c) ?b ehdr" using assms(2) by (simp add: stored_at_append)
  have fld: "stored_at (mem c) (?b + of_nat k) (take m (drop k ehdr))" if "k + m \<le> 64" for k m
    using stored_slice [OF ehdr, of k m] that len by simp
  show ?thesis
  proof (cases "n < 0xffff")
    case True
    then have "host_word (mem c) (?b + 56) 2 = Inr (of_nat n)"
      using assms(1) fld [of 56 2] by (intro stored_word) (simp_all add: tells_def unat_of_nat take_bit_nat_eq_self)
    moreover have "(of_nat n :: u64) \<noteq> PN_XNUM"
      using True by (simp add: PN_XNUM_def word_unat_eq_iff unat_of_nat take_bit_nat_eq_self)
    ultimately show ?thesis
      using True by (simp add: actual_phnum_def unat_of_nat take_bit_nat_eq_self)
  next
    case False
    have pn: "host_word (mem c) (?b + 56) 2 = Inr PN_XNUM"
      using assms(1) False fld [of 56 2] by (intro stored_word) (simp_all add: tells_def PN_XNUM_def)
    have sn: "host_word (mem c) (?b + 60) 2 = Inr 1"
      using assms(1) False fld [of 60 2] by (intro stored_word) (simp_all add: tells_def)
    have so: "host_word (mem c) (?b + 40) 8 = Inr (of_nat pos)"
      using assms(1,5) False fld [of 40 8] by (intro stored_word) (simp_all add: tells_def unat_of_nat take_bit_nat_eq_self)
    have "tail = replicate 44 0 @ le_bytes 4 n @ replicate 16 0" using assms(1) False by (simp add: tells_def)
    then have "stored_at (mem c) (?b + of_nat pos + 44) (le_bytes 4 n)"
      using assms(2,4) len by (simp add: stored_at_append add.assoc)
    then have "host_word (mem c) (?b + of_nat pos + 44) 4 = Inr (of_nat n)"
      using assms(3) by (intro stored_word) (simp_all add: unat_of_nat take_bit_nat_eq_self)
    moreover have "sint (of_nat n :: u32) = int n"
      using assms(3) by (simp add: sint_uint signed_take_bit_int_eq_self uint_nat unat_of_nat take_bit_nat_eq_self)
    moreover have "(ucast (of_nat n :: u64) :: u32) = of_nat n"
      using assms(3) by (simp add: word_unat_eq_iff unsigned_ucast_eq unat_of_nat take_bit_nat_eq_self)
    ultimately show ?thesis using pn sn so by (simp add: actual_phnum_def)
  qed
qed

section \<open>The segments of the saved file\<close>

text \<open>
  A segment is saved completely when the file part holds all bytes of its backing: of a segment
  with file contents that is overlaid or mapped over, only the bytes of the file part are written.
\<close>

definition saved_completely :: "load_block \<Rightarrow> bool" where
  "saved_completely b \<longleftrightarrow> unat (saved_size ELF64 b) = backed_size b"

text \<open>The memory a saved core still holds: the bytes of the file part of each segment.\<close>

definition saved_byte :: "core \<Rightarrow> u64 \<Rightarrow> u8 option" where
  "saved_byte c a =
     (case findLoadBlock a True c of None \<Rightarrow> None
      | Some i \<Rightarrow> if (a AND vabits_mask c) - mVaddr (blk c i) < saved_size ELF64 (blk c i) then core_byte c a
                 else Some 0)"

lemma saved_size_valid: "saved_size ELF64 b \<noteq> 0 \<Longrightarrow> isValid b"
  by (auto simp: saved_size_def split: if_splits)

lemma saved_size_le: "block_ok h b \<Longrightarrow> saved_size ELF64 b \<le> mMemSize b"
  by (simp add: saved_size_def block_ok_def)

lemma length_load_headers [simp]: "length (load_headers cls off bs) = length bs"
  by (induction bs arbitrary: off) (simp_all add: Let_def)

lemma load_headers_nth:
  assumes "i < length bs"
  shows "ph_vaddr (load_headers ELF64 off bs ! i) = mVaddr (bs ! i)"
    "ph_memsz (load_headers ELF64 off bs ! i) = mMemSize (bs ! i)"
    "ph_flags (load_headers ELF64 off bs ! i) = ucast (mFlags (bs ! i))"
    "ph_filesz (load_headers ELF64 off bs ! i) = saved_size ELF64 (bs ! i)"
proof -
  have "ph_vaddr (load_headers ELF64 off bs ! i) = mVaddr (bs ! i) \<and>
    ph_memsz (load_headers ELF64 off bs ! i) = mMemSize (bs ! i) \<and>
    ph_flags (load_headers ELF64 off bs ! i) = ucast (mFlags (bs ! i)) \<and>
    ph_filesz (load_headers ELF64 off bs ! i) = saved_size ELF64 (bs ! i)"
    using assms
  proof (induction bs arbitrary: off i)
    case (Cons b bs)
    then show ?case by (cases i) (simp_all add: Let_def load_phdr_of_def)
  qed simp
  then show "ph_vaddr (load_headers ELF64 off bs ! i) = mVaddr (bs ! i)"
    "ph_memsz (load_headers ELF64 off bs ! i) = mMemSize (bs ! i)"
    "ph_flags (load_headers ELF64 off bs ! i) = ucast (mFlags (bs ! i))"
    "ph_filesz (load_headers ELF64 off bs ! i) = saved_size ELF64 (bs ! i)" by auto
qed

lemma note_headers_flags: "note_headers ELF64 off nbs = (ps, off') \<Longrightarrow> p \<in> set ps \<Longrightarrow> unat (ph_flags p) < 256 ^ 4"
proof (induction nbs arbitrary: off ps)
  case (Cons nb nbs)
  then show ?case by (auto simp: Let_def note_phdr_def fits_4 [simplified] split: prod.splits)
qed simp

text \<open>
  What a saved file holds, for any memory \<open>h'\<close> that has it at \<open>base\<close>: the program headers, and the
  bytes of every segment at the offset of its header.
\<close>

lemma save_body_stored:
  fixes c :: core
  defines "bs \<equiv> map (blk c) (mLoad c)"
  assumes "save_body ELF64 c = Inr (body, cur)" "stored_at h' (base + 64) body" "64 + length body < 2 ^ 64"
    "length bs + length (mNote c) < 2 ^ 31"
  obtains nps off where "phdrs_at ELF64 h' (base + 64)
      (map (Pair PT_NOTE) nps @ map (Pair PT_LOAD) (load_headers ELF64 off bs))"
    "length nps = length (mNote c)" "unat cur = 64 + length body"
    "\<And>i. i < length bs \<Longrightarrow>
       unat (ph_offset (load_headers ELF64 off bs ! i)) + unat (saved_size ELF64 (bs ! i)) \<le> 64 + length body \<and>
       (saved_size ELF64 (bs ! i) \<noteq> 0 \<longrightarrow>
         (\<exists>data. host_read (mem c) (LoadBlock_begin OPT_READ_ALL (bs ! i)) (unat (saved_size ELF64 (bs ! i))) = Inr data \<and>
           stored_at h' (base + ph_offset (load_headers ELF64 off bs ! i)) data))"
proof -
  define n where "n = length bs + length (mNote c)"
  define start where "start = 64 + of_nat n * (56 :: u64)"
  obtain nps off where nps: "note_headers ELF64 start (mNote c) = (nps, off)" by force
  define lps where "lps = load_headers ELF64 off bs"
  define headers where "headers = concat (map (phdr_bytes ELF64 PT_NOTE) nps) @ concat (map (phdr_bytes ELF64 PT_LOAD) lps)"
  obtain ntb cn segs where w: "write_notes (mem c) start (zip (mNote c) nps) = Inr (ntb, cn)"
      "write_loads (mem c) cn (zip bs lps) = Inr (segs, cur)" "body = headers @ ntb @ segs"
    using assms(2) nps
    by (auto simp: save_body_def getLoads_def bs_def [symmetric] n_def start_def lps_def headers_def Let_def res_bind_Inr_iff)
  have sz: "cn = off" "of_nat (length ntb) = off - start" "length nps = length (mNote c)"
    using write_notes_size [OF nps w(1)] by auto
  have hl: "length headers = 56 * n"
    by (simp add: headers_def length_concat sum_list_triv comp_def lps_def n_def sz(3))
  have st: "stored_at h' (base + 64) headers" "stored_at h' (base + (64 + of_nat (length headers) + of_nat (length ntb))) segs"
    using assms(3) by (simp_all add: w(3) stored_at_append add.assoc)
  have start: "start = 64 + of_nat (length headers)" by (simp add: start_def hl)
  have off: "off = of_nat (64 + length headers + length ntb)" using sz(2) by (simp add: start add.assoc)
  have uoff: "unat off = 64 + length headers + length ntb"
  proof -
    have "64 + length headers + length ntb < 2 ^ 64" using assms(4) w(3) by simp
    then show ?thesis unfolding off unat_of_nat by (simp add: take_bit_nat_eq_self)
  qed
  have segs: "stored_at h' (base + off) segs" using st(2) by (simp add: off add.assoc)
  have "cur = of_nat (64 + length body)"
    using write_loads_size [OF w(2)] by (simp add: sz(1) off w(3) add.assoc)
  then have ucur: "unat cur = 64 + length body"
    using assms(4) unfolding \<open>cur = of_nat (64 + length body)\<close> unat_of_nat by (simp add: take_bit_nat_eq_self)
  have "concat (map (\<lambda>(ty, p). phdr_bytes ELF64 ty p) (map (Pair PT_NOTE) nps @ map (Pair PT_LOAD) lps)) = headers"
    by (simp add: headers_def comp_def)
  moreover have "\<forall>(ty, p)\<in>set (map (Pair PT_NOTE) nps @ map (Pair PT_LOAD) lps). unat ty < 256 ^ 4 \<and> unat (ph_flags p) < 256 ^ 4"
    using note_headers_flags [OF nps] load_headers_nth(3) [of _ bs off]
    by (auto simp: lps_def in_set_conv_nth fits_4 [simplified] PT_NOTE_def PT_LOAD_def)
  ultimately have ph: "phdrs_at ELF64 h' (base + 64) (map (Pair PT_NOTE) nps @ map (Pair PT_LOAD) lps)"
    using st(1) by (intro stored_phdrs) auto
  have lim: "unat off + length segs < 2 ^ 64" using assms(4) uoff w(3) by simp
  have seg: "unat (ph_offset (lps ! i)) + unat (saved_size ELF64 (bs ! i)) \<le> 64 + length body \<and>
       (saved_size ELF64 (bs ! i) \<noteq> 0 \<longrightarrow>
         (\<exists>data. host_read (mem c) (LoadBlock_begin OPT_READ_ALL (bs ! i)) (unat (saved_size ELF64 (bs ! i))) = Inr data \<and>
           stored_at h' (base + ph_offset (lps ! i)) data))" if "i < length bs" for i
    using write_loads_at [OF w(2) [unfolded sz(1) lps_def] segs lim _ that] saved_size_valid uoff w(3)
    by (auto simp: lps_def)
  show thesis using that [of nps off] ph sz(3) ucur seg by (simp add: lps_def)
qed

section \<open>The loaded segments\<close>

lemma saved_block_byte:
  assumes "mm_begin (mCore c0) \<noteq> 0" "unat (mm_begin (mCore c0)) + unat (mm_size (mCore c0)) < 2 ^ 64"
    and p: "ph_filesz p = saved_size ELF64 b" "unat (ph_offset p) + unat (saved_size ELF64 b) \<le> unat (mm_size (mCore c0))"
    and sc: "unat (saved_size ELF64 b) \<le> backed_size b"
    and data: "saved_size ELF64 b \<noteq> 0 \<longrightarrow>
      (\<exists>data. host_read h (LoadBlock_begin OPT_READ_ALL b) (unat (saved_size ELF64 b)) = Inr data \<and>
         stored_at (mem c0) (mm_begin (mCore c0) + ph_offset p) data)"
  shows "block_byte (mem c0) (make_load p c0) k = (if k < unat (saved_size ELF64 b) then block_byte h b k else 0)"
proof (cases "saved_size ELF64 b = 0")
  case True
  moreover have "mOriAddr (make_load p c0) = 0"
    using p(1) True by (simp add: make_load_def setOriAddr_def isValidBlock_def new_LoadBlock_def Let_def)
  ultimately show ?thesis by (simp add: block_byte_def backed_size_def)
next
  case False
  let ?base = "mm_begin (mCore c0)"
  obtain d where d: "host_read h (LoadBlock_begin OPT_READ_ALL b) (unat (saved_size ELF64 b)) = Inr d"
      "stored_at (mem c0) (?base + ph_offset p) d"
    using data False by blast
  have len: "length d = unat (saved_size ELF64 b)" using host_read_length [OF d(1)] .
  have so: "unat (ph_offset p + saved_size ELF64 b) = unat (ph_offset p) + unat (saved_size ELF64 b)"
    using p(2) unat_u64_less [of "mm_size (mCore c0)"] by (intro unat_add_no_wrap) simp
  have ori: "mOriAddr (make_load p c0) = ?base + ph_offset p"
    using p False so
    by (simp add: make_load_def setOriAddr_def isValidBlock_def new_LoadBlock_def Let_def word_less_nat_alt unat_eq_zero)
  have "unat (?base + ph_offset p) = unat ?base + unat (ph_offset p)"
    using assms(2) p(2) by (intro unat_add_no_wrap) simp
  then have nz: "?base + ph_offset p \<noteq> 0" using assms(1) by (auto simp: unat_eq_zero)
  have new: "backed_size (make_load p c0) = unat (saved_size ELF64 b)"
    "LoadBlock_begin OPT_READ_ALL (make_load p c0) = ?base + ph_offset p"
    using nz p(1) by (simp_all add: backed_size_def LoadBlock_begin_def ori)
  show ?thesis
  proof (cases "k < unat (saved_size ELF64 b)")
    case True
    then have "h (LoadBlock_begin OPT_READ_ALL b + of_nat k) = Some (d ! k)"
      "mem c0 (?base + ph_offset p + of_nat k) = Some (d ! k)"
      using host_read_nth [OF d(1)] d(2) len by (auto simp: stored_at_def)
    then show ?thesis using True sc by (simp add: block_byte_def new)
  next
    case False
    then show ?thesis by (simp add: block_byte_def new)
  qed
qed

text \<open>A core whose segments correspond in order and keep the file parts shows the saved memory.\<close>

lemma same_memory:
  assumes "loads_ok True c" "loads_ok True c1" "vabits_mask c1 = vabits_mask c"
    and len: "mLoad c1 = [0..<length (mLoad c)]" and quick: "set (mQuickLoad c) \<subseteq> set (mLoad c)" "set (mQuickLoad c1) \<subseteq> set (mLoad c1)"
    and seg: "\<And>i. i < length (mLoad c) \<Longrightarrow>
      mVaddr (blk c1 i) = mVaddr (blk c (mLoad c ! i)) \<and> mMemSize (blk c1 i) = mMemSize (blk c (mLoad c ! i)) \<and>
      (i \<in> set (mQuickLoad c1) \<longleftrightarrow> mLoad c ! i \<in> set (mQuickLoad c)) \<and>
      (\<forall>k. block_byte (mem c1) (blk c1 i) k =
         (if k < unat (saved_size ELF64 (blk c (mLoad c ! i))) then block_byte (mem c) (blk c (mLoad c ! i)) k else 0))"
  shows "core_byte c1 = saved_byte c"
proof
  fix a
  note find = findLoadBlock_iff [OF assms(1), of a] findLoadBlock_iff [OF assms(2), of a]
  show "core_byte c1 a = saved_byte c a"
  proof (cases "findLoadBlock a True c1")
    case None
    have "findLoadBlock a True c = None"
    proof (rule ccontr)
      assume "findLoadBlock a True c \<noteq> None"
      then obtain j where j: "findLoadBlock a True c = Some j" by blast
      then have "j \<in> set (mQuickLoad c)" by (simp add: find getLoads_def)
      then obtain i where i: "i < length (mLoad c)" "j = mLoad c ! i"
        using quick(1) by (metis in_set_conv_nth subsetD)
      then have "findLoadBlock a True c1 = Some i"
        using j seg [OF i(1)] by (simp add: find getLoads_def block_has_def assms(3))
      with None show False by simp
    qed
    with None show ?thesis by (simp add: core_byte_def saved_byte_def)
  next
    case (Some i)
    then have "i \<in> set (mQuickLoad c1)" by (simp add: find getLoads_def)
    then have i: "i < length (mLoad c)" using quick(2) len by auto
    then have "findLoadBlock a True c = Some (mLoad c ! i)"
      using Some seg [OF i] by (simp add: find getLoads_def block_has_def assms(3))
    with Some seg [OF i] show ?thesis by (simp add: core_byte_def saved_byte_def assms(3) word_less_nat_alt)
  qed
qed

lemma saved_byte_complete:
  assumes "loads_ok True c" "set (mQuickLoad c) \<subseteq> set (mLoad c)" "\<forall>i\<in>set (mLoad c). saved_completely (blk c i)"
  shows "saved_byte c = core_byte c"
proof
  fix a
  show "saved_byte c a = core_byte c a"
  proof (cases "findLoadBlock a True c")
    case (Some i)
    then have "i \<in> set (mLoad c)" using assms(1,2) by (auto simp: findLoadBlock_iff getLoads_def)
    with Some assms(3) show ?thesis
      by (auto simp: saved_byte_def core_byte_def block_byte_def saved_completely_def word_less_nat_alt)
  qed (simp add: saved_byte_def core_byte_def)
qed

section \<open>Saving and loading\<close>

text \<open>The core the loader starts from: the file mapped at \<open>base\<close>.\<close>

definition opened :: "machine \<Rightarrow> u64 \<Rightarrow> u8 list \<Rightarrow> bool \<Rightarrow> u64 \<Rightarrow> host \<Rightarrow> core" where
  "opened m base file quick va h =
     new_core m \<lparr>mm_name = [], mm_begin = base, mm_size = of_nat (length file), mm_offset = 0,
       mm_max = of_nat (length file)\<rparr> quick va (host_map h base file)"

definition opened64 :: "machine \<Rightarrow> u64 \<Rightarrow> u8 list \<Rightarrow> bool \<Rightarrow> u64 \<Rightarrow> host \<Rightarrow> u64 \<Rightarrow> core" where
  "opened64 m base file q va h v =
     (opened m base file q va h)\<lparr>pointer_mask := GENMASK_UL 63 0, vabits_mask := v\<rparr>"

lemma opened64_simps:
  "mem (opened64 m base file q va h v) = host_map h base file" "mm_begin (mCore (opened64 m base file q va h v)) = base"
  "blocks (opened64 m base file q va h v) = []" "mLoad (opened64 m base file q va h v) = []"
  "mQuickLoad (opened64 m base file q va h v) = []" "QUICK_LOAD_ENABLED (opened64 m base file q va h v) = q"
  "vabits_mask (opened64 m base file q va h v) = v"
  "mm_size (mCore (opened64 m base file q va h v)) = of_nat (length file)"
  by (simp_all add: opened64_def opened_def new_core_def)

text \<open>Loading the saved file adds one segment per segment, backed by the saved bytes.\<close>

lemma saved_file_loaded:
  fixes c :: core
  defines "bs \<equiv> map (blk c) (mLoad c)"
  assumes m: "class_of m = ELF64" and n: "length (mLoad c) + length (mNote c) < 2 ^ 31"
    and fl: "lp64_execute c = Inr file" "base \<noteq> 0" "unat base + length file < 2 ^ 64"
    and ld: "machine_load m (opened m base file q va h) = Inr (r, c1)"
  obtains off where "r" "loaded (opened64 m base file q va h (vabits_mask c1)) (load_headers ELF64 off bs) c1"
    "\<And>i. i < length bs \<Longrightarrow>
       unat (ph_offset (load_headers ELF64 off bs ! i)) + unat (saved_size ELF64 (bs ! i)) \<le> length file \<and>
       (saved_size ELF64 (bs ! i) \<noteq> 0 \<longrightarrow>
         (\<exists>data. host_read (mem c) (LoadBlock_begin OPT_READ_ALL (bs ! i)) (unat (saved_size ELF64 (bs ! i))) = Inr data \<and>
           stored_at (host_map h base file) (base + ph_offset (load_headers ELF64 off bs ! i)) data))"
proof -
  define c0 where "c0 = opened64 m base file q va h (vabits_mask c1)"
  note c0 = opened64_simps [of m base "file" q va h "vabits_mask c1", folded c0_def]
  have st: "stored_at (mem c0) base file" using fl(3) by (simp add: c0 stored_at_def host_map_at)
  obtain ehdr body cur tail where f: "save_body ELF64 c = Inr (body, cur)" "file = ehdr @ body @ tail"
      "tells ehdr (length (mLoad c) + length (mNote c)) (unat cur) tail"
    by (rule lp64_execute_file [OF fl(1) refl n])
  have el: "length ehdr = 64" using f(3) by (simp add: tells_def)
  have body: "stored_at (mem c0) (base + 64) body" "64 + length body \<le> length file"
    using st el by (simp_all add: f(2) stored_at_append)
  then have lim: "64 + length body < 2 ^ 64" using fl(3) by simp
  have nb: "length (map (blk c) (mLoad c)) + length (mNote c) < 2 ^ 31" using n by simp
  obtain nps off where lay: "phdrs_at ELF64 (mem c0) (base + 64)
        (map (Pair PT_NOTE) nps @ map (Pair PT_LOAD) (load_headers ELF64 off bs))"
      "length nps = length (mNote c)" "unat cur = 64 + length body"
      "\<And>i. i < length bs \<Longrightarrow>
       unat (ph_offset (load_headers ELF64 off bs ! i)) + unat (saved_size ELF64 (bs ! i)) \<le> 64 + length body \<and>
       (saved_size ELF64 (bs ! i) \<noteq> 0 \<longrightarrow>
         (\<exists>data. host_read (mem c) (LoadBlock_begin OPT_READ_ALL (bs ! i)) (unat (saved_size ELF64 (bs ! i))) = Inr data \<and>
           stored_at (mem c0) (base + ph_offset (load_headers ELF64 off bs ! i)) data))"
    using save_body_stored [OF f(1) body(1) lim nb] unfolding bs_def by blast
  let ?ps = "map (Pair PT_NOTE) nps @ map (Pair PT_LOAD) (load_headers ELF64 off bs)"
  have "actual_phnum ELF64 c0 = Inr (Some (int (length (mLoad c) + length (mNote c))))"
    using tells_phnum [OF f(3) _ n lay(3)] st lim lay(3) f(2) by (simp add: c0)
  then have phnum: "actual_phnum ELF64 c0 = Inr (Some (int (length ?ps)))" by (simp add: lay(2) bs_def add.commute)
  let ?o = "opened m base file q va h"
  have o: "blocks ?o = []" "mLoad ?o = []" "mQuickLoad ?o = []" "mem ?o = mem c0" "mCore ?o = mCore c0" "mm_begin (mCore ?o) = base"
    by (simp_all add: c0_def opened64_def opened_def new_core_def)
  have "actual_phnum (class_of m) ?o = actual_phnum ELF64 c0"
    by (simp add: actual_phnum_def m o Let_def cong: if_cong)
  with phnum have pn: "actual_phnum (class_of m) ?o = Inr (Some (int (length ?ps)))" by simp
  have at: "phdrs_at (class_of m) (mem ?o) (mm_begin (mCore ?o) + sizeof_Ehdr (class_of m)) ?ps"
    unfolding o(4,6) m using lay(1) by simp
  have nf: "notes_first ?ps"
    unfolding notes_first_def
    by (intro exI [of _ "map (Pair PT_NOTE) nps"] exI [of _ "map (Pair PT_LOAD) (load_headers ELF64 off bs)"])
      (auto simp: PT_NOTE_def PT_LOAD_def)
  have "bits m = 64" using m by (cases m) simp_all
  then have c0_eq: "?o\<lparr>pointer_mask := GENMASK_UL (bits m - 1) 0, vabits_mask := vabits_mask c1\<rparr> = c0"
    by (simp add: c0_def opened64_def)
  have "r \<and> loaded c0 (load_phdrs ?ps) c1"
    using machine_load_loaded [OF o(1-3) pn at nf ld] unfolding c0_eq .
  moreover have "load_phdrs ?ps = load_headers ELF64 off bs"
    by (simp add: load_phdrs_def comp_def filter_map PT_NOTE_def PT_LOAD_def)
  ultimately have "r" "loaded c0 (load_headers ELF64 off bs) c1" by simp_all
  then show thesis
  proof (rule that [of off, folded c0_def])
    fix i assume "i < length bs"
    from lay(4) [OF this] show "unat (ph_offset (load_headers ELF64 off bs ! i)) + unat (saved_size ELF64 (bs ! i)) \<le> length file \<and>
       (saved_size ELF64 (bs ! i) \<noteq> 0 \<longrightarrow>
         (\<exists>data. host_read (mem c) (LoadBlock_begin OPT_READ_ALL (bs ! i)) (unat (saved_size ELF64 (bs ! i))) = Inr data \<and>
           stored_at (host_map h base file) (base + ph_offset (load_headers ELF64 off bs ! i)) data))"
      unfolding c0(1) using body(2) order_trans by blast
  qed
qed

text \<open>C5: what of the target memory survives when a core is saved and loaded again. For an arm64,
  x86_64 or riscv64 core that satisfies the invariant, whose quick segments are those with access
  flags and whose backings hold at least the part of each segment that is written, mapping the
  file that \<open>execute\<close> writes and loading it gives (unless one of the copied notes makes the
  loader fault, and if the notes leave the same address mask) a core that satisfies the invariant
  again, whose memory is that of the old core on the saved part of each segment, whichever of core
  file, file mapping and overlay backed it, and which stores nothing past it. So when every segment
  is saved completely, which fails only for an overlaid or mapped segment whose file part is
  shorter than its memory, every address reads the same byte. The numbers of headers above
  \<open>PN_XNUM\<close>, which take the extra section header, are included.\<close>

theorem save_load_roundtrip:
  assumes m: "class_of m = ELF64" and ok: "core_ok c" "vabits_mask c1 = vabits_mask c"
    and sc: "\<forall>i\<in>set (mLoad c). unat (saved_size ELF64 (blk c i)) \<le> backed_size (blk c i)"
    and quick: "\<forall>i\<in>set (mLoad c). i \<in> set (mQuickLoad c) \<longleftrightarrow> \<not> q \<or> mFlags (blk c i) \<noteq> 0"
    and n: "length (mLoad c) + length (mNote c) < 2 ^ 31"
    and fl: "lp64_execute c = Inr file" "base \<noteq> 0" "unat base + length file < 2 ^ 64"
    and ld: "machine_load m (opened m base file q va h) = Inr (r, c1)"
  shows "r \<and> core_ok c1 \<and> core_byte c1 = saved_byte c \<and>
    ((\<forall>i\<in>set (mLoad c). saved_completely (blk c i)) \<longrightarrow> core_byte c1 = core_byte c)"
proof -
  define bs where "bs = map (blk c) (mLoad c)"
  define c0 where "c0 = opened64 m base file q va h (vabits_mask c1)"
  note c0 = opened64_simps [of m base "file" q va h "vabits_mask c1", folded c0_def]
  obtain off where r: "r" and l: "loaded c0 (load_headers ELF64 off bs) c1"
    and seg: "\<And>i. i < length bs \<Longrightarrow>
       unat (ph_offset (load_headers ELF64 off bs ! i)) + unat (saved_size ELF64 (bs ! i)) \<le> length file \<and>
       (saved_size ELF64 (bs ! i) \<noteq> 0 \<longrightarrow>
         (\<exists>data. host_read (mem c) (LoadBlock_begin OPT_READ_ALL (bs ! i)) (unat (saved_size ELF64 (bs ! i))) = Inr data \<and>
           stored_at (host_map h base file) (base + ph_offset (load_headers ELF64 off bs ! i)) data))"
    using saved_file_loaded [OF m n fl ld] unfolding bs_def c0_def by metis
  define lps where "lps = load_headers ELF64 off bs"
  have len: "length lps = length (mLoad c)" by (simp add: lps_def bs_def)
  note hd = load_headers_nth [of _ bs off, folded lps_def]
  have bk: "block_ok (mem c) (bs ! i)" if "i < length bs" for i
    using ok(1) that by (simp add: bs_def core_ok_def)
  have file_ok: "core_file_ok c0"
    using fl by (simp add: core_file_ok_def c0 mapped_def host_map_at unat_of_nat take_bit_nat_eq_self)
  have sz: "unat (mm_size (mCore c0)) = length file"
    using fl(3) by (simp add: c0 unat_of_nat take_bit_nat_eq_self)
  obtain w where w: "w \<le> 64" "vabits_mask c = mask w"
    "\<And>i. i \<in> set (mLoad c) \<Longrightarrow> unat (mVaddr (blk c i)) + unat (mMemSize (blk c i)) \<le> 2 ^ w"
    using ok(1) by (auto simp: core_ok_def mask_ok_def)
  have "phdr_ok w p" if "p \<in> set lps" for p
  proof -
    obtain i where i: "i < length bs" "p = lps ! i" using \<open>p \<in> set lps\<close> by (auto simp: in_set_conv_nth lps_def)
    then show ?thesis
      using bk [OF i(1)] seg [OF i(1)] saved_size_le [OF bk [OF i(1)]] fl(3) hd [OF i(1)] w(3) [of "mLoad c ! i"]
      by (simp add: phdr_ok_def block_ok_def lps_def bs_def)
  qed
  moreover have "sorted_wrt phdr_below lps"
    using ok(1) by (simp add: sorted_wrt_iff_nth_less phdr_below_def len hd bs_def core_ok_def loads_ok_def
        sorted_loads_def getLoads_def below_def)
  ultimately have cok: "core_ok c1"
    using loaded_core_ok [OF l [folded c0_def] file_ok w(1)] w(2) ok(2) by (simp add: c0 lps_def)
  have l1: "mLoad c1 = [0..<length (mLoad c)]" "mem c1 = mem c0"
    "mQuickLoad c1 = filter (\<lambda>i. is_quick c0 (lps ! i)) [0..<length (mLoad c)]"
    using l by (simp_all add: loaded_def c0 bs_def lps_def)
  have blk1: "blk c1 i = make_load (lps ! i) c0" if "i < length bs" for i
    using l that by (simp add: loaded_def lps_def)
  have "core_byte c1 = saved_byte c"
  proof (rule same_memory)
    show "loads_ok True c" "loads_ok True c1" "set (mQuickLoad c) \<subseteq> set (mLoad c)" "set (mQuickLoad c1) \<subseteq> set (mLoad c1)"
      using ok(1) cok by (simp_all add: core_ok_def)
    show "vabits_mask c1 = vabits_mask c" "mLoad c1 = [0..<length (mLoad c)]" using ok(2) l1 by simp_all
    fix i assume i: "i < length (mLoad c)"
    then have i': "i < length bs" and b: "bs ! i = blk c (mLoad c ! i)" by (simp_all add: bs_def)
    have "block_byte (mem c0) (make_load (lps ! i) c0) k =
        (if k < unat (saved_size ELF64 (bs ! i)) then block_byte (mem c) (bs ! i) k else 0)" for k
      using fl seg [OF i'] sc hd [OF i'] i b
      by (intro saved_block_byte) (simp_all add: c0(1,2) sz lps_def)
    moreover have "i \<in> set (mQuickLoad c1) \<longleftrightarrow> mLoad c ! i \<in> set (mQuickLoad c)"
      using quick i hd(3) [OF i'] b by (simp add: l1(3) is_quick_def c0(6) flags_back)
    ultimately show "mVaddr (blk c1 i) = mVaddr (blk c (mLoad c ! i)) \<and> mMemSize (blk c1 i) = mMemSize (blk c (mLoad c ! i)) \<and>
      (i \<in> set (mQuickLoad c1) \<longleftrightarrow> mLoad c ! i \<in> set (mQuickLoad c)) \<and>
      (\<forall>k. block_byte (mem c1) (blk c1 i) k =
         (if k < unat (saved_size ELF64 (blk c (mLoad c ! i))) then block_byte (mem c) (blk c (mLoad c ! i)) k else 0))"
      using hd [OF i'] b by (simp add: blk1 [OF i'] l1(2))
  qed
  moreover have "loads_ok True c" "set (mQuickLoad c) \<subseteq> set (mLoad c)" using ok(1) by (simp_all add: core_ok_def)
  ultimately show ?thesis using r cok saved_byte_complete by simp
qed

text \<open>A core with one segment of 64 bytes, the start of its own file.\<close>

definition demo_bytes :: "u8 list" where
  "demo_bytes = [0x7f, 0x45, 0x4c, 0x46, 2, 1, 1] @ replicate 57 0"

definition demo_segment :: load_block where
  "demo_segment = (new_LoadBlock 6 0 0x1000 0 64 64 0x1000)\<lparr>mOriAddr := 0x10000, mVabitsMask := -1\<rparr>"

definition demo_running :: core where
  "demo_running = (new_core EM_X86_64 \<lparr>mm_name = [], mm_begin = 0x10000, mm_size = 64, mm_offset = 0, mm_max = 64\<rparr>
       True 0 (host_map (\<lambda>_. None) 0x10000 demo_bytes))
     \<lparr>blocks := [demo_segment], mLoad := [0], mQuickLoad := [0]\<rparr>"

definition demo_saved :: "u8 list" where
  "demo_saved = (case lp64_execute demo_running of Inl x \<Rightarrow> [] | Inr file \<Rightarrow> file)"

lemma demo_running_ok: "core_ok demo_running"
proof -
  have "length demo_bytes = 64" by (simp add: demo_bytes_def)
  then have "mapped (host_map (\<lambda>_. None) 0x10000 demo_bytes) 0x10000 64"
    by (simp add: mapped_def host_map_at)
  moreover have "mask_ok demo_running"
    unfolding mask_ok_def
    by (rule exI [of _ 64]) (simp add: demo_running_def demo_segment_def new_core_def new_LoadBlock_def mask_eq_exp_minus_1)
  ultimately show ?thesis
    by (auto simp: core_ok_def loads_ok_def getLoads_def block_ok_def isValidBlock_def separate_def sorted_loads_def
        no_wrap_def demo_running_def demo_segment_def new_core_def new_LoadBlock_def)
qed

lemma demo_save: "lp64_execute demo_running = Inr demo_saved" "length demo_saved = 184"
  by code_simp+

lemma demo_reload:
  "\<exists>r c1. machine_load EM_X86_64 (opened EM_X86_64 0x20000 demo_saved True 0 (\<lambda>_. None)) = Inr (r, c1) \<and>
     vabits_mask c1 = -1"
proof -
  have "case machine_load EM_X86_64 (opened EM_X86_64 0x20000 demo_saved True 0 (\<lambda>_. None)) of
      Inl x \<Rightarrow> False | Inr (r, c1) \<Rightarrow> vabits_mask c1 = -1"
    by code_simp
  then show ?thesis by (auto split: sum.splits)
qed

theorem save_load_roundtrip_witness:
  "\<exists>c1. machine_load EM_X86_64 (opened EM_X86_64 0x20000 demo_saved True 0 (\<lambda>_. None)) = Inr (True, c1) \<and>
     core_ok c1 \<and> core_byte c1 = saved_byte demo_running \<and> core_byte c1 = core_byte demo_running"
proof -
  obtain r c1 where l: "machine_load EM_X86_64 (opened EM_X86_64 0x20000 demo_saved True 0 (\<lambda>_. None)) = Inr (r, c1)"
      "vabits_mask c1 = -1"
    using demo_reload by blast
  have sc: "\<forall>i\<in>set (mLoad demo_running). saved_completely (blk demo_running i)"
    by (simp add: demo_running_def demo_segment_def new_core_def new_LoadBlock_def saved_completely_def
        saved_size_def backed_size_def isValid_def isValidBlock_def)
  have "r \<and> core_ok c1 \<and> core_byte c1 = saved_byte demo_running \<and>
    ((\<forall>i\<in>set (mLoad demo_running). saved_completely (blk demo_running i)) \<longrightarrow> core_byte c1 = core_byte demo_running)"
  proof (rule save_load_roundtrip [OF _ demo_running_ok _ _ _ _ demo_save(1) _ _ l(1)])
    show "vabits_mask c1 = vabits_mask demo_running" using l(2) by (simp add: demo_running_def new_core_def)
    show "\<forall>i\<in>set (mLoad demo_running).
        unat (saved_size ELF64 (blk demo_running i)) \<le> backed_size (blk demo_running i)"
      using sc by (simp add: saved_completely_def)
    show "\<forall>i\<in>set (mLoad demo_running). i \<in> set (mQuickLoad demo_running) \<longleftrightarrow> \<not> True \<or> mFlags (blk demo_running i) \<noteq> 0"
      by (simp add: demo_running_def demo_segment_def new_core_def new_LoadBlock_def)
  qed (simp_all add: demo_running_def new_core_def demo_save(2))
  with l sc show ?thesis by auto
qed

end
