(* ===== verification/FakeBuild.thy ===== *)
theory FakeBuild
  imports SaveCore
begin

unbundle bit_operations_syntax

text \<open>
  Building a core file from the description of a crash (the command \<open>fake core --tomb\<close>):
  parser/command/fake/core/fake_core.h, fake_core.cpp, lp64/fake_core.cpp, lp32/fake_core.cpp and
  the \<open>CreateCorePrStatus\<close> and \<open>WriteCore...\<close> functions of the architectures. The image is
  built in a fresh mapping of zeroes. As in the loaders, a definition takes the ELF class where
  the 64-bit and the 32-bit text differ in structures only.
\<close>

section \<open>Input\<close>

text \<open>\<open>Opencore::VirtualMemoryArea\<close>; the member \<open>flags\<close> is an array of four characters.\<close>

record vma =
  vma_begin :: u64
  vma_end :: u64
  vma_flags :: "char \<times> char \<times> char \<times> char"
  vma_offset :: u32
  vma_major :: u32
  vma_minor :: u32
  vma_inode :: u64
  vma_load_bias :: u32
  vma_file :: string
  vma_buildid :: string

text \<open>
  What \<open>FakeCore::Stream\<close> answers. \<open>Libs\<close> is a set of strings, listed in its order, and \<open>Memorys\<close> a
  map from addresses to words, listed by address; \<open>Regs\<close> is the structure \<open>pt_regs\<close>.
\<close>

record crash_stream =
  st_Parse :: bool
  st_Tid :: u32
  st_Executable :: string
  st_Libs :: "string list"
  st_Memorys :: "(u64 \<times> u64) list"
  st_Maps :: "vma list"
  st_Regs :: "u8 list"
  st_TaggedAddr :: u64
  st_PacEnabledKeys :: u64

section \<open>Structures of the file\<close>

text \<open>\<open>Elf64_Ehdr\<close> and \<open>Elf32_Ehdr\<close>, and the fields of the section header that are set.\<close>

record elf_ehdr =
  e_ident :: "u8 list"
  e_type :: u64
  e_machine :: u64
  e_version :: u64
  e_entry :: u64
  e_phoff :: u64
  e_shoff :: u64
  e_flags :: u64
  e_ehsize :: u64
  e_phentsize :: u64
  e_phnum :: u64
  e_shentsize :: u64
  e_shnum :: u64
  e_shstrndx :: u64

definition ehdr_zero :: elf_ehdr where
  "ehdr_zero = \<lparr>e_ident = replicate 16 0, e_type = 0, e_machine = 0, e_version = 0, e_entry = 0, e_phoff = 0,
     e_shoff = 0, e_flags = 0, e_ehsize = 0, e_phentsize = 0, e_phnum = 0, e_shentsize = 0, e_shnum = 0,
     e_shstrndx = 0\<rparr>"

definition ehdr_bytes :: "elf_class \<Rightarrow> elf_ehdr \<Rightarrow> u8 list" where
  "ehdr_bytes cls e =
     (let p = ptr_size cls in
      e_ident e @ le_bytes 2 (unat (e_type e)) @ le_bytes 2 (unat (e_machine e)) @ le_bytes 4 (unat (e_version e)) @
      le_bytes p (unat (e_entry e)) @ le_bytes p (unat (e_phoff e)) @ le_bytes p (unat (e_shoff e)) @
      le_bytes 4 (unat (e_flags e)) @ le_bytes 2 (unat (e_ehsize e)) @ le_bytes 2 (unat (e_phentsize e)) @
      le_bytes 2 (unat (e_phnum e)) @ le_bytes 2 (unat (e_shentsize e)) @ le_bytes 2 (unat (e_shnum e)) @
      le_bytes 2 (unat (e_shstrndx e)))"

record null_shdr =
  nsh_type :: u64
  nsh_info :: u64
  nsh_size :: u64
  nsh_link :: u64

fun shdr_bytes :: "elf_class \<Rightarrow> null_shdr \<Rightarrow> u8 list" where
  "shdr_bytes ELF64 s = replicate 4 0 @ le_bytes 4 (unat (nsh_type s)) @ replicate 24 0 @
     le_bytes 8 (unat (nsh_size s)) @ le_bytes 4 (unat (nsh_link s)) @ le_bytes 4 (unat (nsh_info s)) @ replicate 16 0"
| "shdr_bytes ELF32 s = replicate 4 0 @ le_bytes 4 (unat (nsh_type s)) @ replicate 12 0 @
     le_bytes 4 (unat (nsh_size s)) @ le_bytes 4 (unat (nsh_link s)) @ le_bytes 4 (unat (nsh_info s)) @ replicate 8 0"

text \<open>\<open>RoundUp(x, align_size)\<close> at the width of the header fields.\<close>

fun align_up :: "elf_class \<Rightarrow> u64 \<Rightarrow> u32 \<Rightarrow> u64" where
  "align_up ELF64 x a = RoundUp x (ucast a)"
| "align_up ELF32 x a = ucast (RoundUp (ucast x :: u32) a)"

section \<open>State\<close>

text \<open>
  The members of \<open>::FakeCore\<close>, of \<open>lp64::FakeCore\<close> (\<open>lp32::FakeCore\<close>) and of the classes of the
  architectures that the builder changes. \<open>fileslen\<close> and \<open>extra_note_filesz\<close> are of type \<open>int\<close>.
\<close>

record fake_core =
  fc_ehdr :: elf_ehdr
  fc_shdr :: null_shdr
  fc_phdr :: "elf_phdr list"
  fc_note :: elf_phdr
  fc_auxv :: "(u64 \<times> u64) list"
  fc_auxvnum :: nat
  fc_file :: "(u64 \<times> u64 \<times> u64) list"
  fc_fileslen :: u32
  fc_use_auxv_num :: nat
  current_offset :: u64
  extra_note_filesz :: u32
  align_size :: u32
  fc_page_size :: u32
  va_bits :: u32
  fake_mask :: u32
  prstatus :: "u8 list list"
  has_pac :: bool
  has_taggle_addr :: bool

definition phdr_zero :: elf_phdr where
  "phdr_zero = \<lparr>ph_flags = 0, ph_offset = 0, ph_vaddr = 0, ph_paddr = 0, ph_filesz = 0, ph_memsz = 0, ph_align = 0\<rparr>"

definition shdr_zero :: null_shdr where
  "shdr_zero = \<lparr>nsh_type = 0, nsh_info = 0, nsh_size = 0, nsh_link = 0\<rparr>"

text \<open>The constructor; the headers are indeterminate until \<open>Prepare\<close>, the values here are never read.\<close>

definition new_FakeCore :: fake_core where
  "new_FakeCore = \<lparr>fc_ehdr = ehdr_zero, fc_shdr = shdr_zero, fc_phdr = [], fc_note = phdr_zero, fc_auxv = [],
     fc_auxvnum = 0, fc_file = [], fc_fileslen = 0, fc_use_auxv_num = 0, current_offset = 0, extra_note_filesz = 0,
     align_size = ucast ELF_PAGE_SIZE, fc_page_size = ucast ELF_PAGE_SIZE, va_bits = 0, fake_mask = 0,
     prstatus = [], has_pac = False, has_taggle_addr = False\<rparr>"

definition InitVaBits :: "u32 \<Rightarrow> fake_core \<Rightarrow> fake_core" where
  "InitVaBits va f = (if va \<noteq> 0 then f\<lparr>va_bits := va\<rparr> else f)"

definition InitPageSize :: "u64 \<Rightarrow> fake_core \<Rightarrow> fake_core" where
  "InitPageSize sz f = (if IS_ALIGNED sz ELF_PAGE_SIZE then f\<lparr>fc_page_size := ucast sz\<rparr> else f)"

definition InitMask :: "u32 \<Rightarrow> fake_core \<Rightarrow> fake_core" where
  "InitMask m f = f\<lparr>fake_mask := m\<rparr>"

definition NO_FAKE_PHDR :: u32 where "NO_FAKE_PHDR = push_bit 0 1"
definition NO_FAKE_REBUILD :: u32 where "NO_FAKE_REBUILD = push_bit 1 1"
definition RESOLVE_APK :: u32 where "RESOLVE_APK = push_bit 2 1"

definition NoFakeRebuild :: "fake_core \<Rightarrow> bool" where "NoFakeRebuild f \<longleftrightarrow> fake_mask f AND NO_FAKE_REBUILD \<noteq> 0"
definition NeedRebuild :: "fake_core \<Rightarrow> bool" where "NeedRebuild f \<longleftrightarrow> \<not> NoFakeRebuild f"
definition NoFakePhdr :: "fake_core \<Rightarrow> bool" where "NoFakePhdr f \<longleftrightarrow> fake_mask f AND NO_FAKE_PHDR \<noteq> 0"
definition NeedResolveApk :: "fake_core \<Rightarrow> bool" where "NeedResolveApk f \<longleftrightarrow> fake_mask f AND RESOLVE_APK \<noteq> 0"

definition DEF_FAKE_AUXV_NUM :: nat where "DEF_FAKE_AUXV_NUM = 32"
definition DEF_FAKE_PHNUM :: u64 where "DEF_FAKE_PHNUM = 2"

section \<open>Headers\<close>

definition FakeCore_Prepare :: "fake_core \<Rightarrow> fake_core" where
  "FakeCore_Prepare f = f\<lparr>fc_ehdr := ehdr_zero, fc_shdr := shdr_zero, fc_note := phdr_zero\<rparr>"

definition ParserPhdr :: "elf_class \<Rightarrow> vma \<Rightarrow> fake_core \<Rightarrow> fake_core" where
  "ParserPhdr cls v f =
     (let (r, w, x, _) = vma_flags v;
          fr = (if r = CHR ''r'' \<or> r = CHR ''R'' then 4 else 0);
          fw = (if w = CHR ''w'' \<or> w = CHR ''W'' then 2 else 0);
          fx = (if x = CHR ''x'' \<or> x = CHR ''X'' then 1 else 0)
      in f\<lparr>fc_phdr := fc_phdr f @
            [\<lparr>ph_flags = fr OR fw OR fx, ph_offset = 0, ph_vaddr = trunc cls (vma_begin v), ph_paddr = 0,
              ph_filesz = 0, ph_memsz = trunc cls (trunc cls (vma_end v) - trunc cls (vma_begin v)),
              ph_align = ucast (align_size f)\<rparr>]\<rparr>)"

definition ParserNtFile :: "elf_class \<Rightarrow> vma \<Rightarrow> fake_core \<Rightarrow> fake_core" where
  "ParserNtFile cls v f =
     f\<lparr>fc_file := fc_file f @
         [(trunc cls (vma_begin v), trunc cls (vma_end v), ucast (drop_bit 12 (vma_offset v)))],
       fc_fileslen := fc_fileslen f + of_nat (length (vma_file v) + 1)\<rparr>"

fun parse_vmas :: "elf_class \<Rightarrow> vma list \<Rightarrow> fake_core \<Rightarrow> fake_core" where
  "parse_vmas cls [] f = f"
| "parse_vmas cls (v # vs) f = parse_vmas cls vs (ParserNtFile cls v (ParserPhdr cls v f))"

definition ParseProcessMapsVma :: "elf_class \<Rightarrow> vma list \<Rightarrow> fake_core \<Rightarrow> fake_core" where
  "ParseProcessMapsVma cls maps f =
     (if maps = [] then f else parse_vmas cls maps (f\<lparr>fc_phdr := [], fc_file := []\<rparr>))"

fun elf_ident :: "elf_class \<Rightarrow> u8 list" where
  "elf_ident ELF64 = ELFMAG @ [2, 1, 1] @ replicate 9 0"
| "elf_ident ELF32 = ELFMAG @ [1, 1, 1] @ replicate 9 0"

definition CreateCoreHeader :: "elf_class \<Rightarrow> machine \<Rightarrow> fake_core \<Rightarrow> fake_core" where
  "CreateCoreHeader cls m f =
     (let e = (fc_ehdr f)\<lparr>e_ident := elf_ident cls, e_type := ET_CORE, e_machine := ucast (getMachine m), e_version := 1,
                e_entry := 0, e_phoff := sizeof_Ehdr cls, e_shoff := 0, e_flags := 0, e_ehsize := sizeof_Ehdr cls,
                e_phentsize := sizeof_Phdr cls\<rparr>;
          n = of_nat (length (fc_phdr f)) + 1 :: u32
      in if ucast n \<ge> PN_XNUM then
           f\<lparr>fc_ehdr := e\<lparr>e_phnum := PN_XNUM, e_shnum := 1, e_shentsize := sizeof_Shdr cls, e_shoff := 0\<rparr>,
             fc_shdr := (fc_shdr f)\<lparr>nsh_type := 0, nsh_info := ucast n, nsh_size := 0, nsh_link := 0\<rparr>\<rparr>
         else f\<lparr>fc_ehdr := e\<lparr>e_phnum := ucast n, e_shnum := 0, e_shoff := 0\<rparr>\<rparr>)"

definition HasSection :: "fake_core \<Rightarrow> bool" where
  "HasSection f \<longleftrightarrow> e_phnum (fc_ehdr f) = PN_XNUM"

definition ActualPhnum :: "fake_core \<Rightarrow> u32" where
  "ActualPhnum f = (if HasSection f then ucast (nsh_info (fc_shdr f)) else ucast (e_phnum (fc_ehdr f)))"

definition CreateCoreNoteHeader :: "elf_class \<Rightarrow> fake_core \<Rightarrow> fake_core" where
  "CreateCoreNoteHeader cls f =
     f\<lparr>fc_note := (fc_note f)\<lparr>ph_offset := trunc cls (sizeof_Ehdr cls + ucast (ActualPhnum f) * sizeof_Phdr cls)\<rparr>\<rparr>"

text \<open>\<open>auxv[use_auxv_num++].init(type, value)\<close>\<close>

definition init_auxv :: "elf_class \<Rightarrow> u64 \<Rightarrow> u64 \<Rightarrow> fake_core \<Rightarrow> fake_core" where
  "init_auxv cls ty val f =
     f\<lparr>fc_auxv := (fc_auxv f)[fc_use_auxv_num f := (trunc cls ty, trunc cls val)], fc_use_auxv_num := fc_use_auxv_num f + 1\<rparr>"

definition CreateCoreAUXV :: "elf_class \<Rightarrow> fake_core \<Rightarrow> fake_core" where
  "CreateCoreAUXV cls f =
     (let f1 = f\<lparr>fc_auxvnum := DEF_FAKE_AUXV_NUM, fc_auxv := replicate DEF_FAKE_AUXV_NUM (0, 0)\<rparr>
      in init_auxv cls AT_PAGESZ (ucast (fc_page_size f1))
           (init_auxv cls AT_PHNUM DEF_FAKE_PHNUM
             (init_auxv cls AT_PHENT (sizeof_Phdr cls) (init_auxv cls AT_PHDR 0 f1))))"

definition sizeof_Nhdr :: u64 where "sizeof_Nhdr = 12"

text \<open>
  \<open>ClocNoteFileSize\<close>: the auxiliary vector, the notes of the architecture, the file list. An \<open>int\<close>
  that is added to an unsigned number is sign-extended.
\<close>

definition ClocNoteFileSize :: "elf_class \<Rightarrow> fake_core \<Rightarrow> fake_core" where
  "ClocNoteFileSize cls f =
     (let p = of_nat (ptr_size cls) :: u64;
          s1 = trunc cls (ph_filesz (fc_note f) + (2 * p * of_nat (fc_auxvnum f) + sizeof_Nhdr + 8));
          s2 = trunc cls (s1 + scast (extra_note_filesz f));
          s3 = trunc cls (s2 + (3 * p * of_nat (length (fc_phdr f)) + sizeof_Nhdr + 8 + 2 * p + scast (RoundUp (fc_fileslen f) 4)))
      in f\<lparr>fc_note := (fc_note f)\<lparr>ph_filesz := s3\<rparr>\<rparr>)"

definition note_end :: "elf_class \<Rightarrow> fake_core \<Rightarrow> u64" where
  "note_end cls f = align_up cls (ph_offset (fc_note f) + ph_filesz (fc_note f)) (align_size f)"

definition ClocSectionOffset :: "elf_class \<Rightarrow> fake_core \<Rightarrow> fake_core" where
  "ClocSectionOffset cls f =
     (if HasSection f then f\<lparr>fc_ehdr := (fc_ehdr f)\<lparr>e_shoff := note_end cls f\<rparr>\<rparr> else f)"

section \<open>Writing the image\<close>

text \<open>
  A sequence of \<open>memcpy(map->data() + off + tmp_off, chunk, size); tmp_off += size\<close>; it returns
  \<open>tmp_off\<close> and the host memory.
\<close>

fun put_chunks :: "memory_map \<Rightarrow> u64 \<Rightarrow> u64 \<Rightarrow> u8 list list \<Rightarrow> host \<Rightarrow> (u64 \<times> host) res" where
  "put_chunks mp off tmp [] h = Inr (tmp, h)"
| "put_chunks mp off tmp (bs # bss) h =
     res_bind (host_write h (mm_begin mp + off + tmp) bs) (\<lambda>h'.
       put_chunks mp off (tmp + of_nat (length bs)) bss h')"

definition WriteCoreHeader :: "elf_class \<Rightarrow> fake_core \<Rightarrow> memory_map \<Rightarrow> u64 \<Rightarrow> host \<Rightarrow> (u64 \<times> host) res" where
  "WriteCoreHeader cls f mp off = put_chunks mp off 0 [ehdr_bytes cls (fc_ehdr f)]"

definition WriteCoreNoteHeader :: "elf_class \<Rightarrow> fake_core \<Rightarrow> memory_map \<Rightarrow> u64 \<Rightarrow> host \<Rightarrow> (u64 \<times> host) res" where
  "WriteCoreNoteHeader cls f mp off = put_chunks mp off 0 [phdr_bytes cls PT_NOTE (fc_note f)]"

text \<open>The offsets of the loads follow one another from the end of the notes.\<close>

fun place_phdrs :: "elf_class \<Rightarrow> u64 \<Rightarrow> elf_phdr list \<Rightarrow> elf_phdr list" where
  "place_phdrs cls off [] = []"
| "place_phdrs cls off (p # ps) = p\<lparr>ph_offset := off\<rparr> # place_phdrs cls (trunc cls (off + ph_filesz p)) ps"

definition WriteCoreProgramHeaders ::
  "elf_class \<Rightarrow> fake_core \<Rightarrow> memory_map \<Rightarrow> u64 \<Rightarrow> host \<Rightarrow> (u64 \<times> host) res" where
  "WriteCoreProgramHeaders cls f mp off =
     put_chunks mp off 0 (map (phdr_bytes cls PT_LOAD) (place_phdrs cls (note_end cls f) (fc_phdr f)))"

definition nhdr_bytes :: "u64 \<Rightarrow> u64 \<Rightarrow> u64 \<Rightarrow> u8 list" where
  "nhdr_bytes namesz descsz ty = le_bytes 4 (unat namesz) @ le_bytes 4 (unat descsz) @ le_bytes 4 (unat ty)"

definition NOTE_CORE_NAME_SZ :: u64 where "NOTE_CORE_NAME_SZ = 5"
definition NOTE_LINUX_NAME_SZ :: u64 where "NOTE_LINUX_NAME_SZ = 6"

definition str_bytes :: "string \<Rightarrow> u8 list" where
  "str_bytes s = map (\<lambda>ch. of_nat (of_char ch)) s"

definition core_magic :: "u8 list" where "core_magic = str_bytes ''CORE'' @ replicate 4 0"
definition linux_magic :: "u8 list" where "linux_magic = str_bytes ''LINUX'' @ replicate 3 0"

definition auxv_bytes :: "elf_class \<Rightarrow> u64 \<times> u64 \<Rightarrow> u8 list" where
  "auxv_bytes cls = (\<lambda>(ty, val). le_bytes (ptr_size cls) (unat ty) @ le_bytes (ptr_size cls) (unat val))"

definition WriteCoreAUXV :: "elf_class \<Rightarrow> fake_core \<Rightarrow> memory_map \<Rightarrow> u64 \<Rightarrow> host \<Rightarrow> (u64 \<times> host) res" where
  "WriteCoreAUXV cls f mp off =
     put_chunks mp off 0
       (nhdr_bytes NOTE_CORE_NAME_SZ (2 * of_nat (ptr_size cls) * of_nat (fc_auxvnum f)) NT_AUXV # core_magic #
        map (auxv_bytes cls) (take (fc_auxvnum f) (fc_auxv f)))"

definition file_bytes :: "elf_class \<Rightarrow> u64 \<times> u64 \<times> u64 \<Rightarrow> u8 list" where
  "file_bytes cls = (\<lambda>(b, e, off). le_bytes (ptr_size cls) (unat b) @ le_bytes (ptr_size cls) (unat e) @
     le_bytes (ptr_size cls) (unat off))"

text \<open>
  The page size in the file note: the 64-bit version copies eight bytes from the 32-bit member
  \<open>page_size\<close>, so the member behind it, \<open>va_bits\<close>, becomes the upper half.
\<close>

fun page_size_bytes :: "elf_class \<Rightarrow> fake_core \<Rightarrow> u8 list" where
  "page_size_bytes ELF64 f = le_bytes 4 (unat (fc_page_size f)) @ le_bytes 4 (unat (va_bits f))"
| "page_size_bytes ELF32 f = le_bytes 4 (unat (fc_page_size f))"

definition WriteNtFile ::
  "elf_class \<Rightarrow> fake_core \<Rightarrow> vma list \<Rightarrow> memory_map \<Rightarrow> u64 \<Rightarrow> host \<Rightarrow> (u64 \<times> host) res" where
  "WriteNtFile cls f maps mp off =
     (let phnum = length (fc_phdr f); p = of_nat (ptr_size cls) :: u64;
          descsz = 3 * p * of_nat phnum + 2 * p + scast (RoundUp (fc_fileslen f) 4)
      in put_chunks mp off 0
           (nhdr_bytes NOTE_CORE_NAME_SZ (descsz AND 0xffffffff) NT_FILE # core_magic #
            le_bytes (ptr_size cls) phnum # page_size_bytes cls f # map (file_bytes cls) (fc_file f) @
            map (\<lambda>v. str_bytes (vma_file v) @ [0]) (take phnum maps)))"

definition WriteExtendSection :: "elf_class \<Rightarrow> fake_core \<Rightarrow> memory_map \<Rightarrow> u64 \<Rightarrow> host \<Rightarrow> (u64 \<times> host) res" where
  "WriteExtendSection cls f mp off h =
     (if \<not> HasSection f then Inr (0, h) else put_chunks mp off 0 [shdr_bytes cls (fc_shdr f)] h)"

section \<open>Thread status\<close>

text \<open>\<open>sizeof(Elf64_prstatus)\<close> and \<open>sizeof(Elf32_prstatus)\<close> of the architectures (core/common/prstatus.h).\<close>

fun sizeof_prstatus :: "machine \<Rightarrow> nat" where
  "sizeof_prstatus EM_AARCH64 = 392" | "sizeof_prstatus EM_RISCV = 376" | "sizeof_prstatus EM_X86_64 = 336"
| "sizeof_prstatus EM_ARM = 148" | "sizeof_prstatus EM_386 = 144"

definition prstatus_of :: "elf_class \<Rightarrow> machine \<Rightarrow> crash_stream \<Rightarrow> u8 list" where
  "prstatus_of cls m st =
     splice_at (unat (pr_reg cls)) (take (sizeof_Register m) (st_Regs st))
       (splice_at (unat (pr_pid cls)) (le_bytes 4 (unat (st_Tid st))) (replicate (sizeof_prstatus m) 0))"

definition CreateCorePrStatus :: "elf_class \<Rightarrow> machine \<Rightarrow> crash_stream \<Rightarrow> fake_core \<Rightarrow> fake_core" where
  "CreateCorePrStatus cls m st f =
     f\<lparr>prstatus := [prstatus_of cls m st],
       extra_note_filesz := extra_note_filesz f + of_nat (sizeof_prstatus m + 12 + 8)\<rparr>"

definition x86_64_CreateCorePrStatus :: "crash_stream \<Rightarrow> fake_core \<Rightarrow> fake_core" where
  "x86_64_CreateCorePrStatus = CreateCorePrStatus ELF64 EM_X86_64"
definition riscv64_CreateCorePrStatus :: "crash_stream \<Rightarrow> fake_core \<Rightarrow> fake_core" where
  "riscv64_CreateCorePrStatus = CreateCorePrStatus ELF64 EM_RISCV"
definition arm_CreateCorePrStatus :: "crash_stream \<Rightarrow> fake_core \<Rightarrow> fake_core" where
  "arm_CreateCorePrStatus = CreateCorePrStatus ELF32 EM_ARM"
definition x86_CreateCorePrStatus :: "crash_stream \<Rightarrow> fake_core \<Rightarrow> fake_core" where
  "x86_CreateCorePrStatus = CreateCorePrStatus ELF32 EM_386"

definition arm64_CreateCorePrStatus :: "crash_stream \<Rightarrow> fake_core \<Rightarrow> fake_core" where
  "arm64_CreateCorePrStatus st f =
     (let f1 = CreateCorePrStatus ELF64 EM_AARCH64 st f;
          f2 = (if has_pac f1 then f1\<lparr>extra_note_filesz := extra_note_filesz f1 + ((16 + 12 + 8) + (8 + 12 + 8))\<rparr> else f1)
      in if has_taggle_addr f2 then f2\<lparr>extra_note_filesz := extra_note_filesz f2 + (8 + 12 + 8)\<rparr> else f2)"

definition status_chunks :: "u8 list \<Rightarrow> u8 list list" where
  "status_chunks prs = [nhdr_bytes NOTE_CORE_NAME_SZ (of_nat (length prs)) NT_PRSTATUS, core_magic, prs]"

definition WriteCorePrStatus :: "fake_core \<Rightarrow> memory_map \<Rightarrow> u64 \<Rightarrow> host \<Rightarrow> (u64 \<times> host) res" where
  "WriteCorePrStatus f mp off = put_chunks mp off 0 (concat (map status_chunks (prstatus f)))"

definition x86_64_WriteCorePrStatus :: "fake_core \<Rightarrow> memory_map \<Rightarrow> u64 \<Rightarrow> host \<Rightarrow> (u64 \<times> host) res" where
  "x86_64_WriteCorePrStatus = WriteCorePrStatus"
definition riscv64_WriteCorePrStatus :: "fake_core \<Rightarrow> memory_map \<Rightarrow> u64 \<Rightarrow> host \<Rightarrow> (u64 \<times> host) res" where
  "riscv64_WriteCorePrStatus = WriteCorePrStatus"
definition arm_WriteCorePrStatus :: "fake_core \<Rightarrow> memory_map \<Rightarrow> u64 \<Rightarrow> host \<Rightarrow> (u64 \<times> host) res" where
  "arm_WriteCorePrStatus = WriteCorePrStatus"
definition x86_WriteCorePrStatus :: "fake_core \<Rightarrow> memory_map \<Rightarrow> u64 \<Rightarrow> host \<Rightarrow> (u64 \<times> host) res" where
  "x86_WriteCorePrStatus = WriteCorePrStatus"

text \<open>The pointer authentication notes, the tagged address note.\<close>

definition WriteCorePAC :: "crash_stream \<Rightarrow> fake_core \<Rightarrow> u8 list list" where
  "WriteCorePAC st f =
     (let mask = GENMASK_UL 54 (unat (if va_bits f \<noteq> 0 then ucast (va_bits f) else DEF_VA_BITS)) in
      [nhdr_bytes NOTE_LINUX_NAME_SZ 16 NT_ARM_PAC_MASK, linux_magic, le_bytes 8 (unat mask) @ le_bytes 8 (unat mask),
       nhdr_bytes NOTE_LINUX_NAME_SZ 8 NT_ARM_PAC_ENABLED_KEYS, linux_magic, le_bytes 8 (unat (st_PacEnabledKeys st))])"

definition WriteCoreTaggleAddr :: "crash_stream \<Rightarrow> u8 list list" where
  "WriteCoreTaggleAddr st =
     [nhdr_bytes NOTE_LINUX_NAME_SZ 8 NT_ARM_TAGGED_ADDR_CTRL, linux_magic, le_bytes 8 (unat (st_TaggedAddr st))]"

definition arm64_WriteCorePrStatus :: "crash_stream \<Rightarrow> fake_core \<Rightarrow> memory_map \<Rightarrow> u64 \<Rightarrow> host \<Rightarrow> (u64 \<times> host) res" where
  "arm64_WriteCorePrStatus st f mp off =
     put_chunks mp off 0 (concat (map (\<lambda>prs. status_chunks prs @ (if has_pac f then WriteCorePAC st f else []) @
       (if has_taggle_addr f then WriteCoreTaggleAddr st else [])) (prstatus f)))"

section \<open>The image\<close>

definition AT_HWCAP :: u64 where "AT_HWCAP = 16"
definition AT_HWCAP2 :: u64 where "AT_HWCAP2 = 26"

text \<open>The hardware capabilities and the guess of the address width of \<open>arm64::FakeCore::execute\<close>.\<close>

definition guess_va_bits :: "vma list \<Rightarrow> u32" where
  "guess_va_bits maps =
     (case find (\<lambda>n. vma_end (last maps) \<le> GENMASK_UL (n - 1) 0) [36, 39, 42, 47, 48, 52] of
        Some n \<Rightarrow> of_nat n | None \<Rightarrow> 0)"

definition arm64_caps :: "vma list \<Rightarrow> fake_core \<Rightarrow> fake_core" where
  "arm64_caps maps f =
     (if has_pac f \<or> has_taggle_addr f then
        (let f1 = init_auxv ELF64 AT_HWCAP2 0xFFFFFFFF (init_auxv ELF64 AT_HWCAP 0xFFFFFFFF f)
         in if va_bits f1 = 0 \<and> maps \<noteq> [] then f1\<lparr>va_bits := guess_va_bits maps\<rparr> else f1)
      else f)"

text \<open>The calls from \<open>Prepare\<close> to \<open>ClocSectionOffset\<close>.\<close>

fun build_headers :: "machine \<Rightarrow> crash_stream \<Rightarrow> vma list \<Rightarrow> fake_core \<Rightarrow> fake_core" where
  "build_headers EM_AARCH64 st maps f =
     (let f0 = f\<lparr>has_pac := st_PacEnabledKeys st \<noteq> - 1, has_taggle_addr := st_TaggedAddr st \<noteq> - 1\<rparr>;
          f1 = CreateCoreNoteHeader ELF64 (CreateCoreHeader ELF64 EM_AARCH64
                 (ParseProcessMapsVma ELF64 maps (FakeCore_Prepare f0)));
          f2 = arm64_caps maps (CreateCoreAUXV ELF64 (arm64_CreateCorePrStatus st f1))
      in ClocSectionOffset ELF64 (ClocNoteFileSize ELF64 f2))"
| "build_headers m st maps f =
     (let cls = class_of m;
          f1 = CreateCoreNoteHeader cls (CreateCoreHeader cls m
                 (ParseProcessMapsVma cls maps (FakeCore_Prepare f)))
      in ClocSectionOffset cls (ClocNoteFileSize cls (CreateCoreAUXV cls (CreateCorePrStatus cls m st f1))))"

fun write_status :: "machine \<Rightarrow> crash_stream \<Rightarrow> fake_core \<Rightarrow> memory_map \<Rightarrow> u64 \<Rightarrow> host \<Rightarrow> (u64 \<times> host) res" where
  "write_status EM_AARCH64 st f = arm64_WriteCorePrStatus st f"
| "write_status EM_RISCV st f = riscv64_WriteCorePrStatus f" | "write_status EM_X86_64 st f = x86_64_WriteCorePrStatus f"
| "write_status EM_ARM st f = arm_WriteCorePrStatus f" | "write_status EM_386 st f = x86_WriteCorePrStatus f"

text \<open>The mapping of \<open>core_size\<close> zeroes and the writers in their order; \<open>None\<close> when there is no memory.\<close>

definition core_size :: "elf_class \<Rightarrow> fake_core \<Rightarrow> u64" where
  "core_size cls f = trunc cls (note_end cls f + e_shentsize (fc_ehdr f) * e_shnum (fc_ehdr f))"

definition write_image :: "machine \<Rightarrow> crash_stream \<Rightarrow> vma list \<Rightarrow> fake_core \<Rightarrow> memory_map \<Rightarrow> host \<Rightarrow> host res" where
  "write_image m st maps f mp h =
     (let cls = class_of m; o0 = trunc cls (current_offset f) in
      res_bind (WriteCoreHeader cls f mp o0 h) (\<lambda>(n1, h1).
      res_bind (WriteCoreNoteHeader cls f mp (o0 + n1) h1) (\<lambda>(n2, h2).
      res_bind (WriteCoreProgramHeaders cls f mp (o0 + n1 + n2) h2) (\<lambda>(n3, h3).
      res_bind (write_status m st f mp (o0 + n1 + n2 + n3) h3) (\<lambda>(n4, h4).
      res_bind (WriteCoreAUXV cls f mp (o0 + n1 + n2 + n3 + n4) h4) (\<lambda>(n5, h5).
      res_bind (WriteNtFile cls f maps mp (o0 + n1 + n2 + n3 + n4 + n5) h5) (\<lambda>(n6, h6).
      res_bind (WriteExtendSection cls f mp (note_end cls f) h6) (\<lambda>(n7, h7). Inr h7))))))))"

definition build_image ::
  "os_env \<Rightarrow> machine \<Rightarrow> crash_stream \<Rightarrow> vma list \<Rightarrow> fake_core \<Rightarrow> host \<Rightarrow> (memory_map option \<times> host) res" where
  "build_image os m st maps f h =
     (let f1 = build_headers m st maps f in
      case MmapZeroMem os h (core_size (class_of m) f1) of
        (None, h1) \<Rightarrow> Inr (None, h1)
      | (Some mp, h1) \<Rightarrow> res_bind (write_image m st maps f1 mp h1) (\<lambda>h2. Inr (Some mp, h2)))"
end
