(* ===== verification/NoteRead.thy ===== *)
theory NoteRead
  imports FakeBuild SaveProps
begin

unbundle bit_operations_syntax

text \<open>
  Reading notes: what the loop of the loaders over a note segment does on the notes a writer laid
  out, one note at a time.
\<close>

declare phdr_bytes.simps [simp del]

section \<open>One note\<close>

lemma stored_at_Nil [simp]: "stored_at h a []"
  by (simp add: stored_at_def)

lemma stored_at_Cons: "stored_at h a (z # zs) \<longleftrightarrow> h a = Some z \<and> stored_at h (a + 1) zs"
  by (simp add: stored_at_def All_less_Suc2 add.assoc)

lemma nhdr_length [simp]: "length (nhdr_bytes n d t) = 12"
  by (simp add: nhdr_bytes_def)

lemma magic_length [simp]: "length core_magic = 8" "length linux_magic = 8"
  by (simp_all add: core_magic_def linux_magic_def str_bytes_def)

lemma RoundUp_multiple:
  assumes "4 dvd unat (x :: u32)" "unat x + 4 \<le> 2 ^ 32"
  shows "RoundUp x 4 = x"
proof -
  have "unat x \<le> unat (RoundUp x 4)" "unat (RoundUp x 4) < unat x + 4" "4 dvd unat (RoundUp x 4)"
    using RoundUp_bounds [of x 2] assms(2) by simp_all
  then have "unat (RoundUp x 4) = unat x" using assms(1) by presburger
  then show ?thesis by (simp add: word_unat_eq_iff)
qed

lemma nhdr_words:
  assumes "stored_at h pos (nhdr_bytes namesz descsz ty)" "unat namesz < 2 ^ 32" "unat descsz < 2 ^ 32" "unat ty < 2 ^ 32"
  shows "host_word h pos 4 = Inr namesz" "host_word h (pos + 4) 4 = Inr descsz" "host_word h (pos + 8) 4 = Inr ty"
proof -
  have st: "stored_at h pos (le_bytes 4 (unat namesz))" "stored_at h (pos + 4) (le_bytes 4 (unat descsz))"
    "stored_at h (pos + 8) (le_bytes 4 (unat ty))"
    using assms(1) by (simp_all add: nhdr_bytes_def stored_at_append add.assoc)
  show "host_word h pos 4 = Inr namesz" "host_word h (pos + 4) 4 = Inr descsz" "host_word h (pos + 8) 4 = Inr ty"
    using st assms(2-4) by (auto intro: stored_word)
qed

lemma note_loop_item:
  assumes st: "stored_at (mem c) pos (nhdr_bytes namesz descsz ty)"
    and sz: "namesz = 5 \<or> namesz = 6" "0 < unat descsz" "4 dvd unat descsz" "unat descsz < 2 ^ 31" "unat ty < 2 ^ 32"
    and pos: "pos < fin" "unat pos + 20 + unat descsz < 2 ^ 64"
    and item: "note_item cls cb ty descsz (pos + 20) nb ctx c = Inr (nb', ctx', c')"
  shows "note_loop cls cb pos fin nb ctx c = note_loop cls cb (pos + 20 + descsz) fin nb' ctx' c'"
proof -
  have w: "host_word (mem c) pos 4 = Inr namesz" "host_word (mem c) (pos + 4) 4 = Inr descsz" "host_word (mem c) (pos + 8) 4 = Inr ty"
    using nhdr_words [OF st] sz by auto
  have nm: "(ucast (RoundUp (ucast namesz :: u32) 4) :: u64) = 8"
    using sz(1) by (auto simp: RoundUp_def RoundDown_def)
  have un: "unat (ucast descsz :: u32) = unat descsz" using sz(4) by (simp add: unsigned_ucast_eq take_bit_nat_eq_self)
  then have "RoundUp (ucast descsz :: u32) 4 = ucast descsz" using sz(3,4) by (intro RoundUp_multiple) simp_all
  moreover have "(ucast (ucast descsz :: u32) :: u64) = descsz"
    unfolding word_unat_eq_iff unsigned_ucast_eq [of "ucast descsz :: u32"] un using sz(4) by (simp add: take_bit_nat_eq_self)
  ultimately have nx: "note_next pos (ucast namesz) (ucast descsz) = pos + 20 + descsz" by (simp add: note_next_def nm)
  have u20: "unat (pos + 20) = unat pos + 20" using pos(2) by (intro unat_add_no_wrap [of pos 20, simplified]) simp
  then have "unat (pos + 20 + descsz) = unat pos + 20 + unat descsz" using pos(2) by (subst unat_add_no_wrap) simp_all
  then have lt: "pos < pos + 20 + descsz" by (simp add: word_less_nat_alt)
  have d0: "descsz \<noteq> 0" using sz(2) by auto
  show ?thesis
    using pos(1) w item nx lt nm d0 by (subst note_loop.simps) (simp add: Let_def add.commute [of 20])
qed

lemma note_loop_end: "\<not> pos < fin \<Longrightarrow> note_loop cls cb pos fin nb ctx c = Inr (nb, c)"
  by (subst note_loop.simps) simp

section \<open>The auxiliary vector\<close>

text \<open>The entries up to the first one of type 0 become items, at the addresses of their bytes.\<close>

fun auxv_list :: "u64 \<Rightarrow> (u64 \<times> u64) list \<Rightarrow> auxv list" where
  "auxv_list pos [] = []"
| "auxv_list pos ((ty, v) # xs) =
     \<lparr>mType = ty, mValue = v, mAuxv = pos\<rparr> # (if ty = 0 then [] else auxv_list (pos + 16) xs)"

lemma auxv_items_stored:
  assumes "stored_at h pos (concat (map (auxv_bytes ELF64) xs))"
  shows "auxv_items ELF64 h pos (length xs) nb = Inr (nb\<lparr>mAuxvs := mAuxvs nb @ auxv_list pos xs\<rparr>)"
  using assms
proof (induction xs arbitrary: pos nb)
  case (Cons x xs)
  obtain ty v where x: "x = (ty, v)" by force
  have st: "stored_at h pos (le_bytes 8 (unat ty))" "stored_at h (pos + 8) (le_bytes 8 (unat v))"
    "stored_at h (pos + 16) (concat (map (auxv_bytes ELF64) xs))"
    using Cons.prems by (simp_all add: x auxv_bytes_def stored_at_append add.assoc)
  show ?case
    using stored_word [OF st(1) fits_8] stored_word [OF st(2) fits_8] Cons.IH [OF st(3)]
    by (simp add: x addAuxvItem_def Let_def add.commute)
qed simp

section \<open>The file list\<close>

definition file_item :: "u64 \<times> u64 \<times> u64 \<Rightarrow> string \<Rightarrow> core_file" where
  "file_item = (\<lambda>(b, e, off) name. new_File b e (push_bit 12 off) name)"

definition no_nul :: "string \<Rightarrow> bool" where
  "no_nul s \<longleftrightarrow> (\<forall>ch\<in>set s. ch \<noteq> char_of (0 :: nat))"

lemma c_string_stored:
  assumes "stored_at h a (str_bytes s @ [0])" "no_nul s" "unat a + length s < 2 ^ 64"
  shows "c_string h a = Inr s"
proof (rule c_string_intro)
  have st: "stored_at h a (str_bytes s)" "stored_at h (a + of_nat (length s)) [0]"
    using assms(1) by (simp_all add: stored_at_append str_bytes_def)
  show "\<forall>i<length s. h (a + of_nat i) = Some (of_nat (of_char (s ! i))) \<and> s ! i \<noteq> char_of (0::nat)"
    using st(1) assms(2) by (simp add: stored_at_def str_bytes_def no_nul_def)
  show "h (a + of_nat (length s)) = Some 0" using st(2) by (simp add: stored_at_def)
qed (rule assms(3))

lemma file_items_stored:
  assumes "stored_at h pos (concat (map (file_bytes ELF64) es))" "stored_at h a (concat (map (\<lambda>s. str_bytes s @ [0]) names))"
    and "length es = length names" "\<forall>s\<in>set names. no_nul s" "unat a + sum_list (map (\<lambda>s. length s + 1) names) < 2 ^ 64"
  shows "file_items ELF64 h pos a (length es) nb = Inr (nb\<lparr>mFiles := mFiles nb @ map2 file_item es names\<rparr>)"
  using assms
proof (induction es arbitrary: pos a names nb)
  case (Cons x es)
  obtain b e off where x: "x = (b, e, off)" by (cases x) auto
  obtain s ns where names: "names = s # ns" using Cons.prems(3) by (cases names) auto
  have st: "stored_at h pos (le_bytes 8 (unat b))" "stored_at h (pos + 8) (le_bytes 8 (unat e))"
    "stored_at h (pos + 16) (le_bytes 8 (unat off))" "stored_at h (pos + 24) (concat (map (file_bytes ELF64) es))"
    using Cons.prems(1) by (simp_all add: x file_bytes_def stored_at_append add.assoc)
  have ns: "stored_at h a (str_bytes s @ [0])" "stored_at h (a + of_nat (length s) + 1) (concat (map (\<lambda>s. str_bytes s @ [0]) ns))"
    using Cons.prems(2) by (simp_all add: names stored_at_append stored_at_Cons str_bytes_def add.assoc)
  have cs: "c_string h a = Inr s" using Cons.prems(4,5) by (intro c_string_stored [OF ns(1)]) (simp_all add: names)
  have u: "unat (a + of_nat (length s) + 1) = unat a + length s + 1"
  proof -
    have "unat (of_nat (length s + 1) :: u64) = length s + 1"
      using Cons.prems(5) by (simp add: names unat_of_nat take_bit_nat_eq_self del: of_nat_Suc of_nat_add)
    then show ?thesis
      using unat_add_no_wrap [of a "of_nat (length s + 1)"] Cons.prems(5) by (simp add: names add.assoc add.commute [of 1])
  qed
  have "file_items ELF64 h (pos + 24) (a + of_nat (length s) + 1) (length es) nb' = Inr (nb'\<lparr>mFiles := mFiles nb' @ map2 file_item es ns\<rparr>)" for nb'
    using Cons.prems(3,4,5) u by (intro Cons.IH [OF st(4) ns(2)]) (simp_all add: names)
  then show ?case
    using stored_word [OF st(1) fits_8] stored_word [OF st(2) fits_8] stored_word [OF st(3) fits_8] cs
    by (simp add: x names addFileItem_def file_item_def Let_def)
qed simp

section \<open>The thread status\<close>

lemma unat_ucast_u32: "unat (ucast (x :: u32) :: u64) = unat x"
proof -
  have "unat x < 2 ^ 32" using unsigned_less [of x] by simp
  then show ?thesis by (simp add: unsigned_ucast_eq take_bit_nat_eq_self)
qed

lemma prstatus_parts:
  assumes m: "m = EM_X86_64 \<or> m = EM_RISCV" and regs: "length (st_Regs st) = sizeof_Register m"
  shows "length (prstatus_of ELF64 m st) = sizeof_prstatus m"
    "take 4 (drop 32 (prstatus_of ELF64 m st)) = le_bytes 4 (unat (st_Tid st))"
    "take (sizeof_Register m) (drop 112 (prstatus_of ELF64 m st)) = st_Regs st"
proof -
  define zs where "zs = (replicate (sizeof_prstatus m) 0 :: u8 list)"
  define ps where "ps = splice_at 32 (le_bytes 4 (unat (st_Tid st))) zs"
  have P: "112 + sizeof_Register m \<le> sizeof_prstatus m" using m by auto
  have ps: "length ps = sizeof_prstatus m" using P by (simp add: ps_def zs_def length_splice_at)
  have eq: "prstatus_of ELF64 m st = splice_at 112 (st_Regs st) ps"
    using regs by (simp add: prstatus_of_def ps_def zs_def)
  show "length (prstatus_of ELF64 m st) = sizeof_prstatus m" using P ps regs by (simp add: eq length_splice_at)
  show "take (sizeof_Register m) (drop 112 (prstatus_of ELF64 m st)) = st_Regs st"
    using splice_at_same [of 112 "st_Regs st" ps] P ps regs by (simp add: eq)
  have "take 4 (drop 32 (prstatus_of ELF64 m st)) = take 4 (drop 32 ps)"
    unfolding eq using P ps regs by (intro splice_at_other) simp_all
  also have "\<dots> = le_bytes 4 (unat (st_Tid st))"
    using splice_at_same [of 32 "le_bytes 4 (unat (st_Tid st))" zs] P by (simp add: ps_def zs_def)
  finally show "take 4 (drop 32 (prstatus_of ELF64 m st)) = le_bytes 4 (unat (st_Tid st))" .
qed

definition crash_thread :: "crash_stream \<Rightarrow> u64 \<Rightarrow> thread_info" where
  "crash_thread st pos = \<lparr>mPid = st_Tid st, mPrs = pos, th_reg = st_Regs st,
     th_fpr = replicate sizeof_FpRegister 0, th_tls = replicate sizeof_Tls 0\<rparr>"

lemma new_thread_stored:
  assumes m: "m = EM_X86_64 \<or> m = EM_RISCV" and regs: "length (st_Regs st) = sizeof_Register m"
    and st: "stored_at h pos (prstatus_of ELF64 m st)"
  shows "new_thread ELF64 m pos h = Inr (crash_thread st pos)"
proof -
  note parts = prstatus_parts [OF m regs]
  have P: "112 + sizeof_Register m \<le> sizeof_prstatus m" using m by auto
  have "stored_at h (pos + 32) (le_bytes 4 (unat (st_Tid st)))"
    using stored_slice [OF st, of 32 4] P by (simp add: parts)
  then have "stored_at h (pos + 32) (le_bytes 4 (unat (ucast (st_Tid st) :: u64)))"
    by (simp add: unat_ucast_u32)
  then have "host_word h (pos + 32) 4 = Inr (ucast (st_Tid st))"
    using fits_4 by (rule stored_word)
  moreover have "host_read h (pos + 112) (sizeof_Register m) = Inr (st_Regs st)"
    using stored_slice [OF st, of 112 "sizeof_Register m"] P regs by (simp add: parts stored_at_read)
  ultimately show ?thesis by (simp add: new_thread_def crash_thread_def flags_back)
qed

section \<open>The notes of a crash\<close>

definition auxv_note :: "(u64 \<times> u64) list \<Rightarrow> u8 list" where
  "auxv_note xs = nhdr_bytes NOTE_CORE_NAME_SZ (of_nat (16 * length xs)) NT_AUXV @ core_magic @ concat (map (auxv_bytes ELF64) xs)"

definition file_note :: "nat \<Rightarrow> u8 list \<Rightarrow> (u64 \<times> u64 \<times> u64) list \<Rightarrow> string list \<Rightarrow> u8 list" where
  "file_note d pg es names = nhdr_bytes NOTE_CORE_NAME_SZ (of_nat d) NT_FILE @ core_magic @ le_bytes 8 (length es) @ pg @
     concat (map (file_bytes ELF64) es) @ concat (map (\<lambda>s. str_bytes s @ [0]) names)"

text \<open>Each of the three notes is read as one item.\<close>

lemma status_item:
  assumes m: "m = EM_X86_64 \<or> m = EM_RISCV" "length (st_Regs st) = sizeof_Register m"
    and st: "stored_at (mem c) pos (prstatus_of ELF64 m st)"
  shows "note_item ELF64 (plain_cb ELF64 m) NT_PRSTATUS d pos nb False c =
    Inr (nb\<lparr>mThread := mThread nb @ [crash_thread st pos]\<rparr>, True, c)"
  using new_thread_stored [OF m st] by (simp add: note_item_def plain_cb_def addThreadItem_def Let_def)

lemma auxv_item:
  assumes "stored_at (mem c) pos (concat (map (auxv_bytes ELF64) xs))" "length xs < 2 ^ 32"
  shows "note_item ELF64 cb NT_AUXV (of_nat (16 * length xs)) pos nb ctx c =
    Inr (nb\<lparr>mAuxvMax := int (length xs), mAuxvs := mAuxvs nb @ auxv_list pos xs\<rparr>, ctx, c)"
proof -
  have "unat (of_nat (16 * length xs) :: u64) = 16 * length xs"
    using assms(2) by (simp add: unat_of_nat take_bit_nat_eq_self del: of_nat_mult)
  then show ?thesis
    using auxv_items_stored [OF assms(1)]
    by (simp add: note_item_def NT_AUXV_def NT_PRSTATUS_def setAuxvMaxCount_def Let_def del: of_nat_mult)
qed

lemma file_list_item:
  assumes st: "stored_at (mem c) pos (le_bytes 8 (length es) @ pg @ concat (map (file_bytes ELF64) es) @
      concat (map (\<lambda>s. str_bytes s @ [0]) names))" "length pg = 8"
    and es: "length es = length names" "length es < 2 ^ 32" "\<forall>s\<in>set names. no_nul s"
    and lim: "unat pos + 16 + 24 * length es + sum_list (map (\<lambda>s. length s + 1) names) < 2 ^ 64"
  shows "note_item ELF64 cb NT_FILE d pos nb ctx c = Inr (nb\<lparr>mFiles := mFiles nb @ map2 file_item es names\<rparr>, ctx, c)"
proof -
  have n: "unat (of_nat (length es) :: u64) = length es" using es(2) by (simp add: unat_of_nat take_bit_nat_eq_self)
  have st': "stored_at (mem c) pos (le_bytes 8 (unat (of_nat (length es) :: u64)))" "stored_at (mem c) (pos + 8) pg"
    "stored_at (mem c) (pos + 16) (concat (map (file_bytes ELF64) es))"
    "stored_at (mem c) (pos + 16 + 24 * of_nat (length es)) (concat (map (\<lambda>s. str_bytes s @ [0]) names))"
  proof -
    have "length (concat (map (file_bytes ELF64) es)) = 24 * length es"
      by (induction es) (auto simp: file_bytes_def)
    then show "stored_at (mem c) pos (le_bytes 8 (unat (of_nat (length es) :: u64)))" "stored_at (mem c) (pos + 8) pg"
      "stored_at (mem c) (pos + 16) (concat (map (file_bytes ELF64) es))"
      "stored_at (mem c) (pos + 16 + 24 * of_nat (length es)) (concat (map (\<lambda>s. str_bytes s @ [0]) names))"
      using st n by (simp_all add: stored_at_append add.assoc del: length_concat le_bytes.simps)
  qed
  have w: "host_word (mem c) pos 8 = Inr (of_nat (length es))" using stored_word [OF st'(1) fits_8] .
  have pw: "\<exists>v. host_word (mem c) (pos + 8) 8 = Inr v" using st'(2) st(2) by (simp add: stored_at_read host_word_def)
  have "unat (pos + 16 + 24 * of_nat (length es)) = unat pos + (16 + 24 * length es)"
  proof -
    have "unat (of_nat (16 + 24 * length es) :: u64) = 16 + 24 * length es"
      using lim by (simp add: unat_of_nat take_bit_nat_eq_self del: of_nat_mult of_nat_add)
    then show ?thesis
      using unat_add_no_wrap [of pos "of_nat (16 + 24 * length es)"] lim by (simp add: add.assoc)
  qed
  then have "file_items ELF64 (mem c) (pos + 16) (pos + 16 + 24 * of_nat (length es)) (length es) nb =
      Inr (nb\<lparr>mFiles := mFiles nb @ map2 file_item es names\<rparr>)"
    using lim by (intro file_items_stored [OF st'(3,4) es(1,3)]) simp
  then show ?thesis
    using w pw n by (auto simp: note_item_def NT_FILE_def NT_AUXV_def NT_PRSTATUS_def Let_def)
qed

lemma note_step_pos:
  assumes "unat (pos :: u64) + k < 2 ^ 64"
  shows "unat (pos + of_nat k) = unat pos + k"
proof -
  have "unat (of_nat k :: u64) = k" using assms by (simp add: unat_of_nat take_bit_nat_eq_self)
  then show ?thesis using unat_add_no_wrap [of pos "of_nat k"] assms by simp
qed

lemma crash_notes_read:
  assumes m: "m = EM_X86_64 \<or> m = EM_RISCV" "length (st_Regs st) = sizeof_Register m"
    and st: "stored_at (mem c) pos (concat (status_chunks (prstatus_of ELF64 m st)) @ auxv_note xs @ file_note d pg es names)"
    and sz: "0 < length xs" "length xs < 2 ^ 24" "4 dvd d" "d < 2 ^ 31" "length pg = 8"
    and es: "length es = length names" "length es < 2 ^ 32" "\<forall>s\<in>set names. no_nul s"
    and d: "16 + 24 * length es + sum_list (map (\<lambda>s. length s + 1) names) \<le> d"
    and lim: "unat pos + (sizeof_prstatus m + 16 * length xs + d + 60) < 2 ^ 64"
  shows "note_loop ELF64 (plain_cb ELF64 m) pos (pos + of_nat (sizeof_prstatus m + 16 * length xs + d + 60)) nb False c =
    Inr (nb\<lparr>mThread := mThread nb @ [crash_thread st (pos + 20)], mAuxvMax := int (length xs),
      mAuxvs := mAuxvs nb @ auxv_list (pos + of_nat (sizeof_prstatus m + 40)) xs,
      mFiles := mFiles nb @ map2 file_item es names\<rparr>, c)"
proof -
  let ?P = "sizeof_prstatus m" and ?A = "16 * length xs"
  define p1 where "p1 = pos + of_nat (?P + 20)"
  define p2 where "p2 = pos + of_nat (?P + ?A + 40)"
  define fin where "fin = pos + of_nat (?P + ?A + d + 60)"
  have P: "0 < ?P" "4 dvd ?P" "?P < 400" using m(1) by auto
  have u: "unat p1 = unat pos + (?P + 20)" "unat p2 = unat pos + (?P + ?A + 40)" "unat fin = unat pos + (?P + ?A + d + 60)"
    unfolding p1_def p2_def fin_def using lim by (intro note_step_pos; simp)+
  have lt: "pos < fin" "p1 < fin" "p2 < fin" "\<not> fin < fin" by (simp_all add: word_less_nat_alt u)
  have len: "length (concat (status_chunks (prstatus_of ELF64 m st))) = ?P + 20" "length (auxv_note xs) = ?A + 20"
    using prstatus_parts(1) [OF m] by (simp_all add: status_chunks_def auxv_note_def length_concat auxv_bytes_def comp_def case_prod_beta sum_list_triv)
  have st3: "stored_at (mem c) pos (concat (status_chunks (prstatus_of ELF64 m st)))" "stored_at (mem c) p1 (auxv_note xs)"
    "stored_at (mem c) p2 (file_note d pg es names)"
    using st unfolding stored_at_append len p1_def p2_def by (simp_all add: algebra_simps)
  have s1: "stored_at (mem c) pos (nhdr_bytes 5 (of_nat ?P) NT_PRSTATUS)" "stored_at (mem c) (pos + 20) (prstatus_of ELF64 m st)"
    using st3(1) prstatus_parts(1) [OF m] by (simp_all add: status_chunks_def stored_at_append NOTE_CORE_NAME_SZ_def add.assoc)
  have s2: "stored_at (mem c) p1 (nhdr_bytes 5 (of_nat ?A) NT_AUXV)" "stored_at (mem c) (p1 + 20) (concat (map (auxv_bytes ELF64) xs))"
    using st3(2) by (simp_all add: auxv_note_def stored_at_append NOTE_CORE_NAME_SZ_def add.assoc)
  have s3: "stored_at (mem c) p2 (nhdr_bytes 5 (of_nat d) NT_FILE)"
    "stored_at (mem c) (p2 + 20) (le_bytes 8 (length es) @ pg @ concat (map (file_bytes ELF64) es) @ concat (map (\<lambda>s. str_bytes s @ [0]) names))"
    using st3(3) by (simp_all add: file_note_def stored_at_append NOTE_CORE_NAME_SZ_def add.assoc del: le_bytes.simps)
  have un: "unat (of_nat ?P :: u64) = ?P" "unat (of_nat ?A :: u64) = ?A" "unat (of_nat d :: u64) = d"
    using P sz by (simp_all add: unat_of_nat take_bit_nat_eq_self del: of_nat_mult)
  have ty: "unat NT_PRSTATUS < 2 ^ 32" "unat NT_AUXV < 2 ^ 32" "unat NT_FILE < 2 ^ 32"
    by (simp_all add: NT_PRSTATUS_def NT_AUXV_def NT_FILE_def)
  have nx: "pos + 20 + of_nat ?P = p1" "p1 + 20 + of_nat ?A = p2" "p2 + 20 + of_nat d = fin" "p1 + 20 = pos + of_nat (?P + 40)"
    by (simp_all add: p1_def p2_def fin_def algebra_simps)
  have "unat (p2 + 20) = unat p2 + 20" using note_step_pos [of p2 20] lim u(2) by simp
  then have lim3: "unat (p2 + 20) + 16 + 24 * length es + sum_list (map (\<lambda>s. length s + 1) names) < 2 ^ 64"
    using lim d u(2) by linarith
  show ?thesis
    unfolding fin_def [symmetric] nx(4) [symmetric]
    using note_loop_item [OF s1(1) _ _ _ _ ty(1) lt(1) _ status_item [OF m s1(2)]]
      note_loop_item [OF s2(1) _ _ _ _ ty(2) lt(2) _ auxv_item [OF s2(2)]]
      note_loop_item [OF s3(1) _ _ _ _ ty(3) lt(3) _ file_list_item [OF s3(2) sz(5) es lim3]]
      note_loop_end [OF lt(4)] un P sz d lim u
    by (simp add: nx(1-3) del: of_nat_mult)
qed
end
