(* ===== verification/FakeImage.thy ===== *)
theory FakeImage
  imports NoteRead
begin

unbundle bit_operations_syntax

text \<open>
  The image built from the description of a crash is a core file that loads: the notes and program
  headers that the builder writes are found again by the loader.
\<close>

declare phdr_bytes.simps [simp del]

section \<open>Writing pieces one after the other\<close>

lemma host_write_append:
  "host_write h a (xs @ ys) = res_bind (host_write h a xs) (\<lambda>h'. host_write h' (a + of_nat (length xs)) ys)"
proof (induction xs arbitrary: h a)
  case (Cons x xs)
  show ?case by (cases "h a") (simp_all add: Cons.IH fun_upd_def add.assoc)
qed simp

lemma put_chunks_write:
  "put_chunks mp off tmp bss h = res_bind (host_write h (mm_begin mp + off + tmp) (concat bss))
     (\<lambda>h'. Inr (tmp + of_nat (length (concat bss)), h'))"
proof (induction bss arbitrary: tmp h)
  case (Cons bs bss)
  show ?case
    by (cases "host_write h (mm_begin mp + off + tmp) bs")
      (simp_all add: Cons.IH host_write_append add.assoc del: length_concat)
qed simp

text \<open>The image without the section header: the chunks of all writers in a row.\<close>

definition image_chunks :: "machine \<Rightarrow> vma list \<Rightarrow> fake_core \<Rightarrow> u8 list list" where
  "image_chunks m maps f =
     [ehdr_bytes ELF64 (fc_ehdr f), phdr_bytes ELF64 PT_NOTE (fc_note f)] @
     map (phdr_bytes ELF64 PT_LOAD) (place_phdrs ELF64 (note_end ELF64 f) (fc_phdr f)) @
     concat (map status_chunks (prstatus f)) @
     (nhdr_bytes NOTE_CORE_NAME_SZ (16 * of_nat (fc_auxvnum f)) NT_AUXV # core_magic #
       map (auxv_bytes ELF64) (take (fc_auxvnum f) (fc_auxv f))) @
     (nhdr_bytes NOTE_CORE_NAME_SZ ((24 * of_nat (length (fc_phdr f)) + 16 + scast (RoundUp (fc_fileslen f) 4)) AND 0xffffffff) NT_FILE #
       core_magic # le_bytes 8 (length (fc_phdr f)) # page_size_bytes ELF64 f # map (file_bytes ELF64) (fc_file f) @
       map (\<lambda>v. str_bytes (vma_file v) @ [0]) (take (length (fc_phdr f)) maps))"

lemma write_image_eq:
  assumes "m = EM_X86_64 \<or> m = EM_RISCV" "current_offset f = 0"
  shows "write_image m st maps f mp h =
    res_bind (host_write h (mm_begin mp) (concat (image_chunks m maps f))) (\<lambda>h1.
      if HasSection f then host_write h1 (mm_begin mp + note_end ELF64 f) (shdr_bytes ELF64 (fc_shdr f)) else Inr h1)"
proof -
  have cls: "class_of m = ELF64" and ws: "write_status m st f = WriteCorePrStatus f"
    using assms(1) by (auto simp: x86_64_WriteCorePrStatus_def riscv64_WriteCorePrStatus_def)
  have step: "res_bind (put_chunks mp off 0 bss h) k =
      res_bind (host_write h (mm_begin mp + off) (concat bss)) (\<lambda>h'. k (of_nat (length (concat bss)), h'))" for off bss h k
    by (simp add: put_chunks_write res_bind_assoc del: length_concat)
  have last: "res_bind (WriteExtendSection ELF64 f mp off h) (\<lambda>(n7, h7). Inr h7) =
      (if HasSection f then host_write h (mm_begin mp + off) (shdr_bytes ELF64 (fc_shdr f)) else Inr h)" for off h
    by (simp add: WriteExtendSection_def put_chunks_write res_bind_assoc res_bind_right_id)
  show ?thesis
    unfolding write_image_def Let_def cls ws WriteCoreHeader_def WriteCoreNoteHeader_def WriteCoreProgramHeaders_def
      WriteCorePrStatus_def WriteCoreAUXV_def WriteNtFile_def step image_chunks_def
    using assms(2)
    by (simp add: host_write_append res_bind_assoc last add.assoc del: length_concat)
qed

lemma unat_of_nat_u64: "n < 2 ^ 64 \<Longrightarrow> unat (of_nat n :: u64) = n"
  by (simp add: unat_of_nat take_bit_nat_eq_self)

lemma le_bytes_zero: "le_bytes n 0 = replicate n 0"
  by (induction n) simp_all

lemma overlay_stored:
  assumes "length img \<le> E" "E + length tail < 2 ^ 64"
  shows "stored_at (host_map (host_map (host_zero h b (E + length tail)) b img) (b + of_nat E) tail) b
    (img @ replicate (E - length img) 0 @ tail)"
  unfolding stored_at_def
proof (intro allI impI)
  fix i assume i: "i < length (img @ replicate (E - length img) 0 @ tail)"
  then have lt: "i < E + length tail" using assms(1) by simp
  then have u: "unat (of_nat i :: u64) = i" using assms(2) by (simp add: unat_of_nat_u64)
  have inner: "host_map (host_zero h b (E + length tail)) b img (b + of_nat i) =
      Some (if i < length img then img ! i else 0)"
    using lt u by (simp add: host_map_def host_zero_def)
  have E: "i < 2 ^ 64" "E + length tail \<le> 2 ^ 64" "E < 2 ^ 64" using lt assms(2) by simp_all
  show "host_map (host_map (host_zero h b (E + length tail)) b img) (b + of_nat E) tail (b + of_nat i) =
      Some ((img @ replicate (E - length img) 0 @ tail) ! i)"
    unfolding host_map_slice [OF E] inner using lt assms(1) by (auto simp: nth_append)
qed

lemma host_map_Nil [simp]: "host_map h a [] = h"
  by (simp add: host_map_def)

section \<open>The headers\<close>

definition vma_phdr :: "vma \<Rightarrow> elf_phdr" where
  "vma_phdr v =
     (let (r, w, x, _) = vma_flags v in
      \<lparr>ph_flags = (if r = CHR ''r'' \<or> r = CHR ''R'' then 4 else 0) OR (if w = CHR ''w'' \<or> w = CHR ''W'' then 2 else 0) OR
         (if x = CHR ''x'' \<or> x = CHR ''X'' then 1 else 0),
       ph_offset = 0, ph_vaddr = vma_begin v, ph_paddr = 0, ph_filesz = 0, ph_memsz = vma_end v - vma_begin v,
       ph_align = ELF_PAGE_SIZE\<rparr>)"

definition vma_entry :: "vma \<Rightarrow> u64 \<times> u64 \<times> u64" where
  "vma_entry v = (vma_begin v, vma_end v, ucast (drop_bit 12 (vma_offset v)))"

definition names_length :: "vma list \<Rightarrow> nat" where
  "names_length maps = sum_list (map (\<lambda>v. length (vma_file v) + 1) maps)"

lemma parse_vmas_fields:
  assumes "align_size f = ucast ELF_PAGE_SIZE"
  shows "parse_vmas ELF64 vs f = f\<lparr>fc_phdr := fc_phdr f @ map vma_phdr vs, fc_file := fc_file f @ map vma_entry vs,
    fc_fileslen := fc_fileslen f + of_nat (names_length vs)\<rparr>"
  using assms
proof (induction vs arbitrary: f)
  case (Cons v vs)
  have "ParserNtFile ELF64 v (ParserPhdr ELF64 v f) =
      f\<lparr>fc_phdr := fc_phdr f @ [vma_phdr v], fc_file := fc_file f @ [vma_entry v],
        fc_fileslen := fc_fileslen f + of_nat (length (vma_file v) + 1)\<rparr>"
    using Cons.prems
    by (simp add: ParserPhdr_def ParserNtFile_def vma_phdr_def vma_entry_def ELF_PAGE_SIZE_def split: prod.splits)
  then show ?case using Cons.IH Cons.prems by (simp add: names_length_def algebra_simps)
qed (simp add: names_length_def)

lemma scast_small:
  assumes "unat (w :: u32) < 2 ^ 31"
  shows "(scast w :: u64) = of_nat (unat w)"
proof -
  have u: "uint w = int (unat w)" by simp
  have "int (unat w) < int (2 ^ 31)" using assms by (simp only: of_nat_less_iff)
  then have "uint w < 2 ^ 31" unfolding u by simp
  moreover have "- (2 ^ 31) \<le> uint w" by (rule order_trans [OF _ unsigned_greater_eq]) simp
  ultimately have "sint w = uint w" by (simp add: sint_uint signed_take_bit_int_eq_self)
  then have "(scast w :: u64) = of_int (int (unat w))" unfolding u by (simp only: scast_eq)
  then show ?thesis by (simp only: of_int_of_nat_eq)
qed

text \<open>A builder with the options of the command line, before \<open>execute\<close>.\<close>

definition builder :: "u32 \<Rightarrow> u32 \<Rightarrow> u32 \<Rightarrow> fake_core" where
  "builder psz va msk = new_FakeCore\<lparr>fc_page_size := psz, va_bits := va, fake_mask := msk\<rparr>"

definition note_size :: "machine \<Rightarrow> vma list \<Rightarrow> nat" where
  "note_size m maps = (sizeof_prstatus m + 20) + (512 + 20) + (24 * length maps + 36 + 4 * ((names_length maps + 3) div 4))"

locale built_headers =
  fixes m :: machine and st :: crash_stream and maps :: "vma list" and psz va msk :: u32
  assumes mach: "m = EM_X86_64 \<or> m = EM_RISCV"
    and few: "length maps < 2 ^ 24" "names_length maps < 2 ^ 30"
begin

abbreviation "F \<equiv> build_headers m st maps (builder psz va msk)"

lemma cls: "class_of m = ELF64"
  using mach by auto

lemma F_eq: "F = ClocSectionOffset ELF64 (ClocNoteFileSize ELF64 (CreateCoreAUXV ELF64 (CreateCorePrStatus ELF64 m st
  (CreateCoreNoteHeader ELF64 (CreateCoreHeader ELF64 m (ParseProcessMapsVma ELF64 maps (FakeCore_Prepare (builder psz va msk))))))))"
  using mach by (auto simp: Let_def)

lemma parsed: "ParseProcessMapsVma ELF64 maps (FakeCore_Prepare (builder psz va msk)) =
  (FakeCore_Prepare (builder psz va msk))\<lparr>fc_phdr := map vma_phdr maps, fc_file := map vma_entry maps,
     fc_fileslen := of_nat (names_length maps)\<rparr>"
  by (simp add: ParseProcessMapsVma_def parse_vmas_fields FakeCore_Prepare_def builder_def new_FakeCore_def)
    (simp add: names_length_def)

lemma phnum_u32: "unat (of_nat (length maps) + 1 :: u32) = length maps + 1"
proof -
  have "length maps + 1 < 2 ^ 32" using few by simp
  then have "unat (of_nat (length maps + 1) :: u32) = length maps + 1"
    unfolding unat_of_nat by (simp add: take_bit_nat_eq_self)
  then show ?thesis by (simp add: add.commute)
qed

lemma phnum_nat: "unat (of_nat (length maps + 1) :: u64) = length maps + 1"
proof -
  have "length maps + 1 < 2 ^ 64" using few by simp
  then show ?thesis unfolding unat_of_nat by (simp add: take_bit_nat_eq_self)
qed

lemma phnum_u64: "(ucast (of_nat (length maps) + 1 :: u32) :: u64) = of_nat (length maps + 1)"
proof (rule word_unat_eq_iff [THEN iffD2])
  have "length maps + 1 < 2 ^ 64" using few by simp
  then show "unat (ucast (of_nat (length maps) + 1 :: u32) :: u64) = unat (of_nat (length maps + 1) :: u64)"
    unfolding phnum_nat unsigned_ucast_eq phnum_u32 by (simp add: take_bit_nat_eq_self)
qed

lemma phnum_down: "(ucast (of_nat (Suc (length maps)) :: u64) :: u32) = of_nat (length maps) + 1"
proof -
  have "Suc (length maps) < 2 ^ 64" using few by simp
  then have "(ucast (of_nat (Suc (length maps)) :: u64) :: u32) = of_nat (Suc (length maps))"
    unfolding unsigned_of_nat by (simp add: take_bit_nat_eq_self del: of_nat_Suc)
  then show ?thesis by simp
qed

lemma phnum_xnum: "PN_XNUM \<le> (of_nat (length maps + 1) :: u64) \<longleftrightarrow> length maps + 1 \<ge> 0xffff"
    "(of_nat (length maps + 1) :: u64) = PN_XNUM \<longleftrightarrow> length maps + 1 = 0xffff"
  using phnum_nat by (simp_all only: word_le_nat_alt word_unat_eq_iff PN_XNUM_def) simp_all

lemma names_round: "(scast (RoundUp (of_nat (names_length maps) :: u32) 4) :: u64) = of_nat (4 * ((names_length maps + 3) div 4))"
proof -
  let ?x = "of_nat (names_length maps) :: u32" and ?r = "RoundUp (of_nat (names_length maps) :: u32) 4"
  have x: "unat ?x = names_length maps" using few(2) by (simp add: unat_of_nat take_bit_nat_eq_self)
  have b: "unat ?x \<le> unat ?r" "unat ?r < unat ?x + 4" "4 dvd unat ?r"
    using RoundUp_bounds [of ?x 2] x few(2) by simp_all
  then have r: "unat ?r = 4 * ((names_length maps + 3) div 4)" unfolding x by presburger
  then have "unat ?r < 2 ^ 31" using few(2) by simp
  from scast_small [OF this] show ?thesis unfolding r .
qed

lemma status_extra: "(scast (of_nat (sizeof_prstatus m + 20) :: u32) :: u64) = of_nat (sizeof_prstatus m + 20)"
  using mach by auto

lemma F_parts:
  "fc_phdr F = map vma_phdr maps" "fc_file F = map vma_entry maps" "fc_fileslen F = of_nat (names_length maps)"
  "fc_auxvnum F = 32" "prstatus F = [prstatus_of ELF64 m st]" "current_offset F = 0" "fc_page_size F = psz" "va_bits F = va"
  "fc_auxv F = [(AT_PHDR, 0), (AT_PHENT, 56), (AT_PHNUM, 2), (AT_PAGESZ, ucast psz)] @ replicate 28 (0, 0)"
  "align_size F = ucast ELF_PAGE_SIZE"
  unfolding F_eq parsed
  by (simp_all add: ClocSectionOffset_def ClocNoteFileSize_def CreateCoreAUXV_def init_auxv_def CreateCorePrStatus_def
      CreateCoreNoteHeader_def CreateCoreHeader_def FakeCore_Prepare_def builder_def new_FakeCore_def Let_def
      DEF_FAKE_AUXV_NUM_def DEF_FAKE_PHNUM_def numeral_nat HasSection_def)

lemma F_section: "HasSection F \<longleftrightarrow> length maps + 1 \<ge> 0xffff"
  unfolding F_eq parsed
  using phnum_xnum
  by (simp add: ClocSectionOffset_def ClocNoteFileSize_def CreateCoreAUXV_def init_auxv_def CreateCorePrStatus_def
      CreateCoreNoteHeader_def CreateCoreHeader_def FakeCore_Prepare_def builder_def new_FakeCore_def Let_def
      HasSection_def phnum_u64 del: of_nat_Suc of_nat_add)

lemma header_parts:
  fixes H defines "H \<equiv> CreateCoreHeader ELF64 m (ParseProcessMapsVma ELF64 maps (FakeCore_Prepare (builder psz va msk)))"
  shows "fc_note H = phdr_zero" "extra_note_filesz H = 0" "fc_phdr H = map vma_phdr maps"
    "fc_fileslen H = of_nat (names_length maps)" "ActualPhnum H = of_nat (length maps) + 1"
proof -
  show "ActualPhnum H = of_nat (length maps) + 1"
    unfolding H_def parsed using phnum_down
    by (auto simp: ActualPhnum_def HasSection_def CreateCoreHeader_def FakeCore_Prepare_def Let_def phnum_u64
      simp del: of_nat_Suc of_nat_add)
qed (unfold H_def parsed, simp_all add: CreateCoreHeader_def FakeCore_Prepare_def builder_def new_FakeCore_def Let_def)

lemma F_note: "fc_note F = phdr_zero\<lparr>ph_offset := 64 + 56 * of_nat (length maps + 1), ph_filesz := of_nat (note_size m maps)\<rparr>"
proof -
  have "(scast (20 + of_nat (sizeof_prstatus m) :: u32) :: u64) = 20 + of_nat (sizeof_prstatus m)"
    using status_extra by (simp add: add.commute)
  then show ?thesis
    unfolding F_eq
    using names_round phnum_u64
    by (simp add: ClocSectionOffset_def ClocNoteFileSize_def CreateCoreAUXV_def init_auxv_def CreateCorePrStatus_def
      CreateCoreNoteHeader_def header_parts phdr_zero_def sizeof_Nhdr_def DEF_FAKE_AUXV_NUM_def note_size_def algebra_simps)
qed

lemma note_size_less: "note_size m maps < 2 ^ 31"
proof -
  have "sizeof_prstatus m \<le> 400" using mach by auto
  then show ?thesis using few by (simp add: note_size_def)
qed

lemma F_note_end: "64 + 56 * (length maps + 1) + note_size m maps \<le> unat (note_end ELF64 F)"
    "unat (note_end ELF64 F) < 64 + 56 * (length maps + 1) + note_size m maps + 4096"
proof -
  let ?L = "64 + 56 * (length maps + 1) + note_size m maps"
  have lt: "?L < 2 ^ 32" using few(1) note_size_less by simp
  have eq: "ph_offset (fc_note F) + ph_filesz (fc_note F) = of_nat ?L" by (simp add: F_note)
  have "unat (of_nat ?L :: u64) = ?L" using lt by (intro unat_of_nat_u64) simp
  then show "?L \<le> unat (note_end ELF64 F)" "unat (note_end ELF64 F) < ?L + 4096"
    using RoundUp_bounds [of "of_nat ?L :: u64" 12] lt eq
    by (simp_all add: note_end_def F_parts ELF_PAGE_SIZE_def)
qed

lemma F_shdr: "HasSection F \<Longrightarrow> shdr_bytes ELF64 (fc_shdr F) = replicate 44 0 @ le_bytes 4 (length maps + 1) @ replicate 16 0"
proof -
  assume "HasSection F"
  then have "PN_XNUM \<le> (of_nat (length maps + 1) :: u64)" using F_section phnum_xnum by blast
  then have "fc_shdr F = shdr_zero\<lparr>nsh_info := of_nat (length maps + 1)\<rparr>"
    unfolding F_eq parsed
    by (simp add: ClocSectionOffset_def ClocNoteFileSize_def CreateCoreAUXV_def init_auxv_def CreateCorePrStatus_def
      CreateCoreNoteHeader_def CreateCoreHeader_def FakeCore_Prepare_def Let_def phnum_u64 shdr_zero_def
      del: of_nat_Suc of_nat_add)
  then show ?thesis
    using phnum_nat by (simp add: shdr_zero_def le_bytes_zero replicate_add [symmetric] del: of_nat_Suc of_nat_add le_bytes.simps)
qed

definition big :: bool where "big \<longleftrightarrow> length maps + 1 \<ge> 0xffff"

definition tail :: "u8 list" where
  "tail = (if big then replicate 44 0 @ le_bytes 4 (length maps + 1) @ replicate 16 0 else [])"

lemma F_ehdr: "fc_ehdr F = \<lparr>e_ident = elf_ident ELF64, e_type = ET_CORE, e_machine = ucast (getMachine m), e_version = 1,
    e_entry = 0, e_phoff = 64, e_shoff = (if big then note_end ELF64 F else 0), e_flags = 0, e_ehsize = 64, e_phentsize = 56,
    e_phnum = (if big then PN_XNUM else of_nat (length maps + 1)), e_shentsize = (if big then 64 else 0),
    e_shnum = (if big then 1 else 0), e_shstrndx = 0\<rparr>"
proof -
  define G where "G = ClocNoteFileSize ELF64 (CreateCoreAUXV ELF64 (CreateCorePrStatus ELF64 m st
    (CreateCoreNoteHeader ELF64 (CreateCoreHeader ELF64 m (ParseProcessMapsVma ELF64 maps (FakeCore_Prepare (builder psz va msk)))))))"
  have c: "PN_XNUM \<le> (of_nat (length maps + 1) :: u64) \<longleftrightarrow> big" "(of_nat (length maps + 1) :: u64) = PN_XNUM \<Longrightarrow> big"
    using phnum_xnum by (simp_all add: big_def)
  have "fc_ehdr G = fc_ehdr (CreateCoreHeader ELF64 m (ParseProcessMapsVma ELF64 maps (FakeCore_Prepare (builder psz va msk))))"
    by (simp add: G_def ClocNoteFileSize_def CreateCoreAUXV_def init_auxv_def CreateCorePrStatus_def CreateCoreNoteHeader_def Let_def)
  then have e: "fc_ehdr G = \<lparr>e_ident = elf_ident ELF64, e_type = ET_CORE, e_machine = ucast (getMachine m), e_version = 1,
    e_entry = 0, e_phoff = 64, e_shoff = 0, e_flags = 0, e_ehsize = 64, e_phentsize = 56,
    e_phnum = (if big then PN_XNUM else of_nat (length maps + 1)), e_shentsize = (if big then 64 else 0),
    e_shnum = (if big then 1 else 0), e_shstrndx = 0\<rparr>"
    unfolding parsed using c(1)
    by (simp add: CreateCoreHeader_def FakeCore_Prepare_def Let_def phnum_u64 ehdr_zero_def del: of_nat_Suc of_nat_add)
  have F: "F = ClocSectionOffset ELF64 G" by (simp only: F_eq G_def)
  have ne: "note_end ELF64 F = note_end ELF64 G" by (simp add: F ClocSectionOffset_def note_end_def)
  have "HasSection G \<longleftrightarrow> big" using c(2) e by (auto simp: HasSection_def simp del: of_nat_Suc of_nat_add)
  then show ?thesis unfolding ne unfolding F by (simp add: ClocSectionOffset_def e)
qed

lemma length_ehdr [simp]: "length (ehdr_bytes ELF64 (fc_ehdr F)) = 64"
  by (simp add: F_ehdr ehdr_bytes_def ELFMAG_def)

lemma ehdr_tells: "tells (ehdr_bytes ELF64 (fc_ehdr F)) (length maps + 1) (unat (note_end ELF64 F)) tail"
proof -
  have xn: "unat PN_XNUM = 0xffff" by (simp add: PN_XNUM_def)
  show ?thesis
    unfolding tells_def length_ehdr
    using phnum_nat xn
    by (auto simp: tail_def big_def F_ehdr ehdr_bytes_def ELFMAG_def not_le simp del: of_nat_Suc of_nat_add le_bytes.simps)
qed

lemma tail_eq: "tail = (if HasSection F then shdr_bytes ELF64 (fc_shdr F) else [])"
  using F_section F_shdr by (simp add: tail_def big_def)

lemma F_core_size: "core_size ELF64 F = note_end ELF64 F + of_nat (length tail)"
  by (simp add: core_size_def F_ehdr tail_def)
end

section \<open>The layout of the image\<close>

text \<open>Registers of the right size, and names without null characters.\<close>

locale built_image = built_headers +
  assumes regs: "length (st_Regs st) = sizeof_Register m"
    and names: "\<forall>v\<in>set maps. no_nul (vma_file v)"
begin

abbreviation "lps \<equiv> place_phdrs ELF64 (note_end ELF64 F) (map vma_phdr maps)"
abbreviation "hs \<equiv> (PT_NOTE, fc_note F) # map (Pair PT_LOAD) lps"
abbreviation "headers \<equiv> concat (map (\<lambda>(ty, p). phdr_bytes ELF64 ty p) hs)"
abbreviation "vector \<equiv> [(AT_PHDR, 0), (AT_PHENT, 56), (AT_PHNUM, 2), (AT_PAGESZ, ucast psz)] @ replicate 28 (0, 0)"
abbreviation "desc \<equiv> 24 * length maps + 16 + 4 * ((names_length maps + 3) div 4)"
abbreviation "segment \<equiv> concat (status_chunks (prstatus_of ELF64 m st)) @ auxv_note vector @
  file_note desc (page_size_bytes ELF64 F) (map vma_entry maps) (map vma_file maps)"

lemma desc_word: "(24 * of_nat (length maps) + 16 + scast (RoundUp (of_nat (names_length maps) :: u32) 4)) AND 0xffffffff =
  (of_nat desc :: u64)"
proof -
  have eq: "24 * of_nat (length maps) + 16 + scast (RoundUp (of_nat (names_length maps) :: u32) 4) = (of_nat desc :: u64)"
    unfolding names_round by simp
  have lt: "desc < 2 ^ 32" using few by simp
  have "(of_nat desc :: u64) AND 0xffffffff = take_bit 32 (of_nat desc)" by (simp add: take_bit_eq_mask mask_eq_exp_minus_1)
  also have "\<dots> = of_nat desc" unfolding take_bit_of_nat take_bit_nat_eq_self [OF lt] ..
  finally show ?thesis unfolding eq .
qed

lemma image_eq: "concat (image_chunks m maps F) = ehdr_bytes ELF64 (fc_ehdr F) @ headers @ segment"
  using desc_word unfolding image_chunks_def F_parts(1-5,9)
  by (simp add: auxv_note_def file_note_def comp_def del: le_bytes.simps)

lemma length_place [simp]: "length (place_phdrs cls off ps) = length ps"
  by (induction ps arbitrary: off) simp_all

lemma length_headers: "length headers = 56 * (length maps + 1)"
  by (simp add: length_concat comp_def sum_list_triv)

lemma length_segment: "length segment + (4 * ((names_length maps + 3) div 4) - names_length maps) = note_size m maps"
proof -
  have f: "length (concat (map (file_bytes ELF64) es)) = 24 * length es" for es
    by (induction es) (auto simp: file_bytes_def)
  have n: "length (concat (map (\<lambda>s. str_bytes s @ [0]) (map vma_file maps))) = names_length maps"
    by (induction maps) (auto simp: str_bytes_def names_length_def)
  have a: "length (concat (map (auxv_bytes ELF64) xs)) = 16 * length xs" for xs
    by (induction xs) (auto simp: auxv_bytes_def)
  have st: "length (concat (status_chunks p)) = length p + 20" for p
    by (simp add: status_chunks_def)
  show ?thesis
    using prstatus_parts(1) [OF mach regs]
    by (simp add: st auxv_note_def file_note_def f n a note_size_def del: length_concat list.map map_replicate map_map concat.simps le_bytes.simps)
qed

abbreviation "E \<equiv> unat (note_end ELF64 F)"
abbreviation "img \<equiv> ehdr_bytes ELF64 (fc_ehdr F) @ headers @ segment"

lemma length_img: "length img \<le> E" "E < 2 ^ 32" "64 + length headers + note_size m maps \<le> E"
proof -
  have "length img + (4 * ((names_length maps + 3) div 4) - names_length maps) = 64 + 56 * (length maps + 1) + note_size m maps"
    using length_segment length_headers by simp
  then show "length img \<le> E" "E < 2 ^ 32" "64 + length headers + note_size m maps \<le> E"
    using F_note_end few note_size_less length_headers by simp_all
qed

lemma size_nat: "unat (core_size ELF64 F) = E + length tail"
proof -
  have "length tail \<le> 64" by (simp add: tail_def)
  then have "E + length tail < 2 ^ 64" using length_img(2) by simp
  then show ?thesis unfolding F_core_size by (rule note_step_pos)
qed

definition image_map :: "u64 \<Rightarrow> memory_map" where
  "image_map b = \<lparr>mm_name = [], mm_begin = b, mm_size = core_size ELF64 F, mm_offset = 0, mm_max = core_size ELF64 F\<rparr>"

definition image_host :: "host \<Rightarrow> u64 \<Rightarrow> host" where
  "image_host h b = host_map (host_map (host_zero h b (E + length tail)) b img) (b + of_nat E) tail"

lemma image_stored: "stored_at (image_host h b) b (img @ replicate (E - length img) 0 @ tail)"
  unfolding image_host_def using length_img by (intro overlay_stored) (simp_all add: tail_def)

lemma image_built:
  assumes "os_mmap os h (core_size ELF64 F) = Some b"
  shows "build_image os m st maps (builder psz va msk) h = Inr (Some (image_map b), image_host h b)"
proof -
  let ?h0 = "host_zero h b (E + length tail)"
  have sm: "E + length tail \<le> 2 ^ 64" "length img \<le> E" using length_img by (simp_all add: tail_def)
  have zero: "?h0 (b + of_nat i) = Some 0" if "i < E + length tail" for i
    using that sm(1) by (simp add: host_zero_def unat_of_nat take_bit_nat_eq_self)
  have w1: "host_write ?h0 b img = Inr (host_map ?h0 b img)"
    using sm zero by (intro host_write_mapped) auto
  have w2: "host_write (host_map ?h0 b img) (b + of_nat E) tail = Inr (image_host h b)"
    unfolding image_host_def
  proof (rule host_write_mapped)
    have "host_map ?h0 b img (b + of_nat (E + i)) \<noteq> None" if "i < length tail" for i
      using zero [of "E + i"] that by (simp add: host_map_def)
    then show "\<forall>i<length tail. host_map ?h0 b img (b + of_nat E + of_nat i) \<noteq> None" by (simp add: add.assoc)
  qed (simp add: tail_def)
  have eq: "of_nat E = note_end ELF64 F" by simp
  have "write_image m st maps F (image_map b) ?h0 = Inr (image_host h b)"
    unfolding write_image_eq [OF mach F_parts(6)] image_eq
    using w1 w2 tail_eq eq by (auto simp: image_map_def split: if_splits)
  then show ?thesis
    using assms by (simp add: build_image_def cls MmapZeroMem_def size_nat image_map_def Let_def)
qed
end
end
