(* ===== verification/FakeProps.thy ===== *)
theory FakeProps
  imports FakeImage
begin

unbundle bit_operations_syntax

text \<open>
  A core built from the description of a crash loads with the memory areas, files, thread and
  auxiliary vector of the description.
\<close>

section \<open>Binding file names to segments\<close>

lemma setFile_simps [simp]:
  "mVaddr (LoadBlock_setFile n off b) = mVaddr b" "mMemSize (LoadBlock_setFile n off b) = mMemSize b"
  "mFlags (LoadBlock_setFile n off b) = mFlags b" "mFileName (LoadBlock_setFile n off b) = n"
  "mPageOffset (LoadBlock_setFile n off b) = off" "mVabitsMask (LoadBlock_setFile n off b) = mVabitsMask b"
  by (simp_all add: LoadBlock_setFile_def)

lemma setFile_backing:
  "LoadBlock_begin opt (LoadBlock_setFile n off b) = LoadBlock_begin opt b"
  "backed_size (LoadBlock_setFile n off b) = backed_size b"
  "mOverlay (LoadBlock_setFile n off b) = mOverlay b" "mMmap (LoadBlock_setFile n off b) = mMmap b"
  "mFileSize (LoadBlock_setFile n off b) = mFileSize b" "mOriAddr (LoadBlock_setFile n off b) = mOriAddr b"
  "isValidBlock (LoadBlock_setFile n off b) = isValidBlock b"
  by (cases "mOverlay b"; cases "mMmap b"; simp add: LoadBlock_setFile_def LoadBlock_begin_def backed_size_def isValidBlock_def)+

lemma setFile_same:
  "same_place (LoadBlock_setFile n off b) b" "block_ok h (LoadBlock_setFile n off b) = block_ok h b"
  "separate (LoadBlock_setFile n off b) b' = separate b b'" "separate b' (LoadBlock_setFile n off b) = separate b' b"
  by (simp_all add: same_place_def block_ok_def separate_def setFile_backing)

lemma setFile_core_ok:
  assumes "core_ok c" "i < length (blocks c)"
  shows "core_ok (c\<lparr>blocks := (blocks c)[i := LoadBlock_setFile n off (blk c i)]\<rparr>)"
proof -
  have eq: "c\<lparr>blocks := bs, mem := mem c\<rparr> = c\<lparr>blocks := bs\<rparr>" for bs by simp
  have "loads_ok q (c\<lparr>blocks := (blocks c)[i := LoadBlock_setFile n off (blk c i)]\<rparr>)" for q
    using assms findLoadBlock_update(2) [OF _ assms(2) setFile_same(1), where h = "mem c" and q = q] unfolding eq
    by (cases q) (auto simp: core_ok_def)
  then show ?thesis
    using assms by (auto simp: core_ok_def mask_ok_def nth_list_update setFile_same)
qed

lemma bind_file_named:
  assumes ok: "core_ok c" and i: "i \<in> set (mLoad c)" "mVaddr (blk c i) = cf_begin f" "0 < mMemSize (blk c i)"
  shows "bind_file f c = (False, c\<lparr>blocks := (blocks c)[i := LoadBlock_setFile (cf_name f) (cf_offset f) (blk c i)]\<rparr>)"
proof -
  have nw: "no_wrap (blk c i)" using block_ok_no_wrap [OF core_ok_blocks(1) [OF ok i(1)]] .
  have has: "block_has (blk c i) (cf_begin f)"
    using block_has_unat [OF nw, of "cf_begin f"] i(2,3) by (simp add: word_less_nat_alt)
  obtain w where w: "vabits_mask c = mask w" "unat (mVaddr (blk c i)) + unat (mMemSize (blk c i)) \<le> 2 ^ w"
    using ok i(1) unfolding core_ok_def mask_ok_def by blast
  have "unat (cf_begin f) < 2 ^ w" using i(2,3) w(2) by (simp add: word_less_nat_alt)
  then have "cf_begin f AND vabits_mask c = cf_begin f" by (simp add: w and_mask_small)
  then have "findLoadBlock (cf_begin f) False c = Some i"
    using ok i(1) has findLoadBlock_iff [of False c "cf_begin f" i] by (simp add: core_ok_def getLoads_def)
  then show ?thesis using i by (simp add: bind_file_def)
qed

text \<open>Files in the order of the segments they start at.\<close>

lemma bind_files:
  assumes "core_ok c" "mLoad c = [0..<length (blocks c)]" "k + length fs \<le> length (blocks c)"
    and "\<forall>j<length fs. mVaddr (blk c (k + j)) = cf_begin (fs ! j) \<and> 0 < mMemSize (blk c (k + j))"
  shows "\<exists>bs. foreach_until bind_file fs c = c\<lparr>blocks := bs\<rparr> \<and> core_ok (c\<lparr>blocks := bs\<rparr>) \<and> length bs = length (blocks c) \<and>
    (\<forall>j<length bs. bs ! j = (if k \<le> j \<and> j < k + length fs
       then LoadBlock_setFile (cf_name (fs ! (j - k))) (cf_offset (fs ! (j - k))) (blk c j) else blk c j))"
  using assms
proof (induction fs arbitrary: c k)
  case Nil
  then show ?case by (intro exI [of _ "blocks c"]) auto
next
  case (Cons f fs)
  have k: "k \<in> set (mLoad c)" "mVaddr (blk c k) = cf_begin f" "0 < mMemSize (blk c k)"
    using Cons.prems(2,3) Cons.prems(4) [rule_format, of 0] by simp_all
  define c1 where "c1 = c\<lparr>blocks := (blocks c)[k := LoadBlock_setFile (cf_name f) (cf_offset f) (blk c k)]\<rparr>"
  have step: "bind_file f c = (False, c1)" using bind_file_named [OF Cons.prems(1) k] by (simp add: c1_def)
  have ok1: "core_ok c1" unfolding c1_def using Cons.prems(1,3) by (intro setFile_core_ok) simp_all
  have blk1: "blk c1 j = (if j = k then LoadBlock_setFile (cf_name f) (cf_offset f) (blk c k) else blk c j)" if "j < length (blocks c)" for j
    using that by (simp add: c1_def nth_list_update)
  have "\<forall>j<length fs. mVaddr (blk c1 (Suc k + j)) = cf_begin (fs ! j) \<and> 0 < mMemSize (blk c1 (Suc k + j))"
    using Cons.prems(3) Cons.prems(4) [rule_format, of "Suc j" for j] by (auto simp: blk1)
  then obtain bs where bs: "foreach_until bind_file fs c1 = c1\<lparr>blocks := bs\<rparr>" "core_ok (c1\<lparr>blocks := bs\<rparr>)" "length bs = length (blocks c)"
      "\<forall>j<length bs. bs ! j = (if Suc k \<le> j \<and> j < Suc k + length fs
         then LoadBlock_setFile (cf_name (fs ! (j - Suc k))) (cf_offset (fs ! (j - Suc k))) (blk c1 j) else blk c1 j)"
    using Cons.IH [of c1 "Suc k", OF ok1] Cons.prems(2,3) by (auto simp: c1_def)
  have "bs ! j = (if k \<le> j \<and> j < k + length (f # fs)
       then LoadBlock_setFile (cf_name ((f # fs) ! (j - k))) (cf_offset ((f # fs) ! (j - k))) (blk c j) else blk c j)"
    if "j < length bs" for j
  proof (cases "j = k")
    case True
    then show ?thesis using bs(3,4) that by (simp add: blk1)
  next
    case False
    then have "j - k = Suc (j - Suc k) \<or> j < k" by linarith
    then show ?thesis using bs(3,4) that False by (auto simp: blk1)
  qed
  then show ?case using step bs by (intro exI [of _ bs]) (simp add: c1_def)
qed

section \<open>Loading the headers of the image\<close>

lemma loads_loop:
  assumes "phdrs_at cls (mem c) a (map (Pair PT_LOAD) ps)"
  shows "\<exists>c'. phdr_loop cls cb a (length ps) c = Inr c' \<and> mNote c' = mNote c"
  using assms
proof (induction ps arbitrary: a c)
  case (Cons p ps)
  let ?c = "addLoadBlock (make_load p c) c"
  have "mem ?c = mem c" "mNote ?c = mNote c" by (simp_all add: addLoadBlock_def new_block_def Let_def)
  then show ?case using Cons.IH [of ?c "a + sizeof_Phdr cls"] Cons.prems by (simp add: load_phdr_def)
qed simp

lemma place_fields:
  assumes "\<forall>p\<in>set ps. ph_filesz p = 0"
  shows "place_phdrs ELF64 off ps = map (\<lambda>p. p\<lparr>ph_offset := off\<rparr>) ps"
  using assms by (induction ps) auto

lemma vma_phdr_simps [simp]:
  "ph_filesz (vma_phdr v) = 0" "ph_vaddr (vma_phdr v) = vma_begin v" "ph_memsz (vma_phdr v) = vma_end v - vma_begin v"
  by (simp_all add: vma_phdr_def split: prod.splits)

lemma vma_flags_small: "unat (ph_flags (vma_phdr v)) < 256 ^ 4"
  by (simp add: vma_phdr_def split: prod.splits)

text \<open>The file object of an area, with its offset rounded down to a page.\<close>

definition vma_item :: "vma \<Rightarrow> core_file" where
  "vma_item v = new_File (vma_begin v) (vma_end v) (push_bit 12 (ucast (drop_bit 12 (vma_offset v)))) (vma_file v)"

lemma vma_item_eq: "file_item (vma_entry v) (vma_file v) = vma_item v"
  by (simp add: file_item_def vma_entry_def vma_item_def)

lemma vma_item_begin [simp]: "cf_begin (vma_item v) = vma_begin v"
  by (simp add: vma_item_def new_File_def)

context built_image
begin

text \<open>The core the loader starts from.\<close>

definition start :: "bool \<Rightarrow> u64 \<Rightarrow> bool \<Rightarrow> host \<Rightarrow> u64 \<Rightarrow> core" where
  "start q vb rem h b = (new_core m (image_map b) q vb (image_host h b))\<lparr>mRemote := rem,
     pointer_mask := GENMASK_UL 63 0, vabits_mask := GENMASK_UL 63 0\<rparr>"

lemma start_simps [simp]:
  "mem (start q vb rem h b) = image_host h b" "mCore (start q vb rem h b) = image_map b"
  "blocks (start q vb rem h b) = []" "mLoad (start q vb rem h b) = []" "mQuickLoad (start q vb rem h b) = []"
  "mNote (start q vb rem h b) = []" "vabits_mask (start q vb rem h b) = mask 64" "mm_begin (image_map b) = b"
  by (simp_all add: start_def new_core_def image_map_def GENMASK_UL_low)

lemma placed: "lps = map (\<lambda>v. (vma_phdr v)\<lparr>ph_offset := note_end ELF64 F\<rparr>) maps"
  by (subst place_fields) (simp_all add: comp_def)

lemma image_phnum: "actual_phnum ELF64 (start q vb rem h b) = Inr (Some (int (length hs)))"
proof -
  define body where "body = headers @ segment @ replicate (E - length img) 0"
  have len: "E = 64 + length body" using length_img(1) unfolding body_def by simp
  have n: "length maps + 1 < 2 ^ 31" "E < 2 ^ 64" using few(1) length_img(2) by simp_all
  have "stored_at (mem (start q vb rem h b)) (mm_begin (mCore (start q vb rem h b))) (ehdr_bytes ELF64 (fc_ehdr F) @ body @ tail)"
    using image_stored [of h b] by (simp only: body_def append_assoc start_simps)
  then have "actual_phnum ELF64 (start q vb rem h b) = Inr (Some (int (length maps + 1)))"
    by (rule tells_phnum [OF ehdr_tells _ n(1) len n(2)])
  then show ?thesis by simp
qed

lemma image_phdrs: "phdrs_at ELF64 (image_host h b) (b + 64) hs"
proof (rule stored_phdrs)
  show "stored_at (image_host h b) (b + 64) headers"
    using image_stored [of h b] by (simp add: stored_at_append)
  show "\<forall>(ty, p)\<in>set hs. unat ty < 256 ^ 4 \<and> unat (ph_flags p) < 256 ^ 4"
    using vma_flags_small by (auto simp: placed F_note phdr_zero_def PT_NOTE_def PT_LOAD_def)
qed

abbreviation "note_at b \<equiv> b + of_nat (64 + 56 * (length maps + 1))"

definition crash_note :: "u64 \<Rightarrow> note_block" where
  "crash_note b = (setOriAddr (note_at b) (make_note (fc_note F) (start True 0 False (\<lambda>_. None) b)))\<lparr>
     mThread := [crash_thread st (note_at b + 20)], mAuxvMax := 32,
     mAuxvs := auxv_list (note_at b + of_nat (sizeof_prstatus m + 40)) vector,
     mFiles := map (\<lambda>v. file_item (vma_entry v) (vma_file v)) maps\<rparr>"

lemma note_read:
  assumes b: "unat b + unat (core_size ELF64 F) < 2 ^ 64"
  shows "load_phdr ELF64 (plain_cb ELF64 m) (b + 64) (start q vb rem h b) = Inr (addNoteBlock (crash_note b) (start q vb rem h b))"
proof -
  define c0 where "c0 = start q vb rem h b"
  define off where "off = 64 + 56 * (length maps + 1)"
  define nb where "nb = make_note (fc_note F) c0"
  have lim: "unat b + off + note_size m maps < 2 ^ 64" "off + note_size m maps \<le> E"
    using b length_img(3) length_headers unfolding size_nat off_def by simp_all
  have ub: "unat (b + of_nat off) = unat b + off" using lim(1) by (intro note_step_pos) simp
  have nt: "fc_note F = phdr_zero\<lparr>ph_offset := of_nat off, ph_filesz := of_nat (note_size m maps)\<rparr>" by (simp add: F_note off_def)
  have "unat (of_nat off + of_nat (note_size m maps) :: u64) = off + note_size m maps"
    using unat_of_nat_u64 [of "off + note_size m maps"] lim(1) by simp
  moreover have "note_size m maps \<noteq> 0" by (simp add: note_size_def)
  moreover have "unat (of_nat (note_size m maps) :: u64) = note_size m maps"
    using note_size_less by (intro unat_of_nat_u64) simp
  ultimately have valid: "isValidBlock nb"
    using lim(2) by (simp add: nb_def make_note_def new_NoteBlock_def Let_def nt isValidBlock_def phdr_zero_def c0_def
        image_map_def word_less_nat_alt size_nat word_gt_0 word_unat_eq_iff)
  have fields: "mOffset nb = of_nat off" "mFileSize nb = of_nat (note_size m maps)" "mThread nb = []" "mAuxvs nb = []" "mFiles nb = []"
    by (simp_all add: nb_def make_note_def new_NoteBlock_def Let_def nt phdr_zero_def)
  have st: "stored_at (mem c0) (b + of_nat off) segment"
    using image_stored [of h b] length_headers unfolding stored_at_append by (simp add: c0_def off_def add.assoc)
  have pt: "PT_NOTE \<noteq> PT_LOAD" "ph_type (mem c0) (b + 64) = Inr PT_NOTE" "read_Phdr ELF64 (mem c0) (b + 64) = Inr (fc_note F)"
    using image_phdrs [of h b] by (simp_all add: c0_def PT_NOTE_def PT_LOAD_def)
  have xs: "0 < length vector" "length vector < 2 ^ 24" "length (page_size_bytes ELF64 F) = 8" by simp_all
  have d: "4 dvd desc" "desc < 2 ^ 31" using few by simp_all
  have es: "length (map vma_entry maps) = length (map vma_file maps)" "length (map vma_entry maps) < 2 ^ 32"
    "\<forall>s\<in>set (map vma_file maps). no_nul s" using few(1) names by auto
  have nl: "16 + 24 * length (map vma_entry maps) + sum_list (map (\<lambda>s. length s + 1) (map vma_file maps)) \<le> desc"
    by (simp add: names_length_def comp_def)
  have tot: "sizeof_prstatus m + 16 * length vector + desc + 60 = note_size m maps" by (simp add: note_size_def)
  have lim2: "unat (b + of_nat off) + (sizeof_prstatus m + 16 * length vector + desc + 60) < 2 ^ 64"
    unfolding tot ub using lim(1) by simp
  note run = crash_notes_read [OF mach regs st xs(1,2) d xs(3) es nl lim2, unfolded tot]
  have same: "make_note (fc_note F) (start True 0 False (\<lambda>_. None) b) = nb"
    by (simp add: nb_def make_note_def c0_def)
  have ori: "mOriAddr (setOriAddr (b + of_nat off) nb) = b + of_nat off"
    "mFileSize (setOriAddr (b + of_nat off) nb) = of_nat (note_size m maps)"
    using valid fields by (simp_all add: setOriAddr_def)
  have nbeq: "(setOriAddr (b + of_nat off) nb)\<lparr>mThread := mThread (setOriAddr (b + of_nat off) nb) @ [crash_thread st (b + of_nat off + 20)],
      mAuxvMax := int (length vector),
      mAuxvs := mAuxvs (setOriAddr (b + of_nat off) nb) @ auxv_list (b + of_nat off + of_nat (sizeof_prstatus m + 40)) vector,
      mFiles := mFiles (setOriAddr (b + of_nat off) nb) @ map2 file_item (map vma_entry maps) (map vma_file maps)\<rparr> = crash_note b"
    unfolding crash_note_def same off_def [symmetric] using fields valid by (simp add: setOriAddr_def map2_map_map)
  show ?thesis
    unfolding c0_def [symmetric] load_phdr_def pt(2,3) res_bind.simps
    using pt(1) valid run [of "setOriAddr (b + of_nat off) nb"]
    unfolding nb_def [symmetric] Let_def nbeq by (simp add: fields ori c0_def)
qed

lemma image_loaded:
  assumes b: "unat b + unat (core_size ELF64 F) < 2 ^ 64"
  shows "\<exists>c1. machine_load m ((new_core m (image_map b) q vb (image_host h b))\<lparr>mRemote := rem\<rparr>) = Inr (True, c1) \<and>
    loaded (start q vb rem h b) lps c1 \<and> mNote c1 = [crash_note b]"
proof -
  let ?c = "start q vb rem h b" and ?cb = "plain_cb ELF64 m"
  have ml: "machine_load m ((new_core m (image_map b) q vb (image_host h b))\<lparr>mRemote := rem\<rparr>) = load_elf ELF64 ?cb ?c"
    using mach by (auto simp: start_def x86_64_load_def riscv64_load_def load64_def)
  have tl: "phdrs_at ELF64 (mem (addNoteBlock (crash_note b) ?c)) (b + 64 + 56) (map (Pair PT_LOAD) lps)"
    using image_phdrs [of h b] by (simp add: addNoteBlock_def)
  obtain c1 where c1: "phdr_loop ELF64 ?cb (b + 64 + 56) (length lps) (addNoteBlock (crash_note b) ?c) = Inr c1"
      "mNote c1 = [crash_note b]"
    using loads_loop [OF tl, of ?cb] by (auto simp: addNoteBlock_def)
  have "phdr_loop ELF64 ?cb (b + 64) (Suc (length lps)) ?c = Inr c1"
    using note_read [OF b] c1(1) by simp
  then have res: "load_elf ELF64 ?cb ?c = Inr (True, c1)"
    unfolding load_elf_def image_phnum by (simp del: phdr_loop.simps add: nat_add_distrib)
  have at: "phdrs_at ELF64 (mem ?c) (mm_begin (mCore ?c) + sizeof_Ehdr ELF64) hs" using image_phdrs [of h b] by simp
  have "loaded ?c (load_phdrs hs) c1"
    using plain_notes.load_elf_loaded [OF _ _ _ image_phnum at res] by simp
  moreover have "load_phdrs hs = lps"
    by (simp add: load_phdrs_def comp_def filter_map PT_NOTE_def PT_LOAD_def)
  ultimately show ?thesis using ml res c1(2) by auto
qed

lemma image_ident:
  "host_read (image_host h b) b 4 = Inr ELFMAG" "host_word (image_host h b) (b + 16) 2 = Inr ET_CORE"
  "host_word (image_host h b) (b + 18) 2 = Inr (ucast (getMachine m))"
proof -
  have st: "stored_at (image_host h b) b (ehdr_bytes ELF64 (fc_ehdr F))"
    using image_stored [of h b] by (simp add: stored_at_append)
  then have parts: "stored_at (image_host h b) b ELFMAG" "stored_at (image_host h b) (b + 16) (le_bytes 2 (unat ET_CORE))"
    "stored_at (image_host h b) (b + 18) (le_bytes 2 (unat (ucast (getMachine m) :: u64)))"
    by (simp_all add: ehdr_bytes_def F_ehdr stored_at_append stored_at_Cons add.assoc ELFMAG_def del: le_bytes.simps)
  show "host_read (image_host h b) b 4 = Inr ELFMAG" using parts(1) stored_at_read [of "image_host h b" b ELFMAG] by (simp add: ELFMAG_def numeral_eq_Suc)
  show "host_word (image_host h b) (b + 16) 2 = Inr ET_CORE"
    by (rule stored_word [OF parts(2)]) (simp add: ET_CORE_def)
  show "host_word (image_host h b) (b + 18) 2 = Inr (ucast (getMachine m))"
    by (rule stored_word [OF parts(3)]) (use mach in auto)
qed

text \<open>What a segment shows of the area it was made from.\<close>

lemma image_core:
  assumes b: "b \<noteq> 0" "unat b + unat (core_size ELF64 F) < 2 ^ 64"
    and ord: "sorted_wrt (\<lambda>u v. vma_end u \<le> vma_begin v) maps" "\<forall>v\<in>set maps. vma_begin v < vma_end v"
    and ld: "loaded (start q vb rem h b) lps c1" "mNote c1 = [crash_note b]"
  shows "core_ok c1 \<and> (\<exists>bs. foreachFile bind_file c1 c1 = c1\<lparr>blocks := bs\<rparr> \<and> core_ok (c1\<lparr>blocks := bs\<rparr>) \<and>
    mLoad c1 = [0..<length bs] \<and>
    map (\<lambda>b. (mVaddr b, mMemSize b, mFlags b, mFileName b, mPageOffset b)) bs =
    map (\<lambda>v. (vma_begin v, vma_end v - vma_begin v, ucast (ph_flags (vma_phdr v)), cf_name (vma_item v),
      cf_offset (vma_item v))) maps)"
proof -
  let ?c = "start q vb rem h b"
  have sz: "unat (vma_begin v) + unat (vma_end v - vma_begin v) = unat (vma_end v)" if "v \<in> set maps" for v
    using ord(2) that by (simp add: unat_sub word_less_nat_alt word_le_nat_alt less_imp_le)
  have lt: "unat (vma_end v) < 2 ^ 64" for v by (rule unat_u64_less)
  have cf: "core_file_ok ?c"
  proof -
    have "mapped (image_host h b) b (E + length tail)"
      unfolding mapped_def image_host_def
    proof (intro allI impI)
      fix i assume "i < E + length tail"
      moreover have "E + length tail < 2 ^ 64" using b(2) size_nat by simp
      ultimately have "host_zero h b (E + length tail) (b + of_nat i) \<noteq> None" by (simp add: host_zero_def unat_of_nat_u64)
      then show "host_map (host_map (host_zero h b (E + length tail)) b img) (b + of_nat E) tail (b + of_nat i) \<noteq> None"
        by (simp add: host_map_def)
    qed
    then show ?thesis using b by (simp add: core_file_ok_def size_nat image_map_def)
  qed
  have "core_ok c1"
  proof (rule loaded_core_ok [OF ld(1) cf, of 64])
    show "\<forall>p\<in>set lps. phdr_ok 64 p" using sz lt length_img(2) by (auto simp: placed phdr_ok_def less_imp_le)
    show "sorted_wrt phdr_below lps"
      using ord sz by (auto simp: placed sorted_wrt_map phdr_below_def word_le_nat_alt sorted_wrt_iff_nth_less)
  qed simp_all
  moreover have bl: "blocks c1 = map (\<lambda>p. make_load p ?c) lps" "mLoad c1 = [0..<length maps]"
    using ld(1) by (simp_all add: loaded_def)
  moreover have files: "concat (map mFiles (mNote c1)) = map vma_item maps"
    by (simp add: ld(2) crash_note_def vma_item_eq)
  have pos: "0 < vma_end v - vma_begin v" if "v \<in> set maps" for v
    using ord(2) that sz [OF that] by (auto simp: word_less_nat_alt)
  have "\<forall>j<length maps. mVaddr (blk c1 j) = cf_begin (map vma_item maps ! j) \<and>
      0 < mMemSize (blk c1 j)"
    using pos by (simp add: bl(1) placed)
  then obtain bs where bs: "foreachFile bind_file c1 c1 = c1\<lparr>blocks := bs\<rparr>" "core_ok (c1\<lparr>blocks := bs\<rparr>)" "length bs = length maps"
      "\<forall>j<length bs. bs ! j = LoadBlock_setFile (cf_name (vma_item (maps ! j))) (cf_offset (vma_item (maps ! j))) (blk c1 j)"
    using bind_files [of c1 0 "map vma_item maps"] \<open>core_ok c1\<close> bl
    by (auto simp: foreachFile_def files)
  moreover have "map (\<lambda>b. (mVaddr b, mMemSize b, mFlags b, mFileName b, mPageOffset b)) bs =
    map (\<lambda>v. (vma_begin v, vma_end v - vma_begin v, ucast (ph_flags (vma_phdr v)), cf_name (vma_item v),
      cf_offset (vma_item v))) maps"
    using bs(3,4) by (intro nth_equalityI) (simp_all add: bl(1) placed)
  ultimately show ?thesis by auto
qed

lemma vector_read: "map (\<lambda>a. (mType a, mValue a)) (auxv_list p vector) =
  [(AT_PHDR, 0), (AT_PHENT, 56), (AT_PHNUM, 2), (AT_PAGESZ, ucast psz), (0, 0)]"
proof -
  have "replicate 28 (0, 0) = ((0, 0) :: u64 \<times> u64) # replicate 27 (0, 0)" by (simp add: numeral_eq_Suc)
  then show ?thesis by (simp add: AT_PHDR_def AT_PHENT_def AT_PHNUM_def AT_PAGESZ_def)
qed

lemma machine_back: "machine_of (ucast (getMachine m)) = Some m"
  using mach by (auto simp: machine_of_def)

lemma image_result:
  assumes mm: "os_mmap os h (core_size ELF64 F) = Some b" "b \<noteq> 0" "unat b + unat (core_size ELF64 F) < 2 ^ 64"
    and ord: "sorted_wrt (\<lambda>u v. vma_end u \<le> vma_begin v) maps" "\<forall>v\<in>set maps. vma_begin v < vma_end v"
  shows "\<exists>mp h' c nb. build_image os m st maps (builder psz va msk) h = Inr (Some mp, h') \<and>
    Core_Load q vb rem (Some mp) h' inst = Inr (True, Some c) \<and> core_ok c \<and>
    map (\<lambda>i. let b = blk c i in (mVaddr b, mMemSize b, mFlags b, mFileName b, mPageOffset b)) (mLoad c) =
      map (\<lambda>v. (vma_begin v, vma_end v - vma_begin v, ucast (ph_flags (vma_phdr v)), cf_name (vma_item v), cf_offset (vma_item v))) maps \<and>
    mNote c = [nb] \<and> map (\<lambda>t. (mPid t, th_reg t)) (mThread nb) = [(st_Tid st, st_Regs st)] \<and>
    map (\<lambda>a. (mType a, mValue a)) (mAuxvs nb) =
      [(AT_PHDR, 0), (AT_PHENT, 56), (AT_PHNUM, 2), (AT_PAGESZ, ucast psz), (0, 0)] \<and>
    mFiles nb = map vma_item maps"
proof -
  obtain c1 where c1: "machine_load m ((new_core m (image_map b) q vb (image_host h b))\<lparr>mRemote := rem\<rparr>) = Inr (True, c1)"
      "loaded (start q vb rem h b) lps c1" "mNote c1 = [crash_note b]"
    using image_loaded [OF mm(3)] by blast
  obtain bs where bs: "foreachFile bind_file c1 c1 = c1\<lparr>blocks := bs\<rparr>" "core_ok (c1\<lparr>blocks := bs\<rparr>)" "mLoad c1 = [0..<length bs]"
      "map (\<lambda>b. (mVaddr b, mMemSize b, mFlags b, mFileName b, mPageOffset b)) bs =
       map (\<lambda>v. (vma_begin v, vma_end v - vma_begin v, ucast (ph_flags (vma_phdr v)), cf_name (vma_item v), cf_offset (vma_item v))) maps"
    using image_core [OF mm(2,3) ord c1(2,3)] by blast
  have load: "Core_Load q vb rem (Some (image_map b)) (image_host h b) inst = Inr (True, Some (c1\<lparr>blocks := bs\<rparr>))"
    using c1(1) bs(1) by (simp add: Core_Load_def image_ident machine_back new_core_def)
  have segs: "map (\<lambda>i. let b = blk (c1\<lparr>blocks := bs\<rparr>) i in (mVaddr b, mMemSize b, mFlags b, mFileName b, mPageOffset b)) (mLoad (c1\<lparr>blocks := bs\<rparr>)) =
      map (\<lambda>b. (mVaddr b, mMemSize b, mFlags b, mFileName b, mPageOffset b)) bs"
    by (intro nth_equalityI) (simp_all add: bs(3) Let_def)
  show ?thesis
    using image_built [OF mm(1)] load bs(2,4) segs c1(3) vector_read
    by (intro exI [of _ "image_map b"] exI [of _ "image_host h b"] exI [of _ "c1\<lparr>blocks := bs\<rparr>"] exI [of _ "crash_note b"])
      (simp add: crash_note_def crash_thread_def vma_item_eq)
qed

end

text \<open>
  The facts above hold for every crash once it is cut to what they ask for: one of the two machines,
  registers of the size of the structure, and no more areas and names than fit.
\<close>

definition plain_machine :: "machine \<Rightarrow> machine" where
  "plain_machine m = (if m = EM_RISCV then EM_RISCV else EM_X86_64)"

definition fitted :: "machine \<Rightarrow> crash_stream \<Rightarrow> crash_stream" where
  "fitted m st = st\<lparr>st_Regs := take (sizeof_Register m) (st_Regs st @ replicate (sizeof_Register m) 0)\<rparr>"

definition admitted :: "vma list \<Rightarrow> vma list" where
  "admitted maps =
     (if length maps < 2 ^ 24 \<and> names_length maps < 2 ^ 30 \<and> (\<forall>v\<in>set maps. no_nul (vma_file v)) then maps else [])"

interpretation crash_image: built_image "plain_machine m" "fitted (plain_machine m) st" "admitted maps" psz va msk
  for m st maps psz va msk
  by unfold_locales (auto simp: plain_machine_def fitted_def admitted_def names_length_def)

lemma fitted_same: "length (st_Regs st) = sizeof_Register m \<Longrightarrow> fitted m st = st"
  by (simp add: fitted_def)

section \<open>Properties\<close>

text \<open>C6: a core built from the description of a crash loads with what the description says. For a 64-bit
  machine without extra notes (x86_64, riscv64), a description with registers of the right
  size and ascending, non-empty memory areas (fewer than 2 to the 24, with fewer than 2 to the 30
  characters of names, none of them null), and a page size, address width and options of any
  value: when the kernel gives memory, \<open>execute\<close> builds an image that \<open>CoreApi::Load\<close> accepts. The core
  it gives satisfies the invariant; its segments are the areas in order, with flags, file name
  and offset rounded down to a page; its one note holds the thread with its number and registers, the
  auxiliary vector of four entries and the end mark, and the file list. Numbers of
  areas above \<open>PN_XNUM\<close>, which take the extra section header, are included.\<close>

theorem fake_core_loads:
  assumes m: "m = EM_X86_64 \<or> m = EM_RISCV"
    and few: "length maps < 2 ^ 24" "names_length maps < 2 ^ 30"
    and regs: "length (st_Regs st) = sizeof_Register m"
    and names: "\<forall>v\<in>set maps. no_nul (vma_file v)"
    and ord: "sorted_wrt (\<lambda>u v. vma_end u \<le> vma_begin v) maps" "\<forall>v\<in>set maps. vma_begin v < vma_end v"
    and size: "sz = core_size ELF64 (build_headers m st maps (builder psz va msk))"
    and mm: "os_mmap os h sz = Some b" "b \<noteq> 0" "unat b + unat sz < 2 ^ 64"
  shows "\<exists>mp h' c nb. build_image os m st maps (builder psz va msk) h = Inr (Some mp, h') \<and>
    Core_Load q vb rem (Some mp) h' inst = Inr (True, Some c) \<and> core_ok c \<and>
    map (\<lambda>i. let b = blk c i in (mVaddr b, mMemSize b, mFlags b, mFileName b, mPageOffset b)) (mLoad c) =
      map (\<lambda>v. (vma_begin v, vma_end v - vma_begin v, ucast (ph_flags (vma_phdr v)), cf_name (vma_item v), cf_offset (vma_item v))) maps \<and>
    mNote c = [nb] \<and> map (\<lambda>t. (mPid t, th_reg t)) (mThread nb) = [(st_Tid st, st_Regs st)] \<and>
    map (\<lambda>a. (mType a, mValue a)) (mAuxvs nb) =
      [(AT_PHDR, 0), (AT_PHENT, 56), (AT_PHNUM, 2), (AT_PAGESZ, ucast psz), (0, 0)] \<and>
    mFiles nb = map vma_item maps"
proof -
  have "plain_machine m = m" "fitted m st = st" "admitted maps = maps"
    using m few regs names by (auto simp: plain_machine_def fitted_same admitted_def)
  then show ?thesis
    using crash_image.image_result [of os h m st maps psz va msk b q vb rem inst] mm ord unfolding size by simp
qed

text \<open>A crash with two memory areas.\<close>

definition demo_area :: "u64 \<Rightarrow> u64 \<Rightarrow> char \<times> char \<times> char \<times> char \<Rightarrow> u32 \<Rightarrow> string \<Rightarrow> vma" where
  "demo_area b e fl off name = \<lparr>vma_begin = b, vma_end = e, vma_flags = fl, vma_offset = off, vma_major = 0, vma_minor = 0,
     vma_inode = 0, vma_load_bias = 0, vma_file = name, vma_buildid = []\<rparr>"

definition demo_areas :: "vma list" where
  "demo_areas = [demo_area 0x1000 0x3000 (CHR ''r'', CHR ''-'', CHR ''x'', CHR ''p'') 0x2800 ''/bin/a'',
     demo_area 0x8000 0x9000 (CHR ''r'', CHR ''w'', CHR ''-'', CHR ''p'') 0 ''[heap]'']"

definition demo_crash :: crash_stream where
  "demo_crash = \<lparr>st_Parse = True, st_Tid = 77, st_Executable = [], st_Libs = [], st_Memorys = [], st_Maps = demo_areas,
     st_Regs = replicate 216 7, st_TaggedAddr = - 1, st_PacEnabledKeys = - 1\<rparr>"

definition demo_kernel :: os_env where
  "demo_kernel = \<lparr>os_file = (\<lambda>_. None), os_mmap = (\<lambda>h n. Some 0x10000), os_page_size = 4096\<rparr>"

lemma demo_core_size: "core_size ELF64 (build_headers EM_X86_64 demo_crash demo_areas (builder 0x4000 0 0)) = 0x1000"
  by code_simp

theorem fake_core_loads_witness:
  "\<exists>mp h' c nb. build_image demo_kernel EM_X86_64 demo_crash demo_areas (builder 0x4000 0 0) (\<lambda>_. None) = Inr (Some mp, h') \<and>
    Core_Load True 0 False (Some mp) h' None = Inr (True, Some c) \<and> core_ok c \<and>
    map (\<lambda>i. let b = blk c i in (mVaddr b, mMemSize b, mFlags b, mFileName b, mPageOffset b)) (mLoad c) =
      [(0x1000, 0x2000, 5, ''/bin/a'', 0x2000), (0x8000, 0x1000, 6, ''[heap]'', 0)] \<and>
    mNote c = [nb] \<and> map (\<lambda>t. (mPid t, th_reg t)) (mThread nb) = [(77, replicate 216 7)]"
proof -
  have "sorted_wrt (\<lambda>u v. vma_end u \<le> vma_begin v) demo_areas" "\<forall>v\<in>set demo_areas. vma_begin v < vma_end v"
    "length demo_areas < 2 ^ 24" "names_length demo_areas < 2 ^ 30"
    by (simp_all add: demo_areas_def demo_area_def names_length_def)
  moreover have "\<forall>v\<in>set demo_areas. no_nul (vma_file v)" by code_simp
  moreover have "length (st_Regs demo_crash) = sizeof_Register EM_X86_64" by (simp add: demo_crash_def)
  moreover have "os_mmap demo_kernel (\<lambda>_. None) 0x1000 = Some 0x10000" by (simp add: demo_kernel_def)
  moreover have "map (\<lambda>v. (vma_begin v, vma_end v - vma_begin v, ucast (ph_flags (vma_phdr v)) :: u32, cf_name (vma_item v),
      cf_offset (vma_item v))) demo_areas = [(0x1000, 0x2000, 5, ''/bin/a'', 0x2000), (0x8000, 0x1000, 6, ''[heap]'', 0)]"
    by code_simp
  ultimately show ?thesis
    using fake_core_loads [of EM_X86_64 demo_areas demo_crash "0x1000" "0x4000" 0 0 demo_kernel "\<lambda>_. None" "0x10000" True 0 False None]
      demo_core_size by (auto simp: demo_crash_def)
qed

end
