(* ===== verification/FakeLinks.thy ===== *)
theory FakeLinks
  imports FakeBuild "HOL-Library.Char_ord" "HOL-Library.List_Lexorder"
begin

unbundle bit_operations_syntax

text \<open>
  The fake shared libraries of a built core (parser/command/fake/core/lp64/fake_core.cpp and its
  32-bit twin, parser/command/fake/map, parser/command/fake/exec): program headers, a dynamic
  section with a debug structure, a list of link maps and their names are written into a
  new segment, so that the walk over the link maps finds the libraries. The same code serves
  the commands \<open>fake map\<close> and \<open>fake exec\<close>. The last section completes \<open>FakeCore::execute\<close> of the
  architectures. Each definition covers both word classes; \<open>trunc\<close> marks the 32-bit variables.
\<close>

section \<open>Names of libraries\<close>

text \<open>A set of strings is listed in the order of \<open>std::set\<close>, by unsigned bytes.\<close>

abbreviation set_insert :: "string \<Rightarrow> string list \<Rightarrow> string list" where
  "set_insert \<equiv> insort_insert"

text \<open>The parts of a library string before and after its first colon; \<open>substr(pos + 1, 32)\<close> is the build id.\<close>

definition lib_name :: "string \<Rightarrow> string" where
  "lib_name lib = takeWhile (\<lambda>ch. ch \<noteq> CHR '':'') lib"

definition lib_buildid :: "string \<Rightarrow> string" where
  "lib_buildid lib = take 32 (drop 1 (dropWhile (\<lambda>ch. ch \<noteq> CHR '':'') lib))"

text \<open>
  The two nested loops of \<open>FindModuleLoad\<close> and \<open>FindModuleFromLoadBlock\<close> over the areas of a file, given
  by begin, offset and load bias: the first area that a later one does not lie above.
\<close>

fun module_scan :: "(u64 \<times> u64 \<times> u64) list \<Rightarrow> u64" where
  "module_scan [] = 0"
| "module_scan ((bgn, off, bias) # rest) =
     (let found = (if list_ex (\<lambda>(b, o', _). b \<le> bgn - off + o' + bias) rest then bgn else 0)
      in if found \<noteq> 0 then found else module_scan rest)"

definition module_load :: "(u64 \<times> u64 \<times> u64) list \<Rightarrow> u64" where
  "module_load tmps =
     (if tmps = [] then 0
      else let m = module_scan tmps in if m \<noteq> 0 then m else fst (hd tmps))"

definition FindModuleLoad :: "vma list \<Rightarrow> string \<Rightarrow> u64" where
  "FindModuleLoad maps lib =
     module_load (map (\<lambda>v. (vma_begin v, ucast (vma.vma_offset v), ucast (vma_load_bias v)))
       (filter (\<lambda>v. \<not> (vma_file v \<noteq> lib_name lib \<or> (lib_buildid lib \<noteq> [] \<and> vma_buildid v \<noteq> lib_buildid lib))) maps))"

definition FindModuleFromLoadBlock :: "string \<Rightarrow> core \<Rightarrow> u64" where
  "FindModuleFromLoadBlock name c =
     module_load (foreachLoadBlock (\<lambda>i tmps.
         (False, if mFileName (blk c i) \<noteq> name then tmps
                 else tmps @ [(mVaddr (blk c i), mPageOffset (blk c i), 0)])) False False c [])"

section \<open>Libraries inside of archives\<close>

definition apk_path :: "vma \<Rightarrow> bool" where
  "apk_path v \<longleftrightarrow> vma.vma_offset v \<noteq> 0 \<and> str_contains ''.apk'' (vma_file v) \<and> \<not> str_contains ''!'' (vma_file v)"

text \<open>The pages of an uncompressed entry, and its name.\<close>

definition apk_entry :: "u64 \<Rightarrow> zip_entry \<Rightarrow> (u64 \<times> u64 \<times> string) option" where
  "apk_entry ps ze =
     (if \<not> IsUncompressed ze then None
      else
        (let fo = of_nat (getFileOffset ze) :: u64;
             fs = of_nat (getLHFOffset ze) + of_nat (getEntryTotalMemsz ze) - fo
         in Some (RoundDown fo ps, RoundUp (fo + fs) ps, case entry_name ze of Some n \<Rightarrow> n | None \<Rightarrow> [])))"

definition rename_vma :: "string \<Rightarrow> (u64 \<times> u64 \<times> string) list \<Rightarrow> vma \<Rightarrow> vma" where
  "rename_vma apk entries v =
     (if vma_file v \<noteq> apk \<or> vma.vma_offset v = 0 then v
      else
        (let off = ucast (vma.vma_offset v) :: u64 in
         case find (\<lambda>(b, e, _). off \<ge> b \<and> off + (vma_end v - vma_begin v) \<le> e) entries of
           None \<Rightarrow> v
         | Some (_, _, n) \<Rightarrow> v\<lparr>vma_file := apk @ ''!'' @ n\<rparr>))"

text \<open>An entry without a name gives a null pointer to the constructor of the string.\<close>

fun rename_apks ::
  "os_env \<Rightarrow> u8 list \<Rightarrow> (string \<Rightarrow> string \<Rightarrow> string option) \<Rightarrow> string list \<Rightarrow> u64 \<Rightarrow> string list \<Rightarrow> vma list \<Rightarrow> vma list res" where
  "rename_apks os junk SearchFile dirs ps [] maps = Inr maps"
| "rename_apks os junk SearchFile dirs ps (apk # apks) maps =
     (case search_dirs SearchFile apk dirs of
        None \<Rightarrow> rename_apks os junk SearchFile dirs ps apks maps
      | Some fp \<Rightarrow>
          if fp = [] then rename_apks os junk SearchFile dirs ps apks maps
          else
            res_bind (ZipFile_open os junk fp) (\<lambda>z.
              case z of None \<Rightarrow> rename_apks os junk SearchFile dirs ps apks maps
              | Some es \<Rightarrow>
                  if list_ex (\<lambda>ze. IsUncompressed ze \<and> entry_name ze = None) es then Inl (HostFault 0)
                  else rename_apks os junk SearchFile dirs ps apks
                    (map (rename_vma apk (List.map_filter (apk_entry ps) es)) maps)))"

definition plain_lib :: "string \<Rightarrow> bool" where
  "plain_lib lib \<longleftrightarrow> \<not> str_contains ''.apk'' (lib_name lib) \<or> str_contains ''!'' (lib_name lib)"

text \<open>The last loop: the set of libraries and the set \<open>seen\<close>.\<close>

definition add_embedded :: "vma \<Rightarrow> string list \<times> string list \<Rightarrow> string list \<times> string list" where
  "add_embedded v = (\<lambda>(libs, seen).
     if \<not> str_contains ''.apk!'' (vma_file v) \<or> \<not> str_contains ''.so'' (vma_file v) \<or> vma_file v \<in> set seen then (libs, seen)
     else (set_insert (if vma_buildid v \<noteq> [] then vma_file v @ '':'' @ vma_buildid v else vma_file v) libs,
           set_insert (vma_file v) seen))"

text \<open>\<open>ResolveApkEmbeddedSo\<close> changes the maps and the libraries of the stream.\<close>

definition ResolveApkEmbeddedSo ::
  "os_env \<Rightarrow> u8 list \<Rightarrow> (string \<Rightarrow> string \<Rightarrow> string option) \<Rightarrow> string \<Rightarrow> fake_core \<Rightarrow> crash_stream \<Rightarrow> crash_stream res" where
  "ResolveApkEmbeddedSo os junk SearchFile sysroot f st =
     (if \<not> NeedResolveApk f \<or> sysroot = [] then Inr st
      else
        (let apks = fold (\<lambda>v s. if apk_path v then set_insert (vma_file v) s else s) (st_Maps st) [];
             ps = (if fc_page_size f \<noteq> 0 then ucast (fc_page_size f) else ELF_PAGE_SIZE)
         in res_bind (rename_apks os junk SearchFile (strtok (CHR '':'') sysroot) ps apks (st_Maps st)) (\<lambda>maps.
              (let kept = filter plain_lib (st_Libs st)
               in Inr (st\<lparr>st_Maps := maps, st_Libs := fst (fold add_embedded maps (kept, []))\<rparr>)))))"

section \<open>Auxiliary vector of the loaded core\<close>

text \<open>
  \<open>ForeachAuxv\<close> with a callback that sets values: the positions of the entries in the order of the walk, and
  for each the value that the callback sets, if it does.
\<close>

definition auxv_slots :: "core \<Rightarrow> (nat \<times> nat) list" where
  "auxv_slots c = concat (map (\<lambda>j. map (Pair j) [0..<length (mAuxvs (mNote c ! j))]) [0..<length (mNote c)])"

fun set_auxvs ::
  "os_env \<Rightarrow> (auxv \<Rightarrow> core \<Rightarrow> (u64 option \<times> core) res) \<Rightarrow> (nat \<times> nat) list \<Rightarrow> core \<Rightarrow> core res" where
  "set_auxvs os cb [] c = Inr c"
| "set_auxvs os cb ((j, i) # slots) c =
     res_bind (cb (mAuxvs (mNote c ! j) ! i) c) (\<lambda>(v, c1).
     res_bind
       (case v of None \<Rightarrow> Inr c1
        | Some val \<Rightarrow>
            res_bind (Auxv_setValue os (mem c1) (getPointSize (core_machine c1)) i val (mNote c1 ! j)) (\<lambda>(nb, h).
              Inr (c1\<lparr>mNote := (mNote c1)[j := nb], mem := h\<rparr>)))
       (set_auxvs os cb slots))"

section \<open>Program headers and dynamic section\<close>

definition FAKECORE_VMA :: string where "FAKECORE_VMA = ''[FAKECORE]''"

definition fake_phdr_callback :: "elf_class \<Rightarrow> u64 \<Rightarrow> auxv \<Rightarrow> core \<Rightarrow> (u64 option \<times> core) res" where
  "fake_phdr_callback cls fake_phdr a c =
     Inr (if mType a = AT_PHDR then Some (fake_phdr + sizeof_Ehdr cls)
          else if mType a = AT_EXECFN then Some 0 else None, c)"

definition fake_ehdr :: "elf_class \<Rightarrow> core \<Rightarrow> elf_ehdr" where
  "fake_ehdr cls c =
     ehdr_zero\<lparr>e_ident := elf_ident cls, e_type := ET_DYN, e_machine := ucast (getMachine (core_machine c)), e_version := 1,
       e_phoff := sizeof_Ehdr cls, elf_ehdr.e_ehsize := sizeof_Ehdr cls, e_phentsize := sizeof_Phdr cls,
       elf_ehdr.e_phnum := DEF_FAKE_PHNUM\<rparr>"

definition fake_pt_phdr :: "elf_class \<Rightarrow> u64 \<Rightarrow> elf_phdr" where
  "fake_pt_phdr cls psz =
     \<lparr>ph_flags = 4, ph_offset = sizeof_Ehdr cls, ph_vaddr = sizeof_Ehdr cls, ph_paddr = sizeof_Ehdr cls,
      ph_filesz = 0, ph_memsz = psz, ph_align = 8\<rparr>"

definition fake_pt_dynamic :: "u64 \<Rightarrow> elf_phdr" where
  "fake_pt_dynamic psz =
     \<lparr>ph_flags = 6, ph_offset = psz, ph_vaddr = psz * 1, ph_paddr = psz * 1, ph_filesz = psz * 1, ph_memsz = psz * 1,
      ph_align = 8\<rparr>"

definition CreateFakePhdr :: "elf_class \<Rightarrow> os_env \<Rightarrow> u64 \<Rightarrow> u64 \<Rightarrow> core \<Rightarrow> core res" where
  "CreateFakePhdr cls os fake_phdr fake_dynamic c =
     res_bind (set_auxvs os (fake_phdr_callback cls fake_phdr) (auxv_slots c) c) (\<lambda>c1.
     res_bind (Core_Write os fake_phdr (ehdr_bytes cls (fake_ehdr cls c1)) c1) (\<lambda>c2.
       (let (psz, c3) = getPageSize c2 in
        res_bind (Core_Write os (fake_phdr + sizeof_Ehdr cls) (phdr_bytes cls PT_PHDR (fake_pt_phdr cls psz)) c3) (\<lambda>c4.
          Core_Write os (fake_phdr + sizeof_Ehdr cls + sizeof_Phdr cls) (phdr_bytes cls PT_DYNAMIC (fake_pt_dynamic psz)) c4))))"

text \<open>\<open>lp64::Dynamic\<close> and \<open>lp64::Debug\<close>: two words each.\<close>

definition pair_bytes :: "elf_class \<Rightarrow> u64 \<Rightarrow> u64 \<Rightarrow> u8 list" where
  "pair_bytes cls a b = le_bytes (ptr_size cls) (unat a) @ le_bytes (ptr_size cls) (unat b)"

definition sizeof_pair :: "elf_class \<Rightarrow> u64" where "sizeof_pair cls = 2 * of_nat (ptr_size cls)"

definition CreateFakeDynamic :: "elf_class \<Rightarrow> os_env \<Rightarrow> u64 \<Rightarrow> u64 \<Rightarrow> core \<Rightarrow> core res" where
  "CreateFakeDynamic cls os fake_dynamic fake_link_map c =
     res_bind (Core_Write os fake_dynamic (pair_bytes cls DT_DEBUG (fake_dynamic + sizeof_pair cls)) c)
       (Core_Write os (fake_dynamic + sizeof_pair cls) (pair_bytes cls 1 fake_link_map))"

section \<open>Link maps and their names\<close>

text \<open>\<open>lp64::LinkMap\<close>\<close>

definition link_bytes :: "elf_class \<Rightarrow> u64 \<Rightarrow> u64 \<Rightarrow> u64 \<Rightarrow> u64 \<Rightarrow> u64 \<Rightarrow> u8 list" where
  "link_bytes cls addr name ld next_ptr prev_ptr =
     (let p = ptr_size cls in le_bytes p (unat addr) @ le_bytes p (unat name) @ le_bytes p (unat ld) @
        le_bytes p (unat next_ptr) @ le_bytes p (unat prev_ptr))"

definition entry_size :: "elf_class \<Rightarrow> u64" where
  "entry_size cls = RoundUp (5 * of_nat (ptr_size cls)) 0x10"

definition link_at :: "elf_class \<Rightarrow> u64 \<Rightarrow> nat \<Rightarrow> u64" where
  "link_at cls fake_link_map idx = trunc cls (fake_link_map + of_nat idx * entry_size cls)"

text \<open>The loop of \<open>CreateFakeLinkMap\<close>; \<open>modaddr\<close> finds the address of a library.\<close>

fun write_links ::
  "elf_class \<Rightarrow> os_env \<Rightarrow> (string \<Rightarrow> core \<Rightarrow> u64) \<Rightarrow> u64 \<Rightarrow> nat \<Rightarrow> nat \<Rightarrow> string list \<Rightarrow> core \<Rightarrow> core res" where
  "write_links cls os modaddr base num idx [] c = Inr c"
| "write_links cls os modaddr base num idx (lib # libs) c =
     res_bind (Core_Write os (link_at cls base idx)
         (link_bytes cls (modaddr lib c) 0 0 (if idx < num then link_at cls base (idx + 1) else 0)
            (link_at cls base (idx - 1))) c)
       (write_links cls os modaddr base num (idx + 1) libs)"

definition create_link_maps ::
  "elf_class \<Rightarrow> os_env \<Rightarrow> (string \<Rightarrow> core \<Rightarrow> u64) \<Rightarrow> u64 \<Rightarrow> u64 \<Rightarrow> string list \<Rightarrow> core \<Rightarrow> core res" where
  "create_link_maps cls os modaddr fake_vma fake_link_map libs c =
     res_bind (Core_Write os fake_link_map (link_bytes cls fake_vma 0 0 (link_at cls fake_link_map 1) 0) c)
       (write_links cls os modaddr fake_link_map (length libs) 1 libs)"

definition CreateFakeLinkMap ::
  "elf_class \<Rightarrow> os_env \<Rightarrow> u64 \<Rightarrow> u64 \<Rightarrow> string list \<Rightarrow> vma list \<Rightarrow> core \<Rightarrow> core res" where
  "CreateFakeLinkMap cls os fake_vma fake_link_map libs maps =
     create_link_maps cls os (\<lambda>lib _. trunc cls (FindModuleLoad maps lib)) fake_vma fake_link_map libs"

definition CreateFakeLinkMap64 :: "os_env \<Rightarrow> u64 \<Rightarrow> u64 \<Rightarrow> string list \<Rightarrow> core \<Rightarrow> core res" where
  "CreateFakeLinkMap64 os = create_link_maps ELF64 os FindModuleFromLoadBlock"

definition CreateFakeLinkMap32 :: "os_env \<Rightarrow> u64 \<Rightarrow> u64 \<Rightarrow> string list \<Rightarrow> core \<Rightarrow> core res" where
  "CreateFakeLinkMap32 os = create_link_maps ELF32 os (\<lambda>lib c. trunc ELF32 (FindModuleFromLoadBlock lib c))"

text \<open>One round of \<open>CreateFakeStrtab\<close>: the pointer to the name, and the name with its null byte.\<close>

definition put_name :: "elf_class \<Rightarrow> os_env \<Rightarrow> u64 \<Rightarrow> u64 \<Rightarrow> string \<Rightarrow> core \<Rightarrow> core res" where
  "put_name cls os link name_addr name c =
     res_bind (Core_Write os (link + of_nat (ptr_size cls)) (le_bytes (ptr_size cls) (unat name_addr)) c)
       (Core_Write os name_addr (str_bytes name @ [0]))"

definition name_room :: "string \<Rightarrow> u64" where
  "name_room name = RoundUp (of_nat (length name) + 1) 0x10"

fun write_names :: "elf_class \<Rightarrow> os_env \<Rightarrow> u64 \<Rightarrow> u64 \<Rightarrow> nat \<Rightarrow> u64 \<Rightarrow> string list \<Rightarrow> core \<Rightarrow> core res" where
  "write_names cls os strtab base idx tmp_off [] c = Inr c"
| "write_names cls os strtab base idx tmp_off (name # names) c =
     res_bind (put_name cls os (link_at cls base idx) (trunc cls (strtab + tmp_off)) name c)
       (write_names cls os strtab base (idx + 1) (trunc cls (tmp_off + name_room name)) names)"

definition CreateFakeStrtab :: "elf_class \<Rightarrow> os_env \<Rightarrow> u64 \<Rightarrow> u64 \<Rightarrow> string list \<Rightarrow> core \<Rightarrow> core res" where
  "CreateFakeStrtab cls os fake_strtab fake_link_map libs =
     write_names cls os fake_strtab fake_link_map 0 0 (FAKECORE_VMA # map lib_name libs)"

section \<open>parser/command/fake/map\<close>

definition FLAG_RW :: u32 where "FLAG_RW = FLAG_R OR FLAG_W"

text \<open>The segment that holds everything, and the four steps that fill it; \<open>None\<close> when there is no room.\<close>

definition fill_fake_vma ::
  "elf_class \<Rightarrow> os_env \<Rightarrow> (u64 \<Rightarrow> u64 \<Rightarrow> string list \<Rightarrow> core \<Rightarrow> core res) \<Rightarrow> u64 \<Rightarrow> u64 \<Rightarrow> u64 \<Rightarrow> string list \<Rightarrow> core \<Rightarrow> core res" where
  "fill_fake_vma cls os create_links psz link_len fake_vma libs c =
     (let fake_dynamic = trunc cls (fake_vma + psz);
          fake_link_map = trunc cls (fake_dynamic + psz);
          fake_strtab = trunc cls (fake_link_map + link_len)
      in res_bind (CreateFakePhdr cls os fake_vma fake_dynamic c) (\<lambda>c1.
         res_bind (CreateFakeDynamic cls os fake_dynamic fake_link_map c1) (\<lambda>c2.
         res_bind (create_links fake_vma fake_link_map libs c2) (\<lambda>c3.
           CreateFakeStrtab cls os fake_strtab fake_link_map libs c3))))"

definition auto_lib :: "load_block \<Rightarrow> bool" where
  "auto_lib b \<longleftrightarrow> mFlags b AND FLAG_X \<noteq> 0 \<and> length (mFileName b) > 0 \<and>
     (hd (mFileName b) = CHR ''/'' \<or> mFileName b = ''[vdso]'')"

definition auto_libs :: "elf_class \<Rightarrow> core \<Rightarrow> string list \<times> u64 \<times> u64" where
  "auto_libs cls c =
     foreachLoadBlock (\<lambda>i (libs, ll, sl).
       (False,
        if auto_lib (blk c i) then
          (set_insert (mFileName (blk c i)) libs, trunc cls (ll + entry_size cls), trunc cls (sl + name_room (mFileName (blk c i))))
        else (libs, ll, sl))) False False c ([], 0, 0)"

text \<open>\<open>RoundUp(len, GetPageSize()) / GetPageSize()\<close> at the width of \<open>len\<close>.\<close>

fun pages_of :: "elf_class \<Rightarrow> u64 \<Rightarrow> u64 \<Rightarrow> u64" where
  "pages_of ELF64 len psz = RoundUp len psz div psz"
| "pages_of ELF32 len psz = trunc ELF32 (ucast (RoundUp (ucast len :: u32) (ucast psz)) div psz)"

definition AutoCreate :: "elf_class \<Rightarrow> os_env \<Rightarrow> core \<Rightarrow> core res" where
  "AutoCreate cls os c =
     (case auto_libs cls c of (libs, link_map_len, strtab_len) \<Rightarrow>
        if libs = [] then Inr c
        else
          (let (psz, c1) = getPageSize c;
               lp = pages_of cls link_map_len psz; sp = pages_of cls strtab_len psz
           in res_bind (newLoadBlock os 0 (psz * trunc cls (1 + 1 + lp + sp)) FLAG_RW c1) (\<lambda>(vma, c2).
                (let fake_vma = trunc cls vma in
                 if fake_vma = 0 then Inr c2
                 else
                   res_bind (fill_fake_vma cls os (create_link_maps cls os (\<lambda>lib c. trunc cls (FindModuleFromLoadBlock lib c)))
                               psz (psz * lp) fake_vma libs c2)
                     (\<lambda>c3. Inr (CleanCache c3))))))"

definition AutoCreate64 :: "os_env \<Rightarrow> core \<Rightarrow> core res" where "AutoCreate64 = AutoCreate ELF64"
definition AutoCreate32 :: "os_env \<Rightarrow> core \<Rightarrow> core res" where "AutoCreate32 = AutoCreate ELF32"

definition AppendFakeLinkMap :: "elf_class \<Rightarrow> os_env \<Rightarrow> u64 \<Rightarrow> u64 \<Rightarrow> u64 \<Rightarrow> string \<Rightarrow> u64 \<Rightarrow> core \<Rightarrow> (u64 \<times> core) res" where
  "AppendFakeLinkMap cls os prev fake_link_map addr name ld c =
     res_bind (if prev \<noteq> 0
               then Core_Write os (prev + 3 * of_nat (ptr_size cls)) (le_bytes (ptr_size cls) (unat fake_link_map)) c
               else Inr c) (\<lambda>c1.
     res_bind (Core_Write os fake_link_map (link_bytes cls addr 0 ld 0 prev) c1) (\<lambda>c2.
     res_bind (put_name cls os fake_link_map (trunc cls (fake_link_map + entry_size cls)) name c2) (\<lambda>c3.
       Inr (trunc cls (entry_size cls + name_room name), c3))))"

definition AppendFakeLinkMap64 :: "os_env \<Rightarrow> u64 \<Rightarrow> u64 \<Rightarrow> u64 \<Rightarrow> string \<Rightarrow> u64 \<Rightarrow> core \<Rightarrow> (u64 \<times> core) res" where
  "AppendFakeLinkMap64 = AppendFakeLinkMap ELF64"
definition AppendFakeLinkMap32 :: "os_env \<Rightarrow> u64 \<Rightarrow> u64 \<Rightarrow> u64 \<Rightarrow> string \<Rightarrow> u64 \<Rightarrow> core \<Rightarrow> (u64 \<times> core) res" where
  "AppendFakeLinkMap32 = AppendFakeLinkMap ELF32"

text \<open>The first link map needs the program headers and the dynamic section too.\<close>

definition append_first :: "elf_class \<Rightarrow> os_env \<Rightarrow> u64 \<Rightarrow> u64 \<Rightarrow> string \<Rightarrow> u64 \<Rightarrow> u64 \<Rightarrow> core \<Rightarrow> core res" where
  "append_first cls os psz addr name ld fake_link_map c =
     res_bind (newLoadBlock os 0 (psz * (1 + 1)) FLAG_RW c) (\<lambda>(vma, c1).
       (let fake_vma = trunc cls vma; fake_dynamic = trunc cls (fake_vma + psz) in
        if fake_vma = 0 then Inr c1
        else
          res_bind (CreateFakePhdr cls os fake_vma fake_dynamic c1) (\<lambda>c2.
          res_bind (CreateFakeDynamic cls os fake_dynamic fake_link_map c2) (\<lambda>c3.
          res_bind (AppendFakeLinkMap cls os 0 fake_link_map fake_vma FAKECORE_VMA 0 c3) (\<lambda>(tmp_off, c4).
          res_bind (AppendFakeLinkMap cls os fake_link_map (trunc cls (fake_link_map + tmp_off)) addr name ld c4)
            (\<lambda>(_, c5). Inr (CleanCache c5)))))))"

definition append_link :: "elf_class \<Rightarrow> os_env \<Rightarrow> u64 \<Rightarrow> string \<Rightarrow> u64 \<Rightarrow> core \<Rightarrow> core res" where
  "append_link cls os addr name ld c =
     (let (psz, c1) = getPageSize c in
      res_bind (newLoadBlock os 0 psz FLAG_RW c1) (\<lambda>(lm, c2).
        (let fake_link_map = trunc cls lm in
         if fake_link_map = 0 then Inr c2
         else if mLinkMaps c2 = [] then append_first cls os psz addr name ld fake_link_map c2
         else
           res_bind (AppendFakeLinkMap cls os (trunc cls (ref_vaddr (lm_ref (last (mLinkMaps c2))))) fake_link_map addr name ld c2)
             (\<lambda>(_, c3). Inr (CleanCache c3)))))"

definition FakeLinkMap_Append :: "elf_class \<Rightarrow> os_env \<Rightarrow> u64 \<Rightarrow> string \<Rightarrow> u64 \<Rightarrow> core \<Rightarrow> core res option" where
  "FakeLinkMap_Append cls os addr name ld c =
     map_option (\<lambda>r. res_bind r (\<lambda>(c1, handle).
         if handle \<noteq> None then Inr c1 else append_link cls os (trunc cls addr) name (trunc cls ld) c1))
       (FindLinkMap name c)"

text \<open>
  The loop of \<open>FakeLD64\<close> over the program headers at \<open>hdr\<close> for the \<open>i\<close>-th link map; \<open>e_phnum\<close> is read in
  every round and has 16 bits, so that \<open>2 ^ 16\<close> rounds are enough. The flag is \<open>need_calibrate\<close>.
\<close>

fun ld_loop :: "elf_class \<Rightarrow> os_env \<Rightarrow> nat \<Rightarrow> u64 \<Rightarrow> nat \<Rightarrow> nat \<Rightarrow> bool \<Rightarrow> core \<Rightarrow> (bool \<times> core) res" where
  "ld_loop cls os i hdr 0 num need c = Inr (need, c)"
| "ld_loop cls os i hdr (Suc n) num need c =
     res_bind (eh_phnum cls (mem c) hdr) (\<lambda>phnum.
       if num \<ge> unat phnum then Inr (need, c)
       else
         (let pa = hdr + sizeof_Ehdr cls + of_nat num * sizeof_Phdr cls in
          res_bind (ph_type (mem c) pa) (\<lambda>ty.
          res_bind (read_Phdr cls (mem c) pa) (\<lambda>p.
            if ty = PT_PHDR then
              res_bind (if ph_offset p \<noteq> ph_vaddr p
                        then res_bind (on_link i LinkMap_l_ld c) (\<lambda>(ld, c1). Inr (ld = 0, c1))
                        else Inr (False, c)) (\<lambda>(moved, c1).
                if moved then
                  res_bind (on_link i LinkMap_l_addr c1) (\<lambda>(laddr, c2).
                  res_bind (Core_Write os (ref_vaddr (lm_ref (mLinkMaps c2 ! i)) + ucast (l_addr (lm_off c2)))
                      (le_bytes (ptr_size cls) (unat (laddr + ph_offset p - ph_vaddr p))) c2)
                    (ld_loop cls os i hdr n (num + 1) True))
                else ld_loop cls os i hdr n (num + 1) need c1)
            else if ty = PT_DYNAMIC then
              res_bind (on_link i LinkMap_l_addr c) (\<lambda>(laddr, c1).
              res_bind (on_link i LinkMap_l_ld c1) (\<lambda>(ld, c2).
                (let vaddr = trunc cls (laddr + ph_vaddr p) in
                 if ld \<noteq> vaddr then
                   res_bind (Core_Write os (ref_vaddr (lm_ref (mLinkMaps c2 ! i)) + ucast (l_ld (lm_off c2)))
                       (le_bytes (ptr_size cls) (unat vaddr)) c2) (\<lambda>c3. Inr (need, c3))
                 else Inr (need, c2))))
            else ld_loop cls os i hdr n (num + 1) need c))))"

definition FakeLD :: "elf_class \<Rightarrow> os_env \<Rightarrow> nat \<Rightarrow> core \<Rightarrow> (bool \<times> core) res" where
  "FakeLD cls os i c =
     res_bind (on_link i LinkMap_l_addr c) (\<lambda>(laddr, c1).
       case findLoadBlock laddr False c1 of None \<Rightarrow> Inr (False, c1)
       | Some k \<Rightarrow>
           if \<not> isValid (blk c1 k) then Inr (False, c1)
           else
             (let hdr = LoadBlock_begin OPT_READ_ALL (blk c1 k) in
              res_bind (on_link i LinkMap_name c1) (\<lambda>(_, c2).
              res_bind (CheckLibrary c2 hdr) (\<lambda>lib.
                if \<not> lib then Inr (False, c2)
                else
                  res_bind (ld_loop cls os i hdr (2 ^ 16) 0 False c2) (\<lambda>(need, c3).
                    if need then
                      res_bind (ReadDynsyms c3 (mLinkMaps c3 ! i)) (\<lambda>lm.
                        Inr (True, c3\<lparr>mLinkMaps := (mLinkMaps c3)[i := lm]\<rparr>))
                    else Inr (True, c3))))))"

definition FakeLD64 :: "os_env \<Rightarrow> nat \<Rightarrow> core \<Rightarrow> (bool \<times> core) res" where "FakeLD64 = FakeLD ELF64"
definition FakeLD32 :: "os_env \<Rightarrow> nat \<Rightarrow> core \<Rightarrow> (bool \<times> core) res" where "FakeLD32 = FakeLD ELF32"

definition FakeLinkMap_LD :: "os_env \<Rightarrow> core \<Rightarrow> (core \<times> unit) res option" where
  "FakeLinkMap_LD os c =
     foreachLinkMap (\<lambda>i c _.
       res_bind (FakeLD (class_of (core_machine c)) os i c) (\<lambda>(_, c1). Inr (False, c1, ()))) c ()"

text \<open>\<open>DirectMmap\<close> opens the file and the sub-file as \<open>dlopen\<close> does.\<close>

definition DirectMmap ::
  "os_env \<Rightarrow> u8 list \<Rightarrow> nat \<Rightarrow> nat option \<Rightarrow> string \<Rightarrow> string option \<Rightarrow> core \<Rightarrow> (bool \<times> core) res" where
  "DirectMmap os junk i block file subfile c =
     res_bind (dlopen_map os junk file subfile (mem c)) (\<lambda>(r, h).
       (let c1 = c\<lparr>mem := h\<rparr> in
        case r of None \<Rightarrow> Inr (False, c1)
        | Some None \<Rightarrow> Inr (False, c1)
        | Some (Some mp) \<Rightarrow>
            res_bind (CheckLibrary c1 (mm_begin mp)) (\<lambda>lib.
              if \<not> lib then Inr (False, c1)
              else
                (case block of None \<Rightarrow> Inr (False, c1)
                 | Some k \<Rightarrow>
                     res_bind (on_link i LinkMap_l_addr c1) (\<lambda>(laddr, c2).
                       if mVaddr (blk c2 k) = laddr
                       then res_bind (map_block os k file (mm_offset mp) None c2) (\<lambda>c3. Inr (True, c3))
                       else Inr (False, c2))))))"

definition calibrate_cb ::
  "os_env \<Rightarrow> u8 list \<Rightarrow> (string \<Rightarrow> string \<Rightarrow> string option) \<Rightarrow> string list \<Rightarrow> nat \<Rightarrow> core \<Rightarrow> core res" where
  "calibrate_cb os junk SearchFile dirs i c =
     res_bind (on_link i LinkMap_l_ld c) (\<lambda>(ld, c1).
       if ld \<noteq> 0 then Inr c1
       else
         res_bind (on_link i LinkMap_name c1) (\<lambda>(nm, c2).
           (let parts = strtok (CHR ''!'') nm;
                sub = (if length parts > 1 then Some (parts ! 1) else None)
            in case (case parts of [] \<Rightarrow> None | ori # _ \<Rightarrow> search_dirs SearchFile ori dirs) of
                 None \<Rightarrow> Inr c2
               | Some fp \<Rightarrow>
                   if fp = [] then Inr c2
                   else
                     res_bind (on_link i LinkMap_l_addr c2) (\<lambda>(laddr, c3).
                       (let block = findLoadBlock laddr False c3 in
                        res_bind (DirectMmap os junk i block fp sub c3) (\<lambda>(ok, c4).
                          if \<not> ok then Inr c4
                          else
                            res_bind (FakeLD (class_of (core_machine c4)) os i c4) (\<lambda>(done_ld, c5).
                              Inr (if done_ld then c5
                                   else c5\<lparr>blocks := (blocks c5)[the block := removeMmap (blk c5 (the block))]\<rparr>))))))))"

definition FakeLinkMap_SysRoot ::
  "os_env \<Rightarrow> u8 list \<Rightarrow> (string \<Rightarrow> string \<Rightarrow> string option) \<Rightarrow> string \<Rightarrow> core \<Rightarrow> (core \<times> unit) res option" where
  "FakeLinkMap_SysRoot os junk SearchFile path c =
     foreachLinkMap (\<lambda>i c _. res_bind (calibrate_cb os junk SearchFile (strtok (CHR '':'') path) i c)
       (\<lambda>c1. Inr (False, c1, ()))) c ()"

end
