(* ===== verification/FakeRun.thy ===== *)
theory FakeRun
  imports FakeLinks
begin

unbundle bit_operations_syntax

text \<open>
  The rest of the core builder: rebuilding the dynamic section of the executable
  (parser/command/fake/exec), the words of memory that a crash description lists, and \<open>FakeCore::execute\<close>
  of the architectures from the description to the saved file. The functions are partial because the walk over
  the link maps is: on a cyclic list they do not return.
\<close>

section \<open>parser/command/fake/exec\<close>

text \<open>The two loops over the entries of the dynamic section at host address \<open>dyn\<close>.\<close>

fun has_debug :: "elf_class \<Rightarrow> host \<Rightarrow> u64 \<Rightarrow> nat list \<Rightarrow> bool res" where
  "has_debug cls h dyn [] = Inr False"
| "has_debug cls h dyn (k # ks) =
     res_bind (host_word h (dyn + of_nat k * sizeof_pair cls) (ptr_size cls)) (\<lambda>ty.
       if ty = DT_DEBUG then Inr True else has_debug cls h dyn ks)"

fun copy_dynamic :: "elf_class \<Rightarrow> os_env \<Rightarrow> u64 \<Rightarrow> u64 \<Rightarrow> nat list \<Rightarrow> core \<Rightarrow> core res" where
  "copy_dynamic cls os dyn target [] c = Inr c"
| "copy_dynamic cls os dyn target (k # ks) c =
     (let a = target + of_nat k * sizeof_pair cls; entry = dyn + of_nat k * sizeof_pair cls in
      res_bind (host_read (mem c) entry (2 * ptr_size cls)) (\<lambda>bs.
      res_bind (Core_Write os a bs c) (\<lambda>c1.
      res_bind (host_word (mem c1) entry (ptr_size cls)) (\<lambda>ty.
      res_bind (if ty = DT_DEBUG
                then res_bind (GetDebug c1) (\<lambda>(debug, c2).
                       Core_Write os a (pair_bytes cls DT_DEBUG (ref_vaddr debug)) c2)
                else Inr c1)
        (copy_dynamic cls os dyn target ks)))))"

text \<open>\<open>int numdynamic = phdr[i].p_filesz / sizeof(Dynamic)\<close>; a negative number gives no round.\<close>

definition numdynamic :: "elf_class \<Rightarrow> elf_phdr \<Rightarrow> nat" where
  "numdynamic cls p = nat (sint (ucast (ph_filesz p div sizeof_pair cls) :: 32 word))"

text \<open>The loop over the program headers of the file \<open>mp\<close>; the result tells whether it returns false.\<close>

fun rebuild_phdrs ::
  "elf_class \<Rightarrow> os_env \<Rightarrow> nat \<Rightarrow> memory_map \<Rightarrow> nat \<Rightarrow> nat \<Rightarrow> core \<Rightarrow> (bool \<times> core) res" where
  "rebuild_phdrs cls os i mp 0 num c = Inr (False, c)"
| "rebuild_phdrs cls os i mp (Suc n) num c =
     (let pa = mm_begin mp + sizeof_Ehdr cls + of_nat num * sizeof_Phdr cls in
      res_bind (ph_type (mem c) pa) (\<lambda>ty.
        if ty \<noteq> PT_DYNAMIC then rebuild_phdrs cls os i mp n (num + 1) c
        else
          res_bind (read_Phdr cls (mem c) pa) (\<lambda>p.
          res_bind (on_link i FindDynamic c) (\<lambda>(exec_dynamic, c1).
            (let dyn = mm_begin mp + ph_offset p; ks = [0..<numdynamic cls p] in
             res_bind (has_debug cls (mem c1) dyn ks) (\<lambda>found.
               if \<not> found then Inr (True, c1)
               else
                 res_bind (copy_dynamic cls os dyn (ref_vaddr exec_dynamic) ks c1)
                   (rebuild_phdrs cls os i mp n (num + 1))))))))"

text \<open>The address of the section \<open>.text\<close>, 0 when there is none.\<close>

fun sh_addr :: "elf_class \<Rightarrow> host \<Rightarrow> u64 \<Rightarrow> u64 res" where
  "sh_addr ELF64 h a = host_word h (a + 16) 8" | "sh_addr ELF32 h a = host_word h (a + 12) 4"

fun find_text :: "elf_class \<Rightarrow> host \<Rightarrow> memory_map \<Rightarrow> u64 \<Rightarrow> u64 \<Rightarrow> nat list \<Rightarrow> u64 res" where
  "find_text cls h mp shdr0 shstr [] = Inr 0"
| "find_text cls h mp shdr0 shstr (k # ks) =
     (let shdr = shdr0 + of_nat k * sizeof_Shdr cls in
      res_bind (sh_name h shdr) (\<lambda>nm.
        (let addr = shstr + nm in
         if addr < mm_begin mp \<or> addr \<ge> mm_begin mp + mm_size mp then find_text cls h mp shdr0 shstr ks
         else
           res_bind (c_string h addr) (\<lambda>s.
             if s = ''.text'' then sh_addr cls h shdr else find_text cls h mp shdr0 shstr ks))))"

definition text_addr :: "elf_class \<Rightarrow> host \<Rightarrow> memory_map \<Rightarrow> u64 res" where
  "text_addr cls h mp =
     res_bind (eh_shoff cls h (mm_begin mp)) (\<lambda>shoff.
     res_bind (eh_shstrndx cls h (mm_begin mp)) (\<lambda>ndx.
       (let shdr0 = mm_begin mp + shoff in
        res_bind (sh_offset cls h (shdr0 + ndx * sizeof_Shdr cls)) (\<lambda>stroff.
        res_bind (eh_shnum cls h (mm_begin mp)) (\<lambda>n.
          find_text cls h mp shdr0 (mm_begin mp + stroff) [0..<unat n])))))"

definition AT_ENTRY :: u64 where "AT_ENTRY = 9"

definition exec_auxv_callback ::
  "elf_class \<Rightarrow> nat \<Rightarrow> u64 \<Rightarrow> u64 \<Rightarrow> auxv \<Rightarrow> core \<Rightarrow> (u64 option \<times> core) res" where
  "exec_auxv_callback cls i phnum text a c =
     (if mType a = AT_PHDR then res_bind (on_link i LinkMap_l_addr c) (\<lambda>(laddr, c1). Inr (Some (laddr + sizeof_Ehdr cls), c1))
      else if mType a = AT_PHNUM then Inr (Some phnum, c)
      else if mType a = AT_ENTRY then res_bind (on_link i LinkMap_l_addr c) (\<lambda>(laddr, c1). Inr (Some (laddr + text), c1))
      else Inr (None, c))"

text \<open>\<open>appendAuxvItem\<close> on the first note that has room for auxiliary vector entries.\<close>

definition append_entry :: "os_env \<Rightarrow> nat \<Rightarrow> u64 \<Rightarrow> core \<Rightarrow> core res" where
  "append_entry os i text c =
     (case find (\<lambda>j. mAuxvMax (mNote c ! j) \<noteq> 0) [0..<length (mNote c)] of
        None \<Rightarrow> Inr c
      | Some j \<Rightarrow>
          res_bind (on_link i LinkMap_l_addr c) (\<lambda>(laddr, c1).
          res_bind (appendAuxvItem os (mem c1) (getPointSize (core_machine c1)) AT_ENTRY (laddr + text) (mNote c1 ! j))
            (\<lambda>(nb, h). Inr (c1\<lparr>mNote := (mNote c1)[j := nb], mem := h\<rparr>))))"

definition rebuild_auxv :: "elf_class \<Rightarrow> os_env \<Rightarrow> nat \<Rightarrow> memory_map \<Rightarrow> core \<Rightarrow> core res" where
  "rebuild_auxv cls os i mp c =
     res_bind (text_addr cls (mem c) mp) (\<lambda>text.
     res_bind (eh_phnum cls (mem c) (mm_begin mp)) (\<lambda>phnum.
       (let has_entry = list_ex (\<lambda>a. mType a = AT_ENTRY) (concat (map mAuxvs (mNote c))) in
        res_bind (set_auxvs os (exec_auxv_callback cls i phnum text) (auxv_slots c) c) (\<lambda>c1.
          if has_entry then Inr c1 else append_entry os i text c1))))"

definition RebuildExecDynamic :: "elf_class \<Rightarrow> os_env \<Rightarrow> nat \<Rightarrow> core \<Rightarrow> (bool \<times> core) res" where
  "RebuildExecDynamic cls os i c =
     res_bind (on_link i LinkMap_block c) (\<lambda>(b, c1).
       case b of None \<Rightarrow> Inr (False, c1)
       | Some k \<Rightarrow>
           if mMmap (blk c1 k) = None then Inr (False, c1)
           else
             (case MmapFile os (mem c1) (LoadBlock_name (blk c1 k)) of
                (None, h) \<Rightarrow> Inr (False, c1\<lparr>mem := h\<rparr>)
              | (Some mp, h) \<Rightarrow>
                  (let c2 = c1\<lparr>mem := h\<rparr> in
                   res_bind (CheckLibrary c2 (mm_begin mp)) (\<lambda>lib.
                     if \<not> lib then Inr (False, c2)
                     else
                       res_bind (ph_type h (mm_begin mp + sizeof_Ehdr cls)) (\<lambda>ty.
                         if ty \<noteq> PT_PHDR then Inr (False, c2)
                         else
                           res_bind (eh_phnum cls h (mm_begin mp)) (\<lambda>n.
                           res_bind (rebuild_phdrs cls os i mp (unat n) 0 c2) (\<lambda>(failed, c3).
                             if failed then Inr (False, c3)
                             else res_bind (rebuild_auxv cls os i mp c3) (\<lambda>c4. Inr (True, c4))))))))
     )"

definition RebuildExecDynamic64 :: "os_env \<Rightarrow> nat \<Rightarrow> core \<Rightarrow> (bool \<times> core) res" where
  "RebuildExecDynamic64 = RebuildExecDynamic ELF64"
definition RebuildExecDynamic32 :: "os_env \<Rightarrow> nat \<Rightarrow> core \<Rightarrow> (bool \<times> core) res" where
  "RebuildExecDynamic32 = RebuildExecDynamic ELF32"

section \<open>Memory content\<close>

definition shadow_vma :: "string \<Rightarrow> bool" where
  "shadow_vma nm \<longleftrightarrow> nm = ''[anon:low shadow]'' \<or> nm = ''[anon:high shadow]'' \<or> take 12 nm = ''[anon:hwasan''"

text \<open>One word; a missing segment is ignored. The 64-bit builders skip shadow memory.\<close>

definition restore_word :: "elf_class \<Rightarrow> os_env \<Rightarrow> u64 \<times> u64 \<Rightarrow> core \<Rightarrow> core res" where
  "restore_word cls os w c =
     (let write = (case Core_Write64 os (fst w) (snd w) c of
                     Inl (InvalidAddressException a) \<Rightarrow> Inr c | r \<Rightarrow> r)
      in case cls of
           ELF32 \<Rightarrow> write
         | ELF64 \<Rightarrow>
             (case findLoadBlock (fst w) False c of None \<Rightarrow> Inr c
              | Some k \<Rightarrow> if shadow_vma (mFileName (blk c k)) then Inr c else write))"

fun restore_memory :: "elf_class \<Rightarrow> os_env \<Rightarrow> (u64 \<times> u64) list \<Rightarrow> core \<Rightarrow> core res" where
  "restore_memory cls os [] c = Inr c"
| "restore_memory cls os (w # ws) c = res_bind (restore_word cls os w c) (restore_memory cls os ws)"

section \<open>FakeCore::execute of the architectures\<close>

text \<open>The libraries of the description, or those found in the segments; false is the early return.\<close>

definition fake_libs :: "elf_class \<Rightarrow> os_env \<Rightarrow> crash_stream \<Rightarrow> fake_core \<Rightarrow> core \<Rightarrow> (bool \<times> core) res" where
  "fake_libs cls os st f c =
     (if st_Libs st \<noteq> [] then
        res_bind (newLoadBlock os 0 (ucast (fc_page_size f * (1 + 1 + 1 + 1))) FLAG_RW c) (\<lambda>(vma, c1).
          (let fake_vma = trunc cls vma; psz = ucast (fc_page_size f) in
           if fake_vma = 0 then Inr (False, c1)
           else
             res_bind (fill_fake_vma cls os (\<lambda>v l libs. CreateFakeLinkMap cls os v l libs (st_Maps st)) psz psz fake_vma
                         (st_Libs st) c1)
               (\<lambda>c2. Inr (True, c2))))
      else res_bind (AutoCreate cls os c) (\<lambda>c1. Inr (True, c1)))"

definition opt_bind :: "(core \<times> 'a) res option \<Rightarrow> (core \<Rightarrow> 'a \<Rightarrow> 'b res option) \<Rightarrow> 'b res option" where
  "opt_bind r k = (case r of None \<Rightarrow> None | Some (Inl e) \<Rightarrow> Some (Inl e) | Some (Inr (c, a)) \<Rightarrow> k c a)"

text \<open>The file search, the xz decoder, what is uninitialised, and whether the output file can be opened.\<close>

record host_tools =
  ht_SearchFile :: "string \<Rightarrow> string \<Rightarrow> string option"
  ht_decode :: "host \<Rightarrow> u64 \<Rightarrow> u64 \<Rightarrow> (memory_map \<times> host) option"
  ht_junk :: "u8 list"
  ht_opened :: bool

definition linker_ld :: "os_env \<Rightarrow> host_tools \<Rightarrow> string \<Rightarrow> core \<Rightarrow> (core \<times> unit) res option" where
  "linker_ld os ht sysroot c =
     (if sysroot = [] then Some (Inr (c, ()))
      else
        opt_bind (FakeLinkMap_SysRoot os (ht_junk ht) (ht_SearchFile ht) sysroot c) (\<lambda>c1 _.
          SysRoot os (ht_junk ht) (ht_SearchFile ht) (ht_decode ht) sysroot c1))"

definition rebuild_exec :: "elf_class \<Rightarrow> os_env \<Rightarrow> crash_stream \<Rightarrow> fake_core \<Rightarrow> string \<Rightarrow> core \<Rightarrow> (core \<times> unit) res option" where
  "rebuild_exec cls os st f exe c =
     (let executable = (if exe \<noteq> [] then exe else st_Executable st) in
      if \<not> NoFakePhdr f \<or> executable = [] then Some (Inr (c, ()))
      else
        opt_bind (FindLinkMap executable c) (\<lambda>c1 handle.
          case handle of None \<Rightarrow> Some (Inr (c1, ()))
          | Some i \<Rightarrow> Some (res_bind (RebuildExecDynamic cls os i c1) (\<lambda>(_, c2). Inr (c2, ())))))"

text \<open>From the loaded core to the saved file; \<open>None\<close> inside when no file is written.\<close>

definition finish_core ::
  "elf_class \<Rightarrow> os_env \<Rightarrow> host_tools \<Rightarrow> crash_stream \<Rightarrow> fake_core \<Rightarrow> string \<Rightarrow> string \<Rightarrow> core \<Rightarrow> (core \<times> u8 list option) res option" where
  "finish_core cls os ht st f sysroot exe c =
     (case fake_libs cls os st f c of
        Inl e \<Rightarrow> Some (Inl e)
      | Inr (False, c1) \<Rightarrow> Some (Inr (c1, None))
      | Inr (True, c1) \<Rightarrow>
          opt_bind (linker_ld os ht sysroot c1) (\<lambda>c2 _.
          opt_bind (rebuild_exec cls os st f exe c2) (\<lambda>c3 _.
            Some (res_bind (restore_memory cls os (st_Memorys st) c3) (\<lambda>c4.
              if NeedRebuild f then res_bind (FakeCore_execute (Some c4) (ht_opened ht)) (\<lambda>out. Inr (c4, out))
              else Inr (c4, None))))))"

text \<open>\<open>execute\<close> of the five architectures; the result is the new instance, if any, and the file.\<close>

definition machine_execute ::
  "machine \<Rightarrow> os_env \<Rightarrow> host_tools \<Rightarrow> bool \<Rightarrow> u64 \<Rightarrow> crash_stream \<Rightarrow> fake_core \<Rightarrow> string \<Rightarrow> string \<Rightarrow> core option \<Rightarrow> host
     \<Rightarrow> (core option \<times> u8 list option) res option" where
  "machine_execute m os ht quick va st0 f sysroot exe inst h =
     (if \<not> st_Parse st0 then Some (Inr (inst, None))
      else
        (case res_bind (ResolveApkEmbeddedSo os (ht_junk ht) (ht_SearchFile ht) sysroot f st0) (\<lambda>st.
              res_bind (build_image os m st (st_Maps st) f h) (\<lambda>(mp, h1).
                case mp of None \<Rightarrow> Inr (st, False, inst)
                | Some _ \<Rightarrow> res_bind (Core_Load quick va False mp h1 inst) (\<lambda>(ok, inst1). Inr (st, ok, inst1)))) of
           Inl e \<Rightarrow> Some (Inl e)
         | Inr (st, True, Some c) \<Rightarrow>
             (case finish_core (class_of m) os ht st f sysroot exe c of
                None \<Rightarrow> None
              | Some r \<Rightarrow> Some (res_bind r (\<lambda>(c1, out). Inr (Some c1, out))))
         | Inr (st, _, inst1) \<Rightarrow> Some (Inr (inst1, None))))"

section \<open>The 32-bit class lp32::FakeCore\<close>

definition lp32_ParserPhdr :: "vma \<Rightarrow> fake_core \<Rightarrow> fake_core" where
  "lp32_ParserPhdr = ParserPhdr ELF32"
definition lp32_ParserNtFile :: "vma \<Rightarrow> fake_core \<Rightarrow> fake_core" where
  "lp32_ParserNtFile = ParserNtFile ELF32"
definition lp32_ParseProcessMapsVma :: "vma list \<Rightarrow> fake_core \<Rightarrow> fake_core" where
  "lp32_ParseProcessMapsVma = ParseProcessMapsVma ELF32"
definition lp32_CreateCoreHeader :: "machine \<Rightarrow> fake_core \<Rightarrow> fake_core" where
  "lp32_CreateCoreHeader = CreateCoreHeader ELF32"
definition lp32_CreateCoreNoteHeader :: "fake_core \<Rightarrow> fake_core" where
  "lp32_CreateCoreNoteHeader = CreateCoreNoteHeader ELF32"
definition lp32_CreateCoreAUXV :: "fake_core \<Rightarrow> fake_core" where
  "lp32_CreateCoreAUXV = CreateCoreAUXV ELF32"
definition lp32_ClocNoteFileSize :: "fake_core \<Rightarrow> fake_core" where
  "lp32_ClocNoteFileSize = ClocNoteFileSize ELF32"
definition lp32_ClocSectionOffset :: "fake_core \<Rightarrow> fake_core" where
  "lp32_ClocSectionOffset = ClocSectionOffset ELF32"
definition lp32_WriteExtendSection :: "fake_core \<Rightarrow> memory_map \<Rightarrow> u64 \<Rightarrow> host \<Rightarrow> (u64 \<times> host) res" where
  "lp32_WriteExtendSection = WriteExtendSection ELF32"
definition lp32_WriteCoreHeader :: "fake_core \<Rightarrow> memory_map \<Rightarrow> u64 \<Rightarrow> host \<Rightarrow> (u64 \<times> host) res" where
  "lp32_WriteCoreHeader = WriteCoreHeader ELF32"
definition lp32_WriteCoreNoteHeader :: "fake_core \<Rightarrow> memory_map \<Rightarrow> u64 \<Rightarrow> host \<Rightarrow> (u64 \<times> host) res" where
  "lp32_WriteCoreNoteHeader = WriteCoreNoteHeader ELF32"
definition lp32_WriteCoreProgramHeaders :: "fake_core \<Rightarrow> memory_map \<Rightarrow> u64 \<Rightarrow> host \<Rightarrow> (u64 \<times> host) res" where
  "lp32_WriteCoreProgramHeaders = WriteCoreProgramHeaders ELF32"
definition lp32_WriteCoreAUXV :: "fake_core \<Rightarrow> memory_map \<Rightarrow> u64 \<Rightarrow> host \<Rightarrow> (u64 \<times> host) res" where
  "lp32_WriteCoreAUXV = WriteCoreAUXV ELF32"
definition lp32_WriteNtFile :: "fake_core \<Rightarrow> vma list \<Rightarrow> memory_map \<Rightarrow> u64 \<Rightarrow> host \<Rightarrow> (u64 \<times> host) res" where
  "lp32_WriteNtFile = WriteNtFile ELF32"
definition lp32_CreateFakePhdr :: "os_env \<Rightarrow> u64 \<Rightarrow> u64 \<Rightarrow> core \<Rightarrow> core res" where
  "lp32_CreateFakePhdr = CreateFakePhdr ELF32"
definition lp32_CreateFakeDynamic :: "os_env \<Rightarrow> u64 \<Rightarrow> u64 \<Rightarrow> core \<Rightarrow> core res" where
  "lp32_CreateFakeDynamic = CreateFakeDynamic ELF32"
definition lp32_CreateFakeLinkMap :: "os_env \<Rightarrow> u64 \<Rightarrow> u64 \<Rightarrow> string list \<Rightarrow> vma list \<Rightarrow> core \<Rightarrow> core res" where
  "lp32_CreateFakeLinkMap = CreateFakeLinkMap ELF32"
definition lp32_CreateFakeStrtab :: "os_env \<Rightarrow> u64 \<Rightarrow> u64 \<Rightarrow> string list \<Rightarrow> core \<Rightarrow> core res" where
  "lp32_CreateFakeStrtab = CreateFakeStrtab ELF32"

section \<open>The five classes\<close>

definition arm64_execute ::
  "os_env \<Rightarrow> host_tools \<Rightarrow> bool \<Rightarrow> u64 \<Rightarrow> crash_stream \<Rightarrow> fake_core \<Rightarrow> string \<Rightarrow> string \<Rightarrow> core option \<Rightarrow> host
     \<Rightarrow> (core option \<times> u8 list option) res option" where
  "arm64_execute = machine_execute EM_AARCH64"
definition x86_64_execute ::
  "os_env \<Rightarrow> host_tools \<Rightarrow> bool \<Rightarrow> u64 \<Rightarrow> crash_stream \<Rightarrow> fake_core \<Rightarrow> string \<Rightarrow> string \<Rightarrow> core option \<Rightarrow> host
     \<Rightarrow> (core option \<times> u8 list option) res option" where
  "x86_64_execute = machine_execute EM_X86_64"
definition riscv64_execute ::
  "os_env \<Rightarrow> host_tools \<Rightarrow> bool \<Rightarrow> u64 \<Rightarrow> crash_stream \<Rightarrow> fake_core \<Rightarrow> string \<Rightarrow> string \<Rightarrow> core option \<Rightarrow> host
     \<Rightarrow> (core option \<times> u8 list option) res option" where
  "riscv64_execute = machine_execute EM_RISCV"
definition arm_execute ::
  "os_env \<Rightarrow> host_tools \<Rightarrow> bool \<Rightarrow> u64 \<Rightarrow> crash_stream \<Rightarrow> fake_core \<Rightarrow> string \<Rightarrow> string \<Rightarrow> core option \<Rightarrow> host
     \<Rightarrow> (core option \<times> u8 list option) res option" where
  "arm_execute = machine_execute EM_ARM"
definition x86_execute ::
  "os_env \<Rightarrow> host_tools \<Rightarrow> bool \<Rightarrow> u64 \<Rightarrow> crash_stream \<Rightarrow> fake_core \<Rightarrow> string \<Rightarrow> string \<Rightarrow> core option \<Rightarrow> host
     \<Rightarrow> (core option \<times> u8 list option) res option" where
  "x86_execute = machine_execute EM_386"

section \<open>The command\<close>

text \<open>\<open>FakeCore::Make\<close>: the architecture that a description names, on a 64-bit host.\<close>

definition FakeCore_Make :: "string \<Rightarrow> machine option" where
  "FakeCore_Make type =
     (if type = ''arm64'' \<or> type = ''ARM64'' then Some EM_AARCH64
      else if type = ''x86_64'' \<or> type = ''X86_64'' then Some EM_X86_64
      else if type = ''riscv64'' \<or> type = ''RISCV64'' then Some EM_RISCV
      else if type = ''arm'' \<or> type = ''ARM'' then Some EM_ARM
      else if type = ''x86'' \<or> type = ''X86'' then Some EM_386 else None)"

text \<open>The option \<open>--map\<close> of \<open>fake core --rebuild\<close>: the name of every link map is written to where its pointer shows.\<close>

definition overlay_names :: "os_env \<Rightarrow> core \<Rightarrow> (core \<times> unit) res option" where
  "overlay_names os c =
     foreachLinkMap (\<lambda>i c _.
       res_bind (on_link i LinkMap_l_name c) (\<lambda>(ln, c1).
         if ln = 0 then Inr (False, c1, ())
         else
           res_bind (on_link i LinkMap_l_name c1) (\<lambda>(a, c2).
           res_bind (on_link i LinkMap_name c2) (\<lambda>(nm, c3).
           res_bind (Core_Write os a (str_bytes nm @ [0]) c3) (\<lambda>c4. Inr (False, c4, ())))))) c ()"

end
