(* ===== verification/FakeArea.thy ===== *)
theory FakeArea
  imports FakeRun LinkProps PatchProps NoteRead NoteProps
begin

unbundle bit_operations_syntax

text \<open>
  Writes into one overlaid segment and what its cells hold afterwards: the rules by which the
  fake libraries are written (parser/command/fake) and read back (core/api/elf.cpp, core/lp64/core.cpp).
\<close>

section \<open>A segment with an overlay\<close>

definition area :: "core \<Rightarrow> nat \<Rightarrow> u64 \<Rightarrow> nat \<Rightarrow> bool" where
  "area c i v n \<longleftrightarrow> valid_seg c i \<and> mVaddr (blk c i) = v \<and> v \<noteq> 0 \<and> n \<le> unat (mMemSize (blk c i)) \<and>
     mOverlay (blk c i) \<noteq> None \<and> mPointMask (blk c i) = - 1"

text \<open>The bytes at offset \<open>k\<close> of the segment.\<close>

definition holds :: "core \<Rightarrow> u64 \<Rightarrow> nat \<Rightarrow> u8 list \<Rightarrow> bool" where
  "holds c v k bs \<longleftrightarrow> (\<forall>j<length bs. core_byte c (v + of_nat (k + j)) = Some (bs ! j))"

lemma area_backed: "area c i v n \<Longrightarrow> backed_size (blk c i) = unat (mMemSize (blk c i))"
  using valid_segD(4) [of c i] by (auto simp: area_def block_ok_def intro: backed_overlay)

lemma area_inside:
  assumes "area c i v n" "k + m \<le> n" "0 < m"
  shows "inside c i (v + of_nat k) m" "unat (v + of_nat k) = unat v + k"
proof -
  have vs: "valid_seg c i" using assms(1) by (simp add: area_def)
  have "0 < n" using assms(2,3) by simp
  then have ins: "inside c i v n" using assms(1) area_backed [OF assms(1)] by (simp add: inside_def area_def)
  have "k < n" using assms(2,3) by simp
  note sh = inside_shift [OF vs ins this]
  show "unat (v + of_nat k) = unat v + k" by (rule sh(2))
  show "inside c i (v + of_nat k) m" using assms(2,3) by (intro inside_less [OF sh(1)]) linarith+
qed

lemma holds_append: "holds c v k (xs @ ys) \<longleftrightarrow> holds c v k xs \<and> holds c v (k + length xs) ys"
proof
  assume h: "holds c v k (xs @ ys)"
  have "core_byte c (v + of_nat (k + length xs + j)) = Some (ys ! j)" if "j < length ys" for j
    using h [unfolded holds_def, rule_format, of "length xs + j"] that by (simp add: add.assoc)
  moreover have "core_byte c (v + of_nat (k + j)) = Some (xs ! j)" if "j < length xs" for j
    using h [unfolded holds_def, rule_format, of j] that by (simp add: nth_append)
  ultimately show "holds c v k xs \<and> holds c v (k + length xs) ys" by (simp add: holds_def)
next
  assume h: "holds c v k xs \<and> holds c v (k + length xs) ys"
  show "holds c v k (xs @ ys)"
    unfolding holds_def
  proof (intro allI impI)
    fix j assume j: "j < length (xs @ ys)"
    show "core_byte c (v + of_nat (k + j)) = Some ((xs @ ys) ! j)"
    proof (cases "j < length xs")
      case True
      then show ?thesis using h by (simp add: holds_def nth_append)
    next
      case False
      have "core_byte c (v + of_nat (k + length xs + (j - length xs))) = Some (ys ! (j - length xs))"
        using h j False unfolding holds_def by (elim conjE allE [of _ "j - length xs"]) auto
      moreover have "k + length xs + (j - length xs) = k + j" using False by simp
      ultimately show ?thesis using False by (simp only: nth_append if_False)
    qed
  qed
qed

lemma holds_word:
  assumes "holds c v k (le_bytes n (unat (w :: u64)))" "unat w < 256 ^ n"
  shows "target_word c (v + of_nat k) n = w"
proof -
  have "map (\<lambda>j. the (core_byte c (v + of_nat k + of_nat j))) [0..<n] = le_bytes n (unat w)"
    using assms(1) by (intro nth_equalityI) (auto simp: holds_def add.assoc)
  then show ?thesis using le_word_le_bytes_small [OF assms(2)] by (simp add: target_word_def)
qed

lemma area_pointer:
  assumes "area c i v n" "holds c v k (le_bytes 8 (unat w))"
  shows "masked_word c i (v + of_nat k) = w"
  using assms(1) holds_word [OF assms(2) fits_8] by (simp add: masked_word_def area_def)

section \<open>Sequences of writes\<close>

text \<open>Two ranges that do not meet.\<close>

definition apart :: "nat \<Rightarrow> nat \<Rightarrow> nat \<Rightarrow> nat \<Rightarrow> bool" where
  "apart k m k' m' \<longleftrightarrow> k + m \<le> k' \<or> k' + m' \<le> k"

abbreviation apart_writes :: "nat \<times> u8 list \<Rightarrow> nat \<times> u8 list \<Rightarrow> bool" where
  "apart_writes w w' \<equiv> apart (fst w) (length (snd w)) (fst w') (length (snd w'))"

lemma Core_Write_same_blocks:
  assumes "core_ok c" "findLoadBlock a True c = Some i" "mOverlay (blk c i) \<noteq> None" "Core_Write os a bs c = Inr c'"
  shows "\<exists>h. c' = c\<lparr>mem := h\<rparr>"
proof -
  obtain m where m: "mOverlay (blk c i) = Some m" using assms(3) by auto
  have "(blocks c)[i := blk c i] = blocks c" by simp
  then show ?thesis
    using assms(2,4) m by (auto simp: Core_Write_def setOverlay_def newOverlay_def Let_def res_bind_Inr_iff)
qed

lemma write_area:
  assumes ar: "area c i v n" and fit: "k + length bs \<le> n" and ne: "bs \<noteq> []"
  obtains h where "Core_Write os (v + of_nat k) bs c = Inr (c\<lparr>mem := h\<rparr>)" "area (c\<lparr>mem := h\<rparr>) i v n"
    "holds (c\<lparr>mem := h\<rparr>) v k bs"
    "\<And>k' xs. holds c v k' xs \<Longrightarrow> k' + length xs \<le> n \<Longrightarrow> apart k (length bs) k' (length xs) \<Longrightarrow>
       holds (c\<lparr>mem := h\<rparr>) v k' xs"
proof -
  have vs: "valid_seg c i" using ar by (simp add: area_def)
  have pos: "0 < length bs" using ne by simp
  note ins = area_inside [OF ar fit pos]
  note f = inside_found [OF vs ins(1)]
  have ov: "overlaid c (v + of_nat k) bs"
    using f ar fit ins(2) by (simp add: overlaid_def area_def)
  obtain c' where w: "Core_Write os (v + of_nat k) bs c = Inr c'" "core_ok c'"
      "core_byte c' = patch c (v + of_nat k) bs (core_byte c)"
    using Core_Write_overlaid [OF valid_segD(1) [OF vs] ov, of os] by blast
  obtain h where h: "c' = c\<lparr>mem := h\<rparr>"
    using Core_Write_same_blocks [OF valid_segD(1) [OF vs] f(1) _ w(1)] ar by (auto simp: area_def)
  have at: "core_byte c' (v + of_nat p) =
      (if k \<le> p \<and> p < k + length bs then Some (bs ! (p - k)) else core_byte c (v + of_nat p))" if "p < n" for p
  proof -
    have "p + 1 \<le> n" using that by simp
    note q = area_inside [OF ar this]
    have "(v + of_nat p) AND vabits_mask c = v + of_nat p" using inside_found(2) [OF vs q(1)] by simp
    then show ?thesis using q(2) ins(2) f(2) by (auto simp: w(3) patch_def Let_def)
  qed
  show ?thesis
  proof (rule that)
    show "Core_Write os (v + of_nat k) bs c = Inr (c\<lparr>mem := h\<rparr>)" using w(1) h by simp
    show "area (c\<lparr>mem := h\<rparr>) i v n" using ar w(2) h by (simp add: area_def valid_seg_def)
    show "holds (c\<lparr>mem := h\<rparr>) v k bs"
      using at fit by (auto simp: holds_def h [symmetric] simp del: of_nat_add)
    show "holds (c\<lparr>mem := h\<rparr>) v k' xs"
      if "holds c v k' xs" "k' + length xs \<le> n" "apart k (length bs) k' (length xs)" for k' xs
      using that at by (auto simp: holds_def apart_def h [symmetric] simp del: of_nat_add)
  qed
qed

text \<open>Writes at offsets of the segment, one after the other.\<close>

fun run_writes :: "os_env \<Rightarrow> u64 \<Rightarrow> (nat \<times> u8 list) list \<Rightarrow> core \<Rightarrow> core res" where
  "run_writes os v [] c = Inr c"
| "run_writes os v ((k, bs) # ws) c = res_bind (Core_Write os (v + of_nat k) bs c) (run_writes os v ws)"

definition in_area :: "nat \<Rightarrow> (nat \<times> u8 list) list \<Rightarrow> bool" where
  "in_area n ws \<longleftrightarrow> (\<forall>(k, bs)\<in>set ws. k + length bs \<le> n \<and> bs \<noteq> [])"

lemma in_area_simps [simp]:
  "in_area n []" "in_area n (w # ws) \<longleftrightarrow> fst w + length (snd w) \<le> n \<and> snd w \<noteq> [] \<and> in_area n ws"
  "in_area n (ws @ ws') \<longleftrightarrow> in_area n ws \<and> in_area n ws'"
  by (auto simp: in_area_def)

lemma run_writes_append:
  "run_writes os v (ws @ ws') c = res_bind (run_writes os v ws c) (run_writes os v ws')"
proof (induction ws arbitrary: c)
  case (Cons w ws)
  have "run_writes os v (ws @ ws') = (\<lambda>c. res_bind (run_writes os v ws c) (run_writes os v ws'))"
    using Cons.IH by (rule ext)
  then show ?case by (cases w) (simp add: res_bind_assoc)
qed simp

text \<open>Pairwise separate writes all hold afterwards, and what they do not meet stays.\<close>

lemma run_writes_spec:
  assumes "area c i v n" "in_area n ws"
  shows "\<exists>h. run_writes os v ws c = Inr (c\<lparr>mem := h\<rparr>) \<and> area (c\<lparr>mem := h\<rparr>) i v n \<and>
    (sorted_wrt apart_writes ws \<longrightarrow> (\<forall>(k, bs)\<in>set ws. holds (c\<lparr>mem := h\<rparr>) v k bs)) \<and>
    (\<forall>k xs. holds c v k xs \<longrightarrow> k + length xs \<le> n \<longrightarrow> (\<forall>w\<in>set ws. apart (fst w) (length (snd w)) k (length xs)) \<longrightarrow>
       holds (c\<lparr>mem := h\<rparr>) v k xs)"
  using assms
proof (induction ws arbitrary: c)
  case Nil
  then show ?case by (intro exI [of _ "mem c"]) simp
next
  case (Cons w ws)
  obtain k bs where w: "w = (k, bs)" by (cases w)
  obtain h1 where h1: "Core_Write os (v + of_nat k) bs c = Inr (c\<lparr>mem := h1\<rparr>)" "area (c\<lparr>mem := h1\<rparr>) i v n"
    "holds (c\<lparr>mem := h1\<rparr>) v k bs"
    "\<And>k' xs. holds c v k' xs \<Longrightarrow> k' + length xs \<le> n \<Longrightarrow> apart k (length bs) k' (length xs) \<Longrightarrow>
       holds (c\<lparr>mem := h1\<rparr>) v k' xs"
    using write_area [OF Cons.prems(1), of k bs os] Cons.prems(2) w by auto
  have "in_area n ws" using Cons.prems(2) by simp
  then obtain h where h: "run_writes os v ws (c\<lparr>mem := h1\<rparr>) = Inr (c\<lparr>mem := h\<rparr>)" "area (c\<lparr>mem := h\<rparr>) i v n"
    "sorted_wrt apart_writes ws \<Longrightarrow> \<forall>(k, bs)\<in>set ws. holds (c\<lparr>mem := h\<rparr>) v k bs"
    "\<And>k xs. holds (c\<lparr>mem := h1\<rparr>) v k xs \<Longrightarrow> k + length xs \<le> n \<Longrightarrow>
       (\<forall>w\<in>set ws. apart (fst w) (length (snd w)) k (length xs)) \<Longrightarrow> holds (c\<lparr>mem := h\<rparr>) v k xs"
    using Cons.IH [OF h1(2)] by auto
  have first: "holds (c\<lparr>mem := h\<rparr>) v k bs" if "sorted_wrt apart_writes (w # ws)"
    using that w Cons.prems(2) by (intro h(4) [OF h1(3)]) (auto simp: apart_def)
  have keep: "holds (c\<lparr>mem := h\<rparr>) v k' xs" if "holds c v k' xs" "k' + length xs \<le> n"
      "\<forall>w\<in>set (w # ws). apart (fst w) (length (snd w)) k' (length xs)" for k' xs
    using that w by (intro h(4) [OF h1(4)]) auto
  show ?case
  proof (intro exI [of _ h] conjI impI allI)
    show "run_writes os v (w # ws) c = Inr (c\<lparr>mem := h\<rparr>)" using h1(1) h(1) w by simp
    show "\<forall>(k, bs)\<in>set (w # ws). holds (c\<lparr>mem := h\<rparr>) v k bs" if s: "sorted_wrt apart_writes (w # ws)"
      using first [OF s] h(3) s w by simp
  qed (use h(2) keep in auto)
qed

end
