(* ===== verification/FakePlan.thy ===== *)
theory FakePlan
  imports FakeArea FakeImage
begin

unbundle bit_operations_syntax

text \<open>
  The fake libraries of a 64-bit core as a list of writes at offsets of their segment
  (\<open>CreateFakePhdr\<close>, \<open>CreateFakeDynamic\<close>, \<open>CreateFakeLinkMap\<close> and \<open>CreateFakeStrtab\<close> of
  parser/command/fake/core/lp64/fake_core.cpp), and the change of the auxiliary vector that goes with them.
\<close>

section \<open>The auxiliary vector\<close>

text \<open>The first value that is set gives the note an overlay in fresh memory, so that nothing else changes.\<close>

lemma NoteBlock_setOverlay_fresh:
  assumes os: "os_ok os" and ok: "note_ok h nb" and none: "mOverlay nb = None"
    and mm: "os_mmap os h (mFileSize nb) \<noteq> None"
    and addr: "addr = mOriAddr nb + of_nat lo" "lo + length buf \<le> unat (mFileSize nb)"
  obtains m h' where "NoteBlock_setOverlay os h addr buf nb = Inr (nb\<lparr>mOverlay := Some m\<rparr>, h')"
    and "\<forall>x. h x \<noteq> None \<longrightarrow> h' x = h x"
proof -
  let ?n = "unat (mFileSize nb)"
  obtain base where base: "os_mmap os h (mFileSize nb) = Some base" using mm by auto
  have fresh: "base \<noteq> 0" "\<And>x. unat (x - base) < ?n \<Longrightarrow> h x = None"
    using os base by (auto simp: os_ok_def)
  define h1 where "h1 = host_map (host_zero h base ?n) base (note_bytes h nb)"
  let ?h = "host_map h1 (base + of_nat lo) buf"
  let ?m = "\<lparr>mm_name = [], mm_begin = base, mm_size = mFileSize nb, mm_offset = 0, mm_max = mFileSize nb\<rparr>"
  have n: "?n < 2 ^ 64" by (rule unat_u64_less)
  have len: "length (note_bytes h nb) = ?n" by (simp add: note_bytes_def)
  have new: "NoteBlock_newOverlay os h nb = Inr (True, nb\<lparr>mOverlay := Some ?m\<rparr>, h1)"
    using memcpy_fresh [OF note_mapped [OF ok] order_refl less_imp_le [OF n] fresh(2)] base none
    by (simp add: NoteBlock_newOverlay_def MmapMem_def note_bytes_def h1_def)
  have mp: "\<forall>i<length buf. h1 (base + of_nat lo + of_nat i) \<noteq> None"
  proof (intro allI impI)
    fix i assume "i < length buf"
    then have "h1 (base + of_nat (lo + i)) = Some (note_bytes h nb ! (lo + i))"
      unfolding h1_def using addr(2) len n by (intro host_map_at) linarith+
    then show "h1 (base + of_nat lo + of_nat i) \<noteq> None" by (simp add: add.assoc)
  qed
  have "length buf \<le> 2 ^ 64" using addr(2) n by linarith
  then have wr: "host_write h1 (base + of_nat lo) buf = Inr ?h"
    using mp by (intro host_write_mapped)
  have set: "NoteBlock_setOverlay os h addr buf nb = Inr (nb\<lparr>mOverlay := Some ?m\<rparr>, ?h)"
    using new wr addr(1) by (simp add: NoteBlock_setOverlay_def)
  have "?h x = h x" if x: "h x \<noteq> None" for x
  proof -
    have out: "\<not> unat (x - base) < ?n" using fresh(2) [of x] x by auto
    have "\<not> unat (x - (base + of_nat lo)) < length buf"
    proof
      assume a: "unat (x - (base + of_nat lo)) < length buf"
      have "x - base = of_nat (unat (x - (base + of_nat lo)) + lo)" by simp
      moreover have "unat (of_nat (unat (x - (base + of_nat lo)) + lo) :: u64) = unat (x - (base + of_nat lo)) + lo"
        using a addr(2) n by (intro unat_of_nat_u64) linarith
      ultimately have "unat (x - base) = unat (x - (base + of_nat lo)) + lo" by presburger
      then show False using out a addr(2) by linarith
    qed
    then show ?thesis using out len by (simp add: h1_def host_map_def host_zero_def)
  qed
  then show ?thesis using that set by blast
qed

lemma set_auxvs_append:
  "set_auxvs os cb (xs @ ys) c = res_bind (set_auxvs os cb xs c) (set_auxvs os cb ys)"
proof (induction xs arbitrary: c)
  case (Cons x xs)
  have "set_auxvs os cb (xs @ ys) = (\<lambda>c. res_bind (set_auxvs os cb xs c) (set_auxvs os cb ys))"
    using Cons.IH by (rule ext)
  then show ?case by (cases x) (simp add: res_bind_assoc case_prod_unfold)
qed simp

lemma set_auxvs_skip:
  assumes "\<forall>(j, i)\<in>set slots. mType (mAuxvs (mNote c ! j) ! i) \<noteq> AT_PHDR \<and> mType (mAuxvs (mNote c ! j) ! i) \<noteq> AT_EXECFN"
  shows "set_auxvs os (fake_phdr_callback cls p) slots c = Inr c"
  using assms by (induction slots) (auto simp: fake_phdr_callback_def)

text \<open>A note with one entry for the program headers and none for the file name, as the builder makes it.\<close>

definition phdr_entry :: "note_block \<Rightarrow> nat \<Rightarrow> bool" where
  "phdr_entry nb j \<longleftrightarrow> j < length (mAuxvs nb) \<and> mType (mAuxvs nb ! j) = AT_PHDR \<and>
     (\<forall>k<length (mAuxvs nb). mType (mAuxvs nb ! k) \<noteq> AT_EXECFN \<and> (k \<noteq> j \<longrightarrow> mType (mAuxvs nb ! k) \<noteq> AT_PHDR)) \<and>
     (\<exists>lo. mAuxv (mAuxvs nb ! j) + 8 = mOriAddr nb + of_nat lo \<and> lo + 8 \<le> unat (mFileSize nb))"

definition with_phdr :: "note_block \<Rightarrow> nat \<Rightarrow> u64 \<Rightarrow> memory_map \<Rightarrow> note_block" where
  "with_phdr nb j p m = nb\<lparr>mOverlay := Some m, mAuxvs := (mAuxvs nb)[j := (mAuxvs nb ! j)\<lparr>mValue := p\<rparr>]\<rparr>"

lemma set_phdr_entry:
  assumes os: "os_ok os" and nt: "mNote c = [nb]" "note_ok (mem c) nb" "mOverlay nb = None"
    and mm: "os_mmap os (mem c) (mFileSize nb) \<noteq> None" and e: "phdr_entry nb j" and b: "bits (core_machine c) = 64"
  obtains m h where
    "set_auxvs os (fake_phdr_callback ELF64 p) (auxv_slots c) c = Inr (c\<lparr>mNote := [with_phdr nb j (p + 64) m], mem := h\<rparr>)"
    "\<forall>x. mem c x \<noteq> None \<longrightarrow> h x = mem c x"
proof -
  have psz: "getPointSize (core_machine c) = 8" using b by (cases "core_machine c") simp_all
  have j: "j < length (mAuxvs nb)" "mType (mAuxvs nb ! j) = AT_PHDR" using e by (simp_all add: phdr_entry_def)
  obtain lo where lo: "mAuxv (mAuxvs nb ! j) + 8 = mOriAddr nb + of_nat lo" "lo + 8 \<le> unat (mFileSize nb)"
    using e by (auto simp: phdr_entry_def)
  have "lo + length (le_bytes 8 (unat (p + 64))) \<le> unat (mFileSize nb)" using lo(2) by simp
  from NoteBlock_setOverlay_fresh [OF os nt(2,3) mm lo(1) this]
  obtain m h where s: "NoteBlock_setOverlay os (mem c) (mAuxv (mAuxvs nb ! j) + 8) (le_bytes 8 (unat (p + 64))) nb =
      Inr (nb\<lparr>mOverlay := Some m\<rparr>, h)" and h: "\<forall>x. mem c x \<noteq> None \<longrightarrow> h x = mem c x"
    by blast
  let ?c = "c\<lparr>mNote := [with_phdr nb j (p + 64) m], mem := h\<rparr>"
  have split: "auxv_slots c = map (Pair 0) [0..<j] @ (0, j) # map (Pair 0) [Suc j..<length (mAuxvs nb)]"
  proof -
    have "[0..<length (mAuxvs nb)] = [0..<j] @ j # [Suc j..<length (mAuxvs nb)]"
      using upt_add_eq_append [of 0 j "length (mAuxvs nb) - j"] upt_conv_Cons [of j "length (mAuxvs nb)"] j(1) by simp
    then show ?thesis using nt(1) by (simp add: auxv_slots_def)
  qed
  have before: "set_auxvs os (fake_phdr_callback ELF64 p) (map (Pair 0) [0..<j]) c = Inr c"
    using e nt(1) by (intro set_auxvs_skip) (auto simp: phdr_entry_def)
  have after: "set_auxvs os (fake_phdr_callback ELF64 p) (map (Pair 0) [Suc j..<length (mAuxvs nb)]) ?c = Inr ?c"
    using e by (intro set_auxvs_skip) (auto simp: phdr_entry_def with_phdr_def)
  have "nb\<lparr>mOverlay := Some m, mAuxvs := (mAuxvs (nb\<lparr>mOverlay := Some m\<rparr>))[j := (mAuxvs (nb\<lparr>mOverlay := Some m\<rparr>) ! j)\<lparr>mValue := p + 64\<rparr>]\<rparr>
      = with_phdr nb j (p + 64) m" by (simp add: with_phdr_def)
  then have "set_auxvs os (fake_phdr_callback ELF64 p) (auxv_slots c) c = Inr ?c"
    using s j(2) nt(1) before after psz
    by (simp add: split set_auxvs_append fake_phdr_callback_def Auxv_setValue_def)
  then show ?thesis using that h by blast
qed

section \<open>Link maps and names as lists of writes\<close>

text \<open>Offsets: \<open>B\<close> of the link maps, \<open>S\<close> of the names; \<open>t\<close> is the room of the names before.\<close>

definition nroom :: "string \<Rightarrow> nat" where "nroom nm = 16 * ((length nm + 16) div 16)"

fun link_ws :: "(string \<Rightarrow> u64) \<Rightarrow> u64 \<Rightarrow> nat \<Rightarrow> nat \<Rightarrow> nat \<Rightarrow> string list \<Rightarrow> (nat \<times> u8 list) list" where
  "link_ws f v B num idx [] = []"
| "link_ws f v B num idx (lib # libs) =
     (B + 48 * idx, link_bytes ELF64 (f lib) 0 0 (if idx < num then v + of_nat (B + 48 * (idx + 1)) else 0)
        (v + of_nat (B + 48 * (idx - 1)))) # link_ws f v B num (idx + 1) libs"

fun name_ws :: "u64 \<Rightarrow> nat \<Rightarrow> nat \<Rightarrow> nat \<Rightarrow> nat \<Rightarrow> string list \<Rightarrow> (nat \<times> u8 list) list" where
  "name_ws v B S idx t [] = []"
| "name_ws v B S idx t (nm # nms) =
     (B + 48 * idx + 8, le_bytes 8 (unat (v + of_nat (S + t)))) # (S + t, str_bytes nm @ [0]) #
       name_ws v B S (idx + 1) (t + nroom nm) nms"

lemma entry_size64: "entry_size ELF64 = 48"
  by (simp add: entry_size_def RoundUp_def RoundDown_def)

lemma link_at64: "link_at ELF64 (v + of_nat B) idx = v + of_nat (B + 48 * idx)"
  by (simp add: link_at_def entry_size64 algebra_simps)

lemma write_links_plan:
  "write_links ELF64 os (\<lambda>lib _. f lib) (v + of_nat B) num idx libs c = run_writes os v (link_ws f v B num idx libs) c"
proof (induction libs arbitrary: idx c)
  case (Cons lib libs)
  have "write_links ELF64 os (\<lambda>lib _. f lib) (v + of_nat B) num (idx + 1) libs = run_writes os v (link_ws f v B num (idx + 1) libs)"
    by (rule ext) (rule Cons.IH)
  then show ?case by (simp only: write_links.simps link_ws.simps run_writes.simps link_at64)
qed simp

lemma name_room_nat:
  assumes "length nm < 2 ^ 62"
  shows "name_room nm = of_nat (nroom nm)"
proof -
  define x :: u64 where "x = of_nat (length nm) + 1"
  have x: "x = of_nat (length nm + 1)" by (simp add: x_def add.commute)
  have len: "unat x = length nm + 1" unfolding x using assms by (intro unat_of_nat_u64) simp
  have nr: "name_room nm = RoundUp x (2 ^ 4)" by (simp add: name_room_def x_def)
  have "unat x + 2 ^ 4 \<le> 2 ^ LENGTH(64)" using len assms by simp
  note b = RoundUp_bounds [OF this, folded nr, unfolded len]
  obtain q where q: "unat (name_room nm) = 16 * q" using b(3) by (auto elim: dvdE)
  have "(length nm + 16) div 16 = q" using b(1,2) unfolding q by (intro div_nat_eqI) simp_all
  then have "unat (name_room nm) = nroom nm" using q by (simp add: nroom_def)
  moreover have "unat (of_nat (nroom nm) :: u64) = nroom nm" using assms by (intro unat_of_nat_u64) (simp add: nroom_def)
  ultimately have "unat (name_room nm) = unat (of_nat (nroom nm) :: u64)" by simp
  then show ?thesis by (simp only: word_unat_eq_iff)
qed

lemma run_writes_step: "run_writes os v ((k, bs) # ws) = (\<lambda>c. res_bind (Core_Write os (v + of_nat k) bs c) (run_writes os v ws))"
  by (rule ext) simp

lemma write_names_plan:
  assumes "\<forall>nm\<in>set nms. length nm < 2 ^ 62"
  shows "write_names ELF64 os (v + of_nat S) (v + of_nat B) idx (of_nat t) nms c = run_writes os v (name_ws v B S idx t nms) c"
  using assms
proof (induction nms arbitrary: idx t c)
  case (Cons nm nms)
  have r: "trunc ELF64 (of_nat t + name_room nm) = of_nat (t + nroom nm)"
    using name_room_nat [of nm] Cons.prems by simp
  have IH: "write_names ELF64 os (v + of_nat S) (v + of_nat B) (idx + 1) (of_nat (t + nroom nm)) nms =
      run_writes os v (name_ws v B S (idx + 1) (t + nroom nm) nms)"
    by (rule ext) (rule Cons.IH, use Cons.prems in simp)
  have a: "trunc ELF64 (v + of_nat S + of_nat t) = v + of_nat (S + t)" "v + of_nat (B + 48 * idx) + 8 = v + of_nat (B + 48 * idx + 8)"
    by (simp_all add: algebra_simps)
  show ?case
    by (simp only: write_names.simps name_ws.simps run_writes.simps put_name_def link_at64 ptr_size.simps of_nat_numeral
        r IH a res_bind_assoc run_writes_step)
qed simp

section \<open>Where the writes go\<close>

lemma length_link_bytes [simp]: "length (link_bytes ELF64 a nm ld nx pv) = 40"
  by (simp add: link_bytes_def)

lemma str_bytes_ne [simp]: "length (str_bytes nm) = length nm"
  by (simp add: str_bytes_def)

lemma length_link_ws [simp]: "length (link_ws f v B num idx libs) = length libs"
  by (induction libs arbitrary: idx) simp_all

lemma link_ws_nth:
  "k < length libs \<Longrightarrow> link_ws f v B num idx libs ! k =
     (B + 48 * (idx + k), link_bytes ELF64 (f (libs ! k)) 0 0 (if idx + k < num then v + of_nat (B + 48 * (idx + k + 1)) else 0)
        (v + of_nat (B + 48 * (idx + k - 1))))"
proof (induction libs arbitrary: idx k)
  case (Cons lib libs)
  show ?case
  proof (cases k)
    case (Suc m)
    then show ?thesis using Cons.IH [of m "idx + 1"] Cons.prems by (simp only: link_ws.simps nth_Cons_Suc) simp
  qed simp
qed simp

lemma link_ws_set:
  assumes "w \<in> set (link_ws f v B num idx libs)"
  obtains k where "k < length libs" "fst w = B + 48 * (idx + k)" "length (snd w) = 40"
proof -
  obtain k where "k < length libs" "link_ws f v B num idx libs ! k = w" using assms by (auto simp: in_set_conv_nth)
  then show ?thesis using link_ws_nth [of k libs f v B num idx] by (intro that [of k]) auto
qed

lemma link_ws_apart: "sorted_wrt apart_writes (link_ws f v B num idx libs)"
  by (auto simp: sorted_wrt_iff_nth_less link_ws_nth apart_def)

definition rooms :: "string list \<Rightarrow> nat" where "rooms nms = sum_list (map nroom nms)"

lemma nroom_fits: "length nm + 1 \<le> nroom nm"
  unfolding nroom_def by linarith

lemma name_ws_set:
  "w \<in> set (name_ws v B S idx t nms) \<Longrightarrow>
     (\<exists>k\<ge>idx. k < idx + length nms \<and> fst w = B + 48 * k + 8 \<and> length (snd w) = 8) \<or>
     S + t \<le> fst w \<and> fst w + length (snd w) \<le> S + t + rooms nms \<and> snd w \<noteq> []"
proof (induction nms arbitrary: idx t)
  case (Cons nm nms)
  consider "w = (B + 48 * idx + 8, le_bytes 8 (unat (v + of_nat (S + t))))" | "w = (S + t, str_bytes nm @ [0])"
    | "w \<in> set (name_ws v B S (idx + 1) (t + nroom nm) nms)"
    using Cons.prems by (simp only: name_ws.simps list.set insert_iff) blast
  then show ?case
  proof cases
    case 1
    then show ?thesis by (intro disjI1 exI [of _ idx]) simp
  next
    case 2
    then show ?thesis using nroom_fits [of nm] by (simp add: rooms_def)
  next
    case 3
    from Cons.IH [OF this] show ?thesis by (auto simp: rooms_def intro: exI [of _ "_ :: nat"])
  qed
qed simp

lemma name_ws_apart:
  assumes "B + 48 * (idx + length nms) \<le> S"
  shows "sorted_wrt apart_writes (name_ws v B S idx t nms)"
  using assms
proof (induction nms arbitrary: idx t)
  case (Cons nm nms)
  have IH: "sorted_wrt apart_writes (name_ws v B S (idx + 1) (t + nroom nm) nms)"
    using Cons.prems by (intro Cons.IH) simp
  have "apart (B + 48 * idx + 8) 8 (fst w) (length (snd w)) \<and> apart (S + t) (length nm + 1) (fst w) (length (snd w))"
    if "w \<in> set (name_ws v B S (idx + 1) (t + nroom nm) nms)" for w
    using name_ws_set [OF that] Cons.prems nroom_fits [of nm] by (auto simp: apart_def)
  then show ?case using IH Cons.prems by (auto simp: apart_def)
qed simp

lemma name_ws_mem:
  "k < length nms \<Longrightarrow>
     (B + 48 * (idx + k) + 8, le_bytes 8 (unat (v + of_nat (S + t + rooms (take k nms))))) \<in> set (name_ws v B S idx t nms) \<and>
     (S + t + rooms (take k nms), str_bytes (nms ! k) @ [0]) \<in> set (name_ws v B S idx t nms)"
proof (induction nms arbitrary: idx t k)
  case (Cons nm nms)
  show ?case
  proof (cases k)
    case 0
    then show ?thesis by (simp add: rooms_def)
  next
    case (Suc m)
    have "S + t + rooms (take k (nm # nms)) = S + (t + nroom nm) + rooms (take m nms)" by (simp add: Suc rooms_def)
    then show ?thesis using Cons.IH [of m "idx + 1" "t + nroom nm"] Cons.prems Suc
      by (simp only: name_ws.simps nth_Cons_Suc list.set) simp
  qed
qed simp

end
