(* ===== verification/FakeListing.thy ===== *)
theory FakeListing
  imports FakePlan
begin

unbundle bit_operations_syntax

text \<open>
  What the segment of the fake libraries holds when it is filled, and what the readers of the core
  library find there: the debug structure (\<open>Elf::GetDebug\<close>), the chain of link maps (\<open>loadLinkMap64\<close>), their
  addresses and names.
\<close>

section \<open>Contents of the filled segment\<close>

text \<open>Address of node \<open>k\<close> of the list, and the pointer in it to the next one.\<close>

definition node_at :: "u64 \<Rightarrow> nat \<Rightarrow> nat \<Rightarrow> u64" where "node_at v p k = v + of_nat (2 * p + 48 * k)"

definition node_next :: "u64 \<Rightarrow> nat \<Rightarrow> nat \<Rightarrow> nat \<Rightarrow> u64" where
  "node_next v p n k = (if k + 1 < n then node_at v p (k + 1) else 0)"

definition name_off :: "nat \<Rightarrow> string list \<Rightarrow> nat \<Rightarrow> nat" where "name_off p names k = 3 * p + rooms (take k names)"

definition fake_listing :: "core \<Rightarrow> nat \<Rightarrow> u64 \<Rightarrow> nat \<Rightarrow> u64 list \<Rightarrow> string list \<Rightarrow> bool" where
  "fake_listing d i v p addrs names \<longleftrightarrow>
     area d i v (4 * p) \<and> bits (core_machine d) = 64 \<and> 4096 \<le> p \<and> length addrs = length names \<and>
     48 * length names \<le> p \<and> rooms names \<le> p \<and>
     holds d v 0 (ehdr_bytes ELF64 (fake_ehdr ELF64 d)) \<and>
     holds d v 64 (phdr_bytes ELF64 PT_PHDR (fake_pt_phdr ELF64 (of_nat p))) \<and>
     holds d v 120 (phdr_bytes ELF64 PT_DYNAMIC (fake_pt_dynamic (of_nat p))) \<and>
     holds d v p (pair_bytes ELF64 DT_DEBUG (v + of_nat (p + 16))) \<and>
     holds d v (p + 16) (pair_bytes ELF64 1 (node_at v p 0)) \<and>
     holds d v (p + 32) (replicate 8 0) \<and>
     (\<forall>k<length names.
        holds d v (2 * p + 48 * k) (le_bytes 8 (unat (addrs ! k))) \<and>
        holds d v (2 * p + 48 * k + 8) (le_bytes 8 (unat (v + of_nat (name_off p names k)))) \<and>
        holds d v (2 * p + 48 * k + 16) (le_bytes 8 0) \<and>
        holds d v (2 * p + 48 * k + 24) (le_bytes 8 (unat (node_next v p (length names) k))) \<and>
        holds d v (name_off p names k) (str_bytes (names ! k) @ [0]))"

section \<open>Filling the segment\<close>

definition ehdr_ws :: "core \<Rightarrow> (nat \<times> u8 list) list" where
  "ehdr_ws c = [(0, ehdr_bytes ELF64 (fake_ehdr ELF64 c))]"

definition head_ws :: "u64 \<Rightarrow> nat \<Rightarrow> (nat \<times> u8 list) list" where
  "head_ws v p =
     [(64, phdr_bytes ELF64 PT_PHDR (fake_pt_phdr ELF64 (of_nat p))), (120, phdr_bytes ELF64 PT_DYNAMIC (fake_pt_dynamic (of_nat p))),
      (p, pair_bytes ELF64 DT_DEBUG (v + of_nat (p + 16))), (p + 16, pair_bytes ELF64 1 (v + of_nat (2 * p)))]"

definition nodes_ws :: "(string \<Rightarrow> u64) \<Rightarrow> u64 \<Rightarrow> nat \<Rightarrow> string list \<Rightarrow> (nat \<times> u8 list) list" where
  "nodes_ws f v p libs =
     (2 * p, link_bytes ELF64 v 0 0 (v + of_nat (2 * p + 48)) 0) # link_ws f v (2 * p) (length libs) 1 libs"

definition strtab_ws :: "u64 \<Rightarrow> nat \<Rightarrow> string list \<Rightarrow> (nat \<times> u8 list) list" where
  "strtab_ws v p names = name_ws v (2 * p) (3 * p) 0 0 names"

lemma run_writes_none: "run_writes os v [] = Inr"
  by (rule ext) simp

lemma run_writes_one: "run_writes os v [(k, bs)] = Core_Write os (v + of_nat k) bs"
  by (rule ext) (simp add: run_writes_none res_bind_right_id)

lemma run_writes_append_fn: "run_writes os v (ws @ ws') = (\<lambda>c. res_bind (run_writes os v ws c) (run_writes os v ws'))"
  by (rule ext) (rule run_writes_append)

lemma fill_plan:
  assumes aux: "set_auxvs os (fake_phdr_callback ELF64 v) (auxv_slots c) c = Inr c1"
    and wr: "run_writes os v (ehdr_ws c1) c1 = Inr c2"
    and page: "getPageSize c2 = (of_nat p, c3)"
    and small: "\<forall>lib\<in>set libs. length lib < 2 ^ 62"
  shows "fill_fake_vma ELF64 os (\<lambda>v l libs. CreateFakeLinkMap ELF64 os v l libs maps) (of_nat p) (of_nat p) v libs c =
    run_writes os v (head_ws v p @ nodes_ws (FindModuleLoad maps) v p libs @ strtab_ws v p (FAKECORE_VMA # map lib_name libs)) c3"
proof -
  have a: "trunc ELF64 (v + of_nat p) = v + of_nat p" "trunc ELF64 (v + of_nat p + of_nat p) = v + of_nat (2 * p)"
    "trunc ELF64 (v + of_nat (2 * p) + of_nat p) = v + of_nat (3 * p)" "v + of_nat 64 + 56 = v + of_nat 120" "v + 64 = v + of_nat 64"
    "v + of_nat p + sizeof_pair ELF64 = v + of_nat (p + 16)"
    by (simp_all add: algebra_simps sizeof_pair_def)
  have e: "Core_Write os v (ehdr_bytes ELF64 (fake_ehdr ELF64 c1)) c1 = Inr c2"
    using wr by (simp add: ehdr_ws_def run_writes_one)
  have hd2: "take 2 (head_ws v p) = [(64, phdr_bytes ELF64 PT_PHDR (fake_pt_phdr ELF64 (of_nat p))),
      (120, phdr_bytes ELF64 PT_DYNAMIC (fake_pt_dynamic (of_nat p)))]" by (simp add: head_ws_def)
  have tl2: "drop 2 (head_ws v p) = [(p, pair_bytes ELF64 DT_DEBUG (v + of_nat (p + 16))), (p + 16, pair_bytes ELF64 1 (v + of_nat (2 * p)))]"
    by (simp add: head_ws_def)
  have "CreateFakePhdr ELF64 os v (v + of_nat p) c = run_writes os v (take 2 (head_ws v p)) c3"
    by (simp only: CreateFakePhdr_def aux e page res_bind.simps Let_def prod.case sizeof_Ehdr.simps sizeof_Phdr.simps a(4,5)
        hd2 run_writes.simps run_writes_one)
  moreover have "CreateFakeDynamic ELF64 os (v + of_nat p) (v + of_nat (2 * p)) = run_writes os v (drop 2 (head_ws v p))"
    by (rule ext) (simp only: CreateFakeDynamic_def a(6) tl2 run_writes.simps run_writes_one)
  moreover have "create_link_maps ELF64 os (\<lambda>lib _. trunc ELF64 (FindModuleLoad maps lib)) v (v + of_nat (2 * p)) libs =
      run_writes os v (nodes_ws (FindModuleLoad maps) v p libs)"
  proof (rule ext)
    fix c
    have "link_at ELF64 (v + of_nat (2 * p)) 1 = v + of_nat (2 * p + 48)" by (simp only: link_at64) simp
    moreover have "write_links ELF64 os (\<lambda>lib _. trunc ELF64 (FindModuleLoad maps lib)) (v + of_nat (2 * p)) (length libs) 1 libs =
        run_writes os v (link_ws (FindModuleLoad maps) v (2 * p) (length libs) 1 libs)"
      by (rule ext) (simp only: trunc.simps write_links_plan)
    ultimately show "create_link_maps ELF64 os (\<lambda>lib _. trunc ELF64 (FindModuleLoad maps lib)) v (v + of_nat (2 * p)) libs c =
        run_writes os v (nodes_ws (FindModuleLoad maps) v p libs) c"
      by (simp only: create_link_maps_def nodes_ws_def run_writes.simps)
  qed
  moreover have "CreateFakeStrtab ELF64 os (v + of_nat (3 * p)) (v + of_nat (2 * p)) libs =
      run_writes os v (strtab_ws v p (FAKECORE_VMA # map lib_name libs))"
  proof (rule ext)
    fix c
    have "length (lib_name lib) < 2 ^ 62" if "lib \<in> set libs" for lib
      using small that length_takeWhile_le [of "\<lambda>ch. ch \<noteq> CHR '':''" lib] unfolding lib_name_def by (auto intro: le_less_trans)
    then have "\<forall>nm\<in>set (FAKECORE_VMA # map lib_name libs). length nm < 2 ^ 62" by (auto simp: FAKECORE_VMA_def)
    from write_names_plan [OF this, of os v "3 * p" "2 * p" 0 0 c]
    show "CreateFakeStrtab ELF64 os (v + of_nat (3 * p)) (v + of_nat (2 * p)) libs c =
      run_writes os v (strtab_ws v p (FAKECORE_VMA # map lib_name libs)) c"
      by (simp only: CreateFakeStrtab_def strtab_ws_def semiring_1_class.of_nat_0)
  qed
  moreover have "head_ws v p @ ws = take 2 (head_ws v p) @ drop 2 (head_ws v p) @ ws" for ws
    by (simp only: append.assoc [symmetric] append_take_drop_id)
  ultimately show ?thesis
    by (simp only: fill_fake_vma_def CreateFakeLinkMap_def Let_def a(1-3) run_writes_append_fn)
qed

lemma lengths64 [simp]: "length (ehdr_bytes ELF64 (fake_ehdr ELF64 c)) = 64" "length (pair_bytes ELF64 a b) = 16"
  by (simp_all add: ehdr_bytes_def fake_ehdr_def pair_bytes_def Let_def ELFMAG_def)

text \<open>Of a link map entry the words that the names do not overwrite.\<close>

lemma holds_link:
  "holds c v k (link_bytes ELF64 a nm ld nx pv) \<Longrightarrow>
     holds c v k (le_bytes 8 (unat a)) \<and> holds c v (k + 16) (le_bytes 8 (unat ld)) \<and> holds c v (k + 24) (le_bytes 8 (unat nx))"
  by (simp add: link_bytes_def Let_def holds_append add.assoc)

lemma nodes_hold:
  assumes "area c i v (4 * p)" "libs \<noteq> []" "48 * (length libs + 1) \<le> p" "k < length libs + 1"
    and "\<forall>(a, bs)\<in>set (nodes_ws f v p libs). holds c v a bs"
  shows "holds c v (2 * p + 48 * k) (le_bytes 8 (unat ((v # map f libs) ! k)))"
    "holds c v (2 * p + 48 * k + 16) (le_bytes 8 0)"
    "holds c v (2 * p + 48 * k + 24) (le_bytes 8 (unat (node_next v p (length libs + 1) k)))"
proof -
  have all: "holds c v (fst w) (snd w)" if "w \<in> set (nodes_ws f v p libs)" for w using assms(5) that by auto
  have "\<exists>pv. holds c v (2 * p + 48 * k) (link_bytes ELF64 ((v # map f libs) ! k) 0 0 (node_next v p (length libs + 1) k) pv)"
  proof (cases k)
    case 0
    have "holds c v (2 * p) (link_bytes ELF64 v 0 0 (v + of_nat (2 * p + 48)) 0)"
      using assms(5) by (simp add: nodes_ws_def)
    then show ?thesis using 0 assms(2) by (auto simp: node_next_def node_at_def)
  next
    case (Suc m)
    have m: "m < length libs" using assms(4) Suc by simp
    have "link_ws f v (2 * p) (length libs) 1 libs ! m \<in> set (nodes_ws f v p libs)"
      using m by (simp add: nodes_ws_def)
    then have "holds c v (2 * p + 48 * (1 + m)) (link_bytes ELF64 (f (libs ! m)) 0 0
        (if 1 + m < length libs then v + of_nat (2 * p + 48 * (1 + m + 1)) else 0) (v + of_nat (2 * p + 48 * (1 + m - 1))))"
      using all unfolding link_ws_nth [OF m] by (metis fst_conv snd_conv)
    moreover have "(if 1 + m < length libs then v + of_nat (2 * p + 48 * (1 + m + 1)) else 0) = node_next v p (length libs + 1) k"
      by (simp add: node_next_def node_at_def Suc)
    ultimately show ?thesis using m Suc by auto
  qed
  then obtain pv where "holds c v (2 * p + 48 * k) (link_bytes ELF64 ((v # map f libs) ! k) 0 0 (node_next v p (length libs + 1) k) pv)"
    by blast
  from holds_link [OF this] show "holds c v (2 * p + 48 * k) (le_bytes 8 (unat ((v # map f libs) ! k)))"
    "holds c v (2 * p + 48 * k + 16) (le_bytes 8 0)"
    "holds c v (2 * p + 48 * k + 24) (le_bytes 8 (unat (node_next v p (length libs + 1) k)))"
    by simp_all
qed

section \<open>The filled segment\<close>

lemma core_ok_indep:
  "core_ok (c\<lparr>mNote := ns\<rparr>) = core_ok c" "core_ok (c\<lparr>page_size := q\<rparr>) = core_ok c"
  "core_byte (c\<lparr>mNote := ns\<rparr>) = core_byte c" "core_byte (c\<lparr>page_size := q\<rparr>) = core_byte c"
  by (simp_all add: core_ok_def loads_ok_def getLoads_def mask_ok_def core_byte_def findLoadBlock_def fun_eq_iff)

lemma area_indep:
  "area (c\<lparr>mNote := ns\<rparr>) i v n = area c i v n" "area (c\<lparr>page_size := q\<rparr>) i v n = area c i v n"
  "holds (c\<lparr>mNote := ns\<rparr>) v = holds c v" "holds (c\<lparr>page_size := q\<rparr>) v = holds c v"
  by (simp_all add: area_def valid_seg_def core_ok_indep holds_def fun_eq_iff)

lemma area_more_memory:
  assumes "area c i v n" "\<forall>x. mem c x \<noteq> None \<longrightarrow> h x = mem c x"
  shows "area (c\<lparr>mem := h\<rparr>) i v n" "holds (c\<lparr>mem := h\<rparr>) v = holds c v"
  using assms core_ok_more_memory [OF _ assms(2)] by (auto simp: area_def valid_seg_def holds_def fun_eq_iff)

text \<open>One group of pairwise separate writes.\<close>

lemma run_group:
  assumes "area c i v n" "in_area n ws" "sorted_wrt apart_writes ws"
  obtains h where "run_writes os v ws c = Inr (c\<lparr>mem := h\<rparr>)" "area (c\<lparr>mem := h\<rparr>) i v n"
    "\<And>w. w \<in> set ws \<Longrightarrow> holds (c\<lparr>mem := h\<rparr>) v (fst w) (snd w)"
    "\<And>k xs. holds c v k xs \<Longrightarrow> k + length xs \<le> n \<Longrightarrow>
       (\<And>w. w \<in> set ws \<Longrightarrow> apart (fst w) (length (snd w)) k (length xs)) \<Longrightarrow> holds (c\<lparr>mem := h\<rparr>) v k xs"
proof -
  obtain h where h: "run_writes os v ws c = Inr (c\<lparr>mem := h\<rparr>)" "area (c\<lparr>mem := h\<rparr>) i v n"
    "sorted_wrt apart_writes ws \<longrightarrow> (\<forall>(k, bs)\<in>set ws. holds (c\<lparr>mem := h\<rparr>) v k bs)"
    "\<forall>k xs. holds c v k xs \<longrightarrow> k + length xs \<le> n \<longrightarrow> (\<forall>w\<in>set ws. apart (fst w) (length (snd w)) k (length xs)) \<longrightarrow>
       holds (c\<lparr>mem := h\<rparr>) v k xs"
    using run_writes_spec [OF assms(1,2), of os] by blast
  show ?thesis
  proof (rule that [OF h(1,2)])
    show "holds (c\<lparr>mem := h\<rparr>) v (fst w) (snd w)" if "w \<in> set ws" for w using h(3) assms(3) that by auto
  qed (use h(4) in blast)
qed

lemma nodes_group:
  assumes "48 * (length libs + 1) \<le> p"
  shows "in_area (4 * p) (nodes_ws f v p libs)" "sorted_wrt apart_writes (nodes_ws f v p libs)"
    "\<And>w. w \<in> set (nodes_ws f v p libs) \<Longrightarrow> 2 * p \<le> fst w \<and> fst w + length (snd w) \<le> 3 * p"
proof -
  have mem: "2 * p + 48 \<le> fst w \<and> fst w + length (snd w) \<le> 3 * p \<and> length (snd w) = 40"
    if "w \<in> set (link_ws f v (2 * p) (length libs) 1 libs)" for w
    using that assms by (elim link_ws_set) auto
  have "in_area (4 * p) (link_ws f v (2 * p) (length libs) 1 libs)"
    unfolding in_area_def
  proof (rule ballI, rule case_prodI2)
    fix w k bs assume w: "w \<in> set (link_ws f v (2 * p) (length libs) 1 libs)" "w = (k, bs)"
    show "k + length bs \<le> 4 * p \<and> bs \<noteq> []" using mem [OF w(1)] w(2) by auto
  qed
  then show "in_area (4 * p) (nodes_ws f v p libs)"
    using assms length_link_bytes [of v 0 0 "v + of_nat (2 * p + 48)" 0] by (auto simp: nodes_ws_def simp del: length_link_bytes)
  show "sorted_wrt apart_writes (nodes_ws f v p libs)"
  proof -
    have "apart (2 * p) 40 (fst w) (length (snd w))" if "w \<in> set (link_ws f v (2 * p) (length libs) 1 libs)" for w
      using mem [OF that] by (simp add: apart_def)
    then show ?thesis by (simp add: nodes_ws_def link_ws_apart [of f v "2 * p" "length libs" "Suc 0" libs])
  qed
  show "2 * p \<le> fst w \<and> fst w + length (snd w) \<le> 3 * p" if "w \<in> set (nodes_ws f v p libs)" for w
  proof (cases "w \<in> set (link_ws f v (2 * p) (length libs) 1 libs)")
    case True
    then show ?thesis using mem [OF True] by simp
  next
    case False
    then show ?thesis using that assms by (auto simp: nodes_ws_def)
  qed
qed

lemma strtab_group:
  assumes "48 * length names \<le> p" "rooms names \<le> p"
  shows "in_area (4 * p) (strtab_ws v p names)" "sorted_wrt apart_writes (strtab_ws v p names)"
    "\<And>w. w \<in> set (strtab_ws v p names) \<Longrightarrow>
       (\<exists>k<length names. fst w = 2 * p + 48 * k + 8 \<and> length (snd w) = 8) \<or> 3 * p \<le> fst w"
proof -
  have mem: "(\<exists>k<length names. fst w = 2 * p + 48 * k + 8 \<and> length (snd w) = 8) \<or>
      3 * p \<le> fst w \<and> fst w + length (snd w) \<le> 4 * p \<and> snd w \<noteq> []" if "w \<in> set (strtab_ws v p names)" for w
    using name_ws_set [of w v "2 * p" "3 * p" 0 0 names] that assms(2) by (auto simp: strtab_ws_def)
  show "in_area (4 * p) (strtab_ws v p names)"
    unfolding in_area_def
  proof (rule ballI, rule case_prodI2)
    fix w k bs assume w: "w \<in> set (strtab_ws v p names)" "w = (k, bs)"
    show "k + length bs \<le> 4 * p \<and> bs \<noteq> []" using mem [OF w(1)] w(2) assms(1) by auto
  qed
  show "sorted_wrt apart_writes (strtab_ws v p names)" using assms by (auto simp: strtab_ws_def intro: name_ws_apart)
  show "(\<exists>k<length names. fst w = 2 * p + 48 * k + 8 \<and> length (snd w) = 8) \<or> 3 * p \<le> fst w"
    if "w \<in> set (strtab_ws v p names)" for w using mem [OF that] by blast
qed

lemma findAuxv_with_phdr:
  assumes "phdr_entry nb j"
  shows "findAuxv ty (c\<lparr>mNote := [with_phdr nb j q m]\<rparr>) = (if ty = AT_PHDR then q else findAuxv ty (c\<lparr>mNote := [nb]\<rparr>))"
proof -
  have j: "j < length (mAuxvs nb)" "mType (mAuxvs nb ! j) = AT_PHDR"
    "\<And>k. k < length (mAuxvs nb) \<Longrightarrow> k \<noteq> j \<Longrightarrow> mType (mAuxvs nb ! k) \<noteq> AT_PHDR"
    using assms by (auto simp: phdr_entry_def)
  let ?xs = "(mAuxvs nb)[j := (mAuxvs nb ! j)\<lparr>mValue := q\<rparr>]"
  have same: "mType (?xs ! k) = mType (mAuxvs nb ! k)" if "k < length (mAuxvs nb)" for k
    using that by (cases "k = j") simp_all
  show ?thesis
  proof (cases "ty = AT_PHDR")
    case True
    have "find (\<lambda>a. mType a = ty) ?xs = Some ((mAuxvs nb ! j)\<lparr>mValue := q\<rparr>)"
      unfolding find_Some_iff using j True same by (intro exI [of _ j]) auto
    then show ?thesis using True by (simp add: findAuxv_def with_phdr_def)
  next
    case False
    have "find (\<lambda>a. mType a = ty) ?xs = find (\<lambda>a. mType a = ty) (mAuxvs nb)"
    proof (cases "find (\<lambda>a. mType a = ty) (mAuxvs nb)")
      case None
      then have "\<forall>k<length (mAuxvs nb). mType (mAuxvs nb ! k) \<noteq> ty" unfolding find_None_iff by auto
      then have "\<forall>a\<in>set ?xs. mType a \<noteq> ty" using same by (simp add: all_set_conv_all_nth)
      then have "find (\<lambda>a. mType a = ty) ?xs = None" unfolding find_None_iff by blast
      then show ?thesis using None by simp
    next
      case (Some a)
      then obtain k where k: "k < length (mAuxvs nb)" "mType (mAuxvs nb ! k) = ty" "mAuxvs nb ! k = a"
          "\<forall>l<k. mType (mAuxvs nb ! l) \<noteq> ty"
        unfolding find_Some_iff by auto
      have "k \<noteq> j" using k(2) j(2) False by auto
      then have "find (\<lambda>a. mType a = ty) ?xs = Some a"
        unfolding find_Some_iff using k same by (intro exI [of _ k]) auto
      then show ?thesis using Some by simp
    qed
    then show ?thesis using False by (simp add: findAuxv_def with_phdr_def)
  qed
qed

text \<open>What the builder relies on: a note as it makes them, its page size, and the new segment.\<close>

definition ready :: "os_env \<Rightarrow> core \<Rightarrow> note_block \<Rightarrow> nat \<Rightarrow> nat \<Rightarrow> bool" where
  "ready os c nb j p \<longleftrightarrow> mNote c = [nb] \<and> note_ok (mem c) nb \<and> mOverlay nb = None \<and>
     os_mmap os (mem c) (mFileSize nb) \<noteq> None \<and> phdr_entry nb j \<and> bits (core_machine c) = 64 \<and>
     (page_size c = of_nat p \<or> page_size c = 0 \<and> findAuxv AT_PAGESZ c = of_nat p) \<and> 4096 \<le> p \<and> p < 2 ^ 60"

lemma page_after:
  assumes "ready os c nb j p"
  shows "getPageSize (c\<lparr>mNote := [with_phdr nb j q m], mem := h\<rparr>) =
    (of_nat p, c\<lparr>mNote := [with_phdr nb j q m], mem := h, page_size := of_nat p\<rparr>)"
proof -
  have r: "mNote c = [nb]" "phdr_entry nb j" "page_size c = of_nat p \<or> page_size c = 0 \<and> findAuxv AT_PAGESZ c = of_nat p"
      "4096 \<le> p" "p < 2 ^ 60"
    using assms by (auto simp: ready_def)
  have "unat (of_nat p :: u64) = p" using r(5) by (intro unat_of_nat_u64) simp
  then have nz: "(of_nat p :: u64) \<noteq> 0" using r(4) by auto
  have "c\<lparr>mNote := [nb]\<rparr> = c" using r(1) by simp
  then have "findAuxv AT_PAGESZ (c\<lparr>mNote := [with_phdr nb j q m], mem := h\<rparr>) = findAuxv AT_PAGESZ c"
    using findAuxv_with_phdr [OF r(2), of AT_PAGESZ q m c] by (simp add: findAuxv_def AT_PAGESZ_def AT_PHDR_def)
  then show ?thesis using r(3) nz by (auto simp: getPageSize_def Let_def)
qed

lemma bytes_ne: "phdr_bytes ELF64 ty ph \<noteq> []" "pair_bytes ELF64 a b \<noteq> []"
  by (metis length_phdr_bytes list.size(3) zero_neq_numeral) (metis lengths64(2) list.size(3) zero_neq_numeral)

declare phdr_bytes.simps [simp del]

text \<open>The three groups of writes after the first one.\<close>

lemma listing_written:
  assumes ar: "area c i v (4 * p)" and b: "bits (core_machine c) = 64" and p: "4096 \<le> p"
    and libs: "libs \<noteq> []" "48 * (length libs + 1) \<le> p" and nm: "names = FAKECORE_VMA # map lib_name libs" "rooms names \<le> p"
    and e: "holds c v 0 (ehdr_bytes ELF64 (fake_ehdr ELF64 c))" and z: "holds c v (p + 32) (replicate 8 0)"
  obtains h where "run_writes os v (head_ws v p @ nodes_ws f v p libs @ strtab_ws v p names) c = Inr (c\<lparr>mem := h\<rparr>)"
    "fake_listing (c\<lparr>mem := h\<rparr>) i v p (v # map f libs) names"
proof -
  have len: "length names = length libs + 1" by (simp add: nm(1))
  have hd_in: "in_area (4 * p) (head_ws v p)" using p by (auto simp: head_ws_def bytes_ne)
  have hd_apart: "sorted_wrt apart_writes (head_ws v p)" using p by (auto simp: head_ws_def apart_def)
  obtain h1 where h1: "run_writes os v (head_ws v p) c = Inr (c\<lparr>mem := h1\<rparr>)" "area (c\<lparr>mem := h1\<rparr>) i v (4 * p)"
    "\<And>w. w \<in> set (head_ws v p) \<Longrightarrow> holds (c\<lparr>mem := h1\<rparr>) v (fst w) (snd w)"
    "\<And>k xs. holds c v k xs \<Longrightarrow> k + length xs \<le> 4 * p \<Longrightarrow>
       (\<And>w. w \<in> set (head_ws v p) \<Longrightarrow> apart (fst w) (length (snd w)) k (length xs)) \<Longrightarrow> holds (c\<lparr>mem := h1\<rparr>) v k xs"
    using run_group [OF ar hd_in hd_apart, of os] by blast
  obtain h2 where h2: "run_writes os v (nodes_ws f v p libs) (c\<lparr>mem := h1\<rparr>) = Inr (c\<lparr>mem := h2\<rparr>)" "area (c\<lparr>mem := h2\<rparr>) i v (4 * p)"
    "\<And>w. w \<in> set (nodes_ws f v p libs) \<Longrightarrow> holds (c\<lparr>mem := h2\<rparr>) v (fst w) (snd w)"
    "\<And>k xs. holds (c\<lparr>mem := h1\<rparr>) v k xs \<Longrightarrow> k + length xs \<le> 4 * p \<Longrightarrow>
       (\<And>w. w \<in> set (nodes_ws f v p libs) \<Longrightarrow> apart (fst w) (length (snd w)) k (length xs)) \<Longrightarrow> holds (c\<lparr>mem := h2\<rparr>) v k xs"
    using run_group [OF h1(2) nodes_group(1,2) [OF libs(2)], of os f] by auto
  have sg: "48 * length names \<le> p" using libs(2) len by simp
  obtain h3 where h3: "run_writes os v (strtab_ws v p names) (c\<lparr>mem := h2\<rparr>) = Inr (c\<lparr>mem := h3\<rparr>)" "area (c\<lparr>mem := h3\<rparr>) i v (4 * p)"
    "\<And>w. w \<in> set (strtab_ws v p names) \<Longrightarrow> holds (c\<lparr>mem := h3\<rparr>) v (fst w) (snd w)"
    "\<And>k xs. holds (c\<lparr>mem := h2\<rparr>) v k xs \<Longrightarrow> k + length xs \<le> 4 * p \<Longrightarrow>
       (\<And>w. w \<in> set (strtab_ws v p names) \<Longrightarrow> apart (fst w) (length (snd w)) k (length xs)) \<Longrightarrow> holds (c\<lparr>mem := h3\<rparr>) v k xs"
    using run_group [OF h2(2) strtab_group(1,2) [OF sg nm(2)], of os] by auto
  have low: "holds (c\<lparr>mem := h3\<rparr>) v k xs" if "holds (c\<lparr>mem := h1\<rparr>) v k xs" "k + length xs \<le> 2 * p" for k xs
  proof (rule h3(4) [OF h2(4) [OF that(1)]])
    show "k + length xs \<le> 4 * p" "k + length xs \<le> 4 * p" using that(2) by simp_all
    show "apart (fst w) (length (snd w)) k (length xs)" if "w \<in> set (nodes_ws f v p libs)" for w
      using nodes_group(3) [OF libs(2) that] \<open>k + length xs \<le> 2 * p\<close> by (simp add: apart_def)
    show "apart (fst w) (length (snd w)) k (length xs)" if "w \<in> set (strtab_ws v p names)" for w
      using strtab_group(3) [OF sg nm(2) that] \<open>k + length xs \<le> 2 * p\<close> by (auto simp: apart_def)
  qed
  have kept: "holds (c\<lparr>mem := h1\<rparr>) v 0 (ehdr_bytes ELF64 (fake_ehdr ELF64 c))" "holds (c\<lparr>mem := h1\<rparr>) v (p + 32) (replicate 8 0)"
    using p by (auto intro!: h1(4) [OF e] h1(4) [OF z] simp: head_ws_def apart_def)
  have head: "holds (c\<lparr>mem := h3\<rparr>) v (fst w) (snd w)" if "w \<in> set (head_ws v p)" for w
    using that p by (intro low h1(3)) (auto simp: head_ws_def)
  have node: "holds (c\<lparr>mem := h3\<rparr>) v (2 * p + 48 * k + t) xs"
    if "holds (c\<lparr>mem := h2\<rparr>) v (2 * p + 48 * k + t) xs" "k < length names" "length xs = 8" "t = 0 \<or> t = 16 \<or> t = 24" for k t xs
  proof (rule h3(4) [OF that(1)])
    have "48 * k + 48 \<le> p" using that(2) sg by linarith
    then have "t \<le> 24" "48 * k + 48 \<le> p" using that(4) by auto
    then show "2 * p + 48 * k + t + length xs \<le> 4 * p" using that(3) by linarith
    show "apart (fst w) (length (snd w)) (2 * p + 48 * k + t) (length xs)" if w: "w \<in> set (strtab_ws v p names)" for w
      using strtab_group(3) [OF sg nm(2) w]
    proof
      assume "\<exists>k'<length names. fst w = 2 * p + 48 * k' + 8 \<and> length (snd w) = 8"
      then obtain k' where w: "fst w = 2 * p + 48 * k' + 8" "length (snd w) = 8" by blast
      have "k' < k \<or> k' = k \<or> k < k'" by linarith
      then show ?thesis using w \<open>length xs = 8\<close> \<open>t = 0 \<or> t = 16 \<or> t = 24\<close> unfolding apart_def by auto
    qed (use \<open>48 * k + 48 \<le> p\<close> \<open>t \<le> 24\<close> \<open>length xs = 8\<close> in \<open>simp add: apart_def\<close>)
  qed
  have nd: "\<forall>(a, bs)\<in>set (nodes_ws f v p libs). holds (c\<lparr>mem := h2\<rparr>) v a bs" using h2(3) by fastforce
  have words: "holds (c\<lparr>mem := h3\<rparr>) v (2 * p + 48 * k) (le_bytes 8 (unat ((v # map f libs) ! k)))"
      "holds (c\<lparr>mem := h3\<rparr>) v (2 * p + 48 * k + 16) (le_bytes 8 0)"
      "holds (c\<lparr>mem := h3\<rparr>) v (2 * p + 48 * k + 24) (le_bytes 8 (unat (node_next v p (length names) k)))"
    if k: "k < length names" for k
    using node [OF _ k, of 0] node [OF _ k, of 16] node [OF _ k, of 24] nodes_hold [OF h2(2) libs, of k f] k nd unfolding len by simp_all
  have name: "holds (c\<lparr>mem := h3\<rparr>) v (2 * p + 48 * k + 8) (le_bytes 8 (unat (v + of_nat (name_off p names k))))"
      "holds (c\<lparr>mem := h3\<rparr>) v (name_off p names k) (str_bytes (names ! k) @ [0])" if k: "k < length names" for k
    using h3(3) name_ws_mem [OF k, of "2 * p" 0 v "3 * p" 0] unfolding strtab_ws_def name_off_def
    by (metis fst_conv snd_conv add.right_neutral add_0)+
  have mach: "fake_ehdr ELF64 (c\<lparr>mem := h3\<rparr>) = fake_ehdr ELF64 c" by (simp add: fake_ehdr_def)
  have "holds (c\<lparr>mem := h3\<rparr>) v 64 (phdr_bytes ELF64 PT_PHDR (fake_pt_phdr ELF64 (of_nat p)))"
      "holds (c\<lparr>mem := h3\<rparr>) v 120 (phdr_bytes ELF64 PT_DYNAMIC (fake_pt_dynamic (of_nat p)))"
      "holds (c\<lparr>mem := h3\<rparr>) v p (pair_bytes ELF64 DT_DEBUG (v + of_nat (p + 16)))"
      "holds (c\<lparr>mem := h3\<rparr>) v (p + 16) (pair_bytes ELF64 1 (v + of_nat (2 * p)))"
    by (rule head [of "(_, _)", unfolded fst_conv snd_conv], simp add: head_ws_def)+
  moreover have "v + of_nat (2 * p) = node_at v p 0" by (simp add: node_at_def)
  moreover have "holds (c\<lparr>mem := h3\<rparr>) v 0 (ehdr_bytes ELF64 (fake_ehdr ELF64 c))"
      "holds (c\<lparr>mem := h3\<rparr>) v (p + 32) (replicate 8 0)"
    using kept p by (auto intro!: low)
  moreover have "bits (core_machine (c\<lparr>mem := h3\<rparr>)) = 64" "length (v # map f libs) = length names" using b len by simp_all
  ultimately have "fake_listing (c\<lparr>mem := h3\<rparr>) i v p (v # map f libs) names"
    unfolding fake_listing_def mach using h3(2) p sg nm(2) by (intro conjI allI impI words name) simp_all
  then show ?thesis using that h1(1) h2(1) h3(1) by (simp add: run_writes_append)
qed

lemma fill_listing:
  assumes os: "os_ok os" and r: "ready os c nb j p" and ar: "area c i v (4 * p)"
    and z: "holds c v (p + 32) (replicate 8 0)"
    and libs: "libs \<noteq> []" "48 * (length libs + 1) \<le> p" "\<forall>lib\<in>set libs. length lib < 2 ^ 62"
    and nm: "names = FAKECORE_VMA # map lib_name libs" "rooms names \<le> p"
  obtains m h d where
    "fill_fake_vma ELF64 os (\<lambda>v l libs. CreateFakeLinkMap ELF64 os v l libs maps) (of_nat p) (of_nat p) v libs c = Inr d"
    "d = c\<lparr>mNote := [with_phdr nb j (v + 64) m], page_size := of_nat p, mem := h\<rparr>"
    "fake_listing d i v p (v # map (FindModuleLoad maps) libs) names"
proof -
  have rs: "mNote c = [nb]" "note_ok (mem c) nb" "mOverlay nb = None" "os_mmap os (mem c) (mFileSize nb) \<noteq> None"
    "phdr_entry nb j" "bits (core_machine c) = 64" "4096 \<le> p"
    using r by (simp_all add: ready_def)
  obtain m h0 where aux: "set_auxvs os (fake_phdr_callback ELF64 v) (auxv_slots c) c =
      Inr (c\<lparr>mNote := [with_phdr nb j (v + 64) m], mem := h0\<rparr>)" and more: "\<forall>x. mem c x \<noteq> None \<longrightarrow> h0 x = mem c x"
    by (rule set_phdr_entry [OF os rs(1-6)])
  let ?c1 = "c\<lparr>mNote := [with_phdr nb j (v + 64) m], mem := h0\<rparr>"
  have c1: "?c1 = (c\<lparr>mem := h0\<rparr>)\<lparr>mNote := [with_phdr nb j (v + 64) m]\<rparr>" by simp
  have ar1: "area ?c1 i v (4 * p)" "holds ?c1 v = holds c v"
    unfolding c1 area_indep using area_more_memory [OF ar more] by simp_all
  have e: "0 + length (ehdr_bytes ELF64 (fake_ehdr ELF64 ?c1)) \<le> 4 * p" using rs(7) by simp
  have ne: "ehdr_bytes ELF64 (fake_ehdr ELF64 ?c1) \<noteq> []" by (metis lengths64(1) list.size(3) zero_neq_numeral)
  obtain h1 where w: "Core_Write os (v + of_nat 0) (ehdr_bytes ELF64 (fake_ehdr ELF64 ?c1)) ?c1 = Inr (?c1\<lparr>mem := h1\<rparr>)"
    "area (?c1\<lparr>mem := h1\<rparr>) i v (4 * p)" "holds (?c1\<lparr>mem := h1\<rparr>) v 0 (ehdr_bytes ELF64 (fake_ehdr ELF64 ?c1))"
    "\<And>k' xs. holds ?c1 v k' xs \<Longrightarrow> k' + length xs \<le> 4 * p \<Longrightarrow>
       apart 0 (length (ehdr_bytes ELF64 (fake_ehdr ELF64 ?c1))) k' (length xs) \<Longrightarrow> holds (?c1\<lparr>mem := h1\<rparr>) v k' xs"
    by (rule write_area [OF ar1(1) e ne, where os = os]) (rule that, assumption, assumption, assumption, blast)
  let ?c2 = "c\<lparr>mNote := [with_phdr nb j (v + 64) m], mem := h1\<rparr>"
    and ?c3 = "c\<lparr>mNote := [with_phdr nb j (v + 64) m], mem := h1, page_size := of_nat p\<rparr>"
  have c2: "?c1\<lparr>mem := h1\<rparr> = ?c2" by simp
  have mach: "fake_ehdr ELF64 ?c1 = fake_ehdr ELF64 ?c3" by (simp add: fake_ehdr_def)
  have wr: "run_writes os v (ehdr_ws ?c1) ?c1 = Inr ?c2"
    using w(1) unfolding c2 by (simp only: ehdr_ws_def run_writes_one)
  have z1: "holds ?c2 v (p + 32) (replicate 8 0)"
    unfolding c2 [symmetric] using z ar1(2) rs(7) by (intro w(4)) (simp_all add: apart_def)
  have ar3: "area ?c3 i v (4 * p)" "holds ?c3 v 0 (ehdr_bytes ELF64 (fake_ehdr ELF64 ?c3))" "holds ?c3 v (p + 32) (replicate 8 0)"
    using w(2,3) z1 unfolding c2 mach by (simp_all only: area_indep)
  have b3: "bits (core_machine ?c3) = 64" using rs(6) by simp
  obtain h where rest: "run_writes os v (head_ws v p @ nodes_ws (FindModuleLoad maps) v p libs @ strtab_ws v p names) ?c3 = Inr (?c3\<lparr>mem := h\<rparr>)"
    "fake_listing (?c3\<lparr>mem := h\<rparr>) i v p (v # map (FindModuleLoad maps) libs) names"
    by (rule listing_written [OF ar3(1) b3 rs(7) libs(1,2) nm ar3(2,3), where os = os and f = "FindModuleLoad maps"])
  show ?thesis
  proof (rule that)
    show "fill_fake_vma ELF64 os (\<lambda>v l libs. CreateFakeLinkMap ELF64 os v l libs maps) (of_nat p) (of_nat p) v libs c = Inr (?c3\<lparr>mem := h\<rparr>)"
      unfolding fill_plan [OF aux wr page_after [OF r] libs(3)] using rest(1) nm(1) by simp
  qed (use rest(2) in simp_all)
qed

end
