(* ===== verification/FakeWalk.thy ===== *)
theory FakeWalk
  imports FakeListing
begin

unbundle bit_operations_syntax

text \<open>
  Reading back the fake libraries (\<open>Elf::GetDebug\<close>, \<open>LinkMap\<close> and \<open>loadLinkMap64\<close> of the core library on the
  segment that parser/command/fake fills): the debug structure is found, the walk lists
  one link map per library in order, and each has the address and the name it was given.
\<close>

section \<open>Accessors at offsets of the segment\<close>

abbreviation cell :: "u64 \<Rightarrow> nat \<Rightarrow> nat option \<Rightarrow> memory_ref" where
  "cell v k b \<equiv> \<lparr>ref_vaddr = v + of_nat k, ref_block = b\<rparr>"

lemma area_valid: "area c i v n \<Longrightarrow> valid_seg c i"
  by (simp add: area_def)

lemma area_valueNOf:
  assumes ar: "area c i v n" and h: "holds c v (k + t) (le_bytes m (unat w))" "unat w < 256 ^ m"
    and fit: "k + t + m \<le> n" "0 < m" and b: "b = None \<or> b = Some i"
  shows "valueNOf m (of_nat t) c (cell v k b) = Inr (w, cell v k (Some i))"
proof -
  have "k + (t + m) \<le> n" "0 < t + m" using fit by simp_all
  note ins = area_inside(1) [OF ar this]
  have "ref_ok c (cell v k b)" using b inside_found(1) [OF area_valid [OF ar] ins] by (auto simp: ref_ok_def)
  then have "valueNOf m (of_nat t) c (cell v k b) = Inr (target_word c (v + of_nat k + of_nat t) m, cell v k (Some i))"
    using valueNOf_inside [OF area_valid [OF ar], of "cell v k b" "t + m" t m] ins by simp
  moreover have "v + of_nat k + of_nat t = v + of_nat (k + t)" by (simp add: add.assoc)
  ultimately show ?thesis using holds_word [OF h] by simp
qed

lemma area_valueOf:
  assumes "area c i v n" "holds c v (k + t) (le_bytes 8 (unat w))" "k + t + 8 \<le> n" "b = None \<or> b = Some i"
  shows "valueOf (of_nat t) c (cell v k b) = Inr (w, cell v k (Some i))"
  using area_valueNOf [OF assms(1,2) fits_8 assms(3) _ assms(4)] assms(1)
  by (simp add: valueOf_def Ref_PointMask_def area_def)

lemma area_ref_valid:
  assumes "area c i v n" "k < n" "b = None \<or> b = Some i"
  shows "Ref_IsValid c (cell v k b) = Inr (True, cell v k (Some i))"
proof -
  have "k + 1 \<le> n" using assms(2) by simp
  note ins = area_inside(1) [OF assms(1) this, simplified]
  have "ref_ok c (cell v k b)" using assms(3) inside_found(1) [OF area_valid [OF assms(1)] ins] by (auto simp: ref_ok_def)
  then show ?thesis using Ref_IsValid_inside [OF area_valid [OF assms(1)], of "cell v k b" 1] ins by simp
qed

lemma area_MovePtr:
  assumes "area c i v n" "k + t < n"
  shows "MovePtr (of_nat t) c (cell v k (Some i)) = Inr (cell v (k + t) (Some i))"
proof -
  have "k + (t + 1) \<le> n" using assms(2) by simp
  note ins = area_inside(1) [OF assms(1) this, simplified]
  have "ref_ok c (cell v k (Some i))" using inside_found(1) [OF area_valid [OF assms(1)] ins] by (auto simp: ref_ok_def)
  then show ?thesis
    using MovePtr_inside [OF area_valid [OF assms(1)], of "cell v k (Some i)" "Suc t" t] ins by (simp add: add.assoc)
qed

lemma area_real:
  assumes ar: "area c i v n" and k: "k < n"
  shows "GetReal (v + of_nat k) c = Inr (LoadBlock_begin OPT_READ_ALL (blk c i) + of_nat k)"
    "Real c (cell v k (Some i)) = Inr (LoadBlock_begin OPT_READ_ALL (blk c i) + of_nat k, cell v k (Some i))"
proof -
  have "k + 1 \<le> n" using k by simp
  note ins = area_inside(1) [OF ar this, simplified]
  note f = inside_found [OF area_valid [OF ar] ins]
  note seg = valid_segD [OF area_valid [OF ar]]
  show r: "GetReal (v + of_nat k) c = Inr (LoadBlock_begin OPT_READ_ALL (blk c i) + of_nat k)"
    using v2r_found [OF seg(1) f(1) seg(3)] f(2) ar by (simp add: area_def)
  have "ref_ok c (cell v k (Some i))" using f(1) by (auto simp: ref_ok_def)
  then show "Real c (cell v k (Some i)) = Inr (LoadBlock_begin OPT_READ_ALL (blk c i) + of_nat k, cell v k (Some i))"
    using Real_eq_GetReal [OF seg(1), of "cell v k (Some i)"] r f ins by (simp add: inside_def)
qed

lemma area_host_read:
  assumes ar: "area c i v n" and h: "holds c v k bs" and fit: "k + length bs \<le> n"
  shows "host_read (mem c) (LoadBlock_begin OPT_READ_ALL (blk c i) + of_nat k) (length bs) = Inr bs"
proof -
  note seg = valid_segD [OF area_valid [OF ar]]
  have bk: "k + length bs \<le> backed_size (blk c i)" using area_backed [OF ar] ar fit by (simp add: area_def)
  have "block_byte (mem c) (blk c i) (k + j) = bs ! j" if "j < length bs" for j
  proof -
    have "k + j + 1 \<le> n" using that fit by simp
    note q = area_inside [OF ar this, simplified]
    have "core_byte c (v + of_nat (k + j)) = Some (block_byte (mem c) (blk c i) (k + j))"
      using core_byte_eq [OF inside_found(1) [OF area_valid [OF ar] q(1)]] inside_found(2) [OF area_valid [OF ar] q(1)] ar q(2)
        unat_of_nat_u64 [of "k + j"] unat_u64_less [of "v + of_nat (k + j)"]
      by (simp add: area_def)
    then show ?thesis using h that by (simp add: holds_def)
  qed
  then have "map (\<lambda>j. block_byte (mem c) (blk c i) (k + j)) [0..<length bs] = bs" by (intro nth_equalityI) simp_all
  then show ?thesis using read_backing [OF seg(4) bk] by simp
qed

section \<open>Headers and dynamic section\<close>

lemma offs64:
  assumes "bits (core_machine c) = 64"
  shows "ucast (p_type (phdr_off c)) = (of_nat 0 :: u64)" "ucast (p_offset (phdr_off c)) = (of_nat 8 :: u64)"
    "ucast (p_vaddr (phdr_off c)) = (of_nat 16 :: u64)" "ucast (p_THIS (phdr_off c)) = (of_nat 56 :: u64)"
    "ucast (d_type (dyn_off c)) = (of_nat 0 :: u64)" "ucast (d_val (dyn_off c)) = (of_nat 8 :: u64)"
    "ucast (d_THIS (dyn_off c)) = (of_nat 16 :: u64)"
    "ucast (l_addr (lm_off c)) = (of_nat 0 :: u64)" "ucast (l_name (lm_off c)) = (of_nat 8 :: u64)"
    "ucast (l_ld (lm_off c)) = (of_nat 16 :: u64)"
    "ucast (Elfx_Ehdr_OffsetTable.e_phnum (ehdr_off c)) = (of_nat 56 :: u64)" "ucast (e_THIS (ehdr_off c)) = (of_nat 64 :: u64)"
  using assms by (simp_all add: Elfx_Phdr_Init_def Elfx_Dynamic_Init_def LinkMap_Init_def Elfx_Ehdr_Init_def Let_def)

lemma holds_phdr:
  assumes "holds c v k (phdr_bytes ELF64 ty ph)"
  shows "holds c v k (le_bytes 4 (unat ty))" "holds c v (k + 8) (le_bytes 8 (unat (ph_offset ph)))"
    "holds c v (k + 16) (le_bytes 8 (unat (ph_vaddr ph)))"
  using assms by (simp_all add: phdr_bytes.simps holds_append add.assoc)

lemma holds_pair:
  assumes "holds c v k (pair_bytes ELF64 a b)"
  shows "holds c v k (le_bytes 8 (unat a))" "holds c v (k + 8) (le_bytes 8 (unat b))"
  using assms by (simp_all add: pair_bytes_def holds_append)

lemma holds_slice:
  assumes "holds c v k bs" "t + m \<le> length bs"
  shows "holds c v (k + t) (take m (drop t bs))"
proof -
  have "bs = take t bs @ take m (drop t bs) @ drop m (drop t bs)" by (metis append_take_drop_id)
  then have "holds c v k (take t bs @ take m (drop t bs) @ drop m (drop t bs))" using assms(1) by simp
  then show ?thesis using assms(2) by (simp add: holds_append del: append_take_drop_id take_drop drop_drop)
qed

lemma holds_ehdr:
  assumes "holds c v 0 (ehdr_bytes ELF64 (fake_ehdr ELF64 d))"
  shows "holds c v 0 ELFMAG" "holds c v 56 (le_bytes 2 (unat (2 :: u64)))"
proof -
  let ?e = "ehdr_bytes ELF64 (fake_ehdr ELF64 d)"
  have "take 4 (drop 0 ?e) = ELFMAG" "take 2 (drop 56 ?e) = le_bytes 2 (unat (2 :: u64))"
    by (simp_all add: ehdr_bytes_def fake_ehdr_def Let_def ELFMAG_def DEF_FAKE_PHNUM_def)
  then show "holds c v 0 ELFMAG" "holds c v 56 (le_bytes 2 (unat (2 :: u64)))"
    using holds_slice [OF assms, of 0 4] holds_slice [OF assms, of 56 2] by simp_all
qed

text \<open>Two entries and the end of the dynamic section: the debug entry, and the debug structure read as one.\<close>

lemma dynamic_loop_listing:
  assumes ar: "area c i v n" and b: "bits (core_machine c) = 64" and n: "p + 40 \<le> n" "p < 2 ^ 60"
    and h: "holds c v p (pair_bytes ELF64 DT_DEBUG dbg)" "holds c v (p + 16) (pair_bytes ELF64 1 lm)" "holds c v (p + 32) (replicate 8 0)"
  shows "dynamic_loop c ty (cell v p (Some i)) = Inr (if ty = DT_DEBUG then dbg else if ty = 1 then lm else 0)"
proof -
  note o = offs64 [OF b]
  note p0 = holds_pair [OF h(1)] and p1 = holds_pair [OF h(2)]
  have z: "holds c v (p + 32) (le_bytes 8 (unat (0 :: u64)))" using h(3) by (simp add: le_bytes_zero)
  have t0: "valueOf (of_nat 0) c (cell v p (Some i)) = Inr (DT_DEBUG, cell v p (Some i))"
    "valueOf (of_nat 8) c (cell v p (Some i)) = Inr (dbg, cell v p (Some i))"
    by (rule area_valueOf [OF ar]; (use p0 n in simp))+
  have t1: "valueOf (of_nat 0) c (cell v (p + 16) (Some i)) = Inr (1, cell v (p + 16) (Some i))"
    "valueOf (of_nat 8) c (cell v (p + 16) (Some i)) = Inr (lm, cell v (p + 16) (Some i))"
    by (rule area_valueOf [OF ar]; (use p1 n in \<open>simp add: add.assoc\<close>))+
  have t2: "valueOf (of_nat 0) c (cell v (p + 32) (Some i)) = Inr (0, cell v (p + 32) (Some i))"
    by (rule area_valueOf [OF ar], use z n in simp_all)
  have m: "MovePtr (of_nat 16) c (cell v p (Some i)) = Inr (cell v (p + 16) (Some i))"
    "MovePtr (of_nat 16) c (cell v (p + 16) (Some i)) = Inr (cell v (p + 32) (Some i))"
    using area_MovePtr [OF ar, of p 16] area_MovePtr [OF ar, of "p + 16" 16] n by (simp_all add: add.assoc)
  have lt: "v + of_nat p < v + of_nat (p + 16)"
    using area_inside(2) [OF ar, of p 1] area_inside(2) [OF ar, of "p + 16" 1] n by (simp add: word_less_nat_alt)
  have second: "dynamic_loop c ty (cell v (p + 16) (Some i)) = Inr (if ty = 1 then lm else 0)"
    by (subst dynamic_loop.simps) (simp only: o t1 t2 m sum.case prod.case if_False if_True refl split: if_split, simp)
  show ?thesis
    by (subst dynamic_loop.simps)
      (simp only: o t0 t1 m lt second sum.case prod.case memory_ref.select_convs if_False if_True refl one_neq_zero split: if_split, simp)
qed

lemma new_ref_cell: "new_memory_ref (v + of_nat k) = cell v k None"
  by (simp add: new_memory_ref_def)

lemma FindDynamicEntry_listing:
  assumes l: "fake_listing d i v p addrs names" and p: "p < 2 ^ 60" and b: "b = None \<or> b = Some i"
  shows "FindDynamicEntry d ty (cell v p b) =
    Inr (if ty = DT_DEBUG then v + of_nat (p + 16) else if ty = 1 then node_at v p 0 else 0, cell v p (Some i))"
proof -
  have ar: "area d i v (4 * p)" "bits (core_machine d) = 64" "4096 \<le> p"
    "holds d v p (pair_bytes ELF64 DT_DEBUG (v + of_nat (p + 16)))" "holds d v (p + 16) (pair_bytes ELF64 1 (node_at v p 0))"
    "holds d v (p + 32) (replicate 8 0)"
    using l by (simp_all only: fake_listing_def)
  have n: "p + 40 \<le> 4 * p" "p < 4 * p" using ar(3) by simp_all
  show ?thesis
    using area_ref_valid [OF ar(1) n(2) b] dynamic_loop_listing [OF ar(1,2) n(1) p ar(4-6), of ty]
    by (simp add: FindDynamicEntry_def)
qed

lemma headers_listing:
  assumes l: "fake_listing d i v p addrs names"
  shows "valueNOf 4 (of_nat 0) d (cell v 64 (Some i)) = Inr (PT_PHDR, cell v 64 (Some i))"
    "valueNOf 4 (of_nat 0) d (cell v 120 (Some i)) = Inr (PT_DYNAMIC, cell v 120 (Some i))"
    "valueOf (of_nat 8) d (cell v 64 (Some i)) = Inr (64, cell v 64 (Some i))"
    "valueOf (of_nat 16) d (cell v 64 (Some i)) = Inr (64, cell v 64 (Some i))"
    "valueOf (of_nat 16) d (cell v 120 (Some i)) = Inr (of_nat p, cell v 120 (Some i))"
    "MovePtr (of_nat 56) d (cell v 64 (Some i)) = Inr (cell v 120 (Some i))"
proof -
  have ar: "area d i v (4 * p)" "4096 \<le> p"
    and h: "holds d v 64 (phdr_bytes ELF64 PT_PHDR (fake_pt_phdr ELF64 (of_nat p)))"
      "holds d v 120 (phdr_bytes ELF64 PT_DYNAMIC (fake_pt_dynamic (of_nat p)))"
    using l by (simp_all only: fake_listing_def)
  note q = holds_phdr [OF h(1)] and r = holds_phdr [OF h(2)]
  show "valueNOf 4 (of_nat 0) d (cell v 64 (Some i)) = Inr (PT_PHDR, cell v 64 (Some i))"
    by (rule area_valueNOf [OF ar(1)]) (use q(1) ar(2) in \<open>simp_all add: PT_PHDR_def\<close>)
  show "valueNOf 4 (of_nat 0) d (cell v 120 (Some i)) = Inr (PT_DYNAMIC, cell v 120 (Some i))"
    by (rule area_valueNOf [OF ar(1)]) (use r(1) ar(2) in \<open>simp_all add: PT_DYNAMIC_def\<close>)
  show "valueOf (of_nat 8) d (cell v 64 (Some i)) = Inr (64, cell v 64 (Some i))"
    by (rule area_valueOf [OF ar(1)]) (use q(2) ar(2) in \<open>simp_all add: fake_pt_phdr_def\<close>)
  show "valueOf (of_nat 16) d (cell v 64 (Some i)) = Inr (64, cell v 64 (Some i))"
    by (rule area_valueOf [OF ar(1)]) (use q(3) ar(2) in \<open>simp_all add: fake_pt_phdr_def\<close>)
  show "valueOf (of_nat 16) d (cell v 120 (Some i)) = Inr (of_nat p, cell v 120 (Some i))"
    by (rule area_valueOf [OF ar(1)]) (use r(3) ar(2) in \<open>simp_all add: fake_pt_dynamic_def\<close>)
  show "MovePtr (of_nat 56) d (cell v 64 (Some i)) = Inr (cell v 120 (Some i))"
    using area_MovePtr [OF ar(1), of 64 56] ar(2) by simp
qed

lemma GetDebug_listing:
  assumes l: "fake_listing d i v p addrs names" and p: "p < 2 ^ 60"
    and none: "ref_vaddr (mDebug d) = 0" and aux: "findAuxv AT_PHDR d = v + 64" "findAuxv AT_PHNUM d = 2"
  shows "GetDebug d = Inr (new_memory_ref (v + of_nat (p + 16)), d\<lparr>mDebug := new_memory_ref (v + of_nat (p + 16))\<rparr>)"
proof -
  have ar: "area d i v (4 * p)" "bits (core_machine d) = 64" "4096 \<le> p" using l by (simp_all only: fake_listing_def)
  note o = offs64 [OF ar(2)] and hd = headers_listing [OF l]
  have valid: "Ref_IsValid d (new_memory_ref (v + 64)) = Inr (True, cell v 64 (Some i))"
    using area_ref_valid [OF ar(1), of 64 None] ar(3) by (simp add: new_memory_ref_def)
  have neq: "PT_PHDR \<noteq> PT_DYNAMIC" by (simp add: PT_PHDR_def PT_DYNAMIC_def)
  have "find_pt_dynamic (Suc (Suc 0)) d (cell v 64 (Some i)) (cell v 64 (Some i)) = Inr (v + of_nat 64 - 64 + of_nat p)"
    by (simp only: find_pt_dynamic.simps o hd res_bind.simps prod.case neq if_False if_True refl memory_ref.select_convs)
  moreover have "v + of_nat 64 - 64 + of_nat p = v + of_nat p" "unat (2 :: u64) = Suc (Suc 0)" by simp_all
  ultimately have dyn: "find_pt_dynamic (unat (2 :: u64)) d (cell v 64 (Some i)) (cell v 64 (Some i)) = Inr (v + of_nat p)"
    by (simp only:)
  have dv: "Ref_IsValid d (new_memory_ref (v + of_nat p)) = Inr (True, cell v p (Some i))"
    unfolding new_ref_cell using area_ref_valid [OF ar(1), of p None] ar(3) by simp
  have "FindDynamicEntry d DT_DEBUG (cell v p (Some i)) = Inr (v + of_nat (p + 16), cell v p (Some i))"
    using FindDynamicEntry_listing [OF l p, of "Some i" DT_DEBUG] by simp
  then show ?thesis
    by (simp only: GetDebug_def none aux valid dyn dv Let_def res_bind.simps prod.case if_True if_False simp_thms)
qed

section \<open>Link maps\<close>

definition fake_node :: "nat \<Rightarrow> u64 \<Rightarrow> nat \<Rightarrow> nat \<Rightarrow> link_map" where
  "fake_node i v p k = \<lparr>lm_ref = cell v (2 * p + 48 * k) (Some i), addr_cache = new_memory_ref 0,
     name_cache = new_memory_ref 0, dynsyms = []\<rparr>"

lemma node_words:
  assumes l: "fake_listing d i v p addrs names" and k: "k < length names" and b: "b = None \<or> b = Some i"
  shows "valueOf (of_nat 0) d (cell v (2 * p + 48 * k) b) = Inr (addrs ! k, cell v (2 * p + 48 * k) (Some i))"
    "valueOf (of_nat 8) d (cell v (2 * p + 48 * k) b) = Inr (v + of_nat (name_off p names k), cell v (2 * p + 48 * k) (Some i))"
    "valueOf (of_nat 16) d (cell v (2 * p + 48 * k) b) = Inr (0, cell v (2 * p + 48 * k) (Some i))"
proof -
  have ar: "area d i v (4 * p)" "48 * length names \<le> p" using l by (simp_all only: fake_listing_def)
  have h: "holds d v (2 * p + 48 * k) (le_bytes 8 (unat (addrs ! k)))"
      "holds d v (2 * p + 48 * k + 8) (le_bytes 8 (unat (v + of_nat (name_off p names k))))"
      "holds d v (2 * p + 48 * k + 16) (le_bytes 8 0)"
    using l k by (simp_all only: fake_listing_def)
  have n: "48 * k + 48 \<le> p" using k ar(2) by linarith
  show "valueOf (of_nat 0) d (cell v (2 * p + 48 * k) b) = Inr (addrs ! k, cell v (2 * p + 48 * k) (Some i))"
    by (rule area_valueOf [OF ar(1) _ _ b]) (use h(1) n in simp_all)
  show "valueOf (of_nat 8) d (cell v (2 * p + 48 * k) b) = Inr (v + of_nat (name_off p names k), cell v (2 * p + 48 * k) (Some i))"
    by (rule area_valueOf [OF ar(1) _ _ b]) (use h(2) n in simp_all)
  show "valueOf (of_nat 16) d (cell v (2 * p + 48 * k) b) = Inr (0, cell v (2 * p + 48 * k) (Some i))"
    by (rule area_valueOf [OF ar(1) _ _ b]) (use h(3) n in simp_all)
qed

text \<open>A library whose segment has no contents gives no dynamic section.\<close>

lemma no_contents:
  assumes "\<not> virtualValid a c"
  shows "IsElf c (new_memory_ref a) = Inr (False, \<lparr>ref_vaddr = a, ref_block = (if a = 0 then None else findLoadBlock a True c)\<rparr>)"
    "FindDynamicEntry c ty (new_memory_ref 0) = Inr (0, new_memory_ref 0)"
  using assms
  by (auto simp: IsElf_def FindDynamicEntry_def Ref_IsValid_def Prepare_def FindLoadBlock_def virtualValid_def new_memory_ref_def
      split: option.splits)

lemma IsElf_listing:
  assumes l: "fake_listing d i v p addrs names"
  shows "IsElf d (new_memory_ref v) = Inr (True, cell v 0 (Some i))"
proof -
  have ar: "area d i v (4 * p)" "4096 \<le> p" "holds d v 0 (ehdr_bytes ELF64 (fake_ehdr ELF64 d))" using l by (simp_all only: fake_listing_def)
  have r: "new_memory_ref v = cell v 0 None" by (simp add: new_memory_ref_def)
  have "0 < 4 * p" using ar(2) by simp
  note val = area_ref_valid [OF ar(1) this, of None, simplified] and real = area_real(2) [OF ar(1) this]
  have "host_read (mem d) (LoadBlock_begin OPT_READ_ALL (blk d i) + of_nat 0) (length ELFMAG) = Inr ELFMAG"
    using area_host_read [OF ar(1) holds_ehdr(1) [OF ar(3)]] ar(2) by (simp add: ELFMAG_def)
  moreover have "length ELFMAG = 4" by (simp add: ELFMAG_def)
  ultimately show ?thesis unfolding IsElf_def r using val real by simp
qed

text \<open>A link map that refers to node \<open>k\<close>, with whatever is cached.\<close>

definition at_node :: "nat \<Rightarrow> u64 \<Rightarrow> nat \<Rightarrow> nat \<Rightarrow> link_map \<Rightarrow> bool" where
  "at_node i v p k lm \<longleftrightarrow> (\<exists>b. lm_ref lm = cell v (2 * p + 48 * k) b \<and> (b = None \<or> b = Some i))"

lemma node_fields:
  assumes l: "fake_listing d i v p addrs names" and k: "k < length names" and lm: "at_node i v p k lm"
  shows "LinkMap_l_addr d lm = Inr (addrs ! k, lm\<lparr>lm_ref := cell v (2 * p + 48 * k) (Some i)\<rparr>)"
    "LinkMap_l_name d lm = Inr (v + of_nat (name_off p names k), lm\<lparr>lm_ref := cell v (2 * p + 48 * k) (Some i)\<rparr>)"
    "LinkMap_l_ld d lm = Inr (0, lm\<lparr>lm_ref := cell v (2 * p + 48 * k) (Some i)\<rparr>)"
proof -
  obtain b where b: "lm_ref lm = cell v (2 * p + 48 * k) b" "b = None \<or> b = Some i" using lm by (auto simp: at_node_def)
  have "bits (core_machine d) = 64" using l by (simp only: fake_listing_def)
  note o = offs64 [OF this] and w = node_words [OF l k b(2)]
  show "LinkMap_l_addr d lm = Inr (addrs ! k, lm\<lparr>lm_ref := cell v (2 * p + 48 * k) (Some i)\<rparr>)"
    "LinkMap_l_name d lm = Inr (v + of_nat (name_off p names k), lm\<lparr>lm_ref := cell v (2 * p + 48 * k) (Some i)\<rparr>)"
    "LinkMap_l_ld d lm = Inr (0, lm\<lparr>lm_ref := cell v (2 * p + 48 * k) (Some i)\<rparr>)"
    by (simp_all only: LinkMap_l_addr_def LinkMap_l_name_def LinkMap_l_ld_def b(1) o w res_bind.simps prod.case)
qed

lemma find_lib_dynamic_listing:
  assumes l: "fake_listing d i v p addrs names"
  shows "find_lib_dynamic (unat (2 :: u64)) d v (cell v 64 (Some i)) = Inr (v + of_nat p)"
proof -
  have "bits (core_machine d) = 64" using l by (simp only: fake_listing_def)
  note o = offs64 [OF this] and hd = headers_listing [OF l]
  have neq: "PT_PHDR \<noteq> PT_DYNAMIC" "PT_DYNAMIC \<noteq> PT_PHDR" "unat (2 :: u64) = Suc (Suc 0)" by (simp_all add: PT_PHDR_def PT_DYNAMIC_def)
  show ?thesis
    by (simp only: neq(3) find_lib_dynamic.simps o hd res_bind.simps prod.case neq(1,2) if_False if_True refl simp_thms)
qed

lemma new_ref_from_listing:
  assumes ar: "area d i v n" and "64 < n"
  shows "new_ref_from (v + of_nat 0 + of_nat 64) (cell v 0 (Some i)) d = cell v 64 (Some i)"
proof -
  note vs = area_valid [OF ar]
  have "64 + 1 \<le> n" using assms(2) by simp
  note ins = area_inside(1) [OF ar this, simplified]
  have "virtualContains (blk d i) (v + 64)"
    using virtualContains_found [OF valid_segD(1,2) [OF vs]] inside_found(1) [OF vs ins] by simp
  then show ?thesis by (simp add: new_ref_from_def copyRef_def checkCopyBlock_def new_memory_ref_def)
qed

text \<open>The first entry is the segment itself, an ELF image with a dynamic section; the others have no contents.\<close>

lemma FindDynamic_listing:
  assumes l: "fake_listing d i v p addrs names" and k: "k < length names" and lm: "at_node i v p k lm"
    and a: "addrs ! k = v \<or> \<not> virtualValid (addrs ! k) d"
  shows "FindDynamic d lm = Inr (if addrs ! k = v then cell v p None else new_memory_ref 0, lm\<lparr>lm_ref := cell v (2 * p + 48 * k) (Some i)\<rparr>)"
proof -
  let ?lm = "lm\<lparr>lm_ref := cell v (2 * p + 48 * k) (Some i)\<rparr>"
  have ar: "area d i v (4 * p)" "bits (core_machine d) = 64" "4096 \<le> p" "holds d v 0 (ehdr_bytes ELF64 (fake_ehdr ELF64 d))"
    using l by (simp_all only: fake_listing_def)
  note o = offs64 [OF ar(2)]
  have "at_node i v p k ?lm" by (simp add: at_node_def)
  note f = node_fields [OF l k lm] node_fields [OF l k this]
  have same: "?lm\<lparr>lm_ref := cell v (2 * p + 48 * k) (Some i)\<rparr> = ?lm" by simp
  show ?thesis
  proof (cases "addrs ! k = v")
    case True
    have "valueNOf 2 (of_nat 56) d (cell v 0 (Some i)) = Inr (2, cell v 0 (Some i))"
      by (rule area_valueNOf [OF ar(1)]) (use holds_ehdr(2) [OF ar(4)] ar(3) in simp_all)
    moreover have "new_ref_from (v + of_nat 0 + of_nat 64) (cell v 0 (Some i)) d = cell v 64 (Some i)"
      using new_ref_from_listing [OF ar(1)] ar(3) by simp
    moreover have "new_memory_ref (v + of_nat p) = cell v p None" by (simp add: new_memory_ref_def)
    ultimately show ?thesis
      using True by (simp only: FindDynamic_def f same res_bind.simps prod.case simp_thms if_False if_True IsElf_listing [OF l] o
          memory_ref.select_convs find_lib_dynamic_listing [OF l])
  next
    case False
    then have "\<not> virtualValid (addrs ! k) d" using a by simp
    then show ?thesis
      using False by (simp only: FindDynamic_def f same res_bind.simps prod.case simp_thms if_False if_True no_contents(1))
  qed
qed

lemma new_LinkMap_listing:
  assumes l: "fake_listing d i v p addrs names" and p: "p < 2 ^ 60" and k: "k < length names"
    and a: "addrs ! k = v \<or> \<not> virtualValid (addrs ! k) d"
  shows "new_LinkMap d (node_at v p k) = Inr (fake_node i v p k)"
proof -
  let ?lm = "\<lparr>lm_ref = new_memory_ref (node_at v p k), addr_cache = new_memory_ref 0, name_cache = new_memory_ref 0, dynsyms = []\<rparr>"
  have at: "at_node i v p k (?lm\<lparr>dynsyms := []\<rparr>)" "at_node i v p k (fake_node i v p k)"
    by (simp_all add: at_node_def node_at_def new_memory_ref_def fake_node_def)
  have nodes: "(?lm\<lparr>dynsyms := []\<rparr>)\<lparr>lm_ref := cell v (2 * p + 48 * k) (Some i)\<rparr> = fake_node i v p k"
    "(fake_node i v p k)\<lparr>lm_ref := cell v (2 * p + 48 * k) (Some i)\<rparr> = fake_node i v p k"
    by (simp_all add: fake_node_def)
  have "4096 \<le> p" "area d i v (4 * p)" using l by (simp_all only: fake_listing_def)
  note fa = node_fields(1) [OF l k at(1), unfolded nodes] and fd = FindDynamic_listing [OF l k at(2) a, unfolded nodes]
  have entry: "FindDynamicEntry d ty (if addrs ! k = v then cell v p b else new_memory_ref 0) =
      Inr (0, if addrs ! k = v then cell v p (Some i) else new_memory_ref 0)"
    if "ty \<noteq> DT_DEBUG" "ty \<noteq> 1" "b = None \<or> b = Some i" for ty b
    using FindDynamicEntry_listing [OF l p that(3), of ty] that(1,2) no_contents(2) [of "addrs ! k" d ty] a by auto
  have tys: "DT_STRTAB \<noteq> DT_DEBUG" "DT_STRTAB \<noteq> 1" "DT_SYMTAB \<noteq> DT_DEBUG" "DT_SYMTAB \<noteq> 1" "DT_SYMENT \<noteq> DT_DEBUG" "DT_SYMENT \<noteq> 1"
    "DT_VERSYM \<noteq> DT_DEBUG" "DT_VERSYM \<noteq> 1"
    by (simp_all add: DT_STRTAB_def DT_DEBUG_def DT_SYMTAB_def DT_SYMENT_def DT_VERSYM_def)
  have size: "(0 :: u64) \<noteq> ucast (st_THIS (sym_off d))" by (simp add: Elfx_Sym_Init_def)
  have "Elf_ReadSymbols d (?lm\<lparr>dynsyms := []\<rparr>) = (fake_node i v p k, None)"
    unfolding Elf_ReadSymbols_def fa
    by (simp add: fd entry [of DT_STRTAB None] entry [of DT_SYMTAB "Some i"] entry [of DT_SYMENT "Some i"] entry [of DT_VERSYM "Some i"] tys size
        del: if_split)
  then show ?thesis by (simp add: new_LinkMap_def ReadDynsyms_def)
qed

section \<open>The walk\<close>

lemma node_nonzero:
  assumes "fake_listing d i v p addrs names" "k < length names"
  shows "node_at v p k \<noteq> 0"
proof -
  have ar: "area d i v (4 * p)" "48 * length names \<le> p" using assms(1) by (simp_all only: fake_listing_def)
  have "2 * p + 48 * k + 1 \<le> 4 * p" using assms(2) ar(2) by linarith
  from area_inside(1) [OF ar(1) this] show ?thesis by (simp add: node_at_def inside_def)
qed

lemma next_link_listing:
  assumes l: "fake_listing d i v p addrs names" and k: "k < length names"
  shows "next_link ELF64 d (node_at v p k) = Inr (node_next v p (length names) k)"
proof -
  have ar: "area d i v (4 * p)" "48 * length names \<le> p" using l by (simp_all only: fake_listing_def)
  have h: "holds d v (2 * p + 48 * k + 24) (le_bytes 8 (unat (node_next v p (length names) k)))"
    using l k by (simp_all only: fake_listing_def)
  have n: "2 * p + 48 * k < 4 * p" "2 * p + 48 * k + 24 + length (le_bytes 8 (unat (node_next v p (length names) k))) \<le> 4 * p"
    using k ar(2) unfolding length_le_bytes by linarith+
  have "LoadBlock_begin OPT_READ_ALL (blk d i) + of_nat (2 * p + 48 * k) + 3 * of_nat (ptr_size ELF64) =
      LoadBlock_begin OPT_READ_ALL (blk d i) + of_nat (2 * p + 48 * k + 24)" by (simp add: algebra_simps)
  then show ?thesis
    using area_real(1) [OF ar(1) n(1)] area_host_read [OF ar(1) h n(2)] le_word_le_bytes_small [OF fits_8, of "node_next v p (length names) k"]
    by (simp only: next_link_def node_at_def res_bind.simps host_word_def ptr_size.simps length_le_bytes)
qed

lemma chain_listing:
  assumes l: "fake_listing d i v p addrs names" and p: "p < 2 ^ 60"
    and a: "\<forall>k<length names. addrs ! k = v \<or> \<not> virtualValid (addrs ! k) d"
    and k: "k \<le> length names"
  shows "link_chain ELF64 d (if k < length names then node_at v p k else 0) (map (fake_node i v p) [k..<length names])"
  using k
proof (induction "length names - k" arbitrary: k)
  case 0
  then show ?case by (simp add: chain_end)
next
  case (Suc m)
  then have lt: "k < length names" by simp
  have "link_chain ELF64 d (if k + 1 < length names then node_at v p (k + 1) else 0) (map (fake_node i v p) [k + 1..<length names])"
    using Suc.hyps(2) lt by (intro Suc.hyps(1)) simp_all
  then have rest: "link_chain ELF64 d (node_next v p (length names) k) (map (fake_node i v p) [k + 1..<length names])"
    by (simp only: node_next_def)
  have "link_chain ELF64 d (node_at v p k) (fake_node i v p k # map (fake_node i v p) [k + 1..<length names])"
    using node_nonzero [OF l lt] new_LinkMap_listing [OF l p lt] next_link_listing [OF l lt] rest a lt by (intro chain_node) simp_all
  then show ?case using lt by (simp add: upt_conv_Cons)
qed

text \<open>Setting the debug pointer changes nothing that the readers look at.\<close>

lemma listing_debug:
  "fake_listing (d\<lparr>mDebug := r\<rparr>) i v p addrs names = fake_listing d i v p addrs names"
  "virtualValid a (d\<lparr>mDebug := r\<rparr>) = virtualValid a d"
proof -
  have ok: "core_ok (d\<lparr>mDebug := r\<rparr>) = core_ok d" "core_byte (d\<lparr>mDebug := r\<rparr>) = core_byte d"
    by (simp_all add: core_ok_def loads_ok_def getLoads_def mask_ok_def core_byte_def findLoadBlock_def fun_eq_iff)
  have "area (d\<lparr>mDebug := r\<rparr>) i v n = area d i v n" "holds (d\<lparr>mDebug := r\<rparr>) v = holds d v" for n
    by (simp_all add: area_def valid_seg_def ok holds_def fun_eq_iff)
  moreover have "fake_ehdr ELF64 (d\<lparr>mDebug := r\<rparr>) = fake_ehdr ELF64 d" by (simp add: fake_ehdr_def)
  ultimately show "fake_listing (d\<lparr>mDebug := r\<rparr>) i v p addrs names = fake_listing d i v p addrs names"
    by (simp add: fake_listing_def)
  show "virtualValid a (d\<lparr>mDebug := r\<rparr>) = virtualValid a d"
    by (cases "findLoadBlock a True d") (simp_all add: virtualValid_def findLoadBlock_def getLoads_def)
qed

lemma listing_links:
  "fake_listing (d\<lparr>mLinkMaps := r\<rparr>) i v p addrs names = fake_listing d i v p addrs names"
proof -
  have ok: "core_ok (d\<lparr>mLinkMaps := r\<rparr>) = core_ok d" "core_byte (d\<lparr>mLinkMaps := r\<rparr>) = core_byte d"
    by (simp_all add: core_ok_def loads_ok_def getLoads_def mask_ok_def core_byte_def findLoadBlock_def fun_eq_iff)
  have "area (d\<lparr>mLinkMaps := r\<rparr>) i v n = area d i v n" "holds (d\<lparr>mLinkMaps := r\<rparr>) v = holds d v" for n
    by (simp_all add: area_def valid_seg_def ok holds_def fun_eq_iff)
  moreover have "fake_ehdr ELF64 (d\<lparr>mLinkMaps := r\<rparr>) = fake_ehdr ELF64 d" by (simp add: fake_ehdr_def)
  ultimately show ?thesis by (simp add: fake_listing_def)
qed

lemma loadLinkMap_listing:
  assumes l: "fake_listing d i v p addrs names" and p: "p < 2 ^ 60" and ne: "names \<noteq> []"
    and a: "\<forall>k<length names. addrs ! k = v \<or> \<not> virtualValid (addrs ! k) d"
    and st: "ref_vaddr (mDebug d) = 0" "mLinkMaps d = []" "findAuxv AT_PHDR d = v + 64" "findAuxv AT_PHNUM d = 2"
  shows "loadLinkMap64 d = Some (Inr (d\<lparr>mDebug := new_memory_ref (v + of_nat (p + 16)),
    mLinkMaps := map (fake_node i v p) [0..<length names]\<rparr>))"
proof -
  let ?r = "new_memory_ref (v + of_nat (p + 16))"
  let ?d = "d\<lparr>mDebug := ?r\<rparr>"
  have l': "fake_listing ?d i v p addrs names" using l by (simp only: listing_debug)
  have a': "\<forall>k<length names. addrs ! k = v \<or> \<not> virtualValid (addrs ! k) ?d" using a by (simp only: listing_debug)
  have ar: "area ?d i v (4 * p)" "4096 \<le> p" "holds ?d v (p + 16) (pair_bytes ELF64 1 (node_at v p 0))"
    using l' by (simp_all only: fake_listing_def)
  have n: "p + 16 < 4 * p" "p + 16 + 8 + length (le_bytes 8 (unat (node_at v p 0))) \<le> 4 * p"
    using ar(2) unfolding length_le_bytes by linarith+
  let ?B = "LoadBlock_begin OPT_READ_ALL (blk ?d i)"
  have nz: "v + of_nat (p + 16) \<noteq> 0"
    using area_inside(1) [OF ar(1), of "p + 16" 1] n(1) by (simp add: inside_def)
  have "\<exists>b. Real ?d ?r = Inr (?B + of_nat (p + 16), b)"
  proof -
    have "ref_ok ?d ?r" by simp
    then show ?thesis
      using Real_eq_GetReal [OF valid_segD(1) [OF area_valid [OF ar(1)]], of ?r] area_real(1) [OF ar(1) n(1)] nz
      by (simp add: new_memory_ref_def)
  qed
  then obtain b where real: "Real ?d ?r = Inr (?B + of_nat (p + 16), b)" by blast
  have addr: "?B + of_nat (p + 16) + of_nat (ptr_size ELF64) = ?B + of_nat (p + 16 + 8)" by (simp add: algebra_simps)
  have m: "host_word (mem ?d) (?B + of_nat (p + 16) + of_nat (ptr_size ELF64)) (ptr_size ELF64) = Inr (node_at v p 0)"
    unfolding addr using area_host_read [OF ar(1) holds_pair(2) [OF ar(3)] n(2)] le_word_le_bytes_small [OF fits_8, of "node_at v p 0"]
    by (simp only: host_word_def ptr_size.simps length_le_bytes res_bind.simps)
  have "0 < length names" using ne by simp
  then have "link_chain ELF64 ?d (node_at v p 0) (map (fake_node i v p) [0..<length names])"
    using chain_listing [OF l' p a', of 0] by simp
  moreover have "?d\<lparr>mLinkMaps := []\<rparr> = ?d" using st(2) by (cases d) simp
  ultimately have "link_loop ELF64 (node_at v p 0) ?d =
      Some (Inr (?d\<lparr>mLinkMaps := map (fake_node i v p) [0..<length names]\<rparr>))"
    using link_loop_chain [of ELF64 ?d "node_at v p 0" "map (fake_node i v p) [0..<length names]" "[]"] by (simp only: append_Nil)
  then show ?thesis
    using nz by (simp only: loadLinkMap64_def loadLinkMap_def GetDebug_listing [OF l p st(1,3,4)] sum.case prod.case real [unfolded new_memory_ref_def]
        m [unfolded new_memory_ref_def] new_memory_ref_def memory_ref.select_convs if_False)
qed

end
