(* ===== verification/FakeNames.thy ===== *)
theory FakeNames
  imports FakeWalk
begin

unbundle bit_operations_syntax

text \<open>
  The names of the fake libraries read back, the segment that is allocated for them, and the property of
  the whole: what the builder of parser/command/fake writes for a crash description is what the core
  library lists.
\<close>

section \<open>Names\<close>

lemma rooms_take:
  assumes "k < length names"
  shows "rooms (take k names) + length (names ! k) + 1 \<le> rooms names"
proof -
  have "names = take k names @ names ! k # drop (Suc k) names" using assms by (rule id_take_nth_drop)
  then have "rooms names = rooms (take k names) + nroom (names ! k) + rooms (drop (Suc k) names)"
    by (metis (no_types, lifting) add.assoc list.simps(9) map_append rooms_def sum_list.Cons sum_list_append)
  then show ?thesis using nroom_fits [of "names ! k"] by simp
qed

lemma listing_c_string:
  assumes ar: "area d i v n" and h: "holds d v k (str_bytes s @ [0])" and fit: "k + length s + 1 \<le> n" and s: "no_nul s"
  shows "c_string (mem d) (LoadBlock_begin OPT_READ_ALL (blk d i) + of_nat k) = Inr s"
proof (rule c_string_stored [OF _ s])
  let ?B = "LoadBlock_begin OPT_READ_ALL (blk d i)"
  have fit': "k + length (str_bytes s @ [0 :: u8]) \<le> n" using fit by (simp add: str_bytes_def)
  show "stored_at (mem d) (?B + of_nat k) (str_bytes s @ [0])"
    unfolding stored_at_read by (rule area_host_read [OF ar h fit'])
  obtain m where "mOverlay (blk d i) = Some m" using ar by (auto simp: area_def)
  then have "unat ?B + unat (mMemSize (blk d i)) \<le> 2 ^ 64"
    using valid_segD(4) [OF area_valid [OF ar]] by (auto simp: block_ok_def map_ok_def LoadBlock_begin_all)
  then have b: "unat ?B + n \<le> 2 ^ 64" using ar by (simp add: area_def)
  moreover have "k < 2 ^ 64" using b fit by simp
  ultimately have "unat (?B + of_nat k) = unat ?B + k"
    using fit unat_of_nat_u64 [of k] by (subst unat_add_no_wrap) simp_all
  then show "unat (?B + of_nat k) + length s < 2 ^ 64" using b fit by linarith
qed

lemma node_name:
  assumes l: "fake_listing d i v p addrs names" and k: "k < length names" and lm: "at_node i v p k lm" "name_cache lm = new_memory_ref 0"
    and s: "no_nul (names ! k)" "names ! k \<noteq> []"
  shows "\<exists>lm'. LinkMap_name d lm = Inr (names ! k, lm') \<and> at_node i v p k lm'"
proof -
  let ?o = "name_off p names k" and ?B = "LoadBlock_begin OPT_READ_ALL (blk d i)"
  have ar: "area d i v (4 * p)" "rooms names \<le> p" and h: "holds d v ?o (str_bytes (names ! k) @ [0])"
    using l k by (simp_all only: fake_listing_def)
  have fit: "?o + length (names ! k) + 1 \<le> 4 * p" using rooms_take [OF k] ar(2) by (simp add: name_off_def)
  then have lt: "?o < 4 * p" "?o + 1 \<le> 4 * p" by simp_all
  note ins = area_inside(1) [OF ar(1) lt(2), simplified]
  note f = inside_found [OF area_valid [OF ar(1)] ins]
  have prep: "Prepare False d (new_memory_ref (v + of_nat ?o)) = Inr (cell v ?o (Some i))"
    using f(1) ins by (simp add: Prepare_def FindLoadBlock_def new_memory_ref_def inside_def)
  obtain x xs where x: "names ! k = x # xs" using s(2) by (cases "names ! k") auto
  let ?b = "of_nat (of_char x) :: u64"
  have nz: "x \<noteq> char_of (0 :: nat)" using s(1) x by (simp add: no_nul_def)
  have small: "of_char x < (256 :: nat)" by simp
  have ub: "unat ?b = of_char x"
  proof (rule unat_of_nat_u64)
    have "(256 :: nat) \<le> 2 ^ 64" by simp
    then show "of_char x < (2 ^ 64 :: nat)" by (rule less_le_trans [OF small])
  qed
  have "(of_char x :: nat) \<noteq> 0" using nz by (metis char_of_char)
  then have bnz: "?b \<noteq> 0" using ub by (metis unat_0)
  have "str_bytes (names ! k) @ [0] = le_bytes 1 (unat ?b) @ str_bytes xs @ [0]" using ub by (simp add: x str_bytes_def)
  then have "holds d v (?o + 0) (le_bytes 1 (unat ?b))" using h by (simp only: holds_append add_0_right)
  from area_valueNOf [OF ar(1) this] have "valueNOf 1 (of_nat 0) d (cell v ?o (Some i)) = Inr (?b, cell v ?o (Some i))"
    using ub small lt by simp
  moreover have "(0 :: u64) = of_nat 0" by simp
  ultimately have val: "valueNOf 1 0 d (cell v ?o (Some i)) = Inr (?b, cell v ?o (Some i))" by simp
  show ?thesis
    by (simp add: LinkMap_name_def GetNameCache_def lm(2) node_fields(2) [OF l k lm(1)] prep [unfolded new_memory_ref_def]
        area_ref_valid [OF ar(1) lt(1), of "Some i"] val [unfolded One_nat_def] bnz area_real(2) [OF ar(1) lt(1)] listing_c_string [OF ar(1) h fit s(1)]
        new_memory_ref_def at_node_def del: of_nat_add)
qed

text \<open>The name and the load address of every link map, as the readers of the core library give them.\<close>

definition listed :: "core \<Rightarrow> (string \<times> u64) res list" where
  "listed c = map (\<lambda>lm. res_bind (LinkMap_name c lm) (\<lambda>(nm, lm1). res_bind (LinkMap_l_addr c lm1) (\<lambda>(a, _). Inr (nm, a)))) (mLinkMaps c)"

lemma listed_nodes:
  assumes l: "fake_listing d i v p addrs names" and s: "\<forall>nm\<in>set names. no_nul nm \<and> nm \<noteq> []"
    and lms: "mLinkMaps d = map (fake_node i v p) [0..<length names]"
  shows "listed d = map Inr (zip names addrs)"
proof (rule nth_equalityI)
  have len: "length addrs = length names" using l by (simp only: fake_listing_def)
  show "length (listed d) = length (map Inr (zip names addrs))" by (simp add: listed_def lms len)
  fix k assume "k < length (listed d)"
  then have k: "k < length names" by (simp add: listed_def lms)
  have at: "at_node i v p k (fake_node i v p k)" "name_cache (fake_node i v p k) = new_memory_ref 0"
    by (simp_all add: at_node_def fake_node_def)
  obtain lm' where "LinkMap_name d (fake_node i v p k) = Inr (names ! k, lm')" "at_node i v p k lm'"
    using node_name [OF l k at] s k by auto
  then show "listed d ! k = map Inr (zip names addrs) ! k"
    using node_fields(1) [OF l k, of lm'] k len by (simp add: listed_def lms)
qed

section \<open>The new segment\<close>

lemma new_segment:
  assumes os: "os_ok os" and ok: "core_ok c" and pm: "pointer_mask c = - 1" and small: "unat sz < 2 ^ 62" and fl: "flags \<noteq> 0"
    and new: "newLoadBlock os 0 sz flags c = Inr (v, c0)" "v \<noteq> 0"
  obtains b k q h where "c0 = with_block b k q h c" "area c0 (length (blocks c)) v (unat sz)" "mVaddr b = v" "no_wrap b"
    "holds c0 v 0 (replicate (unat sz) 0)" "\<forall>i\<in>set (mLoad c). below (blk c i) b \<or> below b (blk c i)"
    "\<forall>x. mem c x \<noteq> None \<longrightarrow> mem c0 x = mem c x"
proof -
  obtain b k q h where b: "c0 = with_block b k q h c" "mVaddr b = v" "mMemSize b = RoundUp sz ELF_PAGE_SIZE" "mFlags b = flags"
      "mMemSize b \<noteq> 0" "isValid b" "mOverlay b \<noteq> None" "mPointMask b = pointer_mask c" "no_wrap b" "core_ok c0"
      "\<forall>i\<in>set (mLoad c). below (blk c i) b \<or> below b (blk c i)" "\<forall>i<unat (mMemSize b). block_byte h b i = 0"
      "\<forall>x. mem c x \<noteq> None \<longrightarrow> h x = mem c x"
    using newLoadBlock_auto [OF os ok small, of flags] new by auto
  let ?i = "length (blocks c)"
  have at: "blk c0 ?i = b" "?i \<in> set (mQuickLoad c0)" "mem c0 = h"
    using fl b(4) by (auto simp: b(1) with_block_def set_insert_at)
  have pg: "ELF_PAGE_SIZE = 2 ^ 12" by (simp add: ELF_PAGE_SIZE_def)
  have le: "unat sz \<le> unat (mMemSize b)" using RoundUp_bounds(1) [of sz 12] small unfolding b(3) pg by simp
  have ar: "area c0 ?i v (unat (mMemSize b))" using b at new(2) pm by (simp add: area_def valid_seg_def)
  show ?thesis
  proof (rule that [OF b(1) _ b(2,9)])
    show "area c0 ?i v (unat sz)" using ar le by (simp add: area_def)
    show "holds c0 v 0 (replicate (unat sz) 0)"
      unfolding holds_def
    proof (intro allI impI)
      fix j assume "j < length (replicate (unat sz) (0 :: u8))"
      then have j: "j < unat (mMemSize b)" "j < unat sz" using le by simp_all
      have "j + 1 \<le> unat (mMemSize b)" using j by simp
      note q = area_inside [OF ar this, simplified] and vs = area_valid [OF ar]
      have "unat (v + of_nat j - v) = j" using j small unat_of_nat_u64 [of j] by simp
      then show "core_byte c0 (v + of_nat (0 + j)) = Some (replicate (unat sz) 0 ! j)"
        using core_byte_eq [OF inside_found(1) [OF vs q(1)]] inside_found(2) [OF vs q(1)] b(2,12) at j by simp
    qed
  qed (use b(11,13) at(3) in auto)
qed


text \<open>An address in an old segment without contents, or 0, has none afterwards either.\<close>

definition unmapped_at :: "core \<Rightarrow> u64 \<Rightarrow> bool" where
  "unmapped_at c a \<longleftrightarrow> \<not> virtualValid a c \<and>
     (a AND vabits_mask c = 0 \<or> (\<exists>i\<in>set (mLoad c). block_has (blk c i) (a AND vabits_mask c)))"

lemma unmapped_with_block:
  assumes ok: "core_ok c" "core_ok (with_block b k q h c)" and b: "mVaddr b \<noteq> 0" "no_wrap b"
    and apart: "\<forall>i\<in>set (mLoad c). below (blk c i) b \<or> below b (blk c i)" and a: "unmapped_at c a"
  shows "\<not> virtualValid a (with_block b k q h c)"
proof
  let ?c = "with_block b k q h c" and ?a = "a AND vabits_mask c" and ?n = "length (blocks c)"
  assume "virtualValid a ?c"
  then obtain i where i: "findLoadBlock a True ?c = Some i" "isValid (blk ?c i)"
    by (auto simp: virtualValid_def split: option.splits)
  have lo: "loads_ok True ?c" "loads_ok True c" using ok by (simp_all add: core_ok_def)
  have m: "vabits_mask ?c = vabits_mask c" by (simp add: with_block_def)
  have f: "i \<in> set (mQuickLoad ?c)" "block_has (blk ?c i) ?a"
    using i(1) findLoadBlock_iff [OF lo(1), of a i] m by (simp_all add: getLoads_def)
  show False
  proof (cases "i = ?n")
    case True
    then have hb: "block_has b ?a" using f(2) by (simp add: with_block_def)
    then have "?a \<noteq> 0" using b(1) unfolding block_has_unat [OF b(2)] by (auto simp: unat_eq_zero)
    then obtain j where j: "j \<in> set (mLoad c)" "block_has (blk c j) ?a" using a by (auto simp: unmapped_at_def)
    then show False
      using hb apart b(2) block_ok_no_wrap [OF core_ok_blocks(1) [OF ok(1) j(1)]] by (force simp: block_has_unat below_def)
  next
    case False
    then have q: "i \<in> set (mQuickLoad c)" using f(1) by (auto simp: with_block_def set_insert_at split: if_splits)
    then have "i < ?n" using ok(1) core_ok_blocks(3) [OF ok(1)] by (auto simp: core_ok_def)
    then have same: "blk ?c i = blk c i" by (simp add: with_block_def nth_append)
    then have "findLoadBlock a True c = Some i" using q f(2) findLoadBlock_iff [OF lo(2), of a i] by (simp add: getLoads_def)
    then show False using a i(2) same by (simp add: unmapped_at_def virtualValid_def)
  qed
qed


lemma unat_of_nat_u32: "n < 2 ^ 32 \<Longrightarrow> unat (of_nat n :: u32) = n"
  by (simp add: unat_of_nat take_bit_nat_eq_self)

lemma four_pages:
  assumes "unat (w :: u32) = p" "p < 2 ^ 30"
  shows "ucast (w * (1 + 1 + 1 + 1)) = (of_nat (4 * p) :: u64)" "ucast w = (of_nat p :: u64)"
proof -
  have w: "w = of_nat p" using assms(1) by auto
  have "unat (of_nat (4 * p) :: u32) = 4 * p" using assms(2) by (intro unat_of_nat_u32) simp
  moreover have "w * (1 + 1 + 1 + 1) = of_nat (4 * p)" by (simp add: w)
  ultimately have "unat (w * (1 + 1 + 1 + 1)) = 4 * p" by simp
  then show "ucast (w * (1 + 1 + 1 + 1)) = (of_nat (4 * p) :: u64)" by (metis of_nat_unat)
  show "ucast w = (of_nat p :: u64)" using assms(1) by (metis of_nat_unat)
qed

lemma holds_zeros: "holds c v 0 (replicate n 0) \<Longrightarrow> k + m \<le> n \<Longrightarrow> holds c v k (replicate m 0)"
  unfolding holds_def by simp (metis add.assoc add_less_mono1 nat_add_left_cancel_less of_nat_add order_less_le_trans)

text \<open>What \<open>execute\<close> does for the libraries of the description, when there is room for the segment.\<close>

lemma fake_libs_filled:
  assumes os: "os_ok os" and ok: "core_ok c" and pm: "pointer_mask c = - 1"
    and page: "unat (fc_page_size f) = p" "p < 2 ^ 30"
    and new: "newLoadBlock os 0 (ucast (fc_page_size f * 4)) FLAG_RW c = Inr (v, c0)" "v \<noteq> 0"
    and r: "ready os c0 nb j p"
    and libs: "st_Libs st \<noteq> []" "48 * (length (st_Libs st) + 1) \<le> p" "rooms (FAKECORE_VMA # map lib_name (st_Libs st)) \<le> p"
      "\<forall>lib\<in>set (st_Libs st). length lib < 2 ^ 62"
  obtains m h d where "fake_libs ELF64 os st f c = Inr (True, d)"
    "d = c0\<lparr>mNote := [with_phdr nb j (v + 64) m], page_size := of_nat p, mem := h\<rparr>"
    "fake_listing d (length (blocks c)) v p (v # map (FindModuleLoad (st_Maps st)) (st_Libs st)) (FAKECORE_VMA # map lib_name (st_Libs st))"
    "mNote c = [nb]" "mDebug d = mDebug c" "mLinkMaps d = mLinkMaps c" "\<And>a. unmapped_at c a \<Longrightarrow> \<not> virtualValid a d"
proof -
  have p4: "4096 \<le> p" and nb: "mNote c0 = [nb]" using r by (simp_all add: ready_def)
  note sz = four_pages [OF page]
  have us: "unat (of_nat (4 * p) :: u64) = 4 * p" using page(2) by (intro unat_of_nat_u64) simp
  have "1 + 1 + 1 + 1 = (4 :: u32)" by simp
  then have new': "newLoadBlock os 0 (of_nat (4 * p)) FLAG_RW c = Inr (v, c0)" using new(1) sz(1) by simp
  have fl: "FLAG_RW \<noteq> 0" by (simp add: FLAG_RW_def FLAG_R_def FLAG_W_def)
  have sm: "unat (of_nat (4 * p) :: u64) < 2 ^ 62" using us page(2) by simp
  obtain b k q h where s: "c0 = with_block b k q h c" "area c0 (length (blocks c)) v (unat (of_nat (4 * p) :: u64))"
      "mVaddr b = v" "no_wrap b"
      "holds c0 v 0 (replicate (unat (of_nat (4 * p) :: u64)) 0)" "\<forall>i\<in>set (mLoad c). below (blk c i) b \<or> below b (blk c i)"
      "\<forall>x. mem c x \<noteq> None \<longrightarrow> mem c0 x = mem c x"
    by (rule new_segment [OF os ok pm sm fl new' new(2)])
  have ar: "area c0 (length (blocks c)) v (4 * p)" "holds c0 v (p + 32) (replicate 8 0)"
    using s(2) holds_zeros [OF s(5), of "p + 32" 8] p4 unfolding us by simp_all
  obtain m h' d where d: "fill_fake_vma ELF64 os (\<lambda>v l libs. CreateFakeLinkMap ELF64 os v l libs (st_Maps st)) (of_nat p) (of_nat p) v (st_Libs st) c0 = Inr d"
      "d = c0\<lparr>mNote := [with_phdr nb j (v + 64) m], page_size := of_nat p, mem := h'\<rparr>"
      "fake_listing d (length (blocks c)) v p (v # map (FindModuleLoad (st_Maps st)) (st_Libs st)) (FAKECORE_VMA # map lib_name (st_Libs st))"
    by (rule fill_listing [OF os r ar libs(1,2,4) refl libs(3), where maps = "st_Maps st"])
  have val: "virtualValid a d = virtualValid a c0" for a
    by (cases "findLoadBlock a True c0") (simp_all add: d(2) virtualValid_def findLoadBlock_def getLoads_def)
  have ok0: "core_ok c0" using area_valid [OF ar(1)] by (simp add: valid_seg_def)
  show ?thesis
  proof (rule that [OF _ d(2,3)])
    show "fake_libs ELF64 os st f c = Inr (True, d)"
      using new' new(2) d(1) libs(1) by (simp add: fake_libs_def sz [simplified] Let_def)
    show "\<not> virtualValid a d" if "unmapped_at c a" for a
      using unmapped_with_block [OF ok, of b k q h a] ok0 s new(2) that unfolding val by simp
  qed (use nb in \<open>simp_all add: d(2) s(1) with_block_def\<close>)
qed

section \<open>A description with two libraries\<close>

definition demo_lib_os :: os_env where
  "demo_lib_os = \<lparr>os_file = (\<lambda>_. None),
     os_mmap = (\<lambda>h n. let a = (if n = 0x40 then 0x9000000 else 0x7000000) in
                 if unat n \<le> 2 ^ 20 \<and> (\<forall>x. unat (x - a) < unat n \<longrightarrow> h x = None) then Some a else None),
     os_page_size = 4096\<rparr>"

definition demo_lib_note :: note_block where
  "demo_lib_note = (new_NoteBlock 4 0 0 0 0x40 0 4)
     \<lparr>mOriAddr := 0x9000, mAuxvs := [\<lparr>mType = AT_PAGESZ, mValue = 0x1000, mAuxv = 0x9000\<rparr>,
        \<lparr>mType = AT_PHDR, mValue = 0, mAuxv = 0x9010\<rparr>, \<lparr>mType = AT_PHNUM, mValue = 2, mAuxv = 0x9020\<rparr>]\<rparr>"

definition demo_lib_mem :: host where
  "demo_lib_mem = (\<lambda>x. if unat (x - 0x9000) < 0x40 then Some 0 else None)"

definition demo_lib_core :: core where
  "demo_lib_core = (new_core EM_AARCH64 \<lparr>mm_name = [], mm_begin = 1, mm_size = 0, mm_offset = 0, mm_max = 0\<rparr> True 0 demo_lib_mem)
     \<lparr>blocks := [demo_block 0x200000 0x1000, demo_block 0x201000 0x2000], mLoad := [0, 1], mQuickLoad := [0, 1],
       mNote := [demo_lib_note]\<rparr>"

definition demo_lib_vma :: "u64 \<Rightarrow> u32 \<Rightarrow> vma" where
  "demo_lib_vma a off = \<lparr>vma_begin = a, vma_end = a + 0x1000, vma_flags = (CHR ''r'', CHR ''-'', CHR ''-'', CHR ''p''), vma_offset = off,
     vma_major = 0, vma_minor = 0, vma_inode = 0, vma_load_bias = 0, vma_file = ''libc.so'', vma_buildid = []\<rparr>"

definition demo_lib_stream :: crash_stream where
  "demo_lib_stream = \<lparr>st_Parse = True, st_Tid = 1, st_Executable = [], st_Libs = [''libc.so'', ''libm.so''], st_Memorys = [],
     st_Maps = [demo_lib_vma 0x200000 0, demo_lib_vma 0x201000 0x1000], st_Regs = [], st_TaggedAddr = 0, st_PacEnabledKeys = 0\<rparr>"

lemmas demo_lib_defs = demo_lib_os_def demo_lib_note_def demo_lib_core_def demo_block_def new_core_def new_LoadBlock_def new_NoteBlock_def

lemma demo_lib_os_ok: "os_ok demo_lib_os"
  unfolding os_ok_def demo_lib_os_def by (auto simp: Let_def split: if_splits)

lemma demo_lib_core_ok: "core_ok demo_lib_core"
proof -
  have s: "sorted_loads [demo_block 0x200000 0x1000, demo_block 0x201000 0x2000]"
    by (simp add: sorted_loads_def below_def no_wrap_def demo_lib_defs)
  have "mask_ok demo_lib_core"
    unfolding mask_ok_def by (rule exI [of _ 64]) (simp add: demo_lib_defs mask_eq_exp_minus_1)
  then show ?thesis
    using s by (auto simp: core_ok_def loads_ok_def getLoads_def block_ok_def isValidBlock_def separate_def demo_lib_defs)
qed

lemma window: "unat (x - a) < n \<Longrightarrow> unat a + n \<le> 2 ^ 64 \<Longrightarrow> unat a \<le> unat x \<and> unat x < unat a + n"
  for x a :: u64
proof -
  assume l: "unat (x - a) < n" "unat a + n \<le> 2 ^ 64"
  have "unat (x - a + a) = unat (x - a) + unat a" using l by (subst unat_add_no_wrap) simp_all
  then show "unat a \<le> unat x \<and> unat x < unat a + n" using l by simp
qed

lemma demo_lib_free:
  "unat (x - 0x7000000 :: u64) < 0x4000 \<Longrightarrow> demo_lib_mem x = None"
  "unat (x - 0x9000000 :: u64) < 0x40 \<Longrightarrow> host_zero demo_lib_mem 0x7000000 0x4000 x = None"
  using window [of x "0x7000000" "0x4000"] window [of x "0x9000000" "0x40"] window [of x "0x9000" "0x40"]
  by (auto simp: demo_lib_mem_def host_zero_def)

lemma demo_lib_place: "place_block 0 0x4000 demo_lib_core = Some (0x100000, 0, 0)"
  by (simp add: place_block_def findLoadBlock_def search_loads_def getLoads_def demo_lib_defs FAKE_LOAD_BEGIN_def)

lemma demo_lib_new:
  obtains c0 where "newLoadBlock demo_lib_os 0 0x4000 FLAG_RW demo_lib_core = Inr (0x100000, c0)"
    "mem c0 = host_zero demo_lib_mem 0x7000000 0x4000" "mNote c0 = [demo_lib_note]" "core_machine c0 = EM_AARCH64" "page_size c0 = 0"
proof -
  have r: "RoundUp 0x4000 ELF_PAGE_SIZE = 0x4000" "RoundUp 0 ELF_PAGE_SIZE = 0"
    by (simp_all add: RoundUp_def RoundDown_def ELF_PAGE_SIZE_def)
  have m: "mem demo_lib_core = demo_lib_mem" by (simp add: demo_lib_core_def new_core_def)
  have "os_mmap demo_lib_os demo_lib_mem 0x4000 = Some 0x7000000" using demo_lib_free(1) by (simp add: demo_lib_os_def)
  then have "\<exists>b. newOverlay demo_lib_os demo_lib_mem (fake_block 0x100000 0x4000 FLAG_RW demo_lib_core) =
      Inr (True, b, host_zero demo_lib_mem 0x7000000 0x4000)"
    using fake_not_valid [of "0x100000" "0x4000" FLAG_RW demo_lib_core]
    by (simp add: newOverlay_def MmapZeroMem_def fake_block_def new_LoadBlock_def)
  then obtain b where "newOverlay demo_lib_os demo_lib_mem (fake_block 0x100000 0x4000 FLAG_RW demo_lib_core) =
      Inr (True, b, host_zero demo_lib_mem 0x7000000 0x4000)" by blast
  then show ?thesis
    using that by (simp add: newLoadBlock_def r demo_lib_place m Let_def new_block_def) (simp add: demo_lib_core_def new_core_def)
qed


section \<open>The property\<close>

text \<open>C7: when the builder of a core makes fake libraries for a crash description, the core it leaves is well formed and the
  ordinary readers find the libraries in it: loadLinkMap64 reaches the debug structure through the auxiliary vector, the program
  headers and the dynamic section that were written, and walks one link map for the segment itself and one for each library of the
  description, in order, each with the name and the load address (FindModuleLoad) of the library. This needs room for the
  segment, at most a page of link maps and of names, and libraries whose memory is not in the core.\<close>

theorem fake_libs_listed:
  assumes os: "os_ok os" and ok: "core_ok c" and c: "pointer_mask c = - 1" "findAuxv AT_PHNUM c = 2"
      "ref_vaddr (mDebug c) = 0" "mLinkMaps c = []"
    and page: "unat (fc_page_size f) = p" "p < 2 ^ 30"
    and new: "newLoadBlock os 0 (ucast (fc_page_size f * 4)) FLAG_RW c = Inr (v, c0)" "v \<noteq> 0"
    and r: "ready os c0 nb j p"
    and libs: "st_Libs st \<noteq> []" "48 * (length (st_Libs st) + 1) \<le> p" "rooms (FAKECORE_VMA # map lib_name (st_Libs st)) \<le> p"
      "\<forall>lib\<in>set (st_Libs st). length lib < 2 ^ 62 \<and> lib_name lib \<noteq> [] \<and> no_nul lib \<and> unmapped_at c (FindModuleLoad (st_Maps st) lib)"
  shows "\<exists>c1 c2. fake_libs ELF64 os st f c = Inr (True, c1) \<and> core_ok c1 \<and> loadLinkMap64 c1 = Some (Inr c2) \<and>
    listed c2 = Inr (FAKECORE_VMA, v) # map (\<lambda>lib. Inr (lib_name lib, FindModuleLoad (st_Maps st) lib)) (st_Libs st)"
proof -
  let ?libs = "st_Libs st" and ?f = "FindModuleLoad (st_Maps st)" and ?i = "length (blocks c)"
  let ?names = "FAKECORE_VMA # map lib_name ?libs" and ?addrs = "v # map ?f ?libs"
  have small: "\<forall>lib\<in>set ?libs. length lib < 2 ^ 62" using libs(4) by blast
  obtain m h d where d: "fake_libs ELF64 os st f c = Inr (True, d)"
      "d = c0\<lparr>mNote := [with_phdr nb j (v + 64) m], page_size := of_nat p, mem := h\<rparr>" "fake_listing d ?i v p ?addrs ?names"
      "mNote c = [nb]" "mDebug d = mDebug c" "mLinkMaps d = mLinkMaps c" "\<And>a. unmapped_at c a \<Longrightarrow> \<not> virtualValid a d"
    by (rule fake_libs_filled [OF os ok c(1) page new r libs(1-3) small]) (rule that, assumption+)
  have "phdr_entry nb j" using r by (simp add: ready_def)
  then have aux: "findAuxv AT_PHDR d = v + 64" "findAuxv AT_PHNUM d = 2"
    using findAuxv_with_phdr [of nb j AT_PHDR "v + 64" m c] findAuxv_with_phdr [of nb j AT_PHNUM "v + 64" m c] c(2) d(4)
    by (simp_all add: d(2) findAuxv_def AT_PHNUM_def AT_PHDR_def)
  have "?addrs ! k = v \<or> \<not> virtualValid (?addrs ! k) d" if "k < length ?names" for k
    using that d(7) libs(4) by (cases k) simp_all
  then have un: "\<forall>k<length ?names. ?addrs ! k = v \<or> \<not> virtualValid (?addrs ! k) d" by blast
  have p60: "p < 2 ^ 60" using page(2) by simp
  let ?d = "d\<lparr>mDebug := new_memory_ref (v + of_nat (p + 16)), mLinkMaps := map (fake_node ?i v p) [0..<length ?names]\<rparr>"
  have "loadLinkMap64 d = Some (Inr ?d)"
    by (rule loadLinkMap_listing [OF d(3) p60 _ un]) (use c(3,4) d(5,6) aux in simp_all)
  moreover have "listed ?d = map Inr (zip ?names ?addrs)"
  proof (rule listed_nodes)
    show "fake_listing ?d ?i v p ?addrs ?names" using d(3) by (simp only: listing_links listing_debug)
    show "\<forall>nm\<in>set ?names. no_nul nm \<and> nm \<noteq> []"
      using libs(4) by (auto simp: FAKECORE_VMA_def no_nul_def lib_name_def char_of_def dest: set_takeWhileD)
  qed simp
  moreover have "map Inr (zip ?names ?addrs) = Inr (FAKECORE_VMA, v) # map (\<lambda>lib. Inr (lib_name lib, ?f lib)) ?libs"
    by (simp add: zip_map_map zip_same_conv_map)
  moreover have "area d ?i v (4 * p)" using d(3) by (simp only: fake_listing_def)
  then have "core_ok d" by (simp add: area_def valid_seg_def)
  ultimately show ?thesis using d(1) by auto
qed

theorem fake_libs_listed_witness:
  "\<exists>c1 c2. fake_libs ELF64 demo_lib_os demo_lib_stream new_FakeCore demo_lib_core = Inr (True, c1) \<and> core_ok c1 \<and>
    loadLinkMap64 c1 = Some (Inr c2) \<and>
    listed c2 = [Inr (''[FAKECORE]'', 0x100000), Inr (''libc.so'', 0x200000), Inr (''libm.so'', 0)]"
proof -
  obtain c0 where c0: "newLoadBlock demo_lib_os 0 0x4000 FLAG_RW demo_lib_core = Inr (0x100000, c0)"
      "mem c0 = host_zero demo_lib_mem 0x7000000 0x4000" "mNote c0 = [demo_lib_note]" "core_machine c0 = EM_AARCH64" "page_size c0 = 0"
    by (rule demo_lib_new)
  have page: "fc_page_size new_FakeCore = 0x1000" by (simp add: new_FakeCore_def ELF_PAGE_SIZE_def)
  have note_mapped: "note_ok (mem c0) demo_lib_note"
    by (simp add: c0(2) note_ok_def demo_lib_note_def new_NoteBlock_def mapped_def host_zero_def demo_lib_mem_def unat_of_nat take_bit_nat_eq_self)
  have "phdr_entry demo_lib_note 1"
    by (auto simp: phdr_entry_def demo_lib_note_def new_NoteBlock_def AT_PAGESZ_def AT_PHDR_def AT_PHNUM_def AT_EXECFN_def
        less_Suc_eq intro!: exI [of _ "0x18"])
  moreover have "os_mmap demo_lib_os (mem c0) (mFileSize demo_lib_note) \<noteq> None"
    using demo_lib_free(2) by (simp add: demo_lib_os_def c0(2) demo_lib_note_def new_NoteBlock_def)
  moreover have "findAuxv AT_PAGESZ c0 = of_nat 4096"
    by (simp add: findAuxv_def c0(3) demo_lib_note_def)
  ultimately have r: "ready demo_lib_os c0 demo_lib_note 1 4096"
    unfolding ready_def using note_mapped c0 by (simp add: demo_lib_note_def new_NoteBlock_def)
  have loads: "FindModuleLoad (st_Maps demo_lib_stream) ''libc.so'' = 0x200000"
      "FindModuleLoad (st_Maps demo_lib_stream) ''libm.so'' = 0"
    by (simp_all add: demo_lib_stream_def demo_lib_vma_def FindModuleLoad_def module_load_def lib_name_def lib_buildid_def)
  have names: "lib_name ''libc.so'' = ''libc.so''" "lib_name ''libm.so'' = ''libm.so''" by (simp_all add: lib_name_def)
  have lo: "loads_ok True demo_lib_core" using demo_lib_core_ok by (simp add: core_ok_def)
  have "\<not> isValid (blk demo_lib_core i)" if "i \<in> set (mQuickLoad demo_lib_core)" for i
    using that by (auto simp: isValid_def isValidBlock_def demo_lib_defs)
  then have "\<not> virtualValid a demo_lib_core" for a
    using findLoadBlock_iff [OF lo, of a] by (auto simp: virtualValid_def getLoads_def split: option.splits)
  then have un: "unmapped_at demo_lib_core 0x200000" "unmapped_at demo_lib_core 0"
    by (simp_all add: unmapped_at_def) (simp add: block_has_def demo_lib_defs)
  have libs: "\<forall>lib\<in>set (st_Libs demo_lib_stream). length lib < 2 ^ 62 \<and> lib_name lib \<noteq> [] \<and> no_nul lib \<and>
      unmapped_at demo_lib_core (FindModuleLoad (st_Maps demo_lib_stream) lib)"
    using loads un names by (simp add: demo_lib_stream_def no_nul_def char_of_def)
  have "\<exists>c1 c2. fake_libs ELF64 demo_lib_os demo_lib_stream new_FakeCore demo_lib_core = Inr (True, c1) \<and> core_ok c1 \<and>
      loadLinkMap64 c1 = Some (Inr c2) \<and>
      listed c2 = Inr (FAKECORE_VMA, 0x100000) # map (\<lambda>lib. Inr (lib_name lib, FindModuleLoad (st_Maps demo_lib_stream) lib)) (st_Libs demo_lib_stream)"
  proof (rule fake_libs_listed [OF demo_lib_os_ok demo_lib_core_ok _ _ _ _ _ _ _ _ r _ _ _ libs])
    show "findAuxv AT_PHNUM demo_lib_core = 2"
      by (simp add: findAuxv_def demo_lib_core_def demo_lib_note_def AT_PAGESZ_def AT_PHDR_def AT_PHNUM_def)
    show "newLoadBlock demo_lib_os 0 (ucast (fc_page_size new_FakeCore * 4)) FLAG_RW demo_lib_core = Inr (0x100000, c0)"
      using c0(1) by (simp add: page)
  qed (simp_all add: page demo_lib_stream_def names rooms_def nroom_def FAKECORE_VMA_def, simp_all add: demo_lib_core_def new_core_def new_memory_ref_def)
  then show ?thesis using loads names by (simp add: demo_lib_stream_def FAKECORE_VMA_def)
qed

end
