(* ===== verification/DexNames.thy ===== *)
theory DexNames
  imports Prelude
begin

unbundle bit_operations_syntax

text \<open>
  Names of the Android runtime (android/art/dex): conversion of UTF-16 to modified UTF-8 (utf.cpp), type
  descriptors and their readable form (descriptors_names.cpp), primitive types (primitive.h, primitive.cpp)
  and access flags (modifiers.h, modifiers.cpp). Functions that append to a string return what they append.
\<close>

section \<open>Modified UTF-8 (utf.cpp)\<close>

text \<open>The bytes of one character, and of a pair of surrogates.\<close>

definition utf8_two :: "u16 \<Rightarrow> u8 list" where
  "utf8_two ch = [ucast (drop_bit 6 ch OR 0xc0), ucast ((ch AND 0x3f) OR 0x80)]"

definition utf8_three :: "u16 \<Rightarrow> u8 list" where
  "utf8_three ch = [ucast (drop_bit 12 ch OR 0xe0), ucast ((drop_bit 6 ch AND 0x3f) OR 0x80), ucast ((ch AND 0x3f) OR 0x80)]"

definition pair_code :: "u16 \<Rightarrow> u16 \<Rightarrow> u32" where
  "pair_code ch ch2 = push_bit 10 (ucast ch) + ucast ch2 - 0x035fdc00"

definition utf8_four :: "u32 \<Rightarrow> u8 list" where
  "utf8_four code_point =
     [ucast (drop_bit 18 code_point OR 0xf0), ucast ((drop_bit 12 code_point AND 0x3f) OR 0x80),
      ucast ((drop_bit 6 code_point AND 0x3f) OR 0x80), ucast ((code_point AND 0x3f) OR 0x80)]"

text \<open>The loop for strings that are not ASCII only.\<close>

fun utf8_loop :: "u16 list \<Rightarrow> u8 list" where
  "utf8_loop [] = []"
| "utf8_loop (ch # rest) =
     (if ch > 0 \<and> ch \<le> 0x7f then ucast ch # utf8_loop rest
      else
        (case rest of
           ch2 # rest' \<Rightarrow>
             if (ch \<ge> 0xd800 \<and> ch \<le> 0xdbff) \<and> ch2 \<ge> 0xdc00 \<and> ch2 \<le> 0xdfff
             then utf8_four (pair_code ch ch2) @ utf8_loop rest'
             else (if ch > 0x07ff then utf8_three ch else utf8_two ch) @ utf8_loop rest
         | [] \<Rightarrow> (if ch > 0x07ff then utf8_three ch else utf8_two ch) @ utf8_loop rest))"

definition ConvertUtf16ToModifiedUtf8 :: "nat \<Rightarrow> u16 list \<Rightarrow> u8 list" where
  "ConvertUtf16ToModifiedUtf8 byte_count utf16_in =
     (if byte_count = length utf16_in then map ucast utf16_in else utf8_loop utf16_in)"

fun CountUtf8Bytes :: "u16 list \<Rightarrow> nat" where
  "CountUtf8Bytes [] = 0"
| "CountUtf8Bytes (ch # rest) =
     (if ch \<noteq> 0 \<and> ch < 0x80 then 1 + CountUtf8Bytes rest
      else if ch < 0x800 then 2 + CountUtf8Bytes rest
      else if ch \<ge> 0xd800 \<and> ch < 0xdc00 then
        (case rest of
           ch2 # rest' \<Rightarrow>
             if ch2 \<ge> 0xdc00 \<and> ch2 < 0xe000 then 4 + CountUtf8Bytes rest' else 3 + CountUtf8Bytes rest
         | [] \<Rightarrow> 3 + CountUtf8Bytes rest)
      else 3 + CountUtf8Bytes rest)"

section \<open>Descriptors (descriptors_names.cpp)\<close>

definition primitive_name :: "char \<Rightarrow> string option" where
  "primitive_name ch =
     (if ch = CHR ''B'' then Some ''byte'' else if ch = CHR ''C'' then Some ''char'' else if ch = CHR ''D'' then Some ''double''
      else if ch = CHR ''F'' then Some ''float'' else if ch = CHR ''I'' then Some ''int'' else if ch = CHR ''J'' then Some ''long''
      else if ch = CHR ''S'' then Some ''short'' else if ch = CHR ''Z'' then Some ''boolean'' else if ch = CHR ''V'' then Some ''void''
      else None)"

definition replace_char :: "char \<Rightarrow> char \<Rightarrow> string \<Rightarrow> string" where
  "replace_char a b s = map (\<lambda>x. if x = a then b else x) s"

text \<open>\<open>back\<close> of an empty string is undefined.\<close>

definition drop_semicolon :: "string \<Rightarrow> string res" where
  "drop_semicolon temp =
     (if temp = [] then Inl (HostFault 0) else Inr (if last temp = CHR '';'' then butlast temp else temp))"

definition AppendPrettyDescriptor :: "string \<Rightarrow> string res" where
  "AppendPrettyDescriptor descriptor =
     (let dim = length (takeWhile (\<lambda>x. x = CHR ''['') descriptor);
          c = dropWhile (\<lambda>x. x = CHR ''['') descriptor;
          arrays = concat (replicate dim ''[]'')
      in case c of
           [] \<Rightarrow> Inr descriptor
         | x # xs \<Rightarrow>
             if x = CHR ''L'' then
               res_bind (drop_semicolon (replace_char (CHR ''/'') (CHR ''.'') xs)) (\<lambda>temp. Inr (temp @ arrays))
             else
               (case primitive_name x of None \<Rightarrow> Inr descriptor | Some s \<Rightarrow> Inr (s @ arrays)))"

definition AppendPrettyDescriptor_def_arg :: "string \<Rightarrow> string \<Rightarrow> string res" where
  "AppendPrettyDescriptor_def_arg descriptor def =
     (if descriptor \<noteq> [] \<and> hd descriptor \<in> set ''[LZCFDBSIJV'' then AppendPrettyDescriptor descriptor
      else AppendPrettyDescriptor def)"

definition DotToDescriptor :: "string \<Rightarrow> string" where
  "DotToDescriptor class_name =
     (let descriptor = replace_char (CHR ''.'') (CHR ''/'') class_name
      in if length descriptor > 0 \<and> descriptor ! 0 \<noteq> CHR ''['' then ''L'' @ descriptor @ '';'' else descriptor)"

section \<open>Primitive types (primitive.h, primitive.cpp)\<close>

datatype primitive = kPrimNot | kPrimBoolean | kPrimByte | kPrimChar | kPrimShort | kPrimInt | kPrimLong | kPrimFloat
  | kPrimDouble | kPrimVoid

definition kObjectReferenceSize :: nat where "kObjectReferenceSize = 4"

definition ComponentSizeShiftWidth :: "nat \<Rightarrow> nat" where
  "ComponentSizeShiftWidth sz = (if sz = 1 then 0 else if sz = 2 then 1 else if sz = 4 then 2 else if sz = 8 then 3 else 0)"

definition Primitive_GetType :: "char \<Rightarrow> primitive" where
  "Primitive_GetType ty =
     (if ty = CHR ''B'' then kPrimByte else if ty = CHR ''C'' then kPrimChar else if ty = CHR ''D'' then kPrimDouble
      else if ty = CHR ''F'' then kPrimFloat else if ty = CHR ''I'' then kPrimInt else if ty = CHR ''J'' then kPrimLong
      else if ty = CHR ''S'' then kPrimShort else if ty = CHR ''Z'' then kPrimBoolean else if ty = CHR ''V'' then kPrimVoid
      else kPrimNot)"

fun ComponentSizeShift :: "primitive \<Rightarrow> nat" where
  "ComponentSizeShift kPrimVoid = 0"
| "ComponentSizeShift kPrimBoolean = 0"
| "ComponentSizeShift kPrimByte = 0"
| "ComponentSizeShift kPrimChar = 1"
| "ComponentSizeShift kPrimShort = 1"
| "ComponentSizeShift kPrimInt = 2"
| "ComponentSizeShift kPrimFloat = 2"
| "ComponentSizeShift kPrimLong = 3"
| "ComponentSizeShift kPrimDouble = 3"
| "ComponentSizeShift kPrimNot = ComponentSizeShiftWidth kObjectReferenceSize"

fun ComponentSize :: "primitive \<Rightarrow> nat" where
  "ComponentSize kPrimVoid = 0"
| "ComponentSize kPrimBoolean = 1"
| "ComponentSize kPrimByte = 1"
| "ComponentSize kPrimChar = 2"
| "ComponentSize kPrimShort = 2"
| "ComponentSize kPrimInt = 4"
| "ComponentSize kPrimFloat = 4"
| "ComponentSize kPrimLong = 8"
| "ComponentSize kPrimDouble = 8"
| "ComponentSize kPrimNot = kObjectReferenceSize"

text \<open>\<open>None\<close> is the null pointer after the log message.\<close>

fun Primitive_Descriptor :: "primitive \<Rightarrow> string option" where
  "Primitive_Descriptor kPrimBoolean = Some ''Z''"
| "Primitive_Descriptor kPrimByte = Some ''B''"
| "Primitive_Descriptor kPrimChar = Some ''C''"
| "Primitive_Descriptor kPrimShort = Some ''S''"
| "Primitive_Descriptor kPrimInt = Some ''I''"
| "Primitive_Descriptor kPrimFloat = Some ''F''"
| "Primitive_Descriptor kPrimLong = Some ''J''"
| "Primitive_Descriptor kPrimDouble = Some ''D''"
| "Primitive_Descriptor kPrimVoid = Some ''V''"
| "Primitive_Descriptor kPrimNot = None"

fun Primitive_PrettyDescriptor :: "primitive \<Rightarrow> string" where
  "Primitive_PrettyDescriptor kPrimNot = ''PrimNot''"
| "Primitive_PrettyDescriptor kPrimBoolean = ''PrimBoolean''"
| "Primitive_PrettyDescriptor kPrimByte = ''PrimByte''"
| "Primitive_PrettyDescriptor kPrimChar = ''PrimChar''"
| "Primitive_PrettyDescriptor kPrimShort = ''PrimShort''"
| "Primitive_PrettyDescriptor kPrimInt = ''PrimInt''"
| "Primitive_PrettyDescriptor kPrimLong = ''PrimLong''"
| "Primitive_PrettyDescriptor kPrimFloat = ''PrimFloat''"
| "Primitive_PrettyDescriptor kPrimDouble = ''PrimDouble''"
| "Primitive_PrettyDescriptor kPrimVoid = ''PrimVoid''"

fun BoxedDescriptor :: "primitive \<Rightarrow> string" where
  "BoxedDescriptor kPrimNot = ''Ljava/lang/Object;''"
| "BoxedDescriptor kPrimBoolean = ''Ljava/lang/Boolean;''"
| "BoxedDescriptor kPrimByte = ''Ljava/lang/Byte;''"
| "BoxedDescriptor kPrimChar = ''Ljava/lang/Character;''"
| "BoxedDescriptor kPrimShort = ''Ljava/lang/Short;''"
| "BoxedDescriptor kPrimInt = ''Ljava/lang/Integer;''"
| "BoxedDescriptor kPrimLong = ''Ljava/lang/Long;''"
| "BoxedDescriptor kPrimFloat = ''Ljava/lang/Float;''"
| "BoxedDescriptor kPrimDouble = ''Ljava/lang/Double;''"
| "BoxedDescriptor kPrimVoid = ''Ljava/lang/Void;''"

fun IsNumericType :: "primitive \<Rightarrow> bool" where
  "IsNumericType kPrimNot = False"
| "IsNumericType kPrimBoolean = False"
| "IsNumericType kPrimVoid = False"
| "IsNumericType _ = True"

fun IsSignedNumericType :: "primitive \<Rightarrow> bool" where
  "IsSignedNumericType kPrimNot = False"
| "IsSignedNumericType kPrimBoolean = False"
| "IsSignedNumericType kPrimChar = False"
| "IsSignedNumericType kPrimVoid = False"
| "IsSignedNumericType _ = True"

fun BitsRequiredForLargestValue :: "primitive \<Rightarrow> nat" where
  "BitsRequiredForLargestValue kPrimNot = 0"
| "BitsRequiredForLargestValue kPrimBoolean = 1"
| "BitsRequiredForLargestValue kPrimByte = 7"
| "BitsRequiredForLargestValue kPrimChar = 16"
| "BitsRequiredForLargestValue kPrimShort = 15"
| "BitsRequiredForLargestValue kPrimInt = 31"
| "BitsRequiredForLargestValue kPrimLong = 63"
| "BitsRequiredForLargestValue kPrimFloat = 128"
| "BitsRequiredForLargestValue kPrimDouble = 1024"
| "BitsRequiredForLargestValue kPrimVoid = 0"

definition Is64BitType :: "primitive \<Rightarrow> bool" where
  "Is64BitType ty \<longleftrightarrow> ty = kPrimLong \<or> ty = kPrimDouble"

section \<open>Access flags (modifiers.h, modifiers.cpp)\<close>

definition kAccPublic :: u32 where "kAccPublic = 0x0001"
definition kAccPrivate :: u32 where "kAccPrivate = 0x0002"
definition kAccProtected :: u32 where "kAccProtected = 0x0004"
definition kAccStatic :: u32 where "kAccStatic = 0x0008"
definition kAccFinal :: u32 where "kAccFinal = 0x0010"
definition kAccSynchronized :: u32 where "kAccSynchronized = 0x0020"
definition kAccVolatile :: u32 where "kAccVolatile = 0x0040"
definition kAccTransient :: u32 where "kAccTransient = 0x0080"
definition kAccNative :: u32 where "kAccNative = 0x0100"
definition kAccInterface :: u32 where "kAccInterface = 0x0200"
definition kAccAbstract :: u32 where "kAccAbstract = 0x0400"
definition kAccEnum :: u32 where "kAccEnum = 0x4000"
definition kAccClassIsProxy :: u32 where "kAccClassIsProxy = 0x00040000"
definition kAccCopied :: u32 where "kAccCopied = 0x01000000"
definition kAccDefault :: u32 where "kAccDefault = 0x00400000"
definition kAccIntrinsic :: u32 where "kAccIntrinsic = 0x80000000"

definition flag_word :: "u32 \<Rightarrow> u32 \<Rightarrow> string \<Rightarrow> string" where
  "flag_word access_flags flag s = (if access_flags AND flag \<noteq> 0 then s else [])"

definition PrettyJavaAccessFlags :: "u32 \<Rightarrow> string" where
  "PrettyJavaAccessFlags f =
     flag_word f kAccPublic ''public '' @ flag_word f kAccProtected ''protected '' @ flag_word f kAccPrivate ''private '' @
     flag_word f kAccFinal ''final '' @ flag_word f kAccStatic ''static '' @ flag_word f kAccAbstract ''abstract '' @
     flag_word f kAccSynchronized ''synchronized ''"

definition PrettyFieldAccessFlags :: "u32 \<Rightarrow> string" where
  "PrettyFieldAccessFlags f =
     PrettyJavaAccessFlags f @ flag_word f kAccTransient ''transient '' @ flag_word f kAccVolatile ''volatile ''"

definition PrettyClassAccessFlags :: "u32 \<Rightarrow> string" where
  "PrettyClassAccessFlags f =
     PrettyJavaAccessFlags f @ flag_word f kAccClassIsProxy ''proxy '' @ flag_word f kAccInterface ''interface '' @
     flag_word f kAccEnum ''enum ''"

definition PrettyMethodAccessFlags :: "u32 \<Rightarrow> string" where
  "PrettyMethodAccessFlags f =
     (let kMask = kAccIntrinsic OR kAccCopied OR kAccAbstract OR kAccDefault; kValue = kAccCopied OR kAccAbstract OR kAccDefault
      in PrettyJavaAccessFlags f @ flag_word f kAccNative ''native '' @ (if f AND kMask = kValue then ''conflicting '' else []))"

end
