(* ===== verification/DexFile.thy ===== *)
theory DexFile
  imports DexNames BitRegion
begin

unbundle bit_operations_syntax

text \<open>
  Dex files in target memory (android/art/dex): the offsets of the members of \<open>art::DexFile\<close> per version of
  Android, the tables of strings, types, fields, methods and prototypes (dex_file.cpp, dex_file_structs.h),
  and the headers of code items in both formats (standard_dex_file.cpp, compact_dex_file.cpp).

  An \<open>art::DexFile\<close> is given by its address \<open>df\<close> and the offsets \<open>ofs\<close> in force; a \<open>const char*\<close> result
  is the C string it points to. As in theory BitRegion the accessors keep no segment cache, which does not change
  what they read. Log messages are left out.
\<close>

section \<open>Offsets of the members\<close>

record dex_offsets =
  df_begin :: u32
  df_size :: u32
  df_data_begin :: u32
  df_data_size :: u32
  df_location :: u32
  df_location_checksum :: u32
  df_header :: u32
  df_string_ids :: u32
  df_type_ids :: u32
  df_field_ids :: u32
  df_method_ids :: u32
  df_proto_ids :: u32
  df_class_defs :: u32
  df_method_handles :: u32
  df_num_method_handles :: u32
  df_call_site_ids :: u32
  df_num_call_site_ids :: u32
  df_hiddenapi_class_data :: u32
  df_oat_dex_file :: u32
  df_container :: u32
  df_is_compact_dex :: u32

text \<open>A member that an initialiser does not name is 0.\<close>

definition DexFile_Init23 :: "core \<Rightarrow> dex_offsets" where
  "DexFile_Init23 c =
     (if bits (core_machine c) = 64 then \<lparr>df_begin = 8, df_size = 16, df_data_begin = 8, df_data_size = 16,
             df_location = 24, df_location_checksum = 48, df_header = 64, df_string_ids = 72, df_type_ids = 80,
             df_field_ids = 88, df_method_ids = 96, df_proto_ids = 104, df_class_defs = 112, df_method_handles = 0,
             df_num_method_handles = 0, df_call_site_ids = 0, df_num_call_site_ids = 0, df_hiddenapi_class_data = 0,
             df_oat_dex_file = 136, df_container = 0, df_is_compact_dex = 0\<rparr>
      else \<lparr>df_begin = 4, df_size = 8, df_data_begin = 4, df_data_size = 8, df_location = 12,
              df_location_checksum = 24, df_header = 32, df_string_ids = 36, df_type_ids = 40, df_field_ids = 44,
              df_method_ids = 48, df_proto_ids = 52, df_class_defs = 56, df_method_handles = 0,
              df_num_method_handles = 0, df_call_site_ids = 0, df_num_call_site_ids = 0, df_hiddenapi_class_data = 0,
              df_oat_dex_file = 68, df_container = 0, df_is_compact_dex = 0\<rparr>)"

definition DexFile_Init24 :: "core \<Rightarrow> dex_offsets" where
  "DexFile_Init24 c =
     (if bits (core_machine c) = 64 then \<lparr>df_begin = 8, df_size = 16, df_data_begin = 8, df_data_size = 16,
             df_location = 24, df_location_checksum = 48, df_header = 64, df_string_ids = 72, df_type_ids = 80,
             df_field_ids = 88, df_method_ids = 96, df_proto_ids = 104, df_class_defs = 112, df_method_handles = 0,
             df_num_method_handles = 0, df_call_site_ids = 0, df_num_call_site_ids = 0, df_hiddenapi_class_data = 0,
             df_oat_dex_file = 120, df_container = 0, df_is_compact_dex = 0\<rparr>
      else \<lparr>df_begin = 4, df_size = 8, df_data_begin = 4, df_data_size = 8, df_location = 12,
              df_location_checksum = 24, df_header = 32, df_string_ids = 36, df_type_ids = 40, df_field_ids = 44,
              df_method_ids = 48, df_proto_ids = 52, df_class_defs = 56, df_method_handles = 0,
              df_num_method_handles = 0, df_call_site_ids = 0, df_num_call_site_ids = 0, df_hiddenapi_class_data = 0,
              df_oat_dex_file = 60, df_container = 0, df_is_compact_dex = 0\<rparr>)"

definition DexFile_Init26 :: "core \<Rightarrow> dex_offsets" where
  "DexFile_Init26 c =
     (if bits (core_machine c) = 64 then \<lparr>df_begin = 8, df_size = 16, df_data_begin = 8, df_data_size = 16,
             df_location = 24, df_location_checksum = 48, df_header = 64, df_string_ids = 72, df_type_ids = 80,
             df_field_ids = 88, df_method_ids = 96, df_proto_ids = 104, df_class_defs = 112, df_method_handles = 120,
             df_num_method_handles = 128, df_call_site_ids = 136, df_num_call_site_ids = 144,
             df_hiddenapi_class_data = 0, df_oat_dex_file = 152, df_container = 0, df_is_compact_dex = 0\<rparr>
      else \<lparr>df_begin = 4, df_size = 8, df_data_begin = 4, df_data_size = 8, df_location = 12,
              df_location_checksum = 24, df_header = 32, df_string_ids = 36, df_type_ids = 40, df_field_ids = 44,
              df_method_ids = 48, df_proto_ids = 52, df_class_defs = 56, df_method_handles = 60,
              df_num_method_handles = 64, df_call_site_ids = 68, df_num_call_site_ids = 72,
              df_hiddenapi_class_data = 0, df_oat_dex_file = 76, df_container = 0, df_is_compact_dex = 0\<rparr>)"

definition DexFile_Init28 :: "core \<Rightarrow> dex_offsets" where
  "DexFile_Init28 c =
     (if bits (core_machine c) = 64 then \<lparr>df_begin = 8, df_size = 16, df_data_begin = 24, df_data_size = 32,
             df_location = 40, df_location_checksum = 64, df_header = 72, df_string_ids = 80, df_type_ids = 88,
             df_field_ids = 96, df_method_ids = 104, df_proto_ids = 112, df_class_defs = 120,
             df_method_handles = 128, df_num_method_handles = 136, df_call_site_ids = 144,
             df_num_call_site_ids = 152, df_hiddenapi_class_data = 0, df_oat_dex_file = 160, df_container = 168,
             df_is_compact_dex = 176\<rparr>
      else \<lparr>df_begin = 4, df_size = 8, df_data_begin = 12, df_data_size = 16, df_location = 20,
              df_location_checksum = 32, df_header = 36, df_string_ids = 40, df_type_ids = 44, df_field_ids = 48,
              df_method_ids = 52, df_proto_ids = 56, df_class_defs = 60, df_method_handles = 64,
              df_num_method_handles = 68, df_call_site_ids = 72, df_num_call_site_ids = 76,
              df_hiddenapi_class_data = 0, df_oat_dex_file = 80, df_container = 84, df_is_compact_dex = 88\<rparr>)"

definition DexFile_Init29 :: "core \<Rightarrow> dex_offsets" where
  "DexFile_Init29 c =
     (if bits (core_machine c) = 64 then \<lparr>df_begin = 8, df_size = 16, df_data_begin = 24, df_data_size = 32,
             df_location = 40, df_location_checksum = 64, df_header = 72, df_string_ids = 80, df_type_ids = 88,
             df_field_ids = 96, df_method_ids = 104, df_proto_ids = 112, df_class_defs = 120,
             df_method_handles = 128, df_num_method_handles = 136, df_call_site_ids = 144,
             df_num_call_site_ids = 152, df_hiddenapi_class_data = 160, df_oat_dex_file = 168, df_container = 176,
             df_is_compact_dex = 184\<rparr>
      else \<lparr>df_begin = 4, df_size = 8, df_data_begin = 12, df_data_size = 16, df_location = 20,
              df_location_checksum = 32, df_header = 36, df_string_ids = 40, df_type_ids = 44, df_field_ids = 48,
              df_method_ids = 52, df_proto_ids = 56, df_class_defs = 60, df_method_handles = 64,
              df_num_method_handles = 68, df_call_site_ids = 72, df_num_call_site_ids = 76,
              df_hiddenapi_class_data = 80, df_oat_dex_file = 84, df_container = 88, df_is_compact_dex = 92\<rparr>)"

definition DexFile_Init34 :: "core \<Rightarrow> dex_offsets" where
  "DexFile_Init34 c =
     (if bits (core_machine c) = 64 then \<lparr>df_begin = 8, df_size = 16, df_data_begin = 24, df_data_size = 32,
             df_location = 40, df_location_checksum = 64, df_header = 72, df_string_ids = 80, df_type_ids = 88,
             df_field_ids = 96, df_method_ids = 104, df_proto_ids = 112, df_class_defs = 120,
             df_method_handles = 128, df_num_method_handles = 136, df_call_site_ids = 144,
             df_num_call_site_ids = 152, df_hiddenapi_class_data = 160, df_oat_dex_file = 168, df_container = 176,
             df_is_compact_dex = 192\<rparr>
      else \<lparr>df_begin = 4, df_size = 8, df_data_begin = 12, df_data_size = 16, df_location = 20,
              df_location_checksum = 32, df_header = 36, df_string_ids = 40, df_type_ids = 44, df_field_ids = 48,
              df_method_ids = 52, df_proto_ids = 56, df_class_defs = 60, df_method_handles = 64,
              df_num_method_handles = 68, df_call_site_ids = 72, df_num_call_site_ids = 76,
              df_hiddenapi_class_data = 80, df_oat_dex_file = 84, df_container = 88, df_is_compact_dex = 96\<rparr>)"

text \<open>The listeners in the order of their registration, executed on a change of the version.\<close>

definition SDK_M :: int where "SDK_M = 23"
definition SDK_N :: int where "SDK_N = 24"
definition SDK_O :: int where "SDK_O = 26"
definition SDK_P :: int where "SDK_P = 28"
definition SDK_Q :: int where "SDK_Q = 29"
definition SDK_U :: int where "SDK_U = 34"
definition SDK_X :: int where "SDK_X = 37"

definition DexFile_Init :: "(int \<times> (core \<Rightarrow> dex_offsets)) list" where
  "DexFile_Init =
     [(SDK_M, DexFile_Init23), (SDK_N, DexFile_Init24), (SDK_O, DexFile_Init26), (SDK_P, DexFile_Init28),
      (SDK_Q, DexFile_Init29), (SDK_U, DexFile_Init34)]"

definition dex_switch :: "int \<Rightarrow> core \<Rightarrow> dex_offsets \<Rightarrow> dex_offsets" where
  "dex_switch sdk c ofs = fold (\<lambda>(minisdk, init) o'. if sdk \<ge> minisdk then init c else o') DexFile_Init ofs"

section \<open>Structures of a Dex file (dex_file_structs.h, dex_file_structs.cpp)\<close>

definition ref_value16 :: "core \<Rightarrow> u64 \<Rightarrow> memory_ref \<Rightarrow> u16 res" where
  "ref_value16 c off r = res_bind (valueNOf 2 off c r) (\<lambda>(v, _). Inr (ucast v))"

definition TypeId_SIZE :: u32 where "TypeId_SIZE = 4"
definition StringId_SIZE :: u32 where "StringId_SIZE = 4"
definition FieldId_SIZE :: u32 where "FieldId_SIZE = 8"
definition MethodId_SIZE :: u32 where "MethodId_SIZE = 8"
definition ProtoId_SIZE :: u32 where "ProtoId_SIZE = 12"
definition TypeItem_SIZE :: u32 where "TypeItem_SIZE = 2"

definition TypeId_descriptor_idx :: "core \<Rightarrow> u64 \<Rightarrow> u32 res" where
  "TypeId_descriptor_idx c a = ref_value32 c 0 (new_memory_ref a)"
definition StringId_string_data_off :: "core \<Rightarrow> u64 \<Rightarrow> u32 res" where
  "StringId_string_data_off c a = ref_value32 c 0 (new_memory_ref a)"
definition FieldId_class_idx :: "core \<Rightarrow> u64 \<Rightarrow> u16 res" where
  "FieldId_class_idx c a = ref_value16 c 0 (new_memory_ref a)"
definition FieldId_type_idx :: "core \<Rightarrow> u64 \<Rightarrow> u16 res" where
  "FieldId_type_idx c a = ref_value16 c 2 (new_memory_ref a)"
definition FieldId_name_idx :: "core \<Rightarrow> u64 \<Rightarrow> u32 res" where
  "FieldId_name_idx c a = ref_value32 c 4 (new_memory_ref a)"
definition MethodId_class_idx :: "core \<Rightarrow> u64 \<Rightarrow> u16 res" where
  "MethodId_class_idx c a = ref_value16 c 0 (new_memory_ref a)"
definition MethodId_proto_idx :: "core \<Rightarrow> u64 \<Rightarrow> u16 res" where
  "MethodId_proto_idx c a = ref_value16 c 2 (new_memory_ref a)"
definition MethodId_name_idx :: "core \<Rightarrow> u64 \<Rightarrow> u32 res" where
  "MethodId_name_idx c a = ref_value32 c 4 (new_memory_ref a)"
definition ProtoId_shorty_idx :: "core \<Rightarrow> u64 \<Rightarrow> u32 res" where
  "ProtoId_shorty_idx c a = ref_value32 c 0 (new_memory_ref a)"
definition ProtoId_return_type_idx :: "core \<Rightarrow> u64 \<Rightarrow> u16 res" where
  "ProtoId_return_type_idx c a = ref_value16 c 4 (new_memory_ref a)"
definition ProtoId_parameters_off :: "core \<Rightarrow> u64 \<Rightarrow> u32 res" where
  "ProtoId_parameters_off c a = ref_value32 c 8 (new_memory_ref a)"
definition TypeList_size :: "core \<Rightarrow> u64 \<Rightarrow> u32 res" where
  "TypeList_size c a = ref_value32 c 0 (new_memory_ref a)"
definition TypeList_list :: "u64 \<Rightarrow> u64" where "TypeList_list a = a + 4"

section \<open>The tables (dex_file.h, dex_file.cpp)\<close>

text \<open>\<open>VALUEOF(DexFile, member)\<close>, and the cached table, which reads \<open>data_begin_\<close> for the cache.\<close>

definition dex_member :: "(dex_offsets \<Rightarrow> u32) \<Rightarrow> core \<Rightarrow> dex_offsets \<Rightarrow> u64 \<Rightarrow> u64 res" where
  "dex_member fld c ofs df = ref_value c (ucast (fld ofs)) (new_memory_ref df)"

definition dex_table :: "(dex_offsets \<Rightarrow> u32) \<Rightarrow> core \<Rightarrow> dex_offsets \<Rightarrow> u64 \<Rightarrow> u64 res" where
  "dex_table fld c ofs df =
     res_bind (dex_member fld c ofs df) (\<lambda>p. res_bind (dex_member df_data_begin c ofs df) (\<lambda>_. Inr p))"

definition is_valid_at :: "core \<Rightarrow> u64 \<Rightarrow> bool res" where
  "is_valid_at c a = res_bind (Ref_IsValid c (new_memory_ref a)) (\<lambda>(ok, _). Inr ok)"

definition GetTypeId :: "core \<Rightarrow> dex_offsets \<Rightarrow> u64 \<Rightarrow> u16 \<Rightarrow> u64 res" where
  "GetTypeId c ofs df idx = res_bind (dex_table df_type_ids c ofs df) (\<lambda>p. Inr (p + ucast (TypeId_SIZE * ucast idx)))"

definition GetMethodId :: "core \<Rightarrow> dex_offsets \<Rightarrow> u64 \<Rightarrow> u32 \<Rightarrow> u64 res" where
  "GetMethodId c ofs df idx = res_bind (dex_table df_method_ids c ofs df) (\<lambda>p. Inr (p + ucast (MethodId_SIZE * idx)))"

definition GetProtoId :: "core \<Rightarrow> dex_offsets \<Rightarrow> u64 \<Rightarrow> u16 \<Rightarrow> u64 res" where
  "GetProtoId c ofs df idx = res_bind (dex_table df_proto_ids c ofs df) (\<lambda>p. Inr (p + ucast (ProtoId_SIZE * ucast idx)))"

definition GetMethodPrototype :: "core \<Rightarrow> dex_offsets \<Rightarrow> u64 \<Rightarrow> u64 \<Rightarrow> u64 res" where
  "GetMethodPrototype c ofs df method_id = res_bind (MethodId_proto_idx c method_id) (GetProtoId c ofs df)"

definition GetStringId :: "core \<Rightarrow> dex_offsets \<Rightarrow> u64 \<Rightarrow> u32 \<Rightarrow> u64 res" where
  "GetStringId c ofs df idx = res_bind (dex_table df_string_ids c ofs df) (\<lambda>p. Inr (p + ucast (StringId_SIZE * idx)))"

definition GetFieldId :: "core \<Rightarrow> dex_offsets \<Rightarrow> u64 \<Rightarrow> u32 \<Rightarrow> u64 res" where
  "GetFieldId c ofs df idx = res_bind (dex_table df_field_ids c ofs df) (\<lambda>p. Inr (p + ucast (FieldId_SIZE * idx)))"

text \<open>The length is \<open>None\<close> where the code does not assign it.\<close>

definition GetStringDataAndUtf16Length :: "core \<Rightarrow> dex_offsets \<Rightarrow> u64 \<Rightarrow> u64 \<Rightarrow> string \<Rightarrow> (u32 option \<times> string) res" where
  "GetStringDataAndUtf16Length c ofs df string_id def =
     res_bind (is_valid_at c string_id) (\<lambda>ok.
       if \<not> ok then Inr (None, def)
       else
         res_bind (dex_member df_data_begin c ofs df) (\<lambda>bgn.
         res_bind (StringId_string_data_off c string_id) (\<lambda>off.
         res_bind (Real c (new_memory_ref (bgn + ucast off))) (\<lambda>(ptr, _).
         res_bind (DecodeUnsignedLeb128 (mem c) ptr) (\<lambda>(utf16_length, ptr').
         res_bind (c_string (mem c) ptr') (\<lambda>s. Inr (Some utf16_length, s)))))))"

definition StringDataAndUtf16LengthByIdx :: "core \<Rightarrow> dex_offsets \<Rightarrow> u64 \<Rightarrow> u32 \<Rightarrow> string \<Rightarrow> (u32 option \<times> string) res" where
  "StringDataAndUtf16LengthByIdx c ofs df idx def =
     (if idx = - 1 then Inr (Some 0, def)
      else res_bind (GetStringId c ofs df idx) (\<lambda>a. GetStringDataAndUtf16Length c ofs df a def))"

definition StringDataByIdx :: "core \<Rightarrow> dex_offsets \<Rightarrow> u64 \<Rightarrow> u32 \<Rightarrow> string \<Rightarrow> string res" where
  "StringDataByIdx c ofs df idx def = res_bind (StringDataAndUtf16LengthByIdx c ofs df idx def) (\<lambda>(_, s). Inr s)"

text \<open>\<open>if (!id.IsValid()) return def;\<close>\<close>

definition if_valid :: "core \<Rightarrow> u64 \<Rightarrow> 'a \<Rightarrow> 'a res \<Rightarrow> 'a res" where
  "if_valid c a def k = res_bind (is_valid_at c a) (\<lambda>ok. if \<not> ok then Inr def else k)"

definition invalid_class :: string where "invalid_class = ''L<invalid-class>;''"

definition GetTypeDescriptor :: "core \<Rightarrow> dex_offsets \<Rightarrow> u64 \<Rightarrow> u64 \<Rightarrow> string \<Rightarrow> string res" where
  "GetTypeDescriptor c ofs df type_id def =
     if_valid c type_id def (res_bind (TypeId_descriptor_idx c type_id) (\<lambda>idx. StringDataByIdx c ofs df idx def))"

definition GetFieldTypeDescriptor :: "core \<Rightarrow> dex_offsets \<Rightarrow> u64 \<Rightarrow> u64 \<Rightarrow> string \<Rightarrow> string res" where
  "GetFieldTypeDescriptor c ofs df field_id def =
     if_valid c field_id def
       (res_bind (FieldId_type_idx c field_id) (\<lambda>idx.
        res_bind (GetTypeId c ofs df idx) (\<lambda>t. GetTypeDescriptor c ofs df t def)))"

definition GetFieldDeclaringClassDescriptor :: "core \<Rightarrow> dex_offsets \<Rightarrow> u64 \<Rightarrow> u64 \<Rightarrow> string \<Rightarrow> string res" where
  "GetFieldDeclaringClassDescriptor c ofs df field_id def =
     if_valid c field_id def
       (res_bind (FieldId_class_idx c field_id) (\<lambda>idx.
        res_bind (GetTypeId c ofs df idx) (\<lambda>t. GetTypeDescriptor c ofs df t def)))"

definition GetFieldName :: "core \<Rightarrow> dex_offsets \<Rightarrow> u64 \<Rightarrow> u64 \<Rightarrow> string \<Rightarrow> string res" where
  "GetFieldName c ofs df field_id def =
     if_valid c field_id def (res_bind (FieldId_name_idx c field_id) (\<lambda>idx. StringDataByIdx c ofs df idx def))"

definition GetMethodName :: "core \<Rightarrow> dex_offsets \<Rightarrow> u64 \<Rightarrow> u64 \<Rightarrow> string res" where
  "GetMethodName c ofs df method_id =
     if_valid c method_id ''<unknown>'' (res_bind (MethodId_name_idx c method_id) (\<lambda>idx. StringDataByIdx c ofs df idx ''<unknown>''))"

text \<open>The loops over a list of types; \<open>n\<close> rounds are left, \<open>i\<close> is the index.\<close>

fun type_descriptors :: "nat \<Rightarrow> u32 \<Rightarrow> core \<Rightarrow> dex_offsets \<Rightarrow> u64 \<Rightarrow> u64 \<Rightarrow> string res" where
  "type_descriptors 0 i c ofs df list = Inr []"
| "type_descriptors (Suc n) i c ofs df list =
     res_bind (ref_value16 c (ucast (i * TypeItem_SIZE)) (new_memory_ref list)) (\<lambda>idx.
     res_bind (GetTypeId c ofs df idx) (\<lambda>t.
     res_bind (GetTypeDescriptor c ofs df t ''V'') (\<lambda>s.
     res_bind (type_descriptors n (i + 1) c ofs df list) (\<lambda>rest. Inr (s @ rest)))))"

fun pretty_types :: "nat \<Rightarrow> u32 \<Rightarrow> core \<Rightarrow> dex_offsets \<Rightarrow> u64 \<Rightarrow> u64 \<Rightarrow> string res" where
  "pretty_types 0 i c ofs df list = Inr []"
| "pretty_types (Suc n) i c ofs df list =
     res_bind (ref_value16 c (ucast (i * TypeItem_SIZE)) (new_memory_ref list)) (\<lambda>idx.
     res_bind (GetTypeId c ofs df idx) (\<lambda>t.
     res_bind (GetTypeDescriptor c ofs df t ''V'') (\<lambda>s.
     res_bind (AppendPrettyDescriptor s) (\<lambda>tmp.
     res_bind (pretty_types n (i + 1) c ofs df list) (\<lambda>rest. Inr ((if i > 0 then '', '' else []) @ tmp @ rest))))))"

definition GetMethodParametersDescriptor :: "core \<Rightarrow> dex_offsets \<Rightarrow> u64 \<Rightarrow> u64 \<Rightarrow> string res" where
  "GetMethodParametersDescriptor c ofs df proto_id =
     if_valid c proto_id ''(...)''
       (res_bind (ProtoId_parameters_off c proto_id) (\<lambda>off.
          if off \<noteq> 0 then
            res_bind (dex_member df_data_begin c ofs df) (\<lambda>bgn.
            res_bind (TypeList_size c (bgn + ucast off)) (\<lambda>n.
            res_bind (type_descriptors (unat n) 0 c ofs df (TypeList_list (bgn + ucast off))) (\<lambda>s. Inr (''('' @ s @ '')''))))
          else Inr ''()''))"

definition PrettyMethodParameters :: "core \<Rightarrow> dex_offsets \<Rightarrow> u64 \<Rightarrow> u64 \<Rightarrow> string res" where
  "PrettyMethodParameters c ofs df method_id =
     if_valid c method_id ''(...)''
       (res_bind (GetMethodPrototype c ofs df method_id) (\<lambda>proto_id.
        res_bind (ProtoId_parameters_off c proto_id) (\<lambda>off.
          if off \<noteq> 0 then
            res_bind (dex_member df_data_begin c ofs df) (\<lambda>bgn.
            res_bind (TypeList_size c (bgn + ucast off)) (\<lambda>n.
            res_bind (pretty_types (unat n) 0 c ofs df (TypeList_list (bgn + ucast off))) (\<lambda>s. Inr (''('' @ s @ '')''))))
          else Inr ''()'')))"

definition GetMethodDeclaringClassDescriptor :: "core \<Rightarrow> dex_offsets \<Rightarrow> u64 \<Rightarrow> u64 \<Rightarrow> string \<Rightarrow> string res" where
  "GetMethodDeclaringClassDescriptor c ofs df method_id def =
     if_valid c method_id def
       (res_bind (MethodId_class_idx c method_id) (\<lambda>idx.
        res_bind (GetTypeId c ofs df idx) (\<lambda>t. GetTypeDescriptor c ofs df t def)))"

text \<open>The last lookup does not use \<open>def\<close>.\<close>

definition GetMethodReturnTypeDescriptor :: "core \<Rightarrow> dex_offsets \<Rightarrow> u64 \<Rightarrow> u64 \<Rightarrow> string \<Rightarrow> string res" where
  "GetMethodReturnTypeDescriptor c ofs df method_id def =
     if_valid c method_id def
       (res_bind (GetMethodPrototype c ofs df method_id) (\<lambda>proto_id.
        res_bind (ProtoId_return_type_idx c proto_id) (\<lambda>idx.
        res_bind (GetTypeId c ofs df idx) (\<lambda>t. GetTypeDescriptor c ofs df t invalid_class))))"

definition GetMethodShorty :: "core \<Rightarrow> dex_offsets \<Rightarrow> u64 \<Rightarrow> u64 \<Rightarrow> (u32 option \<times> string) res" where
  "GetMethodShorty c ofs df method_id =
     res_bind (MethodId_proto_idx c method_id) (\<lambda>idx.
     res_bind (GetProtoId c ofs df idx) (\<lambda>pid.
     res_bind (ProtoId_shorty_idx c pid) (\<lambda>sidx. StringDataAndUtf16LengthByIdx c ofs df sidx [])))"

definition is_compact_dex :: "core \<Rightarrow> dex_offsets \<Rightarrow> u64 \<Rightarrow> u8 res" where
  "is_compact_dex c ofs df = res_bind (ref_value8 c (ucast (df_is_compact_dex ofs)) (new_memory_ref df)) (\<lambda>v. Inr (ucast v))"

definition IsCompactDexFile :: "int \<Rightarrow> core \<Rightarrow> dex_offsets \<Rightarrow> u64 \<Rightarrow> bool res" where
  "IsCompactDexFile sdk c ofs df = (if sdk \<ge> SDK_X then Inr False else res_bind (is_compact_dex c ofs df) (\<lambda>v. Inr (v \<noteq> 0)))"

definition IsStandardDexFile :: "int \<Rightarrow> core \<Rightarrow> dex_offsets \<Rightarrow> u64 \<Rightarrow> bool res" where
  "IsStandardDexFile sdk c ofs df = (if sdk \<ge> SDK_X then Inr True else res_bind (is_compact_dex c ofs df) (\<lambda>v. Inr (v = 0)))"

section \<open>Code items\<close>

record code_item =
  num_regs :: u16
  out_regs :: u16
  insns_count :: u32
  ci_ins_size :: u16
  ci_tries_size :: u16
  ci_code_offset :: u32

definition Standard_DecodeFields :: "core \<Rightarrow> u64 \<Rightarrow> code_item res" where
  "Standard_DecodeFields c a =
     res_bind (ref_value16 c 0 (new_memory_ref a)) (\<lambda>regs.
     res_bind (ref_value16 c 4 (new_memory_ref a)) (\<lambda>outs.
     res_bind (ref_value32 c 12 (new_memory_ref a)) (\<lambda>insns.
     res_bind (ref_value16 c 2 (new_memory_ref a)) (\<lambda>ins.
     res_bind (ref_value16 c 6 (new_memory_ref a)) (\<lambda>tries.
       Inr \<lparr>num_regs = regs, out_regs = outs, insns_count = insns, ci_ins_size = ins, ci_tries_size = tries, ci_code_offset = 16\<rparr>)))))"

definition kFlagPreHeaderRegistersSize :: u16 where "kFlagPreHeaderRegistersSize = push_bit 0 1"
definition kFlagPreHeaderInsSize :: u16 where "kFlagPreHeaderInsSize = push_bit 1 1"
definition kFlagPreHeaderOutsSize :: u16 where "kFlagPreHeaderOutsSize = push_bit 2 1"
definition kFlagPreHeaderTriesSize :: u16 where "kFlagPreHeaderTriesSize = push_bit 3 1"
definition kFlagPreHeaderInsnsSize :: u16 where "kFlagPreHeaderInsnsSize = push_bit 4 1"
definition kFlagPreHeaderCombined :: u16 where
  "kFlagPreHeaderCombined =
     kFlagPreHeaderRegistersSize OR kFlagPreHeaderInsSize OR kFlagPreHeaderOutsSize OR kFlagPreHeaderTriesSize OR kFlagPreHeaderInsnsSize"

text \<open>\<open>preheader.MovePtr(-sizeof(uint16_t)); preheader.value16Of()\<close>\<close>

definition preheader_word :: "core \<Rightarrow> memory_ref \<Rightarrow> (u16 \<times> memory_ref) res" where
  "preheader_word c r =
     res_bind (MovePtr (- 2) c r) (\<lambda>r1. res_bind (valueNOf 2 0 c r1) (\<lambda>(v, r2). Inr (ucast v, r2)))"

text \<open>One optional size: added when its flag is set.\<close>

definition preheader_size :: "u16 \<Rightarrow> u16 \<Rightarrow> core \<Rightarrow> u16 \<times> memory_ref \<Rightarrow> (u16 \<times> memory_ref) res" where
  "preheader_size flags flag c = (\<lambda>(base, r).
     if flags AND flag \<noteq> 0 then res_bind (preheader_word c r) (\<lambda>(v, r'). Inr (base + v, r')) else Inr (base, r))"

definition preheader_insns :: "u16 \<Rightarrow> core \<Rightarrow> u32 \<times> memory_ref \<Rightarrow> (u32 \<times> memory_ref) res" where
  "preheader_insns flags c = (\<lambda>(base, r).
     if flags AND kFlagPreHeaderInsnsSize \<noteq> 0 then
       res_bind (preheader_word c r) (\<lambda>(lo, r1).
       res_bind (preheader_word c r1) (\<lambda>(hi, r2). Inr (base + ucast lo + push_bit 16 (ucast hi), r2)))
     else Inr (base, r))"

definition Compact_DecodeFields :: "core \<Rightarrow> u64 \<Rightarrow> code_item res" where
  "Compact_DecodeFields c a =
     res_bind (ref_value16 c 2 (new_memory_ref a)) (\<lambda>flags.
     res_bind (ref_value16 c 0 (new_memory_ref a)) (\<lambda>fields.
       (let insns0 = ucast (drop_bit 5 flags) :: u32; regs0 = drop_bit 12 fields AND 0xF; ins0 = drop_bit 8 fields AND 0xF;
            outs0 = drop_bit 4 fields AND 0xF; tries0 = drop_bit 0 fields AND 0xF;
            item = (\<lambda>insns regs ins outs tries. \<lparr>num_regs = regs + ins, out_regs = outs, insns_count = insns, ci_ins_size = ins,
                      ci_tries_size = tries, ci_code_offset = 4\<rparr>)
        in if flags AND kFlagPreHeaderCombined \<noteq> 0 then
             res_bind (preheader_insns flags c (insns0, new_memory_ref a)) (\<lambda>(insns, r1).
             res_bind (preheader_size flags kFlagPreHeaderRegistersSize c (regs0, r1)) (\<lambda>(regs, r2).
             res_bind (preheader_size flags kFlagPreHeaderInsSize c (ins0, r2)) (\<lambda>(ins, r3).
             res_bind (preheader_size flags kFlagPreHeaderOutsSize c (outs0, r3)) (\<lambda>(outs, r4).
             res_bind (preheader_size flags kFlagPreHeaderTriesSize c (tries0, r4)) (\<lambda>(tries, _).
               Inr (item insns regs ins outs tries))))))
           else Inr (item insns0 regs0 ins0 outs0 tries0))))"

end
