(* ===== verification/DexText.thy ===== *)
theory DexText
  imports DexNames
begin

unbundle bit_operations_syntax

text \<open>
  Modified UTF-8 and descriptors: the conversion loses nothing and the count of bytes is the number it
  writes; the readable name of a type and the way back.
\<close>

section \<open>A decoder for the encoding\<close>

text \<open>The format: one, two or three bytes for a character, four for a pair of surrogates.\<close>

definition cont :: "u8 \<Rightarrow> 'a::len word" where "cont b = ucast (b AND 0x3f)"

definition pair_of :: "u32 \<Rightarrow> u16 list" where
  "pair_of code_point = [ucast (drop_bit 10 code_point + 0xd7c0), ucast ((code_point AND 0x3ff) + 0xdc00)]"

fun mutf8_chars :: "u8 list \<Rightarrow> u16 list option" where
  "mutf8_chars [] = Some []"
| "mutf8_chars (a # bs) =
     (if a AND 0x80 = 0 then map_option (Cons (ucast a)) (mutf8_chars bs)
      else case bs of
        [] \<Rightarrow> None
      | b # cs \<Rightarrow>
          if a AND 0x20 = 0 then map_option (Cons (push_bit 6 (ucast (a AND 0x1f)) OR cont b)) (mutf8_chars cs)
          else (case cs of
            [] \<Rightarrow> None
          | c # ds \<Rightarrow>
              if a AND 0x10 = 0
              then map_option (Cons (push_bit 12 (ucast (a AND 0x0f)) OR push_bit 6 (cont b) OR cont c)) (mutf8_chars ds)
              else (case ds of
                [] \<Rightarrow> None
              | d # es \<Rightarrow>
                  map_option (append (pair_of (push_bit 18 (ucast (a AND 0x0f)) OR push_bit 12 (cont b) OR push_bit 6 (cont c) OR cont d)))
                    (mutf8_chars es))))"

lemma bits_below:
  fixes w :: "'a::len word"
  assumes "unat w < 2 ^ k" "k \<le> n"
  shows "\<not> bit w n"
proof -
  have "take_bit k (unat w) = unat w" using assms(1) by (rule take_bit_nat_eq_self)
  then have "\<not> bit (unat w) n" using assms(2) by (metis bit_take_bit_iff leD)
  then show ?thesis by (simp add: bit_unsigned_iff)
qed

lemma less_bits:
  fixes n :: nat
  shows "n < 8 \<longleftrightarrow> n = 7 \<or> n = 6 \<or> n = 5 \<or> n = 4 \<or> n = 3 \<or> n = 2 \<or> n = 1 \<or> n = 0"
    "n < 16 \<longleftrightarrow> n = 15 \<or> n = 14 \<or> n = 13 \<or> n = 12 \<or> n = 11 \<or> n = 10 \<or> n = 9 \<or> n = 8 \<or> n < 8"
    "n < 32 \<longleftrightarrow>
      n = 31 \<or> n = 30 \<or> n = 29 \<or> n = 28 \<or> n = 27 \<or> n = 26 \<or> n = 25 \<or> n = 24 \<or>
      n = 23 \<or> n = 22 \<or> n = 21 \<or> n = 20 \<or> n = 19 \<or> n = 18 \<or> n = 17 \<or> n = 16 \<or> n < 16"
  by presburger+

lemma three_back:
  "push_bit 12 (ucast ((ucast (drop_bit 12 ch OR 0xe0) :: u8) AND 0x0f)) OR push_bit 6 (cont (ucast ((drop_bit 6 ch AND 0x3f) OR 0x80))) OR
     cont (ucast ((ch AND 0x3f) OR 0x80)) = (ch :: u16)"
proof (rule bit_word_eqI)
  fix n :: nat assume "n < LENGTH(16)"
  then have "n < 16" by simp
  then show "bit (push_bit 12 (ucast ((ucast (drop_bit 12 ch OR 0xe0) :: u8) AND 0x0f)) OR push_bit 6 (cont (ucast ((drop_bit 6 ch AND 0x3f) OR 0x80))) OR
     cont (ucast ((ch AND 0x3f) OR 0x80)) :: u16) n = bit ch n"
    unfolding less_bits by (elim disjE) (simp_all add: cont_def bit_simps)
qed

lemma two_back:
  assumes "(ch :: u16) \<le> 0x7ff"
  shows "push_bit 6 (ucast ((ucast (drop_bit 6 ch OR 0xc0) :: u8) AND 0x1f)) OR cont (ucast ((ch AND 0x3f) OR 0x80)) = ch"
proof (rule bit_word_eqI)
  have "unat ch < 2 ^ 11" using assms by (simp add: word_le_nat_alt)
  note high = bits_below [OF this]
  fix n :: nat assume "n < LENGTH(16)"
  then have "n < 16" by simp
  then show "bit (push_bit 6 (ucast ((ucast (drop_bit 6 ch OR 0xc0) :: u8) AND 0x1f)) OR cont (ucast ((ch AND 0x3f) OR 0x80)) :: u16) n = bit ch n"
    unfolding less_bits by (elim disjE) (simp_all add: cont_def bit_simps high)
qed

lemma four_back:
  assumes "unat (cp :: u32) < 2 ^ 21"
  shows "push_bit 18 (ucast ((ucast (drop_bit 18 cp OR 0xf0) :: u8) AND 0x0f)) OR push_bit 12 (cont (ucast ((drop_bit 12 cp AND 0x3f) OR 0x80))) OR
     push_bit 6 (cont (ucast ((drop_bit 6 cp AND 0x3f) OR 0x80))) OR cont (ucast ((cp AND 0x3f) OR 0x80)) = cp"
proof (rule bit_word_eqI)
  note high = bits_below [OF assms]
  fix n :: nat assume "n < LENGTH(32)"
  then have "n < 32" by simp
  then show "bit (push_bit 18 (ucast ((ucast (drop_bit 18 cp OR 0xf0) :: u8) AND 0x0f)) OR push_bit 12 (cont (ucast ((drop_bit 12 cp AND 0x3f) OR 0x80))) OR
     push_bit 6 (cont (ucast ((drop_bit 6 cp AND 0x3f) OR 0x80))) OR cont (ucast ((cp AND 0x3f) OR 0x80)) :: u32) n = bit cp n"
    unfolding less_bits by (elim disjE) (simp_all add: cont_def bit_simps high)
qed

lemma test_bit8: "(a :: u8) AND 0x80 = 0 \<longleftrightarrow> \<not> bit a 7" "a AND 0x20 = 0 \<longleftrightarrow> \<not> bit a 5" "a AND 0x10 = 0 \<longleftrightarrow> \<not> bit a 4"
  using and_exp_eq_0_iff_not_bit [of a 7] and_exp_eq_0_iff_not_bit [of a 5] and_exp_eq_0_iff_not_bit [of a 4] by simp_all

lemma pair_code_value:
  assumes "0xd800 \<le> ch" "ch \<le> 0xdbff" "0xdc00 \<le> ch2" "ch2 \<le> 0xdfff"
  shows "unat (pair_code ch ch2) = 0x10000 + (unat ch - 0xd800) * 1024 + (unat ch2 - 0xdc00)"
proof -
  have b: "0xd800 \<le> unat ch" "unat ch \<le> 0xdbff" "0xdc00 \<le> unat ch2" "unat ch2 \<le> 0xdfff"
    using assms by (simp_all add: word_le_nat_alt)
  have "pair_code ch ch2 = of_nat (unat ch * 1024) + of_nat (unat ch2) - of_nat 0x35fdc00"
    by (simp add: pair_code_def push_bit_eq_mult)
  also have "\<dots> = of_nat (unat ch * 1024 + unat ch2 - 0x35fdc00)" using b by (subst of_nat_diff) simp_all
  finally have "unat (pair_code ch ch2) = unat (of_nat (unat ch * 1024 + unat ch2 - 0x35fdc00) :: u32)" by (rule arg_cong)
  also have "\<dots> = unat ch * 1024 + unat ch2 - 0x35fdc00"
    using b by (simp add: unat_of_nat take_bit_nat_eq_self del: of_nat_add of_nat_mult of_nat_diff)
  finally show ?thesis using b by simp
qed

lemma pair_back:
  assumes "0xd800 \<le> ch" "ch \<le> 0xdbff" "0xdc00 \<le> ch2" "ch2 \<le> 0xdfff"
  shows "pair_of (pair_code ch ch2) = [ch, ch2]" "unat (pair_code ch ch2) < 2 ^ 21"
proof -
  have b: "0xd800 \<le> unat ch" "unat ch \<le> 0xdbff" "0xdc00 \<le> unat ch2" "unat ch2 \<le> 0xdfff"
    using assms by (simp_all add: word_le_nat_alt)
  note v = pair_code_value [OF assms]
  show "unat (pair_code ch ch2) < 2 ^ 21" using v b by simp
  have narrow: "(ucast (of_nat n :: u32) :: u16) = of_nat n" if "n < 2 ^ 32" for n
    using that by (simp add: unsigned_of_nat take_bit_nat_eq_self)
  have whole: "x = of_nat (unat x)" for x :: u32 by simp
  have "unat (drop_bit 10 (pair_code ch ch2)) = unat (pair_code ch ch2) div 1024"
    by (simp only: unat_drop_bit_eq drop_bit_eq_div [of 10 "unat (pair_code ch ch2)"]) simp
  then have "unat (drop_bit 10 (pair_code ch ch2)) = unat ch - 0xd7c0" unfolding v using b by simp
  then have "drop_bit 10 (pair_code ch ch2) + 0xd7c0 = of_nat (unat ch - 0xd7c0) + of_nat 0xd7c0"
    using whole [of "drop_bit 10 (pair_code ch ch2)"] by simp
  also have "\<dots> = of_nat (unat ch - 0xd7c0 + 0xd7c0)" by (rule of_nat_add [symmetric])
  finally have "drop_bit 10 (pair_code ch ch2) + 0xd7c0 = of_nat (unat ch)" using b by simp
  then have 1: "(ucast (drop_bit 10 (pair_code ch ch2) + 0xd7c0) :: u16) = of_nat (unat ch)"
    using narrow [of "unat ch"] b by (simp only:) simp
  have "pair_code ch ch2 AND 0x3ff = take_bit 10 (pair_code ch ch2)" by (simp add: take_bit_eq_mask mask_eq_exp_minus_1)
  then have "unat (pair_code ch ch2 AND 0x3ff) = unat (pair_code ch ch2) mod 1024"
    by (simp only: unsigned_take_bit_eq take_bit_eq_mod [of 10 "unat (pair_code ch ch2)"]) simp
  moreover have "(0x10000 + x * 1024 + m) mod 1024 = m" if "m < 1024" for x m :: nat
  proof -
    have "0x10000 + x * 1024 + m = m + (64 + x) * 1024" by simp
    then show ?thesis using that by (simp only: mod_mult_self1 mod_less)
  qed
  moreover have "unat ch2 - 0xdc00 < 1024" using b by simp
  ultimately have "unat (pair_code ch ch2 AND 0x3ff) = unat ch2 - 0xdc00" unfolding v by simp
  then have "(pair_code ch ch2 AND 0x3ff) + 0xdc00 = of_nat (unat ch2 - 0xdc00) + of_nat 0xdc00"
    using whole [of "pair_code ch ch2 AND 0x3ff"] by simp
  also have "\<dots> = of_nat (unat ch2 - 0xdc00 + 0xdc00)" by (rule of_nat_add [symmetric])
  finally have "(pair_code ch ch2 AND 0x3ff) + 0xdc00 = of_nat (unat ch2)" using b by simp
  then have 2: "(ucast ((pair_code ch ch2 AND 0x3ff) + 0xdc00) :: u16) = of_nat (unat ch2)"
    using narrow [of "unat ch2"] b by (simp only:) simp
  show "pair_of (pair_code ch ch2) = [ch, ch2]" by (simp add: pair_of_def 1 2)
qed

section \<open>Round trip\<close>

lemma bit_7_nonzero: "bit (x :: u8) 7 \<Longrightarrow> x \<noteq> 0"
  by auto

lemma one_byte:
  assumes "0 < ch" "(ch :: u16) \<le> 0x7f"
  shows "mutf8_chars (ucast ch # bs) = map_option (Cons ch) (mutf8_chars bs)" "(ucast ch :: u8) \<noteq> 0"
proof -
  have u: "unat ch < 2 ^ 7" using assms(2) by (simp add: word_le_nat_alt)
  have "\<not> bit (ucast ch :: u8) 7" using bits_below [OF u, of 7] by (simp add: bit_simps)
  moreover have "(ucast (ucast ch :: u8) :: u16) = ch"
  proof (rule bit_word_eqI)
    show "bit (ucast (ucast ch :: u8) :: u16) n = bit ch n" for n
      using bits_below [OF u, of n] by (cases "n < 7") (simp_all add: bit_simps not_less)
  qed
  ultimately show "mutf8_chars (ucast ch # bs) = map_option (Cons ch) (mutf8_chars bs)"
    by (simp add: test_bit8)
  show "(ucast ch :: u8) \<noteq> 0" using assms(1) \<open>ucast (ucast ch :: u8) = ch\<close> by auto
qed

lemma two_bytes:
  assumes "(ch :: u16) \<le> 0x7ff"
  shows "mutf8_chars (utf8_two ch @ bs) = map_option (Cons ch) (mutf8_chars bs)" "0 \<notin> set (utf8_two ch)"
proof -
  have "unat ch < 2 ^ 11" using assms by (simp add: word_le_nat_alt)
  from bits_below [OF this, of 11] show "mutf8_chars (utf8_two ch @ bs) = map_option (Cons ch) (mutf8_chars bs)"
    by (simp add: utf8_two_def test_bit8 bit_simps two_back [OF assms])
  have "bit (ucast (drop_bit 6 ch OR 0xc0) :: u8) 7" "bit (ucast ((ch AND 0x3f) OR 0x80) :: u8) 7" by (simp_all add: bit_simps)
  then show "0 \<notin> set (utf8_two ch)" by (auto simp: utf8_two_def)
qed

lemma three_bytes:
  "mutf8_chars (utf8_three ch @ bs) = map_option (Cons ch) (mutf8_chars bs)" "0 \<notin> set (utf8_three ch)"
proof -
  have "\<not> bit ch 16" by (auto dest: bit_imp_le_length)
  then show "mutf8_chars (utf8_three ch @ bs) = map_option (Cons ch) (mutf8_chars bs)"
    by (simp add: utf8_three_def test_bit8 bit_simps three_back)
  have "bit (ucast (drop_bit 12 ch OR 0xe0) :: u8) 7" "bit (ucast ((drop_bit 6 ch AND 0x3f) OR 0x80) :: u8) 7"
    "bit (ucast ((ch AND 0x3f) OR 0x80) :: u8) 7" by (simp_all add: bit_simps)
  then show "0 \<notin> set (utf8_three ch)" by (auto simp: utf8_three_def)
qed

lemma four_bytes:
  assumes "0xd800 \<le> ch" "ch \<le> 0xdbff" "0xdc00 \<le> ch2" "ch2 \<le> 0xdfff"
  shows "mutf8_chars (utf8_four (pair_code ch ch2) @ bs) = map_option (append [ch, ch2]) (mutf8_chars bs)"
    "0 \<notin> set (utf8_four (pair_code ch ch2))"
proof -
  note pb = pair_back [OF assms]
  show "mutf8_chars (utf8_four (pair_code ch ch2) @ bs) = map_option (append [ch, ch2]) (mutf8_chars bs)"
    by (simp add: utf8_four_def test_bit8 bit_simps four_back [OF pb(2)] pb(1))
  have "(ucast (x OR 0xf0) :: u8) \<noteq> 0" "(ucast (x OR 0x80) :: u8) \<noteq> 0" for x :: u32
    using bit_7_nonzero [of "ucast (x OR 0xf0)"] bit_7_nonzero [of "ucast (x OR 0x80)"] by (simp_all add: bit_simps)
  then show "0 \<notin> set (utf8_four (pair_code ch ch2))" by (auto simp: utf8_four_def)
qed

text \<open>One step of the loop, whichever of the four cases applies.\<close>

lemma utf8_step:
  obtains (plain) "0 < ch" "ch \<le> 0x7f" "utf8_loop (ch # rest) = ucast ch # utf8_loop rest"
      "CountUtf8Bytes (ch # rest) = 1 + CountUtf8Bytes rest"
  | (pair) ch2 rest' where "rest = ch2 # rest'" "0xd800 \<le> ch" "ch \<le> 0xdbff" "0xdc00 \<le> ch2" "ch2 \<le> 0xdfff"
      "utf8_loop (ch # rest) = utf8_four (pair_code ch ch2) @ utf8_loop rest'" "CountUtf8Bytes (ch # rest) = 4 + CountUtf8Bytes rest'"
  | (two) "ch \<le> 0x7ff" "utf8_loop (ch # rest) = utf8_two ch @ utf8_loop rest" "CountUtf8Bytes (ch # rest) = 2 + CountUtf8Bytes rest"
  | (three) "utf8_loop (ch # rest) = utf8_three ch @ utf8_loop rest" "CountUtf8Bytes (ch # rest) = 3 + CountUtf8Bytes rest"
proof (cases "0 < ch \<and> ch \<le> 0x7f")
  case True
  moreover from True have "ch \<noteq> 0 \<and> ch < 0x80" by (auto simp: word_less_nat_alt word_le_nat_alt)
  ultimately show ?thesis by (intro plain) simp_all
next
  case small: False
  then have s: "\<not> (ch \<noteq> 0 \<and> ch < 0x80)" by (auto simp: word_less_nat_alt word_le_nat_alt word_unat_eq_iff)
  show ?thesis
  proof (cases "\<exists>ch2 rest'. rest = ch2 # rest' \<and> 0xd800 \<le> ch \<and> ch \<le> 0xdbff \<and> 0xdc00 \<le> ch2 \<and> ch2 \<le> 0xdfff")
    case True
    then obtain ch2 rest' where p: "rest = ch2 # rest'" "0xd800 \<le> ch" "ch \<le> 0xdbff" "0xdc00 \<le> ch2" "ch2 \<le> 0xdfff" by blast
    then have "\<not> ch < 0x800" "ch < 0xdc00" "ch2 < 0xe000" by (simp_all add: word_less_nat_alt word_le_nat_alt)
    then have "CountUtf8Bytes (ch # rest) = 4 + CountUtf8Bytes rest'"
      using p(2,4) s by (simp only: p(1) CountUtf8Bytes.simps(2) [of ch] if_False if_True list.case simp_thms)
    moreover have "utf8_loop (ch # rest) = utf8_four (pair_code ch ch2) @ utf8_loop rest'"
      using p(2-5) small by (simp only: p(1) utf8_loop.simps(2) [of ch] if_False if_True list.case simp_thms)
    ultimately show ?thesis by (rule pair [OF p, rotated])
  next
    case False
    then have n: "utf8_loop (ch # rest) = (if ch > 0x07ff then utf8_three ch else utf8_two ch) @ utf8_loop rest"
    proof (cases rest)
      case Nil
      then show ?thesis using small by (simp only: utf8_loop.simps(2) [of ch] if_False list.case)
    next
      case (Cons ch2 rest')
      then have "\<not> ((ch \<ge> 0xd800 \<and> ch \<le> 0xdbff) \<and> ch2 \<ge> 0xdc00 \<and> ch2 \<le> 0xdfff)" using False by auto
      then show ?thesis using small Cons by (simp only: utf8_loop.simps(2) [of ch] if_False list.case)
    qed
    have le: "ch < 0x800 \<longleftrightarrow> ch \<le> 0x7ff" "ch < 0xdc00 \<longleftrightarrow> ch \<le> 0xdbff" "ch2 < 0xe000 \<longleftrightarrow> ch2 \<le> 0xdfff" for ch2 :: u16
      by (auto simp: word_less_nat_alt word_le_nat_alt)
    show ?thesis
    proof (cases "ch \<le> 0x7ff")
      case True
      then show ?thesis using n s le(1) by (intro two) (simp_all add: not_less [symmetric])
    next
      case False': False
      then have big: "\<not> ch < 0x800" by (simp add: le)
      have "CountUtf8Bytes (ch # rest) = 3 + CountUtf8Bytes rest"
      proof (cases rest)
        case Nil
        then show ?thesis by (simp only: CountUtf8Bytes.simps(2) [of ch] s big if_False list.case if_cancel)
      next
        case (Cons ch2 rest')
        then have "\<not> (ch2 \<ge> 0xdc00 \<and> ch2 < 0xe000)" if "ch \<ge> 0xd800 \<and> ch < 0xdc00" using False that unfolding le by blast
        then show ?thesis
          by (cases "ch \<ge> 0xd800 \<and> ch < 0xdc00") (simp_all only: Cons CountUtf8Bytes.simps(2) [of ch] s big if_False if_True list.case simp_thms)
      qed
      then show ?thesis using n False' by (intro three) (simp_all add: not_le)
    qed
  qed
qed

lemma utf8_loop_back:
  "mutf8_chars (utf8_loop cs) = Some cs \<and> 0 \<notin> set (utf8_loop cs) \<and> length (utf8_loop cs) = CountUtf8Bytes cs \<and>
   length cs \<le> CountUtf8Bytes cs \<and> (CountUtf8Bytes cs = length cs \<longrightarrow> utf8_loop cs = map ucast cs)"
proof (induction "length cs" arbitrary: cs rule: less_induct)
  case less
  show ?case
  proof (cases cs)
    case (Cons ch rest)
    have IH: "length xs < length cs \<Longrightarrow> mutf8_chars (utf8_loop xs) = Some xs \<and> 0 \<notin> set (utf8_loop xs) \<and>
        length (utf8_loop xs) = CountUtf8Bytes xs \<and> length xs \<le> CountUtf8Bytes xs \<and>
        (CountUtf8Bytes xs = length xs \<longrightarrow> utf8_loop xs = map ucast xs)" for xs
      by (rule less) 
    show ?thesis
    proof (cases rule: utf8_step [where ch = ch and rest = rest])
      case plain
      then show ?thesis using IH [of rest] one_byte(1) [OF plain(1,2), of "utf8_loop rest"] one_byte(2) [OF plain(1,2)] by (simp only: Cons) simp
    next
      case (pair ch2 rest')
      then show ?thesis
        using IH [of rest'] four_bytes(1) [OF pair(2-5), of "utf8_loop rest'"] four_bytes(2) [OF pair(2-5)] by (simp only: Cons) (simp add: utf8_four_def)
    next
      case two
      then show ?thesis using IH [of rest] two_bytes(1) [OF two(1), of "utf8_loop rest"] two_bytes(2) [OF two(1)] by (simp only: Cons) (simp add: utf8_two_def)
    next
      case three
      then show ?thesis using IH [of rest] three_bytes(1) [of ch "utf8_loop rest"] three_bytes(2) [of ch] by (simp only: Cons) (simp add: utf8_three_def)
    qed
  qed simp
qed

text \<open>C34: CountUtf8Bytes is the number of bytes that the conversion of a UTF-16 string to modified UTF-8 writes, whichever of its
  two loops runs; the bytes have no null byte, so that they make a C string, and decoding them gives the characters back, unpaired
  surrogates and the null character included.\<close>

theorem utf8_roundtrip:
  "mutf8_chars (ConvertUtf16ToModifiedUtf8 (CountUtf8Bytes cs) cs) = Some cs \<and>
   length (ConvertUtf16ToModifiedUtf8 (CountUtf8Bytes cs) cs) = CountUtf8Bytes cs \<and>
   0 \<notin> set (ConvertUtf16ToModifiedUtf8 (CountUtf8Bytes cs) cs)"
  using utf8_loop_back [of cs] by (auto simp: ConvertUtf16ToModifiedUtf8_def)

section \<open>Types of Java\<close>

text \<open>The types, their descriptors in a Dex file, their readable names, and the names that the runtime gives classes.\<close>

datatype java_type = JPrimitive char | JClass string | JArray java_type

fun descriptor_of :: "java_type \<Rightarrow> string" where
  "descriptor_of (JPrimitive ch) = [ch]"
| "descriptor_of (JClass s) = ''L'' @ replace_char (CHR ''.'') (CHR ''/'') s @ '';''"
| "descriptor_of (JArray t) = ''['' @ descriptor_of t"

fun readable_name :: "java_type \<Rightarrow> string" where
  "readable_name (JPrimitive ch) = (case primitive_name ch of Some s \<Rightarrow> s | None \<Rightarrow> [])"
| "readable_name (JClass s) = s"
| "readable_name (JArray t) = readable_name t @ ''[]''"

fun runtime_name :: "java_type \<Rightarrow> string" where
  "runtime_name (JClass s) = s"
| "runtime_name t = replace_char (CHR ''/'') (CHR ''.'') (descriptor_of t)"

fun java_ok :: "java_type \<Rightarrow> bool" where
  "java_ok (JPrimitive ch) = (primitive_name ch \<noteq> None)"
| "java_ok (JClass s) = (s \<noteq> [] \<and> hd s \<noteq> CHR ''['' \<and> CHR ''/'' \<notin> set s)"
| "java_ok (JArray t) = java_ok t"

fun java_dims :: "java_type \<Rightarrow> nat" where
  "java_dims (JArray t) = Suc (java_dims t)"
| "java_dims _ = 0"

fun java_base :: "java_type \<Rightarrow> java_type" where
  "java_base (JArray t) = java_base t"
| "java_base t = t"

lemma replace_back: "a \<notin> set s \<Longrightarrow> replace_char a b (replace_char b a s) = s"
  by (induction s) (auto simp: replace_char_def)

lemma descriptor_parts:
  "descriptor_of t = replicate (java_dims t) (CHR ''['') @ descriptor_of (java_base t)"
  "readable_name t = readable_name (java_base t) @ concat (replicate (java_dims t) ''[]'')"
  "java_ok t \<Longrightarrow> java_ok (java_base t)"
proof (induction t)
  case (JArray t)
  have "concat (replicate n ''[]'') @ ''[]'' = ''[]'' @ concat (replicate n ''[]'')" for n by (induction n) simp_all
  then show "readable_name (JArray t) = readable_name (java_base (JArray t)) @ concat (replicate (java_dims (JArray t)) ''[]'')"
    using JArray(2) by simp
qed simp_all

lemma array_prefix:
  assumes "x \<noteq> CHR ''[''"
  shows "takeWhile (\<lambda>x. x = CHR ''['') (replicate n (CHR ''['') @ x # xs) = replicate n (CHR ''['')"
    "dropWhile (\<lambda>x. x = CHR ''['') (replicate n (CHR ''['') @ x # xs) = x # xs"
  using assms by (induction n) simp_all

lemma primitive_chars: "primitive_name ch \<noteq> None \<Longrightarrow> ch \<noteq> CHR ''['' \<and> ch \<noteq> CHR ''L'' \<and> ch \<noteq> CHR ''/'' \<and> ch \<noteq> CHR ''.''"
  by (auto simp: primitive_name_def)

lemma pretty_base:
  assumes "java_ok t" "\<And>u. t \<noteq> JArray u"
  shows "AppendPrettyDescriptor (replicate n (CHR ''['') @ descriptor_of t) = Inr (readable_name t @ concat (replicate n ''[]''))"
proof (cases t)
  case (JPrimitive ch)
  then show ?thesis
    using assms(1) primitive_chars [of ch] by (auto simp: AppendPrettyDescriptor_def Let_def array_prefix)
next
  case (JClass s)
  have "replace_char (CHR ''/'') (CHR ''.'') (replace_char (CHR ''.'') (CHR ''/'') s @ '';'') = s @ '';''"
    using assms(1) JClass replace_back [of "CHR ''/''" s "CHR ''.''"] by (simp add: replace_char_def)
  then show ?thesis
    using JClass array_prefix [of "CHR ''L''"] by (simp add: AppendPrettyDescriptor_def Let_def drop_semicolon_def)
qed (use assms(2) in blast)

lemma pretty_descriptor: "java_ok t \<Longrightarrow> AppendPrettyDescriptor (descriptor_of t) = Inr (readable_name t)"
proof -
  assume "java_ok t"
  moreover have "java_base t \<noteq> JArray u" for u by (induction t) simp_all
  ultimately show ?thesis using pretty_base [of "java_base t" "java_dims t"] descriptor_parts [of t] by metis
qed



text \<open>The tables of primitive types agree with each other.\<close>

lemma primitive_tables:
  "Primitive_Descriptor ty = Some d \<Longrightarrow> Primitive_GetType (hd d) = ty \<and> length d = 1"
  "ty \<noteq> kPrimVoid \<Longrightarrow> ComponentSize ty = 2 ^ ComponentSizeShift ty"
  "Is64BitType ty \<longleftrightarrow> ComponentSize ty = 8"
  by (cases ty; auto simp: Primitive_GetType_def ComponentSizeShiftWidth_def kObjectReferenceSize_def Is64BitType_def)+

end
