(* ===== verification/DexItems.thy ===== *)
theory DexItems
  imports DexFile DexText
begin

unbundle bit_operations_syntax

text \<open>
  Code items of compact Dex files: the format as the runtime writes it, and that \<open>DecodeFields\<close> reads it back.
\<close>

section \<open>The format\<close>

text \<open>
  Four sizes of sixteen bits and the number of instructions: four bits of each size and eleven of the number are in the item,
  what is left in words before it, the first one nearest, each with a flag.
\<close>

record item_sizes =
  is_regs :: u16
  is_ins :: u16
  is_outs :: u16
  is_tries :: u16
  is_insns :: u32

definition big :: "u16 \<Rightarrow> u16" where "big x = x AND NOT 0xF"

definition local_regs :: "item_sizes \<Rightarrow> u16" where "local_regs s = is_regs s - is_ins s"

definition big_insns :: "item_sizes \<Rightarrow> u32" where "big_insns s = is_insns s AND NOT 0x7ff"

definition item_fields :: "item_sizes \<Rightarrow> u16" where
  "item_fields s = push_bit 12 (local_regs s AND 0xF) OR push_bit 8 (is_ins s AND 0xF) OR push_bit 4 (is_outs s AND 0xF) OR (is_tries s AND 0xF)"

definition item_flags :: "item_sizes \<Rightarrow> u16" where
  "item_flags s = push_bit 5 (ucast (is_insns s AND 0x7ff)) OR (if big_insns s \<noteq> 0 then 16 else 0) OR (if big (local_regs s) \<noteq> 0 then 1 else 0) OR
     (if big (is_ins s) \<noteq> 0 then 2 else 0) OR (if big (is_outs s) \<noteq> 0 then 4 else 0) OR (if big (is_tries s) \<noteq> 0 then 8 else 0)"

definition size_word :: "u16 \<Rightarrow> u16 list" where "size_word x = (if big x \<noteq> 0 then [big x] else [])"

definition item_words :: "item_sizes \<Rightarrow> u16 list" where
  "item_words s = (if big_insns s \<noteq> 0 then [ucast (big_insns s), ucast (drop_bit 16 (big_insns s))] else []) @
     size_word (local_regs s) @ size_word (is_ins s) @ size_word (is_outs s) @ size_word (is_tries s)"

text \<open>Words before an address, the nearest first.\<close>

fun words_before :: "core \<Rightarrow> nat \<Rightarrow> u64 \<Rightarrow> u16 list \<Rightarrow> bool" where
  "words_before c i p [] = True"
| "words_before c i p (w # ws) = (inside c i (p - 2) 4 \<and> target_word c (p - 2) 2 = ucast w \<and> words_before c i (p - 2) ws)"

definition holds_item :: "core \<Rightarrow> nat \<Rightarrow> u64 \<Rightarrow> item_sizes \<Rightarrow> bool" where
  "holds_item c i a s \<longleftrightarrow> inside c i a 4 \<and> target_word c a 2 = ucast (item_fields s) \<and> target_word c (a + 2) 2 = ucast (item_flags s) \<and>
     words_before c i a (item_words s)"

section \<open>Bits of the words\<close>

lemma flag_bits:
  "item_flags s AND kFlagPreHeaderInsnsSize \<noteq> 0 \<longleftrightarrow> big_insns s \<noteq> 0"
  "item_flags s AND kFlagPreHeaderRegistersSize \<noteq> 0 \<longleftrightarrow> big (local_regs s) \<noteq> 0"
  "item_flags s AND kFlagPreHeaderInsSize \<noteq> 0 \<longleftrightarrow> big (is_ins s) \<noteq> 0"
  "item_flags s AND kFlagPreHeaderOutsSize \<noteq> 0 \<longleftrightarrow> big (is_outs s) \<noteq> 0"
  "item_flags s AND kFlagPreHeaderTriesSize \<noteq> 0 \<longleftrightarrow> big (is_tries s) \<noteq> 0"
proof -
  have t: "w AND 2 ^ n \<noteq> 0 \<longleftrightarrow> bit w n" for w :: u16 and n using and_exp_eq_0_iff_not_bit [of w n] by simp
  have k: "kFlagPreHeaderInsnsSize = 2 ^ 4" "kFlagPreHeaderRegistersSize = 2 ^ 0" "kFlagPreHeaderInsSize = 2 ^ 1"
    "kFlagPreHeaderOutsSize = 2 ^ 2" "kFlagPreHeaderTriesSize = 2 ^ 3"
    by (simp_all add: kFlagPreHeaderInsnsSize_def kFlagPreHeaderRegistersSize_def kFlagPreHeaderInsSize_def kFlagPreHeaderOutsSize_def
        kFlagPreHeaderTriesSize_def)
  show "item_flags s AND kFlagPreHeaderInsnsSize \<noteq> 0 \<longleftrightarrow> big_insns s \<noteq> 0"
    "item_flags s AND kFlagPreHeaderRegistersSize \<noteq> 0 \<longleftrightarrow> big (local_regs s) \<noteq> 0"
    "item_flags s AND kFlagPreHeaderInsSize \<noteq> 0 \<longleftrightarrow> big (is_ins s) \<noteq> 0"
    "item_flags s AND kFlagPreHeaderOutsSize \<noteq> 0 \<longleftrightarrow> big (is_outs s) \<noteq> 0"
    "item_flags s AND kFlagPreHeaderTriesSize \<noteq> 0 \<longleftrightarrow> big (is_tries s) \<noteq> 0"
    unfolding k t by (simp_all add: item_flags_def bit_simps)
qed

lemma field_nibbles:
  "drop_bit 12 (item_fields s) AND 0xF = local_regs s AND 0xF" "drop_bit 8 (item_fields s) AND 0xF = is_ins s AND 0xF"
  "drop_bit 4 (item_fields s) AND 0xF = is_outs s AND 0xF" "item_fields s AND 0xF = is_tries s AND 0xF"
proof -
  have eq: "u = w" if "\<And>n. n < 16 \<Longrightarrow> bit u n = bit w n" for u w :: u16 using that by (intro bit_word_eqI) simp
  show "drop_bit 12 (item_fields s) AND 0xF = local_regs s AND 0xF" "drop_bit 8 (item_fields s) AND 0xF = is_ins s AND 0xF"
    "drop_bit 4 (item_fields s) AND 0xF = is_outs s AND 0xF" "item_fields s AND 0xF = is_tries s AND 0xF"
    by (rule eq, unfold less_bits, elim disjE; simp add: item_fields_def bit_simps)+
qed

lemma flags_insns: "(ucast (drop_bit 5 (item_flags s)) :: u32) = is_insns s AND 0x7ff"
proof (rule bit_word_eqI)
  fix n :: nat assume "n < LENGTH(32)"
  then have "n < 32" by simp
  then show "bit (ucast (drop_bit 5 (item_flags s)) :: u32) n = bit (is_insns s AND 0x7ff) n"
    unfolding less_bits by (elim disjE) (simp_all add: item_flags_def bit_simps)
qed

lemma parts_add:
  fixes x m :: "'a::len word"
  shows "(x AND m) + (x AND NOT m) = x"
proof -
  have "(x AND m) AND (x AND NOT m) = 0" "(x AND m) OR (x AND NOT m) = x" by (rule bit_word_eqI; auto simp: bit_simps)+
  then show ?thesis by (simp add: disjunctive_add_eq_or)
qed

lemma size_parts: "(x AND 0xF) + big x = x" "big x = 0 \<Longrightarrow> x AND 0xF = x"
  using parts_add [of x "0xF"] by (simp_all add: big_def)

lemma halves: "ucast (ucast r :: u16) + push_bit 16 (ucast (ucast (drop_bit 16 r) :: u16)) = (r :: u32)"
proof -
  let ?a = "ucast (ucast r :: u16) :: u32" and ?b = "push_bit 16 (ucast (ucast (drop_bit 16 r) :: u16)) :: u32"
  have "?a AND ?b = 0" by (rule bit_word_eqI) (auto simp: bit_simps)
  moreover have "?a OR ?b = r"
  proof (rule bit_word_eqI)
    fix n :: nat assume "n < LENGTH(32)"
    then show "bit (?a OR ?b) n = bit r n" by (cases "n < 16") (auto simp: bit_simps not_less)
  qed
  ultimately show ?thesis by (simp add: disjunctive_add_eq_or)
qed

lemma insns_parts:
  "(is_insns s AND 0x7ff) + ucast (ucast (big_insns s) :: u16) + push_bit 16 (ucast (ucast (drop_bit 16 (big_insns s)) :: u16)) = is_insns s"
  "big_insns s = 0 \<Longrightarrow> is_insns s AND 0x7ff = is_insns s"
  using parts_add [of "is_insns s" "0x7ff"] halves [of "big_insns s"] by (simp_all add: big_insns_def add.assoc)

section \<open>Reading back\<close>

lemma MovePtr_back:
  assumes vs: "valid_seg c i" and ins: "inside c i (p - 2) 4" and b: "b = None \<or> b = Some i"
  shows "MovePtr (- 2) c \<lparr>ref_vaddr = p, ref_block = b\<rparr> = Inr \<lparr>ref_vaddr = p - 2, ref_block = Some i\<rparr>"
proof -
  note seg = valid_segD [OF vs]
  have "inside c i (p - 2 + of_nat 2) (4 - 2)" using inside_shift(1) [OF vs ins, of 2] by simp
  then have at: "inside c i p 2" by simp
  have "virtualContains (blk c i) (p - 2)" using virtualContains_found [OF seg(1,2)] inside_found(1) [OF vs ins] by simp
  moreover have "p \<noteq> 0" using at by (simp add: inside_def)
  ultimately show ?thesis
    using b inside_found(1) [OF vs at] seg(3) by (auto simp: MovePtr_def Prepare_def FindLoadBlock_def)
qed

lemma preheader_word_before:
  assumes vs: "valid_seg c i" and w: "words_before c i p (w # ws)" and b: "b = None \<or> b = Some i"
  shows "preheader_word c \<lparr>ref_vaddr = p, ref_block = b\<rparr> = Inr (w, \<lparr>ref_vaddr = p - 2, ref_block = Some i\<rparr>)"
proof -
  have ins: "inside c i (p - 2) 4" and t: "target_word c (p - 2) 2 = ucast w" using w by simp_all
  have "valueNOf 2 (of_nat 0) c \<lparr>ref_vaddr = p - 2, ref_block = Some i\<rparr> = Inr (ucast w, \<lparr>ref_vaddr = p - 2, ref_block = Some i\<rparr>)"
    using uint16.get_at [OF vs ins, of 0 "Some i"] t by simp
  moreover have "(ucast (ucast w :: u64) :: u16) = w" by (rule bit_word_eqI) (simp add: bit_simps)
  ultimately show ?thesis using MovePtr_back [OF vs ins b] by (simp add: preheader_word_def)
qed

lemma preheader_size_before:
  assumes vs: "valid_seg c i" and w: "words_before c i p (size_word x @ ws)" and b: "b = None \<or> b = Some i"
    and flag: "flags AND flag \<noteq> 0 \<longleftrightarrow> big x \<noteq> 0"
  obtains p' b' where "preheader_size flags flag c (x AND 0xF, \<lparr>ref_vaddr = p, ref_block = b\<rparr>) = Inr (x, \<lparr>ref_vaddr = p', ref_block = b'\<rparr>)"
    "words_before c i p' ws" "b' = None \<or> b' = Some i"
proof (cases "big x = 0")
  case True
  then show ?thesis using that [of p b] flag w b size_parts(2) [OF True] by (simp add: preheader_size_def size_word_def)
next
  case False
  then have "words_before c i p (big x # ws)" using w by (simp add: size_word_def)
  then show ?thesis
    using that [of "p - 2" "Some i"] preheader_word_before [OF vs, of p "big x" ws b] b flag False size_parts(1) [of x]
    by (simp add: preheader_size_def)
qed

lemma preheader_insns_before:
  assumes vs: "valid_seg c i" and w: "words_before c i p (item_words s)" and b: "b = None \<or> b = Some i"
  obtains p' b' where "preheader_insns (item_flags s) c (is_insns s AND 0x7ff, \<lparr>ref_vaddr = p, ref_block = b\<rparr>) =
      Inr (is_insns s, \<lparr>ref_vaddr = p', ref_block = b'\<rparr>)" "b' = None \<or> b' = Some i"
    "words_before c i p' (size_word (local_regs s) @ size_word (is_ins s) @ size_word (is_outs s) @ size_word (is_tries s) @ [])"
proof (cases "big_insns s = 0")
  case True
  then show ?thesis
    using that [of p b] flag_bits(1) [of s] w b insns_parts(2) [OF True] by (simp add: preheader_insns_def item_words_def)
next
  case False
  let ?ws = "size_word (local_regs s) @ size_word (is_ins s) @ size_word (is_outs s) @ size_word (is_tries s)"
  have "words_before c i p (ucast (big_insns s) # ucast (drop_bit 16 (big_insns s)) # ?ws)" using w False by (simp add: item_words_def)
  note lo = preheader_word_before [OF vs this b] and rest = this
  then have "words_before c i (p - 2) (ucast (drop_bit 16 (big_insns s)) # ?ws)" by simp
  note hi = preheader_word_before [OF vs this, of "Some i"]
  show ?thesis
    using that [of "p - 2 - 2" "Some i"] lo hi rest flag_bits(1) [of s] False insns_parts(1) [of s] by (simp add: preheader_insns_def)
qed

lemma no_preheader:
  assumes "item_flags s AND kFlagPreHeaderCombined = 0"
  shows "big_insns s = 0 \<and> big (local_regs s) = 0 \<and> big (is_ins s) = 0 \<and> big (is_outs s) = 0 \<and> big (is_tries s) = 0"
proof -
  have z: "w AND (x OR y) = 0 \<longleftrightarrow> w AND x = 0 \<and> w AND y = 0" for w x y :: u16 by (auto simp: bit_eq_iff bit_simps)
  show ?thesis using assms flag_bits [of s] unfolding kFlagPreHeaderCombined_def z by simp
qed

lemma item_halves:
  assumes vs: "valid_seg c i" and item: "holds_item c i a s"
  shows "ref_value16 c 2 (new_memory_ref a) = Inr (item_flags s)" "ref_value16 c 0 (new_memory_ref a) = Inr (item_fields s)"
proof -
  have ins: "inside c i a 4" and t: "target_word c a 2 = ucast (item_fields s)" "target_word c (a + 2) 2 = ucast (item_flags s)"
    using item by (simp_all add: holds_item_def)
  have same: "(ucast (ucast w :: u64) :: u16) = w" for w :: u16 by (rule bit_word_eqI) (simp add: bit_simps)
  show "ref_value16 c 2 (new_memory_ref a) = Inr (item_flags s)" "ref_value16 c 0 (new_memory_ref a) = Inr (item_fields s)"
    using uint16.get_at [OF vs ins, of 2 None] uint16.get_at [OF vs ins, of 0 None] t same
    by (simp_all add: ref_value16_def new_memory_ref_def)
qed

text \<open>C33: decoding the header of a compact code item gives the sizes and the number of instructions that the runtime wrote, whether
  they fit in the bits of the two words of the item or are continued in words before it. The item and these words lie in the
  stored contents of one segment.\<close>

theorem Compact_DecodeFields_roundtrip:
  assumes vs: "valid_seg c i" and item: "holds_item c i a s"
  shows "Compact_DecodeFields c a = Inr \<lparr>num_regs = is_regs s, out_regs = is_outs s, insns_count = is_insns s, ci_ins_size = is_ins s,
    ci_tries_size = is_tries s, ci_code_offset = 4\<rparr>"
proof (cases "item_flags s AND kFlagPreHeaderCombined = 0")
  case True
  note z = no_preheader [OF True]
  have "Compact_DecodeFields c a = Inr \<lparr>num_regs = local_regs s + is_ins s, out_regs = is_outs s, insns_count = is_insns s, ci_ins_size = is_ins s,
    ci_tries_size = is_tries s, ci_code_offset = 4\<rparr>"
    using True z by (simp add: Compact_DecodeFields_def item_halves [OF vs item] Let_def flags_insns field_nibbles insns_parts(2) size_parts(2))
  then show ?thesis by (simp add: local_regs_def)
next
  case False
  have w: "words_before c i a (item_words s)" using item by (simp add: holds_item_def)
  obtain p1 b1 where s1: "preheader_insns (item_flags s) c (is_insns s AND 0x7ff, \<lparr>ref_vaddr = a, ref_block = None\<rparr>) =
      Inr (is_insns s, \<lparr>ref_vaddr = p1, ref_block = b1\<rparr>)" "b1 = None \<or> b1 = Some i"
    "words_before c i p1 (size_word (local_regs s) @ size_word (is_ins s) @ size_word (is_outs s) @ size_word (is_tries s) @ [])"
    by (rule preheader_insns_before [OF vs w, of None]) simp_all
  obtain p2 b2 where s2: "preheader_size (item_flags s) kFlagPreHeaderRegistersSize c (local_regs s AND 0xF, \<lparr>ref_vaddr = p1, ref_block = b1\<rparr>) =
      Inr (local_regs s, \<lparr>ref_vaddr = p2, ref_block = b2\<rparr>)"
    "words_before c i p2 (size_word (is_ins s) @ size_word (is_outs s) @ size_word (is_tries s) @ [])" "b2 = None \<or> b2 = Some i"
    by (rule preheader_size_before [OF vs s1(3,2) flag_bits(2)])
  obtain p3 b3 where s3: "preheader_size (item_flags s) kFlagPreHeaderInsSize c (is_ins s AND 0xF, \<lparr>ref_vaddr = p2, ref_block = b2\<rparr>) =
      Inr (is_ins s, \<lparr>ref_vaddr = p3, ref_block = b3\<rparr>)"
    "words_before c i p3 (size_word (is_outs s) @ size_word (is_tries s) @ [])" "b3 = None \<or> b3 = Some i"
    by (rule preheader_size_before [OF vs s2(2,3) flag_bits(3)])
  obtain p4 b4 where s4: "preheader_size (item_flags s) kFlagPreHeaderOutsSize c (is_outs s AND 0xF, \<lparr>ref_vaddr = p3, ref_block = b3\<rparr>) =
      Inr (is_outs s, \<lparr>ref_vaddr = p4, ref_block = b4\<rparr>)"
    "words_before c i p4 (size_word (is_tries s) @ [])" "b4 = None \<or> b4 = Some i"
    by (rule preheader_size_before [OF vs s3(2,3) flag_bits(4)])
  obtain p5 b5 where s5: "preheader_size (item_flags s) kFlagPreHeaderTriesSize c (is_tries s AND 0xF, \<lparr>ref_vaddr = p4, ref_block = b4\<rparr>) =
      Inr (is_tries s, \<lparr>ref_vaddr = p5, ref_block = b5\<rparr>)"
    by (rule preheader_size_before [OF vs s4(2,3) flag_bits(5)])
  have "preheader_insns (item_flags s) c (is_insns s AND 0x7ff, new_memory_ref a) = Inr (is_insns s, \<lparr>ref_vaddr = p1, ref_block = b1\<rparr>)"
    using s1(1) by (simp only: new_memory_ref_def)
  moreover have "local_regs s + is_ins s = is_regs s" by (simp add: local_regs_def)
  ultimately show ?thesis
    using False by (simp add: Compact_DecodeFields_def item_halves [OF vs item] Let_def flags_insns field_nibbles s2(1) s3(1) s4(1) s5)
qed

definition demo_item :: item_sizes where
  "demo_item = \<lparr>is_regs = 40, is_ins = 3, is_outs = 20, is_tries = 2, is_insns = 0x12345\<rparr>"

definition demo_item_bytes :: "u8 list" where
  "demo_item_bytes = [0x10, 0, 0x20, 0, 1, 0, 0, 0x20, 0x42, 0x53, 0xB5, 0x68]"

lemma demo_item_held: "holds_item (flat_core EM_AARCH64 0x1000 demo_item_bytes) 0 0x1008 demo_item"
proof -
  let ?c = "flat_core EM_AARCH64 0x1000 demo_item_bytes"
  have fit: "flat_fits 0x1000 demo_item_bytes" by (simp add: flat_fits_def demo_item_bytes_def)
  have l: "length demo_item_bytes = 12" by (simp add: demo_item_bytes_def)
  have ins: "inside ?c 0 0x1008 4" "inside ?c 0 0x1006 4" "inside ?c 0 0x1004 4" "inside ?c 0 0x1002 4" "inside ?c 0 0x1000 4"
    using flat_inside [OF fit, of 4 8] flat_inside [OF fit, of 4 6] flat_inside [OF fit, of 4 4] flat_inside [OF fit, of 4 2]
      flat_inside [OF fit, of 4 0] l by simp_all
  have t: "target_word ?c (0x1000 + of_nat k) 2 = le_word (take 2 (drop k demo_item_bytes))" if "k + 2 \<le> 12" for k
    using flat_word [OF fit, of k 2] that l by simp
  have words: "target_word ?c 0x1008 2 = 0x5342" "target_word ?c 0x100A 2 = 0x68B5" "target_word ?c 0x1006 2 = 0x2000"
      "target_word ?c 0x1004 2 = 1" "target_word ?c 0x1002 2 = 0x20" "target_word ?c 0x1000 2 = 0x10"
    using t [of 8] t [of 10] t [of 6] t [of 4] t [of 2] t [of 0] by (simp_all add: demo_item_bytes_def le_word_def)
  have item: "item_fields demo_item = 0x5342" "item_flags demo_item = 0x68B5" "item_words demo_item = [0x2000, 1, 0x20, 0x10]"
    by (simp_all add: item_fields_def item_flags_def item_words_def size_word_def big_def big_insns_def local_regs_def demo_item_def)
  show ?thesis by (simp add: holds_item_def item words ins)
qed

theorem Compact_DecodeFields_roundtrip_witness:
  "Compact_DecodeFields (flat_core EM_AARCH64 0x1000 demo_item_bytes) 0x1008 =
     Inr \<lparr>num_regs = 40, out_regs = 20, insns_count = 0x12345, ci_ins_size = 3, ci_tries_size = 2, ci_code_offset = 4\<rparr>"
proof -
  have "flat_fits 0x1000 demo_item_bytes" by (simp add: flat_fits_def demo_item_bytes_def)
  from Compact_DecodeFields_roundtrip [OF flat_valid_seg [OF this] demo_item_held] show ?thesis by (simp add: demo_item_def)
qed

end
