(* ===== verification/DexSigs.thy ===== *)
theory DexSigs
  imports DexItems BitCodes NoteRead
begin

unbundle bit_operations_syntax

text \<open>
  Strings, types and signatures read from the tables of a Dex file: a table of a well-formed file gives
  the string, the descriptor and the parameters that it holds.
\<close>

section \<open>Bytes in a segment\<close>

definition shown :: "core \<Rightarrow> nat \<Rightarrow> u64 \<Rightarrow> u8 list \<Rightarrow> bool" where
  "shown c i a bs \<longleftrightarrow> inside c i a (length bs) \<and> (\<forall>j<length bs. core_byte c (a + of_nat j) = Some (bs ! j))"

lemma begin_bound:
  assumes "block_ok h b"
  shows "unat (LoadBlock_begin OPT_READ_ALL b) + backed_size b \<le> 2 ^ 64"
proof -
  have m: "unat (mm_begin m) + unat (mm_max m) \<le> 2 ^ 64" if "map_ok h (mMemSize b) m" for m
    using that by (simp add: map_ok_def word_le_nat_alt)
  have ov: "map_ok h (mMemSize b) x" if "mOverlay b = Some x \<or> mMmap b = Some x" for x using assms that by (auto simp: block_ok_def)
  have ori: "unat (mOriAddr b) + unat (mFileSize b) \<le> 2 ^ 64" if "mOriAddr b \<noteq> 0" using assms that by (simp add: block_ok_def)
  show ?thesis
  proof (cases "mOverlay b")
    case (Some x)
    then show ?thesis using m [OF ov] by (simp add: LoadBlock_begin_all backed_size_def)
  next
    case none: None
    show ?thesis
    proof (cases "mMmap b")
      case (Some x)
      then show ?thesis using m [OF ov] none by (simp add: LoadBlock_begin_all backed_size_def)
    next
      case None
      then show ?thesis using none ori by (cases "mOriAddr b = 0") (simp_all add: LoadBlock_begin_all backed_size_def)
    qed
  qed
qed

lemma shown_host:
  assumes vs: "valid_seg c i" and sh: "shown c i a bs"
  obtains real r where "Real c (new_memory_ref a) = Inr (real, r)" "stored_at (mem c) real bs" "unat real + length bs \<le> 2 ^ 64"
proof -
  note seg = valid_segD [OF vs]
  have ins: "inside c i a (length bs)" and at: "\<And>j. j < length bs \<Longrightarrow> core_byte c (a + of_nat j) = Some (bs ! j)"
    using sh by (simp_all add: shown_def)
  obtain real where real: "Real c (new_memory_ref a) = Inr (real, (new_memory_ref a)\<lparr>ref_block := Some i\<rparr>)"
    "host_read (mem c) real (length bs) = Inr (map (\<lambda>j. the (core_byte c (a + of_nat j))) [0..<length bs])"
    using Real_inside [OF vs ref_ok_new, of a "length bs"] ins by (auto simp: new_memory_ref_def)
  have "map (\<lambda>j. the (core_byte c (a + of_nat j))) [0..<length bs] = bs" by (rule nth_equalityI) (simp_all add: at)
  then have st: "stored_at (mem c) real bs" using real(2) by (simp add: stored_at_read)
  note f = inside_found [OF vs ins]
  have has: "block_has (blk c i) a" using core_ok_block(6) [OF seg(1) f(1)] f(2) by simp
  note off = block_has_offset [OF block_ok_no_wrap [OF seg(4)] has]
  have "real = LoadBlock_begin OPT_READ_ALL (blk c i) + (a - mVaddr (blk c i))"
    using real(1) Real_eq_GetReal [OF seg(1) ref_ok_new, of a] v2r_found [OF seg(1) f(1) seg(3)] f(2) ins
    by (simp add: new_memory_ref_def inside_def)
  then have "unat real \<le> unat (LoadBlock_begin OPT_READ_ALL (blk c i)) + (unat a - unat (mVaddr (blk c i)))"
    unfolding off(1) [symmetric] by (simp add: unat_word_ariths)
  then have "unat real + length bs \<le> 2 ^ 64" using begin_bound [OF seg(4)] ins unfolding inside_def by linarith
  then show ?thesis using that real(1) st by blast
qed

section \<open>Well-formed tables\<close>

text \<open>The members of an \<open>art::DexFile\<close>.\<close>

record dex_bases =
  db_strings :: u64
  db_types :: u64
  db_protos :: u64
  db_data :: u64

definition dex_opened :: "core \<Rightarrow> dex_offsets \<Rightarrow> u64 \<Rightarrow> dex_bases \<Rightarrow> bool" where
  "dex_opened c ofs df d \<longleftrightarrow>
     dex_member df_string_ids c ofs df = Inr (db_strings d) \<and> dex_member df_type_ids c ofs df = Inr (db_types d) \<and>
     dex_member df_proto_ids c ofs df = Inr (db_protos d) \<and> dex_member df_data_begin c ofs df = Inr (db_data d)"

text \<open>Entry \<open>k\<close> of the strings: an offset to the length as LEB128 and the characters.\<close>

definition has_string :: "core \<Rightarrow> nat \<Rightarrow> dex_bases \<Rightarrow> u32 \<Rightarrow> string \<Rightarrow> bool" where
  "has_string c i d k s \<longleftrightarrow> k \<noteq> - 1 \<and> no_nul s \<and>
     (\<exists>off len. inside c i (db_strings d + ucast (4 * k)) 4 \<and> target_word c (db_strings d + ucast (4 * k)) 4 = ucast (off :: u32) \<and>
        shown c i (db_data d + ucast off) (leb_bytes len @ str_bytes s @ [0]))"

definition has_type :: "core \<Rightarrow> nat \<Rightarrow> dex_bases \<Rightarrow> u16 \<Rightarrow> string \<Rightarrow> bool" where
  "has_type c i d k s \<longleftrightarrow>
     (\<exists>sidx. inside c i (db_types d + ucast (4 * ucast k :: u32)) 4 \<and>
        target_word c (db_types d + ucast (4 * ucast k :: u32)) 4 = ucast (sidx :: u32) \<and> has_string c i d sidx s)"

text \<open>A list of types: their number and their indices.\<close>

definition has_type_list :: "core \<Rightarrow> nat \<Rightarrow> dex_bases \<Rightarrow> u64 \<Rightarrow> u16 list \<Rightarrow> bool" where
  "has_type_list c i d a ids \<longleftrightarrow> inside c i a (4 + 2 * length ids) \<and> length ids < 2 ^ 31 \<and> target_word c a 4 = of_nat (length ids) \<and>
     (\<forall>k<length ids. target_word c (a + of_nat (4 + 2 * k)) 2 = ucast (ids ! k))"

text \<open>A prototype with its parameters, and a method with its prototype.\<close>

definition has_params :: "core \<Rightarrow> nat \<Rightarrow> dex_bases \<Rightarrow> u64 \<Rightarrow> java_type list \<Rightarrow> bool" where
  "has_params c i d p ts \<longleftrightarrow> inside c i p 12 \<and>
     (\<exists>off ids. target_word c (p + 8) 4 = ucast (off :: u32) \<and> (off = 0 \<and> ts = [] \<or>
        off \<noteq> 0 \<and> has_type_list c i d (db_data d + ucast off) ids \<and> length ids = length ts \<and>
        (\<forall>k<length ids. has_type c i d (ids ! k) (descriptor_of (ts ! k)))))"

definition has_proto :: "core \<Rightarrow> nat \<Rightarrow> dex_bases \<Rightarrow> u64 \<Rightarrow> java_type list \<Rightarrow> bool" where
  "has_proto c i d m ts \<longleftrightarrow> inside c i m 8 \<and>
     (\<exists>k :: u16. target_word c (m + 2) 2 = ucast k \<and> has_params c i d (db_protos d + ucast (12 * ucast k :: u32)) ts)"

section \<open>Reading the tables\<close>

lemma valid_at:
  assumes "valid_seg c i" "inside c i a n"
  shows "is_valid_at c a = Inr True"
  using Ref_IsValid_inside [OF assms(1) ref_ok_new, of a n] assms(2) by (simp add: is_valid_at_def new_memory_ref_def)

lemma value32_at:
  assumes "valid_seg c i" "inside c i a n" "k + 4 \<le> n" "target_word c (a + of_nat k) 4 = ucast (w :: u32)"
  shows "ref_value32 c (of_nat k) (new_memory_ref a) = Inr w"
proof -
  have "(ucast (ucast w :: u64) :: u32) = w" by (rule bit_word_eqI) (simp add: bit_simps)
  then show ?thesis using uint32.get_at [OF assms(1-3), of None] assms(4) by (simp add: ref_value32_def new_memory_ref_def)
qed

lemma value16_at:
  assumes "valid_seg c i" "inside c i a n" "k + 2 \<le> n" "target_word c (a + of_nat k) 2 = ucast (w :: u16)"
  shows "ref_value16 c (of_nat k) (new_memory_ref a) = Inr w"
proof -
  have "(ucast (ucast w :: u64) :: u16) = w" by (rule bit_word_eqI) (simp add: bit_simps)
  then show ?thesis using uint16.get_at [OF assms(1-3), of None] assms(4) by (simp add: ref_value16_def new_memory_ref_def)
qed

lemma stored_host_holds: "stored_at h a bs = host_holds h a bs"
  by (simp add: stored_at_def host_holds_def)

lemma string_read:
  assumes vs: "valid_seg c i" and d: "dex_opened c ofs df d" and s: "has_string c i d k s"
  shows "StringDataByIdx c ofs df k def = Inr s"
proof -
  let ?a = "db_strings d + ucast (4 * k)"
  obtain off len where e: "inside c i ?a 4" "target_word c ?a 4 = ucast (off :: u32)"
    and sh: "shown c i (db_data d + ucast off) (leb_bytes len @ str_bytes s @ [0])" and nn: "no_nul s" "k \<noteq> - 1"
    using s by (auto simp: has_string_def)
  obtain real r where real: "Real c (new_memory_ref (db_data d + ucast off)) = Inr (real, r)"
      "stored_at (mem c) real (leb_bytes len @ str_bytes s @ [0])" "unat real + length (leb_bytes len @ str_bytes s @ [0 :: u8]) \<le> 2 ^ 64"
    by (rule shown_host [OF vs sh])
  let ?l = "length (leb_bytes len)"
  have leb: "DecodeUnsignedLeb128 (mem c) real = Inr (len, real + of_nat ?l)"
  proof (rule DecodeUnsignedLeb128_run)
    have "stored_at (mem c) real (leb_bytes len)" using real(2) by (simp add: stored_at_append)
    then show "host_holds (mem c) real (leb_bytes len)" by (simp add: stored_host_holds)
  qed
  have b: "unat real + ?l + length s < 2 ^ 64" using real(3) by (simp add: str_bytes_def)
  have u: "unat (real + of_nat ?l) \<le> unat real + ?l"
    using b by (subst unat_add_no_wrap) (simp_all add: unat_of_nat take_bit_nat_eq_self)
  have "c_string (mem c) (real + of_nat ?l) = Inr s"
  proof (rule c_string_stored [OF _ nn(1)])
    show "stored_at (mem c) (real + of_nat ?l) (str_bytes s @ [0])" using real(2) by (simp add: stored_at_append)
    show "unat (real + of_nat ?l) + length s < 2 ^ 64" using b u by linarith
  qed
  moreover have "StringId_string_data_off c ?a = Inr off"
    using value32_at [OF vs e(1), of 0 off] e(2) by (simp add: StringId_string_data_off_def)
  moreover have "GetStringId c ofs df k = Inr ?a" using d by (simp add: GetStringId_def dex_table_def dex_opened_def StringId_SIZE_def)
  ultimately show ?thesis
    using d nn(2) real(1) leb valid_at [OF vs e(1)]
    by (simp add: StringDataByIdx_def StringDataAndUtf16LengthByIdx_def GetStringDataAndUtf16Length_def dex_opened_def)
qed

lemma type_read:
  assumes vs: "valid_seg c i" and d: "dex_opened c ofs df d" and t: "has_type c i d k s"
  obtains a where "GetTypeId c ofs df k = Inr a" "\<And>def. GetTypeDescriptor c ofs df a def = Inr s"
proof -
  let ?a = "db_types d + ucast (4 * ucast k :: u32)"
  obtain sidx where e: "inside c i ?a 4" "target_word c ?a 4 = ucast (sidx :: u32)" "has_string c i d sidx s"
    using t by (auto simp: has_type_def)
  have "TypeId_descriptor_idx c ?a = Inr sidx" using value32_at [OF vs e(1), of 0 sidx] e(2) by (simp add: TypeId_descriptor_idx_def)
  then have "GetTypeDescriptor c ofs df ?a def = Inr s" for def
    using string_read [OF vs d e(3)] valid_at [OF vs e(1)] by (simp add: GetTypeDescriptor_def if_valid_def)
  moreover have "GetTypeId c ofs df k = Inr ?a" using d by (simp add: GetTypeId_def dex_table_def dex_opened_def TypeId_SIZE_def)
  ultimately show ?thesis using that by blast
qed

section \<open>Signatures\<close>

definition comma_join :: "string list \<Rightarrow> string" where
  "comma_join xs = (case xs of [] \<Rightarrow> [] | x # ys \<Rightarrow> x @ concat (map (\<lambda>y. '', '' @ y) ys))"

lemma list_item:
  assumes vs: "valid_seg c i" and l: "has_type_list c i d a ids" and k: "k < length ids"
  shows "ref_value16 c (ucast (of_nat k * TypeItem_SIZE)) (new_memory_ref (TypeList_list a)) = Inr (ids ! k)"
proof -
  have ins: "inside c i a (4 + 2 * length ids)" and t: "target_word c (a + of_nat (4 + 2 * k)) 2 = ucast (ids ! k)" and n: "length ids < 2 ^ 31"
    using l k by (simp_all add: has_type_list_def)
  have "inside c i (a + of_nat 4) (4 + 2 * length ids - 4)" using k by (intro inside_shift(1) [OF vs ins]) linarith
  then have ins': "inside c i (TypeList_list a) (2 * length ids)" by (simp add: TypeList_list_def)
  have "of_nat k * TypeItem_SIZE = of_nat (2 * k)" by (simp add: TypeItem_SIZE_def)
  moreover have "2 * k < 2 ^ 32" using k n by simp
  ultimately have "ucast (of_nat k * TypeItem_SIZE) = (of_nat (2 * k) :: u64)"
    by (simp only: unsigned_of_nat take_bit_nat_eq_self) (simp add: take_bit_nat_eq_self)
  moreover have "target_word c (TypeList_list a + of_nat (2 * k)) 2 = ucast (ids ! k)"
    using t by (simp add: TypeList_list_def add.assoc)
  ultimately show ?thesis using value16_at [OF vs ins', of "2 * k" "ids ! k"] k by simp
qed

lemma descriptors_read:
  assumes vs: "valid_seg c i" and d: "dex_opened c ofs df d" and l: "has_type_list c i d a ids"
    and ty: "\<forall>k<length ids. has_type c i d (ids ! k) (names ! k)" "length names = length ids" and k: "k \<le> length ids"
  shows "type_descriptors (length ids - k) (of_nat k) c ofs df (TypeList_list a) = Inr (concat (drop k names))"
  using k
proof (induction "length ids - k" arbitrary: k)
  case (Suc m)
  then have lt: "k < length ids" by simp
  obtain t where t: "GetTypeId c ofs df (ids ! k) = Inr t" "\<And>def. GetTypeDescriptor c ofs df t def = Inr (names ! k)"
    using type_read [OF vs d] ty(1) lt by blast
  have "type_descriptors (length ids - Suc k) (of_nat (Suc k)) c ofs df (TypeList_list a) = Inr (concat (drop (Suc k) names))"
    using Suc lt by (intro Suc.hyps(1)) simp_all
  moreover have "drop k names = names ! k # drop (Suc k) names" using lt ty(2) by (simp add: Cons_nth_drop_Suc)
  moreover have "length ids - k = Suc (length ids - Suc k)" using lt by simp
  ultimately show ?case using t list_item [OF vs l lt] by (simp add: add.commute)
qed (simp add: ty(2))

lemma pretty_read:
  assumes vs: "valid_seg c i" and d: "dex_opened c ofs df d" and l: "has_type_list c i d a ids"
    and ty: "\<forall>k<length ids. has_type c i d (ids ! k) (descriptor_of (ts ! k))" "length ts = length ids"
    and ok: "\<forall>t\<in>set ts. java_ok t" and k: "k \<le> length ids"
  shows "pretty_types (length ids - k) (of_nat k) c ofs df (TypeList_list a) =
    Inr (if k = 0 then comma_join (map readable_name ts) else concat (map (\<lambda>t. '', '' @ readable_name t) (drop k ts)))"
  using k
proof (induction "length ids - k" arbitrary: k)
  case 0
  then show ?case using ty(2) by (auto simp: comma_join_def)
next
  case (Suc m)
  then have lt: "k < length ids" by simp
  obtain t where t: "GetTypeId c ofs df (ids ! k) = Inr t" "\<And>def. GetTypeDescriptor c ofs df t def = Inr (descriptor_of (ts ! k))"
    using type_read [OF vs d] ty(1) lt by blast
  have p: "AppendPrettyDescriptor (descriptor_of (ts ! k)) = Inr (readable_name (ts ! k))" using ok ty(2) lt by (intro pretty_descriptor) simp
  have n: "(of_nat k :: u32) > 0 \<longleftrightarrow> k \<noteq> 0"
  proof -
    have "k < 2 ^ 32" using lt l by (simp add: has_type_list_def)
    then have "unat (of_nat k :: u32) = k" by (simp add: unat_of_nat take_bit_nat_eq_self)
    then show ?thesis by (metis unat_gt_0 word_gt_0 neq0_conv)
  qed
  have "pretty_types (length ids - Suc k) (of_nat (Suc k)) c ofs df (TypeList_list a) =
      Inr (concat (map (\<lambda>t. '', '' @ readable_name t) (drop (Suc k) ts)))"
    using Suc.hyps(1) [of "Suc k"] Suc.hyps(2) lt by simp
  moreover have dk: "drop k ts = ts ! k # drop (Suc k) ts" using lt ty(2) by (simp add: Cons_nth_drop_Suc)
  moreover have "length ids - k = Suc (length ids - Suc k)" using lt by simp
  ultimately have "pretty_types (length ids - k) (of_nat k) c ofs df (TypeList_list a) =
      Inr ((if k \<noteq> 0 then '', '' else []) @ readable_name (ts ! k) @ concat (map (\<lambda>t. '', '' @ readable_name t) (drop (Suc k) ts)))"
    using t p n list_item [OF vs l lt] by (simp add: add.commute)
  moreover have "comma_join (map readable_name ts) = readable_name (ts ! k) @ concat (map (\<lambda>t. '', '' @ readable_name t) (drop (Suc k) ts))"
    if "k = 0" using dk that by (cases ts) (simp_all add: comma_join_def comp_def)
  ultimately show ?case using dk by (cases "k = 0") simp_all
qed

section \<open>A small Dex file\<close>

text \<open>Its \<open>art::DexFile\<close>, two strings, two types, a prototype with both as parameters, a method, the list, the characters.\<close>

definition demo_dex_bytes :: "u8 list" where
  "demo_dex_bytes = [0, 0, 0, 0, 0, 0, 0, 0, 0, 0, 0, 0, 0, 0, 0, 0, 0, 0, 0, 0, 0, 0, 0, 0, 0, 16, 0, 0, 0, 0, 0, 0, 0, 0, 0, 0,
     0, 0, 0, 0, 0, 0, 0, 0, 0, 0, 0, 0, 0, 0, 0, 0, 0, 0, 0, 0, 0, 0, 0, 0, 0, 0, 0, 0, 0, 0, 0, 0, 0, 0, 0, 0, 0,
     0, 0, 0, 0, 0, 0, 0, 120, 16, 0, 0, 0, 0, 0, 0, 128, 16, 0, 0, 0, 0, 0, 0, 0, 0, 0, 0, 0, 0, 0, 0, 0, 0, 0, 0,
     0, 0, 0, 0, 136, 16, 0, 0, 0, 0, 0, 0, 164, 0, 0, 0, 167, 0, 0, 0, 0, 0, 0, 0, 1, 0, 0, 0, 0, 0, 0, 0, 0, 0,
     0, 0, 156, 0, 0, 0, 0, 0, 0, 0, 0, 0, 0, 0, 2, 0, 0, 0, 0, 0, 1, 0, 1, 73, 0, 2, 91, 66, 0]"

definition demo_dex :: core where "demo_dex = flat_core EM_AARCH64 0x1000 demo_dex_bytes"

definition demo_bases :: dex_bases where
  "demo_bases = \<lparr>db_strings = 0x1078, db_types = 0x1080, db_protos = 0x1088, db_data = 0x1000\<rparr>"

lemma demo_dex_fits: "flat_fits 0x1000 demo_dex_bytes" "length demo_dex_bytes = 171"
  by (simp_all add: flat_fits_def demo_dex_bytes_def)

lemma demo_dex_seg: "valid_seg demo_dex 0"
  unfolding demo_dex_def by (rule flat_valid_seg [OF demo_dex_fits(1)])

lemma demo_dex_inside: "0 < n \<Longrightarrow> k + n \<le> 171 \<Longrightarrow> inside demo_dex 0 (0x1000 + of_nat k) n"
  unfolding demo_dex_def by (rule flat_inside [OF demo_dex_fits(1)]) (simp_all add: demo_dex_fits(2))

lemma demo_dex_word: "k + n \<le> 171 \<Longrightarrow> target_word demo_dex (0x1000 + of_nat k) n = le_word (take n (drop k demo_dex_bytes))"
  unfolding demo_dex_def by (rule flat_word [OF demo_dex_fits(1)]) (simp_all add: demo_dex_fits(2))

lemma demo_dex_shown:
  assumes "0 < length bs" "k + length bs \<le> 171" "take (length bs) (drop k demo_dex_bytes) = bs"
  shows "shown demo_dex 0 (0x1000 + of_nat k) bs"
  unfolding shown_def
proof (intro conjI allI impI)
  show "inside demo_dex 0 (0x1000 + of_nat k) (length bs)" using assms by (intro demo_dex_inside)
  fix j assume j: "j < length bs"
  have "core_byte demo_dex (0x1000 + of_nat (k + j)) = Some (demo_dex_bytes ! (k + j))"
    unfolding demo_dex_def using j assms(2) by (intro flat_byte [OF demo_dex_fits(1)]) (simp_all add: demo_dex_fits(2))
  moreover have "bs ! j = demo_dex_bytes ! (k + j)"
    using j assms(2) by (subst assms(3) [symmetric]) (simp add: demo_dex_fits(2))
  ultimately show "core_byte demo_dex (0x1000 + of_nat k + of_nat j) = Some (bs ! j)" by (simp add: add.assoc)
qed

lemma demo_dex_member:
  assumes "unat (fld ofs) + 8 \<le> 171" "le_word (take 8 (drop (unat (fld ofs)) demo_dex_bytes)) = w"
  shows "dex_member fld demo_dex ofs 0x1000 = Inr w"
proof -
  have ins: "inside demo_dex 0 0x1000 171" using demo_dex_inside [of 171 0] by simp
  have mask: "mPointMask (blk demo_dex 0) = - 1" by (simp add: demo_dex_def flat_defs)
  have "valueOf (of_nat (unat (fld ofs))) demo_dex (new_memory_ref 0x1000) = Inr (w, \<lparr>ref_vaddr = 0x1000, ref_block = Some 0\<rparr>)"
    using pointer.get_at [OF demo_dex_seg ins assms(1), of None] demo_dex_word [OF assms(1)] assms(2) mask
    by (simp add: new_memory_ref_def masked_word_def)
  then show ?thesis by (simp add: dex_member_def ref_value_def)
qed

text \<open>C32: for a method whose prototype in the tables of a Dex file has the parameter types ts, GetMethodParametersDescriptor is the
  sequence of their descriptors and PrettyMethodParameters the list of their names in Java, separated by commas; strings are found
  through the tables of types and strings and the offset of their data, past the LEB128 length. The Dex file lies in the stored
  contents of one segment, and class names are non-empty, have no slash and do not start with a bracket.\<close>

theorem method_parameters:
  assumes vs: "valid_seg c i" and d: "dex_opened c ofs df d" and m: "has_proto c i d m ts" and ok: "\<forall>t\<in>set ts. java_ok t"
  shows "PrettyMethodParameters c ofs df m = Inr (''('' @ comma_join (map readable_name ts) @ '')'') \<and>
    (\<exists>p. GetMethodPrototype c ofs df m = Inr p \<and>
       GetMethodParametersDescriptor c ofs df p = Inr (''('' @ concat (map descriptor_of ts) @ '')''))"
proof -
  obtain k :: u16 where mi: "inside c i m 8" and w: "target_word c (m + 2) 2 = ucast k"
    and pr: "has_params c i d (db_protos d + ucast (12 * ucast k :: u32)) ts"
    using m by (auto simp: has_proto_def)
  let ?p = "db_protos d + ucast (12 * ucast k :: u32)"
  have pi: "inside c i ?p 12" using pr by (simp add: has_params_def)
  have "MethodId_proto_idx c m = Inr k" using value16_at [OF vs mi, of 2 k] w by (simp add: MethodId_proto_idx_def)
  then have proto: "GetMethodPrototype c ofs df m = Inr ?p"
    using d by (simp add: GetMethodPrototype_def GetProtoId_def dex_table_def dex_opened_def ProtoId_SIZE_def)
  obtain off ids where po: "target_word c (?p + 8) 4 = ucast (off :: u32)" and o: "off = 0 \<and> ts = [] \<or>
      off \<noteq> 0 \<and> has_type_list c i d (db_data d + ucast off) ids \<and> length ids = length ts \<and>
      (\<forall>k<length ids. has_type c i d (ids ! k) (descriptor_of (ts ! k)))"
    using pr by (auto simp: has_params_def)
  have off: "ProtoId_parameters_off c ?p = Inr off" using value32_at [OF vs pi, of 8 off] po by (simp add: ProtoId_parameters_off_def)
  note v = valid_at [OF vs mi] valid_at [OF vs pi]
  show ?thesis
  proof (cases "off = 0")
    case True
    then have "ts = []" using o by simp
    then show ?thesis using True v proto off
      by (simp add: PrettyMethodParameters_def GetMethodParametersDescriptor_def if_valid_def comma_join_def)
  next
    case False
    then have l: "has_type_list c i d (db_data d + ucast off) ids" and n: "length ids = length ts"
      and ty: "\<forall>k<length ids. has_type c i d (ids ! k) (descriptor_of (ts ! k))"
      using o by blast+
    have li: "inside c i (db_data d + ucast off) (4 + 2 * length ids)" "target_word c (db_data d + ucast off) 4 = of_nat (length ids)"
        "length ids < 2 ^ 31" using l by (simp_all add: has_type_list_def)
    have "(ucast (of_nat (length ids) :: u32) :: u64) = of_nat (length ids)" "unat (of_nat (length ids) :: u32) = length ids"
      using li(3) by (simp_all add: unsigned_of_nat unat_of_nat take_bit_nat_eq_self)
    then have sz: "TypeList_size c (db_data d + ucast off) = Inr (of_nat (length ids))" "unat (of_nat (length ids) :: u32) = length ids"
      using value32_at [OF vs li(1), of 0 "of_nat (length ids)"] li(2) by (simp_all add: TypeList_size_def)
    have tn: "\<forall>k<length ids. has_type c i d (ids ! k) (map descriptor_of ts ! k)" "length (map descriptor_of ts) = length ids" using ty n by simp_all
    have "type_descriptors (length ids) 0 c ofs df (TypeList_list (db_data d + ucast off)) = Inr (concat (map descriptor_of ts))"
      using descriptors_read [OF vs d l tn, of 0] by simp
    moreover have "pretty_types (length ids) 0 c ofs df (TypeList_list (db_data d + ucast off)) = Inr (comma_join (map readable_name ts))"
      using pretty_read [OF vs d l ty n [symmetric] ok, of 0] by simp
    ultimately show ?thesis
      using False v proto off sz d by (simp add: PrettyMethodParameters_def GetMethodParametersDescriptor_def if_valid_def dex_opened_def)
  qed
qed

lemma demo_dex_opened: "dex_opened demo_dex (DexFile_Init34 demo_dex) 0x1000 demo_bases"
proof -
  have "bits (core_machine demo_dex) = 64" by (simp add: demo_dex_def flat_defs)
  then have o: "df_string_ids (DexFile_Init34 demo_dex) = 80" "df_type_ids (DexFile_Init34 demo_dex) = 88"
      "df_proto_ids (DexFile_Init34 demo_dex) = 112" "df_data_begin (DexFile_Init34 demo_dex) = 24"
    by (simp_all add: DexFile_Init34_def)
  show ?thesis
    unfolding dex_opened_def by (intro conjI demo_dex_member) (simp_all add: o demo_bases_def demo_dex_bytes_def le_word_def)
qed

lemma demo_leb: "leb_bytes 1 = [1]" "leb_bytes 2 = [2]"
  by (subst leb_bytes.simps, simp)+

lemma demo_dex_types: "has_type demo_dex 0 demo_bases 0 ''I''" "has_type demo_dex 0 demo_bases 1 ''[B''"
proof -
  have sh: "shown demo_dex 0 0x10A4 (leb_bytes 1 @ str_bytes ''I'' @ [0])" "shown demo_dex 0 0x10A7 (leb_bytes 2 @ str_bytes ''[B'' @ [0])"
    using demo_dex_shown [of "[1, 73, 0]" 164] demo_dex_shown [of "[2, 91, 66, 0]" 167]
    by (simp_all add: demo_leb str_bytes_def demo_dex_bytes_def)
  have ins: "inside demo_dex 0 0x1078 4" "inside demo_dex 0 0x107C 4" "inside demo_dex 0 0x1080 4" "inside demo_dex 0 0x1084 4"
    using demo_dex_inside [of 4 120] demo_dex_inside [of 4 124] demo_dex_inside [of 4 128] demo_dex_inside [of 4 132] by simp_all
  have w: "target_word demo_dex 0x1078 4 = 164" "target_word demo_dex 0x107C 4 = 167" "target_word demo_dex 0x1080 4 = 0"
      "target_word demo_dex 0x1084 4 = 1"
    using demo_dex_word [of 120 4] demo_dex_word [of 124 4] demo_dex_word [of 128 4] demo_dex_word [of 132 4]
    by (simp_all add: demo_dex_bytes_def le_word_def)
  have s: "has_string demo_dex 0 demo_bases 0 ''I''" "has_string demo_dex 0 demo_bases 1 ''[B''"
    unfolding has_string_def
    by (intro conjI exI [of _ 164] exI [of _ 1]; use sh ins w in \<open>simp add: no_nul_def char_of_def demo_bases_def\<close>)
      (intro conjI exI [of _ 167] exI [of _ 2]; use sh ins w in \<open>simp add: no_nul_def char_of_def demo_bases_def\<close>)
  show "has_type demo_dex 0 demo_bases 0 ''I''" "has_type demo_dex 0 demo_bases 1 ''[B''"
    unfolding has_type_def using s ins w by (auto simp: demo_bases_def intro: exI [of _ 0] exI [of _ 1])
qed

lemma demo_dex_proto: "has_proto demo_dex 0 demo_bases 0x1094 [JPrimitive (CHR ''I''), JArray (JPrimitive (CHR ''B''))]"
proof -
  have ins: "inside demo_dex 0 0x1094 8" "inside demo_dex 0 0x1088 12" "inside demo_dex 0 0x109C 8"
    using demo_dex_inside [of 8 148] demo_dex_inside [of 12 136] demo_dex_inside [of 8 156] by simp_all
  have w: "target_word demo_dex 0x1096 2 = 0" "target_word demo_dex 0x1090 4 = 156" "target_word demo_dex 0x109C 4 = 2"
      "target_word demo_dex 0x10A0 2 = 0" "target_word demo_dex 0x10A2 2 = 1"
    using demo_dex_word [of 150 2] demo_dex_word [of 144 4] demo_dex_word [of 156 4] demo_dex_word [of 160 2] demo_dex_word [of 162 2]
    by (simp_all add: demo_dex_bytes_def le_word_def)
  have "has_type_list demo_dex 0 demo_bases 0x109C [0, 1]"
    using ins(3) w by (simp add: has_type_list_def All_less_Suc2 numeral_2_eq_2 [symmetric] less_2_cases_iff)
  then have "has_params demo_dex 0 demo_bases 0x1088 [JPrimitive (CHR ''I''), JArray (JPrimitive (CHR ''B''))]"
    unfolding has_params_def using ins(2) w(2) demo_dex_types
    by (intro conjI exI [of _ 156] exI [of _ "[0, 1]"] disjI2) (simp_all add: demo_bases_def less_2_cases_iff All_less_Suc2)
  then show ?thesis
    unfolding has_proto_def using ins(1) w(1) by (intro conjI exI [of _ 0]) (simp_all add: demo_bases_def)
qed

theorem method_parameters_witness:
  "PrettyMethodParameters demo_dex (DexFile_Init34 demo_dex) 0x1000 0x1094 = Inr ''(int, byte[])'' \<and>
   (\<exists>p. GetMethodPrototype demo_dex (DexFile_Init34 demo_dex) 0x1000 0x1094 = Inr p \<and>
      GetMethodParametersDescriptor demo_dex (DexFile_Init34 demo_dex) 0x1000 p = Inr ''(I[B)'')"
proof -
  have "\<forall>t\<in>set [JPrimitive (CHR ''I''), JArray (JPrimitive (CHR ''B''))]. java_ok t" by (simp add: primitive_name_def)
  from method_parameters [OF demo_dex_seg demo_dex_opened demo_dex_proto this]
  show ?thesis by (simp add: comma_join_def primitive_name_def)
qed

end
