(* ===== verification/Spec2Isabelle.thy ===== *)
theory Spec2Isabelle
  imports LoadProps PatchProps LinkProps RegProps ContextProps ZipProps PropAreaProps ArtProps
    DwarfLoops DwarfLeb SaveProps FakeProps FakeNames DexSigs
begin

text \<open>
  OpenCoreAnalysisKit loads the core file of a crashed Linux or Android process and lets its user
  read, patch and explain the memory of that process. The program is a library (\<open>src/core\<close>,
  \<open>src/utils\<close>) that presents the memory, the notes and the shared libraries of the process, a second
  library (\<open>src/android\<close>) that understands the Android runtime in that memory, and the commands of a
  shell (\<open>src/parser\<close>). This development models the first one nearly whole and the parts of the other two
  that decode or produce binary data.

  \<^bold>\<open>How the parts interact.\<close> \<open>CoreApi::Load\<close> maps a core file, chooses one of five architectures, and reads
  the program headers: loads become segments, notes give registers, the auxiliary vector and the
  list of mapped files. From the auxiliary vector it finds the dynamic section, the debug structure and
  the list of link maps; each library file that can be found is mapped over its segment when the
  bytes agree. Every later read and write goes through the segment found by binary search: to the
  overlay if there is one, else to the file mapping, else to the core file. Typed references, symbol
  lookup, the unwinders, the property areas, the stack maps of the runtime and the DWARF reader
  are clients of this interface, and the core writer saves what it presents.

  \<^bold>\<open>Theories of the core library.\<close>

  \<^item> \<open>Prelude\<close>: results with the errors of the program, bytes and little-endian words, the host
    memory (a map from host addresses to bytes that is partial, so that a wild host access is the error
    \<open>HostFault\<close>), C strings, lemmas on lists and words.
  \<^item> \<open>BaseUtils\<close>: \<open>src/utils/base/utils.cpp\<close> and \<open>src/core/common/bit.h\<close> -- rounding, masks, CRC32 and CRC64,
    hexadecimal printing and reading.
  \<^item> \<open>Blocks\<close>: \<open>src/utils/base/linux/memory_map.cpp\<close>, \<open>src/core/common/block.h\<close>, \<open>load_block.h\<close>,
    \<open>load_block.cpp\<close>, \<open>syment.h\<close> -- a segment and its backings: the core file, a mapped file, an overlay.
    \<open>Segments\<close> shows what a byte of a segment is after every change of its backings.
  \<^item> \<open>Notes\<close>: \<open>src/core/common/note_block.cpp\<close>, \<open>auxv.cpp\<close>, \<open>file.h\<close>; \<open>NoteProps\<close>: the setters of the
    auxiliary vector keep its entries and the bytes of the note in step.
  \<^item> \<open>CoreState\<close>: \<open>src/core/api/core.h\<close> and \<open>core.cpp\<close> -- the state \<open>CoreApi\<close> keeps (the two load vectors, notes,
    link maps) and its memory interface: lookup by binary search, \<open>v2r\<close>, \<open>Read\<close>, \<open>Write\<close>, \<open>newLoadBlock\<close>.
    \<open>CoreLemmas\<close> and \<open>CoreAlloc\<close> hold the invariant (sorted, disjoint segments with allocated backings)
    and its lemmas, \<open>CoreProps\<close> the properties: the binary search is equivalent to the linear one, reads
    return what writes stored, and nothing else changes.
  \<^item> \<open>MemoryRefs\<close>: \<open>src/core/api/memory_ref.h\<close> -- the typed pointer into target memory with its cached
    segment; \<open>RefProps\<close>: the cache never changes what is read.
  \<^item> \<open>ElfTables\<close>: \<open>src/core/api/elf.cpp\<close> and \<open>src/core/common/link_map.cpp\<close> -- dynamic sections, symbols, link
    maps; \<open>ElfProps\<close>: symbol tables and lookups.
  \<^item> \<open>ElfLoad\<close> and \<open>Machines\<close>: \<open>load64\<close> and \<open>load32\<close> of \<open>src/core/lp64/core.cpp\<close> and \<open>src/core/lp32/core.cpp\<close>, one
    definition over the word class, the five architectures and \<open>CoreApi::Load\<close>. \<open>LoadProps\<close>: loading
    gives one segment per header and establishes the invariant, on arm64 with the address mask its notes leave.
  \<^item> \<open>Zip\<close> and \<open>ZipProps\<close>: \<open>src/utils/zip\<close>, the central directory and the local headers of an archive.
  \<^item> \<open>Libraries\<close>: the link map walk, \<open>exec\<close>, \<open>dlopen\<close>, \<open>readsym\<close> of the two word classes and the symbol queries of
    \<open>CoreApi\<close>; \<open>PatchProps\<close>: sequences of patches and taking them back, addresses and host pointers, mapping a
    file over a segment; \<open>LinkProps\<close>: the walk over a list of link maps returns that list.
  \<^item> \<open>Registers\<close> and \<open>Unwind\<close>: \<open>thread_info.cpp\<close> and \<open>unwind.cpp\<close> of the five architectures, \<open>src/core/api/unwind.cpp\<close>,
    \<open>src/core/common/native_frame.cpp\<close>. \<open>RegProps\<close>: register round trips; \<open>UnwindProps\<close>: the frame pointer
    walk terminates and follows the chain; \<open>ContextProps\<close>: the signal context found by the scan.
  \<^item> \<open>Dwarf\<close> and \<open>DwarfInfo\<close>: \<open>src/core/api/dwarf.cpp\<close> -- LEB128 numbers, attribute forms, abbreviations, the walk
    over the entries of a unit, type resolution, section lookup. \<open>DwarfProps\<close>: type references stay in
    range; \<open>DwarfTree\<close>: the walk lists the structures of the tree the bytes encode; \<open>DwarfLoops\<close>: the
    loops return, and the input on which one does not; \<open>DwarfLeb\<close>: the LEB128 round trip.

  \<^bold>\<open>Theories of the Android library and of the commands.\<close>

  \<^item> \<open>PropArea\<close> and \<open>PropAreaProps\<close>: \<open>src/android/properties\<close> -- lookup and enumeration in the tree of properties.
  \<^item> \<open>BitRegion\<close>, \<open>StackMaps\<close>, \<open>CodeInfo\<close>: \<open>src/android/art/base\<close> and \<open>src/android/art/runtime/oat/stack_map.cpp\<close> -- bit
    regions, bit tables, the code information of compiled methods for each version of the format.
    \<open>BitProps\<close>, \<open>BitCodes\<close>, \<open>ArtProps\<close>: bit-level round trips, table lookups, the virtual registers of a
    stack map.
  \<^item> \<open>DexNames\<close> and \<open>DexFile\<close>: \<open>src/android/art/dex\<close> -- UTF-16 conversion, type descriptors, primitive types, access
    flags; the offset tables of \<open>DexFile\<close> per Android version, the look-ups of strings, types, fields, methods and
    prototypes, and the two formats of code items. \<open>DexText\<close>: the conversion round trip and the names of
    types; \<open>DexItems\<close>: the code item header is what the runtime encoded; \<open>DexSigs\<close>: the signature of a method read
    through the tables.
  \<^item> \<open>SaveCore\<close> and \<open>SaveProps\<close>: \<open>FakeCore::execute\<close> of \<open>src/parser/command/fake/core\<close> -- the writer that saves the
    current core as a new file; a saved core loads back with the memory of the saved parts of its segments.
  \<^item> \<open>FakeBuild\<close>: the same directory -- the builder of a core image from the description of a crash, for the five
    architectures. \<open>NoteRead\<close> reads notes one by one, \<open>FakeImage\<close> gives the layout of the image (the locales
    \<open>built_headers\<close> and \<open>built_image\<close>), and \<open>FakeProps\<close> shows that a built core loads with what the description
    says.
  \<^item> \<open>FakeLinks\<close>: \<open>src/parser/command/fake/map\<close> and the fake libraries of the builders -- a segment with program
    headers, dynamic section, link maps and names, libraries inside of archives, calibration against files.
    \<open>FakeRun\<close>: \<open>execute\<close> of the five architectures as a whole, and \<open>src/parser/command/fake/exec\<close>, which rebuilds
    the dynamic section of an executable.
  \<^item> \<open>FakeArea\<close>, \<open>FakePlan\<close>, \<open>FakeListing\<close>: sequences of writes into one overlaid segment, the writes of the builder as
    such a sequence, and what the segment holds afterwards. \<open>FakeWalk\<close> follows the readers of the core library over
    it, \<open>FakeNames\<close> shows that they list the libraries of the description with their names and addresses.

  \<^bold>\<open>Parameters.\<close> The kernel (\<open>stat\<close>, \<open>open\<close>, \<open>mmap\<close>, the page size) is the record \<open>os_env\<close>, its documented
  behaviour the predicate \<open>os_ok\<close>. The file search of the shell, the xz and zstd decoders and the two
  demanglers are functions the definitions take. An uninitialised C++ value is an argument (\<open>junk\<close>,
  \<open>indet\<close>), so a theorem holds for each of its values. The static variables of the stack map classes and the
  version of the compiled files are the arguments \<open>st\<close> and \<open>oat\<close>.

  \<^bold>\<open>Termination, fuel and widths.\<close> Addresses are 64-bit words and wrap as they do in the code. A loop over
  host memory whose cursor could wrap stops with \<open>HostFault\<close> there (note items, dynamic entries, the rest of a
  mapping, C strings, the scan for a signal context, virtual register words): the host map is never total, so
  the code faults before it wraps. Loops over data that may be cyclic are
  partial functions into option (link maps, properties, DWARF entries and units), with theorems saying when
  they return and, for DWARF, an input on which they do not. The others have measures (the frame pointer
  walk, LEB128, abbreviations, chunks of bits). Type names are resolved to depth 9 as in the
  code. A shift of a 64-bit value by 64 or more, undefined in C++, is taken modulo 64 as the supported machines
  do, and operands whose order C++ leaves open are evaluated from left to right.

  \<^bold>\<open>Not modelled.\<close> The mirrors of runtime classes in \<open>src/android/art\<close> (offset tables and object walks that
  end in output), disassembly, logcat and binder dumps, the shell with its commands and output
  formats, the parsers of tombstone texts (their result is the record \<open>crash_stream\<close>), live capture through
  ptrace, the glue to capstone and liblzma, logging, the vendored LLVM demangler, and the Windows variants of
  modelled files.
\<close>

end
